(* ===== verification/Rio_Prelude.thy ===== *)
theory Rio_Prelude
  imports Main "HOL-Library.Word"
begin

unbundle bit_operations_syntax

text \<open>
  Shared vocabulary of the development: the fixed-width integer types of the C sources, the
  error numbers they return, the ascending search loop that several allocators use, and the
  contracts (locales) that more than one component implements.

  C integers of a fixed width are words of that width, so that comparisons are unsigned and
  arithmetic wraps as in the sources; a plain \<open>int\<close> that only carries a return code is an
  \<open>int\<close>. An out-parameter \<open>T *p\<close> is an argument of type \<open>T option\<close>: \<open>None\<close> is the null
  pointer, \<open>Some x\<close> a pointer to an object whose content is \<open>x\<close> at the call, and the operation
  returns the updated content.
\<close>

section \<open>Machine integers and error numbers\<close>

type_synonym u8 = "8 word"
type_synonym u16 = "16 word"
type_synonym u32 = "32 word"
type_synonym u64 = "64 word"

abbreviation (input) EPERM :: int where "EPERM \<equiv> 1"
abbreviation (input) ENOENT :: int where "ENOENT \<equiv> 2"
abbreviation (input) ENOMEM :: int where "ENOMEM \<equiv> 12"
abbreviation (input) EEXIST :: int where "EEXIST \<equiv> 17"
abbreviation (input) EINVAL :: int where "EINVAL \<equiv> 22"
abbreviation (input) ERANGE :: int where "ERANGE \<equiv> 34"
abbreviation (input) ENOTUNIQ :: int where "ENOTUNIQ \<equiv> 76"
abbreviation (input) ENOBUFS :: int where "ENOBUFS \<equiv> 105"
abbreviation (input) EKEYEXPIRED :: int where "EKEYEXPIRED \<equiv> 127"

text \<open>Widening keeps the value; narrowing keeps it when it fits.\<close>

lemma unat_ucast_up:
  fixes x :: "'a::len word"
  assumes "LENGTH('a) \<le> LENGTH('b::len)"
  shows "unat (ucast x :: 'b word) = unat x"
proof -
  have "unat x < 2 ^ LENGTH('a)"
    by (rule unsigned_less)
  also have "\<dots> \<le> (2 :: nat) ^ LENGTH('b)"
    using assms by (intro power_increasing) auto
  finally show ?thesis
    by (simp add: unsigned_ucast_eq take_bit_nat_eq_self)
qed

lemma unat_u16_less: "unat (x :: u16) < 65536"
  using unsigned_less [of x, where ?'a = nat] by simp

lemma unat_ucast_u16_u32 [simp]: "unat (ucast (x :: u16) :: u32) = unat x"
  using unat_u16_less [of x] by (simp add: unsigned_ucast_eq take_bit_nat_eq_self)

lemma unat_ucast_u32_u16: "unat x < 65536 \<Longrightarrow> unat (ucast (x :: u32) :: u16) = unat x"
  by (simp add: unsigned_ucast_eq take_bit_nat_eq_self)

text \<open>
  Bit fields. Masks that occur in the sources as hexadecimal numbers are rewritten to \<open>mask\<close> and
  \<open>push_bit\<close>, so that the bits of a masked word are known; a word below \<open>2 ^ k\<close> has no bit from \<open>k\<close> on.
\<close>

definition fits :: "nat \<Rightarrow> 'a::len word \<Rightarrow> bool" where
  "fits k x \<longleftrightarrow> unat x < 2 ^ k"

lemma fits_bit:
  assumes "fits k x" and "bit x n"
  shows "n < k"
proof (rule ccontr)
  assume "\<not> n < k"
  then have "unat x < 2 ^ n"
    using assms(1) power_increasing [of k n "2 :: nat"] unfolding fits_def by linarith
  then have "\<not> bit (unat x) n"
    by (simp add: bit_iff_odd)
  with assms(2) show False
    by (simp add: bit_unsigned_iff)
qed

lemma bit_fits:
  fixes x :: "'a::len word"
  assumes "\<And>n. bit x n \<Longrightarrow> n < k"
  shows "fits k x"
proof -
  have "take_bit k x = x"
    by (rule bit_word_eqI) (use assms in \<open>auto simp: bit_take_bit_iff\<close>)
  then have "take_bit k (unat x) = unat x"
    by (metis unsigned_take_bit_eq)
  then show ?thesis
    by (simp add: take_bit_nat_eq_self_iff fits_def)
qed

lemma fits_iff: "fits k x \<longleftrightarrow> (\<forall>n. bit x n \<longrightarrow> n < k)"
  using fits_bit bit_fits by blast

lemma fits_xor: "fits k x \<Longrightarrow> fits k y \<Longrightarrow> fits k (x XOR y)"
  by (auto simp: fits_iff bit_simps)

lemma fits_or: "fits k x \<Longrightarrow> fits k y \<Longrightarrow> fits k (x OR y)"
  by (auto simp: fits_iff bit_simps)

lemma u32_masks:
  "(0x01::u32) = mask 1" "(0x03::u32) = mask 2" "(0x07::u32) = mask 3" "(0x0F::u32) = mask 4" "(0x1F::u32) = mask 5"
  "(0x3F::u32) = mask 6" "(0x7F::u32) = mask 7" "(0xFF::u32) = mask 8" "(0xFFFF::u32) = mask 16"
  "(0x04::u32) = push_bit 2 (mask 1)" "(0x80::u32) = push_bit 7 (mask 1)" "(0x3E::u32) = push_bit 1 (mask 5)"
  "(0x7E::u32) = push_bit 1 (mask 6)" "(0xF8::u32) = push_bit 3 (mask 5)" "(0x38::u32) = push_bit 3 (mask 3)"
  "(0x30::u32) = push_bit 4 (mask 2)" "(0x70::u32) = push_bit 4 (mask 3)" "(0xF0::u32) = push_bit 4 (mask 4)"
  "(0xE0::u32) = push_bit 5 (mask 3)" "(0xC0::u32) = push_bit 6 (mask 2)" "(0xFC::u32) = push_bit 2 (mask 6)"
  "(0x7F8::u32) = push_bit 3 (mask 8)" "(0x1F00::u32) = push_bit 8 (mask 5)" "(0xFF00::u32) = push_bit 8 (mask 8)"
  "(0xFF0000::u32) = push_bit 16 (mask 8)" "(0xE0000000::u32) = push_bit 29 (mask 3)"
  by (simp_all add: mask_eq_exp_minus_1)

section \<open>The ascending search loop\<close>

lemma unat_succ_less:
  fixes i :: "'a::len word"
  assumes "i < hi"
  shows "unat (i + 1) = Suc (unat i)"
proof -
  have "Suc (unat i) \<le> unat hi"
    using assms by (simp add: word_less_nat_alt Suc_le_eq)
  also have "unat hi < 2 ^ LENGTH('a)"
    by (rule unsigned_less)
  finally show ?thesis
    by (simp add: unat_word_ariths)
qed

lemma succ_le_iff:
  fixes i :: "'a::len word"
  assumes "i < hi"
  shows "i + 1 \<le> j \<longleftrightarrow> i < j"
  using unat_succ_less [OF assms] by (simp add: word_le_nat_alt word_less_nat_alt Suc_le_eq)

text \<open>
  \<^verbatim>\<open>for (i = lo; i < hi; i++) if (p(i)) goto found;\<close> The index never wraps, because it stays
  below \<open>hi\<close>.
\<close>

function find_up :: "('a::len word \<Rightarrow> bool) \<Rightarrow> 'a word \<Rightarrow> 'a word \<Rightarrow> 'a word option" where
  "find_up p i hi = (if i < hi then if p i then Some i else find_up p (i + 1) hi else None)"
  by pat_completeness auto
termination
proof (relation "measure (\<lambda>(p, i, hi). unat hi - unat i)")
  fix p :: "'a word \<Rightarrow> bool" and i hi :: "'a word"
  assume "i < hi"
  then show "((p, i + 1, hi), (p, i, hi)) \<in> measure (\<lambda>(p, i, hi). unat hi - unat i)"
    using unat_succ_less [of i hi] by (simp add: word_less_nat_alt)
qed simp

declare find_up.simps [simp del]

lemma find_up_Some:
  assumes "find_up p lo hi = Some i"
  shows "lo \<le> i \<and> i < hi \<and> p i \<and> (\<forall>j. lo \<le> j \<and> j < i \<longrightarrow> \<not> p j)"
  using assms
proof (induction p lo hi rule: find_up.induct)
  case (1 p lo hi)
  show ?case
  proof (cases "lo < hi \<and> \<not> p lo")
    case True
    with "1.prems" have rec: "find_up p (lo + 1) hi = Some i"
      by (simp add: find_up.simps [of p lo])
    with True "1.IH" have *: "lo + 1 \<le> i \<and> i < hi \<and> p i \<and> (\<forall>j. lo + 1 \<le> j \<and> j < i \<longrightarrow> \<not> p j)"
      by blast
    with True succ_le_iff [of lo hi] show ?thesis
      by (auto simp: order.order_iff_strict)
  next
    case False
    with "1.prems" show ?thesis
      by (auto simp: find_up.simps [of p lo] split: if_splits)
  qed
qed

lemma find_up_None: "find_up p lo hi = None \<longleftrightarrow> (\<forall>j. lo \<le> j \<and> j < hi \<longrightarrow> \<not> p j)"
proof (induction p lo hi rule: find_up.induct)
  case (1 p lo hi)
  show ?case
  proof (cases "lo < hi \<and> \<not> p lo")
    case True
    with "1.IH" have "find_up p (lo + 1) hi = None \<longleftrightarrow> (\<forall>j. lo + 1 \<le> j \<and> j < hi \<longrightarrow> \<not> p j)"
      by blast
    with True succ_le_iff [of lo hi] show ?thesis
      by (auto simp: find_up.simps [of p lo] order.order_iff_strict)
  next
    case False
    then show ?thesis
      by (auto simp: find_up.simps [of p lo])
  qed
qed

lemma find_up_empty: "hi \<le> lo \<Longrightarrow> find_up p lo hi = None"
  by (simp add: find_up.simps leD)

lemma find_up_first: "lo < hi \<Longrightarrow> p lo \<Longrightarrow> find_up p lo hi = Some lo"
  by (simp add: find_up.simps)

lemma find_up_skip:
  assumes "lo \<le> i" and "i < hi" and "p i" and "\<And>j. lo \<le> j \<Longrightarrow> j < i \<Longrightarrow> \<not> p j"
  shows "find_up p lo hi = Some i"
proof (cases "find_up p lo hi")
  case None
  with assms show ?thesis
    by (auto simp: find_up_None)
next
  case (Some k)
  from find_up_Some [OF this] assms have "\<not> k < i" and "\<not> i < k"
    by blast+
  with Some show ?thesis
    by simp
qed

section \<open>Running a fallible operation over a list\<close>

fun run_all :: "('a \<Rightarrow> 's \<Rightarrow> 's option) \<Rightarrow> 'a list \<Rightarrow> 's \<Rightarrow> 's option" where
  "run_all f [] s = Some s"
| "run_all f (x # xs) s = (case f x s of None \<Rightarrow> None | Some s' \<Rightarrow> run_all f xs s')"

section \<open>Contracts shared by several components\<close>

text \<open>
  An identifier allocator: \<open>alloc\<close> serves a request with an identifier that is not in use and marks
  it so. The contract is enough for the main client fact, that identifiers handed out in a row are
  pairwise distinct and none was in use before. \<open>alloc_all\<close> is that client: it serves a list of
  requests and stops at the first failure.
\<close>

fun alloc_all :: "('r \<Rightarrow> 's \<Rightarrow> ('i \<times> 's) option) \<Rightarrow> 'r list \<Rightarrow> 's \<Rightarrow> ('i list \<times> 's) option" where
  "alloc_all f [] s = Some ([], s)"
| "alloc_all f (r # rs) s =
     (case f r s of None \<Rightarrow> None
      | Some (i, s') \<Rightarrow> (case alloc_all f rs s' of None \<Rightarrow> None | Some (is, t) \<Rightarrow> Some (i # is, t)))"

locale id_allocator =
  fixes alloc :: "'r \<Rightarrow> 's \<Rightarrow> ('i \<times> 's) option"
    and used :: "'s \<Rightarrow> 'i set"
    and invar :: "'s \<Rightarrow> bool"
  assumes alloc_fresh: "invar s \<Longrightarrow> alloc r s = Some (i, s') \<Longrightarrow> i \<notin> used s"
    and alloc_used: "invar s \<Longrightarrow> alloc r s = Some (i, s') \<Longrightarrow> used s' = insert i (used s)"
    and alloc_invar: "invar s \<Longrightarrow> alloc r s = Some (i, s') \<Longrightarrow> invar s'"
begin

lemmas alloc_laws = alloc_fresh alloc_used alloc_invar

lemma alloc_all_distinct:
  assumes "invar s" and "alloc_all alloc rs s = Some (is, t)"
  shows "distinct is \<and> set is \<inter> used s = {} \<and> used t = used s \<union> set is \<and> invar t"
  using assms
proof (induction rs arbitrary: s "is")
  case Nil
  then show ?case by simp
next
  case (Cons r rs)
  from Cons.prems(2) obtain i s' js where i: "alloc r s = Some (i, s')"
    and js: "alloc_all alloc rs s' = Some (js, t)" and is_eq: "is = i # js"
    by (auto split: option.splits)
  from i Cons.prems(1) have new: "i \<notin> used s" "used s' = insert i (used s)" "invar s'"
    by (auto dest: alloc_laws)
  from Cons.IH [OF new(3) js] new(1,2) show ?case
    by (auto simp: is_eq)
qed

end

text \<open>
  A pool can also take an identifier back; released identifiers may be handed out again.
\<close>

locale id_pool = id_allocator alloc used invar
  for alloc :: "'r \<Rightarrow> 's \<Rightarrow> ('i \<times> 's) option" and used :: "'s \<Rightarrow> 'i set" and invar :: "'s \<Rightarrow> bool" +
  fixes release :: "'i \<Rightarrow> 's \<Rightarrow> 's option"
  assumes release_used: "invar s \<Longrightarrow> release i s = Some s' \<Longrightarrow> i \<in> used s \<and> used s' = used s - {i}"
    and release_invar: "invar s \<Longrightarrow> release i s = Some s' \<Longrightarrow> invar s'"
begin

lemma release_alloc:
  assumes "invar s" and "alloc r s = Some (i, s1)" and "release i s1 = Some s2"
  shows "used s2 = used s \<and> invar s2"
proof -
  from assms(1,2) have "i \<notin> used s" "used s1 = insert i (used s)" "invar s1"
    by (auto dest: alloc_laws)
  with assms(3) show ?thesis
    using release_used release_invar by blast
qed

lemma no_double_release:
  assumes "invar s" and "release i s = Some s'"
  shows "release i s' = None"
proof (cases "release i s'")
  case (Some t)
  from assms have "i \<notin> used s'" "invar s'"
    by (auto dest: release_used release_invar)
  with Some show ?thesis
    by (auto dest: release_used)
qed simp

end

end
