(* ===== verification/Rio_Did.thy ===== *)
theory Rio_Did
  imports Rio_Prelude
begin

text \<open>
  Device identifiers, \<^verbatim>\<open>fabric_management/libdid/src/did.c\<close> with the types of
  \<^verbatim>\<open>common/include/did.h\<close>. The two file-level variables \<open>did_ids\<close> and \<open>did_idx\<close> are the record
  \<open>did_state\<close>; the array is a function of its 32-bit index, and the invariant \<open>did_inv\<close> shows that
  no operation writes outside the 65536 entries the array has. Operations take the state and return
  \<open>(return code, out-parameter, state)\<close>. The \<open>calloc\<close> of \<open>did_alloc_dev16_grp\<close> is assumed to succeed:
  the code uses its result unchecked.
\<close>

section \<open>Data\<close>

datatype did_sz_t = invld_sz | dev08_sz | dev16_sz | dev32_sz

record did_t =
  did_value :: u32
  did_size :: did_sz_t

record did_grp_t =
  grp_size :: did_sz_t
  grp_base :: u32
  grp_next :: u16
  l_dev16 :: "u32 \<Rightarrow> did_sz_t"

record did_state =
  did_ids :: "u32 \<Rightarrow> did_sz_t"
  did_idx :: u32

abbreviation (input) RIO_LAST_DEV8 :: u32 where "RIO_LAST_DEV8 \<equiv> 0xFF"
abbreviation (input) RIO_LAST_DEV16 :: u32 where "RIO_LAST_DEV16 \<equiv> 0xFFFF"
abbreviation (input) RIO_RT_GRP_SZ :: u32 where "RIO_RT_GRP_SZ \<equiv> 0x100"

definition DID_INVALID_ID :: did_t where
  "DID_INVALID_ID = \<lparr>did_value = 0, did_size = invld_sz\<rparr>"

definition did_start :: did_state where
  "did_start = \<lparr>did_ids = (\<lambda>_. invld_sz), did_idx = 0\<rparr>"

definition did_init :: did_state where
  "did_init = \<lparr>did_ids = (\<lambda>_. invld_sz)(0 := dev08_sz, RIO_LAST_DEV8 := dev08_sz, RIO_LAST_DEV16 := dev16_sz),
               did_idx = 1\<rparr>"

definition did_lazy_init :: "did_state \<Rightarrow> did_state" where
  "did_lazy_init st = (if did_idx st = 0 then did_init else st)"

section \<open>Operations\<close>

definition did_size_from_int :: "did_sz_t option \<Rightarrow> u32 \<Rightarrow> int \<times> did_sz_t option" where
  "did_size_from_int sz asInt =
     (case sz of None \<Rightarrow> (- EINVAL, None)
      | Some _ \<Rightarrow>
          if asInt = 0 then (0, Some dev08_sz)
          else if asInt = 1 then (0, Some dev16_sz)
          else if asInt = 2 then (- EINVAL, Some dev32_sz)
          else (- EINVAL, Some invld_sz))"

definition did_size_as_int :: "did_sz_t \<Rightarrow> int" where
  "did_size_as_int sz =
     (case sz of dev08_sz \<Rightarrow> 0 | dev16_sz \<Rightarrow> 1 | dev32_sz \<Rightarrow> 2 | invld_sz \<Rightarrow> - 1)"

text \<open>The switch of \<open>did_create\<close> that sets \<open>upb\<close>; \<open>None\<close> is its default branch.\<close>

definition did_upb :: "did_sz_t \<Rightarrow> u32 option" where
  "did_upb sz =
     (case sz of dev08_sz \<Rightarrow> Some RIO_LAST_DEV8 | dev16_sz \<Rightarrow> Some RIO_LAST_DEV16 | _ \<Rightarrow> None)"

text \<open>The code after the label \<open>found\<close> of \<open>did_create\<close>, with \<open>did_idx\<close> set to \<open>i\<close>.\<close>

definition did_found :: "u32 \<Rightarrow> did_sz_t \<Rightarrow> did_state \<Rightarrow> int \<times> did_t option \<times> did_state" where
  "did_found i sz st =
     (0, Some \<lparr>did_value = i, did_size = sz\<rparr>,
      st\<lparr>did_ids := (did_ids st)(i := sz), did_idx := i + 1\<rparr>)"

definition did_create :: "did_t option \<Rightarrow> did_sz_t \<Rightarrow> did_state \<Rightarrow> int \<times> did_t option \<times> did_state" where
  "did_create did sz st0 =
     (let st = did_lazy_init st0; free = (\<lambda>i. did_ids st i = invld_sz) in
      case did of None \<Rightarrow> (- EINVAL, None, st)
      | Some _ \<Rightarrow>
         (case did_upb sz of None \<Rightarrow> (- EPERM, Some DID_INVALID_ID, st)
          | Some upb \<Rightarrow>
             (case find_up free (did_idx st) upb of Some i \<Rightarrow> did_found i sz st
              | None \<Rightarrow>
                 (case find_up free 1 (did_idx st) of Some i \<Rightarrow> did_found i sz st
                  | None \<Rightarrow> (- ENOBUFS, Some DID_INVALID_ID, st)))))"

text \<open>
  The range check that \<open>did_create_from_data\<close>, \<open>did_release\<close> and \<open>did_not_inuse\<close> open with: the
  reserved values first, then the switch on the size. Zero means that the value is legal.
\<close>

definition did_chk_range :: "u32 \<Rightarrow> did_sz_t \<Rightarrow> int" where
  "did_chk_range v sz =
     (if v = 0 \<or> RIO_LAST_DEV8 = v then - EINVAL
      else case sz of
        dev08_sz \<Rightarrow> if v > RIO_LAST_DEV8 then - EINVAL else 0
      | dev16_sz \<Rightarrow> if v \<ge> RIO_LAST_DEV16 then - EINVAL else 0
      | _ \<Rightarrow> - EPERM)"

definition did_create_from_data ::
  "did_t option \<Rightarrow> u32 \<Rightarrow> did_sz_t \<Rightarrow> did_state \<Rightarrow> int \<times> did_t option \<times> did_state" where
  "did_create_from_data did v sz st0 =
     (let st = did_lazy_init st0; rc = did_chk_range v sz in
      case did of None \<Rightarrow> (- EINVAL, None, st)
      | Some _ \<Rightarrow>
          if rc \<noteq> 0 then (rc, Some DID_INVALID_ID, st)
          else if did_ids st v = invld_sz
            then (0, Some \<lparr>did_value = v, did_size = sz\<rparr>, st\<lparr>did_ids := (did_ids st)(v := sz)\<rparr>)
          else (- ENOTUNIQ, Some DID_INVALID_ID, st))"

definition did_release :: "did_t \<Rightarrow> did_state \<Rightarrow> int \<times> did_state" where
  "did_release did st =
     (let v = did_value did; rc = did_chk_range v (did_size did) in
      if rc \<noteq> 0 then (rc, st)
      else if did_ids st v = invld_sz then (- EKEYEXPIRED, st)
      else (0, st\<lparr>did_ids := (did_ids st)(v := invld_sz)\<rparr>))"

definition did_get :: "did_t option \<Rightarrow> u32 \<Rightarrow> did_state \<Rightarrow> int \<times> did_t option \<times> did_state" where
  "did_get did v st0 =
     (let st = did_lazy_init st0 in
      case did of None \<Rightarrow> (- EINVAL, None, st)
      | Some _ \<Rightarrow>
          if v = 0 \<or> RIO_LAST_DEV8 = v \<or> v \<ge> RIO_LAST_DEV16 then (- EINVAL, Some DID_INVALID_ID, st)
          else if did_ids st v \<noteq> invld_sz
            then (0, Some \<lparr>did_value = v, did_size = did_ids st v\<rparr>, st)
          else (- EKEYEXPIRED, Some DID_INVALID_ID, st))"

definition did_from_value :: "did_t option \<Rightarrow> u32 \<Rightarrow> u32 \<Rightarrow> did_state \<Rightarrow> int \<times> did_t option \<times> did_state" where
  "did_from_value did v sz st0 =
     (let st = did_lazy_init st0;
          use = (\<lambda>s. (0, Some \<lparr>did_value = v, did_size = s\<rparr>,
                       if did_ids st v = invld_sz then st\<lparr>did_ids := (did_ids st)(v := s)\<rparr> else st))
      in case did of None \<Rightarrow> (- EINVAL, None, st)
      | Some _ \<Rightarrow>
          if v = 0 \<or> RIO_LAST_DEV8 = v then (- EINVAL, Some DID_INVALID_ID, st)
          else if sz = 0 then
            if v > RIO_LAST_DEV8 then (- EINVAL, Some DID_INVALID_ID, st) else use dev08_sz
          else if sz = 1 then
            if v \<ge> RIO_LAST_DEV16 then (- EINVAL, Some DID_INVALID_ID, st) else use dev16_sz
          else (- EPERM, Some DID_INVALID_ID, st))"

definition did_to_value :: "did_t \<Rightarrow> u32 option \<Rightarrow> u32 option \<Rightarrow> int \<times> u32 option \<times> u32 option" where
  "did_to_value did v sz =
     (case (v, sz) of
        (Some _, Some _) \<Rightarrow>
          (case did_size did of
             dev08_sz \<Rightarrow> (0, Some (did_value did), Some 0)
           | dev16_sz \<Rightarrow> (0, Some (did_value did), Some 1)
           | _ \<Rightarrow> (- EPERM, Some 0, Some 0))
      | _ \<Rightarrow> (- EINVAL, map_option (\<lambda>_. 0) v, map_option (\<lambda>_. 0) sz))"

definition did_not_inuse :: "did_t \<Rightarrow> did_state \<Rightarrow> int" where
  "did_not_inuse did st =
     (let v = did_value did; rc = did_chk_range v (did_size did) in
      if rc \<noteq> 0 then rc else if did_ids st v \<noteq> invld_sz then 1 else 0)"

definition did_get_value :: "did_t \<Rightarrow> u32" where
  "did_get_value did = did_value did"

definition did_get_size :: "did_t \<Rightarrow> did_sz_t" where
  "did_get_size did = did_size did"

definition did_equal :: "did_t \<Rightarrow> did_t \<Rightarrow> bool" where
  "did_equal did other = (did_value did = did_value other)"

subsection \<open>Groups of 256 identifiers\<close>

text \<open>The first inner loop of \<open>did_alloc_dev16_grp\<close>: it leaves \<open>avail\<close> true when it finds no used entry.\<close>

definition grp_avail :: "(u32 \<Rightarrow> did_sz_t) \<Rightarrow> u32 \<Rightarrow> bool" where
  "grp_avail ids idx =
     (find_up (\<lambda>g_idx. let chk_idx = idx + g_idx in
                 \<not> (chk_idx = 0 \<or> RIO_LAST_DEV8 = chk_idx \<or> RIO_LAST_DEV16 = chk_idx) \<and>
                 ids chk_idx \<noteq> invld_sz)
        0 RIO_RT_GRP_SZ = None)"

text \<open>The second inner loop: it marks every entry of the group, but the two last identifiers.\<close>

function grp_mark :: "u32 \<Rightarrow> u32 \<Rightarrow> (u32 \<Rightarrow> did_sz_t) \<Rightarrow> (u32 \<Rightarrow> did_sz_t)" where
  "grp_mark idx g_idx ids =
     (if g_idx < RIO_RT_GRP_SZ then
        let chk_idx = idx + g_idx in
        grp_mark idx (g_idx + 1)
          (if RIO_LAST_DEV8 = chk_idx \<or> RIO_LAST_DEV16 = chk_idx then ids else ids(chk_idx := dev16_sz))
      else ids)"
  by pat_completeness auto
termination
proof (relation "measure (\<lambda>(idx, g_idx, ids). 256 - unat g_idx)")
  fix idx g :: u32 and ids :: "u32 \<Rightarrow> did_sz_t" and c
  assume "g < RIO_RT_GRP_SZ" and "c = idx + g"
  then show "((idx, g + 1, if RIO_LAST_DEV8 = c \<or> RIO_LAST_DEV16 = c then ids else ids(c := dev16_sz)),
              (idx, g, ids)) \<in> measure (\<lambda>(idx, g_idx, ids). 256 - unat g_idx)"
    using unat_succ_less [of g RIO_RT_GRP_SZ] by (simp add: word_less_nat_alt)
qed simp

declare grp_mark.simps [simp del]

definition grp_new :: "u32 \<Rightarrow> did_grp_t" where
  "grp_new idx =
     \<lparr>grp_size = dev16_sz, grp_base = idx, grp_next = 1,
      l_dev16 = (\<lambda>_. invld_sz)(0 := dev16_sz, RIO_RT_GRP_SZ - 1 := dev16_sz)\<rparr>"

lemma unat_grp_step:
  fixes i :: u32
  assumes "i < 0x10000"
  shows "unat (i + RIO_RT_GRP_SZ) = unat i + 256"
proof -
  from assms have "unat i < 65536"
    by (simp add: word_less_nat_alt)
  then show ?thesis
    by (simp add: unat_word_ariths)
qed

function grp_search :: "u32 \<Rightarrow> did_state \<Rightarrow> (did_grp_t \<times> did_state) option" where
  "grp_search idx st =
     (if idx < 0x10000 then
        if grp_avail (did_ids st) idx
        then Some (grp_new idx, st\<lparr>did_ids := grp_mark idx 0 (did_ids st), did_idx := idx + RIO_RT_GRP_SZ\<rparr>)
        else grp_search (idx + RIO_RT_GRP_SZ) st
      else None)"
  by pat_completeness auto
termination
proof (relation "measure (\<lambda>(idx, st). 65536 - unat idx)")
  fix idx :: u32 and st :: did_state
  assume "idx < 0x10000"
  then show "((idx + RIO_RT_GRP_SZ, st), (idx, st)) \<in> measure (\<lambda>(idx, st). 65536 - unat idx)"
    using unat_grp_step [of idx] by (simp add: word_less_nat_alt)
qed simp

declare grp_search.simps [simp del]

definition grp_start :: "did_state \<Rightarrow> u32" where
  "grp_start st = (did_idx st - 1 + RIO_RT_GRP_SZ - 1) AND NOT (RIO_RT_GRP_SZ - 1)"

definition did_alloc_dev16_grp ::
  "did_grp_t option option \<Rightarrow> did_state \<Rightarrow> int \<times> did_grp_t option option \<times> did_state" where
  "did_alloc_dev16_grp grp st0 =
     (case grp of None \<Rightarrow> (- EINVAL, None, st0)
      | Some _ \<Rightarrow>
         (let st = did_lazy_init st0 in
          case grp_search (grp_start st) st of
            Some (g, st') \<Rightarrow> (0, Some (Some g), st')
          | None \<Rightarrow> (- ENOBUFS, Some None, st)))"

definition did_grp_resrv_did :: "did_grp_t option \<Rightarrow> did_t option \<Rightarrow> int \<times> did_grp_t option \<times> did_t option" where
  "did_grp_resrv_did grp did =
     (case (grp, did) of
        (Some g, Some d) \<Rightarrow>
          if RIO_RT_GRP_SZ \<le> ucast (grp_next g) then (- ENOBUFS, Some g, Some (d\<lparr>did_size := invld_sz\<rparr>))
          else
            (let slot = (\<lambda>offset. (offset + ucast (grp_next g)) mod RIO_RT_GRP_SZ) in
             case find_up (\<lambda>offset. l_dev16 g (slot offset) = invld_sz) 0 RIO_RT_GRP_SZ of
               Some offset \<Rightarrow>
                 (let idx = slot offset in
                  (0, Some (g\<lparr>l_dev16 := (l_dev16 g)(idx := grp_size g),
                              grp_next := ucast ((idx + 1) mod RIO_RT_GRP_SZ)\<rparr>),
                   Some \<lparr>did_value = grp_base g + idx, did_size = grp_size g\<rparr>))
             | None \<Rightarrow>
                 (- ENOBUFS, Some (g\<lparr>grp_next := ucast RIO_RT_GRP_SZ\<rparr>), Some (d\<lparr>did_size := invld_sz\<rparr>)))
      | _ \<Rightarrow> (- EINVAL, grp, did))"

definition did_grp_unresrv_did :: "did_grp_t option \<Rightarrow> did_t \<Rightarrow> int \<times> did_grp_t option" where
  "did_grp_unresrv_did grp did =
     (case grp of None \<Rightarrow> (- EINVAL, None)
      | Some g \<Rightarrow>
         (let idx = did_value did AND (RIO_RT_GRP_SZ - 1) in
          if did_size did \<noteq> dev16_sz then (- EINVAL, Some g)
          else if did_value did AND 0xFF00 \<noteq> grp_base g then (- EINVAL, Some g)
          else if idx = 0 \<or> RIO_RT_GRP_SZ - 1 = idx then (- EINVAL, Some g)
          else (0, Some (let g1 = g\<lparr>l_dev16 := (l_dev16 g)(idx := invld_sz)\<rparr> in
                         if RIO_RT_GRP_SZ \<le> ucast (grp_next g1) then g1\<lparr>grp_next := ucast idx\<rparr> else g1))))"

section \<open>Invariant and properties of single operations\<close>

named_theorems did_defs \<open>definitions of the device identifier operations\<close>

lemmas [did_defs] = did_create_def did_found_def did_create_from_data_def did_release_def did_get_def
  did_from_value_def did_to_value_def did_not_inuse_def did_get_value_def did_get_size_def

text \<open>
  Either nothing has happened yet, or the table is initialised: the search position is in range, the
  three reserved entries are taken, nothing beyond the array has been written, and no entry has the
  unsupported 32-bit size.
\<close>

definition did_table_ok :: "did_state \<Rightarrow> bool" where
  "did_table_ok st \<longleftrightarrow>
     1 \<le> did_idx st \<and> did_idx st \<le> 0x10000 \<and>
     did_ids st 0 \<noteq> invld_sz \<and> did_ids st RIO_LAST_DEV8 \<noteq> invld_sz \<and> did_ids st RIO_LAST_DEV16 \<noteq> invld_sz \<and>
     (\<forall>k. 0x10000 \<le> k \<longrightarrow> did_ids st k = invld_sz) \<and> (\<forall>k. did_ids st k \<noteq> dev32_sz)"

definition did_inv :: "did_state \<Rightarrow> bool" where
  "did_inv st \<longleftrightarrow> st = did_start \<or> did_table_ok st"

lemma did_table_ok_init: "did_table_ok did_init"
  by (auto simp: did_table_ok_def did_init_def)

lemma did_lazy_init_ok: "did_inv st \<Longrightarrow> did_table_ok (did_lazy_init st)"
  by (auto simp: did_inv_def did_lazy_init_def did_start_def did_table_ok_init)

lemma did_lazy_init_id: "did_table_ok st \<Longrightarrow> did_lazy_init st = st"
  by (auto simp: did_table_ok_def did_lazy_init_def)

lemma did_inv_lazy: "did_inv st \<Longrightarrow> did_inv (did_lazy_init st)"
  using did_lazy_init_ok by (simp add: did_inv_def)

lemma did_lazy_idem: "did_inv st \<Longrightarrow> did_lazy_init (did_lazy_init st) = did_lazy_init st"
  by (simp add: did_lazy_init_ok did_lazy_init_id)

text \<open>Legal identifier values: neither reserved nor beyond the 16-bit range.\<close>

definition did_legal :: "u32 \<Rightarrow> bool" where
  "did_legal v \<longleftrightarrow> v \<noteq> 0 \<and> v \<noteq> RIO_LAST_DEV8 \<and> v < RIO_LAST_DEV16"

lemma word_lt_cases: "(v::u32) < 0x10000 \<Longrightarrow> v \<noteq> 0xFFFF \<Longrightarrow> v < 0xFFFF"
  by unat_arith

lemma did_table_ok_freeD:
  assumes "did_table_ok st" and "did_ids st i = invld_sz" and "i < 0x10000"
  shows "did_legal i"
proof -
  from assms(1,2) have "i \<noteq> 0" "i \<noteq> RIO_LAST_DEV8" "i \<noteq> RIO_LAST_DEV16"
    by (auto simp: did_table_ok_def)
  with assms(3) show ?thesis
    by (simp add: did_legal_def word_lt_cases)
qed

text \<open>Writing a supported size to a legal entry, with the search position kept in range.\<close>

lemma did_table_ok_take:
  assumes "did_table_ok st" and "did_legal i" and "sz \<in> {dev08_sz, dev16_sz}"
  shows "did_table_ok (st\<lparr>did_ids := (did_ids st)(i := sz), did_idx := i + 1\<rparr>)"
    and "did_table_ok (st\<lparr>did_ids := (did_ids st)(i := sz)\<rparr>)"
proof -
  from assms(2) have i: "i < 0xFFFF"
    by (simp add: did_legal_def)
  then have "unat (i + 1) = Suc (unat i)" and "unat i < 65535"
    using unat_succ_less [OF i] by (auto simp: word_less_nat_alt)
  then have "1 \<le> i + 1" and "i + 1 \<le> 0x10000"
    by (simp_all add: word_le_nat_alt)
  moreover from i have "\<not> 0x10000 \<le> i"
    by (simp add: word_less_nat_alt word_le_nat_alt)
  ultimately show "did_table_ok (st\<lparr>did_ids := (did_ids st)(i := sz), did_idx := i + 1\<rparr>)"
    and "did_table_ok (st\<lparr>did_ids := (did_ids st)(i := sz)\<rparr>)"
    using assms by (auto simp: did_table_ok_def did_legal_def)
qed

lemma did_table_ok_free:
  assumes "did_table_ok st" and "did_legal i"
  shows "did_table_ok (st\<lparr>did_ids := (did_ids st)(i := invld_sz)\<rparr>)"
  using assms by (auto simp: did_table_ok_def did_legal_def)

lemma did_chk_range_legal:
  "did_chk_range v sz = 0 \<Longrightarrow> did_legal v \<and> sz \<in> {dev08_sz, dev16_sz}"
  by (cases sz) (auto simp: did_chk_range_def did_legal_def word_less_nat_alt word_le_nat_alt split: if_splits)

subsection \<open>Allocation of the next identifier\<close>

lemma did_upb_cases:
  "did_upb sz = Some upb \<Longrightarrow> sz \<in> {dev08_sz, dev16_sz} \<and> upb \<le> RIO_LAST_DEV16"
  by (cases sz) (auto simp: did_upb_def)

text \<open>
  Where the two loops of \<open>did_create\<close> find an identifier: the first free one between the search
  position \<open>i\<close> and the bound of the size, or, when there is none, the first free one below the
  search position. The second loop does not look at the size.
\<close>

definition did_search_result :: "u32 set \<Rightarrow> u32 \<Rightarrow> u32 \<Rightarrow> u32 \<Rightarrow> bool" where
  "did_search_result used i upb v \<longleftrightarrow>
     v \<notin> used \<and>
     (i \<le> v \<and> v < upb \<and> (\<forall>k. i \<le> k \<and> k < v \<longrightarrow> k \<in> used) \<or>
      (\<forall>k. i \<le> k \<and> k < upb \<longrightarrow> k \<in> used) \<and> 1 \<le> v \<and> v < i \<and> (\<forall>k. 1 \<le> k \<and> k < v \<longrightarrow> k \<in> used))"

definition did_taken :: "did_state \<Rightarrow> u32 set" where
  "did_taken st = {k. did_ids (did_lazy_init st) k \<noteq> invld_sz}"

lemma did_create_found:
  assumes "did_create (Some d) sz st = (0, out, st')"
  shows "\<exists>i upb. did_upb sz = Some upb \<and> did_found i sz (did_lazy_init st) = (0, out, st') \<and>
                 did_search_result (did_taken st) (did_idx (did_lazy_init st)) upb i"
proof -
  define s where "s = did_lazy_init st"
  from assms obtain upb where upb: "did_upb sz = Some upb"
    by (auto simp: did_create_def Let_def split: option.splits)
  show ?thesis
  proof (cases "find_up (\<lambda>i. did_ids s i = invld_sz) (did_idx s) upb")
    case (Some i)
    with find_up_Some [OF this] upb assms show ?thesis
      by (intro exI [of _ i] exI [of _ upb])
         (auto simp: did_create_def Let_def did_search_result_def did_taken_def s_def [symmetric])
  next
    case None
    with upb assms obtain i where i: "find_up (\<lambda>i. did_ids s i = invld_sz) 1 (did_idx s) = Some i"
      and f: "did_found i sz s = (0, out, st')"
      by (auto simp: did_create_def Let_def s_def [symmetric] split: option.splits)
    have "did_search_result (did_taken st) (did_idx s) upb i"
      using find_up_Some [OF i] None by (simp add: find_up_None did_search_result_def did_taken_def s_def)
    with upb f show ?thesis
      by (auto simp: s_def)
  qed
qed

text \<open>What a successful \<open>did_create\<close> does: it takes one free legal identifier and nothing else.\<close>

lemma did_create_ok:
  assumes "did_inv st" and "did_create (Some d) sz st = (0, out, st')"
  shows "\<exists>i. out = Some \<lparr>did_value = i, did_size = sz\<rparr> \<and>
             did_ids (did_lazy_init st) i = invld_sz \<and> did_legal i \<and> sz \<in> {dev08_sz, dev16_sz} \<and>
             st' = (did_lazy_init st)\<lparr>did_ids := (did_ids (did_lazy_init st))(i := sz), did_idx := i + 1\<rparr> \<and>
             did_search_result (did_taken st) (did_idx (did_lazy_init st)) (the (did_upb sz)) i"
proof -
  from assms(1) have ok: "did_table_ok (did_lazy_init st)"
    by (rule did_lazy_init_ok)
  from did_create_found [OF assms(2)] obtain i upb where i: "did_upb sz = Some upb"
    "did_found i sz (did_lazy_init st) = (0, out, st')"
    "did_search_result (did_taken st) (did_idx (did_lazy_init st)) upb i"
    by blast
  from i(3) did_upb_cases [OF i(1)] ok have "i < 0x10000" and "did_ids (did_lazy_init st) i = invld_sz"
    by (auto simp: did_search_result_def did_taken_def did_table_ok_def word_less_nat_alt word_le_nat_alt)
  with ok i did_upb_cases [OF i(1)] show ?thesis
    by (auto simp: did_found_def dest: did_table_ok_freeD)
qed

lemma did_create_fail:
  assumes "did_create (Some d) sz st = (rc, out, st')" and "rc \<noteq> 0"
  shows "st' = did_lazy_init st \<and> out = Some DID_INVALID_ID"
  using assms by (auto simp: did_create_def did_found_def Let_def split: option.splits)

lemma did_create_null: "did_create None sz st = (- EINVAL, None, did_lazy_init st)"
  by (simp add: did_create_def Let_def)

text \<open>\<open>did_create\<close> fails for lack of identifiers only when both loops meet none.\<close>

lemma did_create_rc:
  assumes "did_upb sz = Some upb"
  shows "fst (did_create (Some d) sz st) =
     (if \<exists>k. did_ids (did_lazy_init st) k = invld_sz \<and>
             (did_idx (did_lazy_init st) \<le> k \<and> k < upb \<or> 1 \<le> k \<and> k < did_idx (did_lazy_init st))
      then 0 else - ENOBUFS)"
  using assms
  by (auto simp: did_create_def did_found_def Let_def find_up_None split: option.splits dest: find_up_Some)

subsection \<open>Creation from data, lookup and release\<close>

lemma did_create_from_data_ok:
  assumes "did_create_from_data (Some d) v sz st = (0, out, st')"
  shows "out = Some \<lparr>did_value = v, did_size = sz\<rparr> \<and> did_legal v \<and> sz \<in> {dev08_sz, dev16_sz} \<and>
         did_ids (did_lazy_init st) v = invld_sz \<and>
         st' = (did_lazy_init st)\<lparr>did_ids := (did_ids (did_lazy_init st))(v := sz)\<rparr>"
  using assms did_chk_range_legal [of v sz]
  by (auto simp: did_create_from_data_def Let_def split: if_splits)

lemma did_create_from_data_fail:
  assumes "did_create_from_data d v sz st = (rc, out, st')" and "rc \<noteq> 0"
  shows "st' = did_lazy_init st \<and> out = map_option (\<lambda>_. DID_INVALID_ID) d"
  using assms by (auto simp: did_create_from_data_def Let_def split: option.splits if_splits)

lemma did_release_ok:
  assumes "did_release d st = (0, st')"
  shows "did_legal (did_value d) \<and> did_ids st (did_value d) \<noteq> invld_sz \<and>
         st' = st\<lparr>did_ids := (did_ids st)(did_value d := invld_sz)\<rparr>"
  using assms did_chk_range_legal [of "did_value d" "did_size d"]
  by (auto simp: did_release_def Let_def split: if_splits)

lemma did_release_fail: "did_release d st = (rc, st') \<Longrightarrow> rc \<noteq> 0 \<Longrightarrow> st' = st"
  by (auto simp: did_release_def Let_def split: if_splits)

lemma did_release_start: "fst (did_release d did_start) \<noteq> 0"
  by (auto simp: did_release_def did_start_def Let_def)

lemma did_get_state: "did_get d v st = (rc, out, st') \<Longrightarrow> st' = did_lazy_init st"
  by (auto simp: did_get_def Let_def split: option.splits if_splits)

lemma did_get_rc:
  "did_get (Some d) v st =
     (if \<not> did_legal v then (- EINVAL, Some DID_INVALID_ID, did_lazy_init st)
      else if did_ids (did_lazy_init st) v = invld_sz then (- EKEYEXPIRED, Some DID_INVALID_ID, did_lazy_init st)
      else (0, Some \<lparr>did_value = v, did_size = did_ids (did_lazy_init st) v\<rparr>, did_lazy_init st))"
  by (auto simp: did_get_def did_legal_def Let_def not_less)

lemma did_from_value_state:
  assumes "did_from_value (Some d) v n st = (rc, out, st')"
  shows "st' = did_lazy_init st \<or>
         (rc = 0 \<and> did_legal v \<and> did_ids (did_lazy_init st) v = invld_sz \<and>
          (\<exists>sz \<in> {dev08_sz, dev16_sz}. st' = (did_lazy_init st)\<lparr>did_ids := (did_ids (did_lazy_init st))(v := sz)\<rparr>))"
  using assms
  by (auto simp: did_from_value_def did_legal_def Let_def word_less_nat_alt word_le_nat_alt split: if_splits)

subsection \<open>Groups\<close>

lemma grp_mark_eq:
  assumes "g \<le> RIO_RT_GRP_SZ"
  shows "grp_mark idx g ids k =
     (if (\<exists>j. g \<le> j \<and> j < RIO_RT_GRP_SZ \<and> k = idx + j) \<and> k \<noteq> RIO_LAST_DEV8 \<and> k \<noteq> RIO_LAST_DEV16
      then dev16_sz else ids k)"
  using assms
proof (induction idx g ids rule: grp_mark.induct)
  case (1 idx g ids)
  show ?case
  proof (cases "g < RIO_RT_GRP_SZ")
    case True
    define ids' where "ids' = (if RIO_LAST_DEV8 = idx + g \<or> RIO_LAST_DEV16 = idx + g then ids
                                else ids(idx + g := dev16_sz))"
    define E where "E \<longleftrightarrow> (\<exists>j. g + 1 \<le> j \<and> j < RIO_RT_GRP_SZ \<and> k = idx + j)"
    have step: "(\<exists>j. g \<le> j \<and> j < RIO_RT_GRP_SZ \<and> k = idx + j) \<longleftrightarrow> k = idx + g \<or> E"
      using True succ_le_iff [OF True] by (auto simp: E_def order.order_iff_strict)
    have "g + 1 \<le> RIO_RT_GRP_SZ"
      using True by (simp add: succ_le_iff)
    from "1.IH" [OF True refl this] have
      "grp_mark idx (g + 1) ids' k =
        (if E \<and> k \<noteq> RIO_LAST_DEV8 \<and> k \<noteq> RIO_LAST_DEV16 then dev16_sz else ids' k)"
      by (simp only: ids'_def E_def)
    moreover have "grp_mark idx g ids k = grp_mark idx (g + 1) ids' k"
      using True by (simp add: grp_mark.simps [of idx g] Let_def ids'_def)
    ultimately show ?thesis
      unfolding step by (auto simp: ids'_def)
  next
    case False
    with "1.prems" have "g = RIO_RT_GRP_SZ"
      by simp
    then show ?thesis
      by (auto simp: grp_mark.simps [of idx RIO_RT_GRP_SZ])
  qed
qed

lemma grp_range:
  fixes b k :: u32
  assumes "b < 0x10000"
  shows "(\<exists>j. j < RIO_RT_GRP_SZ \<and> k = b + j) \<longleftrightarrow> b \<le> k \<and> k < b + RIO_RT_GRP_SZ"
proof
  assume "\<exists>j. j < RIO_RT_GRP_SZ \<and> k = b + j"
  then obtain j where j: "j < RIO_RT_GRP_SZ" "k = b + j"
    by blast
  with assms have "unat k = unat b + unat j"
    by (simp add: word_less_nat_alt unat_word_ariths)
  with j assms unat_grp_step [OF assms] show "b \<le> k \<and> k < b + RIO_RT_GRP_SZ"
    by (simp add: word_less_nat_alt word_le_nat_alt)
next
  assume k: "b \<le> k \<and> k < b + RIO_RT_GRP_SZ"
  then have "unat (k - b) = unat k - unat b"
    by (simp add: unat_sub)
  with k unat_grp_step [OF assms] have "k - b < RIO_RT_GRP_SZ"
    by (auto simp: word_less_nat_alt word_le_nat_alt)
  moreover have "k = b + (k - b)"
    by simp
  ultimately show "\<exists>j. j < RIO_RT_GRP_SZ \<and> k = b + j"
    by blast
qed

lemma grp_mark_range:
  assumes "b < 0x10000"
  shows "grp_mark b 0 ids k =
     (if b \<le> k \<and> k < b + RIO_RT_GRP_SZ \<and> k \<noteq> RIO_LAST_DEV8 \<and> k \<noteq> RIO_LAST_DEV16 then dev16_sz else ids k)"
  using grp_mark_eq [of 0 b ids k] grp_range [OF assms, of k] by auto

lemma grp_avail_range:
  assumes "b < 0x10000"
  shows "grp_avail ids b \<longleftrightarrow>
     (\<forall>k. b \<le> k \<and> k < b + RIO_RT_GRP_SZ \<and> k \<noteq> 0 \<and> k \<noteq> RIO_LAST_DEV8 \<and> k \<noteq> RIO_LAST_DEV16 \<longrightarrow> ids k = invld_sz)"
proof -
  have "grp_avail ids b \<longleftrightarrow> (\<forall>k. (\<exists>j. j < RIO_RT_GRP_SZ \<and> k = b + j) \<longrightarrow>
          k = 0 \<or> k = RIO_LAST_DEV8 \<or> k = RIO_LAST_DEV16 \<or> ids k = invld_sz)"
    by (auto simp: grp_avail_def find_up_None Let_def)
  then show ?thesis
    unfolding grp_range [OF assms] by blast
qed

lemma grp_search_Some:
  assumes "grp_search idx st = Some (g, st')"
  shows "\<exists>b. b < 0x10000 \<and> idx \<le> b \<and> unat b mod 256 = unat idx mod 256 \<and> g = grp_new b \<and> grp_avail (did_ids st) b \<and>
             st' = st\<lparr>did_ids := grp_mark b 0 (did_ids st), did_idx := b + RIO_RT_GRP_SZ\<rparr>"
  using assms
proof (induction idx st rule: grp_search.induct)
  case (1 idx st)
  show ?case
  proof (cases "idx < 0x10000 \<and> \<not> grp_avail (did_ids st) idx")
    case True
    with "1.IH" "1.prems" obtain b where
      b: "b < 0x10000 \<and> idx + RIO_RT_GRP_SZ \<le> b \<and> unat b mod 256 = unat (idx + RIO_RT_GRP_SZ) mod 256 \<and>
          g = grp_new b \<and> grp_avail (did_ids st) b \<and>
          st' = st\<lparr>did_ids := grp_mark b 0 (did_ids st), did_idx := b + RIO_RT_GRP_SZ\<rparr>"
      by (auto simp: grp_search.simps [of idx])
    from True have "unat (idx + RIO_RT_GRP_SZ) = unat idx + 256"
      by (simp add: unat_grp_step)
    with b show ?thesis
      by (intro exI [of _ b]) (simp add: word_le_nat_alt)
  next
    case False
    with "1.prems" show ?thesis
      by (intro exI [of _ idx]) (auto simp: grp_search.simps [of idx] split: if_splits)
  qed
qed

lemma low_byte_clear:
  fixes x :: u32
  shows "unat (x AND NOT 0xFF) mod 256 = 0"
proof -
  have "take_bit 8 (x AND NOT 0xFF) = 0"
    by (rule bit_word_eqI) (auto simp: bit_simps mask_eq_exp_minus_1 [of 8, symmetric, simplified])
  then have "unat (take_bit 8 (x AND NOT 0xFF)) = 0"
    by simp
  then show ?thesis
    by (simp add: take_bit_eq_mod unat_mod)
qed

lemma grp_start_aligned: "unat (grp_start st) mod 256 = 0"
  using low_byte_clear [of "did_idx st - 1 + RIO_RT_GRP_SZ - 1"] by (simp add: grp_start_def)

lemma did_alloc_grp_ok:
  assumes "did_alloc_dev16_grp (Some g0) st = (0, out, st')"
  defines "s \<equiv> did_lazy_init st"
  shows "\<exists>b. out = Some (Some (grp_new b)) \<and> b < 0x10000 \<and> unat b mod 256 = 0 \<and> grp_avail (did_ids s) b \<and>
             st' = s\<lparr>did_ids := grp_mark b 0 (did_ids s), did_idx := b + RIO_RT_GRP_SZ\<rparr>"
proof -
  from assms obtain g where g: "grp_search (grp_start s) s = Some (g, st')" and out: "out = Some (Some g)"
    by (auto simp: did_alloc_dev16_grp_def Let_def split: option.splits)
  from grp_search_Some [OF g] out grp_start_aligned [of s] show ?thesis
    by auto
qed

lemma did_alloc_grp_state:
  assumes "did_alloc_dev16_grp g0 st = (rc, out, st')"
  shows "st' = st \<or> st' = did_lazy_init st \<or> rc = 0 \<and> g0 \<noteq> None"
  using assms by (auto simp: did_alloc_dev16_grp_def Let_def split: option.splits)

lemma aligned_base_le:
  fixes b :: u32
  assumes "b < 0x10000" and "unat b mod 256 = 0"
  shows "unat b \<le> 65280"
  using assms by (simp add: word_less_nat_alt) presburger

lemma did_table_ok_grp:
  assumes "did_table_ok s" and "b < 0x10000" and "unat b mod 256 = 0"
  shows "did_table_ok (s\<lparr>did_ids := grp_mark b 0 (did_ids s), did_idx := b + RIO_RT_GRP_SZ\<rparr>)"
proof -
  have top: "unat (b + RIO_RT_GRP_SZ) = unat b + 256"
    using assms(2) by (rule unat_grp_step)
  have "unat b \<le> 65280"
    using assms(2,3) by (rule aligned_base_le)
  with top have lo: "1 \<le> b + RIO_RT_GRP_SZ" and hi: "b + RIO_RT_GRP_SZ \<le> 0x10000"
    by (simp_all add: word_le_nat_alt)
  from hi have "\<not> k < b + RIO_RT_GRP_SZ" if "0x10000 \<le> k" for k
    using that by (meson leD order.trans)
  with lo hi show ?thesis
    using assms by (auto simp: did_table_ok_def grp_mark_range)
qed

text \<open>
  Reservations inside a group. The position of the search reaches 256, which the code takes for
  exhaustion, only when every entry is reserved.
\<close>

definition grp_inv :: "did_grp_t \<Rightarrow> bool" where
  "grp_inv g \<longleftrightarrow> grp_size g = dev16_sz \<and> grp_base g < 0x10000 \<and> unat (grp_base g) mod 256 = 0 \<and>
     unat (grp_next g) \<le> 256 \<and> l_dev16 g 0 \<noteq> invld_sz \<and> l_dev16 g (RIO_RT_GRP_SZ - 1) \<noteq> invld_sz \<and>
     (unat (grp_next g) = 256 \<longrightarrow> (\<forall>i < RIO_RT_GRP_SZ. l_dev16 g i \<noteq> invld_sz))"

lemma grp_inv_new: "b < 0x10000 \<Longrightarrow> unat b mod 256 = 0 \<Longrightarrow> grp_inv (grp_new b)"
  by (simp add: grp_inv_def grp_new_def)

lemma mod_grp_less: "(x::u32) mod RIO_RT_GRP_SZ < RIO_RT_GRP_SZ"
  by (simp add: word_less_nat_alt unat_mod)

lemma grp_resrv_ok:
  assumes "did_grp_resrv_did (Some g) (Some d) = (0, out, did')"
  shows "\<exists>i. i < RIO_RT_GRP_SZ \<and> l_dev16 g i = invld_sz \<and>
     out = Some (g\<lparr>l_dev16 := (l_dev16 g)(i := grp_size g), grp_next := ucast ((i + 1) mod RIO_RT_GRP_SZ)\<rparr>) \<and>
     did' = Some \<lparr>did_value = grp_base g + i, did_size = grp_size g\<rparr>"
  using assms mod_grp_less
  by (auto simp: did_grp_resrv_did_def Let_def split: if_splits option.splits dest: find_up_Some)

lemma slot_surj:
  fixes n i :: u32
  assumes "i < RIO_RT_GRP_SZ" and "n < RIO_RT_GRP_SZ"
  shows "\<exists>offset. offset < RIO_RT_GRP_SZ \<and> (offset + n) mod RIO_RT_GRP_SZ = i"
proof (intro exI conjI)
  show "(i + (RIO_RT_GRP_SZ - n)) mod RIO_RT_GRP_SZ < RIO_RT_GRP_SZ"
    by (rule mod_grp_less)
  from assms have "unat (RIO_RT_GRP_SZ - n) = 256 - unat n"
    by (simp add: unat_sub word_le_nat_alt word_less_nat_alt)
  with assms have "unat ((i + (RIO_RT_GRP_SZ - n)) mod RIO_RT_GRP_SZ) = (unat i + (256 - unat n)) mod 256"
    by (simp add: unat_mod unat_word_ariths word_less_nat_alt)
  moreover have "((unat i + (256 - unat n)) mod 256 + unat n) mod 256 = unat i"
    using assms by (simp add: word_less_nat_alt mod_add_left_eq)
  ultimately have "unat (((i + (RIO_RT_GRP_SZ - n)) mod RIO_RT_GRP_SZ + n) mod RIO_RT_GRP_SZ) = unat i"
    using assms(2) by (simp add: unat_mod unat_word_ariths word_less_nat_alt)
  then show "((i + (RIO_RT_GRP_SZ - n)) mod RIO_RT_GRP_SZ + n) mod RIO_RT_GRP_SZ = i"
    by (simp add: word_unat_eq_iff)
qed

lemma grp_resrv_none:
  assumes "did_grp_resrv_did (Some g) (Some d) = (rc, out, did')" and "rc \<noteq> 0" and "unat (grp_next g) < 256"
  shows "rc = - ENOBUFS \<and> (\<forall>i < RIO_RT_GRP_SZ. l_dev16 g i \<noteq> invld_sz) \<and>
         out = Some (g\<lparr>grp_next := ucast RIO_RT_GRP_SZ\<rparr>)"
proof -
  from assms(3) have n: "(ucast (grp_next g) :: u32) < RIO_RT_GRP_SZ"
    by (simp add: word_less_nat_alt)
  with assms(1,2) have none:
    "find_up (\<lambda>offset. l_dev16 g ((offset + ucast (grp_next g)) mod RIO_RT_GRP_SZ) = invld_sz) 0 RIO_RT_GRP_SZ = None"
    by (auto simp: did_grp_resrv_did_def Let_def split: option.splits if_splits)
  have "l_dev16 g i \<noteq> invld_sz" if "i < RIO_RT_GRP_SZ" for i
    using slot_surj [OF that n] none by (auto simp: find_up_None)
  with none n assms(1) show ?thesis
    by (auto simp: did_grp_resrv_did_def Let_def not_le [symmetric])
qed

lemma grp_resrv_exhausted:
  "unat (grp_next g) \<ge> 256 \<Longrightarrow>
     did_grp_resrv_did (Some g) (Some d) = (- ENOBUFS, Some g, Some (d\<lparr>did_size := invld_sz\<rparr>))"
  by (simp add: did_grp_resrv_did_def word_le_nat_alt)

lemma grp_resrv_full:
  assumes "grp_inv g" and "did_grp_resrv_did (Some g) (Some d) = (rc, out, did')" and "rc \<noteq> 0"
  shows "rc = - ENOBUFS \<and> (\<forall>i < RIO_RT_GRP_SZ. l_dev16 g i \<noteq> invld_sz) \<and>
         (out = Some g \<or> out = Some (g\<lparr>grp_next := ucast RIO_RT_GRP_SZ\<rparr>))"
proof (cases "unat (grp_next g) < 256")
  case True
  with grp_resrv_none [OF assms(2,3)] show ?thesis
    by simp
next
  case False
  with assms show ?thesis
    by (simp add: grp_resrv_exhausted grp_inv_def)
qed

lemma grp_inv_resrv:
  assumes "grp_inv g" and "did_grp_resrv_did (Some g) (Some d) = (rc, Some g', did')"
  shows "grp_inv g'"
proof (cases "rc = 0")
  case True
  with assms(2) grp_resrv_ok obtain i where i: "i < RIO_RT_GRP_SZ" "l_dev16 g i = invld_sz" and
    g': "g' = g\<lparr>l_dev16 := (l_dev16 g)(i := grp_size g), grp_next := ucast ((i + 1) mod RIO_RT_GRP_SZ)\<rparr>"
    by blast
  have "unat ((i + 1) mod RIO_RT_GRP_SZ) < 256"
    using mod_grp_less [of "i + 1"] by (simp add: word_less_nat_alt)
  then have "unat (grp_next g') < 256"
    by (simp add: g' unat_ucast_u32_u16)
  with assms(1) i show ?thesis
    by (auto simp: grp_inv_def g')
next
  case False
  from grp_resrv_full [OF assms False] assms(1) show ?thesis
    by (auto simp: grp_inv_def)
qed

lemma grp_inv_unresrv:
  assumes "grp_inv g" and "did_grp_unresrv_did (Some g) e = (rc, Some g')"
  shows "grp_inv g'"
proof (cases "rc = 0")
  case True
  define i where "i = did_value e AND 0xFF"
  have i: "unat i < 256"
    using word_and_le1 [of "did_value e" "0xFF"] by (simp add: i_def word_le_nat_alt)
  with True assms(2) have "i \<noteq> 0" "i \<noteq> 0xFF"
    "g' = g\<lparr>l_dev16 := (l_dev16 g)(i := invld_sz),
            grp_next := (if RIO_RT_GRP_SZ \<le> ucast (grp_next g) then ucast i else grp_next g)\<rparr>"
    by (auto simp: did_grp_unresrv_did_def Let_def i_def split: if_splits)
  with i assms(1) show ?thesis
    by (auto simp: grp_inv_def unat_ucast_u32_u16 word_le_nat_alt)
next
  case False
  with assms show ?thesis
    by (auto simp: did_grp_unresrv_did_def Let_def split: if_splits)
qed

section \<open>Reachable states\<close>

text \<open>One rule per operation of the interface that takes the library's state.\<close>

inductive did_step :: "did_state \<Rightarrow> did_state \<Rightarrow> bool" where
  step_create: "did_create d sz st = (rc, out, st') \<Longrightarrow> did_step st st'"
| step_create_from_data: "did_create_from_data d v sz st = (rc, out, st') \<Longrightarrow> did_step st st'"
| step_release: "did_release did st = (rc, st') \<Longrightarrow> did_step st st'"
| step_get: "did_get d v st = (rc, out, st') \<Longrightarrow> did_step st st'"
| step_from_value: "did_from_value d v n st = (rc, out, st') \<Longrightarrow> did_step st st'"
| step_alloc_grp: "did_alloc_dev16_grp g st = (rc, outg, st') \<Longrightarrow> did_step st st'"

inductive did_reachable :: "did_state \<Rightarrow> bool" where
  reach_start: "did_reachable did_start"
| reach_step: "did_reachable st \<Longrightarrow> did_step st st' \<Longrightarrow> did_reachable st'"

lemma did_create_inv: "did_inv st \<Longrightarrow> did_create d sz st = (rc, out, st') \<Longrightarrow> did_inv st'"
proof (cases d)
  case None
  then show "did_inv st \<Longrightarrow> did_create d sz st = (rc, out, st') \<Longrightarrow> did_inv st'"
    by (auto simp: did_create_null did_inv_lazy)
next
  case (Some d0)
  assume inv: "did_inv st" and c: "did_create d sz st = (rc, out, st')"
  show "did_inv st'"
  proof (cases "rc = 0")
    case True
    with c Some did_create_ok [OF inv, of d0 sz out st'] show ?thesis
      using did_table_ok_take(1) [OF did_lazy_init_ok [OF inv]] by (auto simp: did_inv_def)
  next
    case False
    with c Some did_create_fail show ?thesis
      using did_inv_lazy [OF inv] by blast
  qed
qed

lemma did_create_from_data_inv:
  assumes inv: "did_inv st" and c: "did_create_from_data d v sz st = (rc, out, st')"
  shows "did_inv st'"
proof (cases "rc = 0 \<and> d \<noteq> None")
  case True
  then obtain d0 where "d = Some d0" and "rc = 0"
    by auto
  with c did_create_from_data_ok [of d0 v sz st out st'] show ?thesis
    using did_table_ok_take(2) [OF did_lazy_init_ok [OF inv]] by (auto simp: did_inv_def)
next
  case False
  then have "st' = did_lazy_init st"
    using c by (auto simp: did_create_from_data_def Let_def split: option.splits if_splits)
  then show ?thesis
    using did_inv_lazy [OF inv] by simp
qed

lemma did_release_inv:
  assumes inv: "did_inv st" and c: "did_release d st = (rc, st')"
  shows "did_inv st'"
proof (cases "rc = 0")
  case True
  with c have ok: "did_legal (did_value d)" "st' = st\<lparr>did_ids := (did_ids st)(did_value d := invld_sz)\<rparr>"
    and "st \<noteq> did_start"
    using did_release_ok [of d st st'] did_release_start [of d] by auto
  with inv show ?thesis
    by (simp add: did_inv_def did_table_ok_free)
next
  case False
  with c inv did_release_fail show ?thesis
    by blast
qed

lemma did_from_value_inv:
  assumes inv: "did_inv st" and c: "did_from_value d v n st = (rc, out, st')"
  shows "did_inv st'"
proof (cases d)
  case None
  with c did_inv_lazy [OF inv] show ?thesis
    by (auto simp: did_from_value_def Let_def)
next
  case (Some d0)
  with c did_from_value_state [of d0 v n st rc out st'] show ?thesis
    using did_table_ok_take(2) [OF did_lazy_init_ok [OF inv]] did_inv_lazy [OF inv]
    by (auto simp: did_inv_def)
qed

lemma did_alloc_grp_inv:
  assumes inv: "did_inv st" and c: "did_alloc_dev16_grp g st = (rc, out, st')"
  shows "did_inv st'"
proof (cases "rc = 0 \<and> g \<noteq> None")
  case True
  then obtain g0 where "g = Some g0" "rc = 0"
    by auto
  with c did_alloc_grp_ok [of g0 st out st'] show ?thesis
    using did_table_ok_grp [OF did_lazy_init_ok [OF inv]] by (auto simp: did_inv_def)
next
  case False
  with did_alloc_grp_state [OF c] inv did_inv_lazy [OF inv] show ?thesis
    by blast
qed

lemma did_step_inv: "did_step st st' \<Longrightarrow> did_inv st \<Longrightarrow> did_inv st'"
  by (induction rule: did_step.induct)
     (auto intro: did_create_inv did_create_from_data_inv did_release_inv did_from_value_inv did_alloc_grp_inv
           dest: did_get_state did_inv_lazy)

section \<open>The contracts the library fulfils\<close>

definition did_alloc :: "did_sz_t \<Rightarrow> did_state \<Rightarrow> (u32 \<times> did_state) option" where
  "did_alloc sz st =
     (case did_create (Some DID_INVALID_ID) sz st of
        (rc, out, st') \<Rightarrow> if rc = 0 then Some (did_value (the out), st') else None)"

definition did_drop :: "u32 \<Rightarrow> did_state \<Rightarrow> did_state option" where
  "did_drop v st =
     (case did_release \<lparr>did_value = v, did_size = dev16_sz\<rparr> st of
        (rc, st') \<Rightarrow> if rc = 0 then Some st' else None)"

definition did_used :: "did_state \<Rightarrow> u32 set" where
  "did_used st = {v. did_legal v \<and> did_ids st v \<noteq> invld_sz}"

lemma did_used_lazy: "did_inv st \<Longrightarrow> did_used (did_lazy_init st) = did_used st"
  by (auto simp: did_used_def did_lazy_init_def did_inv_def did_start_def did_init_def did_legal_def
      did_table_ok_def split: if_splits)

lemma did_alloc_ok:
  assumes "did_inv st" and "did_alloc sz st = Some (v, st')"
  shows "did_legal v \<and> did_ids (did_lazy_init st) v = invld_sz \<and> sz \<noteq> invld_sz \<and>
    st' = (did_lazy_init st)\<lparr>did_ids := (did_ids (did_lazy_init st))(v := sz), did_idx := v + 1\<rparr>"
proof -
  from assms(2) obtain out where "did_create (Some DID_INVALID_ID) sz st = (0, out, st')" "v = did_value (the out)"
    by (auto simp: did_alloc_def split: prod.splits if_splits)
  with did_create_ok [OF assms(1) this(1)] show ?thesis
    by auto
qed

lemma did_alloc_inv: "did_inv st \<Longrightarrow> did_alloc sz st = Some (v, st') \<Longrightarrow> did_inv st'"
  by (auto simp: did_alloc_def split: prod.splits if_splits intro: did_create_inv)

lemma did_drop_ok:
  "did_drop v st = Some st' \<Longrightarrow>
     did_legal v \<and> did_ids st v \<noteq> invld_sz \<and> st' = st\<lparr>did_ids := (did_ids st)(v := invld_sz)\<rparr>"
  by (auto simp: did_drop_def split: prod.splits if_splits dest!: did_release_ok)

interpretation did_pool: id_pool did_alloc did_used did_inv did_drop
proof unfold_locales
  fix st sz v st'
  assume st: "did_inv st" "did_alloc sz st = Some (v, st')"
  show "v \<notin> did_used st"
    using did_alloc_ok [OF st] did_used_lazy [OF st(1)] by (auto simp: did_used_def)
  show "did_used st' = insert v (did_used st)"
    using did_alloc_ok [OF st] did_used_lazy [OF st(1)] by (auto simp: did_used_def)
  show "did_inv st'"
    using st by (rule did_alloc_inv)
next
  fix st v st'
  assume st: "did_inv st" "did_drop v st = Some st'"
  show "v \<in> did_used st \<and> did_used st' = did_used st - {v}"
    using did_drop_ok [OF st(2)] by (auto simp: did_used_def)
  show "did_inv st'"
    using st by (auto simp: did_drop_def split: prod.splits if_splits intro: did_release_inv)
qed

text \<open>
  The registry the component tags rely on: what a lookup returns after an identifier is created,
  created from data, or released.
\<close>

locale did_registry =
  fixes make :: "did_sz_t \<Rightarrow> 's \<Rightarrow> (did_t \<times> 's) option"
    and make_from :: "u32 \<Rightarrow> did_sz_t \<Rightarrow> 's \<Rightarrow> (did_t \<times> 's) option"
    and lookup :: "u32 \<Rightarrow> 's \<Rightarrow> did_t option"
    and discard :: "did_t \<Rightarrow> 's \<Rightarrow> 's option"
    and invar :: "'s \<Rightarrow> bool"
  assumes make_fresh: "invar s \<Longrightarrow> make sz s = Some (d, s') \<Longrightarrow> lookup (did_value d) s = None"
    and make_lookup: "invar s \<Longrightarrow> make sz s = Some (d, s') \<Longrightarrow>
          lookup v s' = (if v = did_value d then Some d else lookup v s)"
    and make_invar: "invar s \<Longrightarrow> make sz s = Some (d, s') \<Longrightarrow> invar s'"
    and make_from_fresh: "invar s \<Longrightarrow> make_from v sz s = Some (d, s') \<Longrightarrow>
          d = \<lparr>did_value = v, did_size = sz\<rparr> \<and> lookup v s = None"
    and make_from_lookup: "invar s \<Longrightarrow> make_from v sz s = Some (d, s') \<Longrightarrow>
          lookup w s' = (if w = v then Some d else lookup w s)"
    and make_from_invar: "invar s \<Longrightarrow> make_from v sz s = Some (d, s') \<Longrightarrow> invar s'"
    and discard_lookup: "invar s \<Longrightarrow> discard d s = Some s' \<Longrightarrow>
          lookup (did_value d) s \<noteq> None \<and> lookup v s' = (if v = did_value d then None else lookup v s)"
    and discard_invar: "invar s \<Longrightarrow> discard d s = Some s' \<Longrightarrow> invar s'"
begin

text \<open>Undoing a creation restores every lookup.\<close>

lemma make_from_discard:
  assumes "invar s" and "make_from v sz s = Some (d, s1)" and "discard d s1 = Some s2"
  shows "lookup w s2 = lookup w s"
proof -
  have d: "did_value d = v" "lookup v s = None" and inv: "invar s1"
    using make_from_fresh [OF assms(1,2)] make_from_invar [OF assms(1,2)] by auto
  have "lookup w s2 = (if w = v then None else lookup w s1)"
    using discard_lookup [OF inv assms(3)] d(1) by simp
  also have "\<dots> = lookup w s"
    using make_from_lookup [OF assms(1,2)] d(2) by auto
  finally show ?thesis .
qed

lemma make_make_distinct:
  assumes "invar s" and "make sz s = Some (d, s1)" and "make sz' s1 = Some (d', s2)"
  shows "did_value d \<noteq> did_value d'"
  using make_lookup [OF assms(1,2), of "did_value d"] make_fresh [OF make_invar [OF assms(1,2)] assms(3)]
  by auto

end

definition did_make :: "did_sz_t \<Rightarrow> did_state \<Rightarrow> (did_t \<times> did_state) option" where
  "did_make sz st =
     (case did_create (Some DID_INVALID_ID) sz st of
        (rc, out, st') \<Rightarrow> if rc = 0 then Some (the out, st') else None)"

definition did_make_from :: "u32 \<Rightarrow> did_sz_t \<Rightarrow> did_state \<Rightarrow> (did_t \<times> did_state) option" where
  "did_make_from v sz st =
     (case did_create_from_data (Some DID_INVALID_ID) v sz st of
        (rc, out, st') \<Rightarrow> if rc = 0 then Some (the out, st') else None)"

definition did_lookup :: "u32 \<Rightarrow> did_state \<Rightarrow> did_t option" where
  "did_lookup v st =
     (case did_get (Some DID_INVALID_ID) v st of (rc, out, st') \<Rightarrow> if rc = 0 then out else None)"

definition did_discard :: "did_t \<Rightarrow> did_state \<Rightarrow> did_state option" where
  "did_discard d st = (case did_release d st of (rc, st') \<Rightarrow> if rc = 0 then Some st' else None)"

lemma did_lookup_eq:
  "did_lookup v st =
     (if did_legal v \<and> did_ids (did_lazy_init st) v \<noteq> invld_sz
      then Some \<lparr>did_value = v, did_size = did_ids (did_lazy_init st) v\<rparr> else None)"
  by (simp add: did_lookup_def did_get_rc)

lemma did_make_ok:
  assumes "did_inv st" and "did_make sz st = Some (d, st')"
  shows "\<exists>v. d = \<lparr>did_value = v, did_size = sz\<rparr> \<and> did_legal v \<and> did_ids (did_lazy_init st) v = invld_sz \<and>
    sz \<in> {dev08_sz, dev16_sz} \<and>
    st' = (did_lazy_init st)\<lparr>did_ids := (did_ids (did_lazy_init st))(v := sz), did_idx := v + 1\<rparr>"
proof -
  from assms(2) obtain out where c: "did_create (Some DID_INVALID_ID) sz st = (0, out, st')" "d = the out"
    by (auto simp: did_make_def split: prod.splits if_splits)
  from did_create_ok [OF assms(1) c(1)] c(2) show ?thesis
    by auto
qed

lemma did_make_from_ok:
  assumes "did_make_from v sz st = Some (d, st')"
  shows "d = \<lparr>did_value = v, did_size = sz\<rparr> \<and> did_legal v \<and> did_ids (did_lazy_init st) v = invld_sz \<and>
    sz \<in> {dev08_sz, dev16_sz} \<and>
    st' = (did_lazy_init st)\<lparr>did_ids := (did_ids (did_lazy_init st))(v := sz)\<rparr>"
proof -
  from assms obtain out where c: "did_create_from_data (Some DID_INVALID_ID) v sz st = (0, out, st')" "d = the out"
    by (auto simp: did_make_from_def split: prod.splits if_splits)
  from did_create_from_data_ok [OF c(1)] c(2) show ?thesis
    by auto
qed

lemma did_discard_ok:
  "did_discard d st = Some st' \<Longrightarrow>
     did_legal (did_value d) \<and> did_ids st (did_value d) \<noteq> invld_sz \<and>
     st' = st\<lparr>did_ids := (did_ids st)(did_value d := invld_sz)\<rparr>"
  by (auto simp: did_discard_def split: prod.splits if_splits dest!: did_release_ok)

lemma did_inv_not_start: "did_inv st \<Longrightarrow> did_ids st v \<noteq> invld_sz \<Longrightarrow> did_table_ok st"
  by (auto simp: did_inv_def did_start_def)

interpretation did_reg: did_registry did_make did_make_from did_lookup did_discard did_inv
proof unfold_locales
  fix s sz d s' v
  assume s: "did_inv s" "did_make sz s = Some (d, s')"
  from did_make_ok [OF s] obtain w where w: "d = \<lparr>did_value = w, did_size = sz\<rparr>" "did_legal w"
    "did_ids (did_lazy_init s) w = invld_sz" "sz \<in> {dev08_sz, dev16_sz}"
    and s': "s' = (did_lazy_init s)\<lparr>did_ids := (did_ids (did_lazy_init s))(w := sz), did_idx := w + 1\<rparr>"
    by blast
  have ok: "did_table_ok s'"
    using did_table_ok_take(1) [OF did_lazy_init_ok [OF s(1)] w(2,4)] by (simp add: s')
  show "did_lookup (did_value d) s = None"
    using w by (simp add: did_lookup_eq)
  show "did_lookup v s' = (if v = did_value d then Some d else did_lookup v s)"
    using w did_lazy_init_id [OF ok] by (auto simp: did_lookup_eq s')
  show "did_inv s'"
    using ok by (simp add: did_inv_def)
next
  fix s v sz d s' w
  assume s: "did_inv s" "did_make_from v sz s = Some (d, s')"
  from did_make_from_ok [OF s(2)] have v: "d = \<lparr>did_value = v, did_size = sz\<rparr>" "did_legal v"
    "did_ids (did_lazy_init s) v = invld_sz" "sz \<in> {dev08_sz, dev16_sz}"
    and s': "s' = (did_lazy_init s)\<lparr>did_ids := (did_ids (did_lazy_init s))(v := sz)\<rparr>"
    by auto
  have ok: "did_table_ok s'"
    using did_table_ok_take(2) [OF did_lazy_init_ok [OF s(1)] v(2,4)] by (simp add: s')
  show "d = \<lparr>did_value = v, did_size = sz\<rparr> \<and> did_lookup v s = None"
    using v by (simp add: did_lookup_eq)
  show "did_lookup w s' = (if w = v then Some d else did_lookup w s)"
    using v did_lazy_init_id [OF ok] by (auto simp: did_lookup_eq s')
  show "did_inv s'"
    using ok by (simp add: did_inv_def)
next
  fix s d s' v
  assume s: "did_inv s" "did_discard d s = Some s'"
  from did_discard_ok [OF s(2)] have d: "did_legal (did_value d)" "did_ids s (did_value d) \<noteq> invld_sz"
    and s': "s' = s\<lparr>did_ids := (did_ids s)(did_value d := invld_sz)\<rparr>"
    by auto
  from s(1) d(2) have ok: "did_table_ok s"
    by (rule did_inv_not_start)
  from did_table_ok_free [OF this d(1)] have ok': "did_table_ok s'"
    by (simp add: s')
  show "did_lookup (did_value d) s \<noteq> None \<and>
        did_lookup v s' = (if v = did_value d then None else did_lookup v s)"
    using d did_lazy_init_id [OF ok] did_lazy_init_id [OF ok'] by (auto simp: did_lookup_eq s')
  show "did_inv s'"
    using ok' by (simp add: did_inv_def)
qed

text \<open>A group hands out identifiers of its own range; a request carries no information.\<close>

definition grp_alloc :: "unit \<Rightarrow> did_grp_t \<Rightarrow> (u32 \<times> did_grp_t) option" where
  "grp_alloc r g =
     (case did_grp_resrv_did (Some g) (Some DID_INVALID_ID) of
        (rc, out, did) \<Rightarrow> if rc = 0 then Some (did_value (the did), the out) else None)"

definition grp_used :: "did_grp_t \<Rightarrow> u32 set" where
  "grp_used g = {grp_base g + i | i. i < RIO_RT_GRP_SZ \<and> l_dev16 g i \<noteq> invld_sz}"

lemma grp_alloc_ok:
  assumes "grp_alloc r g = Some (v, g')"
  shows "\<exists>i. i < RIO_RT_GRP_SZ \<and> l_dev16 g i = invld_sz \<and> v = grp_base g + i \<and>
     g' = g\<lparr>l_dev16 := (l_dev16 g)(i := grp_size g), grp_next := ucast ((i + 1) mod RIO_RT_GRP_SZ)\<rparr>"
proof -
  from assms obtain out did where "did_grp_resrv_did (Some g) (Some DID_INVALID_ID) = (0, out, did)"
    and "v = did_value (the did)" "g' = the out"
    by (auto simp: grp_alloc_def split: prod.splits if_splits)
  with grp_resrv_ok [OF this(1)] show ?thesis
    by auto
qed

interpretation did_group: id_allocator grp_alloc grp_used grp_inv
proof unfold_locales
  fix g r v g'
  assume g: "grp_inv g" "grp_alloc r g = Some (v, g')"
  from grp_alloc_ok [OF g(2)] obtain i where i: "i < RIO_RT_GRP_SZ" "l_dev16 g i = invld_sz" "v = grp_base g + i"
    and g': "g' = g\<lparr>l_dev16 := (l_dev16 g)(i := grp_size g), grp_next := ucast ((i + 1) mod RIO_RT_GRP_SZ)\<rparr>"
    by blast
  show "v \<notin> grp_used g"
    using i by (auto simp: grp_used_def)
  show "grp_used g' = insert v (grp_used g)"
    using i g g' by (auto simp: grp_used_def grp_inv_def)
  from g(2) grp_resrv_ok obtain did' where
    "did_grp_resrv_did (Some g) (Some DID_INVALID_ID) = (0, Some g', did')"
    by (fastforce simp: grp_alloc_def split: prod.splits if_splits)
  with g(1) show "grp_inv g'"
    by (rule grp_inv_resrv)
qed

section \<open>Runs on concrete states\<close>

lemma did_create_at_idx:
  assumes "did_upb sz = Some upb" and "did_idx (did_lazy_init st) < upb"
    and "did_ids (did_lazy_init st) (did_idx (did_lazy_init st)) = invld_sz"
  shows "did_create (Some d) sz st = did_found (did_idx (did_lazy_init st)) sz (did_lazy_init st)"
proof -
  have "find_up (\<lambda>i. did_ids (did_lazy_init st) i = invld_sz) (did_idx (did_lazy_init st)) upb =
        Some (did_idx (did_lazy_init st))"
    using assms(2,3) by (rule find_up_first)
  with assms(1) show ?thesis
    by (simp add: did_create_def Let_def)
qed

lemma did_alloc_grp_first:
  "did_alloc_dev16_grp (Some None) did_start =
     (0, Some (Some (grp_new 0)), did_init\<lparr>did_ids := grp_mark 0 0 (did_ids did_init), did_idx := RIO_RT_GRP_SZ\<rparr>)"
proof -
  have "grp_start did_init = 0"
    by (simp add: grp_start_def did_init_def)
  moreover have "\<not> k < RIO_RT_GRP_SZ" if "0xFFFF \<le> k" for k :: u32
    using that by (simp add: word_le_nat_alt word_less_nat_alt)
  then have "grp_avail (did_ids did_init) 0"
    by (subst grp_avail_range) (auto simp: did_init_def)
  ultimately show ?thesis
    by (simp add: did_alloc_dev16_grp_def did_lazy_init_def did_start_def grp_search.simps [of 0])
qed

section \<open>Properties\<close>

text \<open>
  C1. A successful \<open>did_create\<close> returns an identifier with the requested size (8 or 16 bits) that
  was free, marks exactly that entry, and moves the search position behind it. The identifier is the
  first free one from the search position up to the bound of the size (\<open>0xFF\<close> for 8 bits,
  \<open>0xFFFF\<close> for 16 bits, both excluded) or, when there is none, the first free one below the search
  position. So its value is never 0, \<open>0xFF\<close> or \<open>0xFFFF\<close> and below \<open>0xFFFF\<close>, and an 8-bit one
  is below \<open>0xFF\<close> as long as the search position is not beyond the 8-bit range. Beyond it, the
  second loop of the code can return a larger value with the size 8 bits
  (\<open>did_create_dev08_exceeds\<close>).
\<close>

theorem did_create_takes_free:
  assumes "did_inv st" and "did_create (Some d) sz st = (0, out, st')"
  shows "\<exists>v. out = Some \<lparr>did_value = v, did_size = sz\<rparr> \<and> did_legal v \<and> v \<notin> did_used st \<and>
             did_used st' = insert v (did_used st) \<and> did_ids st' v = sz \<and>
             (\<forall>k. k \<noteq> v \<longrightarrow> did_ids st' k = did_ids (did_lazy_init st) k) \<and> did_idx st' = v + 1 \<and>
             sz \<in> {dev08_sz, dev16_sz} \<and>
             did_search_result (did_taken st) (did_idx (did_lazy_init st))
               (if sz = dev08_sz then 0xFF else 0xFFFF) v \<and>
             (sz = dev08_sz \<and> did_idx (did_lazy_init st) \<le> 0xFF \<longrightarrow> v < 0xFF)"
proof -
  have upb: "the (did_upb sz) = (if sz = dev08_sz then 0xFF else 0xFFFF)" if "sz \<in> {dev08_sz, dev16_sz}"
    using that by (auto simp: did_upb_def)
  from did_create_ok [OF assms] obtain v where v: "out = Some \<lparr>did_value = v, did_size = sz\<rparr>"
    "did_ids (did_lazy_init st) v = invld_sz" "did_legal v" "sz \<in> {dev08_sz, dev16_sz}"
    "st' = (did_lazy_init st)\<lparr>did_ids := (did_ids (did_lazy_init st))(v := sz), did_idx := v + 1\<rparr>"
    "did_search_result (did_taken st) (did_idx (did_lazy_init st)) (the (did_upb sz)) v"
    by blast
  have "v < 0xFF" if "sz = dev08_sz" "did_idx (did_lazy_init st) \<le> 0xFF"
    using v(6) that by (auto simp: did_search_result_def did_upb_def)
  with v upb [OF v(4)] did_used_lazy [OF assms(1)] show ?thesis
    by (intro exI [of _ v]) (auto simp: did_used_def)
qed

lemma did_inv_start: "did_inv did_start"
  by (simp add: did_inv_def)

lemma did_create_first:
  "did_create (Some DID_INVALID_ID) dev08_sz did_start =
     (0, Some \<lparr>did_value = 1, did_size = dev08_sz\<rparr>,
      did_init\<lparr>did_ids := (did_ids did_init)(1 := dev08_sz), did_idx := 2\<rparr>)"
  by (subst did_create_at_idx [of dev08_sz RIO_LAST_DEV8])
     (simp_all add: did_found_def did_upb_def did_lazy_init_def did_start_def did_init_def)

theorem did_create_takes_free_witness:
  "did_inv did_start \<and> (\<exists>v st'. did_create (Some DID_INVALID_ID) dev08_sz did_start =
      (0, Some \<lparr>did_value = v, did_size = dev08_sz\<rparr>, st') \<and> v \<notin> did_used did_start)"
  using did_create_takes_free [OF did_inv_start did_create_first] did_inv_start did_create_first by blast

text \<open>
  C2. For 16-bit identifiers the search is complete: \<open>did_create\<close> succeeds exactly when some legal
  identifier is free, wherever the search position is, and otherwise reports \<open>ENOBUFS\<close>.
\<close>

theorem did_create_dev16_complete:
  assumes "did_inv st"
  shows "fst (did_create (Some d) dev16_sz st) = (if \<exists>v. did_legal v \<and> v \<notin> did_used st then 0 else - ENOBUFS)"
proof -
  define s where "s = did_lazy_init st"
  have ok: "did_table_ok s"
    using assms by (simp add: s_def did_lazy_init_ok)
  have "(\<exists>v. did_legal v \<and> v \<notin> did_used st) \<longleftrightarrow> (\<exists>v. did_legal v \<and> did_ids s v = invld_sz)"
    using did_used_lazy [OF assms] by (auto simp: did_used_def s_def)
  also have "\<dots> \<longleftrightarrow> (\<exists>k. did_ids s k = invld_sz \<and> (did_idx s \<le> k \<and> k < RIO_LAST_DEV16 \<or> 1 \<le> k \<and> k < did_idx s))"
  proof
    assume "\<exists>v. did_legal v \<and> did_ids s v = invld_sz"
    then obtain v where v: "did_legal v" "did_ids s v = invld_sz"
      by blast
    then have "1 \<le> v" "v < RIO_LAST_DEV16"
      by (auto simp: did_legal_def word_le_nat_alt unat_gt_0 Suc_le_eq)
    with v(2) show "\<exists>k. did_ids s k = invld_sz \<and> (did_idx s \<le> k \<and> k < RIO_LAST_DEV16 \<or> 1 \<le> k \<and> k < did_idx s)"
      by (intro exI [of _ v]) auto
  next
    assume "\<exists>k. did_ids s k = invld_sz \<and> (did_idx s \<le> k \<and> k < RIO_LAST_DEV16 \<or> 1 \<le> k \<and> k < did_idx s)"
    then obtain k where k: "did_ids s k = invld_sz" "k < RIO_LAST_DEV16 \<or> k < did_idx s"
      by blast
    with ok have "k < 0x10000"
      by (auto simp: did_table_ok_def word_less_nat_alt word_le_nat_alt)
    with k(1) ok show "\<exists>v. did_legal v \<and> did_ids s v = invld_sz"
      by (auto intro: did_table_ok_freeD)
  qed
  finally show ?thesis
    using did_create_rc [of dev16_sz RIO_LAST_DEV16 d st] by (simp add: did_upb_def s_def)
qed

theorem did_create_dev16_complete_witness:
  "did_inv did_start \<and> fst (did_create (Some DID_INVALID_ID) dev16_sz did_start) = 0"
proof -
  have "did_legal 1 \<and> 1 \<notin> did_used did_start"
    by (simp add: did_legal_def did_used_def did_start_def)
  then show ?thesis
    using did_create_dev16_complete [OF did_inv_start, of DID_INVALID_ID] did_inv_start by auto
qed

text \<open>
  C3. In every state the interface can reach, the three reserved entries stay taken once the table is
  initialised, the search position stays in range, and nothing outside the 65536 entries of the array
  is ever written.
\<close>

theorem did_reachable_inv:
  assumes "did_reachable st"
  shows "did_inv st \<and> (\<forall>k. 0x10000 \<le> k \<longrightarrow> did_ids st k = invld_sz) \<and> did_idx st \<le> 0x10000"
proof -
  from assms have "did_inv st"
    by (induction rule: did_reachable.induct) (auto simp: did_inv_start intro: did_step_inv)
  then show ?thesis
    by (auto simp: did_inv_def did_start_def did_table_ok_def)
qed

theorem did_reachable_inv_witness:
  "\<exists>st. did_reachable st \<and> did_idx st = 2 \<and> did_inv st"
proof -
  have "did_reachable (did_init\<lparr>did_ids := (did_ids did_init)(1 := dev08_sz), did_idx := 2\<rparr>)"
    using reach_step [OF reach_start step_create [OF did_create_first]] .
  from did_reachable_inv [OF this] this show ?thesis
    by (intro exI conjI) auto
qed

text \<open>
  Identifiers handed out one after another, of any mix of sizes, are pairwise distinct and were
  all unused before.
\<close>

theorem did_alloc_distinct:
  assumes "did_inv st" and "alloc_all did_alloc szs st = Some (vs, st')"
  shows "distinct vs \<and> set vs \<inter> did_used st = {} \<and> did_used st' = did_used st \<union> set vs"
  using did_pool.alloc_all_distinct [OF assms] by blast

lemma did_alloc_two:
  "\<exists>st'. alloc_all did_alloc [dev08_sz, dev16_sz] did_start = Some ([1, 2], st')"
  by (simp add: did_alloc_def did_create_at_idx did_upb_def did_found_def did_lazy_init_def did_start_def did_init_def)

theorem did_alloc_distinct_witness:
  "\<exists>st'. alloc_all did_alloc [dev08_sz, dev16_sz] did_start = Some ([1, 2], st') \<and>
     did_used st' = did_used did_start \<union> {1, 2}"
proof -
  obtain st' where run: "alloc_all did_alloc [dev08_sz, dev16_sz] did_start = Some ([1, 2], st')"
    using did_alloc_two by blast
  from did_alloc_distinct [OF did_inv_start run] run show ?thesis
    by auto
qed

text \<open>
  C4. Create, look up, release: an identifier created from data is found with its value and size, its
  release succeeds and restores the table, and afterwards the lookup reports it as expired.
\<close>

theorem did_data_roundtrip:
  assumes "did_inv st" and "did_create_from_data (Some d) v sz st = (0, out, st1)"
  shows "did_get (Some e) v st1 = (0, Some \<lparr>did_value = v, did_size = sz\<rparr>, st1) \<and>
    (\<exists>st2. did_release \<lparr>did_value = v, did_size = sz\<rparr> st1 = (0, st2) \<and> st2 = did_lazy_init st \<and>
       fst (did_get (Some e) v st2) = - EKEYEXPIRED)"
proof -
  define s where "s = did_lazy_init st"
  have ok: "did_table_ok s"
    using assms(1) by (simp add: s_def did_lazy_init_ok)
  from did_create_from_data_ok [OF assms(2)] have c: "did_legal v" "sz \<noteq> invld_sz" "did_ids s v = invld_sz"
    and sz: "sz \<in> {dev08_sz, dev16_sz}" and st1: "st1 = s\<lparr>did_ids := (did_ids s)(v := sz)\<rparr>"
    by (auto simp: s_def)
  have chk: "did_chk_range v sz = 0"
    using assms(2) by (auto simp: did_create_from_data_def Let_def split: if_splits)
  have "did_table_ok st1"
    using did_table_ok_take(2) [OF ok c(1) sz] by (simp add: st1)
  then have lazy: "did_lazy_init st1 = st1" "did_lazy_init s = s"
    using ok by (simp_all add: did_lazy_init_id)
  have "did_get (Some e) v st1 = (0, Some \<lparr>did_value = v, did_size = sz\<rparr>, st1)"
    using c lazy by (simp add: did_get_rc st1)
  moreover have "did_release \<lparr>did_value = v, did_size = sz\<rparr> st1 = (0, s)"
    using chk c by (simp add: did_release_def st1 fun_upd_idem)
  moreover have "fst (did_get (Some e) v s) = - EKEYEXPIRED"
    using c lazy by (simp add: did_get_rc)
  ultimately show ?thesis
    by (simp add: s_def)
qed

theorem did_data_roundtrip_witness:
  "\<exists>st1 st2. fst (did_create_from_data (Some DID_INVALID_ID) 300 dev16_sz did_start) = 0 \<and>
     did_release \<lparr>did_value = 300, did_size = dev16_sz\<rparr> st1 = (0, st2) \<and> st2 = did_lazy_init did_start"
proof -
  obtain out st1 where c: "did_create_from_data (Some DID_INVALID_ID) 300 dev16_sz did_start = (0, out, st1)"
    by (simp add: did_create_from_data_def did_chk_range_def did_lazy_init_def did_start_def did_init_def)
  from did_data_roundtrip [OF did_inv_start c, of DID_INVALID_ID] c show ?thesis
    by auto
qed

text \<open>
  C5. A successful group allocation returns a fresh group whose base is a multiple of 256; every
  legal identifier of its range was unused, the whole range is in use afterwards, and no entry outside
  the range changes.
\<close>

theorem did_alloc_grp_range:
  assumes "did_alloc_dev16_grp (Some g0) st = (0, out, st')"
  shows "\<exists>b. out = Some (Some (grp_new b)) \<and> b < 0x10000 \<and> unat b mod 256 = 0 \<and> grp_inv (grp_new b) \<and>
     (\<forall>k. b \<le> k \<and> k < b + RIO_RT_GRP_SZ \<and> did_legal k \<longrightarrow> did_ids (did_lazy_init st) k = invld_sz) \<and>
     (\<forall>k. did_ids st' k =
        (if b \<le> k \<and> k < b + RIO_RT_GRP_SZ \<and> k \<noteq> RIO_LAST_DEV8 \<and> k \<noteq> RIO_LAST_DEV16 then dev16_sz
         else did_ids (did_lazy_init st) k))"
proof -
  from did_alloc_grp_ok [OF assms] obtain b where b: "out = Some (Some (grp_new b))" "b < 0x10000"
    "unat b mod 256 = 0" "grp_avail (did_ids (did_lazy_init st)) b"
    "did_ids st' = grp_mark b 0 (did_ids (did_lazy_init st))"
    by auto
  with grp_avail_range [OF b(2)] grp_mark_range [OF b(2)] show ?thesis
    by (auto simp: did_legal_def grp_inv_new intro!: exI [of _ b])
qed

theorem did_alloc_grp_range_witness:
  "\<exists>out st'. did_alloc_dev16_grp (Some None) did_start = (0, out, st') \<and> did_ids st' 200 = dev16_sz \<and>
     did_ids st' 256 = invld_sz"
proof -
  obtain out st' where a: "did_alloc_dev16_grp (Some None) did_start = (0, out, st')" and
    out: "out = Some (Some (grp_new 0))"
    using did_alloc_grp_first by blast
  from did_alloc_grp_range [OF a] obtain b where "grp_new 0 = grp_new b" and
    ids: "\<And>k. did_ids st' k =
        (if b \<le> k \<and> k < b + RIO_RT_GRP_SZ \<and> k \<noteq> RIO_LAST_DEV8 \<and> k \<noteq> RIO_LAST_DEV16 then dev16_sz
         else did_ids (did_lazy_init did_start) k)"
    by (auto simp: out)
  then have "b = 0"
    by (simp add: grp_new_def)
  then have "did_ids st' 200 = dev16_sz \<and> did_ids st' 256 = invld_sz"
    by (simp add: ids did_lazy_init_def did_start_def did_init_def)
  with a show ?thesis
    by blast
qed

text \<open>
  The groups a client can hold: one that \<open>did_alloc_dev16_grp\<close> handed out, and what reservations
  and their release, successful or not, make of it.
\<close>

inductive grp_reachable :: "did_grp_t \<Rightarrow> bool" where
  grp_reach_alloc: "did_alloc_dev16_grp (Some g0) st = (0, Some (Some g), st') \<Longrightarrow> grp_reachable g"
| grp_reach_resrv: "grp_reachable g \<Longrightarrow> did_grp_resrv_did (Some g) d = (rc, Some g', out) \<Longrightarrow> grp_reachable g'"
| grp_reach_unresrv: "grp_reachable g \<Longrightarrow> did_grp_unresrv_did (Some g) e = (rc, Some g') \<Longrightarrow> grp_reachable g'"

lemma grp_reachable_inv: "grp_reachable g \<Longrightarrow> grp_inv g"
proof (induction rule: grp_reachable.induct)
  case (grp_reach_alloc g0 st g st')
  with did_alloc_grp_ok [of g0 st "Some (Some g)" st'] show ?case
    by (auto simp: grp_inv_new)
next
  case (grp_reach_resrv g d rc g' out)
  then show ?case
    by (cases d) (auto simp: did_grp_resrv_did_def [of _ None] intro: grp_inv_resrv)
next
  case (grp_reach_unresrv g e rc g')
  then show ?case
    by (blast intro: grp_inv_unresrv)
qed

lemma grp_runs_distinct:
  assumes "grp_inv g" and "alloc_all grp_alloc rs g = Some (vs, g')"
  shows "distinct vs \<and> set vs \<inter> grp_used g = {} \<and> grp_base g \<notin> set vs \<and> grp_base g + 255 \<notin> set vs"
proof -
  from did_group.alloc_all_distinct [OF assms] have "distinct vs" "set vs \<inter> grp_used g = {}"
    by auto
  moreover have "grp_base g \<in> grp_used g" "grp_base g + 255 \<in> grp_used g"
    using assms(1) by (auto simp: grp_used_def grp_inv_def intro!: exI [of _ 0] exI [of _ 255])
  ultimately show ?thesis
    by blast
qed

lemma grp_resrv_rc:
  assumes "grp_inv g"
  shows "fst (did_grp_resrv_did (Some g) (Some d)) =
    (if \<forall>i < RIO_RT_GRP_SZ. grp_base g + i \<in> grp_used g then - ENOBUFS else 0)"
proof -
  obtain rc out did' where r: "did_grp_resrv_did (Some g) (Some d) = (rc, out, did')"
    by (cases "did_grp_resrv_did (Some g) (Some d)")
  have used: "grp_base g + i \<in> grp_used g \<longleftrightarrow> l_dev16 g i \<noteq> invld_sz" if "i < RIO_RT_GRP_SZ" for i
    using that by (auto simp: grp_used_def)
  show ?thesis
  proof (cases "rc = 0")
    case True
    with grp_resrv_ok [of g d out did'] r used show ?thesis
      by auto
  next
    case False
    with grp_resrv_full [OF assms r] r used show ?thesis
      by auto
  qed
qed

lemma grp_reuse:
  assumes inv: "grp_inv g" and full: "unat (grp_next g) = 256"
    and u: "did_grp_unresrv_did (Some g) e = (0, Some g1)"
  shows "\<exists>g2. did_grp_resrv_did (Some g1) (Some d) =
     (0, Some g2, Some \<lparr>did_value = grp_base g + (did_value e AND 0xFF), did_size = dev16_sz\<rparr>)"
proof -
  define i where "i = did_value e AND 0xFF"
  have i: "i < RIO_RT_GRP_SZ"
    using word_and_le1 [of "did_value e" "0xFF"] by (simp add: i_def word_le_nat_alt word_less_nat_alt)
  have "RIO_RT_GRP_SZ \<le> ucast (grp_next g)"
    using full by (simp add: word_le_nat_alt)
  with u have g1: "g1 = g\<lparr>l_dev16 := (l_dev16 g)(i := invld_sz), grp_next := ucast i\<rparr>"
    by (auto simp: did_grp_unresrv_did_def Let_def i_def split: if_splits)
  have n: "ucast (ucast i :: u16) = i"
    using i by (simp add: word_unat_eq_iff unat_ucast_u32_u16 word_less_nat_alt)
  have imod: "i mod RIO_RT_GRP_SZ = i"
    using i by (simp add: word_unat_eq_iff unat_mod word_less_nat_alt)
  have "find_up (\<lambda>offset. l_dev16 g1 ((offset + ucast (grp_next g1)) mod RIO_RT_GRP_SZ) = invld_sz) 0 RIO_RT_GRP_SZ = Some 0"
    by (rule find_up_first) (simp_all add: g1 n imod)
  with i inv show ?thesis
    by (simp add: did_grp_resrv_did_def g1 n imod grp_inv_def leD i_def [symmetric])
qed

text \<open>
  C6. A group that \<open>did_alloc_dev16_grp\<close> handed out, after any calls of reservation and release,
  never hands out in a run of reservations an identifier twice, nor one that is reserved, nor its first
  or last one; a reservation succeeds unless all 256 entries are reserved, and then reports
  \<open>ENOBUFS\<close>; an identifier given back to a group that has reported exhaustion is the next one
  handed out.
\<close>

theorem did_group_reservations:
  assumes "grp_reachable g"
  shows "(\<forall>rs vs g'. alloc_all grp_alloc rs g = Some (vs, g') \<longrightarrow>
            distinct vs \<and> set vs \<inter> grp_used g = {} \<and> grp_base g \<notin> set vs \<and> grp_base g + 255 \<notin> set vs) \<and>
         (\<forall>d. fst (did_grp_resrv_did (Some g) (Some d)) =
            (if \<forall>i < 256. grp_base g + i \<in> grp_used g then - ENOBUFS else 0)) \<and>
         (\<forall>d e g1. unat (grp_next g) = 256 \<and> did_grp_unresrv_did (Some g) e = (0, Some g1) \<longrightarrow>
            (\<exists>g2. did_grp_resrv_did (Some g1) (Some d) =
              (0, Some g2, Some \<lparr>did_value = grp_base g + (did_value e AND 0xFF), did_size = dev16_sz\<rparr>)))"
  using grp_runs_distinct [OF grp_reachable_inv [OF assms]] grp_resrv_rc [OF grp_reachable_inv [OF assms]]
    grp_reuse [OF grp_reachable_inv [OF assms]] by simp

lemma grp_alloc_next:
  assumes "ucast (grp_next g) < RIO_RT_GRP_SZ" and "l_dev16 g (ucast (grp_next g) mod RIO_RT_GRP_SZ) = invld_sz"
  shows "grp_alloc () g =
    (let idx = ucast (grp_next g) mod RIO_RT_GRP_SZ in
     Some (grp_base g + idx, g\<lparr>l_dev16 := (l_dev16 g)(idx := grp_size g),
                                grp_next := ucast ((idx + 1) mod RIO_RT_GRP_SZ)\<rparr>))"
proof -
  have "find_up (\<lambda>offset. l_dev16 g ((offset + ucast (grp_next g)) mod RIO_RT_GRP_SZ) = invld_sz) 0 RIO_RT_GRP_SZ = Some 0"
    by (rule find_up_first) (simp_all add: assms)
  with assms(1) show ?thesis
    by (simp add: grp_alloc_def did_grp_resrv_did_def Let_def not_le [symmetric])
qed

lemma grp_alloc_two:
  "\<exists>g'. alloc_all grp_alloc [(), ()] (grp_new 0) = Some ([1, 2], g')"
  by (simp add: grp_alloc_next grp_new_def)

theorem did_group_reservations_witness:
  "\<exists>g'. alloc_all grp_alloc [(), ()] (grp_new 0) = Some ([1, 2], g') \<and>
     {1, 2} \<inter> grp_used (grp_new 0) = {}"
proof -
  have r: "grp_reachable (grp_new 0)"
    using did_alloc_grp_first by (rule grp_reach_alloc)
  obtain g' where a: "alloc_all grp_alloc [(), ()] (grp_new 0) = Some ([1, 2], g')"
    using grp_alloc_two by blast
  from did_group_reservations [OF r, THEN conjunct1, rule_format, OF a] a show ?thesis
    by auto
qed

text \<open>
  The second loop of \<open>did_create\<close> is not limited by the size requested: after a group
  allocation, one 16-bit creation and its release, a request for an 8-bit identifier succeeds and
  returns the value 256, which no 8-bit identifier can have.
\<close>

theorem did_create_dev08_exceeds:
  "\<exists>st d st'. did_reachable st \<and> did_create (Some DID_INVALID_ID) dev08_sz st = (0, Some d, st') \<and>
     did_size d = dev08_sz \<and> did_value d = 256"
proof -
  define s1 where "s1 = did_init\<lparr>did_ids := grp_mark 0 0 (did_ids did_init), did_idx := RIO_RT_GRP_SZ\<rparr>"
  define s2 where "s2 = s1\<lparr>did_ids := (did_ids s1)(256 := dev16_sz), did_idx := 257\<rparr>"
  define s3 where "s3 = s1\<lparr>did_idx := 257\<rparr>"
  have ids1: "did_ids s1 k = (if k < RIO_RT_GRP_SZ \<and> k \<noteq> RIO_LAST_DEV8 then dev16_sz else did_ids did_init k)" for k
    by (auto simp: s1_def grp_mark_range)
  have r1: "did_reachable s1"
    using reach_step [OF reach_start step_alloc_grp [OF did_alloc_grp_first]] by (simp add: s1_def)
  have c2: "did_create (Some DID_INVALID_ID) dev16_sz s1 = (0, Some \<lparr>did_value = 256, did_size = dev16_sz\<rparr>, s2)"
    by (subst did_create_at_idx [of dev16_sz RIO_LAST_DEV16])
       (simp_all add: did_upb_def did_found_def did_lazy_init_def ids1, simp_all add: s2_def s1_def did_init_def)
  have c3: "did_release \<lparr>did_value = 256, did_size = dev16_sz\<rparr> s2 = (0, s3)"
    using ids1 [of 256]
    by (simp add: did_release_def did_chk_range_def s2_def s3_def fun_upd_idem did_init_def)
  have r3: "did_reachable s3"
    using reach_step [OF reach_step [OF r1 step_create [OF c2]] step_release [OF c3]] .
  have "find_up (\<lambda>i. did_ids s3 i = invld_sz) 257 RIO_LAST_DEV8 = None"
    by (rule find_up_empty) simp
  moreover have "find_up (\<lambda>i. did_ids s3 i = invld_sz) 1 257 = Some 256"
    by (rule find_up_skip) (auto simp: s3_def ids1 did_init_def)
  ultimately have "did_create (Some DID_INVALID_ID) dev08_sz s3 = did_found 256 dev08_sz s3"
    by (simp add: did_create_def did_upb_def did_lazy_init_def s3_def)
  with r3 show ?thesis
    by (intro exI [of _ s3] exI conjI) (auto simp: did_found_def)
qed

end
