(* ===== verification/Rio_Ct.thy ===== *)
theory Rio_Ct
  imports Rio_Did
begin

unbundle bit_operations_syntax

text \<open>
  Component tags, \<^verbatim>\<open>fabric_management/libct/src/ct.c\<close>. A component tag is a 32-bit word: a 16-bit
  number in the upper half and a device identifier in the lower half. The state is the table
  \<open>ct_ids\<close> of use counts (0 free, -1 retired, positive in use), the search position \<open>ct_idx\<close>, and the
  state of the device identifier library it calls. The use counts are integers: the overflow of a
  C \<open>int\<close> after 2^31 increments of one entry is not modelled.
\<close>

section \<open>Data\<close>

record ct_state =
  ct_ids :: "u32 \<Rightarrow> int"
  ct_idx :: u32
  ct_dids :: did_state

abbreviation (input) COMPTAG_UNSET :: u32 where "COMPTAG_UNSET \<equiv> 0"
abbreviation (input) NUMBER_OF_CTS :: u32 where "NUMBER_OF_CTS \<equiv> 0x10000"
abbreviation (input) CT_NR_MASK :: u32 where "CT_NR_MASK \<equiv> 0xFFFF0000"
abbreviation (input) CT_DID_MASK :: u32 where "CT_DID_MASK \<equiv> 0x0000FFFF"

definition ct_start :: ct_state where
  "ct_start = \<lparr>ct_ids = (\<lambda>_. 0), ct_idx = 0, ct_dids = did_start\<rparr>"

definition CT_FROM_NR_DID :: "u16 \<Rightarrow> u32 \<Rightarrow> u32" where
  "CT_FROM_NR_DID n d = (push_bit 16 (ucast n) AND CT_NR_MASK) OR (CT_DID_MASK AND d)"

definition ct_initialize :: "ct_state \<Rightarrow> ct_state" where
  "ct_initialize st = st\<lparr>ct_ids := (ct_ids st)(0 := - 1), ct_idx := 1\<rparr>"

definition ct_lazy_init :: "ct_state \<Rightarrow> ct_state" where
  "ct_lazy_init st = (if ct_idx st = 0 then ct_initialize st else st)"

section \<open>Operations\<close>

definition ct_next_nr :: "ct_state \<Rightarrow> int \<times> u16 option" where
  "ct_next_nr st =
     (case find_up (\<lambda>i. ct_ids st i = 0) (ct_idx st) NUMBER_OF_CTS of
        Some i \<Rightarrow> (0, Some (ucast i))
      | None \<Rightarrow>
         (case find_up (\<lambda>i. ct_ids st i = 0) 1 (ct_idx st) of
            Some i \<Rightarrow> (0, Some (ucast i))
          | None \<Rightarrow> (- ENOBUFS, None)))"

text \<open>\<^verbatim>\<open>ct_ids[nr]++\<close>\<close>

definition ct_incr :: "u16 \<Rightarrow> ct_state \<Rightarrow> ct_state" where
  "ct_incr nr st = st\<lparr>ct_ids := (ct_ids st)(ucast nr := ct_ids st (ucast nr) + 1)\<rparr>"

definition ct_get_nr :: "u16 option \<Rightarrow> u32 \<Rightarrow> int \<times> u16 option" where
  "ct_get_nr nr ct =
     (case nr of None \<Rightarrow> (- EINVAL, None)
      | Some _ \<Rightarrow>
         (let n = ucast (0x0000FFFF AND drop_bit 16 ct) in (if n = 0 then - EINVAL else 0, Some n)))"

definition ct_create_all ::
  "u32 option \<Rightarrow> did_t option \<Rightarrow> did_sz_t \<Rightarrow> ct_state \<Rightarrow> int \<times> u32 option \<times> did_t option \<times> ct_state" where
  "ct_create_all ct did sz st0 =
     (let st = ct_lazy_init st0 in
      if ct = None \<or> did = None
      then (- EINVAL, map_option (\<lambda>_. COMPTAG_UNSET) ct, map_option (\<lambda>_. DID_INVALID_ID) did, st)
      else case ct_next_nr st of
        (rc, None) \<Rightarrow> (rc, Some COMPTAG_UNSET, did, st)
      | (_, Some nr) \<Rightarrow>
         (case did_create did sz (ct_dids st) of
            (rc, did', dids) \<Rightarrow>
              (let st1 = st\<lparr>ct_dids := dids\<rparr> in
               if rc \<noteq> 0 then (rc, Some COMPTAG_UNSET, did', st1)
               else (0, Some (CT_FROM_NR_DID nr (did_get_value (the did'))), did',
                     (ct_incr nr st1)\<lparr>ct_idx := ucast (nr + 1)\<rparr>))))"

definition ct_create_from_nr_and_did ::
  "u32 option \<Rightarrow> u16 \<Rightarrow> did_t \<Rightarrow> ct_state \<Rightarrow> int \<times> u32 option \<times> ct_state" where
  "ct_create_from_nr_and_did ct nr did st0 =
     (let st = ct_lazy_init st0 in
      case ct of None \<Rightarrow> (- EINVAL, None, st)
      | Some _ \<Rightarrow>
          if ct_ids st (ucast nr) = - 1 then (- EKEYEXPIRED, Some COMPTAG_UNSET, st)
          else case did_get (Some DID_INVALID_ID) (did_get_value did) (ct_dids st) of
            (rc, cached_did, dids) \<Rightarrow>
              (let st1 = st\<lparr>ct_dids := dids\<rparr> in
               if rc \<noteq> 0 then (rc, Some COMPTAG_UNSET, st1)
               else (0, Some (CT_FROM_NR_DID nr (did_get_value did)), ct_incr nr st1)))"

definition ct_create_from_data ::
  "u32 option \<Rightarrow> did_t option \<Rightarrow> u16 \<Rightarrow> u32 \<Rightarrow> did_sz_t \<Rightarrow> ct_state \<Rightarrow>
     int \<times> u32 option \<times> did_t option \<times> ct_state" where
  "ct_create_from_data ct did nr did_val sz st0 =
     (let st = ct_lazy_init st0 in
      if ct = None \<or> did = None
      then (- EINVAL, map_option (\<lambda>_. COMPTAG_UNSET) ct, map_option (\<lambda>_. DID_INVALID_ID) did, st)
      else case did_create_from_data did did_val sz (ct_dids st) of
        (rc, did', dids) \<Rightarrow>
          (let st1 = st\<lparr>ct_dids := dids\<rparr> in
           if rc \<noteq> 0 then (rc, Some COMPTAG_UNSET, did', st1)
           else case ct_create_from_nr_and_did ct nr (the did') st1 of
             (rc2, ct', st2) \<Rightarrow>
               if rc2 \<noteq> 0
               then (rc2, Some COMPTAG_UNSET, Some DID_INVALID_ID,
                     st2\<lparr>ct_dids := snd (did_release (the did') (ct_dids st2))\<rparr>)
               else (rc2, ct', did', st2)))"

definition ct_create_from_did :: "u32 option \<Rightarrow> did_t \<Rightarrow> ct_state \<Rightarrow> int \<times> u32 option \<times> ct_state" where
  "ct_create_from_did ct did st0 =
     (let st = ct_lazy_init st0 in
      case ct of None \<Rightarrow> (- EINVAL, None, st)
      | Some _ \<Rightarrow>
         (case ct_next_nr st of
            (rc, None) \<Rightarrow> (rc, Some COMPTAG_UNSET, st)
          | (_, Some nr) \<Rightarrow>
             (case did_get (Some DID_INVALID_ID) (did_get_value did) (ct_dids st) of
                (rc, cached_did, dids) \<Rightarrow>
                  (let st1 = st\<lparr>ct_dids := dids\<rparr> in
                   if rc \<noteq> 0 then (rc, Some COMPTAG_UNSET, st1)
                   else (0, Some (CT_FROM_NR_DID nr (did_get_value did)),
                         (ct_incr nr st1)\<lparr>ct_idx := ucast (nr + 1)\<rparr>)))))"

text \<open>
  The assignment \<^verbatim>\<open>nr = CT_NR_MASK & ct_val\<close> of \<open>ct_from_value\<close> stores a 32-bit value whose lower half
  is zero in a 16-bit variable; the model keeps the truncation.
\<close>

definition ct_from_value :: "u32 option \<Rightarrow> u32 \<Rightarrow> ct_state \<Rightarrow> int \<times> u32 option \<times> ct_state" where
  "ct_from_value ct ct_val st0 =
     (let st = ct_lazy_init st0;
          v = CT_DID_MASK AND ct_val;
          sz = (if v > RIO_LAST_DEV8 then dev16_sz else dev08_sz);
          cached_did = \<lparr>did_value = v, did_size = sz\<rparr>
      in case ct of None \<Rightarrow> (- EINVAL, None, st)
      | Some _ \<Rightarrow>
          if did_not_inuse cached_did (ct_dids st) \<noteq> 0
          then (let nr = ucast (CT_NR_MASK AND ct_val) :: u16 in (0, Some ct_val, ct_incr nr st))
          else case did_from_value (Some cached_did) v (if sz = dev16_sz then 1 else 0) (ct_dids st) of
            (rc, out, dids) \<Rightarrow>
              (let st1 = st\<lparr>ct_dids := dids\<rparr> in
               if rc \<noteq> 0 then (rc, Some COMPTAG_UNSET, st1) else (0, Some ct_val, st1)))"

definition ct_release :: "u32 \<Rightarrow> did_t \<Rightarrow> ct_state \<Rightarrow> int \<times> ct_state" where
  "ct_release ct did st =
     (case ct_get_nr (Some 0) ct of
        (rc, n) \<Rightarrow>
          (let nr = ucast (the n) :: u32 in
           if rc \<noteq> 0 then (rc, st)
           else if ct_ids st nr < 1 then (- EINVAL, st)
           else case did_release did (ct_dids st) of
             (rc2, dids) \<Rightarrow>
               (let st1 = st\<lparr>ct_dids := dids\<rparr> in
                if rc2 \<noteq> 0 then (rc2, st1)
                else if ct_ids st1 nr = 1 then (0, st1\<lparr>ct_ids := (ct_ids st1)(nr := - 1)\<rparr>)
                else (0, st1\<lparr>ct_ids := (ct_ids st1)(nr := ct_ids st1 nr - 1)\<rparr>))))"

definition ct_get_destid :: "did_t option \<Rightarrow> u32 \<Rightarrow> ct_state \<Rightarrow> int \<times> did_t option \<times> ct_state" where
  "ct_get_destid did ct st =
     (case did_get did (CT_DID_MASK AND ct) (ct_dids st) of (rc, out, dids) \<Rightarrow> (rc, out, st\<lparr>ct_dids := dids\<rparr>))"

definition ct_not_inuse :: "u32 \<Rightarrow> ct_state \<Rightarrow> int \<times> ct_state" where
  "ct_not_inuse ct st =
     (case ct_get_nr (Some 0) ct of
        (rc, n) \<Rightarrow>
          if rc \<noteq> 0 then (rc, st)
          else if ct_ids st (ucast (the n)) > 0
            then (case did_get (Some DID_INVALID_ID) (ct AND CT_DID_MASK) (ct_dids st) of
                    (rc2, out, dids) \<Rightarrow> (if rc2 \<noteq> 0 then 0 else 1, st\<lparr>ct_dids := dids\<rparr>))
          else (0, st))"

section \<open>The packing of number and identifier\<close>

lemma CT_split:
  "drop_bit 16 (CT_FROM_NR_DID n d) = ucast n" "CT_FROM_NR_DID n d AND CT_DID_MASK = d AND CT_DID_MASK"
proof -
  have mask: "(0xFFFF::u32) = mask 16" "(0xFFFF0000::u32) = push_bit 16 (mask 16)"
    by (simp_all add: mask_eq_exp_minus_1)
  show "drop_bit 16 (CT_FROM_NR_DID n d) = ucast n"
    unfolding CT_FROM_NR_DID_def mask
    by (rule bit_word_eqI) (auto simp: bit_simps dest: bit_imp_le_length)
  show "CT_FROM_NR_DID n d AND CT_DID_MASK = d AND CT_DID_MASK"
    unfolding CT_FROM_NR_DID_def mask
    by (rule bit_word_eqI) (auto simp: bit_simps)
qed

lemma ucast_u16_u32_u16 [simp]: "ucast (ucast (n :: u16) :: u32) = n"
  by (simp add: word_unat_eq_iff unat_ucast_u32_u16 unat_u16_less)

lemma ucast_u16_eq_iff [simp]: "(ucast (m :: u16) :: u32) = ucast n \<longleftrightarrow> m = n"
  by (simp add: word_unat_eq_iff)

lemma ucast_u16_eq_0_iff [simp]: "(ucast (n :: u16) :: u32) = 0 \<longleftrightarrow> n = 0"
  by (simp add: word_unat_eq_iff)

lemma ucast_u32_u16_u32: "(i :: u32) < 0x10000 \<Longrightarrow> ucast (ucast i :: u16) = i"
  by (simp add: word_unat_eq_iff unat_ucast_u32_u16 word_less_nat_alt)

lemma and_low_half: "(d :: u32) < 0x10000 \<Longrightarrow> d AND 0xFFFF = d"
proof -
  assume d: "d < 0x10000"
  have "d AND 0xFFFF = take_bit 16 d"
    by (simp add: take_bit_eq_mask mask_eq_exp_minus_1)
  also have "\<dots> = d"
    using d by (simp add: word_unat_eq_iff take_bit_eq_mod unat_mod word_less_nat_alt)
  finally show ?thesis .
qed

lemma high_half_truncated: "(ucast (CT_NR_MASK AND x) :: u16) = 0"
proof -
  have mask: "(0xFFFF0000::u32) = push_bit 16 (mask 16)"
    by (simp add: mask_eq_exp_minus_1)
  show ?thesis
    unfolding mask by (rule bit_word_eqI) (auto simp: bit_simps)
qed

lemma ct_get_nr_pack: "ct_get_nr (Some z) (CT_FROM_NR_DID n d) = (if n = 0 then - EINVAL else 0, Some n)"
proof -
  have "(0xFFFF AND ucast n :: u32) = ucast n"
    using and_low_half [of "ucast n"] unsigned_less [of n, where ?'a = nat]
    by (simp add: word_less_nat_alt and.commute)
  then show ?thesis
    by (simp add: ct_get_nr_def CT_split)
qed

lemma ct_did_pack: "did_legal d \<Longrightarrow> CT_DID_MASK AND CT_FROM_NR_DID n d = d"
  using CT_split(2) [of n d] and_low_half [of d]
  by (simp add: and.commute did_legal_def word_less_nat_alt)

section \<open>Invariant and properties of single operations\<close>

definition ct_inv :: "ct_state \<Rightarrow> bool" where
  "ct_inv st \<longleftrightarrow> ct_idx st \<le> 0xFFFF \<and> (\<forall>k. - 1 \<le> ct_ids st k) \<and> did_inv (ct_dids st)"

text \<open>Numbers that are in use or retired.\<close>

definition ct_used :: "ct_state \<Rightarrow> u16 set" where
  "ct_used st = {nr. nr \<noteq> 0 \<and> ct_ids st (ucast nr) \<noteq> 0}"

lemma ct_inv_start: "ct_inv ct_start"
  by (simp add: ct_inv_def ct_start_def did_inv_start)

lemma ct_lazy_init_props:
  assumes "ct_inv st"
  shows "1 \<le> ct_idx (ct_lazy_init st)" "ct_inv (ct_lazy_init st)" "ct_used (ct_lazy_init st) = ct_used st"
    "ct_dids (ct_lazy_init st) = ct_dids st" "nr \<noteq> 0 \<Longrightarrow> ct_ids (ct_lazy_init st) (ucast nr) = ct_ids st (ucast (nr :: u16))"
  using assms
  by (auto simp: ct_lazy_init_def ct_initialize_def ct_inv_def ct_used_def word_le_nat_alt Suc_le_eq unat_gt_0)

lemma ct_next_nr_ok:
  assumes "ct_next_nr st = (rc, Some nr)" and "1 \<le> ct_idx st" and "ct_idx st \<le> 0xFFFF"
  shows "rc = 0 \<and> nr \<noteq> 0 \<and> ct_ids st (ucast nr) = 0"
proof -
  from assms(1) obtain i where i: "ct_ids st i = 0" "nr = ucast i" "1 \<le> i" "i < 0x10000" and "rc = 0"
  proof (cases "find_up (\<lambda>i. ct_ids st i = 0) (ct_idx st) NUMBER_OF_CTS")
    case (Some i)
    with find_up_Some [OF this] assms show ?thesis
      by (intro that [of i]) (auto simp: ct_next_nr_def intro: order.trans)
  next
    case None
    with assms(1) obtain i where "find_up (\<lambda>i. ct_ids st i = 0) 1 (ct_idx st) = Some i" "nr = ucast i" "rc = 0"
      by (auto simp: ct_next_nr_def split: option.splits)
    with find_up_Some [OF this(1)] assms show ?thesis
      by (intro that [of i]) (auto simp: word_le_nat_alt word_less_nat_alt)
  qed
  then have "ucast nr = i"
    by (simp add: ucast_u32_u16_u32)
  with i show ?thesis
    using \<open>rc = 0\<close> by (auto simp: word_le_nat_alt)
qed

lemma ct_next_nr_fail: "ct_next_nr st = (rc, None) \<Longrightarrow> rc = - ENOBUFS"
  by (auto simp: ct_next_nr_def split: option.splits)

lemma ct_idx_succ: "(ucast (n :: u16) :: u32) \<le> 0xFFFF"
  using unsigned_less [of n, where ?'a = nat] by (simp add: word_le_nat_alt)

lemma did_make_create:
  "did_create (Some d) sz st = (0, Some e, st') \<Longrightarrow> did_make sz st = Some (e, st')"
  by (auto simp: did_make_def did_create_def split: option.splits)

lemma did_make_from_create:
  "did_create_from_data (Some d) v sz st = (0, Some e, st') \<Longrightarrow> did_make_from v sz st = Some (e, st')"
  by (auto simp: did_make_from_def did_create_from_data_def Let_def split: if_splits)

text \<open>What a successful \<open>ct_create_all\<close> does.\<close>

lemma ct_create_all_ok:
  assumes "ct_inv st" and "ct_create_all (Some c) (Some d) sz st = (0, ct, did, st')"
  shows "\<exists>nr e dids. nr \<noteq> 0 \<and> nr \<notin> ct_used st \<and> ct = Some (CT_FROM_NR_DID nr (did_value e)) \<and> did = Some e \<and>
     did_make sz (ct_dids st) = Some (e, dids) \<and>
     st' = (ct_incr nr ((ct_lazy_init st)\<lparr>ct_dids := dids\<rparr>))\<lparr>ct_idx := ucast (nr + 1)\<rparr>"
proof -
  note lazy = ct_lazy_init_props [OF assms(1)]
  obtain rc nr where n: "ct_next_nr (ct_lazy_init st) = (rc, Some nr)"
  proof (cases "ct_next_nr (ct_lazy_init st)")
    case (Pair rc n)
    with assms(2) ct_next_nr_fail [of "ct_lazy_init st" rc] that show ?thesis
      by (cases n) (auto simp: ct_create_all_def Let_def)
  qed
  from ct_next_nr_ok [OF n lazy(1)] lazy(2) have nr: "rc = 0" "nr \<noteq> 0" "nr \<notin> ct_used (ct_lazy_init st)"
    by (auto simp: ct_inv_def ct_used_def)
  obtain rc2 did' dids where c': "did_create (Some d) sz (ct_dids st) = (rc2, did', dids)"
    by (cases "did_create (Some d) sz (ct_dids st)")
  with assms(2) n lazy(4) have "rc2 = 0"
    and r: "ct = Some (CT_FROM_NR_DID nr (did_value (the did')))" "did = did'"
       "st' = (ct_incr nr ((ct_lazy_init st)\<lparr>ct_dids := dids\<rparr>))\<lparr>ct_idx := ucast (nr + 1)\<rparr>"
    by (auto simp: ct_create_all_def Let_def did_get_value_def split: if_split_asm)
  with c' have c: "did_create (Some d) sz (ct_dids st) = (0, did', dids)"
    by simp
  from did_create_ok [OF _ c] assms(1) obtain e where "did' = Some e"
    by (auto simp: ct_inv_def)
  with c r nr lazy(3) did_make_create [of d sz "ct_dids st" e dids] show ?thesis
    by auto
qed

lemma ct_inv_update:
  assumes "ct_inv st" and "did_inv dids" and "idx \<le> 0xFFFF"
  shows "ct_inv (st\<lparr>ct_dids := dids\<rparr>)" "ct_inv (ct_incr nr st)" "ct_inv (st\<lparr>ct_idx := idx\<rparr>)"
proof -
  have "0 \<le> 2 + ct_ids st (ucast nr)"
    using assms(1) by (auto simp: ct_inv_def dest: spec [of _ "ucast nr"])
  then show "ct_inv (st\<lparr>ct_dids := dids\<rparr>)" "ct_inv (ct_incr nr st)" "ct_inv (st\<lparr>ct_idx := idx\<rparr>)"
    using assms by (auto simp: ct_inv_def ct_incr_def)
qed

lemma ct_incr_dids [simp]: "ct_dids (ct_incr nr st) = ct_dids st" "ct_idx (ct_incr nr st) = ct_idx st"
  by (simp_all add: ct_incr_def)

lemma ct_ids_incr [simp]: "ct_ids (ct_incr nr st) k = (if k = ucast nr then ct_ids st k + 1 else ct_ids st k)"
  by (simp add: ct_incr_def)

definition ct_alloc :: "did_sz_t \<Rightarrow> ct_state \<Rightarrow> (u16 \<times> ct_state) option" where
  "ct_alloc sz st =
     (case ct_create_all (Some 0) (Some DID_INVALID_ID) sz st of
        (rc, ct, did, st') \<Rightarrow>
          if rc = 0 then Some (the (snd (ct_get_nr (Some 0) (the ct))), st') else None)"

lemma ct_alloc_ok:
  assumes "ct_inv st" and "ct_alloc sz st = Some (nr, st')"
  shows "\<exists>e dids. nr \<noteq> 0 \<and> nr \<notin> ct_used st \<and> did_make sz (ct_dids st) = Some (e, dids) \<and>
     st' = (ct_incr nr ((ct_lazy_init st)\<lparr>ct_dids := dids\<rparr>))\<lparr>ct_idx := ucast (nr + 1)\<rparr>"
proof -
  obtain rc ct did s where c: "ct_create_all (Some 0) (Some DID_INVALID_ID) sz st = (rc, ct, did, s)"
    by (cases "ct_create_all (Some 0) (Some DID_INVALID_ID) sz st")
  with assms(2) have rc: "rc = 0" "s = st'" "nr = the (snd (ct_get_nr (Some 0) (the ct)))"
    by (auto simp: ct_alloc_def split: if_splits)
  from ct_create_all_ok [OF assms(1), of 0 DID_INVALID_ID sz ct did st'] c rc(1,2) obtain n e dids where
    n: "n \<noteq> 0" "n \<notin> ct_used st" "ct = Some (CT_FROM_NR_DID n (did_value e))"
    "did_make sz (ct_dids st) = Some (e, dids)"
    "st' = (ct_incr n ((ct_lazy_init st)\<lparr>ct_dids := dids\<rparr>))\<lparr>ct_idx := ucast (n + 1)\<rparr>"
    by auto
  moreover have "nr = n"
    using rc(3) n(3) by (simp add: ct_get_nr_pack)
  ultimately show ?thesis
    by blast
qed

interpretation ct_numbers: id_allocator ct_alloc ct_used ct_inv
proof unfold_locales
  fix s sz nr s'
  assume s: "ct_inv s" "ct_alloc sz s = Some (nr, s')"
  note lazy = ct_lazy_init_props [OF s(1)]
  from ct_alloc_ok [OF s] obtain e dids where nr: "nr \<noteq> 0" "nr \<notin> ct_used s"
    and m: "did_make sz (ct_dids s) = Some (e, dids)"
    and s': "s' = (ct_incr nr ((ct_lazy_init s)\<lparr>ct_dids := dids\<rparr>))\<lparr>ct_idx := ucast (nr + 1)\<rparr>"
    by blast
  show "nr \<notin> ct_used s"
    by (rule nr(2))
  have "ct_ids (ct_lazy_init s) (ucast nr) = 0"
    using nr lazy(5) [OF nr(1)] by (simp add: ct_used_def)
  then have "ct_used s' = insert nr (ct_used (ct_lazy_init s))"
    using nr(1) by (auto simp: s' ct_used_def)
  then show "ct_used s' = insert nr (ct_used s)"
    by (simp add: lazy(3))
  have "did_inv (ct_dids s)"
    using s(1) by (simp add: ct_inv_def)
  then have "did_inv dids"
    using m by (rule did_reg.make_invar)
  then show "ct_inv s'"
    unfolding s' by (intro ct_inv_update lazy(2) ct_idx_succ) (auto intro: ct_inv_update lazy(2) ct_idx_succ)
qed

section \<open>Retired numbers stay retired\<close>

inductive ct_step :: "ct_state \<Rightarrow> ct_state \<Rightarrow> bool" where
  step_ct_create_all: "ct_create_all c d sz st = (rc, c', d', st') \<Longrightarrow> ct_step st st'"
| step_ct_create_from_data: "ct_create_from_data c d nr v sz st = (rc, c', d', st') \<Longrightarrow> ct_step st st'"
| step_ct_create_from_nr_and_did: "ct_create_from_nr_and_did c nr did st = (rc, c', st') \<Longrightarrow> ct_step st st'"
| step_ct_create_from_did: "ct_create_from_did c did st = (rc, c', st') \<Longrightarrow> ct_step st st'"
| step_ct_from_value: "ct_from_value c v st = (rc, c', st') \<Longrightarrow> ct_step st st'"
| step_ct_release: "ct_release ct did st = (rc, st') \<Longrightarrow> ct_step st st'"
| step_ct_get_destid: "ct_get_destid d ct st = (rc, d', st') \<Longrightarrow> ct_step st st'"
| step_ct_not_inuse: "ct_not_inuse ct st = (rc, st') \<Longrightarrow> ct_step st st'"

text \<open>What every step keeps: the invariant, and that a retired number is retired.\<close>

definition ct_keeps :: "ct_state \<Rightarrow> ct_state \<Rightarrow> bool" where
  "ct_keeps st st' \<longleftrightarrow> ct_inv st' \<and> (\<forall>nr::u16. nr \<noteq> 0 \<and> ct_ids st (ucast nr) = - 1 \<longrightarrow> ct_ids st' (ucast nr) = - 1)"

named_theorems ct_keep \<open>closure rules of what a component tag operation keeps\<close>

lemma ct_keeps_refl [ct_keep]: "ct_inv st \<Longrightarrow> ct_keeps st st"
  by (simp add: ct_keeps_def)

lemma ct_keeps_lazy [ct_keep]: "ct_inv st \<Longrightarrow> ct_keeps st (ct_lazy_init st)"
  using ct_lazy_init_props by (simp add: ct_keeps_def)

lemma ct_keeps_dids [ct_keep]: "ct_keeps st s \<Longrightarrow> did_inv dids \<Longrightarrow> ct_keeps st (s\<lparr>ct_dids := dids\<rparr>)"
  by (simp add: ct_keeps_def ct_inv_def)

lemma ct_keeps_idx [ct_keep]: "ct_keeps st s \<Longrightarrow> ct_keeps st (s\<lparr>ct_idx := ucast (n :: u16)\<rparr>)"
  by (simp add: ct_keeps_def ct_inv_def ct_idx_succ)

lemma ct_keeps_incr [ct_keep]:
  assumes "ct_keeps st s" and "nr = 0 \<or> ct_ids s (ucast nr) \<noteq> - 1"
  shows "ct_keeps st (ct_incr nr s)"
  using assms ct_inv_update(2) [of s "ct_dids s" 0 nr] by (auto simp: ct_keeps_def ct_inv_def)

lemma ct_keeps_inv: "ct_keeps st s \<Longrightarrow> ct_inv s" "ct_keeps st s \<Longrightarrow> did_inv (ct_dids s)"
  by (simp_all add: ct_keeps_def ct_inv_def)

lemma ct_inv_dids: "ct_inv st \<Longrightarrow> did_inv (ct_dids (ct_lazy_init st))"
  using ct_lazy_init_props by (simp add: ct_inv_def)

lemma did_get_inv: "did_inv st \<Longrightarrow> did_get d v st = (rc, out, st') \<Longrightarrow> did_inv st'"
  by (auto dest: did_get_state did_inv_lazy)

lemmas did_invs = did_get_inv did_create_inv did_create_from_data_inv did_release_inv did_from_value_inv

lemma ct_create_all_keeps:
  assumes "ct_inv st" and "ct_create_all c d sz st = (rc, c', d', st')"
  shows "ct_keeps st st'"
proof -
  let ?s = "ct_lazy_init st"
  note lazy = ct_lazy_init_props [OF assms(1)]
  obtain r n where n: "ct_next_nr ?s = (r, n)"
    by (cases "ct_next_nr ?s")
  obtain rc2 did' dids where cr: "did_create d sz (ct_dids ?s) = (rc2, did', dids)"
    by (cases "did_create d sz (ct_dids ?s)")
  have dids: "did_inv dids"
    using did_create_inv [OF ct_inv_dids [OF assms(1)] cr] .
  have "ct_ids ?s (ucast m) = 0" if "n = Some m" for m
    using ct_next_nr_ok [of ?s r m] n that lazy(1,2) by (simp add: ct_inv_def)
  with assms n cr dids show ?thesis
    by (cases n) (auto simp: ct_create_all_def Let_def split: if_splits intro!: ct_keep)
qed

lemma ct_create_from_nr_and_did_keeps:
  assumes "ct_inv st" and "ct_create_from_nr_and_did c nr did st = (rc, c', st')"
  shows "ct_keeps st st'"
proof -
  let ?s = "ct_lazy_init st"
  obtain rc2 out dids where g: "did_get (Some DID_INVALID_ID) (did_get_value did) (ct_dids ?s) = (rc2, out, dids)"
    by (cases "did_get (Some DID_INVALID_ID) (did_get_value did) (ct_dids ?s)")
  have "did_inv dids"
    using did_get_inv [OF ct_inv_dids [OF assms(1)] g] .
  with assms g show ?thesis
    by (cases c) (auto simp: ct_create_from_nr_and_did_def Let_def split: if_splits intro!: ct_keep)
qed

lemma ct_keeps_trans: "ct_keeps st s \<Longrightarrow> ct_keeps s t \<Longrightarrow> ct_keeps st t"
  by (auto simp: ct_keeps_def)

lemma ct_create_from_data_keeps:
  assumes "ct_inv st" and "ct_create_from_data c d nr v sz st = (rc, c', d', st')"
  shows "ct_keeps st st'"
proof -
  let ?s = "ct_lazy_init st"
  obtain rc1 did' dids where cr: "did_create_from_data d v sz (ct_dids ?s) = (rc1, did', dids)"
    by (cases "did_create_from_data d v sz (ct_dids ?s)")
  let ?s1 = "?s\<lparr>ct_dids := dids\<rparr>"
  obtain rc2 ct' s2 where nd: "ct_create_from_nr_and_did c nr (the did') ?s1 = (rc2, ct', s2)"
    by (cases "ct_create_from_nr_and_did c nr (the did') ?s1")
  have "did_inv dids"
    using did_create_from_data_inv [OF ct_inv_dids [OF assms(1)] cr] .
  then have k1: "ct_keeps st ?s1"
    using assms(1) by (intro ct_keep)
  have k2: "ct_keeps st s2"
    using k1 ct_create_from_nr_and_did_keeps [OF ct_keeps_inv(1) [OF k1] nd] by (rule ct_keeps_trans)
  have "did_inv (snd (did_release (the did') (ct_dids s2)))"
    using did_release_inv [OF ct_keeps_inv(2) [OF k2]] by (metis prod.collapse)
  with k2 have "ct_keeps st (s2\<lparr>ct_dids := snd (did_release (the did') (ct_dids s2))\<rparr>)"
    by (rule ct_keeps_dids)
  with assms cr nd k1 k2 show ?thesis
    by (auto simp: ct_create_from_data_def Let_def split: if_splits intro!: ct_keeps_lazy)
qed

lemma ct_create_from_did_keeps:
  assumes "ct_inv st" and "ct_create_from_did c did st = (rc, c', st')"
  shows "ct_keeps st st'"
proof -
  let ?s = "ct_lazy_init st"
  note lazy = ct_lazy_init_props [OF assms(1)]
  obtain r n where n: "ct_next_nr ?s = (r, n)"
    by (cases "ct_next_nr ?s")
  obtain rc2 out dids where g: "did_get (Some DID_INVALID_ID) (did_get_value did) (ct_dids ?s) = (rc2, out, dids)"
    by (cases "did_get (Some DID_INVALID_ID) (did_get_value did) (ct_dids ?s)")
  have dids: "did_inv dids"
    using did_get_inv [OF ct_inv_dids [OF assms(1)] g] .
  have "ct_ids ?s (ucast m) = 0" if "n = Some m" for m
    using ct_next_nr_ok [of ?s r m] n that lazy(1,2) by (simp add: ct_inv_def)
  with assms n g dids show ?thesis
    by (cases n; cases c) (auto simp: ct_create_from_did_def Let_def split: if_splits intro!: ct_keep)
qed

lemma ct_from_value_keeps:
  assumes "ct_inv st" and "ct_from_value c v st = (rc, c', st')"
  shows "ct_keeps st st'"
proof -
  let ?s = "ct_lazy_init st"
  define w where "w = CT_DID_MASK AND v"
  define z where "z = (if w > RIO_LAST_DEV8 then dev16_sz else dev08_sz)"
  obtain rc2 out dids where
    f: "did_from_value (Some \<lparr>did_value = w, did_size = z\<rparr>) w (if z = dev16_sz then 1 else 0) (ct_dids ?s) = (rc2, out, dids)"
    by (cases "did_from_value (Some \<lparr>did_value = w, did_size = z\<rparr>) w (if z = dev16_sz then 1 else 0) (ct_dids ?s)")
  have "did_inv dids"
    using did_from_value_inv [OF ct_inv_dids [OF assms(1)] f] .
  with assms f show ?thesis
    unfolding ct_from_value_def Let_def w_def [symmetric] z_def [symmetric]
    by (cases c) (auto simp: high_half_truncated split: if_splits intro!: ct_keep)
qed

lemma ct_release_keeps:
  assumes "ct_inv st" and "ct_release ct did st = (rc, st')"
  shows "ct_keeps st st'"
proof -
  obtain r n where n: "ct_get_nr (Some 0) ct = (r, n)"
    by (cases "ct_get_nr (Some 0) ct")
  obtain rc2 dids where d: "did_release did (ct_dids st) = (rc2, dids)"
    by (cases "did_release did (ct_dids st)")
  have "did_inv dids"
    using did_release_inv [OF _ d] assms(1) by (simp add: ct_inv_def)
  with assms n d show ?thesis
    by (auto simp: ct_release_def Let_def ct_keeps_def ct_inv_def split: if_splits)
qed

lemma ct_step_keeps: "ct_step st st' \<Longrightarrow> ct_inv st \<Longrightarrow> ct_keeps st st'"
proof (induction rule: ct_step.induct)
  case (step_ct_get_destid d ct st rc d' st')
  moreover obtain r out dids where "did_get d (CT_DID_MASK AND ct) (ct_dids st) = (r, out, dids)"
    by (cases "did_get d (CT_DID_MASK AND ct) (ct_dids st)")
  ultimately show ?case
    using did_get_inv by (auto simp: ct_get_destid_def ct_inv_def intro!: ct_keep)
next
  case (step_ct_not_inuse ct st rc st')
  moreover obtain r n where "ct_get_nr (Some 0) ct = (r, n)"
    by (cases "ct_get_nr (Some 0) ct")
  moreover obtain r2 out dids where "did_get (Some DID_INVALID_ID) (ct AND CT_DID_MASK) (ct_dids st) = (r2, out, dids)"
    by (cases "did_get (Some DID_INVALID_ID) (ct AND CT_DID_MASK) (ct_dids st)")
  ultimately show ?case
    using did_get_inv by (auto simp: ct_not_inuse_def ct_inv_def split: if_splits intro!: ct_keep)
qed (blast intro: ct_create_all_keeps ct_create_from_data_keeps ct_create_from_nr_and_did_keeps
      ct_create_from_did_keeps ct_from_value_keeps ct_release_keeps)+

lemma ct_steps_keep: "ct_step\<^sup>*\<^sup>* st st' \<Longrightarrow> ct_inv st \<Longrightarrow> ct_keeps st st'"
  by (induction rule: rtranclp_induct)
     (auto intro: ct_keeps_refl ct_keeps_trans ct_step_keeps dest: ct_keeps_inv)

section \<open>Properties\<close>

text \<open>
  C7. A successful \<open>ct_create_all\<close> returns a tag that packs a number and an identifier neither of
  which was in use; exactly that number becomes used, and the accessors \<open>ct_get_nr\<close>, \<open>ct_get_destid\<close>
  and \<open>ct_not_inuse\<close> read the number, the identifier and "in use" back from it.
\<close>

theorem ct_create_all_fresh:
  assumes "ct_inv st" and "ct_create_all (Some c) (Some d) sz st = (0, ct, did, st')"
  shows "\<exists>nr e. ct = Some (CT_FROM_NR_DID nr (did_value e)) \<and> did = Some e \<and> did_size e = sz \<and>
     nr \<noteq> 0 \<and> nr \<notin> ct_used st \<and> ct_used st' = insert nr (ct_used st) \<and>
     did_lookup (did_value e) (ct_dids st) = None \<and>
     ct_get_nr (Some z) (the ct) = (0, Some nr) \<and>
     (\<exists>s. ct_get_destid (Some x) (the ct) st' = (0, Some e, s)) \<and>
     fst (ct_not_inuse (the ct) st') = 1"
proof -
  have inv: "did_inv (ct_dids st)"
    using assms(1) by (simp add: ct_inv_def)
  from ct_create_all_ok [OF assms] obtain nr e dids where nr: "nr \<noteq> 0" "nr \<notin> ct_used st"
    and ct: "ct = Some (CT_FROM_NR_DID nr (did_value e))" and did: "did = Some e"
    and m: "did_make sz (ct_dids st) = Some (e, dids)"
    and st': "st' = (ct_incr nr ((ct_lazy_init st)\<lparr>ct_dids := dids\<rparr>))\<lparr>ct_idx := ucast (nr + 1)\<rparr>"
    by blast
  from did_make_ok [OF inv m] have e: "did_legal (did_value e)" "did_size e = sz"
    by auto
  have look: "did_lookup (did_value e) dids = Some e"
    using did_reg.make_lookup [OF inv m, of "did_value e"] by simp
  then have get: "did_get (Some y) (did_value e) dids = (0, Some e, did_lazy_init dids)" for y
    by (auto simp: did_lookup_eq did_get_rc split: if_splits)
  have pack: "CT_DID_MASK AND CT_FROM_NR_DID nr (did_value e) = did_value e"
    "CT_FROM_NR_DID nr (did_value e) AND CT_DID_MASK = did_value e"
    using ct_did_pack [OF e(1)] by (simp_all add: and.commute)
  have free: "ct_ids (ct_lazy_init st) (ucast nr) = 0"
    using nr ct_lazy_init_props(5) [OF assms(1) nr(1)] by (simp add: ct_used_def)
  have "ct_used st' = insert nr (ct_used st)"
    using nr free ct_lazy_init_props(3) [OF assms(1)] by (auto simp: st' ct_used_def)
  moreover have "fst (ct_not_inuse (the ct) st') = 1"
    using nr free by (simp add: ct_not_inuse_def ct ct_get_nr_pack pack st' get)
  moreover have "\<exists>s. ct_get_destid (Some x) (the ct) st' = (0, Some e, s)"
    by (simp add: ct_get_destid_def ct pack st' get)
  ultimately show ?thesis
    using nr e did ct did_reg.make_fresh [OF inv m] by (intro exI [of _ nr] exI [of _ e]) (simp add: ct_get_nr_pack)
qed

lemma ct_create_first:
  "\<exists>st'. ct_create_all (Some 0) (Some DID_INVALID_ID) dev08_sz ct_start =
     (0, Some 0x00010001, Some \<lparr>did_value = 1, did_size = dev08_sz\<rparr>, st')"
proof -
  have "find_up (\<lambda>i. ct_ids (ct_lazy_init ct_start) i = 0) 1 NUMBER_OF_CTS = Some 1"
    by (rule find_up_first) (simp_all add: ct_lazy_init_def ct_initialize_def ct_start_def)
  then show ?thesis
    by (simp add: ct_create_all_def ct_next_nr_def ct_lazy_init_def ct_initialize_def ct_start_def did_create_first
        CT_FROM_NR_DID_def did_get_value_def)
qed

theorem ct_create_all_fresh_witness:
  "\<exists>st'. ct_create_all (Some 0) (Some DID_INVALID_ID) dev08_sz ct_start =
     (0, Some 0x00010001, Some \<lparr>did_value = 1, did_size = dev08_sz\<rparr>, st') \<and> fst (ct_not_inuse 0x00010001 st') = 1"
proof -
  obtain st' where c: "ct_create_all (Some 0) (Some DID_INVALID_ID) dev08_sz ct_start =
     (0, Some 0x00010001, Some \<lparr>did_value = 1, did_size = dev08_sz\<rparr>, st')"
    using ct_create_first by blast
  from ct_create_all_fresh [OF ct_inv_start c] c show ?thesis
    by auto
qed

lemma ct_rollback_parts:
  assumes "did_inv st" and "did_create_from_data (Some d) v sz st = (0, out, st1)"
  shows "did_get (Some DID_INVALID_ID) v st1 = (0, Some \<lparr>did_value = v, did_size = sz\<rparr>, st1)"
    "did_release \<lparr>did_value = v, did_size = sz\<rparr> st1 = (0, did_lazy_init st)"
proof -
  from did_create_from_data_ok [OF assms(2)] have c: "did_legal v" "sz \<in> {dev08_sz, dev16_sz}"
      "did_ids (did_lazy_init st) v = invld_sz"
    and st1: "st1 = (did_lazy_init st)\<lparr>did_ids := (did_ids (did_lazy_init st))(v := sz)\<rparr>"
    by auto
  have chk: "did_chk_range v sz = 0"
    using assms(2) by (auto simp: did_create_from_data_def Let_def split: if_splits)
  have "did_lazy_init st1 = st1"
    using did_table_ok_take(2) [OF did_lazy_init_ok [OF assms(1)] c(1,2)] by (simp add: st1 did_lazy_init_id)
  with c show "did_get (Some DID_INVALID_ID) v st1 = (0, Some \<lparr>did_value = v, did_size = sz\<rparr>, st1)"
    by (auto simp: did_get_rc st1)
  show "did_release \<lparr>did_value = v, did_size = sz\<rparr> st1 = (0, did_lazy_init st)"
    using chk c by (auto simp: did_release_def st1 fun_upd_idem)
qed

text \<open>
  C8. When \<open>ct_create_from_data\<close> fails it leaves no trace: the identifier it had created is released
  again, so every lookup is as before, no use count of a number changes, and the out-parameters are
  reset.
\<close>

theorem ct_create_from_data_rollback:
  assumes "ct_inv st" and "ct_create_from_data (Some c) (Some d) nr v sz st = (rc, ct, did, st')" and "rc \<noteq> 0"
  shows "(\<forall>w. did_lookup w (ct_dids st') = did_lookup w (ct_dids st)) \<and> ct_used st' = ct_used st \<and>
     (\<forall>n::u16. n \<noteq> 0 \<longrightarrow> ct_ids st' (ucast n) = ct_ids st (ucast n)) \<and>
     ct = Some COMPTAG_UNSET \<and> did = Some DID_INVALID_ID"
proof -
  let ?s = "ct_lazy_init st"
  note lazy = ct_lazy_init_props [OF assms(1)]
  have inv: "did_inv (ct_dids st)"
    using assms(1) by (simp add: ct_inv_def)
  obtain rc1 did' dids where cr: "did_create_from_data (Some d) v sz (ct_dids ?s) = (rc1, did', dids)"
    by (cases "did_create_from_data (Some d) v sz (ct_dids ?s)")
  show ?thesis
  proof (cases "rc1 = 0")
    case False
    with cr lazy(4) have "dids = did_lazy_init (ct_dids st)" "did' = Some DID_INVALID_ID"
      using did_create_from_data_fail [of "Some d" v sz "ct_dids st" rc1 did' dids] by simp_all
    moreover have "ct = Some COMPTAG_UNSET" "did = did'" "st' = ?s\<lparr>ct_dids := dids\<rparr>"
      using assms(2) cr False by (auto simp: ct_create_from_data_def)
    ultimately show ?thesis
      using lazy inv by (simp add: did_lookup_eq did_lazy_idem ct_used_def)
  next
    case True
    with cr lazy(4) have c0: "did_create_from_data (Some d) v sz (ct_dids st) = (0, did', dids)"
      by simp
    from did_create_from_data_ok [OF c0] have did': "did' = Some \<lparr>did_value = v, did_size = sz\<rparr>"
      by auto
    let ?e = "\<lparr>did_value = v, did_size = sz\<rparr>"
    let ?s1 = "?s\<lparr>ct_dids := dids\<rparr>"
    have m: "did_make_from v sz (ct_dids st) = Some (?e, dids)"
      using did_make_from_create [of d v sz "ct_dids st"] c0 did' by simp
    have k: "did_get (Some DID_INVALID_ID) v dids = (0, Some ?e, dids)"
      and rel: "did_release ?e dids = (0, did_lazy_init (ct_dids st))"
      using ct_rollback_parts [OF inv c0] by auto
    obtain rc2 ct' s2 where nd: "ct_create_from_nr_and_did (Some c) nr ?e ?s1 = (rc2, ct', s2)"
      by (cases "ct_create_from_nr_and_did (Some c) nr ?e ?s1")
    have "ct_lazy_init ?s1 = ?s1"
      using lazy(1) by (auto simp: ct_lazy_init_def)
    with nd k have s2: "rc2 \<noteq> 0 \<longrightarrow> s2 = ?s1"
      by (auto simp: ct_create_from_nr_and_did_def did_get_value_def Let_def split: if_splits)
    have "rc2 \<noteq> 0"
      using assms(2,3) cr True did' nd by (auto simp: ct_create_from_data_def Let_def split: if_splits)
    with s2 assms(2) cr True did' nd rel have "ct = Some COMPTAG_UNSET" "did = Some DID_INVALID_ID"
      "st' = ?s\<lparr>ct_dids := did_lazy_init (ct_dids st)\<rparr>"
      by (auto simp: ct_create_from_data_def Let_def)
    then show ?thesis
      using lazy inv by (simp add: did_lookup_eq did_lazy_idem ct_used_def)
  qed
qed

lemma ct_create_all_nr0_expired:
  "ct_create_from_data (Some 0) (Some DID_INVALID_ID) 0 300 dev16_sz ct_start =
     (- EKEYEXPIRED, Some 0, Some DID_INVALID_ID, (ct_initialize ct_start)\<lparr>ct_dids := did_init\<rparr>)"
  by (simp add: ct_create_from_data_def ct_create_from_nr_and_did_def did_create_from_data_def did_chk_range_def
      did_release_def ct_lazy_init_def ct_initialize_def ct_start_def did_lazy_init_def did_start_def did_init_def fun_upd_idem)

theorem ct_create_from_data_rollback_witness:
  "did_lookup 300 (ct_dids (snd (snd (snd
     (ct_create_from_data (Some 0) (Some DID_INVALID_ID) 0 300 dev16_sz ct_start))))) =
   did_lookup 300 (ct_dids ct_start)"
  using ct_create_from_data_rollback [OF ct_inv_start ct_create_all_nr0_expired]
  by (simp add: ct_create_all_nr0_expired)

text \<open>
  C9. Component tags created one after another have pairwise distinct numbers, none of which was in
  use or retired before.
\<close>

theorem ct_numbers_distinct:
  assumes "ct_inv st" and "alloc_all ct_alloc szs st = Some (nrs, st')"
  shows "distinct nrs \<and> set nrs \<inter> ct_used st = {} \<and> ct_used st' = ct_used st \<union> set nrs"
  using ct_numbers.alloc_all_distinct [OF assms] by blast

theorem ct_numbers_distinct_witness:
  "\<exists>st'. alloc_all ct_alloc [dev08_sz] ct_start = Some ([1], st') \<and> ct_used st' = {1}"
proof -
  obtain st' where "alloc_all ct_alloc [dev08_sz] ct_start = Some ([1], st')"
    using ct_create_first by (auto simp: ct_alloc_def ct_get_nr_def)
  with ct_numbers_distinct [OF ct_inv_start this] show ?thesis
    by (auto simp: ct_used_def ct_start_def)
qed

text \<open>
  C10. A retired number is never used again: after any sequence of operations it is still retired,
  creating a tag from it reports \<open>EKEYEXPIRED\<close>, and no tag that \<open>ct_create_all\<close> returns carries it.
\<close>

theorem ct_retired_forever:
  assumes "ct_inv st" and "nr \<noteq> 0" and "ct_ids st (ucast nr) = - 1" and "ct_step\<^sup>*\<^sup>* st st'"
  shows "ct_ids st' (ucast nr) = - 1 \<and>
     fst (ct_create_from_nr_and_did (Some c) nr did st') = - EKEYEXPIRED \<and>
     (\<forall>d sz ct e t. ct_create_all (Some c) (Some d) sz st' = (0, ct, e, t) \<longrightarrow>
        snd (ct_get_nr (Some z) (the ct)) \<noteq> Some nr)"
proof -
  have inv: "ct_inv st'" and r: "ct_ids st' (ucast nr) = - 1"
    using ct_steps_keep [OF assms(4,1)] assms(2,3) by (auto simp: ct_keeps_def)
  then have "ct_ids (ct_lazy_init st') (ucast nr) = - 1"
    using ct_lazy_init_props(5) [OF inv assms(2)] by simp
  then have "fst (ct_create_from_nr_and_did (Some c) nr did st') = - EKEYEXPIRED"
    by (simp add: ct_create_from_nr_and_did_def)
  moreover have "snd (ct_get_nr (Some z) (the ct)) \<noteq> Some nr"
    if "ct_create_all (Some c) (Some d) sz st' = (0, ct, e, t)" for d sz ct e t
  proof -
    have "nr \<in> ct_used st'"
      using r assms(2) by (simp add: ct_used_def)
    with ct_create_all_ok [OF inv that] show ?thesis
      by (auto simp: ct_get_nr_pack)
  qed
  ultimately show ?thesis
    using r by blast
qed

definition ct_example :: ct_state where
  "ct_example = (ct_initialize ct_start)\<lparr>ct_ids := (\<lambda>_. 0)(0 := - 1, 5 := - 1)\<rparr>"

theorem ct_retired_forever_witness:
  "fst (ct_create_from_nr_and_did (Some 0) 5 DID_INVALID_ID
     (snd (snd (ct_create_from_nr_and_did (Some 0) 5 DID_INVALID_ID ct_example)))) = - EKEYEXPIRED"
proof -
  have inv: "ct_inv ct_example"
    by (auto simp: ct_inv_def ct_example_def ct_initialize_def ct_start_def did_inv_start)
  have s: "ct_step ct_example (snd (snd (ct_create_from_nr_and_did (Some 0) 5 DID_INVALID_ID ct_example)))"
    by (cases "ct_create_from_nr_and_did (Some 0) 5 DID_INVALID_ID ct_example")
       (auto intro: step_ct_create_from_nr_and_did)
  have "ct_ids ct_example (ucast (5 :: u16)) = - 1"
    by (simp add: ct_example_def)
  from ct_retired_forever [OF inv _ this r_into_rtranclp [of ct_step, OF s], of 0 DID_INVALID_ID] show ?thesis
    by simp
qed

text \<open>
  C11. A tag is released once per creation: after the release of the last identifier that shares its
  number the number is retired, while earlier releases only decrement the count, and the identifier
  can no longer be looked up.
\<close>

theorem ct_release_counts:
  assumes "ct_inv st" and "nr \<noteq> 0" and "ct_release (CT_FROM_NR_DID nr v) did st = (0, st')"
  shows "ct_ids st (ucast nr) \<ge> 1 \<and>
     ct_ids st' (ucast nr) = (if ct_ids st (ucast nr) = 1 then - 1 else ct_ids st (ucast nr) - 1) \<and>
     (\<forall>k. k \<noteq> ucast nr \<longrightarrow> ct_ids st' k = ct_ids st k) \<and>
     did_lookup (did_value did) (ct_dids st) \<noteq> None \<and>
     (\<forall>w. did_lookup w (ct_dids st') = (if w = did_value did then None else did_lookup w (ct_dids st)))"
proof -
  obtain rc2 dids where d: "did_release did (ct_dids st) = (rc2, dids)"
    by (cases "did_release did (ct_dids st)")
  have "rc2 = 0" "ct_ids st (ucast nr) \<ge> 1"
    and st': "st' = st\<lparr>ct_dids := dids, ct_ids := (ct_ids st)(ucast nr :=
       (if ct_ids st (ucast nr) = 1 then - 1 else ct_ids st (ucast nr) - 1))\<rparr>"
    using assms(2,3) d by (auto simp: ct_release_def ct_get_nr_pack Let_def split: if_splits)
  moreover have "did_discard did (ct_dids st) = Some dids"
    using d \<open>rc2 = 0\<close> by (simp add: did_discard_def)
  moreover have "did_inv (ct_dids st)"
    using assms(1) by (simp add: ct_inv_def)
  ultimately show ?thesis
    using did_reg.discard_lookup [of "ct_dids st" did dids] by auto
qed

theorem ct_release_counts_witness:
  "\<exists>st st'. ct_release (CT_FROM_NR_DID 1 1) \<lparr>did_value = 1, did_size = dev08_sz\<rparr> st = (0, st') \<and>
     ct_ids st' 1 = - 1 \<and> did_lookup 1 (ct_dids st') = None"
proof -
  define st where "st = ct_start\<lparr>ct_ids := (\<lambda>_. 0)(0 := - 1, 1 := 1), ct_idx := 2,
    ct_dids := did_init\<lparr>did_ids := (did_ids did_init)(1 := dev08_sz), did_idx := 2\<rparr>\<rparr>"
  have "did_inv (ct_dids st)"
    using did_create_inv [OF did_inv_start did_create_first] by (simp add: st_def)
  then have inv: "ct_inv st"
    by (simp add: ct_inv_def) (simp add: st_def)
  obtain st' where r: "ct_release (CT_FROM_NR_DID 1 1) \<lparr>did_value = 1, did_size = dev08_sz\<rparr> st = (0, st')"
    by (simp add: ct_release_def ct_get_nr_pack did_release_def did_chk_range_def st_def)
  from ct_release_counts [OF inv _ r] r show ?thesis
    by (intro exI [of _ st] exI [of _ st']) (simp add: st_def)
qed

text \<open>
  \<open>ct_from_value\<close> counts the wrong number: when the identifier of the tag is in use, it returns
  success without changing the use count of the tag's own number, and increments entry 0 instead,
  which turns the reserved entry from -1 into 0 at the first call. It also accepts a tag whose
  identifier is not legal.
\<close>

theorem ct_from_value_wrong_entry:
  "\<exists>st'. ct_from_value (Some c) (CT_FROM_NR_DID nr 0) ct_start = (0, Some (CT_FROM_NR_DID nr 0), st') \<and>
     ct_ids st' 0 = 0 \<and> (nr = 0 \<or> ct_ids st' (ucast nr) = 0)"
proof -
  have "CT_DID_MASK AND CT_FROM_NR_DID nr 0 = 0"
    using CT_split(2) [of nr 0] by (simp add: and.commute)
  then show ?thesis
    by (simp add: ct_from_value_def did_not_inuse_def did_chk_range_def high_half_truncated ct_lazy_init_def
        ct_initialize_def ct_start_def)
qed

end
