(* ===== verification/Lib_Set.thy ===== *)
theory Lib_Set
  imports Rio_Prelude
begin

text \<open>
  The unordered set of \<^verbatim>\<open>common/libset/src/libset.c\<close>: an array that grows in steps, searched linearly.
  The array is a list of the length that was allocated, \<open>None\<close> is the null pointer. An allocation takes
  the argument \<open>mem\<close>: \<open>None\<close> when \<open>malloc\<close> or \<open>realloc\<close> fails, otherwise the unspecified content of the
  cells that were not written yet.
\<close>

section \<open>Data\<close>

record set_t =
  capacity :: u16
  expand_size :: u16
  set_next :: u16
  set_arr :: "u32 list option"

type_synonym memory = "(nat \<Rightarrow> u32) option"

definition set_zero :: set_t where
  "set_zero = \<lparr>capacity = 0, expand_size = 0, set_next = 0, set_arr = None\<rparr>"

definition arr_at :: "set_t \<Rightarrow> u16 \<Rightarrow> u32" where
  "arr_at s i = the (set_arr s) ! unat i"

text \<open>\<^verbatim>\<open>realloc\<close>: the old content up to the smaller of the two sizes, then unspecified cells.\<close>

definition realloc_arr :: "u32 list option \<Rightarrow> nat \<Rightarrow> memory \<Rightarrow> u32 list option" where
  "realloc_arr old n mem =
     map_option (\<lambda>junk. map (\<lambda>i. case old of Some xs \<Rightarrow> if i < length xs then xs ! i else junk i | None \<Rightarrow> junk i) [0..<n]) mem"

section \<open>Operations\<close>

definition set_create :: "set_t option \<Rightarrow> u16 \<Rightarrow> u16 \<Rightarrow> memory \<Rightarrow> int \<times> set_t option" where
  "set_create s initial_capacity ex mem =
     (case s of None \<Rightarrow> (- EINVAL, None)
      | Some s0 \<Rightarrow>
          if initial_capacity = 0 then (- EINVAL, Some s0)
          else if unat initial_capacity + unat ex > 65535 then (- EINVAL, Some s0)
          else case realloc_arr None (unat initial_capacity) mem of
            None \<Rightarrow> (- ENOMEM, Some set_zero)
          | Some a \<Rightarrow> (0, Some (set_zero\<lparr>set_arr := Some a, capacity := initial_capacity, expand_size := ex\<rparr>)))"

definition set_destroy :: "set_t option \<Rightarrow> int \<times> set_t option" where
  "set_destroy s = (0, map_option (\<lambda>_. set_zero) s)"

text \<open>The linear search that \<open>set_add\<close>, \<open>set_remove\<close> and \<open>set_contains\<close> share.\<close>

definition set_search :: "set_t \<Rightarrow> u32 \<Rightarrow> u16 option" where
  "set_search s item = find_up (\<lambda>i. arr_at s i = item) 0 (set_next s)"

text \<open>The last statement of \<open>set_add\<close>: \<^verbatim>\<open>set->arr[set->next++] = item\<close>.\<close>

definition set_append :: "set_t \<Rightarrow> u32 \<Rightarrow> set_t" where
  "set_append s item =
     s\<lparr>set_arr := map_option (\<lambda>xs. xs[unat (set_next s) := item]) (set_arr s), set_next := set_next s + 1\<rparr>"

definition set_add :: "set_t option \<Rightarrow> u32 \<Rightarrow> memory \<Rightarrow> int \<times> set_t option" where
  "set_add s0 item mem =
     (case s0 of None \<Rightarrow> (- EINVAL, None)
      | Some s \<Rightarrow>
          if set_search s item \<noteq> None then (- EEXIST, Some s)
          else if set_next s = capacity s then
            if expand_size s = 0 then (- EPERM, Some s)
            else (let cap = unat (capacity s) + unat (expand_size s) in
                  if cap > 65535 then (- EPERM, Some s)
                  else case realloc_arr (set_arr s) cap mem of
                    None \<Rightarrow> (- ENOMEM, Some s)
                  | Some a \<Rightarrow> (0, Some (set_append (s\<lparr>set_arr := Some a, capacity := of_nat cap\<rparr>) item)))
          else (0, Some (set_append s item)))"

definition set_remove :: "set_t option \<Rightarrow> u32 \<Rightarrow> int \<times> set_t option" where
  "set_remove s0 item =
     (case s0 of None \<Rightarrow> (- EINVAL, None)
      | Some s \<Rightarrow>
         (case set_search s item of None \<Rightarrow> (- ENOENT, Some s)
          | Some i \<Rightarrow>
             (let s1 = s\<lparr>set_next := set_next s - 1\<rparr> in
              (0, Some (if i \<noteq> set_next s1
                        then s1\<lparr>set_arr := map_option (\<lambda>xs. xs[unat i := xs ! unat (set_next s1)]) (set_arr s1)\<rparr>
                        else s1)))))"

definition set_contains :: "set_t \<Rightarrow> u32 \<Rightarrow> bool" where
  "set_contains s item = (set_search s item \<noteq> None)"

definition set_size :: "set_t \<Rightarrow> int" where
  "set_size s = int (unat (set_next s))"

section \<open>The abstract set\<close>

text \<open>
  The specification keeps the items as a set, with the capacity and the growth step, since both decide
  when \<open>set_add\<close> refuses an item.
\<close>

record set_spec =
  items :: "u32 set"
  room :: nat
  growth :: nat

definition spec_add :: "u32 \<Rightarrow> bool \<Rightarrow> set_spec \<Rightarrow> int \<times> set_spec" where
  "spec_add x mem_ok S =
     (if x \<in> items S then (- EEXIST, S)
      else if card (items S) < room S then (0, S\<lparr>items := insert x (items S)\<rparr>)
      else if growth S = 0 \<or> room S + growth S > 65535 then (- EPERM, S)
      else if \<not> mem_ok then (- ENOMEM, S)
      else (0, S\<lparr>items := insert x (items S), room := room S + growth S\<rparr>))"

definition spec_remove :: "u32 \<Rightarrow> set_spec \<Rightarrow> int \<times> set_spec" where
  "spec_remove x S = (if x \<in> items S then (0, S\<lparr>items := items S - {x}\<rparr>) else (- ENOENT, S))"

definition set_items :: "set_t \<Rightarrow> u32 list" where
  "set_items s = (case set_arr s of None \<Rightarrow> [] | Some xs \<Rightarrow> take (unat (set_next s)) xs)"

definition set_abs :: "set_t \<Rightarrow> set_spec" where
  "set_abs s = \<lparr>items = set (set_items s), room = unat (capacity s), growth = unat (expand_size s)\<rparr>"

text \<open>
  The invariant: the array has as many cells as \<open>capacity\<close> says, the used part lies inside it and has
  no duplicates. It makes every array access of the operations one inside the array.
\<close>

definition set_inv :: "set_t \<Rightarrow> bool" where
  "set_inv s \<longleftrightarrow>
     (case set_arr s of None \<Rightarrow> s = set_zero
      | Some xs \<Rightarrow> length xs = unat (capacity s) \<and> unat (set_next s) \<le> unat (capacity s) \<and> distinct (set_items s))"

lemma set_items_length: "set_inv s \<Longrightarrow> length (set_items s) = unat (set_next s)"
  by (auto simp: set_inv_def set_items_def set_zero_def split: option.splits)

lemma set_items_nth: "set_inv s \<Longrightarrow> i < set_next s \<Longrightarrow> arr_at s i = set_items s ! unat i"
  by (auto simp: set_inv_def set_items_def set_zero_def arr_at_def word_less_nat_alt split: option.splits)

lemma set_search_None:
  assumes "set_inv s"
  shows "set_search s x = None \<longleftrightarrow> x \<notin> set (set_items s)"
proof
  assume "set_search s x = None"
  then have no: "\<And>i. i < set_next s \<Longrightarrow> set_items s ! unat i \<noteq> x"
    using set_items_nth [OF assms] by (auto simp: set_search_def find_up_None)
  show "x \<notin> set (set_items s)"
  proof
    assume "x \<in> set (set_items s)"
    then obtain k where k: "k < unat (set_next s)" "set_items s ! k = x"
      using set_items_length [OF assms] by (auto simp: in_set_conv_nth)
    then have "unat (of_nat k :: u16) = k"
      using unat_u16_less [of "set_next s"] by (simp add: unat_of_nat)
    with k no [of "of_nat k"] show False
      by (simp add: word_less_nat_alt)
  qed
next
  assume "x \<notin> set (set_items s)"
  then show "set_search s x = None"
    using set_items_nth [OF assms] set_items_length [OF assms]
    by (auto simp: set_search_def find_up_None word_less_nat_alt in_set_conv_nth)
qed

lemma set_search_Some:
  assumes "set_inv s" and "set_search s x = Some i"
  shows "unat i < length (set_items s) \<and> set_items s ! unat i = x"
  using find_up_Some [OF assms(2) [unfolded set_search_def]] set_items_nth [OF assms(1)] set_items_length [OF assms(1)]
  by (auto simp: word_less_nat_alt)

lemma set_card: "set_inv s \<Longrightarrow> card (items (set_abs s)) = unat (set_next s)"
  using set_items_length [of s] distinct_card [of "set_items s"]
  by (cases "set_arr s") (auto simp: set_abs_def set_inv_def set_items_def set_zero_def)


section \<open>Refinement\<close>

lemma swap_remove:
  assumes "distinct xs" and "i < length xs"
  shows "distinct ((butlast xs)[i := last xs]) \<and> set ((butlast xs)[i := last xs]) = set xs - {xs ! i}"
proof -
  obtain ys z where xs: "xs = ys @ [z]"
    using assms(2) by (cases xs rule: rev_cases) auto
  show ?thesis
  proof (cases "i = length ys")
    case False
    with assms xs have "i < length ys"
      by simp
    with assms(1) show ?thesis
      by (auto simp: xs nth_append set_update_distinct distinct_list_update)
  qed (use assms(1) in \<open>simp add: xs list_update_beyond\<close>)
qed

lemma set_append_ok:
  assumes "set_arr s = Some xs" and "length xs = unat (capacity s)" and "unat (set_next s) < unat (capacity s)"
    and "distinct (set_items s)" and "x \<notin> set (set_items s)"
  shows "set_inv (set_append s x)" "set_abs (set_append s x) = (set_abs s)\<lparr>items := insert x (items (set_abs s))\<rparr>"
proof -
  have "unat (set_next s + 1) = Suc (unat (set_next s))"
    using assms(3) by (intro unat_succ_less) (simp add: word_less_nat_alt)
  with assms have i: "set_items (set_append s x) = set_items s @ [x]" and
    n: "unat (set_next (set_append s x)) = Suc (unat (set_next s))"
    by (auto simp: set_items_def set_append_def take_Suc_conv_app_nth)
  show "set_inv (set_append s x)"
    using assms i n by (auto simp: set_inv_def set_append_def)
  show "set_abs (set_append s x) = (set_abs s)\<lparr>items := insert x (items (set_abs s))\<rparr>"
    by (simp add: set_abs_def i) (simp add: set_append_def)
qed

lemma realloc_arr_grow:
  assumes "length xs \<le> n"
  shows "realloc_arr (Some xs) n mem = None \<longleftrightarrow> mem = None"
    "realloc_arr (Some xs) n mem = Some ys \<Longrightarrow> length ys = n \<and> take (length xs) ys = xs"
  using assms by (auto simp: realloc_arr_def intro!: nth_equalityI)

text \<open>The growth branch of \<open>set_add\<close> keeps the items and makes room for one more.\<close>

lemma set_grow_ok:
  assumes "set_arr s = Some xs" and "set_inv s" and "unat (capacity s) + unat (expand_size s) \<le> 65535"
    and "realloc_arr (Some xs) (unat (capacity s) + unat (expand_size s)) mem = Some ys"
    and "s' = s\<lparr>set_arr := Some ys, capacity := of_nat (unat (capacity s) + unat (expand_size s))\<rparr>"
  shows "set_items s' = set_items s \<and> unat (capacity s') = unat (capacity s) + unat (expand_size s) \<and>
    length ys = unat (capacity s')"
proof -
  have "unat (of_nat (unat (capacity s) + unat (expand_size s)) :: u16) = unat (capacity s) + unat (expand_size s)"
    using assms(3) by (simp add: unat_word_ariths)
  moreover from assms(1,2) have n: "unat (set_next s) \<le> length xs" and l: "length xs = unat (capacity s)"
    by (auto simp: set_inv_def)
  moreover have ys: "length ys = unat (capacity s) + unat (expand_size s)" "take (length xs) ys = xs"
    using realloc_arr_grow(2) [OF _ assms(4)] l by simp_all
  moreover have "take (unat (set_next s)) ys = take (unat (set_next s)) xs"
    using n ys(2) by (metis min.absorb1 take_take)
  ultimately show ?thesis
    using assms(1,5) by (simp add: set_items_def)
qed

lemma set_add_refines:
  assumes "set_inv s"
  shows "\<exists>rc s'. set_add (Some s) x mem = (rc, Some s') \<and> set_inv s' \<and>
    (rc, set_abs s') = spec_add x (mem \<noteq> None) (set_abs s)"
proof (cases "x \<in> set (set_items s) \<or> set_arr s = None")
  case True
  with assms show ?thesis
    using set_search_None [OF assms, of x]
    by (auto simp: set_add_def spec_add_def set_abs_def set_inv_def set_zero_def split: option.splits)
next
  case False
  then obtain xs where arr: "set_arr s = Some xs" and new: "x \<notin> set (set_items s)"
    by auto
  then have srch: "set_search s x = None"
    using set_search_None [OF assms] by simp
  from assms arr have l: "length xs = unat (capacity s)" "unat (set_next s) \<le> unat (capacity s)" "distinct (set_items s)"
    by (auto simp: set_inv_def)
  note card = set_card [OF assms]
  show ?thesis
  proof (cases "set_next s = capacity s")
    case False
    with l(2) have "unat (set_next s) < unat (capacity s)"
      by (simp add: word_unat_eq_iff)
    with False new srch set_append_ok [OF arr l(1) _ l(3) new] show ?thesis
      using card by (auto simp: set_add_def spec_add_def set_abs_def)
  next
    case full: True
    define n where "n = unat (capacity s) + unat (expand_size s)"
    show ?thesis
    proof (cases "expand_size s = 0 \<or> n > 65535 \<or> realloc_arr (Some xs) n mem = None")
      case True
      with full srch new card show ?thesis
        using realloc_arr_grow(1) [of xs n mem] l(1) assms
        by (auto simp: set_add_def spec_add_def set_abs_def n_def arr unat_eq_zero)
    next
      case False
      then obtain ys where ys: "realloc_arr (Some xs) n mem = Some ys"
        by auto
      define s1 where "s1 = s\<lparr>set_arr := Some ys, capacity := of_nat n\<rparr>"
      from False ys set_grow_ok [OF arr assms _ ys [unfolded n_def] s1_def [unfolded n_def]]
      have g: "set_items s1 = set_items s" "unat (capacity s1) = n" "length ys = unat (capacity s1)"
        by (auto simp: n_def)
      have "unat (set_next s1) < unat (capacity s1)"
        using False full g(2) by (auto simp: s1_def n_def unat_gt_0)
      with set_append_ok [of s1 ys x] g l(3) new have ok: "set_inv (set_append s1 x)"
        "set_abs (set_append s1 x) = (set_abs s1)\<lparr>items := insert x (items (set_abs s1))\<rparr>"
        by (auto simp: s1_def)
      have "set_add (Some s) x mem = (0, Some (set_append s1 x))"
        using False full srch ys by (simp add: set_add_def arr n_def s1_def)
      moreover have "mem \<noteq> None"
        using ys by (auto simp: realloc_arr_def)
      ultimately show ?thesis
        using ok False full new card g
        by (auto simp: spec_add_def set_abs_def n_def unat_eq_zero) (simp_all add: s1_def)
    qed
  qed
qed

lemma set_remove_items:
  assumes "set_inv s" and "set_search s x = Some i"
  shows "\<exists>s'. set_remove (Some s) x = (0, Some s') \<and> set_items s' = (butlast (set_items s))[unat i := last (set_items s)] \<and>
     capacity s' = capacity s \<and> expand_size s' = expand_size s \<and> set_inv s'"
proof -
  from set_search_Some [OF assms] have i: "unat i < length (set_items s)" "set_items s ! unat i = x"
    by auto
  obtain xs where arr: "set_arr s = Some xs"
    using i(1) by (cases "set_arr s") (auto simp: set_items_def)
  from assms(1) arr have l: "length xs = unat (capacity s)" "unat (set_next s) \<le> length xs" "distinct (set_items s)"
    by (auto simp: set_inv_def)
  have len: "length (set_items s) = unat (set_next s)"
    using set_items_length [OF assms(1)] .
  have pred: "unat (set_next s - 1) = unat (set_next s) - 1"
    using i(1) len by (intro unat_minus_one) auto
  define s' where "s' = (if i \<noteq> set_next s - 1
     then s\<lparr>set_next := set_next s - 1, set_arr := Some (xs[unat i := xs ! unat (set_next s - 1)])\<rparr>
     else s\<lparr>set_next := set_next s - 1\<rparr>)"
  have r: "set_remove (Some s) x = (0, Some s')"
    using assms(2) arr by (simp add: set_remove_def s'_def)
  have body: "take (unat (set_next s) - 1) xs = butlast (set_items s)"
    using l(2) by (simp add: set_items_def arr butlast_take)
  have lst: "last (set_items s) = xs ! (unat (set_next s) - 1)"
    using i(1) len l(2) by (subst last_conv_nth) (auto simp: set_items_def arr)
  have items: "set_items s' = (butlast (set_items s))[unat i := last (set_items s)]"
  proof (cases "i = set_next s - 1")
    case True
    then have "length (butlast (set_items s)) \<le> unat i"
      using pred len by simp
    then show ?thesis
      using True pred body by (simp add: s'_def list_update_beyond) (simp add: set_items_def arr)
  next
    case False
    then show ?thesis
      using pred body lst by (simp add: s'_def) (simp add: set_items_def arr take_update_swap)
  qed
  have "distinct (set_items s')"
    using swap_remove [OF l(3) i(1)] by (simp add: items)
  then have "set_inv s'"
    using l pred by (auto simp: set_inv_def s'_def arr)
  with r items show ?thesis
    by (auto simp: s'_def)
qed

lemma set_remove_refines:
  assumes "set_inv s"
  shows "\<exists>rc s'. set_remove (Some s) x = (rc, Some s') \<and> set_inv s' \<and> (rc, set_abs s') = spec_remove x (set_abs s)"
proof (cases "set_search s x")
  case None
  with assms show ?thesis
    using set_search_None [OF assms, of x] by (simp add: set_remove_def spec_remove_def set_abs_def)
next
  case (Some i)
  from set_search_Some [OF assms Some] have i: "unat i < length (set_items s)" "set_items s ! unat i = x"
    by auto
  have "distinct (set_items s)"
    using assms i(1) by (cases "set_arr s") (auto simp: set_inv_def set_items_def)
  from swap_remove [OF this i(1)] set_remove_items [OF assms Some] i show ?thesis
    by (auto simp: spec_remove_def set_abs_def)
qed


section \<open>Contract\<close>

text \<open>
  What a client may rely on: an operation that succeeds adds or removes exactly the item it was given,
  and membership and size read the set. Of the capacity a client sees only a limit below which adding
  does not fail and which does not shrink.
\<close>

locale dynamic_set =
  fixes add :: "'a \<Rightarrow> 's \<Rightarrow> 's option"
    and del :: "'a \<Rightarrow> 's \<Rightarrow> 's option"
    and mem :: "'s \<Rightarrow> 'a \<Rightarrow> bool"
    and count :: "'s \<Rightarrow> int"
    and elems :: "'s \<Rightarrow> 'a set"
    and limit :: "'s \<Rightarrow> nat"
    and invar :: "'s \<Rightarrow> bool"
  assumes add_elems: "invar s \<Longrightarrow> add x s = Some s' \<Longrightarrow> x \<notin> elems s \<and> elems s' = insert x (elems s) \<and> invar s'"
    and del_elems: "invar s \<Longrightarrow> del x s = Some s' \<Longrightarrow> x \<in> elems s \<and> elems s' = elems s - {x} \<and> invar s'"
    and del_defined: "invar s \<Longrightarrow> x \<in> elems s \<Longrightarrow> del x s \<noteq> None"
    and mem_elems: "invar s \<Longrightarrow> mem s x \<longleftrightarrow> x \<in> elems s"
    and count_elems: "invar s \<Longrightarrow> count s = int (card (elems s))"
    and finite_elems: "invar s \<Longrightarrow> finite (elems s)"
    and add_defined: "invar s \<Longrightarrow> x \<notin> elems s \<Longrightarrow> card (elems s) < limit s \<Longrightarrow> add x s \<noteq> None"
    and add_limit: "invar s \<Longrightarrow> add x s = Some s' \<Longrightarrow> limit s \<le> limit s'"
begin

lemma add_list_elems:
  "invar s \<Longrightarrow> run_all add xs s = Some s' \<Longrightarrow>
     distinct xs \<and> set xs \<inter> elems s = {} \<and> elems s' = elems s \<union> set xs \<and> invar s' \<and> count s' = count s + int (length xs)"
proof (induction xs arbitrary: s)
  case (Cons x xs)
  then obtain s1 where s1: "add x s = Some s1" "run_all add xs s1 = Some s'"
    by (auto split: option.splits)
  from add_elems [OF Cons.prems(1) s1(1)] have 1: "x \<notin> elems s" "elems s1 = insert x (elems s)" "invar s1"
    by auto
  then have "count s1 = count s + 1"
    using Cons.prems(1) count_elems finite_elems by simp
  with Cons.IH [OF 1(3) s1(2)] 1 show ?case
    by auto
qed simp

text \<open>Whatever is in the set can be removed again, in any order.\<close>

lemma del_list_total:
  "invar s \<Longrightarrow> distinct xs \<Longrightarrow> set xs \<subseteq> elems s \<Longrightarrow>
     \<exists>s'. run_all del xs s = Some s' \<and> elems s' = elems s - set xs \<and> invar s'"
proof (induction xs arbitrary: s)
  case (Cons x xs)
  then obtain s1 where s1: "del x s = Some s1"
    using del_defined [of s x] by auto
  with del_elems [OF Cons.prems(1) s1] Cons.prems(2,3) have "invar s1" "set xs \<subseteq> elems s1" "elems s1 = elems s - {x}"
    by auto
  with Cons.IH [of s1] Cons.prems(2) s1 show ?case
    by auto
qed simp

text \<open>New items can be added up to the limit.\<close>

lemma add_list_total:
  "invar s \<Longrightarrow> distinct xs \<Longrightarrow> set xs \<inter> elems s = {} \<Longrightarrow> card (elems s) + length xs \<le> limit s \<Longrightarrow>
     run_all add xs s \<noteq> None"
proof (induction xs arbitrary: s)
  case (Cons x xs)
  then obtain s1 where s1: "add x s = Some s1"
    using add_defined [of s x] by auto
  from add_elems [OF Cons.prems(1) s1] add_limit [OF Cons.prems(1) s1] finite_elems [OF Cons.prems(1)] Cons.prems
  have "invar s1" "set xs \<inter> elems s1 = {}" "card (elems s1) + length xs \<le> limit s1"
    by auto
  with Cons.IH [of s1] Cons.prems(2) s1 show ?case
    by auto
qed simp

lemma add_then_del:
  assumes "invar s" and "run_all add xs s = Some s1" and "distinct ys" and "set ys = set xs"
  shows "\<exists>s2. run_all del ys s1 = Some s2 \<and> elems s2 = elems s \<and> count s2 = count s \<and> invar s2"
proof -
  from add_list_elems [OF assms(1,2)] have 1: "set xs \<inter> elems s = {}" "elems s1 = elems s \<union> set xs" "invar s1"
    by auto
  with del_list_total [OF 1(3) assms(3)] assms(4) obtain s2
    where "run_all del ys s1 = Some s2" "elems s2 = elems s1 - set ys" "invar s2"
    by auto
  moreover from this 1 assms(4) have "elems s2 = elems s"
    by auto
  ultimately show ?thesis
    using count_elems assms(1) by auto
qed

end

text \<open>The two operations as the contract sees them: \<open>None\<close> for every error code.\<close>

definition set_ins :: "u32 \<Rightarrow> set_t \<Rightarrow> set_t option" where
  "set_ins x s = (case set_add (Some s) x (Some (\<lambda>_. 0)) of (rc, s') \<Rightarrow> if rc = 0 then s' else None)"

definition set_del :: "u32 \<Rightarrow> set_t \<Rightarrow> set_t option" where
  "set_del x s = (case set_remove (Some s) x of (rc, s') \<Rightarrow> if rc = 0 then s' else None)"

interpretation arr_set: dynamic_set set_ins set_del set_contains set_size "\<lambda>s. items (set_abs s)" "\<lambda>s. room (set_abs s)" set_inv
proof unfold_locales
  fix s s' x
  assume s: "set_inv s"
  { assume "set_ins x s = Some s'"
    with set_add_refines [OF s, of x "Some (\<lambda>_. 0)"]
    show "x \<notin> items (set_abs s) \<and> items (set_abs s') = insert x (items (set_abs s)) \<and> set_inv s'"
      by (auto simp: set_ins_def spec_add_def split: if_splits) }
  { assume "set_del x s = Some s'"
    with set_remove_refines [OF s, of x]
    show "x \<in> items (set_abs s) \<and> items (set_abs s') = items (set_abs s) - {x} \<and> set_inv s'"
      by (auto simp: set_del_def spec_remove_def split: if_splits) }
  { assume "x \<in> items (set_abs s)"
    with set_remove_refines [OF s, of x] show "set_del x s \<noteq> None"
      by (auto simp: set_del_def spec_remove_def split: if_splits) }
  show "set_contains s x \<longleftrightarrow> x \<in> items (set_abs s)"
    using set_search_None [OF s] by (simp add: set_contains_def set_abs_def)
  show "set_size s = int (card (items (set_abs s)))"
    using set_card [OF s] by (simp add: set_size_def)
  show "finite (items (set_abs s))"
    by (simp add: set_abs_def)
  { assume "x \<notin> items (set_abs s)" "card (items (set_abs s)) < room (set_abs s)"
    with set_add_refines [OF s, of x "Some (\<lambda>_. 0)"] show "set_ins x s \<noteq> None"
      by (auto simp: set_ins_def spec_add_def split: if_splits) }
  { assume "set_ins x s = Some s'"
    with set_add_refines [OF s, of x "Some (\<lambda>_. 0)"] show "room (set_abs s) \<le> room (set_abs s')"
      by (auto simp: set_ins_def spec_add_def split: if_splits) }
qed

section \<open>Properties\<close>

text \<open>
  C33. \<open>set_add\<close> and \<open>set_remove\<close> implement the abstract set on every branch: on any well-formed set
  they return the code the specification returns, leave a well-formed set whose abstraction is the one
  the specification computes, and \<open>set_contains\<close> and \<open>set_size\<close> are membership and cardinality.
\<close>

theorem set_refines_spec:
  assumes "set_inv s"
  shows "(\<exists>rc s'. set_add (Some s) x mem = (rc, Some s') \<and> set_inv s' \<and>
            (rc, set_abs s') = spec_add x (mem \<noteq> None) (set_abs s)) \<and>
         (\<exists>rc s'. set_remove (Some s) x = (rc, Some s') \<and> set_inv s' \<and> (rc, set_abs s') = spec_remove x (set_abs s)) \<and>
         (set_contains s x = (x \<in> items (set_abs s))) \<and> set_size s = int (card (items (set_abs s)))"
  using set_add_refines [OF assms] set_remove_refines [OF assms] arr_set.mem_elems [OF assms]
    arr_set.count_elems [OF assms] by blast

definition set_example :: set_t where
  "set_example = \<lparr>capacity = 3, expand_size = 2, set_next = 3, set_arr = Some [7, 8, 9]\<rparr>"

theorem set_refines_spec_witness:
  "set_contains set_example 8 \<and> set_size set_example = 3 \<and>
   fst (set_add (Some set_example) 5 None) = - ENOMEM \<and> fst (set_add (Some set_example) 5 (Some (\<lambda>_. 0))) = 0"
proof -
  have inv: "set_inv set_example"
    by (simp add: set_inv_def set_example_def set_items_def)
  have abs: "set_abs set_example = \<lparr>items = {7, 8, 9}, room = 3, growth = 2\<rparr>"
    by (simp add: set_abs_def set_example_def set_items_def)
  show ?thesis
    using set_refines_spec [OF inv, of 8 None] set_refines_spec [OF inv, of 5 None]
      set_refines_spec [OF inv, of 5 "Some (\<lambda>_. 0)"]
    by (auto simp: abs spec_add_def)
qed

lemma set_create_ok:
  assumes "set_create (Some s0) cap ex mem = (0, Some s)"
  shows "set_inv s" "set_abs s = \<lparr>items = {}, room = unat cap, growth = unat ex\<rparr>"
  using assms
  by (auto simp: set_create_def realloc_arr_def set_inv_def set_abs_def set_items_def set_zero_def
      split: if_splits option.splits)

text \<open>
  C34. A set made by \<open>set_create\<close> accepts any distinct items up to its initial capacity, then contains
  exactly those, and they can be removed again in any order, which leaves the set empty.
\<close>

theorem set_fill_and_drain:
  assumes "set_create (Some s0) cap ex mem = (0, Some s)" and "distinct xs" and "length xs \<le> unat cap"
  shows "\<exists>s1. run_all set_ins xs s = Some s1 \<and> set_size s1 = int (length xs) \<and>
    (\<forall>x. set_contains s1 x = (x \<in> set xs)) \<and>
    (\<forall>ys. distinct ys \<and> set ys = set xs \<longrightarrow> (\<exists>s2. run_all set_del ys s1 = Some s2 \<and> set_size s2 = 0))"
proof -
  note new = set_create_ok [OF assms(1)]
  obtain s1 where s1: "run_all set_ins xs s = Some s1"
    using arr_set.add_list_total [OF new(1) assms(2)] assms(3) by (auto simp: new(2))
  from arr_set.add_list_elems [OF new(1) s1] have e: "items (set_abs s1) = set xs" "set_inv s1"
      "set_size s1 = set_size s + int (length xs)"
    by (auto simp: new(2))
  moreover have "set_size s = 0"
    using arr_set.count_elems [OF new(1)] by (simp add: new(2))
  moreover have "\<exists>s2. run_all set_del ys s1 = Some s2 \<and> set_size s2 = 0" if "distinct ys" "set ys = set xs" for ys
    using arr_set.add_then_del [OF new(1) s1 that] \<open>set_size s = 0\<close> by auto
  ultimately show ?thesis
    using s1 arr_set.mem_elems [OF e(2)] by auto
qed

theorem set_fill_and_drain_witness:
  "\<exists>s s1. set_create (Some set_zero) 3 0 (Some (\<lambda>_. 0)) = (0, Some s) \<and> run_all set_ins [10, 20, 30] s = Some s1 \<and>
     set_contains s1 20 \<and> set_size s1 = 3"
proof -
  obtain s where s: "set_create (Some set_zero) 3 0 (Some (\<lambda>_. 0)) = (0, Some s)"
    by (simp add: set_create_def realloc_arr_def)
  from set_fill_and_drain [OF s, of "[10, 20, 30]"] s show ?thesis
    by auto
qed

end
