(* ===== verification/Lib_List.thy ===== *)
theory Lib_List
  imports Rio_Prelude "HOL-Library.Monad_Syntax"
begin

text \<open>
  The doubly linked list of \<^verbatim>\<open>common/liblist/src/liblist.c\<close>. List items live in an explicit heap, a
  partial map from addresses to items; the heap also records which client objects are allocated, since
  \<open>l_remove\<close> frees the object of the item it removes. A pointer is an optional address, \<open>None\<close> being
  null. Operations are in the option monad, and \<open>None\<close> stands for undefined behaviour: a null or
  dangling pointer that is dereferenced or freed, or a loop that does not end. The result of \<open>calloc\<close>
  is an argument: \<open>None\<close> when it fails, otherwise the address of the new block.
\<close>

section \<open>Data\<close>

type_synonym addr = nat

record l_item_t =
  li_next :: "addr option"
  li_prev :: "addr option"
  li_item :: "addr option"
  li_key :: u64

record l_head_t =
  l_cnt :: int
  l_hd :: "addr option"
  l_tl :: "addr option"

record l_heap =
  cells :: "addr \<Rightarrow> l_item_t option"
  objs :: "addr set"

definition rd :: "addr option \<Rightarrow> l_heap \<Rightarrow> l_item_t option" where
  "rd p h = Option.bind p (cells h)"

definition wr :: "addr option \<Rightarrow> (l_item_t \<Rightarrow> l_item_t) \<Rightarrow> l_heap \<Rightarrow> l_heap option" where
  "wr p f h =
     (case p of None \<Rightarrow> None
      | Some a \<Rightarrow> (case cells h a of None \<Rightarrow> None | Some n \<Rightarrow> Some (h\<lparr>cells := (cells h)(a := Some (f n))\<rparr>)))"

definition free_item :: "addr option \<Rightarrow> l_heap \<Rightarrow> l_heap option" where
  "free_item p h =
     (case p of None \<Rightarrow> Some h
      | Some a \<Rightarrow> if cells h a = None then None else Some (h\<lparr>cells := (cells h)(a := None)\<rparr>))"

definition free_obj :: "addr option \<Rightarrow> l_heap \<Rightarrow> l_heap option" where
  "free_obj p h =
     (case p of None \<Rightarrow> Some h
      | Some a \<Rightarrow> if a \<in> objs h then Some (h\<lparr>objs := objs h - {a}\<rparr>) else None)"

text \<open>The block \<open>calloc\<close> returns, with key and item set: both link fields are null.\<close>

definition new_item :: "addr \<Rightarrow> u64 \<Rightarrow> addr \<Rightarrow> l_heap \<Rightarrow> l_heap" where
  "new_item a k v h =
     h\<lparr>cells := (cells h)(a := Some \<lparr>li_next = None, li_prev = None, li_item = Some v, li_key = k\<rparr>)\<rparr>"

section \<open>Operations\<close>

definition l_init :: "l_head_t option \<Rightarrow> l_head_t option" where
  "l_init l = map_option (\<lambda>_. \<lparr>l_cnt = 0, l_hd = None, l_tl = None\<rparr>) l"

definition l_push_tail ::
  "l_head_t option \<Rightarrow> addr option \<Rightarrow> addr option \<Rightarrow> l_heap \<Rightarrow> (l_head_t option \<times> l_heap) option" where
  "l_push_tail l item fresh h =
     (case (l, item, fresh) of
        (Some l0, Some v, Some li) \<Rightarrow>
          (let h1 = new_item li 0 v h in
           if l_cnt l0 \<noteq> 0 then do {
             h2 \<leftarrow> wr (l_tl l0) (\<lambda>n. n\<lparr>li_next := Some li\<rparr>) h1;
             h3 \<leftarrow> wr (Some li) (\<lambda>n. n\<lparr>li_prev := l_tl l0\<rparr>) h2;
             Some (Some (l0\<lparr>l_tl := Some li, l_cnt := l_cnt l0 + 1\<rparr>), h3) }
           else Some (Some (l0\<lparr>l_hd := Some li, l_tl := Some li, l_cnt := l_cnt l0 + 1\<rparr>), h1))
      | _ \<Rightarrow> Some (l, h))"

definition l_pop_head :: "l_head_t option \<Rightarrow> l_heap \<Rightarrow> (addr option \<times> l_head_t option \<times> l_heap) option" where
  "l_pop_head l h =
     (case l of None \<Rightarrow> Some (None, None, h)
      | Some l0 \<Rightarrow>
          if l_cnt l0 \<noteq> 0 then do {
            n \<leftarrow> rd (l_hd l0) h;
            (if l_cnt l0 = 1 then do {
               h1 \<leftarrow> free_item (l_hd l0) h;
               Some (li_item n, l_init (Some l0), h1) }
             else do {
               h1 \<leftarrow> wr (li_next n) (\<lambda>m. m\<lparr>li_prev := None\<rparr>) h;
               h2 \<leftarrow> free_item (l_hd l0) h1;
               Some (li_item n, Some (l0\<lparr>l_hd := li_next n, l_cnt := l_cnt l0 - 1\<rparr>), h2) }) }
          else Some (None, Some l0, h))"

text \<open>The loop that \<open>l_add\<close> and \<open>l_find\<close> run from an item on: the first item whose key satisfies \<open>P\<close>.\<close>

partial_function (option) l_scan :: "(u64 \<Rightarrow> bool) \<Rightarrow> addr option \<Rightarrow> l_heap \<Rightarrow> addr option option" where
  "l_scan P li h =
     (case li of None \<Rightarrow> Some None
      | Some a \<Rightarrow> (case cells h a of None \<Rightarrow> None
                  | Some n \<Rightarrow> if P (li_key n) then Some (Some a) else l_scan P (li_next n) h))"

definition l_add ::
  "l_head_t option \<Rightarrow> u32 \<Rightarrow> addr option \<Rightarrow> addr option \<Rightarrow> l_heap \<Rightarrow> (addr option \<times> l_head_t option \<times> l_heap) option" where
  "l_add l key item fresh h =
     (case (l, item, fresh) of
        (Some l0, Some v, Some new_li) \<Rightarrow>
          (let h1 = new_item new_li (ucast key) v h; k = ucast key :: u64;
               fin = (\<lambda>l' h'. Some (Some new_li, Some (l'\<lparr>l_cnt := l_cnt l' + 1\<rparr>), h')) in
           if l_cnt l0 = 0 then fin (l0\<lparr>l_hd := Some new_li, l_tl := Some new_li\<rparr>) h1
           else do {
             t \<leftarrow> rd (l_tl l0) h1;
             (if li_key t \<le> k then do {
                h2 \<leftarrow> wr (l_tl l0) (\<lambda>n. n\<lparr>li_next := Some new_li\<rparr>) h1;
                h3 \<leftarrow> wr (Some new_li) (\<lambda>n. n\<lparr>li_prev := l_tl l0\<rparr>) h2;
                fin (l0\<lparr>l_tl := Some new_li\<rparr>) h3 }
              else do {
                d \<leftarrow> rd (l_hd l0) h1;
                (if li_key d > k then do {
                   h2 \<leftarrow> wr (l_hd l0) (\<lambda>n. n\<lparr>li_prev := Some new_li\<rparr>) h1;
                   h3 \<leftarrow> wr (Some new_li) (\<lambda>n. n\<lparr>li_next := l_hd l0\<rparr>) h2;
                   fin (l0\<lparr>l_hd := Some new_li\<rparr>) h3 }
                 else do {
                   li \<leftarrow> l_scan (\<lambda>x. x > k) (li_next d) h1;
                   (case li of None \<Rightarrow> fin l0 h1
                    | Some _ \<Rightarrow> do {
                        n \<leftarrow> rd li h1;
                        h2 \<leftarrow> wr (li_prev n) (\<lambda>m. m\<lparr>li_next := Some new_li\<rparr>) h1;
                        h3 \<leftarrow> wr (Some new_li) (\<lambda>m. m\<lparr>li_next := li\<rparr>) h2;
                        h4 \<leftarrow> wr (Some new_li) (\<lambda>m. m\<lparr>li_prev := li_prev n\<rparr>) h3;
                        h5 \<leftarrow> wr li (\<lambda>m. m\<lparr>li_prev := Some new_li\<rparr>) h4;
                        fin l0 h5 }) }) }) })
      | _ \<Rightarrow> Some (None, l, h))"

definition l_lremove ::
  "l_head_t option \<Rightarrow> addr option \<Rightarrow> l_heap \<Rightarrow> (l_head_t option \<times> l_heap) option" where
  "l_lremove l li h =
     (case (l, li) of
        (Some l0, Some _) \<Rightarrow> do {
          (l1, h1) \<leftarrow>
            (if l_cnt l0 = 1 then Some (the (l_init (Some l0)), h)
             else if li = l_hd l0 then do {
               n \<leftarrow> rd (l_hd l0) h;
               h1 \<leftarrow> wr (li_next n) (\<lambda>m. m\<lparr>li_prev := None\<rparr>) h;
               Some (l0\<lparr>l_hd := li_next n, l_cnt := l_cnt l0 - 1\<rparr>, h1) }
             else if li = l_tl l0 then do {
               n \<leftarrow> rd (l_tl l0) h;
               h1 \<leftarrow> wr (li_prev n) (\<lambda>m. m\<lparr>li_next := None\<rparr>) h;
               Some (l0\<lparr>l_tl := li_prev n, l_cnt := l_cnt l0 - 1\<rparr>, h1) }
             else do {
               n \<leftarrow> rd li h;
               h1 \<leftarrow> wr (li_next n) (\<lambda>m. m\<lparr>li_prev := li_prev n\<rparr>) h;
               h2 \<leftarrow> wr (li_prev n) (\<lambda>m. m\<lparr>li_next := li_next n\<rparr>) h1;
               Some (l0\<lparr>l_cnt := l_cnt l0 - 1\<rparr>, h2) });
          h2 \<leftarrow> free_item li h1;
          Some (Some l1, h2) }
      | _ \<Rightarrow> Some (l, h))"

definition l_remove :: "l_head_t option \<Rightarrow> addr option \<Rightarrow> l_heap \<Rightarrow> (l_head_t option \<times> l_heap) option" where
  "l_remove l li h =
     (case (l, li) of
        (Some _, Some _) \<Rightarrow> do {
          n \<leftarrow> rd li h;
          (l1, h1) \<leftarrow> l_lremove l li h;
          h2 \<leftarrow> free_obj (li_item n) h1;
          Some (l1, h2) }
      | _ \<Rightarrow> Some (l, h))"

text \<open>\<open>l_find\<close> returns the object and the content of \<open>*l_item\<close>.\<close>

definition l_find ::
  "l_head_t option \<Rightarrow> u32 \<Rightarrow> addr option option \<Rightarrow> l_heap \<Rightarrow> (addr option \<times> addr option option) option" where
  "l_find l key out h =
     (case (l, out) of
        (Some l0, Some _) \<Rightarrow> do {
          li \<leftarrow> l_scan (\<lambda>x. x = ucast key) (l_hd l0) h;
          (case li of None \<Rightarrow> Some (None, Some None)
           | Some _ \<Rightarrow> do { n \<leftarrow> rd li h; Some (li_item n, Some li) }) }
      | _ \<Rightarrow> Some (None, out))"

definition l_size :: "l_head_t option \<Rightarrow> int" where
  "l_size l = (case l of None \<Rightarrow> 0 | Some l0 \<Rightarrow> l_cnt l0)"

definition l_head :: "l_head_t option \<Rightarrow> addr option option \<Rightarrow> l_heap \<Rightarrow> (addr option \<times> addr option option) option" where
  "l_head l li h =
     (case (l, li) of
        (Some l0, Some _) \<Rightarrow>
          (case l_hd l0 of None \<Rightarrow> Some (None, Some None)
           | Some a \<Rightarrow> do { n \<leftarrow> rd (Some a) h; Some (li_item n, Some (Some a)) })
      | _ \<Rightarrow> Some (None, li))"

definition l_next :: "addr option option \<Rightarrow> l_heap \<Rightarrow> (addr option \<times> addr option option) option" where
  "l_next li h =
     (case li of
        Some (Some a) \<Rightarrow> do {
          n \<leftarrow> rd (Some a) h;
          (case li_next n of None \<Rightarrow> Some (None, Some None)
           | Some b \<Rightarrow> do { m \<leftarrow> rd (Some b) h; Some (li_item m, Some (Some b)) }) }
      | _ \<Rightarrow> Some (None, li))"

section \<open>Representation\<close>

text \<open>
  The entries of a list, as address, key and object. \<open>dll c pr xs nx\<close> says that the heap holds exactly
  these items, linked in both directions, between the item \<open>pr\<close> before and the item \<open>nx\<close> after them.
\<close>

type_synonym entry = "addr \<times> u64 \<times> addr"

fun first_at :: "entry list \<Rightarrow> addr option \<Rightarrow> addr option" where
  "first_at [] nx = nx"
| "first_at ((a, kv) # xs) nx = Some a"

definition last_at :: "addr option \<Rightarrow> entry list \<Rightarrow> addr option" where
  "last_at pr xs = (if xs = [] then pr else Some (fst (last xs)))"

fun dll :: "(addr \<Rightarrow> l_item_t option) \<Rightarrow> addr option \<Rightarrow> entry list \<Rightarrow> addr option \<Rightarrow> bool" where
  "dll c pr [] nx \<longleftrightarrow> True"
| "dll c pr ((a, k, v) # xs) nx \<longleftrightarrow>
     c a = Some \<lparr>li_next = first_at xs nx, li_prev = pr, li_item = Some v, li_key = k\<rparr> \<and> dll c (Some a) xs nx"

definition l_rep :: "l_head_t \<Rightarrow> l_heap \<Rightarrow> entry list \<Rightarrow> bool" where
  "l_rep l h xs \<longleftrightarrow>
     dll (cells h) None xs None \<and> distinct (map fst xs) \<and> l_cnt l = int (length xs) \<and>
     l_hd l = first_at xs None \<and> l_tl l = last_at None xs"

definition l_frame :: "entry list \<Rightarrow> l_heap \<Rightarrow> l_heap \<Rightarrow> bool" where
  "l_frame xs h h' \<longleftrightarrow> (\<forall>a. a \<notin> fst ` set xs \<longrightarrow> cells h' a = cells h a)"

lemma first_at_append [simp]: "first_at (xs @ ys) nx = first_at xs (first_at ys nx)"
  by (cases xs) auto

lemma last_at_simps [simp]: "last_at pr [] = pr" "last_at pr (xs @ [x]) = Some (fst x)"
  "last_at pr (x # xs) = last_at (Some (fst x)) xs" "last_at pr (xs @ ys) = last_at (last_at pr xs) ys"
  by (auto simp: last_at_def)

lemma dll_append: "dll c pr (xs @ ys) nx \<longleftrightarrow> dll c pr xs (first_at ys nx) \<and> dll c (last_at pr xs) ys nx"
  by (induction c pr xs nx rule: dll.induct) auto

lemma dll_upd [simp]: "a \<notin> fst ` set xs \<Longrightarrow> dll (c(a := n)) pr xs nx = dll c pr xs nx"
  by (induction c pr xs nx rule: dll.induct) auto

lemma dll_alloc: "dll c pr xs nx \<Longrightarrow> a \<in> fst ` set xs \<Longrightarrow> c a \<noteq> None"
  by (induction c pr xs nx rule: dll.induct) auto

lemma dll_fresh: "dll c pr xs nx \<Longrightarrow> c a = None \<Longrightarrow> a \<notin> fst ` set xs"
  using dll_alloc by blast

lemma l_scan_simps:
  "l_scan P None h = Some None"
  "cells h a = Some n \<Longrightarrow> l_scan P (Some a) h = (if P (li_key n) then Some (Some a) else l_scan P (li_next n) h)"
  by (subst l_scan.simps, simp)+

text \<open>On a list the loop ends and finds the first entry that qualifies.\<close>

lemma l_scan_dll:
  "dll (cells h) pr xs nx \<Longrightarrow>
     l_scan P (first_at xs nx) h =
       (case dropWhile (\<lambda>(a, k, v). \<not> P k) xs of [] \<Rightarrow> l_scan P nx h | (a, kv) # _ \<Rightarrow> Some (Some a))"
proof (induction xs arbitrary: pr)
  case (Cons x xs)
  obtain a k v where x: "x = (a, k, v)"
    by (cases x)
  from Cons.prems have "cells h a = Some \<lparr>li_next = first_at xs nx, li_prev = pr, li_item = Some v, li_key = k\<rparr>"
    and "dll (cells h) (Some a) xs nx"
    by (simp_all add: x)
  with Cons.IH [of "Some a"] show ?case
    by (simp add: x l_scan_simps)
qed simp


section \<open>The operations on represented lists\<close>

named_theorems heap_ops \<open>unfolding of heap reads, writes, allocation and release\<close>

lemmas [heap_ops] = rd_def wr_def free_item_def new_item_def l_rep_def l_frame_def dll_append

lemma l_push_rep:
  assumes "l_rep l h xs" and "cells h a = None"
  shows "\<exists>l' h'. l_push_tail (Some l) (Some v) (Some a) h = Some (Some l', h') \<and>
    l_rep l' h' (xs @ [(a, 0, v)]) \<and> l_frame (xs @ [(a, 0, v)]) h h' \<and> objs h' = objs h"
proof (cases xs rule: rev_cases)
  case Nil
  with assms show ?thesis
    by (auto simp: l_push_tail_def heap_ops)
next
  case (snoc ys y)
  obtain b k w where y: "y = (b, k, w)"
    by (cases y)
  have "a \<notin> fst ` set xs"
    using assms by (auto simp: l_rep_def dest: dll_fresh)
  with assms snoc y show ?thesis
    by (auto simp: l_push_tail_def heap_ops)
qed

lemma l_pop_rep:
  assumes "l_rep l h ((a, k, v) # xs)"
  shows "\<exists>l' h'. l_pop_head (Some l) h = Some (Some v, Some l', h') \<and>
    l_rep l' h' xs \<and> l_frame ((a, k, v) # xs) h h' \<and> objs h' = objs h \<and> cells h' a = None"
proof (cases xs)
  case Nil
  with assms show ?thesis
    by (auto simp: l_pop_head_def l_init_def heap_ops)
next
  case (Cons y ys)
  obtain b k' w where "y = (b, k', w)"
    by (cases y)
  with assms Cons show ?thesis
    by (auto simp: l_pop_head_def heap_ops)
qed

lemma l_pop_empty: "l_rep l h [] \<Longrightarrow> l_pop_head (Some l) h = Some (None, Some l, h)"
  by (simp add: l_pop_head_def l_rep_def)

lemma l_lremove_rep:
  assumes "l_rep l h (xs @ (a, k, v) # ys)"
  shows "\<exists>l' h'. l_lremove (Some l) (Some a) h = Some (Some l', h') \<and>
    l_rep l' h' (xs @ ys) \<and> l_frame (xs @ (a, k, v) # ys) h h' \<and> objs h' = objs h \<and> cells h' a = None"
proof (cases xs rule: rev_cases)
  case Nil
  show ?thesis
  proof (cases ys)
    case Nil
    with assms \<open>xs = []\<close> show ?thesis
      by (auto simp: l_lremove_def l_init_def heap_ops)
  next
    case (Cons y zs)
    obtain b k' w where "y = (b, k', w)"
      by (cases y)
    with assms \<open>xs = []\<close> Cons show ?thesis
      by (auto simp: l_lremove_def heap_ops)
  qed
next
  case (snoc xs' x)
  obtain b k' w where x: "x = (b, k', w)"
    by (cases x)
  have hd: "l_hd l = first_at xs' (Some b)" "a \<noteq> b" "a \<notin> fst ` set xs'" "Some a \<noteq> first_at xs' (Some b)"
    using assms snoc x by (auto simp: l_rep_def) (cases xs'; auto)+
  show ?thesis
  proof (cases ys)
    case Nil
    with assms snoc x hd show ?thesis
      by (auto simp: l_lremove_def heap_ops)
  next
    case (Cons y zs)
    obtain c k'' w' where y: "y = (c, k'', w')"
      by (cases y)
    have "Some a \<noteq> last_at None (y # zs)"
      using assms by (auto simp: l_rep_def Cons y last_at_def)
    with assms snoc x hd Cons y show ?thesis
      by (auto simp: l_lremove_def heap_ops)
  qed
qed


text \<open>The place of a new entry in an ordered list: behind all entries whose key is not larger.\<close>

definition l_insert :: "entry \<Rightarrow> entry list \<Rightarrow> entry list" where
  "l_insert e xs =
     takeWhile (\<lambda>x. fst (snd x) \<le> fst (snd e)) xs @ e # dropWhile (\<lambda>x. fst (snd x) \<le> fst (snd e)) xs"

abbreviation keys :: "entry list \<Rightarrow> u64 list" where
  "keys xs \<equiv> map (\<lambda>x. fst (snd x)) xs"

lemma l_insert_set: "set (l_insert e xs) = insert e (set xs)"
proof -
  have "set xs = set (takeWhile P xs) \<union> set (dropWhile P xs)" for P
    by (metis set_append takeWhile_dropWhile_id)
  then show ?thesis
    by (simp add: l_insert_def)
qed

lemma sorted_middle:
  "sorted (map f as @ map f bs) \<Longrightarrow> \<forall>x\<in>set as. f x \<le> f e \<Longrightarrow> \<forall>x\<in>set bs. f e \<le> f x \<Longrightarrow>
     sorted (map f (as @ e # bs))"
  by (auto simp: sorted_append)

lemma dropWhile_sorted_ge:
  fixes c :: "'a::linorder"
  assumes "sorted (map f xs)"
  shows "\<forall>x\<in>set (dropWhile (\<lambda>x. f x \<le> c) xs). c \<le> f x"
  using assms
proof (induction xs)
  case (Cons x xs)
  then show ?case
    by (cases "f x \<le> c") (auto simp: not_le intro: less_imp_le order_trans)
qed simp

lemma l_insert_sorted: "sorted (keys xs) \<Longrightarrow> sorted (keys (l_insert e xs))"
  unfolding l_insert_def
proof (rule sorted_middle)
  assume s: "sorted (keys xs)"
  then show "sorted (keys (takeWhile (\<lambda>x. fst (snd x) \<le> fst (snd e)) xs) @ keys (dropWhile (\<lambda>x. fst (snd x) \<le> fst (snd e)) xs))"
    by (simp flip: map_append)
  from s show "\<forall>x\<in>set (dropWhile (\<lambda>x. fst (snd x) \<le> fst (snd e)) xs). fst (snd e) \<le> fst (snd x)"
    by (rule dropWhile_sorted_ge)
qed (auto dest: set_takeWhileD)

lemma l_add_between:
  assumes "l_rep l h (us @ (b, kb, vb) # (c, kc, vc) # zs)" and "cells h a = None"
    and "h1 = new_item a k v h"
  shows "\<exists>n h2 h3 h4 h5. rd (Some c) h1 = Some n \<and> li_prev n = Some b \<and>
    wr (Some b) (\<lambda>m. m\<lparr>li_next := Some a\<rparr>) h1 = Some h2 \<and> wr (Some a) (\<lambda>m. m\<lparr>li_next := Some c\<rparr>) h2 = Some h3 \<and>
    wr (Some a) (\<lambda>m. m\<lparr>li_prev := Some b\<rparr>) h3 = Some h4 \<and> wr (Some c) (\<lambda>m. m\<lparr>li_prev := Some a\<rparr>) h4 = Some h5 \<and>
    l_rep (l\<lparr>l_cnt := l_cnt l + 1\<rparr>) h5 (us @ (b, kb, vb) # (a, k, v) # (c, kc, vc) # zs) \<and>
    l_frame (us @ (b, kb, vb) # (a, k, v) # (c, kc, vc) # zs) h h5 \<and> objs h5 = objs h"
proof -
  have "a \<notin> fst ` set (us @ (b, kb, vb) # (c, kc, vc) # zs)"
    using assms(1,2) unfolding l_rep_def by (blast dest: dll_fresh)
  then have "a \<notin> fst ` set us" "a \<notin> fst ` set zs" "a \<noteq> b" "a \<noteq> c"
    by auto
  with assms show ?thesis
    by (auto simp: heap_ops)
qed

text \<open>Where the loop of \<open>l_add\<close> stops when the new entry belongs neither first nor last.\<close>

lemma l_add_split:
  assumes rep: "l_rep l h xs" and fresh: "cells h a = None"
    and xs: "xs = d # ys" and lo: "fst (snd d) \<le> k" and hi: "\<not> fst (snd (last xs)) \<le> k"
  shows "\<exists>us b kb vb c kc vc zs. xs = us @ (b, kb, vb) # (c, kc, vc) # zs \<and>
     l_insert (a, k, v) xs = us @ (b, kb, vb) # (a, k, v) # (c, kc, vc) # zs \<and>
     l_scan (\<lambda>x. x > k) (first_at ys None) (new_item a k v h) = Some (Some c)"
proof -
  let ?P = "\<lambda>x :: entry. fst (snd x) \<le> k"
  obtain b kb vb where d: "d = (b, kb, vb)"
    by (cases d)
  have "ys \<noteq> []"
    using xs lo hi by auto
  with hi xs have "dropWhile ?P ys \<noteq> []"
    by (auto simp: dropWhile_eq_Nil_conv)
  then obtain c kc vc zs where drop: "dropWhile ?P ys = (c, kc, vc) # zs"
    by (metis list.exhaust prod_cases3)
  obtain us e where take: "d # takeWhile ?P ys = us @ [e]"
    by (metis list.distinct(1) rev_exhaust)
  obtain b' kb' vb' where e: "e = (b', kb', vb')"
    by (cases e)
  have "xs = (d # takeWhile ?P ys) @ dropWhile ?P ys"
    by (simp add: xs)
  then have split: "xs = us @ (b', kb', vb') # (c, kc, vc) # zs"
    unfolding take drop e by simp
  have "l_insert (a, k, v) xs = (d # takeWhile ?P ys) @ (a, k, v) # dropWhile ?P ys"
    using lo by (simp add: l_insert_def xs)
  then have ins: "l_insert (a, k, v) xs = us @ (b', kb', vb') # (a, k, v) # (c, kc, vc) # zs"
    unfolding take drop e by simp
  have "a \<notin> fst ` set xs"
    using rep fresh by (auto simp: l_rep_def dest: dll_fresh)
  then have "dll (cells (new_item a k v h)) (Some b) ys None"
    using rep by (auto simp: l_rep_def xs d new_item_def)
  from l_scan_dll [OF this, of "\<lambda>x. x > k"] drop
  have "l_scan (\<lambda>x. x > k) (first_at ys None) (new_item a k v h) = Some (Some c)"
    by (simp add: not_less split_def)
  with split ins show ?thesis
    by blast
qed

lemma l_add_rep:
  assumes rep: "l_rep l h xs" and srt: "sorted (keys xs)" and fresh: "cells h a = None"
  shows "\<exists>l' h'. l_add (Some l) key (Some v) (Some a) h = Some (Some a, Some l', h') \<and>
    l_rep l' h' (l_insert (a, ucast key, v) xs) \<and> l_frame (l_insert (a, ucast key, v) xs) h h' \<and> objs h' = objs h"
proof -
  define k :: u64 where "k = ucast key"
  define h1 where "h1 = new_item a k v h"
  have a: "a \<notin> fst ` set xs"
    using rep fresh by (auto simp: l_rep_def dest: dll_fresh)
  have rdt: "\<exists>n. rd (l_tl l) h1 = Some n \<and> \<not> li_key n \<le> k" if ne: "xs \<noteq> []" and hi: "\<not> fst (snd (last xs)) \<le> k"
  proof -
    obtain ws w where xs: "xs = ws @ [w]"
      using ne by (cases xs rule: rev_cases) auto
    obtain c kc vc where "w = (c, kc, vc)"
      by (cases w)
    with xs rep a hi show ?thesis
      by (auto simp: h1_def heap_ops)
  qed
  have cnt: "l_cnt l \<noteq> 0" if "xs \<noteq> []"
    using rep that by (simp add: l_rep_def)
  consider (empty) "xs = []" | (tail) ys t where "xs = ys @ [t]" "fst (snd t) \<le> k"
    | (front) d ys where "xs = d # ys" "fst (snd d) > k" "\<not> fst (snd (last xs)) \<le> k"
    | (between) d ys where "xs = d # ys" "fst (snd d) \<le> k" "\<not> fst (snd (last xs)) \<le> k"
  proof (cases xs)
    case (Cons d ys)
    obtain ws t where ws: "xs = ws @ [t]"
      using Cons by (metis list.distinct(1) rev_exhaust)
    then have "last xs = t"
      by simp
    then show ?thesis
      using that(2) [OF ws] that(3) [OF Cons] that(4) [OF Cons] by (metis not_le)
  qed (rule that(1))
  then show ?thesis
  proof cases
    case empty
    with rep show ?thesis
      by (auto simp: l_add_def l_insert_def k_def heap_ops)
  next
    case tail
    have "\<forall>x\<in>set xs. fst (snd x) \<le> k"
      using srt tail by (auto simp: sorted_append intro: order_trans)
    then have ins: "l_insert (a, k, v) xs = xs @ [(a, k, v)]"
      by (simp add: l_insert_def takeWhile_eq_all_conv [THEN iffD2] dropWhile_eq_Nil_conv [THEN iffD2])
    obtain b kb vb where t: "t = (b, kb, vb)"
      by (cases t)
    from rep tail a show ?thesis
      unfolding k_def [symmetric] ins by (auto simp: l_add_def k_def [symmetric] t heap_ops)
  next
    case front
    obtain b kb vb where d: "d = (b, kb, vb)"
      by (cases d)
    have ins: "l_insert (a, k, v) xs = (a, k, v) # xs"
      using front(1,2) by (simp add: l_insert_def not_le [symmetric])
    have "xs \<noteq> []"
      using front(1) by simp
    note t = rdt [OF this front(3)]
    from rep front(1,2) a show ?thesis
      unfolding k_def [symmetric] ins
      using t cnt [OF \<open>xs \<noteq> []\<close>]
      by (auto simp: l_add_def k_def [symmetric] h1_def [symmetric]) (auto simp: h1_def d heap_ops)
  next
    case between
    have "xs \<noteq> []"
      using between(1) by simp
    note t = rdt [OF this between(3)]
    obtain b kb vb where d: "d = (b, kb, vb)"
      by (cases d)
    from l_add_split [OF rep fresh between(1,2,3)] obtain us b' kb' vb' c kc vc zs where
      split: "xs = us @ (b', kb', vb') # (c, kc, vc) # zs" and
      ins: "l_insert (a, k, v) xs = us @ (b', kb', vb') # (a, k, v) # (c, kc, vc) # zs" and
      scan: "l_scan (\<lambda>x. x > k) (first_at ys None) h1 = Some (Some c)"
      unfolding h1_def by metis
    have hd: "rd (l_hd l) h1 = Some \<lparr>li_next = first_at ys None, li_prev = None, li_item = Some vb, li_key = kb\<rparr>"
      using rep a by (auto simp: h1_def between(1) d heap_ops)
    from l_add_between [OF rep [unfolded split] fresh h1_def] show ?thesis
      using between(2) t hd scan cnt [OF \<open>xs \<noteq> []\<close>]
      unfolding k_def [symmetric] ins
      by (auto simp: l_add_def k_def [symmetric] h1_def [symmetric] d)
  qed
qed


lemma l_remove_rep:
  assumes "l_rep l h (xs @ (a, k, v) # ys)" and "v \<in> objs h"
  shows "\<exists>l' h'. l_remove (Some l) (Some a) h = Some (Some l', h') \<and>
    l_rep l' h' (xs @ ys) \<and> l_frame (xs @ (a, k, v) # ys) h h' \<and> objs h' = objs h - {v} \<and> cells h' a = None"
proof -
  have "rd (Some a) h = Some \<lparr>li_next = first_at ys None, li_prev = last_at None xs, li_item = Some v, li_key = k\<rparr>"
    using assms(1) by (simp add: l_rep_def dll_append rd_def)
  moreover from l_lremove_rep [OF assms(1)] obtain l' h' where
    "l_lremove (Some l) (Some a) h = Some (Some l', h')" "l_rep l' h' (xs @ ys)" "l_frame (xs @ (a, k, v) # ys) h h'"
    "objs h' = objs h" "cells h' a = None"
    by blast
  ultimately show ?thesis
    using assms(2) by (simp add: l_remove_def free_obj_def l_rep_def l_frame_def)
qed

lemma l_find_rep:
  assumes "l_rep l h xs"
  shows "l_find (Some l) key (Some out) h =
    (case dropWhile (\<lambda>x. fst (snd x) \<noteq> ucast key) xs of [] \<Rightarrow> Some (None, Some None)
     | (a, k, v) # _ \<Rightarrow> Some (Some v, Some (Some a)))"
proof -
  let ?D = "dropWhile (\<lambda>x. fst (snd x) \<noteq> ucast key) xs"
  have d: "dll (cells h) None xs None" and hd: "l_hd l = first_at xs None"
    using assms by (auto simp: l_rep_def)
  note scan = l_scan_dll [OF d, of "\<lambda>x. x = ucast key"]
  show ?thesis
  proof (cases ?D)
    case Nil
    with scan show ?thesis
      by (simp add: l_find_def hd split_def l_scan_simps del: dropWhile_eq_Nil_conv)
  next
    case (Cons x zs)
    obtain a k v where x: "x = (a, k, v)"
      by (cases x)
    have "xs = takeWhile (\<lambda>x. fst (snd x) \<noteq> ucast key) xs @ x # zs"
      using Cons by (metis takeWhile_dropWhile_id)
    with d x obtain pr nx where "rd (Some a) h = Some \<lparr>li_next = nx, li_prev = pr, li_item = Some v, li_key = k\<rparr>"
      by (metis dll.simps(2) dll_append rd_def bind.bind_lunit)
    with scan Cons show ?thesis
      by (simp add: l_find_def hd split_def x)
  qed
qed

text \<open>The iteration \<^verbatim>\<open>for (x = l_head(l, &li); x; x = l_next(&li))\<close> that the users of the list write.\<close>

partial_function (option) l_walk :: "addr option \<times> addr option option \<Rightarrow> l_heap \<Rightarrow> addr list option" where
  "l_walk cur h =
     (case fst cur of None \<Rightarrow> Some []
      | Some v \<Rightarrow> do { nxt \<leftarrow> l_next (snd cur) h; vs \<leftarrow> l_walk nxt h; Some (v # vs) })"

lemma l_next_dll:
  assumes "dll (cells h) pr ((a, k, v) # xs) None"
  shows "l_next (Some (Some a)) h =
    (case xs of [] \<Rightarrow> Some (None, Some None) | (b, k', w) # _ \<Rightarrow> Some (Some w, Some (Some b)))"
  using assms by (cases xs) (auto simp: l_next_def rd_def)

lemma l_walk_dll:
  "dll (cells h) pr ((a, k, v) # xs) None \<Longrightarrow> l_walk (Some v, Some (Some a)) h = Some (v # map (\<lambda>x. snd (snd x)) xs)"
proof (induction xs arbitrary: pr a k v)
  case Nil
  then show ?case
    by (subst l_walk.simps) (simp add: l_next_dll [OF Nil] l_walk.simps)
next
  case (Cons x xs)
  obtain b k' w where x: "x = (b, k', w)"
    by (cases x)
  have "l_walk (Some w, Some (Some b)) h = Some (w # map (\<lambda>x. snd (snd x)) xs)"
    using Cons.prems by (intro Cons.IH [of "Some a"]) (simp add: x)
  then show ?case
    by (subst l_walk.simps) (simp add: l_next_dll [OF Cons.prems] x)
qed

lemma l_walk_rep:
  assumes "l_rep l h xs"
  shows "Option.bind (l_head (Some l) (Some out) h) (\<lambda>cur. l_walk cur h) = Some (map (\<lambda>x. snd (snd x)) xs)"
proof (cases xs)
  case Nil
  with assms show ?thesis
    by (simp add: l_head_def l_rep_def l_walk.simps)
next
  case (Cons x ys)
  obtain a k v where x: "x = (a, k, v)"
    by (cases x)
  with assms Cons have "l_hd l = Some a" "dll (cells h) None ((a, k, v) # ys) None"
    by (auto simp: l_rep_def)
  with l_walk_dll [OF this(2)] show ?thesis
    by (simp add: l_head_def rd_def Cons x)
qed


text \<open>The first entry with the key of the new entry is the one there was, if there was any.\<close>

lemma l_insert_find:
  assumes "sorted (keys xs)"
  shows "(case dropWhile (\<lambda>x. fst (snd x) \<noteq> k) (l_insert (a, k, v) xs) of [] \<Rightarrow> y | (b, k', w) # _ \<Rightarrow> f b w) =
    (case dropWhile (\<lambda>x. fst (snd x) \<noteq> k) xs of [] \<Rightarrow> f a v | (b, k', w) # _ \<Rightarrow> f b w)"
  using assms
proof (induction xs)
  case (Cons x xs)
  obtain b k' w where x: "x = (b, k', w)"
    by (cases x)
  show ?case
  proof (cases "k' \<le> k")
    case True
    then have "l_insert (a, k, v) (x # xs) = x # l_insert (a, k, v) xs"
      by (simp add: l_insert_def x)
    with Cons show ?thesis
      by (simp add: x)
  next
    case False
    then have "l_insert (a, k, v) (x # xs) = (a, k, v) # x # xs"
      by (simp add: l_insert_def x)
    moreover have "\<forall>y\<in>set (x # xs). fst (snd y) \<noteq> k"
      using Cons.prems False by (auto simp: x)
    then have "dropWhile (\<lambda>x. fst (snd x) \<noteq> k) (x # xs) = []"
      by (simp only: dropWhile_eq_Nil_conv)
    ultimately show ?thesis
      by (simp only:) (simp del: dropWhile_eq_Nil_conv)
  qed
qed (simp add: l_insert_def)

section \<open>Contract of a queue\<close>

fun drain :: "('s \<Rightarrow> ('v option \<times> 's) option) \<Rightarrow> nat \<Rightarrow> 's \<Rightarrow> ('v list \<times> 's) option" where
  "drain pop 0 s = Some ([], s)"
| "drain pop (Suc n) s =
     (case pop s of Some (Some v, s') \<Rightarrow> map_option (\<lambda>(vs, t). (v # vs, t)) (drain pop n s') | _ \<Rightarrow> None)"

text \<open>
  A queue whose push takes a resource (here: a block of memory) that has to be available. \<open>rep s vs\<close> says
  that the state \<open>s\<close> holds the values \<open>vs\<close>, oldest first.
\<close>

locale fifo_queue =
  fixes push :: "'p \<times> 'v \<Rightarrow> 's \<Rightarrow> 's option"
    and pop :: "'s \<Rightarrow> ('v option \<times> 's) option"
    and rep :: "'s \<Rightarrow> 'v list \<Rightarrow> bool"
    and avail :: "'s \<Rightarrow> 'p \<Rightarrow> bool"
  assumes push_rep: "rep s vs \<Longrightarrow> avail s p \<Longrightarrow> \<exists>s'. push (p, v) s = Some s' \<and> rep s' (vs @ [v]) \<and>
            (\<forall>q. q \<noteq> p \<and> avail s q \<longrightarrow> avail s' q)"
    and pop_rep: "rep s (v # vs) \<Longrightarrow> \<exists>s'. pop s = Some (Some v, s') \<and> rep s' vs"
    and pop_empty: "rep s [] \<Longrightarrow> pop s = Some (None, s)"
begin

lemma push_all_rep:
  "rep s vs \<Longrightarrow> distinct (map fst pvs) \<Longrightarrow> \<forall>p\<in>fst ` set pvs. avail s p \<Longrightarrow>
     \<exists>s'. run_all push pvs s = Some s' \<and> rep s' (vs @ map snd pvs)"
proof (induction pvs arbitrary: s vs)
  case (Cons pv pvs)
  obtain p v where pv: "pv = (p, v)"
    by (cases pv)
  from push_rep [OF Cons.prems(1), of p v] Cons.prems(3) obtain s1 where
    s1: "push (p, v) s = Some s1" "rep s1 (vs @ [v])" "\<forall>q. q \<noteq> p \<and> avail s q \<longrightarrow> avail s1 q"
    by (auto simp: pv)
  have "\<forall>q\<in>fst ` set pvs. avail s1 q"
    using Cons.prems(2,3) s1(3) by (auto simp: pv)
  with Cons.IH [OF s1(2)] Cons.prems(2) s1(1) show ?case
    by (simp add: pv)
qed simp

lemma drain_rep: "rep s vs \<Longrightarrow> \<exists>s'. drain pop (length vs) s = Some (vs, s') \<and> rep s' []"
proof (induction vs arbitrary: s)
  case (Cons v vs)
  then show ?case
    using pop_rep [OF Cons.prems] by fastforce
qed auto

lemma first_in_first_out:
  assumes "rep s vs" and "distinct (map fst pvs)" and "\<forall>p\<in>fst ` set pvs. avail s p"
  shows "\<exists>s1 s2. run_all push pvs s = Some s1 \<and>
    drain pop (length vs + length pvs) s1 = Some (vs @ map snd pvs, s2) \<and> pop s2 = Some (None, s2)"
proof -
  obtain s1 where s1: "run_all push pvs s = Some s1" "rep s1 (vs @ map snd pvs)"
    using push_all_rep [OF assms] by blast
  from drain_rep [OF s1(2)] s1(1) pop_empty show ?thesis
    by auto
qed

end

definition l_enq :: "addr \<times> addr \<Rightarrow> l_head_t \<times> l_heap \<Rightarrow> (l_head_t \<times> l_heap) option" where
  "l_enq pv s =
     (case l_push_tail (Some (fst s)) (Some (snd pv)) (Some (fst pv)) (snd s) of
        Some (Some l, h) \<Rightarrow> Some (l, h) | _ \<Rightarrow> None)"

definition l_deq :: "l_head_t \<times> l_heap \<Rightarrow> (addr option \<times> l_head_t \<times> l_heap) option" where
  "l_deq s =
     (case l_pop_head (Some (fst s)) (snd s) of Some (v, Some l, h) \<Rightarrow> Some (v, l, h) | _ \<Rightarrow> None)"

definition l_values :: "l_head_t \<times> l_heap \<Rightarrow> addr list \<Rightarrow> bool" where
  "l_values s vs \<longleftrightarrow> (\<exists>xs. l_rep (fst s) (snd s) xs \<and> vs = map (\<lambda>x. snd (snd x)) xs)"

interpretation list_queue: fifo_queue l_enq l_deq l_values "\<lambda>s p. cells (snd s) p = None"
proof unfold_locales
  fix s vs p v
  assume "l_values s vs" and p: "cells (snd s) p = None"
  then obtain xs where xs: "l_rep (fst s) (snd s) xs" "vs = map (\<lambda>x. snd (snd x)) xs"
    by (auto simp: l_values_def)
  from l_push_rep [OF xs(1) p, of v] obtain l' h' where
    push: "l_push_tail (Some (fst s)) (Some v) (Some p) (snd s) = Some (Some l', h')" and
    rep: "l_rep l' h' (xs @ [(p, 0, v)])" and frame: "l_frame (xs @ [(p, 0, v)]) (snd s) h'"
    by blast
  have "cells h' q = None" if "q \<noteq> p" "cells (snd s) q = None" for q
    using that frame xs(1) dll_fresh [of "cells (snd s)" None xs None q] by (auto simp: l_frame_def l_rep_def)
  with push rep xs(2) show "\<exists>s'. l_enq (p, v) s = Some s' \<and> l_values s' (vs @ [v]) \<and>
      (\<forall>q. q \<noteq> p \<and> cells (snd s) q = None \<longrightarrow> cells (snd s') q = None)"
    by (intro exI [of _ "(l', h')"]) (auto simp: l_enq_def l_values_def intro!: exI [of _ "xs @ [(p, 0, v)]"])
next
  fix s v vs
  assume "l_values s (v # vs)"
  then obtain a k xs where xs: "l_rep (fst s) (snd s) ((a, k, v) # xs)" "vs = map (\<lambda>x. snd (snd x)) xs"
    by (auto simp: l_values_def Cons_eq_map_conv)
  from l_pop_rep [OF xs(1)] xs(2) show "\<exists>s'. l_deq s = Some (Some v, s') \<and> l_values s' vs"
    by (auto simp: l_deq_def l_values_def)
next
  fix s
  assume "l_values s []"
  then show "l_deq s = Some (None, s)"
    using l_pop_empty by (auto simp: l_values_def l_deq_def)
qed

section \<open>Properties\<close>

text \<open>
  C35. The list is a queue: whatever objects are appended with \<open>l_push_tail\<close> behind the present ones
  come out of \<open>l_pop_head\<close> in the same order, after which the list is empty, and no call touches memory
  that is not allocated.
\<close>

theorem l_queue_fifo:
  assumes "l_rep l h xs" and "distinct (map fst pvs)" and "\<forall>p\<in>fst ` set pvs. cells h p = None"
  shows "\<exists>s1 s2. run_all l_enq pvs (l, h) = Some s1 \<and>
    drain l_deq (length xs + length pvs) s1 = Some (map (\<lambda>x. snd (snd x)) xs @ map snd pvs, s2) \<and>
    l_deq s2 = Some (None, s2)"
  using list_queue.first_in_first_out [of "(l, h)" "map (\<lambda>x. snd (snd x)) xs" pvs] assms
  by (auto simp: l_values_def)

definition empty_heap :: l_heap where
  "empty_heap = \<lparr>cells = (\<lambda>_. None), objs = {100, 200, 300}\<rparr>"

lemma l_init_rep: "l_rep (the (l_init (Some l))) h []"
  by (simp add: l_init_def l_rep_def)

theorem l_queue_fifo_witness:
  "\<exists>s1 s2. run_all l_enq [(1, 100), (2, 200)] (the (l_init (Some \<lparr>l_cnt = 7, l_hd = None, l_tl = None\<rparr>)), empty_heap) = Some s1 \<and>
     drain l_deq 2 s1 = Some ([100, 200], s2)"
proof -
  have n: "length [] + length [(1::nat, 100::nat), (2, 200)] = (2 :: nat)"
    by simp
  have "\<forall>p\<in>fst ` set [(1, 100::nat), (2, 200)]. cells empty_heap p = None"
    by (simp add: empty_heap_def)
  from l_queue_fifo [OF l_init_rep [of "\<lparr>l_cnt = 7, l_hd = None, l_tl = None\<rparr>" empty_heap] _ this] show ?thesis
    unfolding n by (auto simp del: run_all.simps drain.simps)
qed

text \<open>
  C36. On a list ordered by key, \<open>l_add\<close> places the new item behind all items whose key is not larger
  and keeps the order; iteration then yields all objects in that order, \<open>l_find\<close> returns the oldest
  item with the key, and no item outside the list is changed.
\<close>

theorem l_add_ordered:
  assumes "l_rep l h xs" and "sorted (keys xs)" and "cells h a = None"
  shows "\<exists>l' h'. l_add (Some l) key (Some v) (Some a) h = Some (Some a, Some l', h') \<and>
    l_rep l' h' (l_insert (a, ucast key, v) xs) \<and> sorted (keys (l_insert (a, ucast key, v) xs)) \<and>
    l_size (Some l') = l_size (Some l) + 1 \<and>
    Option.bind (l_head (Some l') (Some None) h') (\<lambda>cur. l_walk cur h') =
      Some (map (\<lambda>x. snd (snd x)) (l_insert (a, ucast key, v) xs)) \<and>
    l_find (Some l') key (Some None) h' =
      (case dropWhile (\<lambda>x. fst (snd x) \<noteq> ucast key) xs of [] \<Rightarrow> Some (Some v, Some (Some a))
       | (b, k, w) # _ \<Rightarrow> Some (Some w, Some (Some b))) \<and>
    l_frame (l_insert (a, ucast key, v) xs) h h'"
proof -
  let ?ys = "l_insert (a, ucast key, v) xs"
  from l_add_rep [OF assms] obtain l' h' where add: "l_add (Some l) key (Some v) (Some a) h = Some (Some a, Some l', h')"
    and rep: "l_rep l' h' ?ys" and frame: "l_frame ?ys h h'"
    by blast
  have "length ?ys = Suc (length xs)"
    by (simp add: l_insert_def) (metis length_append takeWhile_dropWhile_id)
  then have "l_size (Some l') = l_size (Some l) + 1"
    using rep assms(1) by (simp add: l_size_def l_rep_def)
  with add rep frame l_insert_sorted [OF assms(2)] l_walk_rep [OF rep] l_find_rep [OF rep] l_insert_find [OF assms(2)]
  show ?thesis
    by (intro exI [of _ l'] exI [of _ h']) simp
qed


lemma l_one_rep: "l_rep \<lparr>l_cnt = 1, l_hd = Some 1, l_tl = Some 1\<rparr> (new_item 1 5 100 empty_heap) [(1, 5, 100)]"
  by (simp add: l_rep_def new_item_def)

theorem l_add_ordered_witness:
  "\<exists>l' h'. l_add (Some \<lparr>l_cnt = 1, l_hd = Some 1, l_tl = Some 1\<rparr>) 3 (Some 200) (Some 2) (new_item 1 5 100 empty_heap) =
      Some (Some 2, Some l', h') \<and> l_rep l' h' [(2, 3, 200), (1, 5, 100)]"
proof -
  have "cells (new_item 1 5 100 empty_heap) 2 = None"
    by (simp add: new_item_def empty_heap_def)
  from l_add_ordered [OF l_one_rep _ this, of 3 200] show ?thesis
    by (auto simp: l_insert_def)
qed

text \<open>
  \<open>l_remove\<close> takes exactly the given item out of a list, frees the item and its object, keeps the
  order of the others and leaves all memory outside the list alone; iteration yields the remaining
  objects.
\<close>

theorem l_remove_exact:
  assumes "l_rep l h (xs @ (a, k, v) # ys)" and "v \<in> objs h"
  shows "\<exists>l' h'. l_remove (Some l) (Some a) h = Some (Some l', h') \<and> l_rep l' h' (xs @ ys) \<and>
    l_size (Some l') = l_size (Some l) - 1 \<and> cells h' a = None \<and> objs h' = objs h - {v} \<and>
    l_frame (xs @ (a, k, v) # ys) h h' \<and>
    Option.bind (l_head (Some l') (Some None) h') (\<lambda>cur. l_walk cur h') = Some (map (\<lambda>x. snd (snd x)) (xs @ ys))"
proof -
  from l_remove_rep [OF assms] obtain l' h' where r: "l_remove (Some l) (Some a) h = Some (Some l', h')"
    "l_rep l' h' (xs @ ys)" "l_frame (xs @ (a, k, v) # ys) h h'" "objs h' = objs h - {v}" "cells h' a = None"
    by blast
  moreover have "l_size (Some l') = l_size (Some l) - 1"
    using r(2) assms(1) by (simp add: l_size_def l_rep_def)
  ultimately show ?thesis
    using l_walk_rep [OF r(2)] by blast
qed

theorem l_remove_exact_witness:
  "\<exists>l' h'. l_remove (Some \<lparr>l_cnt = 1, l_hd = Some 1, l_tl = Some 1\<rparr>) (Some 1) (new_item 1 5 100 empty_heap) =
      Some (Some l', h') \<and> l_rep l' h' [] \<and> objs h' = {200, 300}"
proof -
  have "100 \<in> objs (new_item 1 5 100 empty_heap)" "objs (new_item 1 5 100 empty_heap) - {100} = {200, 300}"
    by (auto simp: new_item_def empty_heap_def)
  with l_remove_exact [of _ _ "[]" 1 5 100 "[]"] l_one_rep show ?thesis
    by fastforce
qed

end
