(* ===== verification/Time_Utils.thy ===== *)
theory Time_Utils
  imports Rio_Prelude
begin

unbundle bit_operations_syntax

text \<open>
  Time arithmetic and time stamps, \<^verbatim>\<open>common/libtime_utils/src/time_utils.c\<close>, and the power-of-two
  rounding of \<^verbatim>\<open>common/libcli/src/math_util.c\<close>. The fields of a \<open>timespec\<close> are 64-bit signed numbers whose
  overflow C leaves undefined; they are integers here. Where the code computes in \<open>uint64_t\<close>
  (\<open>time_div\<close>, \<open>roundup_pw2\<close>) the model computes in 64-bit words. The clock and \<open>nanosleep\<close> belong to the
  operating system: the time read and the answers of \<open>nanosleep\<close> are arguments.
\<close>

section \<open>Data\<close>

record timespec =
  tv_sec :: int
  tv_nsec :: int

record seq_ts =
  max_idx :: int
  ts_idx :: int
  ts_val :: "timespec list"
  ts_mkr :: "int list"

abbreviation (input) MAX_TIMESTAMPS :: int where "MAX_TIMESTAMPS \<equiv> 4096"

definition zero_ts :: timespec where
  "zero_ts = \<lparr>tv_sec = 0, tv_nsec = 0\<rparr>"

definition no_lim :: timespec where
  "no_lim = \<lparr>tv_sec = 0xFFFFFFFF, tv_nsec = 0xFFFFFFFF\<rparr>"

section \<open>Time stamp sequences\<close>

definition init_seq_ts :: "seq_ts option \<Rightarrow> int \<Rightarrow> int \<times> seq_ts option" where
  "init_seq_ts ts max_ts =
     (case ts of None \<Rightarrow> (1, None)
      | Some t \<Rightarrow>
          if max_ts > MAX_TIMESTAMPS \<or> max_ts < 0 then (1, Some t)
          else (0, Some \<lparr>max_idx = max_ts, ts_idx = 0, ts_val = replicate (length (ts_val t)) zero_ts,
                         ts_mkr = replicate (length (ts_mkr t)) 0\<rparr>))"

definition ts_now :: "timespec \<Rightarrow> seq_ts option \<Rightarrow> seq_ts option" where
  "ts_now now ts =
     (case ts of None \<Rightarrow> None
      | Some t \<Rightarrow> Some (if ts_idx t < max_idx t
                       then t\<lparr>ts_val := (ts_val t)[nat (ts_idx t) := now], ts_idx := ts_idx t + 1\<rparr> else t))"

definition ts_now_mark :: "timespec \<Rightarrow> int \<Rightarrow> seq_ts option \<Rightarrow> seq_ts option" where
  "ts_now_mark now marker ts =
     (case ts of None \<Rightarrow> None
      | Some t \<Rightarrow> Some (if ts_idx t < max_idx t
                       then t\<lparr>ts_mkr := (ts_mkr t)[nat (ts_idx t) := marker],
                              ts_val := (ts_val t)[nat (ts_idx t) := now], ts_idx := ts_idx t + 1\<rparr> else t))"

section \<open>Arithmetic\<close>

definition time_difference :: "timespec \<Rightarrow> timespec \<Rightarrow> timespec" where
  "time_difference start end_t =
     (if tv_nsec end_t - tv_nsec start < 0
      then \<lparr>tv_sec = tv_sec end_t - tv_sec start - 1, tv_nsec = 1000000000 + tv_nsec end_t - tv_nsec start\<rparr>
      else \<lparr>tv_sec = tv_sec end_t - tv_sec start, tv_nsec = tv_nsec end_t - tv_nsec start\<rparr>)"

definition time_add :: "timespec \<Rightarrow> timespec \<Rightarrow> timespec" where
  "time_add start end_t =
     (let ns = tv_nsec start + tv_nsec end_t; s = tv_sec start + tv_sec end_t in
      if ns \<ge> 1000000000 then \<lparr>tv_sec = s + 1, tv_nsec = ns - 1000000000\<rparr> else \<lparr>tv_sec = s, tv_nsec = ns\<rparr>)"

text \<open>A zero divisor is a division by zero, which C leaves undefined: \<open>None\<close>.\<close>

definition time_div :: "timespec \<Rightarrow> u32 \<Rightarrow> timespec option" where
  "time_div t divisor =
     (if divisor = 0 then None
      else let one_bln = 1000000000 :: u64;
               time_nsec = (word_of_int (tv_nsec t) + word_of_int (tv_sec t) * one_bln) div ucast divisor
           in Some \<lparr>tv_sec = uint (time_nsec div one_bln), tv_nsec = uint (time_nsec mod one_bln)\<rparr>)"

record track =
  totaltime :: timespec
  mintime :: timespec
  maxtime :: timespec

text \<open>The comparisons of \<open>time_track_lim\<close>: seconds first, then nanoseconds.\<close>

definition ts_gt :: "timespec \<Rightarrow> timespec \<Rightarrow> bool" where
  "ts_gt a b \<longleftrightarrow> tv_sec a > tv_sec b \<or> tv_sec a = tv_sec b \<and> tv_nsec a > tv_nsec b"

definition time_track_lim :: "int \<Rightarrow> timespec \<Rightarrow> timespec \<Rightarrow> timespec \<Rightarrow> track \<Rightarrow> track" where
  "time_track_lim i lim starttime endtime t0 =
     (let dta = time_difference starttime endtime;
          t = (if i = 0 then \<lparr>totaltime = zero_ts, mintime = \<lparr>tv_sec = 0xFFFFFFFF, tv_nsec = 0xFFFFFFFF\<rparr>,
                              maxtime = zero_ts\<rparr>
               else t0)
      in if tv_sec dta < 0 \<or> tv_nsec dta < 0 then t
         else if ts_gt dta lim then t
         else if i \<noteq> 0 then
           \<lparr>totaltime = time_add (totaltime t) dta,
            mintime = (if ts_gt (mintime t) dta then dta else mintime t),
            maxtime = (if ts_gt dta (maxtime t) then dta else maxtime t)\<rparr>
         else \<lparr>totaltime = dta, mintime = dta, maxtime = dta\<rparr>)"

definition time_track :: "int \<Rightarrow> timespec \<Rightarrow> timespec \<Rightarrow> track \<Rightarrow> track" where
  "time_track i starttime endtime t = time_track_lim i no_lim starttime endtime t"

text \<open>
  \<open>time_sleep\<close> repeats \<open>nanosleep\<close> with the remaining time while it is interrupted. The answers of
  \<open>nanosleep\<close> are a list: whether it failed with \<open>EINTR\<close>, and the remaining time. The result is the list
  of the delays asked for, \<open>None\<close> if the list of answers ends before the loop does.
\<close>

fun time_sleep :: "timespec \<Rightarrow> (bool \<times> timespec) list \<Rightarrow> timespec list option" where
  "time_sleep dly [] = None"
| "time_sleep dly ((eintr, left) # as) =
     (if eintr then map_option (\<lambda>ds. dly # ds) (time_sleep left as) else Some [dly])"

text \<open>The loop of \<open>roundup_pw2\<close>; \<open>None\<close> would be a loop that does not end.\<close>

partial_function (option) pw2_loop :: "u64 \<Rightarrow> u64 \<Rightarrow> u64 option" where
  "pw2_loop v i = (if v > i then pw2_loop v (push_bit 1 i) else Some i)"

definition roundup_pw2 :: "u64 \<Rightarrow> u64 option" where
  "roundup_pw2 v =
     (if v = 0 then Some 0 else if v > 0x8000000000000000 then Some 0 else pw2_loop v 1)"

section \<open>Times as nanoseconds\<close>

definition ts_ns :: "timespec \<Rightarrow> int" where
  "ts_ns t = tv_sec t * 1000000000 + tv_nsec t"

definition ts_ok :: "timespec \<Rightarrow> bool" where
  "ts_ok t \<longleftrightarrow> 0 \<le> tv_nsec t \<and> tv_nsec t < 1000000000"

named_theorems ts_defs \<open>unfolding of time stamps to seconds and nanoseconds\<close>

lemmas [ts_defs] = ts_ns_def ts_ok_def time_difference_def time_add_def ts_gt_def zero_ts_def

lemma time_difference_ns:
  assumes "ts_ok a" and "ts_ok b"
  shows "ts_ok (time_difference a b) \<and> ts_ns (time_difference a b) = ts_ns b - ts_ns a"
  using assms by (auto simp: ts_defs)

lemma time_add_ns:
  assumes "ts_ok a" and "ts_ok b"
  shows "ts_ok (time_add a b) \<and> ts_ns (time_add a b) = ts_ns a + ts_ns b"
  using assms by (auto simp: ts_defs Let_def)

lemma ts_gt_ns: "ts_ok a \<Longrightarrow> ts_ok b \<Longrightarrow> ts_gt a b \<longleftrightarrow> ts_ns a > ts_ns b"
  by (auto simp: ts_defs)

lemma time_div_ns:
  assumes "ts_ok t" and "0 \<le> tv_sec t" and "ts_ns t < 2 ^ 64" and "d \<noteq> 0"
  shows "\<exists>q. time_div t d = Some q \<and> ts_ok q \<and> ts_ns q = ts_ns t div uint d"
proof -
  let ?w = "word_of_int (tv_nsec t) + word_of_int (tv_sec t) * 1000000000 :: u64"
  have nn: "0 \<le> ts_ns t"
    using assms(1,2) by (simp add: ts_defs)
  have "?w = word_of_int (ts_ns t)"
    by (simp add: ts_ns_def)
  then have w: "uint ?w = ts_ns t"
    using nn assms(3) by (simp add: uint_word_of_int)
  have d: "uint (ucast d :: u64) = uint d"
    by (simp add: unsigned_ucast_eq take_bit_int_eq_self_iff order.strict_trans [OF unsigned_less])
  define q where "q = ?w div ucast d"
  have "uint q = ts_ns t div uint d"
    by (simp only: q_def uint_div_distrib w d)
  then have "ts_ns \<lparr>tv_sec = uint (q div 1000000000), tv_nsec = uint (q mod 1000000000)\<rparr> = ts_ns t div uint d"
    by (simp add: ts_ns_def uint_div_distrib uint_mod_distrib)
  then show ?thesis
    using assms(4) by (simp add: time_div_def q_def [symmetric] ts_ok_def uint_mod_distrib)
qed


section \<open>Tracking a sequence of measurements\<close>

text \<open>How the callers use \<open>time_track_lim\<close>: the first measurement with index 0, then 1, 2 and so on.\<close>

fun track_from :: "timespec \<Rightarrow> int \<Rightarrow> (timespec \<times> timespec) list \<Rightarrow> track \<Rightarrow> track" where
  "track_from lim i [] t = t"
| "track_from lim i ((s, e) # xs) t = track_from lim (i + 1) xs (time_track_lim i lim s e t)"

text \<open>The measurements that count: not negative and not above the limit.\<close>

definition kept :: "timespec \<Rightarrow> timespec \<times> timespec \<Rightarrow> bool" where
  "kept lim x \<longleftrightarrow> ts_ns (fst x) \<le> ts_ns (snd x) \<and> \<not> ts_gt (time_difference (fst x) (snd x)) lim"

definition durations :: "timespec \<Rightarrow> (timespec \<times> timespec) list \<Rightarrow> int list" where
  "durations lim xs = map (\<lambda>x. ts_ns (snd x) - ts_ns (fst x)) (filter (kept lim) xs)"

definition track_ok :: "int list \<Rightarrow> track \<Rightarrow> bool" where
  "track_ok ds t \<longleftrightarrow>
     ts_ok (totaltime t) \<and> ts_ok (maxtime t) \<and> ts_ns (totaltime t) = sum_list ds \<and>
     ts_ns (maxtime t) = Max (insert 0 (set ds)) \<and>
     (if ds = [] then mintime t = \<lparr>tv_sec = 0xFFFFFFFF, tv_nsec = 0xFFFFFFFF\<rparr>
      else ts_ok (mintime t) \<and> ts_ns (mintime t) = Min (set ds))"

lemma kept_dta:
  assumes "ts_ok s" and "ts_ok e"
  shows "kept lim (s, e) \<longleftrightarrow> \<not> (tv_sec (time_difference s e) < 0 \<or> tv_nsec (time_difference s e) < 0) \<and>
     \<not> ts_gt (time_difference s e) lim"
proof -
  have "ts_ok (time_difference s e)" "ts_ns (time_difference s e) = ts_ns e - ts_ns s"
    using time_difference_ns [OF assms] by auto
  then have "ts_ns s \<le> ts_ns e \<longleftrightarrow> \<not> (tv_sec (time_difference s e) < 0 \<or> tv_nsec (time_difference s e) < 0)"
    by (auto simp: ts_ns_def ts_ok_def)
  then show ?thesis
    by (simp add: kept_def)
qed

lemma track_first:
  assumes "ts_ok s" and "ts_ok e"
  shows "track_ok (durations lim [(s, e)]) (time_track_lim 0 lim s e t)"
proof (cases "kept lim (s, e)")
  case True
  then have "time_track_lim 0 lim s e t =
      \<lparr>totaltime = time_difference s e, mintime = time_difference s e, maxtime = time_difference s e\<rparr>"
    using kept_dta [OF assms] by (simp add: time_track_lim_def Let_def)
  with True time_difference_ns [OF assms] show ?thesis
    by (simp add: track_ok_def durations_def kept_def)
next
  case False
  then have "time_track_lim 0 lim s e t =
      \<lparr>totaltime = zero_ts, mintime = \<lparr>tv_sec = 0xFFFFFFFF, tv_nsec = 0xFFFFFFFF\<rparr>, maxtime = zero_ts\<rparr>"
    using kept_dta [OF assms] by (auto simp: time_track_lim_def Let_def)
  with False show ?thesis
    by (simp add: track_ok_def durations_def ts_defs)
qed

lemma sentinel_gt:
  assumes "ts_ok d" and "\<not> ts_gt d lim" and "tv_sec lim \<le> 0xFFFFFFFF"
  shows "ts_gt \<lparr>tv_sec = 0xFFFFFFFF, tv_nsec = 0xFFFFFFFF\<rparr> d"
  using assms by (auto simp: ts_gt_def ts_ok_def)

lemma Max_snoc: "Max (insert (0 :: int) (set (ds @ [d]))) = max d (Max (insert 0 (set ds)))"
  by (simp add: insert_commute [of 0 d])

lemma track_next:
  assumes "ts_ok s" and "ts_ok e" and "i \<noteq> 0" and "tv_sec lim \<le> 0xFFFFFFFF" and "track_ok ds t"
  shows "track_ok (ds @ durations lim [(s, e)]) (time_track_lim i lim s e t)"
proof (cases "kept lim (s, e)")
  case True
  let ?d = "time_difference s e"
  have d: "ts_ok ?d" "ts_ns ?d = ts_ns e - ts_ns s" "0 \<le> ts_ns e - ts_ns s" "\<not> ts_gt ?d lim"
    using time_difference_ns [OF assms(1,2)] True by (auto simp: kept_def)
  have run: "time_track_lim i lim s e t =
     \<lparr>totaltime = time_add (totaltime t) ?d, mintime = (if ts_gt (mintime t) ?d then ?d else mintime t),
      maxtime = (if ts_gt ?d (maxtime t) then ?d else maxtime t)\<rparr>"
    using kept_dta [OF assms(1,2)] True assms(3) by (simp add: time_track_lim_def Let_def)
  have tot: "ts_ok (totaltime t)" "ts_ok (maxtime t)" "ts_ns (totaltime t) = sum_list ds"
    "ts_ns (maxtime t) = Max (insert 0 (set ds))"
    using assms(5) by (auto simp: track_ok_def)
  have "ts_ns (if ts_gt ?d (maxtime t) then ?d else maxtime t) = Max (insert 0 (set (ds @ [ts_ns e - ts_ns s])))"
    unfolding Max_snoc tot(4) [symmetric] using ts_gt_ns [OF d(1) tot(2)] d(2) by (simp add: max_def)
  moreover have "ts_ok (if ts_gt (mintime t) ?d then ?d else mintime t) \<and>
      ts_ns (if ts_gt (mintime t) ?d then ?d else mintime t) = Min (set (ds @ [ts_ns e - ts_ns s]))"
  proof (cases "ds = []")
    case True
    with assms(5) have "mintime t = \<lparr>tv_sec = 0xFFFFFFFF, tv_nsec = 0xFFFFFFFF\<rparr>"
      by (simp add: track_ok_def)
    with sentinel_gt [OF d(1,4) assms(4)] d True show ?thesis
      by simp
  next
    case False
    with assms(5) have "ts_ok (mintime t)" "ts_ns (mintime t) = Min (set ds)"
      by (auto simp: track_ok_def)
    moreover have "Min (set (ds @ [ts_ns e - ts_ns s])) = min (ts_ns e - ts_ns s) (Min (set ds))"
      using False by simp
    ultimately show ?thesis
      using d ts_gt_ns [of "mintime t" ?d] by (simp only: min_def) simp
  qed
  ultimately show ?thesis
    using True tot d time_add_ns [OF tot(1) d(1)] by (simp add: run track_ok_def durations_def)
next
  case False
  then have "time_track_lim i lim s e t = t"
    using kept_dta [OF assms(1,2)] assms(3) by (auto simp: time_track_lim_def Let_def)
  with False assms(5) show ?thesis
    by (simp add: durations_def)
qed

lemma durations_Cons: "durations lim (x # xs) = durations lim [x] @ durations lim xs"
  by (simp add: durations_def)

lemma track_from_ok:
  assumes "\<forall>x\<in>set xs. ts_ok (fst x) \<and> ts_ok (snd x)" and "0 < i" and "tv_sec lim \<le> 0xFFFFFFFF" and "track_ok ds t"
  shows "track_ok (ds @ durations lim xs) (track_from lim i xs t)"
  using assms
proof (induction xs arbitrary: ds i t)
  case (Cons x xs)
  obtain s e where x: "x = (s, e)"
    by (cases x)
  have "track_ok (ds @ durations lim [(s, e)]) (time_track_lim i lim s e t)"
    using Cons.prems by (intro track_next) (auto simp: x)
  from Cons.IH [OF _ _ _ this, of "i + 1"] Cons.prems show ?case
    by (simp add: x durations_Cons [of lim "(s, e)" xs])
qed (simp add: durations_def)


section \<open>Rounding up to a power of two\<close>

lemma push_bit_1_double: "push_bit 1 (i :: u64) = 2 * i"
  by (simp add: push_bit_eq_mult)

lemma pw2_loop_ok:
  assumes "n \<le> 63" and "unat v \<le> 2 ^ 63" and "\<forall>m<n. 2 ^ m < unat v"
  shows "\<exists>k. pw2_loop v (of_nat (2 ^ n)) = Some (of_nat (2 ^ k)) \<and> n \<le> k \<and> k \<le> 63 \<and> unat v \<le> 2 ^ k \<and>
     (\<forall>m<k. 2 ^ m < unat v)"
  using assms
proof (induction "63 - n" arbitrary: n)
  case (0 n)
  then have n: "n = 63"
    by simp
  with 0 have "\<not> v > of_nat (2 ^ n)"
    by (simp add: word_less_nat_alt)
  with 0 n show ?case
    by (subst pw2_loop.simps) (auto intro!: exI [of _ 63])
next
  case (Suc x n)
  then have n: "n < 63"
    by simp
  then have "(2::nat) ^ n < 2 ^ 64"
    by (intro power_strict_increasing) auto
  then have un: "unat (of_nat (2 ^ n) :: u64) = 2 ^ n"
    by (simp only: unat_of_nat) simp
  show ?case
  proof (cases "v > of_nat (2 ^ n)")
    case True
    have "\<forall>m<Suc n. 2 ^ m < unat v"
      using Suc.prems(3) True un by (auto simp: less_Suc_eq word_less_nat_alt)
    moreover have "x = 63 - Suc n"
      using Suc.hyps(2) by simp
    ultimately obtain k where "pw2_loop v (of_nat (2 ^ Suc n)) = Some (of_nat (2 ^ k))" "Suc n \<le> k" "k \<le> 63"
      "unat v \<le> 2 ^ k" "\<forall>m<k. 2 ^ m < unat v"
      using Suc.hyps(1) [of "Suc n"] Suc.prems(2) n by auto
    moreover have "push_bit 1 (of_nat (2 ^ n) :: u64) = of_nat (2 ^ Suc n)"
      by (simp add: push_bit_1_double)
    ultimately have "pw2_loop v (of_nat (2 ^ n)) = Some (of_nat (2 ^ k))"
      using True by (subst pw2_loop.simps) (simp only: if_True)
    with \<open>Suc n \<le> k\<close> \<open>k \<le> 63\<close> \<open>unat v \<le> 2 ^ k\<close> \<open>\<forall>m<k. 2 ^ m < unat v\<close> show ?thesis
      by (intro exI [of _ k]) simp
  next
    case False
    then have "unat v \<le> 2 ^ n"
      using un by (simp add: word_less_nat_alt)
    with False Suc.prems show ?thesis
      by (subst pw2_loop.simps) auto
  qed
qed

section \<open>Properties\<close>

text \<open>
  C37. Normalised times behave as numbers of nanoseconds: differences, sums and quotients are
  normalised again and are the differences, sums and quotients of the nanosecond values, as long as the
  dividend fits in 64 bits.
\<close>

theorem time_arithmetic:
  assumes "ts_ok a" and "ts_ok b"
  shows "ts_ok (time_difference a b) \<and> ts_ns (time_difference a b) = ts_ns b - ts_ns a \<and>
    ts_ok (time_add a b) \<and> ts_ns (time_add a b) = ts_ns a + ts_ns b \<and>
    (\<forall>d. 0 \<le> tv_sec a \<and> ts_ns a < 2 ^ 64 \<and> d \<noteq> 0 \<longrightarrow>
       (\<exists>q. time_div a d = Some q \<and> ts_ok q \<and> ts_ns q = ts_ns a div uint d))"
  using time_difference_ns [OF assms] time_add_ns [OF assms] time_div_ns [OF assms(1)] by blast

theorem time_arithmetic_witness:
  "ts_ns (time_difference \<lparr>tv_sec = 1, tv_nsec = 900000000\<rparr> \<lparr>tv_sec = 3, tv_nsec = 100000000\<rparr>) = 1200000000 \<and>
   (\<exists>q. time_div \<lparr>tv_sec = 1, tv_nsec = 900000000\<rparr> 2 = Some q \<and> ts_ns q = 950000000)"
proof -
  have ok: "ts_ok \<lparr>tv_sec = 1, tv_nsec = 900000000\<rparr>" "ts_ok \<lparr>tv_sec = 3, tv_nsec = 100000000\<rparr>"
    by (simp_all add: ts_ok_def)
  from time_arithmetic [OF ok] show ?thesis
    by (auto simp: ts_ns_def dest: spec [of _ 2])
qed

text \<open>
  Tracking a sequence of measurements, the first with index 0, accumulates exactly the ones that
  are neither negative nor above the limit: the total is their sum, the maximum their maximum, and the
  minimum their minimum once there is one.
\<close>

theorem time_track_stats:
  assumes "\<forall>x\<in>set ((s, e) # xs). ts_ok (fst x) \<and> ts_ok (snd x)" and "tv_sec lim \<le> 0xFFFFFFFF"
    and "ds = durations lim ((s, e) # xs)" and "r = track_from lim 0 ((s, e) # xs) t"
  shows "ts_ns (totaltime r) = sum_list ds \<and> ts_ns (maxtime r) = Max (insert 0 (set ds)) \<and>
    (ds \<noteq> [] \<longrightarrow> ts_ns (mintime r) = Min (set ds))"
proof -
  have "track_ok (durations lim [(s, e)] @ durations lim xs) r"
    using assms(1,2) track_first [of s e lim t] by (simp add: assms(4) track_from_ok)
  then have "track_ok ds r"
    by (simp add: assms(3) durations_Cons [of lim "(s, e)" xs])
  then show ?thesis
    by (auto simp: track_ok_def split: if_splits)
qed

theorem time_track_stats_witness:
  "ts_ns (mintime (time_track 1 zero_ts \<lparr>tv_sec = 2, tv_nsec = 0\<rparr> (time_track 0 zero_ts \<lparr>tv_sec = 3, tv_nsec = 5\<rparr>
      \<lparr>totaltime = zero_ts, mintime = zero_ts, maxtime = zero_ts\<rparr>))) = 2000000000"
  using time_track_stats [of zero_ts "\<lparr>tv_sec = 3, tv_nsec = 5\<rparr>" "[(zero_ts, \<lparr>tv_sec = 2, tv_nsec = 0\<rparr>)]" no_lim _ _
      "\<lparr>totaltime = zero_ts, mintime = zero_ts, maxtime = zero_ts\<rparr>"]
  by (simp add: time_track_def no_lim_def durations_def kept_def ts_defs)

text \<open>
  C38. \<open>roundup_pw2\<close> always ends; for a positive argument of at most 2^63 it returns the least power of
  two that is not smaller, and 0 for all others.
\<close>

theorem roundup_pw2_least:
  "(\<exists>r. roundup_pw2 v = Some r) \<and> roundup_pw2 0 = Some 0 \<and>
   (if 0 < v \<and> v \<le> 0x8000000000000000
    then \<exists>k\<le>63. roundup_pw2 v = Some (of_nat (2 ^ k)) \<and> unat v \<le> 2 ^ k \<and> (\<forall>m. 2 ^ m < unat v \<longleftrightarrow> m < k)
    else roundup_pw2 v = Some 0)"
proof (cases "0 < v \<and> v \<le> 0x8000000000000000")
  case True
  then have "unat v \<le> 2 ^ 63"
    by (simp add: word_le_nat_alt)
  with pw2_loop_ok [of 0 v] obtain k where k: "pw2_loop v 1 = Some (of_nat (2 ^ k))" "k \<le> 63" "unat v \<le> 2 ^ k"
    "\<forall>m<k. 2 ^ m < unat v"
    by auto
  moreover have "\<not> 2 ^ m < unat v" if "k \<le> m" for m
    using k(3) that power_increasing [of k m "2 :: nat"] by linarith
  ultimately have "\<forall>m. 2 ^ m < unat v \<longleftrightarrow> m < k"
    using not_le by blast
  with k True show ?thesis
    by (auto simp: roundup_pw2_def)
next
  case False
  then show ?thesis
    by (auto simp: roundup_pw2_def not_le word_gt_0)
qed

definition ts_inv :: "seq_ts \<Rightarrow> bool" where
  "ts_inv t \<longleftrightarrow> 0 \<le> ts_idx t \<and> ts_idx t \<le> max_idx t \<and> max_idx t \<le> 4096 \<and>
     length (ts_val t) = 4096 \<and> length (ts_mkr t) = 4096"

text \<open>A call of \<open>ts_now\<close>, or of \<open>ts_now_mark\<close> when there is a marker.\<close>

definition ts_call :: "timespec \<times> int option \<Rightarrow> seq_ts \<Rightarrow> seq_ts" where
  "ts_call c t = the (case snd c of None \<Rightarrow> ts_now (fst c) (Some t) | Some m \<Rightarrow> ts_now_mark (fst c) m (Some t))"

lemma ts_call_ok:
  assumes "ts_inv t"
  shows "ts_inv (ts_call c t) \<and> max_idx (ts_call c t) = max_idx t \<and>
    (if ts_idx t < max_idx t
     then ts_idx (ts_call c t) = ts_idx t + 1 \<and> ts_val (ts_call c t) = (ts_val t)[nat (ts_idx t) := fst c]
     else ts_call c t = t)"
  using assms by (auto simp: ts_call_def ts_now_def ts_now_mark_def ts_inv_def split: option.splits)

lemma ts_calls_ok:
  assumes "ts_inv t"
  shows "ts_inv (fold ts_call cs t) \<and> max_idx (fold ts_call cs t) = max_idx t \<and>
    ts_idx (fold ts_call cs t) = min (max_idx t) (ts_idx t + int (length cs)) \<and>
    take (nat (ts_idx (fold ts_call cs t))) (ts_val (fold ts_call cs t)) =
      take (nat (ts_idx t)) (ts_val t) @ take (nat (max_idx t - ts_idx t)) (map fst cs)"
  using assms
proof (induction cs arbitrary: t)
  case Nil
  then show ?case
    by (simp add: ts_inv_def)
next
  case (Cons c cs)
  note step = ts_call_ok [OF Cons.prems, of c]
  then have inv: "ts_inv (ts_call c t)" "max_idx (ts_call c t) = max_idx t"
    by auto
  show ?case
  proof (cases "ts_idx t < max_idx t")
    case True
    with step have s: "ts_idx (ts_call c t) = ts_idx t + 1" "ts_val (ts_call c t) = (ts_val t)[nat (ts_idx t) := fst c]"
      by auto
    have n: "nat (ts_idx t + 1) = Suc (nat (ts_idx t))" "nat (ts_idx t) < length (ts_val t)"
      "nat (max_idx t - ts_idx t) = Suc (nat (max_idx t - (ts_idx t + 1)))"
      using Cons.prems True by (auto simp: ts_inv_def nat_add_distrib)
    have upd: "take (nat (ts_idx t + 1)) (ts_val (ts_call c t)) = take (nat (ts_idx t)) (ts_val t) @ [fst c]"
      using n(2) by (simp add: n(1) s(2) take_Suc_conv_app_nth)
    from Cons.IH [OF inv(1)] upd show ?thesis
      by (auto simp: s(1) inv(2) n(3))
  next
    case False
    with step have "ts_call c t = t"
      by auto
    with Cons.IH [OF Cons.prems] False Cons.prems show ?thesis
      by (auto simp: ts_inv_def)
  qed
qed

text \<open>
  Recording time stamps never leaves the arrays: after a successful \<open>init_seq_ts\<close>, any number of
  \<open>ts_now\<close> and \<open>ts_now_mark\<close> calls store the first \<open>max_ts\<close> of them in order and ignore the rest.
\<close>

theorem ts_recorded:
  assumes "init_seq_ts (Some t0) max_ts = (0, Some t)" and "length (ts_val t0) = 4096" and "length (ts_mkr t0) = 4096"
  shows "ts_inv (fold ts_call cs t) \<and>
    take (nat (ts_idx (fold ts_call cs t))) (ts_val (fold ts_call cs t)) = take (nat max_ts) (map fst cs) \<and>
    ts_idx (fold ts_call cs t) = min max_ts (int (length cs))"
proof -
  have t: "ts_inv t" "max_idx t = max_ts" "ts_idx t = 0"
    using assms by (auto simp: init_seq_ts_def ts_inv_def split: if_splits)
  from ts_calls_ok [OF t(1), of cs] show ?thesis
    by (auto simp: t(2,3))
qed

theorem ts_recorded_witness:
  "\<exists>t. init_seq_ts (Some \<lparr>max_idx = 0, ts_idx = 9, ts_val = replicate 4096 no_lim, ts_mkr = replicate 4096 7\<rparr>) 1 = (0, Some t) \<and>
     ts_idx (fold ts_call [(zero_ts, None), (no_lim, Some 3)] t) = 1"
proof -
  obtain t where i: "init_seq_ts (Some \<lparr>max_idx = 0, ts_idx = 9, ts_val = replicate 4096 no_lim, ts_mkr = replicate 4096 7\<rparr>) 1 = (0, Some t)"
    by (simp add: init_seq_ts_def)
  from ts_recorded [OF i, of "[(zero_ts, None), (no_lim, Some 3)]"] i show ?thesis
    by auto
qed

end
