(* ===== verification/Tok_Parse.thy ===== *)
theory Tok_Parse
  imports Rio_Did
begin

text \<open>
  Conversion of command line tokens to numbers, \<^verbatim>\<open>common/libcli/src/tok_parse.c\<close>. The functions rest on
  \<open>strtoull\<close> and \<open>strtoll\<close> of the C library, which the first section models as the C standard describes
  them: white space, a sign, the prefixes of base 0 and 16, digits, saturation with \<open>ERANGE\<close> and negation
  modulo 2^64. A token is the list of its characters before the terminating zero. Every function
  returns its result code, the value it leaves in \<open>errno\<close>, and the content of its out-parameter.
\<close>

section \<open>The conversion functions of the C library\<close>

definition char_code :: "char \<Rightarrow> nat" where
  "char_code c = of_char c"

definition is_space :: "char \<Rightarrow> bool" where
  "is_space c \<longleftrightarrow> char_code c = 32 \<or> 9 \<le> char_code c \<and> char_code c \<le> 13"

definition digit_of :: "char \<Rightarrow> nat option" where
  "digit_of c =
     (let n = char_code c in
      if 48 \<le> n \<and> n \<le> 57 then Some (n - 48)
      else if 65 \<le> n \<and> n \<le> 90 then Some (n - 55)
      else if 97 \<le> n \<and> n \<le> 122 then Some (n - 87)
      else None)"

definition is_digit :: "nat \<Rightarrow> char \<Rightarrow> bool" where
  "is_digit base c \<longleftrightarrow> (case digit_of c of None \<Rightarrow> False | Some d \<Rightarrow> d < base)"

definition digits_val :: "nat \<Rightarrow> string \<Rightarrow> nat" where
  "digits_val base s = foldl (\<lambda>a c. a * base + the (digit_of c)) 0 s"

definition split_sign :: "string \<Rightarrow> bool \<times> string" where
  "split_sign s =
     (case s of [] \<Rightarrow> (False, [])
      | c # cs \<Rightarrow> if c = CHR ''-'' then (True, cs) else if c = CHR ''+'' then (False, cs) else (False, s))"

text \<open>\<^verbatim>\<open>0x\<close> or \<^verbatim>\<open>0X\<close> followed by a hexadecimal digit.\<close>

definition hex_prefix :: "string \<Rightarrow> bool" where
  "hex_prefix s =
     (case s of z # x # d # _ \<Rightarrow> z = CHR ''0'' \<and> (x = CHR ''x'' \<or> x = CHR ''X'') \<and> is_digit 16 d | _ \<Rightarrow> False)"

definition split_base :: "int \<Rightarrow> string \<Rightarrow> nat \<times> string" where
  "split_base base s =
     (if base = 0 then
        if hex_prefix s then (16, drop 2 s)
        else (case s of c # _ \<Rightarrow> if c = CHR ''0'' then (8, s) else (10, s) | [] \<Rightarrow> (10, s))
      else if base = 16 \<and> hex_prefix s then (16, drop 2 s)
      else (nat base, s))"

text \<open>The common part: the sign, the magnitude and the unread rest; \<open>None\<close> when there is nothing to convert.\<close>

definition strto_scan :: "int \<Rightarrow> string \<Rightarrow> (bool \<times> nat \<times> string) option" where
  "strto_scan base s =
     (case split_sign (dropWhile is_space s) of
        (neg, s1) \<Rightarrow>
          (case split_base base s1 of
             (b, s2) \<Rightarrow>
               (let ds = takeWhile (is_digit b) s2 in
                if ds = [] then None else Some (neg, digits_val b ds, dropWhile (is_digit b) s2))))"

definition base_ok :: "int \<Rightarrow> bool" where
  "base_ok base \<longleftrightarrow> base = 0 \<or> 2 \<le> base \<and> base \<le> 36"

text \<open>
  The results are the value, \<open>errno\<close> and where \<open>end\<close> points: \<open>None\<close> for the start of the token or
  unset, otherwise the unread rest.
\<close>

definition strtoull :: "string \<Rightarrow> int \<Rightarrow> u64 \<times> int \<times> string option" where
  "strtoull s base =
     (if \<not> base_ok base then (0, EINVAL, None)
      else case strto_scan base s of
        None \<Rightarrow> (0, 0, None)
      | Some (neg, n, rest) \<Rightarrow>
          if n > 18446744073709551615 then (- 1, ERANGE, Some rest)
          else (if neg then - of_nat n else of_nat n, 0, Some rest))"

definition strtoll :: "string \<Rightarrow> int \<Rightarrow> int \<times> int \<times> string option" where
  "strtoll s base =
     (if \<not> base_ok base then (0, EINVAL, None)
      else case strto_scan base s of
        None \<Rightarrow> (0, 0, None)
      | Some (neg, n, rest) \<Rightarrow>
          (let v = (if neg then - int n else int n) in
           if v > 9223372036854775807 then (9223372036854775807, ERANGE, Some rest)
           else if v < - 9223372036854775808 then (- 9223372036854775808, ERANGE, Some rest)
           else (v, 0, Some rest)))"

section \<open>Parsers of a bounded number\<close>

definition tok_parse_ulonglong :: "string option \<Rightarrow> u64 option \<Rightarrow> u64 \<Rightarrow> u64 \<Rightarrow> int \<Rightarrow> int \<times> int \<times> u64 option" where
  "tok_parse_ulonglong token v mn mx base =
     (case (token, v) of
        (Some s, Some _) \<Rightarrow>
          (case strtoull s base of
             (data, err, rest) \<Rightarrow>
               if err \<noteq> 0 then (- 1, err, Some 0)
               else if rest \<noteq> Some [] then (- 1, EINVAL, Some 0)
               else if data < mn \<or> data > mx then (- 1, ERANGE, Some 0)
               else (0, 0, Some data))
      | _ \<Rightarrow> (- 1, EINVAL, map_option (\<lambda>_. 0) v))"

text \<open>Signed 64-bit values are integers; every caller passes bounds of the type.\<close>

definition tok_parse_longlong :: "string option \<Rightarrow> int option \<Rightarrow> int \<Rightarrow> int \<Rightarrow> int \<Rightarrow> int \<times> int \<times> int option" where
  "tok_parse_longlong token v mn mx base =
     (case (token, v) of
        (Some s, Some _) \<Rightarrow>
          (case strtoll s base of
             (data, err, rest) \<Rightarrow>
               if err \<noteq> 0 then (- 1, err, Some 0)
               else if rest \<noteq> Some [] then (- 1, EINVAL, Some 0)
               else if data < mn \<or> data > mx then (- 1, ERANGE, Some 0)
               else (0, 0, Some data))
      | _ \<Rightarrow> (- 1, EINVAL, map_option (\<lambda>_. 0) v))"

text \<open>
  The shape most functions of the file have: reject a null out-parameter, parse into a 64-bit local
  variable, store it truncated to the width of the out-parameter.
\<close>

definition parse_into :: "string option \<Rightarrow> 'a::len word option \<Rightarrow> u64 \<Rightarrow> u64 \<Rightarrow> int \<Rightarrow> int \<times> int \<times> 'a word option" where
  "parse_into token v mn mx base =
     (case v of None \<Rightarrow> (- 1, EINVAL, None)
      | Some _ \<Rightarrow>
         (case tok_parse_ulonglong token (Some 0) mn mx base of
            (rc, err, data) \<Rightarrow> (rc, err, Some (ucast (the data)))))"

text \<open>The same for signed values, truncated to \<open>w\<close> bits in two's complement.\<close>

definition to_signed :: "nat \<Rightarrow> int \<Rightarrow> int" where
  "to_signed w x = (x + 2 ^ (w - 1)) mod 2 ^ w - 2 ^ (w - 1)"

definition parse_signed_into :: "nat \<Rightarrow> string option \<Rightarrow> int option \<Rightarrow> int \<Rightarrow> int \<Rightarrow> int \<Rightarrow> int \<times> int \<times> int option" where
  "parse_signed_into w token v mn mx base =
     (case v of None \<Rightarrow> (- 1, EINVAL, None)
      | Some _ \<Rightarrow>
         (case tok_parse_longlong token (Some 0) mn mx base of
            (rc, err, data) \<Rightarrow> (rc, err, Some (to_signed w (the data)))))"

definition tok_parse_ulong :: "string option \<Rightarrow> u32 option \<Rightarrow> u32 \<Rightarrow> u32 \<Rightarrow> int \<Rightarrow> int \<times> int \<times> u32 option" where
  "tok_parse_ulong token v mn mx base = parse_into token v (ucast mn) (ucast mx) base"

definition tok_parse_ushort :: "string option \<Rightarrow> u16 option \<Rightarrow> u16 \<Rightarrow> u16 \<Rightarrow> int \<Rightarrow> int \<times> int \<times> u16 option" where
  "tok_parse_ushort token v mn mx base = parse_into token v (ucast mn) (ucast mx) base"

definition tok_parse_long :: "string option \<Rightarrow> int option \<Rightarrow> int \<Rightarrow> int \<Rightarrow> int \<Rightarrow> int \<times> int \<times> int option" where
  "tok_parse_long token v mn mx base = parse_signed_into 32 token v mn mx base"

definition tok_parse_short :: "string option \<Rightarrow> int option \<Rightarrow> int \<Rightarrow> int \<Rightarrow> int \<Rightarrow> int \<times> int \<times> int option" where
  "tok_parse_short token v mn mx base = parse_signed_into 16 token v mn mx base"

definition tok_parse_ull :: "string option \<Rightarrow> u64 option \<Rightarrow> int \<Rightarrow> int \<times> int \<times> u64 option" where
  "tok_parse_ull token v base = tok_parse_ulonglong token v 0 0xFFFFFFFFFFFFFFFF base"

definition tok_parse_ul :: "string option \<Rightarrow> u32 option \<Rightarrow> int \<Rightarrow> int \<times> int \<times> u32 option" where
  "tok_parse_ul token v base = parse_into token v 0 0xFFFFFFFF base"

definition tok_parse_us :: "string option \<Rightarrow> u16 option \<Rightarrow> int \<Rightarrow> int \<times> int \<times> u16 option" where
  "tok_parse_us token v base = parse_into token v 0 0xFFFF base"

definition tok_parse_ll :: "string option \<Rightarrow> int option \<Rightarrow> int \<Rightarrow> int \<times> int \<times> int option" where
  "tok_parse_ll token v base = tok_parse_longlong token v (- 9223372036854775808) 9223372036854775807 base"

definition tok_parse_l :: "string option \<Rightarrow> int option \<Rightarrow> int \<Rightarrow> int \<times> int \<times> int option" where
  "tok_parse_l token v base = parse_signed_into 32 token v (- 2147483648) 2147483647 base"

definition tok_parse_s :: "string option \<Rightarrow> int option \<Rightarrow> int \<Rightarrow> int \<times> int \<times> int option" where
  "tok_parse_s token v base = parse_signed_into 16 token v (- 32768) 32767 base"

section \<open>Parsers of RapidIO quantities\<close>

abbreviation (input) HC_MP :: u64 where "HC_MP \<equiv> 0xFF"
abbreviation (input) RIO_MAX_MPORTS :: u64 where "RIO_MAX_MPORTS \<equiv> 8"
abbreviation (input) RDMA_LL_OFF :: u64 where "RDMA_LL_OFF \<equiv> 1"
abbreviation (input) RDMA_LL_DBG :: u64 where "RDMA_LL_DBG \<equiv> 7"
abbreviation (input) RIO_MAX_DEV_PORT :: u64 where "RIO_MAX_DEV_PORT \<equiv> 24"

definition tok_parse_did :: "string option \<Rightarrow> u32 option \<Rightarrow> int \<Rightarrow> int \<times> int \<times> u32 option" where
  "tok_parse_did token did base = parse_into token did 0 (ucast RIO_LAST_DEV16) base"

definition tok_parse_did_sz :: "string option \<Rightarrow> did_sz_t option \<Rightarrow> int \<Rightarrow> int \<times> int \<times> did_sz_t option" where
  "tok_parse_did_sz token did_sz base =
     (case did_sz of None \<Rightarrow> (- 1, EINVAL, None)
      | Some _ \<Rightarrow>
         (case tok_parse_us token (Some 0) base of
            (rc, err, v) \<Rightarrow>
              if rc \<noteq> 0 then (- 1, EINVAL, Some invld_sz)
              else if the v = 8 then (0, err, Some dev08_sz)
              else if the v = 16 then (0, err, Some dev16_sz)
              else if the v = 32 then (0, err, Some dev32_sz)
              else (- 1, EINVAL, Some invld_sz)))"

definition tok_parse_ct :: "string option \<Rightarrow> u32 option \<Rightarrow> int \<Rightarrow> int \<times> int \<times> u32 option" where
  "tok_parse_ct token ct base = parse_into token ct 0 0xFFFFFFFF base"

definition tok_parse_hc :: "string option \<Rightarrow> u8 option \<Rightarrow> int \<Rightarrow> int \<times> int \<times> u8 option" where
  "tok_parse_hc token hc base = parse_into token hc 0 HC_MP base"

definition tok_parse_mport_id :: "string option \<Rightarrow> u32 option \<Rightarrow> int \<Rightarrow> int \<times> int \<times> u32 option" where
  "tok_parse_mport_id token mport_id base = parse_into token mport_id 0 (RIO_MAX_MPORTS - 1) base"

definition tok_parse_log_level :: "string option \<Rightarrow> u32 option \<Rightarrow> int \<Rightarrow> int \<times> int \<times> u32 option" where
  "tok_parse_log_level token level base = parse_into token level RDMA_LL_OFF RDMA_LL_DBG base"

definition tok_parse_socket :: "string option \<Rightarrow> u16 option \<Rightarrow> int \<Rightarrow> int \<times> int \<times> u16 option" where
  "tok_parse_socket token socket base = parse_into token socket 1 0xFFFF base"


definition tok_parse_port_num :: "string option \<Rightarrow> u32 option \<Rightarrow> int \<Rightarrow> int \<times> int \<times> u32 option" where
  "tok_parse_port_num token port_num base = parse_into token port_num 0 (RIO_MAX_DEV_PORT - 1) base"

section \<open>Printing numbers, the inverse of scanning\<close>

definition digit_char :: "nat \<Rightarrow> char" where
  "digit_char d = char_of (if d < 10 then 48 + d else 87 + d)"

function num_str :: "nat \<Rightarrow> nat \<Rightarrow> string" where
  "num_str b n = (if b < 2 \<or> n < b then [digit_char n] else num_str b (n div b) @ [digit_char (n mod b)])"
  by pat_completeness auto
termination
  by (relation "measure snd") (auto intro: div_less_dividend)

declare num_str.simps [simp del]

lemma digit_of_char [simp]: "d < 36 \<Longrightarrow> digit_of (digit_char d) = Some d"
  by (auto simp: digit_of_def digit_char_def char_code_def Let_def)

lemma digit_not_space: "d < 36 \<Longrightarrow> \<not> is_space (digit_char d)"
  by (auto simp: is_space_def digit_char_def char_code_def)

lemma digit_not_sign: "digit_of c \<noteq> None \<Longrightarrow> c \<noteq> CHR ''-'' \<and> c \<noteq> CHR ''+''"
  by (auto simp: digit_of_def char_code_def)

lemma is_digit_char: "d < b \<Longrightarrow> b \<le> 36 \<Longrightarrow> is_digit b (digit_char d)"
  by (simp add: is_digit_def)

lemma num_str_digits: "2 \<le> b \<Longrightarrow> b \<le> 36 \<Longrightarrow> \<forall>c\<in>set (num_str b n). is_digit b c"
proof (induction b n rule: num_str.induct)
  case (1 b n)
  then show ?case
    by (cases "n < b") (auto simp: num_str.simps [of b n] is_digit_char)
qed

lemma num_str_val: "2 \<le> b \<Longrightarrow> b \<le> 36 \<Longrightarrow> digits_val b (num_str b n) = n"
proof (induction b n rule: num_str.induct)
  case (1 b n)
  moreover have "n mod b < 36"
    using 1 mod_less_divisor [of b n] by linarith
  ultimately show ?case
    by (cases "n < b") (auto simp: num_str.simps [of b n] digits_val_def)
qed

lemma num_str_Cons:
  assumes "2 \<le> b" and "b \<le> 36"
  obtains d s where "num_str b n = digit_char d # s" and "d < b"
proof -
  have "\<exists>d s. num_str b n = digit_char d # s \<and> d < b"
    using assms
  proof (induction b n rule: num_str.induct)
    case (1 b n)
    then show ?case
      by (cases "n < b") (auto simp: num_str.simps [of b n])
  qed
  then show ?thesis
    using that by blast
qed

lemma takeWhile_all: "\<forall>c\<in>set s. P c \<Longrightarrow> takeWhile P s = s \<and> dropWhile P s = []"
  by simp

lemma not_hex_prefix: "\<forall>c\<in>set s. is_digit 16 c \<Longrightarrow> \<not> hex_prefix s"
  by (auto simp: hex_prefix_def is_digit_def digit_of_def char_code_def split: list.splits)

lemma scan_num_str:
  assumes "2 \<le> b" and "b \<le> 36"
  shows "strto_scan (int b) (num_str b n) = Some (False, n, [])"
proof -
  obtain d s where s: "num_str b n = digit_char d # s" "d < b"
    using num_str_Cons [OF assms] by blast
  have all: "\<forall>c\<in>set (num_str b n). is_digit b c"
    using num_str_digits [OF assms] .
  have "split_sign (dropWhile is_space (num_str b n)) = (False, num_str b n)"
    using s assms digit_not_space [of d] digit_not_sign [of "digit_char d"] by (simp add: split_sign_def)
  moreover have "split_base (int b) (num_str b n) = (b, num_str b n)"
    using all not_hex_prefix [of "num_str b n"] assms(1) by (auto simp: split_base_def)
  moreover have "num_str b n \<noteq> []"
    using s by simp
  ultimately show ?thesis
    using num_str_val [OF assms] by (simp add: strto_scan_def takeWhile_all [OF all] Let_def)
qed

lemma scan_hex:
  assumes "base = 0 \<or> base = 16"
  shows "strto_scan base (''0x'' @ num_str 16 n) = Some (False, n, [])"
proof -
  obtain d s where s: "num_str 16 n = digit_char d # s" "d < 16"
    using num_str_Cons [of 16] by auto
  have all: "\<forall>c\<in>set (num_str 16 n). is_digit 16 c"
    using num_str_digits [of 16] by simp
  have "split_sign (dropWhile is_space (''0x'' @ num_str 16 n)) = (False, ''0x'' @ num_str 16 n)"
    by (simp add: split_sign_def is_space_def char_code_def)
  moreover have "split_base base (''0x'' @ num_str 16 n) = (16, num_str 16 n)"
    using assms all s by (auto simp: split_base_def hex_prefix_def)
  moreover have "num_str 16 n \<noteq> []"
    using s by simp
  ultimately show ?thesis
    using num_str_val [of 16 n] by (simp add: strto_scan_def takeWhile_all [OF all] Let_def)
qed


section \<open>The 64-bit parsers\<close>

lemma unat_u64_le: "unat (w :: u64) \<le> 18446744073709551615"
  using unsigned_less [of w, where ?'a = nat] by simp

text \<open>Success and failure of the unsigned parser in one equation.\<close>

lemma tok_ull_cases:
  "tok_parse_ulonglong (Some s) (Some v) mn mx base =
     (if base_ok base then
        case strto_scan base s of
          None \<Rightarrow> (- 1, EINVAL, Some 0)
        | Some (neg, n, rest) \<Rightarrow>
            let w = (if neg then - of_nat n else of_nat n) in
            if n > 18446744073709551615 then (- 1, ERANGE, Some 0)
            else if rest \<noteq> [] then (- 1, EINVAL, Some 0)
            else if mn \<le> w \<and> w \<le> mx then (0, 0, Some w) else (- 1, ERANGE, Some 0)
      else (- 1, EINVAL, Some 0))"
proof (cases "strto_scan base s")
  case None
  then show ?thesis
    by (simp add: tok_parse_ulonglong_def strtoull_def)
next
  case (Some x)
  obtain neg n rest where x: "x = (neg, n, rest)"
    by (cases x)
  define w :: u64 where "w = (if neg then - of_nat n else of_nat n)"
  show ?thesis
    by (simp add: tok_parse_ulonglong_def strtoull_def Some x w_def [symmetric] not_less [symmetric])
qed

lemma tok_ull_fail:
  assumes "tok_parse_ulonglong (Some s) (Some v) mn mx base = (rc, err, out)" and "rc \<noteq> 0"
  shows "rc = - 1 \<and> out = Some 0 \<and> err \<in> {EINVAL, ERANGE}"
  using assms by (auto simp: tok_ull_cases Let_def split: option.splits if_splits)

lemma tok_ull_print:
  assumes "2 \<le> b" and "b \<le> 36" and "mn \<le> w" and "w \<le> mx"
  shows "tok_parse_ulonglong (Some (num_str b (unat w))) (Some v) mn mx (int b) = (0, 0, Some w)"
  using assms scan_num_str [OF assms(1,2)] unat_u64_le [of w] by (simp add: tok_ull_cases base_ok_def Let_def not_less)

section \<open>The contract of the bounded parsers\<close>

text \<open>
  The token denotes the number \<open>n\<close>: it is white space, an optional sign, and digits up to its end, for a number
  \<open>m\<close> of 64 bits. With a minus sign it denotes the negation of \<open>m\<close> modulo 2^64, as the C library defines
  it for unsigned numbers.
\<close>

definition denotes :: "string \<Rightarrow> int \<Rightarrow> nat \<Rightarrow> bool" where
  "denotes s base n \<longleftrightarrow> base_ok base \<and>
     (\<exists>neg m. strto_scan base s = Some (neg, m, []) \<and> m < 2 ^ 64 \<and> n = (if neg then (2 ^ 64 - m) mod 2 ^ 64 else m))"

lemma unat_of_nat_u64: "m < 2 ^ 64 \<Longrightarrow> unat (of_nat m :: u64) = m"
  by (simp add: unsigned_of_nat take_bit_nat_eq_self)

lemma strtoull_denotes: "strtoull s base = (data, 0, Some []) \<longleftrightarrow> denotes s base (unat data)"
proof (cases "base_ok base \<and> strto_scan base s \<noteq> None")
  case False
  then show ?thesis
    by (cases "strto_scan base s") (auto simp: strtoull_def denotes_def)
next
  case True
  then obtain neg m rest where m: "strto_scan base s = Some (neg, m, rest)"
    by auto
  have pos: "of_nat m = data \<longleftrightarrow> unat data = m" if "m < 2 ^ 64"
    using that by (auto simp: unat_of_nat_u64)
  have minus: "- of_nat m = data \<longleftrightarrow> unat data = (2 ^ 64 - m) mod 2 ^ 64" if "m < 2 ^ 64"
  proof -
    have "(of_nat m :: u64) + of_nat (2 ^ 64 - m) = of_nat (2 ^ 64)"
      using that by (simp only: of_nat_add [symmetric] le_add_diff_inverse [OF less_imp_le])
    also have "\<dots> = (0 :: u64)"
      by (simp add: word_unat_eq_iff unat_of_nat del: of_nat_power of_nat_numeral)
    finally have "(- of_nat m :: u64) = of_nat (2 ^ 64 - m)"
      by (rule minus_unique)
    then have "unat (- of_nat m :: u64) = (2 ^ 64 - m) mod 2 ^ 64"
      by (simp add: unat_of_nat)
    then show ?thesis
      by (auto simp: word_unat_eq_iff)
  qed
  show ?thesis
  proof (cases "m < 2 ^ 64")
    case lt: True
    then show ?thesis
      using True m pos minus by (auto simp: strtoull_def denotes_def)
  next
    case False
    then show ?thesis
      using True m by (auto simp: strtoull_def denotes_def)
  qed
qed

text \<open>
  What all parsers of a bounded unsigned quantity promise, whatever the width of the quantity: a
  successful parse returns the number the token denotes, within the bounds and not truncated; a failed
  one stores zero; the print of every number in the bounds is parsed to it, in every base.
\<close>

locale bounded_parser =
  fixes parse :: "string option \<Rightarrow> ('a::len) word option \<Rightarrow> int \<Rightarrow> int \<times> int \<times> 'a word option"
    and lo hi :: u64
  assumes parse_eq: "parse token v base = parse_into token v lo hi base"
    and fits: "unat hi < 2 ^ LENGTH('a)"
begin

lemma parse_sound:
  assumes "parse (Some s) (Some v) base = (0, err, Some w)"
  shows "\<exists>data. strtoull s base = (data, 0, Some []) \<and> lo \<le> data \<and> data \<le> hi \<and> unat w = unat data \<and> err = 0"
proof -
  obtain data where d: "tok_parse_ulonglong (Some s) (Some 0) lo hi base = (0, err, Some data)" "w = ucast data"
    using assms by (auto simp: parse_eq parse_into_def tok_ull_cases Let_def split: option.splits if_splits)
  then have data: "strtoull s base = (data, 0, Some [])" "lo \<le> data" "data \<le> hi" "err = 0"
    by (auto simp: tok_parse_ulonglong_def not_less split: prod.splits if_splits)
  then have "unat data < 2 ^ LENGTH('a)"
    using fits by (simp add: word_le_nat_alt)
  with data d(2) show ?thesis
    by (simp add: unsigned_ucast_eq take_bit_nat_eq_self)
qed

lemma parse_exact:
  "parse (Some s) (Some v) base = (0, err, Some w) \<longleftrightarrow>
     err = 0 \<and> denotes s base (unat w) \<and> unat lo \<le> unat w \<and> unat w \<le> unat hi"
proof
  assume "parse (Some s) (Some v) base = (0, err, Some w)"
  from parse_sound [OF this] show "err = 0 \<and> denotes s base (unat w) \<and> unat lo \<le> unat w \<and> unat w \<le> unat hi"
    by (auto simp: strtoull_denotes word_le_nat_alt)
next
  assume w: "err = 0 \<and> denotes s base (unat w) \<and> unat lo \<le> unat w \<and> unat w \<le> unat hi"
  define data :: u64 where "data = of_nat (unat w)"
  have "unat w < 2 ^ 64"
    using w unsigned_less [of hi, where ?'a = nat] by simp
  then have d: "unat data = unat w"
    unfolding data_def by (rule unat_of_nat_u64)
  then have "strtoull s base = (data, 0, Some [])" "lo \<le> data" "data \<le> hi"
    using w by (simp_all add: strtoull_denotes word_le_nat_alt)
  moreover have "unat (ucast data :: 'a word) = unat w"
    using d unsigned_less [of w, where ?'a = nat] by (simp add: unsigned_ucast_eq take_bit_nat_eq_self)
  then have "ucast data = w"
    by (simp add: word_unat_eq_iff)
  ultimately show "parse (Some s) (Some v) base = (0, err, Some w)"
    using w by (simp add: parse_eq parse_into_def tok_parse_ulonglong_def not_less)
qed

lemma parse_fail:
  assumes "parse (Some s) (Some v) base = (rc, err, out)" and "rc \<noteq> 0"
  shows "rc = - 1 \<and> out = Some 0 \<and> err \<in> {EINVAL, ERANGE}"
proof -
  obtain r e d where p: "tok_parse_ulonglong (Some s) (Some 0) lo hi base = (r, e, d)"
    by (cases "tok_parse_ulonglong (Some s) (Some 0) lo hi base")
  with assms have "r = rc" "e = err" "out = Some (ucast (the d))"
    by (auto simp: parse_eq parse_into_def)
  with tok_ull_fail [OF p] assms(2) show ?thesis
    by simp
qed

lemma parse_print:
  assumes "2 \<le> b" and "b \<le> 36" and "lo \<le> x" and "x \<le> hi"
  shows "parse (Some (num_str b (unat x))) (Some v) (int b) = (0, 0, Some (ucast x))"
  using tok_ull_print [OF assms, of 0] by (simp add: parse_eq parse_into_def)

lemma parse_null: "parse token None base = (- 1, EINVAL, None)" "parse None (Some v) base = (- 1, EINVAL, Some 0)"
  by (simp_all add: parse_eq parse_into_def tok_parse_ulonglong_def)

end

interpretation p_ul: bounded_parser tok_parse_ul 0 "0xFFFFFFFF"
  by unfold_locales (simp_all add: tok_parse_ul_def)

interpretation p_us: bounded_parser tok_parse_us 0 "0xFFFF"
  by unfold_locales (simp_all add: tok_parse_us_def)

interpretation p_did: bounded_parser tok_parse_did 0 "0xFFFF"
  by unfold_locales (simp_all add: tok_parse_did_def)

interpretation p_ct: bounded_parser tok_parse_ct 0 "0xFFFFFFFF"
  by unfold_locales (simp_all add: tok_parse_ct_def)

interpretation p_hc: bounded_parser tok_parse_hc 0 "0xFF"
  by unfold_locales (simp_all add: tok_parse_hc_def)

interpretation p_mport: bounded_parser tok_parse_mport_id 0 7
  by unfold_locales (simp_all add: tok_parse_mport_id_def)

interpretation p_level: bounded_parser tok_parse_log_level 1 7
  by unfold_locales (simp_all add: tok_parse_log_level_def)

interpretation p_socket: bounded_parser tok_parse_socket 1 "0xFFFF"
  by unfold_locales (simp_all add: tok_parse_socket_def)

interpretation p_port: bounded_parser tok_parse_port_num 0 23
  by unfold_locales (simp_all add: tok_parse_port_num_def)

interpretation p_ulong: bounded_parser "\<lambda>token v. tok_parse_ulong token v mn mx" "ucast mn" "ucast mx" for mn mx :: u32
  using unsigned_less [of mx, where ?'a = nat] by unfold_locales (simp_all add: tok_parse_ulong_def unat_ucast_up)

interpretation p_ushort: bounded_parser "\<lambda>token v. tok_parse_ushort token v mn mx" "ucast mn" "ucast mx" for mn mx :: u16
  using unsigned_less [of mx, where ?'a = nat] by unfold_locales (simp_all add: tok_parse_ushort_def unat_ucast_up)


section \<open>Signed parsers\<close>

lemma to_signed_id:
  assumes "0 < w" and "- (2 ^ (w - 1)) \<le> x" and "x < 2 ^ (w - 1)"
  shows "to_signed w x = x"
proof -
  have "(2 :: int) ^ w = 2 * 2 ^ (w - 1)"
    using assms(1) by (cases w) auto
  with assms(2,3) show ?thesis
    by (simp add: to_signed_def mod_pos_pos_trivial)
qed

lemma tok_ll_cases:
  "tok_parse_longlong (Some s) (Some v) mn mx base = (0, err, Some x) \<longleftrightarrow>
     strtoll s base = (x, 0, Some []) \<and> mn \<le> x \<and> x \<le> mx \<and> err = 0"
  by (cases "strtoll s base") (auto simp: tok_parse_longlong_def not_less)

lemma parse_signed_sound:
  assumes "parse_signed_into w (Some s) (Some v) mn mx base = (0, err, Some x)"
    and "0 < w" and "- (2 ^ (w - 1)) \<le> mn" and "mx < 2 ^ (w - 1)"
  shows "strtoll s base = (x, 0, Some []) \<and> mn \<le> x \<and> x \<le> mx"
proof -
  obtain r e d where p: "tok_parse_longlong (Some s) (Some 0) mn mx base = (r, e, d)"
    by (cases "tok_parse_longlong (Some s) (Some 0) mn mx base")
  then obtain y where y: "d = Some y"
    by (cases "strtoll s base") (auto simp: tok_parse_longlong_def split: if_splits)
  with assms(1) p have "r = 0" "x = to_signed w y"
    by (auto simp: parse_signed_into_def)
  moreover from this p y have "strtoll s base = (y, 0, Some [])" "mn \<le> y" "y \<le> mx"
    using tok_ll_cases [of s 0 mn mx base e y] by simp_all
  ultimately show ?thesis
    using to_signed_id [of w y] assms(2-4) by auto
qed

lemma scan_neg_num_str:
  assumes "2 \<le> b" and "b \<le> 36"
  shows "strto_scan (int b) (CHR ''-'' # num_str b n) = Some (True, n, [])"
proof -
  obtain d s where s: "num_str b n = digit_char d # s" "d < b"
    using num_str_Cons [OF assms] by blast
  have "split_sign (dropWhile is_space (num_str b n)) = (False, num_str b n)"
    using s assms digit_not_space [of d] digit_not_sign [of "digit_char d"] by (simp add: split_sign_def)
  moreover have "split_sign (dropWhile is_space (CHR ''-'' # num_str b n)) = (True, num_str b n)"
    by (simp add: split_sign_def is_space_def char_code_def)
  ultimately show ?thesis
    using scan_num_str [OF assms, of n] by (auto simp: strto_scan_def Let_def split: if_splits prod.splits)
qed

text \<open>The digits of a signed number, with its sign.\<close>

definition int_str :: "nat \<Rightarrow> int \<Rightarrow> string" where
  "int_str b x = (if x < 0 then CHR ''-'' # num_str b (nat (- x)) else num_str b (nat x))"

lemma strtoll_print:
  assumes "2 \<le> b" and "b \<le> 36" and "- 9223372036854775808 \<le> x" and "x \<le> 9223372036854775807"
  shows "strtoll (int_str b x) (int b) = (x, 0, Some [])"
proof -
  have "nat (- x) \<le> 9223372036854775808" "nat x \<le> 9223372036854775807"
    using assms(3,4) by linarith+
  then show ?thesis
    using assms scan_num_str [OF assms(1,2)] scan_neg_num_str [OF assms(1,2)]
    by (simp add: int_str_def strtoll_def base_ok_def)
qed

lemma tok_ll_print:
  assumes "2 \<le> b" and "b \<le> 36" and "- 9223372036854775808 \<le> x" and "x \<le> 9223372036854775807"
  shows "tok_parse_ll (Some (int_str b x)) (Some v) (int b) = (0, 0, Some x)"
    and "tok_parse_longlong (Some (int_str b x)) (Some v) lo hi (int b) =
      (if lo \<le> x \<and> x \<le> hi then (0, 0, Some x) else (- 1, ERANGE, Some 0))"
  using assms(3,4) strtoll_print [OF assms] by (auto simp: tok_parse_ll_def tok_parse_longlong_def not_less)

section \<open>Properties\<close>

text \<open>
  C39. Each parser of a RapidIO quantity accepts exactly the tokens that denote a number in the range of the quantity, and
  stores this number, not truncated: identifiers 0 to \<open>0xFFFF\<close>, hop counts 0 to \<open>0xFF\<close>, master ports 0 to 7, log
  levels 1 to 7, socket numbers 1 to \<open>0xFFFF\<close>, port numbers 0 to 23. Two error messages of \<^verbatim>\<open>tok_parse.h\<close> state
  other ranges than the code has: 0 to \<open>0xff\<close> for identifiers (line 47) and 0 to \<open>0xffff\<close> for sockets (line 53).
  What a token denotes is defined as for \<open>strtoull\<close>: a minus sign negates modulo 2^64, so that a token such as
  \<^verbatim>\<open>-18446744073709551615\<close> denotes 1 and is accepted as a socket number (\<open>tok_parse_accepts_negative\<close>).
\<close>

theorem tok_parse_ranges:
  "(tok_parse_did (Some s) (Some v) base = (0, e, Some did) \<longleftrightarrow> e = 0 \<and> denotes s base (unat did) \<and> unat did \<le> 65535) \<and>
   (tok_parse_hc (Some s) (Some w) base = (0, e, Some hc) \<longleftrightarrow> e = 0 \<and> denotes s base (unat hc)) \<and>
   (tok_parse_mport_id (Some s) (Some v) base = (0, e, Some mport) \<longleftrightarrow> e = 0 \<and> denotes s base (unat mport) \<and> unat mport < 8) \<and>
   (tok_parse_log_level (Some s) (Some v) base = (0, e, Some level) \<longleftrightarrow>
      e = 0 \<and> denotes s base (unat level) \<and> 1 \<le> unat level \<and> unat level \<le> 7) \<and>
   (tok_parse_socket (Some s) (Some x) base = (0, e, Some socket) \<longleftrightarrow> e = 0 \<and> denotes s base (unat socket) \<and> 1 \<le> unat socket) \<and>
   (tok_parse_port_num (Some s) (Some v) base = (0, e, Some port) \<longleftrightarrow> e = 0 \<and> denotes s base (unat port) \<and> unat port < 24)"
proof -
  have "unat hc \<le> 255" "unat socket \<le> 65535"
    using unsigned_less [of hc, where ?'a = nat] unsigned_less [of socket, where ?'a = nat] by simp_all
  then show ?thesis
    unfolding p_did.parse_exact p_hc.parse_exact p_mport.parse_exact p_level.parse_exact p_socket.parse_exact p_port.parse_exact
    by auto
qed

lemma digit_char_examples: "digit_char 1 = CHR ''1''" "digit_char 5 = CHR ''5''"
proof -
  have "of_char (digit_char 1) = (of_char CHR ''1'' :: nat)" "of_char (digit_char 5) = (of_char CHR ''5'' :: nat)"
    by (simp_all add: digit_char_def)
  then show "digit_char 1 = CHR ''1''" "digit_char 5 = CHR ''5''"
    by (simp_all only: of_char_eq_iff)
qed

lemma parse_level_5: "tok_parse_log_level (Some ''5'') (Some 0) 10 = (0, 0, Some 5)"
  using p_level.parse_print [of 10 5 0] by (simp add: num_str.simps digit_char_examples)

theorem tok_parse_ranges_witness:
  "tok_parse_log_level (Some ''5'') (Some 0) 10 = (0, 0, Some 5) \<and> denotes ''5'' 10 5"
  using tok_parse_ranges [of "''5''" 0 10 0 0 0 0 0 5 0 0 0] parse_level_5 by simp

text \<open>
  C40. Printing and parsing are inverse: in every base from 2 to 36, the digits of any 64-bit number
  parse to that number, those of any signed 64-bit number with its sign too, and a hexadecimal number
  with the prefix \<^verbatim>\<open>0x\<close> parses in base 0 and base 16. With bounds of the caller, a number inside the bounds parses to
  itself, and a 64-bit number outside is reported with \<open>ERANGE\<close> and stores zero, both for unsigned and for signed
  numbers. (The unsigned parsers also accept digits with a minus sign, which is not part of the claim.)
\<close>

theorem tok_parse_roundtrip:
  assumes "2 \<le> b" and "b \<le> 36"
  shows "tok_parse_ull (Some (num_str b (unat n))) (Some v) (int b) = (0, 0, Some n) \<and>
    (\<forall>x y. - 9223372036854775808 \<le> x \<and> x \<le> 9223372036854775807 \<longrightarrow>
       tok_parse_ll (Some (int_str b x)) (Some y) (int b) = (0, 0, Some x)) \<and>
    tok_parse_ull (Some (''0x'' @ num_str 16 (unat n))) (Some v) 0 = (0, 0, Some n) \<and>
    tok_parse_ull (Some (''0x'' @ num_str 16 (unat n))) (Some v) 16 = (0, 0, Some n) \<and>
    tok_parse_ulonglong (Some (num_str b (unat n))) (Some v) mn mx (int b) =
      (if mn \<le> n \<and> n \<le> mx then (0, 0, Some n) else (- 1, ERANGE, Some 0)) \<and>
    (\<forall>x y lo hi. - 9223372036854775808 \<le> x \<and> x \<le> 9223372036854775807 \<longrightarrow>
       tok_parse_longlong (Some (int_str b x)) (Some y) lo hi (int b) =
         (if lo \<le> x \<and> x \<le> hi then (0, 0, Some x) else (- 1, ERANGE, Some 0)))"
proof -
  have top: "x \<le> 0xFFFFFFFFFFFFFFFF" for x :: u64
    using unat_u64_le [of x] by (simp add: word_le_nat_alt)
  have "tok_parse_ull (Some (num_str b (unat n))) (Some v) (int b) = (0, 0, Some n)"
    using tok_ull_print [OF assms, of 0 n] top by (simp add: tok_parse_ull_def)
  moreover have "tok_parse_ull (Some (''0x'' @ num_str 16 (unat n))) (Some v) base = (0, 0, Some n)"
    if "base = 0 \<or> base = 16" for base
    using scan_hex [OF that, of "unat n"] that unat_u64_le [of n] top [of n]
    unfolding tok_parse_ull_def tok_ull_cases base_ok_def by (auto simp: not_less)
  moreover have "tok_parse_ulonglong (Some (num_str b (unat n))) (Some v) mn mx (int b) =
      (if mn \<le> n \<and> n \<le> mx then (0, 0, Some n) else (- 1, ERANGE, Some 0))"
    using scan_num_str [OF assms, of "unat n"] assms unat_u64_le [of n]
    by (auto simp: tok_ull_cases base_ok_def not_less not_le)
  ultimately show ?thesis
    using tok_ll_print [OF assms] by simp
qed

theorem tok_parse_roundtrip_witness:
  "tok_parse_ull (Some (num_str 10 (unat (1234 :: u64)))) (Some 0) (int 10) = (0, 0, Some 1234) \<and>
   tok_parse_ulonglong (Some (num_str 10 (unat (1234 :: u64)))) (Some 0) 0 255 (int 10) = (- 1, ERANGE, Some 0) \<and>
   tok_parse_longlong (Some (CHR ''-'' # num_str 10 5)) (Some 0) (- 4) 4 (int 10) = (- 1, ERANGE, Some 0)"
proof -
  note p = tok_parse_roundtrip [of 10 1234 0 0 255, simplified]
  from p have "tok_parse_longlong (Some (int_str 10 (- 5))) (Some 0) (- 4) 4 10 = (- 1, ERANGE, Some 0)"
    by (elim conjE) simp
  with p show ?thesis
    by (simp add: int_str_def)
qed

text \<open>
  The unsigned parsers accept negative numbers: \<open>strtoull\<close> negates modulo 2^64 without an error, so
  \<^verbatim>\<open>-1\<close> is accepted as 2^64-1, and a token whose negation happens to fall into the range of a narrow
  parser is accepted as well.
\<close>

theorem tok_parse_accepts_negative:
  "tok_parse_ull (Some ''-1'') (Some 0) 10 = (0, 0, Some 0xFFFFFFFFFFFFFFFF) \<and>
   tok_parse_socket (Some (CHR ''-'' # num_str 10 18446744073709551615)) (Some 0) 10 = (0, 0, Some 1)"
proof -
  have "strto_scan (int 10) (CHR ''-'' # num_str 10 1) = Some (True, 1, [])"
    by (rule scan_neg_num_str) simp_all
  then have "strto_scan 10 ''-1'' = Some (True, 1, [])"
    by (simp add: num_str.simps digit_char_examples [simplified])
  moreover have "strto_scan 10 (CHR ''-'' # num_str 10 18446744073709551615) = Some (True, 18446744073709551615, [])"
    using scan_neg_num_str [of 10 18446744073709551615] by simp
  moreover have wrap: "- (18446744073709551615 :: u64) = 1" "- (1 :: u64) = 18446744073709551615"
    by (subst eq_commute, simp add: eq_neg_iff_add_eq_0)+
  ultimately show ?thesis
    by (simp add: tok_parse_ull_def tok_ull_cases tok_parse_socket_def parse_into_def base_ok_def wrap Let_def)
qed

end
