(* ===== verification/Pkt_Size.thy ===== *)
theory Pkt_Size
  imports Rio_Prelude
begin

unbundle bit_operations_syntax

text \<open>
  Packet types and the coding of transfer sizes, from
  \<^verbatim>\<open>fabric_management/librio/src/RapidIO_Utilities_API.c\<close> and its header. A transfer of a number of bytes
  at an address is coded in a packet as a size code (\<open>rdsize\<close> or \<open>wrsize\<close>) and one bit \<open>wdptr\<close>; the
  functions of this theory compute the code and read it back. Out-parameters are returned as a pair.
\<close>

section \<open>Packet types\<close>

datatype DAR_pkt_type =
  pkt_raw | pkt_nr | pkt_nr_inc | pkt_nr_dec | pkt_nr_set | pkt_nr_clr | pkt_nw | pkt_nwr | pkt_nw_swap
  | pkt_nw_cmp_swap | pkt_nw_tst_swap | pkt_sw | pkt_fc | pkt_mr | pkt_mw | pkt_mrr | pkt_mwr | pkt_pw
  | pkt_dstm | pkt_db | pkt_msg | pkt_resp | pkt_resp_data | pkt_msg_resp

text \<open>Every value of the enumeration has a case of its own in the switch, so its default is not reached.\<close>

fun DAR_util_get_ftype :: "DAR_pkt_type \<Rightarrow> u32" where
  "DAR_util_get_ftype pkt_raw = 16"
| "DAR_util_get_ftype pkt_nr = 2"
| "DAR_util_get_ftype pkt_nr_inc = 2"
| "DAR_util_get_ftype pkt_nr_dec = 2"
| "DAR_util_get_ftype pkt_nr_set = 2"
| "DAR_util_get_ftype pkt_nr_clr = 2"
| "DAR_util_get_ftype pkt_nw = 5"
| "DAR_util_get_ftype pkt_nwr = 5"
| "DAR_util_get_ftype pkt_nw_swap = 5"
| "DAR_util_get_ftype pkt_nw_cmp_swap = 5"
| "DAR_util_get_ftype pkt_nw_tst_swap = 5"
| "DAR_util_get_ftype pkt_sw = 6"
| "DAR_util_get_ftype pkt_fc = 7"
| "DAR_util_get_ftype pkt_mr = 8"
| "DAR_util_get_ftype pkt_mw = 8"
| "DAR_util_get_ftype pkt_mrr = 8"
| "DAR_util_get_ftype pkt_mwr = 8"
| "DAR_util_get_ftype pkt_pw = 8"
| "DAR_util_get_ftype pkt_dstm = 9"
| "DAR_util_get_ftype pkt_db = 10"
| "DAR_util_get_ftype pkt_msg = 11"
| "DAR_util_get_ftype pkt_resp = 13"
| "DAR_util_get_ftype pkt_resp_data = 13"
| "DAR_util_get_ftype pkt_msg_resp = 13"

section \<open>Size codes\<close>

abbreviation (input) BAD_SIZE :: u32 where "BAD_SIZE \<equiv> 0xFFFFFFFF"
abbreviation (input) SIZE_RC_FAIL :: u32 where "SIZE_RC_FAIL \<equiv> 0xFFFFFFFF"

text \<open>The codes are returned as \<open>(rdsize, wdptr)\<close>.\<close>

definition DAR_util_get_rdsize_wdptr :: "u32 \<Rightarrow> u32 \<Rightarrow> u32 \<times> u32" where
  "DAR_util_get_rdsize_wdptr addr pkt_bytes =
     (let bad = (BAD_SIZE, BAD_SIZE);
          r = (if pkt_bytes = 1 then (addr AND 3, drop_bit 2 (addr AND 4))
               else if pkt_bytes = 2 then
                 if addr AND 1 = 0 then (4 + (addr AND 2), drop_bit 2 (addr AND 4)) else bad
               else if pkt_bytes = 3 then
                 if addr AND 7 = 0 \<or> addr AND 7 = 5 then (5, drop_bit 2 (addr AND 4)) else bad
               else if pkt_bytes = 4 then
                 if addr AND 7 = 0 \<or> addr AND 7 = 4 then (8, drop_bit 2 (addr AND 4)) else bad
               else if pkt_bytes = 5 then
                 if addr AND 7 = 0 \<or> addr AND 7 = 3 then (7, addr AND 1) else bad
               else if pkt_bytes = 6 then
                 if addr AND 7 = 0 \<or> addr AND 7 = 2 then (9, drop_bit 1 (addr AND 2)) else bad
               else if pkt_bytes = 7 then
                 if addr AND 7 = 0 \<or> addr AND 7 = 1 then (10, addr AND 1) else bad
               else if pkt_bytes = 8 \<or> pkt_bytes = 16 then (11, pkt_bytes div 8 - 1)
               else if pkt_bytes = 32 \<or> pkt_bytes = 64 then (12, pkt_bytes div 32 - 1)
               else if pkt_bytes = 96 then (13, 0)
               else if pkt_bytes = 128 then (13, 1)
               else if pkt_bytes = 160 then (14, 0)
               else if pkt_bytes = 192 then (14, 1)
               else if pkt_bytes = 224 then (15, 0)
               else if pkt_bytes = 256 then (15, 1)
               else bad)
      in if fst r \<ge> 11 \<and> addr AND 7 \<noteq> 0 then bad else r)"

text \<open>The decoders return \<open>(return code, num_bytes, align)\<close>.\<close>

definition DAR_util_compute_rd_bytes_n_align :: "u32 \<Rightarrow> u32 \<Rightarrow> u32 \<times> u32 \<times> u32" where
  "DAR_util_compute_rd_bytes_n_align rdsize wptr =
     (if wptr \<noteq> 0 \<and> wptr \<noteq> 1 then (SIZE_RC_FAIL, 0, 0)
      else if rdsize = 0 \<or> rdsize = 1 \<or> rdsize = 2 \<or> rdsize = 3 then (0, 1, rdsize + push_bit 2 wptr)
      else if rdsize = 4 \<or> rdsize = 6 then (0, 2, (rdsize AND 2) + push_bit 2 wptr)
      else if rdsize = 5 then (0, 3, if wptr \<noteq> 0 then 5 else 0)
      else if rdsize = 8 then (0, 4, push_bit 2 wptr)
      else if rdsize = 7 then (0, 5, if wptr \<noteq> 0 then 3 else 0)
      else if rdsize = 9 then (0, 6, if wptr \<noteq> 0 then 2 else 0)
      else if rdsize = 10 then (0, 7, wptr)
      else if rdsize = 11 \<or> rdsize = 12 then (0, push_bit (unat ((rdsize - 11) * 2 + wptr)) 8, 0)
      else if rdsize = 13 \<or> rdsize = 14 \<or> rdsize = 15 then (0, 64 * (rdsize - 12) + 32 + 32 * wptr, 0)
      else (SIZE_RC_FAIL, 0, 0))"

definition DAR_util_get_wrsize_wdptr :: "u32 \<Rightarrow> u32 \<Rightarrow> u32 \<times> u32" where
  "DAR_util_get_wrsize_wdptr addr pkt_bytes =
     (let bad = (BAD_SIZE, BAD_SIZE);
          r = (if pkt_bytes = 0 then bad
               else if pkt_bytes = 1 then (addr AND 3, drop_bit 2 (addr AND 4))
               else if pkt_bytes = 2 then
                 if addr AND 1 = 0 then (4 + (addr AND 2), drop_bit 2 (addr AND 4)) else bad
               else if pkt_bytes = 3 then
                 if addr AND 7 = 0 \<or> addr AND 7 = 5 then (5, drop_bit 2 (addr AND 4)) else bad
               else if pkt_bytes = 4 then
                 if addr AND 7 = 0 \<or> addr AND 7 = 4 then (8, drop_bit 2 (addr AND 4)) else bad
               else if pkt_bytes = 5 then
                 if addr AND 7 = 0 \<or> addr AND 7 = 3 then (7, addr AND 1) else bad
               else if pkt_bytes = 6 then
                 if addr AND 7 = 0 \<or> addr AND 7 = 2 then (9, drop_bit 1 (addr AND 2)) else bad
               else if pkt_bytes = 7 then
                 if addr AND 7 = 0 \<or> addr AND 7 = 1 then (10, addr AND 1) else bad
               else if pkt_bytes = 8 \<or> pkt_bytes = 16 then (11, pkt_bytes div 8 - 1)
               else if addr AND 7 \<noteq> 0 \<or> pkt_bytes AND 7 \<noteq> 0 then bad
               else if pkt_bytes \<le> 64 then (12, if pkt_bytes > 32 then 1 else 0)
               else if pkt_bytes \<le> 128 then (13, 1)
               else (15, 1))
      in if fst r \<ge> 11 \<and> addr AND 7 \<noteq> 0 then bad else r)"

definition DAR_util_compute_wr_bytes_n_align :: "u32 \<Rightarrow> u32 \<Rightarrow> u32 \<times> u32 \<times> u32" where
  "DAR_util_compute_wr_bytes_n_align wrsize wptr =
     (if wptr \<noteq> 0 \<and> wptr \<noteq> 1 then (SIZE_RC_FAIL, 0, 0)
      else if wrsize = 0 \<or> wrsize = 1 \<or> wrsize = 2 \<or> wrsize = 3 then (0, 1, wrsize + push_bit 2 wptr)
      else if wrsize = 4 \<or> wrsize = 6 then (0, 2, (wrsize AND 2) + push_bit 2 wptr)
      else if wrsize = 5 then (0, 3, if wptr \<noteq> 0 then 5 else 0)
      else if wrsize = 8 then (0, 4, push_bit 2 wptr)
      else if wrsize = 7 then (0, 5, if wptr \<noteq> 0 then 3 else 0)
      else if wrsize = 9 then (0, 6, if wptr \<noteq> 0 then 2 else 0)
      else if wrsize = 10 then (0, 7, wptr)
      else if wrsize = 11 \<or> wrsize = 12 then (0, push_bit (unat ((wrsize - 11) * 2 + wptr)) 8, 0)
      else if wrsize = 13 then if wptr \<noteq> 0 then (0, 128, 0) else (SIZE_RC_FAIL, 0, 0)
      else if wrsize = 15 then if wptr \<noteq> 0 then (0, 256, 0) else (SIZE_RC_FAIL, 0, 0)
      else (SIZE_RC_FAIL, 0, 0))"

section \<open>Finite case analysis\<close>

text \<open>The codes depend on the address only through its three lowest bits.\<close>

lemma low_bits:
  fixes a :: u32
  shows "(a AND 7) AND 4 = a AND 4" "(a AND 7) AND 3 = a AND 3" "(a AND 7) AND 2 = a AND 2" "(a AND 7) AND 1 = a AND 1"
    "(a AND 7) AND 7 = a AND 7"
  by (simp_all add: and.assoc)

lemma size_code_low:
  "DAR_util_get_rdsize_wdptr addr n = DAR_util_get_rdsize_wdptr (addr AND 7) n"
  "DAR_util_get_wrsize_wdptr addr n = DAR_util_get_wrsize_wdptr (addr AND 7) n"
  by (simp_all only: DAR_util_get_rdsize_wdptr_def DAR_util_get_wrsize_wdptr_def low_bits)

lemma unat_and7: "unat ((a :: u32) AND 7) = unat a mod 8"
proof -
  have "a AND 7 = take_bit 3 a"
    by (simp add: take_bit_eq_mask mask_eq_exp_minus_1)
  then show ?thesis
    by (simp add: take_bit_eq_mod unat_mod)
qed

lemma and7_cases:
  fixes a :: u32
  obtains "a AND 7 = 0" | "a AND 7 = 1" | "a AND 7 = 2" | "a AND 7 = 3"
    | "a AND 7 = 4" | "a AND 7 = 5" | "a AND 7 = 6" | "a AND 7 = 7"
proof -
  have "unat (a AND 7) < 8"
    by (simp add: unat_and7)
  then have "unat (a AND 7) \<in> {0, 1, 2, 3, 4, 5, 6, 7}"
    by auto
  then have "a AND 7 \<in> {0, 1, 2, 3, 4, 5, 6, 7}"
    by (simp add: word_unat_eq_iff)
  with that show thesis
    by auto
qed


text \<open>A code is given as the pair of size and word pointer; it is good when the size is not \<open>BAD_SIZE\<close>.\<close>

definition rd_code_ok :: "u32 \<Rightarrow> u32 \<Rightarrow> bool" where
  "rd_code_ok a n \<longleftrightarrow>
     (case DAR_util_get_rdsize_wdptr a n of (s, w) \<Rightarrow>
        if s = BAD_SIZE then w = BAD_SIZE
        else s \<le> 15 \<and> w \<le> 1 \<and> DAR_util_compute_rd_bytes_n_align s w = (0, n, a))"

definition wr_code_ok :: "u32 \<Rightarrow> u32 \<Rightarrow> bool" where
  "wr_code_ok a n \<longleftrightarrow>
     (case DAR_util_get_wrsize_wdptr a n of (s, w) \<Rightarrow>
        if s = BAD_SIZE then w = BAD_SIZE
        else s \<le> 15 \<and> w \<le> 1 \<and>
          (case DAR_util_compute_wr_bytes_n_align s w of (rc, m, b) \<Rightarrow>
             rc = 0 \<and> b = a \<and> m \<le> 256 \<and> (n \<le> 256 \<longrightarrow> n \<le> m) \<and> (n \<le> 16 \<or> n \<in> {32, 64, 128, 256} \<longrightarrow> m = n)))"

lemma rd_code_ground:
  "list_all (\<lambda>a. list_all (rd_code_ok a) [1, 2, 3, 4, 5, 6, 7, 8, 16, 32, 64, 96, 128, 160, 192, 224, 256])
     [0, 1, 2, 3, 4, 5, 6, 7]"
  by code_simp

lemma wr_code_ground:
  "list_all (\<lambda>a. list_all (wr_code_ok a) [0, 1, 2, 3, 4, 5, 6, 7, 8, 16]) [0, 1, 2, 3, 4, 5, 6, 7]"
  by code_simp

lemma rd_decode_ground:
  "list_all (\<lambda>s. list_all (\<lambda>w. case DAR_util_compute_rd_bytes_n_align s w of (rc, m, a) \<Rightarrow>
        rc = 0 \<and> DAR_util_get_rdsize_wdptr a m = (s, w)) [0, 1])
     [0, 1, 2, 3, 4, 5, 6, 7, 8, 9, 10, 11, 12, 13, 14, 15]"
  by code_simp

lemma rd_code_ok_low: "rd_code_ok (addr AND 7) n"
proof (cases "n \<in> set [1, 2, 3, 4, 5, 6, 7, 8, 16, 32, 64, 96, 128, 160, 192, 224, 256]")
  case True
  moreover have "addr AND 7 \<in> set [0, 1, 2, 3, 4, 5, 6, 7]"
    by (cases addr rule: and7_cases) simp_all
  ultimately show ?thesis
    using rd_code_ground unfolding list_all_iff by blast
next
  case False
  then have "DAR_util_get_rdsize_wdptr (addr AND 7) n = (BAD_SIZE, BAD_SIZE)"
    by (simp add: DAR_util_get_rdsize_wdptr_def)
  then show ?thesis
    by (simp add: rd_code_ok_def)
qed

lemma wr_code_ok_low: "wr_code_ok (addr AND 7) n"
proof (cases "n \<in> set [0, 1, 2, 3, 4, 5, 6, 7, 8, 16]")
  case True
  moreover have "addr AND 7 \<in> set [0, 1, 2, 3, 4, 5, 6, 7]"
    by (cases addr rule: and7_cases) simp_all
  ultimately show ?thesis
    using wr_code_ground unfolding list_all_iff by blast
next
  case False
  show ?thesis
  proof (cases "addr AND 7 \<noteq> 0 \<or> n AND 7 \<noteq> 0")
    case True
    with False have "DAR_util_get_wrsize_wdptr (addr AND 7) n = (BAD_SIZE, BAD_SIZE)"
      by (simp add: DAR_util_get_wrsize_wdptr_def low_bits)
    then show ?thesis
      by (simp add: wr_code_ok_def)
  next
    case aligned: False
    then have "DAR_util_get_wrsize_wdptr (addr AND 7) n =
        (if n \<le> 64 then (12, if n > 32 then 1 else 0) else if n \<le> 128 then (13, 1) else (15, 1))"
      using False by (simp add: DAR_util_get_wrsize_wdptr_def low_bits)
    moreover have "\<not> n \<le> 16"
    proof
      assume "n \<le> 16"
      moreover have "unat n mod 8 = 0"
        using aligned unat_and7 [of n] by simp
      ultimately have "unat n \<in> {0, 8, 16}"
        by (simp add: word_le_nat_alt) presburger
      with False show False
        by (auto simp: word_unat_eq_iff)
    qed
    ultimately show ?thesis
      using aligned by (auto simp: wr_code_ok_def DAR_util_compute_wr_bytes_n_align_def)
  qed
qed


lemma rd_code_back:
  assumes "DAR_util_get_rdsize_wdptr addr n = (s, w)" and "s \<noteq> BAD_SIZE"
  shows "s \<le> 15" and "w \<le> 1" and "DAR_util_compute_rd_bytes_n_align s w = (0, n, addr AND 7)"
  using assms rd_code_ok_low [of addr n] size_code_low(1) [of addr n] by (simp_all add: rd_code_ok_def)

lemma wr_code_back:
  assumes "DAR_util_get_wrsize_wdptr addr n = (s, w)" and "s \<noteq> BAD_SIZE" and "n \<le> 256"
  obtains m where "s \<le> 15" and "w \<le> 1" and "DAR_util_compute_wr_bytes_n_align s w = (0, m, addr AND 7)"
    and "n \<le> m" and "m \<le> 256" and "n \<le> 16 \<or> n \<in> {32, 64, 128, 256} \<Longrightarrow> m = n"
proof -
  obtain rc m b where "DAR_util_compute_wr_bytes_n_align s w = (rc, m, b)"
    by (cases "DAR_util_compute_wr_bytes_n_align s w")
  with assms that show ?thesis
    using wr_code_ok_low [of addr n] size_code_low(2) [of addr n] by (auto simp: wr_code_ok_def)
qed

section \<open>Properties\<close>

text \<open>
  Read size codes are exact and complete: whenever the encoder finds a code for a read of \<open>n\<close> bytes
  at an address, the decoder returns \<open>n\<close> and the offset of the address in its double word; and every
  code the decoder accepts is the code of the transfer it returns.
\<close>

theorem rdsize_roundtrip:
  "(\<forall>s w. DAR_util_get_rdsize_wdptr addr n = (s, w) \<and> s \<noteq> BAD_SIZE \<longrightarrow>
      s \<le> 15 \<and> w \<le> 1 \<and> DAR_util_compute_rd_bytes_n_align s w = (0, n, addr AND 7)) \<and>
   (\<forall>s w m a. DAR_util_compute_rd_bytes_n_align s w = (0, m, a) \<longrightarrow> DAR_util_get_rdsize_wdptr a m = (s, w))"
proof (rule conjI; intro allI impI)
  fix s w
  assume "DAR_util_get_rdsize_wdptr addr n = (s, w) \<and> s \<noteq> BAD_SIZE"
  then show "s \<le> 15 \<and> w \<le> 1 \<and> DAR_util_compute_rd_bytes_n_align s w = (0, n, addr AND 7)"
    using rd_code_back by blast
next
  fix s w m a
  assume c: "DAR_util_compute_rd_bytes_n_align s w = (0, m, a)"
  then have "w \<in> set [0, 1]" "s \<in> set [0, 1, 2, 3, 4, 5, 6, 7, 8, 9, 10, 11, 12, 13, 14, 15]"
    by (auto simp: DAR_util_compute_rd_bytes_n_align_def split: if_splits)
  with c rd_decode_ground show "DAR_util_get_rdsize_wdptr a m = (s, w)"
    unfolding list_all_iff by fastforce
qed

theorem rdsize_roundtrip_witness:
  "DAR_util_get_rdsize_wdptr 0x1005 3 = (5, 1) \<and> DAR_util_compute_rd_bytes_n_align 5 1 = (0, 3, 5)"
proof -
  have "DAR_util_get_rdsize_wdptr 0x1005 3 = (5, 1)"
    by (simp add: DAR_util_get_rdsize_wdptr_def)
  with rdsize_roundtrip [of "0x1005" 3] show ?thesis
    by simp
qed

text \<open>
  Write size codes cover the transfer: whenever the encoder finds a code for a write of at most 256
  bytes, the decoder returns the offset of the address and a size that is not smaller, and exactly the
  size for up to 16 bytes and for powers of two.
\<close>

theorem wrsize_covers:
  assumes "DAR_util_get_wrsize_wdptr addr n = (s, w)" and "s \<noteq> BAD_SIZE" and "n \<le> 256"
  shows "s \<le> 15 \<and> w \<le> 1 \<and>
    (\<exists>m. DAR_util_compute_wr_bytes_n_align s w = (0, m, addr AND 7) \<and> n \<le> m \<and> m \<le> 256 \<and>
       (n \<le> 16 \<or> n \<in> {32, 64, 128, 256} \<longrightarrow> m = n))"
  using wr_code_back [OF assms] by metis

theorem wrsize_covers_witness:
  "\<exists>s w m. DAR_util_get_wrsize_wdptr 0x1000 24 = (s, w) \<and> DAR_util_compute_wr_bytes_n_align s w = (0, m, 0) \<and> 24 \<le> m"
proof -
  have g: "DAR_util_get_wrsize_wdptr 0x1000 24 = (12, 0)"
    by (simp add: DAR_util_get_wrsize_wdptr_def)
  from wrsize_covers [OF g] g show ?thesis
    by auto
qed

end
