(* ===== verification/Control_Symbols.thy ===== *)
theory Control_Symbols
  imports Rio_Prelude
begin

unbundle bit_operations_syntax

text \<open>
  Control symbols, \<^verbatim>\<open>fabric_management/librio/src/RapidIO_Utilities_API.c\<close> (functions \<open>CS_fields_to_bytes\<close>,
  \<open>CS_bytes_to_fields\<close>, the two checksums and the descriptions). The enumerations \<open>stype0\<close>, \<open>stype1\<close> and
  \<open>stype2\<close> have one name for each of the eight codes and are cast from and to integers, so they are 32-bit
  words here. A byte array is a list of eight bytes.
\<close>

section \<open>Data\<close>

datatype rio_cs_size = cs_invalid | cs_small | cs_large

record CS_field_t =
  cs_size :: rio_cs_size
  cs_t0 :: u32
  parm_0 :: u32
  parm_1 :: u32
  cs_t1 :: u32
  cs_t1_cmd :: u32
  cs_t2 :: u32
  cs_t2_val :: u32
  cs_crc :: u32
  cs_crc_correct :: bool

record CS_bytes_t =
  cs_type_valid :: rio_cs_size
  cs_bytes :: "u8 list"

abbreviation (input) RIO_SUCCESS :: u32 where "RIO_SUCCESS \<equiv> 0"
abbreviation (input) RIO_ERR_INVALID_PARAMETER :: u32 where "RIO_ERR_INVALID_PARAMETER \<equiv> 0x1002"
abbreviation (input) DAR_FIRST_IMP_SPEC_WARNING :: u32 where "DAR_FIRST_IMP_SPEC_WARNING \<equiv> 0x0800"
abbreviation (input) PD_CONTROL_SYMBOL :: u8 where "PD_CONTROL_SYMBOL \<equiv> 0x7C"
abbreviation (input) SC_START_CONTROL_SYMBOL :: u8 where "SC_START_CONTROL_SYMBOL \<equiv> 0x1C"

abbreviation (input) stype0_pna :: u32 where "stype0_pna \<equiv> 2"
abbreviation (input) stype0_lresp :: u32 where "stype0_lresp \<equiv> 6"
abbreviation (input) stype1_sop :: u32 where "stype1_sop \<equiv> 0"
abbreviation (input) stype1_stomp :: u32 where "stype1_stomp \<equiv> 1"
abbreviation (input) stype1_eop :: u32 where "stype1_eop \<equiv> 2"
abbreviation (input) stype1_lreq :: u32 where "stype1_lreq \<equiv> 4"

section \<open>Checksums\<close>

definition CS_13bit_crc_bit_mask :: "u32 list" where
  "CS_13bit_crc_bit_mask =
     [0x0888, 0x0444, 0x0222, 0x0111, 0x121A, 0x090D, 0x1614, 0x0B0A, 0x0585, 0x1050, 0x0828, 0x0414,
      0x020a, 0x0105, 0x1210, 0x0908, 0x0484, 0x0242, 0x0121, 0x1202, 0x0901, 0x1612, 0x0b09, 0x1716,
      0x0b8b, 0x1757, 0x1939, 0x1e0e, 0x0f07, 0x1511, 0x181a, 0x0c0d, 0x1494, 0x0a4a, 0x0525]"

abbreviation (input) NUM_CRC13_VECTORS :: nat where "NUM_CRC13_VECTORS \<equiv> 35"

text \<open>One iteration of the loop of \<open>compute_13bit_crc\<close>, with \<open>bit\<close> the word that has only bit \<open>31 - i\<close> set.\<close>

definition crc13_step :: "u32 \<Rightarrow> u32 \<Rightarrow> nat \<Rightarrow> u32 \<Rightarrow> u32" where
  "crc13_step msbits lsbits i crc =
     (let b = drop_bit i 0x80000000;
          c1 = (if msbits AND b \<noteq> 0 then crc XOR CS_13bit_crc_bit_mask ! i else crc)
      in if lsbits AND b \<noteq> 0 \<and> i + 32 < NUM_CRC13_VECTORS
         then c1 XOR CS_13bit_crc_bit_mask ! (i + 32) else c1)"

definition compute_13bit_crc :: "u32 \<Rightarrow> u32 \<Rightarrow> u32" where
  "compute_13bit_crc msbits lsbits =
     fold (crc13_step msbits (lsbits AND 0xE0000000)) [0..<32] 0x1FFF"

definition CS_5bit_crc_bit_mask :: "u32 list" where
  "CS_5bit_crc_bit_mask = [0xB8536, 0x70A67, 0x591EA, 0xB23B6, 0xDC29A]"

definition CS_5bit_crc_invert_mask :: "u32 list" where
  "CS_5bit_crc_invert_mask = [0x00000, 0x00002, 0x00002, 0x00002, 0x00000]"

definition count_bits :: "u32 \<Rightarrow> nat" where
  "count_bits v =
     (if v \<noteq> 0 then fold (\<lambda>i rc. if push_bit i 1 AND v \<noteq> 0 then rc + 1 else rc) [0..<16] 0 else 0)"

definition compute_5bit_crc :: "u32 \<Rightarrow> u32" where
  "compute_5bit_crc small_cs_data =
     fold (\<lambda>i crc. crc + push_bit (4 - i)
             (of_nat (count_bits ((small_cs_data XOR CS_5bit_crc_invert_mask ! i) AND CS_5bit_crc_bit_mask ! i)) AND 1))
       [0..<5] 0"

section \<open>Composition and parsing\<close>

definition SHORT_CS_VALUE :: "u8 \<Rightarrow> u8 \<Rightarrow> u8 \<Rightarrow> u32" where
  "SHORT_CS_VALUE x y z = push_bit 11 (ucast x) + push_bit 3 (ucast y) + drop_bit 5 (ucast z AND 0xE0)"

definition LONG_CS_VALUE_MS :: "u8 \<Rightarrow> u8 \<Rightarrow> u8 \<Rightarrow> u8 \<Rightarrow> u32" where
  "LONG_CS_VALUE_MS w x y z = push_bit 24 (ucast w) + push_bit 16 (ucast x) + push_bit 8 (ucast y) + ucast z"

definition LONG_CS_VALUE_LS :: "u8 \<Rightarrow> u32" where
  "LONG_CS_VALUE_LS x = push_bit 24 (ucast x AND 0xE0)"

text \<open>The control symbols that delimit packets, or request something of the link partner.\<close>

definition is_delimiter :: "u32 \<Rightarrow> bool" where
  "is_delimiter t1 \<longleftrightarrow> stype1_sop = t1 \<or> stype1_stomp = t1 \<or> stype1_eop = t1 \<or> stype1_lreq = t1"

definition CS_fields_to_bytes :: "CS_field_t \<Rightarrow> CS_bytes_t \<Rightarrow> u32 \<times> CS_bytes_t" where
  "CS_fields_to_bytes f out =
     (if cs_size f = cs_invalid then (RIO_ERR_INVALID_PARAMETER, out\<lparr>cs_type_valid := cs_invalid\<rparr>)
      else
        (let b0 = (if is_delimiter (cs_t1 f) then PD_CONTROL_SYMBOL else SC_START_CONTROL_SYMBOL) in
         if cs_size f = cs_small then
           (let b1 = ucast (push_bit 5 (cs_t0 f AND 7) OR (parm_0 f AND 0x1F));
                b2 = ucast (push_bit 3 (parm_1 f AND 0x1F) OR (cs_t1 f AND 7));
                b3 = ucast (push_bit 5 (cs_t1_cmd f AND 7));
                b3' = b3 + ucast (compute_5bit_crc (SHORT_CS_VALUE b1 b2 b3))
            in (RIO_SUCCESS, \<lparr>cs_type_valid = cs_small, cs_bytes = (cs_bytes out)[0 := b0, 1 := b1, 2 := b2, 3 := b3']\<rparr>))
         else
           (let b1 = ucast (push_bit 5 (cs_t0 f AND 7) OR drop_bit 1 (parm_0 f AND 0x3E));
                b2 = ucast (push_bit 7 (parm_0 f AND 1) OR push_bit 1 (parm_1 f AND 0x3F) OR drop_bit 2 (cs_t1 f AND 4));
                b3 = ucast (push_bit 6 (cs_t1 f AND 3) OR push_bit 3 (cs_t1_cmd f AND 7) OR (cs_t2 f AND 7));
                b4 = ucast (drop_bit 3 (cs_t2_val f AND 0x7F8));
                b5 = ucast (push_bit 5 (cs_t2_val f AND 7));
                large_crc = compute_13bit_crc (LONG_CS_VALUE_MS b1 b2 b3 b4) (LONG_CS_VALUE_LS b5);
                b6 = ucast (large_crc AND 0x00FF);
                b5' = b5 + ucast (drop_bit 8 (large_crc AND 0x1F00))
            in (RIO_SUCCESS, \<lparr>cs_type_valid = cs_large,
                  cs_bytes = (cs_bytes out)[0 := b0, 1 := b1, 2 := b2, 3 := b3, 4 := b4, 5 := b5', 6 := b6, 7 := b0]\<rparr>))))"

definition CS_bytes_to_fields :: "CS_bytes_t \<Rightarrow> CS_field_t \<Rightarrow> u32 \<times> CS_field_t" where
  "CS_bytes_to_fields bytes_in out =
     (if cs_type_valid bytes_in = cs_invalid then (RIO_SUCCESS, out\<lparr>cs_size := cs_invalid\<rparr>)
      else
        (let first = cs_bytes bytes_in ! 0;
             control_symbol = (first = PD_CONTROL_SYMBOL \<or> first = SC_START_CONTROL_SYMBOL);
             at = (\<lambda>i. cs_bytes bytes_in ! (i + (if control_symbol then 1 else 0)));
             byt = (\<lambda>i. ucast (at i) :: u32);
             f = (if cs_type_valid bytes_in = cs_small then
                    out\<lparr>cs_size := cs_small,
                        cs_t0 := drop_bit 5 (byt 0 AND 0xE0),
                        parm_0 := byt 0 AND 0x1F,
                        parm_1 := drop_bit 3 (byt 1 AND 0xF8),
                        cs_t1 := byt 1 AND 0x07,
                        cs_t1_cmd := drop_bit 5 (byt 2 AND 0xE0),
                        cs_t2 := 0,
                        cs_t2_val := 0,
                        cs_crc_correct := (compute_5bit_crc (SHORT_CS_VALUE (at 0) (at 1) (at 2)) = byt 2 AND 0x1F)\<rparr>
                  else
                    out\<lparr>cs_size := cs_large,
                        cs_t0 := drop_bit 5 (byt 0 AND 0xE0),
                        parm_0 := push_bit 1 (byt 0 AND 0x1F) + drop_bit 7 (byt 1 AND 0x80),
                        parm_1 := drop_bit 1 (byt 1 AND 0x7E),
                        cs_t1 := push_bit 2 (byt 1 AND 0x01) + drop_bit 6 (byt 2 AND 0xC0),
                        cs_t1_cmd := drop_bit 3 (byt 2 AND 0x38),
                        cs_t2 := byt 2 AND 0x07,
                        cs_t2_val := push_bit 3 (byt 3) + drop_bit 5 (byt 4 AND 0xE0),
                        cs_crc_correct :=
                          (compute_13bit_crc (LONG_CS_VALUE_MS (at 0) (at 1) (at 2) (at 3)) (LONG_CS_VALUE_LS (at 4)) =
                           push_bit 8 (byt 4 AND 0x1f) + byt 5)\<rparr>);
             rc = (if control_symbol \<and>
                      (if is_delimiter (cs_t1 f) then first \<noteq> PD_CONTROL_SYMBOL else first \<noteq> SC_START_CONTROL_SYMBOL)
                   then DAR_FIRST_IMP_SPEC_WARNING else RIO_SUCCESS)
         in (rc, f)))"

section \<open>Descriptions\<close>

definition stype0_strings :: "string list" where
  "stype0_strings = [''Packet-Accepted'', ''Packet-Retry'', ''Packet-no-Accepted'', ''Reserved'', ''Status'',
     ''VC_Status'', ''Link_response'', ''Imp_Spec'']"

definition get_stype0_descr :: "CS_field_t \<Rightarrow> string" where
  "get_stype0_descr f = stype0_strings ! unat (cs_t0 f)"

definition pna_cause_strings :: "string list" where
  "pna_cause_strings = [''Reserved'', ''Unexpected AckID'', ''Bad CS CRC'', ''Non-mtc RX stopped'', ''Bad Pkt CRC'',
     ''Bad 10b char'', ''Lack of resources'', ''Lost Descrambler Sync'', ''General Error'']"

definition get_stype0_PNA_cause_parm1 :: "CS_field_t \<Rightarrow> string option" where
  "get_stype0_PNA_cause_parm1 f =
     (if stype0_pna = cs_t0 f then
        Some (if parm_1 f \<le> 7 then pna_cause_strings ! unat (parm_1 f)
              else if parm_1 f = 0x1F then pna_cause_strings ! 8 else pna_cause_strings ! 0)
      else None)"

definition lr_port_status_strings :: "string list" where
  "lr_port_status_strings = [''Reserved'', ''Error'', ''Retry-stopped'', ''Error-stopped'', ''OK'']"

definition get_stype0_LR_port_status_parm1 :: "CS_field_t \<Rightarrow> string option" where
  "get_stype0_LR_port_status_parm1 f =
     (if stype0_lresp = cs_t0 f then
        Some (lr_port_status_strings !
                (if parm_1 f = 2 then 1 else if parm_1 f = 4 then 2 else if parm_1 f = 5 then 3
                 else if parm_1 f = 0x10 then 4 else 0))
      else None)"

definition stype1_strings :: "string list" where
  "stype1_strings = [''Start of Packet'', ''Stomp'', ''End-of-packet'', ''restart-from-retry'', ''Link-Request'',
     ''Multicast-Event'', ''Reserved'', ''NOP'']"

definition get_stype1_descr :: "CS_field_t \<Rightarrow> string" where
  "get_stype1_descr f = stype1_strings ! unat (cs_t1 f)"

definition lreq_cmd_strings :: "string list" where
  "lreq_cmd_strings = [''Reserved'', ''reset-device'', ''input-status'']"

definition get_stype1_lreq_cmd :: "CS_field_t \<Rightarrow> string option" where
  "get_stype1_lreq_cmd f =
     (if stype1_lreq = cs_t1 f then
        Some (if cs_t1_cmd f = 3 then lreq_cmd_strings ! 1
              else if cs_t1_cmd f = 4 then lreq_cmd_strings ! 2 else lreq_cmd_strings ! 0)
      else None)"

definition stype2_strings :: "string list" where
  "stype2_strings = [''NOP'', ''VoQ Backpressure'', ''Reserved'']"

definition get_stype2_descr :: "CS_field_t \<Rightarrow> string" where
  "get_stype2_descr f = (if cs_t2 f > 1 then stype2_strings ! 2 else stype2_strings ! unat (cs_t2 f))"


section \<open>Facts on the checksums\<close>

lemma fold_count: "fold (\<lambda>i rc. if P i then rc + 1 else rc) xs n = n + length (filter P xs)"
  by (induction xs arbitrary: n) auto

lemma count_bits_eq: "count_bits v = length (filter (bit v) [0..<16])"
proof -
  have "push_bit i 1 AND v \<noteq> 0 \<longleftrightarrow> bit v i" for i
    by (simp add: bit_iff_and_push_bit_not_eq_0 and.commute)
  then show ?thesis
    by (simp add: count_bits_def fold_count)
qed

text \<open>\<open>count_bits\<close> ignores everything above bit 15.\<close>

lemma count_bits_low:
  assumes "\<And>n. n < 16 \<Longrightarrow> bit v n = bit w n"
  shows "count_bits v = count_bits w"
  unfolding count_bits_eq by (rule arg_cong [of _ _ length], rule filter_cong) (auto simp: assms)

definition parity :: "u32 \<Rightarrow> u32" where
  "parity v = (if odd (count_bits v) then 1 else 0)"

lemma parity_eq: "of_nat (count_bits v) AND 1 = parity v"
  by (simp add: parity_def and_one_eq mod2_eq_if)

lemma parity_cases: "parity v = 0 \<or> parity v = 1"
  by (simp add: parity_def)

lemma crc5_parities:
  "compute_5bit_crc d =
     (let p = (\<lambda>i. parity ((d XOR CS_5bit_crc_invert_mask ! i) AND CS_5bit_crc_bit_mask ! i)) in
      push_bit 4 (p 0) + push_bit 3 (p 1) + push_bit 2 (p 2) + push_bit 1 (p 3) + push_bit 0 (p 4))"
proof -
  have five: "[0..<5] = [0, 1, 2, 3, 4]"
    by (simp add: upt_rec)
  show ?thesis
    unfolding compute_5bit_crc_def parity_eq five by (simp add: Let_def)
qed

lemma crc5_fits: "fits 5 (compute_5bit_crc d)"
proof -
  have "fits 5 (push_bit 4 a + push_bit 3 b + push_bit 2 c + push_bit 1 e + push_bit 0 f)"
    if "a = 0 \<or> a = 1" "b = 0 \<or> b = 1" "c = 0 \<or> c = 1" "e = 0 \<or> e = 1" "f = 0 \<or> f = 1" for a b c e f :: u32
    using that by (auto simp: fits_def)
  from this [OF parity_cases parity_cases parity_cases parity_cases parity_cases] show ?thesis
    by (simp only: crc5_parities Let_def)
qed

lemma crc13_masks: "\<forall>m\<in>set CS_13bit_crc_bit_mask. fits 13 m"
  by (simp add: CS_13bit_crc_bit_mask_def fits_def)

lemma crc13_length: "length CS_13bit_crc_bit_mask = 35"
  by (simp add: CS_13bit_crc_bit_mask_def)

lemma crc13_step_fits: "fits 13 c \<Longrightarrow> i < 32 \<Longrightarrow> fits 13 (crc13_step m l i c)"
  using crc13_masks crc13_length by (auto simp: crc13_step_def Let_def intro!: fits_xor)

lemma crc13_fits: "fits 13 (compute_13bit_crc m l)"
proof -
  have run: "set is \<subseteq> {0..<32} \<Longrightarrow> fits 13 c \<Longrightarrow> fits 13 (fold (crc13_step m k) is c)" for "is" k c
    by (induction "is" arbitrary: c) (auto intro: crc13_step_fits)
  show ?thesis
    unfolding compute_13bit_crc_def by (rule run) (auto simp: fits_def)
qed

section \<open>Packing and unpacking\<close>

text \<open>A byte put together from disjoint fields, and the fields read back.\<close>

lemma add_disjoint:
  fixes x y :: "'a::len word"
  assumes "\<And>n. \<not> (bit x n \<and> bit y n)"
  shows "x + y = x OR y"
  using assms by (intro disjunctive_add) blast

lemma join_fields: "push_bit k (drop_bit k x) + (x AND mask k) = (x :: u32)"
proof (subst add_disjoint)
  show "push_bit k (drop_bit k x) OR (x AND mask k) = x"
    by (rule bit_word_eqI) (auto simp: bit_simps)
qed (auto simp: bit_simps)

lemma small_bytes:
  fixes t0 p0 p1 t1 cmd crc :: u32
  assumes "fits 3 t0" and "fits 5 p0" and "fits 5 p1" and "fits 3 t1" and "fits 3 cmd" and "fits 5 crc"
    and "b1 = (ucast (push_bit 5 (t0 AND 7) OR (p0 AND 0x1F)) :: u8)"
    and "b2 = (ucast (push_bit 3 (p1 AND 0x1F) OR (t1 AND 7)) :: u8)"
    and "b3 = (ucast (push_bit 5 (cmd AND 7)) :: u8)"
  shows "drop_bit 5 ((ucast b1 :: u32) AND 0xE0) = t0" "(ucast b1 :: u32) AND 0x1F = p0"
    "drop_bit 3 ((ucast b2 :: u32) AND 0xF8) = p1" "(ucast b2 :: u32) AND 0x07 = t1"
    "drop_bit 5 ((ucast (b3 + ucast crc) :: u32) AND 0xE0) = cmd"
    "(ucast (b3 + ucast crc) :: u32) AND 0x1F = crc"
proof -
  note bits = assms(1-6) [THEN fits_bit]
  have add: "b3 + ucast crc = b3 OR ucast crc"
    by (rule add_disjoint) (use bits(6) in \<open>auto simp: assms(9) u32_masks bit_simps dest: bits\<close>)
  show "drop_bit 5 ((ucast b1 :: u32) AND 0xE0) = t0" "(ucast b1 :: u32) AND 0x1F = p0"
    unfolding assms(7) u32_masks by (rule bit_word_eqI; auto simp: bit_simps dest: bits)+
  show "drop_bit 3 ((ucast b2 :: u32) AND 0xF8) = p1" "(ucast b2 :: u32) AND 0x07 = t1"
    unfolding assms(8) u32_masks by (rule bit_word_eqI; auto simp: bit_simps dest: bits)+
  show "drop_bit 5 ((ucast (b3 + ucast crc) :: u32) AND 0xE0) = cmd"
    "(ucast (b3 + ucast crc) :: u32) AND 0x1F = crc"
    unfolding add unfolding assms(9) u32_masks by (rule bit_word_eqI; auto simp: bit_simps dest: bits)+
qed


lemma large_bytes:
  fixes t0 p0 p1 t1 cmd t2 v crc :: u32
  assumes "fits 3 t0" and "fits 6 p0" and "fits 6 p1" and "fits 3 t1" and "fits 3 cmd" and "fits 3 t2"
    and "fits 11 v" and "fits 13 crc"
    and "b1 = (ucast (push_bit 5 (t0 AND 7) OR drop_bit 1 (p0 AND 0x3E)) :: u8)"
    and "b2 = (ucast (push_bit 7 (p0 AND 1) OR push_bit 1 (p1 AND 0x3F) OR drop_bit 2 (t1 AND 4)) :: u8)"
    and "b3 = (ucast (push_bit 6 (t1 AND 3) OR push_bit 3 (cmd AND 7) OR (t2 AND 7)) :: u8)"
    and "b4 = (ucast (drop_bit 3 (v AND 0x7F8)) :: u8)"
    and "b5 = (ucast (push_bit 5 (v AND 7)) :: u8)"
    and "b5' = b5 + (ucast (drop_bit 8 (crc AND 0x1F00)) :: u8)"
    and "b6 = (ucast (crc AND 0x00FF) :: u8)"
  shows "drop_bit 5 ((ucast b1 :: u32) AND 0xE0) = t0"
    "push_bit 1 ((ucast b1 :: u32) AND 0x1F) + drop_bit 7 ((ucast b2 :: u32) AND 0x80) = p0"
    "drop_bit 1 ((ucast b2 :: u32) AND 0x7E) = p1"
    "push_bit 2 ((ucast b2 :: u32) AND 0x01) + drop_bit 6 ((ucast b3 :: u32) AND 0xC0) = t1"
    "drop_bit 3 ((ucast b3 :: u32) AND 0x38) = cmd"
    "(ucast b3 :: u32) AND 0x07 = t2"
    "push_bit 3 (ucast b4 :: u32) + drop_bit 5 ((ucast b5' :: u32) AND 0xE0) = v"
    "push_bit 8 ((ucast b5' :: u32) AND 0x1f) + (ucast b6 :: u32) = crc"
proof -
  note bits = assms(1-8) [THEN fits_bit]
  have b5': "b5' = b5 OR ucast (drop_bit 8 (crc AND 0x1F00))"
    unfolding assms(14)
    by (rule add_disjoint) (use bits(8) in \<open>auto simp: assms(13) u32_masks bit_simps\<close>)
  show "drop_bit 5 ((ucast b1 :: u32) AND 0xE0) = t0"
    unfolding assms(9) u32_masks by (rule bit_word_eqI; simp only: bit_simps o_apply; auto dest: bits)
  show "drop_bit 1 ((ucast b2 :: u32) AND 0x7E) = p1"
    unfolding assms(10) u32_masks by (rule bit_word_eqI; simp only: bit_simps o_apply; auto dest: bits)
  show "drop_bit 3 ((ucast b3 :: u32) AND 0x38) = cmd" "(ucast b3 :: u32) AND 0x07 = t2"
    unfolding assms(11) u32_masks by (rule bit_word_eqI; simp only: bit_simps o_apply; auto dest: bits)+
  have p0: "(ucast b1 :: u32) AND 0x1F = drop_bit 1 p0" "drop_bit 7 ((ucast b2 :: u32) AND 0x80) = p0 AND mask 1"
    unfolding assms(9,10) u32_masks by (rule bit_word_eqI; simp only: bit_simps o_apply; auto dest: bits)+
  have t1: "(ucast b2 :: u32) AND 0x01 = drop_bit 2 t1" "drop_bit 6 ((ucast b3 :: u32) AND 0xC0) = t1 AND mask 2"
    unfolding assms(10,11) u32_masks by (rule bit_word_eqI; simp only: bit_simps o_apply; auto dest: bits)+
  have v: "(ucast b4 :: u32) = drop_bit 3 v" "drop_bit 5 ((ucast b5' :: u32) AND 0xE0) = v AND mask 3"
    unfolding b5' unfolding assms(12,13) u32_masks
    by (rule bit_word_eqI; simp only: bit_simps o_apply; auto dest: bits)+
  have crc: "(ucast b5' :: u32) AND 0x1f = drop_bit 8 crc" "(ucast b6 :: u32) = crc AND mask 8"
    unfolding b5' unfolding assms(13,15) u32_masks
    by (rule bit_word_eqI; simp only: bit_simps o_apply; auto dest: bits)+
  show "push_bit 1 ((ucast b1 :: u32) AND 0x1F) + drop_bit 7 ((ucast b2 :: u32) AND 0x80) = p0"
    "push_bit 2 ((ucast b2 :: u32) AND 0x01) + drop_bit 6 ((ucast b3 :: u32) AND 0xC0) = t1"
    "push_bit 3 (ucast b4 :: u32) + drop_bit 5 ((ucast b5' :: u32) AND 0xE0) = v"
    "push_bit 8 ((ucast b5' :: u32) AND 0x1f) + (ucast b6 :: u32) = crc"
    unfolding p0 t1 v crc by (rule join_fields)+
qed


text \<open>Fields that fit in their places; a small control symbol has no \<open>stype2\<close> part.\<close>

definition cs_fields_ok :: "CS_field_t \<Rightarrow> bool" where
  "cs_fields_ok f \<longleftrightarrow>
     fits 3 (cs_t0 f) \<and> fits 3 (cs_t1 f) \<and> fits 3 (cs_t1_cmd f) \<and>
     (case cs_size f of
        cs_invalid \<Rightarrow> False
      | cs_small \<Rightarrow> fits 5 (parm_0 f) \<and> fits 5 (parm_1 f) \<and> cs_t2 f = 0 \<and> cs_t2_val f = 0
      | cs_large \<Rightarrow> fits 6 (parm_0 f) \<and> fits 6 (parm_1 f) \<and> fits 3 (cs_t2 f) \<and> fits 11 (cs_t2_val f))"

lemma length_8: "length xs = 8 \<Longrightarrow> \<exists>a b c d e f g h. xs = [a, b, c, d, e, f, g, h]"
  by (auto simp: length_Suc_conv numeral_eq_Suc)

lemma short_value_crc:
  fixes cmd crc :: u32
  assumes "fits 3 cmd" and "fits 5 crc" and "b3 = (ucast (push_bit 5 (cmd AND 7)) :: u8)"
  shows "SHORT_CS_VALUE b1 b2 (b3 + ucast crc) = SHORT_CS_VALUE b1 b2 b3"
  using small_bytes(5) [of 0 0 0 0 cmd crc _ _ b3] small_bytes(5) [of 0 0 0 0 cmd 0 _ _ b3] assms
  by (simp add: SHORT_CS_VALUE_def fits_def)

lemma long_value_crc:
  fixes v crc :: u32
  assumes "fits 11 v" and "fits 13 crc" and "b5 = (ucast (push_bit 5 (v AND 7)) :: u8)"
  shows "LONG_CS_VALUE_LS (b5 + ucast (drop_bit 8 (crc AND 0x1F00))) = LONG_CS_VALUE_LS b5"
proof -
  note bits = assms(1,2) [THEN fits_bit]
  have "(ucast (b5 + ucast (drop_bit 8 (crc AND 0x1F00))) :: u32) AND 0xE0 = ucast b5 AND 0xE0"
    unfolding assms(3)
    by (subst add_disjoint; (rule bit_word_eqI)?; simp only: u32_masks bit_simps o_apply; auto dest: bits)
  then show ?thesis
    by (simp add: LONG_CS_VALUE_LS_def)
qed

lemma cs_roundtrip_small:
  assumes ok: "cs_fields_ok f" and sz: "cs_size f = cs_small" and len: "length (cs_bytes out) = 8"
  shows "\<exists>b. CS_fields_to_bytes f out = (RIO_SUCCESS, b) \<and>
     CS_bytes_to_fields b g = (RIO_SUCCESS, f\<lparr>cs_crc := cs_crc g, cs_crc_correct := True\<rparr>)"
proof -
  define b1 :: u8 where "b1 = ucast (push_bit 5 (cs_t0 f AND 7) OR (parm_0 f AND 0x1F))"
  define b2 :: u8 where "b2 = ucast (push_bit 3 (parm_1 f AND 0x1F) OR (cs_t1 f AND 7))"
  define b3 :: u8 where "b3 = ucast (push_bit 5 (cs_t1_cmd f AND 7))"
  define crc where "crc = compute_5bit_crc (SHORT_CS_VALUE b1 b2 b3)"
  from ok sz have fit: "fits 3 (cs_t0 f)" "fits 5 (parm_0 f)" "fits 5 (parm_1 f)" "fits 3 (cs_t1 f)" "fits 3 (cs_t1_cmd f)"
      "fits 5 crc" and t2: "cs_t2 f = 0" "cs_t2_val f = 0"
    by (auto simp: cs_fields_ok_def crc_def crc5_fits)
  note decode = small_bytes [OF fit b1_def b2_def b3_def]
  have short: "SHORT_CS_VALUE b1 b2 (b3 + ucast crc) = SHORT_CS_VALUE b1 b2 b3"
    using short_value_crc [OF fit(5,6) b3_def] .
  obtain a b c d e f' g' h where bytes: "cs_bytes out = [a, b, c, d, e, f', g', h]"
    using length_8 [OF len] by blast
  define b0 where "b0 = (if is_delimiter (cs_t1 f) then PD_CONTROL_SYMBOL else SC_START_CONTROL_SYMBOL)"
  have encode: "CS_fields_to_bytes f out = (RIO_SUCCESS, \<lparr>cs_type_valid = cs_small,
      cs_bytes = [b0, b1, b2, b3 + ucast crc, e, f', g', h]\<rparr>)"
    by (simp add: CS_fields_to_bytes_def sz Let_def bytes b0_def b1_def b2_def b3_def crc_def)
  have ctl: "b0 = PD_CONTROL_SYMBOL \<or> b0 = SC_START_CONTROL_SYMBOL"
    by (simp add: b0_def)
  have "CS_bytes_to_fields \<lparr>cs_type_valid = cs_small, cs_bytes = [b0, b1, b2, b3 + ucast crc, e, f', g', h]\<rparr> g =
      (RIO_SUCCESS, f\<lparr>cs_crc := cs_crc g, cs_crc_correct := True\<rparr>)"
    using sz t2 ctl
    by (simp add: CS_bytes_to_fields_def Let_def decode short crc_def [symmetric]
          del: drop_bit_and push_bit_and One_nat_def) (simp add: b0_def)
  with encode show ?thesis
    by blast
qed

lemma cs_roundtrip_large:
  assumes ok: "cs_fields_ok f" and sz: "cs_size f = cs_large" and len: "length (cs_bytes out) = 8"
  shows "\<exists>b. CS_fields_to_bytes f out = (RIO_SUCCESS, b) \<and>
     CS_bytes_to_fields b g = (RIO_SUCCESS, f\<lparr>cs_crc := cs_crc g, cs_crc_correct := True\<rparr>)"
proof -
  define b1 :: u8 where "b1 = ucast (push_bit 5 (cs_t0 f AND 7) OR drop_bit 1 (parm_0 f AND 0x3E))"
  define b2 :: u8 where "b2 = ucast (push_bit 7 (parm_0 f AND 1) OR push_bit 1 (parm_1 f AND 0x3F) OR drop_bit 2 (cs_t1 f AND 4))"
  define b3 :: u8 where "b3 = ucast (push_bit 6 (cs_t1 f AND 3) OR push_bit 3 (cs_t1_cmd f AND 7) OR (cs_t2 f AND 7))"
  define b4 :: u8 where "b4 = ucast (drop_bit 3 (cs_t2_val f AND 0x7F8))"
  define b5 :: u8 where "b5 = ucast (push_bit 5 (cs_t2_val f AND 7))"
  define crc where "crc = compute_13bit_crc (LONG_CS_VALUE_MS b1 b2 b3 b4) (LONG_CS_VALUE_LS b5)"
  define b5' where "b5' = b5 + (ucast (drop_bit 8 (crc AND 0x1F00)) :: u8)"
  define b6 :: u8 where "b6 = ucast (crc AND 0x00FF)"
  from ok sz have fit: "fits 3 (cs_t0 f)" "fits 6 (parm_0 f)" "fits 6 (parm_1 f)" "fits 3 (cs_t1 f)" "fits 3 (cs_t1_cmd f)"
      "fits 3 (cs_t2 f)" "fits 11 (cs_t2_val f)" "fits 13 crc"
    by (auto simp: cs_fields_ok_def crc_def crc13_fits)
  note decode = large_bytes [OF fit b1_def b2_def b3_def b4_def b5_def b5'_def b6_def]
  have long: "LONG_CS_VALUE_LS b5' = LONG_CS_VALUE_LS b5"
    using long_value_crc [OF fit(7,8) b5_def] by (simp add: b5'_def)
  obtain a b c d e f' g' h where bytes: "cs_bytes out = [a, b, c, d, e, f', g', h]"
    using length_8 [OF len] by blast
  define b0 where "b0 = (if is_delimiter (cs_t1 f) then PD_CONTROL_SYMBOL else SC_START_CONTROL_SYMBOL)"
  have encode: "CS_fields_to_bytes f out = (RIO_SUCCESS, \<lparr>cs_type_valid = cs_large, cs_bytes = [b0, b1, b2, b3, b4, b5', b6, b0]\<rparr>)"
    by (simp add: CS_fields_to_bytes_def sz Let_def bytes b0_def b1_def b2_def b3_def b4_def b5_def b5'_def b6_def crc_def)
  have ctl: "b0 = PD_CONTROL_SYMBOL \<or> b0 = SC_START_CONTROL_SYMBOL"
    by (simp add: b0_def)
  have "CS_bytes_to_fields \<lparr>cs_type_valid = cs_large, cs_bytes = [b0, b1, b2, b3, b4, b5', b6, b0]\<rparr> g =
      (RIO_SUCCESS, f\<lparr>cs_crc := cs_crc g, cs_crc_correct := True\<rparr>)"
    using sz ctl
    by (simp add: CS_bytes_to_fields_def Let_def decode long crc_def [symmetric]
          del: drop_bit_and push_bit_and One_nat_def) (simp add: b0_def)
  with encode show ?thesis
    by blast
qed


section \<open>What the checksums detect\<close>

text \<open>The error at data bit \<open>i\<close> of the 35 bits of a large control symbol, as the two words the checksum takes.\<close>

definition cs_error :: "nat \<Rightarrow> u32 \<times> u32" where
  "cs_error i = (if i < 32 then (drop_bit i 0x80000000, 0) else (0, drop_bit (i - 32) 0x80000000))"

definition syndrome :: "u32 \<times> u32 \<Rightarrow> u32" where
  "syndrome e = fold (crc13_step (fst e) (snd e AND 0xE0000000)) [0..<32] 0"

lemma single_bit: "drop_bit i (0x80000000 :: u32) = (if i < 32 then push_bit (31 - i) 1 else 0)"
proof -
  have top: "(0x80000000 :: u32) = push_bit 31 (mask 1)"
    by (simp add: mask_eq_exp_minus_1)
  have "bit (drop_bit i (push_bit 31 (mask 1) :: u32)) n \<longleftrightarrow> bit (if i < 32 then push_bit (31 - i) 1 else 0 :: u32) n" for n
    by (cases "i < 32"; simp only: bit_simps o_apply if_True if_False; auto)
  then show ?thesis
    unfolding top by (intro bit_word_eqI)
qed

lemma and_single_bit: "x AND drop_bit i (0x80000000 :: u32) \<noteq> 0 \<longleftrightarrow> i < 32 \<and> bit x (31 - i)"
  by (simp add: single_bit bit_iff_and_push_bit_not_eq_0)

lemma crc13_step_xor:
  "crc13_step (m XOR e) (l XOR g) i (c XOR d) = crc13_step m l i c XOR crc13_step e g i d"
  unfolding crc13_step_def Let_def and_single_bit bit_xor_iff
  by (cases "i < 32"; cases "bit m (31 - i)"; cases "bit e (31 - i)"; cases "bit l (31 - i)"; cases "bit g (31 - i)";
      cases "i + 32 < NUM_CRC13_VECTORS") (simp_all add: ac_simps)

lemma crc13_fold_xor:
  "fold (crc13_step (m XOR e) (l XOR g)) is (c XOR d) = fold (crc13_step m l) is c XOR fold (crc13_step e g) is d"
  by (induction "is" arbitrary: c d) (simp_all add: crc13_step_xor)

lemma and_xor_words: "(x XOR y) AND z = (x AND z) XOR (y AND z)" for x y z :: "'a::len word"
  by (rule bit_word_eqI) (auto simp: bit_simps)

lemma crc13_linear:
  "compute_13bit_crc (m XOR fst e) (l XOR snd e) = compute_13bit_crc m l XOR syndrome e"
  using crc13_fold_xor [of m "fst e" "l AND 0xE0000000" "snd e AND 0xE0000000" "[0..<32]" "0x1FFF" 0]
  by (simp add: compute_13bit_crc_def syndrome_def and_xor_words)

lemma syndrome_xor: "syndrome (fst e XOR fst e', snd e XOR snd e') = syndrome e XOR syndrome e'"
  using crc13_fold_xor [of "fst e" "fst e'" "snd e AND 0xE0000000" "snd e' AND 0xE0000000" "[0..<32]" 0 0]
  by (simp add: syndrome_def and_xor_words)

lemma crc13_masks_distinct: "distinct (0 # CS_13bit_crc_bit_mask)"
  by code_simp

lemma single_bits_meet:
  assumes "i < 32" and "j < 32"
  shows "drop_bit i 0x80000000 AND drop_bit j (0x80000000 :: u32) \<noteq> 0 \<longleftrightarrow> j = i"
  using assms unfolding and_single_bit by (auto simp: single_bit bit_simps simp del: push_bit_of_1)

lemma fold_one_step:
  fixes c m :: u32
  assumes "\<And>j c. j \<in> set js \<Longrightarrow> f j c = (if j = i then c XOR m else c)" and "distinct js"
  shows "fold f js c = (if i \<in> set js then c XOR m else c)"
  using assms by (induction js arbitrary: c) auto

text \<open>The checksum of a single error is the entry of the table for its position.\<close>

lemma syndrome_nth:
  assumes "i < 35"
  shows "syndrome (cs_error i) = CS_13bit_crc_bit_mask ! i"
proof (cases "i < 32")
  case True
  have "crc13_step (drop_bit i 0x80000000) 0 j c = (if j = i then c XOR CS_13bit_crc_bit_mask ! i else c)" if "j < 32" for j c
    unfolding crc13_step_def Let_def single_bits_meet [OF True that] by simp
  then show ?thesis
    using True fold_one_step [of "[0..<32]" "crc13_step (drop_bit i 0x80000000) 0" i "CS_13bit_crc_bit_mask ! i" 0]
    by (simp add: syndrome_def cs_error_def)
next
  case False
  define k where "k = i - 32"
  have k: "k < 3" "i = k + 32"
    using False assms by (auto simp: k_def)
  have "drop_bit k (0x80000000 :: u32) AND 0xE0000000 = drop_bit k 0x80000000"
    using k(1) unfolding single_bit u32_masks by (intro bit_word_eqI; simp only: bit_simps o_apply; auto simp: bit_simps)
  moreover have "crc13_step 0 (drop_bit k 0x80000000) j c = (if j = k then c XOR CS_13bit_crc_bit_mask ! i else c)" if "j < 32" for j c
  proof -
    have "k < 32"
      using k by simp
    then show ?thesis
      unfolding crc13_step_def Let_def single_bits_meet [OF _ that] using k single_bits_meet [OF _ that] by auto
  qed
  ultimately show ?thesis
    using k fold_one_step [of "[0..<32]" "crc13_step 0 (drop_bit k 0x80000000)" k "CS_13bit_crc_bit_mask ! i" 0]
    by (simp add: syndrome_def cs_error_def)
qed

lemma SHORT_CS_bits:
  "n < 16 \<Longrightarrow> bit (SHORT_CS_VALUE (x XOR push_bit 5 d) y z) n = bit (SHORT_CS_VALUE x y z) n"
proof -
  have split: "SHORT_CS_VALUE x y z = push_bit 11 (ucast x) OR push_bit 3 (ucast y) OR drop_bit 5 (ucast z AND 0xE0)"
    for x y z
    unfolding SHORT_CS_VALUE_def
    by (subst add_disjoint; (subst add_disjoint)?; simp only: u32_masks bit_simps o_apply; auto simp: or.assoc dest: bit_imp_le_length)
  assume "n < 16"
  then show ?thesis
    unfolding split by (simp only: bit_simps o_apply) auto
qed

lemma crc5_ignores_t0: "compute_5bit_crc (SHORT_CS_VALUE (x XOR push_bit 5 d) y z) = compute_5bit_crc (SHORT_CS_VALUE x y z)"
proof -
  have "parity ((SHORT_CS_VALUE (x XOR push_bit 5 d) y z XOR a) AND m) = parity ((SHORT_CS_VALUE x y z XOR a) AND m)" for a m
    unfolding parity_def by (subst count_bits_low) (auto simp: bit_simps SHORT_CS_bits)
  then show ?thesis
    by (simp add: crc5_parities)
qed


text \<open>Data bit \<open>i\<close> of a large control symbol inverted on the way: bit 0 is the first one after the control character.\<close>

definition cs_flip :: "nat \<Rightarrow> u8 list \<Rightarrow> u8 list" where
  "cs_flip i bs = bs[Suc (i div 8) := bs ! Suc (i div 8) XOR push_bit (7 - i mod 8) 1]"

definition cs_error_byte :: "nat \<Rightarrow> nat \<Rightarrow> u8" where
  "cs_error_byte i k = (if i div 8 = k then push_bit (7 - i mod 8) 1 else 0)"

lemma cs_error_bytes:
  assumes "i < 35"
  shows "(LONG_CS_VALUE_MS (cs_error_byte i 0) (cs_error_byte i 1) (cs_error_byte i 2) (cs_error_byte i 3),
          LONG_CS_VALUE_LS (cs_error_byte i 4)) = cs_error i" "cs_error_byte i 4 AND 0x1F = 0"
    "cs_error_byte i 5 = 0"
proof -
  have all: "list_all (\<lambda>i. (LONG_CS_VALUE_MS (cs_error_byte i 0) (cs_error_byte i 1) (cs_error_byte i 2) (cs_error_byte i 3),
          LONG_CS_VALUE_LS (cs_error_byte i 4)) = cs_error i \<and> cs_error_byte i 4 AND 0x1F = 0 \<and>
          cs_error_byte i 5 = 0) [0..<35]"
    by code_simp
  show "(LONG_CS_VALUE_MS (cs_error_byte i 0) (cs_error_byte i 1) (cs_error_byte i 2) (cs_error_byte i 3),
          LONG_CS_VALUE_LS (cs_error_byte i 4)) = cs_error i" "cs_error_byte i 4 AND 0x1F = 0" "cs_error_byte i 5 = 0"
    using all assms by (simp_all add: list_all_iff)
qed

lemma cs_flip_nth:
  assumes "length bs = 8" and "i < 35" and "k < 6"
  shows "cs_flip i bs ! Suc k = bs ! Suc k XOR cs_error_byte i k"
  using assms by (auto simp: cs_flip_def cs_error_byte_def nth_list_update)

lemma LONG_CS_VALUE_xor:
  "LONG_CS_VALUE_MS (w XOR w') (x XOR x') (y XOR y') (z XOR z') = LONG_CS_VALUE_MS w x y z XOR LONG_CS_VALUE_MS w' x' y' z'"
  "LONG_CS_VALUE_LS (z XOR z') = LONG_CS_VALUE_LS z XOR LONG_CS_VALUE_LS z'"
proof -
  have bits: "LONG_CS_VALUE_MS w x y z = push_bit 24 (ucast w) OR push_bit 16 (ucast x) OR push_bit 8 (ucast y) OR ucast z"
    for w x y z
  proof -
    have "push_bit 24 (ucast w) + push_bit 16 (ucast x) = push_bit 24 (ucast w) OR (push_bit 16 (ucast x) :: u32)"
      by (rule add_disjoint) (simp only: bit_simps o_apply, auto dest: bit_imp_le_length)
    moreover have "(push_bit 24 (ucast w) OR push_bit 16 (ucast x)) + push_bit 8 (ucast y) =
        push_bit 24 (ucast w) OR push_bit 16 (ucast x) OR (push_bit 8 (ucast y) :: u32)"
      by (subst add_disjoint; simp only: bit_simps o_apply or.assoc) (auto dest: bit_imp_le_length)
    moreover have "(push_bit 24 (ucast w) OR push_bit 16 (ucast x) OR push_bit 8 (ucast y)) + ucast z =
        push_bit 24 (ucast w) OR push_bit 16 (ucast x) OR push_bit 8 (ucast y) OR (ucast z :: u32)"
      by (subst add_disjoint; simp only: bit_simps o_apply or.assoc) (auto dest: bit_imp_le_length)
    ultimately show ?thesis
      by (simp only: LONG_CS_VALUE_MS_def)
  qed
  show "LONG_CS_VALUE_MS (w XOR w') (x XOR x') (y XOR y') (z XOR z') = LONG_CS_VALUE_MS w x y z XOR LONG_CS_VALUE_MS w' x' y' z'"
    unfolding bits by (rule bit_word_eqI, simp only: bit_simps o_apply) (auto dest: bit_imp_le_length)
  show "LONG_CS_VALUE_LS (z XOR z') = LONG_CS_VALUE_LS z XOR LONG_CS_VALUE_LS z'"
    unfolding LONG_CS_VALUE_LS_def u32_masks by (rule bit_word_eqI, simp only: bit_simps o_apply) auto
qed

text \<open>The checksum the receiver computes, and the one it reads, from the bytes after a control character.\<close>

definition cs_large_sum :: "u8 list \<Rightarrow> u32" where
  "cs_large_sum bs = compute_13bit_crc (LONG_CS_VALUE_MS (bs ! 1) (bs ! 2) (bs ! 3) (bs ! 4)) (LONG_CS_VALUE_LS (bs ! 5))"

definition cs_large_sent :: "u8 list \<Rightarrow> u32" where
  "cs_large_sent bs = push_bit 8 (ucast (bs ! 5) AND 0x1f) + ucast (bs ! 6)"

lemma cs_large_correct:
  assumes "bs ! 0 = PD_CONTROL_SYMBOL \<or> bs ! 0 = SC_START_CONTROL_SYMBOL"
  shows "cs_crc_correct (snd (CS_bytes_to_fields \<lparr>cs_type_valid = cs_large, cs_bytes = bs\<rparr> g)) \<longleftrightarrow> cs_large_sum bs = cs_large_sent bs"
  using assms by (auto simp: CS_bytes_to_fields_def Let_def cs_large_sum_def cs_large_sent_def numeral_eq_Suc)

lemma u8_low_mask: "(0x1F :: u8) = mask 5"
  by (simp add: mask_eq_exp_minus_1)

lemma cs_flip_large:
  assumes "length bs = 8" and "i < 35"
  shows "cs_large_sum (cs_flip i bs) = cs_large_sum bs XOR CS_13bit_crc_bit_mask ! i"
    and "cs_large_sent (cs_flip i bs) = cs_large_sent bs"
proof -
  note nth = cs_flip_nth [OF assms]
  have "cs_flip i bs ! 1 = bs ! 1 XOR cs_error_byte i 0" "cs_flip i bs ! 2 = bs ! 2 XOR cs_error_byte i 1"
    "cs_flip i bs ! 3 = bs ! 3 XOR cs_error_byte i 2" "cs_flip i bs ! 4 = bs ! 4 XOR cs_error_byte i 3"
    "cs_flip i bs ! 5 = bs ! 5 XOR cs_error_byte i 4" "cs_flip i bs ! 6 = bs ! 6 XOR cs_error_byte i 5"
    using nth [of 0] nth [of 1] nth [of 2] nth [of 3] nth [of 4] nth [of 5] by (simp_all add: numeral_eq_Suc)
  note bytes = this
  show "cs_large_sum (cs_flip i bs) = cs_large_sum bs XOR CS_13bit_crc_bit_mask ! i"
    using crc13_linear [of "LONG_CS_VALUE_MS (bs ! 1) (bs ! 2) (bs ! 3) (bs ! 4)" "cs_error i" "LONG_CS_VALUE_LS (bs ! 5)"]
    unfolding syndrome_nth [OF assms(2)]
    unfolding cs_large_sum_def bytes LONG_CS_VALUE_xor cs_error_bytes(1) [OF assms(2), symmetric] fst_conv snd_conv .
  have low: "\<not> bit (cs_error_byte i 4) n" if "n < 5" for n
  proof -
    have "\<not> bit (cs_error_byte i 4 AND mask 5) n"
      using cs_error_bytes(2) [OF assms(2)] unfolding u8_low_mask by simp
    with that show ?thesis
      by (simp add: bit_simps)
  qed
  have "(ucast (bs ! 5 XOR cs_error_byte i 4) :: u32) AND 0x1F = ucast (bs ! 5) AND 0x1F"
    unfolding u32_masks by (rule bit_word_eqI; simp only: bit_simps o_apply) (use low in auto)
  then show "cs_large_sent (cs_flip i bs) = cs_large_sent bs"
    unfolding cs_large_sent_def bytes using cs_error_bytes(3) [OF assms(2)] by simp
qed

lemma xor_changes: "x XOR a = x \<longleftrightarrow> a = 0" for x a :: u32
proof
  assume "x XOR a = x"
  then have "x XOR (x XOR a) = x XOR x"
    by simp
  then show "a = 0"
    by (simp add: xor.assoc [symmetric])
qed simp

lemma xor_differs: "a XOR b = 0 \<longleftrightarrow> b = a" for a b :: u32
  using xor_changes [of a "a XOR b"] by (auto simp: xor.assoc [symmetric])

section \<open>Properties\<close>

text \<open>
  C31. A control symbol survives its encoding: from fields that fit in their places, \<open>CS_fields_to_bytes\<close> succeeds
  and \<open>CS_bytes_to_fields\<close> on the bytes it wrote returns success, every field unchanged and a correct checksum, for
  small and large control symbols alike.
\<close>

theorem cs_roundtrip:
  assumes "cs_fields_ok f" and "length (cs_bytes out) = 8"
  shows "\<exists>b. CS_fields_to_bytes f out = (RIO_SUCCESS, b) \<and>
     CS_bytes_to_fields b g = (RIO_SUCCESS, f\<lparr>cs_crc := cs_crc g, cs_crc_correct := True\<rparr>)"
  using assms cs_roundtrip_small cs_roundtrip_large by (cases "cs_size f") (auto simp: cs_fields_ok_def)

definition example_cs :: CS_field_t where
  "example_cs = \<lparr>cs_size = cs_large, cs_t0 = 4, parm_0 = 0x2A, parm_1 = 0x3F, cs_t1 = 4, cs_t1_cmd = 3, cs_t2 = 1,
     cs_t2_val = 0x5A5, cs_crc = 0, cs_crc_correct = False\<rparr>"

theorem cs_roundtrip_witness:
  "\<exists>b. CS_fields_to_bytes example_cs \<lparr>cs_type_valid = cs_invalid, cs_bytes = replicate 8 0\<rparr> = (RIO_SUCCESS, b) \<and>
     CS_bytes_to_fields b example_cs = (RIO_SUCCESS, example_cs\<lparr>cs_crc_correct := True\<rparr>)"
  using cs_roundtrip [of example_cs "\<lparr>cs_type_valid = cs_invalid, cs_bytes = replicate 8 0\<rparr>" example_cs]
  by (simp add: example_cs_def cs_fields_ok_def fits_def)

text \<open>
  C32. The 13-bit checksum of a large control symbol catches every error of one or two inverted data bits: when the
  bytes of a symbol with its control character decode with a correct checksum, the same bytes with any one, or any
  two different, of the 35 data bits inverted decode with an incorrect one.
\<close>

theorem crc13_detects_two_bits:
  assumes "length bs = 8" and "bs ! 0 = PD_CONTROL_SYMBOL \<or> bs ! 0 = SC_START_CONTROL_SYMBOL"
    and "cs_crc_correct (snd (CS_bytes_to_fields \<lparr>cs_type_valid = cs_large, cs_bytes = bs\<rparr> g))"
    and "i < 35" and "j < 35" and "i \<noteq> j"
  shows "\<not> cs_crc_correct (snd (CS_bytes_to_fields \<lparr>cs_type_valid = cs_large, cs_bytes = cs_flip i bs\<rparr> g)) \<and>
         \<not> cs_crc_correct (snd (CS_bytes_to_fields \<lparr>cs_type_valid = cs_large, cs_bytes = cs_flip i (cs_flip j bs)\<rparr> g))"
proof -
  have keep: "cs_flip k xs ! 0 = xs ! 0" "length (cs_flip k xs) = length xs" for k xs
    by (simp_all add: cs_flip_def)
  have "cs_large_sum bs = cs_large_sent bs"
    using assms(2,3) cs_large_correct by blast
  moreover have "CS_13bit_crc_bit_mask ! i \<noteq> 0" "CS_13bit_crc_bit_mask ! i \<noteq> CS_13bit_crc_bit_mask ! j"
    using crc13_masks_distinct assms(4-6) crc13_length by (auto simp: nth_eq_iff_index_eq) (metis nth_mem)
  ultimately show ?thesis
    using assms(1,2,4,5) by (simp add: cs_large_correct keep cs_flip_large xor_changes xor.assoc xor_differs)
qed

lemma crc13_zero: "compute_13bit_crc 0 0 = 0x1FFF"
proof -
  have "fold (crc13_step 0 0) is c = c" for "is" c
    by (induction "is" arbitrary: c) (auto simp: crc13_step_def Let_def)
  then show ?thesis
    by (simp add: compute_13bit_crc_def)
qed

theorem crc13_detects_two_bits_witness:
  "\<not> cs_crc_correct (snd (CS_bytes_to_fields \<lparr>cs_type_valid = cs_large,
       cs_bytes = cs_flip 0 [0x1C, 0, 0, 0, 0, 0x1F, 0xFF, 0x1C]\<rparr> example_cs))"
  using crc13_detects_two_bits [of "[0x1C, 0, 0, 0, 0, 0x1F, 0xFF, 0x1C]" example_cs 0 34]
  by (simp add: cs_large_correct cs_large_sum_def cs_large_sent_def LONG_CS_VALUE_MS_def LONG_CS_VALUE_LS_def crc13_zero)

text \<open>
  The 5-bit checksum does not protect the \<open>stype0\<close> field of a small control symbol: \<open>count_bits\<close> looks at 16 of
  the 20 bits it is given, so that whichever of the three bits of \<open>stype0\<close> are inverted on the way, the checksum of
  the received symbol is judged as it was before and the changed \<open>stype0\<close> is delivered.
\<close>

theorem crc5_misses_stype0:
  assumes "length bs = 8" and "bs ! 0 = PD_CONTROL_SYMBOL \<or> bs ! 0 = SC_START_CONTROL_SYMBOL" and "fits 3 d"
  shows "let f = snd (CS_bytes_to_fields \<lparr>cs_type_valid = cs_small, cs_bytes = bs\<rparr> g);
             f' = snd (CS_bytes_to_fields \<lparr>cs_type_valid = cs_small, cs_bytes = bs[1 := bs ! 1 XOR push_bit 5 d]\<rparr> g)
         in f' = f\<lparr>cs_t0 := cs_t0 f XOR ucast d\<rparr>"
proof -
  note bits = assms(3) [THEN fits_bit]
  have low: "(ucast (x XOR push_bit 5 d) :: u32) AND 0x1F = ucast x AND 0x1F" for x :: u8
    unfolding u32_masks by (rule bit_word_eqI; simp only: bit_simps o_apply; auto)
  have high: "drop_bit 5 ((ucast (x XOR push_bit 5 d) :: u32) AND 0xE0) = drop_bit 5 (ucast x AND 0xE0) XOR ucast d" for x :: u8
    unfolding u32_masks by (rule bit_word_eqI; simp only: bit_simps o_apply; auto dest: bits)
  show ?thesis
    using assms(1,2)
    by (auto simp: CS_bytes_to_fields_def Let_def low high crc5_ignores_t0
          simp del: drop_bit_and push_bit_and)
qed

theorem crc5_misses_stype0_witness:
  "(let bs = [0x1C, 0x80, 0, 0x00, 0, 0, 0, 0];
        f = snd (CS_bytes_to_fields \<lparr>cs_type_valid = cs_small, cs_bytes = bs\<rparr> example_cs);
        f' = snd (CS_bytes_to_fields \<lparr>cs_type_valid = cs_small, cs_bytes = bs[1 := bs ! 1 XOR push_bit 5 3]\<rparr> example_cs)
    in f' = f\<lparr>cs_t0 := cs_t0 f XOR ucast (3 :: u8)\<rparr>)"
  using crc5_misses_stype0 [of "[0x1C, 0x80, 0, 0x00, 0, 0, 0, 0]" 3 example_cs]
  by (simp add: fits_def Let_def)

end
