(* ===== verification/Pkt_Crc.thy ===== *)
theory Pkt_Crc
  imports Control_Symbols
begin

unbundle bit_operations_syntax

text \<open>
  The checksum of packets, \<^verbatim>\<open>fabric_management/librio/src/RapidIO_Utilities_API.c\<close>: the bytewise computation of
  the 16-bit CRC, \<open>compute_pkt_crc\<close>, which puts a first CRC after byte 79 of a long packet and a final one at its
  end, and \<open>update_pkt_crc\<close>, which renews the checksums of a packet in place. A packet is an array of bytes, a list
  whose length is the number of its elements; an access outside of it is the outcome \<open>Undef\<close>.
\<close>

section \<open>Outcomes\<close>

text \<open>An operation returns a value, returns an error code, or accesses memory outside of its objects.\<close>

datatype 'a outcome = Ret 'a | Err u32 | Undef

primrec and_then :: "'a outcome \<Rightarrow> ('a \<Rightarrow> 'b outcome) \<Rightarrow> 'b outcome" where
  "and_then (Ret x) f = f x"
| "and_then (Err e) f = Err e"
| "and_then Undef f = Undef"

lemma and_then_Ret: "and_then r f = Ret y \<longleftrightarrow> (\<exists>x. r = Ret x \<and> f x = Ret y)"
  by (cases r) auto

section \<open>The bytewise checksum\<close>

definition bytewise_data_bits :: "u32 list" where
  "bytewise_data_bits = [0x11, 0x22, 0x44, 0x88, 0x10, 0x31, 0x62, 0xc4, 0x88, 0x10, 0x20, 0x40, 0x91, 0x22, 0x44, 0x88]"

definition bytewise_CRC_bits :: "u32 list" where
  "bytewise_CRC_bits = [0x1100, 0x2200, 0x4400, 0x8800, 0x1000, 0x3100, 0x6200, 0xc400,
     0x8801, 0x1002, 0x2004, 0x4008, 0x9110, 0x2220, 0x4440, 0x8880]"

text \<open>The inner loop: the new checksum from the old one and one byte.\<close>

definition crc_bit :: "u32 \<Rightarrow> u8 \<Rightarrow> nat \<Rightarrow> nat" where
  "crc_bit old_crc b j = count_bits (ucast b AND bytewise_data_bits ! j) + count_bits (old_crc AND bytewise_CRC_bits ! j)"

definition crc_byte :: "u8 \<Rightarrow> u32 \<Rightarrow> u32" where
  "crc_byte b old_crc =
     fold (\<lambda>j new_crc. new_crc + push_bit j (of_nat (crc_bit old_crc b j) AND 1)) [0..<16] 0"

definition crc_comp_bytewise :: "u8 list \<Rightarrow> nat \<Rightarrow> u32" where
  "crc_comp_bytewise pkt num_bytes = fold (\<lambda>i old_crc. crc_byte (pkt ! i) old_crc) [0..<num_bytes] 0xFFFF"

section \<open>Adding and updating checksums\<close>

definition crc_hi :: "u32 \<Rightarrow> u8" where
  "crc_hi temp = ucast (drop_bit 8 temp AND 0x00ff)"

definition crc_lo :: "u32 \<Rightarrow> u8" where
  "crc_lo temp = ucast (temp AND 0x00ff)"

definition compute_pkt_crc :: "u8 list \<Rightarrow> nat \<Rightarrow> (u8 list \<times> nat) outcome" where
  "compute_pkt_crc pkt num_bytes =
     (if num_bytes + (if num_bytes > 80 then 4 else 2) > length pkt then Undef
      else
        (let (pkt1, n) =
           (if num_bytes > 80 then
              (let temp = crc_comp_bytewise pkt 80;
                   moved = fold (\<lambda>i p. p[i + 2 := p ! i]) (rev [80..<Suc num_bytes]) pkt
               in (moved[80 := crc_hi temp, 81 := crc_lo temp], num_bytes + 2))
            else (pkt, num_bytes));
             temp = crc_comp_bytewise pkt1 n
         in Ret (pkt1[n := crc_hi temp, n + 1 := crc_lo temp], n + 2)))"

text \<open>
  \<open>update_pkt_crc\<close> of an array with \<open>num_chars\<close> valid bytes. A number of bytes below the two or four that the
  checksum and the padding take makes the index \<open>num_chars - 2\<close> or \<open>num_chars - 4\<close> wrap.
\<close>

definition update_pkt_crc :: "bool \<Rightarrow> nat \<Rightarrow> u8 list \<Rightarrow> u8 list outcome" where
  "update_pkt_crc padded num_chars pkt =
     (if num_chars > length pkt \<or> num_chars < (if padded then 4 else 2) then Undef
      else
        (let pkt1 = (if num_chars > 80
                     then (let temp = crc_comp_bytewise pkt 80 in pkt[80 := crc_hi temp, 81 := crc_lo temp])
                     else pkt)
         in if padded then
              (let pkt2 = pkt1[num_chars - 1 := 0, num_chars - 2 := 0];
                   temp = crc_comp_bytewise pkt2 (num_chars - 4)
               in Ret (pkt2[num_chars - 4 := crc_hi temp, num_chars - 3 := crc_lo temp]))
            else
              (let temp = crc_comp_bytewise pkt1 (num_chars - 2)
               in Ret (pkt1[num_chars - 2 := crc_hi temp, num_chars - 1 := crc_lo temp]))))"

text \<open>Packets as a sequence of bytes, and the entry point that renews or adds the checksums.\<close>

type_synonym rio_addr_size = u32

abbreviation (input) rio_addr_21 :: rio_addr_size where "rio_addr_21 \<equiv> 0"
abbreviation (input) rio_addr_32 :: rio_addr_size where "rio_addr_32 \<equiv> 1"
abbreviation (input) rio_addr_34 :: rio_addr_size where "rio_addr_34 \<equiv> 2"
abbreviation (input) rio_addr_50 :: rio_addr_size where "rio_addr_50 \<equiv> 3"
abbreviation (input) rio_addr_66 :: rio_addr_size where "rio_addr_66 \<equiv> 4"

abbreviation (input) RIO_MAX_PKT_BYTES :: nat where "RIO_MAX_PKT_BYTES \<equiv> 276"

record DAR_pkt_bytes_t =
  pkt_addr_size :: rio_addr_size
  pkt_has_crc :: bool
  pkt_padded :: bool
  num_chars :: u32
  pkt_chars :: "u8 list"

definition DAR_update_pkt_CRC :: "DAR_pkt_bytes_t \<Rightarrow> DAR_pkt_bytes_t outcome" where
  "DAR_update_pkt_CRC b =
     (let n = unat (num_chars b) in
      if n = 0 \<or> n > RIO_MAX_PKT_BYTES \<or> (ucast (pkt_addr_size b) :: u8) > ucast rio_addr_66
      then Err RIO_ERR_INVALID_PARAMETER
      else if pkt_has_crc b then
        and_then (update_pkt_crc (pkt_padded b) n (pkt_chars b)) (\<lambda>d. Ret (b\<lparr>pkt_chars := d\<rparr>))
      else if n > RIO_MAX_PKT_BYTES - 2 then Err RIO_ERR_INVALID_PARAMETER
      else
        and_then (compute_pkt_crc (pkt_chars b) n) (\<lambda>(d, m). Ret (b\<lparr>num_chars := of_nat m, pkt_chars := d\<rparr>)))"

section \<open>Bits of the checksum\<close>

lemma sum_bits:
  fixes p :: "nat \<Rightarrow> nat"
  assumes "n \<le> 16"
  shows "bit (fold (\<lambda>j c. c + push_bit j (of_nat (p j) AND 1)) [0..<n] (0 :: u32)) k \<longleftrightarrow> k < n \<and> odd (p k)"
  using assms
proof (induction n arbitrary: k)
  case (Suc n)
  define low where "low = fold (\<lambda>j c. c + push_bit j (of_nat (p j) AND 1)) [0..<n] (0 :: u32)"
  have low: "bit low k \<longleftrightarrow> k < n \<and> odd (p k)" for k
    using Suc unfolding low_def by simp
  have top: "bit (push_bit n (of_nat (p n) AND 1) :: u32) k \<longleftrightarrow> k = n \<and> odd (p n)" for k
    using Suc.prems by (cases "odd (p n)") (auto simp: and_one_eq mod_2_eq_odd bit_simps simp flip: push_bit_of_1)
  have "low + push_bit n (of_nat (p n) AND 1) = low OR push_bit n (of_nat (p n) AND 1)"
    by (rule add_disjoint) (use low top in auto)
  then have "bit (low + push_bit n (of_nat (p n) AND 1)) k \<longleftrightarrow> bit low k \<or> k = n \<and> odd (p n)"
    by (simp only: bit_or_iff top)
  then show ?case
    using low by (auto simp: low_def less_Suc_eq)
qed simp

lemma bit_crc_byte: "bit (crc_byte b c) k \<longleftrightarrow> k < 16 \<and> odd (crc_bit c b k)"
  unfolding crc_byte_def by (rule sum_bits) simp

lemma crc_byte_fits: "fits 16 (crc_byte b c)"
  by (rule bit_fits) (simp add: bit_crc_byte)

lemma odd_filter_xor:
  "odd (length (filter (\<lambda>i. P i \<noteq> Q i) xs)) \<longleftrightarrow> odd (length (filter P xs)) \<noteq> odd (length (filter Q xs))"
  by (induction xs) auto

lemma odd_count_xor: "odd (count_bits (x XOR y)) \<longleftrightarrow> odd (count_bits x) \<noteq> odd (count_bits y)"
  unfolding count_bits_eq bit_xor_iff by (rule odd_filter_xor)

lemma odd_crc_bit_xor: "odd (crc_bit (c XOR d) (a XOR b) j) \<longleftrightarrow> odd (crc_bit c a j) \<noteq> odd (crc_bit d b j)"
proof -
  have "(ucast (a XOR b) :: u32) AND m = (ucast a AND m) XOR (ucast b AND m)" for m
    by (rule bit_word_eqI) (auto simp: bit_simps)
  then show ?thesis
    unfolding crc_bit_def and_xor_words odd_count_xor odd_add by (simp only: odd_count_xor) blast
qed

lemma crc_byte_xor: "crc_byte (a XOR b) (c XOR d) = crc_byte a c XOR crc_byte b d"
  by (rule bit_word_eqI) (auto simp: bit_crc_byte bit_xor_iff odd_crc_bit_xor)

lemma count_bits_16:
  "odd (count_bits x) \<longleftrightarrow>
     (bit x 0 \<noteq> (bit x 1 \<noteq> (bit x 2 \<noteq> (bit x 3 \<noteq> (bit x 4 \<noteq> (bit x 5 \<noteq> (bit x 6 \<noteq> (bit x 7 \<noteq>
     (bit x 8 \<noteq> (bit x 9 \<noteq> (bit x 10 \<noteq> (bit x 11 \<noteq> (bit x 12 \<noteq> (bit x 13 \<noteq> (bit x 14 \<noteq> bit x 15)))))))))))))))"
proof -
  have sixteen: "[0..<16] = [0, 1, 2, 3, 4, 5, 6, 7, 8, 9, 10, 11, 12, 13, 14, 15 :: nat]"
    by (simp add: upt_rec)
  have one: "odd (length (filter P (i # is))) \<longleftrightarrow> (P i \<noteq> odd (length (filter P is)))" "\<not> odd (length (filter P []))"
    for P and i :: nat and "is"
    by simp_all
  show ?thesis
    by (simp only: count_bits_eq sixteen one simp_thms)
qed

text \<open>The sixteen bits of the new checksum, as sums of bits of the byte and of the old checksum.\<close>

lemma crc_byte_bits:
  defines "x b c k \<equiv> bit (b :: u8) k \<noteq> bit (c :: u32) (k + 8)"
  shows "bit (crc_byte b c) 0 \<longleftrightarrow> (x b c 0 \<noteq> x b c 4)" "bit (crc_byte b c) 1 \<longleftrightarrow> (x b c 1 \<noteq> x b c 5)"
    "bit (crc_byte b c) 2 \<longleftrightarrow> (x b c 2 \<noteq> x b c 6)" "bit (crc_byte b c) 3 \<longleftrightarrow> (x b c 3 \<noteq> x b c 7)"
    "bit (crc_byte b c) 4 \<longleftrightarrow> x b c 4" "bit (crc_byte b c) 5 \<longleftrightarrow> (x b c 0 \<noteq> (x b c 4 \<noteq> x b c 5))"
    "bit (crc_byte b c) 6 \<longleftrightarrow> (x b c 1 \<noteq> (x b c 5 \<noteq> x b c 6))" "bit (crc_byte b c) 7 \<longleftrightarrow> (x b c 2 \<noteq> (x b c 6 \<noteq> x b c 7))"
    "bit (crc_byte b c) 8 \<longleftrightarrow> (bit c 0 \<noteq> (x b c 3 \<noteq> x b c 7))" "bit (crc_byte b c) 9 \<longleftrightarrow> (bit c 1 \<noteq> x b c 4)"
    "bit (crc_byte b c) 10 \<longleftrightarrow> (bit c 2 \<noteq> x b c 5)" "bit (crc_byte b c) 11 \<longleftrightarrow> (bit c 3 \<noteq> x b c 6)"
    "bit (crc_byte b c) 12 \<longleftrightarrow> (bit c 4 \<noteq> (x b c 0 \<noteq> (x b c 4 \<noteq> x b c 7)))" "bit (crc_byte b c) 13 \<longleftrightarrow> (bit c 5 \<noteq> (x b c 1 \<noteq> x b c 5))"
    "bit (crc_byte b c) 14 \<longleftrightarrow> (bit c 6 \<noteq> (x b c 2 \<noteq> x b c 6))" "bit (crc_byte b c) 15 \<longleftrightarrow> (bit c 7 \<noteq> (x b c 3 \<noteq> x b c 7))"
  unfolding x_def bit_crc_byte crc_bit_def odd_add count_bits_16 bit_and_iff bytewise_data_bits_def bytewise_CRC_bits_def
  by (simp add: bit_unsigned_iff; argo?)+


lemma crc_byte_eq:
  assumes "\<And>k. k < 16 \<Longrightarrow> bit (crc_byte b c) k = bit v k" and "fits 16 v"
  shows "crc_byte b c = v"
  using assms by (intro bit_word_eqI) (metis bit_crc_byte fits_bit)

lemma less_16_cases:
  "k < 16 \<Longrightarrow> k = 0 \<or> k = 1 \<or> k = 2 \<or> k = 3 \<or> k = 4 \<or> k = 5 \<or> k = 6 \<or> k = 7 \<or>
     k = 8 \<or> k = 9 \<or> k = 10 \<or> k = 11 \<or> k = 12 \<or> k = 13 \<or> k = 14 \<or> k = (15 :: nat)"
  by presburger

text \<open>A byte equal to the upper half of the checksum shifts the lower half up.\<close>

lemma crc_byte_clear:
  assumes "\<And>k. k < 8 \<Longrightarrow> bit b k = bit c (k + 8)"
  shows "crc_byte b c = push_bit 8 (c AND mask 8)"
proof (rule crc_byte_eq)
  have x: "bit b 0 = bit c (0 + 8)" "bit b 1 = bit c (1 + 8)" "bit b 2 = bit c (2 + 8)" "bit b 3 = bit c (3 + 8)" "bit b 4 = bit c (4 + 8)"
    "bit b 5 = bit c (5 + 8)" "bit b 6 = bit c (6 + 8)" "bit b 7 = bit c (7 + 8)"
    by (rule assms; simp)+
  show "bit (crc_byte b c) k = bit (push_bit 8 (c AND mask 8)) k" if "k < 16" for k
    using less_16_cases [OF that] by (elim disjE) (simp_all only: crc_byte_bits x simp_thms, simp_all add: bit_simps)
  show "fits 16 (push_bit 8 (c AND mask 8))"
    by (rule bit_fits) (auto simp: bit_simps)
qed

text \<open>Only such a byte, and only when the lower half is zero, gives a zero checksum.\<close>

lemma crc_byte_zero:
  assumes "crc_byte b c = 0"
  shows "\<And>k. k < 8 \<Longrightarrow> bit b k = bit c (k + 8)" and "\<And>k. k < 8 \<Longrightarrow> \<not> bit c k"
proof -
  have bits: "\<not> bit (crc_byte b c) k" for k
    using assms by simp
  define x where "x k \<longleftrightarrow> bit b k \<noteq> bit c (k + 8)" for k
  note step = bits [of 0] bits [of 1] bits [of 2] bits [of 3] bits [of 4] bits [of 5] bits [of 6] bits [of 7]
    bits [of 8] bits [of 9] bits [of 10] bits [of 11] bits [of 12] bits [of 13] bits [of 14] bits [of 15]
  note step = step [unfolded crc_byte_bits, folded x_def]
  have x: "\<not> x 0" "\<not> x 1" "\<not> x 2" "\<not> x 3" "\<not> x 4" "\<not> x 5" "\<not> x 6" "\<not> x 7"
    using step(1-8) by simp_all
  have low: "\<not> bit c 0" "\<not> bit c 1" "\<not> bit c 2" "\<not> bit c 3" "\<not> bit c 4" "\<not> bit c 5" "\<not> bit c 6" "\<not> bit c 7"
    using step(9-16) x by simp_all
  have eight: "k = 0 \<or> k = 1 \<or> k = 2 \<or> k = 3 \<or> k = 4 \<or> k = 5 \<or> k = 6 \<or> k = 7" if "k < 8" for k :: nat
    using that by presburger
  show "bit b k = bit c (k + 8)" if "k < 8" for k
    using eight [OF that] x by (auto simp only: x_def)
  show "\<not> bit c k" if "k < 8" for k
    using eight [OF that] low by auto
qed

lemma crc_byte_inj:
  assumes "crc_byte a c = crc_byte b d" and "fits 16 c" and "fits 16 d"
  shows "c AND mask 8 = d AND mask 8" and "a = b \<longleftrightarrow> c = d"
proof -
  have z: "crc_byte (a XOR b) (c XOR d) = 0"
    by (simp add: crc_byte_xor assms(1))
  note bits = crc_byte_zero [OF z]
  show "c AND mask 8 = d AND mask 8"
    using bits(2) by (intro bit_word_eqI) (auto simp: bit_simps)
  have hi: "bit (a XOR b) k = bit (c XOR d) (k + 8)" if "k < 8" for k
    using bits(1) that by simp
  show "a = b \<longleftrightarrow> c = d"
  proof
    assume "a = b"
    then have up: "bit c (k + 8) = bit d (k + 8)" if "k < 8" for k
      using hi that by (simp add: bit_simps)
    show "c = d"
    proof (rule bit_word_eqI)
      fix k
      show "bit c k = bit d k"
        using bits(2) [of k] up [of "k - 8"] fits_bit [OF assms(2), of k] fits_bit [OF assms(3), of k]
        by (cases "k < 8"; cases "k < 16") (auto simp: bit_simps)
    qed
  next
    assume "c = d"
    then show "a = b"
      using hi by (intro bit_word_eqI) (simp add: bit_simps)
  qed
qed

section \<open>Checksums of byte sequences\<close>

definition crc_list :: "u8 list \<Rightarrow> u32" where
  "crc_list bs = fold crc_byte bs 0xFFFF"

lemma crc_comp_list: "n \<le> length pkt \<Longrightarrow> crc_comp_bytewise pkt n = crc_list (take n pkt)"
proof (induction n)
  case (Suc n)
  then show ?case
    by (simp add: crc_comp_bytewise_def crc_list_def take_Suc_conv_app_nth)
qed (simp add: crc_comp_bytewise_def crc_list_def)

lemma crc_fold_fits: "fits 16 c \<Longrightarrow> fits 16 (fold crc_byte bs c)"
  by (induction bs arbitrary: c) (auto simp: crc_byte_fits)

lemma crc_list_fits: "fits 16 (crc_list bs)"
  unfolding crc_list_def by (rule crc_fold_fits) (simp add: fits_def)

lemma bit_crc_hi: "bit (crc_hi c) k \<longleftrightarrow> k < 8 \<and> bit c (k + 8)"
  unfolding crc_hi_def u32_masks by (simp only: bit_simps o_apply) (auto simp: add.commute)

lemma bit_crc_lo: "bit (crc_lo c) k \<longleftrightarrow> k < 8 \<and> bit c k"
  unfolding crc_lo_def u32_masks by (simp only: bit_simps o_apply) auto

text \<open>Running over a message and its checksum leaves zero, which is how a receiver recognises it.\<close>

lemma crc_residue: "crc_list (bs @ [crc_hi (crc_list bs), crc_lo (crc_list bs)]) = 0"
proof -
  define c where "c = crc_list bs"
  have "crc_byte (crc_hi c) c = push_bit 8 (c AND mask 8)"
    by (rule crc_byte_clear) (simp add: bit_crc_hi)
  moreover have "crc_byte (crc_lo c) (push_bit 8 (c AND mask 8)) = push_bit 8 (push_bit 8 (c AND mask 8) AND mask 8)"
    by (rule crc_byte_clear) (simp add: bit_crc_lo bit_simps)
  moreover have "push_bit 8 (push_bit 8 (c AND mask 8) AND mask 8) = 0"
    by (rule bit_word_eqI) (auto simp: bit_simps)
  ultimately show ?thesis
    by (simp add: crc_list_def c_def)
qed

lemma crc_fold_inj: "fold crc_byte bs c = fold crc_byte bs d \<Longrightarrow> fits 16 c \<Longrightarrow> fits 16 d \<Longrightarrow> c = d"
proof (induction bs arbitrary: c d)
  case (Cons b bs)
  then have "crc_byte b c = crc_byte b d"
    by (auto simp: crc_byte_fits)
  with Cons.prems show ?case
    using crc_byte_inj(2) by blast
qed simp

text \<open>Two messages that differ in two neighbouring bytes only have different checksums.\<close>

lemma crc_burst:
  assumes "crc_list (p @ [a, b] @ q) = crc_list (p @ [a', b'] @ q)"
  shows "a = a' \<and> b = b'"
proof -
  define c where "c = crc_list p"
  have "fold crc_byte q (crc_byte b (crc_byte a c)) = fold crc_byte q (crc_byte b' (crc_byte a' c))"
    using assms by (simp add: crc_list_def c_def)
  then have outer: "crc_byte b (crc_byte a c) = crc_byte b' (crc_byte a' c)"
    by (rule crc_fold_inj) (rule crc_byte_fits)+
  have low: "crc_byte a c AND mask 8 = crc_byte a' c AND mask 8"
    using crc_byte_inj(1) [OF outer crc_byte_fits crc_byte_fits] .
  define d where "d = a XOR a'"
  have "crc_byte d 0 AND mask 8 = 0"
  proof -
    have "crc_byte d 0 = crc_byte a c XOR crc_byte a' c"
      using crc_byte_xor [of a a' c c] by (simp add: d_def)
    then show ?thesis
      using low by (simp add: and_xor_words)
  qed
  then have zero: "\<not> bit (crc_byte d 0 AND mask 8) k" for k
    by simp
  have bits: "\<not> bit (crc_byte d 0) k" if "k < 8" for k
    using zero [of k] that by (simp add: bit_and_iff bit_mask_iff)
  have "\<not> bit d k" for k
  proof -
    note step = bits [of 0] bits [of 1] bits [of 2] bits [of 3] bits [of 4] bits [of 5] bits [of 6] bits [of 7]
    note step = step [unfolded crc_byte_bits, simplified]
    show ?thesis
      using step bit_imp_le_length [of d k] less_16_cases [of k] by auto
  qed
  then have "a = a'"
    by (intro bit_word_eqI) (simp add: d_def bit_simps)
  moreover have "b = b'"
    using crc_byte_inj(2) [OF outer crc_byte_fits crc_byte_fits] calculation by simp
  ultimately show ?thesis
    by blast
qed


section \<open>The layout of a packet with checksums\<close>

text \<open>
  What \<open>compute_pkt_crc\<close> is for: the bytes of a packet, an intermediate checksum of the first 80 when there are more,
  and a checksum of everything before it.
\<close>

definition crc_pair :: "u8 list \<Rightarrow> u8 list" where
  "crc_pair bs = [crc_hi (crc_list bs), crc_lo (crc_list bs)]"

definition pkt_body :: "u8 list \<Rightarrow> u8 list" where
  "pkt_body p = (if length p > 80 then take 80 p @ crc_pair (take 80 p) @ drop 80 p else p)"

definition pkt_frame :: "u8 list \<Rightarrow> u8 list" where
  "pkt_frame p = pkt_body p @ crc_pair (pkt_body p)"

lemma length_crc_pair [simp]: "length (crc_pair bs) = 2"
  by (simp add: crc_pair_def)

lemma length_pkt_body: "length (pkt_body p) = length p + (if length p > 80 then 2 else 0)"
  by (simp add: pkt_body_def)

lemma length_pkt_frame: "length (pkt_frame p) = length p + (if length p > 80 then 4 else 2)"
  by (simp add: pkt_frame_def length_pkt_body)

text \<open>The loop that moves the rest of a long packet up by two bytes.\<close>

lemma shift_up:
  assumes "n + 2 < length p" and "m \<le> Suc n"
  shows "length (fold (\<lambda>i p. p[i + 2 := p ! i]) (rev [m..<Suc n]) p) = length p"
    and "k < length p \<Longrightarrow> fold (\<lambda>i p. p[i + 2 := p ! i]) (rev [m..<Suc n]) p ! k =
       (if m + 2 \<le> k \<and> k \<le> n + 2 then p ! (k - 2) else p ! k)"
  using assms
proof (induction n arbitrary: p k)
  case 0
  {
    case 1 then show ?case by (cases m) auto
  next
    case 2 then show ?case by (cases m) (auto simp: nth_list_update)
  }
next
  case (Suc n)
  {
    case 1 then show ?case using Suc.IH(1) [of "p[Suc n + 2 := p ! Suc n]"]
      by (cases "m = Suc (Suc n)") auto
  next
    case 2
    define q where "q = p[Suc n + 2 := p ! Suc n]"
    show ?case
    proof (cases "m = Suc (Suc n)")
      case True
      then show ?thesis
        by auto
    next
      case False
      then have "fold (\<lambda>i p. p[i + 2 := p ! i]) (rev [m..<Suc (Suc n)]) p = fold (\<lambda>i p. p[i + 2 := p ! i]) (rev [m..<Suc n]) q"
        using 2 by (simp add: q_def)
      moreover have "fold (\<lambda>i p. p[i + 2 := p ! i]) (rev [m..<Suc n]) q ! k = (if m + 2 \<le> k \<and> k \<le> n + 2 then q ! (k - 2) else q ! k)"
        using Suc.IH(2) [of k q] 2 False by (simp add: q_def)
      ultimately show ?thesis
        using 2 False by (auto simp: q_def nth_list_update)
    qed
  }
qed

lemma write_two:
  assumes "n + 2 \<le> length xs"
  shows "xs[n := a, n + 1 := b] = take n xs @ [a, b] @ drop (n + 2) xs"
proof (rule nth_equalityI)
  fix i
  assume "i < length (xs[n := a, n + 1 := b])"
  then consider "i < n" | "i = n" | "i = n + 1" | j where "i = n + 2 + j" "i < length xs"
    by (metis add_2_eq_Suc' le_Suc_ex length_list_update linorder_less_linear Suc_eq_plus1 less_Suc_eq_le less_eq_Suc_le
        order_le_less)
  then show "xs[n := a, n + 1 := b] ! i = (take n xs @ [a, b] @ drop (n + 2) xs) ! i"
    using assms by cases (simp_all add: nth_append)
qed (use assms in simp)

lemma moved_up:
  assumes "80 < n" and "n + 4 \<le> length pkt"
  shows "(fold (\<lambda>i p. p[i + 2 := p ! i]) (rev [80..<Suc n]) pkt)[80 := a, 81 := b] =
     take 80 pkt @ [a, b] @ drop 80 (take n pkt) @ [pkt ! n] @ drop (n + 3) pkt"
proof -
  define q where "q = fold (\<lambda>i p. p[i + 2 := p ! i]) (rev [80..<Suc n]) pkt"
  have len: "length q = length pkt"
    using shift_up(1) [of n pkt 80] assms by (simp add: q_def)
  have nth: "q ! k = (if 82 \<le> k \<and> k \<le> n + 2 then pkt ! (k - 2) else pkt ! k)" if "k < length pkt" for k
    using shift_up(2) [of n pkt 80 k] assms that by (simp add: q_def)
  have low: "take 80 q = take 80 pkt"
    using assms len nth by (intro nth_equalityI) auto
  have rest: "drop 82 q = drop 80 (take n pkt) @ [pkt ! n] @ drop (n + 3) pkt"
    using assms len nth by (intro nth_equalityI) (auto simp: nth_append nth_Cons' intro: arg_cong [of _ _ "nth pkt"])
  have "q[80 := a, 81 := b] = take 80 q @ [a, b] @ drop 82 q"
    using write_two [of 80 q a b] assms len by simp
  then show ?thesis
    unfolding low rest by (simp only: q_def)
qed

lemma compute_pkt_crc_frame:
  assumes "length p + (if length p > 80 then 4 else 2) \<le> length arr" and "take (length p) arr = p"
  shows "compute_pkt_crc arr (length p) =
     Ret (pkt_frame p @ drop (length (pkt_frame p)) arr, length (pkt_frame p))"
proof (cases "length p > 80")
  case False
  then show ?thesis
    using assms write_two [of "length p" arr] crc_comp_list [of "length p" arr]
    by (simp add: compute_pkt_crc_def pkt_frame_def pkt_body_def crc_pair_def Let_def)
next
  case True
  define n where "n = length p"
  define arr1 where "arr1 = take 80 p @ crc_pair (take 80 p) @ drop 80 p @ [arr ! n] @ drop (n + 3) arr"
  have n: "80 < n" "n + 4 \<le> length arr" "take n arr = p"
    using True assms by (simp_all add: n_def)
  have p80: "take 80 arr = take 80 p"
    using n by (metis min.absorb3 take_take less_imp_le)
  have arr1: "(fold (\<lambda>i p. p[i + 2 := p ! i]) (rev [80..<Suc n]) arr)
      [80 := crc_hi (crc_comp_bytewise arr 80), 81 := crc_lo (crc_comp_bytewise arr 80)] = arr1"
    using moved_up [OF n(1,2)] crc_comp_list [of 80 arr] n by (simp add: arr1_def crc_pair_def p80)
  have len1: "length arr1 = length arr"
    using n True by (simp add: arr1_def n_def)
  have body: "take (n + 2) arr1 = pkt_body p"
    using True by (simp add: arr1_def pkt_body_def n_def)
  have rest: "drop (n + 4) arr1 = drop (n + 4) arr"
    using True n by (simp add: arr1_def n_def add.commute)
  have "arr1[n + 2 := a, n + 2 + 1 := b] = pkt_body p @ [a, b] @ drop (n + 4) arr" for a b
  proof -
    have le: "n + 2 + 2 \<le> length arr1" and four: "n + 2 + 2 = n + 4"
      using n len1 by simp_all
    show ?thesis
      using write_two [OF le, of a b] unfolding four body rest .
  qed
  note written = this
  have crc: "crc_comp_bytewise arr1 (n + 2) = crc_list (pkt_body p)"
    using crc_comp_list [of "n + 2" arr1] n len1 body by simp
  have guard: "\<not> length arr < n + (if 80 < n then 4 else 2)"
    using n by simp
  have "compute_pkt_crc arr n = Ret (arr1[n + 2 := crc_hi (crc_comp_bytewise arr1 (n + 2)),
      n + 2 + 1 := crc_lo (crc_comp_bytewise arr1 (n + 2))], n + 2 + 2)"
    by (simp only: compute_pkt_crc_def Let_def arr1 n(1) guard if_True if_False prod.case) (use n in simp)
  moreover have "length (pkt_frame p) = n + 2 + 2"
    using True by (simp add: length_pkt_frame n_def)
  moreover have "n + 4 = n + 2 + 2"
    by simp
  moreover have "pkt_body p @ [crc_hi (crc_list (pkt_body p)), crc_lo (crc_list (pkt_body p))] @ xs = pkt_frame p @ xs" for xs
    by (simp add: pkt_frame_def crc_pair_def)
  ultimately show ?thesis
    unfolding written crc n_def [symmetric] by (simp only:)
qed


text \<open>The bytes at the places of a packet \<open>p\<close> in an array, whatever stands at the places of the checksums.\<close>

definition pkt_bytes_at :: "u8 list \<Rightarrow> u8 list \<Rightarrow> bool" where
  "pkt_bytes_at p arr \<longleftrightarrow> take (min 80 (length p)) arr = take 80 p \<and> drop 82 (take (length (pkt_body p)) arr) = drop 80 p"

definition frame_padded :: "u8 list \<Rightarrow> bool" where
  "frame_padded p \<longleftrightarrow> odd (length (pkt_frame p) div 2)"

definition padded_frame :: "u8 list \<Rightarrow> u8 list" where
  "padded_frame p = pkt_frame p @ (if frame_padded p then [0, 0] else [])"

lemma body_of_array:
  assumes "pkt_bytes_at p arr" and "length (pkt_body p) \<le> length arr" and "80 < length p"
  shows "take (length p + 2) (arr[80 := crc_hi (crc_comp_bytewise arr 80), 81 := crc_lo (crc_comp_bytewise arr 80)]) = pkt_body p"
proof -
  define n where "n = length p"
  have a: "n + 2 \<le> length arr" "take 80 arr = take 80 p" "drop 82 (take (n + 2) arr) = drop 80 p"
    using assms by (auto simp: pkt_bytes_at_def length_pkt_body n_def)
  have "arr[80 := x, 81 := y] = take 80 arr @ [x, y] @ drop 82 arr" for x y
    using write_two [of 80 arr] a assms(3) by (simp add: n_def)
  moreover have "take (n + 2) (take 80 arr @ [x, y] @ drop 82 arr) = take 80 arr @ [x, y] @ drop 82 (take (n + 2) arr)" for x y
  proof -
    obtain k where "n = 80 + k"
      using assms(3) le_Suc_ex [of 80 n] by (auto simp: n_def)
    then show ?thesis
      using a(1) by (simp add: drop_take)
  qed
  ultimately show ?thesis
    using a assms(3) crc_comp_list [of 80 arr] by (simp add: pkt_body_def crc_pair_def n_def)
qed


lemma padded_frame_size:
  assumes "even (length p)"
  shows "length (padded_frame p) mod 4 = 0"
    and "length (padded_frame p) = length (pkt_body p) + (if frame_padded p then 4 else 2)"
proof -
  have "even (length (pkt_frame p))"
    using assms by (simp add: length_pkt_frame)
  then show "length (padded_frame p) mod 4 = 0"
    by (auto simp: padded_frame_def frame_padded_def elim!: evenE) presburger
qed (simp add: padded_frame_def pkt_frame_def)

lemma write_crc:
  assumes "take e arr = body" and "e + 2 \<le> length arr"
  shows "arr[e := crc_hi (crc_comp_bytewise arr e), e + 1 := crc_lo (crc_comp_bytewise arr e)] = body @ crc_pair body @ drop (e + 2) arr"
  using write_two [OF assms(2)] crc_comp_list [of e arr] assms by (simp add: crc_pair_def)

lemma update_pkt_crc_frame:
  assumes "even (length p)" and "length (padded_frame p) \<le> length arr" and "pkt_bytes_at p arr"
  shows "update_pkt_crc (frame_padded p) (length (padded_frame p)) arr = Ret (padded_frame p @ drop (length (padded_frame p)) arr)"
proof -
  define n where "n = length (padded_frame p)"
  define e where "e = length (pkt_body p)"
  define arr1 where "arr1 = (if n > 80 then arr[80 := crc_hi (crc_comp_bytewise arr 80), 81 := crc_lo (crc_comp_bytewise arr 80)] else arr)"
  have n: "n mod 4 = 0" "n = e + (if frame_padded p then 4 else 2)" "n \<le> length arr"
    using padded_frame_size [OF assms(1)] assms(2) by (auto simp: n_def e_def)
  have len1: "length arr1 = length arr"
    by (simp add: arr1_def)
  have "n > 80 \<Longrightarrow> n \<ge> 84"
    using n(1) by presburger
  then have rest: "drop n arr1 = drop n arr"
    by (auto simp: arr1_def)
  have body: "take e arr1 = pkt_body p"
  proof (cases "length p > 80")
    case True
    then show ?thesis
      using body_of_array [OF assms(3) _ True] n by (simp add: e_def length_pkt_body arr1_def)
  next
    case False
    then show ?thesis
      using assms(3) by (simp add: arr1_def e_def pkt_body_def pkt_bytes_at_def)
  qed
  show ?thesis
  proof (cases "frame_padded p")
    case False
    then have "arr1[e := crc_hi (crc_comp_bytewise arr1 e), e + 1 := crc_lo (crc_comp_bytewise arr1 e)] = padded_frame p @ drop n arr"
      using write_crc [OF body] n len1 rest by (simp add: padded_frame_def pkt_frame_def)
    with False n show ?thesis
      unfolding n_def [symmetric] by (auto simp: update_pkt_crc_def arr1_def Let_def split: if_splits)
  next
    case True
    define arr2 where "arr2 = arr1[n - 1 := 0, n - 2 := 0]"
    have n4: "n = e + 4" "e + 2 + 2 \<le> length arr1"
      using n True len1 by simp_all
    have "arr2 = arr1[e + 2 := 0, e + 2 + 1 := 0]"
      using n4 by (simp add: arr2_def list_update_swap numeral_eq_Suc)
    moreover have "e + 2 + 2 = n"
      using n4 by simp
    ultimately have arr2: "arr2 = take (e + 2) arr1 @ [0, 0] @ drop n arr"
      using write_two [OF n4(2)] rest by (simp only:)
    have body2: "take e arr2 = pkt_body p"
      using body n4 by (simp add: arr2)
    have "arr2[e := crc_hi (crc_comp_bytewise arr2 e), e + 1 := crc_lo (crc_comp_bytewise arr2 e)] = padded_frame p @ drop n arr"
      using write_crc [OF body2] n4 True by (simp add: arr2 padded_frame_def pkt_frame_def)
    with True n4 n show ?thesis
      unfolding n_def [symmetric] by (auto simp: update_pkt_crc_def arr1_def arr2_def Let_def split: if_splits)
  qed
qed


lemma addr_size_guard: "a \<le> rio_addr_66 \<Longrightarrow> \<not> (ucast a :: u8) > ucast rio_addr_66"
proof -
  assume "a \<le> rio_addr_66"
  then have "unat a \<le> 4"
    by (simp add: word_le_nat_alt)
  then have "unat (ucast a :: u8) = unat a"
    by (simp add: unsigned_ucast_eq take_bit_nat_eq_self)
  with \<open>unat a \<le> 4\<close> show ?thesis
    by (simp add: word_less_nat_alt)
qed

lemma unat_of_nat_u32: "n < 0x100000000 \<Longrightarrow> unat (of_nat n :: u32) = n"
  by (simp add: unat_of_nat)

lemma update_adds_crc:
  assumes "\<not> pkt_has_crc b" and "length (pkt_chars b) = 276" and "pkt_addr_size b \<le> rio_addr_66"
    and "n = unat (num_chars b)" and "0 < n" and "n \<le> 272"
  shows "\<exists>d. DAR_update_pkt_CRC b = Ret (b\<lparr>num_chars := of_nat (n + (if n > 80 then 4 else 2)), pkt_chars := d\<rparr>) \<and> length d = 276"
proof -
  define p where "p = take n (pkt_chars b)"
  have p: "length p = n" "take (length p) (pkt_chars b) = p"
    using assms by (simp_all add: p_def)
  then have fit: "length p + (if length p > 80 then 4 else 2) \<le> length (pkt_chars b)"
    using assms by simp
  show ?thesis
    using compute_pkt_crc_frame [OF fit p(2)] assms(1,2,4-6) p(1) addr_size_guard [OF assms(3)]
    by (auto simp: DAR_update_pkt_CRC_def Let_def length_pkt_frame)
qed

section \<open>Properties\<close>

text \<open>
  C28. The in-place computation of the checksums is right: on an array with the bytes of a packet and enough room,
  \<open>compute_pkt_crc\<close> leaves the packet with the checksum of its first 80 bytes inserted after them when it is longer,
  and the checksum of everything at the end, touches nothing behind, and both checksums verify: the computation over
  a checksummed part gives zero.
\<close>

theorem pkt_crc_layout:
  assumes "length p + (if length p > 80 then 4 else 2) \<le> length arr" and "take (length p) arr = p"
  shows "let arr' = pkt_frame p @ drop (length (pkt_frame p)) arr; n = length (pkt_frame p) in
     compute_pkt_crc arr (length p) = Ret (arr', n) \<and> crc_comp_bytewise arr' n = 0 \<and>
     (length p > 80 \<longrightarrow> crc_comp_bytewise arr' 82 = 0)"
proof -
  have "crc_list (pkt_frame p) = 0"
    using crc_residue [of "pkt_body p"] by (simp add: pkt_frame_def crc_pair_def)
  moreover have "crc_list (take 82 (pkt_frame p)) = 0" if "length p > 80"
    using crc_residue [of "take 80 p"] that by (simp add: pkt_frame_def pkt_body_def crc_pair_def)
  ultimately show ?thesis
    using compute_pkt_crc_frame [OF assms] by (simp add: Let_def crc_comp_list length_pkt_frame)
qed

theorem pkt_crc_layout_witness:
  "compute_pkt_crc (replicate 276 0) 100 = Ret (pkt_frame (replicate 100 0) @ replicate 172 0, 104)"
  using pkt_crc_layout [of "replicate 100 0" "replicate 276 0"] by (simp add: Let_def length_pkt_frame)

text \<open>
  C29. The checksum detects bursts: two byte sequences of the same length that agree everywhere but in two
  neighbouring bytes, and do not agree there, have different checksums.
\<close>

theorem pkt_crc_detects_burst:
  assumes "i + 1 < n" and "n \<le> length pkt" and "n \<le> length pkt'" and "take n pkt \<noteq> take n pkt'"
    and "\<And>k. k < n \<Longrightarrow> k \<noteq> i \<Longrightarrow> k \<noteq> i + 1 \<Longrightarrow> pkt ! k = pkt' ! k"
  shows "crc_comp_bytewise pkt n \<noteq> crc_comp_bytewise pkt' n"
proof
  assume eq: "crc_comp_bytewise pkt n = crc_comp_bytewise pkt' n"
  have parts: "take n xs = take i xs @ [xs ! i, xs ! (i + 1)] @ drop (i + 2) (take n xs)" if "n \<le> length xs" for xs :: "u8 list"
    using id_take_nth_drop [of i "take n xs"] id_take_nth_drop [of 0 "drop (i + 1) (take n xs)"] that assms(1)
    by (simp add: min_absorb1)
  have "take i pkt = take i pkt'" "drop (i + 2) (take n pkt) = drop (i + 2) (take n pkt')"
    using assms by (auto intro!: nth_equalityI)
  with parts [OF assms(2)] parts [OF assms(3)] have
    "crc_list (take i pkt @ [pkt ! i, pkt ! (i + 1)] @ drop (i + 2) (take n pkt)) =
     crc_list (take i pkt @ [pkt' ! i, pkt' ! (i + 1)] @ drop (i + 2) (take n pkt))"
    using eq assms(2,3) by (simp add: crc_comp_list)
  then have "pkt ! i = pkt' ! i \<and> pkt ! (i + 1) = pkt' ! (i + 1)"
    by (rule crc_burst)
  with \<open>take i pkt = take i pkt'\<close> \<open>drop (i + 2) (take n pkt) = _\<close> show False
    using parts [OF assms(2)] parts [OF assms(3)] assms(4) by simp
qed

theorem pkt_crc_detects_burst_witness:
  "crc_comp_bytewise [1, 2, 3, 4] 4 \<noteq> crc_comp_bytewise [1, 7, 9, 4] 4"
proof (rule pkt_crc_detects_burst [where i = 1])
  show "[1, 2, 3, 4] ! k = [1, 7, 9, 4 :: u8] ! k" if "k < 4" "k \<noteq> 1" "k \<noteq> 1 + 1" for k
    using that by (auto simp: nth_Cons' numeral_eq_Suc)
qed simp_all

text \<open>
  C30. Renewing the checksums of an altered packet gives the packet that the altered bytes would have been framed as:
  for a packet of an even number of bytes, \<open>DAR_update_pkt_CRC\<close> succeeds whatever stood at the places of the
  checksums and of the padding, and writes the frame of the bytes, with its padding, and nothing else.
\<close>

theorem update_crc_restores:
  assumes "even (length p)" and "length (padded_frame p) \<le> 276" and "length (pkt_chars b) = 276"
    and "pkt_bytes_at p (pkt_chars b)" and "pkt_addr_size b \<le> rio_addr_66"
    and "pkt_has_crc b" and "pkt_padded b = frame_padded p" and "num_chars b = of_nat (length (padded_frame p))"
  shows "DAR_update_pkt_CRC b =
     Ret (b\<lparr>pkt_chars := padded_frame p @ drop (length (padded_frame p)) (pkt_chars b)\<rparr>)"
proof -
  have n: "unat (num_chars b) = length (padded_frame p)"
    using assms(2,8) by (simp add: unat_of_nat)
  have "0 < length (padded_frame p)"
    by (simp add: padded_frame_def length_pkt_frame)
  then show ?thesis
    using assms addr_size_guard [OF assms(5)] update_pkt_crc_frame [of p "pkt_chars b"] n
    by (simp add: DAR_update_pkt_CRC_def Let_def)
qed

theorem update_crc_restores_witness:
  "DAR_update_pkt_CRC \<lparr>pkt_addr_size = 2, pkt_has_crc = True, pkt_padded = False, num_chars = 4, pkt_chars = replicate 276 7\<rparr> =
     Ret \<lparr>pkt_addr_size = 2, pkt_has_crc = True, pkt_padded = False, num_chars = 4,
          pkt_chars = padded_frame [7, 7] @ replicate 272 7\<rparr>"
proof -
  have "take 2 (replicate 276 (7 :: u8)) = [7, 7]"
    by (simp add: numeral_2_eq_2)
  moreover have "frame_padded [7, 7] = False" "length (padded_frame [7, 7]) = 4"
    by (simp_all add: frame_padded_def padded_frame_def length_pkt_frame)
  ultimately show ?thesis
    using update_crc_restores [of "[7, 7]"
      "\<lparr>pkt_addr_size = 2, pkt_has_crc = True, pkt_padded = False, num_chars = 4, pkt_chars = replicate 276 7\<rparr>"]
    by (simp add: pkt_bytes_at_def pkt_body_def)
qed

text \<open>
  Adding checksums to a packet that has none is flawed in two ways. A packet of 273 or 274 bytes is accepted,
  although with its two checksums it does not fit in the array: the write leaves it. And the flag \<open>pkt_has_crc\<close>
  stays false, so that a second call, on a packet whose checksums fit twice, adds checksums again instead of renewing
  them.
\<close>

theorem update_crc_flaws:
  assumes "\<not> pkt_has_crc b" and "length (pkt_chars b) = 276" and "pkt_addr_size b \<le> rio_addr_66"
  shows "(unat (num_chars b) \<in> {273, 274} \<longrightarrow> DAR_update_pkt_CRC b = Undef) \<and>
    (0 < unat (num_chars b) \<and> unat (num_chars b) \<le> 268 \<longrightarrow>
       (\<exists>b' b''. DAR_update_pkt_CRC b = Ret b' \<and> \<not> pkt_has_crc b' \<and> DAR_update_pkt_CRC b' = Ret b'' \<and>
          unat (num_chars b'') \<ge> unat (num_chars b') + 2))"
proof (intro conjI impI)
  assume "unat (num_chars b) \<in> {273, 274}"
  then show "DAR_update_pkt_CRC b = Undef"
    using assms addr_size_guard [OF assms(3)] by (auto simp: DAR_update_pkt_CRC_def Let_def compute_pkt_crc_def)
next
  define n where "n = unat (num_chars b)"
  define m where "m = n + (if n > 80 then 4 else 2)"
  assume "0 < unat (num_chars b) \<and> unat (num_chars b) \<le> 268"
  then have n: "0 < n" "n \<le> 268"
    by (simp_all add: n_def)
  from n obtain d where d: "DAR_update_pkt_CRC b = Ret (b\<lparr>num_chars := of_nat m, pkt_chars := d\<rparr>)" "length d = 276"
    using update_adds_crc [OF assms n_def] by (auto simp: m_def)
  define b' where "b' = b\<lparr>num_chars := of_nat m, pkt_chars := d\<rparr>"
  have m: "unat (num_chars b') = m" "0 < m" "m \<le> 272"
    using n by (auto simp: b'_def m_def unat_of_nat_u32 simp del: of_nat_add)
  obtain e where e: "DAR_update_pkt_CRC b' = Ret (b'\<lparr>num_chars := of_nat (m + (if m > 80 then 4 else 2)), pkt_chars := e\<rparr>)"
  proof -
    have "\<not> pkt_has_crc b'" "length (pkt_chars b') = 276" "pkt_addr_size b' \<le> rio_addr_66"
      using assms(1,3) d(2) by (simp_all add: b'_def)
    from update_adds_crc [OF this m(1) [symmetric] m(2,3)] show ?thesis
      by (elim exE conjE) (rule that)
  qed
  show "\<exists>b' b''. DAR_update_pkt_CRC b = Ret b' \<and> \<not> pkt_has_crc b' \<and> DAR_update_pkt_CRC b' = Ret b'' \<and>
      unat (num_chars b'') \<ge> unat (num_chars b') + 2"
  proof (intro exI conjI)
    show "DAR_update_pkt_CRC b = Ret b'" "\<not> pkt_has_crc b'"
      using d assms(1) by (simp_all add: b'_def)
    show "DAR_update_pkt_CRC b' = Ret (b'\<lparr>num_chars := of_nat (m + (if m > 80 then 4 else 2)), pkt_chars := e\<rparr>)"
      by (rule e)
    have "unat (of_nat (m + (if m > 80 then 4 else 2)) :: u32) = m + (if m > 80 then 4 else 2)"
      by (rule unat_of_nat_u32) (use m(3) in simp)
    then show "unat (num_chars (b'\<lparr>num_chars := of_nat (m + (if m > 80 then 4 else 2)), pkt_chars := e\<rparr>)) \<ge> unat (num_chars b') + 2"
      using m(1) by (simp del: of_nat_add)
  qed
qed

theorem update_crc_flaws_witness:
  "DAR_update_pkt_CRC \<lparr>pkt_addr_size = 2, pkt_has_crc = False, pkt_padded = False, num_chars = 274, pkt_chars = replicate 276 0\<rparr> = Undef"
  using update_crc_flaws [of "\<lparr>pkt_addr_size = 2, pkt_has_crc = False, pkt_padded = False, num_chars = 274, pkt_chars = replicate 276 0\<rparr>"]
  by simp

end
