(* ===== verification/Pkt_Compose.thy ===== *)
theory Pkt_Compose
  imports Pkt_Size Pkt_Crc
begin

unbundle bit_operations_syntax

text \<open>
  Composition of packets, \<open>DAR_pkt_fields_to_bytes\<close> of
  \<^verbatim>\<open>fabric_management/librio/src/RapidIO_Utilities_API.c\<close>, and the packet fields of its header. The enumerations
  other than \<open>DAR_pkt_type\<close> are cast from and to integers and are words here. The function appends to an array,
  \<^verbatim>\<open>pkt_data[num_chars++] = ...\<close>: the bytes appended so far are a list, and the outcome is \<open>Undef\<close> when they
  exceed the array of 276 bytes. The cases of its large switch are definitions of their own, from one state of the
  composition to the next. The content of \<open>bytes_out\<close> after an error is not part of the model.
\<close>

section \<open>Packet fields\<close>

record DAR_pkt_phy_hdr_t =
  pkt_vc :: u32
  pkt_prio :: u32
  crf :: bool
  pkt_ackID :: u32

record DAR_pkt_trans_hdr_t =
  tt_code :: u32
  destID :: u32
  srcID :: u32
  hopcount :: u8

record DAR_pkt_log_rw_hdr_t =
  rw_addr_size :: rio_addr_size
  addr :: "u32 list"
  tid :: u32
  rw_status :: u32

record DAR_pkt_log_fc_hdr_t =
  fc_xon :: bool
  fc_flow :: u32
  fc_destID :: u32
  fc_srcID :: u32
  fc_soc_is_ep :: bool
  fc_fam :: u32

record DAR_pkt_log_ds_hdr_t =
  dstm_start_seg :: bool
  dstm_end_seg :: bool
  dstm_xh_seg :: bool
  dstm_COS :: u32
  dstm_streamid :: u32
  dstm_odd_data_amt :: bool
  dstm_pad_data_amt :: bool
  dstm_PDU_len :: u32
  dstm_xh_type :: u32
  dstm_xh_tm_op :: u32
  dstm_xh_wildcard :: u32
  dstm_xh_COS_mask :: u32
  dstm_xh_parm1 :: u32
  dstm_xh_parm2 :: u32

record DAR_pkt_log_ms_hdr_t =
  msg_len :: u32
  mbid :: u32
  msgseg :: u32
  letter :: u32
  ms_status :: u32

record DAR_pkt_fields_t =
  tot_bytes :: u32
  pad_bytes :: u32
  phys :: DAR_pkt_phy_hdr_t
  trans :: DAR_pkt_trans_hdr_t
  pkt_type :: DAR_pkt_type
  pkt_bytes :: u32
  pkt_data :: "u8 list"
  log_rw :: DAR_pkt_log_rw_hdr_t
  log_fc :: DAR_pkt_log_fc_hdr_t
  log_ds :: DAR_pkt_log_ds_hdr_t
  log_ms :: DAR_pkt_log_ms_hdr_t

abbreviation (input) tt_small :: u32 where "tt_small \<equiv> 0"
abbreviation (input) tt_large :: u32 where "tt_large \<equiv> 1"
abbreviation (input) pkt_done :: u32 where "pkt_done \<equiv> 0"
abbreviation (input) pkt_retry :: u32 where "pkt_retry \<equiv> 3"
abbreviation (input) pkt_err :: u32 where "pkt_err \<equiv> 7"

abbreviation (input) DAR_UTIL_INVALID_TT :: u32 where "DAR_UTIL_INVALID_TT \<equiv> 0x78000000"
abbreviation (input) DAR_UTIL_BAD_ADDRSIZE :: u32 where "DAR_UTIL_BAD_ADDRSIZE \<equiv> 0x78000001"
abbreviation (input) DAR_UTIL_INVALID_RDSIZE :: u32 where "DAR_UTIL_INVALID_RDSIZE \<equiv> 0x78000002"
abbreviation (input) DAR_UTIL_BAD_DATA_SIZE :: u32 where "DAR_UTIL_BAD_DATA_SIZE \<equiv> 0x78000003"
abbreviation (input) DAR_UTIL_INVALID_MTC :: u32 where "DAR_UTIL_INVALID_MTC \<equiv> 0x78000004"
abbreviation (input) DAR_UTIL_BAD_MSG_DSIZE :: u32 where "DAR_UTIL_BAD_MSG_DSIZE \<equiv> 0x78000005"
abbreviation (input) DAR_UTIL_BAD_RESP_DSIZE :: u32 where "DAR_UTIL_BAD_RESP_DSIZE \<equiv> 0x78000006"
abbreviation (input) DAR_UTIL_UNKNOWN_TRANS :: u32 where "DAR_UTIL_UNKNOWN_TRANS \<equiv> 0x78000007"
abbreviation (input) DAR_UTIL_BAD_DS_DSIZE :: u32 where "DAR_UTIL_BAD_DS_DSIZE \<equiv> 0x78000008"
abbreviation (input) DAR_UTIL_UNKNOWN_STATUS :: u32 where "DAR_UTIL_UNKNOWN_STATUS \<equiv> 0x78000009"
abbreviation (input) DAR_UTIL_INVALID_WPTR :: u32 where "DAR_UTIL_INVALID_WPTR \<equiv> 0x78000012"

section \<open>State of the composition\<close>

record compose_t =
  out_data :: "u8 list"
  out_addr_size :: rio_addr_size
  in_fields :: DAR_pkt_fields_t
  add_data :: bool
  data_bytes :: u32
  repeat_data_bytes :: nat

definition emit :: "u8 list \<Rightarrow> compose_t \<Rightarrow> compose_t" where
  "emit bs s = s\<lparr>out_data := out_data s @ bs\<rparr>"

text \<open>\<^verbatim>\<open>pkt_data[lo .. lo + n)\<close> of the fields; reading behind its end is undefined.\<close>

definition read_data :: "DAR_pkt_fields_t \<Rightarrow> nat \<Rightarrow> nat \<Rightarrow> u8 list outcome" where
  "read_data f lo n = (if lo + n \<le> length (pkt_data f) then Ret (take n (drop lo (pkt_data f))) else Undef)"

definition DAR_util_pkt_bytes_init :: DAR_pkt_bytes_t where
  "DAR_util_pkt_bytes_init = \<lparr>pkt_addr_size = rio_addr_34, pkt_has_crc = False, pkt_padded = False,
     num_chars = 0xFFFFFFFF, pkt_chars = replicate RIO_MAX_PKT_BYTES 0\<rparr>"

definition compose_init :: "DAR_pkt_fields_t \<Rightarrow> compose_t" where
  "compose_init f = \<lparr>out_data = [], out_addr_size = pkt_addr_size DAR_util_pkt_bytes_init, in_fields = f,
     add_data = True, data_bytes = 0, repeat_data_bytes = 1\<rparr>"

section \<open>Addresses\<close>

definition xaddr_xamsbs :: "rio_addr_size \<Rightarrow> u32 list \<Rightarrow> u32" where
  "xaddr_xamsbs sz a =
     (if sz = rio_addr_66 then a ! 2 AND 3
      else if sz = rio_addr_50 then ucast (ucast (drop_bit 16 (a ! 1) AND 3) :: u8)
      else if sz = rio_addr_34 then ucast (ucast (a ! 1 AND 3) :: u8)
      else 0)"

definition DAR_add_rw_addr :: "rio_addr_size \<Rightarrow> u32 list \<Rightarrow> u32 \<Rightarrow> u8 list outcome" where
  "DAR_add_rw_addr sz a wptr =
     (if wptr \<noteq> 0 \<and> wptr \<noteq> 1 then Err DAR_UTIL_INVALID_WPTR
      else
        (let b66 = [ucast (drop_bit 24 (a ! 1) AND 0xFF), ucast (drop_bit 16 (a ! 1) AND 0xFF)];
             b50 = [ucast (drop_bit 8 (a ! 1) AND 0xFF), ucast (a ! 1 AND 0xFF)];
             b32 = [ucast (drop_bit 24 (a ! 0) AND 0xFF)];
             b21 = [ucast (drop_bit 16 (a ! 0 AND 0x00FF0000)), ucast (drop_bit 8 (a ! 0 AND 0x0000FF00)),
                    ucast ((a ! 0 AND 0x000000F8) + push_bit 2 (wptr AND 1) + xaddr_xamsbs sz a)]
         in if sz = rio_addr_66 then Ret (b66 @ b50 @ b32 @ b21)
            else if sz = rio_addr_50 then Ret (b50 @ b32 @ b21)
            else if sz = rio_addr_34 \<or> sz = rio_addr_32 then Ret (b32 @ b21)
            else if sz = rio_addr_21 then Ret b21
            else Err DAR_UTIL_BAD_ADDRSIZE))"

definition add_addr :: "u32 \<Rightarrow> compose_t \<Rightarrow> compose_t outcome" where
  "add_addr wptr s =
     (let rw = log_rw (in_fields s) in
      and_then (DAR_add_rw_addr (rw_addr_size rw) (addr rw) wptr)
        (\<lambda>bs. Ret ((emit bs s)\<lparr>out_addr_size := rw_addr_size rw\<rparr>)))"

section \<open>Physical and transport layer\<close>

definition compose_phys :: "compose_t \<Rightarrow> compose_t" where
  "compose_phys s =
     (let f = in_fields s in
      emit [ucast (push_bit 1 (if pkt_vc (phys f) \<noteq> 0 then 1 else 0 :: u32) OR (if crf (phys f) then 1 else 0)),
            ucast (push_bit 6 (pkt_prio (phys f) AND 3) OR push_bit 4 (ucast (ucast (tt_code (trans f)) :: u8) :: u32) OR
                   (DAR_util_get_ftype (pkt_type f) AND 0xF))] s)"

definition compose_trans :: "compose_t \<Rightarrow> compose_t outcome" where
  "compose_trans s =
     (let t = trans (in_fields s) in
      if tt_code t = tt_small then Ret (emit [ucast (destID t AND 0xFF), ucast (srcID t AND 0xFF)] s)
      else if tt_code t = tt_large then
        Ret (emit [ucast (drop_bit 8 (destID t) AND 0xFF), ucast (destID t AND 0xFF),
                   ucast (drop_bit 8 (srcID t) AND 0xFF), ucast (srcID t AND 0xFF)] s)
      else Err DAR_UTIL_INVALID_TT)"

section \<open>Logical layer\<close>

text \<open>Reads and atomic operations without data (ftype 2).\<close>

definition nread_trans :: "DAR_pkt_type \<Rightarrow> u32" where
  "nread_trans t =
     (case t of pkt_nr \<Rightarrow> 4 | pkt_nr_inc \<Rightarrow> 0xC | pkt_nr_dec \<Rightarrow> 0xD | pkt_nr_set \<Rightarrow> 0xE | pkt_nr_clr \<Rightarrow> 0xF | _ \<Rightarrow> 0)"

definition compose_nread :: "compose_t \<Rightarrow> compose_t outcome" where
  "compose_nread s =
     (let f = in_fields s; n = pkt_bytes f; trans_type = nread_trans (pkt_type f);
          (rdsize, wdptr) = DAR_util_get_rdsize_wdptr (addr (log_rw f) ! 0) n
      in if rdsize = BAD_SIZE \<or> (trans_type > 4 \<and> (n = 0 \<or> n > 4 \<or> n = 3)) then Err DAR_UTIL_INVALID_RDSIZE
         else add_addr wdptr
           (emit [ucast (push_bit 4 trans_type + (rdsize AND 0xF)), ucast (tid (log_rw f))] (s\<lparr>add_data := False\<rparr>)))"

text \<open>Writes and atomic operations with data (ftype 5).\<close>

definition nwrite_trans :: "DAR_pkt_type \<Rightarrow> (u32 \<times> nat) outcome" where
  "nwrite_trans t =
     (case t of pkt_nw \<Rightarrow> Ret (4, 1) | pkt_nwr \<Rightarrow> Ret (5, 1) | pkt_nw_swap \<Rightarrow> Ret (0xC, 1) | pkt_nw_cmp_swap \<Rightarrow> Ret (0xD, 2)
      | pkt_nw_tst_swap \<Rightarrow> Ret (0xE, 1) | _ \<Rightarrow> Err DAR_UTIL_UNKNOWN_TRANS)"

definition compose_nwrite :: "compose_t \<Rightarrow> compose_t outcome" where
  "compose_nwrite s =
     (let f = in_fields s; n = pkt_bytes f;
          check = (pkt_type f = pkt_nw_swap \<or> pkt_type f = pkt_nw_cmp_swap \<or> pkt_type f = pkt_nw_tst_swap)
      in if check \<and> (n = 3 \<or> n > 4) then Err DAR_UTIL_INVALID_RDSIZE
         else and_then (nwrite_trans (pkt_type f)) (\<lambda>(trans_type, rep).
           let (wrsize, wdptr) = DAR_util_get_wrsize_wdptr (addr (log_rw f) ! 0) n
           in if wrsize = BAD_SIZE then Err DAR_UTIL_INVALID_RDSIZE
              else add_addr wdptr
                (emit [ucast (push_bit 4 trans_type + (wrsize AND 0xF)), ucast (tid (log_rw f))]
                   (s\<lparr>data_bytes := n, repeat_data_bytes := rep\<rparr>))))"

text \<open>Streaming writes (ftype 6).\<close>

definition compose_swrite :: "compose_t \<Rightarrow> compose_t outcome" where
  "compose_swrite s = add_addr 0 s"

text \<open>Flow control (ftype 7).\<close>

definition compose_fc :: "compose_t \<Rightarrow> compose_t outcome" where
  "compose_fc s =
     (let fc = log_fc (in_fields s) in
      Ret (emit [ucast ((if fc_xon fc then 0x80 else 0 :: u32) OR push_bit 4 (fc_fam fc AND 7)),
                 ucast (push_bit 1 (fc_flow fc AND 0x7F) OR (if fc_soc_is_ep fc then 1 else 0))] (s\<lparr>add_data := False\<rparr>)))"

text \<open>
  Maintenance requests and responses and port-writes (ftype 8). The transaction type is the difference of the
  enumeration values; a response clears the first word of the address in the fields it was given.
\<close>

definition mtc_trans_type :: "DAR_pkt_type \<Rightarrow> u32" where
  "mtc_trans_type t = (case t of pkt_mr \<Rightarrow> 0 | pkt_mw \<Rightarrow> 1 | pkt_mrr \<Rightarrow> 2 | pkt_mwr \<Rightarrow> 3 | pkt_pw \<Rightarrow> 4 | _ \<Rightarrow> 0)"

definition clear_addr0 :: "DAR_pkt_fields_t \<Rightarrow> DAR_pkt_fields_t" where
  "clear_addr0 f = f\<lparr>log_rw := (log_rw f)\<lparr>addr := (addr (log_rw f))[0 := 0]\<rparr>\<rparr>"

definition mtc_size :: "compose_t \<Rightarrow> (u32 \<times> u32 \<times> compose_t) outcome" where
  "mtc_size s =
     (let f = in_fields s; n = pkt_bytes f; a0 = addr (log_rw f) ! 0;
          (rdsize, rdptr) = DAR_util_get_rdsize_wdptr a0 n;
          (wrsize, wrptr) = DAR_util_get_wrsize_wdptr a0 n
      in case pkt_type f of
           pkt_mr \<Rightarrow> if rdsize = BAD_SIZE \<or> n > 64 then Err DAR_UTIL_INVALID_RDSIZE
                     else Ret (rdsize, rdptr, s\<lparr>add_data := False\<rparr>)
         | pkt_mw \<Rightarrow> if wrsize = BAD_SIZE \<or> n > 64 then Err DAR_UTIL_INVALID_RDSIZE else Ret (wrsize, wrptr, s)
         | pkt_mrr \<Rightarrow> if rdsize = BAD_SIZE \<or> n = 0 \<or> n > 64 then Err DAR_UTIL_INVALID_RDSIZE
                      else Ret (rw_status (log_rw f), 0, s\<lparr>in_fields := clear_addr0 f\<rparr>)
         | pkt_mwr \<Rightarrow> Ret (rw_status (log_rw f), 0, s\<lparr>add_data := False, in_fields := clear_addr0 f\<rparr>)
         | pkt_pw \<Rightarrow> if wrsize = BAD_SIZE \<or> n = 0 \<or> n AND 7 \<noteq> 0 then Err DAR_UTIL_INVALID_RDSIZE else Ret (wrsize, wrptr, s)
         | _ \<Rightarrow> Err DAR_UTIL_INVALID_MTC)"

definition compose_mtc :: "compose_t \<Rightarrow> compose_t outcome" where
  "compose_mtc s =
     and_then (mtc_size s) (\<lambda>(size_rc, wdptr, s1).
       let f = in_fields s1;
           s2 = emit [ucast (push_bit 4 (mtc_trans_type (pkt_type f)) + (size_rc AND 0xF)), ucast (tid (log_rw f)),
                      hopcount (trans f)] s1
       in if rw_addr_size (log_rw f) \<noteq> rio_addr_21 then Err DAR_UTIL_BAD_ADDRSIZE
          else and_then (add_addr wdptr s2) (\<lambda>s3. Ret (s3\<lparr>data_bytes := pkt_bytes f\<rparr>)))"

text \<open>Data streaming (ftype 9).\<close>

definition dstm_xh_bytes :: "DAR_pkt_log_ds_hdr_t \<Rightarrow> u8 list" where
  "dstm_xh_bytes ds =
     [ucast (0x04 OR push_bit 3 (dstm_xh_type ds AND 7)),
      ucast (drop_bit 8 (dstm_streamid ds AND 0xFF00)), ucast (dstm_streamid ds AND 0x00FF),
      ucast (push_bit 4 (dstm_xh_tm_op ds AND 0xF) + (dstm_xh_wildcard ds AND 7)),
      ucast (dstm_xh_COS_mask ds AND 0xFF), ucast (dstm_xh_parm1 ds), ucast (dstm_xh_parm2 ds)]"

definition dstm_flags :: "DAR_pkt_log_ds_hdr_t \<Rightarrow> u8" where
  "dstm_flags ds =
     (let temp = (if dstm_start_seg ds then 0x80 else 0) in
      if dstm_end_seg ds
      then temp OR (0x40 OR (if dstm_odd_data_amt ds then 2 else 0) OR (if dstm_pad_data_amt ds then 1 else 0))
      else temp)"

definition dstm_seg_bytes :: "DAR_pkt_log_ds_hdr_t \<Rightarrow> u8 list" where
  "dstm_seg_bytes ds =
     dstm_flags ds #
     (if dstm_start_seg ds then [ucast (drop_bit 8 (dstm_streamid ds) AND 0xFF), ucast (dstm_streamid ds AND 0xFF)]
      else if dstm_end_seg ds then [ucast (drop_bit 8 (dstm_PDU_len ds) AND 0xFF), ucast (dstm_PDU_len ds AND 0xFF)]
      else [])"

definition dstm_size_ok :: "DAR_pkt_log_ds_hdr_t \<Rightarrow> u32 \<Rightarrow> bool" where
  "dstm_size_ok ds n =
     (if n AND 3 = 0 then \<not> (dstm_pad_data_amt ds \<or> dstm_odd_data_amt ds)
      else if n AND 3 = 1 then \<not> (\<not> dstm_pad_data_amt ds \<or> \<not> dstm_odd_data_amt ds)
      else if n AND 3 = 2 then \<not> (dstm_pad_data_amt ds \<or> \<not> dstm_odd_data_amt ds)
      else \<not> (\<not> dstm_pad_data_amt ds \<or> dstm_odd_data_amt ds))"

definition compose_dstm :: "compose_t \<Rightarrow> compose_t outcome" where
  "compose_dstm s =
     (let f = in_fields s; ds = log_ds f;
          s1 = emit [ucast (dstm_COS ds)] (s\<lparr>add_data := False\<rparr>)
      in if dstm_xh_seg ds then Ret (emit (dstm_xh_bytes ds) s1)
         else and_then (read_data f 0 (unat (pkt_bytes f))) (\<lambda>d.
           let s2 = emit d (emit (dstm_seg_bytes ds) s1)
           in if length (out_data s2) > RIO_MAX_PKT_BYTES then Undef
              else if \<not> dstm_size_ok ds (pkt_bytes f) then Err DAR_UTIL_BAD_DS_DSIZE
              else Ret (if dstm_end_seg ds \<and> dstm_pad_data_amt ds then emit [0] s2 else s2)))"

text \<open>Doorbells (ftype 10).\<close>

definition compose_db :: "compose_t \<Rightarrow> compose_t outcome" where
  "compose_db s =
     (let f = in_fields s in
      if pkt_bytes f \<noteq> 2 then Err DAR_UTIL_BAD_MSG_DSIZE
      else and_then (read_data f 0 2) (\<lambda>d. Ret (emit ([0, ucast (tid (log_rw f))] @ d) (s\<lparr>add_data := False\<rparr>))))"

text \<open>Messages (ftype 11).\<close>

definition msg_size :: "DAR_pkt_log_ms_hdr_t \<Rightarrow> u32 \<Rightarrow> u32 outcome" where
  "msg_size ms n =
     (if msg_len ms = 0 \<or> (msg_len ms \<noteq> 0 \<and> msgseg ms = msg_len ms) then
        if n AND 7 \<noteq> 0 then Err DAR_UTIL_BAD_MSG_DSIZE
        else if n > 128 then Ret 14 else if n > 64 then Ret 13 else if n > 32 then Ret 12
        else if n > 16 then Ret 11 else if n > 8 then Ret 10 else Ret 9
      else if n = 8 then Ret 9 else if n = 16 then Ret 10 else if n = 32 then Ret 11
      else if n = 64 then Ret 12 else if n = 128 then Ret 13 else if n = 256 then Ret 14
      else Err DAR_UTIL_BAD_MSG_DSIZE)"

definition compose_msg :: "compose_t \<Rightarrow> compose_t outcome" where
  "compose_msg s =
     (let f = in_fields s; ms = log_ms f in
      and_then (msg_size ms (pkt_bytes f)) (\<lambda>addr_rc.
        Ret (emit
          [ucast (push_bit 4 (msg_len ms AND 0xF) + addr_rc),
           (if msg_len ms \<noteq> 0
            then ucast (push_bit 6 (letter ms AND 3) + push_bit 4 (mbid ms AND 3) + (msgseg ms AND 0xF))
            else ucast (push_bit 6 (letter ms AND 3) + (mbid ms AND 0x3F)))] s)))"

text \<open>Responses (ftype 13).\<close>

definition compose_resp :: "compose_t \<Rightarrow> compose_t outcome" where
  "compose_resp s =
     (let f = in_fields s; ms = log_ms f; rw = log_rw f; n = pkt_bytes f in
      case pkt_type f of
        pkt_msg_resp \<Rightarrow>
          if n \<noteq> 0 then Err DAR_UTIL_BAD_RESP_DSIZE
          else Ret (emit
            [ucast ((ms_status ms AND 0xF) OR 0x10),
             (if msg_len ms \<noteq> 0 then ucast (push_bit 6 (letter ms) OR push_bit 4 (mbid ms) OR (msgseg ms AND 0xF))
              else ucast (push_bit 6 (letter ms) OR (mbid ms AND 0x3F)))] (s\<lparr>add_data := False\<rparr>))
      | pkt_resp \<Rightarrow>
          if n \<noteq> 0 then Err DAR_UTIL_BAD_RESP_DSIZE
          else Ret (emit [ucast (rw_status rw AND 0xF), ucast (tid rw AND 0xFF)] (s\<lparr>add_data := False\<rparr>))
      | pkt_resp_data \<Rightarrow>
          if (n = 0 \<and> pkt_err \<noteq> rw_status rw) \<or> n AND 7 \<noteq> 0 then Err DAR_UTIL_BAD_RESP_DSIZE
          else Ret (emit [ucast ((rw_status rw AND 0xF) OR 0x80), ucast (tid rw AND 0xFF)] (s\<lparr>add_data := (n \<noteq> 0)\<rparr>))
      | _ \<Rightarrow> Err DAR_UTIL_BAD_RESP_DSIZE)"

definition compose_log :: "compose_t \<Rightarrow> compose_t outcome" where
  "compose_log s =
     (let ftype = DAR_util_get_ftype (pkt_type (in_fields s)) in
      if ftype = 2 then compose_nread s
      else if ftype = 5 then compose_nwrite s
      else if ftype = 6 then compose_swrite s
      else if ftype = 7 then compose_fc s
      else if ftype = 8 then compose_mtc s
      else if ftype = 9 then compose_dstm s
      else if ftype = 10 then compose_db s
      else if ftype = 11 then compose_msg s
      else if ftype = 13 then compose_resp s
      else Err DAR_UTIL_UNKNOWN_TRANS)"

section \<open>Data and checksums\<close>

text \<open>
  The data: fewer than eight bytes are placed in a double word of their own at the offset of the address, once or, for
  an atomic compare and swap, twice; otherwise whole double words.
\<close>

definition compose_chunk :: "DAR_pkt_fields_t \<Rightarrow> nat \<Rightarrow> nat \<Rightarrow> u8 list outcome" where
  "compose_chunk f n r =
     (let a = unat (addr (log_rw f) ! 0 AND 7) in
      and_then (read_data f (r * n) n) (\<lambda>d. Ret (replicate a 0 @ d @ replicate (8 - (a + unat (pkt_bytes f))) 0)))"

primrec compose_chunks :: "DAR_pkt_fields_t \<Rightarrow> nat \<Rightarrow> nat \<Rightarrow> u8 list outcome" where
  "compose_chunks f n 0 = Ret []"
| "compose_chunks f n (Suc r) =
     and_then (compose_chunks f n r) (\<lambda>bs. and_then (compose_chunk f n r) (\<lambda>c. Ret (bs @ c)))"

definition compose_data :: "compose_t \<Rightarrow> compose_t outcome" where
  "compose_data s =
     (let f = in_fields s; n = pkt_bytes f; data_align = addr (log_rw f) ! 0 AND 7 in
      if add_data s \<and> n \<noteq> 0 then
        if n < 8 then
          if data_align + n > 8 then Err DAR_UTIL_BAD_DATA_SIZE
          else and_then (compose_chunks f (unat (data_bytes s)) (repeat_data_bytes s)) (\<lambda>bs. Ret (emit bs s))
        else if data_align \<noteq> 0 \<or> n AND 7 \<noteq> 0 then Err DAR_UTIL_BAD_DATA_SIZE
        else and_then (read_data f 0 (unat n)) (\<lambda>bs. Ret (emit bs s))
      else Ret s)"

definition compose_crc :: "compose_t \<Rightarrow> (DAR_pkt_bytes_t \<times> DAR_pkt_fields_t) outcome" where
  "compose_crc s =
     (if length (out_data s) > RIO_MAX_PKT_BYTES then Undef
      else and_then
        (compute_pkt_crc (out_data s @ replicate (RIO_MAX_PKT_BYTES - length (out_data s)) 0) (length (out_data s)))
        (\<lambda>(d, n).
          if odd (n div 2)
          then if n + 2 > RIO_MAX_PKT_BYTES then Undef
               else Ret (\<lparr>pkt_addr_size = out_addr_size s, pkt_has_crc = True, pkt_padded = True,
                          num_chars = of_nat (n + 2), pkt_chars = d[n := 0, n + 1 := 0]\<rparr>, in_fields s)
          else Ret (\<lparr>pkt_addr_size = out_addr_size s, pkt_has_crc = True, pkt_padded = False,
                     num_chars = of_nat n, pkt_chars = d\<rparr>, in_fields s)))"

definition addr_size_bad :: "DAR_pkt_fields_t \<Rightarrow> bool" where
  "addr_size_bad f \<longleftrightarrow>
     (DAR_util_get_ftype (pkt_type f) = 8 \<and> rw_addr_size (log_rw f) \<noteq> rio_addr_21) \<or>
     (DAR_util_get_ftype (pkt_type f) \<noteq> 8 \<and> rw_addr_size (log_rw f) = rio_addr_21)"

definition compose_pkt :: "compose_t \<Rightarrow> compose_t outcome" where
  "compose_pkt s =
     and_then (compose_trans (compose_phys s)) (\<lambda>s1.
       if addr_size_bad (in_fields s) then Err DAR_UTIL_BAD_ADDRSIZE
       else and_then (compose_log s1) compose_data)"

definition compose_raw :: "compose_t \<Rightarrow> compose_t outcome" where
  "compose_raw s =
     and_then (read_data (in_fields s) 0 (unat (pkt_bytes (in_fields s)))) (\<lambda>d. Ret (emit d s))"

text \<open>The result is the packet as bytes and the fields as the function leaves them.\<close>

definition DAR_pkt_fields_to_bytes :: "DAR_pkt_fields_t \<Rightarrow> (DAR_pkt_bytes_t \<times> DAR_pkt_fields_t) outcome" where
  "DAR_pkt_fields_to_bytes f =
     (let s = compose_init f in
      and_then (if pkt_type f = pkt_raw then compose_raw s else compose_pkt s) compose_crc)"


section \<open>Facts on the composition\<close>

lemma emit_simps [simp]:
  "out_data (emit bs s) = out_data s @ bs" "in_fields (emit bs s) = in_fields s" "add_data (emit bs s) = add_data s"
  "data_bytes (emit bs s) = data_bytes s" "repeat_data_bytes (emit bs s) = repeat_data_bytes s"
  "out_addr_size (emit bs s) = out_addr_size s"
  by (simp_all add: emit_def)

lemma clear_addr0_simps [simp]:
  "pkt_bytes (clear_addr0 f) = pkt_bytes f" "pkt_data (clear_addr0 f) = pkt_data f" "pkt_type (clear_addr0 f) = pkt_type f"
  "rw_addr_size (log_rw (clear_addr0 f)) = rw_addr_size (log_rw f)" "trans (clear_addr0 f) = trans f" "phys (clear_addr0 f) = phys f"
  "tid (log_rw (clear_addr0 f)) = tid (log_rw f)"
  by (simp_all add: clear_addr0_def)

text \<open>A step of the composition that adds at most \<open>k\<close> bytes and stays inside the memory it is given.\<close>

definition compose_step :: "nat \<Rightarrow> compose_t \<Rightarrow> compose_t outcome \<Rightarrow> bool" where
  "compose_step k s r \<longleftrightarrow>
     (case r of
        Undef \<Rightarrow> False
      | Err e \<Rightarrow> True
      | Ret s' \<Rightarrow> length (out_data s') \<le> length (out_data s) + k \<and>
          pkt_bytes (in_fields s') = pkt_bytes (in_fields s) \<and> pkt_data (in_fields s') = pkt_data (in_fields s) \<and>
          (data_bytes s' = data_bytes s \<or> data_bytes s' = pkt_bytes (in_fields s)) \<and>
          (repeat_data_bytes s' = repeat_data_bytes s \<or> repeat_data_bytes s' \<le> 2))"

lemma compose_stepE:
  assumes "compose_step k s r" and "\<And>s'. r = Ret s' \<Longrightarrow> compose_step k' s' (g s')"
    and "repeat_data_bytes s \<le> 2"
  shows "compose_step (k + k') s (and_then r g)"
  using assms by (cases r) (auto simp: compose_step_def split: outcome.splits)

lemma add_rw_addr_bound: "DAR_add_rw_addr sz a w \<noteq> Undef" "DAR_add_rw_addr sz a w = Ret bs \<Longrightarrow> length bs \<le> 8"
  by (auto simp: DAR_add_rw_addr_def Let_def split: if_splits)

lemma add_addr_step: "compose_step 8 s (add_addr w s)"
  using add_rw_addr_bound [of "rw_addr_size (log_rw (in_fields s))" "addr (log_rw (in_fields s))" w]
  by (cases "DAR_add_rw_addr (rw_addr_size (log_rw (in_fields s))) (addr (log_rw (in_fields s))) w")
    (auto simp: compose_step_def add_addr_def Let_def)

lemma add_addr_step_emit:
  assumes "length bs \<le> k" and "pkt_bytes (in_fields s') = pkt_bytes (in_fields s)" and "pkt_data (in_fields s') = pkt_data (in_fields s)"
    and "out_data s' = out_data s" and "data_bytes s' = data_bytes s \<or> data_bytes s' = pkt_bytes (in_fields s)"
    and "repeat_data_bytes s' = repeat_data_bytes s \<or> repeat_data_bytes s' \<le> 2"
  shows "compose_step (k + 8) s (add_addr w (emit bs s'))"
  using add_addr_step [of "emit bs s'" w] assms
  by (cases "add_addr w (emit bs s')") (auto simp: compose_step_def)

lemma compose_nread_step: "compose_step 10 s (compose_nread s)"
proof -
  obtain r w where "DAR_util_get_rdsize_wdptr (addr (log_rw (in_fields s)) ! 0) (pkt_bytes (in_fields s)) = (r, w)"
    by fastforce
  then show ?thesis
    using add_addr_step_emit [of _ 2]
    by (auto simp: compose_nread_def Let_def compose_step_def [of _ _ "Err _"])
qed

lemma compose_nwrite_step: "compose_step 10 s (compose_nwrite s)"
proof -
  obtain r w where "DAR_util_get_wrsize_wdptr (addr (log_rw (in_fields s)) ! 0) (pkt_bytes (in_fields s)) = (r, w)"
    by fastforce
  then show ?thesis
    using add_addr_step_emit [of _ 2]
    by (cases "pkt_type (in_fields s)")
      (auto simp: compose_nwrite_def nwrite_trans_def Let_def compose_step_def [of _ _ "Err _"])
qed

lemma set_data_bytes_step:
  assumes "compose_step k s r"
  shows "compose_step k s (and_then r (\<lambda>s3. Ret (s3\<lparr>data_bytes := pkt_bytes (in_fields s)\<rparr>)))"
  using assms by (cases r) (auto simp: compose_step_def)

lemma add_addr_21:
  assumes "rw_addr_size (log_rw (in_fields s)) = rio_addr_21" and "compose_step (k + 8) s0 (add_addr w s)"
    and "length (out_data s) \<le> length (out_data s0) + k"
  shows "compose_step (k + 3) s0 (add_addr w s)"
  using assms by (auto simp: compose_step_def add_addr_def DAR_add_rw_addr_def Let_def)

lemma compose_mtc_step: "compose_step 6 s (compose_mtc s)"
proof -
  obtain r w where rd: "DAR_util_get_rdsize_wdptr (addr (log_rw (in_fields s)) ! 0) (pkt_bytes (in_fields s)) = (r, w)"
    by fastforce
  obtain r' w' where wr: "DAR_util_get_wrsize_wdptr (addr (log_rw (in_fields s)) ! 0) (pkt_bytes (in_fields s)) = (r', w')"
    by fastforce
  show ?thesis
  proof (cases "mtc_size s")
    case (Ret x)
    obtain size_rc wd s1 where x: "x = (size_rc, wd, s1)"
      by (cases x)
    have s1: "out_data s1 = out_data s" "pkt_bytes (in_fields s1) = pkt_bytes (in_fields s)" "pkt_data (in_fields s1) = pkt_data (in_fields s)"
      "data_bytes s1 = data_bytes s" "repeat_data_bytes s1 = repeat_data_bytes s"
      using Ret unfolding x by (auto simp: mtc_size_def Let_def rd wr split: DAR_pkt_type.splits if_splits)
    have "compose_step 6 s (add_addr wd (emit bs s1))" if "length bs = 3" "rw_addr_size (log_rw (in_fields s1)) = rio_addr_21" for bs
      using add_addr_21 [of "emit bs s1" 3 s wd] add_addr_step_emit [of bs 3 s1 s wd] s1 that by simp
    then have step: "rw_addr_size (log_rw (in_fields s1)) = rio_addr_21 \<Longrightarrow> compose_step 6 s (add_addr wd (emit [a, b, c] s1))" for a b c
      by simp
    show ?thesis
      using set_data_bytes_step [OF step] s1 unfolding compose_mtc_def Ret x
      by (auto simp: Let_def compose_step_def [of _ _ "Err _"])
  next
    case (Err e)
    then show ?thesis
      by (simp add: compose_mtc_def compose_step_def)
  next
    case Undef
    then show ?thesis
      by (auto simp: mtc_size_def Let_def rd wr split: DAR_pkt_type.splits if_splits)
  qed
qed

lemma compose_dstm_step:
  assumes "pkt_bytes (in_fields s) \<le> 256" and "276 \<le> length (pkt_data (in_fields s))" and "length (out_data s) \<le> 6"
  shows "compose_step (unat (pkt_bytes (in_fields s)) + 8) s (compose_dstm s)"
proof -
  define n where "n = unat (pkt_bytes (in_fields s))"
  have n: "n \<le> 256"
    using assms(1) by (simp add: n_def word_le_nat_alt)
  then show ?thesis
    using assms(2,3) unfolding n_def [symmetric]
    by (auto simp: compose_dstm_def Let_def dstm_xh_bytes_def dstm_seg_bytes_def read_data_def compose_step_def n_def [symmetric])
qed

lemma compose_db_step: "276 \<le> length (pkt_data (in_fields s)) \<Longrightarrow> compose_step 4 s (compose_db s)"
  by (auto simp: compose_db_def Let_def read_data_def compose_step_def)

lemma compose_msg_step: "compose_step 2 s (compose_msg s)"
  by (auto simp: compose_msg_def Let_def msg_size_def compose_step_def)

lemma compose_resp_step: "compose_step 2 s (compose_resp s)"
  by (cases "pkt_type (in_fields s)") (auto simp: compose_resp_def Let_def compose_step_def)


lemma compose_log_step:
  assumes "pkt_bytes (in_fields s) \<le> 256" and "276 \<le> length (pkt_data (in_fields s))" and "length (out_data s) \<le> 6"
  shows "case compose_log s of Undef \<Rightarrow> False | Err e \<Rightarrow> True | Ret s' \<Rightarrow>
      compose_step 10 s (Ret s') \<or> compose_step (unat (pkt_bytes (in_fields s)) + 8) s (Ret s') \<and> \<not> add_data s'"
proof -
  have dstm: "\<not> add_data s'" if "compose_dstm s = Ret s'" for s'
    using that by (auto simp: compose_dstm_def Let_def read_data_def split: if_splits)
  have weaken: "compose_step 10 s r \<Longrightarrow> case r of Undef \<Rightarrow> False | Err e \<Rightarrow> True | Ret s' \<Rightarrow>
      compose_step 10 s (Ret s') \<or> compose_step (unat (pkt_bytes (in_fields s)) + 8) s (Ret s') \<and> \<not> add_data s'" for r
    by (cases r) (auto simp: compose_step_def)
  have mono: "compose_step k s r \<Longrightarrow> k \<le> 10 \<Longrightarrow> compose_step 10 s r" for k r
    by (cases r) (auto simp: compose_step_def)
  note steps = compose_nread_step compose_nwrite_step add_addr_step compose_mtc_step compose_db_step [OF assms(2)]
    compose_msg_step compose_resp_step
  show ?thesis
  proof (cases "DAR_util_get_ftype (pkt_type (in_fields s)) = 9")
    case True
    then show ?thesis
      using compose_dstm_step [OF assms] dstm
      by (cases "compose_dstm s") (auto simp: compose_log_def Let_def compose_step_def)
  next
    case False
    have "compose_step 10 s (compose_fc s)" "compose_step 10 s (Err DAR_UTIL_UNKNOWN_TRANS)"
      by (simp_all add: compose_fc_def Let_def compose_step_def)
    then have "compose_step 10 s (compose_log s)"
      using steps [THEN mono] False unfolding compose_log_def compose_swrite_def Let_def by (simp split: if_splits)
    then show ?thesis
      by (rule weaken)
  qed
qed

lemma compose_chunk_ok:
  assumes "(r + 1) * n \<le> length (pkt_data f)" and "n = unat (pkt_bytes f)"
    and "unat (addr (log_rw f) ! 0 AND 7) + n \<le> 8"
  shows "\<exists>c. compose_chunk f n r = Ret c \<and> length c = 8"
  using assms by (auto simp: compose_chunk_def read_data_def Let_def)

lemma compose_chunk_ok_none:
  assumes "unat (addr (log_rw f) ! 0 AND 7) \<le> 8"
  shows "\<exists>c. compose_chunk f 0 r = Ret c \<and> length c \<le> 8"
  using assms by (auto simp: compose_chunk_def read_data_def Let_def)


text \<open>The data part of a packet adds at most 256 bytes.\<close>

lemma align_7: "unat (a AND 7 :: u32) \<le> 7"
  using word_and_le1 [of a 7] by (simp add: word_le_nat_alt)

lemma compose_chunks_ok:
  assumes "\<And>r. r < m \<Longrightarrow> \<exists>c. compose_chunk f n r = Ret c \<and> length c \<le> 8"
  shows "\<exists>bs. compose_chunks f n m = Ret bs \<and> length bs \<le> 8 * m"
  using assms
proof (induction m)
  case (Suc m)
  then obtain bs where "compose_chunks f n m = Ret bs" "length bs \<le> 8 * m"
    by (meson less_SucI)
  moreover obtain c where "compose_chunk f n m = Ret c" "length c \<le> 8"
    using Suc.prems by blast
  ultimately show ?case
    by simp
qed simp

lemma compose_data_step:
  assumes "pkt_bytes (in_fields s) \<le> 256" and "276 \<le> length (pkt_data (in_fields s))"
    and "data_bytes s = 0 \<or> data_bytes s = pkt_bytes (in_fields s)" and "repeat_data_bytes s \<le> 2"
  shows "compose_step (if add_data s then 256 else 0) s (compose_data s)"
proof -
  define f where "f = in_fields s"
  define n where "n = unat (pkt_bytes f)"
  define a where "a = unat (addr (log_rw f) ! 0 AND 7)"
  have n: "n \<le> 256" "n \<le> length (pkt_data f)"
    using assms(1,2) by (simp_all add: n_def f_def word_le_nat_alt)
  have a: "a \<le> 7"
    unfolding a_def by (rule align_7)
  show ?thesis
  proof (cases "add_data s \<and> pkt_bytes f \<noteq> 0 \<and> pkt_bytes f < 8 \<and> \<not> (addr (log_rw f) ! 0 AND 7) + pkt_bytes f > 8")
    case True
    then have n8: "n < 8"
      by (simp add: n_def word_less_nat_alt)
    have "unat ((addr (log_rw f) ! 0 AND 7) + pkt_bytes f) = a + n"
      using a n8 by (simp add: a_def n_def unat_word_ariths)
    with True have sum: "a + n \<le> 8"
      by (simp add: word_less_nat_alt not_less)
    have "\<exists>c. compose_chunk f (unat (data_bytes s)) r = Ret c \<and> length c \<le> 8" if "r < repeat_data_bytes s" for r
      using assms(3)
    proof
      assume "data_bytes s = 0"
      then show ?thesis
        using compose_chunk_ok_none [of f r] a by (simp add: a_def)
    next
      assume d: "data_bytes s = pkt_bytes (in_fields s)"
      have "(r + 1) * n \<le> 2 * 7"
        using that assms(4) n8 by (intro mult_le_mono) auto
      then show ?thesis
        using compose_chunk_ok [of r n f] d sum assms(2) n_def by (auto simp: a_def f_def)
    qed
    then obtain bs where "compose_chunks f (unat (data_bytes s)) (repeat_data_bytes s) = Ret bs"
      "length bs \<le> 8 * repeat_data_bytes s"
      using compose_chunks_ok [of "repeat_data_bytes s" f "unat (data_bytes s)"] by blast
    then show ?thesis
      using True assms(4) by (auto simp: compose_data_def Let_def f_def compose_step_def)
  next
    case False
    then show ?thesis
      using n by (auto simp: compose_data_def Let_def f_def n_def compose_step_def read_data_def)
  qed
qed

text \<open>An odd number of bytes is only added in small steps, data streaming apart.\<close>

definition odd_small :: "nat \<Rightarrow> compose_t \<Rightarrow> compose_t outcome \<Rightarrow> bool" where
  "odd_small k s r \<longleftrightarrow> (\<forall>s'. r = Ret s' \<longrightarrow> odd (length (out_data s') + length (out_data s)) \<longrightarrow>
     length (out_data s') \<le> length (out_data s) + k)"

lemma odd_small_emit: "even (length bs) \<Longrightarrow> odd_small k s (Ret (emit bs (s\<lparr>add_data := x\<rparr>)))"
  "even (length bs) \<Longrightarrow> odd_small k s (Ret (emit bs s))" "odd_small k s (Err e)" "odd_small k s Undef"
  by (simp_all add: odd_small_def)

lemma odd_small_addr:
  assumes "length (out_data s') = length (out_data s) + 2 \<or> s' = s"
  shows "odd_small 8 s (add_addr w s')"
  using assms by (auto simp: odd_small_def add_addr_def DAR_add_rw_addr_def Let_def split: if_splits)

lemma odd_small_log:
  assumes "DAR_util_get_ftype (pkt_type (in_fields s)) \<noteq> 9"
  shows "odd_small 8 s (compose_log s)"
proof -
  have rd: "odd_small 8 s (compose_nread s)"
    by (auto simp: compose_nread_def Let_def odd_small_emit split: prod.splits intro!: odd_small_addr)
  have wr: "odd_small 8 s (compose_nwrite s)"
    by (cases "pkt_type (in_fields s)")
      (auto simp: compose_nwrite_def nwrite_trans_def Let_def odd_small_emit split: prod.splits intro!: odd_small_addr)
  have mtc: "odd_small 8 s (compose_mtc s)"
    using compose_mtc_step [of s] by (auto simp: compose_step_def odd_small_def)
  have db: "odd_small 8 s (compose_db s)"
    by (simp add: compose_db_def Let_def read_data_def odd_small_emit)
  have msg: "odd_small 8 s (compose_msg s)"
    by (simp add: compose_msg_def Let_def msg_size_def odd_small_emit)
  have resp: "odd_small 8 s (compose_resp s)"
    by (cases "pkt_type (in_fields s)") (simp_all add: compose_resp_def Let_def odd_small_emit)
  have fc: "odd_small 8 s (compose_fc s)"
    by (simp add: compose_fc_def Let_def odd_small_emit)
  show ?thesis
    using rd wr mtc db msg resp fc assms odd_small_addr [of s s 0]
    by (simp add: compose_log_def compose_swrite_def Let_def odd_small_emit)
qed

lemma odd_small_data:
  assumes "compose_step (if add_data s then 256 else 0) s (compose_data s)" and "repeat_data_bytes s \<le> 2"
    and "data_bytes s = 0 \<or> data_bytes s = pkt_bytes (in_fields s)"
  shows "odd_small 16 s (compose_data s)"
proof -
  define f where "f = in_fields s"
  have chunk: "length c \<le> 8" if "compose_chunk f n r = Ret c" "(addr (log_rw f) ! 0 AND 7) + pkt_bytes f \<le> 8" "pkt_bytes f < 8"
    "n = 0 \<or> n = unat (pkt_bytes f)" for c n r
  proof -
    have "unat ((addr (log_rw f) ! 0 AND 7) + pkt_bytes f) = unat (addr (log_rw f) ! 0 AND 7) + unat (pkt_bytes f)"
      using align_7 [of "addr (log_rw f) ! 0"] that(3) by (simp add: unat_word_ariths word_less_nat_alt)
    with that show ?thesis
      by (auto simp: compose_chunk_def read_data_def Let_def word_le_nat_alt split: if_splits)
  qed
  have chunks: "length bs \<le> 8 * m" if "compose_chunks f n m = Ret bs" "(addr (log_rw f) ! 0 AND 7) + pkt_bytes f \<le> 8"
    "pkt_bytes f < 8" "n = 0 \<or> n = unat (pkt_bytes f)" for bs n m
    using that
  proof (induction m arbitrary: bs)
    case (Suc m)
    from Suc.prems(1) obtain bs' c where "compose_chunks f n m = Ret bs'" "compose_chunk f n m = Ret c" "bs = bs' @ c"
      by (auto simp: and_then_Ret)
    with Suc chunk [of n m c] show ?case
      by fastforce
  qed simp
  have "even (unat n)" if "n AND 7 = 0" for n :: u32
  proof -
    have "\<not> bit (n AND 7) 0"
      using that by simp
    moreover have "bit (unat n) 0 = bit n 0"
      by (subst bit_unsigned_iff) simp
    ultimately show ?thesis
      by (simp add: even_and_iff bit_0)
  qed
  moreover have "length bs \<le> 16" if "compose_chunks f (unat (data_bytes s)) (repeat_data_bytes s) = Ret bs"
    "(addr (log_rw f) ! 0 AND 7) + pkt_bytes f \<le> 8" "pkt_bytes f < 8" for bs
  proof -
    have "unat (data_bytes s) = 0 \<or> unat (data_bytes s) = unat (pkt_bytes f)"
      using assms(3) by (auto simp: f_def)
    from chunks [OF that this] assms(2) show ?thesis
      by simp
  qed
  ultimately show ?thesis
    unfolding odd_small_def f_def
    by (auto simp: compose_data_def Let_def and_then_Ret read_data_def not_less split: if_splits)
qed


text \<open>
  The bytes of a packet before its checksums: at most 272, and not 271, when the data has at most 256.
\<close>

definition fits_frame :: "compose_t \<Rightarrow> bool" where
  "fits_frame s \<longleftrightarrow> length (out_data s) \<le> 272 \<and> length (out_data s) \<noteq> 271"

lemma compose_pkt_bound:
  assumes "pkt_bytes f \<le> 256" and "276 \<le> length (pkt_data f)"
  shows "case compose_pkt (compose_init f) of Undef \<Rightarrow> False | Err e \<Rightarrow> True | Ret s \<Rightarrow> fits_frame s"
proof -
  define s0 where "s0 = compose_phys (compose_init f)"
  have n: "unat (pkt_bytes f) \<le> 256"
    using assms(1) by (simp add: word_le_nat_alt)
  have s0: "length (out_data s0) = 2" "in_fields s0 = f" "data_bytes s0 = 0" "repeat_data_bytes s0 = 1"
    by (simp_all add: s0_def compose_phys_def compose_init_def Let_def)
  show ?thesis
  proof (cases "compose_trans s0")
    case (Ret s1)
    then have s1: "length (out_data s1) \<in> {4, 6}" "in_fields s1 = f" "data_bytes s1 = 0" "repeat_data_bytes s1 = 1"
      using s0 by (auto simp: compose_trans_def Let_def split: if_splits)
    note step = compose_log_step [of s1]
    show ?thesis
    proof (cases "compose_log s1")
      case log: (Ret s2)
      have s2: "compose_step 10 s1 (Ret s2) \<or> compose_step (unat (pkt_bytes f) + 8) s1 (Ret s2) \<and> \<not> add_data s2"
        using step s1 assms log by auto
      then have keep: "pkt_bytes (in_fields s2) = pkt_bytes f" "pkt_data (in_fields s2) = pkt_data f" "repeat_data_bytes s2 \<le> 2"
        "data_bytes s2 = 0 \<or> data_bytes s2 = pkt_bytes f"
        using s1 by (auto simp: compose_step_def)
      have data: "compose_step (if add_data s2 then 256 else 0) s2 (compose_data s2)"
        by (rule compose_data_step) (use keep assms in auto)
      have data_odd: "odd_small 16 s2 (compose_data s2)"
        by (rule odd_small_data [OF data]) (use keep in auto)
      have log_odd: "length (out_data s2) \<le> length (out_data s1) + 8" if "odd (length (out_data s2))" "add_data s2"
      proof -
        have "DAR_util_get_ftype (pkt_type (in_fields s1)) \<noteq> 9"
          using log that(2) by (auto simp: compose_log_def compose_dstm_def Let_def read_data_def split: if_splits)
        then show ?thesis
          using odd_small_log [of s1] log that s1(1) by (auto simp: odd_small_def)
      qed
      have "fits_frame s3" if "compose_data s2 = Ret s3" for s3
      proof (cases "add_data s2")
        case True
        then have "length (out_data s2) \<le> length (out_data s1) + 10"
          using s2 by (auto simp: compose_step_def)
        then show ?thesis
          using data data_odd log_odd True that s1(1) by (auto simp: fits_frame_def compose_step_def odd_small_def)
      next
        case False
        then have "length (out_data s3) \<le> 270"
          using data s2 that n s1(1) by (auto simp: compose_step_def)
        then show ?thesis
          by (simp add: fits_frame_def)
      qed
      then show ?thesis
        using Ret log data unfolding compose_pkt_def s0_def [symmetric]
        by (cases "compose_data s2") (auto simp: compose_step_def)
    qed (use step s1 assms Ret in \<open>auto simp: compose_pkt_def s0_def [symmetric]\<close>)
  qed (auto simp: compose_pkt_def s0_def [symmetric] compose_trans_def Let_def split: if_splits)
qed

lemma compose_raw_bound:
  assumes "pkt_bytes f \<le> 256" and "276 \<le> length (pkt_data f)"
  shows "\<exists>s. compose_raw (compose_init f) = Ret s \<and> fits_frame s \<and> out_data s = take (unat (pkt_bytes f)) (pkt_data f)"
  using assms by (auto simp: compose_raw_def compose_init_def read_data_def word_le_nat_alt fits_frame_def)

text \<open>Checksums and padding turn the bytes into their frame.\<close>

lemma padded_frame_bound: "fits_frame s \<Longrightarrow> length (padded_frame (out_data s)) \<le> 276"
proof -
  define m where "m = length (pkt_frame (out_data s))"
  assume fit: "fits_frame s"
  then have m: "m \<le> 276" "m \<noteq> 275"
    by (auto simp: m_def fits_frame_def length_pkt_frame)
  have "m = 276 \<Longrightarrow> \<not> odd (m div 2)"
    by simp
  with m show ?thesis
    by (cases "m = 276") (auto simp: padded_frame_def frame_padded_def m_def)
qed

lemma compose_crc_frame:
  assumes "fits_frame s"
  shows "compose_crc s = Ret (\<lparr>pkt_addr_size = out_addr_size s, pkt_has_crc = True, pkt_padded = frame_padded (out_data s),
     num_chars = of_nat (length (padded_frame (out_data s))),
     pkt_chars = padded_frame (out_data s) @ replicate (276 - length (padded_frame (out_data s))) 0\<rparr>, in_fields s)"
proof -
  define p where "p = out_data s"
  define m where "m = length (pkt_frame p)"
  have p: "length p + (if length p > 80 then 4 else 2) \<le> 276"
    using assms by (simp add: p_def fits_frame_def)
  have m: "m = length p + (if length p > 80 then 4 else 2)"
    by (simp add: m_def length_pkt_frame)
  have frame: "compute_pkt_crc (p @ replicate (276 - length p) 0) (length p) = Ret (pkt_frame p @ replicate (276 - m) 0, m)"
    using compute_pkt_crc_frame [of p "p @ replicate (276 - length p) 0"] p m by (simp add: m_def)
  have room: "m + 2 \<le> 276" if "odd (m div 2)"
    using padded_frame_bound [OF assms] that by (simp add: p_def m_def padded_frame_def frame_padded_def)
  have pad: "(pkt_frame p @ replicate (276 - m) 0)[m := 0, m + 1 := 0] = pkt_frame p @ [0, 0] @ replicate (276 - (m + 2)) 0" if "odd (m div 2)"
  proof -
    have "276 - m = Suc (Suc (276 - (m + 2)))"
      using room [OF that] by simp
    then show ?thesis
      by (simp add: m_def list_update_append)
  qed
  show ?thesis
  proof (cases "odd (m div 2)")
    case True
    then show ?thesis
      using p room [OF True] pad [OF True] unfolding compose_crc_def p_def [symmetric] frame
      by (simp add: padded_frame_def frame_padded_def m_def)
  next
    case False
    then show ?thesis
      using p unfolding compose_crc_def p_def [symmetric] frame
      by (simp add: padded_frame_def frame_padded_def m_def)
  qed
qed

end
