(* ===== verification/Pkt_Parse.thy ===== *)
theory Pkt_Parse
  imports Pkt_Compose
begin

unbundle bit_operations_syntax

text \<open>
  Parsing of packets, \<open>DAR_pkt_bytes_to_fields\<close> of \<^verbatim>\<open>fabric_management/librio/src/RapidIO_Utilities_API.c\<close>, and the
  descriptions of packets. The cases of its large switch are definitions of their own. Every index into the header of
  a packet is below 33 and so inside the array of 276 bytes; the loops over the data check their indices, and leave
  the array, the outcome \<open>Undef\<close>, for a packet that claims more bytes than the array has. The content of
  \<open>fields_out\<close> after an error is not part of the model.
\<close>

section \<open>State of the parser\<close>

record parse_t =
  out_fields :: DAR_pkt_fields_t
  pkt_index :: nat
  get_data :: bool
  get_exact_data :: bool
  parse_repeat :: nat

definition char_at :: "DAR_pkt_bytes_t \<Rightarrow> nat \<Rightarrow> u32" where
  "char_at b i = ucast (pkt_chars b ! i)"

definition parsed :: "DAR_pkt_fields_t \<Rightarrow> nat \<Rightarrow> bool \<Rightarrow> parse_t" where
  "parsed f i get = \<lparr>out_fields = f, pkt_index = i, get_data = get, get_exact_data = False, parse_repeat = 1\<rparr>"

section \<open>Physical and transport layer\<close>

definition parse_phys :: "DAR_pkt_bytes_t \<Rightarrow> DAR_pkt_fields_t \<Rightarrow> DAR_pkt_fields_t" where
  "parse_phys b f =
     f\<lparr>phys := \<lparr>pkt_vc = drop_bit 1 (char_at b 0 AND 2), pkt_prio = drop_bit 6 (char_at b 1 AND 0xC0),
                crf = (char_at b 0 AND 1 \<noteq> 0), pkt_ackID = drop_bit 2 (char_at b 0 AND 0xFC)\<rparr>,
       trans := (trans f)\<lparr>tt_code := drop_bit 4 (char_at b 1 AND 0x30)\<rparr>\<rparr>"

definition parse_trans :: "DAR_pkt_bytes_t \<Rightarrow> DAR_pkt_fields_t \<Rightarrow> (DAR_pkt_fields_t \<times> nat) outcome" where
  "parse_trans b f =
     (if tt_code (trans f) = tt_small then
        Ret (f\<lparr>trans := (trans f)\<lparr>destID := char_at b 2, srcID := char_at b 3\<rparr>\<rparr>, 4)
      else if tt_code (trans f) = tt_large then
        Ret (f\<lparr>trans := (trans f)\<lparr>destID := push_bit 8 (char_at b 2) + char_at b 3,
                                  srcID := push_bit 8 (char_at b 4) + char_at b 5\<rparr>\<rparr>, 6)
      else Err DAR_UTIL_INVALID_TT)"

section \<open>Addresses\<close>

definition addr_low :: "DAR_pkt_bytes_t \<Rightarrow> nat \<Rightarrow> u32" where
  "addr_low b i = push_bit 16 (char_at b i) OR push_bit 8 (char_at b (i + 1)) OR (char_at b (i + 2) AND 0xF8)"

text \<open>The three words of the address and the index of the first byte after it.\<close>

definition rw_addr_at :: "DAR_pkt_bytes_t \<Rightarrow> nat \<Rightarrow> u32 list \<times> nat" where
  "rw_addr_at b i =
     (if pkt_addr_size b = rio_addr_66 then
        ([push_bit 24 (char_at b (i + 4)) OR addr_low b (i + 5),
          push_bit 24 (char_at b i) OR push_bit 16 (char_at b (i + 1)) OR push_bit 8 (char_at b (i + 2)) OR char_at b (i + 3),
          char_at b (i + 7) AND 3], i + 8)
      else if pkt_addr_size b = rio_addr_50 then
        ([push_bit 24 (char_at b (i + 2)) OR addr_low b (i + 3),
          push_bit 16 (char_at b (i + 5) AND 3) OR push_bit 8 (char_at b i) OR char_at b (i + 1), 0], i + 6)
      else if pkt_addr_size b = rio_addr_34 then
        ([push_bit 24 (char_at b i) OR addr_low b (i + 1), char_at b (i + 3) AND 3, 0], i + 4)
      else if pkt_addr_size b = rio_addr_32 then
        ([push_bit 24 (char_at b i) OR addr_low b (i + 1), 0, 0], i + 4)
      else if pkt_addr_size b = rio_addr_21 then ([addr_low b i, 0, 0], i + 3)
      else ([0, 0, 0], unat DAR_UTIL_BAD_ADDRSIZE))"

definition DAR_get_rw_addr :: "DAR_pkt_bytes_t \<Rightarrow> DAR_pkt_fields_t \<Rightarrow> nat \<Rightarrow> DAR_pkt_fields_t \<times> nat" where
  "DAR_get_rw_addr b f i =
     (let (a, j) = rw_addr_at b i
      in (f\<lparr>log_rw := (log_rw f)\<lparr>rw_addr_size := pkt_addr_size b, addr := a\<rparr>\<rparr>, j))"

definition or_addr0 :: "u32 \<Rightarrow> DAR_pkt_fields_t \<Rightarrow> DAR_pkt_fields_t" where
  "or_addr0 x f = f\<lparr>log_rw := (log_rw f)\<lparr>addr := (addr (log_rw f))[0 := addr (log_rw f) ! 0 OR x]\<rparr>\<rparr>"

definition set_tid :: "u32 \<Rightarrow> DAR_pkt_fields_t \<Rightarrow> DAR_pkt_fields_t" where
  "set_tid t f = f\<lparr>log_rw := (log_rw f)\<lparr>tid := t\<rparr>\<rparr>"

section \<open>Logical layer\<close>

definition parse_nread :: "DAR_pkt_bytes_t \<Rightarrow> DAR_pkt_fields_t \<Rightarrow> nat \<Rightarrow> parse_t outcome" where
  "parse_nread b f i =
     (let t = drop_bit 4 (char_at b i AND 0xF0) in
      if t \<notin> {4, 0xC, 0xD, 0xE, 0xF} then Err DAR_UTIL_UNKNOWN_TRANS
      else
        (let typ = (if t = 4 then pkt_nr else if t = 0xC then pkt_nr_inc else if t = 0xD then pkt_nr_dec
                    else if t = 0xE then pkt_nr_set else pkt_nr_clr);
             size_rc = char_at b i AND 0xF;
             (f1, j) = DAR_get_rw_addr b (set_tid (char_at b (i + 1)) (f\<lparr>pkt_type := typ\<rparr>)) (i + 2)
         in if RIO_MAX_PKT_BYTES < j then Err (of_nat j)
            else
              (let (rc, n, a) = DAR_util_compute_rd_bytes_n_align size_rc (drop_bit 2 (char_at b (j - 1) AND 4))
               in if rc = SIZE_RC_FAIL then Err DAR_UTIL_INVALID_RDSIZE
                  else Ret (parsed (or_addr0 a (f1\<lparr>pkt_bytes := n\<rparr>)) j False))))"

definition parse_nwrite :: "DAR_pkt_bytes_t \<Rightarrow> DAR_pkt_fields_t \<Rightarrow> nat \<Rightarrow> parse_t outcome" where
  "parse_nwrite b f i =
     (let size_rc = char_at b i AND 0xF; t = drop_bit 4 (char_at b i AND 0xF0) in
      if t \<notin> {4, 5, 0xC, 0xD, 0xE} then Err DAR_UTIL_UNKNOWN_TRANS
      else
        (let (typ, rep) = (if t = 4 then (pkt_nw, 1) else if t = 5 then (pkt_nwr, 1) else if t = 0xC then (pkt_nw_swap, 1)
                    else if t = 0xD then (pkt_nw_cmp_swap, 2) else (pkt_nw_tst_swap, 1));
             (f1, j) = DAR_get_rw_addr b (set_tid (char_at b (i + 1)) (f\<lparr>pkt_type := typ\<rparr>)) (i + 2)
         in if RIO_MAX_PKT_BYTES < j then Err (of_nat j)
            else
              (let (rc, n, a) = DAR_util_compute_wr_bytes_n_align size_rc (drop_bit 2 (char_at b (j - 1) AND 4))
               in if rc = SIZE_RC_FAIL then Err DAR_UTIL_INVALID_RDSIZE
                  else Ret ((parsed (or_addr0 a (f1\<lparr>pkt_bytes := n\<rparr>)) j True)\<lparr>parse_repeat := rep\<rparr>))))"

definition parse_swrite :: "DAR_pkt_bytes_t \<Rightarrow> DAR_pkt_fields_t \<Rightarrow> nat \<Rightarrow> parse_t outcome" where
  "parse_swrite b f i =
     (let (f1, j) = DAR_get_rw_addr b (f\<lparr>pkt_type := pkt_sw\<rparr>) i in Ret (parsed (f1\<lparr>pkt_bytes := 256\<rparr>) j True))"

definition parse_fc :: "DAR_pkt_bytes_t \<Rightarrow> DAR_pkt_fields_t \<Rightarrow> nat \<Rightarrow> parse_t outcome" where
  "parse_fc b f i =
     Ret (parsed (f\<lparr>pkt_type := pkt_fc, log_fc :=
       \<lparr>fc_xon = (char_at b i AND 0x80 \<noteq> 0), fc_flow = drop_bit 1 (char_at b (i + 1) AND 0xF7),
        fc_destID = destID (trans f), fc_srcID = srcID (trans f), fc_soc_is_ep = (char_at b (i + 1) AND 0x01 \<noteq> 0),
        fc_fam = drop_bit 4 (char_at b i AND 0x70)\<rparr>\<rparr>) (i + 2) False)"

text \<open>Maintenance packets have 21-bit addresses, which the parser notes in \<open>bytes_in\<close>.\<close>

definition mtc_bytes :: "DAR_pkt_bytes_t \<Rightarrow> DAR_pkt_bytes_t" where
  "mtc_bytes b = b\<lparr>pkt_addr_size := rio_addr_21\<rparr>"

definition parse_mtc :: "DAR_pkt_bytes_t \<Rightarrow> DAR_pkt_fields_t \<Rightarrow> nat \<Rightarrow> parse_t outcome" where
  "parse_mtc b f i =
     (let t = drop_bit 4 (char_at b i AND 0xF0); size_rc = char_at b i AND 0xF in
      if t > 4 then Err DAR_UTIL_UNKNOWN_TRANS
      else
        (let typ = [pkt_mr, pkt_mw, pkt_mrr, pkt_mwr, pkt_pw] ! unat t;
             f0 = set_tid (char_at b (i + 1)) (f\<lparr>pkt_type := typ, trans := (trans f)\<lparr>hopcount := pkt_chars b ! (i + 2)\<rparr>\<rparr>);
             (f1, j) = DAR_get_rw_addr (mtc_bytes b) f0 (i + 3);
             wdptr = drop_bit 2 (char_at b (j - 1) AND 4);
             (rrc, rn, ra) = DAR_util_compute_rd_bytes_n_align size_rc wdptr;
             (wrc, wn, wa) = DAR_util_compute_wr_bytes_n_align size_rc wdptr
         in if typ = pkt_mr then
              if rrc = SIZE_RC_FAIL then Err DAR_UTIL_INVALID_RDSIZE
              else Ret (parsed (or_addr0 ra (f1\<lparr>pkt_bytes := rn\<rparr>)) j False)
            else if typ = pkt_pw \<or> typ = pkt_mw then
              if wrc = SIZE_RC_FAIL then Err DAR_UTIL_INVALID_RDSIZE
              else Ret (parsed (or_addr0 wa (f1\<lparr>pkt_bytes := wn\<rparr>)) j True)
            else if typ = pkt_mwr then Ret (parsed (or_addr0 0 (f1\<lparr>pkt_bytes := 0\<rparr>)) j False)
            else Ret (parsed (or_addr0 0 (f1\<lparr>pkt_bytes := 64\<rparr>)) j True)))"

definition parse_dstm_xh :: "DAR_pkt_bytes_t \<Rightarrow> DAR_pkt_log_ds_hdr_t \<Rightarrow> nat \<Rightarrow> DAR_pkt_log_ds_hdr_t" where
  "parse_dstm_xh b ds i =
     ds\<lparr>dstm_xh_seg := True, dstm_start_seg := False, dstm_end_seg := False, dstm_odd_data_amt := False,
        dstm_pad_data_amt := False, dstm_PDU_len := 0,
        dstm_xh_type := drop_bit 3 (char_at b i AND 0x38),
        dstm_streamid := push_bit 8 (char_at b (i + 1)) + char_at b (i + 2),
        dstm_xh_tm_op := drop_bit 4 (char_at b (i + 3) AND 0xF0), dstm_xh_wildcard := char_at b (i + 3) AND 0x07,
        dstm_xh_COS_mask := char_at b (i + 4), dstm_xh_parm1 := char_at b (i + 5), dstm_xh_parm2 := char_at b (i + 6)\<rparr>"

definition parse_dstm_seg :: "DAR_pkt_bytes_t \<Rightarrow> DAR_pkt_log_ds_hdr_t \<Rightarrow> nat \<Rightarrow> DAR_pkt_log_ds_hdr_t \<times> nat" where
  "parse_dstm_seg b ds i =
     (let c = char_at b i;
          ds1 = ds\<lparr>dstm_xh_seg := False, dstm_xh_type := 0, dstm_xh_tm_op := 0, dstm_xh_wildcard := 0, dstm_xh_COS_mask := 0,
                   dstm_xh_parm1 := 0, dstm_xh_parm2 := 0, dstm_start_seg := (c AND 0x80 \<noteq> 0), dstm_end_seg := (c AND 0x40 \<noteq> 0),
                   dstm_odd_data_amt := (c AND 0x02 \<noteq> 0), dstm_pad_data_amt := (c AND 0x01 \<noteq> 0),
                   dstm_streamid := 0, dstm_PDU_len := 0\<rparr>;
          word = push_bit 8 (char_at b (i + 1)) + char_at b (i + 2)
      in if dstm_start_seg ds1 then (ds1\<lparr>dstm_streamid := word\<rparr>, i + 3)
         else if dstm_end_seg ds1 then (ds1\<lparr>dstm_PDU_len := word\<rparr>, i + 3)
         else (ds1, i + 1))"

definition parse_dstm :: "DAR_pkt_bytes_t \<Rightarrow> DAR_pkt_fields_t \<Rightarrow> nat \<Rightarrow> parse_t outcome" where
  "parse_dstm b f i =
     (let ds = (log_ds f)\<lparr>dstm_COS := char_at b i\<rparr>; f1 = f\<lparr>pkt_type := pkt_dstm\<rparr> in
      if char_at b (i + 1) AND 4 \<noteq> 0
      then Ret (parsed (f1\<lparr>pkt_bytes := 0, log_ds := parse_dstm_xh b ds (i + 1)\<rparr>) (i + 8) False)
      else (let (ds1, j) = parse_dstm_seg b ds (i + 1) in Ret (parsed (f1\<lparr>pkt_bytes := 256, log_ds := ds1\<rparr>) j True)))"

definition parse_db :: "DAR_pkt_bytes_t \<Rightarrow> DAR_pkt_fields_t \<Rightarrow> nat \<Rightarrow> parse_t outcome" where
  "parse_db b f i =
     (if length (pkt_data f) < 2 then Undef
      else Ret (parsed (set_tid (char_at b (i + 1))
             (f\<lparr>pkt_type := pkt_db, pkt_bytes := 2,
                pkt_data := (pkt_data f)[0 := pkt_chars b ! (i + 2), 1 := pkt_chars b ! (i + 3)]\<rparr>)) (i + 4) False))"

definition parse_msg :: "DAR_pkt_bytes_t \<Rightarrow> DAR_pkt_fields_t \<Rightarrow> nat \<Rightarrow> parse_t outcome" where
  "parse_msg b f i =
     (let len = drop_bit 4 (char_at b i AND 0xF0); rdsize = char_at b i AND 0xF; c = char_at b (i + 1);
          ms = (log_ms f)\<lparr>msg_len := len, letter := drop_bit 6 (c AND 0xC0)\<rparr>;
          f1 = f\<lparr>pkt_type := pkt_msg, pkt_bytes := push_bit (unat (rdsize - 9)) 8\<rparr>
      in if rdsize < 9 then Err DAR_UTIL_BAD_MSG_DSIZE
         else if len \<noteq> 0 then
           Ret ((parsed (f1\<lparr>log_ms := ms\<lparr>mbid := drop_bit 4 (c AND 0x30), msgseg := c AND 0x0F\<rparr>\<rparr>) (i + 2) True)
                 \<lparr>get_exact_data := (c AND 0x0F \<noteq> len)\<rparr>)
         else Ret (parsed (f1\<lparr>log_ms := ms\<lparr>msgseg := 0, mbid := c AND 0x3F\<rparr>\<rparr>) (i + 2) True))"

definition set_status :: "u32 \<Rightarrow> DAR_pkt_fields_t \<Rightarrow> DAR_pkt_fields_t" where
  "set_status st f = f\<lparr>log_ms := (log_ms f)\<lparr>ms_status := st\<rparr>, log_rw := (log_rw f)\<lparr>rw_status := st\<rparr>\<rparr>"

definition parse_resp :: "DAR_pkt_bytes_t \<Rightarrow> DAR_pkt_fields_t \<Rightarrow> nat \<Rightarrow> parse_t outcome" where
  "parse_resp b f i =
     (let t = drop_bit 4 (char_at b i AND 0xF0); st = char_at b i AND 0x0F; c = char_at b (i + 1) in
      if t \<notin> {8, 0, 1} then Err DAR_UTIL_UNKNOWN_TRANS
      else if st \<notin> {0, 7, 3} then Err DAR_UTIL_UNKNOWN_STATUS
      else
        (let f1 = set_status st (f\<lparr>pkt_type := (if t = 8 then pkt_resp_data else if t = 0 then pkt_resp else pkt_msg_resp),
                                  pkt_bytes := (if t = 8 \<and> st \<noteq> 3 then 256 else 0)\<rparr>)
         in Ret (parsed
              (if t = 1
               then f1\<lparr>log_ms := (log_ms f1)\<lparr>letter := drop_bit 6 (c AND 0xC0), mbid := drop_bit 4 (c AND 0x30), msgseg := c AND 0x0F\<rparr>\<rparr>
               else set_tid c f1)
              (i + 2) (t = 8 \<and> st \<noteq> 3))))"

definition parse_log :: "DAR_pkt_bytes_t \<Rightarrow> u32 \<Rightarrow> DAR_pkt_fields_t \<Rightarrow> nat \<Rightarrow> parse_t outcome" where
  "parse_log b ftype f i =
     (if ftype = 2 then parse_nread b f i
      else if ftype = 5 then parse_nwrite b f i
      else if ftype = 6 then parse_swrite b f i
      else if ftype = 7 then parse_fc b f i
      else if ftype = 8 then parse_mtc b f i
      else if ftype = 9 then parse_dstm b f i
      else if ftype = 10 then parse_db b f i
      else if ftype = 11 then parse_msg b f i
      else if ftype = 13 then parse_resp b f i
      else Ret (parsed (f\<lparr>pkt_type := pkt_raw, pkt_bytes := 276\<rparr>) 0 True))"

section \<open>Data\<close>

text \<open>
  At most eight bytes: each copy stands in a double word of its own at the offset of the address, except in data
  streaming and message packets. The sizes that the size codes stand for never reach beyond the double word.
\<close>

primrec parse_chunks :: "DAR_pkt_bytes_t \<Rightarrow> nat \<Rightarrow> nat \<Rightarrow> nat \<Rightarrow> nat \<Rightarrow> nat \<Rightarrow> u8 list" where
  "parse_chunks b lead n trail i 0 = []"
| "parse_chunks b lead n trail i (Suc m) =
     map (\<lambda>k. pkt_chars b ! (i + lead + k)) [0..<n] @ parse_chunks b lead n trail (i + lead + n + trail) m"

definition parse_small :: "DAR_pkt_bytes_t \<Rightarrow> parse_t \<Rightarrow> DAR_pkt_fields_t outcome" where
  "parse_small b s =
     (let f = out_fields s; n = unat (pkt_bytes f); a = unat (addr (log_rw f) ! 0 AND 7);
          aligned = (pkt_type f \<noteq> pkt_dstm \<and> pkt_type f \<noteq> pkt_msg);
          bs = parse_chunks b (if aligned then a else 0) n (if aligned then 8 - a - n else 0) (pkt_index s) (parse_repeat s)
      in if length bs > length (pkt_data f) then Undef
         else Ret (f\<lparr>pkt_data := bs @ drop (length bs) (pkt_data f)\<rparr>))"

text \<open>More than eight bytes: everything up to the end, without the intermediate and the final checksum.\<close>

definition data_chars :: "DAR_pkt_bytes_t \<Rightarrow> nat \<Rightarrow> nat \<Rightarrow> u8 list" where
  "data_chars b i e = map (nth (pkt_chars b)) (filter (\<lambda>k. k \<noteq> 80 \<and> k \<noteq> 81) [i..<e])"

definition dstm_adjust :: "DAR_pkt_log_ds_hdr_t \<Rightarrow> u32 \<Rightarrow> u32 outcome" where
  "dstm_adjust ds n =
     (if dstm_end_seg ds then
        if n AND 3 = 0 then
          if dstm_odd_data_amt ds then Err DAR_UTIL_BAD_DS_DSIZE
          else Ret (if dstm_pad_data_amt ds then n - 1 else n)
        else if n AND 3 = 2 then
          if \<not> dstm_odd_data_amt ds then Err DAR_UTIL_BAD_DS_DSIZE
          else Ret (if dstm_pad_data_amt ds then n - 1 else n)
        else Err DAR_UTIL_BAD_DS_DSIZE
      else if n AND 7 \<noteq> 0 then Err DAR_UTIL_BAD_DS_DSIZE
      else Ret n)"

definition pad_found :: "DAR_pkt_bytes_t \<Rightarrow> bool" where
  "pad_found b \<longleftrightarrow> pkt_has_crc b \<and> num_chars b \<noteq> 84 \<and>
     pkt_chars b ! (unat (num_chars b) - 1) = 0 \<and> pkt_chars b ! (unat (num_chars b) - 2) = 0"

definition parse_large :: "DAR_pkt_bytes_t \<Rightarrow> parse_t \<Rightarrow> DAR_pkt_fields_t outcome" where
  "parse_large b s =
     (let f = out_fields s; i = pkt_index s; n = unat (num_chars b); e = n - (if pkt_has_crc b then 2 else 0) in
      if i < e \<and> e > length (pkt_chars b) then Undef
      else
        (let bs = data_chars b i e in
         if length bs > length (pkt_data f) then Undef
         else if odd (length bs) then Err DAR_UTIL_BAD_DATA_SIZE
         else if pkt_has_crc b \<and> n \<noteq> 84 \<and> n > length (pkt_chars b) then Undef
         else
           (let pad = (if pad_found b then 2 else 0);
                cnt = of_nat (length bs) - pad;
                f1 = f\<lparr>pkt_data := bs @ drop (length bs) (pkt_data f), pad_bytes := pad\<rparr>
            in and_then (if pkt_type f = pkt_dstm then dstm_adjust (log_ds f) cnt else Ret cnt)
                 (\<lambda>m. Ret (f1\<lparr>pkt_bytes := m\<rparr>)))))"

definition parse_data :: "DAR_pkt_bytes_t \<Rightarrow> parse_t \<Rightarrow> DAR_pkt_fields_t outcome" where
  "parse_data b s =
     (if get_data s then
        (let max_bytes = pkt_bytes (out_fields s) in
         and_then (if max_bytes \<le> 8 then parse_small b s else parse_large b s) (\<lambda>f.
           if pkt_bytes f > max_bytes then Err DAR_UTIL_BAD_DATA_SIZE
           else if pkt_bytes f \<noteq> max_bytes \<and> get_exact_data s then Err DAR_UTIL_BAD_DATA_SIZE
           else Ret f))
      else Ret (out_fields s))"

text \<open>The result is the fields, and the bytes as the function leaves them.\<close>

definition DAR_pkt_bytes_to_fields ::
  "DAR_pkt_bytes_t \<Rightarrow> DAR_pkt_fields_t \<Rightarrow> (DAR_pkt_fields_t \<times> DAR_pkt_bytes_t) outcome" where
  "DAR_pkt_bytes_to_fields b f =
     (if num_chars b < 8 then Err DAR_UTIL_BAD_DATA_SIZE
      else
        (let ftype = char_at b 1 AND 0x0F in
         and_then (parse_trans b (parse_phys b f)) (\<lambda>(f1, i).
           and_then (parse_log b ftype f1 i) (\<lambda>s.
             and_then (parse_data b s) (\<lambda>f'. Ret (f', if ftype = 8 then mtc_bytes b else b))))))"

section \<open>Descriptions\<close>

definition pkt_ftype_strings :: "string list" where
  "pkt_ftype_strings = [''Implementation Specific'', ''Reserved'', ''NRead'', ''Reserved'', ''Reserved'', ''NWrite'',
     ''SWrite'', ''Flow Control'', ''Maintenance'', ''Data Streaming'', ''Doorbell'', ''Message'', ''Reserved'',
     ''Response'', ''Reserved'', ''Implementation Specific'', ''RAW'']"

definition DAR_pkt_ftype_descr :: "DAR_pkt_fields_t \<Rightarrow> string" where
  "DAR_pkt_ftype_descr f =
     (let ftype = DAR_util_get_ftype (pkt_type f) in pkt_ftype_strings ! (if ftype = 0xFFFF then 1 else unat ftype))"

definition DAR_pkt_trans_descr :: "DAR_pkt_fields_t \<Rightarrow> string" where
  "DAR_pkt_trans_descr f =
     (case pkt_type f of
        pkt_raw \<Rightarrow> [] | pkt_nr \<Rightarrow> ''NREAD'' | pkt_nr_inc \<Rightarrow> ''ATOMIC inc'' | pkt_nr_dec \<Rightarrow> ''ATOMIC dec''
      | pkt_nr_set \<Rightarrow> ''ATOMIC set'' | pkt_nr_clr \<Rightarrow> ''ATOMIC clr'' | pkt_nw \<Rightarrow> ''NWRITE'' | pkt_nwr \<Rightarrow> ''NWRITE_R''
      | pkt_nw_swap \<Rightarrow> ''ATOMIC swap'' | pkt_nw_cmp_swap \<Rightarrow> ''ATOMIC cmp swap'' | pkt_nw_tst_swap \<Rightarrow> ''ATOMIC tst swap''
      | pkt_sw \<Rightarrow> [] | pkt_fc \<Rightarrow> [] | pkt_mr \<Rightarrow> ''MtcRead'' | pkt_mw \<Rightarrow> ''MtcWrite'' | pkt_mrr \<Rightarrow> ''MtcReadResp''
      | pkt_mwr \<Rightarrow> ''MtcWriteResp'' | pkt_pw \<Rightarrow> ''Port-Write'' | pkt_dstm \<Rightarrow> [] | pkt_db \<Rightarrow> [] | pkt_msg \<Rightarrow> [] | pkt_resp \<Rightarrow> []
      | pkt_resp_data \<Rightarrow> ''Resp with Data'' | pkt_msg_resp \<Rightarrow> ''Msg Response'')"

definition DAR_pkt_resp_status_descr :: "DAR_pkt_fields_t \<Rightarrow> string" where
  "DAR_pkt_resp_status_descr f =
     (let t = pkt_type f; st = rw_status (log_rw f) in
      if t = pkt_mrr \<or> t = pkt_mwr \<or> t = pkt_resp \<or> t = pkt_msg_resp then
        if pkt_done = st then ''Done''
        else if pkt_retry = st \<and> (t = pkt_resp \<or> t = pkt_msg_resp) then ''Retry''
        else if pkt_err = st then ''Error''
        else ''Unknown''
      else ''Unknown'')"

end
