(* ===== verification/Pkt_Layers.thy ===== *)
theory Pkt_Layers
  imports Pkt_Parse
begin

unbundle bit_operations_syntax

text \<open>
  The layers of a packet, each seen from the side that composes it and from the side that parses it: the frame with its
  checksums and padding, the physical and transport header, the address, the logical header of reads and writes, and
  the data.
\<close>

section \<open>Frames\<close>

definition framed :: "rio_addr_size \<Rightarrow> u8 list \<Rightarrow> DAR_pkt_bytes_t" where
  "framed sz p = \<lparr>pkt_addr_size = sz, pkt_has_crc = True, pkt_padded = frame_padded p,
     num_chars = of_nat (length (padded_frame p)),
     pkt_chars = padded_frame p @ replicate (276 - length (padded_frame p)) 0\<rparr>"

lemma framed_simps [simp]:
  "pkt_addr_size (framed sz p) = sz" "pkt_has_crc (framed sz p)" "pkt_padded (framed sz p) = frame_padded p"
  by (simp_all add: framed_def)

definition frame_ok :: "u8 list \<Rightarrow> bool" where
  "frame_ok p \<longleftrightarrow> even (length p) \<and> length p \<le> 272"

lemma frame_ok_bound:
  assumes "frame_ok p"
  shows "length (padded_frame p) \<le> 276" and "unat (num_chars (framed sz p)) = length (padded_frame p)"
    and "length (pkt_chars (framed sz p)) = 276"
proof -
  have "fits_frame (s\<lparr>out_data := p\<rparr>)" for s
    using assms by (auto simp: frame_ok_def fits_frame_def)
  from padded_frame_bound [OF this] show *: "length (padded_frame p) \<le> 276"
    by simp
  then show "unat (num_chars (framed sz p)) = length (padded_frame p)"
    by (simp add: framed_def unat_of_nat_u32)
  show "length (pkt_chars (framed sz p)) = 276"
    using * by (simp add: framed_def)
qed

lemma framed_compose:
  assumes "frame_ok (out_data s)"
  shows "compose_crc s = Ret (framed (out_addr_size s) (out_data s), in_fields s)"
proof -
  have "fits_frame s"
    using assms by (auto simp: frame_ok_def fits_frame_def)
  then show ?thesis
    by (simp add: compose_crc_frame framed_def)
qed

lemma framed_nth:
  assumes "k < length p" and "k < 80"
  shows "pkt_chars (framed sz p) ! k = p ! k"
  using assms by (auto simp: framed_def padded_frame_def pkt_frame_def pkt_body_def nth_append)

lemma padded_84:
  assumes "even (length p)"
  shows "length (padded_frame p) = 84 \<longleftrightarrow> length p = 80"
proof -
  obtain m where "length p = 2 * m"
    using assms by blast
  then show ?thesis
    by (auto simp: padded_frame_def frame_padded_def length_pkt_frame)
qed

lemma crc_zero_bytes: "crc_hi (crc_list q) = 0 \<and> crc_lo (crc_list q) = 0 \<longleftrightarrow> crc_list q = 0"
proof
  assume z: "crc_hi (crc_list q) = 0 \<and> crc_lo (crc_list q) = 0"
  show "crc_list q = 0"
  proof (rule bit_word_eqI)
    fix n
    have "n < 8 \<Longrightarrow> \<not> bit (crc_list q) n"
      using z bit_crc_lo [of "crc_list q" n] by simp
    moreover have "8 \<le> n \<Longrightarrow> n < 16 \<Longrightarrow> \<not> bit (crc_list q) n"
      using z bit_crc_hi [of "crc_list q" "n - 8"] by simp
    moreover have "16 \<le> n \<Longrightarrow> \<not> bit (crc_list q) n"
      using fits_bit [OF crc_list_fits, of q n] by (auto simp: not_less [symmetric])
    ultimately show "bit (crc_list q) n = bit 0 n"
      by (cases "n < 8"; cases "n < 16") simp_all
  qed
qed (simp add: crc_hi_def crc_lo_def)

text \<open>The parser takes a packet for padded when its last two bytes are zero: padding, or a checksum of zero.\<close>

lemma pad_found_framed:
  assumes "frame_ok p"
  shows "pad_found (framed sz p) \<longleftrightarrow> length p \<noteq> 80 \<and> (frame_padded p \<or> crc_list (pkt_body p) = 0)"
proof -
  define n where "n = length (padded_frame p)"
  have n: "unat (num_chars (framed sz p)) = n" "n \<le> 276"
    using frame_ok_bound [OF assms] by (simp_all add: n_def)
  have "num_chars (framed sz p) = 84 \<longleftrightarrow> n = 84"
    using n by (simp add: word_unat_eq_iff)
  then have big: "num_chars (framed sz p) \<noteq> 84 \<longleftrightarrow> length p \<noteq> 80"
    using padded_84 [of p] assms by (simp add: frame_ok_def n_def)
  show ?thesis
  proof (cases "frame_padded p")
    case True
    have "pkt_chars (framed sz p) ! (n - 1) = 0" "pkt_chars (framed sz p) ! (n - 2) = 0"
      using True by (auto simp: framed_def n_def padded_frame_def nth_append)
    then show ?thesis
      using big True by (simp add: pad_found_def n(1))
  next
    case False
    have "pkt_chars (framed sz p) ! (n - 1) = crc_lo (crc_list (pkt_body p))" "pkt_chars (framed sz p) ! (n - 2) = crc_hi (crc_list (pkt_body p))"
      using False by (auto simp: framed_def n_def padded_frame_def pkt_frame_def crc_pair_def nth_append)
    then show ?thesis
      using big False crc_zero_bytes [of "pkt_body p"] by (auto simp: pad_found_def n(1))
  qed
qed


lemma map_nth_slice: "j \<le> length xs \<Longrightarrow> map (nth xs) [i..<j] = take (j - i) (drop i xs)"
  by (intro nth_equalityI) auto

lemma skip_crc_low: "j \<le> 80 \<Longrightarrow> filter (\<lambda>k. k \<noteq> 80 \<and> k \<noteq> 81) [i..<j] = [i..<j]"
  by (rule filter_True) auto

lemma skip_crc_high:
  assumes "i \<le> 80" and "82 \<le> j"
  shows "filter (\<lambda>k. k \<noteq> 80 \<and> k \<noteq> 81) [i..<j] = [i..<80] @ [82..<j]"
proof -
  have "[i..<j] = [i..<80] @ [80..<j]" "[80..<j] = [80..<82] @ [82..<j]"
    using upt_add_eq_append [of i 80 "j - 80"] upt_add_eq_append [of 80 82 "j - 82"] assms by simp_all
  then have "[i..<j] = [i..<80] @ [80..<82] @ [82..<j]"
    by (simp only:)
  moreover have "filter (\<lambda>k. k \<noteq> 80 \<and> k \<noteq> 81) [i..<80] = [i..<80]" "filter (\<lambda>k. k \<noteq> 80 \<and> k \<noteq> 81) [82..<j] = [82..<j]"
    by (rule filter_True; auto)+
  moreover have "filter (\<lambda>k. k \<noteq> 80 \<and> k \<noteq> 81) [80..<82] = []"
    by (simp add: upt_rec)
  ultimately show ?thesis
    by (simp only: filter_append append_Nil)
qed

lemma framed_data:
  assumes ok: "frame_ok (h @ d)" and h: "length h \<le> 80"
  shows "data_chars (framed sz (h @ d)) (length h) (length (padded_frame (h @ d)) - 2) =
     d @ (if frame_padded (h @ d) \<and> length (h @ d) \<noteq> 80 then crc_pair (pkt_body (h @ d)) else [])"
proof -
  define p where "p = h @ d"
  define n where "n = length (padded_frame p)"
  define q where "q = pkt_chars (framed sz p)"
  have even: "even (length p)" and n: "length q = 276" "n \<le> 276"
    using ok frame_ok_bound [of p] by (simp_all add: p_def [symmetric] frame_ok_def q_def n_def)
  have size: "n = length (pkt_body p) + (if frame_padded p then 4 else 2)" "n mod 4 = 0"
    using padded_frame_size [OF even] by (simp_all add: n_def)
  have q: "q = pkt_body p @ crc_pair (pkt_body p) @ (if frame_padded p then [0, 0] else []) @ replicate (276 - n) 0"
    by (simp add: q_def framed_def n_def padded_frame_def pkt_frame_def)
  have dc: "data_chars (framed sz p) (length h) (n - 2) = map (nth q) (filter (\<lambda>k. k \<noteq> 80 \<and> k \<noteq> 81) [length h..<n - 2])"
    by (simp add: data_chars_def q_def)
  have slice: "map (nth q) [i..<j] = take (j - i) (drop i q)" if "j \<le> n" for i j
    using map_nth_slice [of j q i] that n by simp
  show ?thesis
  proof (cases "length p > 80")
    case False
    then have body: "pkt_body p = p"
      by (simp add: pkt_body_def)
    show ?thesis
    proof (cases "frame_padded p \<and> length p = 80")
      case True
      then have n2: "n - 2 = 82"
        using size body by simp
      have "map (nth q) [length h..<80] = d" "[82..<82::nat] = []"
        using slice [of 80 "length h"] True size body by (simp_all add: q p_def [symmetric]) (simp add: p_def)
      then show ?thesis
        using True h unfolding p_def [symmetric] n_def [symmetric] n2 dc [unfolded n2] by (simp add: skip_crc_high)
    next
      case nofit: False
      have "n \<le> 82"
      proof (cases "frame_padded p")
        case True
        then have "length p \<noteq> 80" "length p \<noteq> 79" "\<not> 80 < length p"
          using nofit False even by auto
        then show ?thesis
          using size True body by simp
      qed (use size False body in simp)
      then have "n - 2 \<le> 80"
        by simp
      then have "data_chars (framed sz p) (length h) (n - 2) = take (n - 2 - length h) (drop (length h) q)"
        unfolding dc by (simp add: skip_crc_low slice)
      also have "\<dots> = d @ (if frame_padded p \<and> length p \<noteq> 80 then crc_pair (pkt_body p) else [])"
        using size body nofit by (auto simp: q p_def)
      finally show ?thesis
        by (simp only: p_def n_def)
    qed
  next
    case True
    then have body: "pkt_body p = take 80 p @ crc_pair (take 80 p) @ drop 80 p"
      by (simp add: pkt_body_def)
    have len: "length (pkt_body p) = length p + 2"
      using True by (simp add: length_pkt_body)
    have "82 \<le> n - 2"
      using True size len by simp
    then have "data_chars (framed sz p) (length h) (n - 2) = map (nth q) [length h..<80] @ map (nth q) [82..<n - 2]"
      unfolding dc using h by (simp add: skip_crc_high)
    moreover have "map (nth q) [length h..<80] = drop (length h) (take 80 p)"
      using slice [of 80 "length h"] size len True by (simp add: q body drop_take)
    moreover have "map (nth q) [82..<n - 2] = drop 80 p @ (if frame_padded p then crc_pair (pkt_body p) else [])"
    proof -
      have "drop 82 q = drop 80 p @ crc_pair (pkt_body p) @ (if frame_padded p then [0, 0] else []) @ replicate (276 - n) 0"
        using True unfolding q by (simp add: body)
      then show ?thesis
        using slice [of "n - 2" 82] size len True by simp arith
    qed
    moreover have "drop (length h) (take 80 p) @ drop 80 p = d"
    proof -
      have "drop (length h) (take 80 p @ drop 80 p) = drop (length h) (take 80 p) @ drop 80 p"
        using h True by (subst drop_append) simp
      then show ?thesis
        by (simp add: p_def)
    qed
    ultimately show ?thesis
      using True unfolding p_def [symmetric] n_def [symmetric] by (simp flip: append_assoc)
  qed
qed


text \<open>
  A checksum of zero at the end of a packet without padding is taken for padding. All other packets give back their
  data.
\<close>

definition crc_visible :: "u8 list \<Rightarrow> bool" where
  "crc_visible p \<longleftrightarrow> frame_padded p \<or> crc_list (pkt_body p) \<noteq> 0"

lemma parse_large_framed:
  assumes ok: "frame_ok (h @ d)" and h: "length h \<le> 80" "even (length d)" and vis: "crc_visible (h @ d)"
    and i: "pkt_index s = length h" and buf: "276 \<le> length (pkt_data (out_fields s))"
  shows "\<exists>buf pad. take (length d) buf = d \<and> length buf = length (pkt_data (out_fields s)) \<and>
     parse_large (framed sz (h @ d)) s =
       and_then (if pkt_type (out_fields s) = pkt_dstm then dstm_adjust (log_ds (out_fields s)) (of_nat (length d)) else Ret (of_nat (length d)))
         (\<lambda>m. Ret ((out_fields s)\<lparr>pkt_data := buf, pad_bytes := pad, pkt_bytes := m\<rparr>))"
proof -
  define p where "p = h @ d"
  define b where "b = framed sz p"
  define bs where "bs = data_chars b (length h) (length (padded_frame p) - 2)"
  define f where "f = out_fields s"
  note bound = frame_ok_bound [OF ok [folded p_def]]
  have bs: "bs = d @ (if frame_padded p \<and> length p \<noteq> 80 then crc_pair (pkt_body p) else [])"
    using framed_data [OF ok h(1), of sz] by (simp add: bs_def b_def p_def)
  have pad: "pad_found b \<longleftrightarrow> frame_padded p \<and> length p \<noteq> 80"
    using pad_found_framed [OF ok] vis by (auto simp: b_def p_def crc_visible_def frame_padded_def length_pkt_frame)
  have small: "length p \<le> 272" "even (length p)"
    using ok by (simp_all add: frame_ok_def p_def)
  have len: "length bs \<le> 274" "even (length bs) = even (length d)"
    using small by (simp_all add: bs p_def)
  have cnt: "of_nat (length bs) - (if pad_found b then 2 else 0) = (of_nat (length d) :: u32)"
    by (simp add: pad bs)
  have "parse_large b s = and_then (if pkt_type f = pkt_dstm then dstm_adjust (log_ds f) (of_nat (length d)) else Ret (of_nat (length d)))
     (\<lambda>m. Ret (f\<lparr>pkt_data := bs @ drop (length bs) (pkt_data f), pad_bytes := if pad_found b then 2 else 0, pkt_bytes := m\<rparr>))"
  proof -
    have n: "unat (num_chars b) = length (padded_frame p)" "length (pkt_chars b) = 276" "length (padded_frame p) \<le> 276" "pkt_has_crc b"
      using bound by (simp_all add: b_def)
    then have less: "\<not> 276 < length (padded_frame p) - 2"
      by simp
    show ?thesis
      using n(2-4) len h(2) buf less
      by (simp add: parse_large_def Let_def n(1) i bs_def [symmetric] f_def [symmetric] cnt del: of_nat_diff)
  qed
  moreover have "take (length d) (bs @ drop (length bs) (pkt_data f)) = d"
    by (simp add: bs)
  moreover have "length (bs @ drop (length bs) (pkt_data f)) = length (pkt_data f)"
    using len(1) buf by (simp add: f_def)
  ultimately show ?thesis
    unfolding b_def p_def f_def by blast
qed


section \<open>Physical and transport header\<close>

definition bytes_at :: "DAR_pkt_bytes_t \<Rightarrow> nat \<Rightarrow> u8 list \<Rightarrow> bool" where
  "bytes_at b i bs \<longleftrightarrow> (\<forall>k<length bs. pkt_chars b ! (i + k) = bs ! k)"

lemma char_at_bytes: "bytes_at b i bs \<Longrightarrow> k < length bs \<Longrightarrow> char_at b (i + k) = ucast (bs ! k)"
  by (simp add: bytes_at_def char_at_def)

lemma bytes_at_append: "bytes_at b i (xs @ ys) \<longleftrightarrow> bytes_at b i xs \<and> bytes_at b (i + length xs) ys"
proof
  assume both: "bytes_at b i (xs @ ys)"
  show "bytes_at b i xs \<and> bytes_at b (i + length xs) ys"
    unfolding bytes_at_def
  proof (intro conjI allI impI)
    fix k
    assume "k < length xs"
    then show "pkt_chars b ! (i + k) = xs ! k"
      using both [unfolded bytes_at_def, rule_format, of k] by (simp add: nth_append)
  next
    fix k
    assume "k < length ys"
    then show "pkt_chars b ! (i + length xs + k) = ys ! k"
      using both [unfolded bytes_at_def, rule_format, of "length xs + k"] by (simp add: nth_append add.assoc)
  qed
next
  assume parts: "bytes_at b i xs \<and> bytes_at b (i + length xs) ys"
  show "bytes_at b i (xs @ ys)"
    unfolding bytes_at_def
  proof (intro allI impI)
    fix k
    assume "k < length (xs @ ys)"
    then show "pkt_chars b ! (i + k) = (xs @ ys) ! k"
      using parts [unfolded bytes_at_def] by (cases "k < length xs") (auto simp: nth_append dest: spec [of _ "k - length xs"])
  qed
qed

lemma bytes_at_framed: "length h \<le> 80 \<Longrightarrow> bytes_at (framed sz (h @ d)) 0 h"
  by (auto simp: bytes_at_def framed_nth nth_append)

lemma bytes_at_mtc [simp]: "bytes_at (mtc_bytes b) i bs = bytes_at b i bs" "char_at (mtc_bytes b) i = char_at b i"
  by (simp_all add: bytes_at_def char_at_def mtc_bytes_def)

definition hdr_bytes :: "DAR_pkt_fields_t \<Rightarrow> u8 list" where
  "hdr_bytes f = out_data (compose_phys (compose_init f)) @
     (let t = trans f in
      if tt_code t = tt_small then [ucast (destID t AND 0xFF), ucast (srcID t AND 0xFF)]
      else [ucast (drop_bit 8 (destID t) AND 0xFF), ucast (destID t AND 0xFF),
            ucast (drop_bit 8 (srcID t) AND 0xFF), ucast (srcID t AND 0xFF)])"

definition hdr_ok :: "DAR_pkt_fields_t \<Rightarrow> bool" where
  "hdr_ok f \<longleftrightarrow> pkt_vc (phys f) \<in> {0, 1} \<and> fits 2 (pkt_prio (phys f)) \<and>
     (let t = trans f in
      tt_code t = tt_small \<and> fits 8 (destID t) \<and> fits 8 (srcID t) \<or>
      tt_code t = tt_large \<and> fits 16 (destID t) \<and> fits 16 (srcID t))"

lemma compose_hdr:
  assumes "hdr_ok f"
  shows "compose_trans (compose_phys (compose_init f)) = Ret (emit (hdr_bytes f) (compose_init f))"
  using assms
  by (auto simp: hdr_ok_def hdr_bytes_def compose_trans_def compose_phys_def compose_init_def emit_def Let_def)

lemma length_hdr: "length (hdr_bytes f) = (if tt_code (trans f) = tt_small then 4 else 6)"
  by (simp add: hdr_bytes_def compose_phys_def compose_init_def Let_def)

lemma byte_back: "fits 8 x \<Longrightarrow> (ucast (ucast (x AND 0xFF) :: u8) :: u32) = x"
  using fits_bit [of 8 x] unfolding u32_masks by (intro bit_word_eqI; simp only: bit_simps o_apply) auto

lemma half_back:
  assumes "fits 16 x"
  shows "push_bit 8 (ucast (ucast (drop_bit 8 x AND 0xFF) :: u8)) + ucast (ucast (x AND 0xFF) :: u8) = (x :: u32)"
proof -
  note bits = fits_bit [OF assms]
  have "(ucast (ucast (drop_bit 8 x AND 0xFF) :: u8) :: u32) = drop_bit 8 x" "(ucast (ucast (x AND 0xFF) :: u8) :: u32) = x AND mask 8"
    unfolding u32_masks by (rule bit_word_eqI; simp only: bit_simps o_apply; auto dest: bits)+
  then show ?thesis
    by (simp only: join_fields)
qed

lemma hdr_byte1:
  fixes prio tt ft :: u32
  assumes "fits 2 prio" and "fits 2 tt"
    and "b = (ucast (push_bit 6 (prio AND 3) OR push_bit 4 (ucast (ucast tt :: u8) :: u32) OR (ft AND 0xF)) :: u8)"
  shows "drop_bit 6 ((ucast b :: u32) AND 0xC0) = prio" "drop_bit 4 ((ucast b :: u32) AND 0x30) = tt" "(ucast b :: u32) AND 0xF = ft AND 0xF"
proof -
  note bits = assms(1,2) [THEN fits_bit]
  show "drop_bit 6 ((ucast b :: u32) AND 0xC0) = prio" "drop_bit 4 ((ucast b :: u32) AND 0x30) = tt" "(ucast b :: u32) AND 0xF = ft AND 0xF"
    unfolding assms(3) u32_masks by (rule bit_word_eqI; simp only: bit_simps o_apply; auto dest: bits)+
qed

lemma parse_hdr:
  assumes ok: "hdr_ok f" and at: "bytes_at b 0 (hdr_bytes f)"
  shows "parse_trans b (parse_phys b g) =
      Ret (g\<lparr>phys := (phys f)\<lparr>pkt_ackID := 0\<rparr>,
             trans := (trans g)\<lparr>tt_code := tt_code (trans f), destID := destID (trans f), srcID := srcID (trans f)\<rparr>\<rparr>, length (hdr_bytes f))"
    and "char_at b 1 AND 0x0F = DAR_util_get_ftype (pkt_type f) AND 0xF"
proof -
  have tt: "fits 2 (tt_code (trans f))"
    using ok by (auto simp: hdr_ok_def Let_def fits_def)
  have prio: "fits 2 (pkt_prio (phys f))"
    using ok by (simp add: hdr_ok_def)
  define b0 :: u8 where "b0 = ucast (push_bit 1 (if pkt_vc (phys f) \<noteq> 0 then 1 else 0 :: u32) OR (if crf (phys f) then 1 else 0))"
  define b1 :: u8 where "b1 = ucast (push_bit 6 (pkt_prio (phys f) AND 3) OR
     push_bit 4 (ucast (ucast (tt_code (trans f)) :: u8) :: u32) OR (DAR_util_get_ftype (pkt_type f) AND 0xF))"
  note b1 = hdr_byte1 [OF prio tt b1_def]
  have hdr: "hdr_bytes f ! 0 = b0" "hdr_bytes f ! 1 = b1"
    by (simp_all add: hdr_bytes_def compose_phys_def compose_init_def Let_def b0_def b1_def)
  have at0: "char_at b 0 = ucast b0" and at1: "char_at b 1 = ucast b1"
    using char_at_bytes [OF at, of 0] char_at_bytes [OF at, of 1] length_hdr [of f] by (simp_all only: hdr add_0) simp_all
  show "char_at b 1 AND 0x0F = DAR_util_get_ftype (pkt_type f) AND 0xF"
    using b1(3) by (simp only: at1)
  have phys: "\<lparr>pkt_vc = drop_bit 1 (char_at b 0 AND 2), pkt_prio = drop_bit 6 (char_at b 1 AND 0xC0),
      crf = (char_at b 0 AND 1 \<noteq> 0), pkt_ackID = drop_bit 2 (char_at b 0 AND 0xFC)\<rparr> = (phys f)\<lparr>pkt_ackID := 0\<rparr>"
    unfolding at0 at1 b1(1) using ok by (cases "crf (phys f)") (auto simp: hdr_ok_def b0_def)
  have pp: "parse_phys b g = g\<lparr>phys := (phys f)\<lparr>pkt_ackID := 0\<rparr>, trans := (trans g)\<lparr>tt_code := tt_code (trans f)\<rparr>\<rparr>"
    unfolding parse_phys_def phys unfolding at1 b1(2) ..
  have rest: "char_at b (2 + k) = ucast (drop 2 (hdr_bytes f) ! k)" if "2 + k < length (hdr_bytes f)" for k
    using char_at_bytes [OF at, of "2 + k"] that by simp
  show "parse_trans b (parse_phys b g) =
      Ret (g\<lparr>phys := (phys f)\<lparr>pkt_ackID := 0\<rparr>,
             trans := (trans g)\<lparr>tt_code := tt_code (trans f), destID := destID (trans f), srcID := srcID (trans f)\<rparr>\<rparr>, length (hdr_bytes f))"
  proof (cases "tt_code (trans f) = tt_small")
    case True
    then have "char_at b 2 = destID (trans f)" "char_at b 3 = srcID (trans f)"
      using rest [of 0] rest [of 1] ok byte_back
      by (auto simp: length_hdr hdr_bytes_def compose_phys_def compose_init_def Let_def hdr_ok_def)
    then show ?thesis
      using True by (simp add: pp parse_trans_def length_hdr)
  next
    case False
    then have large: "tt_code (trans f) = tt_large" "fits 16 (destID (trans f))" "fits 16 (srcID (trans f))"
      using ok by (auto simp: hdr_ok_def Let_def)
    have "char_at b 2 = ucast (ucast (drop_bit 8 (destID (trans f)) AND 0xFF) :: u8)" "char_at b 3 = ucast (ucast (destID (trans f) AND 0xFF) :: u8)"
      "char_at b 4 = ucast (ucast (drop_bit 8 (srcID (trans f)) AND 0xFF) :: u8)" "char_at b 5 = ucast (ucast (srcID (trans f) AND 0xFF) :: u8)"
      using rest [of 0] rest [of 1] rest [of 2] rest [of 3] large(1)
      by (simp_all add: length_hdr hdr_bytes_def compose_phys_def compose_init_def Let_def)
    then have "push_bit 8 (char_at b 2) + char_at b 3 = destID (trans f)" "push_bit 8 (char_at b 4) + char_at b 5 = srcID (trans f)"
      using half_back large(2,3) by (simp_all only:)
    then show ?thesis
      using large(1) by (simp add: pp parse_trans_def length_hdr)
  qed
qed


section \<open>Addresses\<close>

definition addr_ok :: "rio_addr_size \<Rightarrow> u32 list \<Rightarrow> bool" where
  "addr_ok sz a \<longleftrightarrow> length a = 3 \<and>
     (sz = rio_addr_66 \<and> fits 2 (a ! 2) \<or>
      sz = rio_addr_50 \<and> fits 18 (a ! 1) \<and> a ! 2 = 0 \<or>
      sz = rio_addr_34 \<and> fits 2 (a ! 1) \<and> a ! 2 = 0 \<or>
      sz = rio_addr_32 \<and> a ! 1 = 0 \<and> a ! 2 = 0 \<or>
      sz = rio_addr_21 \<and> fits 24 (a ! 0) \<and> a ! 1 = 0 \<and> a ! 2 = 0)"

lemma last_addr_byte:
  fixes a w x :: u32
  assumes "w = 0 \<or> w = 1" and "fits 2 x" and "b = (ucast ((a AND 0xF8) + push_bit 2 (w AND 1) + x) :: u8)"
  shows "(ucast b :: u32) AND 0xF8 = a AND 0xF8" "drop_bit 2 ((ucast b :: u32) AND 4) = w" "(ucast b :: u32) AND 3 = x"
proof -
  have w: "fits 1 w"
    using assms(1) by (auto simp: fits_def)
  note bits = fits_bit [OF w] fits_bit [OF assms(2)]
  have "(a AND 0xF8) + push_bit 2 (w AND 1) = (a AND 0xF8) OR push_bit 2 (w AND 1)"
    unfolding u32_masks by (rule add_disjoint; simp only: bit_simps o_apply; auto)
  moreover have "((a AND 0xF8) OR push_bit 2 (w AND 1)) + x = (a AND 0xF8) OR push_bit 2 (w AND 1) OR x"
    unfolding u32_masks by (subst add_disjoint; simp only: bit_simps o_apply or.assoc; auto dest: bits)
  ultimately have b: "b = ucast ((a AND 0xF8) OR push_bit 2 (w AND 1) OR x)"
    using assms(3) by (simp only:)
  show "(ucast b :: u32) AND 0xF8 = a AND 0xF8" "drop_bit 2 ((ucast b :: u32) AND 4) = w" "(ucast b :: u32) AND 3 = x"
    unfolding b u32_masks by (rule bit_word_eqI; simp only: bit_simps o_apply; auto dest: bits)+
qed

lemma byte_cases:
  fixes n :: nat
  assumes "n < 8 \<Longrightarrow> P" and "8 \<le> n \<Longrightarrow> n < 16 \<Longrightarrow> P" and "16 \<le> n \<Longrightarrow> n < 24 \<Longrightarrow> P" and "24 \<le> n \<Longrightarrow> P"
  shows P
  using assms by linarith

lemma word_of_bytes:
  "push_bit 24 (ucast (ucast (drop_bit 24 x AND 0xFF) :: u8)) OR push_bit 16 (ucast (ucast (drop_bit 16 x AND 0xFF) :: u8)) OR
     push_bit 8 (ucast (ucast (drop_bit 8 x AND 0xFF) :: u8)) OR ucast (ucast (x AND 0xFF) :: u8) = (x :: u32)"
  unfolding u32_masks
proof (rule bit_word_eqI, goal_cases)
  case (1 n)
  then show ?case
    by - (rule byte_cases [of n]; simp only: bit_simps o_apply; auto)
qed

lemma low_addr_bytes:
  "push_bit 16 (ucast (ucast (drop_bit 16 (x AND 0x00FF0000)) :: u8)) OR
     push_bit 8 (ucast (ucast (drop_bit 8 (x AND 0x0000FF00)) :: u8)) OR (x AND 0xF8) = (x :: u32) AND push_bit 3 (mask 21)"
  unfolding u32_masks
proof (rule bit_word_eqI, goal_cases)
  case (1 n)
  then show ?case
    by - (rule byte_cases [of n]; simp only: bit_simps o_apply; auto)
qed

lemma high_addr_byte:
  "push_bit 24 (ucast (ucast (drop_bit 24 x AND 0xFF) :: u8)) OR (x AND push_bit 3 (mask 21)) = (x :: u32) AND push_bit 3 (mask 29)"
  unfolding u32_masks
proof (rule bit_word_eqI, goal_cases)
  case (1 n)
  then show ?case
    by - (rule byte_cases [of n]; simp only: bit_simps o_apply; auto)
qed

lemma addr_24: "fits 24 x \<Longrightarrow> (x :: u32) AND push_bit 3 (mask 21) = x AND push_bit 3 (mask 29)"
  using fits_bit [of 24 x] by (intro bit_word_eqI; simp only: bit_simps o_apply) force

lemma addr_18:
  assumes "fits 18 x"
  shows "push_bit 16 (drop_bit 16 x AND 3) OR push_bit 8 (ucast (ucast (drop_bit 8 x AND 0xFF) :: u8)) OR
     ucast (ucast (x AND 0xFF) :: u8) = (x :: u32)"
  unfolding u32_masks
proof (rule bit_word_eqI, goal_cases)
  case (1 n)
  have "bit x n \<Longrightarrow> n < 18"
    using fits_bit [OF assms] .
  with 1 show ?case
    by - (rule byte_cases [of n]; simp only: bit_simps o_apply; auto)
qed

lemma join_addr: "(x AND push_bit 3 (mask 29)) OR (x AND 7) = (x :: u32)"
  unfolding u32_masks by (rule bit_word_eqI; simp only: bit_simps o_apply; auto)


lemma byte_tid: "fits 8 x \<Longrightarrow> (ucast (ucast x :: u8) :: u32) = x"
  using fits_bit [of 8 x] by (intro bit_word_eqI; simp only: bit_simps o_apply) auto

lemma fits_mono: "fits k x \<Longrightarrow> k \<le> m \<Longrightarrow> fits m x"
  using fits_bit [of k x] by (intro bit_fits) fastforce

lemma byte_2: "fits 2 x \<Longrightarrow> (x :: u32) AND 3 = x"
  using fits_bit [of 2 x] unfolding u32_masks by (intro bit_word_eqI; simp only: bit_simps o_apply) auto

lemma byte_3: "(ucast (ucast (x AND 3) :: u8) :: u32) = x AND 3" for x :: u32
  unfolding u32_masks by (rule bit_word_eqI; simp only: bit_simps o_apply; auto)

lemma xaddr_fits: "fits 2 (xaddr_xamsbs sz a)"
proof -
  have "fits 2 (x AND 3)" "fits 2 (ucast (ucast (x AND 3) :: u8) :: u32)" for x :: u32
    unfolding u32_masks by (rule bit_fits; simp only: bit_simps o_apply)+
  then show ?thesis
    by (simp add: xaddr_xamsbs_def fits_def)
qed

lemma rw_addr_back:
  assumes ok: "addr_ok sz a" and w: "w = 0 \<or> w = 1" and add: "DAR_add_rw_addr sz a w = Ret bs"
    and sz: "pkt_addr_size b = sz" and at: "bytes_at b i bs"
  shows "rw_addr_at b i = ([a ! 0 AND push_bit 3 (mask 29), a ! 1, a ! 2], i + length bs)"
    and "drop_bit 2 (char_at b (i + length bs - 1) AND 4) = w" and "length bs \<le> 8"
proof -
  define lst :: u8 where "lst = ucast ((a ! 0 AND 0x000000F8) + push_bit 2 (w AND 1) + xaddr_xamsbs sz a)"
  note lst = last_addr_byte [OF w xaddr_fits lst_def]
  define low where "low = [ucast (drop_bit 16 (a ! 0 AND 0x00FF0000)), ucast (drop_bit 8 (a ! 0 AND 0x0000FF00)), lst]"
  define top :: u8 where "top = ucast (drop_bit 24 (a ! 0) AND 0xFF)"
  define h1 :: u8 where "h1 = ucast (drop_bit 24 (a ! 1) AND 0xFF)"
  define h2 :: u8 where "h2 = ucast (drop_bit 16 (a ! 1) AND 0xFF)"
  define h3 :: u8 where "h3 = ucast (drop_bit 8 (a ! 1) AND 0xFF)"
  define h4 :: u8 where "h4 = ucast (a ! 1 AND 0xFF)"
  have sizes: "sz = rio_addr_66 \<or> sz = rio_addr_50 \<or> sz = rio_addr_34 \<or> sz = rio_addr_32 \<or> sz = rio_addr_21"
    using ok by (auto simp: addr_ok_def)
  have bs: "bs = (if sz = rio_addr_66 then [h1, h2] else []) @ (if sz = rio_addr_66 \<or> sz = rio_addr_50 then [h3, h4] else []) @
      (if sz = rio_addr_21 then [] else [top]) @ low"
    using add w sizes by (auto simp: DAR_add_rw_addr_def Let_def low_def lst_def top_def h1_def h2_def h3_def h4_def)
  have c: "char_at b (i + k) = ucast (bs ! k)" if "k < length bs" for k
    using char_at_bytes [OF at that] .
  have addr_low: "addr_low b (i + (length bs - 3)) = a ! 0 AND push_bit 3 (mask 21)"
  proof -
    have n: "length bs \<ge> 3" "bs ! (length bs - 3) = low ! 0" "bs ! (length bs - 2) = low ! 1" "bs ! (length bs - 1) = low ! 2"
      by (auto simp: bs nth_append low_def)
    then have "char_at b (i + (length bs - 3)) = ucast (low ! 0)" "char_at b (i + (length bs - 3) + 1) = ucast (low ! 1)"
      "char_at b (i + (length bs - 3) + 2) = ucast (low ! 2)"
      using c [of "length bs - 3"] c [of "length bs - 2"] c [of "length bs - 1"]
      by (simp_all add: numeral_eq_Suc Suc_diff_Suc)
    then show ?thesis
      using low_addr_bytes [of "a ! 0"] lst(1) by (simp add: addr_low_def low_def)
  qed
  show len: "length bs \<le> 8"
    by (simp add: bs low_def)
  have last: "char_at b (i + length bs - 1) = ucast lst"
    using c [of "length bs - 1"] by (auto simp: bs low_def nth_append split: if_splits)
  then show "drop_bit 2 (char_at b (i + length bs - 1) AND 4) = w"
    using lst(2) by simp
  show "rw_addr_at b i = ([a ! 0 AND push_bit 3 (mask 29), a ! 1, a ! 2], i + length bs)"
    using sizes
  proof (elim disjE)
    assume z: "sz = rio_addr_66"
    then have bs66: "bs = [h1, h2, h3, h4, top] @ low"
      by (simp add: bs)
    have "char_at b i = ucast h1" "char_at b (i + 1) = ucast h2" "char_at b (i + 2) = ucast h3" "char_at b (i + 3) = ucast h4"
      "char_at b (i + 4) = ucast top" "char_at b (i + 7) = ucast lst"
      using c [of 0] c [of 1] c [of 2] c [of 3] c [of 4] c [of 7] by (simp_all add: bs66 low_def)
    moreover have "xaddr_xamsbs sz a = a ! 2"
      using ok z byte_2 by (auto simp: addr_ok_def xaddr_xamsbs_def)
    moreover have "length bs - 3 = 5"
      by (simp add: bs66 low_def)
    ultimately show ?thesis
      using z sz addr_low [unfolded \<open>length bs - 3 = 5\<close>] lst(3) high_addr_byte [of "a ! 0"] word_of_bytes [of "a ! 1"]
      by (simp add: rw_addr_at_def bs66 low_def top_def h1_def h2_def h3_def h4_def)
  next
    assume z: "sz = rio_addr_50"
    then have bs50: "bs = [h3, h4, top] @ low"
      by (simp add: bs)
    have "char_at b i = ucast h3" "char_at b (i + 1) = ucast h4" "char_at b (i + 2) = ucast top" "char_at b (i + 5) = ucast lst"
      using c [of 0] c [of 1] c [of 2] c [of 5] by (simp_all add: bs50 low_def)
    moreover have "fits 18 (a ! 1)" "a ! 2 = 0" "xaddr_xamsbs sz a = drop_bit 16 (a ! 1) AND 3"
      using ok z by (auto simp: addr_ok_def xaddr_xamsbs_def byte_3)
    moreover have "length bs - 3 = 3"
      by (simp add: bs50 low_def)
    ultimately show ?thesis
      using z sz addr_low [unfolded \<open>length bs - 3 = 3\<close>] lst(3) high_addr_byte [of "a ! 0"] addr_18 [of "a ! 1"]
      by (simp add: rw_addr_at_def bs50 low_def top_def h3_def h4_def)
  next
    assume z: "sz = rio_addr_34"
    then have bs34: "bs = [top] @ low"
      by (simp add: bs)
    have "char_at b i = ucast top" "char_at b (i + 3) = ucast lst"
      using c [of 0] c [of 3] by (simp_all add: bs34 low_def)
    moreover have "a ! 2 = 0" "xaddr_xamsbs sz a = a ! 1"
      using ok z by (auto simp: addr_ok_def xaddr_xamsbs_def byte_2 byte_tid [OF fits_mono [of 2]])
    ultimately show ?thesis
      using z sz addr_low lst(3) high_addr_byte [of "a ! 0"] by (simp add: rw_addr_at_def bs34 low_def top_def)
  next
    assume z: "sz = rio_addr_32"
    then have bs32: "bs = [top] @ low"
      by (simp add: bs)
    have "char_at b i = ucast top"
      using c [of 0] by (simp add: bs32 low_def)
    then show ?thesis
      using z sz ok addr_low high_addr_byte [of "a ! 0"] by (simp add: rw_addr_at_def bs32 low_def top_def addr_ok_def)
  next
    assume z: "sz = rio_addr_21"
    then show ?thesis
      using sz ok addr_low addr_24 [of "a ! 0"] by (simp add: rw_addr_at_def bs low_def addr_ok_def)
  qed
qed


section \<open>Composing and parsing in layers\<close>

text \<open>What is left of a composition that succeeds, and of parsing its result, when the common header is taken off.\<close>

definition after_hdr :: "DAR_pkt_fields_t \<Rightarrow> DAR_pkt_fields_t \<Rightarrow> DAR_pkt_fields_t" where
  "after_hdr f g = g\<lparr>phys := (phys f)\<lparr>pkt_ackID := 0\<rparr>,
     trans := (trans g)\<lparr>tt_code := tt_code (trans f), destID := destID (trans f), srcID := srcID (trans f)\<rparr>\<rparr>"

definition hdr_state :: "DAR_pkt_fields_t \<Rightarrow> compose_t" where
  "hdr_state f = emit (hdr_bytes f) (compose_init f)"

lemma hdr_state_simps [simp]:
  "out_data (hdr_state f) = hdr_bytes f" "in_fields (hdr_state f) = f" "add_data (hdr_state f)" "data_bytes (hdr_state f) = 0"
  "repeat_data_bytes (hdr_state f) = 1" "out_addr_size (hdr_state f) = rio_addr_34"
  by (simp_all add: hdr_state_def compose_init_def DAR_util_pkt_bytes_init_def)

lemma compose_layers:
  assumes "hdr_ok f" and "pkt_type f \<noteq> pkt_raw" and "DAR_pkt_fields_to_bytes f = Ret (b, f')"
  obtains s2 s3 where "compose_log (hdr_state f) = Ret s2" "compose_data s2 = Ret s3" "compose_crc s3 = Ret (b, f')"
    and "\<not> addr_size_bad f"
  using assms compose_hdr [OF assms(1)]
  by (auto simp: DAR_pkt_fields_to_bytes_def Let_def compose_pkt_def and_then_Ret hdr_state_def compose_init_def split: if_splits)

lemma parse_layers:
  assumes "hdr_ok f" and "frame_ok p" and "p = hdr_bytes f @ r" and "2 \<le> length r"
  shows "DAR_pkt_bytes_to_fields (framed sz p) g =
     and_then (parse_log (framed sz p) (DAR_util_get_ftype (pkt_type f) AND 0xF) (after_hdr f g) (length (hdr_bytes f)))
       (\<lambda>s. and_then (parse_data (framed sz p) s)
         (\<lambda>f'. Ret (f', if DAR_util_get_ftype (pkt_type f) AND 0xF = 8 then mtc_bytes (framed sz p) else framed sz p)))"
proof -
  have at: "bytes_at (framed sz p) 0 (hdr_bytes f)"
    unfolding assms(3) by (rule bytes_at_framed) (simp add: length_hdr)
  have "unat (num_chars (framed sz p)) \<ge> 8"
    using assms(4) unfolding frame_ok_bound(2) [OF assms(2)]
    by (auto simp: assms(3) padded_frame_def length_pkt_frame length_hdr)
  then have "\<not> num_chars (framed sz p) < 8"
    by (simp add: word_less_nat_alt)
  then show ?thesis
    unfolding DAR_pkt_bytes_to_fields_def Let_def parse_hdr(1) [OF assms(1) at] parse_hdr(2) [OF assms(1) at] after_hdr_def
    by simp
qed

lemma bytes_at_Nil [simp]: "bytes_at b i []"
  by (simp add: bytes_at_def)

lemma bytes_at_Cons: "bytes_at b i (x # xs) \<longleftrightarrow> pkt_chars b ! i = x \<and> bytes_at b (i + 1) xs"
proof -
  have "bytes_at b i [x] \<longleftrightarrow> pkt_chars b ! i = x"
    by (auto simp: bytes_at_def)
  then show ?thesis
    using bytes_at_append [of b i "[x]" xs] by simp
qed

lemma bytes_at_log:
  assumes "length l \<le> 74"
  shows "bytes_at (framed sz (hdr_bytes f @ l @ d)) (length (hdr_bytes f)) l"
  using bytes_at_framed [of "hdr_bytes f @ l" sz d] assms length_hdr [of f] by (simp add: bytes_at_append split: if_splits)

lemma nibbles:
  fixes t r :: u32
  assumes "fits 4 t" and "b = (ucast (push_bit 4 t + (r AND 0xF)) :: u8)"
  shows "drop_bit 4 ((ucast b :: u32) AND 0xF0) = t" "(ucast b :: u32) AND 0xF = r AND 0xF"
proof -
  note bits = fits_bit [OF assms(1)]
  have "push_bit 4 t + (r AND 0xF) = push_bit 4 t OR (r AND 0xF)"
    unfolding u32_masks by (rule add_disjoint; simp only: bit_simps o_apply; auto)
  then have b: "b = ucast (push_bit 4 t OR (r AND 0xF))"
    using assms(2) by (simp only:)
  show "drop_bit 4 ((ucast b :: u32) AND 0xF0) = t" "(ucast b :: u32) AND 0xF = r AND 0xF"
    unfolding b u32_masks by (rule bit_word_eqI; simp only: bit_simps o_apply; auto dest: bits)+
qed

lemma low_nibble:
  assumes "r \<le> 15"
  shows "(r :: u32) AND 0xF = r"
proof -
  have "fits 4 r"
    using assms by (simp add: fits_def word_le_nat_alt)
  then show ?thesis
    using fits_bit [of 4 r] unfolding u32_masks by (intro bit_word_eqI; simp only: bit_simps o_apply) auto
qed

text \<open>An address added by the composition, seen from both sides.\<close>

lemma add_addr_Ret:
  assumes "add_addr w s = Ret s'"
  obtains bs where "DAR_add_rw_addr (rw_addr_size (log_rw (in_fields s))) (addr (log_rw (in_fields s))) w = Ret bs"
    and "s' = (emit bs s)\<lparr>out_addr_size := rw_addr_size (log_rw (in_fields s))\<rparr>"
  using assms by (auto simp: add_addr_def Let_def and_then_Ret)

lemma add_rw_addr_length:
  "DAR_add_rw_addr sz a w = Ret bs \<Longrightarrow> sz \<noteq> rio_addr_21 \<Longrightarrow> length bs \<in> {4, 6, 8}"
  "DAR_add_rw_addr sz a w = Ret bs \<Longrightarrow> sz = rio_addr_21 \<Longrightarrow> length bs = 3"
  by (auto simp: DAR_add_rw_addr_def Let_def split: if_splits)


section \<open>Reads and writes\<close>

text \<open>The fields of a packet with an address, as the parser leaves them.\<close>

definition rw_parsed :: "DAR_pkt_fields_t \<Rightarrow> u32 \<Rightarrow> DAR_pkt_fields_t \<Rightarrow> DAR_pkt_fields_t" where
  "rw_parsed f n g = g\<lparr>pkt_type := pkt_type f, pkt_bytes := n,
     log_rw := (log_rw g)\<lparr>tid := tid (log_rw f), rw_addr_size := rw_addr_size (log_rw f), addr := addr (log_rw f)\<rparr>\<rparr>"

lemma three: "length a = 3 \<Longrightarrow> a = [a ! 0, a ! 1, a ! 2]"
  by (auto simp: length_Suc_conv numeral_eq_Suc)

lemma rw_parsed_back:
  assumes "addr_ok (rw_addr_size (log_rw f)) (addr (log_rw f))" and "w = 0 \<or> w = 1"
    and "DAR_add_rw_addr (rw_addr_size (log_rw f)) (addr (log_rw f)) w = Ret bs"
    and "pkt_addr_size b = rw_addr_size (log_rw f)" and "bytes_at b i bs" and "fits 8 (tid (log_rw f))"
  shows "\<exists>g1. DAR_get_rw_addr b (set_tid (ucast (ucast (tid (log_rw f)) :: u8)) (g\<lparr>pkt_type := pkt_type f\<rparr>)) i = (g1, i + length bs) \<and>
      or_addr0 (addr (log_rw f) ! 0 AND 7) (g1\<lparr>pkt_bytes := n\<rparr>) = rw_parsed f n g"
proof -
  have len: "length (addr (log_rw f)) = 3"
    using assms(1) by (simp add: addr_ok_def)
  show ?thesis
    using rw_addr_back(1) [OF assms(1-5)] three [OF len] byte_tid [OF assms(6)]
    by (auto simp: DAR_get_rw_addr_def Let_def set_tid_def or_addr0_def rw_parsed_def join_addr assms(4))
qed

lemma nread_back:
  assumes "DAR_util_get_ftype (pkt_type f) = 2" and "addr_ok (rw_addr_size (log_rw f)) (addr (log_rw f))"
    and "fits 8 (tid (log_rw f))" and "compose_log (hdr_state f) = Ret s2" and "\<not> addr_size_bad f"
  obtains l where "s2 = (emit l (hdr_state f))\<lparr>add_data := False, out_addr_size := rw_addr_size (log_rw f)\<rparr>"
    and "even (length l)" and "2 \<le> length l" and "length l \<le> 10"
    and "\<And>b g i. i \<le> 6 \<Longrightarrow> bytes_at b i l \<Longrightarrow> pkt_addr_size b = rw_addr_size (log_rw f) \<Longrightarrow>
      parse_log b 2 g i = Ret (parsed (rw_parsed f (pkt_bytes f) g) (i + length l) False)"
proof -
  obtain rd wd where rd: "DAR_util_get_rdsize_wdptr (addr (log_rw f) ! 0) (pkt_bytes f) = (rd, wd)"
    by fastforce
  define t where "t = nread_trans (pkt_type f)"
  define l2 :: "u8 list" where "l2 = [ucast (push_bit 4 t + (rd AND 0xF)), ucast (tid (log_rw f))]"
  have good: "rd \<noteq> BAD_SIZE" and add: "add_addr wd (emit l2 ((hdr_state f)\<lparr>add_data := False\<rparr>)) = Ret s2"
    using assms(1,4) rd by (auto simp: compose_log_def compose_nread_def Let_def t_def l2_def split: if_splits)
  note code = rd_code_back [OF rd good]
  have wd: "wd = 0 \<or> wd = 1"
    using code(2) by (metis word_le_less_eq word_less_1)
  obtain bs where bs: "DAR_add_rw_addr (rw_addr_size (log_rw f)) (addr (log_rw f)) wd = Ret bs"
    and s2: "s2 = (emit bs (emit l2 ((hdr_state f)\<lparr>add_data := False\<rparr>)))\<lparr>out_addr_size := rw_addr_size (log_rw f)\<rparr>"
    using add_addr_Ret [OF add] by auto
  have len: "length bs \<in> {4, 6, 8}"
    using add_rw_addr_length(1) [OF bs] assms(1,5) by (simp add: addr_size_bad_def)
  have t: "t \<in> {4, 0xC, 0xD, 0xE, 0xF}" and back_typ: "(if t = 4 then pkt_nr else if t = 0xC then pkt_nr_inc else if t = 0xD then pkt_nr_dec
                    else if t = 0xE then pkt_nr_set else pkt_nr_clr) = pkt_type f"
    using assms(1) by (cases "pkt_type f"; simp add: t_def nread_trans_def)+
  have t4: "fits 4 t"
    using t by (auto simp: fits_def)
  note nib = nibbles [OF t4, of _ rd, OF refl]
  have undo: "parse_log b 2 g i = Ret (parsed (rw_parsed f (pkt_bytes f) g) (i + length (l2 @ bs)) False)"
    if i: "i \<le> 6" and at: "bytes_at b i (l2 @ bs)" and sz: "pkt_addr_size b = rw_addr_size (log_rw f)" for b g i
  proof -
    have c: "char_at b i = ucast (l2 ! 0)" "char_at b (i + 1) = ucast (l2 ! 1)" and at2: "bytes_at b (i + 2) bs"
      using at by (auto simp: bytes_at_append bytes_at_Cons l2_def char_at_def)
    obtain g1 where g1: "DAR_get_rw_addr b (set_tid (char_at b (i + 1)) (g\<lparr>pkt_type := pkt_type f\<rparr>)) (i + 2) = (g1, i + 2 + length bs)"
      "or_addr0 (addr (log_rw f) ! 0 AND 7) (g1\<lparr>pkt_bytes := pkt_bytes f\<rparr>) = rw_parsed f (pkt_bytes f) g"
      using rw_parsed_back [OF assms(2) wd bs sz at2 assms(3)] unfolding c(2) by (auto simp: l2_def)
    have ptr: "drop_bit 2 (char_at b (i + 2 + length bs - 1) AND 4) = wd"
      using rw_addr_back(2) [OF assms(2) wd bs sz at2] .
    have room: "\<not> 276 < i + 2 + length bs"
      using i len by auto
    have c0: "drop_bit 4 (char_at b i AND 0xF0) = t" "char_at b i AND 0xF = rd"
      using nib c(1) low_nibble [OF code(1)] by (simp_all add: l2_def)
    have "length (l2 @ bs) = 2 + length bs"
      by (simp add: l2_def)
    then show ?thesis
      unfolding parse_log_def parse_nread_def Let_def c0 back_typ g1(1) prod.case ptr code(3)
      using t room g1(2) by (simp add: add.assoc)
  qed
  show ?thesis
  proof (rule that [of "l2 @ bs"])
    show "s2 = (emit (l2 @ bs) (hdr_state f))\<lparr>add_data := False, out_addr_size := rw_addr_size (log_rw f)\<rparr>"
      by (simp add: s2 emit_def)
    show "even (length (l2 @ bs))" "2 \<le> length (l2 @ bs)" "length (l2 @ bs) \<le> 10"
      using len by (auto simp: l2_def)
  qed (rule undo)
qed


lemma nwrite_back:
  assumes "DAR_util_get_ftype (pkt_type f) = 5" and "addr_ok (rw_addr_size (log_rw f)) (addr (log_rw f))"
    and "fits 8 (tid (log_rw f))" and "compose_log (hdr_state f) = Ret s2" and "\<not> addr_size_bad f" and "pkt_bytes f \<le> 256"
  obtains l m rep where
    "s2 = (emit l (hdr_state f))\<lparr>data_bytes := pkt_bytes f, repeat_data_bytes := rep, out_addr_size := rw_addr_size (log_rw f)\<rparr>"
    and "even (length l)" and "2 \<le> length l" and "length l \<le> 10" and "rep = (if pkt_type f = pkt_nw_cmp_swap then 2 else 1)"
    and "pkt_bytes f \<le> m" and "pkt_bytes f \<le> 16 \<Longrightarrow> m = pkt_bytes f" and "m \<le> 256"
    and "\<And>b g i. i \<le> 6 \<Longrightarrow> bytes_at b i l \<Longrightarrow> pkt_addr_size b = rw_addr_size (log_rw f) \<Longrightarrow>
      parse_log b 5 g i = Ret ((parsed (rw_parsed f m g) (i + length l) True)\<lparr>parse_repeat := rep\<rparr>)"
proof -
  obtain wr wd where wr: "DAR_util_get_wrsize_wdptr (addr (log_rw f) ! 0) (pkt_bytes f) = (wr, wd)"
    by fastforce
  obtain t rep where t_rep: "nwrite_trans (pkt_type f) = Ret (t, rep)"
    using assms(1) by (cases "pkt_type f") (auto simp: nwrite_trans_def)
  define l2 :: "u8 list" where "l2 = [ucast (push_bit 4 t + (wr AND 0xF)), ucast (tid (log_rw f))]"
  have good: "wr \<noteq> BAD_SIZE"
    and add: "add_addr wd (emit l2 ((hdr_state f)\<lparr>data_bytes := pkt_bytes f, repeat_data_bytes := rep\<rparr>)) = Ret s2"
    using assms(1,4) wr t_rep by (auto simp: compose_log_def compose_nwrite_def Let_def l2_def split: if_splits)
  obtain m where m: "wr \<le> 15" "wd \<le> 1" "DAR_util_compute_wr_bytes_n_align wr wd = (0, m, addr (log_rw f) ! 0 AND 7)"
    "pkt_bytes f \<le> m" "m \<le> 256" "pkt_bytes f \<le> 16 \<Longrightarrow> m = pkt_bytes f"
    using wr_code_back [OF wr good assms(6)] by metis
  have wd: "wd = 0 \<or> wd = 1"
    using m(2) by (metis word_le_less_eq word_less_1)
  obtain bs where bs: "DAR_add_rw_addr (rw_addr_size (log_rw f)) (addr (log_rw f)) wd = Ret bs"
    and s2: "s2 = (emit bs (emit l2 ((hdr_state f)\<lparr>data_bytes := pkt_bytes f, repeat_data_bytes := rep\<rparr>)))
        \<lparr>out_addr_size := rw_addr_size (log_rw f)\<rparr>"
    using add_addr_Ret [OF add] by auto
  have len: "length bs \<in> {4, 6, 8}"
    using add_rw_addr_length(1) [OF bs] assms(1,5) by (simp add: addr_size_bad_def)
  have t: "t \<in> {4, 5, 0xC, 0xD, 0xE}" and rep: "rep = (if pkt_type f = pkt_nw_cmp_swap then 2 else 1)"
    and back_typ: "(if t = 4 then (pkt_nw, 1) else if t = 5 then (pkt_nwr, 1) else if t = 0xC then (pkt_nw_swap, 1)
                    else if t = 0xD then (pkt_nw_cmp_swap, 2) else (pkt_nw_tst_swap, 1)) = (pkt_type f, rep)"
    using assms(1) t_rep by (cases "pkt_type f"; auto simp: nwrite_trans_def)+
  have t4: "fits 4 t"
    using t by (auto simp: fits_def)
  note nib = nibbles [OF t4, of _ wr, OF refl]
  have undo: "parse_log b 5 g i = Ret ((parsed (rw_parsed f m g) (i + length (l2 @ bs)) True)\<lparr>parse_repeat := rep\<rparr>)"
    if i: "i \<le> 6" and at: "bytes_at b i (l2 @ bs)" and sz: "pkt_addr_size b = rw_addr_size (log_rw f)" for b g i
  proof -
    have c: "char_at b i = ucast (l2 ! 0)" "char_at b (i + 1) = ucast (l2 ! 1)" and at2: "bytes_at b (i + 2) bs"
      using at by (auto simp: bytes_at_append bytes_at_Cons l2_def char_at_def)
    obtain g1 where g1: "DAR_get_rw_addr b (set_tid (char_at b (i + 1)) (g\<lparr>pkt_type := pkt_type f\<rparr>)) (i + 2) = (g1, i + 2 + length bs)"
      "or_addr0 (addr (log_rw f) ! 0 AND 7) (g1\<lparr>pkt_bytes := m\<rparr>) = rw_parsed f m g"
      using rw_parsed_back [OF assms(2) wd bs sz at2 assms(3)] unfolding c(2) by (auto simp: l2_def)
    have ptr: "drop_bit 2 (char_at b (i + 2 + length bs - 1) AND 4) = wd"
      using rw_addr_back(2) [OF assms(2) wd bs sz at2] .
    have room: "\<not> 276 < i + 2 + length bs"
      using i len by auto
    have c0: "drop_bit 4 (char_at b i AND 0xF0) = t" "char_at b i AND 0xF = wr"
      using nib c(1) low_nibble [OF m(1)] by (simp_all add: l2_def)
    have "length (l2 @ bs) = 2 + length bs"
      by (simp add: l2_def)
    then show ?thesis
      unfolding parse_log_def parse_nwrite_def Let_def c0 back_typ prod.case g1(1) ptr m(3)
      using t room g1(2) by (simp add: add.assoc)
  qed
  have eq: "s2 = (emit (l2 @ bs) (hdr_state f))\<lparr>data_bytes := pkt_bytes f, repeat_data_bytes := rep, out_addr_size := rw_addr_size (log_rw f)\<rparr>"
    by (simp add: s2 emit_def)
  have lens: "even (length (l2 @ bs))" "2 \<le> length (l2 @ bs)" "length (l2 @ bs) \<le> 10"
    using len by (auto simp: l2_def)
  show ?thesis
    by (rule that [OF eq lens rep m(4,6,5) undo])
qed

section \<open>Data\<close>

lemma parse_chunks_snoc:
  "parse_chunks b l n t i (Suc m) =
     parse_chunks b l n t i m @ map (\<lambda>k. pkt_chars b ! (i + m * (l + n + t) + l + k)) [0..<n]"
proof (induction m arbitrary: i)
  case (Suc m)
  show ?case
    using Suc [of "i + l + n + t"] by (subst parse_chunks.simps(2)) (simp add: algebra_simps)
qed simp

lemma map_bytes_at: "bytes_at b i bs \<Longrightarrow> n = length bs \<Longrightarrow> map (\<lambda>k. pkt_chars b ! (i + k)) [0..<n] = bs"
  by (intro nth_equalityI) (auto simp: bytes_at_def)

lemma parse_chunks_back:
  assumes "compose_chunks f n m = Ret d" and "n = unat (pkt_bytes f)" and "a = unat (addr (log_rw f) ! 0 AND 7)" and "a + n \<le> 8"
    and "bytes_at b i d"
  shows "parse_chunks b a n (8 - a - n) i m = take (m * n) (pkt_data f) \<and> length d = 8 * m \<and> m * n \<le> length (pkt_data f)"
  using assms(1,5)
proof (induction m arbitrary: d)
  case (Suc m)
  from Suc.prems(1) obtain d' c where d: "compose_chunks f n m = Ret d'" "compose_chunk f n m = Ret c" "d = d' @ c"
    by (auto simp: and_then_Ret)
  define x where "x = take n (drop (m * n) (pkt_data f))"
  have c: "c = replicate a 0 @ x @ replicate (8 - (a + n)) 0" and fit: "m * n + n \<le> length (pkt_data f)"
    using d(2) assms(2,3) by (auto simp: compose_chunk_def read_data_def Let_def x_def split: if_splits)
  have x: "length x = n"
    using fit by (simp add: x_def)
  have at: "bytes_at b i d'" "bytes_at b (i + length d') c"
    using Suc.prems(2) by (simp_all add: d(3) bytes_at_append)
  note IH = Suc.IH [OF d(1) at(1)]
  have "bytes_at b (i + 8 * m + a) x"
    using at(2) IH by (simp add: c bytes_at_append)
  then have "map (\<lambda>k. pkt_chars b ! (i + 8 * m + a + k)) [0..<n] = x"
    using x by (intro map_bytes_at) simp_all
  moreover have "m * (a + n + (8 - a - n)) = 8 * m"
    using assms(4) by simp
  ultimately have "parse_chunks b a n (8 - a - n) i (Suc m) = take (m * n) (pkt_data f) @ x"
    using IH by (simp only: parse_chunks_snoc)
  then show ?case
    using IH fit assms(4) x by (simp add: c d(3) take_add [symmetric] x_def add.commute del: parse_chunks.simps)
qed simp


lemma compose_data_large:
  assumes "compose_data s = Ret s'" and "add_data s" and "pkt_bytes (in_fields s) \<ge> 8"
  shows "s' = emit (take (unat (pkt_bytes (in_fields s))) (pkt_data (in_fields s))) s"
    and "unat (pkt_bytes (in_fields s)) \<le> length (pkt_data (in_fields s))"
    and "addr (log_rw (in_fields s)) ! 0 AND 7 = 0" and "8 dvd unat (pkt_bytes (in_fields s))"
proof -
  have "pkt_bytes (in_fields s) \<noteq> 0" "\<not> pkt_bytes (in_fields s) < 8"
    using assms(3) by auto
  with assms(1,2) show "s' = emit (take (unat (pkt_bytes (in_fields s))) (pkt_data (in_fields s))) s"
    "unat (pkt_bytes (in_fields s)) \<le> length (pkt_data (in_fields s))" "addr (log_rw (in_fields s)) ! 0 AND 7 = 0"
    by (auto simp: compose_data_def Let_def and_then_Ret read_data_def split: if_splits)
  have "pkt_bytes (in_fields s) AND 7 = 0"
    using assms(1,2) \<open>pkt_bytes (in_fields s) \<noteq> 0\<close> \<open>\<not> pkt_bytes (in_fields s) < 8\<close>
    by (auto simp: compose_data_def Let_def split: if_splits)
  then show "8 dvd unat (pkt_bytes (in_fields s))"
    using unat_and7 [of "pkt_bytes (in_fields s)"] by (simp add: dvd_eq_mod_eq_0)
qed

lemma compose_data_small:
  assumes "compose_data s = Ret s'" and "add_data s" and "pkt_bytes (in_fields s) < 8" and "pkt_bytes (in_fields s) \<noteq> 0"
  obtains d where "compose_chunks (in_fields s) (unat (data_bytes s)) (repeat_data_bytes s) = Ret d" and "s' = emit d s"
    and "unat (addr (log_rw (in_fields s)) ! 0 AND 7) + unat (pkt_bytes (in_fields s)) \<le> 8"
proof -
  define f where "f = in_fields s"
  have "unat ((addr (log_rw f) ! 0 AND 7) + pkt_bytes f) = unat (addr (log_rw f) ! 0 AND 7) + unat (pkt_bytes f)"
    using align_7 [of "addr (log_rw f) ! 0"] assms(3) by (simp add: unat_word_ariths word_less_nat_alt f_def)
  then show ?thesis
    using assms that by (auto simp: compose_data_def Let_def and_then_Ret word_less_nat_alt f_def split: if_splits)
qed

lemma compose_data_none: "compose_data s = Ret s' \<Longrightarrow> \<not> add_data s \<or> pkt_bytes (in_fields s) = 0 \<Longrightarrow> s' = s"
  by (auto simp: compose_data_def Let_def)

lemma parse_data_large:
  assumes "frame_ok (h @ d)" and "length h \<le> 80" and "even (length d)" and "crc_visible (h @ d)"
    and "pkt_index s = length h" and "276 \<le> length (pkt_data (out_fields s))"
    and "get_data s" and "pkt_bytes (out_fields s) > 8" and "pkt_type (out_fields s) \<noteq> pkt_dstm"
    and "of_nat (length d) \<le> pkt_bytes (out_fields s)" and "get_exact_data s \<Longrightarrow> of_nat (length d) = pkt_bytes (out_fields s)"
  obtains buf pad where "take (length d) buf = d"
    and "parse_data (framed sz (h @ d)) s = Ret ((out_fields s)\<lparr>pkt_data := buf, pad_bytes := pad, pkt_bytes := of_nat (length d)\<rparr>)"
proof -
  obtain buf pad where buf: "take (length d) buf = d" and
    large: "parse_large (framed sz (h @ d)) s = Ret ((out_fields s)\<lparr>pkt_data := buf, pad_bytes := pad, pkt_bytes := of_nat (length d)\<rparr>)"
    using parse_large_framed [OF assms(1-6), of sz] assms(9) by auto
  have "\<not> pkt_bytes (out_fields s) \<le> 8"
    using assms(8) by simp
  then have "parse_data (framed sz (h @ d)) s = Ret ((out_fields s)\<lparr>pkt_data := buf, pad_bytes := pad, pkt_bytes := of_nat (length d)\<rparr>)"
    using assms(7,10,11) by (auto simp: parse_data_def Let_def large)
  with buf that show ?thesis
    by blast
qed

lemma parse_data_small:
  assumes "get_data s" and "pkt_bytes (out_fields s) \<le> 8" and "pkt_type (out_fields s) \<notin> {pkt_dstm, pkt_msg}"
    and "compose_chunks f (unat (pkt_bytes f)) (parse_repeat s) = Ret d" and "pkt_bytes (out_fields s) = pkt_bytes f"
    and "addr (log_rw (out_fields s)) = addr (log_rw f)"
    and "unat (addr (log_rw f) ! 0 AND 7) + unat (pkt_bytes f) \<le> 8" and "bytes_at b (pkt_index s) d"
    and "parse_repeat s \<le> 2" and "276 \<le> length (pkt_data (out_fields s))"
  obtains buf where "take (parse_repeat s * unat (pkt_bytes f)) buf = take (parse_repeat s * unat (pkt_bytes f)) (pkt_data f)"
    and "parse_data b s = Ret ((out_fields s)\<lparr>pkt_data := buf\<rparr>)"
proof -
  define n where "n = unat (pkt_bytes f)"
  define a where "a = unat (addr (log_rw f) ! 0 AND 7)"
  define x where "x = take (parse_repeat s * n) (pkt_data f)"
  have chunks: "parse_chunks b a n (8 - a - n) (pkt_index s) (parse_repeat s) = x" "parse_repeat s * n \<le> length (pkt_data f)"
    using parse_chunks_back [OF assms(4) refl refl assms(7,8)] by (simp_all add: n_def a_def x_def)
  have "parse_repeat s * n \<le> 2 * 8"
    using assms(7,9) by (intro mult_le_mono) (simp_all add: n_def)
  then have len: "length x = parse_repeat s * n" "length x \<le> length (pkt_data (out_fields s))"
    using chunks(2) assms(10) by (simp_all add: x_def)
  define buf where "buf = x @ drop (length x) (pkt_data (out_fields s))"
  have "parse_small b s = Ret ((out_fields s)\<lparr>pkt_data := buf\<rparr>)"
    using assms(3,5,6) len(2) chunks(1) by (simp add: parse_small_def Let_def n_def [symmetric] a_def [symmetric] buf_def)
  then have "parse_data b s = Ret ((out_fields s)\<lparr>pkt_data := buf\<rparr>)"
    using assms(1,2) by (simp add: parse_data_def Let_def)
  moreover have "take (parse_repeat s * n) buf = take (parse_repeat s * n) (pkt_data f)"
    using len(1) by (simp add: buf_def x_def [symmetric])
  ultimately show ?thesis
    using that unfolding n_def by blast
qed

end
