(* ===== verification/Pkt_Roundtrip.thy ===== *)
theory Pkt_Roundtrip
  imports Pkt_Layers
begin

unbundle bit_operations_syntax

text \<open>
  Composed packets parse back. For every packet type, the fields that its bytes carry are those that were composed; the
  properties at the end of the theory say this, what does not survive, and that the composition stays inside its array.
\<close>

section \<open>What survives\<close>

definition data_agree :: "nat \<Rightarrow> DAR_pkt_fields_t \<Rightarrow> DAR_pkt_fields_t \<Rightarrow> bool" where
  "data_agree k f g \<longleftrightarrow> pkt_bytes g = pkt_bytes f \<and>
     take (k * unat (pkt_bytes f)) (pkt_data g) = take (k * unat (pkt_bytes f)) (pkt_data f)"

definition addr_agree :: "DAR_pkt_fields_t \<Rightarrow> DAR_pkt_fields_t \<Rightarrow> bool" where
  "addr_agree f g \<longleftrightarrow> rw_addr_size (log_rw g) = rw_addr_size (log_rw f) \<and> addr (log_rw g) = addr (log_rw f)"

definition hdr_agree :: "DAR_pkt_fields_t \<Rightarrow> DAR_pkt_fields_t \<Rightarrow> bool" where
  "hdr_agree f g \<longleftrightarrow> phys g = (phys f)\<lparr>pkt_ackID := 0\<rparr> \<and> tt_code (trans g) = tt_code (trans f) \<and>
     destID (trans g) = destID (trans f) \<and> srcID (trans g) = srcID (trans f) \<and> pkt_type g = pkt_type f"

text \<open>
  A composition has come to its data: the logical header \<open>l\<close> is written and \<open>s2\<close> is the state. The result is the frame
  of the header, \<open>l\<close> and the data.
\<close>

definition log_done :: "DAR_pkt_fields_t \<Rightarrow> u8 list \<Rightarrow> compose_t \<Rightarrow> bool" where
  "log_done f l s2 \<longleftrightarrow> out_data s2 = hdr_bytes f @ l \<and> even (length l) \<and> 2 \<le> length l \<and> length l \<le> 10 \<and>
     pkt_bytes (in_fields s2) = pkt_bytes f \<and> pkt_data (in_fields s2) = pkt_data f"

lemma composed_frame:
  assumes "log_done f l s2" and "out_data s3 = out_data s2 @ d" and "out_addr_size s3 = out_addr_size s2" and "compose_crc s3 = Ret (b, f')"
    and "even (length d)" and "length d \<le> 256"
  shows "frame_ok (hdr_bytes f @ l @ d)" and "b = framed (out_addr_size s2) (hdr_bytes f @ l @ d)"
    and "bytes_at b (length (hdr_bytes f)) l" and "length (hdr_bytes f @ l) \<le> 80"
    and "length d \<le> 60 \<Longrightarrow> bytes_at b (length (hdr_bytes f @ l)) d"
proof -
  have l: "even (length l)" "length l \<le> 10"
    using assms(1) by (simp_all add: log_done_def)
  then show ok: "frame_ok (hdr_bytes f @ l @ d)"
    using assms(5,6) by (auto simp: frame_ok_def length_hdr)
  have out: "out_data s3 = hdr_bytes f @ l @ d"
    using assms(1,2) by (simp add: log_done_def)
  show b: "b = framed (out_addr_size s2) (hdr_bytes f @ l @ d)"
    using framed_compose [of s3] ok assms(3,4) by (simp add: out)
  show "bytes_at b (length (hdr_bytes f)) l"
    unfolding b by (rule bytes_at_log) (use l in simp)
  show "length (hdr_bytes f @ l) \<le> 80"
    using l by (simp add: length_hdr)
  assume "length d \<le> 60"
  then have "bytes_at b 0 ((hdr_bytes f @ l @ d))"
    using bytes_at_framed [of "hdr_bytes f @ l @ d" "out_addr_size s2" "[]"] l by (simp add: b length_hdr)
  then show "bytes_at b (length (hdr_bytes f @ l)) d"
    by (simp add: bytes_at_append)
qed

lemma emit_same_size [simp]: "out_addr_size (emit bs s) = out_addr_size s"
  by (simp add: emit_def)

text \<open>The data of a packet that has at least eight bytes and is read to the end.\<close>

lemma data_back_large:
  assumes ld: "log_done f l s2" and n: "8 \<le> pkt_bytes f" "pkt_bytes f \<le> 256" and add: "add_data s2"
    and data: "compose_data s2 = Ret s3" and crc: "compose_crc s3 = Ret (b, f')"
  obtains d where "d = take (unat (pkt_bytes f)) (pkt_data f)" and "length d = unat (pkt_bytes f)"
    and "frame_ok (hdr_bytes f @ l @ d)" and "b = framed (out_addr_size s2) (hdr_bytes f @ l @ d)"
    and "bytes_at b (length (hdr_bytes f)) l" and "in_fields s3 = in_fields s2"
    and "\<And>s. crc_visible (hdr_bytes f @ l @ d) \<Longrightarrow> pkt_index s = length (hdr_bytes f) + length l \<Longrightarrow>
      276 \<le> length (pkt_data (out_fields s)) \<Longrightarrow> get_data s \<Longrightarrow> 8 < pkt_bytes (out_fields s) \<Longrightarrow>
      pkt_type (out_fields s) \<noteq> pkt_dstm \<Longrightarrow> pkt_bytes f \<le> pkt_bytes (out_fields s) \<Longrightarrow>
      (get_exact_data s \<Longrightarrow> pkt_bytes f = pkt_bytes (out_fields s)) \<Longrightarrow>
      \<exists>buf pad. take (unat (pkt_bytes f)) buf = take (unat (pkt_bytes f)) (pkt_data f) \<and>
        parse_data b s = Ret ((out_fields s)\<lparr>pkt_data := buf, pad_bytes := pad, pkt_bytes := pkt_bytes f\<rparr>)"
proof -
  define d where "d = take (unat (pkt_bytes f)) (pkt_data f)"
  have same: "pkt_bytes (in_fields s2) = pkt_bytes f" "pkt_data (in_fields s2) = pkt_data f"
    using ld by (simp_all add: log_done_def)
  note large = compose_data_large [OF data add, unfolded same, OF n(1)]
  have s3: "s3 = emit d s2" and len: "length d = unat (pkt_bytes f)" and dvd: "8 dvd length d"
    using large by (simp_all add: d_def)
  have bound: "length d \<le> 256" "even (length d)"
    using n(2) dvd len by (auto simp: word_le_nat_alt elim: dvd_trans [rotated])
  note frame = composed_frame [OF ld _ _ crc bound(2,1)]
  have n_nat: "of_nat (length d) = pkt_bytes f"
    by (simp add: len)
  show ?thesis
  proof (rule that [OF d_def len])
    show fr: "frame_ok (hdr_bytes f @ l @ d)" "b = framed (out_addr_size s2) (hdr_bytes f @ l @ d)"
      "bytes_at b (length (hdr_bytes f)) l"
      using frame s3 by simp_all
    show "in_fields s3 = in_fields s2"
      by (simp add: s3)
    fix s :: parse_t
    assume s: "crc_visible (hdr_bytes f @ l @ d)" "pkt_index s = length (hdr_bytes f) + length l"
      "276 \<le> length (pkt_data (out_fields s))" "get_data s" "8 < pkt_bytes (out_fields s)"
      "pkt_type (out_fields s) \<noteq> pkt_dstm" "pkt_bytes f \<le> pkt_bytes (out_fields s)"
      "get_exact_data s \<Longrightarrow> pkt_bytes f = pkt_bytes (out_fields s)"
    have "length (hdr_bytes f @ l) \<le> 80" "frame_ok ((hdr_bytes f @ l) @ d)" "crc_visible ((hdr_bytes f @ l) @ d)"
      using frame(4) fr(1) s(1) s3 by simp_all
    then obtain buf pad where "take (length d) buf = d"
      "parse_data (framed (out_addr_size s2) ((hdr_bytes f @ l) @ d)) s = Ret ((out_fields s)\<lparr>pkt_data := buf, pad_bytes := pad, pkt_bytes := of_nat (length d)\<rparr>)"
      using parse_data_large [of "hdr_bytes f @ l" d s "out_addr_size s2"] bound(2) s n_nat by auto
    then show "\<exists>buf pad. take (unat (pkt_bytes f)) buf = take (unat (pkt_bytes f)) (pkt_data f) \<and>
        parse_data b s = Ret ((out_fields s)\<lparr>pkt_data := buf, pad_bytes := pad, pkt_bytes := pkt_bytes f\<rparr>)"
      using fr(2) len n_nat by (auto simp: d_def)
  qed
qed


text \<open>The data of a packet whose size code gives at most eight bytes.\<close>

lemma compose_data_chunks:
  assumes data: "compose_data s = Ret s'" and add: "add_data s" and n: "pkt_bytes (in_fields s) \<noteq> 0" "pkt_bytes (in_fields s) \<le> 8"
    and same: "data_bytes s = pkt_bytes (in_fields s)" and rep: "pkt_bytes (in_fields s) = 8 \<Longrightarrow> repeat_data_bytes s = 1"
  obtains d where "compose_chunks (in_fields s) (unat (pkt_bytes (in_fields s))) (repeat_data_bytes s) = Ret d" and "s' = emit d s"
    and "unat (addr (log_rw (in_fields s)) ! 0 AND 7) + unat (pkt_bytes (in_fields s)) \<le> 8"
proof (cases "pkt_bytes (in_fields s) < 8")
  case True
  then show ?thesis
    using compose_data_small [OF data add True n(1)] that same by metis
next
  case False
  then have n8: "pkt_bytes (in_fields s) = 8"
    using n(2) by simp
  then have ge: "8 \<le> pkt_bytes (in_fields s)"
    by simp
  note large = compose_data_large [OF data add ge]
  have "compose_chunks (in_fields s) 8 1 = Ret (take 8 (pkt_data (in_fields s)))"
    using large(2,3) by (simp add: compose_chunk_def read_data_def Let_def n8)
  then show ?thesis
    using that [of "take 8 (pkt_data (in_fields s))"] large(1,3) rep n8 by simp
qed

lemma compose_chunks_length:
  assumes "compose_chunks f n m = Ret d" and "n = unat (pkt_bytes f)" and "unat (addr (log_rw f) ! 0 AND 7) + n \<le> 8"
  shows "length d = 8 * m"
  using assms(1)
proof (induction m arbitrary: d)
  case (Suc m)
  then obtain d' c where "compose_chunks f n m = Ret d'" "compose_chunk f n m = Ret c" "d = d' @ c"
    by (auto simp: and_then_Ret)
  with Suc.IH assms(2,3) show ?case
    by (auto simp: compose_chunk_def read_data_def Let_def split: if_splits)
qed simp

lemma data_back_small:
  assumes ld: "log_done f l s2" and n: "pkt_bytes f \<noteq> 0" "pkt_bytes f \<le> 8" and add: "add_data s2"
    and data: "compose_data s2 = Ret s3" and crc: "compose_crc s3 = Ret (b, f')"
    and same: "data_bytes s2 = pkt_bytes f" "addr (log_rw (in_fields s2)) = addr (log_rw f)"
    and rep: "repeat_data_bytes s2 \<le> 2" "pkt_bytes f = 8 \<Longrightarrow> repeat_data_bytes s2 = 1"
  obtains d where "frame_ok (hdr_bytes f @ l @ d)" and "b = framed (out_addr_size s2) (hdr_bytes f @ l @ d)"
    and "bytes_at b (length (hdr_bytes f)) l" and "in_fields s3 = in_fields s2"
    and "\<And>s. pkt_index s = length (hdr_bytes f) + length l \<Longrightarrow> 276 \<le> length (pkt_data (out_fields s)) \<Longrightarrow> get_data s \<Longrightarrow>
      pkt_bytes (out_fields s) = pkt_bytes f \<Longrightarrow> pkt_type (out_fields s) \<notin> {pkt_dstm, pkt_msg} \<Longrightarrow>
      addr (log_rw (out_fields s)) = addr (log_rw f) \<Longrightarrow> parse_repeat s = repeat_data_bytes s2 \<Longrightarrow>
      \<exists>buf. take (repeat_data_bytes s2 * unat (pkt_bytes f)) buf = take (repeat_data_bytes s2 * unat (pkt_bytes f)) (pkt_data f) \<and>
        parse_data b s = Ret ((out_fields s)\<lparr>pkt_data := buf\<rparr>)"
proof -
  have f2: "pkt_bytes (in_fields s2) = pkt_bytes f" "pkt_data (in_fields s2) = pkt_data f"
    using ld by (simp_all add: log_done_def)
  obtain d where d: "compose_chunks (in_fields s2) (unat (pkt_bytes f)) (repeat_data_bytes s2) = Ret d" "s3 = emit d s2"
    "unat (addr (log_rw f) ! 0 AND 7) + unat (pkt_bytes f) \<le> 8"
    using compose_data_chunks [OF data add, unfolded f2, OF n same(1) rep(2)] same(2) by metis
  have len: "length d = 8 * repeat_data_bytes s2"
    using compose_chunks_length [OF d(1)] f2 same(2) d(3) by simp
  note frame = composed_frame [OF ld _ _ crc, of d]
  show ?thesis
  proof (rule that [of d])
    show "frame_ok (hdr_bytes f @ l @ d)" and b: "b = framed (out_addr_size s2) (hdr_bytes f @ l @ d)"
      "bytes_at b (length (hdr_bytes f)) l"
      using frame d(2) len rep(1) by simp_all
    show "in_fields s3 = in_fields s2"
      by (simp add: d(2))
    fix s :: parse_t
    assume s: "pkt_index s = length (hdr_bytes f) + length l" "276 \<le> length (pkt_data (out_fields s))" "get_data s"
      "pkt_bytes (out_fields s) = pkt_bytes f" "pkt_type (out_fields s) \<notin> {pkt_dstm, pkt_msg}"
      "addr (log_rw (out_fields s)) = addr (log_rw f)" "parse_repeat s = repeat_data_bytes s2"
    have at: "bytes_at b (pkt_index s) d"
      using frame(5) d(2) len rep(1) s(1) by simp
    have "compose_chunks (in_fields s2) (unat (pkt_bytes (in_fields s2))) (parse_repeat s) = Ret d"
      using d(1) f2 s(7) by simp
    then show "\<exists>buf. take (repeat_data_bytes s2 * unat (pkt_bytes f)) buf = take (repeat_data_bytes s2 * unat (pkt_bytes f)) (pkt_data f) \<and>
        parse_data b s = Ret ((out_fields s)\<lparr>pkt_data := buf\<rparr>)"
      using parse_data_small [OF s(3) _ s(5), of "in_fields s2" d b] n(2) s f2 same(2) d(3) at rep(1) by metis
  qed
qed

text \<open>A packet without data.\<close>

lemma data_back_none:
  assumes ld: "log_done f l s2" and none: "\<not> add_data s2" and data: "compose_data s2 = Ret s3" and crc: "compose_crc s3 = Ret (b, f')"
  shows "frame_ok (hdr_bytes f @ l)" and "b = framed (out_addr_size s2) (hdr_bytes f @ l)"
    and "bytes_at b (length (hdr_bytes f)) l" and "s3 = s2"
  using composed_frame [OF ld _ _ crc, of "[]"] compose_data_none [OF data] none by simp_all

section \<open>Each packet type\<close>

lemma read_roundtrip:
  assumes hdr: "hdr_ok f" and ft: "DAR_util_get_ftype (pkt_type f) = 2"
    and rw: "addr_ok (rw_addr_size (log_rw f)) (addr (log_rw f))" "fits 8 (tid (log_rw f))"
    and c: "DAR_pkt_fields_to_bytes f = Ret (b, f')"
  shows "\<exists>g' b'. DAR_pkt_bytes_to_fields b g = Ret (g', b') \<and> hdr_agree f g' \<and> addr_agree f g' \<and>
     tid (log_rw g') = tid (log_rw f) \<and> pkt_bytes g' = pkt_bytes f"
proof -
  have "pkt_type f \<noteq> pkt_raw"
    using ft by auto
  from compose_layers [OF hdr this c] obtain s2 s3 where log: "compose_log (hdr_state f) = Ret s2"
    and data: "compose_data s2 = Ret s3" and crc: "compose_crc s3 = Ret (b, f')" and sz: "\<not> addr_size_bad f" .
  obtain l where l: "s2 = (emit l (hdr_state f))\<lparr>add_data := False, out_addr_size := rw_addr_size (log_rw f)\<rparr>"
    "even (length l)" "2 \<le> length l" "length l \<le> 10"
    and undo: "\<And>b g i. i \<le> 6 \<Longrightarrow> bytes_at b i l \<Longrightarrow> pkt_addr_size b = rw_addr_size (log_rw f) \<Longrightarrow>
      parse_log b 2 g i = Ret (parsed (rw_parsed f (pkt_bytes f) g) (i + length l) False)"
    using nread_back [OF ft rw log sz] by metis
  have ld: "log_done f l s2"
    using l by (simp add: log_done_def)
  have "\<not> add_data s2" "out_addr_size s2 = rw_addr_size (log_rw f)"
    by (simp_all add: l(1))
  note frame = data_back_none [OF ld this(1) data crc, unfolded this(2)]
  have "DAR_pkt_bytes_to_fields b g = Ret (rw_parsed f (pkt_bytes f) (after_hdr f g), b)"
    using parse_layers [OF hdr frame(1) refl l(3), of "rw_addr_size (log_rw f)" g] undo [OF _ frame(3)] frame(2) length_hdr [of f]
    by (simp add: ft parse_data_def parsed_def)
  then show ?thesis
    by (auto simp: rw_parsed_def after_hdr_def hdr_agree_def addr_agree_def)
qed


text \<open>
  A packet is taken as visible when its checksum is not mistaken for padding; \<open>pkt_chars\<close> of a frame determine the bytes
  before the checksums, so that the condition is on the composed packet.
\<close>

definition crc_nonzero :: "DAR_pkt_bytes_t \<Rightarrow> bool" where
  "crc_nonzero b \<longleftrightarrow> pkt_padded b \<or> pkt_chars b ! (unat (num_chars b) - 1) \<noteq> 0 \<or> pkt_chars b ! (unat (num_chars b) - 2) \<noteq> 0"

lemma crc_nonzero_visible:
  assumes "frame_ok p" and "crc_nonzero (framed sz p)"
  shows "crc_visible p"
proof (cases "frame_padded p")
  case True
  then show ?thesis
    by (simp add: crc_visible_def)
next
  case False
  have "even (length p)"
    using assms(1) by (simp add: frame_ok_def)
  then have "length p \<noteq> 80"
    using False by (auto simp: frame_padded_def length_pkt_frame)
  moreover have "num_chars (framed sz p) \<noteq> 84"
    using padded_84 [OF \<open>even (length p)\<close>] calculation frame_ok_bound(2) [OF assms(1), of sz] by auto
  ultimately show ?thesis
    using pad_found_framed [OF assms(1), of sz] assms(2) False by (auto simp: pad_found_def crc_nonzero_def crc_visible_def)
qed

lemma write_roundtrip:
  assumes hdr: "hdr_ok f" and ft: "DAR_util_get_ftype (pkt_type f) = 5"
    and rw: "addr_ok (rw_addr_size (log_rw f)) (addr (log_rw f))" "fits 8 (tid (log_rw f))"
    and n: "pkt_bytes f \<noteq> 0" "pkt_bytes f \<le> 256" and buf: "276 \<le> length (pkt_data g)"
    and c: "DAR_pkt_fields_to_bytes f = Ret (b, f')" and vis: "crc_nonzero b"
  shows "\<exists>g' b'. DAR_pkt_bytes_to_fields b g = Ret (g', b') \<and> hdr_agree f g' \<and> addr_agree f g' \<and>
     tid (log_rw g') = tid (log_rw f) \<and> data_agree (if pkt_type f = pkt_nw_cmp_swap then 2 else 1) f g'"
proof -
  have "pkt_type f \<noteq> pkt_raw"
    using ft by auto
  from compose_layers [OF hdr this c] obtain s2 s3 where log: "compose_log (hdr_state f) = Ret s2"
    and data: "compose_data s2 = Ret s3" and crc: "compose_crc s3 = Ret (b, f')" and sz: "\<not> addr_size_bad f" .
  from nwrite_back [OF ft rw log sz n(2)] obtain l m rep where
    l: "s2 = (emit l (hdr_state f))\<lparr>data_bytes := pkt_bytes f, repeat_data_bytes := rep, out_addr_size := rw_addr_size (log_rw f)\<rparr>"
    "even (length l)" "2 \<le> length l" "length l \<le> 10" and rep_def: "rep = (if pkt_type f = pkt_nw_cmp_swap then 2 else 1)"
    and m: "pkt_bytes f \<le> m" "pkt_bytes f \<le> 16 \<Longrightarrow> m = pkt_bytes f" "m \<le> 256"
    and undo: "\<And>b g i. i \<le> 6 \<Longrightarrow> bytes_at b i l \<Longrightarrow> pkt_addr_size b = rw_addr_size (log_rw f) \<Longrightarrow>
      parse_log b 5 g i = Ret ((parsed (rw_parsed f m g) (i + length l) True)\<lparr>parse_repeat := rep\<rparr>)" by blast
  have ld: "log_done f l s2" and s2: "add_data s2" "out_addr_size s2 = rw_addr_size (log_rw f)" "repeat_data_bytes s2 = rep"
    "data_bytes s2 = pkt_bytes f" "in_fields s2 = f"
    using l by (simp_all add: log_done_def)
  define s where "s = (parsed (rw_parsed f m (after_hdr f g)) (length (hdr_bytes f) + length l) True)\<lparr>parse_repeat := rep\<rparr>"
  have s: "pkt_index s = length (hdr_bytes f) + length l" "pkt_data (out_fields s) = pkt_data g" "get_data s" "\<not> get_exact_data s"
    "pkt_bytes (out_fields s) = m" "pkt_type (out_fields s) = pkt_type f" "addr (log_rw (out_fields s)) = addr (log_rw f)"
    "parse_repeat s = rep"
    by (simp_all add: s_def parsed_def rw_parsed_def after_hdr_def)
  have not_ds: "pkt_type f \<noteq> pkt_dstm" "pkt_type f \<noteq> pkt_msg"
    using ft by auto
  have parse: "DAR_pkt_bytes_to_fields b g = and_then (parse_data b s) (\<lambda>f'. Ret (f', b))"
    if "frame_ok (hdr_bytes f @ l @ d)" "b = framed (rw_addr_size (log_rw f)) (hdr_bytes f @ l @ d)" "bytes_at b (length (hdr_bytes f)) l" for d
    using parse_layers [OF hdr that(1) refl, of "rw_addr_size (log_rw f)" g] undo [OF _ that(3)] that(2) length_hdr [of f] l(3)
    by (simp add: ft s_def)
  have agree: "hdr_agree f (out_fields s)" "addr_agree f (out_fields s)" "tid (log_rw (out_fields s)) = tid (log_rw f)"
    by (simp_all add: s_def parsed_def rw_parsed_def after_hdr_def hdr_agree_def addr_agree_def)
  show ?thesis
  proof (cases "pkt_bytes f \<le> 8")
    case True
    have swap: "pkt_bytes f = 8 \<Longrightarrow> rep = 1"
      using log ft by (auto simp: rep_def compose_log_def compose_nwrite_def Let_def split: if_splits)
    from True have "pkt_bytes f \<le> 16"
      by (simp add: word_le_nat_alt)
    then have mn: "m = pkt_bytes f"
      by (rule m(2))
    have small: "repeat_data_bytes s2 \<le> 2" "pkt_bytes f = 8 \<Longrightarrow> repeat_data_bytes s2 = 1" "addr (log_rw (in_fields s2)) = addr (log_rw f)"
      using swap by (simp_all add: s2 rep_def)
    from data_back_small [OF ld n(1) True s2(1) data crc s2(4) small(3,1,2), unfolded s2(2,3)] obtain d where
      d: "frame_ok (hdr_bytes f @ l @ d)" "b = framed (rw_addr_size (log_rw f)) (hdr_bytes f @ l @ d)"
      "bytes_at b (length (hdr_bytes f)) l"
      and parsed: "\<And>s. pkt_index s = length (hdr_bytes f) + length l \<Longrightarrow> 276 \<le> length (pkt_data (out_fields s)) \<Longrightarrow> get_data s \<Longrightarrow>
        pkt_bytes (out_fields s) = pkt_bytes f \<Longrightarrow> pkt_type (out_fields s) \<notin> {pkt_dstm, pkt_msg} \<Longrightarrow>
        addr (log_rw (out_fields s)) = addr (log_rw f) \<Longrightarrow> parse_repeat s = rep \<Longrightarrow>
        \<exists>buf. take (rep * unat (pkt_bytes f)) buf = take (rep * unat (pkt_bytes f)) (pkt_data f) \<and>
          parse_data b s = Ret ((out_fields s)\<lparr>pkt_data := buf\<rparr>)" by blast
    from parsed [OF s(1) _ s(3) _ _ s(7,8)]
    have "\<exists>buf. take (rep * unat (pkt_bytes f)) buf = take (rep * unat (pkt_bytes f)) (pkt_data f) \<and>
        parse_data b s = Ret ((out_fields s)\<lparr>pkt_data := buf\<rparr>)"
      using buf mn not_ds by (simp add: s)
    then obtain buf where "take (rep * unat (pkt_bytes f)) buf = take (rep * unat (pkt_bytes f)) (pkt_data f)"
      "DAR_pkt_bytes_to_fields b g = Ret ((out_fields s)\<lparr>pkt_data := buf\<rparr>, b)"
      using parse [OF d] by auto
    then show ?thesis
      using agree s(5) mn by (auto simp: hdr_agree_def addr_agree_def data_agree_def rep_def)
  next
    case False
    then have n8: "8 \<le> pkt_bytes f" "8 < m"
      using m(1) by (simp_all add: word_le_nat_alt word_less_nat_alt)
    from data_back_large [OF ld n8(1) n(2) s2(1) data crc, unfolded s2(2)] obtain d where
      d: "frame_ok (hdr_bytes f @ l @ d)" "b = framed (rw_addr_size (log_rw f)) (hdr_bytes f @ l @ d)"
      "bytes_at b (length (hdr_bytes f)) l"
      and parsed: "\<And>s. crc_visible (hdr_bytes f @ l @ d) \<Longrightarrow> pkt_index s = length (hdr_bytes f) + length l \<Longrightarrow>
      276 \<le> length (pkt_data (out_fields s)) \<Longrightarrow> get_data s \<Longrightarrow> 8 < pkt_bytes (out_fields s) \<Longrightarrow>
      pkt_type (out_fields s) \<noteq> pkt_dstm \<Longrightarrow> pkt_bytes f \<le> pkt_bytes (out_fields s) \<Longrightarrow>
      (get_exact_data s \<Longrightarrow> pkt_bytes f = pkt_bytes (out_fields s)) \<Longrightarrow>
      \<exists>buf pad. take (unat (pkt_bytes f)) buf = take (unat (pkt_bytes f)) (pkt_data f) \<and>
        parse_data b s = Ret ((out_fields s)\<lparr>pkt_data := buf, pad_bytes := pad, pkt_bytes := pkt_bytes f\<rparr>)" by blast
    from parsed [OF _ s(1) _ s(3)]
    have "crc_visible (hdr_bytes f @ l @ d) \<Longrightarrow> \<exists>buf pad. take (unat (pkt_bytes f)) buf = take (unat (pkt_bytes f)) (pkt_data f) \<and>
        parse_data b s = Ret ((out_fields s)\<lparr>pkt_data := buf, pad_bytes := pad, pkt_bytes := pkt_bytes f\<rparr>)"
      using buf n8 m(1) not_ds s(4) by (simp add: s)
    moreover have "crc_visible (hdr_bytes f @ l @ d)"
      using crc_nonzero_visible [OF d(1)] vis d(2) by simp
    ultimately obtain buf pad where "take (unat (pkt_bytes f)) buf = take (unat (pkt_bytes f)) (pkt_data f)"
      "DAR_pkt_bytes_to_fields b g = Ret ((out_fields s)\<lparr>pkt_data := buf, pad_bytes := pad, pkt_bytes := pkt_bytes f\<rparr>, b)"
      using parse [OF d] by auto
    moreover have "pkt_type f \<noteq> pkt_nw_cmp_swap"
    proof
      assume "pkt_type f = pkt_nw_cmp_swap"
      then have "pkt_bytes f \<le> 4"
        using log ft by (auto simp: compose_log_def compose_nwrite_def Let_def split: if_splits)
      with False show False
        by (simp add: word_le_nat_alt)
    qed
    ultimately show ?thesis
      using agree by (auto simp: hdr_agree_def addr_agree_def data_agree_def)
  qed
qed


text \<open>
  The same argument for the other packet types, as two rules: a packet without data, and one with whole double words that
  the parser reads to the end. It remains to show what the logical header composes to and parses to.
\<close>

lemma roundtrip_none:
  assumes hdr: "hdr_ok f" and pt: "pkt_type f \<noteq> pkt_raw" and c: "DAR_pkt_fields_to_bytes f = Ret (b, f')"
    and log: "compose_log (hdr_state f) = Ret s2" and ld: "log_done f l s2" and none: "\<not> add_data s2"
    and undo: "\<And>b. bytes_at b (length (hdr_bytes f)) l \<Longrightarrow> pkt_addr_size b = out_addr_size s2 \<Longrightarrow>
      parse_log b (DAR_util_get_ftype (pkt_type f) AND 0xF) (after_hdr f g) (length (hdr_bytes f)) = Ret s"
    and skip: "\<not> get_data s"
  shows "\<exists>b'. DAR_pkt_bytes_to_fields b g = Ret (out_fields s, b')"
proof -
  from compose_layers [OF hdr pt c] obtain s2' s3 where "compose_log (hdr_state f) = Ret s2'" "compose_data s2' = Ret s3"
    "compose_crc s3 = Ret (b, f')" "\<not> addr_size_bad f" .
  then have "compose_data s2 = Ret s3" "compose_crc s3 = Ret (b, f')"
    using log by simp_all
  note frame = data_back_none [OF ld none this]
  have "2 \<le> length l"
    using ld by (simp add: log_done_def)
  then show ?thesis
    using parse_layers [OF hdr frame(1) refl, of "out_addr_size s2" g] undo [OF frame(3)] frame(2) skip
    by (auto simp: parse_data_def)
qed

lemma roundtrip_large:
  assumes hdr: "hdr_ok f" and pt: "pkt_type f \<noteq> pkt_raw" and c: "DAR_pkt_fields_to_bytes f = Ret (b, f')"
    and log: "compose_log (hdr_state f) = Ret s2" and ld: "log_done f l s2" and add: "add_data s2"
    and undo: "\<And>b. bytes_at b (length (hdr_bytes f)) l \<Longrightarrow> pkt_addr_size b = out_addr_size s2 \<Longrightarrow>
      parse_log b (DAR_util_get_ftype (pkt_type f) AND 0xF) (after_hdr f g) (length (hdr_bytes f)) = Ret s"
    and s: "pkt_index s = length (hdr_bytes f) + length l" "276 \<le> length (pkt_data (out_fields s))" "get_data s"
      "8 < pkt_bytes (out_fields s)" "pkt_type (out_fields s) \<noteq> pkt_dstm" "pkt_bytes f \<le> pkt_bytes (out_fields s)"
      "get_exact_data s \<Longrightarrow> pkt_bytes f = pkt_bytes (out_fields s)"
    and n: "8 \<le> pkt_bytes f" "pkt_bytes f \<le> 256" and vis: "crc_nonzero b"
  shows "\<exists>buf pad b'. take (unat (pkt_bytes f)) buf = take (unat (pkt_bytes f)) (pkt_data f) \<and>
     DAR_pkt_bytes_to_fields b g = Ret ((out_fields s)\<lparr>pkt_data := buf, pad_bytes := pad, pkt_bytes := pkt_bytes f\<rparr>, b')"
proof -
  from compose_layers [OF hdr pt c] obtain s2' s3 where "compose_log (hdr_state f) = Ret s2'" "compose_data s2' = Ret s3"
    "compose_crc s3 = Ret (b, f')" "\<not> addr_size_bad f" .
  then have "compose_data s2 = Ret s3" "compose_crc s3 = Ret (b, f')"
    using log by simp_all
  from data_back_large [OF ld n add this] obtain d where
    d: "frame_ok (hdr_bytes f @ l @ d)" "b = framed (out_addr_size s2) (hdr_bytes f @ l @ d)" "bytes_at b (length (hdr_bytes f)) l"
    and parsed: "\<And>s. crc_visible (hdr_bytes f @ l @ d) \<Longrightarrow> pkt_index s = length (hdr_bytes f) + length l \<Longrightarrow>
      276 \<le> length (pkt_data (out_fields s)) \<Longrightarrow> get_data s \<Longrightarrow> 8 < pkt_bytes (out_fields s) \<Longrightarrow>
      pkt_type (out_fields s) \<noteq> pkt_dstm \<Longrightarrow> pkt_bytes f \<le> pkt_bytes (out_fields s) \<Longrightarrow>
      (get_exact_data s \<Longrightarrow> pkt_bytes f = pkt_bytes (out_fields s)) \<Longrightarrow>
      \<exists>buf pad. take (unat (pkt_bytes f)) buf = take (unat (pkt_bytes f)) (pkt_data f) \<and>
        parse_data b s = Ret ((out_fields s)\<lparr>pkt_data := buf, pad_bytes := pad, pkt_bytes := pkt_bytes f\<rparr>)" by blast
  have "crc_visible (hdr_bytes f @ l @ d)"
    using crc_nonzero_visible [OF d(1)] vis d(2) by simp
  from parsed [OF this s] obtain buf pad where data: "take (unat (pkt_bytes f)) buf = take (unat (pkt_bytes f)) (pkt_data f)"
    "parse_data b s = Ret ((out_fields s)\<lparr>pkt_data := buf, pad_bytes := pad, pkt_bytes := pkt_bytes f\<rparr>)" by blast
  have l: "2 \<le> length (l @ d)"
    using ld by (simp add: log_done_def)
  have "pkt_addr_size b = out_addr_size s2"
    by (simp add: d(2))
  from parse_layers [OF hdr d(1) refl l, of "out_addr_size s2" g] undo [OF d(3) this] data(2)
  have "\<exists>b'. DAR_pkt_bytes_to_fields b g = Ret ((out_fields s)\<lparr>pkt_data := buf, pad_bytes := pad, pkt_bytes := pkt_bytes f\<rparr>, b')"
    unfolding d(2) [symmetric] by simp
  with data(1) show ?thesis
    by blast
qed

lemma log_done_emit:
  assumes "out_data s2 = hdr_bytes f @ l" and "even (length l)" and "2 \<le> length l" and "length l \<le> 10"
    and "pkt_bytes (in_fields s2) = pkt_bytes f" and "pkt_data (in_fields s2) = pkt_data f"
  shows "log_done f l s2"
  using assms by (simp add: log_done_def)

lemma swrite_roundtrip:
  assumes hdr: "hdr_ok f" and pt: "pkt_type f = pkt_sw" and ok: "addr_ok (rw_addr_size (log_rw f)) (addr (log_rw f))"
    and a0: "addr (log_rw f) ! 0 AND 7 = 0"
    and n: "8 \<le> pkt_bytes f" "pkt_bytes f \<le> 256" and buf: "276 \<le> length (pkt_data g)"
    and c: "DAR_pkt_fields_to_bytes f = Ret (b, f')" and vis: "crc_nonzero b"
  shows "\<exists>g' b'. DAR_pkt_bytes_to_fields b g = Ret (g', b') \<and> hdr_agree f g' \<and> addr_agree f g' \<and> data_agree 1 f g'"
proof -
  have raw: "pkt_type f \<noteq> pkt_raw"
    using pt by simp
  from compose_layers [OF hdr raw c] obtain s2 s3 where log: "compose_log (hdr_state f) = Ret s2" and sz: "\<not> addr_size_bad f" .
  have ft: "DAR_util_get_ftype (pkt_type f) = 6"
    by (simp add: pt)
  have "add_addr 0 (hdr_state f) = Ret s2"
    using log ft by (simp add: compose_log_def compose_swrite_def)
  from add_addr_Ret [OF this] obtain bs where bs: "DAR_add_rw_addr (rw_addr_size (log_rw f)) (addr (log_rw f)) 0 = Ret bs"
    and s2: "s2 = (emit bs (hdr_state f))\<lparr>out_addr_size := rw_addr_size (log_rw f)\<rparr>"
    by auto
  have len: "length bs \<in> {4, 6, 8}"
    using add_rw_addr_length(1) [OF bs] sz ft by (simp add: addr_size_bad_def)
  have three: "addr (log_rw f) = [addr (log_rw f) ! 0, addr (log_rw f) ! 1, addr (log_rw f) ! 2]"
    using ok by (intro three) (simp add: addr_ok_def)
  have a: "addr (log_rw f) ! 0 AND push_bit 3 (mask 29) = addr (log_rw f) ! 0"
    using join_addr [of "addr (log_rw f) ! 0"] a0 by simp
  define g1 where "g1 = (after_hdr f g)\<lparr>pkt_type := pkt_sw,
    log_rw := (log_rw g)\<lparr>rw_addr_size := rw_addr_size (log_rw f), addr := addr (log_rw f)\<rparr>, pkt_bytes := 256\<rparr>"
  have undo: "parse_log b 6 (after_hdr f g) (length (hdr_bytes f)) = Ret (parsed g1 (length (hdr_bytes f) + length bs) True)"
    if "bytes_at b (length (hdr_bytes f)) bs" "pkt_addr_size b = rw_addr_size (log_rw f)" for b
    using rw_addr_back(1) [OF ok _ bs that(2,1)] that(2) three
    by (simp add: parse_log_def parse_swrite_def DAR_get_rw_addr_def a g1_def after_hdr_def)
  have "log_done f bs s2"
    using len by (intro log_done_emit) (auto simp: s2)
  from roundtrip_large [OF hdr raw c log this, of g "parsed g1 (length (hdr_bytes f) + length bs) True"]
  obtain buf' pad b' where "take (unat (pkt_bytes f)) buf' = take (unat (pkt_bytes f)) (pkt_data f)"
    "DAR_pkt_bytes_to_fields b g = Ret (g1\<lparr>pkt_data := buf', pad_bytes := pad, pkt_bytes := pkt_bytes f\<rparr>, b')"
    using undo n buf vis by (auto simp: s2 ft parsed_def g1_def after_hdr_def)
  then show ?thesis
    by (auto simp: g1_def after_hdr_def hdr_agree_def addr_agree_def data_agree_def pt)
qed

end
