(* ===== verification/Pkt_Types.thy ===== *)
theory Pkt_Types
  imports Pkt_Roundtrip
begin

unbundle bit_operations_syntax

text \<open>
  The remaining packet types, and the properties of the packet format as a whole.
\<close>

section \<open>Each packet type\<close>

text \<open>Single bits of a byte.\<close>

lemma flag_bits:
  "(x AND 0x80 \<noteq> 0) = bit (x :: u32) 7" "(x AND 0x40 \<noteq> 0) = bit x 6" "(x AND 0x04 \<noteq> 0) = bit x 2" "(x AND 0x02 \<noteq> 0) = bit x 1"
  "(x AND 0x01 \<noteq> 0) = bit x 0"
proof -
  have "(x AND 2 ^ n \<noteq> 0) = bit x n" for n
    by (simp add: and_exp_eq_0_iff_not_bit)
  from this [of 7] this [of 6] this [of 2] this [of 1] this [of 0]
  show "(x AND 0x80 \<noteq> 0) = bit x 7" "(x AND 0x40 \<noteq> 0) = bit x 6" "(x AND 0x04 \<noteq> 0) = bit x 2" "(x AND 0x02 \<noteq> 0) = bit x 1"
    "(x AND 0x01 \<noteq> 0) = bit x 0"
    by simp_all
qed

lemma fc_bytes:
  fixes fam flow :: u32
  assumes "fits 3 fam" and "fits 7 flow"
    and b0: "b0 = (ucast ((if x then 0x80 else 0 :: u32) OR push_bit 4 (fam AND 7)) :: u8)"
    and b1: "b1 = (ucast (push_bit 1 (flow AND 0x7F) OR (if e then 1 else 0)) :: u8)"
  shows "((ucast b0 :: u32) AND 0x80 \<noteq> 0) = x" and "drop_bit 4 ((ucast b0 :: u32) AND 0x70) = fam"
    and "drop_bit 1 ((ucast b1 :: u32) AND 0xF7) = flow AND 0x7B" and "((ucast b1 :: u32) AND 1 \<noteq> 0) = e"
proof -
  note bits = assms(1,2) [THEN fits_bit]
  show "((ucast b0 :: u32) AND 0x80 \<noteq> 0) = x" "((ucast b1 :: u32) AND 1 \<noteq> 0) = e"
    unfolding b0 b1 flag_bits unfolding u32_masks by (simp_all only: bit_simps o_apply if_distrib [of "\<lambda>w. bit w _"]) auto
  show "drop_bit 4 ((ucast b0 :: u32) AND 0x70) = fam"
    unfolding b0 u32_masks by (rule bit_word_eqI; simp only: bit_simps o_apply if_distrib [of "\<lambda>w. bit w _"]; auto dest: bits)
  have masks: "(0xF7 :: u32) = mask 3 OR push_bit 4 (mask 4)" "(0x7B :: u32) = mask 2 OR push_bit 3 (mask 4)"
    by (simp_all add: mask_eq_exp_minus_1)
  show "drop_bit 1 ((ucast b1 :: u32) AND 0xF7) = flow AND 0x7B"
    unfolding b1 masks u32_masks
    by (rule bit_word_eqI; simp only: bit_simps o_apply if_distrib [of "\<lambda>w. bit w _"]; auto dest: bits)
qed

lemma fc_roundtrip:
  assumes hdr: "hdr_ok f" and pt: "pkt_type f = pkt_fc"
    and ok: "fits 3 (fc_fam (log_fc f))" "fits 7 (fc_flow (log_fc f))"
    and c: "DAR_pkt_fields_to_bytes f = Ret (b, f')"
  shows "\<exists>g' b'. DAR_pkt_bytes_to_fields b g = Ret (g', b') \<and> hdr_agree f g' \<and>
     log_fc g' = (log_fc f)\<lparr>fc_flow := fc_flow (log_fc f) AND 0x7B, fc_destID := destID (trans f), fc_srcID := srcID (trans f)\<rparr>"
proof -
  have raw: "pkt_type f \<noteq> pkt_raw" and ft: "DAR_util_get_ftype (pkt_type f) = 7"
    using pt by simp_all
  define fc where "fc = log_fc f"
  define l :: "u8 list" where "l = [ucast ((if fc_xon fc then 0x80 else 0 :: u32) OR push_bit 4 (fc_fam fc AND 7)),
     ucast (push_bit 1 (fc_flow fc AND 0x7F) OR (if fc_soc_is_ep fc then 1 else 0))]"
  define s2 where "s2 = emit l ((hdr_state f)\<lparr>add_data := False\<rparr>)"
  have log: "compose_log (hdr_state f) = Ret s2"
    by (simp add: compose_log_def ft compose_fc_def s2_def l_def fc_def Let_def)
  define g1 where "g1 = (after_hdr f g)\<lparr>pkt_type := pkt_fc, log_fc := \<lparr>fc_xon = fc_xon fc, fc_flow = fc_flow fc AND 0x7B,
    fc_destID = destID (trans f), fc_srcID = srcID (trans f), fc_soc_is_ep = fc_soc_is_ep fc, fc_fam = fc_fam fc\<rparr>\<rparr>"
  have l: "l ! 0 = ucast ((if fc_xon fc then 0x80 else 0 :: u32) OR push_bit 4 (fc_fam fc AND 7))"
    "l ! 1 = ucast (push_bit 1 (fc_flow fc AND 0x7F) OR (if fc_soc_is_ep fc then 1 else 0))"
    unfolding l_def by (simp_all only: nth_Cons_0 One_nat_def nth_Cons_Suc)
  note bytes = fc_bytes [OF ok [folded fc_def]]
  have undo: "parse_log b 7 (after_hdr f g) (length (hdr_bytes f)) = Ret (parsed g1 (length (hdr_bytes f) + 2) False)"
    if "bytes_at b (length (hdr_bytes f)) l" for b
  proof -
    have c: "char_at b (length (hdr_bytes f)) = ucast (l ! 0)" "char_at b (length (hdr_bytes f) + 1) = ucast (l ! 1)"
      using that by (auto simp: bytes_at_Cons l_def char_at_def)
    show ?thesis
      unfolding parse_log_def parse_fc_def c bytes [OF l(1,2)] by (simp add: g1_def after_hdr_def)
  qed
  have "log_done f l s2"
    by (intro log_done_emit) (simp_all add: s2_def l_def)
  from roundtrip_none [OF hdr raw c log this, of g "parsed g1 (length (hdr_bytes f) + 2) False"] undo
  have "\<exists>b'. DAR_pkt_bytes_to_fields b g = Ret (g1, b')"
    by (simp add: s2_def ft parsed_def)
  then show ?thesis
    by (cases "log_fc f") (auto simp: g1_def after_hdr_def hdr_agree_def pt fc_def)
qed

lemma take_two: "2 \<le> length xs \<Longrightarrow> take 2 xs = [xs ! 0, xs ! 1]"
  by (cases xs; cases "tl xs") auto

lemma db_roundtrip:
  assumes hdr: "hdr_ok f" and pt: "pkt_type f = pkt_db" and tid: "fits 8 (tid (log_rw f))" and buf: "276 \<le> length (pkt_data g)"
    and c: "DAR_pkt_fields_to_bytes f = Ret (b, f')"
  shows "\<exists>g' b'. DAR_pkt_bytes_to_fields b g = Ret (g', b') \<and> hdr_agree f g' \<and> tid (log_rw g') = tid (log_rw f) \<and> data_agree 1 f g'"
proof -
  have raw: "pkt_type f \<noteq> pkt_raw" and ft: "DAR_util_get_ftype (pkt_type f) = 10"
    using pt by simp_all
  from compose_layers [OF hdr raw c] obtain s2 s3 where log: "compose_log (hdr_state f) = Ret s2" .
  define d where "d = take 2 (pkt_data f)"
  define l where "l = [0, ucast (tid (log_rw f))] @ d"
  have n: "pkt_bytes f = 2" and s2: "s2 = emit l ((hdr_state f)\<lparr>add_data := False\<rparr>)" and two: "2 \<le> length (pkt_data f)"
    using log by (auto simp: compose_log_def ft compose_db_def Let_def and_then_Ret read_data_def l_def d_def split: if_splits)
  have d: "length d = 2"
    using two by (simp add: d_def)
  define g1 where "g1 = set_tid (tid (log_rw f)) ((after_hdr f g)\<lparr>pkt_type := pkt_db, pkt_bytes := 2, pkt_data := (pkt_data g)[0 := d ! 0, 1 := d ! 1]\<rparr>)"
  have undo: "parse_log b 10 (after_hdr f g) (length (hdr_bytes f)) = Ret (parsed g1 (length (hdr_bytes f) + 4) False)"
    if "bytes_at b (length (hdr_bytes f)) l" for b
  proof -
    have "char_at b (length (hdr_bytes f) + 1) = tid (log_rw f)" "bytes_at b (length (hdr_bytes f) + 2) d"
      using that byte_tid [OF tid] by (auto simp: bytes_at_Cons l_def char_at_def bytes_at_append add.assoc)
    moreover from this(2) have "pkt_chars b ! (length (hdr_bytes f) + 2) = d ! 0" "pkt_chars b ! (length (hdr_bytes f) + 3) = d ! 1"
      using d by (auto simp: bytes_at_def numeral_3_eq_3 dest: spec [of _ 0] spec [of _ 1])
    ultimately show ?thesis
      using buf by (simp add: parse_log_def parse_db_def g1_def after_hdr_def)
  qed
  have "log_done f l s2"
    by (intro log_done_emit) (simp_all add: s2 l_def d)
  from roundtrip_none [OF hdr raw c log this, of g "parsed g1 (length (hdr_bytes f) + 4) False"] undo
  have "\<exists>b'. DAR_pkt_bytes_to_fields b g = Ret (g1, b')"
    by (simp add: s2 ft parsed_def)
  moreover have "take 2 ((pkt_data g)[0 := d ! 0, 1 := d ! 1]) = take 2 (pkt_data f)"
    using d take_two [of "(pkt_data g)[0 := d ! 0, 1 := d ! 1]"] take_two [of "pkt_data f"] two buf
    by (cases "pkt_data g"; cases "tl (pkt_data g)") (auto simp: d_def)
  ultimately show ?thesis
    by (auto simp: g1_def after_hdr_def hdr_agree_def data_agree_def set_tid_def pt n)
qed


text \<open>Maintenance packets: the parser reads type, size code, target, hop count and address for every kind alike.\<close>

definition mtc_parsed :: "DAR_pkt_fields_t \<Rightarrow> u32 list \<Rightarrow> DAR_pkt_fields_t \<Rightarrow> DAR_pkt_fields_t" where
  "mtc_parsed f a g = g\<lparr>pkt_type := pkt_type f, trans := (trans g)\<lparr>hopcount := hopcount (trans f)\<rparr>,
     log_rw := (log_rw g)\<lparr>tid := tid (log_rw f), rw_addr_size := rio_addr_21, addr := a\<rparr>\<rparr>"

lemma mtc_parse_back:
  assumes ft: "DAR_util_get_ftype (pkt_type f) = 8" and ok: "addr_ok rio_addr_21 a" and w: "w = 0 \<or> w = 1"
    and add: "DAR_add_rw_addr rio_addr_21 a w = Ret bs" and tid: "fits 8 (tid (log_rw f))"
    and at: "bytes_at b i ([ucast (push_bit 4 (mtc_trans_type (pkt_type f)) + (rc AND 0xF)), ucast (tid (log_rw f)), hopcount (trans f)] @ bs)"
  shows "parse_mtc b g i =
     (let f1 = mtc_parsed f [a ! 0 AND push_bit 3 (mask 29), a ! 1, a ! 2] g; typ = pkt_type f;
          (rrc, rn, ra) = DAR_util_compute_rd_bytes_n_align (rc AND 0xF) w;
          (wrc, wn, wa) = DAR_util_compute_wr_bytes_n_align (rc AND 0xF) w
      in if typ = pkt_mr then
           if rrc = SIZE_RC_FAIL then Err DAR_UTIL_INVALID_RDSIZE
           else Ret (parsed (or_addr0 ra (f1\<lparr>pkt_bytes := rn\<rparr>)) (i + 6) False)
         else if typ = pkt_pw \<or> typ = pkt_mw then
           if wrc = SIZE_RC_FAIL then Err DAR_UTIL_INVALID_RDSIZE
           else Ret (parsed (or_addr0 wa (f1\<lparr>pkt_bytes := wn\<rparr>)) (i + 6) True)
         else if typ = pkt_mwr then Ret (parsed (or_addr0 0 (f1\<lparr>pkt_bytes := 0\<rparr>)) (i + 6) False)
         else Ret (parsed (or_addr0 0 (f1\<lparr>pkt_bytes := 64\<rparr>)) (i + 6) True))"
proof -
  define t where "t = mtc_trans_type (pkt_type f)"
  have t: "t \<le> 4" and this_type: "[pkt_mr, pkt_mw, pkt_mrr, pkt_mwr, pkt_pw] ! unat t = pkt_type f"
    using ft by (cases "pkt_type f"; simp add: t_def mtc_trans_type_def)+
  then have t4: "fits 4 t"
    by (simp add: fits_def word_le_nat_alt)
  have c: "char_at b i = ucast (ucast (push_bit 4 t + (rc AND 0xF)) :: u8)" "char_at b (i + 1) = tid (log_rw f)"
    "pkt_chars b ! (i + 2) = hopcount (trans f)" and at3: "bytes_at (mtc_bytes b) (i + 3) bs"
    using at byte_tid [OF tid] by (auto simp: bytes_at_Cons bytes_at_append char_at_def t_def numeral_2_eq_2 numeral_3_eq_3)
  have size: "pkt_addr_size (mtc_bytes b) = rio_addr_21"
    by (simp add: mtc_bytes_def)
  have len: "length bs = 3"
    using add_rw_addr_length(2) [OF add] by simp
  note back_addr = rw_addr_back [OF ok w add size at3, unfolded len]
  have get: "DAR_get_rw_addr (mtc_bytes b) f0 (i + 3) =
      (f0\<lparr>log_rw := (log_rw f0)\<lparr>rw_addr_size := rio_addr_21, addr := [a ! 0 AND push_bit 3 (mask 29), a ! 1, a ! 2]\<rparr>\<rparr>, i + 6)" for f0
    using back_addr(1) by (simp add: DAR_get_rw_addr_def size)
  have w2: "drop_bit 2 (char_at b (i + 6 - 1) AND 4) = w"
    using back_addr(2) by simp
  have nib: "drop_bit 4 (char_at b i AND 0xF0) = t" "char_at b i AND 0xF = rc AND 0xF"
    unfolding c using nibbles [OF t4 refl, of rc] by simp_all
  show ?thesis
    unfolding parse_mtc_def Let_def nib c(2,3) this_type get prod.case w2 using t [folded linorder_not_less]
    by (simp add: mtc_parsed_def set_tid_def split: prod.splits)
qed


text \<open>At most one double word, which the parser takes from its place in the packet.\<close>

lemma roundtrip_small:
  assumes hdr: "hdr_ok f" and pt: "pkt_type f \<noteq> pkt_raw" and c: "DAR_pkt_fields_to_bytes f = Ret (b, f')"
    and log: "compose_log (hdr_state f) = Ret s2" and ld: "log_done f l s2" and add: "add_data s2"
    and undo: "\<And>b. bytes_at b (length (hdr_bytes f)) l \<Longrightarrow> pkt_addr_size b = out_addr_size s2 \<Longrightarrow>
      parse_log b (DAR_util_get_ftype (pkt_type f) AND 0xF) (after_hdr f g) (length (hdr_bytes f)) = Ret s"
    and s: "pkt_index s = length (hdr_bytes f) + length l" "276 \<le> length (pkt_data (out_fields s))" "get_data s"
      "pkt_bytes (out_fields s) = pkt_bytes f" "pkt_type (out_fields s) \<notin> {pkt_dstm, pkt_msg}"
      "addr (log_rw (out_fields s)) = addr (log_rw f)" "parse_repeat s = 1"
    and n: "pkt_bytes f \<noteq> 0" "pkt_bytes f \<le> 8"
    and same: "data_bytes s2 = pkt_bytes f" "addr (log_rw (in_fields s2)) = addr (log_rw f)" "repeat_data_bytes s2 = 1"
  shows "\<exists>buf b'. take (unat (pkt_bytes f)) buf = take (unat (pkt_bytes f)) (pkt_data f) \<and>
     DAR_pkt_bytes_to_fields b g = Ret ((out_fields s)\<lparr>pkt_data := buf\<rparr>, b')"
proof -
  from compose_layers [OF hdr pt c] obtain s2' s3 where "compose_log (hdr_state f) = Ret s2'" "compose_data s2' = Ret s3"
    "compose_crc s3 = Ret (b, f')" "\<not> addr_size_bad f" .
  then have composed: "compose_data s2 = Ret s3" "compose_crc s3 = Ret (b, f')"
    using log by simp_all
  have rep: "repeat_data_bytes s2 \<le> 2" "pkt_bytes f = 8 \<Longrightarrow> repeat_data_bytes s2 = 1"
    by (simp_all add: same(3))
  from data_back_small [OF ld n add composed same(1,2) rep] obtain d where
    d: "frame_ok (hdr_bytes f @ l @ d)" "b = framed (out_addr_size s2) (hdr_bytes f @ l @ d)" "bytes_at b (length (hdr_bytes f)) l"
    and parsed: "\<And>s. pkt_index s = length (hdr_bytes f) + length l \<Longrightarrow> 276 \<le> length (pkt_data (out_fields s)) \<Longrightarrow> get_data s \<Longrightarrow>
      pkt_bytes (out_fields s) = pkt_bytes f \<Longrightarrow> pkt_type (out_fields s) \<notin> {pkt_dstm, pkt_msg} \<Longrightarrow>
      addr (log_rw (out_fields s)) = addr (log_rw f) \<Longrightarrow> parse_repeat s = repeat_data_bytes s2 \<Longrightarrow>
      \<exists>buf. take (repeat_data_bytes s2 * unat (pkt_bytes f)) buf = take (repeat_data_bytes s2 * unat (pkt_bytes f)) (pkt_data f) \<and>
        parse_data b s = Ret ((out_fields s)\<lparr>pkt_data := buf\<rparr>)" by blast
  from parsed [OF s(1-6)] s(7) same(3) obtain buf where data: "take (unat (pkt_bytes f)) buf = take (unat (pkt_bytes f)) (pkt_data f)"
    "parse_data b s = Ret ((out_fields s)\<lparr>pkt_data := buf\<rparr>)" by auto
  have l: "2 \<le> length (l @ d)"
    using ld by (simp add: log_done_def)
  have "pkt_addr_size b = out_addr_size s2"
    by (simp add: d(2))
  from parse_layers [OF hdr d(1) refl l, of "out_addr_size s2" g] undo [OF d(3) this] data(2)
  have "\<exists>b'. DAR_pkt_bytes_to_fields b g = Ret ((out_fields s)\<lparr>pkt_data := buf\<rparr>, b')"
    unfolding d(2) [symmetric] by simp
  with data(1) show ?thesis
    by blast
qed

definition mtc_log :: "DAR_pkt_fields_t \<Rightarrow> u32 \<Rightarrow> u8 list \<Rightarrow> u8 list" where
  "mtc_log f rc bs = [ucast (push_bit 4 (mtc_trans_type (pkt_type f)) + (rc AND 0xF)), ucast (tid (log_rw f)), hopcount (trans f)] @ bs"

text \<open>What the composition of a maintenance packet has written before the data.\<close>

lemma mtc_composed:
  assumes ft: "DAR_util_get_ftype (pkt_type f) = 8" and log: "compose_log (hdr_state f) = Ret s2"
  obtains rc w s1 bs where "mtc_size (hdr_state f) = Ret (rc, w, s1)"
    and "DAR_add_rw_addr rio_addr_21 (addr (log_rw (in_fields s1))) w = Ret bs" and "length bs = 3"
    and "rw_addr_size (log_rw f) = rio_addr_21"
    and "s2 = (emit (mtc_log f rc bs) s1)\<lparr>out_addr_size := rio_addr_21, data_bytes := pkt_bytes f\<rparr>"
proof -
  from ft log obtain rc w s1 where size: "mtc_size (hdr_state f) = Ret (rc, w, s1)"
    and rest: "(let f = in_fields s1;
           s2 = emit [ucast (push_bit 4 (mtc_trans_type (pkt_type f)) + (rc AND 0xF)), ucast (tid (log_rw f)), hopcount (trans f)] s1
       in if rw_addr_size (log_rw f) \<noteq> rio_addr_21 then Err DAR_UTIL_BAD_ADDRSIZE
          else and_then (add_addr w s2) (\<lambda>s3. Ret (s3\<lparr>data_bytes := pkt_bytes f\<rparr>))) = Ret s2"
    by (auto simp: compose_log_def compose_mtc_def and_then_Ret)
  have in1: "in_fields s1 = f \<or> in_fields s1 = clear_addr0 f"
    using size ft by (cases "pkt_type f") (auto simp: mtc_size_def Let_def split: prod.splits if_splits)
  then have same: "pkt_type (in_fields s1) = pkt_type f" "tid (log_rw (in_fields s1)) = tid (log_rw f)"
    "hopcount (trans (in_fields s1)) = hopcount (trans f)" "rw_addr_size (log_rw (in_fields s1)) = rw_addr_size (log_rw f)"
    "pkt_bytes (in_fields s1) = pkt_bytes f"
    by (auto simp: clear_addr0_def)
  from rest have sz: "rw_addr_size (log_rw f) = rio_addr_21"
    by (auto simp: same Let_def split: if_splits)
  with rest obtain s3 where add: "add_addr w (emit (mtc_log f rc []) s1) = Ret s3" and s2: "s2 = s3\<lparr>data_bytes := pkt_bytes f\<rparr>"
    by (auto simp: same Let_def and_then_Ret mtc_log_def)
  from add_addr_Ret [OF add] obtain bs where bs: "DAR_add_rw_addr rio_addr_21 (addr (log_rw (in_fields s1))) w = Ret bs"
    and s3: "s3 = (emit bs (emit (mtc_log f rc []) s1))\<lparr>out_addr_size := rio_addr_21\<rparr>"
    by (auto simp: same sz)
  have len: "length bs = 3"
    using add_rw_addr_length(2) [OF bs] by simp
  have "s2 = (emit (mtc_log f rc bs) s1)\<lparr>out_addr_size := rio_addr_21, data_bytes := pkt_bytes f\<rparr>"
    by (simp add: s2 s3 emit_def mtc_log_def)
  from that [OF size bs len sz this] show ?thesis .
qed


lemma or_mtc_parsed:
  assumes "length a = 3"
  shows "or_addr0 (a ! 0 AND 7) ((mtc_parsed f [a ! 0 AND push_bit 3 (mask 29), a ! 1, a ! 2] g)\<lparr>pkt_bytes := n\<rparr>) =
     (mtc_parsed f a g)\<lparr>pkt_bytes := n\<rparr>"
  using three [OF assms] by (auto simp: or_addr0_def mtc_parsed_def join_addr)

lemma mtc_read_roundtrip:
  assumes hdr: "hdr_ok f" and pt: "pkt_type f = pkt_mr" and ok: "addr_ok rio_addr_21 (addr (log_rw f))" and tid: "fits 8 (tid (log_rw f))"
    and c: "DAR_pkt_fields_to_bytes f = Ret (b, f')"
  shows "\<exists>g' b'. DAR_pkt_bytes_to_fields b g = Ret (g', b') \<and> hdr_agree f g' \<and> hopcount (trans g') = hopcount (trans f) \<and>
     addr_agree f g' \<and> tid (log_rw g') = tid (log_rw f) \<and> pkt_bytes g' = pkt_bytes f"
proof -
  have raw: "pkt_type f \<noteq> pkt_raw" and ft: "DAR_util_get_ftype (pkt_type f) = 8"
    using pt by simp_all
  from compose_layers [OF hdr raw c] obtain s2 s3 where log: "compose_log (hdr_state f) = Ret s2" .
  from mtc_composed [OF ft log] obtain rc w s1 bs where size: "mtc_size (hdr_state f) = Ret (rc, w, s1)"
    and bs: "DAR_add_rw_addr rio_addr_21 (addr (log_rw (in_fields s1))) w = Ret bs" "length bs = 3"
    and sz: "rw_addr_size (log_rw f) = rio_addr_21"
    and s2: "s2 = (emit (mtc_log f rc bs) s1)\<lparr>out_addr_size := rio_addr_21, data_bytes := pkt_bytes f\<rparr>" .
  have rd: "DAR_util_get_rdsize_wdptr (addr (log_rw f) ! 0) (pkt_bytes f) = (rc, w)" "rc \<noteq> BAD_SIZE"
    and s1: "s1 = (hdr_state f)\<lparr>add_data := False\<rparr>"
    using size by (auto simp: mtc_size_def Let_def pt split: prod.splits if_splits)
  note code = rd_code_back [OF rd]
  have w: "w = 0 \<or> w = 1"
    using code(2) by (metis word_le_less_eq word_less_1)
  have len3: "length (addr (log_rw f)) = 3"
    using ok by (simp add: addr_ok_def)
  define g1 where "g1 = (mtc_parsed f (addr (log_rw f)) (after_hdr f g))\<lparr>pkt_bytes := pkt_bytes f\<rparr>"
  have undo: "parse_log b 8 (after_hdr f g) (length (hdr_bytes f)) = Ret (parsed g1 (length (hdr_bytes f) + 6) False)"
    if "bytes_at b (length (hdr_bytes f)) (mtc_log f rc bs)" for b
    using mtc_parse_back [OF ft ok w _ tid that [unfolded mtc_log_def]] bs(1) code(3) or_mtc_parsed [OF len3]
    by (simp add: parse_log_def s1 low_nibble [OF code(1)] pt g1_def)
  have "log_done f (mtc_log f rc bs) s2"
    by (intro log_done_emit) (simp_all add: s2 s1 mtc_log_def bs(2))
  from roundtrip_none [OF hdr raw c log this, of g "parsed g1 (length (hdr_bytes f) + 6) False"] undo
  have "\<exists>b'. DAR_pkt_bytes_to_fields b g = Ret (g1, b')"
    by (simp add: s2 s1 ft parsed_def)
  then show ?thesis
    by (auto simp: g1_def mtc_parsed_def after_hdr_def hdr_agree_def addr_agree_def pt sz)
qed

lemma mtc_write_roundtrip:
  assumes hdr: "hdr_ok f" and pt: "pkt_type f = pkt_mw \<or> pkt_type f = pkt_pw" and ok: "addr_ok rio_addr_21 (addr (log_rw f))"
    and tid: "fits 8 (tid (log_rw f))" and n: "pkt_bytes f \<noteq> 0" "pkt_bytes f \<le> 256" and buf: "276 \<le> length (pkt_data g)"
    and c: "DAR_pkt_fields_to_bytes f = Ret (b, f')" and vis: "crc_nonzero b"
  shows "\<exists>g' b'. DAR_pkt_bytes_to_fields b g = Ret (g', b') \<and> hdr_agree f g' \<and> hopcount (trans g') = hopcount (trans f) \<and>
     addr_agree f g' \<and> tid (log_rw g') = tid (log_rw f) \<and> data_agree 1 f g'"
proof -
  have raw: "pkt_type f \<noteq> pkt_raw" and ft: "DAR_util_get_ftype (pkt_type f) = 8"
    using pt by auto
  from compose_layers [OF hdr raw c] obtain s2 s3 where log: "compose_log (hdr_state f) = Ret s2" .
  from mtc_composed [OF ft log] obtain rc w s1 bs where size: "mtc_size (hdr_state f) = Ret (rc, w, s1)"
    and bs: "DAR_add_rw_addr rio_addr_21 (addr (log_rw (in_fields s1))) w = Ret bs" "length bs = 3"
    and sz: "rw_addr_size (log_rw f) = rio_addr_21"
    and s2: "s2 = (emit (mtc_log f rc bs) s1)\<lparr>out_addr_size := rio_addr_21, data_bytes := pkt_bytes f\<rparr>" .
  have wr: "DAR_util_get_wrsize_wdptr (addr (log_rw f) ! 0) (pkt_bytes f) = (rc, w)" "rc \<noteq> BAD_SIZE" and s1: "s1 = hdr_state f"
    using size pt by (auto simp: mtc_size_def Let_def split: prod.splits if_splits)
  obtain m where m: "rc \<le> 15" "w \<le> 1" "DAR_util_compute_wr_bytes_n_align rc w = (0, m, addr (log_rw f) ! 0 AND 7)"
    "pkt_bytes f \<le> m" "m \<le> 256" "pkt_bytes f \<le> 16 \<Longrightarrow> m = pkt_bytes f"
    using wr_code_back [OF wr n(2)] by metis
  have w: "w = 0 \<or> w = 1"
    using m(2) by (metis word_le_less_eq word_less_1)
  have len3: "length (addr (log_rw f)) = 3"
    using ok by (simp add: addr_ok_def)
  define g1 where "g1 = (mtc_parsed f (addr (log_rw f)) (after_hdr f g))\<lparr>pkt_bytes := m\<rparr>"
  have undo: "parse_log b 8 (after_hdr f g) (length (hdr_bytes f)) = Ret (parsed g1 (length (hdr_bytes f) + 6) True)"
    if "bytes_at b (length (hdr_bytes f)) (mtc_log f rc bs)" for b
    using mtc_parse_back [OF ft ok w _ tid that [unfolded mtc_log_def]] bs(1) m(3) or_mtc_parsed [OF len3] pt
    by (auto simp: parse_log_def s1 low_nibble [OF m(1)] g1_def split: prod.splits)
  have ld: "log_done f (mtc_log f rc bs) s2"
    by (intro log_done_emit) (simp_all add: s2 s1 mtc_log_def bs(2))
  have agree: "hdr_agree f g1" "hopcount (trans g1) = hopcount (trans f)" "addr_agree f g1" "tid (log_rw g1) = tid (log_rw f)"
    "pkt_data g1 = pkt_data g" "pkt_type g1 = pkt_type f" "pkt_bytes g1 = m" "addr (log_rw g1) = addr (log_rw f)"
    by (simp_all add: g1_def mtc_parsed_def after_hdr_def hdr_agree_def addr_agree_def sz)
  have not_ds: "pkt_type f \<noteq> pkt_dstm" "pkt_type f \<noteq> pkt_msg"
    using pt by auto
  have len: "length (mtc_log f rc bs) = 6"
    by (simp add: mtc_log_def bs(2))
  show ?thesis
  proof (cases "pkt_bytes f \<le> 8")
    case True
    then have "m = pkt_bytes f"
      by (intro m(6)) (simp add: word_le_nat_alt)
    with roundtrip_small [OF hdr raw c log ld, of g "parsed g1 (length (hdr_bytes f) + 6) True"] obtain buf' b' where
      "take (unat (pkt_bytes f)) buf' = take (unat (pkt_bytes f)) (pkt_data f)" "DAR_pkt_bytes_to_fields b g = Ret (g1\<lparr>pkt_data := buf'\<rparr>, b')"
      using undo True n(1) buf not_ds by (auto simp: s2 s1 ft parsed_def agree len)
    then show ?thesis
      using agree \<open>m = pkt_bytes f\<close> by (auto simp: hdr_agree_def addr_agree_def data_agree_def)
  next
    case False
    then have n8: "8 \<le> pkt_bytes f" "8 < m"
      using m(4) by (simp_all add: word_le_nat_alt word_less_nat_alt)
    with roundtrip_large [OF hdr raw c log ld, of g "parsed g1 (length (hdr_bytes f) + 6) True"] obtain buf' pad b' where
      "take (unat (pkt_bytes f)) buf' = take (unat (pkt_bytes f)) (pkt_data f)"
      "DAR_pkt_bytes_to_fields b g = Ret (g1\<lparr>pkt_data := buf', pad_bytes := pad, pkt_bytes := pkt_bytes f\<rparr>, b')"
      using undo n(2) m(4) buf not_ds vis by (auto simp: s2 s1 ft parsed_def agree len)
    then show ?thesis
      using agree by (auto simp: hdr_agree_def addr_agree_def data_agree_def)
  qed
qed


text \<open>A maintenance response carries no address; its status is written and never read.\<close>

lemma clear_addr_ok:
  assumes "addr_ok rio_addr_21 (addr (log_rw f))"
  shows "addr (log_rw (clear_addr0 f)) = [0, 0, 0]"
proof -
  have "length (addr (log_rw f)) = 3" "addr (log_rw f) ! 1 = 0" "addr (log_rw f) ! 2 = 0"
    using assms by (simp_all add: addr_ok_def)
  then show ?thesis
    by (auto simp: clear_addr0_def length_Suc_conv numeral_eq_Suc)
qed

lemma mtc_resp_roundtrip:
  assumes hdr: "hdr_ok f" and pt: "pkt_type f = pkt_mrr \<or> pkt_type f = pkt_mwr" and ok: "addr_ok rio_addr_21 (addr (log_rw f))"
    and tid: "fits 8 (tid (log_rw f))" and n: "pkt_type f = pkt_mrr \<Longrightarrow> 8 \<le> pkt_bytes f" and buf: "276 \<le> length (pkt_data g)"
    and c: "DAR_pkt_fields_to_bytes f = Ret (b, f')" and vis: "crc_nonzero b"
  shows "\<exists>g' b'. DAR_pkt_bytes_to_fields b g = Ret (g', b') \<and> hdr_agree f g' \<and> hopcount (trans g') = hopcount (trans f) \<and>
     tid (log_rw g') = tid (log_rw f) \<and> (pkt_type f = pkt_mrr \<longrightarrow> data_agree 1 f g') \<and> (pkt_type f = pkt_mwr \<longrightarrow> pkt_bytes g' = 0)"
proof -
  have raw: "pkt_type f \<noteq> pkt_raw" and ft: "DAR_util_get_ftype (pkt_type f) = 8"
    using pt by auto
  from compose_layers [OF hdr raw c] obtain s2 s3 where log: "compose_log (hdr_state f) = Ret s2" .
  from mtc_composed [OF ft log] obtain rc w s1 bs where size: "mtc_size (hdr_state f) = Ret (rc, w, s1)"
    and bs: "DAR_add_rw_addr rio_addr_21 (addr (log_rw (in_fields s1))) w = Ret bs" "length bs = 3"
    and s2: "s2 = (emit (mtc_log f rc bs) s1)\<lparr>out_addr_size := rio_addr_21, data_bytes := pkt_bytes f\<rparr>" .
  have w: "w = 0" and s1: "s1 = (hdr_state f)\<lparr>in_fields := clear_addr0 f, add_data := (pkt_type f = pkt_mrr)\<rparr>"
    and n64: "pkt_type f = pkt_mrr \<Longrightarrow> pkt_bytes f \<le> 64"
    using size pt by (auto simp: mtc_size_def Let_def not_less split: prod.splits if_splits)
  have zero: "addr_ok rio_addr_21 [0, 0, 0]"
    by (simp add: addr_ok_def fits_def)
  have bs0: "DAR_add_rw_addr rio_addr_21 [0, 0, 0] 0 = Ret bs"
    using bs(1) clear_addr_ok [OF ok] by (simp add: s1 w)
  define g1 where "g1 = (mtc_parsed f [0, 0, 0] (after_hdr f g))\<lparr>pkt_bytes := (if pkt_type f = pkt_mrr then 64 else 0)\<rparr>"
  have undo: "parse_log b 8 (after_hdr f g) (length (hdr_bytes f)) = Ret (parsed g1 (length (hdr_bytes f) + 6) (pkt_type f = pkt_mrr))"
    if "bytes_at b (length (hdr_bytes f)) (mtc_log f rc bs)" for b
    using mtc_parse_back [OF ft zero _ bs0 tid that [unfolded mtc_log_def]] pt or_mtc_parsed [of "[0, 0, 0]"]
    by (auto simp: parse_log_def g1_def split: prod.splits)
  have ld: "log_done f (mtc_log f rc bs) s2"
    by (intro log_done_emit) (simp_all add: s2 s1 mtc_log_def bs(2) clear_addr0_def)
  have agree: "hdr_agree f g1" "hopcount (trans g1) = hopcount (trans f)" "tid (log_rw g1) = tid (log_rw f)" "pkt_data g1 = pkt_data g"
    "pkt_type g1 = pkt_type f"
    by (simp_all add: g1_def mtc_parsed_def after_hdr_def hdr_agree_def)
  have len: "length (mtc_log f rc bs) = 6"
    by (simp add: mtc_log_def bs(2))
  show ?thesis
  proof (cases "pkt_type f = pkt_mrr")
    case False
    from roundtrip_none [OF hdr raw c log ld, of g "parsed g1 (length (hdr_bytes f) + 6) False"] undo False
    have "\<exists>b'. DAR_pkt_bytes_to_fields b g = Ret (g1, b')"
      by (simp add: s2 s1 ft parsed_def)
    then show ?thesis
      using False agree by (auto simp: g1_def)
  next
    case True
    have "pkt_bytes f \<le> 256"
      using n64 [OF True] by (simp add: word_le_nat_alt)
    with roundtrip_large [OF hdr raw c log ld, of g "parsed g1 (length (hdr_bytes f) + 6) True"] obtain buf' pad b' where
      "take (unat (pkt_bytes f)) buf' = take (unat (pkt_bytes f)) (pkt_data f)"
      "DAR_pkt_bytes_to_fields b g = Ret (g1\<lparr>pkt_data := buf', pad_bytes := pad, pkt_bytes := pkt_bytes f\<rparr>, b')"
      using undo n [OF True] n64 [OF True] buf vis True by (auto simp: s2 s1 ft parsed_def agree len) (auto simp: g1_def)
    then show ?thesis
      using agree True by (auto simp: hdr_agree_def data_agree_def)
  qed
qed


text \<open>Messages: the size code of a segment, and the double word of the smallest one.\<close>

definition msg_code_bytes :: "u32 \<Rightarrow> u32" where
  "msg_code_bytes rc = push_bit (unat (rc - 9)) 8"

lemma msg_code_values:
  "msg_code_bytes 9 = 8" "msg_code_bytes 10 = 16" "msg_code_bytes 11 = 32" "msg_code_bytes 12 = 64" "msg_code_bytes 13 = 128" "msg_code_bytes 14 = 256"
  by (simp_all add: msg_code_bytes_def)

lemma msg_size_code:
  assumes size: "msg_size ms n = Ret rc" and n: "8 \<le> n" "n \<le> 256"
  shows "9 \<le> rc" and "rc \<le> 15" and "n \<le> msg_code_bytes rc" and "n = 8 \<Longrightarrow> msg_code_bytes rc = 8" and "n \<noteq> 8 \<Longrightarrow> 8 < msg_code_bytes rc"
    and "msg_len ms \<noteq> 0 \<Longrightarrow> msgseg ms \<noteq> msg_len ms \<Longrightarrow> n = msg_code_bytes rc"
proof -
  define whole where "whole \<longleftrightarrow> msg_len ms = 0 \<or> msgseg ms = msg_len ms"
  consider "rc = 9" "n = 8" | "rc \<in> {10, 11, 12, 13, 14}" "n \<noteq> 8" "n \<le> msg_code_bytes rc" "\<not> whole \<Longrightarrow> n = msg_code_bytes rc"
  proof (cases "n = 8")
    case True
    then show ?thesis
      using size that(1) by (auto simp: msg_size_def split: if_splits)
  next
    case n8: False
    show ?thesis
    proof (cases whole)
      case True
      then show ?thesis
        using size n n8 that(2) by (auto simp: msg_size_def whole_def [symmetric] msg_code_values not_less split: if_splits)
    next
      case False
      then show ?thesis
        using size n8 that(2) by (auto simp: msg_size_def whole_def msg_code_values split: if_splits)
    qed
  qed
  then have "rc \<in> {9, 10, 11, 12, 13, 14}" "n \<le> msg_code_bytes rc" "n = 8 \<longleftrightarrow> rc = 9" "\<not> whole \<Longrightarrow> n = msg_code_bytes rc"
    by (cases; auto simp: msg_code_values)+
  then show "9 \<le> rc" "rc \<le> 15" "n \<le> msg_code_bytes rc" "n = 8 \<Longrightarrow> msg_code_bytes rc = 8" "n \<noteq> 8 \<Longrightarrow> 8 < msg_code_bytes rc"
    "msg_len ms \<noteq> 0 \<Longrightarrow> msgseg ms \<noteq> msg_len ms \<Longrightarrow> n = msg_code_bytes rc"
    by (auto simp: msg_code_values whole_def)
qed

lemma msg_byte:
  fixes letter mbox seg :: u32
  assumes "fits 2 letter" and "fits 2 mbox" and "fits 4 seg"
    and b: "b = (ucast (push_bit 6 (letter AND 3) + push_bit 4 (mbox AND 3) + (seg AND 0xF)) :: u8)"
  shows "drop_bit 6 ((ucast b :: u32) AND 0xC0) = letter" "drop_bit 4 ((ucast b :: u32) AND 0x30) = mbox" "(ucast b :: u32) AND 0x0F = seg"
proof -
  note bits = assms(1-3) [THEN fits_bit]
  have "push_bit 6 (letter AND 3) + push_bit 4 (mbox AND 3) = push_bit 6 (letter AND 3) OR push_bit 4 (mbox AND 3)"
    unfolding u32_masks by (rule add_disjoint; simp only: bit_simps o_apply; auto)
  moreover have "(push_bit 6 (letter AND 3) OR push_bit 4 (mbox AND 3)) + (seg AND 0xF) = push_bit 6 (letter AND 3) OR push_bit 4 (mbox AND 3) OR (seg AND 0xF)"
    unfolding u32_masks by (subst add_disjoint; simp only: bit_simps o_apply or.assoc; auto)
  ultimately have b: "b = ucast (push_bit 6 (letter AND 3) OR push_bit 4 (mbox AND 3) OR (seg AND 0xF))"
    using b by (simp only:)
  show "drop_bit 6 ((ucast b :: u32) AND 0xC0) = letter" "drop_bit 4 ((ucast b :: u32) AND 0x30) = mbox" "(ucast b :: u32) AND 0x0F = seg"
    unfolding b u32_masks by (rule bit_word_eqI; simp only: bit_simps o_apply; auto dest: bits)+
qed

lemma msg_byte_single:
  fixes letter mbox :: u32
  assumes "fits 2 letter" and "fits 6 mbox" and b: "b = (ucast (push_bit 6 (letter AND 3) + (mbox AND 0x3F)) :: u8)"
  shows "drop_bit 6 ((ucast b :: u32) AND 0xC0) = letter" "(ucast b :: u32) AND 0x3F = mbox"
proof -
  note bits = assms(1,2) [THEN fits_bit]
  have "push_bit 6 (letter AND 3) + (mbox AND 0x3F) = push_bit 6 (letter AND 3) OR (mbox AND 0x3F)"
    unfolding u32_masks by (rule add_disjoint; simp only: bit_simps o_apply; auto)
  then have b: "b = ucast (push_bit 6 (letter AND 3) OR (mbox AND 0x3F))"
    using b by (simp only:)
  show "drop_bit 6 ((ucast b :: u32) AND 0xC0) = letter" "(ucast b :: u32) AND 0x3F = mbox"
    unfolding b u32_masks by (rule bit_word_eqI; simp only: bit_simps o_apply; auto dest: bits)+
qed

definition msg_ok :: "DAR_pkt_log_ms_hdr_t \<Rightarrow> bool" where
  "msg_ok ms \<longleftrightarrow> fits 4 (msg_len ms) \<and> fits 2 (letter ms) \<and>
     (if msg_len ms \<noteq> 0 then fits 2 (mbid ms) \<and> fits 4 (msgseg ms) else fits 6 (mbid ms) \<and> msgseg ms = 0)"

definition msg_log :: "DAR_pkt_log_ms_hdr_t \<Rightarrow> u32 \<Rightarrow> u8 list" where
  "msg_log ms rc = [ucast (push_bit 4 (msg_len ms AND 0xF) + rc),
     (if msg_len ms \<noteq> 0 then ucast (push_bit 6 (letter ms AND 3) + push_bit 4 (mbid ms AND 3) + (msgseg ms AND 0xF))
      else ucast (push_bit 6 (letter ms AND 3) + (mbid ms AND 0x3F)))]"

definition msg_parsed :: "DAR_pkt_fields_t \<Rightarrow> u32 \<Rightarrow> DAR_pkt_fields_t \<Rightarrow> DAR_pkt_fields_t" where
  "msg_parsed f n g = g\<lparr>pkt_type := pkt_msg, pkt_bytes := n, log_ms := (log_ms f)\<lparr>ms_status := ms_status (log_ms g)\<rparr>\<rparr>"

lemma msg_parse_back:
  assumes ok: "msg_ok (log_ms f)" and rc: "9 \<le> rc" "rc \<le> 15" and at: "bytes_at b i (msg_log (log_ms f) rc)"
  shows "parse_msg b g i = Ret ((parsed (msg_parsed f (msg_code_bytes rc) g) (i + 2) True)
     \<lparr>get_exact_data := (msg_len (log_ms f) \<noteq> 0 \<and> msgseg (log_ms f) \<noteq> msg_len (log_ms f))\<rparr>)"
proof -
  define ms where "ms = log_ms f"
  have len4: "fits 4 (msg_len ms)" and low: "msg_len ms AND 0xF = msg_len ms" "rc AND 0xF = rc"
    using ok low_nibble [OF rc(2)] low_nibble [of "msg_len ms"] by (auto simp: msg_ok_def ms_def fits_def word_le_nat_alt)
  have c: "char_at b i = ucast (ucast (push_bit 4 (msg_len ms) + (rc AND 0xF)) :: u8)" "char_at b (i + 1) = ucast (msg_log ms rc ! 1)"
  proof -
    have "pkt_chars b ! i = msg_log ms rc ! 0" "pkt_chars b ! (i + 1) = msg_log ms rc ! 1"
      using at by (simp_all add: bytes_at_Cons msg_log_def ms_def)
    moreover have "msg_log ms rc ! 0 = ucast (push_bit 4 (msg_len ms) + (rc AND 0xF))"
      by (simp only: msg_log_def nth_Cons_0 low)
    ultimately show "char_at b i = ucast (ucast (push_bit 4 (msg_len ms) + (rc AND 0xF)) :: u8)" "char_at b (i + 1) = ucast (msg_log ms rc ! 1)"
      by (simp_all only: char_at_def)
  qed
  have nib: "drop_bit 4 (char_at b i AND 0xF0) = msg_len ms" "char_at b i AND 0xF = rc"
    unfolding c using nibbles [OF len4 refl, of rc] low(2) by simp_all
  have ge: "\<not> rc < 9"
    using rc(1) by simp
  show ?thesis
  proof (cases "msg_len ms = 0")
    case True
    then have "fits 2 (letter ms)" "fits 6 (mbid ms)" "msgseg ms = 0" "msg_log ms rc ! 1 = ucast (push_bit 6 (letter ms AND 3) + (mbid ms AND 0x3F))"
      using ok by (simp_all add: msg_ok_def ms_def msg_log_def)
    then show ?thesis
      unfolding parse_msg_def nib Let_def c(2) using True ge msg_byte_single [of "letter ms" "mbid ms" "msg_log ms rc ! 1"]
      by (cases ms; cases "log_ms g") (simp add: msg_parsed_def msg_code_bytes_def ms_def [symmetric] parsed_def)
  next
    case False
    then have "fits 2 (letter ms)" "fits 2 (mbid ms)" "fits 4 (msgseg ms)"
      "msg_log ms rc ! 1 = ucast (push_bit 6 (letter ms AND 3) + push_bit 4 (mbid ms AND 3) + (msgseg ms AND 0xF))"
      using ok by (simp_all add: msg_ok_def ms_def msg_log_def)
    then show ?thesis
      unfolding parse_msg_def nib Let_def c(2) using False ge msg_byte [of "letter ms" "mbid ms" "msgseg ms" "msg_log ms rc ! 1"]
      by (cases ms; cases "log_ms g") (simp add: msg_parsed_def msg_code_bytes_def ms_def [symmetric] parsed_def)
  qed
qed


lemma msg_roundtrip:
  assumes hdr: "hdr_ok f" and pt: "pkt_type f = pkt_msg" and ok: "msg_ok (log_ms f)"
    and n: "8 \<le> pkt_bytes f" "pkt_bytes f \<le> 256" and buf: "276 \<le> length (pkt_data g)"
    and c: "DAR_pkt_fields_to_bytes f = Ret (b, f')" and vis: "crc_nonzero b"
  shows "\<exists>g' b'. DAR_pkt_bytes_to_fields b g = Ret (g', b') \<and> hdr_agree f g' \<and>
     log_ms g' = (log_ms f)\<lparr>ms_status := ms_status (log_ms g)\<rparr> \<and> data_agree 1 f g'"
proof -
  have raw: "pkt_type f \<noteq> pkt_raw" and ft: "DAR_util_get_ftype (pkt_type f) = 11"
    using pt by simp_all
  from compose_layers [OF hdr raw c] obtain s2 s3 where log: "compose_log (hdr_state f) = Ret s2"
    and data: "compose_data s2 = Ret s3" and crc: "compose_crc s3 = Ret (b, f')" .
  from log obtain rc where rc: "msg_size (log_ms f) (pkt_bytes f) = Ret rc" and s2: "s2 = emit (msg_log (log_ms f) rc) (hdr_state f)"
    by (auto simp: compose_log_def ft compose_msg_def Let_def and_then_Ret msg_log_def)
  note code = msg_size_code [OF rc n]
  define l where "l = msg_log (log_ms f) rc"
  have l: "length l = 2"
    by (simp add: l_def msg_log_def)
  define g1 where "g1 = msg_parsed f (msg_code_bytes rc) (after_hdr f g)"
  define s where "s = (parsed g1 (length (hdr_bytes f) + 2) True)
     \<lparr>get_exact_data := (msg_len (log_ms f) \<noteq> 0 \<and> msgseg (log_ms f) \<noteq> msg_len (log_ms f))\<rparr>"
  have s: "pkt_index s = length (hdr_bytes f) + length l" "out_fields s = g1" "get_data s" "parse_repeat s = 1"
    "get_exact_data s \<Longrightarrow> pkt_bytes f = msg_code_bytes rc"
    using code(6) by (simp_all add: s_def parsed_def l)
  have undo: "parse_log b (DAR_util_get_ftype (pkt_type f) AND 0xF) (after_hdr f g) (length (hdr_bytes f)) = Ret s"
    if "bytes_at b (length (hdr_bytes f)) l" for b
    using msg_parse_back [OF ok code(1,2) that [unfolded l_def]] by (simp add: parse_log_def ft s_def g1_def)
  have ld: "log_done f l s2"
    by (intro log_done_emit) (simp_all add: s2 l l_def [symmetric])
  have add: "add_data s2"
    by (simp add: s2)
  have agree: "hdr_agree f g1" "log_ms g1 = (log_ms f)\<lparr>ms_status := ms_status (log_ms g)\<rparr>" "pkt_data g1 = pkt_data g" "pkt_type g1 = pkt_msg"
    "pkt_bytes g1 = msg_code_bytes rc"
    by (simp_all add: g1_def msg_parsed_def after_hdr_def hdr_agree_def pt)
  show ?thesis
  proof (cases "pkt_bytes f = 8")
    case False
    with roundtrip_large [OF hdr raw c log ld add undo] obtain buf' pad b' where
      "take (unat (pkt_bytes f)) buf' = take (unat (pkt_bytes f)) (pkt_data f)"
      "DAR_pkt_bytes_to_fields b g = Ret (g1\<lparr>pkt_data := buf', pad_bytes := pad, pkt_bytes := pkt_bytes f\<rparr>, b')"
      using s code(3,5) n buf vis by (auto simp: agree)
    then show ?thesis
      using agree by (auto simp: hdr_agree_def data_agree_def pt)
  next
    case True
    from data_back_large [OF ld n add data crc] obtain d where d: "d = take (unat (pkt_bytes f)) (pkt_data f)" "length d = unat (pkt_bytes f)"
      "frame_ok (hdr_bytes f @ l @ d)" "b = framed (out_addr_size s2) (hdr_bytes f @ l @ d)" "bytes_at b (length (hdr_bytes f)) l" by blast
    have "bytes_at b 0 (hdr_bytes f @ l @ d)"
      using bytes_at_framed [of "hdr_bytes f @ l @ d" "out_addr_size s2" "[]"] True by (simp add: d(2,4) l length_hdr)
    then have "bytes_at b (pkt_index s) d"
      by (simp add: bytes_at_append s(1))
    then have "map (\<lambda>k. pkt_chars b ! (pkt_index s + k)) [0..<8] = d"
      using True d(2) by (intro map_bytes_at) simp_all
    then have chunk: "parse_chunks b 0 8 0 (pkt_index s) 1 = d"
      by (simp only: One_nat_def parse_chunks.simps add_0_right append_Nil2)
    have "unat (msg_code_bytes rc) = 8"
      using code(4) [OF True] by simp
    then have "parse_small b s = Ret (g1\<lparr>pkt_data := d @ drop 8 (pkt_data g)\<rparr>)"
      using chunk buf d(2) True by (simp add: parse_small_def Let_def s(2,4) agree)
    then have "parse_data b s = Ret (g1\<lparr>pkt_data := d @ drop 8 (pkt_data g)\<rparr>)"
      using s(3) code(4) [OF True] by (simp add: parse_data_def Let_def s(2) agree)
    moreover have "2 \<le> length (l @ d)"
      by (simp add: l)
    ultimately have "\<exists>b'. DAR_pkt_bytes_to_fields b g = Ret (g1\<lparr>pkt_data := d @ drop 8 (pkt_data g)\<rparr>, b')"
      using parse_layers [OF hdr d(3) refl, of "out_addr_size s2" g] undo [OF d(5)] unfolding d(4) [symmetric] by simp
    then show ?thesis
      using agree True d(1,2) code(4) [OF True] by (auto simp: hdr_agree_def data_agree_def pt)
  qed
qed


text \<open>Responses.\<close>

lemma resp_roundtrip:
  assumes hdr: "hdr_ok f" and pt: "pkt_type f = pkt_resp" and tid: "fits 8 (tid (log_rw f))" and st: "rw_status (log_rw f) \<in> {pkt_done, pkt_retry, pkt_err}"
    and c: "DAR_pkt_fields_to_bytes f = Ret (b, f')"
  shows "\<exists>g' b'. DAR_pkt_bytes_to_fields b g = Ret (g', b') \<and> hdr_agree f g' \<and> tid (log_rw g') = tid (log_rw f) \<and>
     rw_status (log_rw g') = rw_status (log_rw f) \<and> pkt_bytes g' = pkt_bytes f"
proof -
  have raw: "pkt_type f \<noteq> pkt_raw" and ft: "DAR_util_get_ftype (pkt_type f) = 13"
    using pt by simp_all
  from compose_layers [OF hdr raw c] obtain s2 s3 where log: "compose_log (hdr_state f) = Ret s2" .
  define l :: "u8 list" where "l = [ucast (rw_status (log_rw f) AND 0xF), ucast (tid (log_rw f) AND 0xFF)]"
  have n: "pkt_bytes f = 0" and s2: "s2 = emit l ((hdr_state f)\<lparr>add_data := False\<rparr>)"
    using log by (auto simp: compose_log_def ft compose_resp_def Let_def pt l_def split: if_splits)
  define g1 where "g1 = set_tid (tid (log_rw f)) (set_status (rw_status (log_rw f)) ((after_hdr f g)\<lparr>pkt_type := pkt_resp, pkt_bytes := 0\<rparr>))"
  have undo: "parse_log b 13 (after_hdr f g) (length (hdr_bytes f)) = Ret (parsed g1 (length (hdr_bytes f) + 2) False)"
    if "bytes_at b (length (hdr_bytes f)) l" for b
  proof -
    have c: "char_at b (length (hdr_bytes f)) = rw_status (log_rw f)" "char_at b (length (hdr_bytes f) + 1) = tid (log_rw f)"
      using that st byte_back [OF tid] by (auto simp: bytes_at_Cons l_def char_at_def)
    show ?thesis
      unfolding parse_log_def parse_resp_def Let_def c using st by (auto simp: g1_def)
  qed
  have "log_done f l s2"
    by (intro log_done_emit) (simp_all add: s2 l_def)
  from roundtrip_none [OF hdr raw c log this, of g "parsed g1 (length (hdr_bytes f) + 2) False"] undo
  have "\<exists>b'. DAR_pkt_bytes_to_fields b g = Ret (g1, b')"
    by (simp add: s2 ft parsed_def)
  then show ?thesis
    by (auto simp: g1_def after_hdr_def hdr_agree_def set_tid_def set_status_def pt n)
qed

lemma resp_data_roundtrip:
  assumes hdr: "hdr_ok f" and pt: "pkt_type f = pkt_resp_data" and tid: "fits 8 (tid (log_rw f))" and st: "rw_status (log_rw f) \<in> {pkt_done, pkt_err}"
    and n: "8 \<le> pkt_bytes f" "pkt_bytes f \<le> 256" and buf: "276 \<le> length (pkt_data g)"
    and c: "DAR_pkt_fields_to_bytes f = Ret (b, f')" and vis: "crc_nonzero b"
  shows "\<exists>g' b'. DAR_pkt_bytes_to_fields b g = Ret (g', b') \<and> hdr_agree f g' \<and> tid (log_rw g') = tid (log_rw f) \<and>
     rw_status (log_rw g') = rw_status (log_rw f) \<and> data_agree 1 f g'"
proof -
  have raw: "pkt_type f \<noteq> pkt_raw" and ft: "DAR_util_get_ftype (pkt_type f) = 13"
    using pt by simp_all
  from compose_layers [OF hdr raw c] obtain s2 s3 where log: "compose_log (hdr_state f) = Ret s2" .
  define l :: "u8 list" where "l = [ucast ((rw_status (log_rw f) AND 0xF) OR 0x80), ucast (tid (log_rw f) AND 0xFF)]"
  have "pkt_bytes f \<noteq> 0"
    using n(1) by auto
  then have s2: "s2 = emit l ((hdr_state f)\<lparr>add_data := True\<rparr>)"
    using log by (auto simp: compose_log_def ft compose_resp_def Let_def pt l_def split: if_splits)
  define g1 where "g1 = set_tid (tid (log_rw f)) (set_status (rw_status (log_rw f)) ((after_hdr f g)\<lparr>pkt_type := pkt_resp_data, pkt_bytes := 256\<rparr>))"
  have undo: "parse_log b 13 (after_hdr f g) (length (hdr_bytes f)) = Ret (parsed g1 (length (hdr_bytes f) + 2) True)"
    if "bytes_at b (length (hdr_bytes f)) l" for b
  proof -
    have c: "char_at b (length (hdr_bytes f)) = rw_status (log_rw f) OR 0x80" "char_at b (length (hdr_bytes f) + 1) = tid (log_rw f)"
      using that st byte_back [OF tid] by (auto simp: bytes_at_Cons l_def char_at_def)
    show ?thesis
      unfolding parse_log_def parse_resp_def Let_def c using st by (auto simp: g1_def)
  qed
  have "log_done f l s2"
    by (intro log_done_emit) (simp_all add: s2 l_def)
  from roundtrip_large [OF hdr raw c log this, of g "parsed g1 (length (hdr_bytes f) + 2) True"]
  obtain buf' pad b' where "take (unat (pkt_bytes f)) buf' = take (unat (pkt_bytes f)) (pkt_data f)"
    "DAR_pkt_bytes_to_fields b g = Ret (g1\<lparr>pkt_data := buf', pad_bytes := pad, pkt_bytes := pkt_bytes f\<rparr>, b')"
    using undo n buf vis by (auto simp: s2 l_def ft parsed_def g1_def after_hdr_def set_tid_def set_status_def)
  then show ?thesis
    by (auto simp: g1_def after_hdr_def hdr_agree_def data_agree_def set_tid_def set_status_def pt)
qed

lemma msg_resp_byte:
  fixes letter mbox seg :: u32
  assumes "fits 2 letter" and "fits 2 mbox" and "fits 4 seg" and b: "b = (ucast (push_bit 6 letter OR push_bit 4 mbox OR (seg AND 0xF)) :: u8)"
  shows "drop_bit 6 ((ucast b :: u32) AND 0xC0) = letter" "drop_bit 4 ((ucast b :: u32) AND 0x30) = mbox" "(ucast b :: u32) AND 0x0F = seg"
proof -
  note bits = assms(1-3) [THEN fits_bit]
  show "drop_bit 6 ((ucast b :: u32) AND 0xC0) = letter" "drop_bit 4 ((ucast b :: u32) AND 0x30) = mbox" "(ucast b :: u32) AND 0x0F = seg"
    unfolding b u32_masks by (rule bit_word_eqI; simp only: bit_simps o_apply; auto dest: bits)+
qed

lemma msg_resp_roundtrip:
  assumes hdr: "hdr_ok f" and pt: "pkt_type f = pkt_msg_resp" and ok: "msg_ok (log_ms f)" "msg_len (log_ms f) \<noteq> 0"
    and st: "ms_status (log_ms f) \<in> {pkt_done, pkt_retry, pkt_err}" and c: "DAR_pkt_fields_to_bytes f = Ret (b, f')"
  shows "\<exists>g' b'. DAR_pkt_bytes_to_fields b g = Ret (g', b') \<and> hdr_agree f g' \<and>
     log_ms g' = (log_ms f)\<lparr>msg_len := msg_len (log_ms g)\<rparr> \<and> pkt_bytes g' = pkt_bytes f"
proof -
  have raw: "pkt_type f \<noteq> pkt_raw" and ft: "DAR_util_get_ftype (pkt_type f) = 13"
    using pt by simp_all
  from compose_layers [OF hdr raw c] obtain s2 s3 where log: "compose_log (hdr_state f) = Ret s2" .
  define ms where "ms = log_ms f"
  define c1 :: u8 where "c1 = ucast (push_bit 6 (letter ms) OR push_bit 4 (mbid ms) OR (msgseg ms AND 0xF))"
  define l where "l = [ucast ((ms_status ms AND 0xF) OR 0x10), c1]"
  have n: "pkt_bytes f = 0" and s2: "s2 = emit l ((hdr_state f)\<lparr>add_data := False\<rparr>)"
    using log ok(2) by (auto simp: compose_log_def ft compose_resp_def Let_def pt l_def c1_def ms_def split: if_splits)
  have fits: "fits 2 (letter ms)" "fits 2 (mbid ms)" "fits 4 (msgseg ms)"
    using ok by (auto simp: msg_ok_def ms_def)
  note c1 = msg_resp_byte [OF fits c1_def]
  define g0 where "g0 = set_status (ms_status ms) ((after_hdr f g)\<lparr>pkt_type := pkt_msg_resp, pkt_bytes := 0\<rparr>)"
  define g1 where "g1 = g0\<lparr>log_ms := (log_ms g0)\<lparr>letter := letter ms, mbid := mbid ms, msgseg := msgseg ms\<rparr>\<rparr>"
  have undo: "parse_log b 13 (after_hdr f g) (length (hdr_bytes f)) = Ret (parsed g1 (length (hdr_bytes f) + 2) False)"
    if "bytes_at b (length (hdr_bytes f)) l" for b
  proof -
    have c: "char_at b (length (hdr_bytes f)) = ms_status ms OR 0x10" "char_at b (length (hdr_bytes f) + 1) = ucast c1"
      using that st by (auto simp: bytes_at_Cons l_def char_at_def ms_def)
    show ?thesis
      unfolding parse_log_def parse_resp_def Let_def c c1 using st by (auto simp: g1_def g0_def ms_def)
  qed
  have "log_done f l s2"
    by (intro log_done_emit) (simp_all add: s2 l_def)
  from roundtrip_none [OF hdr raw c log this, of g "parsed g1 (length (hdr_bytes f) + 2) False"] undo
  have "\<exists>b'. DAR_pkt_bytes_to_fields b g = Ret (g1, b')"
    by (simp add: s2 ft parsed_def)
  then show ?thesis
    by (cases "log_ms f") (auto simp: g1_def g0_def after_hdr_def hdr_agree_def set_status_def pt n ms_def)
qed


text \<open>
  Data streaming: segments of the stream and extended headers. The flags for odd and padded data are sent with the last
  segment only.
\<close>

definition dstm_ok :: "DAR_pkt_fields_t \<Rightarrow> bool" where
  "dstm_ok f \<longleftrightarrow>
     (let ds = log_ds f in
      fits 8 (dstm_COS ds) \<and> fits 16 (dstm_streamid ds) \<and>
      (if dstm_xh_seg ds
       then fits 3 (dstm_xh_type ds) \<and> fits 4 (dstm_xh_tm_op ds) \<and> fits 3 (dstm_xh_wildcard ds) \<and> fits 8 (dstm_xh_COS_mask ds) \<and>
         fits 8 (dstm_xh_parm1 ds) \<and> fits 8 (dstm_xh_parm2 ds)
       else fits 16 (dstm_PDU_len ds) \<and> pkt_bytes f \<le> 256 \<and> (dstm_end_seg ds \<or> pkt_bytes f AND 7 = 0)))"

definition dstm_sent :: "DAR_pkt_log_ds_hdr_t \<Rightarrow> DAR_pkt_log_ds_hdr_t" where
  "dstm_sent ds =
     (if dstm_xh_seg ds
      then ds\<lparr>dstm_start_seg := False, dstm_end_seg := False, dstm_odd_data_amt := False, dstm_pad_data_amt := False, dstm_PDU_len := 0\<rparr>
      else ds\<lparr>dstm_xh_type := 0, dstm_xh_tm_op := 0, dstm_xh_wildcard := 0, dstm_xh_COS_mask := 0, dstm_xh_parm1 := 0, dstm_xh_parm2 := 0,
              dstm_streamid := (if dstm_start_seg ds then dstm_streamid ds else 0),
              dstm_PDU_len := (if \<not> dstm_start_seg ds \<and> dstm_end_seg ds then dstm_PDU_len ds else 0)\<rparr>)"

lemma xh_bytes_back:
  fixes ty op wc :: u32
  assumes "fits 3 ty" and "fits 4 op" and "fits 3 wc"
  shows "drop_bit 3 ((ucast (ucast (0x04 OR push_bit 3 (ty AND 7)) :: u8) :: u32) AND 0x38) = ty"
    and "bit (ucast (ucast (0x04 OR push_bit 3 (ty AND 7)) :: u8) :: u32) 2"
    and "drop_bit 4 ((ucast (ucast (push_bit 4 (op AND 0xF) + (wc AND 7)) :: u8) :: u32) AND 0xF0) = op"
    and "(ucast (ucast (push_bit 4 (op AND 0xF) + (wc AND 7)) :: u8) :: u32) AND 7 = wc"
proof -
  note bits = assms [THEN fits_bit]
  show "drop_bit 3 ((ucast (ucast (0x04 OR push_bit 3 (ty AND 7)) :: u8) :: u32) AND 0x38) = ty"
    unfolding u32_masks by (rule bit_word_eqI; simp only: bit_simps o_apply; auto dest: bits)
  show "bit (ucast (ucast (0x04 OR push_bit 3 (ty AND 7)) :: u8) :: u32) 2"
    unfolding u32_masks by (simp only: bit_simps o_apply) simp
  have sum: "push_bit 4 (op AND 0xF) + (wc AND 7) = push_bit 4 (op AND 0xF) OR (wc AND 7)"
    unfolding u32_masks by (rule add_disjoint; simp only: bit_simps o_apply; auto)
  show "drop_bit 4 ((ucast (ucast (push_bit 4 (op AND 0xF) + (wc AND 7)) :: u8) :: u32) AND 0xF0) = op"
    "(ucast (ucast (push_bit 4 (op AND 0xF) + (wc AND 7)) :: u8) :: u32) AND 7 = wc"
    unfolding sum unfolding u32_masks by (rule bit_word_eqI; simp only: bit_simps o_apply; auto dest: bits)+
qed

lemma half_back':
  assumes "fits 16 x"
  shows "push_bit 8 (ucast (ucast (drop_bit 8 (x AND 0xFF00)) :: u8)) + ucast (ucast (x AND 0xFF) :: u8) = (x :: u32)"
proof -
  have "(ucast (drop_bit 8 (x AND 0xFF00)) :: u8) = ucast (drop_bit 8 x AND 0xFF)"
    unfolding u32_masks by (rule bit_word_eqI; simp only: bit_simps o_apply; auto)
  then show ?thesis
    using half_back [OF assms] by (simp only:)
qed

lemma dstm_xh_roundtrip:
  assumes hdr: "hdr_ok f" and pt: "pkt_type f = pkt_dstm" and ok: "dstm_ok f" and xh: "dstm_xh_seg (log_ds f)"
    and c: "DAR_pkt_fields_to_bytes f = Ret (b, f')"
  shows "\<exists>g' b'. DAR_pkt_bytes_to_fields b g = Ret (g', b') \<and> hdr_agree f g' \<and> log_ds g' = dstm_sent (log_ds f) \<and> pkt_bytes g' = 0"
proof -
  have raw: "pkt_type f \<noteq> pkt_raw" and ft: "DAR_util_get_ftype (pkt_type f) = 9"
    using pt by simp_all
  define ds where "ds = log_ds f"
  define l where "l = ucast (dstm_COS ds) # dstm_xh_bytes ds"
  define s2 where "s2 = emit l ((hdr_state f)\<lparr>add_data := False\<rparr>)"
  have log: "compose_log (hdr_state f) = Ret s2"
    using xh by (simp add: compose_log_def ft compose_dstm_def s2_def l_def ds_def Let_def emit_def)
  define g1 where "g1 = (after_hdr f g)\<lparr>pkt_type := pkt_dstm, pkt_bytes := 0, log_ds := dstm_sent ds\<rparr>"
  have fits: "fits 3 (dstm_xh_type ds)" "fits 4 (dstm_xh_tm_op ds)" "fits 3 (dstm_xh_wildcard ds)" "fits 8 (dstm_COS ds)" "fits 16 (dstm_streamid ds)"
    "fits 8 (dstm_xh_COS_mask ds)" "fits 8 (dstm_xh_parm1 ds)" "fits 8 (dstm_xh_parm2 ds)"
    using ok xh by (simp_all add: dstm_ok_def Let_def ds_def)
  note xh_back = xh_bytes_back [OF fits(1-3)]
  have undo: "parse_log b 9 (after_hdr f g) (length (hdr_bytes f)) = Ret (parsed g1 (length (hdr_bytes f) + 8) False)"
    if at: "bytes_at b (length (hdr_bytes f)) l" for b
  proof -
    define i where "i = length (hdr_bytes f)"
    have at': "pkt_chars b ! i = ucast (dstm_COS ds)" "bytes_at b (i + 1) (dstm_xh_bytes ds)"
      using at by (simp_all add: l_def bytes_at_Cons i_def)
    have c: "char_at b (i + 1 + k) = ucast (dstm_xh_bytes ds ! k)" if "k < 7" for k
      using char_at_bytes [OF at'(2), of k] that by (simp add: dstm_xh_bytes_def)
    have c0: "char_at b i = dstm_COS ds"
      using at'(1) byte_tid [OF fits(4)] by (simp add: char_at_def)
    have c1: "char_at b (i + 1) = ucast (dstm_xh_bytes ds ! 0)"
      using c [of 0] by simp
    have less: "1 < (7::nat)" "2 < (7::nat)" "3 < (7::nat)" "4 < (7::nat)" "5 < (7::nat)" "6 < (7::nat)"
      by simp_all
    note cs = c1 less [THEN c]
    have bs: "dstm_xh_bytes ds ! 0 = ucast (0x04 OR push_bit 3 (dstm_xh_type ds AND 7))" "dstm_xh_bytes ds ! 1 = ucast (drop_bit 8 (dstm_streamid ds AND 0xFF00))"
      "dstm_xh_bytes ds ! 2 = ucast (dstm_streamid ds AND 0xFF)" "dstm_xh_bytes ds ! 3 = ucast (push_bit 4 (dstm_xh_tm_op ds AND 0xF) + (dstm_xh_wildcard ds AND 7))"
      "dstm_xh_bytes ds ! 4 = ucast (dstm_xh_COS_mask ds AND 0xFF)" "dstm_xh_bytes ds ! 5 = ucast (dstm_xh_parm1 ds)" "dstm_xh_bytes ds ! 6 = ucast (dstm_xh_parm2 ds)"
      by (simp_all add: dstm_xh_bytes_def numeral_eq_Suc)
    have "parse_dstm_xh b ((log_ds (after_hdr f g))\<lparr>dstm_COS := char_at b i\<rparr>) (i + 1) = dstm_sent ds"
      unfolding parse_dstm_xh_def cs bs xh_back half_back' [OF fits(5)] byte_back [OF fits(6)] byte_tid [OF fits(7)] byte_tid [OF fits(8)] c0
      using xh by (cases "log_ds g"; cases ds) (simp add: dstm_sent_def ds_def after_hdr_def)
    moreover have "char_at b (i + 1) AND 4 \<noteq> 0"
      unfolding flag_bits cs bs by (rule xh_back(2))
    ultimately show ?thesis
      by (simp add: parse_log_def parse_dstm_def Let_def i_def [symmetric] g1_def)
  qed
  have "log_done f l s2"
    by (intro log_done_emit) (simp_all add: s2_def l_def dstm_xh_bytes_def)
  from roundtrip_none [OF hdr raw c log this, of g "parsed g1 (length (hdr_bytes f) + 8) False"] undo
  have "\<exists>b'. DAR_pkt_bytes_to_fields b g = Ret (g1, b')"
    by (simp add: s2_def ft parsed_def)
  then show ?thesis
    by (auto simp: g1_def after_hdr_def hdr_agree_def pt ds_def)
qed


lemma dstm_flags_back:
  "((ucast (dstm_flags ds) :: u32) AND 0x80 \<noteq> 0) = dstm_start_seg ds" "((ucast (dstm_flags ds) :: u32) AND 0x40 \<noteq> 0) = dstm_end_seg ds"
  "((ucast (dstm_flags ds) :: u32) AND 2 \<noteq> 0) = (dstm_end_seg ds \<and> dstm_odd_data_amt ds)"
  "((ucast (dstm_flags ds) :: u32) AND 1 \<noteq> 0) = (dstm_end_seg ds \<and> dstm_pad_data_amt ds)"
  "(ucast (dstm_flags ds) :: u32) AND 4 = 0"
  by (cases "dstm_start_seg ds"; cases "dstm_end_seg ds"; cases "dstm_odd_data_amt ds"; cases "dstm_pad_data_amt ds"; simp add: dstm_flags_def)+

lemma length_dstm_seg: "length (dstm_seg_bytes ds) = (if dstm_start_seg ds \<or> dstm_end_seg ds then 3 else 1)"
  by (simp add: dstm_seg_bytes_def)

lemma and_3_mod: "unat (n AND 3 :: u32) = unat n mod 4"
proof -
  have "n AND 3 = take_bit 2 n"
    by (simp add: take_bit_eq_mask mask_eq_exp_minus_1)
  then show ?thesis
    by (simp add: take_bit_eq_mod unat_mod)
qed

text \<open>The padding byte makes the number of data bytes even, and the parser takes it off again.\<close>

definition dstm_padded :: "DAR_pkt_log_ds_hdr_t \<Rightarrow> u8 list \<Rightarrow> u8 list" where
  "dstm_padded ds d = (if dstm_end_seg ds \<and> dstm_pad_data_amt ds then d @ [0] else d)"

lemma dstm_data_back:
  assumes ok: "dstm_size_ok ds n" and n: "n \<le> 256" "dstm_end_seg ds \<or> n AND 7 = 0" and d: "length d = unat n"
  shows "even (length (dstm_padded ds d))" and "length (dstm_padded ds d) \<le> 256" and "dstm_adjust ds (of_nat (length (dstm_padded ds d))) = Ret n"
    and "\<not> dstm_end_seg ds \<Longrightarrow> \<not> dstm_odd_data_amt ds \<and> \<not> dstm_pad_data_amt ds"
proof -
  define k where "k = unat n"
  have k: "k \<le> 256" and nk: "n = of_nat k"
    using n(1) by (simp_all add: k_def word_le_nat_alt)
  have m3: "(n AND 3 = j) = (k mod 4 = unat j)" for j
    using and_3_mod [of n] by (auto simp: k_def word_unat_eq_iff)
  have len_and: "unat (of_nat m AND 3 :: u32) = m mod 4" "unat (of_nat m AND 7 :: u32) = m mod 8" if "m \<le> 257" for m :: nat
    using that and_3_mod [of "of_nat m"] unat_and7 [of "of_nat m"] by (simp_all add: unat_of_nat_u32)
  have m3': "((of_nat m :: u32) AND 3 = j) = (m mod 4 = unat j)" "((of_nat m :: u32) AND 7 = j) = (m mod 8 = unat j)" if "m \<le> 257" for m :: nat and j
    using len_and [OF that] by (auto simp: word_unat_eq_iff)
  have flags: "dstm_odd_data_amt ds = (k mod 4 = 1 \<or> k mod 4 = 2)" "dstm_pad_data_amt ds = (k mod 4 = 1 \<or> k mod 4 = 3)"
    using ok by (auto simp: dstm_size_ok_def m3 split: if_splits)
  have seg: "\<not> dstm_end_seg ds \<Longrightarrow> k mod 8 = 0"
    using n(2) m3'(2) [of k 0] k nk by auto
  then show "\<not> dstm_end_seg ds \<Longrightarrow> \<not> dstm_odd_data_amt ds \<and> \<not> dstm_pad_data_amt ds"
    unfolding flags by presburger
  define p where "p = length (dstm_padded ds d)"
  have p: "p = (if dstm_end_seg ds \<and> (k mod 4 = 1 \<or> k mod 4 = 3) then k + 1 else k)"
    using d by (simp add: p_def dstm_padded_def flags k_def)
  show "even (length (dstm_padded ds d))"
    unfolding p_def [symmetric] p using seg by (auto; presburger)
  show "length (dstm_padded ds d) \<le> 256"
    unfolding p_def [symmetric] p using k by (auto; presburger)
  then have p256: "p \<le> 257"
    by (simp add: p_def)
  show "dstm_adjust ds (of_nat (length (dstm_padded ds d))) = Ret n"
  proof (cases "dstm_end_seg ds")
    case False
    then show ?thesis
      using seg p m3'(2) [OF p256, of 0] unfolding p_def [symmetric] by (simp add: dstm_adjust_def nk)
  next
    case True
    consider "k mod 4 = 0" | "k mod 4 = 1" | "k mod 4 = 2" | "k mod 4 = 3"
      by linarith
    then show ?thesis
    proof cases
      case 1
      then show ?thesis
        using True p m3'(1) [OF p256] flags unfolding p_def [symmetric] by (simp add: dstm_adjust_def nk)
    next
      case 2
      then have "(k + 1) mod 4 = 2"
        by presburger
      then show ?thesis
        using True p m3'(1) [OF p256] flags 2 unfolding p_def [symmetric] by (simp add: dstm_adjust_def nk)
    next
      case 3
      then show ?thesis
        using True p m3'(1) [OF p256] flags unfolding p_def [symmetric] by (simp add: dstm_adjust_def nk)
    next
      case 4
      then have "(k + 1) mod 4 = 0"
        by presburger
      then show ?thesis
        using True p m3'(1) [OF p256] flags 4 unfolding p_def [symmetric] by (simp add: dstm_adjust_def nk)
    qed
  qed
qed


lemma dstm_adjust_sent: "\<not> dstm_xh_seg ds \<Longrightarrow> dstm_adjust (dstm_sent ds) n = dstm_adjust ds n"
  by (cases ds) (simp add: dstm_adjust_def dstm_sent_def)

lemma dstm_seg_roundtrip:
  assumes hdr: "hdr_ok f" and pt: "pkt_type f = pkt_dstm" and ok: "dstm_ok f" and xh: "\<not> dstm_xh_seg (log_ds f)"
    and buf: "276 \<le> length (pkt_data g)" and c: "DAR_pkt_fields_to_bytes f = Ret (b, f')" and vis: "crc_nonzero b"
  shows "\<exists>g' b'. DAR_pkt_bytes_to_fields b g = Ret (g', b') \<and> hdr_agree f g' \<and> log_ds g' = dstm_sent (log_ds f) \<and> data_agree 1 f g'"
proof -
  have raw: "pkt_type f \<noteq> pkt_raw" and ft: "DAR_util_get_ftype (pkt_type f) = 9"
    using pt by simp_all
  from compose_layers [OF hdr raw c] obtain s2 s3 where log: "compose_log (hdr_state f) = Ret s2"
    and data: "compose_data s2 = Ret s3" and crc: "compose_crc s3 = Ret (b, f')" .
  define ds where "ds = log_ds f"
  define l where "l = ucast (dstm_COS ds) # dstm_seg_bytes ds"
  define d where "d = take (unat (pkt_bytes f)) (pkt_data f)"
  have size: "dstm_size_ok ds (pkt_bytes f)" and d: "length d = unat (pkt_bytes f)"
    and s2: "s2 = emit (dstm_padded ds d) (emit l ((hdr_state f)\<lparr>add_data := False\<rparr>))"
    using log xh by (auto simp: compose_log_def ft compose_dstm_def Let_def and_then_Ret read_data_def ds_def l_def d_def emit_def
        dstm_padded_def split: if_splits)
  have fits: "fits 8 (dstm_COS ds)" "fits 16 (dstm_streamid ds)" "fits 16 (dstm_PDU_len ds)" "pkt_bytes f \<le> 256"
    "dstm_end_seg ds \<or> pkt_bytes f AND 7 = 0"
    using ok xh by (auto simp: dstm_ok_def Let_def ds_def)
  note pad = dstm_data_back [OF size fits(4,5) d]
  define q where "q = (hdr_bytes f @ l) @ dstm_padded ds d"
  have l: "length l = (if dstm_start_seg ds \<or> dstm_end_seg ds then 4 else 2)"
    by (simp add: l_def length_dstm_seg)
  have "s3 = s2"
    using compose_data_none [OF data] by (simp add: s2)
  then have q: "out_data s3 = q" "out_addr_size s3 = rio_addr_34"
    by (simp_all add: s2 q_def)
  have fr: "frame_ok q"
    using pad(1,2) by (auto simp: q_def frame_ok_def length_hdr l)
  then have b: "b = framed rio_addr_34 q"
    using framed_compose [of s3] crc q by simp
  define i where "i = length (hdr_bytes f)"
  have at: "bytes_at b i l"
    using bytes_at_framed [of "hdr_bytes f @ l" rio_addr_34 "dstm_padded ds d"] by (simp add: b q_def bytes_at_append i_def length_hdr l)
  define g1 where "g1 = (after_hdr f g)\<lparr>pkt_type := pkt_dstm, pkt_bytes := 256, log_ds := dstm_sent ds\<rparr>"
  define s where "s = parsed g1 (length (hdr_bytes f @ l)) True"
  have undo: "parse_log b 9 (after_hdr f g) i = Ret s"
  proof -
    have at': "char_at b i = dstm_COS ds" "bytes_at b (i + 1) (dstm_seg_bytes ds)"
      using at byte_tid [OF fits(1)] by (simp_all add: l_def bytes_at_Cons char_at_def)
    then have c: "char_at b (i + 1) = ucast (dstm_flags ds)"
      by (simp add: dstm_seg_bytes_def bytes_at_Cons char_at_def)
    have half: "push_bit 8 (char_at b (i + 1 + 1)) + char_at b (i + 1 + 2) = (if dstm_start_seg ds then dstm_streamid ds else dstm_PDU_len ds)"
      if "dstm_start_seg ds \<or> dstm_end_seg ds"
    proof -
      define x where "x = (if dstm_start_seg ds then dstm_streamid ds else dstm_PDU_len ds)"
      have "bytes_at b (i + 1 + 1) [ucast (drop_bit 8 x AND 0xFF), ucast (x AND 0xFF)]"
        using at'(2) that by (auto simp: dstm_seg_bytes_def bytes_at_Cons x_def split: if_splits)
      then have "char_at b (i + 1 + 1) = ucast (ucast (drop_bit 8 x AND 0xFF) :: u8)" "char_at b (i + 1 + 2) = ucast (ucast (x AND 0xFF) :: u8)"
        by (simp_all add: bytes_at_Cons char_at_def numeral_2_eq_2)
      moreover have "fits 16 x"
        using fits(2,3) by (simp add: x_def)
      ultimately show ?thesis
        using half_back [of x] by (simp only: x_def [symmetric])
    qed
    have "parse_dstm_seg b ((log_ds (after_hdr f g))\<lparr>dstm_COS := char_at b i\<rparr>) (i + 1) = (dstm_sent ds, i + length l)"
      unfolding parse_dstm_seg_def Let_def at'(1) c dstm_flags_back using half pad(4) xh
      by (cases "log_ds g"; cases ds; cases "dstm_start_seg ds"; cases "dstm_end_seg ds") (simp_all add: dstm_sent_def ds_def after_hdr_def l)
    then show ?thesis
      using dstm_flags_back(5) [of ds] c by (simp add: parse_log_def parse_dstm_def Let_def s_def g1_def i_def)
  qed
  have "even (length (dstm_padded ds d))" "length (hdr_bytes f @ l) \<le> 80" "crc_visible q"
    using pad(1) crc_nonzero_visible [OF fr] vis by (simp_all add: l length_hdr b)
  from parse_large_framed [OF fr [unfolded q_def] this(2,1) this(3) [unfolded q_def], of s rio_addr_34]
  obtain buf' p where buf': "take (length (dstm_padded ds d)) buf' = dstm_padded ds d"
    "parse_large b s = Ret (g1\<lparr>pkt_data := buf', pad_bytes := p, pkt_bytes := pkt_bytes f\<rparr>)"
    using buf pad(3) dstm_adjust_sent [of ds] xh by (auto simp: s_def parsed_def g1_def after_hdr_def b q_def ds_def [symmetric])
  have "take (unat (pkt_bytes f)) buf' = take (unat (pkt_bytes f)) (take (length (dstm_padded ds d)) buf')"
    using d by (auto simp: dstm_padded_def min_def)
  also have "\<dots> = d"
    unfolding buf'(1) using d by (simp add: dstm_padded_def)
  finally have "take (unat (pkt_bytes f)) buf' = d" .
  moreover have "parse_data b s = Ret (g1\<lparr>pkt_data := buf', pad_bytes := p, pkt_bytes := pkt_bytes f\<rparr>)"
    using buf'(2) fits(4) by (simp add: parse_data_def Let_def s_def parsed_def g1_def not_less)
  then have "DAR_pkt_bytes_to_fields b g = Ret (g1\<lparr>pkt_data := buf', pad_bytes := p, pkt_bytes := pkt_bytes f\<rparr>, b)"
    using parse_layers [OF hdr fr, of "l @ dstm_padded ds d" rio_addr_34 g, folded b] undo
    by (simp add: q_def ft i_def [symmetric] l)
  ultimately show ?thesis
    by (auto simp: g1_def after_hdr_def hdr_agree_def data_agree_def pt ds_def d_def)
qed


section \<open>Properties\<close>

text \<open>Fields that a packet can carry, and what of them comes back.\<close>

definition rw_ok :: "DAR_pkt_fields_t \<Rightarrow> bool" where
  "rw_ok f \<longleftrightarrow> addr_ok (rw_addr_size (log_rw f)) (addr (log_rw f)) \<and> fits 8 (tid (log_rw f))"

definition mtc_ok :: "DAR_pkt_fields_t \<Rightarrow> bool" where
  "mtc_ok f \<longleftrightarrow> addr_ok rio_addr_21 (addr (log_rw f)) \<and> fits 8 (tid (log_rw f))"

definition pkt_ok :: "DAR_pkt_fields_t \<Rightarrow> bool" where
  "pkt_ok f \<longleftrightarrow> hdr_ok f \<and>
     (let n = pkt_bytes f; ft = DAR_util_get_ftype (pkt_type f); st = rw_status (log_rw f) in
      if ft = 2 then rw_ok f
      else if ft = 5 then rw_ok f \<and> n \<noteq> 0 \<and> n \<le> 256
      else if ft = 8 then mtc_ok f \<and>
        (if pkt_type f = pkt_mw \<or> pkt_type f = pkt_pw then n \<noteq> 0 \<and> n \<le> 256 else pkt_type f = pkt_mrr \<longrightarrow> 8 \<le> n)
      else
        (case pkt_type f of
           pkt_sw \<Rightarrow> addr_ok (rw_addr_size (log_rw f)) (addr (log_rw f)) \<and> addr (log_rw f) ! 0 AND 7 = 0 \<and> 8 \<le> n \<and> n \<le> 256
         | pkt_fc \<Rightarrow> fits 3 (fc_fam (log_fc f)) \<and> fits 7 (fc_flow (log_fc f))
         | pkt_dstm \<Rightarrow> dstm_ok f
         | pkt_db \<Rightarrow> fits 8 (tid (log_rw f))
         | pkt_msg \<Rightarrow> msg_ok (log_ms f) \<and> 8 \<le> n \<and> n \<le> 256
         | pkt_resp \<Rightarrow> fits 8 (tid (log_rw f)) \<and> st \<in> {pkt_done, pkt_retry, pkt_err}
         | pkt_resp_data \<Rightarrow> fits 8 (tid (log_rw f)) \<and> st \<in> {pkt_done, pkt_err} \<and> 8 \<le> n \<and> n \<le> 256
         | pkt_msg_resp \<Rightarrow> msg_ok (log_ms f) \<and> msg_len (log_ms f) \<noteq> 0 \<and> ms_status (log_ms f) \<in> {pkt_done, pkt_retry, pkt_err}
         | _ \<Rightarrow> False))"

definition tid_agree :: "DAR_pkt_fields_t \<Rightarrow> DAR_pkt_fields_t \<Rightarrow> bool" where
  "tid_agree f g \<longleftrightarrow> tid (log_rw g) = tid (log_rw f)"

definition pkt_agree :: "DAR_pkt_fields_t \<Rightarrow> DAR_pkt_fields_t \<Rightarrow> bool" where
  "pkt_agree f g \<longleftrightarrow> hdr_agree f g \<and>
     (let ft = DAR_util_get_ftype (pkt_type f); bytes = (pkt_bytes g = pkt_bytes f); hops = (hopcount (trans g) = hopcount (trans f)) in
      if ft = 2 then addr_agree f g \<and> tid_agree f g \<and> bytes
      else if ft = 5 then addr_agree f g \<and> tid_agree f g \<and> data_agree (if pkt_type f = pkt_nw_cmp_swap then 2 else 1) f g
      else
        (case pkt_type f of
           pkt_sw \<Rightarrow> addr_agree f g \<and> data_agree 1 f g
         | pkt_fc \<Rightarrow> log_fc g = (log_fc f)\<lparr>fc_flow := fc_flow (log_fc f) AND 0x7B, fc_destID := destID (trans f), fc_srcID := srcID (trans f)\<rparr>
         | pkt_mr \<Rightarrow> hops \<and> addr_agree f g \<and> tid_agree f g \<and> bytes
         | pkt_mw \<Rightarrow> hops \<and> addr_agree f g \<and> tid_agree f g \<and> data_agree 1 f g
         | pkt_pw \<Rightarrow> hops \<and> addr_agree f g \<and> tid_agree f g \<and> data_agree 1 f g
         | pkt_mrr \<Rightarrow> hops \<and> tid_agree f g \<and> data_agree 1 f g
         | pkt_mwr \<Rightarrow> hops \<and> tid_agree f g \<and> pkt_bytes g = 0
         | pkt_dstm \<Rightarrow> log_ds g = dstm_sent (log_ds f) \<and> (if dstm_xh_seg (log_ds f) then pkt_bytes g = 0 else data_agree 1 f g)
         | pkt_db \<Rightarrow> tid_agree f g \<and> data_agree 1 f g
         | pkt_msg \<Rightarrow> log_ms g = (log_ms f)\<lparr>ms_status := ms_status (log_ms g)\<rparr> \<and> data_agree 1 f g
         | pkt_resp \<Rightarrow> tid_agree f g \<and> rw_status (log_rw g) = rw_status (log_rw f) \<and> bytes
         | pkt_resp_data \<Rightarrow> tid_agree f g \<and> rw_status (log_rw g) = rw_status (log_rw f) \<and> data_agree 1 f g
         | pkt_msg_resp \<Rightarrow> log_ms g = (log_ms f)\<lparr>msg_len := msg_len (log_ms g)\<rparr> \<and> bytes
         | _ \<Rightarrow> False))"

text \<open>
  C26. Composed packets parse back: for fields that lie in the range of their place in the packet (\<open>pkt_ok\<close>), if
  \<open>DAR_pkt_fields_to_bytes\<close> composes a packet whose last two bytes are not mistaken for padding (\<open>crc_nonzero\<close>), then
  \<open>DAR_pkt_bytes_to_fields\<close> accepts it, with any buffer that holds a whole packet, and gives back the physical and transport
  header, the packet type and, as \<open>pkt_agree\<close> lists them for each type, addresses, transaction identifiers, sizes, the
  status of responses with and without data, the fields of messages and data streaming, hop counts and all data bytes.
  Not covered by \<open>pkt_ok\<close> are raw packets; streaming writes, messages, responses with data and maintenance read responses
  with fewer than eight bytes of data; responses with data whose status is retry; responses whose status is not done,
  retry or error; responses to messages of a single segment (\<open>msg_len\<close> 0); and segments of a data stream other than
  the last whose size is not a multiple of eight. What does not come back although it is given to the composition: the
  status of a maintenance response, which is sent but never parsed (\<^verbatim>\<open>RapidIO_Utilities_API.c:2121\<close>); the length
  of a message response, the status of a message, the acknowledge identifier and the fields that a segment of a data
  stream has no place for, which are not sent; and bit 2 of the flow of a flow control packet, which the parser masks
  out.
\<close>

theorem pkt_roundtrip:
  assumes "pkt_ok f" and "276 \<le> length (pkt_data g)"
    and "DAR_pkt_fields_to_bytes f = Ret (b, f')" and "crc_nonzero b"
  shows "\<exists>g' b'. DAR_pkt_bytes_to_fields b g = Ret (g', b') \<and> pkt_agree f g'"
proof -
  have hdr: "hdr_ok f"
    using assms(1) by (simp add: pkt_ok_def)
  note ok = assms(1) [unfolded pkt_ok_def rw_ok_def mtc_ok_def Let_def]
  note agree = pkt_agree_def tid_agree_def Let_def
  consider "DAR_util_get_ftype (pkt_type f) = 2" | "DAR_util_get_ftype (pkt_type f) = 5"
    | "DAR_util_get_ftype (pkt_type f) \<noteq> 2" "DAR_util_get_ftype (pkt_type f) \<noteq> 5"
    by blast
  then show ?thesis
  proof cases
    case 1
    then show ?thesis
      using read_roundtrip [OF hdr 1 _ _ assms(3), of g] ok by (auto simp: agree)
  next
    case 2
    then show ?thesis
      using write_roundtrip [OF hdr 2 _ _ _ _ assms(2-4)] ok by (auto simp: agree)
  next
    case 3
    show ?thesis
    proof (cases "pkt_type f")
      case pkt_sw
      show ?thesis
        using swrite_roundtrip [OF hdr pkt_sw _ _ _ _ assms(2-4)] pkt_sw ok by (auto simp: agree)
    next
      case pkt_fc
      show ?thesis
        using fc_roundtrip [OF hdr pkt_fc _ _ assms(3), of g] pkt_fc ok by (auto simp: agree)
    next
      case pkt_mr
      show ?thesis
        using mtc_read_roundtrip [OF hdr pkt_mr _ _ assms(3), of g] pkt_mr ok by (auto simp: agree)
    next
      case pkt_mw
      show ?thesis
        using mtc_write_roundtrip [OF hdr _ _ _ _ _ assms(2-4)] pkt_mw ok by (auto simp: agree)
    next
      case pkt_pw
      show ?thesis
        using mtc_write_roundtrip [OF hdr _ _ _ _ _ assms(2-4)] pkt_pw ok by (auto simp: agree)
    next
      case pkt_mrr
      show ?thesis
        using mtc_resp_roundtrip [OF hdr _ _ _ _ assms(2-4)] pkt_mrr ok by (auto simp: agree)
    next
      case pkt_mwr
      show ?thesis
        using mtc_resp_roundtrip [OF hdr _ _ _ _ assms(2-4)] pkt_mwr ok by (auto simp: agree)
    next
      case pkt_dstm
      show ?thesis
        using dstm_xh_roundtrip [OF hdr pkt_dstm _ _ assms(3), of g] dstm_seg_roundtrip [OF hdr pkt_dstm _ _ assms(2-4)] pkt_dstm ok by (auto simp: agree)
    next
      case pkt_db
      show ?thesis
        using db_roundtrip [OF hdr pkt_db _ assms(2,3)] pkt_db ok by (auto simp: agree)
    next
      case pkt_msg
      show ?thesis
        using msg_roundtrip [OF hdr pkt_msg _ _ _ assms(2-4)] pkt_msg ok by (auto simp: agree)
    next
      case pkt_resp
      show ?thesis
        using resp_roundtrip [OF hdr pkt_resp _ _ assms(3), of g] pkt_resp ok by (auto simp: agree)
    next
      case pkt_resp_data
      show ?thesis
        using resp_data_roundtrip [OF hdr pkt_resp_data _ _ _ _ assms(2-4)] pkt_resp_data ok by (auto simp: agree)
    next
      case pkt_msg_resp
      show ?thesis
        using msg_resp_roundtrip [OF hdr pkt_msg_resp _ _ _ assms(3), of g] pkt_msg_resp ok by (auto simp: agree)
    qed (use 3 ok in simp_all)
  qed
qed


text \<open>A write of eight bytes between devices with 16-bit identifiers.\<close>

definition write_example :: "u8 list \<Rightarrow> DAR_pkt_fields_t" where
  "write_example d = \<lparr>tot_bytes = 0, pad_bytes = 0, phys = \<lparr>pkt_vc = 1, pkt_prio = 2, crf = True, pkt_ackID = 0\<rparr>,
     trans = \<lparr>tt_code = tt_large, destID = 0x1234, srcID = 0xABCD, hopcount = 0\<rparr>, pkt_type = pkt_nw, pkt_bytes = 8, pkt_data = d,
     log_rw = \<lparr>rw_addr_size = rio_addr_34, addr = [0x12345678, 2, 0], tid = 0x42, rw_status = 0\<rparr>,
     log_fc = \<lparr>fc_xon = False, fc_flow = 0, fc_destID = 0, fc_srcID = 0, fc_soc_is_ep = False, fc_fam = 0\<rparr>,
     log_ds = \<lparr>dstm_start_seg = False, dstm_end_seg = False, dstm_xh_seg = False, dstm_COS = 0, dstm_streamid = 0, dstm_odd_data_amt = False,
       dstm_pad_data_amt = False, dstm_PDU_len = 0, dstm_xh_type = 0, dstm_xh_tm_op = 0, dstm_xh_wildcard = 0, dstm_xh_COS_mask = 0,
       dstm_xh_parm1 = 0, dstm_xh_parm2 = 0\<rparr>,
     log_ms = \<lparr>msg_len = 0, mbid = 0, msgseg = 0, letter = 0, ms_status = 0\<rparr>\<rparr>"

lemma write_example_ok: "pkt_ok (write_example d)"
  by (simp add: pkt_ok_def write_example_def hdr_ok_def rw_ok_def addr_ok_def fits_def Let_def)

lemma write_example_composed:
  "DAR_pkt_fields_to_bytes (write_example [1, 2, 3, 4, 5, 6, 7, 8]) =
     Ret (framed rio_addr_34 [3, 0x95, 0x12, 0x34, 0xAB, 0xCD, 0x4B, 0x42, 0x12, 0x34, 0x56, 0x7A, 1, 2, 3, 4, 5, 6, 7, 8],
       write_example [1, 2, 3, 4, 5, 6, 7, 8])"
proof -
  define s where "s = \<lparr>out_data = [3, 0x95, 0x12, 0x34, 0xAB, 0xCD, 0x4B, 0x42, 0x12, 0x34, 0x56, 0x7A, 1, 2, 3, 4, 5, 6, 7, 8],
     out_addr_size = rio_addr_34, in_fields = write_example [1, 2, 3, 4, 5, 6, 7, 8], add_data = True, data_bytes = 8, repeat_data_bytes = 1\<rparr>"
  have "compose_pkt (compose_init (write_example [1, 2, 3, 4, 5, 6, 7, 8])) = Ret s"
    unfolding s_def by code_simp
  moreover have "pkt_type (write_example [1, 2, 3, 4, 5, 6, 7, 8]) \<noteq> pkt_raw"
    by (simp add: write_example_def)
  moreover have "compose_crc s = Ret (framed rio_addr_34 (out_data s), in_fields s)"
    using framed_compose [of s] by (simp add: s_def frame_ok_def)
  ultimately show ?thesis
    by (simp add: DAR_pkt_fields_to_bytes_def s_def)
qed


theorem pkt_roundtrip_witness:
  "\<exists>g' b'. DAR_pkt_bytes_to_fields
       (framed rio_addr_34 [3, 0x95, 0x12, 0x34, 0xAB, 0xCD, 0x4B, 0x42, 0x12, 0x34, 0x56, 0x7A, 1, 2, 3, 4, 5, 6, 7, 8])
       (write_example (replicate 276 0)) = Ret (g', b') \<and> pkt_agree (write_example [1, 2, 3, 4, 5, 6, 7, 8]) g'"
proof -
  have "276 \<le> length (pkt_data (write_example (replicate 276 0)))"
    by (simp add: write_example_def)
  from pkt_roundtrip [OF write_example_ok this write_example_composed] show ?thesis
    by (simp add: crc_nonzero_def frame_padded_def length_pkt_frame)
qed

text \<open>A packet of at most 276 bytes, in whole words when it has whole half-words, with a checksum that verifies.\<close>

definition well_framed :: "DAR_pkt_bytes_t \<Rightarrow> bool" where
  "well_framed b \<longleftrightarrow> unat (num_chars b) \<le> 276 \<and> length (pkt_chars b) = 276 \<and> pkt_has_crc b \<and>
     (even (unat (num_chars b)) \<longrightarrow> 4 dvd unat (num_chars b)) \<and>
     crc_comp_bytewise (pkt_chars b) (unat (num_chars b) - (if pkt_padded b then 2 else 0)) = 0"

lemma compose_crc_good:
  assumes "fits_frame s"
  shows "\<exists>b. compose_crc s = Ret (b, in_fields s) \<and> well_framed b"
proof -
  define p where "p = out_data s"
  define b where "b = \<lparr>pkt_addr_size = out_addr_size s, pkt_has_crc = True, pkt_padded = frame_padded p,
     num_chars = of_nat (length (padded_frame p)), pkt_chars = padded_frame p @ replicate (276 - length (padded_frame p)) 0\<rparr>"
  have len: "length (padded_frame p) \<le> 276"
    using padded_frame_bound [OF assms] by (simp add: p_def)
  have n: "unat (num_chars b) = length (padded_frame p)"
    using len by (simp add: b_def unat_of_nat_u32)
  have "even (length (padded_frame p)) \<Longrightarrow> even (length p)"
    by (simp add: padded_frame_def length_pkt_frame split: if_splits)
  then have four: "even (unat (num_chars b)) \<Longrightarrow> 4 dvd unat (num_chars b)"
    using padded_frame_size(1) [of p] by (auto simp: n mod_eq_0_iff_dvd)
  have m: "unat (num_chars b) - (if pkt_padded b then 2 else 0) = length (pkt_frame p)"
    unfolding n by (simp add: b_def padded_frame_def)
  have "crc_comp_bytewise (pkt_chars b) (length (pkt_frame p)) = crc_list (pkt_frame p)"
    by (subst crc_comp_list) (simp_all add: b_def padded_frame_def)
  also have "\<dots> = 0"
    using crc_residue [of "pkt_body p"] by (simp add: pkt_frame_def crc_pair_def)
  finally have "crc_comp_bytewise (pkt_chars b) (unat (num_chars b) - (if pkt_padded b then 2 else 0)) = 0"
    by (simp only: m)
  moreover have "compose_crc s = Ret (b, in_fields s)"
    using compose_crc_frame [OF assms] by (simp add: b_def p_def)
  ultimately show ?thesis
    using four len n by (auto simp: well_framed_def b_def)
qed

text \<open>
  C27. Composition stays inside its arrays: for at most 256 bytes of data, given as a buffer that holds a whole packet, the
  composition of any fields, in range or not, either is refused with an error code or returns; then the packet has at
  most 276 bytes and with its padding taken off its checksum verifies. Its size is a multiple of four when it is even. It
  can be odd, for a raw packet, a data stream or a streaming write of fewer than eight bytes: such a packet is not a
  multiple of four, although the comment in the code (\<^verbatim>\<open>RapidIO_Utilities_API.c:1893\<close>) says that it is made one
  (\<open>compose_odd_size\<close>).
\<close>

theorem compose_in_bounds:
  assumes "pkt_bytes f \<le> 256" and "276 \<le> length (pkt_data f)"
  shows "case DAR_pkt_fields_to_bytes f of Undef \<Rightarrow> False | Err e \<Rightarrow> pkt_type f \<noteq> pkt_raw | Ret (b, f') \<Rightarrow> well_framed b"
proof (cases "pkt_type f = pkt_raw")
  case True
  from compose_raw_bound [OF assms] obtain s where "compose_raw (compose_init f) = Ret s" "fits_frame s" by blast
  with compose_crc_good [of s] True show ?thesis
    by (auto simp: DAR_pkt_fields_to_bytes_def Let_def)
next
  case False
  then show ?thesis
    using compose_pkt_bound [OF assms] compose_crc_good
    by (cases "compose_pkt (compose_init f)") (fastforce simp: DAR_pkt_fields_to_bytes_def Let_def)+
qed

theorem compose_in_bounds_witness:
  "case DAR_pkt_fields_to_bytes (write_example (replicate 276 0)) of Undef \<Rightarrow> False | Err e \<Rightarrow> True | Ret (b, f') \<Rightarrow> well_framed b"
  using compose_in_bounds [of "write_example (replicate 276 0)"] by (auto simp: write_example_def split: outcome.splits)

text \<open>A raw packet of one byte becomes one of five bytes: two for the checksum and two of padding.\<close>

lemma compose_odd_size:
  "case DAR_pkt_fields_to_bytes ((write_example [1])\<lparr>pkt_type := pkt_raw, pkt_bytes := 1\<rparr>) of
     Ret (b, f') \<Rightarrow> num_chars b = 5 \<and> pkt_padded b | _ \<Rightarrow> False"
proof -
  define s where "s = (compose_init ((write_example [1])\<lparr>pkt_type := pkt_raw, pkt_bytes := 1\<rparr>))\<lparr>out_data := [1]\<rparr>"
  have "compose_raw (compose_init ((write_example [1])\<lparr>pkt_type := pkt_raw, pkt_bytes := 1\<rparr>)) = Ret s"
    unfolding s_def by code_simp
  moreover have "compose_crc s = Ret (framed (out_addr_size s) (out_data s), in_fields s)"
    by (subst compose_crc_frame) (simp_all add: fits_frame_def framed_def s_def)
  ultimately show ?thesis
    by (simp add: DAR_pkt_fields_to_bytes_def Let_def s_def framed_def frame_padded_def padded_frame_def length_pkt_frame)
qed

text \<open>The same composition with other data.\<close>

definition other_data :: "u8 list \<Rightarrow> compose_t \<Rightarrow> compose_t" where
  "other_data d s = s\<lparr>in_fields := (in_fields s)\<lparr>pkt_data := d\<rparr>\<rparr>"

lemma other_data_simps [simp]:
  "in_fields (other_data d s) = (in_fields s)\<lparr>pkt_data := d\<rparr>" "other_data d (emit bs s) = emit bs (other_data d s)"
  "out_data (other_data d s) = out_data s" "out_addr_size (other_data d s) = out_addr_size s" "data_bytes (other_data d s) = data_bytes s"
  "add_data (other_data d s) = add_data s" "repeat_data_bytes (other_data d s) = repeat_data_bytes s"
  "other_data d (s\<lparr>out_addr_size := z\<rparr>) = (other_data d s)\<lparr>out_addr_size := z\<rparr>"
  by (simp_all add: other_data_def emit_def)

lemma swrite_short:
  assumes typ_sw: "pkt_type (in_fields s) = pkt_sw" and n: "0 < pkt_bytes (in_fields s)" "pkt_bytes (in_fields s) < 8"
    and s: "data_bytes s = 0" "repeat_data_bytes s = 1" and c: "compose_pkt s = Ret s'"
  shows "compose_pkt (other_data d s) = Ret (other_data d s')"
proof -
  from c obtain s1 s2 where s1: "compose_trans (compose_phys s) = Ret s1" and s2: "add_addr 0 s1 = Ret s2" "compose_data s2 = Ret s'"
    and ok: "\<not> addr_size_bad (in_fields s)"
    using typ_sw by (auto simp: compose_pkt_def and_then_Ret compose_log_def compose_swrite_def compose_trans_def compose_phys_def Let_def
        split: if_splits)
  have phys: "compose_phys (other_data d s) = other_data d (compose_phys s)"
    by (simp add: compose_phys_def Let_def)
  have trans: "compose_trans (other_data d (compose_phys s)) = Ret (other_data d s1)" and in1: "in_fields s1 = in_fields s" "data_bytes s1 = 0"
    "repeat_data_bytes s1 = 1" "add_data s1 = add_data s"
    using s1 s by (auto simp: compose_trans_def compose_phys_def Let_def split: if_splits)
  from add_addr_Ret [OF s2(1)] obtain bs where bs: "DAR_add_rw_addr (rw_addr_size (log_rw (in_fields s1))) (addr (log_rw (in_fields s1))) 0 = Ret bs"
    and s2': "s2 = (emit bs s1)\<lparr>out_addr_size := rw_addr_size (log_rw (in_fields s1))\<rparr>" .
  have addr: "add_addr 0 (other_data d s1) = Ret (other_data d s2)"
    using bs by (simp add: add_addr_def Let_def s2')
  have "pkt_bytes (in_fields s) \<noteq> 0"
    using n by auto
  then have "compose_data (other_data d s2) = Ret (other_data d s')"
    using s2(2) n(2) in1 by (auto simp: compose_data_def s2' Let_def compose_chunk_def read_data_def split: if_splits)
  moreover have "\<not> addr_size_bad ((in_fields s)\<lparr>pkt_data := d\<rparr>)"
    using ok by (simp add: addr_size_bad_def)
  ultimately show ?thesis
    using phys trans addr typ_sw in1 by (simp add: compose_pkt_def compose_log_def compose_swrite_def)
qed

text \<open>
  A streaming write of fewer than eight bytes is composed without its data: the packet does not depend on the data at
  all, and no error is reported.
\<close>

theorem swrite_drops_short_data:
  assumes "pkt_type f = pkt_sw" and "0 < pkt_bytes f" and "pkt_bytes f < 8"
    and "DAR_pkt_fields_to_bytes f = Ret (b, f')"
  shows "\<exists>f''. DAR_pkt_fields_to_bytes (f\<lparr>pkt_data := d\<rparr>) = Ret (b, f'')"
proof -
  from assms(1,4) obtain s where s: "compose_pkt (compose_init f) = Ret s" "compose_crc s = Ret (b, f')"
    by (auto simp: DAR_pkt_fields_to_bytes_def Let_def and_then_Ret)
  have "compose_pkt (compose_init (f\<lparr>pkt_data := d\<rparr>)) = Ret (other_data d s)"
    using swrite_short [of "compose_init f" s d] s(1) assms(1-3) by (simp add: compose_init_def other_data_def)
  moreover have "\<exists>f''. compose_crc (other_data d s) = Ret (b, f'')"
    using s(2) by (auto simp: compose_crc_def and_then_Ret split: if_splits)
  ultimately show ?thesis
    using assms(1) by (auto simp: DAR_pkt_fields_to_bytes_def Let_def)
qed

theorem swrite_drops_short_data_witness:
  "let f = (write_example [1, 2, 3, 4])\<lparr>pkt_type := pkt_sw, pkt_bytes := 4\<rparr> in
   \<exists>b f' f''. DAR_pkt_fields_to_bytes f = Ret (b, f') \<and> DAR_pkt_fields_to_bytes (f\<lparr>pkt_data := [5, 6, 7, 8]\<rparr>) = Ret (b, f'')"
proof -
  define f where "f = (write_example [1, 2, 3, 4])\<lparr>pkt_type := pkt_sw, pkt_bytes := 4\<rparr>"
  have "case compose_pkt (compose_init f) of Ret s \<Rightarrow> fits_frame s | _ \<Rightarrow> False"
    unfolding f_def by code_simp
  then obtain s where s: "compose_pkt (compose_init f) = Ret s" "fits_frame s"
    by (auto split: outcome.splits)
  have f: "pkt_type f = pkt_sw" "pkt_bytes f = 4"
    by (simp_all add: f_def)
  from compose_crc_good [OF s(2)] s(1) f(1) obtain b f' where "DAR_pkt_fields_to_bytes f = Ret (b, f')"
    by (auto simp: DAR_pkt_fields_to_bytes_def Let_def)
  with swrite_drops_short_data [of f b f' "[5, 6, 7, 8]"] f show ?thesis
    by (auto simp: f_def Let_def)
qed

end
