(* ===== verification/Dar_Regs.thy ===== *)
theory Dar_Regs
  imports Rio_Prelude
begin

unbundle bit_operations_syntax

text \<open>
  Register access, \<^verbatim>\<open>fabric_management/librio/src/RapidIO_Device_Access_Routines_API.c\<close>, with the register
  emulation of two device families, \<open>tsi721_ReadReg\<close> and \<open>tsi721_WriteReg\<close> of \<^verbatim>\<open>Tsi721_API.c\<close> and \<open>tsi57x_ReadReg\<close> and
  \<open>tsi57x_WriteReg\<close> of \<^verbatim>\<open>Tsi57x_API.c\<close>.

  The functions that reach the device, the pointers \<open>ReadReg\<close> and \<open>WriteReg\<close> that \<open>DAR_proc_ptr_init\<close> installs, belong to
  the host program: they are a parameter, functions on the state \<open>'h\<close> of the hardware, \<open>None\<close> for a null pointer. A
  device is its \<open>DAR_DEV_INFO_t\<close> and its hardware. An operation takes a device and returns its return code, its
  result and the device afterwards; where the code leaves its out-parameter alone on an error the result is that of the
  last access. Pointers to a device are valid: the tests against the null pointer are left out.
\<close>

section \<open>Devices\<close>

datatype rio_driver_family_t = RIO_UNITIALIZED_DEVICE | RIO_CPS_DEVICE | RIO_RXS_DEVICE | RIO_TSI721_DEVICE | RIO_TSI57X_DEVICE
  | RIO_UNKNOWN_DEVICE

record rio_perf_opt_reg_t =
  po_offset :: u32
  po_data :: u32

record DAR_DEV_INFO_t =
  dev_name :: string
  driver_family :: rio_driver_family_t
  dsf_h :: u32
  extFPtrForPort :: u32
  extFPtrPortType :: u32
  extFPtrForLane :: u32
  extFPtrForErr :: u32
  extFPtrForVC :: u32
  extFPtrForVOQ :: u32
  extFPtrForRT :: u32
  extFPtrForTS :: u32
  extFPtrForMISC :: u32
  extFPtrForHS :: u32
  devID :: u32
  devInfo :: u32
  assyInfo :: u32
  features :: u32
  swPortInfo :: u32
  swRtInfo :: u32
  srcOps :: u32
  dstOps :: u32
  swMcastInfo :: u32
  ctl1_reg :: "u32 list"
  scratchpad :: "u32 list"
  poregs_max :: u32
  poreg_cnt :: u32
  poregs :: "rio_perf_opt_reg_t list option"

definition dev_zero :: DAR_DEV_INFO_t where
  "dev_zero = \<lparr>dev_name = [], driver_family = RIO_UNITIALIZED_DEVICE, dsf_h = 0, extFPtrForPort = 0, extFPtrPortType = 0,
     extFPtrForLane = 0, extFPtrForErr = 0, extFPtrForVC = 0, extFPtrForVOQ = 0, extFPtrForRT = 0, extFPtrForTS = 0,
     extFPtrForMISC = 0, extFPtrForHS = 0, devID = 0, devInfo = 0, assyInfo = 0, features = 0, swPortInfo = 0, swRtInfo = 0,
     srcOps = 0, dstOps = 0, swMcastInfo = 0, ctl1_reg = replicate 24 0, scratchpad = replicate 30 0, poregs_max = 0,
     poreg_cnt = 0, poregs = None\<rparr>"

record 'h host =
  ReadReg :: "(DAR_DEV_INFO_t \<Rightarrow> u32 \<Rightarrow> 'h \<Rightarrow> u32 \<times> u32 \<times> 'h) option"
  WriteReg :: "(DAR_DEV_INFO_t \<Rightarrow> u32 \<Rightarrow> u32 \<Rightarrow> 'h \<Rightarrow> u32 \<times> 'h) option"

record 'h dev =
  dev_info :: DAR_DEV_INFO_t
  hw :: 'h

abbreviation (input) RIO_SUCCESS :: u32 where "RIO_SUCCESS \<equiv> 0"
abbreviation (input) RIO_ERR_INVALID_PARAMETER :: u32 where "RIO_ERR_INVALID_PARAMETER \<equiv> 0x1002"
abbreviation (input) RIO_ERR_LOCK :: u32 where "RIO_ERR_LOCK \<equiv> 0x1005"
abbreviation (input) RIO_ERR_INSUFFICIENT_RESOURCES :: u32 where "RIO_ERR_INSUFFICIENT_RESOURCES \<equiv> 0x1007"
abbreviation (input) RIO_ERR_NO_SWITCH :: u32 where "RIO_ERR_NO_SWITCH \<equiv> 0x1009"
abbreviation (input) RIO_ERR_FEATURE_NOT_SUPPORTED :: u32 where "RIO_ERR_FEATURE_NOT_SUPPORTED \<equiv> 0x100A"
abbreviation (input) RIO_ERR_NULL_PARM_PTR :: u32 where "RIO_ERR_NULL_PARM_PTR \<equiv> 0x1012"
abbreviation (input) RIO_ERR_SW_FAILURE :: u32 where "RIO_ERR_SW_FAILURE \<equiv> 0x1014"
abbreviation (input) DAR_DB_INVALID_HANDLE :: u32 where "DAR_DB_INVALID_HANDLE \<equiv> 0x70000004"
abbreviation (input) DAR_DB_NO_DRIVER :: u32 where "DAR_DB_NO_DRIVER \<equiv> 0x70000006"
abbreviation (input) RIO_ERR_REG_ACCESS_FAIL :: u32 where "RIO_ERR_REG_ACCESS_FAIL \<equiv> 0xFFFFFFFF"
abbreviation (input) RIO_ALL_PORTS :: u8 where "RIO_ALL_PORTS \<equiv> 0xFF"
abbreviation (input) RIO_MAX_PORTS :: nat where "RIO_MAX_PORTS \<equiv> 24"
abbreviation (input) RIO_PE_FEAT_SW :: u32 where "RIO_PE_FEAT_SW \<equiv> 0x10000000"
abbreviation (input) RIO_HOST_LOCK :: u32 where "RIO_HOST_LOCK \<equiv> 0x68"
abbreviation (input) RIO_DEVID_RTE :: u32 where "RIO_DEVID_RTE \<equiv> 0x70"
abbreviation (input) RIO_RTE :: u32 where "RIO_RTE \<equiv> 0x74"
abbreviation (input) RIO_DFLT_RTE :: u32 where "RIO_DFLT_RTE \<equiv> 0x78"

definition NUM_PORTS :: "DAR_DEV_INFO_t \<Rightarrow> u8" where
  "NUM_PORTS d = ucast (drop_bit 8 (swPortInfo d AND 0xFF00))"

definition NUM_MC_MASKS :: "DAR_DEV_INFO_t \<Rightarrow> u8" where
  "NUM_MC_MASKS d = ucast (swMcastInfo d AND 0xFFFF)"

definition DEV_CODE :: "DAR_DEV_INFO_t \<Rightarrow> u16" where
  "DEV_CODE d = ucast (drop_bit 16 (devID d AND 0xFFFF0000))"

definition VALIDATE_DEV_INFO :: "DAR_DEV_INFO_t \<Rightarrow> bool" where
  "VALIDATE_DEV_INFO d \<longleftrightarrow> drop_bit 16 (dsf_h d) AND 0xFFFF = devID d AND 0xFFFF \<and> driver_family d \<noteq> RIO_UNITIALIZED_DEVICE"

text \<open>All four device drivers are built in, as in the makefile.\<close>

definition rio_get_driver_family :: "u32 \<Rightarrow> rio_driver_family_t" where
  "rio_get_driver_family d =
     (let vend_code = d AND 0xFFFF; dev_code = drop_bit 16 (d AND 0xFFFF0000) in
      if vend_code = 0x0038 then
        if dev_code \<in> {0x0374, 0x0375, 0x0379, 0x0378} then RIO_CPS_DEVICE
        else if dev_code \<in> {0x80E6, 0x80E5} then RIO_RXS_DEVICE
        else if dev_code = 0x80AB then RIO_TSI721_DEVICE
        else RIO_UNKNOWN_DEVICE
      else if vend_code = 0x000D then
        if dev_code \<in> {0x0572, 0x0574, 0x0577, 0x0578} then RIO_TSI57X_DEVICE else RIO_UNKNOWN_DEVICE
      else RIO_UNKNOWN_DEVICE)"

section \<open>Cached registers\<close>

definition DAR_get_poreg_idx :: "DAR_DEV_INFO_t \<Rightarrow> u32 \<Rightarrow> nat option" where
  "DAR_get_poreg_idx d oset =
     (case poregs d of
        None \<Rightarrow> None
      | Some rs \<Rightarrow> find (\<lambda>i. po_offset (rs ! i) = oset) [0..<unat (poreg_cnt d)])"

definition DAR_add_poreg :: "DAR_DEV_INFO_t \<Rightarrow> u32 \<Rightarrow> u32 \<Rightarrow> u32 \<times> DAR_DEV_INFO_t" where
  "DAR_add_poreg d oset x =
     (case poregs d of
        None \<Rightarrow> (RIO_ERR_NULL_PARM_PTR, d)
      | Some rs \<Rightarrow>
          if poregs_max d \<le> poreg_cnt d then (RIO_ERR_INSUFFICIENT_RESOURCES, d)
          else (RIO_SUCCESS, d\<lparr>poregs := Some (rs[unat (poreg_cnt d) := \<lparr>po_offset = oset, po_data = x\<rparr>]), poreg_cnt := poreg_cnt d + 1\<rparr>))"

section \<open>Tsi721\<close>

definition tsi721_ReadReg ::
  "(DAR_DEV_INFO_t \<Rightarrow> u32 \<Rightarrow> 'h \<Rightarrow> u32 \<times> u32 \<times> 'h) \<Rightarrow> DAR_DEV_INFO_t \<Rightarrow> u32 \<Rightarrow> 'h \<Rightarrow> u32 \<times> u32 \<times> 'h" where
  "tsi721_ReadReg rd d oset h =
     (if oset = 0x14 then (RIO_SUCCESS, 0x100, h)
      else (let (rc, x, h') = rd d oset h
            in if oset = 0x124 then (rc, push_bit 8 x, h')
               else if oset = 0x10A04 then (rc, x AND NOT 0x01000000, h')
               else (rc, x, h')))"

definition tsi721_WriteReg ::
  "(DAR_DEV_INFO_t \<Rightarrow> u32 \<Rightarrow> u32 \<Rightarrow> 'h \<Rightarrow> u32 \<times> 'h) \<Rightarrow> DAR_DEV_INFO_t \<Rightarrow> u32 \<Rightarrow> u32 \<Rightarrow> 'h \<Rightarrow> u32 \<times> 'h" where
  "tsi721_WriteReg wr d oset x h =
     (if oset = 0x124 then wr d oset (drop_bit 8 x) h
      else if oset = 0x60 then
        (let (rc, h') = wr d oset x h in if rc \<noteq> 0 then (rc, h') else wr d 0x60020 (drop_bit 16 (x AND 0x00FF0000)) h')
      else if oset = 0x10A04 then wr d oset (x AND NOT 0x01000000) h
      else wr d oset x h)"

section \<open>Tsi57x\<close>

text \<open>
  The registers the driver keeps a copy of, with the bits that can be written: 26 entries, the last one an end marker;
  the rest of the 30 entries of the C array are zero.
\<close>

definition scratchpad_const :: "(u32 \<times> u32) list" where
  "scratchpad_const =
     map (\<lambda>i. (0x10300 + 4 * of_nat i, 0xC000FFFF)) [0..<8] @ map (\<lambda>i. (0x10320 + 4 * of_nat i, 0xFFFF0000)) [0..<8] @
     [(0x6C, 0xFFFFFFFF), (0x78, 0xFF), (0x120, 0xFFFFFF00), (0x1028, 0xFFFF8000), (0x100C, 0x08C00000), (0x102C, 0xFFFF0000),
      (0x80, 0x00070F71), (0x84, 0xFFFF0007), (0x88, 0xE1), (0xFFFFFFFF, 0xFFFFFFFF)] @ replicate 4 (0, 0)"

definition tsi57x_ReadReg ::
  "(DAR_DEV_INFO_t \<Rightarrow> u32 \<Rightarrow> 'h \<Rightarrow> u32 \<times> u32 \<times> 'h) \<Rightarrow> DAR_DEV_INFO_t \<Rightarrow> u32 \<Rightarrow> 'h \<Rightarrow> u32 \<times> u32 \<times> 'h" where
  "tsi57x_ReadReg rd d oset h =
     (let hits = filter (\<lambda>i. fst (scratchpad_const ! i) = oset) [0..<30]
      in if hits = [] \<or> oset \<in> {0x88, 0x80, 0x84} then rd d oset h else (RIO_SUCCESS, scratchpad d ! last hits, h))"

definition scratch_upd :: "nat \<Rightarrow> (u32 \<Rightarrow> u32) \<Rightarrow> DAR_DEV_INFO_t \<Rightarrow> DAR_DEV_INFO_t" where
  "scratch_upd i f d = d\<lparr>scratchpad := (scratchpad d)[i := f (scratchpad d ! i)]\<rparr>"

definition tsi57x_WriteReg_mask_cfg :: "u32 \<Rightarrow> DAR_DEV_INFO_t \<Rightarrow> DAR_DEV_INFO_t" where
  "tsi57x_WriteReg_mask_cfg x d =
     (let m = unat (drop_bit 16 (x AND 0x00070000)) + 8; port = unat (drop_bit 8 (x AND 0xFF00)); cmd = x AND 0x70 in
      if cmd = 0x10 then scratch_upd m (\<lambda>v. v OR push_bit (port + 16) 1) d
      else if cmd = 0x20 then scratch_upd m (\<lambda>v. v AND NOT (push_bit (port + 16) 1)) d
      else if cmd = 0x40 then scratch_upd m (\<lambda>v. v AND NOT 0xFFFF0000) d
      else if cmd = 0x50 then scratch_upd m (\<lambda>v. v OR 0xFFFF0000) d
      else d)"

text \<open>The mask number is a byte; the bits written to its register leave it below 8, inside the copy.\<close>

definition tsi57x_WriteReg_destid_assoc :: "nat \<Rightarrow> DAR_DEV_INFO_t \<Rightarrow> DAR_DEV_INFO_t" where
  "tsi57x_WriteReg_destid_assoc i d =
     (let v = scratchpad d ! i; sel = scratchpad d ! (i - 1); large = (v AND 0x80 \<noteq> 0); cmd = v AND 0x60;
          m = unat (ucast (sel AND 0xFFFF) :: u8); destid = sel AND 0xFFFF0000 in
      if cmd = 0x40 then scratch_upd m (\<lambda>_. 0) d
      else if cmd = 0x60 then scratch_upd m (\<lambda>_. drop_bit 16 destid OR 0x80000000 OR (if large then 0x40000000 else 0)) d
      else d)"

definition tsi57x_WriteReg ::
  "(DAR_DEV_INFO_t \<Rightarrow> u32 \<Rightarrow> u32 \<Rightarrow> 'h \<Rightarrow> u32 \<times> 'h) \<Rightarrow> DAR_DEV_INFO_t \<Rightarrow> u32 \<Rightarrow> u32 \<Rightarrow> 'h \<Rightarrow> u32 \<times> DAR_DEV_INFO_t \<times> 'h" where
  "tsi57x_WriteReg wr d oset x h =
     (let (rc, h') = wr d oset x h in
      if rc \<noteq> RIO_SUCCESS then (rc, d, h')
      else
        (case find (\<lambda>i. fst (scratchpad_const ! i) = oset) [0..<30] of
           None \<Rightarrow> (rc, d, h')
         | Some i \<Rightarrow>
             (let y = x AND snd (scratchpad_const ! i); d1 = scratch_upd i (\<lambda>_. y) d
              in if oset = 0x80 then (rc, tsi57x_WriteReg_mask_cfg y d1, h')
                 else if oset = 0x88 then
                   if i \<noteq> 0 then (rc, tsi57x_WriteReg_destid_assoc i d1, h') else (RIO_ERR_SW_FAILURE, d1, h')
                 else (rc, d1, h'))))"

text \<open>The copies are filled from the registers, up to the end marker.\<close>

fun init_scratchpad_from ::
  "(DAR_DEV_INFO_t \<Rightarrow> u32 \<Rightarrow> 'h \<Rightarrow> u32 \<times> u32 \<times> 'h) \<Rightarrow> (u32 \<times> u32) list \<Rightarrow> nat \<Rightarrow> 'h dev \<Rightarrow> u32 \<times> 'h dev" where
  "init_scratchpad_from rd [] i s = (RIO_SUCCESS, s)"
| "init_scratchpad_from rd ((oset, m) # es) i s =
     (if oset = 0xFFFFFFFF then (RIO_ERR_REG_ACCESS_FAIL, s)
      else
        (let (rc, x, h') = rd (dev_info s) oset (hw s); s' = s\<lparr>dev_info := scratch_upd i (\<lambda>_. x) (dev_info s), hw := h'\<rparr>
         in if rc \<noteq> RIO_SUCCESS then (rc, s') else init_scratchpad_from rd es (Suc i) s'))"

definition tsi57x_init_scratchpad ::
  "(DAR_DEV_INFO_t \<Rightarrow> u32 \<Rightarrow> 'h \<Rightarrow> u32 \<times> u32 \<times> 'h) \<Rightarrow> 'h dev \<Rightarrow> u32 \<times> 'h dev" where
  "tsi57x_init_scratchpad rd s = init_scratchpad_from rd scratchpad_const 0 s"

section \<open>Reading and writing registers\<close>

text \<open>
  \<open>VALIDATE_DEV_INFO\<close> fails for a device without a driver family, so that the assignment of \<open>rio_get_driver_family\<close> to it
  inside the two functions is never reached.
\<close>

definition DARRegRead :: "'h host \<Rightarrow> u32 \<Rightarrow> 'h dev \<Rightarrow> u32 \<times> u32 \<times> 'h dev" where
  "DARRegRead P oset s =
     (let d = dev_info s in
      if \<not> VALIDATE_DEV_INFO d then (DAR_DB_INVALID_HANDLE, 0, s)
      else
        (case ReadReg P of
           None \<Rightarrow> (DAR_DB_NO_DRIVER, 0, s)
         | Some rd \<Rightarrow>
             (case DAR_get_poreg_idx d oset of
                Some i \<Rightarrow> (RIO_SUCCESS, po_data (the (poregs d) ! i), s)
              | None \<Rightarrow>
                  (let (rc, x, h') =
                     (case driver_family d of
                        RIO_TSI57X_DEVICE \<Rightarrow> tsi57x_ReadReg rd d oset (hw s)
                      | RIO_TSI721_DEVICE \<Rightarrow> tsi721_ReadReg rd d oset (hw s)
                      | RIO_UNITIALIZED_DEVICE \<Rightarrow> (RIO_ERR_SW_FAILURE, 0, hw s)
                      | _ \<Rightarrow> rd d oset (hw s))
                   in (rc, x, s\<lparr>hw := h'\<rparr>)))))"

definition poreg_store :: "u32 \<Rightarrow> u32 \<Rightarrow> DAR_DEV_INFO_t \<Rightarrow> DAR_DEV_INFO_t" where
  "poreg_store oset x d =
     (case DAR_get_poreg_idx d oset of
        None \<Rightarrow> d
      | Some i \<Rightarrow> d\<lparr>poregs := map_option (\<lambda>rs. rs[i := (rs ! i)\<lparr>po_data := x\<rparr>]) (poregs d)\<rparr>)"

definition DARRegWrite :: "'h host \<Rightarrow> u32 \<Rightarrow> u32 \<Rightarrow> 'h dev \<Rightarrow> u32 \<times> 'h dev" where
  "DARRegWrite P oset x s =
     (let d = dev_info s in
      if \<not> VALIDATE_DEV_INFO d then (DAR_DB_INVALID_HANDLE, s)
      else
        (case WriteReg P of
           None \<Rightarrow> (DAR_DB_NO_DRIVER, s)
         | Some wr \<Rightarrow>
             (let (rc, d', h') =
                (case driver_family d of
                   RIO_TSI57X_DEVICE \<Rightarrow> tsi57x_WriteReg wr d oset x (hw s)
                 | RIO_TSI721_DEVICE \<Rightarrow> (let (rc, h') = tsi721_WriteReg wr d oset x (hw s) in (rc, d, h'))
                 | RIO_UNITIALIZED_DEVICE \<Rightarrow> (RIO_ERR_SW_FAILURE, d, hw s)
                 | _ \<Rightarrow> (let (rc, h') = wr d oset x (hw s) in (rc, d, h')))
              in (rc, s\<lparr>dev_info := (if rc = RIO_SUCCESS then poreg_store oset x d' else d'), hw := h'\<rparr>))))"


section \<open>Standard registers\<close>

definition DARrioGetNumLocalPorts :: "'h host \<Rightarrow> 'h dev \<Rightarrow> u32 \<times> u32 \<times> 'h dev" where
  "DARrioGetNumLocalPorts P s =
     (if \<not> VALIDATE_DEV_INFO (dev_info s) then (DAR_DB_INVALID_HANDLE, 0, s)
      else (let (rc, x, s') = DARRegRead P 0x14 s in (rc, if rc = RIO_SUCCESS then drop_bit 8 (x AND 0xFF00) else 0, s')))"

definition DARrioGetSwitchPortInfo :: "'h host \<Rightarrow> 'h dev \<Rightarrow> u32 \<times> u32 \<times> 'h dev" where
  "DARrioGetSwitchPortInfo P s =
     (if \<not> VALIDATE_DEV_INFO (dev_info s) then (DAR_DB_INVALID_HANDLE, 0, s)
      else
        (let (rc, x, s') = DARRegRead P 0x14 s
         in (rc, if rc = RIO_SUCCESS \<and> features (dev_info s') AND (RIO_PE_FEAT_SW OR 0x08000000) = 0 \<and> x = 0 then 0x100 else x, s')))"

definition DARrioGetExtFeaturesPtr :: "'h dev \<Rightarrow> u32 \<times> u32" where
  "DARrioGetExtFeaturesPtr s =
     (if \<not> VALIDATE_DEV_INFO (dev_info s) then (DAR_DB_INVALID_HANDLE, 0)
      else if features (dev_info s) AND 8 \<noteq> 0 then (RIO_SUCCESS, assyInfo (dev_info s) AND 0xFFFF)
      else (RIO_ERR_FEATURE_NOT_SUPPORTED, 0))"

text \<open>The mask \<^verbatim>\<open>RIO_ASSY_INF_EFB_PTR >> 16\<close> is \<^verbatim>\<open>0xFFFF >> 16\<close>.\<close>

definition DARrioGetNextExtFeaturesPtr :: "'h host \<Rightarrow> u32 \<Rightarrow> 'h dev \<Rightarrow> u32 \<times> u32 \<times> 'h dev" where
  "DARrioGetNextExtFeaturesPtr P currfptr s =
     (if \<not> VALIDATE_DEV_INFO (dev_info s) then (DAR_DB_INVALID_HANDLE, 0, s)
      else if currfptr AND drop_bit 16 0xFFFF \<noteq> 0 then
        (let (rc, x, s') = DARRegRead P currfptr s in (rc, drop_bit 16 (x AND 0xFFFF), s'))
      else (RIO_ERR_FEATURE_NOT_SUPPORTED, 0, s))"

definition DARrioGetComponentTag :: "'h host \<Rightarrow> 'h dev \<Rightarrow> u32 \<times> u32 \<times> 'h dev" where
  "DARrioGetComponentTag P s =
     (if \<not> VALIDATE_DEV_INFO (dev_info s) then (DAR_DB_INVALID_HANDLE, 0, s) else DARRegRead P 0x6C s)"

definition DARrioSetComponentTag :: "'h host \<Rightarrow> u32 \<Rightarrow> 'h dev \<Rightarrow> u32 \<times> 'h dev" where
  "DARrioSetComponentTag P x s =
     (if \<not> VALIDATE_DEV_INFO (dev_info s) then (DAR_DB_INVALID_HANDLE, s) else DARRegWrite P 0x6C x s)"

section \<open>Device lock\<close>

text \<open>The result is the return code, the identifier stored in \<open>*hostlockid\<close> if any, and the device.\<close>

definition DARrioAcquireDeviceLock :: "'h host \<Rightarrow> u16 \<Rightarrow> 'h dev \<Rightarrow> u32 \<times> u16 option \<times> 'h dev" where
  "DARrioAcquireDeviceLock P hostdeviceid s =
     (if \<not> VALIDATE_DEV_INFO (dev_info s) then (DAR_DB_INVALID_HANDLE, None, s)
      else if hostdeviceid = 0xFFFF then (RIO_ERR_INVALID_PARAMETER, None, s)
      else
        (let (rc, x, s1) = DARRegRead P RIO_HOST_LOCK s in
         if rc \<noteq> RIO_SUCCESS then (rc, None, s1)
         else if ucast x = hostdeviceid then (rc, Some hostdeviceid, s1)
         else
           (let (rc, s2) = DARRegWrite P RIO_HOST_LOCK (ucast hostdeviceid) s1 in
            if rc \<noteq> RIO_SUCCESS then (rc, Some hostdeviceid, s2)
            else
              (let (rc, x, s3) = DARRegRead P RIO_HOST_LOCK s2 in
               if rc \<noteq> RIO_SUCCESS then (rc, Some hostdeviceid, s3)
               else
                 (let y = x AND 0xFFFF
                  in (if y \<noteq> ucast hostdeviceid then RIO_ERR_LOCK else RIO_SUCCESS, Some (ucast y), s3))))))"

definition DARrioReleaseDeviceLock :: "'h host \<Rightarrow> u16 \<Rightarrow> 'h dev \<Rightarrow> u32 \<times> u16 option \<times> 'h dev" where
  "DARrioReleaseDeviceLock P hostdeviceid s =
     (if \<not> VALIDATE_DEV_INFO (dev_info s) then (DAR_DB_INVALID_HANDLE, None, s)
      else
        (let (rc, s1) = DARRegWrite P RIO_HOST_LOCK (ucast hostdeviceid) s in
         if rc \<noteq> RIO_SUCCESS then (rc, None, s1)
         else
           (let (rc, x, s2) = DARRegRead P RIO_HOST_LOCK s1 in
            if rc \<noteq> RIO_SUCCESS then (rc, None, s2)
            else (let y = ucast (x AND 0xFFFF) :: u16 in (if y \<noteq> 0xFFFF then RIO_ERR_LOCK else rc, Some y, s2)))))"

section \<open>Standard routing registers\<close>

definition DARrioStdRouteAddEntry :: "'h host \<Rightarrow> u16 \<Rightarrow> u8 \<Rightarrow> 'h dev \<Rightarrow> u32 \<times> 'h dev" where
  "DARrioStdRouteAddEntry P routedestid routeportno s =
     (if \<not> VALIDATE_DEV_INFO (dev_info s) then (DAR_DB_INVALID_HANDLE, s)
      else if features (dev_info s) AND RIO_PE_FEAT_SW \<noteq> 0 then
        (let (rc, s1) = DARRegWrite P RIO_DEVID_RTE (ucast routedestid) s
         in if rc = RIO_SUCCESS then DARRegWrite P RIO_RTE (ucast routeportno) s1 else (RIO_ERR_NO_SWITCH, s1))
      else (RIO_ERR_NO_SWITCH, s))"

definition DARrioStdRouteGetEntry :: "'h host \<Rightarrow> u16 \<Rightarrow> 'h dev \<Rightarrow> u32 \<times> u8 \<times> 'h dev" where
  "DARrioStdRouteGetEntry P routedestid s =
     (if \<not> VALIDATE_DEV_INFO (dev_info s) then (DAR_DB_INVALID_HANDLE, 0, s)
      else if features (dev_info s) AND RIO_PE_FEAT_SW \<noteq> 0 then
        (let (rc, s1) = DARRegWrite P RIO_DEVID_RTE (ucast routedestid) s
         in if rc = RIO_SUCCESS then (let (rc, x, s2) = DARRegRead P RIO_RTE s1 in (rc, ucast (x AND 0xFF), s2)) else (rc, 0, s1))
      else (RIO_ERR_NO_SWITCH, 0, s))"

definition DARrioStdRouteRemoveEntry :: "'h host \<Rightarrow> u16 \<Rightarrow> 'h dev \<Rightarrow> u32 \<times> 'h dev" where
  "DARrioStdRouteRemoveEntry P routedestid s =
     (if \<not> VALIDATE_DEV_INFO (dev_info s) then (DAR_DB_INVALID_HANDLE, s)
      else if features (dev_info s) AND RIO_PE_FEAT_SW \<noteq> 0 then
        (let (rc, s1) = DARRegWrite P RIO_DEVID_RTE (ucast routedestid) s
         in if rc = RIO_SUCCESS then DARRegWrite P RIO_RTE (ucast RIO_ALL_PORTS) s1 else (rc, s1))
      else (RIO_ERR_NO_SWITCH, s))"

definition DARrioStdRouteSetDefault :: "'h host \<Rightarrow> u8 \<Rightarrow> 'h dev \<Rightarrow> u32 \<times> 'h dev" where
  "DARrioStdRouteSetDefault P routeportno s =
     (if \<not> VALIDATE_DEV_INFO (dev_info s) then (DAR_DB_INVALID_HANDLE, s)
      else if features (dev_info s) AND RIO_PE_FEAT_SW \<noteq> 0 then DARRegWrite P RIO_DFLT_RTE (ucast routeportno) s
      else (RIO_ERR_NO_SWITCH, s))"

primrec route_init_from :: "'h host \<Rightarrow> u8 \<Rightarrow> nat \<Rightarrow> nat \<Rightarrow> u32 \<times> 'h dev \<Rightarrow> u32 \<times> 'h dev" where
  "route_init_from P port i 0 rs = rs"
| "route_init_from P port i (Suc n) rs =
     (if fst rs = RIO_SUCCESS then route_init_from P port (Suc i) n (DARrioStdRouteAddEntry P (of_nat i) port (snd rs)) else rs)"

definition DARrioStdRouteInitAll :: "'h host \<Rightarrow> u8 \<Rightarrow> 'h dev \<Rightarrow> u32 \<times> 'h dev" where
  "DARrioStdRouteInitAll P routeportno s =
     (if \<not> VALIDATE_DEV_INFO (dev_info s) then (DAR_DB_INVALID_HANDLE, s)
      else if swRtInfo (dev_info s) \<noteq> 0 \<and> features (dev_info s) AND RIO_PE_FEAT_SW \<noteq> 0 then
        route_init_from P routeportno 0 (unat (swRtInfo (dev_info s) AND 0xFFFF) + 1) (DARrioStdRouteSetDefault P routeportno s)
      else (RIO_ERR_NO_SWITCH, s))"

section \<open>Port lists\<close>

record DAR_ptl =
  num_ports :: u8
  pnums :: "u8 list"

text \<open>
  The copy loop with its array of ports seen so far, from index \<open>i\<close> on: the error that it returns, if any. The array has
  an entry for each of the 24 ports a device can have.
\<close>

fun ptl_check :: "u8 \<Rightarrow> nat \<Rightarrow> u8 list \<Rightarrow> u8 set \<Rightarrow> u32" where
  "ptl_check n i [] seen = RIO_SUCCESS"
| "ptl_check n i (p # ps) seen = (if n \<le> p \<or> p \<in> seen then 0x80000010 + of_nat i else ptl_check n (Suc i) ps (insert p seen))"

definition DARDB_rioGetPortList :: "DAR_DEV_INFO_t \<Rightarrow> DAR_ptl \<Rightarrow> u32 \<times> DAR_ptl" where
  "DARDB_rioGetPortList d ptl_in =
     (let n = num_ports ptl_in; none = \<lparr>num_ports = 0, pnums = []\<rparr> in
      if n > NUM_PORTS d \<and> n \<noteq> RIO_ALL_PORTS then (RIO_ERR_INVALID_PARAMETER, none)
      else if unat n > RIO_MAX_PORTS \<and> n \<noteq> RIO_ALL_PORTS then (RIO_ERR_INVALID_PARAMETER, none)
      else if n = 0 then (RIO_ERR_INVALID_PARAMETER, none)
      else if n = RIO_ALL_PORTS then (RIO_SUCCESS, \<lparr>num_ports = NUM_PORTS d, pnums = map of_nat [0..<unat (NUM_PORTS d)]\<rparr>)
      else
        (let ps = take (unat n) (pnums ptl_in); rc = ptl_check (NUM_PORTS d) 0 ps {}
         in (rc, if rc = RIO_SUCCESS then \<lparr>num_ports = n, pnums = ps\<rparr> else none)))"


section \<open>The cache of registers\<close>

text \<open>
  What a cache of registers relies on: reading one of the registers in \<open>C\<close> returns its value \<open>v\<close> and has no effect, and
  the value changes only when it is written.
\<close>

locale stable_registers =
  fixes P :: "'h host" and rd :: "DAR_DEV_INFO_t \<Rightarrow> u32 \<Rightarrow> 'h \<Rightarrow> u32 \<times> u32 \<times> 'h"
    and wr :: "DAR_DEV_INFO_t \<Rightarrow> u32 \<Rightarrow> u32 \<Rightarrow> 'h \<Rightarrow> u32 \<times> 'h"
    and v :: "'h \<Rightarrow> u32 \<Rightarrow> u32" and C :: "u32 set"
  assumes host: "ReadReg P = Some rd" "WriteReg P = Some wr"
    and read_stable: "c \<in> C \<Longrightarrow> rd d c h = (RIO_SUCCESS, v h c, h)"
    and read_keeps: "rd d o1 h = (rc, x, h') \<Longrightarrow> c \<in> C \<Longrightarrow> v h' c = v h c"
    and write_stores: "wr d o1 x h = (rc, h') \<Longrightarrow> c \<in> C \<Longrightarrow> v h' c = (if o1 = c \<and> rc = RIO_SUCCESS then x else v h c)"

definition plain_family :: "DAR_DEV_INFO_t \<Rightarrow> bool" where
  "plain_family d \<longleftrightarrow> VALIDATE_DEV_INFO d \<and> driver_family d \<in> {RIO_CPS_DEVICE, RIO_RXS_DEVICE, RIO_UNKNOWN_DEVICE}"

definition cache_coherent :: "('h \<Rightarrow> u32 \<Rightarrow> u32) \<Rightarrow> u32 set \<Rightarrow> 'h dev \<Rightarrow> bool" where
  "cache_coherent v C s \<longleftrightarrow>
     (case poregs (dev_info s) of
        None \<Rightarrow> True
      | Some rs \<Rightarrow> unat (poreg_cnt (dev_info s)) \<le> length rs \<and> (\<forall>i<unat (poreg_cnt (dev_info s)). po_offset (rs ! i) \<in> C) \<and>
          (\<forall>oset i. DAR_get_poreg_idx (dev_info s) oset = Some i \<longrightarrow> po_data (rs ! i) = v (hw s) oset))"

definition uncached_read :: "'h host \<Rightarrow> u32 \<Rightarrow> 'h dev \<Rightarrow> u32 \<times> u32 \<times> 'h dev" where
  "uncached_read P oset s = (let (rc, x, h') = the (ReadReg P) (dev_info s) oset (hw s) in (rc, x, s\<lparr>hw := h'\<rparr>))"

lemma find_upt_Some: "find Q [0..<n] = Some i \<longleftrightarrow> i < n \<and> Q i \<and> (\<forall>j<i. \<not> Q j)"
proof
  assume "find Q [0..<n] = Some i"
  then show "i < n \<and> Q i \<and> (\<forall>j<i. \<not> Q j)"
    by (auto simp: find_Some_iff)
next
  assume "i < n \<and> Q i \<and> (\<forall>j<i. \<not> Q j)"
  then show "find Q [0..<n] = Some i"
    by (auto simp: find_Some_iff intro!: exI [of _ i])
qed

lemma poreg_idx_Some:
  "DAR_get_poreg_idx d oset = Some i \<longleftrightarrow>
     (\<exists>rs. poregs d = Some rs \<and> i < unat (poreg_cnt d) \<and> po_offset (rs ! i) = oset \<and> (\<forall>j<i. po_offset (rs ! j) \<noteq> oset))"
  by (auto simp: DAR_get_poreg_idx_def find_upt_Some split: option.splits)

lemma poreg_store_idx: "DAR_get_poreg_idx (poreg_store oset x d) o2 = DAR_get_poreg_idx d o2"
proof -
  have "po_offset (rs[i := (rs ! i)\<lparr>po_data := x\<rparr>] ! j) = po_offset (rs ! j)" for rs :: "rio_perf_opt_reg_t list" and i j
    by (cases "i < length rs") (auto simp: nth_list_update list_update_beyond)
  then show ?thesis
    by (auto simp: poreg_store_def DAR_get_poreg_idx_def split: option.splits)
qed

context stable_registers
begin

lemma read_transparent:
  assumes "plain_family (dev_info s)" and "cache_coherent v C s"
  shows "DARRegRead P oset s = uncached_read P oset s" and "cache_coherent v C (snd (snd (DARRegRead P oset s)))"
proof -
  define d where "d = dev_info s"
  have ok: "VALIDATE_DEV_INFO d" "driver_family d \<in> {RIO_CPS_DEVICE, RIO_RXS_DEVICE, RIO_UNKNOWN_DEVICE}"
    using assms(1) by (simp_all add: plain_family_def d_def)
  show eq: "DARRegRead P oset s = uncached_read P oset s"
  proof (cases "DAR_get_poreg_idx d oset")
    case None
    then show ?thesis
      using ok host by (auto simp: DARRegRead_def uncached_read_def Let_def d_def [symmetric])
  next
    case (Some i)
    then obtain rs where rs: "poregs d = Some rs" "i < unat (poreg_cnt d)" "po_offset (rs ! i) = oset"
      by (auto simp: poreg_idx_Some)
    then have "oset \<in> C" "po_data (rs ! i) = v (hw s) oset"
      using assms(2) Some by (auto simp: cache_coherent_def d_def Let_def)
    then show ?thesis
      using ok host Some rs(1) read_stable by (simp add: DARRegRead_def uncached_read_def Let_def d_def [symmetric])
  qed
  obtain rc x h' where rd: "rd d oset (hw s) = (rc, x, h')"
    by (cases "rd d oset (hw s)")
  then have "snd (snd (DARRegRead P oset s)) = s\<lparr>hw := h'\<rparr>"
    using eq host by (simp add: uncached_read_def d_def)
  moreover have "cache_coherent v C (s\<lparr>hw := h'\<rparr>)"
    using assms(2) read_keeps [OF rd] by (fastforce simp: cache_coherent_def poreg_idx_Some split: option.splits)
  ultimately show "cache_coherent v C (snd (snd (DARRegRead P oset s)))"
    by simp
qed

lemma write_keeps_coherent:
  assumes "plain_family (dev_info s)" and "cache_coherent v C s" and "DARRegWrite P oset x s = (rc, s')"
  shows "cache_coherent v C s'" and "plain_family (dev_info s')" and "\<exists>h'. wr (dev_info s) oset x (hw s) = (rc, h') \<and> hw s' = h'"
proof -
  define d where "d = dev_info s"
  obtain rc' h' where wr: "wr d oset x (hw s) = (rc', h')"
    by (cases "wr d oset x (hw s)")
  have s': "s' = s\<lparr>dev_info := (if rc = RIO_SUCCESS then poreg_store oset x d else d), hw := h'\<rparr>" "rc' = rc"
    using assms(1,3) host wr by (auto simp: DARRegWrite_def plain_family_def Let_def d_def [symmetric])
  show "\<exists>h'. wr (dev_info s) oset x (hw s) = (rc, h') \<and> hw s' = h'"
    using wr s' by (simp add: d_def)
  show "plain_family (dev_info s')"
    using assms(1) by (auto simp: s'(1) plain_family_def VALIDATE_DEV_INFO_def poreg_store_def d_def split: option.splits)
  show "cache_coherent v C s'"
  proof (cases "poregs d")
    case None
    then show ?thesis
      by (simp add: cache_coherent_def s'(1) d_def poreg_store_def DAR_get_poreg_idx_def)
  next
    case (Some rs)
    have C: "unat (poreg_cnt d) \<le> length rs" "\<And>i. i < unat (poreg_cnt d) \<Longrightarrow> po_offset (rs ! i) \<in> C"
      "\<And>oset i. DAR_get_poreg_idx d oset = Some i \<Longrightarrow> po_data (rs ! i) = v (hw s) oset"
      using assms(2) Some by (auto simp: cache_coherent_def d_def Let_def)
    have inC: "DAR_get_poreg_idx d o2 = Some i \<Longrightarrow> o2 \<in> C \<and> i < length rs" for o2 i
      using C(1,2) Some by (auto simp: poreg_idx_Some)
    show ?thesis
    proof (cases "rc = RIO_SUCCESS \<and> DAR_get_poreg_idx d oset \<noteq> None")
      case False
      have "po_data (rs ! i) = v h' o2" if "DAR_get_poreg_idx d o2 = Some i" for o2 i
        using C(3) [OF that] inC [OF that] write_stores [OF wr, of o2] False that s'(2) by auto
      then show ?thesis
        using C Some False by (auto simp: cache_coherent_def s'(1) poreg_store_def d_def [symmetric])
    next
      case True
      then obtain k where k: "DAR_get_poreg_idx d oset = Some k"
        by blast
      define rs' where "rs' = rs[k := (rs ! k)\<lparr>po_data := x\<rparr>]"
      have store: "poreg_store oset x d = d\<lparr>poregs := Some rs'\<rparr>"
        by (simp add: poreg_store_def k Some rs'_def)
      have "po_data (rs' ! i) = v h' o2" if i: "DAR_get_poreg_idx d o2 = Some i" for o2 i
      proof (cases "o2 = oset")
        case same: True
        then show ?thesis
          using i k inC [OF k] write_stores [OF wr, of oset] True s'(2) by (simp add: rs'_def)
      next
        case other: False
        then have "i \<noteq> k"
          using i k by (auto simp: poreg_idx_Some Some)
        then show ?thesis
          using other C(3) [OF i] inC [OF i] write_stores [OF wr, of o2] by (simp add: rs'_def)
      qed
      moreover have "po_offset (rs' ! i) = po_offset (rs ! i)" for i
        by (cases "k < length rs") (auto simp: rs'_def nth_list_update list_update_beyond)
      ultimately show ?thesis
        using C True store poreg_store_idx [of oset x d] by (auto simp: cache_coherent_def s'(1) rs'_def)
    qed
  qed
qed

end


text \<open>Registers that are plain memory.\<close>

definition mem_host :: "(u32 \<Rightarrow> u32) host" where
  "mem_host = \<lparr>ReadReg = Some (\<lambda>d oset h. (RIO_SUCCESS, h oset, h)), WriteReg = Some (\<lambda>d oset x h. (RIO_SUCCESS, h(oset := x)))\<rparr>"

interpretation mem: stable_registers mem_host "\<lambda>d oset h. (RIO_SUCCESS, h oset, h)" "\<lambda>d oset x h. (RIO_SUCCESS, h(oset := x))"
  "\<lambda>h. h" UNIV
  by unfold_locales (auto simp: mem_host_def)

section \<open>Properties\<close>

text \<open>
  C22. The register cache is transparent for the device families whose registers are accessed as they are: the CPS and RXS
  switches and unknown devices (\<open>plain_family\<close>). For such a device whose cached registers keep their value until they
  are written and can be read without effect, and whose cache holds their values, a read through the cache returns
  exactly what a read of the hardware would return, for every register, cached or not, with the same effect; and after
  any read or write the cache again holds the values of its registers. For a Tsi721 or a Tsi57x this is not so: their
  drivers change values on the way to the hardware, and \<open>DARRegWrite\<close> caches the value before the change
  (\<open>tsi721_cache_differs\<close>).
\<close>

theorem reg_cache_transparent:
  assumes "stable_registers P rd wr v C" and "plain_family (dev_info s)" and "cache_coherent v C s"
    and "DARRegWrite P o2 x s = (rc, s')"
  shows "DARRegRead P oset s = uncached_read P oset s \<and> cache_coherent v C (snd (snd (DARRegRead P oset s))) \<and>
     cache_coherent v C s' \<and> DARRegRead P oset s' = uncached_read P oset s'"
proof -
  note w = stable_registers.write_keeps_coherent [OF assms(1-4)]
  note r = stable_registers.read_transparent [OF assms(1)]
  show ?thesis
    using r [OF assms(2,3)] w(1) r(1) [OF w(2,1)] by simp
qed

definition switch_example :: "rio_perf_opt_reg_t list \<Rightarrow> DAR_DEV_INFO_t" where
  "switch_example rs = dev_zero\<lparr>driver_family := RIO_RXS_DEVICE, dsf_h := 0x00380000, devID := 0x80E60038, features := RIO_PE_FEAT_SW,
     swPortInfo := 0x1800, swRtInfo := 0xFF, swMcastInfo := 0x100, poregs_max := 4, poreg_cnt := of_nat (length rs),
     poregs := Some (rs @ replicate (4 - length rs) \<lparr>po_offset = 0, po_data = 0\<rparr>)\<rparr>"

theorem reg_cache_transparent_witness:
  "let s = \<lparr>dev_info = switch_example [\<lparr>po_offset = 0x78, po_data = 7\<rparr>], hw = (\<lambda>_. 0)(0x78 := 7)\<rparr>; s' = snd (DARRegWrite mem_host 0x78 9 s) in
   DARRegRead mem_host 0x78 s' = uncached_read mem_host 0x78 s'"
proof -
  define s :: "(u32 \<Rightarrow> u32) dev" where "s = \<lparr>dev_info = switch_example [\<lparr>po_offset = 0x78, po_data = 7\<rparr>], hw = (\<lambda>_. 0)(0x78 := 7)\<rparr>"
  have "plain_family (dev_info s)"
    by (simp add: s_def switch_example_def plain_family_def VALIDATE_DEV_INFO_def)
  moreover have "cache_coherent (\<lambda>h. h) UNIV s"
    by (auto simp: s_def switch_example_def cache_coherent_def DAR_get_poreg_idx_def split: if_splits)
  moreover obtain rc s' where "DARRegWrite mem_host 0x78 9 s = (rc, s')"
    by (cases "DARRegWrite mem_host 0x78 9 s")
  ultimately show ?thesis
    using reg_cache_transparent [OF mem.stable_registers_axioms, of s "0x78" 9 rc s' "0x78"] by (simp add: s_def Let_def)
qed

text \<open>
  On a Tsi721, the port-write control register never gets the bit for reliable reception, and the response time-out is
  shifted by eight bits in the hardware. A write leaves the value as given in the cache: when these registers are cached, a
  read after it returns the bit that was not written and the bits that the shift has cut off, where a read without the
  cache does not.
\<close>

lemma tsi721_cache_differs:
  "let d = (switch_example [\<lparr>po_offset = 0x10A04, po_data = 0\<rparr>, \<lparr>po_offset = 0x124, po_data = 0\<rparr>])\<lparr>driver_family := RIO_TSI721_DEVICE\<rparr>;
       s = \<lparr>dev_info = d, hw = (\<lambda>_. 0)\<rparr>; t = \<lparr>dev_info = d\<lparr>poregs := None\<rparr>, hw = (\<lambda>_. 0)\<rparr>;
       get = (\<lambda>oset x s. fst (snd (DARRegRead mem_host oset (snd (DARRegWrite mem_host oset x s)))))
   in get 0x10A04 0x01000000 s = 0x01000000 \<and> get 0x10A04 0x01000000 t = 0 \<and>
      get 0x124 0x12345678 s = 0x12345678 \<and> get 0x124 0x12345678 t = 0x12345600"
  by (simp add: switch_example_def DARRegRead_def DARRegWrite_def VALIDATE_DEV_INFO_def mem_host_def tsi721_ReadReg_def tsi721_WriteReg_def
      poreg_store_def DAR_get_poreg_idx_def upt_rec)

text \<open>The lock register as its specification describes it.\<close>

definition lock_write :: "u16 \<Rightarrow> u16 \<Rightarrow> u16" where
  "lock_write l x = (if l = 0xFFFF then x else if l = x then 0xFFFF else l)"

definition lock_host :: "'h host \<Rightarrow> ('h \<Rightarrow> u16) \<Rightarrow> bool" where
  "lock_host P lk \<longleftrightarrow>
     (\<exists>rd wr. ReadReg P = Some rd \<and> WriteReg P = Some wr \<and>
        (\<forall>d h. rd d RIO_HOST_LOCK h = (RIO_SUCCESS, ucast (lk h), h)) \<and>
        (\<forall>d x h. fst (wr d RIO_HOST_LOCK x h) = RIO_SUCCESS \<and> lk (snd (wr d RIO_HOST_LOCK x h)) = lock_write (lk h) (ucast x)))"

lemma lock_access:
  assumes "lock_host P lk" and "plain_family (dev_info s)" and "DAR_get_poreg_idx (dev_info s) RIO_HOST_LOCK = None"
  shows "DARRegRead P RIO_HOST_LOCK s = (RIO_SUCCESS, ucast (lk (hw s)), s)"
    and "\<exists>h'. DARRegWrite P RIO_HOST_LOCK x s = (RIO_SUCCESS, s\<lparr>hw := h'\<rparr>) \<and> lk h' = lock_write (lk (hw s)) (ucast x)"
proof -
  obtain rd wr where host: "ReadReg P = Some rd" "WriteReg P = Some wr"
    and rd: "\<And>d h. rd d RIO_HOST_LOCK h = (RIO_SUCCESS, ucast (lk h), h)"
    and wr: "\<And>d x h. fst (wr d RIO_HOST_LOCK x h) = RIO_SUCCESS" "\<And>d x h. lk (snd (wr d RIO_HOST_LOCK x h)) = lock_write (lk h) (ucast x)"
    using assms(1) by (auto simp: lock_host_def)
  show "DARRegRead P RIO_HOST_LOCK s = (RIO_SUCCESS, ucast (lk (hw s)), s)"
    using assms(2,3) by (auto simp: DARRegRead_def plain_family_def Let_def host rd)
  obtain h' where h': "wr (dev_info s) RIO_HOST_LOCK x (hw s) = (RIO_SUCCESS, h')" "lk h' = lock_write (lk (hw s)) (ucast x)"
    using wr [of "dev_info s" x "hw s"] by (cases "wr (dev_info s) RIO_HOST_LOCK x (hw s)") simp
  have "DARRegWrite P RIO_HOST_LOCK x s = (RIO_SUCCESS, s\<lparr>hw := h'\<rparr>)"
    using assms(2,3) h'(1) by (auto simp: DARRegWrite_def plain_family_def Let_def host poreg_store_def)
  then show "\<exists>h'. DARRegWrite P RIO_HOST_LOCK x s = (RIO_SUCCESS, s\<lparr>hw := h'\<rparr>) \<and> lk h' = lock_write (lk (hw s)) (ucast x)"
    using h'(2) by (intro exI [of _ h'] conjI)
qed

lemma ucast_u16_back [simp]: "(ucast (ucast (x :: u16) :: u32) :: u16) = x" "(ucast (x :: u16) :: u32) AND 0xFFFF = ucast x"
  unfolding u32_masks by (rule bit_word_eqI; auto simp: bit_simps dest: bit_imp_le_length)+

lemma ucast_u16_eq [simp]: "(ucast (x :: u16) :: u32) = ucast y \<longleftrightarrow> x = y"
proof
  assume "(ucast x :: u32) = ucast y"
  from arg_cong [OF this, of "ucast :: u32 \<Rightarrow> u16"] show "x = y"
    by (simp only: ucast_u16_back)
qed simp

text \<open>
  C23. The device lock, on a CPS, RXS or unknown device that does not cache the lock register, for a host identifier other than
  \<open>0xFFFF\<close>. Where the lock register behaves as its specification says (a write takes a free lock, a write of
  the owner's identifier frees it, all other writes are ignored), \<open>DARrioAcquireDeviceLock\<close> succeeds exactly when the
  lock is free or already held by the caller, and the caller then holds it; otherwise it reports the owner, who keeps
  the lock. \<open>DARrioReleaseDeviceLock\<close> frees the lock for its owner and leaves another owner's lock alone; called while
  the lock is free, it reports an error and takes the lock.
\<close>

theorem device_lock_protocol:
  assumes "lock_host P lk" and "plain_family (dev_info s)" and "DAR_get_poreg_idx (dev_info s) RIO_HOST_LOCK = None" and "hid \<noteq> 0xFFFF"
  shows "let l = lk (hw s); (rc, holder, s') = DARrioAcquireDeviceLock P hid s; (rc2, holder2, s2) = DARrioReleaseDeviceLock P hid s in
     (if l = 0xFFFF \<or> l = hid then rc = RIO_SUCCESS \<and> holder = Some hid \<and> lk (hw s') = hid
      else rc = RIO_ERR_LOCK \<and> holder = Some l \<and> lk (hw s') = l) \<and>
     (if l = hid then rc2 = RIO_SUCCESS \<and> lk (hw s2) = 0xFFFF
      else if l = 0xFFFF then rc2 = RIO_ERR_LOCK \<and> holder2 = Some hid \<and> lk (hw s2) = hid
      else rc2 = RIO_ERR_LOCK \<and> holder2 = Some l \<and> lk (hw s2) = l)"
proof -
  have valid: "VALIDATE_DEV_INFO (dev_info s)"
    using assms(2) by (simp add: plain_family_def)
  obtain h' where w: "DARRegWrite P RIO_HOST_LOCK (ucast hid) s = (RIO_SUCCESS, s\<lparr>hw := h'\<rparr>)" and h': "lk h' = lock_write (lk (hw s)) hid"
    using lock_access(2) [OF assms(1-3), of "ucast hid"] by auto
  have r: "DARRegRead P RIO_HOST_LOCK s = (RIO_SUCCESS, ucast (lk (hw s)), s)"
    "DARRegRead P RIO_HOST_LOCK (s\<lparr>hw := h'\<rparr>) = (RIO_SUCCESS, ucast (lk h'), s\<lparr>hw := h'\<rparr>)"
    using lock_access(1) [OF assms(1-3)] lock_access(1) [OF assms(1), of "s\<lparr>hw := h'\<rparr>"] assms(2,3) by simp_all
  show ?thesis
    using valid assms(4) h' by (auto simp: DARrioAcquireDeviceLock_def DARrioReleaseDeviceLock_def Let_def w r lock_write_def)
qed


theorem device_lock_protocol_witness:
  "let P = \<lparr>ReadReg = Some (\<lambda>d oset l. (RIO_SUCCESS, ucast l, l)), WriteReg = Some (\<lambda>d oset x l. (RIO_SUCCESS, lock_write l (ucast x)))\<rparr>;
       s = \<lparr>dev_info = switch_example [], hw = 0xFFFF :: u16\<rparr>
   in fst (DARrioAcquireDeviceLock P 5 s) = RIO_SUCCESS \<and> fst (DARrioReleaseDeviceLock P 5 s) = RIO_ERR_LOCK"
proof -
  define P :: "u16 host" where
    "P = \<lparr>ReadReg = Some (\<lambda>d oset l. (RIO_SUCCESS, ucast l, l)), WriteReg = Some (\<lambda>d oset x l. (RIO_SUCCESS, lock_write l (ucast x)))\<rparr>"
  define s where "s = \<lparr>dev_info = switch_example [], hw = 0xFFFF :: u16\<rparr>"
  have "lock_host P (\<lambda>l. l)" "plain_family (dev_info s)" "DAR_get_poreg_idx (dev_info s) RIO_HOST_LOCK = None"
    by (simp_all add: P_def s_def lock_host_def switch_example_def plain_family_def VALIDATE_DEV_INFO_def DAR_get_poreg_idx_def)
  from device_lock_protocol [OF this, of 5] show ?thesis
    by (auto simp: P_def s_def Let_def split: prod.splits)
qed

lemma ptl_check_success: "ptl_check n i ps seen = RIO_SUCCESS \<Longrightarrow> length ps + i < 0x70000000 \<Longrightarrow> distinct ps \<and> set ps \<inter> seen = {} \<and> (\<forall>p\<in>set ps. p < n)"
proof (induction ps arbitrary: i seen)
  case (Cons p ps)
  have "(0x80000010 :: u32) + of_nat i \<noteq> 0"
  proof
    assume "(0x80000010 :: u32) + of_nat i = 0"
    then have "unat ((0x80000010 :: u32) + of_nat i) = 0"
      by simp
    moreover have "unat (of_nat i :: u32) = i"
      using Cons.prems(2) by (simp add: unat_of_nat)
    ultimately show False
      using Cons.prems(2) by (simp add: unat_word_ariths)
  qed
  then have "\<not> n \<le> p" "p \<notin> seen" "ptl_check n (Suc i) ps (insert p seen) = RIO_SUCCESS"
    using Cons.prems by (auto split: if_splits)
  with Cons.IH [of "Suc i" "insert p seen"] Cons.prems(2) show ?case
    by auto
qed simp

lemma ptl_check_complete: "distinct ps \<Longrightarrow> set ps \<inter> seen = {} \<Longrightarrow> \<forall>p\<in>set ps. p < n \<Longrightarrow> ptl_check n i ps seen = RIO_SUCCESS"
  by (induction ps arbitrary: i seen) auto

lemma all_ports_list:
  fixes n :: u8
  defines "ps \<equiv> map of_nat [0..<unat n]"
  shows "length ps = unat n" and "distinct ps" and "set ps = {p. p < n}"
proof -
  have small: "unat (of_nat k :: u8) = k" if "k < unat n" for k
    using that unsigned_less [of n, where ?'a = nat] by (simp add: unat_of_nat)
  show "length ps = unat n"
    by (simp add: ps_def)
  have "inj_on (of_nat :: nat \<Rightarrow> u8) {0..<unat n}"
    by (rule inj_onI) (metis atLeastLessThan_iff small)
  then show "distinct ps"
    by (simp add: ps_def distinct_map)
  show "set ps = {p. p < n}"
  proof (intro set_eqI iffI)
    fix p
    assume "p \<in> set ps"
    then show "p \<in> {p. p < n}"
      using small by (auto simp: ps_def word_less_nat_alt)
  next
    fix p
    assume "p \<in> {p. p < n}"
    then have "p = of_nat (unat p)" "unat p < unat n"
      by (simp_all add: word_less_nat_alt)
    then show "p \<in> set ps"
      unfolding ps_def by (metis atLeastLessThan_iff image_eqI list.set_map set_upt zero_le)
  qed
qed

text \<open>
  Port lists. A list that \<open>DARDB_rioGetPortList\<close> returns with success holds as many ports as it says, none twice, and all
  of them ports of the device; the request for all ports is answered with all of them in order, and every request
  for at most as many ports as the device has, none twice and all valid, is answered with exactly these ports.
\<close>

theorem port_list_valid:
  assumes "DARDB_rioGetPortList d ptl = (rc, out)" and "unat (num_ports ptl) \<le> length (pnums ptl) \<or> num_ports ptl = RIO_ALL_PORTS"
  shows "(rc = RIO_SUCCESS \<longrightarrow> length (pnums out) = unat (num_ports out) \<and> distinct (pnums out) \<and> (\<forall>p\<in>set (pnums out). p < NUM_PORTS d)) \<and>
     (rc \<noteq> RIO_SUCCESS \<longrightarrow> num_ports out = 0) \<and>
     (num_ports ptl = RIO_ALL_PORTS \<longrightarrow> rc = RIO_SUCCESS \<and> set (pnums out) = {p. p < NUM_PORTS d}) \<and>
     (let ps = take (unat (num_ports ptl)) (pnums ptl) in
      0 < num_ports ptl \<and> num_ports ptl \<le> NUM_PORTS d \<and> unat (num_ports ptl) \<le> RIO_MAX_PORTS \<and> distinct ps \<and> (\<forall>p\<in>set ps. p < NUM_PORTS d) \<longrightarrow>
      rc = RIO_SUCCESS \<and> pnums out = ps)"
proof (cases "num_ports ptl = RIO_ALL_PORTS")
  case True
  then show ?thesis
    using assms(1) all_ports_list [of "NUM_PORTS d"] by (auto simp: DARDB_rioGetPortList_def Let_def)
next
  case False
  define n where "n = num_ports ptl"
  define ps where "ps = take (unat n) (pnums ptl)"
  have len: "length ps = unat n" "unat n < 256"
    using assms(2) False unsigned_less [of n, where ?'a = nat] by (simp_all add: ps_def n_def)
  show ?thesis
  proof (cases "n > NUM_PORTS d \<or> unat n > RIO_MAX_PORTS \<or> n = 0")
    case True
    then have "rc = RIO_ERR_INVALID_PARAMETER" "out = \<lparr>num_ports = 0, pnums = []\<rparr>"
      using assms(1) False by (auto simp: DARDB_rioGetPortList_def Let_def n_def split: if_splits)
    then show ?thesis
      using True False by (auto simp: n_def)
  next
    case ok: False
    then have res: "rc = ptl_check (NUM_PORTS d) 0 ps {}" "out = (if rc = RIO_SUCCESS then \<lparr>num_ports = n, pnums = ps\<rparr> else \<lparr>num_ports = 0, pnums = []\<rparr>)"
      using assms(1) False by (auto simp: DARDB_rioGetPortList_def Let_def n_def ps_def)
    have good: "rc = RIO_SUCCESS \<Longrightarrow> distinct ps \<and> (\<forall>p\<in>set ps. p < NUM_PORTS d)"
      using ptl_check_success [of "NUM_PORTS d" 0 ps "{}"] res(1) len by simp
    have complete: "distinct ps \<and> (\<forall>p\<in>set ps. p < NUM_PORTS d) \<Longrightarrow> rc = RIO_SUCCESS"
      using ptl_check_complete [of ps "{}" "NUM_PORTS d" 0] res(1) by simp
    have "n \<noteq> RIO_ALL_PORTS"
      using False by (simp add: n_def)
    then show ?thesis
      unfolding Let_def n_def [symmetric] ps_def [symmetric]
      using good complete len(1) res(2) by (cases "rc = RIO_SUCCESS") (simp, simp, blast)
  qed
qed

theorem port_list_valid_witness:
  "DARDB_rioGetPortList (switch_example []) \<lparr>num_ports = 3, pnums = [4, 0, 9]\<rparr> = (RIO_SUCCESS, \<lparr>num_ports = 3, pnums = [4, 0, 9]\<rparr>) \<and>
   distinct [4, 0, 9 :: u8]"
proof -
  have eq: "DARDB_rioGetPortList (switch_example []) \<lparr>num_ports = 3, pnums = [4, 0, 9]\<rparr> = (RIO_SUCCESS, \<lparr>num_ports = 3, pnums = [4, 0, 9]\<rparr>)"
    by (simp add: DARDB_rioGetPortList_def NUM_PORTS_def switch_example_def Let_def)
  from port_list_valid [OF this] eq show ?thesis
    by simp
qed

lemma init_scratchpad_marker: "0xFFFFFFFF \<in> fst ` set es \<Longrightarrow> fst (init_scratchpad_from rd es i s) \<noteq> RIO_SUCCESS"
proof (induction es arbitrary: i s)
  case (Cons e es)
  obtain oset m where e: "e = (oset, m)"
    by (cases e)
  obtain rc x h' where r: "rd (dev_info s) oset (hw s) = (rc, x, h')"
    by (cases "rd (dev_info s) oset (hw s)")
  from Cons.prems have "oset = 0xFFFFFFFF \<or> 0xFFFFFFFF \<in> fst ` set es"
    by (auto simp: e)
  with Cons.IH show ?case
    by (auto simp: e r Let_def)
qed simp

text \<open>
  Two defects of the device access layer. The copy of the registers of a Tsi57x switch is never initialised
  successfully, whatever the registers contain, because reaching the end marker of the table is reported as a failed
  access; and reading the register at offset 0 of such a device, its identity, returns an entry of the copy, never the
  register, because the unused entries of the table are zero. The list of extended features is never followed beyond its
  head, because the mask that tests the pointer is zero.
\<close>

theorem device_access_flaws:
  shows "fst (tsi57x_init_scratchpad rd s) \<noteq> RIO_SUCCESS \<and> tsi57x_ReadReg rd d 0 h = (RIO_SUCCESS, scratchpad d ! 29, h) \<and>
     fst (DARrioGetNextExtFeaturesPtr P currfptr t) \<noteq> RIO_SUCCESS"
proof (intro conjI)
  show "fst (tsi57x_init_scratchpad rd s) \<noteq> RIO_SUCCESS"
    unfolding tsi57x_init_scratchpad_def by (rule init_scratchpad_marker) (simp add: scratchpad_const_def)
  have "filter (\<lambda>i. fst (scratchpad_const ! i) = 0) [0..<30] = [26, 27, 28, 29]"
    by code_simp
  then show "tsi57x_ReadReg rd d 0 h = (RIO_SUCCESS, scratchpad d ! 29, h)"
    by (simp add: tsi57x_ReadReg_def)
qed (simp add: DARrioGetNextExtFeaturesPtr_def)

end
