(* ===== verification/Rxs_Rt.thy ===== *)
theory Rxs_Rt
  imports Dar_Regs
begin

unbundle bit_operations_syntax

text \<open>
  Routing tables of RXS switches, \<^verbatim>\<open>fabric_management/librio/src/RXS_RT.c\<close>, the data of
  \<^verbatim>\<open>RapidIO_Routing_Table_API.h\<close> and the management of multicast masks that the drivers share, in
  \<^verbatim>\<open>RapidIO_DeviceDriverStub.c\<close>. A routing table state is a value; an operation returns its return code, the
  implementation specific code \<open>imp_rc\<close>, and the new state, together with the device where it reads or writes registers.
  A pointer to a state that may be null is an option. The check of the state of each port in \<open>rxs_rio_rt_probe\<close>, which
  depends on the port configuration, is not part of the model.
\<close>

section \<open>Routing table values\<close>

abbreviation (input) RIO_RTE_LVL_G0 :: u32 where "RIO_RTE_LVL_G0 \<equiv> 0x200"
abbreviation (input) RIO_RTE_DROP :: u32 where "RIO_RTE_DROP \<equiv> 0x300"
abbreviation (input) RIO_RTE_DFLT_PORT :: u32 where "RIO_RTE_DFLT_PORT \<equiv> 0x301"
abbreviation (input) RIO_RTE_BAD :: u32 where "RIO_RTE_BAD \<equiv> 0x0FFFFFFF"
abbreviation (input) RIO_RTE_VAL :: u32 where "RIO_RTE_VAL \<equiv> 0x3FF"
abbreviation (input) RIO_RT_GRP_SZ :: nat where "RIO_RT_GRP_SZ \<equiv> 256"
abbreviation (input) RIO_MAX_MC_MASKS :: nat where "RIO_MAX_MC_MASKS \<equiv> 256"
abbreviation (input) tt_dev8 :: u32 where "tt_dev8 \<equiv> 0"
abbreviation (input) tt_dev16 :: u32 where "tt_dev16 \<equiv> 1"

definition RIO_RTV_IS_PORT :: "u32 \<Rightarrow> bool" where
  "RIO_RTV_IS_PORT n \<longleftrightarrow> n AND 0x300 = 0"

definition RIO_RTV_IS_MC_MSK :: "u32 \<Rightarrow> bool" where
  "RIO_RTV_IS_MC_MSK n \<longleftrightarrow> n AND 0x300 = 0x100"

definition RIO_RTV_IS_LVL_GRP :: "u32 \<Rightarrow> bool" where
  "RIO_RTV_IS_LVL_GRP n \<longleftrightarrow> n AND 0x300 = 0x200"

definition RIO_RTV_MC_MSK :: "u32 \<Rightarrow> u32" where
  "RIO_RTV_MC_MSK n = (if n AND NOT 0xFF \<noteq> 0 then RIO_RTE_BAD else 0x100 + n)"

definition RIO_RTV_GET_PORT :: "u32 \<Rightarrow> u32" where
  "RIO_RTV_GET_PORT n = (if \<not> RIO_RTV_IS_PORT n then RIO_RTE_BAD else n AND 0xFF)"

definition RIO_RTV_GET_MC_MSK :: "u32 \<Rightarrow> u32" where
  "RIO_RTV_GET_MC_MSK n = (if \<not> RIO_RTV_IS_MC_MSK n then RIO_RTE_BAD else n AND 0xFF)"

section \<open>Routing table state\<close>

record rio_rt_uc_info_t =
  rte_val :: u32
  uc_changed :: bool

record rio_rt_mc_info_t =
  mc_destID :: u32
  mc_tt :: u32
  mc_mask :: u32
  in_use :: bool
  allocd :: bool
  mc_changed :: bool

record rio_rt_state_t =
  default_route :: u32
  dev_table :: "rio_rt_uc_info_t list"
  dom_table :: "rio_rt_uc_info_t list"
  mc_masks :: "rio_rt_mc_info_t list"

definition NUM_RXS_PORTS :: "DAR_DEV_INFO_t \<Rightarrow> u8" where
  "NUM_RXS_PORTS d = (if NUM_PORTS d > 24 then 24 else NUM_PORTS d)"

definition uc_drop :: rio_rt_uc_info_t where
  "uc_drop = \<lparr>rte_val = RIO_RTE_DROP, uc_changed = True\<rparr>"

definition rxs_chk_and_corr_rtv :: "DAR_DEV_INFO_t \<Rightarrow> rio_rt_uc_info_t \<Rightarrow> bool \<Rightarrow> bool \<Rightarrow> rio_rt_uc_info_t" where
  "rxs_chk_and_corr_rtv d rtv dom_value dflt_port =
     (let chk_val = rte_val rtv AND NOT 0xF0000000;
          rtv1 = (if chk_val AND NOT RIO_RTE_VAL \<noteq> 0 then uc_drop else rtv)
      in if RIO_RTV_IS_PORT chk_val then if RIO_RTV_GET_PORT chk_val \<ge> ucast (NUM_PORTS d) then uc_drop else rtv1
         else if RIO_RTV_IS_MC_MSK chk_val then rtv1
         else if RIO_RTV_IS_LVL_GRP chk_val then
           if \<not> dom_value \<or> dflt_port then uc_drop
           else if RIO_RTE_LVL_G0 \<noteq> chk_val then uc_drop
           else rtv1
         else if RIO_RTE_DFLT_PORT = chk_val then if dflt_port then uc_drop else rtv1
         else if RIO_RTE_DROP = chk_val then rtv1
         else uc_drop)"

definition rxs_chk_dflt_rte_reg :: "DAR_DEV_INFO_t \<Rightarrow> u32 \<Rightarrow> bool" where
  "rxs_chk_dflt_rte_reg d val = uc_changed (rxs_chk_and_corr_rtv d \<lparr>rte_val = val, uc_changed = False\<rparr> False True)"

definition rxs_chk_dom_rte_reg :: "DAR_DEV_INFO_t \<Rightarrow> u32 \<Rightarrow> bool" where
  "rxs_chk_dom_rte_reg d val = uc_changed (rxs_chk_and_corr_rtv d \<lparr>rte_val = val, uc_changed = False\<rparr> True False)"

definition rxs_chk_dev_rte_reg :: "DAR_DEV_INFO_t \<Rightarrow> u32 \<Rightarrow> bool" where
  "rxs_chk_dev_rte_reg d val = uc_changed (rxs_chk_and_corr_rtv d \<lparr>rte_val = val, uc_changed = False\<rparr> False False)"

section \<open>Multicast masks\<close>

text \<open>The search for a mask that is neither in use nor allocated, among the first \<open>cnt\<close>.\<close>

definition DSF_rio_rt_default_alloc_mc_mask :: "rio_rt_state_t option \<Rightarrow> nat \<Rightarrow> u32 \<times> u32 \<times> u32 \<times> rio_rt_state_t option" where
  "DSF_rio_rt_default_alloc_mc_mask rt_opt cnt =
     (case rt_opt of
        None \<Rightarrow> (RIO_ERR_INVALID_PARAMETER, 0x40001501, 0, None)
      | Some rt \<Rightarrow>
          (case find (\<lambda>i. \<not> in_use (mc_masks rt ! i) \<and> \<not> allocd (mc_masks rt ! i)) [0..<cnt] of
             Some i \<Rightarrow> (RIO_SUCCESS, RIO_SUCCESS, RIO_RTV_MC_MSK (of_nat i),
               Some (rt\<lparr>mc_masks := (mc_masks rt)[i := (mc_masks rt ! i)\<lparr>allocd := True\<rparr>]\<rparr>))
           | None \<Rightarrow> (RIO_ERR_INSUFFICIENT_RESOURCES, 0x40001502, RIO_RTE_BAD, Some rt)))"

definition DSF_rio_rt_alloc_mc_mask :: "DAR_DEV_INFO_t \<Rightarrow> rio_rt_state_t option \<Rightarrow> u32 \<times> u32 \<times> u32 \<times> rio_rt_state_t option" where
  "DSF_rio_rt_alloc_mc_mask d rt_opt = DSF_rio_rt_default_alloc_mc_mask rt_opt (unat (NUM_MC_MASKS d))"

definition drop_matching :: "u32 \<Rightarrow> rio_rt_uc_info_t list \<Rightarrow> rio_rt_uc_info_t list" where
  "drop_matching v = map (\<lambda>u. if rte_val u = v then uc_drop else u)"

definition mc_cleared :: "rio_rt_mc_info_t \<Rightarrow> rio_rt_mc_info_t" where
  "mc_cleared m =
     (if in_use m \<or> allocd m
      then \<lparr>mc_destID = 0, mc_tt = tt_dev8, mc_mask = 0, in_use = False, allocd = False, mc_changed = in_use m\<rparr> else m)"

definition dealloc_mask :: "u32 \<Rightarrow> nat \<Rightarrow> rio_rt_state_t \<Rightarrow> rio_rt_state_t" where
  "dealloc_mask rte i rt =
     (let m = mc_masks rt ! i; dev1 = drop_matching rte (dev_table rt);
          dev2 = (if in_use m then dev1[unat (mc_destID m AND 0xFF) := uc_drop] else dev1)
      in rt\<lparr>dev_table := dev2, dom_table := drop_matching rte (dom_table rt), mc_masks := (mc_masks rt)[i := mc_cleared m]\<rparr>)"

definition DSF_rio_rt_dealloc_mc_mask :: "u32 \<Rightarrow> rio_rt_state_t option \<Rightarrow> u32 \<times> u32 \<times> rio_rt_state_t option" where
  "DSF_rio_rt_dealloc_mc_mask rte rt_opt =
     (case rt_opt of
        None \<Rightarrow> (RIO_ERR_INVALID_PARAMETER, 0x40001601, None)
      | Some rt \<Rightarrow>
          (let mc_idx = RIO_RTV_GET_MC_MSK rte
           in if unat mc_idx \<ge> RIO_MAX_MC_MASKS then (RIO_ERR_INVALID_PARAMETER, 0x40001602, Some rt)
              else (RIO_SUCCESS, RIO_SUCCESS, Some (dealloc_mask rte (unat mc_idx) rt))))"

section \<open>Changing routes\<close>

record rio_rt_change_rte_in_t =
  dom_entry :: bool
  rte_idx :: u8
  rte_value :: u32

text \<open>A value that only this entry has, when it is a multicast mask, is deallocated.\<close>

definition other_user :: "rio_rt_state_t \<Rightarrow> nat \<Rightarrow> bool \<Rightarrow> u32 \<Rightarrow> bool" where
  "other_user rt idx is_dom v \<longleftrightarrow>
     (\<exists>srch<RIO_RT_GRP_SZ. ((idx \<noteq> srch \<or> is_dom) \<and> rte_val (dev_table rt ! srch) = v) \<or>
        ((idx \<noteq> srch \<or> \<not> is_dom) \<and> rte_val (dom_table rt ! srch) = v))"

definition rxs_tidy_routing_table :: "rio_rt_state_t \<Rightarrow> nat \<Rightarrow> bool \<Rightarrow> u32 \<times> u32 \<times> rio_rt_state_t" where
  "rxs_tidy_routing_table rt idx is_dom =
     (let chk_val = rte_val ((if is_dom then dom_table rt else dev_table rt) ! idx) in
      if \<not> RIO_RTV_IS_MC_MSK chk_val \<or> other_user rt idx is_dom chk_val then (RIO_SUCCESS, RIO_SUCCESS, rt)
      else (let (rc, imp, rt') = DSF_rio_rt_dealloc_mc_mask chk_val (Some rt) in (rc, if rc \<noteq> RIO_SUCCESS then imp else RIO_SUCCESS, the rt')))"

definition set_entry :: "bool \<Rightarrow> nat \<Rightarrow> u32 \<Rightarrow> rio_rt_state_t \<Rightarrow> rio_rt_state_t" where
  "set_entry is_dom i v rt =
     (if is_dom then rt\<lparr>dom_table := (dom_table rt)[i := \<lparr>rte_val = v, uc_changed = True\<rparr>]\<rparr>
      else rt\<lparr>dev_table := (dev_table rt)[i := \<lparr>rte_val = v, uc_changed = True\<rparr>]\<rparr>)"

definition rxs_rio_rt_change_rte :: "DAR_DEV_INFO_t \<Rightarrow> rio_rt_change_rte_in_t \<Rightarrow> rio_rt_state_t option \<Rightarrow> u32 \<times> u32 \<times> rio_rt_state_t option" where
  "rxs_rio_rt_change_rte d p rt_opt =
     (case rt_opt of
        None \<Rightarrow> (RIO_ERR_INVALID_PARAMETER, 0x40001701, None)
      | Some rt \<Rightarrow>
          (let v = rte_value p; i = unat (rte_idx p) in
           if dom_entry p \<and> rte_idx p = 0 then
             if v = rte_val (dom_table rt ! 0) then (RIO_SUCCESS, RIO_SUCCESS, Some rt)
             else (RIO_ERR_INVALID_PARAMETER, 0x40001704, Some rt)
           else
             (let temp_rte = rxs_chk_and_corr_rtv d \<lparr>rte_val = v, uc_changed = False\<rparr> (dom_entry p) False in
              if uc_changed temp_rte then (RIO_ERR_INVALID_PARAMETER, 0x40001710, Some rt)
              else if RIO_RTV_IS_MC_MSK v \<and> \<not> in_use (mc_masks rt ! unat (RIO_RTV_GET_MC_MSK v)) then
                (RIO_ERR_INVALID_PARAMETER, 0x40001720, Some rt)
              else if rte_val ((if dom_entry p then dom_table rt else dev_table rt) ! i) = rte_val temp_rte then
                (RIO_SUCCESS, RIO_SUCCESS, Some rt)
              else
                (let (rc, imp, rt') = rxs_tidy_routing_table rt i (dom_entry p)
                 in if rc \<noteq> RIO_SUCCESS then (rc, imp, Some rt') else (rc, imp, Some (set_entry (dom_entry p) i v rt'))))))"

record rio_rt_change_mc_mask_in_t =
  mc_mask_rte :: u32
  mc_info :: rio_rt_mc_info_t

definition illegal_ports :: "DAR_DEV_INFO_t \<Rightarrow> u32" where
  "illegal_ports d = NOT (push_bit (unat (NUM_RXS_PORTS d)) 1 - 1)"

definition set_if_other :: "bool \<Rightarrow> nat \<Rightarrow> u32 \<Rightarrow> rio_rt_state_t \<Rightarrow> rio_rt_state_t" where
  "set_if_other is_dom i v rt =
     (if rte_val ((if is_dom then dom_table rt else dev_table rt) ! i) \<noteq> v then set_entry is_dom i v rt else rt)"

definition route_to_mask :: "rio_rt_mc_info_t \<Rightarrow> u32 \<Rightarrow> rio_rt_state_t \<Rightarrow> rio_rt_state_t" where
  "route_to_mask info rte rt =
     (let dom_idx = unat (drop_bit 8 (mc_destID info AND 0xFF00)); dev_idx = unat (mc_destID info AND 0xFF) in
      if mc_tt info = tt_dev16 \<and> \<not> RIO_RTV_IS_LVL_GRP (rte_val (dom_table rt ! dom_idx)) then set_if_other True dom_idx rte rt
      else set_if_other False dev_idx rte rt)"

definition set_mask :: "rio_rt_mc_info_t \<Rightarrow> rio_rt_mc_info_t \<Rightarrow> rio_rt_mc_info_t" where
  "set_mask info m =
     (let m1 = (if mc_mask m \<noteq> mc_mask info then m\<lparr>mc_mask := mc_mask info, mc_changed := True\<rparr> else m)
      in if in_use m1 \<and> allocd m1 then m1
         else m1\<lparr>mc_changed := True, in_use := True, allocd := True, mc_destID := mc_destID info, mc_tt := mc_tt info\<rparr>)"

definition rxs_rio_rt_change_mc_mask ::
  "DAR_DEV_INFO_t \<Rightarrow> rio_rt_change_mc_mask_in_t \<Rightarrow> rio_rt_state_t option \<Rightarrow> u32 \<times> u32 \<times> rio_rt_state_t option" where
  "rxs_rio_rt_change_mc_mask d p rt_opt =
     (case rt_opt of
        None \<Rightarrow> (RIO_ERR_INVALID_PARAMETER, 0x40001801, None)
      | Some rt \<Rightarrow>
          (let info = mc_info p; rte = mc_mask_rte p in
           if mc_destID info > 0xFFFF \<or> (mc_destID info > 0xFF \<and> mc_tt info = tt_dev8) then
             (RIO_ERR_INVALID_PARAMETER, 0x40001802, Some rt)
           else if mc_mask info AND illegal_ports d \<noteq> 0 \<or> mc_tt info > tt_dev16 then
             (RIO_ERR_INVALID_PARAMETER, 0x40001803, Some rt)
           else if \<not> in_use info then
             (let (rc, imp, rt') = DSF_rio_rt_dealloc_mc_mask rte (Some rt) in (rc, if rc \<noteq> RIO_SUCCESS then imp else RIO_SUCCESS, rt'))
           else
             (let chg_idx = RIO_RTV_GET_MC_MSK rte
              in if unat chg_idx \<ge> RIO_MAX_MC_MASKS then (RIO_ERR_INVALID_PARAMETER, 0x40001804, Some rt)
                 else
                   (let rt1 = route_to_mask info rte rt
                    in (RIO_SUCCESS, RIO_SUCCESS,
                        Some (rt1\<lparr>mc_masks := (mc_masks rt1)[unat chg_idx := set_mask info (mc_masks rt1 ! unat chg_idx)]\<rparr>))))))"

section \<open>Checking the route of a destination\<close>

datatype rio_rt_disc_reason_t = rio_rt_disc_not | rio_rt_disc_rt_invalid | rio_rt_disc_deliberately | rio_rt_disc_port_unavail
  | rio_rt_disc_port_pwdn | rio_rt_disc_port_fail | rio_rt_disc_port_no_lp | rio_rt_disc_port_lkout_or_dis
  | rio_rt_disc_port_in_out_dis | rio_rt_disc_mc_empty | rio_rt_disc_mc_one_bit | rio_rt_disc_mc_mult_masks
  | rio_rt_disc_dflt_pt_invalid | rio_rt_disc_dflt_pt_deliberately | rio_rt_disc_dflt_pt_unavail | rio_rt_disc_dflt_pt_pwdn
  | rio_rt_disc_dflt_pt_fail | rio_rt_disc_dflt_pt_no_lp | rio_rt_disc_dflt_pt_lkout_or_dis | rio_rt_disc_dflt_pt_in_out_dis
  | rio_rt_disc_imp_spec | rio_rt_disc_probe_abort | rio_rt_disc_dflt_pt_used

record rio_rt_probe_in_t =
  probe_on_port :: u8
  probe_tt :: u32
  destID :: u32

record rio_rt_probe_out_t =
  valid_route :: bool
  routing_table_value :: u32
  out_default_route :: u32
  mcast_ports :: "bool list"
  reason_for_discard :: rio_rt_disc_reason_t

definition legal_ports :: "DAR_DEV_INFO_t \<Rightarrow> u32" where
  "legal_ports d = push_bit (unat (NUM_RXS_PORTS d)) 1 - 1"

definition discard :: "rio_rt_disc_reason_t \<Rightarrow> rio_rt_probe_out_t \<Rightarrow> rio_rt_probe_out_t" where
  "discard reason out = out\<lparr>valid_route := False, reason_for_discard := reason\<rparr>"

definition rxs_check_multicast_routing ::
  "DAR_DEV_INFO_t \<Rightarrow> rio_rt_probe_in_t \<Rightarrow> rio_rt_state_t \<Rightarrow> u32 \<Rightarrow> rio_rt_probe_out_t \<Rightarrow> rio_rt_probe_out_t" where
  "rxs_check_multicast_routing d p rt rte out =
     (let mc_idx = RIO_RTV_GET_MC_MSK rte in
      if mc_idx > 0xFF then discard rio_rt_disc_mc_mult_masks out
      else
        (let mc = mc_masks rt ! unat mc_idx in
         if \<not> in_use mc then discard rio_rt_disc_mc_empty out
         else if mc_mask mc AND legal_ports d = 0 then discard rio_rt_disc_mc_empty out
         else
           (let others = filter (\<lambda>b. b \<noteq> unat (probe_on_port p)) [0..<unat (NUM_RXS_PORTS d)];
                out' = out\<lparr>mcast_ports := fold (\<lambda>b ps. ps[b := bit (mc_mask mc) b]) others (mcast_ports out)\<rparr>
            in if filter (\<lambda>b. bit (mc_mask mc) b) others = [] then discard rio_rt_disc_mc_one_bit out' else out')))"

text \<open>The part of \<open>rxs_check_routing\<close> that follows the choice of the routing table entry \<open>rte\<close>.\<close>

definition check_rte :: "DAR_DEV_INFO_t \<Rightarrow> rio_rt_probe_in_t \<Rightarrow> rio_rt_state_t \<Rightarrow> u32 \<Rightarrow> rio_rt_probe_out_t \<Rightarrow> rio_rt_probe_out_t" where
  "check_rte d p rt rte out0 =
     (let out = out0\<lparr>routing_table_value := rte, valid_route := True, reason_for_discard := rio_rt_disc_not\<rparr> in
      if rte = RIO_RTE_DROP then discard rio_rt_disc_deliberately out
      else if rte AND RIO_RTE_VAL = RIO_RTE_DFLT_PORT then
        (let rte = out_default_route out in
         if rxs_chk_dflt_rte_reg d rte then discard rio_rt_disc_dflt_pt_invalid out
         else if rte = RIO_RTE_DROP then discard rio_rt_disc_dflt_pt_deliberately out
         else if RIO_RTV_IS_MC_MSK rte then rxs_check_multicast_routing d p rt rte out
         else out)
      else if RIO_RTV_IS_MC_MSK rte then rxs_check_multicast_routing d p rt rte out
      else out)"

definition rxs_check_routing ::
  "DAR_DEV_INFO_t \<Rightarrow> rio_rt_probe_in_t \<Rightarrow> rio_rt_state_t \<Rightarrow> rio_rt_probe_out_t \<Rightarrow> rio_rt_probe_out_t" where
  "rxs_check_routing d p rt out =
     (let dom_rte = rte_val (dom_table rt ! unat (ucast (drop_bit 8 (destID p AND 0xFF00)) :: u8));
          dev_rte = rte_val (dev_table rt ! unat (ucast (destID p AND 0xFF) :: u8));
          rte = (if probe_tt p = tt_dev16 then dom_rte else 0) in
      if probe_tt p = tt_dev16 \<and> rxs_chk_dom_rte_reg d dom_rte then discard rio_rt_disc_rt_invalid out
      else if probe_tt p = tt_dev8 \<or> rte AND RIO_RTE_VAL = RIO_RTE_LVL_G0 then
        if rxs_chk_dev_rte_reg d dev_rte then discard rio_rt_disc_rt_invalid out
        else check_rte d p rt dev_rte out
      else check_rte d p rt rte out)"

section \<open>Initial state\<close>

text \<open>The state that \<open>rxs_rio_rt_initialize\<close> builds before it programs the device.\<close>

definition mc_unused :: rio_rt_mc_info_t where
  "mc_unused = \<lparr>mc_destID = 0, mc_tt = tt_dev8, mc_mask = 0, in_use = False, allocd = False, mc_changed = True\<rparr>"

definition rt_initial :: "u32 \<Rightarrow> u32 \<Rightarrow> rio_rt_state_t" where
  "rt_initial dflt v =
     \<lparr>default_route = dflt, dev_table = replicate RIO_RT_GRP_SZ \<lparr>rte_val = v, uc_changed = True\<rparr>,
      dom_table = \<lparr>rte_val = RIO_RTE_LVL_G0, uc_changed = True\<rparr> # replicate (RIO_RT_GRP_SZ - 1) \<lparr>rte_val = v, uc_changed = True\<rparr>,
      mc_masks = replicate RIO_MAX_MC_MASKS mc_unused\<rparr>"

section \<open>Well-formed routing tables\<close>

text \<open>
  An entry is well formed when it has no bits outside the routing value, its check accepts it, and the multicast mask it
  selects, if any, is in use. A state is well formed when its tables have their size, every entry is well formed, domain 0
  uses the device table, every mask in use is allocated and no mask selects a port that does not exist.
\<close>

definition entry_ok :: "DAR_DEV_INFO_t \<Rightarrow> rio_rt_mc_info_t list \<Rightarrow> bool \<Rightarrow> u32 \<Rightarrow> bool" where
  "entry_ok d ms is_dom v \<longleftrightarrow>
     v \<le> RIO_RTE_VAL \<and> \<not> (if is_dom then rxs_chk_dom_rte_reg d v else rxs_chk_dev_rte_reg d v) \<and>
     (RIO_RTV_IS_MC_MSK v \<longrightarrow> in_use (ms ! unat (v AND 0xFF)))"

definition mask_ok :: "DAR_DEV_INFO_t \<Rightarrow> rio_rt_mc_info_t \<Rightarrow> bool" where
  "mask_ok d m \<longleftrightarrow> (in_use m \<longrightarrow> allocd m) \<and> mc_mask m AND illegal_ports d = 0"

definition rt_wf :: "DAR_DEV_INFO_t \<Rightarrow> rio_rt_state_t \<Rightarrow> bool" where
  "rt_wf d rt \<longleftrightarrow>
     length (dev_table rt) = RIO_RT_GRP_SZ \<and> length (dom_table rt) = RIO_RT_GRP_SZ \<and> length (mc_masks rt) = RIO_MAX_MC_MASKS \<and>
     rte_val (dom_table rt ! 0) = RIO_RTE_LVL_G0 \<and>
     default_route rt \<le> RIO_RTE_VAL \<and> \<not> rxs_chk_dflt_rte_reg d (default_route rt) \<and>
     (\<forall>i<RIO_RT_GRP_SZ. entry_ok d (mc_masks rt) False (rte_val (dev_table rt ! i))) \<and>
     (\<forall>i<RIO_RT_GRP_SZ. entry_ok d (mc_masks rt) True (rte_val (dom_table rt ! i))) \<and>
     (\<forall>i<RIO_MAX_MC_MASKS. mask_ok d (mc_masks rt ! i))"

lemma rt_wfD:
  assumes "rt_wf d rt"
  shows "length (dev_table rt) = 256" "length (dom_table rt) = 256" "length (mc_masks rt) = 256"
    "rte_val (dom_table rt ! 0) = 0x200" "default_route rt \<le> 0x3FF \<and> \<not> rxs_chk_dflt_rte_reg d (default_route rt)"
    "i < 256 \<Longrightarrow> entry_ok d (mc_masks rt) False (rte_val (dev_table rt ! i))"
    "i < 256 \<Longrightarrow> entry_ok d (mc_masks rt) True (rte_val (dom_table rt ! i))" "i < 256 \<Longrightarrow> mask_ok d (mc_masks rt ! i)"
  using assms by (simp_all add: rt_wf_def)

text \<open>The type of a routing value as a number.\<close>

lemma rtv_type: "unat (v AND 0x300 :: u32) = unat v div 256 mod 4 * 256"
proof -
  have m: "(0x300 :: u32) = push_bit 8 (mask 2)" by (simp add: mask_eq_exp_minus_1)
  have "v AND 0x300 = push_bit 8 (drop_bit 8 v AND mask 2)"
    unfolding m by (rule bit_word_eqI; simp only: bit_simps; auto)
  moreover have "take_bit 32 (unat v) = unat v" using unsigned_less [of v] by (intro take_bit_nat_eq_self) simp
  ultimately have "unat (v AND 0x300) = take_bit 32 (push_bit 8 (take_bit 2 (drop_bit 8 (unat v))))"
    by (simp only: take_bit_eq_mask [symmetric] unsigned_push_bit_eq unsigned_take_bit_eq unsigned_drop_bit_eq)
      simp
  moreover have "unat v div 256 mod 4 * 256 < 2 ^ 32" by (rule less_trans [of _ 1024]) simp_all
  ultimately show ?thesis by (simp add: take_bit_eq_mod push_bit_eq_mult drop_bit_eq_div)
qed

lemma rtv_index: "unat (v AND 0xFF :: u32) = unat v mod 256"
proof -
  have "(0xFF :: u32) = mask 8" by (simp add: mask_eq_exp_minus_1)
  then show ?thesis by (simp only: take_bit_eq_mask [symmetric] unsigned_take_bit_eq) (simp add: take_bit_eq_mod)
qed

lemma rtv_types:
  "RIO_RTV_IS_PORT v \<longleftrightarrow> unat v div 256 mod 4 = 0" "RIO_RTV_IS_MC_MSK v \<longleftrightarrow> unat v div 256 mod 4 = 1"
  "RIO_RTV_IS_LVL_GRP v \<longleftrightarrow> unat v div 256 mod 4 = 2"
  unfolding RIO_RTV_IS_PORT_def RIO_RTV_IS_MC_MSK_def RIO_RTV_IS_LVL_GRP_def word_unat_eq_iff rtv_type by simp_all

text \<open>Multicast values are \<open>0x100\<close> and a mask number.\<close>

lemma mc_value:
  assumes "RIO_RTV_IS_MC_MSK v" "v \<le> 0x3FF"
  shows "unat v = 256 + unat (v AND 0xFF)"
proof -
  have "unat v div 256 < 4" "unat v div 256 mod 4 = 1"
    using assms by (simp_all add: word_le_nat_alt rtv_types)
  then have "unat v div 256 = 1" by simp
  then show ?thesis unfolding rtv_index using div_mult_mod_eq [of "unat v" 256] by simp
qed

lemma mc_value_inj:
  assumes "RIO_RTV_IS_MC_MSK v" "v \<le> 0x3FF" "RIO_RTV_IS_MC_MSK w" "w \<le> 0x3FF" "unat (v AND 0xFF) = unat (w AND 0xFF)"
  shows "v = w"
  using mc_value [OF assms(1,2)] mc_value [OF assms(3,4)] assms(5) by (simp add: word_unat_eq_iff)

lemma rtv_small:
  fixes v :: u32
  assumes "v \<le> 0x3FF"
  shows "v AND NOT 0xF0000000 = v" "v AND NOT 0x3FF = 0"
proof -
  have m: "(0x3FF :: u32) = mask 10" "(0xF0000000 :: u32) = push_bit 28 (mask 4)" by (simp_all add: mask_eq_exp_minus_1)
  have "fits 10 v" using assms by (simp add: fits_def word_le_nat_alt)
  note b = fits_bit [OF this]
  show "v AND NOT 0xF0000000 = v" "v AND NOT 0x3FF = 0"
    unfolding m by (rule bit_word_eqI; simp only: bit_simps; auto dest: b)+
qed

lemma entry_ok_drop: "entry_ok d ms is_dom 0x300"
  by (simp add: entry_ok_def rxs_chk_dom_rte_reg_def rxs_chk_dev_rte_reg_def rxs_chk_and_corr_rtv_def RIO_RTV_IS_PORT_def
      RIO_RTV_IS_MC_MSK_def RIO_RTV_IS_LVL_GRP_def)

lemma entry_ok_mc:
  assumes "RIO_RTV_IS_MC_MSK v" "v \<le> 0x3FF" "in_use (ms ! unat (v AND 0xFF))"
  shows "entry_ok d ms is_dom v"
  using assms rtv_small [OF assms(2)]
  by (simp add: entry_ok_def rxs_chk_dom_rte_reg_def rxs_chk_dev_rte_reg_def rxs_chk_and_corr_rtv_def rtv_types)

lemma entry_ok_other:
  assumes "entry_ok d ms is_dom v" "\<And>i. RIO_RTV_IS_MC_MSK v \<Longrightarrow> i = unat (v AND 0xFF) \<Longrightarrow> in_use (ms ! i) \<Longrightarrow> in_use (ms' ! i)"
  shows "entry_ok d ms' is_dom v"
  using assms by (simp add: entry_ok_def)

section \<open>Operations keep tables well formed\<close>

lemma nth_upd: "j < length xs \<Longrightarrow> xs[i := x] ! j = (if i = j then x else xs ! j)"
  by (cases "i = j") simp_all

lemma idx_less [simp]: "unat (v AND 0xFF :: u32) < 256"
  by (simp add: rtv_index)

lemma rt_wfI:
  assumes "length (dev_table rt) = 256" "length (dom_table rt) = 256" "length (mc_masks rt) = 256"
    "rte_val (dom_table rt ! 0) = 0x200" "default_route rt \<le> 0x3FF \<and> \<not> rxs_chk_dflt_rte_reg d (default_route rt)"
    "\<And>i. i < 256 \<Longrightarrow> entry_ok d (mc_masks rt) False (rte_val (dev_table rt ! i))"
    "\<And>i. i < 256 \<Longrightarrow> entry_ok d (mc_masks rt) True (rte_val (dom_table rt ! i))" "\<And>i. i < 256 \<Longrightarrow> mask_ok d (mc_masks rt ! i)"
  shows "rt_wf d rt"
  using assms by (simp add: rt_wf_def)

lemma mask_ok_cleared: "mask_ok d m \<Longrightarrow> mask_ok d (mc_cleared m)"
  by (simp add: mask_ok_def mc_cleared_def)

lemma drop_matching_nth:
  "i < length us \<Longrightarrow> rte_val (drop_matching v us ! i) = (if rte_val (us ! i) = v then 0x300 else rte_val (us ! i))"
  by (simp add: drop_matching_def uc_drop_def)

lemma uc_drop_simps [simp]: "rte_val uc_drop = 0x300" "uc_changed uc_drop" "length (drop_matching v us) = length us"
  by (simp_all add: uc_drop_def drop_matching_def)

text \<open>Clearing mask \<open>i\<close> leaves every entry but those that select it well formed.\<close>

lemma entry_ok_dealloc:
  assumes ok: "entry_ok d ms is_dom v" and len: "length ms = 256" and rte: "RIO_RTV_IS_MC_MSK rte" "rte \<le> 0x3FF" and ne: "v \<noteq> rte"
  shows "entry_ok d (ms[unat (rte AND 0xFF) := m]) is_dom v"
proof (rule entry_ok_other [OF ok])
  fix i assume "RIO_RTV_IS_MC_MSK v" "i = unat (v AND 0xFF)" "in_use (ms ! i)"
  moreover from this have "i \<noteq> unat (rte AND 0xFF)" using mc_value_inj [of v rte] rte ne ok by (auto simp: entry_ok_def)
  ultimately show "in_use (ms[unat (rte AND 0xFF) := m] ! i)" by simp
qed

lemma rt_wf_dealloc_mask:
  assumes wf: "rt_wf d rt" and rte: "RIO_RTV_IS_MC_MSK rte" "rte \<le> 0x3FF"
  shows "rt_wf d (dealloc_mask rte (unat (rte AND 0xFF)) rt)" (is "rt_wf d ?rt")
proof (rule rt_wfI)
  note w = rt_wfD [OF wf] and dm = dealloc_mask_def [of rte _ rt, unfolded Let_def]
  note okd = entry_ok_dealloc [OF _ w(3) rte]
  have "rte \<noteq> 0x200" using rte(1) by (auto simp: RIO_RTV_IS_MC_MSK_def)
  then show "rte_val (dom_table ?rt ! 0) = 0x200" using w by (simp add: dm drop_matching_nth)
  show "length (dev_table ?rt) = 256" "length (dom_table ?rt) = 256" "length (mc_masks ?rt) = 256"
    "default_route ?rt \<le> 0x3FF \<and> \<not> rxs_chk_dflt_rte_reg d (default_route ?rt)"
    using w by (simp_all add: dm)
  fix i :: nat assume i: "i < 256"
  show "entry_ok d (mc_masks ?rt) True (rte_val (dom_table ?rt ! i))"
    using i w okd [OF w(7) [OF i]] by (simp add: dm drop_matching_nth entry_ok_drop)
  show "entry_ok d (mc_masks ?rt) False (rte_val (dev_table ?rt ! i))"
    using i w okd [OF w(6) [OF i]] by (simp add: dm drop_matching_nth entry_ok_drop nth_list_update)
  show "mask_ok d (mc_masks ?rt ! i)" using i w by (simp add: dm nth_list_update mask_ok_cleared)
qed

lemma dealloc_cases:
  "DSF_rio_rt_dealloc_mc_mask rte (Some rt) =
     (if RIO_RTV_IS_MC_MSK rte then (RIO_SUCCESS, RIO_SUCCESS, Some (dealloc_mask rte (unat (rte AND 0xFF)) rt))
      else (RIO_ERR_INVALID_PARAMETER, 0x40001602, Some rt))"
  using idx_less [of rte] by (auto simp: DSF_rio_rt_dealloc_mc_mask_def RIO_RTV_GET_MC_MSK_def Let_def simp del: idx_less)

text \<open>Storing a well-formed value in an entry other than that of domain 0.\<close>

lemma rt_wf_set_entry:
  assumes wf: "rt_wf d rt" and ok: "entry_ok d (mc_masks rt) is_dom v" and i: "is_dom \<longrightarrow> i \<noteq> 0"
  shows "rt_wf d (set_entry is_dom i v rt)"
proof -
  note w = rt_wfD [OF wf]
  have nth: "rte_val (us[i := \<lparr>rte_val = v, uc_changed = True\<rparr>] ! j) = (if i = j then v else rte_val (us ! j))"
    if "j < length us" for us :: "rio_rt_uc_info_t list" and j using that by (simp add: nth_upd)
  show ?thesis
    by (rule rt_wfI; use w ok i in \<open>cases is_dom; simp add: set_entry_def nth\<close>)
qed

lemma rt_wf_set_if_other:
  "rt_wf d rt \<Longrightarrow> entry_ok d (mc_masks rt) is_dom v \<Longrightarrow> is_dom \<longrightarrow> i \<noteq> 0 \<Longrightarrow> rt_wf d (set_if_other is_dom i v rt)"
  by (simp add: set_if_other_def rt_wf_set_entry)

text \<open>Changing a mask without releasing it.\<close>

lemma rt_wf_set_masks:
  assumes wf: "rt_wf d rt" and m: "mask_ok d m" "in_use (mc_masks rt ! i) \<longrightarrow> in_use m"
  shows "rt_wf d (rt\<lparr>mc_masks := (mc_masks rt)[i := m]\<rparr>)"
proof -
  note w = rt_wfD [OF wf]
  have ok: "entry_ok d ((mc_masks rt)[i := m]) is_dom v" if "entry_ok d (mc_masks rt) is_dom v" for is_dom v
    using that m(2) w(3) by (intro entry_ok_other [OF that]) (simp add: nth_upd)
  show ?thesis by (rule rt_wfI; use w m in \<open>simp add: ok nth_upd\<close>)
qed

lemma rt_wf_alloc:
  assumes "rt_wf d rt" "DSF_rio_rt_alloc_mc_mask d (Some rt) = (rc, imp, v, Some rt')"
  shows "rt_wf d rt'"
proof (cases "find (\<lambda>i. \<not> in_use (mc_masks rt ! i) \<and> \<not> allocd (mc_masks rt ! i)) [0..<unat (NUM_MC_MASKS d)]")
  case None
  then show ?thesis using assms by (simp add: DSF_rio_rt_alloc_mc_mask_def DSF_rio_rt_default_alloc_mc_mask_def)
next
  case (Some i)
  have "unat (NUM_MC_MASKS d) < 256" using unsigned_less [of "NUM_MC_MASKS d"] by simp
  with Some have i: "i < 256" "\<not> in_use (mc_masks rt ! i)" by (auto simp: find_Some_iff)
  have "rt_wf d (rt\<lparr>mc_masks := (mc_masks rt)[i := (mc_masks rt ! i)\<lparr>allocd := True\<rparr>]\<rparr>)"
    using assms(1) rt_wfD(8) [OF assms(1) i(1)] i(2) by (intro rt_wf_set_masks) (simp_all add: mask_ok_def)
  then show ?thesis using assms(2) Some
    by (simp add: DSF_rio_rt_alloc_mc_mask_def DSF_rio_rt_default_alloc_mc_mask_def)
qed

lemma rt_wf_dealloc:
  assumes "rt_wf d rt" "rte \<le> 0x3FF" "DSF_rio_rt_dealloc_mc_mask rte (Some rt) = (rc, imp, Some rt')"
  shows "rt_wf d rt'"
  using assms rt_wf_dealloc_mask [OF assms(1) _ assms(2)] by (auto simp: dealloc_cases split: if_splits)

text \<open>
  Tidying keeps every mask that is in use, except the one the entry selects; only the entry itself can have selected it.
\<close>

lemma tidy_masks:
  assumes "rt_wf d rt" "rxs_tidy_routing_table rt i is_dom = (rc, imp, rt')" "i < 256"
    "old = rte_val ((if is_dom then dom_table rt else dev_table rt) ! i)"
  shows "rt_wf d rt'" "rc = RIO_SUCCESS"
    "RIO_RTV_IS_MC_MSK v \<Longrightarrow> v \<le> 0x3FF \<Longrightarrow> v \<noteq> old \<Longrightarrow> in_use (mc_masks rt ! unat (v AND 0xFF)) \<Longrightarrow>
       in_use (mc_masks rt' ! unat (v AND 0xFF))"
proof -
  note w = rt_wfD [OF assms(1)]
  have old: "old \<le> 0x3FF" using w(6,7) [OF assms(3)] assms(4) by (simp add: entry_ok_def split: if_splits)
  have eq: "rt' = rt \<or> RIO_RTV_IS_MC_MSK old \<and> rt' = dealloc_mask old (unat (old AND 0xFF)) rt" "rc = RIO_SUCCESS"
    using assms(2,4) by (auto simp: rxs_tidy_routing_table_def dealloc_cases Let_def split: if_splits)
  show "rt_wf d rt'" using eq(1) assms(1) rt_wf_dealloc_mask [OF assms(1) _ old] by blast
  show "rc = RIO_SUCCESS" by (rule eq)
  assume v: "RIO_RTV_IS_MC_MSK v" "v \<le> 0x3FF" "v \<noteq> old" and u: "in_use (mc_masks rt ! unat (v AND 0xFF))"
  have "unat (v AND 0xFF) \<noteq> unat (old AND 0xFF)" if "RIO_RTV_IS_MC_MSK old"
    using mc_value_inj [OF v(1,2) that old] v(3) by blast
  then show "in_use (mc_masks rt' ! unat (v AND 0xFF))" using eq(1) u by (auto simp: dealloc_mask_def Let_def)
qed

lemma chk_unchanged:
  "\<not> uc_changed (rxs_chk_and_corr_rtv d r is_dom dflt) \<Longrightarrow> rxs_chk_and_corr_rtv d r is_dom dflt = r"
  by (auto simp: rxs_chk_and_corr_rtv_def Let_def split: if_splits)

lemma chk_entry_reg:
  "uc_changed (rxs_chk_and_corr_rtv d \<lparr>rte_val = v, uc_changed = False\<rparr> is_dom False) =
     (if is_dom then rxs_chk_dom_rte_reg d v else rxs_chk_dev_rte_reg d v)"
  by (simp add: rxs_chk_dom_rte_reg_def rxs_chk_dev_rte_reg_def)

text \<open>A successful change of an entry has left it alone, or has tidied the table and stored the value.\<close>

lemma change_rte_cases:
  assumes "rt_wf d rt" "rte_value p \<le> 0x3FF" "rxs_rio_rt_change_rte d p (Some rt) = (rc, imp, Some rt')"
  obtains (same) "rt' = rt" "rc = RIO_SUCCESS \<longrightarrow> rte_val ((if dom_entry p then dom_table rt else dev_table rt) ! unat (rte_idx p)) = rte_value p"
  | (changed) rt1 imp1 where "rc = RIO_SUCCESS" "rxs_tidy_routing_table rt (unat (rte_idx p)) (dom_entry p) = (RIO_SUCCESS, imp1, rt1)"
      "dom_entry p \<longrightarrow> rte_idx p \<noteq> 0" "rte_val ((if dom_entry p then dom_table rt else dev_table rt) ! unat (rte_idx p)) \<noteq> rte_value p"
      "entry_ok d (mc_masks rt) (dom_entry p) (rte_value p)" "rt' = set_entry (dom_entry p) (unat (rte_idx p)) (rte_value p) rt1"
proof -
  let ?v = "rte_value p" and ?i = "unat (rte_idx p)"
  let ?old = "rte_val ((if dom_entry p then dom_table rt else dev_table rt) ! ?i)"
  let ?chk = "rxs_chk_and_corr_rtv d \<lparr>rte_val = ?v, uc_changed = False\<rparr> (dom_entry p) False"
  let ?no_mask = "RIO_RTV_IS_MC_MSK ?v \<and> \<not> in_use (mc_masks rt ! unat (RIO_RTV_GET_MC_MSK ?v))"
  have i: "?i < 256" using unsigned_less [of "rte_idx p"] by simp
  show thesis
  proof (cases "dom_entry p \<and> rte_idx p = 0 \<or> uc_changed ?chk \<or> ?no_mask \<or> ?old = ?v")
    case True
    then have "rt' = rt \<and> (rc = RIO_SUCCESS \<longrightarrow> ?old = ?v)" using assms(3) chk_unchanged [of d "\<lparr>rte_val = ?v, uc_changed = False\<rparr>" "dom_entry p" False]
      by (auto simp: rxs_rio_rt_change_rte_def Let_def split: if_splits)
    then show thesis using same by simp
  next
    case False
    obtain rc1 imp1 rt1 where tidy: "rxs_tidy_routing_table rt ?i (dom_entry p) = (rc1, imp1, rt1)" by (cases rule: prod_cases3)
    have rc1: "rc1 = RIO_SUCCESS" by (rule tidy_masks(2) [OF assms(1) tidy i refl])
    have ok: "entry_ok d (mc_masks rt) (dom_entry p) ?v"
      using False assms(2) unfolding chk_entry_reg entry_ok_def by (auto simp: RIO_RTV_GET_MC_MSK_def)
    have "rc = RIO_SUCCESS \<and> rt' = set_entry (dom_entry p) ?i ?v rt1"
      using False assms(3) tidy rc1 chk_unchanged [of d "\<lparr>rte_val = ?v, uc_changed = False\<rparr>" "dom_entry p" False]
      by (auto simp: rxs_rio_rt_change_rte_def Let_def split: if_splits)
    then show thesis using changed [of imp1 rt1] tidy rc1 ok False by simp
  qed
qed

lemma rt_wf_change_rte:
  assumes "rt_wf d rt" "rte_value p \<le> 0x3FF" "rxs_rio_rt_change_rte d p (Some rt) = (rc, imp, Some rt')"
  shows "rt_wf d rt'"
  using assms
proof (cases rule: change_rte_cases)
  case (changed rt1 imp1)
  have i: "unat (rte_idx p) < 256" using unsigned_less [of "rte_idx p"] by simp
  note tidy = tidy_masks [OF assms(1) changed(2) i refl]
  have "entry_ok d (mc_masks rt1) (dom_entry p) (rte_value p)"
    using changed(4) assms(2) tidy(3) [of "rte_value p"] by (intro entry_ok_other [OF changed(5)]) auto
  moreover have "dom_entry p \<longrightarrow> unat (rte_idx p) \<noteq> 0" using changed(3) by (simp add: word_unat_eq_iff)
  ultimately show ?thesis using rt_wf_set_entry [OF tidy(1)] changed(6) by simp
qed (use assms in simp)

lemma set_entry_masks [simp]: "mc_masks (set_entry is_dom i v rt) = mc_masks rt" "mc_masks (set_if_other is_dom i v rt) = mc_masks rt"
  by (simp_all add: set_entry_def set_if_other_def)

lemma route_to_mask_masks [simp]: "mc_masks (route_to_mask info v rt) = mc_masks rt"
  by (simp add: route_to_mask_def Let_def)

text \<open>Setting a mask: it is put in use before any entry selects it.\<close>

lemma route_to_mask_commute:
  "(route_to_mask info v rt)\<lparr>mc_masks := ms\<rparr> = route_to_mask info v (rt\<lparr>mc_masks := ms\<rparr>)"
  by (cases rt) (simp add: route_to_mask_def set_if_other_def set_entry_def Let_def)

lemma rt_wf_route_to_mask:
  assumes "rt_wf d rt" "RIO_RTV_IS_MC_MSK v" "v \<le> 0x3FF" "in_use (mc_masks rt ! unat (v AND 0xFF))"
  shows "rt_wf d (route_to_mask info v rt)"
proof -
  let ?dom = "unat (drop_bit 8 (mc_destID info AND 0xFF00))"
  have ok: "entry_ok d (mc_masks rt) is_dom v" for is_dom using assms(2-4) by (rule entry_ok_mc)
  have "?dom \<noteq> 0" if "\<not> RIO_RTV_IS_LVL_GRP (rte_val (dom_table rt ! ?dom))"
    using that rt_wfD(4) [OF assms(1)] by (cases "?dom = 0") (simp_all add: RIO_RTV_IS_LVL_GRP_def)
  then show ?thesis unfolding route_to_mask_def Let_def
    using rt_wf_set_if_other [OF assms(1) ok] by simp
qed

lemma rt_wf_change_mc_mask:
  assumes wf: "rt_wf d rt" and rte: "mc_mask_rte p \<le> 0x3FF" and run: "rxs_rio_rt_change_mc_mask d p (Some rt) = (rc, imp, Some rt')"
  shows "rt_wf d rt'"
proof (cases "mc_mask (mc_info p) AND illegal_ports d = 0 \<and> in_use (mc_info p) \<and> RIO_RTV_IS_MC_MSK (mc_mask_rte p)")
  case True
  let ?i = "unat (mc_mask_rte p AND 0xFF)"
  let ?rt = "rt\<lparr>mc_masks := (mc_masks rt)[?i := set_mask (mc_info p) (mc_masks rt ! ?i)]\<rparr>"
  have "mask_ok d (mc_masks rt ! ?i)" using rt_wfD(8) [OF wf] by simp
  then have m: "mask_ok d (set_mask (mc_info p) (mc_masks rt ! ?i))" "in_use (set_mask (mc_info p) (mc_masks rt ! ?i))"
    using True by (auto simp: mask_ok_def set_mask_def Let_def)
  have "rt_wf d ?rt" using rt_wf_set_masks [OF wf m(1)] m(2) by simp
  then have "rt_wf d (route_to_mask (mc_info p) (mc_mask_rte p) ?rt)"
    using True rte m(2) rt_wfD(3) [OF wf] by (intro rt_wf_route_to_mask) simp_all
  moreover have "rt' = rt \<or> rt' = route_to_mask (mc_info p) (mc_mask_rte p) ?rt"
    using run True by (auto simp: rxs_rio_rt_change_mc_mask_def Let_def RIO_RTV_GET_MC_MSK_def route_to_mask_commute split: if_splits)
  ultimately show ?thesis using wf by auto
next
  case False
  have "rt' = rt \<or> (\<exists>rc imp. DSF_rio_rt_dealloc_mc_mask (mc_mask_rte p) (Some rt) = (rc, imp, Some rt'))"
    using run False
    by (auto simp: rxs_rio_rt_change_mc_mask_def Let_def RIO_RTV_GET_MC_MSK_def dealloc_cases split: if_splits)
  then show ?thesis using rt_wf_dealloc [OF wf rte] wf by auto
qed

lemma rt_wf_initial:
  assumes "dflt \<le> 0x3FF" "\<not> rxs_chk_dflt_rte_reg d dflt" "v \<le> 0x3FF" "\<not> rxs_chk_dev_rte_reg d v" "\<not> RIO_RTV_IS_MC_MSK v"
  shows "rt_wf d (rt_initial dflt v)"
proof -
  have v: "\<not> rxs_chk_dom_rte_reg d v" "\<not> rxs_chk_dom_rte_reg d 0x200"
    using assms(4) by (auto simp: rxs_chk_dom_rte_reg_def rxs_chk_dev_rte_reg_def rxs_chk_and_corr_rtv_def Let_def RIO_RTV_IS_PORT_def
        RIO_RTV_IS_MC_MSK_def RIO_RTV_IS_LVL_GRP_def split: if_splits)
  have "entry_ok d ms False v" "entry_ok d ms True v" "entry_ok d ms True 0x200" for ms
    using assms v by (auto simp: entry_ok_def RIO_RTV_IS_MC_MSK_def)
  then show ?thesis
    by (intro rt_wfI) (use assms in \<open>simp_all add: rt_initial_def nth_Cons mc_unused_def mask_ok_def split: nat.splits\<close>)
qed

section \<open>Reachable tables\<close>

inductive rt_step :: "DAR_DEV_INFO_t \<Rightarrow> rio_rt_state_t \<Rightarrow> rio_rt_state_t \<Rightarrow> bool" for d where
  alloc: "DSF_rio_rt_alloc_mc_mask d (Some rt) = (rc, imp, v, Some rt') \<Longrightarrow> rt_step d rt rt'"
| dealloc: "DSF_rio_rt_dealloc_mc_mask rte (Some rt) = (rc, imp, Some rt') \<Longrightarrow> rte \<le> RIO_RTE_VAL \<Longrightarrow> rt_step d rt rt'"
| change_rte: "rxs_rio_rt_change_rte d p (Some rt) = (rc, imp, Some rt') \<Longrightarrow> rte_value p \<le> RIO_RTE_VAL \<Longrightarrow> rt_step d rt rt'"
| change_mc_mask: "rxs_rio_rt_change_mc_mask d q (Some rt) = (rc, imp, Some rt') \<Longrightarrow> mc_mask_rte q \<le> RIO_RTE_VAL \<Longrightarrow> rt_step d rt rt'"

inductive_cases rt_stepE: "rt_step d rt rt'"

inductive rt_reachable :: "DAR_DEV_INFO_t \<Rightarrow> rio_rt_state_t \<Rightarrow> bool" for d where
  initial: "dflt \<le> RIO_RTE_VAL \<Longrightarrow> \<not> rxs_chk_dflt_rte_reg d dflt \<Longrightarrow> v \<le> RIO_RTE_VAL \<Longrightarrow> \<not> rxs_chk_dev_rte_reg d v \<Longrightarrow>
    \<not> RIO_RTV_IS_MC_MSK v \<Longrightarrow> rt_reachable d (rt_initial dflt v)"
| step: "rt_reachable d rt \<Longrightarrow> rt_step d rt rt' \<Longrightarrow> rt_reachable d rt'"

lemma rt_wf_step: "rt_step d rt rt' \<Longrightarrow> rt_wf d rt \<Longrightarrow> rt_wf d rt'"
  by (elim rt_stepE) (blast intro: rt_wf_alloc rt_wf_dealloc rt_wf_change_rte rt_wf_change_mc_mask)+

lemma reachable_rt_wf: "rt_reachable d rt \<Longrightarrow> rt_wf d rt"
  by (induction rule: rt_reachable.induct) (simp_all add: rt_wf_initial rt_wf_step)

section \<open>Routes of a well-formed table\<close>

text \<open>
  What a table promises: the value that routes a destination identifier, and the set of ports a packet for it leaves the
  switch by.
\<close>

definition dom_index :: "u32 \<Rightarrow> nat" where
  "dom_index did = unat (drop_bit 8 (did AND 0xFF00))"

definition dev_index :: "u32 \<Rightarrow> nat" where
  "dev_index did = unat (did AND 0xFF)"

definition rt_lookup :: "rio_rt_state_t \<Rightarrow> u32 \<Rightarrow> u32 \<Rightarrow> u32" where
  "rt_lookup rt tt did =
     (let dom_rte = rte_val (dom_table rt ! dom_index did)
      in if tt = tt_dev16 \<and> dom_rte \<noteq> RIO_RTE_LVL_G0 then dom_rte else rte_val (dev_table rt ! dev_index did))"

definition out_value :: "rio_rt_state_t \<Rightarrow> u32 \<Rightarrow> u32" where
  "out_value rt v = (if v = RIO_RTE_DFLT_PORT then default_route rt else v)"

definition forwards :: "DAR_DEV_INFO_t \<Rightarrow> rio_rt_state_t \<Rightarrow> rio_rt_probe_in_t \<Rightarrow> nat set" where
  "forwards d rt p =
     (let v = out_value rt (rt_lookup rt (probe_tt p) (destID p)); mc = mc_masks rt ! unat (v AND 0xFF) in
      if RIO_RTV_IS_PORT v then {unat v}
      else if RIO_RTV_IS_MC_MSK v \<and> in_use mc then {b. b < unat (NUM_RXS_PORTS d) \<and> bit (mc_mask mc) b} - {unat (probe_on_port p)}
      else {})"

lemma index_u8:
  "unat (ucast (drop_bit 8 (did AND 0xFF00) :: u32) :: u8) = dom_index did" "unat (ucast (did AND 0xFF :: u32) :: u8) = dev_index did"
  "dom_index did < 256" "dev_index did < 256"
proof -
  have "unat (did AND 0xFF) < 256" by simp
  then show "unat (ucast (did AND 0xFF :: u32) :: u8) = dev_index did" "dev_index did < 256"
    by (simp_all add: dev_index_def unsigned_ucast_eq take_bit_nat_eq_self)
  have m: "(0xFF00 :: u32) = push_bit 8 (mask 8)" by (simp add: mask_eq_exp_minus_1)
  have "fits 8 (drop_bit 8 (did AND 0xFF00))" unfolding m by (rule bit_fits) (simp add: bit_simps)
  then show "unat (ucast (drop_bit 8 (did AND 0xFF00) :: u32) :: u8) = dom_index did" "dom_index did < 256"
    by (simp_all add: dom_index_def fits_def unsigned_ucast_eq take_bit_nat_eq_self)
qed

lemma NUM_RXS_PORTS_le: "unat (NUM_RXS_PORTS d) \<le> 24"
  by (simp add: NUM_RXS_PORTS_def word_less_nat_alt)

lemma legal_ports_bits: "mc AND legal_ports d = 0 \<longleftrightarrow> (\<forall>b<unat (NUM_RXS_PORTS d). \<not> bit mc b)"
proof -
  have l: "legal_ports d = mask (unat (NUM_RXS_PORTS d))" by (simp add: legal_ports_def mask_eq_exp_minus_1 push_bit_eq_mult)
  show ?thesis
  proof
    assume a: "mc AND legal_ports d = 0"
    show "\<forall>b<unat (NUM_RXS_PORTS d). \<not> bit mc b"
    proof (intro allI impI)
      fix b assume b: "b < unat (NUM_RXS_PORTS d)"
      have "\<not> bit (mc AND legal_ports d) b" using a by simp
      then show "\<not> bit mc b" using b NUM_RXS_PORTS_le [of d] by (simp add: l bit_simps)
    qed
  next
    assume "\<forall>b<unat (NUM_RXS_PORTS d). \<not> bit mc b"
    then show "mc AND legal_ports d = 0" unfolding l by (intro bit_word_eqI) (auto simp: bit_simps)
  qed
qed

lemma fold_set_ports:
  "i < length ps \<Longrightarrow> fold (\<lambda>b ps. ps[b := f b]) bs ps ! i = (if i \<in> set bs then f i else ps ! i)"
  by (induction bs arbitrary: ps) (auto simp: nth_upd)

text \<open>The values that the checks accept.\<close>

lemma accepted_values:
  assumes "v \<le> 0x3FF"
  shows "\<not> rxs_chk_dev_rte_reg d v \<Longrightarrow> RIO_RTV_IS_PORT v \<or> RIO_RTV_IS_MC_MSK v \<or> v = 0x300 \<or> v = 0x301"
    "\<not> rxs_chk_dom_rte_reg d v \<Longrightarrow> RIO_RTV_IS_PORT v \<or> RIO_RTV_IS_MC_MSK v \<or> v = 0x300 \<or> v = 0x301 \<or> v = 0x200"
    "\<not> rxs_chk_dflt_rte_reg d v \<Longrightarrow> RIO_RTV_IS_PORT v \<or> RIO_RTV_IS_MC_MSK v \<or> v = 0x300"
  using rtv_small [OF assms]
  by (auto simp: rxs_chk_dom_rte_reg_def rxs_chk_dev_rte_reg_def rxs_chk_dflt_rte_reg_def rxs_chk_and_corr_rtv_def Let_def split: if_splits)

definition probe_start :: "rio_rt_state_t \<Rightarrow> rio_rt_probe_out_t \<Rightarrow> bool" where
  "probe_start rt out \<longleftrightarrow> out_default_route out = default_route rt \<and> length (mcast_ports out) = RIO_MAX_PORTS \<and> \<not> list_ex id (mcast_ports out)"

definition mcast_set :: "DAR_DEV_INFO_t \<Rightarrow> rio_rt_state_t \<Rightarrow> u8 \<Rightarrow> u32 \<Rightarrow> nat set" where
  "mcast_set d rt port v =
     (let mc = mc_masks rt ! unat (v AND 0xFF)
      in if in_use mc then {b. b < unat (NUM_RXS_PORTS d) \<and> bit (mc_mask mc) b} - {unat port} else {})"

lemma check_multicast:
  assumes mc: "RIO_RTV_IS_MC_MSK v" and out: "valid_route out" "length (mcast_ports out) = 24" "\<not> list_ex id (mcast_ports out)"
    and out': "out' = rxs_check_multicast_routing d p rt v out"
  shows "valid_route out' \<longleftrightarrow> mcast_set d rt (probe_on_port p) v \<noteq> {}"
    "valid_route out' \<Longrightarrow> {b. b < unat (NUM_RXS_PORTS d) \<and> mcast_ports out' ! b} = mcast_set d rt (probe_on_port p) v"
    "routing_table_value out' = routing_table_value out"
    "valid_route out' \<Longrightarrow> reason_for_discard out' = reason_for_discard out"
    "\<not> valid_route out' \<Longrightarrow> reason_for_discard out' \<in> {rio_rt_disc_mc_empty, rio_rt_disc_mc_one_bit}"
proof -
  let ?mc = "mc_masks rt ! unat (v AND 0xFF)" and ?n = "unat (NUM_RXS_PORTS d)" and ?q = "unat (probe_on_port p)"
  have idx: "RIO_RTV_GET_MC_MSK v = v AND 0xFF" "\<not> v AND 0xFF > 0xFF"
    using mc idx_less [of v] by (simp_all add: RIO_RTV_GET_MC_MSK_def word_less_nat_alt del: idx_less)
  have F: "mcast_set d rt (probe_on_port p) v = (if in_use ?mc then {b. b < ?n \<and> b \<noteq> ?q \<and> bit (mc_mask ?mc) b} else {})"
    by (auto simp: mcast_set_def Let_def)
  have clear: "\<not> mcast_ports out ! b" if "b < ?n" for b
    using that out(2,3) NUM_RXS_PORTS_le [of d] by (auto simp: list_ex_length)
  have ports: "fold (\<lambda>b ps. ps[b := bit (mc_mask ?mc) b]) (filter (\<lambda>b. b \<noteq> ?q) [0..<?n]) (mcast_ports out) ! b \<longleftrightarrow>
      b \<noteq> ?q \<and> bit (mc_mask ?mc) b" if "b < ?n" for b
    using that clear [OF that] NUM_RXS_PORTS_le [of d] out(2) by (auto simp: fold_set_ports)
  note run = rxs_check_multicast_routing_def [of d p rt v out, unfolded idx(1) Let_def] and d = out' discard_def
  consider "\<not> in_use ?mc" | "in_use ?mc" "\<forall>b<?n. \<not> bit (mc_mask ?mc) b"
    | "in_use ?mc" "\<exists>b<?n. bit (mc_mask ?mc) b" "\<forall>b<?n. b \<noteq> ?q \<longrightarrow> \<not> bit (mc_mask ?mc) b"
    | "in_use ?mc" "\<exists>b<?n. b \<noteq> ?q \<and> bit (mc_mask ?mc) b" by blast
  note c = this
  show "valid_route out' \<longleftrightarrow> mcast_set d rt (probe_on_port p) v \<noteq> {}"
    by (rule c) (use idx(2) out(1) in \<open>auto simp: d run F legal_ports_bits filter_empty_conv\<close>)
  show "{b. b < ?n \<and> mcast_ports out' ! b} = mcast_set d rt (probe_on_port p) v" if "valid_route out'"
    by (rule c) (use idx(2) that in \<open>auto simp: d run F legal_ports_bits filter_empty_conv ports split: if_splits\<close>)
  show "routing_table_value out' = routing_table_value out"
    by (simp add: d run)
  show "reason_for_discard out' = reason_for_discard out" if "valid_route out'"
    using that by (simp add: d run split: if_splits)
  show "reason_for_discard out' \<in> {rio_rt_disc_mc_empty, rio_rt_disc_mc_one_bit}" if "\<not> valid_route out'"
    using that idx(2) out(1) by (auto simp: d run split: if_splits)
qed

lemma forwards_cases:
  "forwards d rt p =
     (let v = out_value rt (rt_lookup rt (probe_tt p) (destID p))
      in if RIO_RTV_IS_PORT v then {unat v} else if RIO_RTV_IS_MC_MSK v then mcast_set d rt (probe_on_port p) v else {})"
  by (simp add: forwards_def mcast_set_def Let_def)

lemma and_3FF:
  fixes v :: u32
  assumes "v \<le> 0x3FF"
  shows "v AND 0x3FF = v"
proof -
  have "v = (v AND 0x3FF) OR (v AND NOT 0x3FF)" by (rule bit_word_eqI) (auto simp: bit_simps)
  then show ?thesis using rtv_small(2) [OF assms] by simp
qed

text \<open>Of a well-formed table, \<open>rxs_check_routing\<close> checks the entry of the lookup.\<close>

lemma check_routing_lookup:
  assumes "rt_wf d rt" "probe_tt p \<in> {tt_dev8, tt_dev16}"
  shows "rxs_check_routing d p rt out = check_rte d p rt (rt_lookup rt (probe_tt p) (destID p)) out"
    "rt_lookup rt (probe_tt p) (destID p) \<le> 0x3FF"
    "v = rt_lookup rt (probe_tt p) (destID p) \<Longrightarrow> RIO_RTV_IS_PORT v \<or> RIO_RTV_IS_MC_MSK v \<or> v = 0x300 \<or> v = 0x301"
proof -
  let ?dom = "rte_val (dom_table rt ! dom_index (destID p))" and ?dev = "rte_val (dev_table rt ! dev_index (destID p))"
  have w: "?dom \<le> 0x3FF" "\<not> rxs_chk_dom_rte_reg d ?dom" "?dev \<le> 0x3FF" "\<not> rxs_chk_dev_rte_reg d ?dev"
    using rt_wfD(6,7) [OF assms(1)] index_u8(3,4) by (simp_all add: entry_ok_def)
  show "rxs_check_routing d p rt out = check_rte d p rt (rt_lookup rt (probe_tt p) (destID p)) out"
    unfolding rxs_check_routing_def index_u8 Let_def using assms(2) w by (auto simp: rt_lookup_def and_3FF)
  show "rt_lookup rt (probe_tt p) (destID p) \<le> 0x3FF" using w by (simp add: rt_lookup_def Let_def)
  show "RIO_RTV_IS_PORT v \<or> RIO_RTV_IS_MC_MSK v \<or> v = 0x300 \<or> v = 0x301" if "v = rt_lookup rt (probe_tt p) (destID p)"
    using that accepted_values(1) [OF w(3,4)] accepted_values(2) [OF w(1,2)] by (auto simp: rt_lookup_def Let_def split: if_splits)
qed

lemma check_rte_forwards:
  assumes v: "v \<le> 0x3FF" "RIO_RTV_IS_PORT v \<or> RIO_RTV_IS_MC_MSK v \<or> v = 0x300 \<or> v = 0x301"
    and dflt: "default_route rt \<le> 0x3FF" "\<not> rxs_chk_dflt_rte_reg d (default_route rt)" and start: "probe_start rt out"
    and out': "out' = check_rte d p rt v out" and w: "w = out_value rt v"
  shows "routing_table_value out' = v"
    "valid_route out' \<longleftrightarrow> RIO_RTV_IS_PORT w \<or> RIO_RTV_IS_MC_MSK w \<and> mcast_set d rt (probe_on_port p) w \<noteq> {}"
    "valid_route out' \<longleftrightarrow> reason_for_discard out' = rio_rt_disc_not"
    "valid_route out' \<Longrightarrow> RIO_RTV_IS_MC_MSK w \<Longrightarrow>
      {b. b < unat (NUM_RXS_PORTS d) \<and> mcast_ports out' ! b} = mcast_set d rt (probe_on_port p) w"
    "reason_for_discard out' \<notin> {rio_rt_disc_rt_invalid, rio_rt_disc_dflt_pt_invalid, rio_rt_disc_mc_mult_masks}"
proof -
  let ?out = "out\<lparr>routing_table_value := v, valid_route := True, reason_for_discard := rio_rt_disc_not\<rparr>"
  have s: "out_default_route out = default_route rt" "length (mcast_ports out) = 24" "\<not> list_ex id (mcast_ports out)"
    using start by (simp_all add: probe_start_def)
  have types: "\<not> RIO_RTV_IS_PORT 0x300" "\<not> RIO_RTV_IS_MC_MSK 0x300" "\<not> RIO_RTV_IS_PORT 0x301" "\<not> RIO_RTV_IS_MC_MSK 0x301"
    "\<not> (RIO_RTV_IS_PORT w \<and> RIO_RTV_IS_MC_MSK w)"
    by (auto simp: RIO_RTV_IS_PORT_def RIO_RTV_IS_MC_MSK_def)
  have w_cases: "RIO_RTV_IS_PORT w \<or> RIO_RTV_IS_MC_MSK w \<or> w = 0x300"
    using v(2) accepted_values(3) [OF dflt] w by (auto simp: out_value_def split: if_splits)
  note m = check_multicast [of w ?out out' d p rt]
  have run: "out' = (if RIO_RTV_IS_PORT w then ?out else if RIO_RTV_IS_MC_MSK w then rxs_check_multicast_routing d p rt w ?out
      else discard (if v = 0x300 then rio_rt_disc_deliberately else rio_rt_disc_dflt_pt_deliberately) ?out)"
    using v(2) w_cases types dflt w unfolding out' check_rte_def Let_def and_3FF [OF v(1)]
    by (auto simp: out_value_def s(1) split: if_splits)
  consider (port) "RIO_RTV_IS_PORT w" "\<not> RIO_RTV_IS_MC_MSK w" "out' = ?out"
    | (mc) "RIO_RTV_IS_MC_MSK w" "\<not> RIO_RTV_IS_PORT w" "out' = rxs_check_multicast_routing d p rt w ?out"
    | (drop) "\<not> RIO_RTV_IS_PORT w" "\<not> RIO_RTV_IS_MC_MSK w" "\<not> valid_route out'" "routing_table_value out' = v"
        "reason_for_discard out' \<in> {rio_rt_disc_deliberately, rio_rt_disc_dflt_pt_deliberately}"
    using w_cases types run by (auto simp: discard_def)
  note c = this
  show "routing_table_value out' = v" by (rule c) (use m(3) s in auto)
  show "valid_route out' \<longleftrightarrow> RIO_RTV_IS_PORT w \<or> RIO_RTV_IS_MC_MSK w \<and> mcast_set d rt (probe_on_port p) w \<noteq> {}"
    by (rule c) (use m(1) s in auto)
  show "valid_route out' \<longleftrightarrow> reason_for_discard out' = rio_rt_disc_not"
    by (rule c) (use m(4,5) s in \<open>cases "valid_route out'"; auto\<close>)+
  show "{b. b < unat (NUM_RXS_PORTS d) \<and> mcast_ports out' ! b} = mcast_set d rt (probe_on_port p) w"
    if "valid_route out'" "RIO_RTV_IS_MC_MSK w" by (rule c) (use m(2) s that in auto)
  show "reason_for_discard out' \<notin> {rio_rt_disc_rt_invalid, rio_rt_disc_dflt_pt_invalid, rio_rt_disc_mc_mult_masks}"
    by (rule c) (use m(4,5) s in \<open>cases "valid_route out'"; auto\<close>)+
qed

section \<open>Effect of a change\<close>








section \<open>Examples\<close>

text \<open>
  A switch with 24 ports; mask 0 is set up for identifier \<open>0x11\<close>, identifier \<open>0x22\<close> is routed to it too, and \<open>0x11\<close> gets a
  route of its own.
\<close>

definition rxs_dev :: DAR_DEV_INFO_t where
  "rxs_dev = dev_zero\<lparr>driver_family := RIO_RXS_DEVICE, dsf_h := 0x00380000, devID := 0x80E60038, features := 0x10000000,
     swPortInfo := 0x1800, swRtInfo := 0xFFFF, swMcastInfo := 0xFF\<rparr>"

definition rt_example :: rio_rt_state_t where
  "rt_example = rt_initial RIO_RTE_DROP RIO_RTE_DROP"



definition rt_masked :: rio_rt_state_t where
  "rt_masked = rt_example\<lparr>mc_masks := (mc_masks rt_example)
     [0 := \<lparr>mc_destID = 0x11, mc_tt = tt_dev8, mc_mask = 0x0E, in_use = True, allocd = True, mc_changed = True\<rparr>]\<rparr>"

definition rt_example2 :: rio_rt_state_t where
  "rt_example2 = set_entry False 0x11 3 (set_entry False 0x22 0x100 rt_masked)"


lemma example_reachable: "rt_reachable rxs_dev rt_example"
  unfolding rt_example_def
  by (rule rt_reachable.initial) (simp_all add: rxs_chk_dflt_rte_reg_def rxs_chk_dev_rte_reg_def rxs_chk_and_corr_rtv_def
      RIO_RTV_IS_PORT_def RIO_RTV_IS_MC_MSK_def RIO_RTV_IS_LVL_GRP_def)

lemma example2_wf: "rt_wf rxs_dev rt_example2"
proof -
  have 3: "entry_ok rxs_dev ms False 3" for ms
    by (simp add: entry_ok_def rxs_chk_dev_rte_reg_def rxs_chk_and_corr_rtv_def RIO_RTV_IS_PORT_def RIO_RTV_IS_MC_MSK_def
        RIO_RTV_GET_PORT_def NUM_PORTS_def rxs_dev_def dev_zero_def)
  have mc: "entry_ok rxs_dev ms False 0x100" if "in_use (ms ! 0)" for ms
    using that by (intro entry_ok_mc) (simp_all add: RIO_RTV_IS_MC_MSK_def)
  have m: "mask_ok rxs_dev \<lparr>mc_destID = 0x11, mc_tt = 0, mc_mask = 0x0E, in_use = True, allocd = True, mc_changed = True\<rparr>"
    by (simp add: mask_ok_def illegal_ports_def NUM_RXS_PORTS_def NUM_PORTS_def rxs_dev_def dev_zero_def)
  have wf: "rt_wf rxs_dev rt_example" by (rule reachable_rt_wf [OF example_reachable])
  have "rt_wf rxs_dev rt_masked" unfolding rt_masked_def by (rule rt_wf_set_masks [OF wf m]) simp
  then show ?thesis unfolding rt_example2_def
    by (intro rt_wf_set_entry) (use 3 mc rt_wfD(3) [OF wf] in \<open>simp_all add: rt_masked_def\<close>)
qed

lemma example2_entries:
  "i < 256 \<Longrightarrow> rte_val (dev_table rt_example2 ! i) = (if i = 0x22 then 0x100 else if i = 0x11 then 3 else 0x300)"
  "i < 256 \<Longrightarrow> rte_val (dom_table rt_example2 ! i) = (if i = 0 then 0x200 else 0x300)"
  "mc_destID (mc_masks rt_example2 ! 0) = 0x11"
  by (simp_all add: rt_example2_def set_entry_def rt_masked_def rt_example_def rt_initial_def nth_upd nth_Cons')


section \<open>Properties\<close>



text \<open>
  C17. For a well-formed table and a probe with small or large identifiers the check of a route never finds an invalid
  value, reports the value of the lookup, and says that the route is valid exactly when the table forwards the packet to
  some port. For a multicast route the ports it marks are those the packet is forwarded to: the ports of the mask without
  the port the packet came in on, which is the one that was queried. The comment at the declaration of \<open>mcast_ports\<close>
  (\<^verbatim>\<open>RapidIO_Routing_Table_API.h:258\<close>) says otherwise, that the flag of the port queried is true "for completeness";
  the code clears it.
\<close>

theorem check_routing_forwards:
  assumes "rt_wf d rt" "probe_tt p \<in> {tt_dev8, tt_dev16}" "probe_start rt out"
  shows "let out' = rxs_check_routing d p rt out; v = rt_lookup rt (probe_tt p) (destID p) in
     routing_table_value out' = v \<and> (valid_route out' \<longleftrightarrow> forwards d rt p \<noteq> {}) \<and>
     (valid_route out' \<longleftrightarrow> reason_for_discard out' = rio_rt_disc_not) \<and>
     reason_for_discard out' \<notin> {rio_rt_disc_rt_invalid, rio_rt_disc_dflt_pt_invalid, rio_rt_disc_mc_mult_masks} \<and>
     (valid_route out' \<and> RIO_RTV_IS_MC_MSK (out_value rt v) \<longrightarrow>
       forwards d rt p = {b. b < unat (NUM_RXS_PORTS d) \<and> mcast_ports out' ! b})"
proof -
  let ?v = "rt_lookup rt (probe_tt p) (destID p)"
  note l = check_routing_lookup [OF assms(1,2)] and dflt = rt_wfD(5) [OF assms(1), THEN conjunct1] rt_wfD(5) [OF assms(1), THEN conjunct2]
  note c = check_rte_forwards [OF l(2) l(3) [OF refl] dflt assms(3) l(1) refl]
  have F: "forwards d rt p = (let w = out_value rt ?v in
      if RIO_RTV_IS_PORT w then {unat w} else if RIO_RTV_IS_MC_MSK w then mcast_set d rt (probe_on_port p) w else {})"
    by (rule forwards_cases)
  have "RIO_RTV_IS_MC_MSK (out_value rt ?v) \<Longrightarrow> \<not> RIO_RTV_IS_PORT (out_value rt ?v)"
    by (auto simp: RIO_RTV_IS_PORT_def RIO_RTV_IS_MC_MSK_def)
  then show ?thesis unfolding F Let_def using c by auto
qed

definition probe_example :: rio_rt_probe_out_t where
  "probe_example = \<lparr>valid_route = False, routing_table_value = 0xFF, out_default_route = RIO_RTE_DROP,
     mcast_ports = replicate 24 False, reason_for_discard = rio_rt_disc_probe_abort\<rparr>"

theorem check_routing_forwards_witness:
  "let out' = rxs_check_routing rxs_dev \<lparr>probe_on_port = 2, probe_tt = tt_dev8, destID = 0x22\<rparr> rt_example2 probe_example
   in routing_table_value out' = 0x100 \<and> valid_route out' \<and> {b. b < 24 \<and> mcast_ports out' ! b} = {1, 3}"
proof -
  let ?p = "\<lparr>probe_on_port = 2, probe_tt = tt_dev8, destID = 0x22\<rparr> :: rio_rt_probe_in_t"
  have s: "probe_start rt_example2 probe_example"
    by (simp add: probe_start_def probe_example_def rt_example2_def set_entry_def rt_masked_def rt_example_def rt_initial_def list_ex_length)
  have l: "rt_lookup rt_example2 tt_dev8 0x22 = 0x100" by (simp add: rt_lookup_def dev_index_def example2_entries)
  have mc: "RIO_RTV_IS_MC_MSK 0x100" "\<not> RIO_RTV_IS_PORT 0x100" by (simp_all add: RIO_RTV_IS_MC_MSK_def RIO_RTV_IS_PORT_def)
  have n: "unat (NUM_RXS_PORTS rxs_dev) = 24" by (simp add: NUM_RXS_PORTS_def NUM_PORTS_def rxs_dev_def dev_zero_def)
  have m: "in_use (mc_masks rt_example2 ! 0)" "mc_mask (mc_masks rt_example2 ! 0) = 0x0E"
    by (simp_all add: rt_example2_def rt_masked_def rt_example_def rt_initial_def)
  have bits: "bit (0x0E :: u32) b \<longleftrightarrow> b \<in> {1, 2, 3}" if "b < 24" for b
    using that by (auto simp: numeral_eq_Suc less_Suc_eq bit_Suc bit_0)
  have F: "forwards rxs_dev rt_example2 ?p = {1, 3}"
    using iffD1 [OF bits] by (auto simp: forwards_def l mc m n bits out_value_def Let_def)
  show ?thesis
    using check_routing_forwards [OF example2_wf _ s, of ?p] unfolding F by (simp add: Let_def l mc n out_value_def)
qed



end
