(* ===== verification/Rxs_Hw.thy ===== *)
theory Rxs_Hw
  imports Rxs_Rt
begin

unbundle bit_operations_syntax

text \<open>
  Programming and reading the routing tables of an RXS switch, the rest of \<^verbatim>\<open>RXS_RT.c\<close>: \<open>rxs_rio_rt_initialize\<close>,
  \<open>rxs_rio_rt_set_all\<close>, \<open>rxs_rio_rt_set_changed\<close> and \<open>rxs_rio_rt_probe_all\<close>. The operations work on a state of the tables and
  a device; a loop that ends at its first error is \<open>for_each\<close>. What the registers of the switch do is the locale
  \<open>rxs_tables\<close>; the theorems say that the tables of the switch are those of the state afterwards, and that reading them
  back gives the same routes.
\<close>

section \<open>Registers\<close>

definition RXS_BC_L1_GX_ENTRYY_CSR :: "u32 \<Rightarrow> u32 \<Rightarrow> u32" where
  "RXS_BC_L1_GX_ENTRYY_CSR X Y = 0x30400 + 0x400 * X + 4 * Y"

definition RXS_BC_L2_GX_ENTRYY_CSR :: "u32 \<Rightarrow> u32 \<Rightarrow> u32" where
  "RXS_BC_L2_GX_ENTRYY_CSR X Y = 0x31000 + 0x400 * X + 4 * Y"

definition RXS_BC_MC_X_S_CSR :: "u32 \<Rightarrow> u32" where
  "RXS_BC_MC_X_S_CSR X = 0x32000 + 8 * X"

definition RXS_BC_MC_X_C_CSR :: "u32 \<Rightarrow> u32" where
  "RXS_BC_MC_X_C_CSR X = 0x32004 + 8 * X"

definition RXS_SPX_L1_GY_ENTRYZ_CSR :: "u32 \<Rightarrow> u32 \<Rightarrow> u32 \<Rightarrow> u32" where
  "RXS_SPX_L1_GY_ENTRYZ_CSR X Y Z = 0x50400 + 0x2000 * X + 0x400 * Y + 4 * Z"

definition RXS_SPX_L2_GY_ENTRYZ_CSR :: "u32 \<Rightarrow> u32 \<Rightarrow> u32 \<Rightarrow> u32" where
  "RXS_SPX_L2_GY_ENTRYZ_CSR X Y Z = 0x51000 + 0x2000 * X + 0x400 * Y + 4 * Z"

definition RXS_SPX_MC_Y_S_CSR :: "u32 \<Rightarrow> u32 \<Rightarrow> u32" where
  "RXS_SPX_MC_Y_S_CSR X Y = 0x80000 + 0x1000 * X + 8 * Y"

definition RXS_SPX_MC_Y_C_CSR :: "u32 \<Rightarrow> u32 \<Rightarrow> u32" where
  "RXS_SPX_MC_Y_C_CSR X Y = 0x80004 + 0x1000 * X + 8 * Y"

abbreviation (input) RXS_ROUTE_DFLT_PORT :: u32 where "RXS_ROUTE_DFLT_PORT \<equiv> 0x78"

definition MC_MASK_ADDR :: "u32 \<Rightarrow> nat \<Rightarrow> u32" where
  "MC_MASK_ADDR b m = b + 8 * of_nat m"

definition RTE_ADDR :: "u32 \<Rightarrow> nat \<Rightarrow> u32" where
  "RTE_ADDR b n = b + 4 * of_nat n"

section \<open>Programming the tables\<close>

primrec for_each :: "(nat \<Rightarrow> 's \<Rightarrow> u32 \<times> u32 \<times> 's) \<Rightarrow> nat list \<Rightarrow> 's \<Rightarrow> u32 \<times> u32 \<times> 's" where
  "for_each f [] s = (RIO_SUCCESS, RIO_SUCCESS, s)"
| "for_each f (i # is) s = (let (rc, imp, s') = f i s in if rc \<noteq> RIO_SUCCESS then (rc, imp, s') else for_each f is s')"

definition mask_mask :: "DAR_DEV_INFO_t \<Rightarrow> u32 option" where
  "mask_mask d = (if DEV_CODE d = 0x80E6 then Some 0x00FFFFFF else if DEV_CODE d = 0x80E5 then Some 0x0000FFFF else None)"

definition write_bits :: "'h host \<Rightarrow> u32 \<Rightarrow> u32 \<Rightarrow> 'h dev \<Rightarrow> u32 \<times> 'h dev" where
  "write_bits P addr chg_bits s = (if chg_bits \<noteq> 0 then DARRegWrite P addr chg_bits s else (RIO_SUCCESS, s))"

definition program_mask ::
  "'h host \<Rightarrow> u32 \<Rightarrow> bool \<Rightarrow> u32 \<Rightarrow> u32 \<Rightarrow> bool \<Rightarrow> nat \<Rightarrow> rio_rt_state_t \<times> 'h dev \<Rightarrow> u32 \<times> u32 \<times> rio_rt_state_t \<times> 'h dev" where
  "program_mask P mm broadcast set_base clr_base set_all idx st =
     (let (rt, s) = st; m = mc_masks rt ! idx in
      if \<not> (mc_changed m \<or> set_all) then (RIO_SUCCESS, RIO_SUCCESS, rt, s)
      else if mc_mask m AND NOT mm \<noteq> 0 then (RIO_ERR_INVALID_PARAMETER, 0x40101A05, rt, s)
      else
        (let (rc, curr_msk, s1) = (if broadcast then (RIO_SUCCESS, 0, s) else DARRegRead P (MC_MASK_ADDR set_base idx) s) in
         if rc \<noteq> RIO_SUCCESS then (rc, 0x40101A0F, rt, s1)
         else
           (let (rc, s2) = write_bits P (MC_MASK_ADDR set_base idx) (NOT curr_msk AND mc_mask m AND mm) s1 in
            if rc \<noteq> RIO_SUCCESS then (rc, 0x40101A10, rt, s2)
            else
              (let curr = (if broadcast then mm else curr_msk);
                   (rc, s3) = write_bits P (MC_MASK_ADDR clr_base idx) (curr AND NOT (mc_mask m) AND mm) s2
               in if rc \<noteq> RIO_SUCCESS then (rc, 0x40101A20, rt, s3)
                  else (RIO_SUCCESS, RIO_SUCCESS, rt\<lparr>mc_masks := (mc_masks rt)[idx := m\<lparr>mc_changed := False\<rparr>]\<rparr>, s3)))))"

definition rxs_program_mc_masks ::
  "'h host \<Rightarrow> u8 \<Rightarrow> bool \<Rightarrow> rio_rt_state_t \<times> 'h dev \<Rightarrow> u32 \<times> u32 \<times> rio_rt_state_t \<times> 'h dev" where
  "rxs_program_mc_masks P port set_all st =
     (case mask_mask (dev_info (snd st)) of
        None \<Rightarrow> (0x80000007, 0x40101A01, st)
      | Some mm \<Rightarrow>
          (let broadcast = (port = RIO_ALL_PORTS);
               set_base = (if broadcast then RXS_BC_MC_X_S_CSR 0 else RXS_SPX_MC_Y_S_CSR (ucast port) 0);
               clr_base = (if broadcast then RXS_BC_MC_X_C_CSR 0 else RXS_SPX_MC_Y_C_CSR (ucast port) 0)
           in for_each (program_mask P mm broadcast set_base clr_base set_all) [0..<RIO_MAX_MC_MASKS] st))"

definition program_dom ::
  "'h host \<Rightarrow> u32 \<Rightarrow> bool \<Rightarrow> nat \<Rightarrow> rio_rt_state_t \<times> 'h dev \<Rightarrow> u32 \<times> u32 \<times> rio_rt_state_t \<times> 'h dev" where
  "program_dom P base set_all n st =
     (let (rt, s) = st; u = dom_table rt ! n in
      if uc_changed u \<or> set_all then
        (let (rc, s1) = DARRegWrite P (RTE_ADDR base n) (rte_val u) s
         in if rc \<noteq> RIO_SUCCESS then (rc, 0x40101902, rt, s1)
            else (RIO_SUCCESS, RIO_SUCCESS, rt\<lparr>dom_table := (dom_table rt)[n := u\<lparr>uc_changed := False\<rparr>]\<rparr>, s1))
      else (RIO_SUCCESS, RIO_SUCCESS, rt, s))"

definition program_dev ::
  "'h host \<Rightarrow> u32 \<Rightarrow> bool \<Rightarrow> nat \<Rightarrow> rio_rt_state_t \<times> 'h dev \<Rightarrow> u32 \<times> u32 \<times> rio_rt_state_t \<times> 'h dev" where
  "program_dev P base set_all n st =
     (let (rt, s) = st; u = dev_table rt ! n in
      if uc_changed u \<or> set_all then
        if RIO_RTV_IS_LVL_GRP (rte_val u) then (RIO_ERR_INVALID_PARAMETER, 0x40101903, rt, s)
        else
          (let (rc, s1) = DARRegWrite P (RTE_ADDR base n) (rte_val u) s
           in if rc \<noteq> RIO_SUCCESS then (rc, 0x40101904, rt, s1)
              else (RIO_SUCCESS, RIO_SUCCESS, rt\<lparr>dev_table := (dev_table rt)[n := u\<lparr>uc_changed := False\<rparr>]\<rparr>, s1))
      else (RIO_SUCCESS, RIO_SUCCESS, rt, s))"

definition rxs_program_rte_entries ::
  "'h host \<Rightarrow> u8 \<Rightarrow> bool \<Rightarrow> rio_rt_state_t \<times> 'h dev \<Rightarrow> u32 \<times> u32 \<times> rio_rt_state_t \<times> 'h dev" where
  "rxs_program_rte_entries P port set_all st =
     (let (rt, s) = st; (rc, s1) = DARRegWrite P RXS_ROUTE_DFLT_PORT (default_route rt) s in
      if rc \<noteq> RIO_SUCCESS then (rc, 0x40101910, rt, s1)
      else
        (let broadcast = (port = RIO_ALL_PORTS);
             dev_base = (if broadcast then RXS_BC_L2_GX_ENTRYY_CSR 0 0 else RXS_SPX_L2_GY_ENTRYZ_CSR (ucast port) 0 0);
             dom_base = (if broadcast then RXS_BC_L1_GX_ENTRYY_CSR 0 0 else RXS_SPX_L1_GY_ENTRYZ_CSR (ucast port) 0 0);
             (rc, imp, st2) = for_each (program_dom P dom_base set_all) [0..<RIO_RT_GRP_SZ] (rt, s1)
         in if rc \<noteq> RIO_SUCCESS then (rc, imp, st2) else for_each (program_dev P dev_base set_all) [0..<RIO_RT_GRP_SZ] st2))"

definition rxs_rt_set_common ::
  "'h host \<Rightarrow> u8 \<Rightarrow> bool \<Rightarrow> rio_rt_state_t option \<Rightarrow> 'h dev \<Rightarrow> u32 \<times> u32 \<times> rio_rt_state_t option \<times> 'h dev" where
  "rxs_rt_set_common P port set_all rt_opt s =
     (if port \<noteq> RIO_ALL_PORTS \<and> port \<ge> NUM_RXS_PORTS (dev_info s) then (RIO_ERR_INVALID_PARAMETER, 0x40100101, rt_opt, s)
      else
        (case rt_opt of
           None \<Rightarrow> (RIO_ERR_INVALID_PARAMETER, 0x40100102, None, s)
         | Some rt \<Rightarrow>
             if rxs_chk_dflt_rte_reg (dev_info s) (default_route rt) then (RIO_ERR_INVALID_PARAMETER, 0x40100103, Some rt, s)
             else
               (let (rc, imp, rt1, s1) = rxs_program_mc_masks P port set_all (rt, s) in
                if rc \<noteq> RIO_SUCCESS then (rc, imp, Some rt1, s1)
                else (let (rc, imp, rt2, s2) = rxs_program_rte_entries P port set_all (rt1, s1) in (rc, imp, Some rt2, s2)))))"

definition rxs_rio_rt_set_all ::
  "'h host \<Rightarrow> u8 \<Rightarrow> rio_rt_state_t option \<Rightarrow> 'h dev \<Rightarrow> u32 \<times> u32 \<times> rio_rt_state_t option \<times> 'h dev" where
  "rxs_rio_rt_set_all P port rt_opt s = rxs_rt_set_common P port True rt_opt s"

definition rxs_rio_rt_set_changed ::
  "'h host \<Rightarrow> u8 \<Rightarrow> rio_rt_state_t option \<Rightarrow> 'h dev \<Rightarrow> u32 \<times> u32 \<times> rio_rt_state_t option \<times> 'h dev" where
  "rxs_rio_rt_set_changed P port rt_opt s = rxs_rt_set_common P port False rt_opt s"

record rio_rt_initialize_in_t =
  set_on_port :: u8
  init_default_route :: u32
  default_route_table_port :: u32
  update_hw :: bool

definition rxs_rio_rt_initialize ::
  "'h host \<Rightarrow> rio_rt_initialize_in_t \<Rightarrow> rio_rt_state_t option \<Rightarrow> 'h dev \<Rightarrow> u32 \<times> u32 \<times> rio_rt_state_t option \<times> 'h dev" where
  "rxs_rio_rt_initialize P p rt_opt s =
     (let d = dev_info s in
      if rxs_chk_dflt_rte_reg d (init_default_route p) then (RIO_ERR_INVALID_PARAMETER, 0x40001001, rt_opt, s)
      else if uc_changed (rxs_chk_and_corr_rtv d \<lparr>rte_val = default_route_table_port p, uc_changed = False\<rparr> False False) then
        (RIO_ERR_INVALID_PARAMETER, 0x40001001, rt_opt, s)
      else if set_on_port p \<ge> NUM_RXS_PORTS d \<and> set_on_port p \<noteq> RIO_ALL_PORTS then (RIO_ERR_INVALID_PARAMETER, 0x40001003, rt_opt, s)
      else
        (let rt = rt_initial (init_default_route p) (default_route_table_port p);
             (rc, imp, rt', s') = (if update_hw p then rxs_rio_rt_set_changed P (set_on_port p) (Some rt) s
                                   else (RIO_SUCCESS, RIO_SUCCESS, Some rt, s))
         in (rc, if rc \<noteq> RIO_SUCCESS then imp else RIO_SUCCESS, if rt_opt = None then None else rt', s')))"

section \<open>Reading the tables\<close>

definition rxs_rio_read_default_route :: "'h host \<Rightarrow> rio_rt_state_t \<times> 'h dev \<Rightarrow> u32 \<times> u32 \<times> rio_rt_state_t \<times> 'h dev" where
  "rxs_rio_read_default_route P st =
     (let (rt, s) = st; (rc, x, s1) = DARRegRead P RXS_ROUTE_DFLT_PORT s in
      if rc \<noteq> RIO_SUCCESS then (rc, 0x40101C01, rt, s1)
      else
        (RIO_SUCCESS, RIO_SUCCESS,
         rt\<lparr>default_route := rte_val (rxs_chk_and_corr_rtv (dev_info s1) \<lparr>rte_val = x, uc_changed = False\<rparr> False True)\<rparr>, s1))"

definition rxs_update_mc_msk ::
  "'h host \<Rightarrow> u8 \<Rightarrow> u32 \<Rightarrow> nat \<Rightarrow> u32 \<Rightarrow> rio_rt_state_t \<times> 'h dev \<Rightarrow> u32 \<times> rio_rt_state_t \<times> 'h dev" where
  "rxs_update_mc_msk P port mc_msk did_idx did_sz st =
     (let (rt, s) = st; mc_idx = RIO_RTV_GET_MC_MSK mc_msk; i = unat mc_idx; m = mc_masks rt ! i in
      if in_use m then (RIO_SUCCESS, rt, s)
      else
        (let m1 = m\<lparr>in_use := True, allocd := True, mc_changed := False, mc_tt := did_sz\<rparr> in
         if did_sz = tt_dev8 \<or> did_sz = tt_dev16 then
           (let m2 = m1\<lparr>mc_destID := (if did_sz = tt_dev8 then of_nat did_idx else push_bit 8 (of_nat did_idx))\<rparr>;
                (rc, x, s1) = DARRegRead P (RXS_SPX_MC_Y_S_CSR (ucast port) mc_idx) s
            in (rc, rt\<lparr>mc_masks := (mc_masks rt)[i := if rc = RIO_SUCCESS then m2\<lparr>mc_mask := x\<rparr> else m2]\<rparr>, s1))
         else (RIO_ERR_INVALID_PARAMETER, rt\<lparr>mc_masks := (mc_masks rt)[i := m1]\<rparr>, s)))"

definition store_entry :: "bool \<Rightarrow> nat \<Rightarrow> rio_rt_uc_info_t \<Rightarrow> rio_rt_state_t \<Rightarrow> rio_rt_state_t" where
  "store_entry is_dom i u rt =
     (if is_dom then rt\<lparr>dom_table := (dom_table rt)[i := u]\<rparr> else rt\<lparr>dev_table := (dev_table rt)[i := u]\<rparr>)"

text \<open>
  One round of the loops of \<open>rxs_read_rte_entries\<close> over the device table and the domain table. The content of the entry after a failed
  register read is that of the state before.
\<close>

definition read_entry ::
  "'h host \<Rightarrow> u8 \<Rightarrow> bool \<Rightarrow> nat \<Rightarrow> rio_rt_state_t \<times> 'h dev \<Rightarrow> u32 \<times> u32 \<times> rio_rt_state_t \<times> 'h dev" where
  "read_entry P port is_dom idx st =
     (let (rt, s) = st;
          addr = (if is_dom then RXS_SPX_L1_GY_ENTRYZ_CSR (ucast port) 0 (of_nat idx) else RXS_SPX_L2_GY_ENTRYZ_CSR (ucast port) 0 (of_nat idx));
          (rc, x, s1) = DARRegRead P addr s in
      if rc \<noteq> RIO_SUCCESS then
        (rc, 0x40101C04, store_entry is_dom idx (((if is_dom then dom_table rt else dev_table rt) ! idx)\<lparr>uc_changed := False\<rparr>) rt, s1)
      else
        (let u = rxs_chk_and_corr_rtv (dev_info s1) \<lparr>rte_val = x, uc_changed = False\<rparr> is_dom False; rt1 = store_entry is_dom idx u rt in
         if \<not> RIO_RTV_IS_MC_MSK (rte_val u) then (RIO_SUCCESS, RIO_SUCCESS, rt1, s1)
         else (let (rc, st2) = rxs_update_mc_msk P port (rte_val u) idx tt_dev8 (rt1, s1)
               in (rc, if rc \<noteq> RIO_SUCCESS then 0x40101C06 else RIO_SUCCESS, st2))))"

definition rxs_read_rte_entries :: "'h host \<Rightarrow> u8 \<Rightarrow> rio_rt_state_t \<times> 'h dev \<Rightarrow> u32 \<times> u32 \<times> rio_rt_state_t \<times> 'h dev" where
  "rxs_read_rte_entries P port st =
     (let (rc, imp, st1) = for_each (read_entry P port False) [0..<RIO_RT_GRP_SZ] st
      in if rc \<noteq> RIO_SUCCESS then (rc, imp, st1) else for_each (read_entry P port True) [0..<RIO_RT_GRP_SZ] st1)"

definition rxs_rio_rt_probe_all ::
  "'h host \<Rightarrow> u8 \<Rightarrow> rio_rt_state_t option \<Rightarrow> 'h dev \<Rightarrow> u32 \<times> u32 \<times> rio_rt_state_t option \<times> 'h dev" where
  "rxs_rio_rt_probe_all P port rt_opt s =
     (if (port \<noteq> RIO_ALL_PORTS \<and> port \<ge> NUM_RXS_PORTS (dev_info s)) \<or> rt_opt = None then (RIO_ERR_INVALID_PARAMETER, 0x40001201, rt_opt, s)
      else
        (let probe_port = (if port = RIO_ALL_PORTS then 0 else port);
             p = \<lparr>set_on_port = probe_port, init_default_route = RIO_RTE_DROP, default_route_table_port = RIO_RTE_DROP, update_hw = False\<rparr>;
             (rc, imp, rt0, s0) = rxs_rio_rt_initialize P p rt_opt s in
         if rc \<noteq> RIO_SUCCESS then (rc, imp, rt0, s0)
         else
           (let (rc, imp, rt1, s1) = rxs_rio_read_default_route P (the rt0, s0) in
            if rc \<noteq> RIO_SUCCESS then (rc, imp, Some rt1, s1)
            else (let (rc, imp, rt2, s2) = rxs_read_rte_entries P probe_port (rt1, s1) in (rc, imp, Some rt2, s2)))))"

section \<open>What the switch does\<close>

text \<open>
  Each port has its own tables. A register of a port is identified by its table, the port and the index; the registers do not overlap.
  A broadcast write reaches the tables of every port.
\<close>

datatype rt_table = L1 | L2 | MC

fun table_reg :: "rt_table \<Rightarrow> nat \<Rightarrow> nat \<Rightarrow> u32" where
  "table_reg L1 p i = RXS_SPX_L1_GY_ENTRYZ_CSR (of_nat p) 0 (of_nat i)"
| "table_reg L2 p i = RXS_SPX_L2_GY_ENTRYZ_CSR (of_nat p) 0 (of_nat i)"
| "table_reg MC p i = RXS_SPX_MC_Y_S_CSR (of_nat p) (of_nat i)"

fun write_reg :: "rt_table \<Rightarrow> u8 \<Rightarrow> nat \<Rightarrow> u32" where
  "write_reg L1 port i = RTE_ADDR (if port = RIO_ALL_PORTS then RXS_BC_L1_GX_ENTRYY_CSR 0 0 else RXS_SPX_L1_GY_ENTRYZ_CSR (ucast port) 0 0) i"
| "write_reg L2 port i = RTE_ADDR (if port = RIO_ALL_PORTS then RXS_BC_L2_GX_ENTRYY_CSR 0 0 else RXS_SPX_L2_GY_ENTRYZ_CSR (ucast port) 0 0) i"
| "write_reg MC port i = MC_MASK_ADDR (if port = RIO_ALL_PORTS then RXS_BC_MC_X_S_CSR 0 else RXS_SPX_MC_Y_S_CSR (ucast port) 0) i"

declare table_reg.simps [simp del] write_reg.simps [simp del]

definition clear_reg :: "u8 \<Rightarrow> nat \<Rightarrow> u32" where
  "clear_reg port i = MC_MASK_ADDR (if port = RIO_ALL_PORTS then RXS_BC_MC_X_C_CSR 0 else RXS_SPX_MC_Y_C_CSR (ucast port) 0) i"

definition ports_of :: "u8 \<Rightarrow> nat set" where
  "ports_of port = (if port = RIO_ALL_PORTS then {0..<24} else {unat port})"

definition update_ports :: "(u32 \<Rightarrow> u32) \<Rightarrow> rt_table \<Rightarrow> u8 \<Rightarrow> nat \<Rightarrow> (u32 \<Rightarrow> u32) \<Rightarrow> u32 \<Rightarrow> u32" where
  "update_ports f tab port i r = (\<lambda>a. if \<exists>p\<in>ports_of port. a = table_reg tab p i then f (r a) else r a)"

text \<open>
  The registers hold \<open>v\<close>: they can be read without an effect; entries store routing values; bits are set in a mask by writing its first register
  and cleared by writing its second; the bits of a mask are those in \<open>mm\<close>.
\<close>

locale rxs_tables =
  fixes P :: "'h host" and rd :: "DAR_DEV_INFO_t \<Rightarrow> u32 \<Rightarrow> 'h \<Rightarrow> u32 \<times> u32 \<times> 'h"
    and wr :: "DAR_DEV_INFO_t \<Rightarrow> u32 \<Rightarrow> u32 \<Rightarrow> 'h \<Rightarrow> u32 \<times> 'h"
    and v :: "'h \<Rightarrow> u32 \<Rightarrow> u32" and mm :: u32
  assumes host: "ReadReg P = Some rd" "WriteReg P = Some wr"
    and read_table: "p < 24 \<Longrightarrow> i < 256 \<Longrightarrow> rd d (table_reg tab p i) h = (RIO_SUCCESS, v h (table_reg tab p i), h)"
    and read_default: "rd d RXS_ROUTE_DFLT_PORT h = (RIO_SUCCESS, v h RXS_ROUTE_DFLT_PORT, h)"
    and write_default: "x \<le> RIO_RTE_VAL \<Longrightarrow> wr d RXS_ROUTE_DFLT_PORT x h = (rc, h') \<Longrightarrow> rc = RIO_SUCCESS \<and> v h' = (v h)(RXS_ROUTE_DFLT_PORT := x)"
    and write_entry: "x \<le> RIO_RTE_VAL \<Longrightarrow> tab \<noteq> MC \<Longrightarrow> i < 256 \<Longrightarrow> port = RIO_ALL_PORTS \<or> unat port < 24 \<Longrightarrow>
      wr d (write_reg tab port i) x h = (rc, h') \<Longrightarrow> rc = RIO_SUCCESS \<and> v h' = update_ports (\<lambda>_. x) tab port i (v h)"
    and set_bits: "i < 256 \<Longrightarrow> port = RIO_ALL_PORTS \<or> unat port < 24 \<Longrightarrow> x AND NOT mm = 0 \<Longrightarrow>
      wr d (write_reg MC port i) x h = (rc, h') \<Longrightarrow> rc = RIO_SUCCESS \<and> v h' = update_ports (\<lambda>y. y OR x) MC port i (v h)"
    and clear_bits: "i < 256 \<Longrightarrow> port = RIO_ALL_PORTS \<or> unat port < 24 \<Longrightarrow> x AND NOT mm = 0 \<Longrightarrow>
      wr d (clear_reg port i) x h = (rc, h') \<Longrightarrow> rc = RIO_SUCCESS \<and> v h' = update_ports (\<lambda>y. y AND NOT x) MC port i (v h)"
    and mask_bits: "p < 24 \<Longrightarrow> i < 256 \<Longrightarrow> v h (table_reg MC p i) AND NOT mm = 0"

text \<open>The registers do not overlap.\<close>

lemma table_reg_nat:
  assumes "p < 24" "i < 256"
  shows "unat (table_reg L1 p i) = 0x50400 + 0x2000 * p + 4 * i" "unat (table_reg L2 p i) = 0x51000 + 0x2000 * p + 4 * i"
    "unat (table_reg MC p i) = 0x80000 + 0x1000 * p + 8 * i"
proof -
  have u: "unat (of_nat n :: u32) = n" if "n < 0x100000" for n using that by (simp add: unsigned_of_nat take_bit_nat_eq_self)
  have "table_reg L1 p i = of_nat (0x50400 + 0x2000 * p + 4 * i)" "table_reg L2 p i = of_nat (0x51000 + 0x2000 * p + 4 * i)"
    "table_reg MC p i = of_nat (0x80000 + 0x1000 * p + 8 * i)"
    by (simp_all add: table_reg.simps RXS_SPX_L1_GY_ENTRYZ_CSR_def RXS_SPX_L2_GY_ENTRYZ_CSR_def RXS_SPX_MC_Y_S_CSR_def)
  then show "unat (table_reg L1 p i) = 0x50400 + 0x2000 * p + 4 * i" "unat (table_reg L2 p i) = 0x51000 + 0x2000 * p + 4 * i"
    "unat (table_reg MC p i) = 0x80000 + 0x1000 * p + 8 * i"
    by (simp_all only:) (rule u; use assms in linarith)+
qed

lemma table_reg_inj:
  assumes "p < 24" "i < 256" "q < 24" "j < 256"
  shows "table_reg tab p i = table_reg tab' q j \<longleftrightarrow> tab = tab' \<and> p = q \<and> i = j"
proof
  assume "table_reg tab p i = table_reg tab' q j"
  then have eq: "unat (table_reg tab p i) = unat (table_reg tab' q j)" by simp
  note n = table_reg_nat [OF assms(1,2)] table_reg_nat [OF assms(3,4)]
  have lt: "tab = tab' \<and> i = j" if "p = q"
    by (cases tab; cases tab'; use eq assms that in \<open>simp add: table_reg_nat\<close>)
  have "p = q"
  proof (rule ccontr)
    assume "p \<noteq> q"
    then have "p + 1 \<le> q \<or> q + 1 \<le> p" by linarith
    then show False using eq assms by (cases tab; cases tab'; simp only: n; linarith)
  qed
  with lt show "tab = tab' \<and> p = q \<and> i = j" by simp
qed simp

lemma table_reg_default: "p < 24 \<Longrightarrow> i < 256 \<Longrightarrow> table_reg tab p i \<noteq> 0x78"
  using table_reg_nat [of p i] by (cases tab) auto

section \<open>Loops\<close>

text \<open>A loop that succeeds in every round.\<close>

lemma for_each_upt:
  assumes "\<And>k s. k < n \<Longrightarrow> J k s \<Longrightarrow> \<exists>s'. f k s = (RIO_SUCCESS, RIO_SUCCESS, s') \<and> J (Suc k) s'" and "J m s" and "m \<le> n"
  shows "\<exists>s'. for_each f [m..<n] s = (RIO_SUCCESS, RIO_SUCCESS, s') \<and> J n s'"
  using assms(2,3)
proof (induction "n - m" arbitrary: m s)
  case (Suc l)
  then have m: "m < n" by simp
  then obtain s' where s': "f m s = (RIO_SUCCESS, RIO_SUCCESS, s')" "J (Suc m) s'" using assms(1) Suc.prems(1) by blast
  have "l = n - Suc m" using m Suc.hyps(2) by simp
  then obtain s'' where "for_each f [Suc m..<n] s' = (RIO_SUCCESS, RIO_SUCCESS, s'')" "J n s''"
    using Suc.hyps(1) [of "Suc m" s'] s'(2) m by auto
  then show ?case using s'(1) m by (simp add: upt_rec)
qed simp

text \<open>The first \<open>k\<close> elements of a list changed.\<close>

definition first_done :: "('a \<Rightarrow> 'a) \<Rightarrow> nat \<Rightarrow> 'a list \<Rightarrow> 'a list" where
  "first_done g k us = map g (take k us) @ drop k us"

lemma first_done_simps [simp]:
  "first_done g 0 us = us" "length (first_done g k us) = length us" "k < length us \<Longrightarrow> first_done g k us ! k = us ! k"
  "length us \<le> k \<Longrightarrow> first_done g k us = map g us"
  by (auto simp: first_done_def nth_append)

lemma first_done_step:
  assumes "k < length us"
  shows "(first_done g k us)[k := g (us ! k)] = first_done g (Suc k) us"
  using assms by (simp add: first_done_def take_Suc_conv_app_nth list_update_append Cons_nth_drop_Suc [symmetric])

text \<open>The registers after \<open>k\<close> entries of a table have been written.\<close>

primrec written :: "rt_table \<Rightarrow> u8 \<Rightarrow> (nat \<Rightarrow> u32) \<Rightarrow> nat \<Rightarrow> (u32 \<Rightarrow> u32) \<Rightarrow> u32 \<Rightarrow> u32" where
  "written tab port f 0 r = r"
| "written tab port f (Suc k) r = update_ports (\<lambda>_. f k) tab port k (written tab port f k r)"

definition port_ok :: "u8 \<Rightarrow> bool" where
  "port_ok port \<longleftrightarrow> port = RIO_ALL_PORTS \<or> unat port < 24"

lemma ports_of_less: "port_ok port \<Longrightarrow> p \<in> ports_of port \<Longrightarrow> p < 24"
  by (auto simp: port_ok_def ports_of_def split: if_splits)

lemma update_ports_table:
  assumes "port_ok port" "i < 256" "q < 24" "j < 256"
  shows "update_ports f tab port i r (table_reg tab' q j) =
    (if tab' = tab \<and> q \<in> ports_of port \<and> j = i then f (r (table_reg tab' q j)) else r (table_reg tab' q j))"
proof -
  have "(\<exists>p\<in>ports_of port. table_reg tab' q j = table_reg tab p i) \<longleftrightarrow> tab' = tab \<and> q \<in> ports_of port \<and> j = i"
    using table_reg_inj [OF assms(3,4) _ assms(2)] ports_of_less [OF assms(1)] by auto
  then show ?thesis by (simp add: update_ports_def)
qed

lemma update_ports_default: "port_ok port \<Longrightarrow> i < 256 \<Longrightarrow> update_ports f tab port i r 0x78 = r 0x78"
  using table_reg_default [of _ i tab] ports_of_less [of port] by (auto simp: update_ports_def)

lemma written_table:
  assumes "port_ok port" "q < 24" "j < 256"
  shows "k \<le> 256 \<Longrightarrow> written tab port f k r (table_reg tab' q j) =
    (if tab' = tab \<and> q \<in> ports_of port \<and> j < k then f j else r (table_reg tab' q j))"
  by (induction k) (auto simp: update_ports_table [OF assms(1) _ assms(2,3)] less_Suc_eq)

lemma written_default: "port_ok port \<Longrightarrow> k \<le> 256 \<Longrightarrow> written tab port f k r 0x78 = r 0x78"
  by (induction k) (simp_all add: update_ports_default)

lemma update_ports_id:
  assumes "\<And>p. p \<in> ports_of port \<Longrightarrow> r (table_reg tab p i) = x"
  shows "update_ports (\<lambda>_. x) tab port i r = r"
  using assms by (auto simp: update_ports_def fun_eq_iff)

lemma update_ports_comp: "update_ports f tab port i (update_ports g tab port i r) = update_ports (\<lambda>y. f (g y)) tab port i r"
  by (auto simp: update_ports_def fun_eq_iff)

lemma update_ports_cong:
  assumes "\<And>p. p \<in> ports_of port \<Longrightarrow> f (r (table_reg tab p i)) = g (r (table_reg tab p i))"
  shows "update_ports f tab port i r = update_ports g tab port i r"
  using assms by (auto simp: update_ports_def fun_eq_iff)

section \<open>Programming\<close>

lemma within_bit:
  fixes x mm :: u32
  assumes "x AND NOT mm = 0" "bit x n"
  shows "bit mm n"
proof -
  have "\<not> bit (x AND NOT mm) n" using assms(1) by simp
  then show ?thesis using assms(2) by (auto simp: bit_simps dest: bit_imp_le_length)
qed

lemma mask_result:
  fixes x msk mm :: u32
  assumes "x AND NOT mm = 0" "msk AND NOT mm = 0"
  shows "(x OR (NOT x AND msk AND mm)) AND NOT (x AND NOT msk AND mm) = msk" "(x OR (msk AND mm)) AND NOT (mm AND NOT msk AND mm) = msk"
proof -
  note b = within_bit [OF assms(1)] within_bit [OF assms(2)]
  show "(x OR (NOT x AND msk AND mm)) AND NOT (x AND NOT msk AND mm) = msk" "(x OR (msk AND mm)) AND NOT (mm AND NOT msk AND mm) = msk"
    by (rule bit_word_eqI; simp only: bit_simps; auto dest: b)+
qed

lemma spx_mc_reg: "port \<noteq> RIO_ALL_PORTS \<Longrightarrow> write_reg MC port i = table_reg MC (unat port) i"
  by (simp add: table_reg.simps write_reg.simps MC_MASK_ADDR_def RXS_SPX_MC_Y_S_CSR_def)

text \<open>The tables of a port are those of the state, in every entry or at least in those that are not marked as changed.\<close>

definition tables_match :: "(u32 \<Rightarrow> u32) \<Rightarrow> rio_rt_state_t \<Rightarrow> nat \<Rightarrow> bool" where
  "tables_match r rt p \<longleftrightarrow> r RXS_ROUTE_DFLT_PORT = default_route rt \<and>
     (\<forall>i<RIO_RT_GRP_SZ. r (table_reg L1 p i) = rte_val (dom_table rt ! i) \<and> r (table_reg L2 p i) = rte_val (dev_table rt ! i) \<and>
       r (table_reg MC p i) = mc_mask (mc_masks rt ! i))"

definition unchanged_match :: "(u32 \<Rightarrow> u32) \<Rightarrow> rio_rt_state_t \<Rightarrow> nat \<Rightarrow> bool" where
  "unchanged_match r rt p \<longleftrightarrow>
     (\<forall>i<RIO_RT_GRP_SZ. (uc_changed (dom_table rt ! i) \<or> r (table_reg L1 p i) = rte_val (dom_table rt ! i)) \<and>
       (uc_changed (dev_table rt ! i) \<or> r (table_reg L2 p i) = rte_val (dev_table rt ! i)) \<and>
       (mc_changed (mc_masks rt ! i) \<or> r (table_reg MC p i) = mc_mask (mc_masks rt ! i)))"

definition all_unchanged :: "rio_rt_state_t \<Rightarrow> rio_rt_state_t" where
  "all_unchanged rt = rt\<lparr>dev_table := map (uc_changed_update (\<lambda>_. False)) (dev_table rt),
     dom_table := map (uc_changed_update (\<lambda>_. False)) (dom_table rt), mc_masks := map (mc_changed_update (\<lambda>_. False)) (mc_masks rt)\<rparr>"

definition rxs_device :: "u32 \<Rightarrow> DAR_DEV_INFO_t \<Rightarrow> bool" where
  "rxs_device mm d \<longleftrightarrow> plain_family d \<and> poregs d = None \<and> mask_mask d = Some mm \<and> legal_ports d AND NOT mm = 0"

lemma mask_within:
  assumes "rxs_device mm d" "mask_ok d m"
  shows "mc_mask m AND NOT mm = 0"
proof -
  have i: "illegal_ports d = NOT (legal_ports d)" by (simp add: illegal_ports_def legal_ports_def)
  have "bit mm n" if "bit (mc_mask m) n" for n
  proof -
    have "\<not> bit (mc_mask m AND illegal_ports d) n" using assms(2) by (simp add: mask_ok_def)
    then have "bit (legal_ports d) n" using that by (auto simp: i bit_simps dest: bit_imp_le_length)
    then show ?thesis using assms(1) within_bit [of "legal_ports d" mm n] by (simp add: rxs_device_def)
  qed
  then show ?thesis by (intro bit_word_eqI) (auto simp: bit_simps)
qed

lemma rt_wf_all_unchanged: "rt_wf d rt \<Longrightarrow> rt_wf d (rt\<lparr>mc_masks := map (mc_changed_update (\<lambda>_. False)) (mc_masks rt)\<rparr>)"
proof (rule rt_wfI)
  assume wf: "rt_wf d rt"
  note w = rt_wfD [OF wf]
  let ?rt = "rt\<lparr>mc_masks := map (mc_changed_update (\<lambda>_. False)) (mc_masks rt)\<rparr>"
  have ok: "entry_ok d (mc_masks ?rt) is_dom v" if "entry_ok d (mc_masks rt) is_dom v" for is_dom v
    using that w(3) by (intro entry_ok_other [OF that]) simp
  show "entry_ok d (mc_masks ?rt) False (rte_val (dev_table ?rt ! i))" "entry_ok d (mc_masks ?rt) True (rte_val (dom_table ?rt ! i))"
    "mask_ok d (mc_masks ?rt ! i)" if "i < 256" for i
    using ok w that by (simp_all add: mask_ok_def)
qed (simp_all add: rt_wfD)

text \<open>A state that is being read from a switch with the tables \<open>rt\<close>: masks in use are those of \<open>rt\<close>, and entries have been read.\<close>

definition table_of :: "bool \<Rightarrow> rio_rt_state_t \<Rightarrow> rio_rt_uc_info_t list" where
  "table_of is_dom rt = (if is_dom then dom_table rt else dev_table rt)"

definition reading :: "rio_rt_state_t \<Rightarrow> rio_rt_state_t \<Rightarrow> bool" where
  "reading rt rt' \<longleftrightarrow> length (dev_table rt') = RIO_RT_GRP_SZ \<and> length (dom_table rt') = RIO_RT_GRP_SZ \<and> length (mc_masks rt') = RIO_MAX_MC_MASKS \<and>
     default_route rt' = default_route rt \<and>
     (\<forall>i<RIO_MAX_MC_MASKS. in_use (mc_masks rt' ! i) \<longrightarrow> mc_mask (mc_masks rt' ! i) = mc_mask (mc_masks rt ! i))"

definition entry_read :: "rio_rt_state_t \<Rightarrow> rio_rt_state_t \<Rightarrow> bool \<Rightarrow> nat \<Rightarrow> bool" where
  "entry_read rt rt' is_dom i \<longleftrightarrow>
     (let x = rte_val (table_of is_dom rt ! i)
      in table_of is_dom rt' ! i = \<lparr>rte_val = x, uc_changed = False\<rparr> \<and> (RIO_RTV_IS_MC_MSK x \<longrightarrow> in_use (mc_masks rt' ! unat (x AND 0xFF))))"

lemma store_entry_reads:
  assumes "reading rt rt'" "i < 256" "u = \<lparr>rte_val = rte_val (table_of is_dom rt ! i), uc_changed = False\<rparr>"
  shows "reading rt (store_entry is_dom i u rt')" "mc_masks (store_entry is_dom i u rt') = mc_masks rt'"
    "table_of b (store_entry is_dom i u rt') ! j = (if b = is_dom \<and> j = i then u else table_of b rt' ! j)"
proof -
  show "reading rt (store_entry is_dom i u rt')" "mc_masks (store_entry is_dom i u rt') = mc_masks rt'"
    using assms(1) by (simp_all add: reading_def store_entry_def)
  show "table_of b (store_entry is_dom i u rt') ! j = (if b = is_dom \<and> j = i then u else table_of b rt' ! j)"
    using assms(1,2) by (cases b; cases is_dom; simp add: reading_def store_entry_def table_of_def)
qed

definition plain_dev :: "DAR_DEV_INFO_t \<Rightarrow> bool" where
  "plain_dev d \<longleftrightarrow> plain_family d \<and> poregs d = None"

context rxs_tables
begin

lemma reg_read:
  assumes "plain_dev (dev_info s)" "rd (dev_info s) a (hw s) = (RIO_SUCCESS, x, hw s)"
  shows "DARRegRead P a s = (RIO_SUCCESS, x, s)"
  using assms host by (auto simp: DARRegRead_def plain_dev_def plain_family_def DAR_get_poreg_idx_def)

lemma reg_write:
  assumes "plain_dev (dev_info s)" "wr (dev_info s) a x (hw s) = (RIO_SUCCESS, h')"
  shows "DARRegWrite P a x s = (RIO_SUCCESS, s\<lparr>hw := h'\<rparr>)"
  using assms host by (auto simp: DARRegWrite_def plain_dev_def plain_family_def DAR_get_poreg_idx_def poreg_store_def)

lemma table_read:
  "plain_dev (dev_info s) \<Longrightarrow> p < 24 \<Longrightarrow> i < 256 \<Longrightarrow> DARRegRead P (table_reg tab p i) s = (RIO_SUCCESS, v (hw s) (table_reg tab p i), s)"
  by (intro reg_read read_table)

lemma default_written:
  assumes "plain_dev (dev_info s)" "x \<le> 0x3FF"
  shows "\<exists>h'. DARRegWrite P 0x78 x s = (RIO_SUCCESS, s\<lparr>hw := h'\<rparr>) \<and> v h' = (v (hw s))(0x78 := x)"
proof -
  obtain rc h' where w: "wr (dev_info s) 0x78 x (hw s) = (rc, h')" by fastforce
  show ?thesis using write_default [OF assms(2) w] reg_write [OF assms(1)] w by auto
qed

lemma entry_written:
  assumes "plain_dev (dev_info s)" "x \<le> 0x3FF" "tab \<noteq> MC" "i < 256" "port_ok port"
  shows "\<exists>h'. DARRegWrite P (write_reg tab port i) x s = (RIO_SUCCESS, s\<lparr>hw := h'\<rparr>) \<and> v h' = update_ports (\<lambda>_. x) tab port i (v (hw s))"
proof -
  obtain rc h' where w: "wr (dev_info s) (write_reg tab port i) x (hw s) = (rc, h')" by fastforce
  show ?thesis using write_entry [OF assms(2-4) assms(5) [unfolded port_ok_def] w] reg_write [OF assms(1)] w by auto
qed

lemma bits_written:
  assumes "plain_dev (dev_info s)" "x AND NOT mm = 0" "i < 256" "port_ok port"
  shows "\<exists>h'. write_bits P (write_reg MC port i) x s = (RIO_SUCCESS, s\<lparr>hw := h'\<rparr>) \<and> v h' = update_ports (\<lambda>y. y OR x) MC port i (v (hw s))"
    "\<exists>h'. write_bits P (clear_reg port i) x s = (RIO_SUCCESS, s\<lparr>hw := h'\<rparr>) \<and> v h' = update_ports (\<lambda>y. y AND NOT x) MC port i (v (hw s))"
proof -
  obtain rc h' where w: "wr (dev_info s) (write_reg MC port i) x (hw s) = (rc, h')" by fastforce
  obtain rc2 h2 where w2: "wr (dev_info s) (clear_reg port i) x (hw s) = (rc2, h2)" by fastforce
  have id: "update_ports (\<lambda>y. y) MC port i r = r" for r by (auto simp: update_ports_def)
  show "\<exists>h'. write_bits P (write_reg MC port i) x s = (RIO_SUCCESS, s\<lparr>hw := h'\<rparr>) \<and> v h' = update_ports (\<lambda>y. y OR x) MC port i (v (hw s))"
    using set_bits [OF assms(3) assms(4) [unfolded port_ok_def] assms(2) w] reg_write [OF assms(1)] w id
    by (cases "x = 0") (auto simp: write_bits_def intro: exI [of _ "hw s"])
  show "\<exists>h'. write_bits P (clear_reg port i) x s = (RIO_SUCCESS, s\<lparr>hw := h'\<rparr>) \<and> v h' = update_ports (\<lambda>y. y AND NOT x) MC port i (v (hw s))"
    using clear_bits [OF assms(3) assms(4) [unfolded port_ok_def] assms(2) w2] reg_write [OF assms(1)] w2 id
    by (cases "x = 0") (auto simp: write_bits_def intro: exI [of _ "hw s"])
qed

lemma mask_programmed:
  fixes s :: "'h dev"
  assumes dev: "plain_dev (dev_info s)" and port: "port_ok port" and i: "i < 256" and m: "m = mc_masks rt ! i" "mc_mask m AND NOT mm = 0"
    and same: "set_all \<or> mc_changed m \<or> (\<forall>p\<in>ports_of port. v (hw s) (table_reg MC p i) = mc_mask m)"
  shows "\<exists>h'. program_mask P mm (port = RIO_ALL_PORTS)
      (if port = RIO_ALL_PORTS then RXS_BC_MC_X_S_CSR 0 else RXS_SPX_MC_Y_S_CSR (ucast port) 0)
      (if port = RIO_ALL_PORTS then RXS_BC_MC_X_C_CSR 0 else RXS_SPX_MC_Y_C_CSR (ucast port) 0) set_all i (rt, s) =
      (RIO_SUCCESS, RIO_SUCCESS, rt\<lparr>mc_masks := (mc_masks rt)[i := m\<lparr>mc_changed := False\<rparr>]\<rparr>, s\<lparr>hw := h'\<rparr>) \<and>
    v h' = update_ports (\<lambda>_. mc_mask m) MC port i (v (hw s))"
proof (cases "mc_changed m \<or> set_all")
  case False
  then have hw: "v (hw s) = update_ports (\<lambda>_. mc_mask m) MC port i (v (hw s))"
    using same by (intro update_ports_id [symmetric]) blast
  have id: "m\<lparr>mc_changed := False\<rparr> = m" using False by (cases m) simp
  have rt: "rt\<lparr>mc_masks := (mc_masks rt)[i := m\<lparr>mc_changed := False\<rparr>]\<rparr> = rt"
    by (simp only: id) (simp add: m(1))
  have run: "program_mask P mm b sb cb set_all i (rt, s) = (RIO_SUCCESS, RIO_SUCCESS, rt, s)" for b sb cb
    using False m(1) by (simp add: program_mask_def)
  show ?thesis unfolding rt run using hw by (intro exI [of _ "hw s"]) simp
next
  case True
  let ?all = "port = RIO_ALL_PORTS"
  let ?curr = "if ?all then 0 else v (hw s) (table_reg MC (unat port) i)"
  let ?set = "NOT ?curr AND mc_mask m AND mm" and ?clr = "(if ?all then mm else ?curr) AND NOT (mc_mask m) AND mm"
  have read: "(if ?all then (RIO_SUCCESS, 0, s) else DARRegRead P (write_reg MC port i) s) = (RIO_SUCCESS, ?curr, s)"
    using table_read [OF dev _ i, of "unat port" MC] port spx_mc_reg [of port i] by (auto simp: port_ok_def)
  have in_mm: "?set AND NOT mm = 0" "?clr AND NOT mm = 0" by (rule bit_word_eqI; simp only: bit_simps; auto)+
  obtain h1 where h1: "write_bits P (write_reg MC port i) ?set s = (RIO_SUCCESS, s\<lparr>hw := h1\<rparr>)"
      "v h1 = update_ports (\<lambda>y. y OR ?set) MC port i (v (hw s))"
    using bits_written(1) [OF dev in_mm(1) i port] by blast
  obtain h2 where h2: "write_bits P (clear_reg port i) ?clr (s\<lparr>hw := h1\<rparr>) = (RIO_SUCCESS, s\<lparr>hw := h2\<rparr>)"
      "v h2 = update_ports (\<lambda>y. y AND NOT ?clr) MC port i (v h1)"
    using bits_written(2) [of "s\<lparr>hw := h1\<rparr>", OF _ in_mm(2) i port] dev by auto
  have "v h2 = update_ports (\<lambda>_. mc_mask m) MC port i (v (hw s))"
    unfolding h2(2) h1(2) update_ports_comp
  proof (rule update_ports_cong)
    fix p assume p: "p \<in> ports_of port"
    have "v (hw s) (table_reg MC p i) AND NOT mm = 0" by (rule mask_bits [OF ports_of_less [OF port p] i])
    note r = mask_result [OF this m(2)]
    show "(v (hw s) (table_reg MC p i) OR ?set) AND NOT ?clr = mc_mask m"
      using r p by (cases ?all) (simp_all add: ports_of_def)
  qed
  moreover have "program_mask P mm ?all (if ?all then RXS_BC_MC_X_S_CSR 0 else RXS_SPX_MC_Y_S_CSR (ucast port) 0)
      (if ?all then RXS_BC_MC_X_C_CSR 0 else RXS_SPX_MC_Y_C_CSR (ucast port) 0) set_all i (rt, s) =
      (RIO_SUCCESS, RIO_SUCCESS, rt\<lparr>mc_masks := (mc_masks rt)[i := m\<lparr>mc_changed := False\<rparr>]\<rparr>, s\<lparr>hw := h2\<rparr>)"
    using True m read h1(1) h2(1) unfolding program_mask_def write_reg.simps(3) [symmetric] clear_reg_def [symmetric]
    by (simp only: prod.case Let_def) simp
  ultimately show ?thesis by blast
qed

lemma dom_programmed:
  fixes s :: "'h dev"
  assumes dev: "plain_dev (dev_info s)" and port: "port_ok port" and i: "i < 256" and u: "u = dom_table rt ! i" "rte_val u \<le> 0x3FF"
    and same: "set_all \<or> uc_changed u \<or> (\<forall>p\<in>ports_of port. v (hw s) (table_reg L1 p i) = rte_val u)"
  shows "\<exists>h'. program_dom P (if port = RIO_ALL_PORTS then RXS_BC_L1_GX_ENTRYY_CSR 0 0 else RXS_SPX_L1_GY_ENTRYZ_CSR (ucast port) 0 0) set_all i (rt, s) =
      (RIO_SUCCESS, RIO_SUCCESS, rt\<lparr>dom_table := (dom_table rt)[i := u\<lparr>uc_changed := False\<rparr>]\<rparr>, s\<lparr>hw := h'\<rparr>) \<and>
    v h' = update_ports (\<lambda>_. rte_val u) L1 port i (v (hw s))"
proof (cases "uc_changed u \<or> set_all")
  case False
  then have hw: "v (hw s) = update_ports (\<lambda>_. rte_val u) L1 port i (v (hw s))"
    using same by (intro update_ports_id [symmetric]) blast
  have id: "u\<lparr>uc_changed := False\<rparr> = u" using False by (cases u) simp
  have rt: "rt\<lparr>dom_table := (dom_table rt)[i := u\<lparr>uc_changed := False\<rparr>]\<rparr> = rt" by (simp only: id) (simp add: u(1))
  have run: "program_dom P b set_all i (rt, s) = (RIO_SUCCESS, RIO_SUCCESS, rt, s)" for b using False u(1) by (simp add: program_dom_def)
  show ?thesis unfolding rt run using hw by (intro exI [of _ "hw s"]) simp
next
  case True
  obtain h' where "DARRegWrite P (write_reg L1 port i) (rte_val u) s = (RIO_SUCCESS, s\<lparr>hw := h'\<rparr>)"
      "v h' = update_ports (\<lambda>_. rte_val u) L1 port i (v (hw s))"
    using entry_written [OF dev u(2) _ i port, of L1] by blast
  then show ?thesis using True u(1) unfolding program_dom_def write_reg.simps(1) [symmetric] by auto
qed

lemma dev_programmed:
  fixes s :: "'h dev"
  assumes dev: "plain_dev (dev_info s)" and port: "port_ok port" and i: "i < 256"
    and u: "u = dev_table rt ! i" "rte_val u \<le> 0x3FF" "\<not> RIO_RTV_IS_LVL_GRP (rte_val u)"
    and same: "set_all \<or> uc_changed u \<or> (\<forall>p\<in>ports_of port. v (hw s) (table_reg L2 p i) = rte_val u)"
  shows "\<exists>h'. program_dev P (if port = RIO_ALL_PORTS then RXS_BC_L2_GX_ENTRYY_CSR 0 0 else RXS_SPX_L2_GY_ENTRYZ_CSR (ucast port) 0 0) set_all i (rt, s) =
      (RIO_SUCCESS, RIO_SUCCESS, rt\<lparr>dev_table := (dev_table rt)[i := u\<lparr>uc_changed := False\<rparr>]\<rparr>, s\<lparr>hw := h'\<rparr>) \<and>
    v h' = update_ports (\<lambda>_. rte_val u) L2 port i (v (hw s))"
proof (cases "uc_changed u \<or> set_all")
  case False
  then have hw: "v (hw s) = update_ports (\<lambda>_. rte_val u) L2 port i (v (hw s))"
    using same by (intro update_ports_id [symmetric]) blast
  have id: "u\<lparr>uc_changed := False\<rparr> = u" using False by (cases u) simp
  have rt: "rt\<lparr>dev_table := (dev_table rt)[i := u\<lparr>uc_changed := False\<rparr>]\<rparr> = rt" by (simp only: id) (simp add: u(1))
  have run: "program_dev P b set_all i (rt, s) = (RIO_SUCCESS, RIO_SUCCESS, rt, s)" for b using False u(1) by (simp add: program_dev_def)
  show ?thesis unfolding rt run using hw by (intro exI [of _ "hw s"]) simp
next
  case True
  obtain h' where "DARRegWrite P (write_reg L2 port i) (rte_val u) s = (RIO_SUCCESS, s\<lparr>hw := h'\<rparr>)"
      "v h' = update_ports (\<lambda>_. rte_val u) L2 port i (v (hw s))"
    using entry_written [OF dev u(2) _ i port, of L2] by blast
  then show ?thesis using True u(1,3) unfolding program_dev_def write_reg.simps(2) [symmetric] by auto
qed

text \<open>A loop that writes the entries of a table one after another.\<close>

lemma table_loop:
  fixes s :: "'h dev"
  assumes step: "\<And>k h. k < 256 \<Longrightarrow> v h = written tab port f k (v (hw s)) \<Longrightarrow>
    \<exists>h'. F k (st k, s\<lparr>hw := h\<rparr>) = (RIO_SUCCESS, RIO_SUCCESS, st (Suc k), s\<lparr>hw := h'\<rparr>) \<and> v h' = update_ports (\<lambda>_. f k) tab port k (v h)"
  shows "\<exists>h'. for_each F [0..<256] (st 0, s) = (RIO_SUCCESS, RIO_SUCCESS, st 256, s\<lparr>hw := h'\<rparr>) \<and> v h' = written tab port f 256 (v (hw s))"
proof -
  define J where "J k x \<longleftrightarrow> (\<exists>h. x = (st k, s\<lparr>hw := h\<rparr>) \<and> v h = written tab port f k (v (hw s)))" for k x
  have next_round: "\<exists>x'. F k x = (RIO_SUCCESS, RIO_SUCCESS, x') \<and> J (Suc k) x'" if k: "k < 256" and x: "J k x" for k x
  proof -
    from x obtain h where h: "x = (st k, s\<lparr>hw := h\<rparr>)" "v h = written tab port f k (v (hw s))" unfolding J_def by blast
    from step [OF k h(2)] obtain h' where "F k (st k, s\<lparr>hw := h\<rparr>) = (RIO_SUCCESS, RIO_SUCCESS, st (Suc k), s\<lparr>hw := h'\<rparr>)"
      "v h' = update_ports (\<lambda>_. f k) tab port k (v h)" by blast
    then show ?thesis unfolding J_def h(1) by (intro exI [of _ "(st (Suc k), s\<lparr>hw := h'\<rparr>)"]) (auto simp: h(2))
  qed
  have start: "J 0 (st 0, s)" unfolding J_def by (intro exI [of _ "hw s"]) simp
  from for_each_upt [of 256 J F 0, OF next_round start] show ?thesis unfolding J_def by auto
qed

text \<open>An entry that is yet to be written is as it was before the loop.\<close>

lemma not_yet_written:
  assumes "port_ok port" "k < 256" "v h = written tab port f k r" "\<And>p. p \<in> ports_of port \<Longrightarrow> A \<or> r (table_reg tab p k) = f k"
  shows "A \<or> (\<forall>p\<in>ports_of port. v h (table_reg tab p k) = f k)"
proof -
  have "v h (table_reg tab p k) = r (table_reg tab p k)" if "p \<in> ports_of port" for p
    using written_table [OF assms(1) ports_of_less [OF assms(1) that] assms(2), of k] assms(2,3) by simp
  then show ?thesis using assms(4) by auto
qed

lemma masks_programmed:
  fixes s :: "'h dev"
  assumes dev: "plain_dev (dev_info s)" "mask_mask (dev_info s) = Some mm" and port: "port_ok port" and len: "length (mc_masks rt) = 256"
    and ok: "\<And>i. i < 256 \<Longrightarrow> mc_mask (mc_masks rt ! i) AND NOT mm = 0"
    and same: "\<And>p i. p \<in> ports_of port \<Longrightarrow> i < 256 \<Longrightarrow>
      set_all \<or> mc_changed (mc_masks rt ! i) \<or> v (hw s) (table_reg MC p i) = mc_mask (mc_masks rt ! i)"
  shows "\<exists>h'. rxs_program_mc_masks P port set_all (rt, s) =
      (RIO_SUCCESS, RIO_SUCCESS, rt\<lparr>mc_masks := map (mc_changed_update (\<lambda>_. False)) (mc_masks rt)\<rparr>, s\<lparr>hw := h'\<rparr>) \<and>
    v h' = written MC port (\<lambda>i. mc_mask (mc_masks rt ! i)) 256 (v (hw s))"
proof -
  let ?clr = "mc_changed_update (\<lambda>_. False)"
  let ?st = "\<lambda>k. rt\<lparr>mc_masks := first_done ?clr k (mc_masks rt)\<rparr>"
  let ?F = "program_mask P mm (port = RIO_ALL_PORTS)
      (if port = RIO_ALL_PORTS then RXS_BC_MC_X_S_CSR 0 else RXS_SPX_MC_Y_S_CSR (ucast port) 0)
      (if port = RIO_ALL_PORTS then RXS_BC_MC_X_C_CSR 0 else RXS_SPX_MC_Y_C_CSR (ucast port) 0) set_all"
  have "\<exists>h'. ?F k (?st k, s\<lparr>hw := h\<rparr>) = (RIO_SUCCESS, RIO_SUCCESS, ?st (Suc k), s\<lparr>hw := h'\<rparr>) \<and>
      v h' = update_ports (\<lambda>_. mc_mask (mc_masks rt ! k)) MC port k (v h)"
    if k: "k < 256" and h: "v h = written MC port (\<lambda>i. mc_mask (mc_masks rt ! i)) k (v (hw s))" for k h
    using mask_programmed [of "s\<lparr>hw := h\<rparr>" port k "mc_masks rt ! k" "?st k" set_all] dev(1) port k len ok [OF k]
      not_yet_written [OF port k h, of "set_all \<or> mc_changed (mc_masks rt ! k)"] same [OF _ k]
    by (simp add: first_done_step)
  from table_loop [of MC port "\<lambda>i. mc_mask (mc_masks rt ! i)" s ?F ?st, OF this] show ?thesis
    using len dev(2) by (simp add: rxs_program_mc_masks_def Let_def)
qed

lemma entries_programmed:
  fixes s :: "'h dev"
  assumes dev: "plain_dev (dev_info s)" and port: "port_ok port" and wf: "rt_wf d rt"
    and same: "\<And>p i. p \<in> ports_of port \<Longrightarrow> i < 256 \<Longrightarrow>
      set_all \<or> uc_changed (dom_table rt ! i) \<or> v (hw s) (table_reg L1 p i) = rte_val (dom_table rt ! i)"
      "\<And>p i. p \<in> ports_of port \<Longrightarrow> i < 256 \<Longrightarrow>
      set_all \<or> uc_changed (dev_table rt ! i) \<or> v (hw s) (table_reg L2 p i) = rte_val (dev_table rt ! i)"
  shows "\<exists>h'. rxs_program_rte_entries P port set_all (rt, s) =
      (RIO_SUCCESS, RIO_SUCCESS, rt\<lparr>dom_table := map (uc_changed_update (\<lambda>_. False)) (dom_table rt),
         dev_table := map (uc_changed_update (\<lambda>_. False)) (dev_table rt)\<rparr>, s\<lparr>hw := h'\<rparr>) \<and>
    v h' = written L2 port (\<lambda>i. rte_val (dev_table rt ! i)) 256
      (written L1 port (\<lambda>i. rte_val (dom_table rt ! i)) 256 ((v (hw s))(0x78 := default_route rt)))"
proof -
  note w = rt_wfD [OF wf]
  let ?clr = "uc_changed_update (\<lambda>_. False)"
  let ?dom = "\<lambda>i. rte_val (dom_table rt ! i)" and ?dev = "\<lambda>i. rte_val (dev_table rt ! i)"
  let ?st1 = "\<lambda>k. rt\<lparr>dom_table := first_done ?clr k (dom_table rt)\<rparr>"
  let ?rt1 = "rt\<lparr>dom_table := map ?clr (dom_table rt)\<rparr>"
  let ?st2 = "\<lambda>k. ?rt1\<lparr>dev_table := first_done ?clr k (dev_table rt)\<rparr>"
  let ?F1 = "program_dom P (if port = RIO_ALL_PORTS then RXS_BC_L1_GX_ENTRYY_CSR 0 0 else RXS_SPX_L1_GY_ENTRYZ_CSR (ucast port) 0 0) set_all"
  let ?F2 = "program_dev P (if port = RIO_ALL_PORTS then RXS_BC_L2_GX_ENTRYY_CSR 0 0 else RXS_SPX_L2_GY_ENTRYZ_CSR (ucast port) 0 0) set_all"
  obtain h0 where h0: "DARRegWrite P 0x78 (default_route rt) s = (RIO_SUCCESS, s\<lparr>hw := h0\<rparr>)" "v h0 = (v (hw s))(0x78 := default_route rt)"
    using default_written [OF dev] w(5) by blast
  let ?s0 = "s\<lparr>hw := h0\<rparr>"
  have r0: "v h0 (table_reg tab p i) = v (hw s) (table_reg tab p i)" if "p \<in> ports_of port" "i < 256" for tab p i
    using table_reg_default [OF ports_of_less [OF port that(1)] that(2)] by (simp add: h0(2))
  have dom: "?dom i \<le> 0x3FF" if "i < 256" for i using w(7) [OF that] by (simp add: entry_ok_def)
  have dv: "?dev i \<le> 0x3FF" "\<not> RIO_RTV_IS_LVL_GRP (?dev i)" if "i < 256" for i
    using w(6) [OF that] accepted_values(1) [of "?dev i" d] by (auto simp: entry_ok_def rtv_types)
  have "\<exists>h'. ?F1 k (?st1 k, ?s0\<lparr>hw := h\<rparr>) = (RIO_SUCCESS, RIO_SUCCESS, ?st1 (Suc k), ?s0\<lparr>hw := h'\<rparr>) \<and> v h' = update_ports (\<lambda>_. ?dom k) L1 port k (v h)"
    if k: "k < 256" and h: "v h = written L1 port ?dom k (v (hw ?s0))" for k h
    using dom_programmed [of "?s0\<lparr>hw := h\<rparr>" port k "dom_table rt ! k" "?st1 k" set_all] dev port k w(2) dom [OF k]
      not_yet_written [OF port k h, of "set_all \<or> uc_changed (dom_table rt ! k)"] same(1) [OF _ k] r0 [OF _ k]
    by (simp add: first_done_step)
  from table_loop [of L1 port ?dom ?s0 ?F1 ?st1, OF this] obtain h1 where
    h1: "for_each ?F1 [0..<256] (rt, ?s0) = (RIO_SUCCESS, RIO_SUCCESS, ?rt1, s\<lparr>hw := h1\<rparr>)" "v h1 = written L1 port ?dom 256 (v h0)"
    using w(2) by auto
  let ?s1 = "s\<lparr>hw := h1\<rparr>"
  have r1: "v h1 (table_reg L2 p i) = v (hw s) (table_reg L2 p i)" if "p \<in> ports_of port" "i < 256" for p i
    using written_table [OF port ports_of_less [OF port that(1)] that(2), of 256] r0 [OF that] by (simp add: h1(2))
  have "\<exists>h'. ?F2 k (?st2 k, ?s1\<lparr>hw := h\<rparr>) = (RIO_SUCCESS, RIO_SUCCESS, ?st2 (Suc k), ?s1\<lparr>hw := h'\<rparr>) \<and> v h' = update_ports (\<lambda>_. ?dev k) L2 port k (v h)"
    if k: "k < 256" and h: "v h = written L2 port ?dev k (v (hw ?s1))" for k h
    using dev_programmed [of "?s1\<lparr>hw := h\<rparr>" port k "dev_table rt ! k" "?st2 k" set_all] dev port k w(1) dv [OF k]
      not_yet_written [OF port k h, of "set_all \<or> uc_changed (dev_table rt ! k)"] same(2) [OF _ k] r1 [OF _ k]
    by (simp add: first_done_step)
  from table_loop [of L2 port ?dev ?s1 ?F2 ?st2, OF this] obtain h2 where
    h2: "for_each ?F2 [0..<256] (?rt1, ?s1) = (RIO_SUCCESS, RIO_SUCCESS, ?rt1\<lparr>dev_table := map ?clr (dev_table rt)\<rparr>, s\<lparr>hw := h2\<rparr>)"
      "v h2 = written L2 port ?dev 256 (v h1)"
    using w(1) by auto
  show ?thesis unfolding rxs_program_rte_entries_def
    using h0(1) h1(1) h2 by (intro exI [of _ h2]) (simp add: Let_def h1(2) h0(2))
qed

lemma set_common_programs:
  fixes s :: "'h dev"
  assumes dev: "rxs_device mm (dev_info s)" and port: "port = RIO_ALL_PORTS \<or> port < NUM_RXS_PORTS (dev_info s)"
    and wf: "rt_wf (dev_info s) rt" and same: "set_all \<or> (\<forall>p\<in>ports_of port. unchanged_match (v (hw s)) rt p)"
  shows "\<exists>h'. rxs_rt_set_common P port set_all (Some rt) s = (RIO_SUCCESS, RIO_SUCCESS, Some (all_unchanged rt), s\<lparr>hw := h'\<rparr>) \<and>
    (\<forall>p\<in>ports_of port. tables_match (v h') rt p)"
proof -
  note w = rt_wfD [OF wf]
  have p: "port_ok port" using port NUM_RXS_PORTS_le [of "dev_info s"] by (auto simp: port_ok_def word_less_nat_alt)
  have plain: "plain_dev (dev_info s)" "mask_mask (dev_info s) = Some mm" using dev by (simp_all add: rxs_device_def plain_dev_def)
  let ?rt1 = "rt\<lparr>mc_masks := map (mc_changed_update (\<lambda>_. False)) (mc_masks rt)\<rparr>"
  have "\<exists>h1. rxs_program_mc_masks P port set_all (rt, s) = (RIO_SUCCESS, RIO_SUCCESS, ?rt1, s\<lparr>hw := h1\<rparr>) \<and>
    v h1 = written MC port (\<lambda>i. mc_mask (mc_masks rt ! i)) 256 (v (hw s))"
    using same mask_within [OF dev w(8)] by (intro masks_programmed plain p w(3)) (auto simp: unchanged_match_def)
  then obtain h1 where h1: "rxs_program_mc_masks P port set_all (rt, s) = (RIO_SUCCESS, RIO_SUCCESS, ?rt1, s\<lparr>hw := h1\<rparr>)"
    "v h1 = written MC port (\<lambda>i. mc_mask (mc_masks rt ! i)) 256 (v (hw s))" by blast
  have r1: "v h1 (table_reg tab q i) = v (hw s) (table_reg tab q i)" if "tab \<noteq> MC" "q \<in> ports_of port" "i < 256" for tab q i
    using written_table [OF p ports_of_less [OF p that(2)] that(3), of 256] that(1) by (simp add: h1(2))
  have "\<exists>h2. rxs_program_rte_entries P port set_all (?rt1, s\<lparr>hw := h1\<rparr>) = (RIO_SUCCESS, RIO_SUCCESS,
      ?rt1\<lparr>dom_table := map (uc_changed_update (\<lambda>_. False)) (dom_table ?rt1), dev_table := map (uc_changed_update (\<lambda>_. False)) (dev_table ?rt1)\<rparr>,
      s\<lparr>hw := h1\<rparr>\<lparr>hw := h2\<rparr>) \<and>
    v h2 = written L2 port (\<lambda>i. rte_val (dev_table ?rt1 ! i)) 256
      (written L1 port (\<lambda>i. rte_val (dom_table ?rt1 ! i)) 256 ((v (hw (s\<lparr>hw := h1\<rparr>)))(0x78 := default_route ?rt1)))"
    using same plain p r1 rt_wf_all_unchanged [OF wf] by (intro entries_programmed) (auto simp: unchanged_match_def)
  then obtain h2 where h2: "rxs_program_rte_entries P port set_all (?rt1, s\<lparr>hw := h1\<rparr>) = (RIO_SUCCESS, RIO_SUCCESS, all_unchanged rt, s\<lparr>hw := h2\<rparr>)"
    "v h2 = written L2 port (\<lambda>i. rte_val (dev_table rt ! i)) 256
      (written L1 port (\<lambda>i. rte_val (dom_table rt ! i)) 256 ((v h1)(0x78 := default_route rt)))"
    by (auto simp: all_unchanged_def)
  have "tables_match (v h2) rt q" if q: "q \<in> ports_of port" for q
    using ports_of_less [OF p q] q unfolding tables_match_def
    by (auto simp: h2(2) h1(2) written_table [OF p] written_default [OF p] table_reg_default)
  moreover have "\<not> (port \<noteq> RIO_ALL_PORTS \<and> port \<ge> NUM_RXS_PORTS (dev_info s))" using port by auto
  ultimately show ?thesis using h1(1) h2(1) w(5) by (auto simp: rxs_rt_set_common_def)
qed

section \<open>Reading back\<close>

lemma mask_read:
  fixes s :: "'h dev"
  assumes dev: "plain_dev (dev_info s)" and port: "unat port < 24" and hw: "tables_match (v (hw s)) rt (unat port)" and r: "reading rt rt'"
    and x: "RIO_RTV_IS_MC_MSK x"
  shows "\<exists>m. rxs_update_mc_msk P port x i 0 (rt', s) = (RIO_SUCCESS, rt'\<lparr>mc_masks := (mc_masks rt')[unat (x AND 0xFF) := m]\<rparr>, s) \<and>
    in_use m \<and> mc_mask m = mc_mask (mc_masks rt ! unat (x AND 0xFF))"
proof (cases "in_use (mc_masks rt' ! unat (x AND 0xFF))")
  case True
  then show ?thesis using x r
    by (intro exI [of _ "mc_masks rt' ! unat (x AND 0xFF)"]) (simp add: rxs_update_mc_msk_def RIO_RTV_GET_MC_MSK_def Let_def reading_def)
next
  case False
  have addr: "RXS_SPX_MC_Y_S_CSR (ucast port) (x AND 0xFF) = table_reg MC (unat port) (unat (x AND 0xFF))"
    by (simp add: table_reg.simps)
  have "DARRegRead P (RXS_SPX_MC_Y_S_CSR (ucast port) (x AND 0xFF)) s = (RIO_SUCCESS, mc_mask (mc_masks rt ! unat (x AND 0xFF)), s)"
    unfolding addr using table_read [OF dev port, of "unat (x AND 0xFF)" MC] hw by (simp add: tables_match_def)
  then show ?thesis using False x by (auto simp: rxs_update_mc_msk_def RIO_RTV_GET_MC_MSK_def Let_def)
qed

lemma entry_is_read:
  fixes s :: "'h dev"
  assumes dev: "plain_dev (dev_info s)" and port: "unat port < 24" and hw: "tables_match (v (hw s)) rt (unat port)" and wf: "rt_wf (dev_info s) rt"
    and i: "i < 256" and r: "reading rt rt'"
  shows "\<exists>rt''. read_entry P port is_dom i (rt', s) = (RIO_SUCCESS, RIO_SUCCESS, rt'', s) \<and> reading rt rt'' \<and> entry_read rt rt'' is_dom i \<and>
    (\<forall>b j. j \<noteq> i \<or> b \<noteq> is_dom \<longrightarrow> entry_read rt rt' b j \<longrightarrow> entry_read rt rt'' b j)"
proof -
  note w = rt_wfD [OF wf]
  let ?x = "rte_val (table_of is_dom rt ! i)" and ?u = "\<lparr>rte_val = rte_val (table_of is_dom rt ! i), uc_changed = False\<rparr>"
  let ?rt1 = "store_entry is_dom i ?u rt'"
  let ?addr = "if is_dom then RXS_SPX_L1_GY_ENTRYZ_CSR (ucast port) 0 (of_nat i) else RXS_SPX_L2_GY_ENTRYZ_CSR (ucast port) 0 (of_nat i)"
  have addr: "?addr = table_reg (if is_dom then L1 else L2) (unat port) i" by (simp add: table_reg.simps)
  have read: "DARRegRead P ?addr s = (RIO_SUCCESS, ?x, s)"
    unfolding addr using table_read [OF dev port i] hw i by (simp add: tables_match_def table_of_def)
  have chk: "rxs_chk_and_corr_rtv (dev_info s) ?u is_dom False = ?u"
    using w(6,7) [OF i] by (intro chk_unchanged) (simp add: chk_entry_reg entry_ok_def table_of_def)
  note st = store_entry_reads [OF r i refl, where is_dom = is_dom]
  show ?thesis
  proof (cases "RIO_RTV_IS_MC_MSK ?x")
    case False
    then show ?thesis using st read chk
      by (intro exI [of _ ?rt1]) (auto simp: read_entry_def Let_def entry_read_def)
  next
    case True
    let ?k = "unat (?x AND 0xFF)"
    obtain m where m: "rxs_update_mc_msk P port ?x i 0 (?rt1, s) = (RIO_SUCCESS, ?rt1\<lparr>mc_masks := (mc_masks ?rt1)[?k := m]\<rparr>, s)"
      "in_use m" "mc_mask m = mc_mask (mc_masks rt ! ?k)"
      using mask_read [OF dev port hw st(1) True] by blast
    let ?rt2 = "?rt1\<lparr>mc_masks := (mc_masks ?rt1)[?k := m]\<rparr>"
    have len: "length (mc_masks rt') = 256" using r by (simp add: reading_def)
    have masks: "in_use (mc_masks rt' ! j) \<Longrightarrow> in_use (mc_masks ?rt2 ! j)" if "j < 256" for j
      using m(2) that len st(2) by (simp add: nth_upd)
    have used: "in_use (mc_masks ?rt2 ! ?k)" using m(2) len st(2) by simp
    have tabs: "table_of b ?rt2 = table_of b ?rt1" for b by (simp add: table_of_def)
    have "reading rt ?rt2" using st(1) m(3) by (auto simp: reading_def nth_upd)
    moreover have "entry_read rt ?rt2 is_dom i" using used st(3) by (auto simp: entry_read_def tabs Let_def)
    moreover have "entry_read rt ?rt2 b j" if "j \<noteq> i \<or> b \<noteq> is_dom" "entry_read rt rt' b j" for b j
      using that masks st(3) by (auto simp: entry_read_def tabs Let_def)
    moreover have "read_entry P port is_dom i (rt', s) = (RIO_SUCCESS, RIO_SUCCESS, ?rt2, s)"
      using True read chk m(1) by (simp add: read_entry_def Let_def)
    ultimately show ?thesis by blast
  qed
qed

lemma entries_are_read:
  fixes s :: "'h dev"
  assumes dev: "plain_dev (dev_info s)" and port: "unat port < 24" and hw: "tables_match (v (hw s)) rt (unat port)" and wf: "rt_wf (dev_info s) rt"
    and r: "reading rt rt'"
  shows "\<exists>rt''. rxs_read_rte_entries P port (rt', s) = (RIO_SUCCESS, RIO_SUCCESS, rt'', s) \<and> reading rt rt'' \<and>
    (\<forall>is_dom i. i < 256 \<longrightarrow> entry_read rt rt'' is_dom i)"
proof -
  define J where "J A is_dom k x \<longleftrightarrow> (\<exists>rt1. x = (rt1, s) \<and> reading rt rt1 \<and> (\<forall>i<k. entry_read rt rt1 is_dom i) \<and> (\<forall>i<A. entry_read rt rt1 False i))"
    for A is_dom k x
  have round_ok: "\<exists>x'. read_entry P port is_dom k x = (RIO_SUCCESS, RIO_SUCCESS, x') \<and> J A is_dom (Suc k) x'"
    if k: "k < 256" and x: "J A is_dom k x" and A: "A = 0 \<or> is_dom" for A is_dom k x
  proof -
    from x obtain rt1 where rt1: "x = (rt1, s)" "reading rt rt1" "\<forall>i<k. entry_read rt rt1 is_dom i" "\<forall>i<A. entry_read rt rt1 False i"
      unfolding J_def by blast
    from entry_is_read [OF dev port hw wf k rt1(2), of is_dom] obtain rt2 where
      rt2: "read_entry P port is_dom k (rt1, s) = (RIO_SUCCESS, RIO_SUCCESS, rt2, s)" "reading rt rt2" "entry_read rt rt2 is_dom k"
        "\<forall>b j. j \<noteq> k \<or> b \<noteq> is_dom \<longrightarrow> entry_read rt rt1 b j \<longrightarrow> entry_read rt rt2 b j" by blast
    have "\<forall>i<Suc k. entry_read rt rt2 is_dom i" using rt1(3) rt2(3,4) by (auto simp: less_Suc_eq)
    moreover have "\<forall>i<A. entry_read rt rt2 False i" using A rt1(4) rt2(4) by auto
    ultimately show ?thesis unfolding J_def rt1(1) using rt2(1,2) by auto
  qed
  have "J 0 False 0 (rt', s)" unfolding J_def using r by auto
  from for_each_upt [of 256 "J 0 False" "read_entry P port False" 0, OF round_ok this] obtain x1 where
    x1: "for_each (read_entry P port False) [0..<256] (rt', s) = (RIO_SUCCESS, RIO_SUCCESS, x1)" "J 0 False 256 x1" by auto
  have "J 256 True 0 x1" using x1(2) unfolding J_def by auto
  from for_each_upt [of 256 "J 256 True" "read_entry P port True" 0, OF round_ok this] obtain x2 where
    x2: "for_each (read_entry P port True) [0..<256] x1 = (RIO_SUCCESS, RIO_SUCCESS, x2)" "J 256 True 256 x2" by auto
  from x2(2) obtain rt2 where "x2 = (rt2, s)" "reading rt rt2" "\<forall>i<256. entry_read rt rt2 True i" "\<forall>i<256. entry_read rt rt2 False i"
    unfolding J_def by blast
  moreover from this have "entry_read rt rt2 is_dom i" if "i < 256" for is_dom i using that by (cases is_dom) auto
  ultimately show ?thesis using x1(1) x2(1) by (auto simp: rxs_read_rte_entries_def)
qed

lemma probe_all_reads:
  fixes s :: "'h dev"
  assumes dev: "rxs_device mm (dev_info s)" and port: "port = RIO_ALL_PORTS \<or> port < NUM_RXS_PORTS (dev_info s)" and some: "NUM_RXS_PORTS (dev_info s) > 0"
    and hw: "tables_match (v (hw s)) rt (if port = RIO_ALL_PORTS then 0 else unat port)" and wf: "rt_wf (dev_info s) rt"
  shows "\<exists>rt''. rxs_rio_rt_probe_all P port (Some rt') s = (RIO_SUCCESS, RIO_SUCCESS, Some rt'', s) \<and> reading rt rt'' \<and>
    (\<forall>is_dom i. i < 256 \<longrightarrow> entry_read rt rt'' is_dom i)"
proof -
  note w = rt_wfD [OF wf]
  let ?port = "if port = RIO_ALL_PORTS then 0 else port"
  let ?rt0 = "rt_initial RIO_RTE_DROP RIO_RTE_DROP" and ?rt1 = "rt_initial (default_route rt) RIO_RTE_DROP"
  have plain: "plain_dev (dev_info s)" using dev by (simp add: rxs_device_def plain_dev_def)
  have lt: "?port < NUM_RXS_PORTS (dev_info s)" using port some by auto
  then have p: "unat ?port < 24" using NUM_RXS_PORTS_le [of "dev_info s"] by (simp add: word_less_nat_alt)
  have drop: "\<not> rxs_chk_dflt_rte_reg (dev_info s) 0x300"
      "\<not> uc_changed (rxs_chk_and_corr_rtv (dev_info s) \<lparr>rte_val = 0x300, uc_changed = False\<rparr> False False)"
    by (simp_all add: rxs_chk_dflt_rte_reg_def rxs_chk_and_corr_rtv_def RIO_RTV_IS_PORT_def RIO_RTV_IS_MC_MSK_def RIO_RTV_IS_LVL_GRP_def)
  have init: "rxs_rio_rt_initialize P \<lparr>set_on_port = ?port, init_default_route = RIO_RTE_DROP, default_route_table_port = RIO_RTE_DROP, update_hw = False\<rparr>
      (Some rt') s = (RIO_SUCCESS, RIO_SUCCESS, Some ?rt0, s)"
    using drop lt by (auto simp: rxs_rio_rt_initialize_def Let_def split: if_splits)
  have "DARRegRead P 0x78 s = (RIO_SUCCESS, default_route rt, s)"
    using reg_read [OF plain read_default] hw by (simp add: tables_match_def)
  moreover have "rxs_chk_and_corr_rtv (dev_info s) \<lparr>rte_val = default_route rt, uc_changed = False\<rparr> False True = \<lparr>rte_val = default_route rt, uc_changed = False\<rparr>"
    using w(5) by (intro chk_unchanged) (simp add: rxs_chk_dflt_rte_reg_def)
  ultimately have dflt: "rxs_rio_read_default_route P (?rt0, s) = (RIO_SUCCESS, RIO_SUCCESS, ?rt1, s)"
    by (simp add: rxs_rio_read_default_route_def rt_initial_def)
  have "reading rt ?rt1" by (simp add: reading_def rt_initial_def mc_unused_def)
  from entries_are_read [OF plain p _ wf this] hw obtain rt'' where
    rt'': "rxs_read_rte_entries P ?port (?rt1, s) = (RIO_SUCCESS, RIO_SUCCESS, rt'', s)" "reading rt rt''"
      "\<forall>is_dom i. i < 256 \<longrightarrow> entry_read rt rt'' is_dom i" by (auto split: if_splits)
  have "rxs_rio_rt_probe_all P port (Some rt') s = (RIO_SUCCESS, RIO_SUCCESS, Some rt'', s)"
    using port init dflt rt''(1) unfolding rxs_rio_rt_probe_all_def by (auto simp: Let_def)
  with rt''(2,3) show ?thesis by blast
qed

end

section \<open>A switch\<close>

text \<open>
  A memory with the address map of the switch: broadcast registers reach the tables of all ports, and the mask registers set and clear bits.
\<close>

fun decode :: "nat \<Rightarrow> rt_table \<times> bool \<times> u8 \<times> nat" where
  "decode n =
     (if n < 0x30800 then (L1, False, RIO_ALL_PORTS, (n - 0x30400) div 4)
      else if n < 0x31400 then (L2, False, RIO_ALL_PORTS, (n - 0x31000) div 4)
      else if n < 0x32800 then (MC, n mod 8 = 4, RIO_ALL_PORTS, (n - 0x32000) div 8)
      else if n < 0x80000 then
        (let p = (n - 0x50000) div 0x2000; r = (n - 0x50000) mod 0x2000
         in if r < 0x800 then (L1, False, of_nat p, (r - 0x400) div 4) else (L2, False, of_nat p, (r - 0x1000) div 4))
      else (let p = (n - 0x80000) div 0x1000; r = (n - 0x80000) mod 0x1000 in (MC, r mod 8 = 4, of_nat p, r div 8)))"

definition switch_regs :: "u32 \<Rightarrow> (u32 \<Rightarrow> u32) \<Rightarrow> u32 \<Rightarrow> u32" where
  "switch_regs mm h a = (if unat a \<ge> 0x80000 then h a AND mm else h a)"

definition switch_write :: "u32 \<Rightarrow> DAR_DEV_INFO_t \<Rightarrow> u32 \<Rightarrow> u32 \<Rightarrow> (u32 \<Rightarrow> u32) \<Rightarrow> u32 \<times> (u32 \<Rightarrow> u32)" where
  "switch_write mm d a x h =
     (RIO_SUCCESS,
      if a = RXS_ROUTE_DFLT_PORT then (switch_regs mm h)(a := x)
      else (case decode (unat a) of (tab, clr, port, i) \<Rightarrow>
        update_ports (\<lambda>y. if tab \<noteq> MC then x else if clr then y AND NOT x else y OR x) tab port i (switch_regs mm h)))"

definition switch_read :: "u32 \<Rightarrow> DAR_DEV_INFO_t \<Rightarrow> u32 \<Rightarrow> (u32 \<Rightarrow> u32) \<Rightarrow> u32 \<times> u32 \<times> (u32 \<Rightarrow> u32)" where
  "switch_read mm d a h = (RIO_SUCCESS, switch_regs mm h a, h)"

definition switch_host :: "u32 \<Rightarrow> (u32 \<Rightarrow> u32) host" where
  "switch_host mm = \<lparr>ReadReg = Some (switch_read mm), WriteReg = Some (switch_write mm)\<rparr>"

lemma unat_of_nat_small: "n < 0x100000 \<Longrightarrow> unat (of_nat n :: u32) = n"
  by (simp add: unsigned_of_nat take_bit_nat_eq_self)

lemma write_reg_nat:
  assumes "i < 256" "port \<noteq> RIO_ALL_PORTS \<Longrightarrow> unat port < 24"
  shows "unat (write_reg L1 port i) = (if port = RIO_ALL_PORTS then 0x30400 + 4 * i else 0x50400 + 0x2000 * unat port + 4 * i)"
    "unat (write_reg L2 port i) = (if port = RIO_ALL_PORTS then 0x31000 + 4 * i else 0x51000 + 0x2000 * unat port + 4 * i)"
    "unat (write_reg MC port i) = (if port = RIO_ALL_PORTS then 0x32000 + 8 * i else 0x80000 + 0x1000 * unat port + 8 * i)"
    "unat (clear_reg port i) = (if port = RIO_ALL_PORTS then 0x32004 + 8 * i else 0x80004 + 0x1000 * unat port + 8 * i)"
proof -
  have "write_reg L1 port i = of_nat (if port = RIO_ALL_PORTS then 0x30400 + 4 * i else 0x50400 + 0x2000 * unat port + 4 * i)"
    "write_reg L2 port i = of_nat (if port = RIO_ALL_PORTS then 0x31000 + 4 * i else 0x51000 + 0x2000 * unat port + 4 * i)"
    "write_reg MC port i = of_nat (if port = RIO_ALL_PORTS then 0x32000 + 8 * i else 0x80000 + 0x1000 * unat port + 8 * i)"
    "clear_reg port i = of_nat (if port = RIO_ALL_PORTS then 0x32004 + 8 * i else 0x80004 + 0x1000 * unat port + 8 * i)"
    by (simp_all add: write_reg.simps clear_reg_def RTE_ADDR_def MC_MASK_ADDR_def RXS_BC_L1_GX_ENTRYY_CSR_def RXS_BC_L2_GX_ENTRYY_CSR_def
        RXS_BC_MC_X_S_CSR_def RXS_BC_MC_X_C_CSR_def RXS_SPX_L1_GY_ENTRYZ_CSR_def RXS_SPX_L2_GY_ENTRYZ_CSR_def RXS_SPX_MC_Y_S_CSR_def
        RXS_SPX_MC_Y_C_CSR_def)
  then show "unat (write_reg L1 port i) = (if port = RIO_ALL_PORTS then 0x30400 + 4 * i else 0x50400 + 0x2000 * unat port + 4 * i)"
    "unat (write_reg L2 port i) = (if port = RIO_ALL_PORTS then 0x31000 + 4 * i else 0x51000 + 0x2000 * unat port + 4 * i)"
    "unat (write_reg MC port i) = (if port = RIO_ALL_PORTS then 0x32000 + 8 * i else 0x80000 + 0x1000 * unat port + 8 * i)"
    "unat (clear_reg port i) = (if port = RIO_ALL_PORTS then 0x32004 + 8 * i else 0x80004 + 0x1000 * unat port + 8 * i)"
    using assms by (cases "port = RIO_ALL_PORTS"; simp only: if_True if_False simp_thms; intro unat_of_nat_small; fastforce)+
qed

lemma decode_offset:
  assumes p: "p < (24 :: nat)" and i: "i < 256"
  shows "decode (0x50400 + 0x2000 * p + 4 * i) = (L1, False, of_nat p, i)"
    "decode (0x51000 + 0x2000 * p + 4 * i) = (L2, False, of_nat p, i)"
    "decode (0x80000 + 0x1000 * p + 8 * i) = (MC, False, of_nat p, i)"
    "decode (0x80004 + 0x1000 * p + 8 * i) = (MC, True, of_nat p, i)"
proof -
  have dm: "(0x2000 * p + r) div 0x2000 = p \<and> (0x2000 * p + r) mod 0x2000 = r" if "r < 0x2000" for r using that by simp
  have dm2: "(0x1000 * p + r) div 0x1000 = p \<and> (0x1000 * p + r) mod 0x1000 = r" if "r < 0x1000" for r using that by simp
  have e: "0x50400 + 0x2000 * p + 4 * i - 0x50000 = 0x2000 * p + (0x400 + 4 * i)" "0x51000 + 0x2000 * p + 4 * i - 0x50000 = 0x2000 * p + (0x1000 + 4 * i)"
    "0x80000 + 0x1000 * p + 8 * i - 0x80000 = 0x1000 * p + 8 * i" "0x80004 + 0x1000 * p + 8 * i - 0x80000 = 0x1000 * p + (4 + 8 * i)" by simp_all
  have m: "(8 * i) mod 8 = 0" "(4 + 8 * i) mod 8 = 4" "(4 + 8 * i) div 8 = i" by simp_all
  have lt: "0x50400 + 0x2000 * p + 4 * i < 0x80000" "0x51000 + 0x2000 * p + 4 * i < 0x80000" using p i by linarith+
  show "decode (0x50400 + 0x2000 * p + 4 * i) = (L1, False, of_nat p, i)" "decode (0x51000 + 0x2000 * p + 4 * i) = (L2, False, of_nat p, i)"
    unfolding decode.simps e Let_def using i lt dm [of "0x400 + 4 * i"] dm [of "0x1000 + 4 * i"] by simp_all
  show "decode (0x80000 + 0x1000 * p + 8 * i) = (MC, False, of_nat p, i)" "decode (0x80004 + 0x1000 * p + 8 * i) = (MC, True, of_nat p, i)"
    unfolding decode.simps e Let_def using i m dm2 [of "8 * i"] dm2 [of "4 + 8 * i"] by simp_all
qed

lemma decode_write:
  assumes "port_ok port" "i < 256"
  shows "decode (unat (write_reg tab port i)) = (tab, False, port, i)" "decode (unat (clear_reg port i)) = (MC, True, port, i)"
    "write_reg tab port i \<noteq> 0x78" "clear_reg port i \<noteq> 0x78"
proof -
  have p: "port \<noteq> RIO_ALL_PORTS \<Longrightarrow> unat port < 24" using assms(1) by (auto simp: port_ok_def)
  note n = write_reg_nat [OF assms(2) p]
  have all: "decode (0x30400 + 4 * i) = (L1, False, RIO_ALL_PORTS, i)" "decode (0x31000 + 4 * i) = (L2, False, RIO_ALL_PORTS, i)"
    "decode (0x32000 + 8 * i) = (MC, False, RIO_ALL_PORTS, i)" "decode (0x32004 + 8 * i) = (MC, True, RIO_ALL_PORTS, i)"
  proof -
    have m: "(0x32000 + 8 * i) mod 8 = 0" "(0x32004 + 8 * i) mod 8 = 4" "(0x32000 + 8 * i - 0x32000) div 8 = i" "(0x32004 + 8 * i - 0x32000) div 8 = i"
      by presburger+
    show "decode (0x30400 + 4 * i) = (L1, False, RIO_ALL_PORTS, i)" "decode (0x31000 + 4 * i) = (L2, False, RIO_ALL_PORTS, i)"
      using assms(2) by simp_all
    show "decode (0x32000 + 8 * i) = (MC, False, RIO_ALL_PORTS, i)" "decode (0x32004 + 8 * i) = (MC, True, RIO_ALL_PORTS, i)"
      unfolding decode.simps m using assms(2) by simp_all
  qed
  show "decode (unat (write_reg tab port i)) = (tab, False, port, i)"
    using decode_offset [OF p assms(2)] all n by (cases tab; cases "port = RIO_ALL_PORTS") (simp_all del: decode.simps)
  show "decode (unat (clear_reg port i)) = (MC, True, port, i)"
    using decode_offset(4) [OF p assms(2)] all n by (cases "port = RIO_ALL_PORTS") (simp_all del: decode.simps)
  show "write_reg tab port i \<noteq> 0x78" using n(1-3) by (cases tab) (auto split: if_splits)
  show "clear_reg port i \<noteq> 0x78" using n(4) by (auto split: if_splits)
qed

lemma and_within:
  fixes x mm :: u32
  shows "x AND NOT mm = 0 \<longleftrightarrow> x AND mm = x"
proof
  assume "x AND NOT mm = 0"
  then show "x AND mm = x" by (intro bit_word_eqI) (auto simp: bit_simps dest: within_bit)
next
  assume a: "x AND mm = x"
  have "x AND NOT mm = (x AND mm) AND NOT mm" by (simp only: a)
  also have "\<dots> = 0" by (rule bit_word_eqI) (auto simp: bit_simps)
  finally show "x AND NOT mm = 0" .
qed

lemma switch_regs_update:
  assumes port: "port_ok port" and i: "i < 256" and f: "\<And>y. tab = MC \<Longrightarrow> y AND mm = y \<Longrightarrow> f y AND mm = f y"
  shows "switch_regs mm (update_ports f tab port i (switch_regs mm h)) = update_ports f tab port i (switch_regs mm h)"
proof
  fix a
  have r: "switch_regs mm h a AND mm = switch_regs mm h a" if "0x80000 \<le> unat a" using that by (simp add: switch_regs_def and.assoc)
  have "tab = MC" if "p \<in> ports_of port" "a = table_reg tab p i" "0x80000 \<le> unat a" for p
    using that table_reg_nat [OF ports_of_less [OF port that(1)] i] ports_of_less [OF port that(1)] i by (cases tab) auto
  then show "switch_regs mm (update_ports f tab port i (switch_regs mm h)) a = update_ports f tab port i (switch_regs mm h) a"
    using r f unfolding switch_regs_def [of mm "update_ports f tab port i (switch_regs mm h)"] by (auto simp: update_ports_def)
qed

interpretation switch: rxs_tables "switch_host mm" "switch_read mm" "switch_write mm" "switch_regs mm" mm
proof
  show "ReadReg (switch_host mm) = Some (switch_read mm)" "WriteReg (switch_host mm) = Some (switch_write mm)" by (simp_all add: switch_host_def)
  show "switch_read mm d (table_reg tab p i) h = (RIO_SUCCESS, switch_regs mm h (table_reg tab p i), h)"
    "switch_read mm d 0x78 h = (RIO_SUCCESS, switch_regs mm h 0x78, h)" for d tab p i h by (simp_all add: switch_read_def)
  show "rc = RIO_SUCCESS \<and> switch_regs mm h' = (switch_regs mm h)(0x78 := x)" if "switch_write mm d 0x78 x h = (rc, h')" for d x h rc h'
  proof -
    have "switch_regs mm ((switch_regs mm h)(0x78 := x)) = (switch_regs mm h)(0x78 := x)"
      by (rule ext) (simp add: switch_regs_def and.assoc)
    then show ?thesis using that by (simp add: switch_write_def)
  qed
next
  fix x :: u32 and tab i port d h rc h'
  assume "tab \<noteq> MC" "i < 256" "port = RIO_ALL_PORTS \<or> unat port < 24" "switch_write mm d (write_reg tab port i) x h = (rc, h')"
  then show "rc = RIO_SUCCESS \<and> switch_regs mm h' = update_ports (\<lambda>_. x) tab port i (switch_regs mm h)"
    using decode_write(1,3) [of port i tab] switch_regs_update [of port i tab mm "\<lambda>_. x" h]
    by (auto simp: switch_write_def port_ok_def simp del: decode.simps)
next
  fix i :: nat and port :: u8 and x :: u32 and d h rc h'
  assume a: "i < 256" "port = RIO_ALL_PORTS \<or> unat port < 24" "x AND NOT mm = 0"
  have f: "y AND mm = y \<Longrightarrow> (y OR x) AND mm = y OR x" "y AND mm = y \<Longrightarrow> (y AND NOT x) AND mm = y AND NOT x" for y
    using a(3) unfolding and_within by (simp add: bit.conj_disj_distrib2, metis and.assoc and.commute)
  show "rc = RIO_SUCCESS \<and> switch_regs mm h' = update_ports (\<lambda>y. y OR x) MC port i (switch_regs mm h)"
    if "switch_write mm d (write_reg MC port i) x h = (rc, h')"
    using that a decode_write(1,3) [of port i MC] switch_regs_update [of port i MC mm "\<lambda>y. y OR x" h] f(1)
    by (auto simp: switch_write_def port_ok_def simp del: decode.simps)
  show "rc = RIO_SUCCESS \<and> switch_regs mm h' = update_ports (\<lambda>y. y AND NOT x) MC port i (switch_regs mm h)"
    if "switch_write mm d (clear_reg port i) x h = (rc, h')"
    using that a decode_write(2,4) [of port i] switch_regs_update [of port i MC mm "\<lambda>y. y AND NOT x" h] f(2)
    by (auto simp: switch_write_def port_ok_def simp del: decode.simps)
next
  fix p i :: nat and h
  assume "p < 24" "i < 256"
  then show "switch_regs mm h (table_reg MC p i) AND NOT mm = 0"
    unfolding and_within using table_reg_nat(3) [of p i] by (simp add: switch_regs_def and.assoc)
qed

section \<open>Properties\<close>

text \<open>The tables that were read route every destination as the tables that were programmed.\<close>

lemma reading_forwards:
  assumes wf: "rt_wf d rt" and r: "reading rt rt'" "\<forall>is_dom i. i < 256 \<longrightarrow> entry_read rt rt' is_dom i" and dflt: "\<not> RIO_RTV_IS_MC_MSK (default_route rt)"
  shows "rt_lookup rt' tt did = rt_lookup rt tt did" "forwards d rt' q = forwards d rt q"
proof -
  note w = rt_wfD [OF wf]
  have e: "rte_val (table_of is_dom rt' ! i) = rte_val (table_of is_dom rt ! i)" if "i < 256" for is_dom i
    using r(2) that by (simp add: entry_read_def Let_def)
  have l: "rt_lookup rt' tt did = rt_lookup rt tt did" for tt did
    using e [of "dom_index did" True] e [of "dev_index did" False] index_u8(3,4) by (simp add: rt_lookup_def table_of_def Let_def)
  then show "rt_lookup rt' tt did = rt_lookup rt tt did" .
  let ?x = "rt_lookup rt (probe_tt q) (destID q)"
  have same: "out_value rt' ?x = out_value rt ?x" using r(1) by (simp add: out_value_def reading_def)
  have mc: "in_use (mc_masks rt' ! unat (?x AND 0xFF)) \<and> in_use (mc_masks rt ! unat (?x AND 0xFF)) \<and>
      mc_mask (mc_masks rt' ! unat (?x AND 0xFF)) = mc_mask (mc_masks rt ! unat (?x AND 0xFF))" if x: "RIO_RTV_IS_MC_MSK ?x"
  proof -
    have "?x = rte_val (table_of True rt ! dom_index (destID q)) \<or> ?x = rte_val (table_of False rt ! dev_index (destID q))"
      by (simp add: rt_lookup_def Let_def table_of_def)
    then obtain is_dom i where i: "i < 256" "?x = rte_val (table_of is_dom rt ! i)" using index_u8(3,4) [of "destID q"] by blast
    have "in_use (mc_masks rt ! unat (?x AND 0xFF))" using w(6,7) [OF i(1)] x i(2) by (cases is_dom) (auto simp: entry_ok_def table_of_def)
    moreover have "in_use (mc_masks rt' ! unat (?x AND 0xFF))" using r(2) i x by (auto simp: entry_read_def Let_def)
    ultimately show ?thesis using r(1) by (simp add: reading_def)
  qed
  have "?x = out_value rt ?x" if "RIO_RTV_IS_MC_MSK (out_value rt ?x)" using that dflt by (auto simp: out_value_def split: if_splits)
  then show "forwards d rt' q = forwards d rt q"
    unfolding forwards_def l same Let_def using mc by (cases "RIO_RTV_IS_MC_MSK (out_value rt ?x)") simp_all
qed

text \<open>
  C19. Programming a switch makes its tables those of the state. Where the registers behave as their descriptions say, setting all
  entries succeeds for every well-formed state, on one port or on all of them by broadcast, and afterwards the default route, both routing tables and the
  masks of each of these ports are those of the state, in which nothing is marked as changed any more. Setting only
  the changed entries does the same, provided that the entries that are not marked as changed agree with the switch before.
\<close>

theorem set_programs_tables:
  fixes s :: "'h dev"
  assumes "rxs_tables P rd wr v mm" "rxs_device mm (dev_info s)" "port = RIO_ALL_PORTS \<or> port < NUM_RXS_PORTS (dev_info s)"
    and "rt_wf (dev_info s) rt"
  shows "\<exists>h1 h2. rxs_rio_rt_set_all P port (Some rt) s = (RIO_SUCCESS, RIO_SUCCESS, Some (all_unchanged rt), s\<lparr>hw := h1\<rparr>) \<and>
     (\<forall>p\<in>ports_of port. tables_match (v h1) rt p) \<and>
     ((\<forall>p\<in>ports_of port. unchanged_match (v (hw s)) rt p) \<longrightarrow>
       rxs_rio_rt_set_changed P port (Some rt) s = (RIO_SUCCESS, RIO_SUCCESS, Some (all_unchanged rt), s\<lparr>hw := h2\<rparr>) \<and>
       (\<forall>p\<in>ports_of port. tables_match (v h2) rt p))"
proof -
  note c = rxs_tables.set_common_programs [OF assms]
  obtain h1 where h1: "rxs_rio_rt_set_all P port (Some rt) s = (RIO_SUCCESS, RIO_SUCCESS, Some (all_unchanged rt), s\<lparr>hw := h1\<rparr>)"
    "\<forall>p\<in>ports_of port. tables_match (v h1) rt p" using c [of True] by (auto simp: rxs_rio_rt_set_all_def)
  have "\<exists>h2. (\<forall>p\<in>ports_of port. unchanged_match (v (hw s)) rt p) \<longrightarrow>
       rxs_rio_rt_set_changed P port (Some rt) s = (RIO_SUCCESS, RIO_SUCCESS, Some (all_unchanged rt), s\<lparr>hw := h2\<rparr>) \<and>
       (\<forall>p\<in>ports_of port. tables_match (v h2) rt p)" using c [of False] unfolding rxs_rio_rt_set_changed_def by blast
  with h1 show ?thesis by blast
qed

definition switch_dev :: "(u32 \<Rightarrow> u32) dev" where
  "switch_dev = \<lparr>dev_info = rxs_dev, hw = \<lambda>_. 0\<rparr>"

lemma switch_dev_ok:
  "rxs_device 0x00FFFFFF (dev_info switch_dev)" "NUM_RXS_PORTS (dev_info switch_dev) = 24" "rt_wf (dev_info switch_dev) rt_example2"
  using example2_wf by (simp_all add: switch_dev_def rxs_device_def plain_family_def VALIDATE_DEV_INFO_def mask_mask_def DEV_CODE_def legal_ports_def
      NUM_RXS_PORTS_def NUM_PORTS_def rxs_dev_def dev_zero_def)

theorem set_programs_tables_witness:
  "\<exists>h1. rxs_rio_rt_set_all (switch_host 0x00FFFFFF) RIO_ALL_PORTS (Some rt_example2) switch_dev =
     (RIO_SUCCESS, RIO_SUCCESS, Some (all_unchanged rt_example2), switch_dev\<lparr>hw := h1\<rparr>) \<and>
   tables_match (switch_regs 0x00FFFFFF h1) rt_example2 7"
proof -
  have 7: "7 \<in> ports_of RIO_ALL_PORTS" by (simp add: ports_of_def)
  show ?thesis
    using set_programs_tables [OF switch.rxs_tables_axioms switch_dev_ok(1) disjI1 [OF refl] switch_dev_ok(3)] 7 by blast
qed

text \<open>
  C20. What is programmed is read back. After the tables of a port have been set from a well-formed state, reading them
  into any other state succeeds, leaves the switch alone, and gives a state that looks up the same routing value for every destination
  identifier and forwards every packet to the same ports, if the default route is not a multicast mask.
\<close>

theorem probe_all_roundtrip:
  fixes s :: "'h dev"
  assumes "rxs_tables P rd wr v mm" "rxs_device mm (dev_info s)" "port < NUM_RXS_PORTS (dev_info s)" "rt_wf (dev_info s) rt"
    and "\<not> RIO_RTV_IS_MC_MSK (default_route rt)"
  shows "\<exists>s1 rt2. rxs_rio_rt_set_all P port (Some rt) s = (RIO_SUCCESS, RIO_SUCCESS, Some (all_unchanged rt), s1) \<and>
     rxs_rio_rt_probe_all P port (Some rt') s1 = (RIO_SUCCESS, RIO_SUCCESS, Some rt2, s1) \<and>
     (\<forall>tt did. rt_lookup rt2 tt did = rt_lookup rt tt did) \<and> (\<forall>q. forwards (dev_info s) rt2 q = forwards (dev_info s) rt q)"
proof -
  have n: "port \<noteq> RIO_ALL_PORTS" using assms(3) NUM_RXS_PORTS_le [of "dev_info s"] by (auto simp: word_less_nat_alt)
  obtain h1 where h1: "rxs_rio_rt_set_all P port (Some rt) s = (RIO_SUCCESS, RIO_SUCCESS, Some (all_unchanged rt), s\<lparr>hw := h1\<rparr>)"
    "tables_match (v h1) rt (unat port)"
    using rxs_tables.set_common_programs [OF assms(1,2) disjI2 [OF assms(3)] assms(4), of True] n
    by (auto simp: rxs_rio_rt_set_all_def ports_of_def)
  have "0 < NUM_RXS_PORTS (dev_info s)" using assms(3) by (auto simp: word_less_nat_alt)
  then obtain rt2 where "rxs_rio_rt_probe_all P port (Some rt') (s\<lparr>hw := h1\<rparr>) = (RIO_SUCCESS, RIO_SUCCESS, Some rt2, s\<lparr>hw := h1\<rparr>)"
    "reading rt rt2" "\<forall>is_dom i. i < 256 \<longrightarrow> entry_read rt rt2 is_dom i"
    using rxs_tables.probe_all_reads [OF assms(1), of "s\<lparr>hw := h1\<rparr>" port rt rt'] assms(2-4) h1(2) n by auto
  then show ?thesis using h1(1) reading_forwards [OF assms(4) _ _ assms(5)] by blast
qed

theorem probe_all_roundtrip_witness:
  "\<exists>s1 rt2. rxs_rio_rt_set_all (switch_host 0x00FFFFFF) 5 (Some rt_example2) switch_dev = (RIO_SUCCESS, RIO_SUCCESS, Some (all_unchanged rt_example2), s1) \<and>
     rxs_rio_rt_probe_all (switch_host 0x00FFFFFF) 5 (Some rt_example) s1 = (RIO_SUCCESS, RIO_SUCCESS, Some rt2, s1) \<and>
     rt_lookup rt2 tt_dev8 0x11 = 3 \<and> rt_lookup rt2 tt_dev8 0x22 = 0x100"
proof -
  have p: "5 < NUM_RXS_PORTS (dev_info switch_dev)" by (simp add: switch_dev_ok(2))
  have d: "\<not> RIO_RTV_IS_MC_MSK (default_route rt_example2)"
    by (simp add: rt_example2_def set_entry_def rt_masked_def rt_example_def rt_initial_def RIO_RTV_IS_MC_MSK_def)
  have l: "rt_lookup rt_example2 tt_dev8 0x11 = 3" "rt_lookup rt_example2 tt_dev8 0x22 = 0x100"
    by (simp_all add: rt_lookup_def dev_index_def example2_entries)
  show ?thesis
    using probe_all_roundtrip [OF switch.rxs_tables_axioms switch_dev_ok(1) p switch_dev_ok(3) d, of rt_example] l by auto
qed

end
