(* ===== verification/Rt_Check.thy ===== *)
theory Rt_Check
  imports Rxs_Hw
begin

unbundle bit_operations_syntax

text \<open>
  The checks of routes that the drivers of the CPS and Tsi57x switches share, \<open>rio_rt_check_multicast_routing\<close> and \<open>rio_rt_check_unicast_routing\<close> of
  \<^verbatim>\<open>fabric_management/librio/src/RapidIO_Routing_Table_API.c\<close>, and the part of a probe that looks at the state of the output port. The configuration and
  the status of a port, which the port configuration functions of a driver report, are arguments. Arrays of ports have 24 entries: writes for
  ports beyond, which C leaves undefined, have no effect in the model.
\<close>

section \<open>Checks of the tables\<close>

definition same_destID :: "rio_rt_probe_in_t \<Rightarrow> rio_rt_mc_info_t \<Rightarrow> bool" where
  "same_destID p m \<longleftrightarrow>
     probe_tt p = mc_tt m \<and> in_use m \<and>
     (let mask = (if probe_tt p = tt_dev8 then 0x00FF else 0xFFFF) in destID p AND mask = mc_destID m AND mask)"

text \<open>The shift by the number of the port is by 255 when all ports are probed, which C leaves undefined; the value 0 is no mask either.\<close>

definition mc_hit :: "DAR_DEV_INFO_t \<Rightarrow> rio_rt_probe_in_t \<Rightarrow> nat \<Rightarrow> rio_rt_mc_info_t \<Rightarrow> rio_rt_probe_out_t \<Rightarrow> rio_rt_probe_out_t" where
  "mc_hit d p i m out =
     (let out1 = out\<lparr>routing_table_value := RIO_RTV_MC_MSK (of_nat i),
                     mcast_ports := fold (\<lambda>b ps. ps[b := bit (mc_mask m) b]) [0..<unat (NUM_PORTS d)] (mcast_ports out)\<rparr>
      in if mc_mask m = 0 then out1\<lparr>reason_for_discard := rio_rt_disc_mc_empty\<rparr>
         else if push_bit (unat (probe_on_port p)) 1 = mc_mask m then out1\<lparr>reason_for_discard := rio_rt_disc_mc_one_bit\<rparr>
         else out1\<lparr>reason_for_discard := rio_rt_disc_not, valid_route := True\<rparr>)"

fun mc_scan :: "DAR_DEV_INFO_t \<Rightarrow> rio_rt_probe_in_t \<Rightarrow> rio_rt_state_t \<Rightarrow> bool \<Rightarrow> nat list \<Rightarrow> rio_rt_probe_out_t \<Rightarrow> rio_rt_probe_out_t" where
  "mc_scan d p rt found [] out = out"
| "mc_scan d p rt found (i # is) out =
     (let m = mc_masks rt ! i in
      if \<not> same_destID p m then mc_scan d p rt found is out
      else if found then discard rio_rt_disc_mc_mult_masks out
      else mc_scan d p rt True is (mc_hit d p i m out))"

definition rio_rt_check_multicast_routing ::
  "DAR_DEV_INFO_t \<Rightarrow> rio_rt_probe_in_t \<Rightarrow> rio_rt_state_t \<Rightarrow> rio_rt_probe_out_t \<Rightarrow> rio_rt_probe_out_t" where
  "rio_rt_check_multicast_routing d p rt out = mc_scan d p rt False [0..<unat (NUM_MC_MASKS d)] out"

definition rio_rt_check_unicast_routing ::
  "DAR_DEV_INFO_t \<Rightarrow> rio_rt_probe_in_t \<Rightarrow> rio_rt_state_t \<Rightarrow> rio_rt_probe_out_t \<Rightarrow> rio_rt_probe_out_t" where
  "rio_rt_check_unicast_routing d p rt out =
     (let dom_rte = (if probe_tt p = tt_dev16 then rte_val (dom_table rt ! unat (ucast (drop_bit 8 (destID p AND 0xFF00)) :: u8)) else 0);
          rte = (if probe_tt p = tt_dev8 \<or> dom_rte = RIO_RTE_LVL_G0 then rte_val (dev_table rt ! unat (ucast (destID p AND 0xFF) :: u8)) else dom_rte);
          out1 = out\<lparr>routing_table_value := rte, valid_route := True, reason_for_discard := rio_rt_disc_not\<rparr>;
          dflt_pt = (rte = RIO_RTE_DFLT_PORT);
          phys_rte = (if dflt_pt then default_route rt else rte)
      in if phys_rte = RIO_RTE_DROP then discard (if dflt_pt then rio_rt_disc_dflt_pt_deliberately else rio_rt_disc_deliberately) out1
         else if phys_rte \<ge> ucast (NUM_PORTS d) then discard (if dflt_pt then rio_rt_disc_dflt_pt_invalid else rio_rt_disc_rt_invalid) out1
         else out1)"

section \<open>The state of the output port\<close>

record rio_pc_one_port_config_t =
  port_available :: bool
  powered_up :: bool
  xmitter_disable :: bool
  port_lockout :: bool

record rio_pc_one_port_status_t =
  port_ok :: bool
  port_error :: bool

text \<open>What a driver reports on a port: the configuration and the status, each with its return code.\<close>

record 'h port_functions =
  pc_get_config :: "u8 \<Rightarrow> 'h dev \<Rightarrow> u32 \<times> rio_pc_one_port_config_t \<times> 'h dev"
  pc_get_status :: "u8 \<Rightarrow> 'h dev \<Rightarrow> u32 \<times> rio_pc_one_port_status_t \<times> 'h dev"

text \<open>The reason before the control register is read; \<open>None\<close> when the register decides.\<close>

definition port_state_reason :: "bool \<Rightarrow> rio_pc_one_port_config_t \<Rightarrow> rio_pc_one_port_status_t \<Rightarrow> rio_rt_disc_reason_t option" where
  "port_state_reason dflt cfg stat =
     (if \<not> port_available cfg then Some (if dflt then rio_rt_disc_dflt_pt_unavail else rio_rt_disc_port_unavail)
      else if \<not> powered_up cfg then Some (if dflt then rio_rt_disc_dflt_pt_pwdn else rio_rt_disc_port_pwdn)
      else if \<not> port_ok stat then
        Some (if xmitter_disable cfg then (if dflt then rio_rt_disc_dflt_pt_lkout_or_dis else rio_rt_disc_port_lkout_or_dis)
              else (if dflt then rio_rt_disc_dflt_pt_no_lp else rio_rt_disc_port_no_lp))
      else if port_error stat then Some (if dflt then rio_rt_disc_dflt_pt_fail else rio_rt_disc_port_fail)
      else if port_lockout cfg then Some (if dflt then rio_rt_disc_dflt_pt_lkout_or_dis else rio_rt_disc_port_lkout_or_dis)
      else None)"

text \<open>
  \<open>cps_check_port_for_discard\<close> and \<open>tsi_check_port_for_discard\<close>, for the number of ports and the address of the control register of the device. The return code,
  \<open>imp_rc\<close>, the result of the probe and the device.
\<close>

definition check_port_for_discard ::
  "'h host \<Rightarrow> 'h port_functions \<Rightarrow> u8 \<Rightarrow> (u8 \<Rightarrow> u32) \<Rightarrow> rio_rt_state_t \<Rightarrow> rio_rt_probe_out_t \<Rightarrow> u32 \<Rightarrow> 'h dev \<Rightarrow> u32 \<times> u32 \<times> rio_rt_probe_out_t \<times> 'h dev" where
  "check_port_for_discard P F n ctl rt out imp s =
     (let dflt = (routing_table_value out = RIO_RTE_DFLT_PORT);
          port = (ucast (if dflt then default_route rt else routing_table_value out) :: u8);
          abort = discard rio_rt_disc_probe_abort out in
      if n \<le> port then (RIO_ERR_INVALID_PARAMETER, 0x40001101, abort, s)
      else
        (let (rc, cfg, s1) = pc_get_config F port s in
         if rc \<noteq> RIO_SUCCESS then (rc, 0x40001102, abort, s1)
         else
           (let (rc, stat, s2) = pc_get_status F port s1 in
            if rc \<noteq> RIO_SUCCESS then (rc, 0x40001103, abort, s2)
            else
              (case port_state_reason dflt cfg stat of
                 Some r \<Rightarrow> (RIO_SUCCESS, imp, discard r out, s2)
               | None \<Rightarrow>
                   (let (rc, x, s3) = DARRegRead P (ctl port) s2 in
                    if rc \<noteq> RIO_SUCCESS then (rc, 0x40001104, abort, s3)
                    else if (0x200000 OR 0x400000) AND x \<noteq> 0x200000 OR 0x400000 then
                      (RIO_SUCCESS, imp, discard (if dflt then rio_rt_disc_dflt_pt_in_out_dis else rio_rt_disc_port_in_out_dis) out, s3)
                    else (RIO_SUCCESS, imp, if reason_for_discard out \<noteq> rio_rt_disc_not then out\<lparr>valid_route := False\<rparr> else out, s3))))))"

text \<open>The end of \<open>CPS_rio_rt_probe\<close> and \<open>tsi57x_rio_rt_probe\<close>: multicast masks first, then the tables, then the port.\<close>

definition probe_routes ::
  "'h host \<Rightarrow> 'h port_functions \<Rightarrow> u8 \<Rightarrow> (u8 \<Rightarrow> u32) \<Rightarrow> rio_rt_probe_in_t \<Rightarrow> rio_rt_state_t \<Rightarrow> rio_rt_probe_out_t \<Rightarrow> 'h dev \<Rightarrow> u32 \<times> u32 \<times> rio_rt_probe_out_t \<times> 'h dev" where
  "probe_routes P F n ctl p rt out s =
     (let out1 = rio_rt_check_multicast_routing (dev_info s) p rt out in
      if routing_table_value out1 \<noteq> ucast RIO_ALL_PORTS then (RIO_SUCCESS, RIO_SUCCESS, out1, s)
      else
        (let out2 = rio_rt_check_unicast_routing (dev_info s) p rt out1 in
         if valid_route out2 then check_port_for_discard P F n ctl rt out2 RIO_SUCCESS s else (RIO_SUCCESS, RIO_SUCCESS, out2, s)))"

text \<open>The result that a probe starts with.\<close>

definition probe_cleared :: "u8 \<Rightarrow> rio_rt_probe_out_t \<Rightarrow> rio_rt_probe_out_t" where
  "probe_cleared n out = out\<lparr>valid_route := False, routing_table_value := ucast RIO_ALL_PORTS,
     mcast_ports := fold (\<lambda>b ps. ps[b := False]) [0..<unat n] (mcast_ports out), reason_for_discard := rio_rt_disc_probe_abort\<rparr>"

section \<open>Parts that the drivers have in common\<close>

text \<open>One round of the loop with which a reading of the tables starts: a mask that the device does not have is released.\<close>

definition release_mask :: "nat \<Rightarrow> rio_rt_state_t \<times> 'h dev \<Rightarrow> u32 \<times> u32 \<times> rio_rt_state_t \<times> 'h dev" where
  "release_mask i st =
     (let (rc, imp, rt') = DSF_rio_rt_dealloc_mc_mask (RIO_RTV_MC_MSK (of_nat i)) (Some (fst st)) in (rc, imp, the rt', snd st))"

text \<open>An entry is marked as changed when its value changes, and stays marked.\<close>

definition change_entry :: "u32 \<Rightarrow> rio_rt_uc_info_t \<Rightarrow> rio_rt_uc_info_t" where
  "change_entry v u = \<lparr>rte_val = v, uc_changed = (uc_changed u \<or> rte_val u \<noteq> v)\<rparr>"

section \<open>Loops\<close>

lemma for_each_keeps:
  assumes "\<And>k s. J s \<Longrightarrow> J (snd (snd (f k s)))" and "J s"
  shows "J (snd (snd (for_each f ks s)))"
  using assms(2)
proof (induction ks arbitrary: s)
  case (Cons k ks)
  have "J (snd (snd (f k s)))" by (rule assms(1) [OF Cons.prems])
  then show ?case using Cons.IH by (auto split: prod.split)
qed simp

lemma for_each_success:
  assumes "\<And>k s imp s'. m \<le> k \<Longrightarrow> k < n \<Longrightarrow> J k s \<Longrightarrow> f k s = (RIO_SUCCESS, imp, s') \<Longrightarrow> J (Suc k) s'"
    and "for_each f [m..<n] s = (RIO_SUCCESS, imp, s')" and "J m s" and "m \<le> n"
  shows "J n s'"
  using assms
proof (induction "n - m" arbitrary: m s)
  case (Suc l)
  then have m: "m < n" and l: "l = n - Suc m" by simp_all
  obtain rc imp1 s1 where f: "f m s = (rc, imp1, s1)" by (cases rule: prod_cases3)
  from Suc.prems(2) have rc: "rc = RIO_SUCCESS" and rest: "for_each f [Suc m..<n] s1 = (RIO_SUCCESS, imp, s')"
    using f m by (auto simp: upt_rec [of m] split: if_splits)
  show ?case by (rule Suc.hyps(1) [OF l _ rest Suc.prems(1) [OF le_refl m Suc.prems(3)]]) (use f rc m Suc.prems(1) in simp_all)
qed simp

section \<open>Access to the registers\<close>

text \<open>The functions of the host that reach a device; a device without copies of registers is read and written directly.\<close>

locale register_access =
  fixes P :: "'h host" and rd :: "DAR_DEV_INFO_t \<Rightarrow> u32 \<Rightarrow> 'h \<Rightarrow> u32 \<times> u32 \<times> 'h"
    and wr :: "DAR_DEV_INFO_t \<Rightarrow> u32 \<Rightarrow> u32 \<Rightarrow> 'h \<Rightarrow> u32 \<times> 'h"
  assumes host: "ReadReg P = Some rd" "WriteReg P = Some wr"
begin

lemma plain_read_ok:
  assumes "plain_dev (dev_info s)" "rd (dev_info s) a (hw s) = (RIO_SUCCESS, x, hw s)"
  shows "DARRegRead P a s = (RIO_SUCCESS, x, s)"
  using assms host by (auto simp: DARRegRead_def plain_dev_def plain_family_def DAR_get_poreg_idx_def)

lemma plain_write_ok:
  assumes "plain_dev (dev_info s)" "wr (dev_info s) a x (hw s) = (RIO_SUCCESS, h')"
  shows "DARRegWrite P a x s = (RIO_SUCCESS, s\<lparr>hw := h'\<rparr>)"
  using assms host by (auto simp: DARRegWrite_def plain_dev_def plain_family_def DAR_get_poreg_idx_def poreg_store_def)

end

interpretation mem_access: register_access mem_host "\<lambda>d oset h. (RIO_SUCCESS, h oset, h)" "\<lambda>d oset x h. (RIO_SUCCESS, h(oset := x))"
  by unfold_locales (simp_all add: mem_host_def)

lemma byte_high:
  fixes x :: u32
  assumes "unat x < 256"
  shows "x AND NOT 0xFF = 0" "x AND - 256 = 0"
proof -
  have "fits 8 x" using assms by (simp add: fits_def)
  note b = fits_bit [OF this]
  have "(0xFF :: u32) = mask 8" by (simp add: mask_eq_exp_minus_1)
  then show a: "x AND NOT 0xFF = 0" by (simp only:) (rule bit_word_eqI; simp only: bit_simps; auto dest: b)
  show "x AND - 256 = 0" using a by simp
qed

lemma first_done_nth: "j < length us \<Longrightarrow> first_done g k us ! j = (if j < k then g (us ! j) else us ! j)"
  by (auto simp: first_done_def nth_append min_def)

text \<open>After the loop that releases masks none of them is in use.\<close>

lemma mc_rte_index:
  assumes "i < 256"
  shows "RIO_RTV_IS_MC_MSK (RIO_RTV_MC_MSK (of_nat i))" "unat (RIO_RTV_MC_MSK (of_nat i) AND 0xFF) = i"
proof -
  have u: "unat (of_nat i :: u32) = i" using assms by (simp add: unsigned_of_nat take_bit_nat_eq_self)
  then have "unat (RIO_RTV_MC_MSK (of_nat i)) = 256 + i"
    using assms by (simp add: RIO_RTV_MC_MSK_def byte_high(2) unat_word_ariths)
  then show "RIO_RTV_IS_MC_MSK (RIO_RTV_MC_MSK (of_nat i))" "unat (RIO_RTV_MC_MSK (of_nat i) AND 0xFF) = i"
    using assms by (simp_all add: rtv_types rtv_index)
qed

lemma release_loop:
  fixes s :: "'h dev"
  assumes "length (dev_table rt') = 256" "length (dom_table rt') = 256" "length (mc_masks rt') = 256" "n \<le> 256"
  shows "\<exists>rt1. for_each release_mask [n..<256] (rt', s) = (RIO_SUCCESS, RIO_SUCCESS, rt1, s) \<and>
    length (dev_table rt1) = 256 \<and> length (dom_table rt1) = 256 \<and> length (mc_masks rt1) = 256 \<and> (\<forall>m<256. n \<le> m \<longrightarrow> \<not> in_use (mc_masks rt1 ! m))"
proof -
  define J where "J k x \<longleftrightarrow> (\<exists>rt1. x = (rt1, s) \<and> length (dev_table rt1) = 256 \<and> length (dom_table rt1) = 256 \<and> length (mc_masks rt1) = 256 \<and>
    (\<forall>m<k. n \<le> m \<longrightarrow> \<not> in_use (mc_masks rt1 ! m)))" for k and x :: "rio_rt_state_t \<times> 'h dev"
  have next_round: "\<exists>x'. release_mask k x = (RIO_SUCCESS, RIO_SUCCESS, x') \<and> J (Suc k) x'" if k: "k < 256" and x: "J k x" for k x
  proof -
    obtain rt1 where r: "x = (rt1, s)" "length (dev_table rt1) = 256" "length (dom_table rt1) = 256" "length (mc_masks rt1) = 256"
      "\<forall>m<k. n \<le> m \<longrightarrow> \<not> in_use (mc_masks rt1 ! m)" using x unfolding J_def by blast
    let ?rt2 = "dealloc_mask (RIO_RTV_MC_MSK (of_nat k)) k rt1"
    have "release_mask k x = (RIO_SUCCESS, RIO_SUCCESS, ?rt2, s)"
      using mc_rte_index [OF k] by (simp add: release_mask_def r(1) dealloc_cases)
    moreover have "J (Suc k) (?rt2, s)" unfolding J_def
      using r k by (auto simp: dealloc_mask_def Let_def mc_cleared_def nth_upd less_Suc_eq)
    ultimately show ?thesis by blast
  qed
  have "J n (rt', s)" using assms unfolding J_def by auto
  from for_each_upt [of 256 J release_mask n, OF next_round this assms(4)] show ?thesis unfolding J_def by auto
qed

section \<open>What the check of the masks reports\<close>

text \<open>The masks in use for a destination identifier, and the ports of a mask other than the one the packet arrives on.\<close>

definition masks_for :: "DAR_DEV_INFO_t \<Rightarrow> rio_rt_probe_in_t \<Rightarrow> rio_rt_state_t \<Rightarrow> nat set" where
  "masks_for d p rt = {i. i < unat (NUM_MC_MASKS d) \<and> same_destID p (mc_masks rt ! i)}"

definition leaves_on :: "rio_rt_probe_in_t \<Rightarrow> rio_rt_mc_info_t \<Rightarrow> nat set" where
  "leaves_on p m = {b. bit (mc_mask m) b \<and> b \<noteq> unat (probe_on_port p)}"

lemma mc_scan_filter:
  "mc_scan d p rt found is out =
     (case filter (\<lambda>i. same_destID p (mc_masks rt ! i)) is of
        [] \<Rightarrow> out
      | i # js \<Rightarrow>
          if found then discard rio_rt_disc_mc_mult_masks out
          else if js = [] then mc_hit d p i (mc_masks rt ! i) out
          else discard rio_rt_disc_mc_mult_masks (mc_hit d p i (mc_masks rt ! i) out))"
  by (induction "is" arbitrary: found out) (auto simp: Let_def split: list.splits)

lemma masks_for_list:
  "set (filter (\<lambda>i. same_destID p (mc_masks rt ! i)) [0..<unat (NUM_MC_MASKS d)]) = masks_for d p rt"
  "distinct (filter (\<lambda>i. same_destID p (mc_masks rt ! i)) [0..<unat (NUM_MC_MASKS d)])"
  by (auto simp: masks_for_def)

lemma check_multicast_cases:
  shows "masks_for d p rt = {} \<Longrightarrow> rio_rt_check_multicast_routing d p rt out = out"
    and "masks_for d p rt = {i} \<Longrightarrow> rio_rt_check_multicast_routing d p rt out = mc_hit d p i (mc_masks rt ! i) out"
    and "i \<in> masks_for d p rt \<Longrightarrow> j \<in> masks_for d p rt \<Longrightarrow> i \<noteq> j \<Longrightarrow>
      \<exists>k\<in>masks_for d p rt. rio_rt_check_multicast_routing d p rt out = discard rio_rt_disc_mc_mult_masks (mc_hit d p k (mc_masks rt ! k) out)"
proof -
  define ks where "ks = filter (\<lambda>i. same_destID p (mc_masks rt ! i)) [0..<unat (NUM_MC_MASKS d)]"
  have s: "set ks = masks_for d p rt" "distinct ks" unfolding ks_def by (rule masks_for_list)+
  have c: "rio_rt_check_multicast_routing d p rt out = (case ks of [] \<Rightarrow> out
      | i # js \<Rightarrow> if js = [] then mc_hit d p i (mc_masks rt ! i) out
                   else discard rio_rt_disc_mc_mult_masks (mc_hit d p i (mc_masks rt ! i) out))"
    unfolding rio_rt_check_multicast_routing_def mc_scan_filter ks_def by (auto split: list.splits)
  show "rio_rt_check_multicast_routing d p rt out = out" if "masks_for d p rt = {}" using that s c by simp
  show "rio_rt_check_multicast_routing d p rt out = mc_hit d p i (mc_masks rt ! i) out" if "masks_for d p rt = {i}"
  proof -
    have "ks \<noteq> []" using that s(1) by auto
    then obtain x xs where l: "ks = x # xs" by (cases ks) simp_all
    then have "x = i" "xs = []" using that s by (auto simp: subset_singleton_iff)
    then show ?thesis using c l by simp
  qed
  show "\<exists>k\<in>masks_for d p rt. rio_rt_check_multicast_routing d p rt out = discard rio_rt_disc_mc_mult_masks (mc_hit d p k (mc_masks rt ! k) out)"
    if m: "i \<in> masks_for d p rt" "j \<in> masks_for d p rt" "i \<noteq> j"
  proof -
    obtain x xs where l: "ks = x # xs" using m(1) s(1) by (cases ks) auto
    have "xs \<noteq> []"
    proof
      assume "xs = []"
      then have "masks_for d p rt = {x}" using l s(1) by simp
      then show False using m by simp
    qed
    then show ?thesis using c l s(1) by auto
  qed
qed

lemma fold_bits:
  "j < length ps \<Longrightarrow> fold (\<lambda>b ps. ps[b := Q b]) [0..<n] ps ! j = (if j < n then Q j else ps ! j)"
  "length (fold (\<lambda>b ps. ps[b := Q b]) [0..<n] ps) = length ps"
  by (induction n) (auto simp: nth_list_update less_Suc_eq)

lemma only_port:
  fixes m :: u32
  assumes "m \<noteq> 0"
  shows "push_bit n 1 = m \<longleftrightarrow> (\<forall>b. bit m b \<longrightarrow> b = n)"
proof
  have p: "bit (push_bit n 1 :: u32) b \<longleftrightarrow> b = n" if "b < 32" for b
    using that by (auto simp: push_bit_eq_mult bit_exp_iff)
  show "\<forall>b. bit m b \<longrightarrow> b = n" if "push_bit n 1 = m" using p bit_imp_le_length [of m] unfolding that [symmetric] by fastforce
  assume a: "\<forall>b. bit m b \<longrightarrow> b = n"
  have "m = 0" if "\<forall>b. \<not> bit m b" by (rule bit_word_eqI) (use that in simp)
  then have n: "bit m n" using a assms by blast
  show "push_bit n 1 = m"
  proof (rule bit_word_eqI)
    fix k assume "k < LENGTH(32)"
    then have "bit (push_bit n 1 :: u32) k \<longleftrightarrow> k = n" by (intro p) simp
    also have "\<dots> \<longleftrightarrow> bit m k" using a n by blast
    finally show "bit (push_bit n 1 :: u32) k \<longleftrightarrow> bit m k" .
  qed
qed

lemma mc_hit_reports:
  assumes "unat (NUM_PORTS d) \<le> 24" "length (mcast_ports out) = 24" "\<not> valid_route out"
  shows "routing_table_value (mc_hit d p i m out) = RIO_RTV_MC_MSK (of_nat i)"
    "b < unat (NUM_PORTS d) \<Longrightarrow> mcast_ports (mc_hit d p i m out) ! b \<longleftrightarrow> bit (mc_mask m) b"
    "valid_route (mc_hit d p i m out) \<longleftrightarrow> leaves_on p m \<noteq> {}"
    "reason_for_discard (mc_hit d p i m out) =
       (if leaves_on p m \<noteq> {} then rio_rt_disc_not else if mc_mask m = 0 then rio_rt_disc_mc_empty else rio_rt_disc_mc_one_bit)"
  using assms only_port [of "mc_mask m" "unat (probe_on_port p)"]
  by (auto simp: mc_hit_def Let_def fold_bits leaves_on_def)

section \<open>Properties\<close>

text \<open>
  The check of the multicast masks that the CPS and Tsi57x drivers share. When no mask is in use for the destination, it leaves the result of the probe alone,
  so that the routing tables decide. When there is exactly one, it reports the number of the mask and its ports, and the route is valid exactly when the packet leaves
  on some port other than the one it arrives on; otherwise the reason is that the mask is empty or selects only the port of arrival. When there are
  several, the packet is reported as discarded for that reason.
\<close>

theorem check_multicast_reports:
  assumes "unat (NUM_PORTS d) \<le> 24" "length (mcast_ports out) = 24" "\<not> valid_route out"
  shows "let out' = rio_rt_check_multicast_routing d p rt out; M = masks_for d p rt in
     (M = {} \<longrightarrow> out' = out) \<and>
     (\<forall>i. M = {i} \<longrightarrow>
        routing_table_value out' = RIO_RTV_MC_MSK (of_nat i) \<and>
        (\<forall>b<unat (NUM_PORTS d). mcast_ports out' ! b \<longleftrightarrow> bit (mc_mask (mc_masks rt ! i)) b) \<and>
        (valid_route out' \<longleftrightarrow> leaves_on p (mc_masks rt ! i) \<noteq> {}) \<and>
        reason_for_discard out' =
          (if leaves_on p (mc_masks rt ! i) \<noteq> {} then rio_rt_disc_not
           else if mc_mask (mc_masks rt ! i) = 0 then rio_rt_disc_mc_empty else rio_rt_disc_mc_one_bit)) \<and>
     (\<forall>i\<in>M. \<forall>j\<in>M. i \<noteq> j \<longrightarrow> \<not> valid_route out' \<and> reason_for_discard out' = rio_rt_disc_mc_mult_masks)"
proof -
  have mult: "\<not> valid_route (rio_rt_check_multicast_routing d p rt out) \<and>
      reason_for_discard (rio_rt_check_multicast_routing d p rt out) = rio_rt_disc_mc_mult_masks"
    if m: "i \<in> masks_for d p rt" "j \<in> masks_for d p rt" "i \<noteq> j" for i j
    using check_multicast_cases(3) [OF m, of out] by (auto simp: discard_def)
  show ?thesis unfolding Let_def
    using check_multicast_cases(1) [of d p rt out] mult
    by (intro conjI allI impI ballI) (simp_all add: check_multicast_cases(2) mc_hit_reports [OF assms])
qed

lemma masks_for_example:
  assumes "probe_tt p = tt_dev8" "destID p = 0x11"
  shows "masks_for rxs_dev p rt_masked = {0}"
proof -
  have n: "unat (NUM_MC_MASKS rxs_dev) = 255" by (simp add: NUM_MC_MASKS_def rxs_dev_def dev_zero_def)
  have m: "mc_masks rt_masked ! 0 = \<lparr>mc_destID = 0x11, mc_tt = tt_dev8, mc_mask = 0x0E, in_use = True, allocd = True, mc_changed = True\<rparr>"
    by (simp add: rt_masked_def rt_example_def rt_initial_def)
  have others: "\<not> in_use (mc_masks rt_masked ! i)" if "0 < i" "i < 255" for i
    using that by (simp add: rt_masked_def rt_example_def rt_initial_def mc_unused_def)
  have "same_destID p (mc_masks rt_masked ! 0)" using assms by (simp add: same_destID_def m)
  moreover have "\<not> same_destID p (mc_masks rt_masked ! i)" if "0 < i" "i < 255" for i
    using others [OF that] by (simp add: same_destID_def)
  ultimately show ?thesis unfolding masks_for_def n by fastforce
qed

theorem check_multicast_reports_witness:
  "let out' = rio_rt_check_multicast_routing rxs_dev \<lparr>probe_on_port = 2, probe_tt = tt_dev8, destID = 0x11\<rparr> rt_masked probe_example
   in routing_table_value out' = 0x100 \<and> valid_route out' \<and> mcast_ports out' ! 3 \<and> \<not> mcast_ports out' ! 4"
proof -
  let ?p = "\<lparr>probe_on_port = 2, probe_tt = tt_dev8, destID = 0x11\<rparr> :: rio_rt_probe_in_t"
  have n: "unat (NUM_PORTS rxs_dev) = 24" by (simp add: NUM_PORTS_def rxs_dev_def dev_zero_def)
  have o: "length (mcast_ports probe_example) = 24" "\<not> valid_route probe_example" by (simp_all add: probe_example_def)
  have m: "mc_mask (mc_masks rt_masked ! 0) = 0x0E" by (simp add: rt_masked_def rt_example_def rt_initial_def)
  have b: "bit (0x0E :: u32) 3" "\<not> bit (0x0E :: u32) 4" by (simp_all add: bit_numeral_rec)
  have l: "leaves_on ?p (mc_masks rt_masked ! 0) \<noteq> {}" unfolding leaves_on_def m using b(1) by fastforce
  have v: "RIO_RTV_MC_MSK 0 = 0x100" by (simp add: RIO_RTV_MC_MSK_def)
  show ?thesis
    using check_multicast_reports [of rxs_dev probe_example ?p rt_masked, unfolded masks_for_example [of ?p, simplified] n, OF order.refl o] l m b v
    by (simp add: Let_def)
qed

end
