(* ===== verification/Cps_Rt.thy ===== *)
theory Cps_Rt
  imports Rt_Check
begin

unbundle bit_operations_syntax

text \<open>
  Routing tables of CPS switches, \<^verbatim>\<open>fabric_management/librio/src/CPS_RT.c\<close>. The tables of these switches hold a byte per entry, with codes of their own for the
  standard routing values. A routing value is translated when a table is programmed and when it is read; \<open>None\<close> is \<open>RIO_ERR_INVALID_PARAMETER\<close>.
  For a device without ports the loop over the ports in \<open>CPS_rio_rt_initialize\<close>, whose counter and bound are bytes, does not end in C, and is empty in the model.
\<close>

section \<open>Registers and routing values\<close>

definition NUM_CPS_PORTS :: "DAR_DEV_INFO_t \<Rightarrow> u8" where
  "NUM_CPS_PORTS d = (if NUM_PORTS d > 18 then 18 else NUM_PORTS d)"

abbreviation (input) CPS_MAX_MC_MASK :: u32 where "CPS_MAX_MC_MASK \<equiv> 40"

definition NUM_CPS_MC_MASKS :: "DAR_DEV_INFO_t \<Rightarrow> u8" where
  "NUM_CPS_MC_MASKS d = (if NUM_MC_MASKS d > 40 then 40 else NUM_MC_MASKS d)"

definition CPS1848_PORT_X_CTL_1_CSR :: "u8 \<Rightarrow> u32" where
  "CPS1848_PORT_X_CTL_1_CSR X = 0x15C + 0x20 * ucast X"

definition CPS1848_BCAST_DEV_RTE_TABLE_X :: "u32 \<Rightarrow> u32" where
  "CPS1848_BCAST_DEV_RTE_TABLE_X X = 0xE00000 + 4 * X"

definition CPS1848_BCAST_DOM_RTE_TABLE_X :: "u32 \<Rightarrow> u32" where
  "CPS1848_BCAST_DOM_RTE_TABLE_X X = 0xE00400 + 4 * X"

definition CPS1848_PORT_X_DEV_RTE_TABLE_Y :: "u8 \<Rightarrow> u32 \<Rightarrow> u32" where
  "CPS1848_PORT_X_DEV_RTE_TABLE_Y X Y = 0xE10000 + 0x1000 * ucast X + 4 * Y"

definition CPS1848_PORT_X_DOM_RTE_TABLE_Y :: "u8 \<Rightarrow> u32 \<Rightarrow> u32" where
  "CPS1848_PORT_X_DOM_RTE_TABLE_Y X Y = 0xE10400 + 0x1000 * ucast X + 4 * Y"

definition CPS1848_BCAST_MCAST_MASK_X :: "u32 \<Rightarrow> u32" where
  "CPS1848_BCAST_MCAST_MASK_X X = 0xF30000 + 4 * X"

definition CPS1848_PORT_X_MCAST_MASK_Y :: "u8 \<Rightarrow> u32 \<Rightarrow> u32" where
  "CPS1848_PORT_X_MCAST_MASK_Y X Y = 0xF38000 + 0x100 * ucast X + 4 * Y"

definition CPS1848_PORT_X_OPS :: "u8 \<Rightarrow> u32" where
  "CPS1848_PORT_X_OPS X = 0xF40004 + 0x100 * ucast X"

abbreviation (input) CPS1848_RTE_DEFAULT_PORT_CSR :: u32 where "CPS1848_RTE_DEFAULT_PORT_CSR \<equiv> 0x78"
abbreviation (input) CPS1848_RIO_DOMAIN :: u32 where "CPS1848_RIO_DOMAIN \<equiv> 0xF20020"
abbreviation (input) CPS_RT_USE_DEVICE_TABLE :: u32 where "CPS_RT_USE_DEVICE_TABLE \<equiv> 0xDD"
abbreviation (input) CPS_RT_USE_DEFAULT_ROUTE :: u32 where "CPS_RT_USE_DEFAULT_ROUTE \<equiv> 0xDE"
abbreviation (input) CPS_RT_NO_ROUTE :: u32 where "CPS_RT_NO_ROUTE \<equiv> 0xDF"

definition CPS_MC_PORT :: "u32 \<Rightarrow> u8" where
  "CPS_MC_PORT maskno = ucast (maskno + 0x40)"

definition IS_CPS_MC_PORT :: "u32 \<Rightarrow> bool" where
  "IS_CPS_MC_PORT route_port \<longleftrightarrow> 0x40 \<le> route_port \<and> route_port < 0x40 + CPS_MAX_MC_MASK"

definition IS_CPS_MC_MASK_NO :: "u32 \<Rightarrow> u8" where
  "IS_CPS_MC_MASK_NO route_port = ucast (route_port - 0x40)"

definition RIO_RTV_PORT :: "u32 \<Rightarrow> u32" where
  "RIO_RTV_PORT n = (if n AND NOT 0xFF \<noteq> 0 then RIO_RTE_BAD else n)"

definition cps_rte_translate_std_to_CPS :: "DAR_DEV_INFO_t \<Rightarrow> u32 \<Rightarrow> u32 option" where
  "cps_rte_translate_std_to_CPS d x =
     (if x = RIO_RTE_DFLT_PORT then Some CPS_RT_USE_DEFAULT_ROUTE
      else if x = RIO_RTE_DROP then Some CPS_RT_NO_ROUTE
      else if x = RIO_RTE_LVL_G0 then Some CPS_RT_USE_DEVICE_TABLE
      else if x AND NOT RIO_RTE_VAL \<noteq> 0 then None
      else if RIO_RTV_IS_PORT x \<and> RIO_RTV_GET_PORT x < ucast (NUM_PORTS d) then Some x
      else if RIO_RTV_IS_MC_MSK x \<and> RIO_RTV_GET_MC_MSK x < CPS_MAX_MC_MASK then Some (ucast (CPS_MC_PORT (RIO_RTV_GET_MC_MSK x)))
      else None)"

definition cps_rte_translate_CPS_to_std :: "DAR_DEV_INFO_t \<Rightarrow> u32 \<Rightarrow> u32 option" where
  "cps_rte_translate_CPS_to_std d x =
     (if x = CPS_RT_USE_DEFAULT_ROUTE then Some RIO_RTE_DFLT_PORT
      else if x = CPS_RT_NO_ROUTE then Some RIO_RTE_DROP
      else if x = CPS_RT_USE_DEVICE_TABLE then Some RIO_RTE_LVL_G0
      else if x < ucast (NUM_PORTS d) then Some (RIO_RTV_PORT x)
      else if IS_CPS_MC_PORT x then Some (RIO_RTV_MC_MSK (ucast (IS_CPS_MC_MASK_NO x)))
      else None)"

section \<open>Reading the tables\<close>

definition cps_read_mask :: "'h host \<Rightarrow> u8 \<Rightarrow> nat \<Rightarrow> rio_rt_state_t \<times> 'h dev \<Rightarrow> u32 \<times> u32 \<times> rio_rt_state_t \<times> 'h dev" where
  "cps_read_mask P pnum i st =
     (let (rt, s) = st; port_mask = push_bit (unat (NUM_CPS_PORTS (dev_info s))) 1 - 1;
          (rc, x, s1) = DARRegRead P (CPS1848_PORT_X_MCAST_MASK_Y pnum (of_nat i)) s in
      if rc \<noteq> RIO_SUCCESS then (rc, 0x40101B01, rt, s1)
      else (RIO_SUCCESS, RIO_SUCCESS,
            rt\<lparr>mc_masks := (mc_masks rt)[i := \<lparr>mc_destID = 0, mc_tt = tt_dev8, mc_mask = x AND port_mask, in_use = False, allocd = False, mc_changed = False\<rparr>]\<rparr>, s1))"

definition cps_read_mc_masks :: "'h host \<Rightarrow> u8 \<Rightarrow> rio_rt_state_t \<times> 'h dev \<Rightarrow> u32 \<times> u32 \<times> rio_rt_state_t \<times> 'h dev" where
  "cps_read_mc_masks P pnum st =
     (let n = unat (NUM_CPS_MC_MASKS (dev_info (snd st))); (rc, imp, st1) = for_each release_mask [n..<RIO_MAX_MC_MASKS] st in
      if rc \<noteq> RIO_SUCCESS then (rc, imp, st1) else for_each (cps_read_mask P pnum) [0..<n] st1)"

text \<open>
  One round of the loop over the domain table. The loop also keeps the first domain that uses the device table, shifted to the high byte, for the
  identifiers of multicast masks.
\<close>

definition cps_read_dom ::
  "'h host \<Rightarrow> u8 \<Rightarrow> nat \<Rightarrow> (u32 option \<times> rio_rt_state_t) \<times> 'h dev \<Rightarrow> u32 \<times> u32 \<times> (u32 option \<times> rio_rt_state_t) \<times> 'h dev" where
  "cps_read_dom P pnum i st =
     (let ((first, rt), s) = st; (rc, x, s1) = DARRegRead P (CPS1848_PORT_X_DOM_RTE_TABLE_Y pnum (of_nat i)) s;
          rt0 = store_entry True i ((dom_table rt ! i)\<lparr>uc_changed := False\<rparr>) rt in
      if rc \<noteq> RIO_SUCCESS then (rc, 0x40101C04, (first, rt0), s1)
      else
        (case cps_rte_translate_CPS_to_std (dev_info s1) (x AND 0xFF) of
           None \<Rightarrow> (RIO_ERR_INVALID_PARAMETER, 0x40101C05, (first, rt0), s1)
         | Some y \<Rightarrow>
             (let z = (if y \<noteq> RIO_RTE_LVL_G0 \<and> y \<noteq> RIO_RTE_DFLT_PORT \<and> y \<noteq> RIO_RTE_DROP \<and> ucast (NUM_CPS_PORTS (dev_info s1)) \<le> y
                       then RIO_RTE_DROP else y);
                  first' = (if y = RIO_RTE_LVL_G0 \<and> first = None then Some (push_bit 8 (of_nat i)) else first)
              in (RIO_SUCCESS, RIO_SUCCESS, (first', store_entry True i \<lparr>rte_val = z, uc_changed = False\<rparr> rt), s1))))"

definition cps_read_dev ::
  "'h host \<Rightarrow> u8 \<Rightarrow> u32 \<Rightarrow> nat \<Rightarrow> rio_rt_state_t \<times> 'h dev \<Rightarrow> u32 \<times> u32 \<times> rio_rt_state_t \<times> 'h dev" where
  "cps_read_dev P pnum first_mc_destID i st =
     (let (rt, s) = st; (rc, x, s1) = DARRegRead P (CPS1848_PORT_X_DEV_RTE_TABLE_Y pnum (of_nat i)) s;
          rt0 = store_entry False i ((dev_table rt ! i)\<lparr>uc_changed := False\<rparr>) rt in
      if rc \<noteq> RIO_SUCCESS then (rc, 0x40101C08, rt0, s1)
      else
        (case cps_rte_translate_CPS_to_std (dev_info s1) (x AND 0xFF) of
           None \<Rightarrow> (RIO_ERR_INVALID_PARAMETER, 0x40101C09, rt0, s1)
         | Some y \<Rightarrow>
             (let mask_idx = RIO_RTV_GET_MC_MSK y; k = unat mask_idx;
                  rt1 = (if mask_idx \<noteq> RIO_RTE_BAD \<and> \<not> in_use (mc_masks rt ! k)
                         then rt\<lparr>mc_masks := (mc_masks rt)[k := (mc_masks rt ! k)\<lparr>mc_tt := tt_dev16, in_use := True, mc_destID := first_mc_destID + of_nat i\<rparr>]\<rparr>
                         else rt);
                  z = (if ucast (NUM_CPS_PORTS (dev_info s1)) \<le> y \<and> \<not> RIO_RTV_IS_MC_MSK y \<and> y \<noteq> RIO_RTE_DROP \<and> y \<noteq> RIO_RTE_DFLT_PORT then RIO_RTE_DROP else y)
              in (RIO_SUCCESS, RIO_SUCCESS, store_entry False i \<lparr>rte_val = z, uc_changed = False\<rparr> rt1, s1))))"

definition cps_read_rte_entries :: "'h host \<Rightarrow> u8 \<Rightarrow> rio_rt_state_t \<times> 'h dev \<Rightarrow> u32 \<times> u32 \<times> rio_rt_state_t \<times> 'h dev" where
  "cps_read_rte_entries P pnum st =
     (let (rt, s) = st; (rc, x, s1) = DARRegRead P CPS1848_RTE_DEFAULT_PORT_CSR s in
      if rc \<noteq> RIO_SUCCESS then (rc, 0x40101C01, rt, s1)
      else
        (let dflt = x AND 0xFF;
             rt1 = rt\<lparr>default_route := if dflt \<ge> ucast (NUM_CPS_PORTS (dev_info s1)) then RIO_RTE_DROP else dflt\<rparr>;
             rt2 = store_entry True 0 \<lparr>rte_val = RIO_RTE_LVL_G0, uc_changed = False\<rparr> rt1;
             (rc, imp, (first, rt3), s2) = for_each (cps_read_dom P pnum) [1..<RIO_RT_GRP_SZ] ((None, rt2), s1)
         in if rc \<noteq> RIO_SUCCESS then (rc, imp, rt3, s2)
            else for_each (cps_read_dev P pnum (case first of None \<Rightarrow> 0 | Some did \<Rightarrow> did)) [0..<RIO_RT_GRP_SZ] (rt3, s2)))"

definition CPS_rio_rt_probe_all ::
  "'h host \<Rightarrow> u8 \<Rightarrow> rio_rt_state_t option \<Rightarrow> 'h dev \<Rightarrow> u32 \<times> u32 \<times> rio_rt_state_t option \<times> 'h dev" where
  "CPS_rio_rt_probe_all P port rt_opt s =
     (case rt_opt of
        None \<Rightarrow> (RIO_ERR_INVALID_PARAMETER, 0x40001201, None, s)
      | Some rt \<Rightarrow>
          if port \<noteq> RIO_ALL_PORTS \<and> port \<ge> NUM_CPS_PORTS (dev_info s) then (RIO_ERR_INVALID_PARAMETER, 0x40001201, Some rt, s)
          else
            (let probe_port = (if port = RIO_ALL_PORTS then 0 else port); (rc, imp, rt1, s1) = cps_read_mc_masks P probe_port (rt, s) in
             if rc \<noteq> RIO_SUCCESS then (rc, imp, Some rt1, s1)
             else (let (rc, imp, rt2, s2) = cps_read_rte_entries P probe_port (rt1, s1) in (rc, imp, Some rt2, s2))))"

section \<open>Programming the tables\<close>

definition cps_mask_mask :: "DAR_DEV_INFO_t \<Rightarrow> u32" where
  "cps_mask_mask d = (if DEV_CODE d = 0x0374 then 0x0003FFFF else 0x0000FFFF)"

definition cps_program_mask ::
  "'h host \<Rightarrow> u32 \<Rightarrow> u32 \<Rightarrow> bool \<Rightarrow> nat \<Rightarrow> rio_rt_state_t \<times> 'h dev \<Rightarrow> u32 \<times> u32 \<times> rio_rt_state_t \<times> 'h dev" where
  "cps_program_mask P base_addr mm set_all i st =
     (let (rt, s) = st; m = mc_masks rt ! i in
      if \<not> (mc_changed m \<or> set_all) then (RIO_SUCCESS, RIO_SUCCESS, rt, s)
      else if mc_mask m AND NOT mm \<noteq> 0 then (RIO_ERR_INVALID_PARAMETER, 0x40101A03, rt, s)
      else
        (let (rc, s1) = DARRegWrite P (base_addr + 4 * of_nat i) (mc_mask m AND mm) s in
         if rc \<noteq> RIO_SUCCESS then (rc, 0x40101A04, rt, s1)
         else (RIO_SUCCESS, RIO_SUCCESS, rt\<lparr>mc_masks := (mc_masks rt)[i := m\<lparr>mc_changed := False\<rparr>]\<rparr>, s1)))"

definition cps_program_mc_mask ::
  "'h host \<Rightarrow> u8 \<Rightarrow> bool \<Rightarrow> rio_rt_state_t \<times> 'h dev \<Rightarrow> u32 \<times> u32 \<times> rio_rt_state_t \<times> 'h dev" where
  "cps_program_mc_mask P port set_all st =
     (let d = dev_info (snd st); base_addr = (if port = RIO_ALL_PORTS then CPS1848_BCAST_MCAST_MASK_X 0 else CPS1848_PORT_X_MCAST_MASK_Y port 0)
      in for_each (cps_program_mask P base_addr (cps_mask_mask d) set_all) [0..<unat (NUM_CPS_MC_MASKS d)] st)"

definition cps_program_dom ::
  "'h host \<Rightarrow> u32 \<Rightarrow> bool \<Rightarrow> nat \<Rightarrow> rio_rt_state_t \<times> 'h dev \<Rightarrow> u32 \<times> u32 \<times> rio_rt_state_t \<times> 'h dev" where
  "cps_program_dom P base set_all i st =
     (let (rt, s) = st; u = dom_table rt ! i; x = rte_val u in
      if \<not> (uc_changed u \<or> set_all) then (RIO_SUCCESS, RIO_SUCCESS, rt, s)
      else if x \<ge> ucast (NUM_CPS_PORTS (dev_info s)) \<and> x \<noteq> RIO_RTE_LVL_G0 \<and> x \<noteq> RIO_RTE_DFLT_PORT \<and> x \<noteq> RIO_RTE_DROP then
        (RIO_ERR_INVALID_PARAMETER, 0x40101901, rt, s)
      else
        (case cps_rte_translate_std_to_CPS (dev_info s) x of
           None \<Rightarrow> (RIO_ERR_INVALID_PARAMETER, 0x40101907, rt, s)
         | Some y \<Rightarrow>
             (let (rc, s1) = DARRegWrite P (base + 4 * of_nat i) y s in
              if rc \<noteq> RIO_SUCCESS then (rc, 0x40101902, rt, s1)
              else (RIO_SUCCESS, RIO_SUCCESS, rt\<lparr>dom_table := (dom_table rt)[i := u\<lparr>uc_changed := False\<rparr>]\<rparr>, s1))))"

definition cps_program_dev ::
  "'h host \<Rightarrow> u32 \<Rightarrow> bool \<Rightarrow> nat \<Rightarrow> rio_rt_state_t \<times> 'h dev \<Rightarrow> u32 \<times> u32 \<times> rio_rt_state_t \<times> 'h dev" where
  "cps_program_dev P base set_all i st =
     (let (rt, s) = st; u = dev_table rt ! i; x = rte_val u in
      if \<not> (uc_changed u \<or> set_all) then (RIO_SUCCESS, RIO_SUCCESS, rt, s)
      else if x \<ge> ucast (NUM_CPS_PORTS (dev_info s)) \<and> RIO_RTV_GET_MC_MSK x = RIO_RTE_BAD \<and> x \<noteq> RIO_RTE_DFLT_PORT \<and> x \<noteq> RIO_RTE_DROP then
        (RIO_ERR_INVALID_PARAMETER, 0x40101903, rt, s)
      else
        (case cps_rte_translate_std_to_CPS (dev_info s) x of
           None \<Rightarrow> (RIO_ERR_INVALID_PARAMETER, 0x40101908, rt, s)
         | Some y \<Rightarrow>
             (let (rc, s1) = DARRegWrite P (base + 4 * of_nat i) y s in
              if rc \<noteq> RIO_SUCCESS then (rc, 0x40101904, rt, s1)
              else (RIO_SUCCESS, RIO_SUCCESS, rt\<lparr>dev_table := (dev_table rt)[i := u\<lparr>uc_changed := False\<rparr>]\<rparr>, s1))))"

definition cps_program_rte_entries ::
  "'h host \<Rightarrow> u8 \<Rightarrow> bool \<Rightarrow> rio_rt_state_t \<times> 'h dev \<Rightarrow> u32 \<times> u32 \<times> rio_rt_state_t \<times> 'h dev" where
  "cps_program_rte_entries P port set_all st =
     (let (rt, s) = st in
      case cps_rte_translate_std_to_CPS (dev_info s) (default_route rt) of
        None \<Rightarrow> (RIO_ERR_INVALID_PARAMETER, 0x40101906, rt, s)
      | Some y \<Rightarrow>
          (let (rc, s1) = DARRegWrite P CPS1848_RTE_DEFAULT_PORT_CSR y s in
           if rc \<noteq> RIO_SUCCESS then (rc, 0x40101910, rt, s1)
           else
             (let dev_base = (if port = RIO_ALL_PORTS then CPS1848_BCAST_DEV_RTE_TABLE_X 0 else CPS1848_PORT_X_DEV_RTE_TABLE_Y port 0);
                  dom_base = (if port = RIO_ALL_PORTS then CPS1848_BCAST_DOM_RTE_TABLE_X 0 else CPS1848_PORT_X_DOM_RTE_TABLE_Y port 0);
                  (rc, s2) = DARRegWrite P CPS1848_RIO_DOMAIN 0 s1 in
              if rc \<noteq> RIO_SUCCESS then (rc, 0x40101900, rt, s2)
              else
                (let (rc, imp, st3) = for_each (cps_program_dom P dom_base set_all) [0..<RIO_RT_GRP_SZ] (rt, s2)
                 in if rc \<noteq> RIO_SUCCESS then (rc, imp, st3) else for_each (cps_program_dev P dev_base set_all) [0..<RIO_RT_GRP_SZ] st3))))"

definition cps_rt_set_common ::
  "'h host \<Rightarrow> u8 \<Rightarrow> bool \<Rightarrow> rio_rt_state_t option \<Rightarrow> 'h dev \<Rightarrow> u32 \<times> u32 \<times> rio_rt_state_t option \<times> 'h dev" where
  "cps_rt_set_common P port set_all rt_opt s =
     (case rt_opt of
        None \<Rightarrow> (RIO_ERR_INVALID_PARAMETER, 0x40100101, None, s)
      | Some rt \<Rightarrow>
          if port \<noteq> RIO_ALL_PORTS \<and> port \<ge> NUM_CPS_PORTS (dev_info s) then (RIO_ERR_INVALID_PARAMETER, 0x40100101, Some rt, s)
          else if ucast (NUM_CPS_PORTS (dev_info s)) \<le> default_route rt \<and> default_route rt \<noteq> RIO_RTE_DROP then
            (RIO_ERR_INVALID_PARAMETER, 0x40100102, Some rt, s)
          else
            (let (rc, imp, rt1, s1) = cps_program_mc_mask P port set_all (rt, s) in
             if rc \<noteq> RIO_SUCCESS then (rc, imp, Some rt1, s1)
             else (let (rc, imp, rt2, s2) = cps_program_rte_entries P port set_all (rt1, s1) in (rc, imp, Some rt2, s2))))"

definition CPS_rio_rt_set_all ::
  "'h host \<Rightarrow> u8 \<Rightarrow> rio_rt_state_t option \<Rightarrow> 'h dev \<Rightarrow> u32 \<times> u32 \<times> rio_rt_state_t option \<times> 'h dev" where
  "CPS_rio_rt_set_all P port rt_opt s = cps_rt_set_common P port True rt_opt s"

definition CPS_rio_rt_set_changed ::
  "'h host \<Rightarrow> u8 \<Rightarrow> rio_rt_state_t option \<Rightarrow> 'h dev \<Rightarrow> u32 \<times> u32 \<times> rio_rt_state_t option \<times> 'h dev" where
  "CPS_rio_rt_set_changed P port rt_opt s = cps_rt_set_common P port False rt_opt s"

section \<open>Initialisation\<close>

text \<open>The state that \<open>CPS_rio_rt_initialize\<close> builds: only the masks that a device can have are to be programmed.\<close>

definition cps_rt_initial :: "u32 \<Rightarrow> u32 \<Rightarrow> rio_rt_state_t" where
  "cps_rt_initial dflt v =
     \<lparr>default_route = dflt, dev_table = replicate RIO_RT_GRP_SZ \<lparr>rte_val = v, uc_changed = True\<rparr>,
      dom_table = \<lparr>rte_val = RIO_RTE_LVL_G0, uc_changed = True\<rparr> # replicate (RIO_RT_GRP_SZ - 1) \<lparr>rte_val = v, uc_changed = True\<rparr>,
      mc_masks = replicate 40 mc_unused @ replicate (RIO_MAX_MC_MASKS - 40) (mc_unused\<lparr>mc_changed := False\<rparr>)\<rparr>"

definition clear_self_mcast :: "'h host \<Rightarrow> nat \<Rightarrow> 'h dev \<Rightarrow> u32 \<times> u32 \<times> 'h dev" where
  "clear_self_mcast P port s =
     (let (rc, x, s1) = DARRegRead P (CPS1848_PORT_X_OPS (of_nat port)) s in
      if rc \<noteq> RIO_SUCCESS then (rc, 0x40001004, s1)
      else (let (rc, s2) = DARRegWrite P (CPS1848_PORT_X_OPS (of_nat port)) (x AND NOT 0x00020000) s1
            in (rc, if rc \<noteq> RIO_SUCCESS then 0x40001005 else RIO_SUCCESS, s2)))"

definition CPS_rio_rt_initialize ::
  "'h host \<Rightarrow> rio_rt_initialize_in_t \<Rightarrow> rio_rt_state_t option \<Rightarrow> 'h dev \<Rightarrow> u32 \<times> u32 \<times> rio_rt_state_t option \<times> 'h dev" where
  "CPS_rio_rt_initialize P p rt_opt s =
     (let n = NUM_CPS_PORTS (dev_info s) in
      if init_default_route p \<ge> ucast n \<and> init_default_route p \<noteq> RIO_RTE_DROP then (RIO_ERR_INVALID_PARAMETER, 0x40001001, rt_opt, s)
      else if default_route_table_port p \<ge> ucast n \<and> default_route_table_port p \<noteq> RIO_RTE_DFLT_PORT \<and> default_route_table_port p \<noteq> RIO_RTE_DROP then
        (RIO_ERR_INVALID_PARAMETER, 0x40001002, rt_opt, s)
      else if set_on_port p \<ge> n \<and> set_on_port p \<noteq> RIO_ALL_PORTS then (RIO_ERR_INVALID_PARAMETER, 0x40001003, rt_opt, s)
      else
        (let rt = cps_rt_initial (init_default_route p) (default_route_table_port p);
             ret = (\<lambda>rt'. if rt_opt = None then None else rt') in
         if \<not> update_hw p then (RIO_SUCCESS, RIO_SUCCESS, ret (Some rt), s)
         else
           (let ports = (if set_on_port p = RIO_ALL_PORTS then [0..<unat n] else [unat (set_on_port p)]);
                (rc, imp, s1) = for_each (clear_self_mcast P) ports s in
            if rc \<noteq> RIO_SUCCESS then (rc, imp, ret (Some rt), s1)
            else (let (rc, imp, rt', s2) = CPS_rio_rt_set_changed P (set_on_port p) (Some rt) s1
                  in (rc, if rc \<noteq> RIO_SUCCESS then imp else RIO_SUCCESS, ret rt', s2)))))"

section \<open>Changing the tables\<close>

definition cps_tidy_routing_table :: "rio_rt_state_t \<Rightarrow> nat \<Rightarrow> u32 \<times> u32 \<times> rio_rt_state_t" where
  "cps_tidy_routing_table rt i =
     (let x = rte_val (dev_table rt ! i) in
      if RIO_RTV_IS_MC_MSK x \<and> \<not> list_ex (\<lambda>j. j \<noteq> i \<and> rte_val (dev_table rt ! j) = x) [0..<RIO_RT_GRP_SZ]
      then (let (rc, imp, rt') = DSF_rio_rt_dealloc_mc_mask x (Some rt) in (rc, imp, the rt'))
      else (RIO_SUCCESS, RIO_SUCCESS, rt))"

definition change_table :: "bool \<Rightarrow> nat \<Rightarrow> u32 \<Rightarrow> rio_rt_state_t \<Rightarrow> rio_rt_state_t" where
  "change_table is_dom i v rt =
     (if is_dom then rt\<lparr>dom_table := (dom_table rt)[i := change_entry v (dom_table rt ! i)]\<rparr>
      else rt\<lparr>dev_table := (dev_table rt)[i := change_entry v (dev_table rt ! i)]\<rparr>)"

definition CPS_rio_rt_change_rte :: "DAR_DEV_INFO_t \<Rightarrow> rio_rt_change_rte_in_t \<Rightarrow> rio_rt_state_t option \<Rightarrow> u32 \<times> u32 \<times> rio_rt_state_t option" where
  "CPS_rio_rt_change_rte d p rt_opt =
     (case rt_opt of
        None \<Rightarrow> (RIO_ERR_INVALID_PARAMETER, 0x40001701, None)
      | Some rt \<Rightarrow>
          (let v = rte_value p; i = unat (rte_idx p) in
           if v \<noteq> RIO_RTE_LVL_G0 \<and> v \<noteq> RIO_RTE_DFLT_PORT \<and> v \<noteq> RIO_RTE_DROP \<and> v \<ge> ucast (NUM_CPS_PORTS d) then
             (RIO_ERR_INVALID_PARAMETER, 0x40001702, Some rt)
           else if v = RIO_RTE_LVL_G0 \<and> \<not> dom_entry p then (RIO_ERR_INVALID_PARAMETER, 0x40001703, Some rt)
           else if dom_entry p \<and> i = 0 then (RIO_SUCCESS, RIO_SUCCESS, Some rt)
           else (RIO_SUCCESS, RIO_SUCCESS, Some (change_table (dom_entry p) i v rt))))"

text \<open>
  Setting up a multicast mask: the mask is marked as changed when its ports or its use change, the domain of a 16 bit identifier is made to use the device table, the entry of
  the identifier selects the mask, and the mask gets its identifier and ports.
\<close>

definition cps_ports :: "DAR_DEV_INFO_t \<Rightarrow> u32" where
  "cps_ports d = push_bit (unat (NUM_CPS_PORTS d)) 1 - 1"

definition cps_mc_info_bad :: "rio_rt_mc_info_t \<Rightarrow> bool" where
  "cps_mc_info_bad info \<longleftrightarrow>
     mc_destID info > 0xFFFF \<or> (mc_destID info > 0xFF \<and> mc_tt info = tt_dev8) \<or> mc_mask info AND NOT (push_bit 18 1 - 1) \<noteq> 0"

definition cps_mark_mask :: "rio_rt_mc_info_t \<Rightarrow> rio_rt_mc_info_t \<Rightarrow> rio_rt_mc_info_t" where
  "cps_mark_mask info m = m\<lparr>mc_changed := mc_changed m \<or> mc_mask m \<noteq> mc_mask info \<or> in_use m \<noteq> in_use info\<rparr>"

definition cps_mask_marked :: "rio_rt_mc_info_t \<Rightarrow> nat \<Rightarrow> rio_rt_state_t \<Rightarrow> rio_rt_state_t" where
  "cps_mask_marked info k rt =
     (let rt1 = rt\<lparr>mc_masks := (mc_masks rt)[k := cps_mark_mask info (mc_masks rt ! k)]\<rparr>; dom_idx = dom_index (mc_destID info)
      in if mc_tt info = tt_dev16 \<and> dom_idx \<noteq> 0 \<and> rte_val (dom_table rt1 ! dom_idx) \<noteq> RIO_RTE_LVL_G0
         then set_entry True dom_idx RIO_RTE_LVL_G0 rt1 else rt1)"

definition cps_route_entry :: "nat \<Rightarrow> u32 \<Rightarrow> rio_rt_state_t \<Rightarrow> u32 \<times> u32 \<times> rio_rt_state_t" where
  "cps_route_entry i rte rt =
     (if rte = rte_val (dev_table rt ! i) then (RIO_SUCCESS, RIO_SUCCESS, rt)
      else (let (rc, imp, rt') = cps_tidy_routing_table rt i in if rc \<noteq> RIO_SUCCESS then (rc, imp, rt') else (RIO_SUCCESS, RIO_SUCCESS, set_entry False i rte rt')))"

definition cps_mask_set :: "DAR_DEV_INFO_t \<Rightarrow> rio_rt_mc_info_t \<Rightarrow> nat \<Rightarrow> rio_rt_state_t \<Rightarrow> rio_rt_state_t" where
  "cps_mask_set d info k rt = rt\<lparr>mc_masks := (mc_masks rt)[k := (mc_masks rt ! k)\<lparr>in_use := True, mc_destID := mc_destID info, mc_tt := mc_tt info,
     mc_mask := mc_mask info AND cps_ports d\<rparr>]\<rparr>"

definition CPS_rio_rt_change_mc_mask ::
  "DAR_DEV_INFO_t \<Rightarrow> rio_rt_change_mc_mask_in_t \<Rightarrow> rio_rt_state_t option \<Rightarrow> u32 \<times> u32 \<times> rio_rt_state_t option" where
  "CPS_rio_rt_change_mc_mask d p rt_opt =
     (case rt_opt of
        None \<Rightarrow> (RIO_ERR_INVALID_PARAMETER, 0x40001801, None)
      | Some rt \<Rightarrow>
          (let info = mc_info p; rte = mc_mask_rte p in
           if cps_mc_info_bad info then (RIO_ERR_INVALID_PARAMETER, 0x40001802, Some rt)
           else if \<not> in_use info then
             (let (rc, imp, rt') = DSF_rio_rt_dealloc_mc_mask rte (Some rt) in (rc, if rc \<noteq> RIO_SUCCESS then imp else RIO_SUCCESS, rt'))
           else
             (let chg_idx = (ucast (RIO_RTV_GET_MC_MSK rte) :: u8) in
              if chg_idx \<ge> NUM_CPS_MC_MASKS d then (RIO_ERR_INVALID_PARAMETER, 0x40001803, Some rt)
              else
                (let (rc, imp, rt') = cps_route_entry (dev_index (mc_destID info)) rte (cps_mask_marked info (unat chg_idx) rt)
                 in if rc \<noteq> RIO_SUCCESS then (rc, imp, Some rt') else (RIO_SUCCESS, RIO_SUCCESS, Some (cps_mask_set d info (unat chg_idx) rt'))))))"

section \<open>Probing a route\<close>

record probe_flags =
  filter_function_active :: bool
  trace_function_active :: bool
  time_to_live_active :: bool

definition CPS_rio_rt_probe ::
  "'h host \<Rightarrow> 'h port_functions \<Rightarrow> rio_rt_probe_in_t \<Rightarrow> rio_rt_state_t option \<Rightarrow> rio_rt_probe_out_t \<Rightarrow> probe_flags \<Rightarrow> 'h dev \<Rightarrow>
     u32 \<times> u32 \<times> rio_rt_probe_out_t \<times> probe_flags \<times> 'h dev" where
  "CPS_rio_rt_probe P F p rt_opt out fl s =
     (let n = NUM_CPS_PORTS (dev_info s); port = probe_on_port p; out0 = probe_cleared n out in
      case rt_opt of
        None \<Rightarrow> (RIO_ERR_INVALID_PARAMETER, 0x40001111, out0, fl, s)
      | Some rt \<Rightarrow>
          if n \<le> port \<and> port \<noteq> RIO_ALL_PORTS then (RIO_ERR_INVALID_PARAMETER, 0x40001111, out0, fl, s)
          else
            (let (rc, x, s1) = DARRegRead P 0x102C s in
             if rc \<noteq> RIO_SUCCESS then (rc, 0x40001112, out0, fl, s1)
             else
               (let fl1 = fl\<lparr>time_to_live_active := x AND 0xFFFF0000 \<noteq> 0\<rparr>; (rc, x, s2) = DARRegRead P 0xF2000C s1 in
                if rc \<noteq> RIO_SUCCESS then (rc, 0x40001113, out0, fl1, s2)
                else
                  (let fl2 = fl1\<lparr>trace_function_active := x AND 0x8000 \<noteq> 0, filter_function_active := False\<rparr>;
                       (rc, x, s3) = (if port \<noteq> RIO_ALL_PORTS then DARRegRead P (CPS1848_PORT_X_OPS port) s2 else (RIO_SUCCESS, 0, s2)) in
                   if rc \<noteq> RIO_SUCCESS then (rc, 0x40001114, out0, fl2, s3)
                   else
                     (let fl3 = (if port \<noteq> RIO_ALL_PORTS then fl2\<lparr>trace_function_active := x AND 0x1E00 \<noteq> 0, filter_function_active := x AND 0x1E000 \<noteq> 0\<rparr> else fl2);
                          (rc, imp, out', s4) = probe_routes P F n CPS1848_PORT_X_CTL_1_CSR p rt out0 s3
                      in (rc, imp, out', fl3, s4))))))"

section \<open>Well-formed routing tables\<close>

text \<open>
  An entry is a port of the device, the default route or a discard; an entry of the domain table may also refer to the device table, and one of the device table
  may select a multicast mask that the device has and that is in use. No mask selects a port that the device does not have, and domain 0 uses the device table.
\<close>

definition cps_entry_ok :: "DAR_DEV_INFO_t \<Rightarrow> rio_rt_mc_info_t list \<Rightarrow> bool \<Rightarrow> u32 \<Rightarrow> bool" where
  "cps_entry_ok d ms is_dom v \<longleftrightarrow> v < ucast (NUM_CPS_PORTS d) \<or> v = RIO_RTE_DFLT_PORT \<or> v = RIO_RTE_DROP \<or>
     (if is_dom then v = RIO_RTE_LVL_G0
      else RIO_RTV_IS_MC_MSK v \<and> v \<le> RIO_RTE_VAL \<and> unat (v AND 0xFF) < unat (NUM_CPS_MC_MASKS d) \<and> in_use (ms ! unat (v AND 0xFF)))"

definition cps_rt_wf :: "DAR_DEV_INFO_t \<Rightarrow> rio_rt_state_t \<Rightarrow> bool" where
  "cps_rt_wf d rt \<longleftrightarrow>
     length (dev_table rt) = RIO_RT_GRP_SZ \<and> length (dom_table rt) = RIO_RT_GRP_SZ \<and> length (mc_masks rt) = RIO_MAX_MC_MASKS \<and>
     rte_val (dom_table rt ! 0) = RIO_RTE_LVL_G0 \<and> (default_route rt < ucast (NUM_CPS_PORTS d) \<or> default_route rt = RIO_RTE_DROP) \<and>
     (\<forall>i<RIO_RT_GRP_SZ. cps_entry_ok d (mc_masks rt) False (rte_val (dev_table rt ! i))) \<and>
     (\<forall>i<RIO_RT_GRP_SZ. cps_entry_ok d (mc_masks rt) True (rte_val (dom_table rt ! i))) \<and>
     (\<forall>i<RIO_MAX_MC_MASKS. mc_mask (mc_masks rt ! i) AND NOT (cps_ports d) = 0)"

lemma cps_rt_wfD:
  assumes "cps_rt_wf d rt"
  shows "length (dev_table rt) = 256" "length (dom_table rt) = 256" "length (mc_masks rt) = 256"
    "rte_val (dom_table rt ! 0) = 0x200" "default_route rt < ucast (NUM_CPS_PORTS d) \<or> default_route rt = 0x300"
    "i < 256 \<Longrightarrow> cps_entry_ok d (mc_masks rt) False (rte_val (dev_table rt ! i))"
    "i < 256 \<Longrightarrow> cps_entry_ok d (mc_masks rt) True (rte_val (dom_table rt ! i))"
    "i < 256 \<Longrightarrow> mc_mask (mc_masks rt ! i) AND NOT (cps_ports d) = 0"
  using assms by (simp_all add: cps_rt_wf_def)

lemma cps_rt_wfI:
  assumes "length (dev_table rt) = 256" "length (dom_table rt) = 256" "length (mc_masks rt) = 256"
    "rte_val (dom_table rt ! 0) = 0x200" "default_route rt < ucast (NUM_CPS_PORTS d) \<or> default_route rt = 0x300"
    "\<And>i. i < 256 \<Longrightarrow> cps_entry_ok d (mc_masks rt) False (rte_val (dev_table rt ! i))"
    "\<And>i. i < 256 \<Longrightarrow> cps_entry_ok d (mc_masks rt) True (rte_val (dom_table rt ! i))"
    "\<And>i. i < 256 \<Longrightarrow> mc_mask (mc_masks rt ! i) AND NOT (cps_ports d) = 0"
  shows "cps_rt_wf d rt"
  using assms by (simp add: cps_rt_wf_def)

lemma NUM_CPS_le: "unat (NUM_CPS_PORTS d) \<le> 18" "unat (NUM_CPS_MC_MASKS d) \<le> 40"
  by (simp_all add: NUM_CPS_PORTS_def NUM_CPS_MC_MASKS_def word_le_nat_alt word_less_nat_alt)

lemma cps_port_value:
  assumes "v < (ucast (NUM_CPS_PORTS d) :: u32)"
  shows "unat v < 18" "\<not> RIO_RTV_IS_MC_MSK v" "v \<noteq> 0x200" "v \<noteq> 0x300" "v \<noteq> 0x301" "v \<le> 0x3FF"
proof -
  have "unat (NUM_CPS_PORTS d) < 2 ^ 32" using NUM_CPS_le(1) [of d] by simp
  then have "unat v < unat (NUM_CPS_PORTS d)" using assms by (simp add: word_less_nat_alt unsigned_ucast_eq take_bit_nat_eq_self)
  then show u: "unat v < 18" using NUM_CPS_le [of d] by simp
  then show "\<not> RIO_RTV_IS_MC_MSK v" "v \<noteq> 0x200" "v \<noteq> 0x300" "v \<noteq> 0x301" "v \<le> 0x3FF"
    by (auto simp: rtv_types word_le_nat_alt)
qed

lemma cps_entry_simps [simp]: "cps_entry_ok d ms is_dom 0x300" "cps_entry_ok d ms is_dom 0x301" "cps_entry_ok d ms True 0x200"
  by (simp_all add: cps_entry_ok_def)

lemma cps_entry_other:
  assumes "cps_entry_ok d ms is_dom v" "\<And>i. RIO_RTV_IS_MC_MSK v \<Longrightarrow> i = unat (v AND 0xFF) \<Longrightarrow> in_use (ms ! i) \<Longrightarrow> in_use (ms' ! i)"
  shows "cps_entry_ok d ms' is_dom v"
  using assms by (auto simp: cps_entry_ok_def)

lemma cps_entry_mc: "cps_entry_ok d ms is_dom v \<Longrightarrow> RIO_RTV_IS_MC_MSK v \<Longrightarrow>
    v \<le> 0x3FF \<and> \<not> is_dom \<and> in_use (ms ! unat (v AND 0xFF)) \<and> unat (v AND 0xFF) < unat (NUM_CPS_MC_MASKS d)"
  using cps_port_value(2) [of v d] by (auto simp: cps_entry_ok_def rtv_types split: if_splits)

text \<open>Storing an entry, changing a mask that stays in use, and releasing a mask.\<close>

lemma cps_wf_store:
  assumes wf: "cps_rt_wf d rt" and ok: "cps_entry_ok d (mc_masks rt) is_dom (rte_val u)" and i: "is_dom \<longrightarrow> i \<noteq> 0"
  shows "cps_rt_wf d (store_entry is_dom i u rt)"
proof -
  note w = cps_rt_wfD [OF wf]
  show ?thesis by (rule cps_rt_wfI; use w ok i in \<open>cases is_dom; simp add: store_entry_def nth_upd\<close>)
qed

lemma set_entry_store: "set_entry is_dom i v rt = store_entry is_dom i \<lparr>rte_val = v, uc_changed = True\<rparr> rt"
  by (simp add: set_entry_def store_entry_def)

lemma cps_wf_set_mask:
  assumes wf: "cps_rt_wf d rt" and m: "mc_mask m AND NOT (cps_ports d) = 0" "in_use (mc_masks rt ! i) \<longrightarrow> in_use m"
  shows "cps_rt_wf d (rt\<lparr>mc_masks := (mc_masks rt)[i := m]\<rparr>)"
proof -
  note w = cps_rt_wfD [OF wf]
  have ok: "cps_entry_ok d ((mc_masks rt)[i := m]) is_dom v" if "cps_entry_ok d (mc_masks rt) is_dom v" for is_dom v
    using that m(2) w(3) by (intro cps_entry_other [OF that]) (simp add: nth_upd)
  show ?thesis by (rule cps_rt_wfI; use w m in \<open>simp add: ok nth_upd\<close>)
qed

lemma cps_wf_release:
  assumes wf: "cps_rt_wf d rt" and rte: "RIO_RTV_IS_MC_MSK rte" "rte \<le> 0x3FF"
  shows "cps_rt_wf d (dealloc_mask rte (unat (rte AND 0xFF)) rt)" (is "cps_rt_wf d ?rt")
proof (rule cps_rt_wfI)
  note w = cps_rt_wfD [OF wf] and dm = dealloc_mask_def [of rte _ rt, unfolded Let_def]
  have ok: "cps_entry_ok d ((mc_masks rt)[unat (rte AND 0xFF) := m]) is_dom v" if "cps_entry_ok d (mc_masks rt) is_dom v" "v \<noteq> rte" for is_dom v m
  proof (rule cps_entry_other [OF that(1)])
    fix i assume v: "RIO_RTV_IS_MC_MSK v" "i = unat (v AND 0xFF)" "in_use (mc_masks rt ! i)"
    have "i \<noteq> unat (rte AND 0xFF)" using mc_value_inj [of v rte] cps_entry_mc [OF that(1) v(1)] rte v that(2) by auto
    with v show "in_use ((mc_masks rt)[unat (rte AND 0xFF) := m] ! i)" by simp
  qed
  have "rte \<noteq> 0x200" using rte(1) by (auto simp: RIO_RTV_IS_MC_MSK_def)
  then show "rte_val (dom_table ?rt ! 0) = 0x200" using w by (simp add: dm drop_matching_nth)
  show "length (dev_table ?rt) = 256" "length (dom_table ?rt) = 256" "length (mc_masks ?rt) = 256"
    "default_route ?rt < ucast (NUM_CPS_PORTS d) \<or> default_route ?rt = 0x300" using w by (simp_all add: dm)
  fix i :: nat assume i: "i < 256"
  show "cps_entry_ok d (mc_masks ?rt) True (rte_val (dom_table ?rt ! i))"
    using i w ok [OF w(7) [OF i]] by (simp add: dm drop_matching_nth)
  show "cps_entry_ok d (mc_masks ?rt) False (rte_val (dev_table ?rt ! i))"
    using i w ok [OF w(6) [OF i]] by (simp add: dm drop_matching_nth nth_list_update)
  show "mc_mask (mc_masks ?rt ! i) AND NOT (cps_ports d) = 0" using i w by (simp add: dm nth_list_update mc_cleared_def)
qed

lemma cps_wf_dealloc:
  assumes "cps_rt_wf d rt" "rte \<le> 0x3FF" "DSF_rio_rt_dealloc_mc_mask rte (Some rt) = (rc, imp, Some rt')"
  shows "cps_rt_wf d rt'"
  using assms cps_wf_release [OF assms(1) _ assms(2)] by (auto simp: dealloc_cases split: if_splits)

lemma cps_wf_alloc:
  assumes "cps_rt_wf d rt" "DSF_rio_rt_alloc_mc_mask d (Some rt) = (rc, imp, v, Some rt')"
  shows "cps_rt_wf d rt'"
proof (cases "find (\<lambda>i. \<not> in_use (mc_masks rt ! i) \<and> \<not> allocd (mc_masks rt ! i)) [0..<unat (NUM_MC_MASKS d)]")
  case None
  then show ?thesis using assms by (simp add: DSF_rio_rt_alloc_mc_mask_def DSF_rio_rt_default_alloc_mc_mask_def)
next
  case (Some i)
  have "unat (NUM_MC_MASKS d) < 256" using unsigned_less [of "NUM_MC_MASKS d"] by simp
  with Some have i: "i < 256" by (auto simp: find_Some_iff)
  have "cps_rt_wf d (rt\<lparr>mc_masks := (mc_masks rt)[i := (mc_masks rt ! i)\<lparr>allocd := True\<rparr>]\<rparr>)"
    using assms(1) cps_rt_wfD(8) [OF assms(1) i] by (intro cps_wf_set_mask) simp_all
  then show ?thesis using assms(2) Some
    by (simp add: DSF_rio_rt_alloc_mc_mask_def DSF_rio_rt_default_alloc_mc_mask_def)
qed

lemma change_table_store:
  "change_table is_dom i v rt = store_entry is_dom i (change_entry v (table_of is_dom rt ! i)) rt" "rte_val (change_entry v u) = v"
  by (simp_all add: change_table_def store_entry_def table_of_def change_entry_def)

lemma cps_wf_change_rte:
  assumes wf: "cps_rt_wf d rt" and run: "CPS_rio_rt_change_rte d p (Some rt) = (rc, imp, Some rt')"
  shows "cps_rt_wf d rt'"
proof -
  let ?v = "rte_value p" and ?i = "unat (rte_idx p)"
  let ?bad = "?v \<noteq> 0x200 \<and> ?v \<noteq> 0x301 \<and> ?v \<noteq> 0x300 \<and> ?v \<ge> ucast (NUM_CPS_PORTS d) \<or> ?v = 0x200 \<and> \<not> dom_entry p"
  show ?thesis
  proof (cases "?bad \<or> dom_entry p \<and> ?i = 0")
    case True
    then have "rt' = rt" using run unfolding CPS_rio_rt_change_rte_def option.case Let_def by (simp only: split: if_splits) simp_all
    then show ?thesis using wf by simp
  next
    case False
    then have "cps_entry_ok d (mc_masks rt) (dom_entry p) ?v" by (auto simp: cps_entry_ok_def not_le)
    moreover have "rt' = change_table (dom_entry p) ?i ?v rt"
      using run False unfolding CPS_rio_rt_change_rte_def option.case Let_def by (simp only: split: if_splits) simp_all
    ultimately show ?thesis using wf False by (simp add: change_table_store cps_wf_store)
  qed
qed

text \<open>The state that a mask is set up in: the mask is in use before an entry selects it.\<close>

lemma mask_index:
  assumes "ucast (RIO_RTV_GET_MC_MSK rte) < NUM_CPS_MC_MASKS d"
  shows "RIO_RTV_IS_MC_MSK rte" "unat (ucast (RIO_RTV_GET_MC_MSK rte) :: u8) = unat (rte AND 0xFF)" "unat (rte AND 0xFF) < unat (NUM_CPS_MC_MASKS d)"
proof -
  have lt: "unat (ucast (RIO_RTV_GET_MC_MSK rte) :: u8) < 40" using assms NUM_CPS_le(2) [of d] by (simp add: word_less_nat_alt)
  show mc: "RIO_RTV_IS_MC_MSK rte"
  proof (rule ccontr)
    assume "\<not> RIO_RTV_IS_MC_MSK rte"
    then have "unat (ucast (RIO_RTV_GET_MC_MSK rte) :: u8) = 255" by (simp add: RIO_RTV_GET_MC_MSK_def)
    with lt show False by simp
  qed
  show e: "unat (ucast (RIO_RTV_GET_MC_MSK rte) :: u8) = unat (rte AND 0xFF)"
    using mc idx_less [of rte] by (simp add: RIO_RTV_GET_MC_MSK_def unsigned_ucast_eq take_bit_nat_eq_self del: idx_less)
  show "unat (rte AND 0xFF) < unat (NUM_CPS_MC_MASKS d)" using assms e by (simp add: word_less_nat_alt)
qed

lemma cps_tidy_result:
  assumes wf: "cps_rt_wf d rt" and i: "i < 256" and run: "cps_tidy_routing_table rt i = (rc, imp, rt')"
  shows "rc = RIO_SUCCESS" "cps_rt_wf d rt'"
proof -
  let ?x = "rte_val (dev_table rt ! i)"
  have c: "rc = RIO_SUCCESS \<and> (rt' = rt \<or> RIO_RTV_IS_MC_MSK ?x \<and> rt' = dealloc_mask ?x (unat (?x AND 0xFF)) rt)"
    using run by (auto simp: cps_tidy_routing_table_def dealloc_cases Let_def split: if_splits)
  then show "rc = RIO_SUCCESS" by blast
  have "?x \<le> 0x3FF" if "RIO_RTV_IS_MC_MSK ?x" using cps_entry_mc [OF cps_rt_wfD(6) [OF wf i] that] by blast
  then show "cps_rt_wf d rt'" using c wf cps_wf_release [OF wf] by blast
qed

lemma set_entry_commute: "(set_entry b i v rt)\<lparr>mc_masks := ms\<rparr> = set_entry b i v (rt\<lparr>mc_masks := ms\<rparr>)"
  by (simp add: set_entry_def)

lemma cps_wf_set_up:
  assumes wf: "cps_rt_wf d rt" and rte: "RIO_RTV_IS_MC_MSK rte" "rte \<le> 0x3FF" "unat (rte AND 0xFF) < unat (NUM_CPS_MC_MASKS d)"
    and m: "in_use m" "mc_mask m AND NOT (cps_ports d) = 0"
  shows "cps_rt_wf d (rt\<lparr>mc_masks := (mc_masks rt)[unat (rte AND 0xFF) := m]\<rparr>)"
    "cps_rt_wf d ((set_entry False i rte rt)\<lparr>mc_masks := (mc_masks rt)[unat (rte AND 0xFF) := m]\<rparr>)"
proof -
  show a: "cps_rt_wf d (rt\<lparr>mc_masks := (mc_masks rt)[unat (rte AND 0xFF) := m]\<rparr>)" using m by (intro cps_wf_set_mask [OF wf]) simp_all
  have "length (mc_masks rt) = 256" by (rule cps_rt_wfD [OF wf])
  then show "cps_rt_wf d ((set_entry False i rte rt)\<lparr>mc_masks := (mc_masks rt)[unat (rte AND 0xFF) := m]\<rparr>)"
    unfolding set_entry_commute unfolding set_entry_store
    using rte m(1) by (intro cps_wf_store [OF a]) (simp_all add: cps_entry_ok_def)
qed

lemma cps_mask_marked_wf:
  assumes "cps_rt_wf d rt" "k < 256"
  shows "cps_rt_wf d (cps_mask_marked info k rt)"
proof -
  have m: "cps_rt_wf d (rt\<lparr>mc_masks := (mc_masks rt)[k := cps_mark_mask info (mc_masks rt ! k)]\<rparr>)"
    using cps_rt_wfD(8) [OF assms] by (intro cps_wf_set_mask [OF assms(1)]) (simp_all add: cps_mark_mask_def)
  show ?thesis unfolding cps_mask_marked_def Let_def set_entry_store using m cps_wf_store [OF m, of True] by simp
qed

lemma cps_wf_change_mc_mask:
  assumes wf: "cps_rt_wf d rt" and rte: "mc_mask_rte p \<le> 0x3FF" and run: "CPS_rio_rt_change_mc_mask d p (Some rt) = (rc, imp, Some rt')"
  shows "cps_rt_wf d rt'"
proof -
  let ?info = "mc_info p" and ?rte = "mc_mask_rte p"
  let ?chg = "ucast (RIO_RTV_GET_MC_MSK ?rte) :: u8"
  note run = run [unfolded CPS_rio_rt_change_mc_mask_def option.case Let_def]
  consider "cps_mc_info_bad ?info \<or> in_use ?info \<and> ?chg \<ge> NUM_CPS_MC_MASKS d" | "\<not> cps_mc_info_bad ?info" "\<not> in_use ?info"
    | "\<not> cps_mc_info_bad ?info" "in_use ?info" "?chg < NUM_CPS_MC_MASKS d"
    by fastforce
  then show ?thesis
  proof cases
    case 1
    then have "rt' = rt" using run by (cases "cps_mc_info_bad ?info") simp_all
    then show ?thesis using wf by simp
  next
    case 2
    obtain rc' imp' rt1 where d: "DSF_rio_rt_dealloc_mc_mask ?rte (Some rt) = (rc', imp', rt1)" by (cases rule: prod_cases3)
    then have "rt1 = Some rt'" using run 2 by simp
    then show ?thesis using cps_wf_dealloc [OF wf rte] d by simp
  next
    case 3
    let ?k = "unat (?rte AND 0xFF)" and ?i = "dev_index (mc_destID ?info)"
    let ?rt1 = "cps_mask_marked ?info ?k rt"
    note k = mask_index [OF 3(3)]
    have wf1: "cps_rt_wf d ?rt1" by (rule cps_mask_marked_wf [OF wf]) simp
    obtain rc2 imp2 rt2 where tidy: "cps_tidy_routing_table ?rt1 ?i = (rc2, imp2, rt2)" by (cases rule: prod_cases3)
    note t = cps_tidy_result [OF wf1 index_u8(4) tidy]
    have m: "mc_mask ?info AND cps_ports d AND NOT (cps_ports d) = 0" by (rule bit_word_eqI) (auto simp: bit_simps)
    have "rt' = cps_mask_set d ?info ?k (if ?rte = rte_val (dev_table ?rt1 ! ?i) then ?rt1 else set_entry False ?i ?rte rt2)"
      using run 3 t(1) tidy by (simp add: cps_route_entry_def k(2) split: if_splits)
    then show ?thesis using cps_wf_set_up [OF wf1 k(1) rte k(3)] cps_wf_set_up [OF t(2) k(1) rte k(3)] m
      by (simp add: cps_mask_set_def and.assoc split: if_splits)
  qed
qed

end
