(* ===== verification/Cps_Inv.thy ===== *)
theory Cps_Inv
  imports Cps_Rt
begin

unbundle bit_operations_syntax

text \<open>
  Every routing table state that the functions of \<^verbatim>\<open>CPS_RT.c\<close> build is well formed: a step relation over the routing table state and the device, whose steps are the
  functions of the driver with whatever the registers of the device return, and the invariant by rule induction.
\<close>

section \<open>Register access\<close>

text \<open>A device with no performance optimised registers keeps its description, whatever its registers do.\<close>

lemma plain_read:
  assumes "plain_dev (dev_info s)" "DARRegRead P a s = (rc, x, s')"
  shows "dev_info s' = dev_info s"
  using assms by (auto simp: DARRegRead_def plain_dev_def plain_family_def DAR_get_poreg_idx_def Let_def split: option.splits prod.splits if_splits)

lemma plain_write:
  assumes "plain_dev (dev_info s)" "DARRegWrite P a x s = (rc, s')"
  shows "dev_info s' = dev_info s"
  using assms by (auto simp: DARRegWrite_def plain_dev_def plain_family_def DAR_get_poreg_idx_def poreg_store_def Let_def split: option.splits prod.splits if_splits)

section \<open>Programming keeps tables well formed\<close>

definition cps_ok :: "DAR_DEV_INFO_t \<Rightarrow> rio_rt_state_t \<times> 'h dev \<Rightarrow> bool" where
  "cps_ok d st \<longleftrightarrow> cps_rt_wf d (fst st) \<and> dev_info (snd st) = d"

lemma cps_wf_unmark:
  assumes wf: "cps_rt_wf d rt"
  shows "cps_rt_wf d (rt\<lparr>dom_table := (dom_table rt)[i := (dom_table rt ! i)\<lparr>uc_changed := False\<rparr>]\<rparr>)"
    "cps_rt_wf d (rt\<lparr>dev_table := (dev_table rt)[i := (dev_table rt ! i)\<lparr>uc_changed := False\<rparr>]\<rparr>)"
    "cps_rt_wf d (rt\<lparr>mc_masks := (mc_masks rt)[i := (mc_masks rt ! i)\<lparr>mc_changed := False\<rparr>]\<rparr>)"
proof -
  note w = cps_rt_wfD [OF wf]
  have u: "rte_val (us[i := (us ! i)\<lparr>uc_changed := False\<rparr>] ! j) = rte_val (us ! j)" if "j < length us" for us :: "rio_rt_uc_info_t list" and j
    using that by (simp add: nth_upd)
  have m: "mc_mask (ms[i := (ms ! i)\<lparr>mc_changed := False\<rparr>] ! j) = mc_mask (ms ! j)" "in_use (ms[i := (ms ! i)\<lparr>mc_changed := False\<rparr>] ! j) = in_use (ms ! j)"
    if "j < length ms" for ms :: "rio_rt_mc_info_t list" and j using that by (simp_all add: nth_upd)
  show "cps_rt_wf d (rt\<lparr>dom_table := (dom_table rt)[i := (dom_table rt ! i)\<lparr>uc_changed := False\<rparr>]\<rparr>)"
    "cps_rt_wf d (rt\<lparr>dev_table := (dev_table rt)[i := (dev_table rt ! i)\<lparr>uc_changed := False\<rparr>]\<rparr>)"
    by (rule cps_rt_wfI; use w in \<open>simp add: u\<close>)+
  have ok: "cps_entry_ok d ((mc_masks rt)[i := (mc_masks rt ! i)\<lparr>mc_changed := False\<rparr>]) is_dom v" if "cps_entry_ok d (mc_masks rt) is_dom v" for is_dom v
    using w(3) by (intro cps_entry_other [OF that]) (simp add: m)
  show "cps_rt_wf d (rt\<lparr>mc_masks := (mc_masks rt)[i := (mc_masks rt ! i)\<lparr>mc_changed := False\<rparr>]\<rparr>)"
    by (rule cps_rt_wfI; use w in \<open>simp add: m ok\<close>)
qed

lemma cps_program_keeps:
  assumes d: "plain_dev d" and st: "cps_ok d st"
  shows "cps_ok d (snd (snd (cps_program_mask P b mm set_all k st)))" "cps_ok d (snd (snd (cps_program_dom P b set_all k st)))"
    "cps_ok d (snd (snd (cps_program_dev P b set_all k st)))"
proof -
  obtain rt s where e: "st = (rt, s)" by (cases st)
  have wf: "cps_rt_wf d rt" and s: "dev_info s = d" using st by (simp_all add: cps_ok_def e)
  have w: "dev_info (snd (DARRegWrite P a x s)) = d" for a x
    using plain_write [of s P a x] d s by (cases "DARRegWrite P a x s") simp
  note u = cps_wf_unmark [OF wf, of k]
  have wr: "cps_ok d (snd (snd (let (rc, s1) = DARRegWrite P a x s in if rc \<noteq> RIO_SUCCESS then (rc, c, rt, s1) else (RIO_SUCCESS, RIO_SUCCESS, rt', s1))))"
    if "cps_rt_wf d rt'" for a x c rt'
    using that w [of a x] wf by (simp add: cps_ok_def case_prod_beta Let_def)
  show "cps_ok d (snd (snd (cps_program_mask P b mm set_all k st)))"
    unfolding cps_program_mask_def e prod.case Let_def
    using wf s wr [OF u(3), unfolded Let_def] by (simp add: cps_ok_def)
  show "cps_ok d (snd (snd (cps_program_dom P b set_all k st)))"
    unfolding cps_program_dom_def e prod.case Let_def
    using wf s wr [OF u(1), unfolded Let_def] by (simp add: cps_ok_def split: option.split)
  show "cps_ok d (snd (snd (cps_program_dev P b set_all k st)))"
    unfolding cps_program_dev_def e prod.case Let_def
    using wf s wr [OF u(2), unfolded Let_def] by (simp add: cps_ok_def split: option.split)
qed

lemma cps_rte_entries_keeps:
  assumes d: "plain_dev d" and st: "cps_ok d st"
  shows "cps_ok d (snd (snd (cps_program_rte_entries P port set_all st)))"
proof -
  obtain rt s where e: "st = (rt, s)" by (cases st)
  have wf: "cps_rt_wf d rt" and s: "dev_info s = d" using st by (simp_all add: cps_ok_def e)
  have w: "dev_info (snd (DARRegWrite P a x s)) = d" if "dev_info s = d" for a x and s :: "'a dev"
    using plain_write [of s P a x] d that by (cases "DARRegWrite P a x s") simp
  have dom: "cps_ok d (snd (snd (for_each (cps_program_dom P b set_all) ks st)))" "cps_ok d (snd (snd (for_each (cps_program_dev P b set_all) ks st)))"
    if "cps_ok d st" for b ks and st :: "rio_rt_state_t \<times> 'a dev"
    by (rule for_each_keeps [of "cps_ok d"]; rule cps_program_keeps [OF d] that; assumption)+
  show ?thesis
  proof (cases "cps_rte_translate_std_to_CPS (dev_info s) (default_route rt)")
    case (Some y)
    obtain rc1 s1 where w1: "DARRegWrite P 0x78 y s = (rc1, s1)" by fastforce
    obtain rc2 s2 where w2: "DARRegWrite P 0xF20020 0 s1 = (rc2, s2)" by fastforce
    have s12: "dev_info s1 = d" "dev_info s2 = d" using w [OF s, of "0x78" y] w [of s1 "0xF20020" 0] w1 w2 by auto
    obtain rc3 imp3 st3 where l3: "for_each (cps_program_dom P (if port = RIO_ALL_PORTS then CPS1848_BCAST_DOM_RTE_TABLE_X 0 else CPS1848_PORT_X_DOM_RTE_TABLE_Y port 0) set_all)
        [0..<256] (rt, s2) = (rc3, imp3, st3)" by (cases rule: prod_cases3)
    have "cps_ok d (rt, s2)" using wf s12 by (simp add: cps_ok_def)
    from dom(1) [OF this] have "cps_ok d (snd (snd (rc3, imp3, st3)))" unfolding l3 [symmetric] .
    then have "cps_ok d st3" by simp
    then show ?thesis using Some w1 w2 l3 s12 wf dom(2) [of st3] by (simp add: cps_program_rte_entries_def e cps_ok_def Let_def)
  qed (use st e in \<open>simp add: cps_program_rte_entries_def\<close>)
qed

lemma cps_set_common_keeps:
  assumes d: "plain_dev d" and wf: "cps_rt_wf d rt" and s: "dev_info s = d" and run: "cps_rt_set_common P port set_all (Some rt) s = (rc, imp, Some rt', s')"
  shows "cps_rt_wf d rt'" "dev_info s' = d"
proof -
  have masks: "cps_ok d (snd (snd (cps_program_mc_mask P port set_all (rt, s))))"
    unfolding cps_program_mc_mask_def Let_def
    by (rule for_each_keeps [of "cps_ok d"], erule cps_program_keeps [OF d]) (use wf s in \<open>simp add: cps_ok_def\<close>)
  obtain rc1 imp1 st1 where m: "cps_program_mc_mask P port set_all (rt, s) = (rc1, imp1, st1)" by (cases rule: prod_cases3)
  obtain rc2 imp2 st2 where r: "cps_program_rte_entries P port set_all st1 = (rc2, imp2, st2)" by (cases rule: prod_cases3)
  have 1: "cps_ok d st1" using masks m by simp
  have 2: "cps_ok d st2" using cps_rte_entries_keeps [OF d 1, of P port set_all] r by simp
  have "cps_rt_wf d rt' \<and> dev_info s' = d"
    using run 1 2 wf s m r by (cases st1; cases st2) (auto simp: cps_rt_set_common_def cps_ok_def split: if_splits)
  then show "cps_rt_wf d rt'" "dev_info s' = d" by simp_all
qed

section \<open>Initialisation and reading give well-formed tables\<close>

lemma cps_wf_initial:
  assumes "dflt < ucast (NUM_CPS_PORTS d) \<or> dflt = 0x300" "v < ucast (NUM_CPS_PORTS d) \<or> v = 0x301 \<or> v = 0x300"
  shows "cps_rt_wf d (cps_rt_initial dflt v)"
proof -
  have ok: "cps_entry_ok d ms is_dom v" for ms is_dom using assms(2) by (auto simp: cps_entry_ok_def)
  show ?thesis
    by (rule cps_rt_wfI) (use assms(1) ok in \<open>simp_all add: cps_rt_initial_def nth_Cons' nth_append mc_unused_def\<close>)
qed

lemma cps_initialize_keeps:
  assumes d: "plain_dev d" and s: "dev_info s = d" and run: "CPS_rio_rt_initialize P p (Some rt0) s = (RIO_SUCCESS, imp, Some rt, s')"
  shows "cps_rt_wf d rt" "dev_info s' = d"
proof -
  let ?n = "NUM_CPS_PORTS d" and ?rt = "cps_rt_initial (init_default_route p) (default_route_table_port p)"
  let ?ports = "if set_on_port p = RIO_ALL_PORTS then [0..<unat ?n] else [unat (set_on_port p)]"
  have guards: "\<not> (init_default_route p \<ge> ucast ?n \<and> init_default_route p \<noteq> 0x300)"
    "\<not> (default_route_table_port p \<ge> ucast ?n \<and> default_route_table_port p \<noteq> 0x301 \<and> default_route_table_port p \<noteq> 0x300)"
    "\<not> (set_on_port p \<ge> ?n \<and> set_on_port p \<noteq> RIO_ALL_PORTS)"
    using run unfolding CPS_rio_rt_initialize_def s Let_def by (simp_all only: split: if_splits) simp_all
  have wf: "cps_rt_wf d ?rt" using guards(1,2) by (intro cps_wf_initial) (auto simp: not_le)
  have keep: "dev_info (snd (snd (clear_self_mcast P k s1))) = d" if "dev_info s1 = d" for k and s1 :: "'a dev"
  proof -
    obtain rc x s2 where r: "DARRegRead P (CPS1848_PORT_X_OPS (of_nat k)) s1 = (rc, x, s2)" by (cases rule: prod_cases3)
    obtain rc' s3 where w: "DARRegWrite P (CPS1848_PORT_X_OPS (of_nat k)) (x AND NOT 0x00020000) s2 = (rc', s3)" by (cases rule: prod.exhaust)
    have "dev_info s2 = d" using plain_read [OF _ r] d that by simp
    moreover from this have "dev_info s3 = d" using plain_write [OF _ w] d by simp
    ultimately show ?thesis unfolding clear_self_mcast_def r w Let_def prod.case by simp
  qed
  obtain rc1 imp1 s1 where l: "for_each (clear_self_mcast P) ?ports s = (rc1, imp1, s1)" by (cases rule: prod_cases3)
  have s1: "dev_info s1 = d" using for_each_keeps [of "\<lambda>s. dev_info s = d" "clear_self_mcast P" s ?ports, OF keep s] l by simp
  obtain rc2 imp2 rt2 s2 where c: "CPS_rio_rt_set_changed P (set_on_port p) (Some ?rt) s1 = (rc2, imp2, rt2, s2)" by (cases rule: prod_cases4)
  note run' = run [unfolded CPS_rio_rt_initialize_def s Let_def, simplified guards if_False]
  show "cps_rt_wf d rt" "dev_info s' = d"
  proof -
    have "(\<not> update_hw p \<and> rt = ?rt \<and> s' = s) \<or> (update_hw p \<and> rt2 = Some rt \<and> s' = s2)"
      using run' l c by (simp split: if_splits)
    moreover have "cps_rt_wf d rt \<and> dev_info s2 = d" if "rt2 = Some rt"
      using cps_set_common_keeps [OF d wf s1 c [unfolded CPS_rio_rt_set_changed_def that]] by simp
    ultimately show "cps_rt_wf d rt" "dev_info s' = d" using wf s by auto
  qed
qed

text \<open>
  Tables of which the first \<open>k\<close> entries of the domain table and the first \<open>l\<close> of the device table have been read.
\<close>

definition cps_partly :: "DAR_DEV_INFO_t \<Rightarrow> nat \<Rightarrow> nat \<Rightarrow> rio_rt_state_t \<Rightarrow> bool" where
  "cps_partly d k l rt \<longleftrightarrow>
     length (dev_table rt) = 256 \<and> length (dom_table rt) = 256 \<and> length (mc_masks rt) = 256 \<and>
     (default_route rt < ucast (NUM_CPS_PORTS d) \<or> default_route rt = 0x300) \<and>
     (0 < k \<longrightarrow> rte_val (dom_table rt ! 0) = 0x200) \<and>
     (\<forall>i<l. cps_entry_ok d (mc_masks rt) False (rte_val (dev_table rt ! i))) \<and>
     (\<forall>i<k. cps_entry_ok d (mc_masks rt) True (rte_val (dom_table rt ! i))) \<and>
     (\<forall>i<256. mc_mask (mc_masks rt ! i) AND NOT (cps_ports d) = 0)"

lemma cps_partly_all: "cps_partly d 256 256 rt \<longleftrightarrow> cps_rt_wf d rt"
  by (auto simp: cps_partly_def cps_rt_wf_def)

lemma cps_partly_less: "cps_partly d k l rt \<Longrightarrow> k' \<le> k \<Longrightarrow> l' \<le> l \<Longrightarrow> cps_partly d k' l' rt"
  by (auto simp: cps_partly_def)

lemma cps_partly_dom:
  assumes "cps_partly d k l rt" "0 < k" "k < 256" "cps_entry_ok d (mc_masks rt) True (rte_val u)"
  shows "cps_partly d (Suc k) l (store_entry True k u rt)"
  using assms by (auto simp: cps_partly_def store_entry_def nth_upd less_Suc_eq)

lemma cps_partly_dev:
  assumes "cps_partly d k l rt" "l < 256" "cps_entry_ok d (mc_masks rt) False (rte_val u)"
  shows "cps_partly d k (Suc l) (store_entry False l u rt)"
  using assms by (auto simp: cps_partly_def store_entry_def nth_upd less_Suc_eq)

lemma cps_partly_use:
  assumes "cps_partly d k l rt" "in_use m" "mc_mask m = mc_mask (mc_masks rt ! i)" "i < 256"
  shows "cps_partly d k l (rt\<lparr>mc_masks := (mc_masks rt)[i := m]\<rparr>)"
proof -
  have "cps_entry_ok d ((mc_masks rt)[i := m]) is_dom v" if "cps_entry_ok d (mc_masks rt) is_dom v" for is_dom v
    using that assms by (intro cps_entry_other [OF that]) (simp add: nth_upd cps_partly_def)
  then show ?thesis using assms by (auto simp: cps_partly_def nth_upd)
qed

text \<open>What a byte of a table stands for.\<close>

lemma CPS_to_std_cases:
  assumes "cps_rte_translate_CPS_to_std d x = Some y"
  obtains (dflt) "x = 0xDE" "y = 0x301" | (drop) "x = 0xDF" "y = 0x300" | (group) "x = 0xDD" "y = 0x200"
  | (port) "x < ucast (NUM_PORTS d)" "y = x" "unat y < 256"
  | (mc) "0x40 \<le> unat x" "unat x < 0x68" "unat y = 256 + (unat x - 0x40)"
proof -
  have "unat (NUM_PORTS d) < 256" using unsigned_less [of "NUM_PORTS d"] by simp
  then have n: "unat (ucast (NUM_PORTS d) :: u32) < 256" by (simp add: unsigned_ucast_eq take_bit_nat_eq_self)
  have port': "y = x \<and> unat y < 256" if "x < ucast (NUM_PORTS d)" "y = RIO_RTV_PORT x"
  proof -
    have "unat x < 256" using that(1) n by (simp add: word_less_nat_alt)
    then show ?thesis using that(2) by (simp add: RIO_RTV_PORT_def byte_high)
  qed
  have mc': "0x40 \<le> unat x \<and> unat x < 0x68 \<and> unat y = 256 + (unat x - 0x40)" if "IS_CPS_MC_PORT x" "y = RIO_RTV_MC_MSK (ucast (IS_CPS_MC_MASK_NO x))"
  proof -
    have u: "0x40 \<le> unat x" "unat x < 0x68" using that(1) by (simp_all add: IS_CPS_MC_PORT_def word_le_nat_alt word_less_nat_alt)
    have "unat (x - 0x40) = unat x - 0x40" using u(1) by (simp add: unat_sub word_le_nat_alt)
    then have "unat (ucast (IS_CPS_MC_MASK_NO x) :: u32) = unat x - 0x40"
      using u by (simp add: IS_CPS_MC_MASK_NO_def unsigned_ucast_eq unsigned_take_bit_eq take_bit_nat_eq_self)
    moreover have "unat (RIO_RTV_MC_MSK z) = 256 + unat z" if "unat z < 40" for z :: u32
      using that by (simp add: RIO_RTV_MC_MSK_def byte_high unat_word_ariths)
    ultimately show ?thesis using u that(2) by simp
  qed
  note a = assms [unfolded cps_rte_translate_CPS_to_std_def]
  consider "x = 0xDE" | "x = 0xDF" | "x = 0xDD" | "x \<notin> {0xDD, 0xDE, 0xDF}" "x < ucast (NUM_PORTS d)"
    | "x \<notin> {0xDD, 0xDE, 0xDF}" "\<not> x < ucast (NUM_PORTS d)" by blast
  then show thesis
  proof cases
    case 4
    then have "y = RIO_RTV_PORT x" using a by simp
    with port' [OF 4(2)] show thesis using port 4(2) by blast
  next
    case 5
    then have "IS_CPS_MC_PORT x \<and> y = RIO_RTV_MC_MSK (ucast (IS_CPS_MC_MASK_NO x))" using a by (simp split: if_splits)
    with mc' show thesis using mc by blast
  qed (use a dflt drop group in simp_all)
qed

lemma cps_read_mask_ok:
  assumes d: "plain_dev d" and st: "cps_partly d 0 0 (fst st) \<and> dev_info (snd st) = d" and run: "cps_read_mask P pnum i st = (RIO_SUCCESS, imp, st')"
  shows "cps_partly d 0 0 (fst st') \<and> dev_info (snd st') = d"
proof -
  obtain rt s where e: "st = (rt, s)" by (cases st)
  obtain rc x s1 where r: "DARRegRead P (CPS1848_PORT_X_MCAST_MASK_Y pnum (of_nat i)) s = (rc, x, s1)" by (cases rule: prod_cases3)
  have s1: "dev_info s1 = d" using plain_read [OF _ r] d st e by simp
  have m: "(x AND cps_ports d) AND NOT (cps_ports d) = 0" by (rule bit_word_eqI) (auto simp: bit_simps)
  define mc where "mc = \<lparr>mc_destID = 0, mc_tt = tt_dev8, mc_mask = x AND cps_ports d, in_use = False, allocd = False, mc_changed = False\<rparr>"
  have mc: "mc_mask mc AND NOT (cps_ports d) = 0" using m by (simp add: mc_def)
  have "st' = (rt\<lparr>mc_masks := (mc_masks rt)[i := mc]\<rparr>, s1)"
    using run st by (simp add: cps_read_mask_def e r cps_ports_def mc_def Let_def split: if_splits)
  moreover have "\<forall>j<256. mc_mask ((mc_masks rt)[i := mc] ! j) AND NOT (cps_ports d) = 0"
    using mc st e by (simp add: cps_partly_def nth_upd)
  ultimately show ?thesis using st s1 by (simp add: e cps_partly_def)
qed

lemma cps_read_masks_ok:
  assumes d: "plain_dev d" and wf: "cps_rt_wf d rt" and s: "dev_info s = d" and run: "cps_read_mc_masks P pnum (rt, s) = (RIO_SUCCESS, imp, rt', s')"
  shows "cps_partly d 0 0 rt'" "dev_info s' = d"
proof -
  let ?n = "unat (NUM_CPS_MC_MASKS d)"
  obtain rc1 imp1 st1 where r: "for_each release_mask [?n..<256] (rt, s) = (rc1, imp1, st1)" by (cases rule: prod_cases3)
  have rel: "cps_ok d (snd (snd (release_mask k st)))" if "cps_ok d st" for k and st :: "rio_rt_state_t \<times> 'a dev"
  proof -
    have "RIO_RTV_MC_MSK (of_nat k) \<le> 0x3FF \<or> \<not> RIO_RTV_IS_MC_MSK (RIO_RTV_MC_MSK (of_nat k))"
    proof (cases "(of_nat k :: u32) AND NOT 0xFF = 0")
      case True
      then have "(of_nat k :: u32) = of_nat k AND 0xFF" by (metis and_within)
      then have "unat (of_nat k :: u32) < 256" by (metis idx_less)
      then show ?thesis by (simp add: RIO_RTV_MC_MSK_def byte_high(2) word_le_nat_alt unat_word_ariths)
    qed (simp add: RIO_RTV_MC_MSK_def RIO_RTV_IS_MC_MSK_def)
    then show ?thesis using that cps_wf_release [of d "fst st" "RIO_RTV_MC_MSK (of_nat k)"]
      by (auto simp: release_mask_def dealloc_cases cps_ok_def)
  qed
  have "cps_ok d (snd (snd (for_each release_mask [?n..<256] (rt, s))))"
    by (rule for_each_keeps [of "cps_ok d", OF rel]) (use wf s in \<open>simp_all add: cps_ok_def\<close>)
  then have st1: "cps_partly d 0 0 (fst st1) \<and> dev_info (snd st1) = d"
    using cps_partly_less [of d 256 256 "fst st1" 0 0] by (simp add: r cps_ok_def cps_partly_all)
  have loop: "for_each (cps_read_mask P pnum) [0..<?n] st1 = (RIO_SUCCESS, imp, rt', s')"
    using run r by (simp add: cps_read_mc_masks_def s Let_def split: if_splits)
  have "cps_partly d 0 0 (fst (rt', s')) \<and> dev_info (snd (rt', s')) = d"
    by (rule for_each_success [where J = "\<lambda>_ st. cps_partly d 0 0 (fst st) \<and> dev_info (snd st) = d", OF _ loop])
      (use st1 cps_read_mask_ok [OF d] in \<open>simp_all\<close>)
  then show "cps_partly d 0 0 rt'" "dev_info s' = d" by simp_all
qed

lemma cps_read_dom_ok:
  assumes d: "plain_dev d" and i: "1 \<le> i" "i < 256" and st: "cps_partly d i 0 (snd (fst st)) \<and> dev_info (snd st) = d"
    and run: "cps_read_dom P pnum i st = (RIO_SUCCESS, imp, st')"
  shows "cps_partly d (Suc i) 0 (snd (fst st')) \<and> dev_info (snd st') = d"
proof -
  obtain f rt s where e: "st = ((f, rt), s)" by (metis prod.exhaust)
  obtain rc x s1 where r: "DARRegRead P (CPS1848_PORT_X_DOM_RTE_TABLE_Y pnum (of_nat i)) s = (rc, x, s1)" by (cases rule: prod_cases3)
  have s1: "dev_info s1 = d" using plain_read [OF _ r] d st e by simp
  obtain y where y: "cps_rte_translate_CPS_to_std d (x AND 0xFF) = Some y"
    using run s1 by (cases "cps_rte_translate_CPS_to_std d (x AND 0xFF)") (simp_all add: cps_read_dom_def e r Let_def split: if_splits)
  let ?z = "if y \<noteq> 0x200 \<and> y \<noteq> 0x301 \<and> y \<noteq> 0x300 \<and> ucast (NUM_CPS_PORTS d) \<le> y then 0x300 else y"
  have st': "snd (fst st') = store_entry True i \<lparr>rte_val = ?z, uc_changed = False\<rparr> rt \<and> snd st' = s1"
    using run s1 y by (auto simp: cps_read_dom_def e r Let_def split: if_splits)
  have "cps_entry_ok d (mc_masks rt) True ?z" by (auto simp: cps_entry_ok_def not_le)
  then show ?thesis using st' s1 st i cps_partly_dom [of d i 0 rt] by (simp add: e)
qed

lemma cps_read_dev_ok:
  assumes d: "plain_dev d" "40 \<le> NUM_MC_MASKS d" and i: "i < 256" and st: "cps_partly d 256 i (fst st) \<and> dev_info (snd st) = d"
    and run: "cps_read_dev P pnum fd i st = (RIO_SUCCESS, imp, st')"
  shows "cps_partly d 256 (Suc i) (fst st') \<and> dev_info (snd st') = d"
proof -
  obtain rt s where e: "st = (rt, s)" by (cases st)
  obtain rc x s1 where r: "DARRegRead P (CPS1848_PORT_X_DEV_RTE_TABLE_Y pnum (of_nat i)) s = (rc, x, s1)" by (cases rule: prod_cases3)
  have s1: "dev_info s1 = d" using plain_read [OF _ r] d st e by simp
  obtain y where y: "cps_rte_translate_CPS_to_std d (x AND 0xFF) = Some y"
    using run s1 by (cases "cps_rte_translate_CPS_to_std d (x AND 0xFF)") (simp_all add: cps_read_dev_def e r Let_def split: if_splits)
  let ?k = "unat (y AND 0xFF)"
  let ?rt1 = "if RIO_RTV_IS_MC_MSK y \<and> \<not> in_use (mc_masks rt ! ?k)
    then rt\<lparr>mc_masks := (mc_masks rt)[?k := (mc_masks rt ! ?k)\<lparr>mc_tt := tt_dev16, in_use := True, mc_destID := fd + of_nat i\<rparr>]\<rparr> else rt"
  let ?z = "if ucast (NUM_CPS_PORTS d) \<le> y \<and> \<not> RIO_RTV_IS_MC_MSK y \<and> y \<noteq> 0x300 \<and> y \<noteq> 0x301 then 0x300 else y"
  have bad: "RIO_RTV_GET_MC_MSK y = 0x0FFFFFFF \<longleftrightarrow> \<not> RIO_RTV_IS_MC_MSK y" "RIO_RTV_IS_MC_MSK y \<Longrightarrow> unat (RIO_RTV_GET_MC_MSK y) = ?k"
    using idx_less [of y] by (auto simp: RIO_RTV_GET_MC_MSK_def simp del: idx_less)
  have st': "st' = (store_entry False i \<lparr>rte_val = ?z, uc_changed = False\<rparr> ?rt1, s1)"
    using run s1 y by (cases "RIO_RTV_IS_MC_MSK y"; cases "in_use (mc_masks rt ! ?k)") (auto simp: cps_read_dev_def e r bad Let_def split: if_splits)
  have p1: "cps_partly d 256 i ?rt1" using st e cps_partly_use [of d 256 i rt _ ?k] by simp
  have n: "NUM_CPS_MC_MASKS d = 40" using d(2) by (auto simp: NUM_CPS_MC_MASKS_def)
  have "cps_entry_ok d (mc_masks ?rt1) False ?z"
  proof (cases "RIO_RTV_IS_MC_MSK y")
    case True
    have "256 \<le> unat y \<and> unat y - 256 < 40" using y
      by (cases rule: CPS_to_std_cases) (use True in \<open>auto simp: rtv_types\<close>)
    then obtain m where "unat y = 256 + m" "m < 40" using le_add_diff_inverse [of 256 "unat y"] by metis
    then have "y \<le> 0x3FF \<and> ?k < 40" by (simp add: rtv_index word_le_nat_alt)
    then show ?thesis using True st by (simp add: cps_entry_ok_def n e cps_partly_def)
  qed (auto simp: cps_entry_ok_def not_le)
  then show ?thesis using st' s1 cps_partly_dev [OF p1 i] by simp
qed

lemma cps_read_entries_ok:
  assumes d: "plain_dev d" "40 \<le> NUM_MC_MASKS d" and st: "cps_partly d 0 0 rt" "dev_info s = d"
    and run: "cps_read_rte_entries P pnum (rt, s) = (RIO_SUCCESS, imp, rt', s')"
  shows "cps_rt_wf d rt'" "dev_info s' = d"
proof -
  obtain rc x s1 where r: "DARRegRead P 0x78 s = (rc, x, s1)" by (cases rule: prod_cases3)
  have s1: "dev_info s1 = d" using plain_read [OF _ r] d(1) st(2) by simp
  let ?rt2 = "store_entry True 0 \<lparr>rte_val = 0x200, uc_changed = False\<rparr>
    (rt\<lparr>default_route := if x AND 0xFF \<ge> ucast (NUM_CPS_PORTS d) then 0x300 else x AND 0xFF\<rparr>)"
  obtain rc2 imp2 f rt3 s2 where l: "for_each (cps_read_dom P pnum) [1..<256] ((None, ?rt2), s1) = (rc2, imp2, (f, rt3), s2)"
    by (metis prod.exhaust)
  have rc: "rc = RIO_SUCCESS" "rc2 = RIO_SUCCESS"
    and l2: "for_each (cps_read_dev P pnum (case f of None \<Rightarrow> 0 | Some did \<Rightarrow> did)) [0..<256] (rt3, s2) = (RIO_SUCCESS, imp, rt', s')"
    using run l s1 by (auto simp: cps_read_rte_entries_def r Let_def split: if_splits)
  have p: "cps_partly d 1 0 ?rt2" using st(1) by (auto simp: cps_partly_def store_entry_def not_le nth_upd)
  have "cps_partly d 256 0 (snd (fst ((f, rt3), s2))) \<and> dev_info (snd ((f, rt3), s2)) = d"
    by (rule for_each_success [where J = "\<lambda>k st. cps_partly d k 0 (snd (fst st)) \<and> dev_info (snd st) = d", OF _ l [unfolded rc(2)]])
      (use p s1 cps_read_dom_ok [OF d(1)] in simp_all)
  then have 3: "cps_partly d 256 0 (fst (rt3, s2)) \<and> dev_info (snd (rt3, s2)) = d" by simp
  have "cps_partly d 256 256 (fst (rt', s')) \<and> dev_info (snd (rt', s')) = d"
    by (rule for_each_success [where J = "\<lambda>l st. cps_partly d 256 l (fst st) \<and> dev_info (snd st) = d", OF _ l2])
      (use 3 cps_read_dev_ok [OF d] in simp_all)
  then show "cps_rt_wf d rt'" "dev_info s' = d" by (simp_all add: cps_partly_all)
qed

lemma cps_probe_all_ok:
  assumes d: "plain_dev d" "40 \<le> NUM_MC_MASKS d" and st: "cps_rt_wf d rt" "dev_info s = d"
    and run: "CPS_rio_rt_probe_all P port (Some rt) s = (RIO_SUCCESS, imp, Some rt', s')"
  shows "cps_rt_wf d rt'" "dev_info s' = d"
proof -
  let ?p = "if port = RIO_ALL_PORTS then 0 else port"
  obtain rc1 imp1 rt1 s1 where m: "cps_read_mc_masks P ?p (rt, s) = (rc1, imp1, rt1, s1)" by (cases rule: prod_cases4)
  obtain rc2 imp2 rt2 s2 where e: "cps_read_rte_entries P ?p (rt1, s1) = (rc2, imp2, rt2, s2)" by (cases rule: prod_cases4)
  have c: "rc1 = RIO_SUCCESS" "rc2 = RIO_SUCCESS" "rt' = rt2" "s' = s2"
    using run m e by (auto simp: CPS_rio_rt_probe_all_def Let_def split: if_splits)
  note 1 = cps_read_masks_ok [OF d(1) st m [unfolded c(1)]]
  show "cps_rt_wf d rt'" "dev_info s' = d" using cps_read_entries_ok [OF d 1 e [unfolded c(2)]] c by simp_all
qed

section \<open>Reachable states\<close>

text \<open>
  The steps of a program that uses the driver: it starts with an initialisation that succeeds, or with the tables that a device had, and then allocates, releases and
  changes masks, changes entries, programs the device and reads it, with any success. A reading that fails leaves a state
  of which nothing is claimed. Routing values given for masks have no implementation specific bits.
\<close>

inductive cps_rt_step :: "'h host \<Rightarrow> rio_rt_state_t \<times> 'h dev \<Rightarrow> rio_rt_state_t \<times> 'h dev \<Rightarrow> bool" for P where
  alloc: "DSF_rio_rt_alloc_mc_mask (dev_info s) (Some rt) = (rc, imp, v, Some rt') \<Longrightarrow> cps_rt_step P (rt, s) (rt', s)"
| dealloc: "DSF_rio_rt_dealloc_mc_mask rte (Some rt) = (rc, imp, Some rt') \<Longrightarrow> rte \<le> RIO_RTE_VAL \<Longrightarrow> cps_rt_step P (rt, s) (rt', s)"
| change_rte: "CPS_rio_rt_change_rte (dev_info s) p (Some rt) = (rc, imp, Some rt') \<Longrightarrow> cps_rt_step P (rt, s) (rt', s)"
| change_mc_mask: "CPS_rio_rt_change_mc_mask (dev_info s) q (Some rt) = (rc, imp, Some rt') \<Longrightarrow> mc_mask_rte q \<le> RIO_RTE_VAL \<Longrightarrow>
    cps_rt_step P (rt, s) (rt', s)"
| set_all: "CPS_rio_rt_set_all P port (Some rt) s = (rc, imp, Some rt', s') \<Longrightarrow> cps_rt_step P (rt, s) (rt', s')"
| set_changed: "CPS_rio_rt_set_changed P port (Some rt) s = (rc, imp, Some rt', s') \<Longrightarrow> cps_rt_step P (rt, s) (rt', s')"
| probe_all: "CPS_rio_rt_probe_all P port (Some rt) s = (RIO_SUCCESS, imp, Some rt', s') \<Longrightarrow> cps_rt_step P (rt, s) (rt', s')"

inductive_cases cps_rt_stepE: "cps_rt_step P (rt, s) (rt', s')"

inductive cps_rt_reachable :: "'h host \<Rightarrow> rio_rt_state_t \<times> 'h dev \<Rightarrow> bool" for P where
  initialize: "CPS_rio_rt_initialize P p (Some rt0) s = (RIO_SUCCESS, imp, Some rt, s') \<Longrightarrow> plain_dev (dev_info s) \<Longrightarrow>
    40 \<le> NUM_MC_MASKS (dev_info s) \<Longrightarrow> cps_rt_reachable P (rt, s')"
| step: "cps_rt_reachable P st \<Longrightarrow> cps_rt_step P st st' \<Longrightarrow> cps_rt_reachable P st'"

definition cps_inv :: "rio_rt_state_t \<times> 'h dev \<Rightarrow> bool" where
  "cps_inv st \<longleftrightarrow> plain_dev (dev_info (snd st)) \<and> 40 \<le> NUM_MC_MASKS (dev_info (snd st)) \<and> cps_rt_wf (dev_info (snd st)) (fst st)"

lemma cps_inv_step:
  assumes "cps_rt_step P st st'" "cps_inv st"
  shows "cps_inv st'"
proof -
  obtain rt s rt' s' where e: "st = (rt, s)" "st' = (rt', s')" by (metis prod.exhaust)
  have d: "plain_dev (dev_info s)" "40 \<le> NUM_MC_MASKS (dev_info s)" and wf: "cps_rt_wf (dev_info s) rt" using assms(2) by (simp_all add: cps_inv_def e)
  note alloc = cps_wf_alloc [OF wf] and release = cps_wf_dealloc [OF wf] and change = cps_wf_change_rte [OF wf] cps_wf_change_mc_mask [OF wf]
    and set = cps_set_common_keeps [OF d(1) wf refl, where set_all = True, folded CPS_rio_rt_set_all_def]
      cps_set_common_keeps [OF d(1) wf refl, where set_all = False, folded CPS_rio_rt_set_changed_def]
    and probe = cps_probe_all_ok [OF d wf refl]
  have "cps_rt_wf (dev_info s) rt' \<and> dev_info s' = dev_info s"
    using assms(1) unfolding e by (cases rule: cps_rt_stepE) (blast dest: alloc release change set probe)+
  then show ?thesis using d by (simp add: cps_inv_def e)
qed

lemma cps_reachable_inv: "cps_rt_reachable P st \<Longrightarrow> cps_inv st"
proof (induction rule: cps_rt_reachable.induct)
  case (initialize p rt0 s imp rt s')
  note k = cps_initialize_keeps [OF initialize(2) refl initialize(1)]
  then show ?case using initialize(2,3) by (simp add: cps_inv_def)
next
  case (step st st')
  then show ?case using cps_inv_step by blast
qed

section \<open>Example\<close>

text \<open>A CPS1848 with 18 ports and 40 masks; mask 0 is set up for identifier \<open>0x0611\<close>.\<close>

definition cps_dev :: DAR_DEV_INFO_t where
  "cps_dev = dev_zero\<lparr>driver_family := RIO_CPS_DEVICE, dsf_h := 0x00380000, devID := 0x03740038, features := 0x10000000,
     swPortInfo := 0x1200, swRtInfo := 0xFFFF, swMcastInfo := 0x28\<rparr>"

definition cps_init :: rio_rt_initialize_in_t where
  "cps_init = \<lparr>set_on_port = RIO_ALL_PORTS, init_default_route = 2, default_route_table_port = RIO_RTE_DFLT_PORT, update_hw = False\<rparr>"

definition cps_mc :: rio_rt_change_mc_mask_in_t where
  "cps_mc = \<lparr>mc_mask_rte = 0x100,
     mc_info = \<lparr>mc_destID = 0x0611, mc_tt = tt_dev16, mc_mask = 0x0E, in_use = True, allocd = True, mc_changed = False\<rparr>\<rparr>"

definition cps_dev0 :: "(u32 \<Rightarrow> u32) dev" where
  "cps_dev0 = \<lparr>dev_info = cps_dev, hw = \<lambda>_. 0\<rparr>"

lemma cps_dev_facts:
  "plain_dev cps_dev" "NUM_PORTS cps_dev = 18" "NUM_CPS_PORTS cps_dev = 18" "NUM_MC_MASKS cps_dev = 40" "NUM_CPS_MC_MASKS cps_dev = 40"
  "dev_info cps_dev0 = cps_dev"
  by (simp_all add: cps_dev0_def cps_dev_def plain_dev_def plain_family_def VALIDATE_DEV_INFO_def NUM_PORTS_def NUM_CPS_PORTS_def NUM_MC_MASKS_def NUM_CPS_MC_MASKS_def dev_zero_def)

lemma cps_example_reachable:
  "cps_rt_reachable P (cps_rt_initial 2 RIO_RTE_DFLT_PORT, cps_dev0)"
proof -
  have "CPS_rio_rt_initialize P cps_init (Some rt0) cps_dev0 = (RIO_SUCCESS, RIO_SUCCESS, Some (cps_rt_initial 2 RIO_RTE_DFLT_PORT), cps_dev0)" for rt0
    by (simp add: CPS_rio_rt_initialize_def cps_init_def cps_dev_facts Let_def)
  then show ?thesis by (rule cps_rt_reachable.initialize) (simp_all add: cps_dev_facts)
qed

definition cps_rt2 :: rio_rt_state_t where
  "cps_rt2 = cps_mask_set cps_dev (mc_info cps_mc) 0 (set_entry False 0x11 0x100 (cps_mask_marked (mc_info cps_mc) 0 (cps_rt_initial 2 RIO_RTE_DFLT_PORT)))"

lemma cps_example_run:
  "CPS_rio_rt_change_mc_mask cps_dev cps_mc (Some (cps_rt_initial 2 RIO_RTE_DFLT_PORT)) = (RIO_SUCCESS, RIO_SUCCESS, Some cps_rt2)"
proof -
  let ?rt = "cps_mask_marked (mc_info cps_mc) 0 (cps_rt_initial 2 0x301)"
  have ok: "\<not> cps_mc_info_bad (mc_info cps_mc)" "in_use (mc_info cps_mc)" "mc_mask_rte cps_mc = 0x100" "dev_index (mc_destID (mc_info cps_mc)) = 0x11"
    by (simp_all add: cps_mc_def cps_mc_info_bad_def dev_index_def)
  have idx: "(ucast (RIO_RTV_GET_MC_MSK 0x100) :: u8) = 0" by (simp add: RIO_RTV_GET_MC_MSK_def RIO_RTV_IS_MC_MSK_def)
  have e: "rte_val (dev_table ?rt ! 0x11) = 0x301"
    by (simp add: cps_mask_marked_def set_entry_def cps_rt_initial_def Let_def)
  have "cps_route_entry 0x11 0x100 ?rt = (RIO_SUCCESS, RIO_SUCCESS, set_entry False 0x11 0x100 ?rt)"
    by (simp add: cps_route_entry_def e cps_tidy_routing_table_def RIO_RTV_IS_MC_MSK_def)
  then show ?thesis using ok
    by (simp add: CPS_rio_rt_change_mc_mask_def idx cps_dev_facts cps_rt2_def Let_def)
qed

section \<open>Properties\<close>

text \<open>
  Every state that the functions of the CPS driver build from a successful initialisation is well formed, whatever the registers of the device return: the
  tables keep their sizes, domain 0 uses the device table, every entry is a port of the device, the default route or a discard, in the domain table possibly
  the device table and in the device table possibly a mask of the device that is in use, the default route is a port or a discard, and no mask
  selects a port that the device does not have. The steps include programming and reading the device; a programming that fails half way
  keeps the state well formed.
\<close>

theorem cps_reachable_wf:
  assumes "cps_rt_reachable P (rt, s)"
  shows "cps_rt_wf (dev_info s) rt"
  using cps_reachable_inv [OF assms] by (simp add: cps_inv_def)

theorem cps_reachable_wf_witness:
  "CPS_rio_rt_change_mc_mask cps_dev cps_mc (Some (cps_rt_initial 2 RIO_RTE_DFLT_PORT)) = (RIO_SUCCESS, RIO_SUCCESS, Some cps_rt2) \<and>
   rte_val (dev_table cps_rt2 ! 0x11) = 0x100 \<and> rte_val (dom_table cps_rt2 ! 6) = RIO_RTE_LVL_G0 \<and> cps_rt_wf cps_dev cps_rt2"
proof -
  have "cps_rt_step mem_host (cps_rt_initial 2 RIO_RTE_DFLT_PORT, cps_dev0) (cps_rt2, cps_dev0)"
    by (rule cps_rt_step.change_mc_mask [of cps_dev0 cps_mc]) (use cps_example_run in \<open>simp_all add: cps_dev_facts cps_mc_def\<close>)
  then have "cps_rt_reachable mem_host (cps_rt2, cps_dev0)" by (rule cps_rt_reachable.step [OF cps_example_reachable])
  moreover have "rte_val (dev_table cps_rt2 ! 0x11) = 0x100" "rte_val (dom_table cps_rt2 ! 6) = 0x200"
    by (simp_all add: cps_rt2_def cps_mask_set_def cps_mask_marked_def cps_mc_def dom_index_def set_entry_def cps_rt_initial_def Let_def)
  ultimately show ?thesis using cps_example_run cps_reachable_wf [of mem_host cps_rt2 cps_dev0] by (simp add: cps_dev_facts)
qed

end
