(* ===== verification/Cps_Hw.thy ===== *)
theory Cps_Hw
  imports Cps_Inv
begin

unbundle bit_operations_syntax

text \<open>
  What programming and reading the routing tables of a CPS switch do, where its registers behave as they are described: the locale \<open>cps_tables\<close>. The theorems say that
  the tables of the switch stand for those of the state afterwards, and that reading them back gives the same tables.
\<close>

section \<open>Translation of routing values\<close>

lemma std_to_CPS_mc:
  assumes "RIO_RTV_IS_MC_MSK v" "v \<le> 0x3FF" "unat (v AND 0xFF) < 40"
  shows "cps_rte_translate_std_to_CPS d v = Some (of_nat (0x40 + unat (v AND 0xFF)))"
proof -
  let ?m = "v AND 0xFF"
  have ne: "v \<noteq> 0x200" "v \<noteq> 0x300" "v \<noteq> 0x301" "\<not> RIO_RTV_IS_PORT v" using assms(1) by (auto simp: RIO_RTV_IS_MC_MSK_def RIO_RTV_IS_PORT_def)
  have m: "RIO_RTV_GET_MC_MSK v = ?m" "?m < 40" using assms by (simp_all add: RIO_RTV_GET_MC_MSK_def word_less_nat_alt)
  have "unat (ucast (CPS_MC_PORT ?m) :: u32) = 0x40 + unat ?m"
    using assms(3) by (simp add: CPS_MC_PORT_def unsigned_ucast_eq unsigned_take_bit_eq unat_word_ariths take_bit_nat_eq_self)
  then have c: "ucast (CPS_MC_PORT ?m) = (of_nat (0x40 + unat ?m) :: u32)"
    using assms(3) by (simp add: word_unat_eq_iff unsigned_of_nat take_bit_nat_eq_self del: of_nat_add)
  show ?thesis unfolding cps_rte_translate_std_to_CPS_def using ne m assms(1) rtv_small(2) [OF assms(2)] c by simp
qed

lemma std_to_CPS_port:
  assumes "v < ucast (NUM_CPS_PORTS d)" "NUM_PORTS d \<le> 18"
  shows "cps_rte_translate_std_to_CPS d v = Some v" "cps_rte_translate_CPS_to_std d v = Some v" "v \<le> 0xFF" "v AND 0xFF = v"
proof -
  note p = cps_port_value [OF assms(1)]
  have u: "unat (v AND 0xFF) = unat v" using p(1) by (simp add: rtv_index)
  then show a: "v AND 0xFF = v" by (simp add: word_unat_eq_iff)
  have n: "v < ucast (NUM_PORTS d)" using assms by (simp add: NUM_CPS_PORTS_def split: if_splits)
  have port: "RIO_RTV_IS_PORT v" using p(1) by (simp add: rtv_types)
  then have get: "RIO_RTV_GET_PORT v = v" by (simp add: RIO_RTV_GET_PORT_def a)
  show "cps_rte_translate_std_to_CPS d v = Some v" unfolding cps_rte_translate_std_to_CPS_def
    using p(3-5) rtv_small(2) [OF p(6)] port get n by simp
  have "v \<noteq> 0xDD" "v \<noteq> 0xDE" "v \<noteq> 0xDF" "unat v < 256" using p(1) by auto
  then show "cps_rte_translate_CPS_to_std d v = Some v" unfolding cps_rte_translate_CPS_to_std_def
    using n by (simp add: RIO_RTV_PORT_def byte_high)
  show "v \<le> 0xFF" using p(1) by (simp add: word_le_nat_alt)
qed

text \<open>Every entry of a well-formed table has a code, which is a byte and stands for the entry.\<close>

lemma translate_back:
  assumes "cps_entry_ok d ms is_dom v" "NUM_PORTS d \<le> 18"
  shows "\<exists>y. cps_rte_translate_std_to_CPS d v = Some y \<and> y \<le> 0xFF \<and> cps_rte_translate_CPS_to_std d (y AND 0xFF) = Some v"
proof -
  consider "v < ucast (NUM_CPS_PORTS d)" | "v \<in> {0x200, 0x300, 0x301}" | "RIO_RTV_IS_MC_MSK v" "v \<le> 0x3FF" "unat (v AND 0xFF) < 40"
    using assms(1) NUM_CPS_le(2) [of d] by (auto simp: cps_entry_ok_def split: if_splits)
  then show ?thesis
  proof cases
    case 1
    then show ?thesis using std_to_CPS_port [OF 1 assms(2)] by simp
  next
    case 2
    then show ?thesis by (auto simp: cps_rte_translate_std_to_CPS_def cps_rte_translate_CPS_to_std_def)
  next
    case 3
    let ?y = "of_nat (0x40 + unat (v AND 0xFF)) :: u32"
    have y: "unat ?y = 0x40 + unat (v AND 0xFF)" using 3(3) by (simp add: unsigned_of_nat take_bit_nat_eq_self del: of_nat_add)
    have a: "?y AND 0xFF = ?y" using y 3(3) by (simp add: word_unat_eq_iff rtv_index del: of_nat_add)
    have "unat (NUM_PORTS d) \<le> 18" using assms(2) by (simp add: word_le_nat_alt)
    then have n: "\<not> ?y < ucast (NUM_PORTS d)" using y by (simp add: word_less_nat_alt unsigned_ucast_eq take_bit_nat_eq_self del: of_nat_add)
    have ne: "?y \<noteq> 0xDD" "?y \<noteq> 0xDE" "?y \<noteq> 0xDF" using y 3(3) by (auto simp del: of_nat_add)
    have mc: "IS_CPS_MC_PORT ?y" using y 3(3) by (simp add: IS_CPS_MC_PORT_def word_le_nat_alt word_less_nat_alt del: of_nat_add)
    obtain w where w: "cps_rte_translate_CPS_to_std d ?y = Some w"
      using ne n mc by (simp add: cps_rte_translate_CPS_to_std_def del: of_nat_add)
    from w have "unat w = 256 + unat (v AND 0xFF)"
      by (cases rule: CPS_to_std_cases) (use ne n y in \<open>simp_all del: of_nat_add\<close>)
    then have "w = v" using mc_value [OF 3(1,2)] by (simp add: word_unat_eq_iff)
    then have "cps_rte_translate_CPS_to_std d (?y AND 0xFF) = Some v" using w a by (simp del: of_nat_add)
    moreover have "?y \<le> 0xFF" using y 3(3) by (simp add: word_le_nat_alt del: of_nat_add)
    ultimately show ?thesis using std_to_CPS_mc [OF 3, of d] by blast
  qed
qed

section \<open>What the switch does\<close>

text \<open>
  Each port has a domain table \<open>L1\<close>, a device table \<open>L2\<close> and masks \<open>MC\<close>. A register of a port is written alone or, by a broadcast, together with those of every other port.
\<close>

type_synonym cps_view = "rt_table \<Rightarrow> nat \<Rightarrow> nat \<Rightarrow> u32"

fun cps_size :: "rt_table \<Rightarrow> nat" where
  "cps_size MC = 40"
| "cps_size _ = 256"

fun cps_reg :: "rt_table \<Rightarrow> u8 \<Rightarrow> nat \<Rightarrow> u32" where
  "cps_reg L1 p i = CPS1848_PORT_X_DOM_RTE_TABLE_Y p (of_nat i)"
| "cps_reg L2 p i = CPS1848_PORT_X_DEV_RTE_TABLE_Y p (of_nat i)"
| "cps_reg MC p i = CPS1848_PORT_X_MCAST_MASK_Y p (of_nat i)"

fun cps_base :: "rt_table \<Rightarrow> u8 \<Rightarrow> u32" where
  "cps_base L1 port = (if port = RIO_ALL_PORTS then CPS1848_BCAST_DOM_RTE_TABLE_X 0 else CPS1848_PORT_X_DOM_RTE_TABLE_Y port 0)"
| "cps_base L2 port = (if port = RIO_ALL_PORTS then CPS1848_BCAST_DEV_RTE_TABLE_X 0 else CPS1848_PORT_X_DEV_RTE_TABLE_Y port 0)"
| "cps_base MC port = (if port = RIO_ALL_PORTS then CPS1848_BCAST_MCAST_MASK_X 0 else CPS1848_PORT_X_MCAST_MASK_Y port 0)"

declare cps_reg.simps [simp del] cps_base.simps [simp del]

definition cps_ports_of :: "u8 \<Rightarrow> nat set" where
  "cps_ports_of port = (if port = RIO_ALL_PORTS then {0..<18} else {unat port})"

definition cps_port_ok :: "u8 \<Rightarrow> bool" where
  "cps_port_ok port \<longleftrightarrow> port = RIO_ALL_PORTS \<or> unat port < 18"

text \<open>The tables after the first \<open>k\<close> entries of one of them have been written.\<close>

definition cps_written :: "rt_table \<Rightarrow> u8 \<Rightarrow> (nat \<Rightarrow> u32) \<Rightarrow> nat \<Rightarrow> cps_view \<Rightarrow> cps_view" where
  "cps_written tab port f k t = (\<lambda>tab' p j. if tab' = tab \<and> p \<in> cps_ports_of port \<and> j < k then f j else t tab' p j)"

definition cps_upd :: "rt_table \<Rightarrow> u8 \<Rightarrow> nat \<Rightarrow> u32 \<Rightarrow> cps_view \<Rightarrow> cps_view" where
  "cps_upd tab port i x t = (\<lambda>tab' p j. if tab' = tab \<and> p \<in> cps_ports_of port \<and> j = i then x else t tab' p j)"

definition cps_fits :: "u32 \<Rightarrow> rt_table \<Rightarrow> u32 \<Rightarrow> bool" where
  "cps_fits mm tab x \<longleftrightarrow> (if tab = MC then x AND NOT mm = 0 else x \<le> 0xFF)"

text \<open>
  The registers hold the tables \<open>v\<close> and the default route \<open>dflt\<close>: they can be read without an effect, and a write of a byte, or of a mask of the ports in \<open>mm\<close>, is
  stored. The domain register and the port operation registers are none of the tables.
\<close>

locale cps_tables = register_access P rd wr
  for P :: "'h host" and rd :: "DAR_DEV_INFO_t \<Rightarrow> u32 \<Rightarrow> 'h \<Rightarrow> u32 \<times> u32 \<times> 'h" and wr :: "DAR_DEV_INFO_t \<Rightarrow> u32 \<Rightarrow> u32 \<Rightarrow> 'h \<Rightarrow> u32 \<times> 'h" +
  fixes v :: "'h \<Rightarrow> cps_view" and dflt :: "'h \<Rightarrow> u32" and mm :: u32
  assumes read_table: "unat p < 18 \<Longrightarrow> i < cps_size tab \<Longrightarrow> rd d (cps_reg tab p i) h = (RIO_SUCCESS, v h tab (unat p) i, h)"
    and read_default: "rd d CPS1848_RTE_DEFAULT_PORT_CSR h = (RIO_SUCCESS, dflt h, h)"
    and write_default: "x \<le> 0xFF \<Longrightarrow> wr d CPS1848_RTE_DEFAULT_PORT_CSR x h = (rc, h') \<Longrightarrow> rc = RIO_SUCCESS \<and> v h' = v h \<and> dflt h' = x"
    and write_domain: "wr d CPS1848_RIO_DOMAIN 0 h = (rc, h') \<Longrightarrow> rc = RIO_SUCCESS \<and> v h' = v h \<and> dflt h' = dflt h"
    and write_table: "cps_fits mm tab x \<Longrightarrow> i < cps_size tab \<Longrightarrow> port = RIO_ALL_PORTS \<or> unat port < 18 \<Longrightarrow>
      wr d (cps_base tab port + 4 * of_nat i) x h = (rc, h') \<Longrightarrow> rc = RIO_SUCCESS \<and> v h' = cps_upd tab port i x (v h) \<and> dflt h' = dflt h"
    and read_ops: "unat p < 18 \<Longrightarrow> rd d (CPS1848_PORT_X_OPS p) h = (rc, x, h') \<Longrightarrow> rc = RIO_SUCCESS \<and> h' = h"
    and write_ops: "unat p < 18 \<Longrightarrow> wr d (CPS1848_PORT_X_OPS p) x h = (rc, h') \<Longrightarrow> rc = RIO_SUCCESS \<and> v h' = v h \<and> dflt h' = dflt h"

section \<open>Programming\<close>

lemma cps_written_simps:
  "cps_written tab port f 0 t = t" "cps_upd tab port k (f k) (cps_written tab port f k t) = cps_written tab port f (Suc k) t"
  by (auto simp: cps_written_def cps_upd_def fun_eq_iff less_Suc_eq)

lemma cps_upd_id: "\<forall>p\<in>cps_ports_of port. t tab p i = x \<Longrightarrow> cps_upd tab port i x t = t"
  by (auto simp: cps_upd_def fun_eq_iff)

text \<open>The code of an entry, and the tables of a port that stand for those of a state.\<close>

definition cps_code :: "DAR_DEV_INFO_t \<Rightarrow> u32 \<Rightarrow> u32" where
  "cps_code d x = (case cps_rte_translate_std_to_CPS d x of None \<Rightarrow> 0 | Some y \<Rightarrow> y)"

definition cps_match :: "DAR_DEV_INFO_t \<Rightarrow> cps_view \<Rightarrow> rio_rt_state_t \<Rightarrow> nat \<Rightarrow> bool" where
  "cps_match d t rt p \<longleftrightarrow>
     (\<forall>i<RIO_RT_GRP_SZ. cps_rte_translate_std_to_CPS d (rte_val (dom_table rt ! i)) = Some (t L1 p i) \<and>
        cps_rte_translate_std_to_CPS d (rte_val (dev_table rt ! i)) = Some (t L2 p i)) \<and>
     (\<forall>i<unat (NUM_CPS_MC_MASKS d). t MC p i = mc_mask (mc_masks rt ! i))"

text \<open>The entries that are not marked as changed agree with the tables of the port.\<close>

definition cps_unmarked_match :: "DAR_DEV_INFO_t \<Rightarrow> cps_view \<Rightarrow> rio_rt_state_t \<Rightarrow> nat \<Rightarrow> bool" where
  "cps_unmarked_match d t rt p \<longleftrightarrow>
     (\<forall>i<RIO_RT_GRP_SZ. (uc_changed (dom_table rt ! i) \<or> cps_rte_translate_std_to_CPS d (rte_val (dom_table rt ! i)) = Some (t L1 p i)) \<and>
        (uc_changed (dev_table rt ! i) \<or> cps_rte_translate_std_to_CPS d (rte_val (dev_table rt ! i)) = Some (t L2 p i))) \<and>
     (\<forall>i<unat (NUM_CPS_MC_MASKS d). mc_changed (mc_masks rt ! i) \<or> t MC p i = mc_mask (mc_masks rt ! i))"

lemma cps_unmarked_matchD:
  assumes "cps_unmarked_match d t rt p" "i < 256"
  shows "uc_changed (dom_table rt ! i) \<or> cps_rte_translate_std_to_CPS d (rte_val (dom_table rt ! i)) = Some (t L1 p i)"
    "uc_changed (dev_table rt ! i) \<or> cps_rte_translate_std_to_CPS d (rte_val (dev_table rt ! i)) = Some (t L2 p i)"
  using assms by (simp_all add: cps_unmarked_match_def)

definition cps_unmarked :: "DAR_DEV_INFO_t \<Rightarrow> rio_rt_state_t \<Rightarrow> rio_rt_state_t" where
  "cps_unmarked d rt = rt\<lparr>dev_table := map (uc_changed_update (\<lambda>_. False)) (dev_table rt), dom_table := map (uc_changed_update (\<lambda>_. False)) (dom_table rt),
     mc_masks := first_done (mc_changed_update (\<lambda>_. False)) (unat (NUM_CPS_MC_MASKS d)) (mc_masks rt)\<rparr>"

definition cps_device :: "u32 \<Rightarrow> DAR_DEV_INFO_t \<Rightarrow> bool" where
  "cps_device mm d \<longleftrightarrow> plain_dev d \<and> NUM_PORTS d \<le> 18 \<and> cps_mask_mask d = mm \<and> cps_ports d AND NOT mm = 0"

lemma cps_code_ok:
  assumes "cps_entry_ok d ms is_dom x" "NUM_PORTS d \<le> 18"
  shows "cps_rte_translate_std_to_CPS d x = Some (cps_code d x)" "cps_code d x \<le> 0xFF" "cps_rte_translate_CPS_to_std d (cps_code d x AND 0xFF) = Some x"
  using translate_back [OF assms] by (auto simp: cps_code_def)

lemma mask_in_ports:
  fixes x p mm :: u32
  assumes "x AND NOT p = 0" "p AND NOT mm = 0"
  shows "x AND NOT mm = 0" "x AND mm = x"
proof -
  have "bit mm n" if "bit x n" for n using within_bit [OF assms(2) within_bit [OF assms(1) that]] .
  then show "x AND NOT mm = 0" by (intro bit_word_eqI) (auto simp: bit_simps)
  then show "x AND mm = x" by (simp only: and_within)
qed

lemma cps_wf_unmark_masks:
  assumes wf: "cps_rt_wf d rt"
  shows "cps_rt_wf d (rt\<lparr>mc_masks := first_done (mc_changed_update (\<lambda>_. False)) k (mc_masks rt)\<rparr>)"
proof -
  note w = cps_rt_wfD [OF wf]
  let ?ms = "first_done (mc_changed_update (\<lambda>_. False)) k (mc_masks rt)"
  have ok: "cps_entry_ok d ?ms is_dom x" if "cps_entry_ok d (mc_masks rt) is_dom x" for is_dom x
    using w(3) by (intro cps_entry_other [OF that]) (simp add: first_done_nth)
  show ?thesis by (rule cps_rt_wfI; use w in \<open>simp add: ok first_done_nth\<close>)
qed

lemma cps_port_range:
  assumes "port = RIO_ALL_PORTS \<or> port < NUM_CPS_PORTS d"
  shows "cps_port_ok port" "p \<in> cps_ports_of port \<Longrightarrow> p < 18"
  using assms NUM_CPS_le(1) [of d] by (auto simp: cps_port_ok_def cps_ports_of_def word_less_nat_alt split: if_splits)

context cps_tables
begin

lemma table_written:
  assumes "plain_dev (dev_info s)" "cps_fits mm tab x" "i < cps_size tab" "cps_port_ok port"
  shows "\<exists>h'. DARRegWrite P (cps_base tab port + 4 * of_nat i) x s = (RIO_SUCCESS, s\<lparr>hw := h'\<rparr>) \<and> v h' = cps_upd tab port i x (v (hw s)) \<and> dflt h' = dflt (hw s)"
proof -
  obtain rc h' where w: "wr (dev_info s) (cps_base tab port + 4 * of_nat i) x (hw s) = (rc, h')" by fastforce
  show ?thesis using write_table [OF assms(2,3) assms(4) [unfolded cps_port_ok_def] w] plain_write_ok [OF assms(1)] w by auto
qed

lemma default_written:
  assumes "plain_dev (dev_info s)" "x \<le> 0xFF"
  shows "\<exists>h'. DARRegWrite P 0x78 x s = (RIO_SUCCESS, s\<lparr>hw := h'\<rparr>) \<and> v h' = v (hw s) \<and> dflt h' = x"
proof -
  obtain rc h' where w: "wr (dev_info s) 0x78 x (hw s) = (rc, h')" by fastforce
  show ?thesis using write_default [OF assms(2) w] plain_write_ok [OF assms(1)] w by auto
qed

lemma domain_written:
  assumes "plain_dev (dev_info s)"
  shows "\<exists>h'. DARRegWrite P 0xF20020 0 s = (RIO_SUCCESS, s\<lparr>hw := h'\<rparr>) \<and> v h' = v (hw s) \<and> dflt h' = dflt (hw s)"
proof -
  obtain rc h' where w: "wr (dev_info s) 0xF20020 0 (hw s) = (rc, h')" by fastforce
  show ?thesis using write_domain [OF w] plain_write_ok [OF assms(1)] w by auto
qed

text \<open>One entry: it is written when it is to be, and is as the state has it afterwards in any case.\<close>

lemma mask_step:
  assumes dev: "plain_dev (dev_info s)" and port: "cps_port_ok port" and i: "i < 40" and m: "m = mc_masks rt ! i" "mc_mask m AND NOT mm = 0"
    and same: "set_all \<or> mc_changed m \<or> (\<forall>p\<in>cps_ports_of port. v (hw s) MC p i = mc_mask m)"
  shows "\<exists>h'. cps_program_mask P (cps_base MC port) mm set_all i (rt, s) =
      (RIO_SUCCESS, RIO_SUCCESS, rt\<lparr>mc_masks := (mc_masks rt)[i := m\<lparr>mc_changed := False\<rparr>]\<rparr>, s\<lparr>hw := h'\<rparr>) \<and>
    v h' = cps_upd MC port i (mc_mask m) (v (hw s)) \<and> dflt h' = dflt (hw s)"
proof (cases "mc_changed m \<or> set_all")
  case False
  have id: "m\<lparr>mc_changed := False\<rparr> = m" using False by (cases m) simp
  have rt: "rt\<lparr>mc_masks := (mc_masks rt)[i := m\<lparr>mc_changed := False\<rparr>]\<rparr> = rt" by (simp only: id) (simp add: m(1))
  have run: "cps_program_mask P (cps_base MC port) mm set_all i (rt, s) = (RIO_SUCCESS, RIO_SUCCESS, rt, s)" using False m(1) by (simp add: cps_program_mask_def)
  show ?thesis unfolding rt run using same False cps_upd_id [of port "v (hw s)" MC i] by (intro exI [of _ "hw s"]) simp
next
  case True
  have a: "mc_mask m AND mm = mc_mask m" using m(2) by (simp only: and_within)
  obtain h' where "DARRegWrite P (cps_base MC port + 4 * of_nat i) (mc_mask m) s = (RIO_SUCCESS, s\<lparr>hw := h'\<rparr>)"
      "v h' = cps_upd MC port i (mc_mask m) (v (hw s))" "dflt h' = dflt (hw s)"
    using table_written [OF dev _ _ port, of MC "mc_mask m" i] m(2) i by (auto simp: cps_fits_def)
  then show ?thesis using True m a unfolding cps_program_mask_def prod.case Let_def by (intro exI [of _ h']) simp
qed

lemma dom_step:
  assumes dev: "plain_dev (dev_info s)" "NUM_PORTS (dev_info s) \<le> 18" and port: "cps_port_ok port" and i: "i < 256"
    and u: "u = dom_table rt ! i" "cps_entry_ok (dev_info s) ms True (rte_val u)"
    and same: "set_all \<or> uc_changed u \<or> (\<forall>p\<in>cps_ports_of port. v (hw s) L1 p i = cps_code (dev_info s) (rte_val u))"
  shows "\<exists>h'. cps_program_dom P (cps_base L1 port) set_all i (rt, s) =
      (RIO_SUCCESS, RIO_SUCCESS, rt\<lparr>dom_table := (dom_table rt)[i := u\<lparr>uc_changed := False\<rparr>]\<rparr>, s\<lparr>hw := h'\<rparr>) \<and>
    v h' = cps_upd L1 port i (cps_code (dev_info s) (rte_val u)) (v (hw s)) \<and> dflt h' = dflt (hw s)"
proof (cases "uc_changed u \<or> set_all")
  case False
  have id: "u\<lparr>uc_changed := False\<rparr> = u" using False by (cases u) simp
  have rt: "rt\<lparr>dom_table := (dom_table rt)[i := u\<lparr>uc_changed := False\<rparr>]\<rparr> = rt" by (simp only: id) (simp add: u(1))
  have run: "cps_program_dom P (cps_base L1 port) set_all i (rt, s) = (RIO_SUCCESS, RIO_SUCCESS, rt, s)" using False u(1) by (simp add: cps_program_dom_def)
  show ?thesis unfolding rt run using same False cps_upd_id [of port "v (hw s)" L1 i] by (intro exI [of _ "hw s"]) simp
next
  case True
  note c = cps_code_ok [OF u(2) dev(2)]
  have guard: "\<not> (ucast (NUM_CPS_PORTS (dev_info s)) \<le> rte_val u \<and> rte_val u \<noteq> 0x200 \<and> rte_val u \<noteq> 0x301 \<and> rte_val u \<noteq> 0x300)"
    using u(2) by (auto simp: cps_entry_ok_def)
  obtain h' where "DARRegWrite P (cps_base L1 port + 4 * of_nat i) (cps_code (dev_info s) (rte_val u)) s = (RIO_SUCCESS, s\<lparr>hw := h'\<rparr>)"
      "v h' = cps_upd L1 port i (cps_code (dev_info s) (rte_val u)) (v (hw s))" "dflt h' = dflt (hw s)"
    using table_written [OF dev(1) _ _ port, of L1 "cps_code (dev_info s) (rte_val u)" i] c(2) i by (auto simp: cps_fits_def)
  then show ?thesis using True u(1) c(1) guard unfolding cps_program_dom_def prod.case Let_def by (intro exI [of _ h']) simp
qed

lemma dev_step:
  assumes dev: "plain_dev (dev_info s)" "NUM_PORTS (dev_info s) \<le> 18" and port: "cps_port_ok port" and i: "i < 256"
    and u: "u = dev_table rt ! i" "cps_entry_ok (dev_info s) ms False (rte_val u)"
    and same: "set_all \<or> uc_changed u \<or> (\<forall>p\<in>cps_ports_of port. v (hw s) L2 p i = cps_code (dev_info s) (rte_val u))"
  shows "\<exists>h'. cps_program_dev P (cps_base L2 port) set_all i (rt, s) =
      (RIO_SUCCESS, RIO_SUCCESS, rt\<lparr>dev_table := (dev_table rt)[i := u\<lparr>uc_changed := False\<rparr>]\<rparr>, s\<lparr>hw := h'\<rparr>) \<and>
    v h' = cps_upd L2 port i (cps_code (dev_info s) (rte_val u)) (v (hw s)) \<and> dflt h' = dflt (hw s)"
proof (cases "uc_changed u \<or> set_all")
  case False
  have id: "u\<lparr>uc_changed := False\<rparr> = u" using False by (cases u) simp
  have rt: "rt\<lparr>dev_table := (dev_table rt)[i := u\<lparr>uc_changed := False\<rparr>]\<rparr> = rt" by (simp only: id) (simp add: u(1))
  have run: "cps_program_dev P (cps_base L2 port) set_all i (rt, s) = (RIO_SUCCESS, RIO_SUCCESS, rt, s)" using False u(1) by (simp add: cps_program_dev_def)
  show ?thesis unfolding rt run using same False cps_upd_id [of port "v (hw s)" L2 i] by (intro exI [of _ "hw s"]) simp
next
  case True
  note c = cps_code_ok [OF u(2) dev(2)]
  have "RIO_RTV_GET_MC_MSK x \<noteq> 0x0FFFFFFF" if "RIO_RTV_IS_MC_MSK x" for x using that idx_less [of x] by (auto simp: RIO_RTV_GET_MC_MSK_def simp del: idx_less)
  then have guard: "\<not> (ucast (NUM_CPS_PORTS (dev_info s)) \<le> rte_val u \<and> RIO_RTV_GET_MC_MSK (rte_val u) = 0x0FFFFFFF \<and> rte_val u \<noteq> 0x301 \<and> rte_val u \<noteq> 0x300)"
    using u(2) by (auto simp: cps_entry_ok_def)
  obtain h' where "DARRegWrite P (cps_base L2 port + 4 * of_nat i) (cps_code (dev_info s) (rte_val u)) s = (RIO_SUCCESS, s\<lparr>hw := h'\<rparr>)"
      "v h' = cps_upd L2 port i (cps_code (dev_info s) (rte_val u)) (v (hw s))" "dflt h' = dflt (hw s)"
    using table_written [OF dev(1) _ _ port, of L2 "cps_code (dev_info s) (rte_val u)" i] c(2) i by (auto simp: cps_fits_def)
  then show ?thesis using True u(1) c(1) guard unfolding cps_program_dev_def prod.case Let_def by (intro exI [of _ h']) simp
qed

text \<open>A loop over the entries of a table.\<close>

lemma written_loop:
  assumes step: "\<And>k h. k < n \<Longrightarrow> v h = cps_written tab port f k (v (hw s)) \<Longrightarrow>
    \<exists>h'. F k (st k, s\<lparr>hw := h\<rparr>) = (RIO_SUCCESS, RIO_SUCCESS, st (Suc k), s\<lparr>hw := h'\<rparr>) \<and> v h' = cps_upd tab port k (f k) (v h) \<and> dflt h' = dflt h"
  shows "\<exists>h'. for_each F [0..<n] (st 0, s) = (RIO_SUCCESS, RIO_SUCCESS, st n, s\<lparr>hw := h'\<rparr>) \<and> v h' = cps_written tab port f n (v (hw s)) \<and> dflt h' = dflt (hw s)"
proof -
  define J where "J k x \<longleftrightarrow> (\<exists>h. x = (st k, s\<lparr>hw := h\<rparr>) \<and> v h = cps_written tab port f k (v (hw s)) \<and> dflt h = dflt (hw s))" for k x
  have next_round: "\<exists>x'. F k x = (RIO_SUCCESS, RIO_SUCCESS, x') \<and> J (Suc k) x'" if k: "k < n" and x: "J k x" for k x
  proof -
    from x obtain h where h: "x = (st k, s\<lparr>hw := h\<rparr>)" "v h = cps_written tab port f k (v (hw s))" "dflt h = dflt (hw s)" unfolding J_def by blast
    from step [OF k h(2)] obtain h' where "F k (st k, s\<lparr>hw := h\<rparr>) = (RIO_SUCCESS, RIO_SUCCESS, st (Suc k), s\<lparr>hw := h'\<rparr>)"
      "v h' = cps_upd tab port k (f k) (v h)" "dflt h' = dflt h" by blast
    then show ?thesis unfolding J_def h(1) by (intro exI [of _ "(st (Suc k), s\<lparr>hw := h'\<rparr>)"]) (auto simp: h(2,3) cps_written_simps)
  qed
  have start: "J 0 (st 0, s)" unfolding J_def by (intro exI [of _ "hw s"]) (simp add: cps_written_simps)
  from for_each_upt [of n J F 0, OF next_round start] show ?thesis unfolding J_def by auto
qed

lemma unwritten:
  assumes "v h = cps_written tab port f k t" "\<And>p. p \<in> cps_ports_of port \<Longrightarrow> A \<or> t tab p k = x"
  shows "A \<or> (\<forall>p\<in>cps_ports_of port. v h tab p k = x)"
  using assms(2) by (auto simp: assms(1) cps_written_def)

lemma masks_programmed:
  assumes dev: "cps_device mm (dev_info s)" and port: "cps_port_ok port" and wf: "cps_rt_wf (dev_info s) rt"
    and same: "\<And>p i. p \<in> cps_ports_of port \<Longrightarrow> i < unat (NUM_CPS_MC_MASKS (dev_info s)) \<Longrightarrow> set_all \<or> mc_changed (mc_masks rt ! i) \<or> v (hw s) MC p i = mc_mask (mc_masks rt ! i)"
  shows "\<exists>h'. cps_program_mc_mask P port set_all (rt, s) =
      (RIO_SUCCESS, RIO_SUCCESS, rt\<lparr>mc_masks := first_done (mc_changed_update (\<lambda>_. False)) (unat (NUM_CPS_MC_MASKS (dev_info s))) (mc_masks rt)\<rparr>, s\<lparr>hw := h'\<rparr>) \<and>
    v h' = cps_written MC port (\<lambda>i. mc_mask (mc_masks rt ! i)) (unat (NUM_CPS_MC_MASKS (dev_info s))) (v (hw s)) \<and> dflt h' = dflt (hw s)"
proof -
  let ?n = "unat (NUM_CPS_MC_MASKS (dev_info s))" and ?f = "\<lambda>i. mc_mask (mc_masks rt ! i)"
  let ?st = "\<lambda>k. rt\<lparr>mc_masks := first_done (mc_changed_update (\<lambda>_. False)) k (mc_masks rt)\<rparr>"
  have n: "?n \<le> 40" by (rule NUM_CPS_le)
  have d: "plain_dev (dev_info s)" "cps_mask_mask (dev_info s) = mm" "cps_ports (dev_info s) AND NOT mm = 0" using dev by (simp_all add: cps_device_def)
  have len: "length (mc_masks rt) = 256" by (rule cps_rt_wfD [OF wf])
  have ok: "mc_mask (mc_masks rt ! i) AND NOT mm = 0" if "i < 256" for i using mask_in_ports(1) [OF cps_rt_wfD(8) [OF wf that] d(3)] .
  have step: "\<exists>h'. cps_program_mask P (cps_base MC port) mm set_all k (?st k, s\<lparr>hw := h\<rparr>) = (RIO_SUCCESS, RIO_SUCCESS, ?st (Suc k), s\<lparr>hw := h'\<rparr>) \<and>
      v h' = cps_upd MC port k (?f k) (v h) \<and> dflt h' = dflt h" if k: "k < ?n" and h: "v h = cps_written MC port ?f k (v (hw s))" for k h
    using mask_step [of "s\<lparr>hw := h\<rparr>" port k "mc_masks rt ! k" "?st k" set_all] d(1) port k n len ok [of k]
      unwritten [OF h, of "set_all \<or> mc_changed (mc_masks rt ! k)"] same [OF _ k]
    by (simp add: first_done_step)
  show ?thesis using written_loop [of ?n MC port ?f s "cps_program_mask P (cps_base MC port) mm set_all" ?st, OF step] d(2)
    by (simp add: cps_program_mc_mask_def cps_base.simps Let_def)
qed

lemma tables_programmed:
  assumes dev: "cps_device mm (dev_info s)" and port: "cps_port_ok port" and wf: "cps_rt_wf (dev_info s) rt" and d: "d = dev_info s"
    and same: "\<And>p i. p \<in> cps_ports_of port \<Longrightarrow> i < 256 \<Longrightarrow> (set_all \<or> uc_changed (dom_table rt ! i)) \<or> v (hw s) L1 p i = cps_code d (rte_val (dom_table rt ! i))"
      "\<And>p i. p \<in> cps_ports_of port \<Longrightarrow> i < 256 \<Longrightarrow> (set_all \<or> uc_changed (dev_table rt ! i)) \<or> v (hw s) L2 p i = cps_code d (rte_val (dev_table rt ! i))"
  shows "\<exists>h'. cps_program_rte_entries P port set_all (rt, s) =
      (RIO_SUCCESS, RIO_SUCCESS, rt\<lparr>dom_table := map (uc_changed_update (\<lambda>_. False)) (dom_table rt),
         dev_table := map (uc_changed_update (\<lambda>_. False)) (dev_table rt)\<rparr>, s\<lparr>hw := h'\<rparr>) \<and>
    v h' = cps_written L2 port (\<lambda>i. cps_code d (rte_val (dev_table rt ! i))) 256
      (cps_written L1 port (\<lambda>i. cps_code d (rte_val (dom_table rt ! i))) 256 (v (hw s))) \<and> dflt h' = cps_code d (default_route rt)"
proof -
  let ?clr = "uc_changed_update (\<lambda>_. False)"
  let ?dom = "\<lambda>i. cps_code d (rte_val (dom_table rt ! i))" and ?dev = "\<lambda>i. cps_code d (rte_val (dev_table rt ! i))"
  let ?rt1 = "rt\<lparr>dom_table := map ?clr (dom_table rt)\<rparr>"
  let ?st1 = "\<lambda>k. rt\<lparr>dom_table := first_done ?clr k (dom_table rt)\<rparr>" and ?st2 = "\<lambda>k. ?rt1\<lparr>dev_table := first_done ?clr k (dev_table rt)\<rparr>"
  note w = cps_rt_wfD [OF wf]
  have p: "plain_dev (dev_info s)" "NUM_PORTS (dev_info s) \<le> 18" using dev by (simp_all add: cps_device_def)
  have "cps_entry_ok d (mc_masks rt) False (default_route rt)" using w(5) by (auto simp: cps_entry_ok_def d)
  note c = cps_code_ok [OF this p(2) [folded d]]
  obtain h0 where h0: "DARRegWrite P 0x78 (cps_code d (default_route rt)) s = (RIO_SUCCESS, s\<lparr>hw := h0\<rparr>)" "v h0 = v (hw s)" "dflt h0 = cps_code d (default_route rt)"
    using default_written [OF p(1) c(2)] by blast
  obtain h1 where h1: "DARRegWrite P 0xF20020 0 (s\<lparr>hw := h0\<rparr>) = (RIO_SUCCESS, s\<lparr>hw := h1\<rparr>)" "v h1 = v (hw s)" "dflt h1 = cps_code d (default_route rt)"
    using domain_written [of "s\<lparr>hw := h0\<rparr>"] p(1) h0(2,3) by auto
  let ?s1 = "s\<lparr>hw := h1\<rparr>"
  have step1: "\<exists>h'. cps_program_dom P (cps_base L1 port) set_all k (?st1 k, ?s1\<lparr>hw := h\<rparr>) = (RIO_SUCCESS, RIO_SUCCESS, ?st1 (Suc k), ?s1\<lparr>hw := h'\<rparr>) \<and>
      v h' = cps_upd L1 port k (?dom k) (v h) \<and> dflt h' = dflt h" if k: "k < 256" and h: "v h = cps_written L1 port ?dom k (v (hw ?s1))" for k h
    using dom_step [of "?s1\<lparr>hw := h\<rparr>" port k "dom_table rt ! k" "?st1 k" "mc_masks rt" set_all] p port k w(2) w(7) [OF k] d
      unwritten [OF h, of "set_all \<or> uc_changed (dom_table rt ! k)" "?dom k"] same(1) [OF _ k] h1(2)
    by (simp add: first_done_step)
  obtain h2 where h2: "for_each (cps_program_dom P (cps_base L1 port) set_all) [0..<256] (rt, ?s1) = (RIO_SUCCESS, RIO_SUCCESS, ?rt1, s\<lparr>hw := h2\<rparr>)"
      "v h2 = cps_written L1 port ?dom 256 (v (hw s))" "dflt h2 = cps_code d (default_route rt)"
    using written_loop [of 256 L1 port ?dom ?s1 "cps_program_dom P (cps_base L1 port) set_all" ?st1, OF step1] w(2) h1(2,3) by auto
  let ?s2 = "s\<lparr>hw := h2\<rparr>"
  have step2: "\<exists>h'. cps_program_dev P (cps_base L2 port) set_all k (?st2 k, ?s2\<lparr>hw := h\<rparr>) = (RIO_SUCCESS, RIO_SUCCESS, ?st2 (Suc k), ?s2\<lparr>hw := h'\<rparr>) \<and>
      v h' = cps_upd L2 port k (?dev k) (v h) \<and> dflt h' = dflt h" if k: "k < 256" and h: "v h = cps_written L2 port ?dev k (v (hw ?s2))" for k h
    using dev_step [of "?s2\<lparr>hw := h\<rparr>" port k "dev_table rt ! k" "?st2 k" "mc_masks rt" set_all] p port k w(1) w(6) [OF k] d
      unwritten [OF h, of "set_all \<or> uc_changed (dev_table rt ! k)" "?dev k"] same(2) [OF _ k] h2(2)
    by (simp add: first_done_step cps_written_def)
  obtain h3 where h3: "for_each (cps_program_dev P (cps_base L2 port) set_all) [0..<256] (?rt1, ?s2) =
      (RIO_SUCCESS, RIO_SUCCESS, ?rt1\<lparr>dev_table := map ?clr (dev_table rt)\<rparr>, s\<lparr>hw := h3\<rparr>)"
      "v h3 = cps_written L2 port ?dev 256 (v h2)" "dflt h3 = cps_code d (default_route rt)"
    using written_loop [of 256 L2 port ?dev ?s2 "cps_program_dev P (cps_base L2 port) set_all" ?st2, OF step2] w(1) h2(3) by auto
  show ?thesis
  proof (intro exI conjI)
    show "cps_program_rte_entries P port set_all (rt, s) =
      (RIO_SUCCESS, RIO_SUCCESS, rt\<lparr>dom_table := map ?clr (dom_table rt), dev_table := map ?clr (dev_table rt)\<rparr>, s\<lparr>hw := h3\<rparr>)"
      using c(1) h0(1) h1(1) h2(1) h3(1) d by (simp add: cps_program_rte_entries_def cps_base.simps Let_def)
    show "v h3 = cps_written L2 port ?dev 256 (cps_written L1 port ?dom 256 (v (hw s)))" by (simp only: h3(2) h2(2))
    show "dflt h3 = cps_code d (default_route rt)" by (rule h3(3))
  qed
qed

lemma set_programs:
  assumes dev: "cps_device mm (dev_info s)" and d: "d = dev_info s" and port: "port = RIO_ALL_PORTS \<or> port < NUM_CPS_PORTS d" and wf: "cps_rt_wf d rt"
    and same: "set_all \<or> (\<forall>p\<in>cps_ports_of port. cps_unmarked_match d (v (hw s)) rt p)"
  shows "\<exists>h'. cps_rt_set_common P port set_all (Some rt) s = (RIO_SUCCESS, RIO_SUCCESS, Some (cps_unmarked d rt), s\<lparr>hw := h'\<rparr>) \<and>
    cps_rte_translate_std_to_CPS d (default_route rt) = Some (dflt h') \<and> (\<forall>p\<in>cps_ports_of port. cps_match d (v h') rt p)"
proof -
  note w = cps_rt_wfD [OF wf] and pt = cps_port_range [OF port]
  have n18: "NUM_PORTS d \<le> 18" using dev by (simp add: cps_device_def d)
  let ?n = "unat (NUM_CPS_MC_MASKS d)"
  let ?rt1 = "rt\<lparr>mc_masks := first_done (mc_changed_update (\<lambda>_. False)) ?n (mc_masks rt)\<rparr>"
  let ?dom = "\<lambda>i. cps_code d (rte_val (dom_table rt ! i))" and ?dev = "\<lambda>i. cps_code d (rte_val (dev_table rt ! i))" and ?msk = "\<lambda>i. mc_mask (mc_masks rt ! i)"
  have code: "cps_rte_translate_std_to_CPS d (rte_val (dom_table rt ! i)) = Some (?dom i)" "cps_rte_translate_std_to_CPS d (rte_val (dev_table rt ! i)) = Some (?dev i)"
    if "i < 256" for i using cps_code_ok(1) [OF w(7) [OF that] n18] cps_code_ok(1) [OF w(6) [OF that] n18] .
  obtain h1 where h1: "cps_program_mc_mask P port set_all (rt, s) = (RIO_SUCCESS, RIO_SUCCESS, ?rt1, s\<lparr>hw := h1\<rparr>)" "v h1 = cps_written MC port ?msk ?n (v (hw s))"
    using masks_programmed [OF dev pt(1) wf [unfolded d], of set_all] same d by (auto simp: cps_unmarked_match_def)
  have v1: "v h1 tab p i = v (hw s) tab p i" if "tab \<noteq> MC" for tab p i using that by (simp add: h1(2) cps_written_def)
  have same1: "(set_all \<or> uc_changed (dom_table ?rt1 ! i)) \<or> v (hw (s\<lparr>hw := h1\<rparr>)) L1 p i = cps_code d (rte_val (dom_table ?rt1 ! i))"
    "(set_all \<or> uc_changed (dev_table ?rt1 ! i)) \<or> v (hw (s\<lparr>hw := h1\<rparr>)) L2 p i = cps_code d (rte_val (dev_table ?rt1 ! i))"
    if "p \<in> cps_ports_of port" "i < 256" for p i
    using cps_unmarked_matchD [OF _ that(2), of d "v (hw s)" rt p] same that(1) code [OF that(2)] by (auto simp: v1)
  have wf1: "cps_rt_wf (dev_info (s\<lparr>hw := h1\<rparr>)) ?rt1" using cps_wf_unmark_masks [OF wf] d by simp
  have eq: "?rt1\<lparr>dom_table := map (uc_changed_update (\<lambda>_. False)) (dom_table ?rt1), dev_table := map (uc_changed_update (\<lambda>_. False)) (dev_table ?rt1)\<rparr> = cps_unmarked d rt"
    by (cases rt) (simp add: cps_unmarked_def)
  obtain h2 where h2: "cps_program_rte_entries P port set_all (?rt1, s\<lparr>hw := h1\<rparr>) = (RIO_SUCCESS, RIO_SUCCESS, cps_unmarked d rt, s\<lparr>hw := h2\<rparr>)"
      "v h2 = cps_written L2 port ?dev 256 (cps_written L1 port ?dom 256 (v h1))" "dflt h2 = cps_code d (default_route rt)"
    using tables_programmed [OF _ pt(1) wf1 _ same1, unfolded eq] dev d by auto
  have ok: "cps_entry_ok d (mc_masks rt) False (default_route rt)" using w(5) by (auto simp: cps_entry_ok_def)
  have dflt: "\<not> (ucast (NUM_CPS_PORTS d) \<le> default_route rt \<and> default_route rt \<noteq> 0x300)" using w(5) by auto
  have match: "cps_match d (v h2) rt p" if "p \<in> cps_ports_of port" for p
    using that code by (simp add: cps_match_def h2(2) h1(2) cps_written_def)
  have "cps_rt_set_common P port set_all (Some rt) s = (RIO_SUCCESS, RIO_SUCCESS, Some (cps_unmarked d rt), s\<lparr>hw := h2\<rparr>)"
    using h1(1) h2(1) dflt port d by (auto simp: cps_rt_set_common_def Let_def)
  then show ?thesis using match cps_code_ok(1) [OF ok n18] h2(3) by (intro exI [of _ h2]) simp
qed

text \<open>Initialisation: the operation registers of the ports are changed first.\<close>

lemma ops_cleared:
  assumes "plain_dev (dev_info s)" "k < 18"
  shows "\<exists>h'. clear_self_mcast P k s = (RIO_SUCCESS, RIO_SUCCESS, s\<lparr>hw := h'\<rparr>)"
proof -
  have k: "unat (of_nat k :: u8) < 18" using assms(2) by (simp add: unsigned_of_nat take_bit_nat_eq_self)
  obtain rc x h' where r: "rd (dev_info s) (CPS1848_PORT_X_OPS (of_nat k)) (hw s) = (rc, x, h')" by (cases rule: prod_cases3)
  note read = plain_read_ok [OF assms(1)]
  have 1: "DARRegRead P (CPS1848_PORT_X_OPS (of_nat k)) s = (RIO_SUCCESS, x, s)" using read_ops [OF k r] read r by simp
  obtain rc' h2 where w: "wr (dev_info s) (CPS1848_PORT_X_OPS (of_nat k)) (x AND NOT 0x00020000) (hw s) = (rc', h2)" by (cases rule: prod.exhaust)
  have 2: "DARRegWrite P (CPS1848_PORT_X_OPS (of_nat k)) (x AND NOT 0x00020000) s = (RIO_SUCCESS, s\<lparr>hw := h2\<rparr>)"
    using write_ops [OF k w] by (intro plain_write_ok [OF assms(1)]) (simp only: w)
  show ?thesis unfolding clear_self_mcast_def 1 2 Let_def prod.case by (intro exI [of _ h2]) simp
qed

lemma all_ops_cleared:
  assumes "plain_dev (dev_info s)" "\<forall>k\<in>set ks. k < 18"
  shows "\<exists>h'. for_each (clear_self_mcast P) ks s = (RIO_SUCCESS, RIO_SUCCESS, s\<lparr>hw := h'\<rparr>)"
  using assms
proof (induction ks arbitrary: s)
  case Nil
  show ?case by (rule exI [of _ "hw s"]) simp
next
  case (Cons k ks)
  obtain h' where h': "clear_self_mcast P k s = (RIO_SUCCESS, RIO_SUCCESS, s\<lparr>hw := h'\<rparr>)" using ops_cleared [of s k] Cons.prems by auto
  obtain h2 where "for_each (clear_self_mcast P) ks (s\<lparr>hw := h'\<rparr>) = (RIO_SUCCESS, RIO_SUCCESS, s\<lparr>hw := h2\<rparr>)"
    using Cons.IH [of "s\<lparr>hw := h'\<rparr>"] Cons.prems by auto
  then show ?case using h' by (intro exI [of _ h2]) simp
qed

lemma initialize_programs:
  assumes dev: "cps_device mm (dev_info s)" and d: "d = dev_info s"
    and p: "init_default_route p < ucast (NUM_CPS_PORTS d) \<or> init_default_route p = 0x300"
      "default_route_table_port p < ucast (NUM_CPS_PORTS d) \<or> default_route_table_port p \<in> {0x300, 0x301}"
      "set_on_port p = RIO_ALL_PORTS \<or> set_on_port p < NUM_CPS_PORTS d" "update_hw p"
    and rt: "rt = cps_rt_initial (init_default_route p) (default_route_table_port p)"
  shows "\<exists>h'. CPS_rio_rt_initialize P p (Some rt0) s = (RIO_SUCCESS, RIO_SUCCESS, Some (cps_unmarked d rt), s\<lparr>hw := h'\<rparr>) \<and>
    cps_rte_translate_std_to_CPS d (default_route rt) = Some (dflt h') \<and> (\<forall>q\<in>cps_ports_of (set_on_port p). cps_match d (v h') rt q)"
proof -
  have wf: "cps_rt_wf d rt" unfolding rt using p by (intro cps_wf_initial) auto
  let ?ports = "if set_on_port p = RIO_ALL_PORTS then [0..<unat (NUM_CPS_PORTS d)] else [unat (set_on_port p)]"
  have "\<forall>k\<in>set ?ports. k < 18" using p(3) NUM_CPS_le(1) [of d] by (auto simp: word_less_nat_alt)
  then obtain h1 where h1: "for_each (clear_self_mcast P) ?ports s = (RIO_SUCCESS, RIO_SUCCESS, s\<lparr>hw := h1\<rparr>)"
    using all_ops_cleared [of s] dev by (auto simp: cps_device_def)
  have changed: "cps_unmarked_match d t rt q" for t q
    using NUM_CPS_le(2) [of d] by (auto simp: cps_unmarked_match_def rt cps_rt_initial_def nth_Cons' nth_append mc_unused_def)
  obtain h2 where h2: "CPS_rio_rt_set_changed P (set_on_port p) (Some rt) (s\<lparr>hw := h1\<rparr>) = (RIO_SUCCESS, RIO_SUCCESS, Some (cps_unmarked d rt), s\<lparr>hw := h2\<rparr>)"
      "cps_rte_translate_std_to_CPS d (default_route rt) = Some (dflt h2)" "\<forall>q\<in>cps_ports_of (set_on_port p). cps_match d (v h2) rt q"
    using set_programs [of "s\<lparr>hw := h1\<rparr>" d "set_on_port p" rt False] dev d p(3) wf changed by (auto simp: CPS_rio_rt_set_changed_def)
  have g: "\<not> (init_default_route p \<ge> ucast (NUM_CPS_PORTS d) \<and> init_default_route p \<noteq> 0x300)"
    "\<not> (default_route_table_port p \<ge> ucast (NUM_CPS_PORTS d) \<and> default_route_table_port p \<noteq> 0x301 \<and> default_route_table_port p \<noteq> 0x300)"
    "\<not> (set_on_port p \<ge> NUM_CPS_PORTS d \<and> set_on_port p \<noteq> RIO_ALL_PORTS)" using p by auto
  have "CPS_rio_rt_initialize P p (Some rt0) s = (RIO_SUCCESS, RIO_SUCCESS, Some (cps_unmarked d rt), s\<lparr>hw := h2\<rparr>)"
    unfolding CPS_rio_rt_initialize_def d [symmetric] Let_def using g p(4) h1 h2(1) by (simp add: rt)
  then show ?thesis using h2(2,3) by blast
qed

end

section \<open>Reading\<close>

text \<open>
  A state into which the first \<open>k\<close> entries of the domain table and the first \<open>l\<close> of the device table have been read from a switch with the tables \<open>rt\<close>: a mask is in use when an
  entry that has been read selects it.
\<close>

definition selected :: "rio_rt_state_t \<Rightarrow> nat \<Rightarrow> nat \<Rightarrow> bool" where
  "selected rt l m \<longleftrightarrow> (\<exists>i<l. RIO_RTV_IS_MC_MSK (rte_val (dev_table rt ! i)) \<and> unat (rte_val (dev_table rt ! i) AND 0xFF) = m)"

definition cps_has_read :: "DAR_DEV_INFO_t \<Rightarrow> rio_rt_state_t \<Rightarrow> nat \<Rightarrow> nat \<Rightarrow> rio_rt_state_t \<Rightarrow> bool" where
  "cps_has_read d rt k l rt' \<longleftrightarrow>
     length (dev_table rt') = RIO_RT_GRP_SZ \<and> length (dom_table rt') = RIO_RT_GRP_SZ \<and> length (mc_masks rt') = RIO_MAX_MC_MASKS \<and>
     (0 < k \<longrightarrow> default_route rt' = default_route rt) \<and>
     (\<forall>i<k. dom_table rt' ! i = \<lparr>rte_val = rte_val (dom_table rt ! i), uc_changed = False\<rparr>) \<and>
     (\<forall>i<l. dev_table rt' ! i = \<lparr>rte_val = rte_val (dev_table rt ! i), uc_changed = False\<rparr>) \<and>
     (\<forall>m<RIO_MAX_MC_MASKS. in_use (mc_masks rt' ! m) \<longleftrightarrow> selected rt l m) \<and>
     (\<forall>m<unat (NUM_CPS_MC_MASKS d). mc_mask (mc_masks rt' ! m) = mc_mask (mc_masks rt ! m))"

lemma selected_Suc: "selected rt (Suc l) m \<longleftrightarrow> selected rt l m \<or> RIO_RTV_IS_MC_MSK (rte_val (dev_table rt ! l)) \<and> unat (rte_val (dev_table rt ! l) AND 0xFF) = m"
  by (auto simp: selected_def less_Suc_eq)

lemma has_read_dom:
  assumes "cps_has_read d rt k 0 rt'" "0 < k" "k < 256"
  shows "cps_has_read d rt (Suc k) 0 (store_entry True k \<lparr>rte_val = rte_val (dom_table rt ! k), uc_changed = False\<rparr> rt')"
  using assms by (auto simp: cps_has_read_def store_entry_def nth_upd less_Suc_eq)

lemma has_read_dev:
  assumes r: "cps_has_read d rt k l rt'" and l: "l < 256" and y: "y = rte_val (dev_table rt ! l)"
    and rt1: "rt1 = (if RIO_RTV_IS_MC_MSK y \<and> \<not> in_use (mc_masks rt' ! unat (y AND 0xFF))
      then rt'\<lparr>mc_masks := (mc_masks rt')[unat (y AND 0xFF) := (mc_masks rt' ! unat (y AND 0xFF))\<lparr>mc_tt := tt_dev16, in_use := True, mc_destID := did\<rparr>]\<rparr> else rt')"
  shows "cps_has_read d rt k (Suc l) (store_entry False l \<lparr>rte_val = y, uc_changed = False\<rparr> rt1)"
proof -
  have len: "length (mc_masks rt') = 256" using r by (simp add: cps_has_read_def)
  have m: "in_use (mc_masks rt1 ! m) \<longleftrightarrow> selected rt (Suc l) m" "mc_mask (mc_masks rt1 ! m) = mc_mask (mc_masks rt' ! m)" if "m < 256" for m
    using that r len by (auto simp: rt1 cps_has_read_def selected_Suc y nth_upd)
  have same: "dev_table rt1 = dev_table rt'" "dom_table rt1 = dom_table rt'" "length (mc_masks rt1) = 256" "default_route rt1 = default_route rt'"
    using len by (simp_all add: rt1)
  have n: "unat (NUM_CPS_MC_MASKS d) \<le> 256" using NUM_CPS_le(2) [of d] by simp
  show ?thesis using r l m n by (auto simp: cps_has_read_def store_entry_def same nth_upd y less_Suc_eq)
qed

context cps_tables
begin

lemma table_read:
  "plain_dev (dev_info s) \<Longrightarrow> unat p < 18 \<Longrightarrow> i < cps_size tab \<Longrightarrow> DARRegRead P (cps_reg tab p i) s = (RIO_SUCCESS, v (hw s) tab (unat p) i, s)"
  by (intro plain_read_ok read_table)

lemma masks_read:
  assumes dev: "cps_device mm (dev_info s)" and d: "d = dev_info s" and p: "unat p < 18" and wf: "cps_rt_wf d rt" and match: "cps_match d (v (hw s)) rt (unat p)"
    and len: "length (dev_table rt') = 256" "length (dom_table rt') = 256" "length (mc_masks rt') = 256"
  shows "\<exists>rt1. cps_read_mc_masks P p (rt', s) = (RIO_SUCCESS, RIO_SUCCESS, rt1, s) \<and> cps_has_read d rt 0 0 rt1"
proof -
  let ?n = "unat (NUM_CPS_MC_MASKS d)"
  have n: "?n \<le> 40" by (rule NUM_CPS_le)
  obtain rt0 where rt0: "for_each release_mask [?n..<256] (rt', s) = (RIO_SUCCESS, RIO_SUCCESS, rt0, s)"
    "length (dev_table rt0) = 256" "length (dom_table rt0) = 256" "length (mc_masks rt0) = 256" "\<forall>m<256. ?n \<le> m \<longrightarrow> \<not> in_use (mc_masks rt0 ! m)"
    using release_loop [OF len, of ?n s] n by auto
  define J where "J k x \<longleftrightarrow> (\<exists>rt1. x = (rt1, s) \<and> length (dev_table rt1) = 256 \<and> length (dom_table rt1) = 256 \<and> length (mc_masks rt1) = 256 \<and>
    (\<forall>m<256. ?n \<le> m \<longrightarrow> \<not> in_use (mc_masks rt1 ! m)) \<and> (\<forall>m<k. \<not> in_use (mc_masks rt1 ! m) \<and> mc_mask (mc_masks rt1 ! m) = mc_mask (mc_masks rt ! m)))"
    for k and x :: "rio_rt_state_t \<times> 'h dev"
  have next_round: "\<exists>x'. cps_read_mask P p k x = (RIO_SUCCESS, RIO_SUCCESS, x') \<and> J (Suc k) x'" if k: "k < ?n" and x: "J k x" for k x
  proof -
    obtain rt1 where r: "x = (rt1, s)" "length (dev_table rt1) = 256" "length (dom_table rt1) = 256" "length (mc_masks rt1) = 256"
      "\<forall>m<256. ?n \<le> m \<longrightarrow> \<not> in_use (mc_masks rt1 ! m)" "\<forall>m<k. \<not> in_use (mc_masks rt1 ! m) \<and> mc_mask (mc_masks rt1 ! m) = mc_mask (mc_masks rt ! m)"
      using x unfolding J_def by blast
    have pd: "plain_dev (dev_info s)" using dev by (simp add: cps_device_def)
    have rd: "DARRegRead P (CPS1848_PORT_X_MCAST_MASK_Y p (of_nat k)) s = (RIO_SUCCESS, mc_mask (mc_masks rt ! k), s)"
      using table_read [OF pd p, of k MC] k n match by (simp add: cps_reg.simps cps_match_def)
    have a: "mc_mask (mc_masks rt ! k) AND cps_ports d = mc_mask (mc_masks rt ! k)"
      using cps_rt_wfD(8) [OF wf, of k] k n by (simp add: and_within)
    let ?m = "\<lparr>mc_destID = 0, mc_tt = tt_dev8, mc_mask = mc_mask (mc_masks rt ! k), in_use = False, allocd = False, mc_changed = False\<rparr>"
    have "cps_read_mask P p k x = (RIO_SUCCESS, RIO_SUCCESS, rt1\<lparr>mc_masks := (mc_masks rt1)[k := ?m]\<rparr>, s)"
      unfolding cps_read_mask_def r(1) prod.case rd Let_def d [symmetric] cps_ports_def [symmetric] a by simp
    moreover have "J (Suc k) (rt1\<lparr>mc_masks := (mc_masks rt1)[k := ?m]\<rparr>, s)" unfolding J_def using r k n by (auto simp: nth_upd less_Suc_eq)
    ultimately show ?thesis by blast
  qed
  have "J 0 (rt0, s)" using rt0 unfolding J_def by auto
  from for_each_upt [of ?n J "cps_read_mask P p" 0, OF next_round this] obtain rt1
    where rt1: "for_each (cps_read_mask P p) [0..<?n] (rt0, s) = (RIO_SUCCESS, RIO_SUCCESS, rt1, s)" "J ?n (rt1, s)" unfolding J_def by auto
  have unused: "\<not> in_use (mc_masks rt1 ! m)" if "m < 256" for m using rt1(2) that unfolding J_def by (cases "m < ?n") auto
  have "cps_has_read d rt 0 0 rt1" using rt1(2) unused unfolding J_def cps_has_read_def selected_def by simp
  then show ?thesis using rt0(1) rt1(1) d by (simp add: cps_read_mc_masks_def Let_def)
qed

lemma entries_read:
  assumes dev: "cps_device mm (dev_info s)" and d: "d = dev_info s" and p: "unat p < 18" and wf: "cps_rt_wf d rt" and match: "cps_match d (v (hw s)) rt (unat p)"
    and dfl: "cps_rte_translate_std_to_CPS d (default_route rt) = Some (dflt (hw s))" and r0: "cps_has_read d rt 0 0 rt'"
  shows "\<exists>rt1. cps_read_rte_entries P p (rt', s) = (RIO_SUCCESS, RIO_SUCCESS, rt1, s) \<and> cps_has_read d rt 256 256 rt1"
proof -
  have pd: "plain_dev (dev_info s)" "NUM_PORTS d \<le> 18" using dev d by (simp_all add: cps_device_def)
  note w = cps_rt_wfD [OF wf]
  have rd: "DARRegRead P 0x78 s = (RIO_SUCCESS, dflt (hw s), s)" by (rule plain_read_ok [OF pd(1) read_default])
  have dr: "(if dflt (hw s) AND 0xFF \<ge> ucast (NUM_CPS_PORTS d) then 0x300 else dflt (hw s) AND 0xFF) = default_route rt"
  proof (cases "default_route rt = 0x300")
    case True
    then have "dflt (hw s) = 0xDF" using dfl by (simp add: cps_rte_translate_std_to_CPS_def)
    moreover have "ucast (NUM_CPS_PORTS d) \<le> (0xDF :: u32)" using NUM_CPS_le(1) [of d] by (simp add: word_le_nat_alt unsigned_ucast_eq take_bit_nat_eq_self)
    ultimately show ?thesis using True by simp
  next
    case False
    then have lt: "default_route rt < ucast (NUM_CPS_PORTS d)" using w(5) by simp
    then have "dflt (hw s) AND 0xFF = default_route rt" using std_to_CPS_port [OF lt pd(2)] dfl by simp
    then show ?thesis using leD [of "ucast (NUM_CPS_PORTS d)" "default_route rt"] lt by auto
  qed
  let ?rt2 = "store_entry True 0 \<lparr>rte_val = 0x200, uc_changed = False\<rparr> (rt'\<lparr>default_route := default_route rt\<rparr>)"
  have r1: "cps_has_read d rt 1 0 ?rt2" using r0 w(4) by (auto simp: cps_has_read_def store_entry_def)
  define J where "J k x \<longleftrightarrow> (\<exists>f rt1. x = ((f, rt1), s) \<and> cps_has_read d rt k 0 rt1)" for k and x :: "(u32 option \<times> rio_rt_state_t) \<times> 'h dev"
  have dom_round: "\<exists>x'. cps_read_dom P p k x = (RIO_SUCCESS, RIO_SUCCESS, x') \<and> J (Suc k) x'" if k: "1 \<le> k" "k < 256" and x: "J k x" for k x
  proof -
    obtain f rt1 where e: "x = ((f, rt1), s)" "cps_has_read d rt k 0 rt1" using x unfolding J_def by blast
    let ?y = "rte_val (dom_table rt ! k)"
    note c = cps_code_ok [OF w(7) [OF k(2)] pd(2)]
    have t: "v (hw s) L1 (unat p) k = cps_code d ?y" using match k c(1) by (simp add: cps_match_def)
    have read: "DARRegRead P (CPS1848_PORT_X_DOM_RTE_TABLE_Y p (of_nat k)) s = (RIO_SUCCESS, cps_code d ?y, s)"
      using table_read [OF pd(1) p, of k L1] k t by (simp add: cps_reg.simps)
    have z: "(if ?y \<noteq> 0x200 \<and> ?y \<noteq> 0x301 \<and> ?y \<noteq> 0x300 \<and> ucast (NUM_CPS_PORTS d) \<le> ?y then 0x300 else ?y) = ?y"
      using w(7) [OF k(2)] by (auto simp: cps_entry_ok_def)
    have "\<exists>f'. cps_read_dom P p k x = (RIO_SUCCESS, RIO_SUCCESS, (f', store_entry True k \<lparr>rte_val = ?y, uc_changed = False\<rparr> rt1), s)"
      unfolding cps_read_dom_def e(1) prod.case read Let_def d [symmetric] c(3) option.case z by auto
    then show ?thesis using has_read_dom [OF e(2)] k unfolding J_def by auto
  qed
  have "J 1 ((None, ?rt2), s)" using r1 unfolding J_def by blast
  then obtain x where x: "for_each (cps_read_dom P p) [1..<256] ((None, ?rt2), s) = (RIO_SUCCESS, RIO_SUCCESS, x)" "J 256 x"
    using for_each_upt [of 256 "\<lambda>k x. 1 \<le> k \<and> J k x" "cps_read_dom P p" 1] dom_round by force
  obtain f rt3 where e3: "x = ((f, rt3), s)" "cps_has_read d rt 256 0 rt3" using x(2) unfolding J_def by blast
  let ?did = "case f of None \<Rightarrow> 0 | Some did \<Rightarrow> did"
  define K where "K l x \<longleftrightarrow> (\<exists>rt1. x = (rt1, s) \<and> cps_has_read d rt 256 l rt1)" for l and x :: "rio_rt_state_t \<times> 'h dev"
  have dev_round: "\<exists>x'. cps_read_dev P p ?did l x = (RIO_SUCCESS, RIO_SUCCESS, x') \<and> K (Suc l) x'" if l: "l < 256" and x: "K l x" for l x
  proof -
    obtain rt1 where e: "x = (rt1, s)" "cps_has_read d rt 256 l rt1" using x unfolding K_def by blast
    let ?y = "rte_val (dev_table rt ! l)"
    note c = cps_code_ok [OF w(6) [OF l] pd(2)]
    have t: "v (hw s) L2 (unat p) l = cps_code d ?y" using match l c(1) by (simp add: cps_match_def)
    have read: "DARRegRead P (CPS1848_PORT_X_DEV_RTE_TABLE_Y p (of_nat l)) s = (RIO_SUCCESS, cps_code d ?y, s)"
      using table_read [OF pd(1) p, of l L2] l t by (simp add: cps_reg.simps)
    have z: "(if ucast (NUM_CPS_PORTS d) \<le> ?y \<and> \<not> RIO_RTV_IS_MC_MSK ?y \<and> ?y \<noteq> 0x300 \<and> ?y \<noteq> 0x301 then 0x300 else ?y) = ?y"
      using w(6) [OF l] by (auto simp: cps_entry_ok_def)
    have m: "(RIO_RTV_GET_MC_MSK ?y \<noteq> 0x0FFFFFFF \<and> \<not> in_use (mc_masks rt1 ! unat (RIO_RTV_GET_MC_MSK ?y))) \<longleftrightarrow>
        RIO_RTV_IS_MC_MSK ?y \<and> \<not> in_use (mc_masks rt1 ! unat (?y AND 0xFF))" "RIO_RTV_IS_MC_MSK ?y \<Longrightarrow> RIO_RTV_GET_MC_MSK ?y = ?y AND 0xFF"
      using idx_less [of ?y] by (auto simp: RIO_RTV_GET_MC_MSK_def simp del: idx_less)
    have "\<exists>rt2. cps_read_dev P p ?did l x = (RIO_SUCCESS, RIO_SUCCESS, rt2, s) \<and> cps_has_read d rt 256 (Suc l) rt2"
      unfolding cps_read_dev_def e(1) prod.case read Let_def d [symmetric] c(3) option.case z m(1)
      using has_read_dev [OF e(2) l refl refl, of "?did + of_nat l"] m(2)
      by (cases "RIO_RTV_IS_MC_MSK ?y"; cases "in_use (mc_masks rt1 ! unat (?y AND 0xFF))") simp_all
    then show ?thesis unfolding K_def by auto
  qed
  have "K 0 (rt3, s)" using e3(2) unfolding K_def by blast
  then obtain rt4 where "for_each (cps_read_dev P p ?did) [0..<256] (rt3, s) = (RIO_SUCCESS, RIO_SUCCESS, rt4, s)" "cps_has_read d rt 256 256 rt4"
    using for_each_upt [of 256 K "cps_read_dev P p ?did" 0, OF dev_round] unfolding K_def by auto
  then show ?thesis unfolding cps_read_rte_entries_def prod.case rd Let_def d [symmetric] dr using x(1) e3(1) by simp
qed

lemma probe_all_reads:
  assumes dev: "cps_device mm (dev_info s)" and d: "d = dev_info s" and p: "p < NUM_CPS_PORTS d" and wf: "cps_rt_wf d rt"
    and match: "cps_match d (v (hw s)) rt (unat p)" "cps_rte_translate_std_to_CPS d (default_route rt) = Some (dflt (hw s))"
    and len: "length (dev_table rt') = 256" "length (dom_table rt') = 256" "length (mc_masks rt') = 256"
  shows "\<exists>rt1. CPS_rio_rt_probe_all P p (Some rt') s = (RIO_SUCCESS, RIO_SUCCESS, Some rt1, s) \<and> cps_has_read d rt 256 256 rt1"
proof -
  have p18: "unat p < 18" using p NUM_CPS_le(1) [of d] by (simp add: word_less_nat_alt)
  then have all: "p \<noteq> RIO_ALL_PORTS" by auto
  obtain rt1 where rt1: "cps_read_mc_masks P p (rt', s) = (RIO_SUCCESS, RIO_SUCCESS, rt1, s)" "cps_has_read d rt 0 0 rt1"
    using masks_read [OF dev d p18 wf match(1) len] by blast
  obtain rt2 where "cps_read_rte_entries P p (rt1, s) = (RIO_SUCCESS, RIO_SUCCESS, rt2, s)" "cps_has_read d rt 256 256 rt2"
    using entries_read [OF dev d p18 wf match rt1(2)] by blast
  then show ?thesis using rt1(1) p all d by (simp add: CPS_rio_rt_probe_all_def Let_def)
qed

end

section \<open>A switch\<close>

text \<open>The tables and the default route as a memory, with the addresses of the registers decoded.\<close>

type_synonym cps_switch = "cps_view \<times> u32"

fun cps_decode :: "nat \<Rightarrow> (rt_table \<times> u8 \<times> nat) option" where
  "cps_decode a =
     (if 0xE00000 \<le> a \<and> a < 0xE00800 then Some (if a < 0xE00400 then L2 else L1, RIO_ALL_PORTS, (a - 0xE00000) mod 0x400 div 4)
      else if 0xE10000 \<le> a \<and> a < 0xE22000 then
        Some (if (a - 0xE10000) mod 0x1000 < 0x400 then L2 else L1, of_nat ((a - 0xE10000) div 0x1000), (a - 0xE10000) mod 0x1000 mod 0x400 div 4)
      else if 0xF30000 \<le> a \<and> a < 0xF300A0 then Some (MC, RIO_ALL_PORTS, (a - 0xF30000) div 4)
      else if 0xF38000 \<le> a \<and> a < 0xF39200 then Some (MC, of_nat ((a - 0xF38000) div 0x100), (a - 0xF38000) mod 0x100 div 4)
      else None)"

declare cps_decode.simps [simp del]

definition cps_switch_read :: "DAR_DEV_INFO_t \<Rightarrow> u32 \<Rightarrow> cps_switch \<Rightarrow> u32 \<times> u32 \<times> cps_switch" where
  "cps_switch_read d a h =
     (if a = CPS1848_RTE_DEFAULT_PORT_CSR then (RIO_SUCCESS, snd h, h)
      else case cps_decode (unat a) of None \<Rightarrow> (RIO_SUCCESS, 0, h) | Some (tab, p, i) \<Rightarrow> (RIO_SUCCESS, fst h tab (unat p) i, h))"

definition cps_switch_write :: "DAR_DEV_INFO_t \<Rightarrow> u32 \<Rightarrow> u32 \<Rightarrow> cps_switch \<Rightarrow> u32 \<times> cps_switch" where
  "cps_switch_write d a x h =
     (if a = CPS1848_RTE_DEFAULT_PORT_CSR then (RIO_SUCCESS, fst h, x)
      else case cps_decode (unat a) of None \<Rightarrow> (RIO_SUCCESS, h) | Some (tab, port, i) \<Rightarrow> (RIO_SUCCESS, cps_upd tab port i x (fst h), snd h))"

definition cps_switch_host :: "cps_switch host" where
  "cps_switch_host = \<lparr>ReadReg = Some cps_switch_read, WriteReg = Some cps_switch_write\<rparr>"

lemma cps_reg_nat:
  assumes "unat p < 18" "i < cps_size tab"
  shows "unat (cps_reg tab p i) = (case tab of L1 \<Rightarrow> 0xE10400 + 0x1000 * unat p + 4 * i | L2 \<Rightarrow> 0xE10000 + 0x1000 * unat p + 4 * i | MC \<Rightarrow> 0xF38000 + 0x100 * unat p + 4 * i)"
    "unat (cps_base tab RIO_ALL_PORTS + 4 * of_nat i) = (case tab of L1 \<Rightarrow> 0xE00400 + 4 * i | L2 \<Rightarrow> 0xE00000 + 4 * i | MC \<Rightarrow> 0xF30000 + 4 * i)"
    "unat (CPS1848_PORT_X_OPS p) = 0xF40004 + 0x100 * unat p"
proof -
  have u: "unat (of_nat n :: u32) = n" if "n < 0x10000000" for n using that by (simp add: unsigned_of_nat take_bit_nat_eq_self)
  have i: "i < 256" using assms(2) by (cases tab) auto
  have "cps_reg tab p i = of_nat (case tab of L1 \<Rightarrow> 0xE10400 + 0x1000 * unat p + 4 * i | L2 \<Rightarrow> 0xE10000 + 0x1000 * unat p + 4 * i | MC \<Rightarrow> 0xF38000 + 0x100 * unat p + 4 * i)"
    by (cases tab) (simp_all add: cps_reg.simps CPS1848_PORT_X_DOM_RTE_TABLE_Y_def CPS1848_PORT_X_DEV_RTE_TABLE_Y_def CPS1848_PORT_X_MCAST_MASK_Y_def)
  then show "unat (cps_reg tab p i) = (case tab of L1 \<Rightarrow> 0xE10400 + 0x1000 * unat p + 4 * i | L2 \<Rightarrow> 0xE10000 + 0x1000 * unat p + 4 * i | MC \<Rightarrow> 0xF38000 + 0x100 * unat p + 4 * i)"
    by (simp only:) (rule u, use assms(1) i in \<open>simp split: rt_table.split\<close>)
  have "cps_base tab RIO_ALL_PORTS + 4 * of_nat i = of_nat (case tab of L1 \<Rightarrow> 0xE00400 + 4 * i | L2 \<Rightarrow> 0xE00000 + 4 * i | MC \<Rightarrow> 0xF30000 + 4 * i)"
    by (cases tab) (simp_all add: cps_base.simps CPS1848_BCAST_DOM_RTE_TABLE_X_def CPS1848_BCAST_DEV_RTE_TABLE_X_def CPS1848_BCAST_MCAST_MASK_X_def)
  then show "unat (cps_base tab RIO_ALL_PORTS + 4 * of_nat i) = (case tab of L1 \<Rightarrow> 0xE00400 + 4 * i | L2 \<Rightarrow> 0xE00000 + 4 * i | MC \<Rightarrow> 0xF30000 + 4 * i)"
    by (simp only:) (rule u, use i in \<open>simp split: rt_table.split\<close>)
  have "CPS1848_PORT_X_OPS p = of_nat (0xF40004 + 0x100 * unat p)" by (simp add: CPS1848_PORT_X_OPS_def)
  then show "unat (CPS1848_PORT_X_OPS p) = 0xF40004 + 0x100 * unat p" by (simp only:) (rule u, use assms(1) in simp)
qed

lemma cps_decode_reg:
  assumes "unat p < 18" "i < cps_size tab"
  shows "cps_decode (unat (cps_reg tab p i)) = Some (tab, p, i)" "cps_decode (unat (cps_base tab RIO_ALL_PORTS + 4 * of_nat i)) = Some (tab, RIO_ALL_PORTS, i)"
    "cps_decode (unat (CPS1848_PORT_X_OPS p)) = None"
proof -
  note n = cps_reg_nat [OF assms]
  have p: "(of_nat (unat p) :: u8) = p" by simp
  have dm: "(m * q + r) div m = q" "(m * q + r) mod m = r" if "r < m" for m q r :: nat using that by simp_all
  show "cps_decode (unat (cps_reg tab p i)) = Some (tab, p, i)"
  proof (cases tab)
    case L1
    then have e: "unat (cps_reg tab p i) - 0xE10000 = 0x1000 * unat p + (0x400 + 4 * i)" "i < 256" using n assms by simp_all
    have "0xE10000 \<le> unat (cps_reg tab p i)" "unat (cps_reg tab p i) < 0xE22000" using n(1) L1 e(2) assms(1) by simp_all
    then show ?thesis using L1 e(2) p dm [of "0x400 + 4 * i" "0x1000" "unat p"] unfolding cps_decode.simps e(1) by simp
  next
    case L2
    then have e: "unat (cps_reg tab p i) - 0xE10000 = 0x1000 * unat p + 4 * i" "i < 256" using n assms by simp_all
    have "0xE10000 \<le> unat (cps_reg tab p i)" "unat (cps_reg tab p i) < 0xE22000" using n(1) L2 e(2) assms(1) by simp_all
    then show ?thesis using L2 e(2) p dm [of "4 * i" "0x1000" "unat p"] unfolding cps_decode.simps e(1) by simp
  next
    case MC
    then have e: "unat (cps_reg tab p i) - 0xF38000 = 0x100 * unat p + 4 * i" "i < 40" using n assms by simp_all
    have "0xF38000 \<le> unat (cps_reg tab p i)" "unat (cps_reg tab p i) < 0xF39200" using n(1) MC e(2) assms(1) by simp_all
    then show ?thesis using MC e(2) p dm [of "4 * i" "0x100" "unat p"] unfolding cps_decode.simps e(1) by simp
  qed
  show "cps_decode (unat (cps_base tab RIO_ALL_PORTS + 4 * of_nat i)) = Some (tab, RIO_ALL_PORTS, i)"
    unfolding n(2) using assms(2) by (cases tab) (simp_all add: cps_decode.simps)
  show "cps_decode (unat (CPS1848_PORT_X_OPS p)) = None" by (simp add: n(3) cps_decode.simps)
qed

lemma cps_base_reg:
  assumes "port = RIO_ALL_PORTS \<or> unat port < 18" "i < cps_size tab"
  shows "cps_decode (unat (cps_base tab port + 4 * of_nat i)) = Some (tab, port, i)" "cps_base tab port + 4 * of_nat i \<noteq> 0x78"
proof -
  have one: "cps_base tab port + 4 * of_nat i = cps_reg tab port i" if "port \<noteq> RIO_ALL_PORTS"
    using that by (cases tab) (simp_all add: cps_base.simps cps_reg.simps CPS1848_PORT_X_DOM_RTE_TABLE_Y_def CPS1848_PORT_X_DEV_RTE_TABLE_Y_def CPS1848_PORT_X_MCAST_MASK_Y_def)
  have z: "unat (0 :: u8) < 18" by simp
  show d: "cps_decode (unat (cps_base tab port + 4 * of_nat i)) = Some (tab, port, i)"
    using assms cps_decode_reg(1) [of port i tab] cps_decode_reg(2) [OF z assms(2)] one by (cases "port = RIO_ALL_PORTS") simp_all
  show "cps_base tab port + 4 * of_nat i \<noteq> 0x78"
  proof
    assume "cps_base tab port + 4 * of_nat i = 0x78"
    with d show False by (simp add: cps_decode.simps)
  qed
qed

interpretation cps_switch: cps_tables cps_switch_host cps_switch_read cps_switch_write fst snd mm
proof
  show "ReadReg cps_switch_host = Some cps_switch_read" "WriteReg cps_switch_host = Some cps_switch_write" by (simp_all add: cps_switch_host_def)
  show "cps_switch_read d 0x78 h = (RIO_SUCCESS, snd h, h)" for d h by (simp add: cps_switch_read_def)
  show "rc = RIO_SUCCESS \<and> fst h' = fst h \<and> snd h' = x" if "cps_switch_write d 0x78 x h = (rc, h')" for d x h rc h'
    using that by (auto simp: cps_switch_write_def)
  show "rc = RIO_SUCCESS \<and> fst h' = fst h \<and> snd h' = snd h" if "cps_switch_write d 0xF20020 0 h = (rc, h')" for d h rc h'
    using that by (auto simp: cps_switch_write_def cps_decode.simps)
next
  fix p :: u8 and i tab d h
  assume a: "unat p < 18" "i < cps_size tab"
  have "cps_reg tab p i \<noteq> 0x78"
  proof
    assume "cps_reg tab p i = 0x78"
    with cps_decode_reg(1) [OF a] show False by (simp add: cps_decode.simps)
  qed
  then show "cps_switch_read d (cps_reg tab p i) h = (RIO_SUCCESS, fst h tab (unat p) i, h)" using cps_decode_reg(1) [OF a] by (simp add: cps_switch_read_def)
next
  fix tab x i and port :: u8 and d h rc h'
  assume "i < cps_size tab" "port = RIO_ALL_PORTS \<or> unat port < 18" "cps_switch_write d (cps_base tab port + 4 * of_nat i) x h = (rc, h')"
  then show "rc = RIO_SUCCESS \<and> fst h' = cps_upd tab port i x (fst h) \<and> snd h' = snd h"
    using cps_base_reg [of port i tab] by (auto simp: cps_switch_write_def)
next
  fix p :: u8 and d h rc x h'
  assume p: "unat p < 18"
  have o: "cps_decode (unat (CPS1848_PORT_X_OPS p)) = None" using cps_decode_reg(3) [OF p, of 0 L1] by simp
  have "unat (CPS1848_PORT_X_OPS p) \<noteq> 0x78" using cps_reg_nat(3) [OF p, of 0 L1] by simp
  then have n: "CPS1848_PORT_X_OPS p \<noteq> 0x78" by auto
  show "rc = RIO_SUCCESS \<and> h' = h" if "cps_switch_read d (CPS1848_PORT_X_OPS p) h = (rc, x, h')" using that o n by (auto simp: cps_switch_read_def)
  show "rc = RIO_SUCCESS \<and> fst h' = fst h \<and> snd h' = snd h" if "cps_switch_write d (CPS1848_PORT_X_OPS p) x h = (rc, h')"
    using that o n by (auto simp: cps_switch_write_def)
qed

section \<open>Properties\<close>

text \<open>
  Programming a CPS switch. Where the registers behave as described, setting all entries succeeds for every well-formed state, on one port or on all of them by
  broadcast; afterwards the default route, both routing tables and the masks of each of these ports are the codes of the values in the state, and no entry
  is marked as changed. Setting the changed entries does the same, provided that the entries that are not marked agree with the switch before, and so does an initialisation that updates
  the hardware, for the tables that it describes.
\<close>

theorem cps_set_programs:
  fixes s :: "'h dev"
  assumes "cps_tables P rd wr v dflt mm" "cps_device mm (dev_info s)" "d = dev_info s" "port = RIO_ALL_PORTS \<or> port < NUM_CPS_PORTS d" "cps_rt_wf d rt"
  shows "(\<exists>h1. CPS_rio_rt_set_all P port (Some rt) s = (RIO_SUCCESS, RIO_SUCCESS, Some (cps_unmarked d rt), s\<lparr>hw := h1\<rparr>) \<and>
        cps_rte_translate_std_to_CPS d (default_route rt) = Some (dflt h1) \<and> (\<forall>p\<in>cps_ports_of port. cps_match d (v h1) rt p)) \<and>
     ((\<forall>p\<in>cps_ports_of port. cps_unmarked_match d (v (hw s)) rt p) \<longrightarrow>
      (\<exists>h2. CPS_rio_rt_set_changed P port (Some rt) s = (RIO_SUCCESS, RIO_SUCCESS, Some (cps_unmarked d rt), s\<lparr>hw := h2\<rparr>) \<and>
        cps_rte_translate_std_to_CPS d (default_route rt) = Some (dflt h2) \<and> (\<forall>p\<in>cps_ports_of port. cps_match d (v h2) rt p))) \<and>
     (\<forall>q rt0. set_on_port q = port \<and> update_hw q \<and> rt = cps_rt_initial (init_default_route q) (default_route_table_port q) \<and>
        (default_route_table_port q < ucast (NUM_CPS_PORTS d) \<or> default_route_table_port q \<in> {RIO_RTE_DROP, RIO_RTE_DFLT_PORT}) \<longrightarrow>
      (\<exists>h3. CPS_rio_rt_initialize P q (Some rt0) s = (RIO_SUCCESS, RIO_SUCCESS, Some (cps_unmarked d rt), s\<lparr>hw := h3\<rparr>) \<and>
        cps_rte_translate_std_to_CPS d (default_route rt) = Some (dflt h3) \<and> (\<forall>p\<in>cps_ports_of port. cps_match d (v h3) rt p)))"
proof (intro conjI impI allI)
  note set = cps_tables.set_programs [OF assms]
  show "\<exists>h1. CPS_rio_rt_set_all P port (Some rt) s = (RIO_SUCCESS, RIO_SUCCESS, Some (cps_unmarked d rt), s\<lparr>hw := h1\<rparr>) \<and>
        cps_rte_translate_std_to_CPS d (default_route rt) = Some (dflt h1) \<and> (\<forall>p\<in>cps_ports_of port. cps_match d (v h1) rt p)"
    unfolding CPS_rio_rt_set_all_def by (rule set) simp
  show "\<exists>h2. CPS_rio_rt_set_changed P port (Some rt) s = (RIO_SUCCESS, RIO_SUCCESS, Some (cps_unmarked d rt), s\<lparr>hw := h2\<rparr>) \<and>
        cps_rte_translate_std_to_CPS d (default_route rt) = Some (dflt h2) \<and> (\<forall>p\<in>cps_ports_of port. cps_match d (v h2) rt p)"
    if "\<forall>p\<in>cps_ports_of port. cps_unmarked_match d (v (hw s)) rt p"
    unfolding CPS_rio_rt_set_changed_def using that by (intro set) simp
  fix q :: rio_rt_initialize_in_t and rt0
  assume q: "set_on_port q = port \<and> update_hw q \<and> rt = cps_rt_initial (init_default_route q) (default_route_table_port q) \<and>
        (default_route_table_port q < ucast (NUM_CPS_PORTS d) \<or> default_route_table_port q \<in> {RIO_RTE_DROP, RIO_RTE_DFLT_PORT})"
  have "init_default_route q < ucast (NUM_CPS_PORTS d) \<or> init_default_route q = 0x300" using cps_rt_wfD(5) [OF assms(5)] q by (simp add: cps_rt_initial_def)
  then show "\<exists>h3. CPS_rio_rt_initialize P q (Some rt0) s = (RIO_SUCCESS, RIO_SUCCESS, Some (cps_unmarked d rt), s\<lparr>hw := h3\<rparr>) \<and>
        cps_rte_translate_std_to_CPS d (default_route rt) = Some (dflt h3) \<and> (\<forall>p\<in>cps_ports_of port. cps_match d (v h3) rt p)"
    using cps_tables.initialize_programs [OF assms(1-3), of q rt rt0] q assms(4) by auto
qed

definition cps_dev1 :: "cps_switch dev" where
  "cps_dev1 = \<lparr>dev_info = cps_dev, hw = (\<lambda>_ _ _. 0, 0)\<rparr>"

lemma cps_example:
  "cps_device 0x3FFFF (dev_info cps_dev1)" "cps_dev = dev_info cps_dev1" "cps_rt_wf cps_dev cps_rt2"
proof -
  show "cps_dev = dev_info cps_dev1" by (simp add: cps_dev1_def)
  have "DEV_CODE cps_dev = 0x0374" by (simp add: DEV_CODE_def cps_dev_def)
  then show "cps_device 0x3FFFF (dev_info cps_dev1)"
    by (simp add: cps_device_def cps_dev1_def cps_dev_facts cps_mask_mask_def cps_ports_def)
  have "cps_rt_wf cps_dev (cps_rt_initial 2 0x301)" by (rule cps_wf_initial) (simp_all add: cps_dev_facts)
  then show "cps_rt_wf cps_dev cps_rt2" by (rule cps_wf_change_mc_mask [OF _ _ cps_example_run]) (simp add: cps_mc_def)
qed

theorem cps_set_programs_witness:
  "\<exists>h1. CPS_rio_rt_set_all cps_switch_host RIO_ALL_PORTS (Some cps_rt2) cps_dev1 = (RIO_SUCCESS, RIO_SUCCESS, Some (cps_unmarked cps_dev cps_rt2), cps_dev1\<lparr>hw := h1\<rparr>) \<and>
     cps_match cps_dev (fst h1) cps_rt2 7"
proof -
  have 7: "7 \<in> cps_ports_of RIO_ALL_PORTS" by (simp add: cps_ports_of_def)
  show ?thesis using cps_set_programs [OF cps_switch.cps_tables_axioms cps_example(1,2) disjI1 [OF refl] cps_example(3)] 7 by blast
qed

text \<open>
  C21. What is programmed into a CPS switch is read back. The device has at most 18 ports, none of them beyond the ports of its masks, and no copies of registers; its
  registers behave as the locale \<open>cps_tables\<close> says. After the tables of a port have been set from a well-formed state, alone or by broadcast, reading them into any other
  state succeeds, leaves the switch alone, and gives the same default route, domain table and device table with nothing marked as changed; the masks have their ports,
  and exactly the masks that an entry of the device table selects are in use.
\<close>

theorem cps_probe_all_roundtrip:
  fixes s :: "'h dev"
  assumes "cps_tables P rd wr v dflt mm" "cps_device mm (dev_info s)" "d = dev_info s" "port = RIO_ALL_PORTS \<or> port < NUM_CPS_PORTS d" "cps_rt_wf d rt"
    and "q < NUM_CPS_PORTS d" "unat q \<in> cps_ports_of port"
    and "length (dev_table rt') = RIO_RT_GRP_SZ" "length (dom_table rt') = RIO_RT_GRP_SZ" "length (mc_masks rt') = RIO_MAX_MC_MASKS"
  shows "\<exists>s1 rt2. CPS_rio_rt_set_all P port (Some rt) s = (RIO_SUCCESS, RIO_SUCCESS, Some (cps_unmarked d rt), s1) \<and>
     CPS_rio_rt_probe_all P q (Some rt') s1 = (RIO_SUCCESS, RIO_SUCCESS, Some rt2, s1) \<and>
     default_route rt2 = default_route rt \<and> (\<forall>tt did. rt_lookup rt2 tt did = rt_lookup rt tt did) \<and>
     (\<forall>i<RIO_RT_GRP_SZ. \<not> uc_changed (dom_table rt2 ! i) \<and> \<not> uc_changed (dev_table rt2 ! i)) \<and>
     (\<forall>m<RIO_MAX_MC_MASKS. in_use (mc_masks rt2 ! m) \<longleftrightarrow> selected rt RIO_RT_GRP_SZ m) \<and>
     (\<forall>m<unat (NUM_CPS_MC_MASKS d). mc_mask (mc_masks rt2 ! m) = mc_mask (mc_masks rt ! m))"
proof -
  obtain h1 where h1: "CPS_rio_rt_set_all P port (Some rt) s = (RIO_SUCCESS, RIO_SUCCESS, Some (cps_unmarked d rt), s\<lparr>hw := h1\<rparr>)"
    "cps_rte_translate_std_to_CPS d (default_route rt) = Some (dflt h1)" "cps_match d (v h1) rt (unat q)"
    using cps_tables.set_programs [OF assms(1-5), of True] assms(7) by (auto simp: CPS_rio_rt_set_all_def)
  obtain rt2 where rt2: "CPS_rio_rt_probe_all P q (Some rt') (s\<lparr>hw := h1\<rparr>) = (RIO_SUCCESS, RIO_SUCCESS, Some rt2, s\<lparr>hw := h1\<rparr>)" "cps_has_read d rt 256 256 rt2"
    using cps_tables.probe_all_reads [OF assms(1), of "s\<lparr>hw := h1\<rparr>" d q rt rt'] assms h1(2,3) by auto
  have e: "dom_table rt2 ! i = \<lparr>rte_val = rte_val (dom_table rt ! i), uc_changed = False\<rparr>" "dev_table rt2 ! i = \<lparr>rte_val = rte_val (dev_table rt ! i), uc_changed = False\<rparr>"
    if "i < 256" for i using rt2(2) that by (simp_all add: cps_has_read_def)
  then have "rt_lookup rt2 tt did = rt_lookup rt tt did" for tt did using index_u8(3,4) [of did] by (simp add: rt_lookup_def Let_def)
  then show ?thesis using h1(1) rt2 e by (intro exI [of _ "s\<lparr>hw := h1\<rparr>"] exI [of _ rt2]) (simp add: cps_has_read_def)
qed

theorem cps_probe_all_roundtrip_witness:
  "\<exists>s1 rt2. CPS_rio_rt_set_all cps_switch_host RIO_ALL_PORTS (Some cps_rt2) cps_dev1 = (RIO_SUCCESS, RIO_SUCCESS, Some (cps_unmarked cps_dev cps_rt2), s1) \<and>
     CPS_rio_rt_probe_all cps_switch_host 5 (Some (cps_rt_initial 0 0)) s1 = (RIO_SUCCESS, RIO_SUCCESS, Some rt2, s1) \<and>
     rt_lookup rt2 tt_dev16 0x0611 = 0x100 \<and> in_use (mc_masks rt2 ! 0) \<and> mc_mask (mc_masks rt2 ! 0) = 0x0E"
proof -
  have t: "dev_table cps_rt2 ! 0x11 = \<lparr>rte_val = 0x100, uc_changed = True\<rparr>" "rte_val (dom_table cps_rt2 ! 6) = 0x200" "mc_mask (mc_masks cps_rt2 ! 0) = 0x0E"
    by (simp_all add: cps_rt2_def cps_mask_set_def cps_mask_marked_def cps_mc_def dom_index_def set_entry_def cps_rt_initial_def cps_ports_def cps_dev_facts Let_def)
  have sel: "selected cps_rt2 256 0" unfolding selected_def by (rule exI [of _ 17]) (simp add: t RIO_RTV_IS_MC_MSK_def)
  have l: "rt_lookup cps_rt2 tt_dev16 0x0611 = 0x100" by (simp add: rt_lookup_def dom_index_def dev_index_def t)
  have q: "5 < NUM_CPS_PORTS cps_dev" "unat (5 :: u8) \<in> cps_ports_of RIO_ALL_PORTS" by (simp_all add: cps_dev_facts cps_ports_of_def)
  have len: "length (dev_table (cps_rt_initial 0 0)) = 256" "length (dom_table (cps_rt_initial 0 0)) = 256" "length (mc_masks (cps_rt_initial 0 0)) = 256"
    by (simp_all add: cps_rt_initial_def)
  show ?thesis using cps_probe_all_roundtrip [OF cps_switch.cps_tables_axioms cps_example(1,2) disjI1 [OF refl] cps_example(3) q len] l sel t(3)
    by (auto simp: cps_dev_facts)
qed

end
