(* ===== verification/Tsi_Rt.thy ===== *)
theory Tsi_Rt
  imports Rt_Check
begin

unbundle bit_operations_syntax

text \<open>
  Routing tables of Tsi57x switches, \<^verbatim>\<open>fabric_management/librio/src/Tsi57x_RT.c\<close>. The tables of a port are accessed through an index register and a data register; the multicast
  masks are common to all ports. The loops over the ports of a device run over at least one port: for a device without ports the loop of the C code, whose counter and bound
  are bytes, does not end, and is empty in the model.
\<close>

section \<open>Registers\<close>

definition TSI57X_NUM_PORTS :: "DAR_DEV_INFO_t \<Rightarrow> u8" where
  "TSI57X_NUM_PORTS d = (if NUM_PORTS d > 16 then 16 else NUM_PORTS d)"

abbreviation (input) TSI578_MAX_MC_MASKS :: nat where "TSI578_MAX_MC_MASKS \<equiv> 8"
abbreviation (input) TSI578_RIO_LUT_ATTR :: u32 where "TSI578_RIO_LUT_ATTR \<equiv> 0x78"
abbreviation (input) HW_DFLT_RT :: u32 where "HW_DFLT_RT \<equiv> 0xFF"
abbreviation (input) RIO_ERR_ROUTE_ERROR :: u32 where "RIO_ERR_ROUTE_ERROR \<equiv> 0x1008"
abbreviation (input) RIO_ERR_RT_CORRUPTED :: u32 where "RIO_ERR_RT_CORRUPTED \<equiv> 0x100E"

definition TSI578_SPX_CTL :: "u8 \<Rightarrow> u32" where "TSI578_SPX_CTL X = 0x15C + 0x20 * ucast X"
definition TSI578_SPX_MODE :: "nat \<Rightarrow> u32" where "TSI578_SPX_MODE X = 0x11004 + 0x100 * of_nat X"
definition TSI578_SPX_ROUTE_CFG_DESTID :: "nat \<Rightarrow> u32" where "TSI578_SPX_ROUTE_CFG_DESTID X = 0x11070 + 0x100 * of_nat X"
definition TSI578_SPX_ROUTE_CFG_PORT :: "nat \<Rightarrow> u32" where "TSI578_SPX_ROUTE_CFG_PORT X = 0x11074 + 0x100 * of_nat X"
definition TSI578_SPX_ROUTE_BASE :: "nat \<Rightarrow> u32" where "TSI578_SPX_ROUTE_BASE X = 0x11078 + 0x100 * of_nat X"
definition TSI578_RIO_MC_IDX :: "nat \<Rightarrow> u32" where "TSI578_RIO_MC_IDX X = 0x10300 + 4 * of_nat X"
definition TSI578_RIO_MC_MSKX :: "nat \<Rightarrow> u32" where "TSI578_RIO_MC_MSKX X = 0x10320 + 4 * of_nat X"

text \<open>The ports that a function works on.\<close>

definition tsi_ports :: "DAR_DEV_INFO_t \<Rightarrow> u8 \<Rightarrow> nat list" where
  "tsi_ports d pnum = (if pnum = RIO_ALL_PORTS then [0..<unat (TSI57X_NUM_PORTS d)] else [unat pnum])"

section \<open>Multicast masks\<close>

definition tsi_read_mask :: "'h host \<Rightarrow> nat \<Rightarrow> rio_rt_state_t \<times> 'h dev \<Rightarrow> u32 \<times> u32 \<times> rio_rt_state_t \<times> 'h dev" where
  "tsi_read_mask P i st =
     (let (rt, s) = st; (rc, x, s1) = DARRegRead P (TSI578_RIO_MC_IDX i) s in
      if rc \<noteq> RIO_SUCCESS then (rc, 0x4010C001, rt, s1)
      else
        (let tt = (if x AND 0x40000000 \<noteq> 0 then tt_dev16 else tt_dev8);
             m = (mc_masks rt ! i)\<lparr>allocd := False, mc_changed := False, mc_tt := tt, in_use := (x AND 0x80000000 \<noteq> 0),
               mc_destID := x AND (if tt = tt_dev16 then 0xFFFF else 0xFF)\<rparr>;
             rt1 = rt\<lparr>mc_masks := (mc_masks rt)[i := m]\<rparr>; (rc, y, s2) = DARRegRead P (TSI578_RIO_MC_MSKX i) s1 in
         if rc \<noteq> RIO_SUCCESS then (rc, 0x4010C002, rt1, s2)
         else if y AND NOT 0xFFFF0000 \<noteq> 0 then (RIO_ERR_RT_CORRUPTED, 0x4010C003, rt1, s2)
         else (RIO_SUCCESS, RIO_SUCCESS, rt\<lparr>mc_masks := (mc_masks rt)[i := m\<lparr>mc_mask := drop_bit 16 (y AND 0xFFFF0000)\<rparr>]\<rparr>, s2)))"

definition tsi57x_read_mc_masks :: "'h host \<Rightarrow> rio_rt_state_t \<times> 'h dev \<Rightarrow> u32 \<times> u32 \<times> rio_rt_state_t \<times> 'h dev" where
  "tsi57x_read_mc_masks P st =
     (let (rc, imp, st1) = for_each release_mask [TSI578_MAX_MC_MASKS..<RIO_MAX_MC_MASKS] st in
      if rc \<noteq> RIO_SUCCESS then (rc, imp, st1) else for_each (tsi_read_mask P) [0..<TSI578_MAX_MC_MASKS] st1)"

text \<open>
  The loop that programs the masks returns the code of the last register write when it finds a mask with a port that does not exist: success, if a mask has been written before.
\<close>

definition tsi_mask_regs :: "rio_rt_mc_info_t \<Rightarrow> u32 \<times> u32" where
  "tsi_mask_regs m = (mc_destID m OR (if mc_tt m = tt_dev16 then 0x40000000 else 0) OR (if in_use m then 0x80000000 else 0), push_bit 16 (mc_mask m) AND 0xFFFF0000)"

primrec tsi_program_masks ::
  "'h host \<Rightarrow> u32 \<Rightarrow> bool \<Rightarrow> nat list \<Rightarrow> u32 \<Rightarrow> rio_rt_state_t \<times> 'h dev \<Rightarrow> u32 \<times> u32 \<times> rio_rt_state_t \<times> 'h dev" where
  "tsi_program_masks P bad_ports prog_all [] rc st = (RIO_SUCCESS, RIO_SUCCESS, st)"
| "tsi_program_masks P bad_ports prog_all (i # is) rc st =
     (let (rt, s) = st; m = mc_masks rt ! i in
      if bad_ports AND mc_mask m \<noteq> 0 then (rc, 0x4010B002, rt, s)
      else if \<not> (prog_all \<or> mc_changed m) then tsi_program_masks P bad_ports prog_all is rc st
      else
        (let rt1 = rt\<lparr>mc_masks := (mc_masks rt)[i := m\<lparr>mc_changed := False\<rparr>]\<rparr>; (x, y) = tsi_mask_regs m;
             (rc1, s1) = DARRegWrite P (TSI578_RIO_MC_IDX i) x s in
         if rc1 \<noteq> RIO_SUCCESS then (rc1, 0x4010B003, rt1, s1)
         else
           (let (rc2, s2) = DARRegWrite P (TSI578_RIO_MC_MSKX i) y s1
            in if rc2 \<noteq> RIO_SUCCESS then (rc2, 0x4010B004, rt1, s2) else tsi_program_masks P bad_ports prog_all is rc2 (rt1, s2))))"

definition program_mc_masks :: "'h host \<Rightarrow> bool \<Rightarrow> rio_rt_state_t \<times> 'h dev \<Rightarrow> u32 \<times> u32 \<times> rio_rt_state_t \<times> 'h dev" where
  "program_mc_masks P prog_all st =
     (let rt = fst st; bad_ports = NOT (push_bit (unat (TSI57X_NUM_PORTS (dev_info (snd st)))) 1 - 1) in
      if list_ex (\<lambda>i. in_use (mc_masks rt ! i) \<or> mc_changed (mc_masks rt ! i) \<or> allocd (mc_masks rt ! i)) [TSI578_MAX_MC_MASKS..<RIO_MAX_MC_MASKS]
      then (RIO_ERR_INVALID_PARAMETER, 0x4010B001, st)
      else tsi_program_masks P bad_ports prog_all [0..<TSI578_MAX_MC_MASKS] RIO_ERR_INVALID_PARAMETER st)"

section \<open>Reading the tables\<close>

text \<open>A value that is read: \<open>0xFF\<close> stands for the default route.\<close>

definition tsi_rte_of :: "u32 \<Rightarrow> u32" where
  "tsi_rte_of x = (if x = HW_DFLT_RT then RIO_RTE_DFLT_PORT else x AND 0xFF)"

text \<open>One round of both loops; the codes of the errors are arguments.\<close>

definition tsi_read_entry ::
  "'h host \<Rightarrow> nat \<Rightarrow> bool \<Rightarrow> u32 \<Rightarrow> u32 \<Rightarrow> (nat \<Rightarrow> u32) \<Rightarrow> nat \<Rightarrow> rio_rt_state_t \<times> 'h dev \<Rightarrow> u32 \<times> u32 \<times> rio_rt_state_t \<times> 'h dev" where
  "tsi_read_entry P pnum is_dom c1 c2 idx_val i st =
     (let (rt, s) = st; rt0 = store_entry is_dom i ((table_of is_dom rt ! i)\<lparr>uc_changed := False\<rparr>) rt;
          (rc, s1) = DARRegWrite P (TSI578_SPX_ROUTE_CFG_DESTID pnum) (idx_val i) s in
      if rc \<noteq> RIO_SUCCESS then (rc, c1, rt0, s1)
      else
        (let (rc, x, s2) = DARRegRead P (TSI578_SPX_ROUTE_CFG_PORT pnum) s1 in
         if rc \<noteq> RIO_SUCCESS then (rc, c2, rt0, s2)
         else (RIO_SUCCESS, RIO_SUCCESS, store_entry is_dom i \<lparr>rte_val = tsi_rte_of x, uc_changed = False\<rparr> rt, s2)))"

definition tsi57x_read_rte_entries :: "'h host \<Rightarrow> nat \<Rightarrow> rio_rt_state_t \<times> 'h dev \<Rightarrow> u32 \<times> u32 \<times> rio_rt_state_t \<times> 'h dev" where
  "tsi57x_read_rte_entries P pnum st =
     (let (rt, s) = st; (rc, x, s1) = DARRegRead P TSI578_RIO_LUT_ATTR s in
      if rc \<noteq> RIO_SUCCESS then (rc, 0x4010D001, rt, s1)
      else
        (let rt1 = rt\<lparr>default_route := if x AND 0xFF = HW_DFLT_RT then RIO_RTE_DROP else x AND 0xFF\<rparr>;
             (rc, base_reg, s2) = DARRegRead P (TSI578_SPX_ROUTE_BASE pnum) s1 in
         if rc \<noteq> RIO_SUCCESS then (rc, 0x4010D00A, rt1, s2)
         else
           (let (rc, imp, rt2, s3) = for_each (tsi_read_entry P pnum True 0x4010D007 0x4010D008 (\<lambda>i. push_bit 8 (of_nat i))) [0..<RIO_RT_GRP_SZ] (rt1, s2) in
            if rc \<noteq> RIO_SUCCESS then (rc, imp, rt2, s3)
            else
              (let b = unat (drop_bit 24 (base_reg AND 0xFF000000));
                   rt3 = store_entry True b ((dom_table rt2 ! b)\<lparr>rte_val := RIO_RTE_LVL_G0\<rparr>) rt2
               in for_each (tsi_read_entry P pnum False 0x4010D003 0x4010D004 (\<lambda>i. push_bit 8 (of_nat b) + of_nat i)) [0..<RIO_RT_GRP_SZ] (rt3, s3)))))"

definition tsi57x_rio_rt_probe_all ::
  "'h host \<Rightarrow> u8 \<Rightarrow> rio_rt_state_t option \<Rightarrow> 'h dev \<Rightarrow> u32 \<times> u32 \<times> rio_rt_state_t option \<times> 'h dev" where
  "tsi57x_rio_rt_probe_all P port rt_opt s =
     (case rt_opt of
        None \<Rightarrow> (RIO_ERR_INVALID_PARAMETER, 0x40001201, None, s)
      | Some rt \<Rightarrow>
          if port \<noteq> RIO_ALL_PORTS \<and> port \<ge> TSI57X_NUM_PORTS (dev_info s) then (RIO_ERR_INVALID_PARAMETER, 0x40001201, Some rt, s)
          else
            (let probe_port = (if port = RIO_ALL_PORTS then 0 else unat port); (rc, imp, rt1, s1) = tsi57x_read_mc_masks P (rt, s) in
             if rc \<noteq> RIO_SUCCESS then (rc, imp, Some rt1, s1)
             else (let (rc, imp, rt2, s2) = tsi57x_read_rte_entries P probe_port (rt1, s1) in (rc, imp, Some rt2, s2))))"

section \<open>Programming the tables\<close>

text \<open>The value and the bits added to the index that program an entry; \<open>None\<close> for a value that the device does not have.\<close>

definition tsi_code :: "DAR_DEV_INFO_t \<Rightarrow> u32 \<Rightarrow> (u32 \<times> u32) option" where
  "tsi_code d v =
     (if v = RIO_RTE_DFLT_PORT then Some (HW_DFLT_RT, 0)
      else if v = RIO_RTE_DROP then Some (HW_DFLT_RT, 0x40000000)
      else if ucast (TSI57X_NUM_PORTS d) \<le> v then None
      else Some (v, 0))"

definition tsi_write_entry :: "'h host \<Rightarrow> u32 \<Rightarrow> u32 \<Rightarrow> u32 \<Rightarrow> u32 \<Rightarrow> nat \<Rightarrow> 'h dev \<Rightarrow> u32 \<times> u32 \<times> 'h dev" where
  "tsi_write_entry P c1 c2 idx_val x port s =
     (let (rc, s1) = DARRegWrite P (TSI578_SPX_ROUTE_CFG_DESTID port) idx_val s in
      if rc \<noteq> RIO_SUCCESS then (rc, c1, s1)
      else (let (rc, s2) = DARRegWrite P (TSI578_SPX_ROUTE_CFG_PORT port) x s1 in (rc, if rc \<noteq> RIO_SUCCESS then c2 else RIO_SUCCESS, s2)))"

definition tsi_clear_changed :: "bool \<Rightarrow> nat \<Rightarrow> rio_rt_state_t \<Rightarrow> rio_rt_state_t" where
  "tsi_clear_changed is_dom i rt = store_entry is_dom i ((table_of is_dom rt ! i)\<lparr>uc_changed := False\<rparr>) rt"

definition tsi_program_dom ::
  "'h host \<Rightarrow> nat list \<Rightarrow> bool \<Rightarrow> nat \<Rightarrow> rio_rt_state_t \<times> 'h dev \<Rightarrow> u32 \<times> u32 \<times> rio_rt_state_t \<times> 'h dev" where
  "tsi_program_dom P ports prog_all i st =
     (let (rt, s) = st; u = dom_table rt ! i in
      if \<not> (prog_all \<or> uc_changed u) then (RIO_SUCCESS, RIO_SUCCESS, rt, s)
      else if rte_val u = RIO_RTE_LVL_G0 then (RIO_SUCCESS, RIO_SUCCESS, tsi_clear_changed True i rt, s)
      else
        (case tsi_code (dev_info s) (rte_val u) of
           None \<Rightarrow> (RIO_ERR_INVALID_PARAMETER, 0x4010A003, rt, s)
         | Some (x, flag) \<Rightarrow>
             (let (rc, imp, s1) = for_each (tsi_write_entry P 0x4010A004 0x4010A005 (push_bit 8 (of_nat i) OR flag) x) ports s
              in if rc \<noteq> RIO_SUCCESS then (rc, imp, rt, s1) else (RIO_SUCCESS, RIO_SUCCESS, tsi_clear_changed True i rt, s1))))"

definition tsi_program_dev ::
  "'h host \<Rightarrow> nat list \<Rightarrow> u32 \<Rightarrow> bool \<Rightarrow> nat \<Rightarrow> rio_rt_state_t \<times> 'h dev \<Rightarrow> u32 \<times> u32 \<times> rio_rt_state_t \<times> 'h dev" where
  "tsi_program_dev P ports baseID prog_all i st =
     (let (rt, s) = st; u = dev_table rt ! i in
      if \<not> (prog_all \<or> uc_changed u) then (RIO_SUCCESS, RIO_SUCCESS, rt, s)
      else
        (case (if rte_val u = RIO_RTE_LVL_G0 then None else tsi_code (dev_info s) (rte_val u)) of
           None \<Rightarrow> (RIO_ERR_INVALID_PARAMETER, 0x4010A007, rt, s)
         | Some (x, flag) \<Rightarrow>
             (let (rc, imp, s1) = for_each (tsi_write_entry P 0x4010A008 0x4010A009 ((baseID + of_nat i) OR flag) x) ports s
              in if rc \<noteq> RIO_SUCCESS then (rc, imp, rt, s1) else (RIO_SUCCESS, RIO_SUCCESS, tsi_clear_changed False i rt, s1))))"

definition tsi_write_base :: "'h host \<Rightarrow> u32 \<Rightarrow> nat \<Rightarrow> 'h dev \<Rightarrow> u32 \<times> u32 \<times> 'h dev" where
  "tsi_write_base P baseID port s =
     (let (rc, s1) = DARRegWrite P (TSI578_SPX_ROUTE_BASE port) (push_bit 16 baseID) s in (rc, if rc \<noteq> RIO_SUCCESS then 0x4010A006 else RIO_SUCCESS, s1))"

definition tsi_groups :: "rio_rt_state_t \<Rightarrow> nat list" where
  "tsi_groups rt = filter (\<lambda>i. rte_val (dom_table rt ! i) = RIO_RTE_LVL_G0) [0..<RIO_RT_GRP_SZ]"

definition program_rte_entries ::
  "'h host \<Rightarrow> u8 \<Rightarrow> bool \<Rightarrow> rio_rt_state_t \<times> 'h dev \<Rightarrow> u32 \<times> u32 \<times> rio_rt_state_t \<times> 'h dev" where
  "program_rte_entries P pnum prog_all st =
     (let (rt, s) = st; ports = tsi_ports (dev_info s) pnum;
          (rc, s1) = DARRegWrite P TSI578_RIO_LUT_ATTR (if default_route rt = RIO_RTE_DROP then HW_DFLT_RT AND 0xFF else default_route rt AND 0xFF) s in
      if rc \<noteq> RIO_SUCCESS then (rc, 0x4010A001, rt, s1)
      else if length (tsi_groups rt) \<ge> 2 then (RIO_ERR_INVALID_PARAMETER, 0x4010A002, rt, s1)
      else
        (let baseID = (case tsi_groups rt of [] \<Rightarrow> 0 | i # _ \<Rightarrow> push_bit 8 (of_nat i)); (rc, imp, s2) = for_each (tsi_write_base P baseID) ports s1 in
         if rc \<noteq> RIO_SUCCESS then (rc, imp, rt, s2)
         else
           (let (rc, imp, st3) = for_each (tsi_program_dom P ports prog_all) [0..<RIO_RT_GRP_SZ] (rt, s2)
            in if rc \<noteq> RIO_SUCCESS then (rc, imp, st3) else for_each (tsi_program_dev P ports baseID prog_all) [0..<RIO_RT_GRP_SZ] st3)))"

definition tsi_set_common ::
  "'h host \<Rightarrow> u32 \<Rightarrow> u32 \<Rightarrow> bool \<Rightarrow> u8 \<Rightarrow> rio_rt_state_t option \<Rightarrow> 'h dev \<Rightarrow> u32 \<times> u32 \<times> rio_rt_state_t option \<times> 'h dev" where
  "tsi_set_common P c1 c2 prog_all port rt_opt s =
     (case rt_opt of
        None \<Rightarrow> (RIO_ERR_INVALID_PARAMETER, c1, None, s)
      | Some rt \<Rightarrow>
          if port \<noteq> RIO_ALL_PORTS \<and> port \<ge> TSI57X_NUM_PORTS (dev_info s) then (RIO_ERR_INVALID_PARAMETER, c1, Some rt, s)
          else if ucast (TSI57X_NUM_PORTS (dev_info s)) \<le> default_route rt \<and> default_route rt \<noteq> RIO_RTE_DROP then (RIO_ERR_INVALID_PARAMETER, c2, Some rt, s)
          else
            (let (rc, imp, rt1, s1) = program_mc_masks P prog_all (rt, s) in
             if rc \<noteq> RIO_SUCCESS then (rc, imp, Some rt1, s1)
             else (let (rc, imp, rt2, s2) = program_rte_entries P port prog_all (rt1, s1) in (rc, imp, Some rt2, s2))))"

definition tsi57x_rio_rt_set_all ::
  "'h host \<Rightarrow> u8 \<Rightarrow> rio_rt_state_t option \<Rightarrow> 'h dev \<Rightarrow> u32 \<times> u32 \<times> rio_rt_state_t option \<times> 'h dev" where
  "tsi57x_rio_rt_set_all P port rt_opt s = tsi_set_common P 0x40001301 0x40001302 True port rt_opt s"

definition tsi57x_rio_rt_set_changed ::
  "'h host \<Rightarrow> u8 \<Rightarrow> rio_rt_state_t option \<Rightarrow> 'h dev \<Rightarrow> u32 \<times> u32 \<times> rio_rt_state_t option \<times> 'h dev" where
  "tsi57x_rio_rt_set_changed P port rt_opt s = tsi_set_common P 0x40001401 0x40001402 False port rt_opt s"

section \<open>Initialisation\<close>

text \<open>The masks are to be programmed only when all ports are initialised.\<close>

definition tsi_rt_initial :: "rio_rt_initialize_in_t \<Rightarrow> rio_rt_state_t" where
  "tsi_rt_initial p =
     (let v = default_route_table_port p; chg = (set_on_port p = RIO_ALL_PORTS) in
      \<lparr>default_route = init_default_route p, dev_table = replicate RIO_RT_GRP_SZ \<lparr>rte_val = v, uc_changed = True\<rparr>,
       dom_table = \<lparr>rte_val = RIO_RTE_LVL_G0, uc_changed = True\<rparr> # replicate (RIO_RT_GRP_SZ - 1) \<lparr>rte_val = v, uc_changed = True\<rparr>,
       mc_masks = replicate TSI578_MAX_MC_MASKS (mc_unused\<lparr>mc_changed := chg\<rparr>) @ replicate (RIO_MAX_MC_MASKS - TSI578_MAX_MC_MASKS) (mc_unused\<lparr>mc_changed := False\<rparr>)\<rparr>)"

definition tsi_set_mode :: "'h host \<Rightarrow> nat \<Rightarrow> 'h dev \<Rightarrow> u32 \<times> u32 \<times> 'h dev" where
  "tsi_set_mode P port s =
     (let (rc, x, s1) = DARRegRead P (TSI578_SPX_MODE port) s in
      if rc \<noteq> RIO_SUCCESS then (rc, 0x40001004, s1)
      else (let (rc, s2) = DARRegWrite P (TSI578_SPX_MODE port) (x AND NOT 0x01000000) s1 in (rc, if rc \<noteq> RIO_SUCCESS then 0x40001005 else RIO_SUCCESS, s2)))"

definition tsi57x_rio_rt_initialize ::
  "'h host \<Rightarrow> rio_rt_initialize_in_t \<Rightarrow> rio_rt_state_t option \<Rightarrow> 'h dev \<Rightarrow> u32 \<times> u32 \<times> rio_rt_state_t option \<times> 'h dev" where
  "tsi57x_rio_rt_initialize P p rt_opt s =
     (let n = TSI57X_NUM_PORTS (dev_info s) in
      if init_default_route p \<ge> ucast n \<and> init_default_route p \<noteq> RIO_RTE_DFLT_PORT \<and> init_default_route p \<noteq> RIO_RTE_DROP then
        (RIO_ERR_INVALID_PARAMETER, 0x40001001, rt_opt, s)
      else if default_route_table_port p \<ge> ucast n \<and> default_route_table_port p \<noteq> RIO_RTE_DROP then (RIO_ERR_INVALID_PARAMETER, 0x40001002, rt_opt, s)
      else if set_on_port p \<ge> n \<and> set_on_port p \<noteq> RIO_ALL_PORTS then (RIO_ERR_INVALID_PARAMETER, 0x40001003, rt_opt, s)
      else
        (let rt = tsi_rt_initial p; ret = (\<lambda>rt'. if rt_opt = None then None else rt') in
         if \<not> update_hw p then (RIO_SUCCESS, RIO_SUCCESS, ret (Some rt), s)
         else
           (let (rc, imp, s1) = for_each (tsi_set_mode P) (tsi_ports (dev_info s) (set_on_port p)) s in
            if rc \<noteq> RIO_SUCCESS then (rc, imp, map_option (\<lambda>r. r\<lparr>default_route := init_default_route p\<rparr>) rt_opt, s1)
            else (let (rc, imp, rt', s2) = tsi57x_rio_rt_set_changed P (set_on_port p) (Some rt) s1
                  in (rc, if rc \<noteq> RIO_SUCCESS then imp else RIO_SUCCESS, ret rt', s2)))))"

section \<open>Changing the tables\<close>

text \<open>Only one domain uses the device table: a change to that value drops every other domain with it.\<close>

definition tsi_drop_others :: "nat \<Rightarrow> rio_rt_uc_info_t list \<Rightarrow> rio_rt_uc_info_t list" where
  "tsi_drop_others i us = map (\<lambda>j. if j \<noteq> i \<and> rte_val (us ! j) = RIO_RTE_LVL_G0 then uc_drop else us ! j) [0..<length us]"

definition tsi57x_rio_rt_change_rte :: "DAR_DEV_INFO_t \<Rightarrow> rio_rt_change_rte_in_t \<Rightarrow> rio_rt_state_t option \<Rightarrow> u32 \<times> u32 \<times> rio_rt_state_t option" where
  "tsi57x_rio_rt_change_rte d p rt_opt =
     (case rt_opt of
        None \<Rightarrow> (RIO_ERR_INVALID_PARAMETER, 0x40001701, None)
      | Some rt \<Rightarrow>
          (let v = rte_value p; i = unat (rte_idx p) in
           if v \<noteq> RIO_RTE_LVL_G0 \<and> v \<noteq> RIO_RTE_DFLT_PORT \<and> v \<noteq> RIO_RTE_DROP \<and> v \<ge> ucast (TSI57X_NUM_PORTS d) then
             (RIO_ERR_INVALID_PARAMETER, 0x40001702, Some rt)
           else if v = RIO_RTE_LVL_G0 \<and> \<not> dom_entry p then (RIO_ERR_INVALID_PARAMETER, 0x40001703, Some rt)
           else
             (let rt1 = store_entry (dom_entry p) i (change_entry v (table_of (dom_entry p) rt ! i)) rt
              in (RIO_SUCCESS, RIO_SUCCESS, Some (if v = RIO_RTE_LVL_G0 then rt1\<lparr>dom_table := tsi_drop_others i (dom_table rt1)\<rparr> else rt1)))))"

definition tsi_mark_mask :: "rio_rt_mc_info_t \<Rightarrow> rio_rt_mc_info_t \<Rightarrow> rio_rt_mc_info_t" where
  "tsi_mark_mask info m =
     m\<lparr>mc_changed := mc_changed m \<or> mc_destID m \<noteq> mc_destID info \<or> mc_tt m \<noteq> mc_tt info \<or> mc_mask m \<noteq> mc_mask info \<or> in_use m \<noteq> in_use info,
       in_use := in_use info, mc_destID := mc_destID info, mc_tt := mc_tt info, mc_mask := mc_mask info\<rparr>"

definition tsi57x_rio_rt_change_mc_mask :: "rio_rt_change_mc_mask_in_t \<Rightarrow> rio_rt_state_t option \<Rightarrow> u32 \<times> u32 \<times> rio_rt_state_t option" where
  "tsi57x_rio_rt_change_mc_mask p rt_opt =
     (case rt_opt of
        None \<Rightarrow> (RIO_ERR_INVALID_PARAMETER, 0x40001801, None)
      | Some rt \<Rightarrow>
          (let info = mc_info p; k = unat (ucast (RIO_RTV_GET_MC_MSK (mc_mask_rte p)) :: u8) in
           if mc_destID info > 0xFFFF \<or> (mc_destID info > 0xFF \<and> mc_tt info = tt_dev8) \<or> mc_mask info AND NOT (push_bit 16 1 - 1) \<noteq> 0 then
             (RIO_ERR_INVALID_PARAMETER, 0x40001802, Some rt)
           else if list_ex (\<lambda>i. i \<noteq> k \<and> mc_destID (mc_masks rt ! i) = mc_destID info \<and> mc_tt (mc_masks rt ! i) = mc_tt info) [0..<TSI578_MAX_MC_MASKS] then
             (RIO_ERR_ROUTE_ERROR, 0x40001803, Some rt)
           else if RIO_RTV_GET_MC_MSK (mc_mask_rte p) \<ge> 8 then (RIO_SUCCESS, RIO_SUCCESS, Some rt)
           else (RIO_SUCCESS, RIO_SUCCESS, Some (rt\<lparr>mc_masks := (mc_masks rt)[k := tsi_mark_mask info (mc_masks rt ! k)]\<rparr>))))"

section \<open>Probing a route\<close>

text \<open>The three flags of the result are false for these devices.\<close>

definition tsi57x_rio_rt_probe ::
  "'h host \<Rightarrow> 'h port_functions \<Rightarrow> rio_rt_probe_in_t \<Rightarrow> rio_rt_state_t option \<Rightarrow> rio_rt_probe_out_t \<Rightarrow> 'h dev \<Rightarrow> u32 \<times> u32 \<times> rio_rt_probe_out_t \<times> 'h dev" where
  "tsi57x_rio_rt_probe P F p rt_opt out s =
     (let n = TSI57X_NUM_PORTS (dev_info s); port = probe_on_port p; out0 = probe_cleared n out in
      case rt_opt of
        None \<Rightarrow> (RIO_ERR_INVALID_PARAMETER, 0x40001111, out0, s)
      | Some rt \<Rightarrow>
          if n \<le> port \<and> port \<noteq> RIO_ALL_PORTS then (RIO_ERR_INVALID_PARAMETER, 0x40001111, out0, s)
          else probe_routes P F n TSI578_SPX_CTL p rt out0 s)"

end
