(* ===== verification/Tsi_Inv.thy ===== *)
theory Tsi_Inv
  imports Tsi_Rt
begin

unbundle bit_operations_syntax

text \<open>
  Every routing table state that the functions of \<^verbatim>\<open>Tsi57x_RT.c\<close> build from an initialisation is well formed. The well-formedness is what these switches need beyond
  legal values: at most one domain uses the device table, and no two masks in use are for the same destination.
\<close>

section \<open>Register access\<close>

text \<open>The numbers of ports and masks of a device are not changed by an access, of whatever family it is: only copies of registers are.\<close>

definition same_size :: "DAR_DEV_INFO_t \<Rightarrow> DAR_DEV_INFO_t \<Rightarrow> bool" where
  "same_size d d' \<longleftrightarrow> swPortInfo d' = swPortInfo d \<and> swMcastInfo d' = swMcastInfo d"

lemma same_size_simps:
  "same_size d d" "same_size d d' \<Longrightarrow> TSI57X_NUM_PORTS d' = TSI57X_NUM_PORTS d" "same_size d d' \<Longrightarrow> NUM_MC_MASKS d' = NUM_MC_MASKS d"
  "same_size d d' \<Longrightarrow> same_size d' d'' \<Longrightarrow> same_size d d''"
  by (simp_all add: same_size_def TSI57X_NUM_PORTS_def NUM_PORTS_def NUM_MC_MASKS_def)

lemma scratch_size: "same_size d (scratch_upd i f d')  \<longleftrightarrow> same_size d d'"
  by (simp add: same_size_def scratch_upd_def)

lemma read_size: "same_size (dev_info s) (dev_info (snd (snd (DARRegRead P a s))))"
  by (simp add: DARRegRead_def Let_def same_size_simps split: option.split prod.split)

lemma write_size: "same_size (dev_info s) (dev_info (snd (DARRegWrite P a x s)))"
proof -
  have po: "same_size d (poreg_store a x d') \<longleftrightarrow> same_size d d'" for d d' by (simp add: poreg_store_def same_size_def split: option.split)
  have tsi: "same_size d (fst (snd (tsi57x_WriteReg wr d a x h)))" for wr d h
    by (simp add: tsi57x_WriteReg_def tsi57x_WriteReg_mask_cfg_def tsi57x_WriteReg_destid_assoc_def Let_def scratch_size same_size_simps split: option.split prod.split)
  have "same_size d d'" if "tsi57x_WriteReg wr d a x h = (rc, d', h')" for wr d h rc d' h' using tsi [of d wr h] that by simp
  then show ?thesis
    by (auto simp: DARRegWrite_def Let_def po same_size_simps split: option.split prod.split rio_driver_family_t.split)
qed

section \<open>Well-formed routing tables\<close>

definition tsi_entry_ok :: "u8 \<Rightarrow> bool \<Rightarrow> u32 \<Rightarrow> bool" where
  "tsi_entry_ok n is_dom v \<longleftrightarrow> v < ucast n \<or> v = RIO_RTE_DFLT_PORT \<or> v = RIO_RTE_DROP \<or> is_dom \<and> v = RIO_RTE_LVL_G0"

definition tsi_mask_ok :: "rio_rt_mc_info_t \<Rightarrow> bool" where
  "tsi_mask_ok m \<longleftrightarrow> mc_destID m \<le> 0xFFFF \<and> (mc_tt m = tt_dev8 \<longrightarrow> mc_destID m \<le> 0xFF) \<and> mc_mask m AND NOT (push_bit 16 1 - 1) = 0"

definition tsi_tables_ok :: "u8 \<Rightarrow> rio_rt_state_t \<Rightarrow> bool" where
  "tsi_tables_ok n rt \<longleftrightarrow>
     length (dev_table rt) = RIO_RT_GRP_SZ \<and> length (dom_table rt) = RIO_RT_GRP_SZ \<and>
     (default_route rt < ucast n \<or> default_route rt = RIO_RTE_DROP \<or> default_route rt = RIO_RTE_DFLT_PORT) \<and>
     (\<forall>i<RIO_RT_GRP_SZ. tsi_entry_ok n False (rte_val (dev_table rt ! i))) \<and> (\<forall>i<RIO_RT_GRP_SZ. tsi_entry_ok n True (rte_val (dom_table rt ! i))) \<and>
     (\<forall>i<RIO_RT_GRP_SZ. \<forall>j<RIO_RT_GRP_SZ. rte_val (dom_table rt ! i) = RIO_RTE_LVL_G0 \<and> rte_val (dom_table rt ! j) = RIO_RTE_LVL_G0 \<longrightarrow> i = j)"

definition tsi_masks_ok :: "rio_rt_mc_info_t list \<Rightarrow> bool" where
  "tsi_masks_ok ms \<longleftrightarrow>
     length ms = RIO_MAX_MC_MASKS \<and> (\<forall>i<RIO_MAX_MC_MASKS. TSI578_MAX_MC_MASKS \<le> i \<longrightarrow> \<not> in_use (ms ! i) \<and> \<not> allocd (ms ! i) \<and> \<not> mc_changed (ms ! i)) \<and>
     (\<forall>i<TSI578_MAX_MC_MASKS. tsi_mask_ok (ms ! i)) \<and>
     (\<forall>i<TSI578_MAX_MC_MASKS. \<forall>j<TSI578_MAX_MC_MASKS. in_use (ms ! i) \<and> in_use (ms ! j) \<and> i \<noteq> j \<longrightarrow>
        (mc_destID (ms ! i), mc_tt (ms ! i)) \<noteq> (mc_destID (ms ! j), mc_tt (ms ! j)))"

definition tsi_rt_wf :: "u8 \<Rightarrow> rio_rt_state_t \<Rightarrow> bool" where
  "tsi_rt_wf n rt \<longleftrightarrow> tsi_tables_ok n rt \<and> tsi_masks_ok (mc_masks rt)"

lemma tsi_entry_simps [simp]: "tsi_entry_ok n is_dom 0x300" "tsi_entry_ok n is_dom 0x301" "tsi_entry_ok n True 0x200"
  by (simp_all add: tsi_entry_ok_def)

lemma tsi_tables_okD:
  assumes "tsi_tables_ok n rt"
  shows "length (dev_table rt) = 256" "length (dom_table rt) = 256"
    "default_route rt < ucast n \<or> default_route rt = 0x300 \<or> default_route rt = 0x301"
    "i < 256 \<Longrightarrow> tsi_entry_ok n False (rte_val (dev_table rt ! i))" "i < 256 \<Longrightarrow> tsi_entry_ok n True (rte_val (dom_table rt ! i))"
    "i < 256 \<Longrightarrow> j < 256 \<Longrightarrow> rte_val (dom_table rt ! i) = 0x200 \<Longrightarrow> rte_val (dom_table rt ! j) = 0x200 \<Longrightarrow> i = j"
  using assms by (simp_all add: tsi_tables_ok_def)

lemma tsi_tables_okI:
  assumes "length (dev_table rt) = 256" "length (dom_table rt) = 256"
    "default_route rt < ucast n \<or> default_route rt = 0x300 \<or> default_route rt = 0x301"
    "\<And>i. i < 256 \<Longrightarrow> tsi_entry_ok n False (rte_val (dev_table rt ! i))" "\<And>i. i < 256 \<Longrightarrow> tsi_entry_ok n True (rte_val (dom_table rt ! i))"
    "\<And>i j. i < 256 \<Longrightarrow> j < 256 \<Longrightarrow> rte_val (dom_table rt ! i) = 0x200 \<Longrightarrow> rte_val (dom_table rt ! j) = 0x200 \<Longrightarrow> i = j"
  shows "tsi_tables_ok n rt"
  using assms by (simp add: tsi_tables_ok_def)

text \<open>Only the values count, and entries may be dropped.\<close>

lemma tsi_tables_sub:
  assumes ok: "tsi_tables_ok n rt" and len: "length (dev_table rt') = 256" "length (dom_table rt') = 256" and dr: "default_route rt' = default_route rt"
    and dev: "\<And>i. i < 256 \<Longrightarrow> rte_val (dev_table rt' ! i) = rte_val (dev_table rt ! i) \<or> rte_val (dev_table rt' ! i) = 0x300"
    and dom: "\<And>i. i < 256 \<Longrightarrow> rte_val (dom_table rt' ! i) = rte_val (dom_table rt ! i) \<or> rte_val (dom_table rt' ! i) = 0x300"
  shows "tsi_tables_ok n rt'"
proof (rule tsi_tables_okI)
  note d = tsi_tables_okD [OF ok]
  show "length (dev_table rt') = 256" "length (dom_table rt') = 256" by (fact len)+
  show "default_route rt' < ucast n \<or> default_route rt' = 0x300 \<or> default_route rt' = 0x301" unfolding dr by (rule d(3))
  fix i :: nat assume i: "i < 256"
  show "tsi_entry_ok n False (rte_val (dev_table rt' ! i))" using dev [OF i] d(4) [OF i] by auto
  show "tsi_entry_ok n True (rte_val (dom_table rt' ! i))" using dom [OF i] d(5) [OF i] by auto
  fix j :: nat assume j: "j < 256" "rte_val (dom_table rt' ! i) = 0x200" "rte_val (dom_table rt' ! j) = 0x200"
  then show "i = j" using d(6) [OF i j(1)] dom [OF i] dom [OF j(1)] by auto
qed

text \<open>Storing an entry that does not add a second domain with the device table.\<close>

lemma tsi_store:
  assumes ok: "tsi_tables_ok n rt" and u: "tsi_entry_ok n is_dom (rte_val u)"
    and one: "is_dom \<Longrightarrow> rte_val u = 0x200 \<Longrightarrow> \<forall>j<256. j \<noteq> i \<longrightarrow> rte_val (dom_table rt ! j) \<noteq> 0x200"
  shows "tsi_tables_ok n (store_entry is_dom i u rt)" (is "tsi_tables_ok n ?rt")
proof (rule tsi_tables_okI)
  note d = tsi_tables_okD [OF ok]
  show "length (dev_table ?rt) = 256" "length (dom_table ?rt) = 256" using d by (simp_all add: store_entry_def)
  show "default_route ?rt < ucast n \<or> default_route ?rt = 0x300 \<or> default_route ?rt = 0x301" using d(3) by (simp add: store_entry_def)
  have new: "k < 256 \<Longrightarrow> rte_val (dom_table ?rt ! k) = (if is_dom \<and> k = i then rte_val u else rte_val (dom_table rt ! k))" for k
    using d by (simp add: store_entry_def nth_upd)
  fix a :: nat assume a: "a < 256"
  show "tsi_entry_ok n False (rte_val (dev_table ?rt ! a))" using d(1) d(4) [OF a] u a by (cases is_dom) (simp_all add: store_entry_def nth_upd)
  show "tsi_entry_ok n True (rte_val (dom_table ?rt ! a))" using new [OF a] d(5) [OF a] u by (cases is_dom) simp_all
  fix b :: nat assume b: "b < 256" "rte_val (dom_table ?rt ! a) = 0x200" "rte_val (dom_table ?rt ! b) = 0x200"
  show "a = b" using b(2,3) d(6) [OF a b(1)] one a b(1) unfolding new [OF a] new [OF b(1)] by (cases "a = i"; cases "b = i"; cases is_dom) auto
qed

lemma tsi_masks_store:
  assumes "tsi_masks_ok ms" "k < 8" "tsi_mask_ok m" "in_use m \<Longrightarrow> \<forall>j<8. j \<noteq> k \<longrightarrow> (mc_destID (ms ! j), mc_tt (ms ! j)) \<noteq> (mc_destID m, mc_tt m)"
  shows "tsi_masks_ok (ms[k := m])"
proof -
  have len: "length ms = 256" using assms(1) by (simp add: tsi_masks_ok_def)
  have distinct: "(mc_destID (ms[k := m] ! i), mc_tt (ms[k := m] ! i)) \<noteq> (mc_destID (ms[k := m] ! j), mc_tt (ms[k := m] ! j))"
    if "i < 8" "j < 8" "in_use (ms[k := m] ! i)" "in_use (ms[k := m] ! j)" "i \<noteq> j" for i j
  proof (cases "i = k \<or> j = k")
    case True
    then show ?thesis using that assms(4) len by (auto simp: nth_upd)
  next
    case False
    then show ?thesis using that assms(1) by (simp add: tsi_masks_ok_def)
  qed
  show ?thesis using assms(1,2,3) len distinct unfolding tsi_masks_ok_def by (auto simp: nth_upd)
qed

text \<open>The same destination as before, or one that no mask has.\<close>

lemma tsi_masks_same:
  assumes "tsi_masks_ok ms" "k < 8" "tsi_mask_ok m" "in_use m \<Longrightarrow> in_use (ms ! k) \<and> mc_destID m = mc_destID (ms ! k) \<and> mc_tt m = mc_tt (ms ! k)"
  shows "tsi_masks_ok (ms[k := m])"
proof -
  have len: "length ms = 256" using assms(1) by (simp add: tsi_masks_ok_def)
  have old: "(mc_destID (ms ! i), mc_tt (ms ! i)) \<noteq> (mc_destID (ms ! j), mc_tt (ms ! j))" if "i < 8" "j < 8" "in_use (ms ! i)" "in_use (ms ! j)" "i \<noteq> j" for i j
    using that assms(1) by (simp add: tsi_masks_ok_def)
  have distinct: "(mc_destID (ms[k := m] ! i), mc_tt (ms[k := m] ! i)) \<noteq> (mc_destID (ms[k := m] ! j), mc_tt (ms[k := m] ! j))"
    if "i < 8" "j < 8" "in_use (ms[k := m] ! i)" "in_use (ms[k := m] ! j)" "i \<noteq> j" for i j
    using that old [of i j] assms(4) len by (cases "i = k"; cases "j = k") (simp_all add: nth_upd)
  show ?thesis using assms(1,2,3) len distinct unfolding tsi_masks_ok_def by (auto simp: nth_upd)
qed

lemma tsi_wf_release:
  assumes wf: "tsi_rt_wf n rt" and rte: "RIO_RTV_IS_MC_MSK rte"
  shows "tsi_rt_wf n (dealloc_mask rte (unat (rte AND 0xFF)) rt)" (is "tsi_rt_wf n ?rt")
proof -
  note dm = dealloc_mask_def [of rte _ rt, unfolded Let_def]
  let ?k = "unat (rte AND 0xFF)" and ?m = "mc_masks rt ! unat (rte AND 0xFF)"
  have t: "tsi_tables_ok n rt" and m: "tsi_masks_ok (mc_masks rt)" using wf by (simp_all add: tsi_rt_wf_def)
  have "tsi_tables_ok n ?rt"
    by (rule tsi_tables_sub [OF t]) (use tsi_tables_okD(1,2) [OF t] in \<open>simp_all add: dm drop_matching_nth nth_list_update uc_drop_def\<close>)
  moreover have "tsi_masks_ok (mc_masks ?rt)"
  proof (cases "?k < 8")
    case True
    have ok: "tsi_mask_ok ?m" using m True by (simp add: tsi_masks_ok_def)
    have "tsi_masks_ok ((mc_masks rt)[?k := mc_cleared ?m])"
    proof (rule tsi_masks_same [OF m True])
      show "tsi_mask_ok (mc_cleared ?m)" using ok unfolding tsi_mask_ok_def mc_cleared_def by simp
    qed (simp add: mc_cleared_def split: if_splits)
    then show ?thesis unfolding dm by simp
  next
    case False
    then have "mc_cleared ?m = ?m" using m by (simp add: tsi_masks_ok_def mc_cleared_def)
    then show ?thesis using m by (simp add: dm)
  qed
  ultimately show ?thesis by (simp add: tsi_rt_wf_def)
qed


lemma tsi_wf_dealloc:
  assumes "tsi_rt_wf n rt" "DSF_rio_rt_dealloc_mc_mask rte (Some rt) = (rc, imp, Some rt')"
  shows "tsi_rt_wf n rt'"
  using assms tsi_wf_release [OF assms(1)] by (auto simp: dealloc_cases split: if_splits)

text \<open>A mask keeps its destination and its ports, or is no longer in use.\<close>

lemma tsi_wf_mask:
  assumes wf: "tsi_rt_wf n rt" and i: "i < 8" and m: "mc_destID m = mc_destID (mc_masks rt ! i)" "mc_tt m = mc_tt (mc_masks rt ! i)"
    "mc_mask m = mc_mask (mc_masks rt ! i)" "in_use m \<Longrightarrow> in_use (mc_masks rt ! i)"
  shows "tsi_rt_wf n (rt\<lparr>mc_masks := (mc_masks rt)[i := m]\<rparr>)"
proof -
  have t: "tsi_tables_ok n rt" and ms: "tsi_masks_ok (mc_masks rt)" using wf by (simp_all add: tsi_rt_wf_def)
  have "tsi_mask_ok (mc_masks rt ! i)" using ms i by (simp add: tsi_masks_ok_def)
  then have "tsi_mask_ok m" using m by (simp add: tsi_mask_ok_def)
  then have "tsi_masks_ok ((mc_masks rt)[i := m])" using m by (intro tsi_masks_same [OF ms i]) simp_all
  moreover have "tsi_tables_ok n (rt\<lparr>mc_masks := (mc_masks rt)[i := m]\<rparr>)" by (rule tsi_tables_sub [OF t]) (use tsi_tables_okD [OF t] in simp_all)
  ultimately show ?thesis by (simp add: tsi_rt_wf_def)
qed

lemma tsi_wf_alloc:
  assumes wf: "tsi_rt_wf n rt" and d: "unat (NUM_MC_MASKS d) \<le> 8" and run: "DSF_rio_rt_alloc_mc_mask d (Some rt) = (rc, imp, v, Some rt')"
  shows "tsi_rt_wf n rt'"
proof (cases "find (\<lambda>i. \<not> in_use (mc_masks rt ! i) \<and> \<not> allocd (mc_masks rt ! i)) [0..<unat (NUM_MC_MASKS d)]")
  case None
  then show ?thesis using wf run by (simp add: DSF_rio_rt_alloc_mc_mask_def DSF_rio_rt_default_alloc_mc_mask_def)
next
  case (Some i)
  then have "i < unat (NUM_MC_MASKS d)" by (auto simp: find_Some_iff)
  then have "i < 8" using d by simp
  then have "tsi_rt_wf n (rt\<lparr>mc_masks := (mc_masks rt)[i := (mc_masks rt ! i)\<lparr>allocd := True\<rparr>]\<rparr>)" by (intro tsi_wf_mask [OF wf]) simp_all
  then show ?thesis using run Some by (simp add: DSF_rio_rt_alloc_mc_mask_def DSF_rio_rt_default_alloc_mc_mask_def)
qed

section \<open>Changes keep tables well formed\<close>

lemma tsi_drop_others_nth:
  "j < length us \<Longrightarrow> rte_val (tsi_drop_others i us ! j) = (if j \<noteq> i \<and> rte_val (us ! j) = 0x200 then 0x300 else rte_val (us ! j))"
  "length (tsi_drop_others i us) = length us"
  by (simp_all add: tsi_drop_others_def)

text \<open>The entry is stored before the other domains are dropped; the order does not matter for the values.\<close>

lemma tsi_wf_group:
  assumes t: "tsi_tables_ok n rt" and v: "rte_val u = 0x200"
  shows "tsi_tables_ok n (rt\<lparr>dom_table := tsi_drop_others i ((dom_table rt)[i := u])\<rparr>)" (is "tsi_tables_ok n ?rt")
proof (rule tsi_tables_okI)
  note d = tsi_tables_okD [OF t]
  show "length (dev_table ?rt) = 256" "length (dom_table ?rt) = 256" using d by (simp_all add: tsi_drop_others_nth)
  show "default_route ?rt < ucast n \<or> default_route ?rt = 0x300 \<or> default_route ?rt = 0x301" using d(3) by simp
  have new: "k < 256 \<Longrightarrow> rte_val (dom_table ?rt ! k) = (if k = i then 0x200 else if rte_val (dom_table rt ! k) = 0x200 then 0x300 else rte_val (dom_table rt ! k))" for k
    using d(2) v by (simp add: tsi_drop_others_nth nth_upd)
  fix a :: nat assume a: "a < 256"
  show "tsi_entry_ok n False (rte_val (dev_table ?rt ! a))" using d(4) [OF a] by simp
  show "tsi_entry_ok n True (rte_val (dom_table ?rt ! a))" using new [OF a] d(5) [OF a] by simp
  fix b :: nat assume "b < 256" "rte_val (dom_table ?rt ! a) = 0x200" "rte_val (dom_table ?rt ! b) = 0x200"
  then show "a = b" using new [OF a] new [of b] by (simp split: if_splits)
qed

lemma tsi_wf_change_rte:
  assumes wf: "tsi_rt_wf (TSI57X_NUM_PORTS d) rt" and run: "tsi57x_rio_rt_change_rte d p (Some rt) = (rc, imp, Some rt')"
  shows "tsi_rt_wf (TSI57X_NUM_PORTS d) rt'"
proof -
  let ?v = "rte_value p" and ?i = "unat (rte_idx p)" and ?n = "TSI57X_NUM_PORTS d"
  let ?u = "change_entry ?v (table_of (dom_entry p) rt ! ?i)"
  let ?bad = "?v \<noteq> 0x200 \<and> ?v \<noteq> 0x301 \<and> ?v \<noteq> 0x300 \<and> ?v \<ge> ucast ?n \<or> ?v = 0x200 \<and> \<not> dom_entry p"
  have t: "tsi_tables_ok ?n rt" and ms: "tsi_masks_ok (mc_masks rt)" using wf by (simp_all add: tsi_rt_wf_def)
  have u: "rte_val ?u = ?v" by (simp add: change_entry_def)
  note run = run [unfolded tsi57x_rio_rt_change_rte_def option.case Let_def]
  consider ?bad | "?v = 0x200" "dom_entry p" | "\<not> ?bad" "?v \<noteq> 0x200" by blast
  then show ?thesis
  proof cases
    case 1
    then have "rt' = rt" using run by (simp only: split: if_splits) simp_all
    then show ?thesis using wf by simp
  next
    case 2
    then have "rt' = rt\<lparr>dom_table := tsi_drop_others ?i ((dom_table rt)[?i := ?u])\<rparr>" using run by (simp add: store_entry_def)
    then show ?thesis using tsi_wf_group [OF t, of ?u ?i] u 2 ms by (simp add: tsi_rt_wf_def)
  next
    case 3
    then have e: "rt' = store_entry (dom_entry p) ?i ?u rt" using run by (simp only: split: if_splits) simp_all
    have "tsi_entry_ok ?n (dom_entry p) ?v" using 3 by (auto simp: tsi_entry_ok_def not_le)
    then have "tsi_tables_ok ?n rt'" unfolding e using 3(2) u by (intro tsi_store [OF t]) simp_all
    then show ?thesis using ms e by (simp add: tsi_rt_wf_def store_entry_def)
  qed
qed

lemma tsi_wf_change_mc_mask:
  assumes wf: "tsi_rt_wf n rt" and run: "tsi57x_rio_rt_change_mc_mask p (Some rt) = (rc, imp, Some rt')"
  shows "tsi_rt_wf n rt'"
proof -
  let ?info = "mc_info p" and ?g = "RIO_RTV_GET_MC_MSK (mc_mask_rte p)"
  let ?k = "unat (ucast ?g :: u8)" and ?ms = "mc_masks rt"
  let ?bad = "mc_destID ?info > 0xFFFF \<or> (mc_destID ?info > 0xFF \<and> mc_tt ?info = tt_dev8) \<or> mc_mask ?info AND NOT (push_bit 16 1 - 1) \<noteq> 0"
  let ?dup = "list_ex (\<lambda>i. i \<noteq> ?k \<and> mc_destID (?ms ! i) = mc_destID ?info \<and> mc_tt (?ms ! i) = mc_tt ?info) [0..<8]"
  let ?m = "tsi_mark_mask ?info (?ms ! ?k)"
  have t: "tsi_tables_ok n rt" and ms: "tsi_masks_ok ?ms" using wf by (simp_all add: tsi_rt_wf_def)
  note run = run [unfolded tsi57x_rio_rt_change_mc_mask_def option.case Let_def]
  show ?thesis
  proof (cases "?bad \<or> ?dup \<or> ?g \<ge> 8")
    case True
    then have "rt' = rt" using run by (simp only: split: if_splits) simp_all
    then show ?thesis using wf by simp
  next
    case False
    then have e: "rt' = rt\<lparr>mc_masks := ?ms[?k := ?m]\<rparr>" using run by (simp only: split: if_splits) simp_all
    have "unat ?g < 8" using False by (simp add: word_le_nat_alt)
    then have k: "?k < 8" by (simp add: unsigned_ucast_eq take_bit_nat_eq_self)
    have ok: "tsi_mask_ok ?m" using False by (auto simp: tsi_mask_ok_def tsi_mark_mask_def)
    have "\<forall>j<8. j \<noteq> ?k \<longrightarrow> (mc_destID (?ms ! j), mc_tt (?ms ! j)) \<noteq> (mc_destID ?m, mc_tt ?m)"
      using False by (auto simp: list_ex_iff tsi_mark_mask_def)
    then have "tsi_masks_ok (?ms[?k := ?m])" by (intro tsi_masks_store [OF ms k ok])
    moreover have "tsi_tables_ok n rt'" unfolding e by (rule tsi_tables_sub [OF t]) (use tsi_tables_okD [OF t] in simp_all)
    ultimately show ?thesis by (simp add: tsi_rt_wf_def e)
  qed
qed

section \<open>Programming keeps tables well formed\<close>

definition tsi_ok :: "DAR_DEV_INFO_t \<Rightarrow> rio_rt_state_t \<times> 'h dev \<Rightarrow> bool" where
  "tsi_ok d st \<longleftrightarrow> tsi_rt_wf (TSI57X_NUM_PORTS d) (fst st) \<and> same_size d (dev_info (snd st))"

lemma size_write: "same_size d (dev_info s) \<Longrightarrow> DARRegWrite P a x s = (rc, s') \<Longrightarrow> same_size d (dev_info s')"
  using write_size [of s P a x] same_size_simps(4) [of d] by simp

lemma size_read: "same_size d (dev_info s) \<Longrightarrow> DARRegRead P a s = (rc, x, s') \<Longrightarrow> same_size d (dev_info s')"
  using read_size [of s P a] same_size_simps(4) [of d] by simp

lemma tsi_wf_clear_changed:
  assumes wf: "tsi_rt_wf n rt"
  shows "tsi_rt_wf n (tsi_clear_changed is_dom i rt)"
proof -
  have t: "tsi_tables_ok n rt" using wf by (simp add: tsi_rt_wf_def)
  have "tsi_tables_ok n (tsi_clear_changed is_dom i rt)"
    by (rule tsi_tables_sub [OF t]) (use tsi_tables_okD(1,2) [OF t] in \<open>simp_all add: tsi_clear_changed_def store_entry_def table_of_def nth_upd\<close>)
  then show ?thesis using wf by (simp add: tsi_rt_wf_def tsi_clear_changed_def store_entry_def)
qed

lemma tsi_program_masks_keeps:
  assumes "tsi_ok d st" "\<forall>i\<in>set is. i < 8"
  shows "tsi_ok d (snd (snd (tsi_program_masks P b all is rc st)))"
  using assms
proof (induction "is" arbitrary: rc st)
  case (Cons i "is")
  obtain rt s where e: "st = (rt, s)" by (cases st)
  let ?m = "mc_masks rt ! i"
  let ?rt1 = "rt\<lparr>mc_masks := (mc_masks rt)[i := ?m\<lparr>mc_changed := False\<rparr>]\<rparr>"
  have wf: "tsi_rt_wf (TSI57X_NUM_PORTS d) rt" and s: "same_size d (dev_info s)" using Cons.prems(1) by (simp_all add: tsi_ok_def e)
  have wf1: "tsi_rt_wf (TSI57X_NUM_PORTS d) ?rt1" using Cons.prems(2) by (intro tsi_wf_mask [OF wf]) simp_all
  obtain x y where xy: "tsi_mask_regs ?m = (x, y)" by (cases rule: prod.exhaust)
  obtain rc1 s1 where w1: "DARRegWrite P (TSI578_RIO_MC_IDX i) x s = (rc1, s1)" by (cases rule: prod.exhaust)
  obtain rc2 s2 where w2: "DARRegWrite P (TSI578_RIO_MC_MSKX i) y s1 = (rc2, s2)" by (cases rule: prod.exhaust)
  have s1: "same_size d (dev_info s1)" by (rule size_write [OF s w1])
  have s2: "same_size d (dev_info s2)" by (rule size_write [OF s1 w2])
  have next2: "tsi_ok d (snd (snd (tsi_program_masks P b all is rc (rt, s))))" "tsi_ok d (snd (snd (tsi_program_masks P b all is rc2 (?rt1, s2))))"
    using Cons.IH [of "(rt, s)"] Cons.IH [of "(?rt1, s2)"] Cons.prems wf wf1 s s2 by (simp_all add: tsi_ok_def)
  have ok: "tsi_ok d (rt, s)" "tsi_ok d (?rt1, s1)" "tsi_ok d (?rt1, s2)" using wf wf1 s s1 s2 by (simp_all add: tsi_ok_def)
  show ?case unfolding e tsi_program_masks.simps Let_def prod.case xy w1 w2 using next2 ok by (simp only: split: if_split) simp
qed simp

lemma tsi_write_keeps:
  assumes "same_size d (dev_info s)"
  shows "same_size d (dev_info (snd (snd (tsi_write_entry P c1 c2 v x k s))))" "same_size d (dev_info (snd (snd (tsi_write_base P v k s))))"
proof -
  obtain rc1 s1 where w1: "DARRegWrite P (TSI578_SPX_ROUTE_CFG_DESTID k) v s = (rc1, s1)" by (cases rule: prod.exhaust)
  obtain rc2 s2 where w2: "DARRegWrite P (TSI578_SPX_ROUTE_CFG_PORT k) x s1 = (rc2, s2)" by (cases rule: prod.exhaust)
  obtain rc3 s3 where w3: "DARRegWrite P (TSI578_SPX_ROUTE_BASE k) (push_bit 16 v) s = (rc3, s3)" by (cases rule: prod.exhaust)
  have "same_size d (dev_info s1)" by (rule size_write [OF assms w1])
  moreover from this have "same_size d (dev_info s2)" by (rule size_write [OF _ w2])
  ultimately show "same_size d (dev_info (snd (snd (tsi_write_entry P c1 c2 v x k s))))" by (simp add: tsi_write_entry_def w1 w2)
  show "same_size d (dev_info (snd (snd (tsi_write_base P v k s))))" using size_write [OF assms w3] by (simp add: tsi_write_base_def w3)
qed

lemma tsi_ports_keep:
  assumes "same_size d (dev_info s)"
  shows "for_each (tsi_write_entry P c1 c2 v x) ports s = (rc, imp, s') \<Longrightarrow> same_size d (dev_info s')"
    and "for_each (tsi_write_base P v) ports s = (rc, imp, s') \<Longrightarrow> same_size d (dev_info s')"
proof -
  have "same_size d (dev_info (snd (snd (for_each (tsi_write_entry P c1 c2 v x) ports s))))" "same_size d (dev_info (snd (snd (for_each (tsi_write_base P v) ports s))))"
    by (rule for_each_keeps [of "\<lambda>s. same_size d (dev_info s)"]; (erule tsi_write_keeps | rule assms))+
  then show "for_each (tsi_write_entry P c1 c2 v x) ports s = (rc, imp, s') \<Longrightarrow> same_size d (dev_info s')"
    "for_each (tsi_write_base P v) ports s = (rc, imp, s') \<Longrightarrow> same_size d (dev_info s')" by simp_all
qed

lemma tsi_program_keeps:
  assumes "tsi_ok d st"
  shows "tsi_ok d (snd (snd (tsi_program_dom P ports all k st)))" "tsi_ok d (snd (snd (tsi_program_dev P ports base all k st)))"
proof -
  obtain rt s where e: "st = (rt, s)" by (cases st)
  have wf: "tsi_rt_wf (TSI57X_NUM_PORTS d) rt" and s: "same_size d (dev_info s)" using assms by (simp_all add: tsi_ok_def e)
  note c = tsi_wf_clear_changed [OF wf]
  have w: "tsi_ok d (snd (snd (let (rc, imp, s1) = for_each (tsi_write_entry P c1 c2 v x) ports s
      in if rc \<noteq> RIO_SUCCESS then (rc, imp, rt, s1) else (RIO_SUCCESS, RIO_SUCCESS, tsi_clear_changed is_dom k rt, s1))))" for c1 c2 v x is_dom
  proof -
    obtain rc imp s1 where l: "for_each (tsi_write_entry P c1 c2 v x) ports s = (rc, imp, s1)" by (cases rule: prod_cases3)
    show ?thesis using tsi_ports_keep(1) [OF s l] wf c by (simp add: l tsi_ok_def)
  qed
  have ok: "tsi_ok d (rt, s)" "tsi_ok d (tsi_clear_changed is_dom k rt, s)" for is_dom using wf c s by (simp_all add: tsi_ok_def)
  note w = w [unfolded Let_def]
  show "tsi_ok d (snd (snd (tsi_program_dom P ports all k st)))"
    unfolding tsi_program_dom_def e Let_def prod.case by (simp add: ok w split: option.split prod.split)
  show "tsi_ok d (snd (snd (tsi_program_dev P ports base all k st)))"
    unfolding tsi_program_dev_def e Let_def prod.case by (simp add: ok w split: option.split prod.split)
qed

lemma tsi_entries_keep:
  assumes "tsi_ok d st"
  shows "tsi_ok d (snd (snd (program_rte_entries P pnum all st)))"
proof -
  obtain rt s where e: "st = (rt, s)" by (cases st)
  have wf: "tsi_rt_wf (TSI57X_NUM_PORTS d) rt" and s: "same_size d (dev_info s)" using assms by (simp_all add: tsi_ok_def e)
  let ?ports = "tsi_ports (dev_info s) pnum" and ?base = "case tsi_groups rt of [] \<Rightarrow> 0 | i # _ \<Rightarrow> push_bit 8 (of_nat i)"
  have loops: "tsi_ok d (snd (snd (for_each (tsi_program_dom P ports all) ks st)))" "tsi_ok d (snd (snd (for_each (tsi_program_dev P ports base all) ks st)))"
    if "tsi_ok d st" for ports ks base and st :: "rio_rt_state_t \<times> 'a dev"
    by (rule for_each_keeps [of "tsi_ok d"]; rule tsi_program_keeps that; assumption)+
  obtain rc1 s1 where w: "DARRegWrite P 0x78 (if default_route rt = 0x300 then 0xFF AND 0xFF else default_route rt AND 0xFF) s = (rc1, s1)" by (cases rule: prod.exhaust)
  have s1: "same_size d (dev_info s1)" by (rule size_write [OF s w])
  obtain rc2 imp2 s2 where b: "for_each (tsi_write_base P ?base) ?ports s1 = (rc2, imp2, s2)" by (cases rule: prod_cases3)
  have s2: "same_size d (dev_info s2)" by (rule tsi_ports_keep(2) [OF s1 b])
  obtain rc3 imp3 st3 where l: "for_each (tsi_program_dom P ?ports all) [0..<256] (rt, s2) = (rc3, imp3, st3)" by (cases rule: prod_cases3)
  have ok: "tsi_ok d (rt, s1)" "tsi_ok d (rt, s2)" using wf s1 s2 by (simp_all add: tsi_ok_def)
  have ok3: "tsi_ok d st3" using loops(1) [OF ok(2), of ?ports "[0..<256]"] l by simp
  show ?thesis unfolding program_rte_entries_def e Let_def prod.case w b l using ok ok3 loops(2) [OF ok3] by (simp del: upt_rec_numeral)
qed

lemma tsi_set_common_keeps:
  assumes st: "tsi_ok d (rt, s)" and run: "tsi_set_common P c1 c2 all port (Some rt) s = (rc, imp, Some rt', s')"
  shows "tsi_ok d (rt', s')"
proof -
  have masks: "tsi_ok d (snd (snd (program_mc_masks P all (rt, s))))"
    using st tsi_program_masks_keeps [OF st, of "[0..<8]"] by (simp add: program_mc_masks_def Let_def del: upt_rec_numeral)
  obtain rc1 imp1 rt1 s1 where m: "program_mc_masks P all (rt, s) = (rc1, imp1, rt1, s1)" by (cases rule: prod_cases4)
  obtain rc2 imp2 rt2 s2 where r: "program_rte_entries P port all (rt1, s1) = (rc2, imp2, rt2, s2)" by (cases rule: prod_cases4)
  have 1: "tsi_ok d (rt1, s1)" using masks m by simp
  have 2: "tsi_ok d (rt2, s2)" using tsi_entries_keep [OF 1, of P port all] r by simp
  show ?thesis using run st 1 2 m r by (auto simp: tsi_set_common_def split: if_splits)
qed

section \<open>Initialisation\<close>

lemma tsi_wf_initial:
  assumes "init_default_route p < ucast n \<or> init_default_route p = 0x300 \<or> init_default_route p = 0x301"
    "default_route_table_port p < ucast n \<or> default_route_table_port p = 0x300" "n \<le> 16"
  shows "tsi_rt_wf n (tsi_rt_initial p)"
proof -
  let ?rt = "tsi_rt_initial p" and ?v = "default_route_table_port p"
  have ok: "tsi_entry_ok n is_dom ?v" for is_dom using assms(2) by (auto simp: tsi_entry_ok_def)
  have "unat n \<le> 16" using assms(3) by (simp add: word_le_nat_alt)
  then have "?v \<noteq> 0x200" using assms(2) by (auto simp: word_less_nat_alt unsigned_ucast_eq take_bit_nat_eq_self)
  then have "tsi_tables_ok n ?rt"
    by (intro tsi_tables_okI) (use assms(1) ok in \<open>simp_all add: tsi_rt_initial_def Let_def nth_Cons' split: if_splits\<close>)
  moreover have "tsi_masks_ok (mc_masks ?rt)"
    unfolding tsi_masks_ok_def by (simp add: tsi_rt_initial_def Let_def nth_append mc_unused_def tsi_mask_ok_def)
  ultimately show ?thesis by (simp add: tsi_rt_wf_def)
qed

lemma TSI57X_NUM_PORTS_le: "TSI57X_NUM_PORTS d \<le> 16"
  by (simp add: TSI57X_NUM_PORTS_def not_less)

lemma tsi_initialize_keeps:
  assumes run: "tsi57x_rio_rt_initialize P p (Some rt0) s = (RIO_SUCCESS, imp, Some rt, s')"
  shows "tsi_ok (dev_info s) (rt, s')"
proof -
  let ?d = "dev_info s" and ?n = "TSI57X_NUM_PORTS (dev_info s)" and ?rt = "tsi_rt_initial p"
  have guards: "\<not> (init_default_route p \<ge> ucast ?n \<and> init_default_route p \<noteq> 0x301 \<and> init_default_route p \<noteq> 0x300)"
    "\<not> (default_route_table_port p \<ge> ucast ?n \<and> default_route_table_port p \<noteq> 0x300)" "\<not> (set_on_port p \<ge> ?n \<and> set_on_port p \<noteq> RIO_ALL_PORTS)"
    using run unfolding tsi57x_rio_rt_initialize_def Let_def by (simp_all only: split: if_splits) simp_all
  have wf: "tsi_rt_wf ?n ?rt" using guards(1,2) TSI57X_NUM_PORTS_le by (intro tsi_wf_initial) (auto simp: not_le)
  have keep: "same_size ?d (dev_info (snd (snd (tsi_set_mode P k s1))))" if "same_size ?d (dev_info s1)" for k and s1 :: "'a dev"
  proof -
    obtain rc x s2 where r: "DARRegRead P (TSI578_SPX_MODE k) s1 = (rc, x, s2)" by (cases rule: prod_cases3)
    obtain rc' s3 where w: "DARRegWrite P (TSI578_SPX_MODE k) (x AND NOT 0x01000000) s2 = (rc', s3)" by (cases rule: prod.exhaust)
    have "same_size ?d (dev_info s2)" by (rule size_read [OF that r])
    moreover from this have "same_size ?d (dev_info s3)" by (rule size_write [OF _ w])
    ultimately show ?thesis unfolding tsi_set_mode_def r w Let_def prod.case by simp
  qed
  obtain rc1 imp1 s1 where l: "for_each (tsi_set_mode P) (tsi_ports ?d (set_on_port p)) s = (rc1, imp1, s1)" by (cases rule: prod_cases3)
  have "same_size ?d (dev_info s1)"
    using for_each_keeps [of "\<lambda>s. same_size ?d (dev_info s)" "tsi_set_mode P" s "tsi_ports ?d (set_on_port p)", OF keep same_size_simps(1)] l by simp
  then have 1: "tsi_ok ?d (?rt, s1)" using wf by (simp add: tsi_ok_def)
  obtain rc2 imp2 rt2 s2 where c: "tsi57x_rio_rt_set_changed P (set_on_port p) (Some ?rt) s1 = (rc2, imp2, rt2, s2)" by (cases rule: prod_cases4)
  note run' = run [unfolded tsi57x_rio_rt_initialize_def Let_def, simplified guards if_False]
  have "(\<not> update_hw p \<and> rt = ?rt \<and> s' = s) \<or> (update_hw p \<and> rt2 = Some rt \<and> s' = s2)"
    using run' l c by (simp split: if_splits)
  moreover have "tsi_ok ?d (rt, s2)" if "rt2 = Some rt"
    by (rule tsi_set_common_keeps [OF 1]) (use c that in \<open>simp add: tsi57x_rio_rt_set_changed_def\<close>)
  moreover have "tsi_ok ?d (?rt, s)" using wf by (simp add: tsi_ok_def same_size_simps)
  ultimately show ?thesis by auto
qed

section \<open>Reachable states\<close>

text \<open>
  The steps of a program that uses the driver, with any success, on a device with at most eight masks. Reading the device is not a step: what its tables hold need not be what
  the driver programs.
\<close>

inductive tsi_rt_step :: "'h host \<Rightarrow> rio_rt_state_t \<times> 'h dev \<Rightarrow> rio_rt_state_t \<times> 'h dev \<Rightarrow> bool" for P where
  alloc: "DSF_rio_rt_alloc_mc_mask (dev_info s) (Some rt) = (rc, imp, v, Some rt') \<Longrightarrow> tsi_rt_step P (rt, s) (rt', s)"
| dealloc: "DSF_rio_rt_dealloc_mc_mask rte (Some rt) = (rc, imp, Some rt') \<Longrightarrow> tsi_rt_step P (rt, s) (rt', s)"
| change_rte: "tsi57x_rio_rt_change_rte (dev_info s) p (Some rt) = (rc, imp, Some rt') \<Longrightarrow> tsi_rt_step P (rt, s) (rt', s)"
| change_mc_mask: "tsi57x_rio_rt_change_mc_mask q (Some rt) = (rc, imp, Some rt') \<Longrightarrow> tsi_rt_step P (rt, s) (rt', s)"
| set_all: "tsi57x_rio_rt_set_all P port (Some rt) s = (rc, imp, Some rt', s') \<Longrightarrow> tsi_rt_step P (rt, s) (rt', s')"
| set_changed: "tsi57x_rio_rt_set_changed P port (Some rt) s = (rc, imp, Some rt', s') \<Longrightarrow> tsi_rt_step P (rt, s) (rt', s')"

inductive_cases tsi_rt_stepE: "tsi_rt_step P (rt, s) (rt', s')"

inductive tsi_rt_reachable :: "'h host \<Rightarrow> rio_rt_state_t \<times> 'h dev \<Rightarrow> bool" for P where
  initialize: "tsi57x_rio_rt_initialize P p (Some rt0) s = (RIO_SUCCESS, imp, Some rt, s') \<Longrightarrow> NUM_MC_MASKS (dev_info s) \<le> 8 \<Longrightarrow> tsi_rt_reachable P (rt, s')"
| step: "tsi_rt_reachable P st \<Longrightarrow> tsi_rt_step P st st' \<Longrightarrow> tsi_rt_reachable P st'"

definition tsi_inv :: "rio_rt_state_t \<times> 'h dev \<Rightarrow> bool" where
  "tsi_inv st \<longleftrightarrow> NUM_MC_MASKS (dev_info (snd st)) \<le> 8 \<and> tsi_ok (dev_info (snd st)) st"

lemma tsi_ok_inv:
  assumes "NUM_MC_MASKS d \<le> 8" "tsi_ok d st"
  shows "tsi_inv st"
proof -
  have d: "same_size d (dev_info (snd st))" using assms(2) by (simp add: tsi_ok_def)
  show ?thesis using assms same_size_simps(2,3) [OF d] by (simp add: tsi_inv_def tsi_ok_def same_size_simps(1))
qed

lemma tsi_inv_step:
  assumes "tsi_rt_step P st st'" "tsi_inv st"
  shows "tsi_inv st'"
proof -
  obtain rt s rt' s' where e: "st = (rt, s)" "st' = (rt', s')" by (metis prod.exhaust)
  let ?d = "dev_info s"
  have d: "NUM_MC_MASKS ?d \<le> 8" and ok: "tsi_ok ?d (rt, s)" using assms(2) by (simp_all add: tsi_inv_def e)
  then have wf: "tsi_rt_wf (TSI57X_NUM_PORTS ?d) rt" and n: "unat (NUM_MC_MASKS ?d) \<le> 8" by (simp_all add: tsi_ok_def word_le_nat_alt)
  have same: "tsi_ok ?d (rt', s)" if "tsi_rt_wf (TSI57X_NUM_PORTS ?d) rt'" using that by (simp add: tsi_ok_def same_size_simps(1))
  note change = tsi_wf_alloc [OF wf n] tsi_wf_dealloc [OF wf] tsi_wf_change_rte [OF wf] tsi_wf_change_mc_mask [OF wf]
    and set = tsi_set_common_keeps [OF ok, of P 1073746689 1073746690 True, folded tsi57x_rio_rt_set_all_def]
      tsi_set_common_keeps [OF ok, of P 1073746945 1073746946 False, folded tsi57x_rio_rt_set_changed_def]
  have "tsi_ok ?d (rt', s')"
    using assms(1) unfolding e by (cases rule: tsi_rt_stepE) (blast intro: same dest: change set)+
  then show ?thesis using tsi_ok_inv [OF d] by (simp add: e)
qed

lemma tsi_reachable_inv: "tsi_rt_reachable P st \<Longrightarrow> tsi_inv st"
proof (induction rule: tsi_rt_reachable.induct)
  case (initialize p rt0 s imp rt s')
  then show ?case using tsi_ok_inv [OF _ tsi_initialize_keeps] by blast
next
  case (step st st')
  then show ?case using tsi_inv_step by blast
qed

text \<open>No two masks are for the same destination, so a check finds at most one.\<close>

lemma and_ffff: "unat (x AND 0xFFFF :: u32) = unat x mod 65536"
proof -
  have "(0xFFFF :: u32) = mask 16" by (simp add: mask_eq_exp_minus_1)
  then show ?thesis by (simp only: take_bit_eq_mask [symmetric] unsigned_take_bit_eq) (simp add: take_bit_eq_mod)
qed

lemma tsi_one_mask:
  assumes ms: "tsi_masks_ok (mc_masks rt)" and n: "unat (NUM_MC_MASKS d) \<le> 8" and ij: "i \<in> masks_for d p rt" "j \<in> masks_for d p rt"
  shows "i = j"
proof (rule ccontr)
  assume ne: "i \<noteq> j"
  let ?a = "mc_masks rt ! i" and ?b = "mc_masks rt ! j"
  have lt: "i < 8" "j < 8" using ij n by (simp_all add: masks_for_def)
  have ok: "tsi_mask_ok ?a" "tsi_mask_ok ?b" using ms lt by (simp_all add: tsi_masks_ok_def)
  have s: "same_destID p ?a" "same_destID p ?b" using ij by (simp_all add: masks_for_def)
  have tt: "mc_tt ?a = probe_tt p" "mc_tt ?b = probe_tt p" "in_use ?a" "in_use ?b" using s by (simp_all add: same_destID_def)
  have small: "x AND 0xFF = x" if "x \<le> 0xFF" for x :: u32 using that by (simp add: word_unat_eq_iff rtv_index word_le_nat_alt)
  have small16: "x AND 0xFFFF = x" if "x \<le> 0xFFFF" for x :: u32 using that by (simp add: word_unat_eq_iff and_ffff word_le_nat_alt)
  have "mc_destID ?a = mc_destID ?b" using s ok tt small small16 by (auto simp: same_destID_def tsi_mask_ok_def Let_def split: if_splits)
  moreover have "(mc_destID ?a, mc_tt ?a) \<noteq> (mc_destID ?b, mc_tt ?b)" using ms lt ne tt(3,4) unfolding tsi_masks_ok_def by blast
  ultimately show False using tt by simp
qed

section \<open>Example\<close>

text \<open>A Tsi578 with 16 ports and eight masks; domain 3 uses the device table, and mask 1 is for the 16-bit identifier \<open>0x0305\<close>.\<close>

definition tsi_dev :: DAR_DEV_INFO_t where
  "tsi_dev = dev_zero\<lparr>driver_family := RIO_TSI57X_DEVICE, dsf_h := 0x000D0000, devID := 0x0578000D, swPortInfo := 0x1000, swRtInfo := 0xFFFF, swMcastInfo := 8\<rparr>"

definition tsi_dev0 :: "(u32 \<Rightarrow> u32) dev" where
  "tsi_dev0 = \<lparr>dev_info = tsi_dev, hw = \<lambda>_. 0\<rparr>"

definition tsi_init :: rio_rt_initialize_in_t where
  "tsi_init = \<lparr>set_on_port = RIO_ALL_PORTS, init_default_route = 2, default_route_table_port = RIO_RTE_DROP, update_hw = False\<rparr>"

definition tsi_route :: rio_rt_change_rte_in_t where
  "tsi_route = \<lparr>dom_entry = True, rte_idx = 3, rte_value = RIO_RTE_LVL_G0\<rparr>"

definition tsi_mc :: rio_rt_change_mc_mask_in_t where
  "tsi_mc = \<lparr>mc_mask_rte = 0x101,
     mc_info = \<lparr>mc_destID = 0x0305, mc_tt = tt_dev16, mc_mask = 0x0E, in_use = True, allocd = True, mc_changed = False\<rparr>\<rparr>"

definition tsi_rt1 :: rio_rt_state_t where
  "tsi_rt1 = (tsi_rt_initial tsi_init)\<lparr>dom_table := tsi_drop_others 3 ((dom_table (tsi_rt_initial tsi_init))[3 := \<lparr>rte_val = RIO_RTE_LVL_G0, uc_changed = True\<rparr>])\<rparr>"

definition tsi_rt2 :: rio_rt_state_t where
  "tsi_rt2 = tsi_rt1\<lparr>mc_masks := (mc_masks tsi_rt1)[1 := tsi_mark_mask (mc_info tsi_mc) (mc_masks tsi_rt1 ! 1)]\<rparr>"

lemma tsi_dev_facts:
  "NUM_PORTS tsi_dev = 16" "TSI57X_NUM_PORTS tsi_dev = 16" "NUM_MC_MASKS tsi_dev = 8" "VALIDATE_DEV_INFO tsi_dev" "driver_family tsi_dev = RIO_TSI57X_DEVICE"
  "poregs tsi_dev = None" "dev_info tsi_dev0 = tsi_dev"
  by (simp_all add: tsi_dev0_def tsi_dev_def VALIDATE_DEV_INFO_def NUM_PORTS_def TSI57X_NUM_PORTS_def NUM_MC_MASKS_def dev_zero_def)

lemma tsi_example_runs:
  "tsi57x_rio_rt_initialize P tsi_init (Some rt0) tsi_dev0 = (RIO_SUCCESS, RIO_SUCCESS, Some (tsi_rt_initial tsi_init), tsi_dev0)"
  "tsi57x_rio_rt_change_rte tsi_dev tsi_route (Some (tsi_rt_initial tsi_init)) = (RIO_SUCCESS, RIO_SUCCESS, Some tsi_rt1)"
  "tsi57x_rio_rt_change_mc_mask tsi_mc (Some tsi_rt1) = (RIO_SUCCESS, RIO_SUCCESS, Some tsi_rt2)"
proof -
  show "tsi57x_rio_rt_initialize P tsi_init (Some rt0) tsi_dev0 = (RIO_SUCCESS, RIO_SUCCESS, Some (tsi_rt_initial tsi_init), tsi_dev0)"
    by (simp add: tsi57x_rio_rt_initialize_def tsi_init_def tsi_dev_facts Let_def)
  have "change_entry 0x200 (dom_table (tsi_rt_initial tsi_init) ! 3) = \<lparr>rte_val = 0x200, uc_changed = True\<rparr>"
    by (simp add: change_entry_def tsi_rt_initial_def tsi_init_def Let_def)
  then show "tsi57x_rio_rt_change_rte tsi_dev tsi_route (Some (tsi_rt_initial tsi_init)) = (RIO_SUCCESS, RIO_SUCCESS, Some tsi_rt1)"
    by (simp add: tsi57x_rio_rt_change_rte_def tsi_route_def table_of_def store_entry_def tsi_rt1_def)
  have m: "mc_masks tsi_rt1 ! i = mc_unused" if "i < 8" for i
    using that by (simp add: tsi_rt1_def tsi_rt_initial_def tsi_init_def Let_def nth_append mc_unused_def)
  have k: "RIO_RTV_GET_MC_MSK (mc_mask_rte tsi_mc) = 1" by (simp add: tsi_mc_def RIO_RTV_GET_MC_MSK_def RIO_RTV_IS_MC_MSK_def)
  have "\<not> list_ex (\<lambda>i. i \<noteq> 1 \<and> mc_destID (mc_masks tsi_rt1 ! i) = 0x0305 \<and> mc_tt (mc_masks tsi_rt1 ! i) = tt_dev16) [0..<8]"
    by (auto simp: list_ex_iff m mc_unused_def)
  then show "tsi57x_rio_rt_change_mc_mask tsi_mc (Some tsi_rt1) = (RIO_SUCCESS, RIO_SUCCESS, Some tsi_rt2)"
    unfolding tsi57x_rio_rt_change_mc_mask_def option.case Let_def k by (simp add: tsi_mc_def tsi_rt2_def word_le_nat_alt del: upt_rec_numeral)
qed

lemma tsi_example_reachable: "tsi_rt_reachable P (tsi_rt2, tsi_dev0)"
proof -
  note r = tsi_example_runs
  have "tsi_rt_reachable P (tsi_rt_initial tsi_init, tsi_dev0)" by (rule tsi_rt_reachable.initialize [OF r(1)]) (simp add: tsi_dev_facts)
  moreover have "tsi_rt_step P (tsi_rt_initial tsi_init, tsi_dev0) (tsi_rt1, tsi_dev0)" "tsi_rt_step P (tsi_rt1, tsi_dev0) (tsi_rt2, tsi_dev0)"
    using r(2,3) by (auto intro: tsi_rt_step.change_rte [of tsi_dev0, unfolded tsi_dev_facts] tsi_rt_step.change_mc_mask)
  ultimately show ?thesis by (blast intro: tsi_rt_reachable.step)
qed

section \<open>Properties\<close>

text \<open>
  Every state that the functions of the Tsi57x driver build from a successful initialisation is well formed, whatever the registers of the device return: every
  entry is a port of the device, the default route or a discard, at most one domain uses the device table, the masks beyond those of the device are never
  used, identifiers fit their size, and no two masks in use are for the same destination, so that the multicast check of a probe never finds several masks.
\<close>

theorem tsi_reachable_wf:
  assumes "tsi_rt_reachable P (rt, s)"
  shows "tsi_rt_wf (TSI57X_NUM_PORTS (dev_info s)) rt \<and> length (tsi_groups rt) \<le> 1 \<and> card (masks_for (dev_info s) p rt) \<le> 1"
proof (intro conjI)
  have i: "tsi_inv (rt, s)" by (rule tsi_reachable_inv [OF assms])
  then show wf: "tsi_rt_wf (TSI57X_NUM_PORTS (dev_info s)) rt" by (simp add: tsi_inv_def tsi_ok_def)
  then have t: "tsi_tables_ok (TSI57X_NUM_PORTS (dev_info s)) rt" and m: "tsi_masks_ok (mc_masks rt)" by (simp_all add: tsi_rt_wf_def)
  have n: "unat (NUM_MC_MASKS (dev_info s)) \<le> 8" using i by (simp add: tsi_inv_def word_le_nat_alt)
  have "i = j" if "i \<in> set (tsi_groups rt)" "j \<in> set (tsi_groups rt)" for i j
    using tsi_tables_okD(6) [OF t, of i j] that by (simp add: tsi_groups_def)
  then have "card (set (tsi_groups rt)) \<le> 1" by (simp add: card_le_Suc0_iff_eq)
  moreover have "distinct (tsi_groups rt)" by (simp add: tsi_groups_def)
  ultimately show "length (tsi_groups rt) \<le> 1" by (simp add: distinct_card)
  have "finite (masks_for (dev_info s) p rt)" by (simp add: masks_for_def)
  then show "card (masks_for (dev_info s) p rt) \<le> 1" using tsi_one_mask [OF m n] by (simp add: card_le_Suc0_iff_eq)
qed

theorem tsi_reachable_wf_witness:
  "tsi57x_rio_rt_change_rte tsi_dev tsi_route (Some (tsi_rt_initial tsi_init)) = (RIO_SUCCESS, RIO_SUCCESS, Some tsi_rt1) \<and>
   tsi57x_rio_rt_change_mc_mask tsi_mc (Some tsi_rt1) = (RIO_SUCCESS, RIO_SUCCESS, Some tsi_rt2) \<and>
   rte_val (dom_table tsi_rt2 ! 3) = RIO_RTE_LVL_G0 \<and> rte_val (dom_table tsi_rt2 ! 0) = RIO_RTE_DROP \<and> in_use (mc_masks tsi_rt2 ! 1) \<and>
   tsi_rt_wf 16 tsi_rt2 \<and> length (tsi_groups tsi_rt2) \<le> 1"
proof -
  have len: "length (dom_table (tsi_rt_initial tsi_init)) = 256" by (simp add: tsi_rt_initial_def Let_def)
  have "rte_val (dom_table tsi_rt2 ! 3) = 0x200" "rte_val (dom_table tsi_rt2 ! 0) = 0x300"
    using len by (simp_all add: tsi_rt2_def tsi_rt1_def tsi_drop_others_nth nth_upd tsi_rt_initial_def Let_def)
  moreover have "in_use (mc_masks tsi_rt2 ! 1)"
    by (simp add: tsi_rt2_def tsi_rt1_def tsi_rt_initial_def tsi_mark_mask_def tsi_mc_def Let_def)
  ultimately show ?thesis using tsi_example_runs(2,3) tsi_reachable_wf [OF tsi_example_reachable [of mem_host]] by (simp add: tsi_dev_facts)
qed

end
