(* ===== verification/Tsi_Regs.thy ===== *)
theory Tsi_Regs
  imports Tsi_Inv
begin

unbundle bit_operations_syntax

text \<open>
  The registers of a Tsi57x switch that the driver copies: those of the multicast masks and the default route. A write to one of them is stored in \<open>scratchpad\<close>, masked, and
  a read returns the copy, \<open>tsi57x_WriteReg\<close> and \<open>tsi57x_ReadReg\<close> of \<open>Dar_Regs\<close>; the registers of the routing tables are reached directly.
\<close>

section \<open>Copied registers\<close>

definition tsi_device :: "DAR_DEV_INFO_t \<Rightarrow> bool" where
  "tsi_device d \<longleftrightarrow> VALIDATE_DEV_INFO d \<and> driver_family d = RIO_TSI57X_DEVICE \<and> poregs d = None \<and> length (scratchpad d) = 30"

lemma copied_index:
  "k < 8 \<Longrightarrow> find (\<lambda>i. fst (scratchpad_const ! i) = TSI578_RIO_MC_IDX k) [0..<30] = Some k"
  "k < 8 \<Longrightarrow> find (\<lambda>i. fst (scratchpad_const ! i) = TSI578_RIO_MC_MSKX k) [0..<30] = Some (8 + k)"
  "find (\<lambda>i. fst (scratchpad_const ! i) = 0x78) [0..<30] = Some 17"
  "k < 8 \<Longrightarrow> filter (\<lambda>i. fst (scratchpad_const ! i) = TSI578_RIO_MC_IDX k) [0..<30] = [k]"
  "k < 8 \<Longrightarrow> filter (\<lambda>i. fst (scratchpad_const ! i) = TSI578_RIO_MC_MSKX k) [0..<30] = [8 + k]"
  "filter (\<lambda>i. fst (scratchpad_const ! i) = 0x78) [0..<30] = [17]"
proof -
  have all: "\<forall>k\<in>set [0..<8]. find (\<lambda>i. fst (scratchpad_const ! i) = TSI578_RIO_MC_IDX k) [0..<30] = Some k \<and>
      find (\<lambda>i. fst (scratchpad_const ! i) = TSI578_RIO_MC_MSKX k) [0..<30] = Some (8 + k) \<and>
      filter (\<lambda>i. fst (scratchpad_const ! i) = TSI578_RIO_MC_IDX k) [0..<30] = [k] \<and>
      filter (\<lambda>i. fst (scratchpad_const ! i) = TSI578_RIO_MC_MSKX k) [0..<30] = [8 + k]"
    by code_simp
  show "k < 8 \<Longrightarrow> find (\<lambda>i. fst (scratchpad_const ! i) = TSI578_RIO_MC_IDX k) [0..<30] = Some k"
    "k < 8 \<Longrightarrow> find (\<lambda>i. fst (scratchpad_const ! i) = TSI578_RIO_MC_MSKX k) [0..<30] = Some (8 + k)"
    "k < 8 \<Longrightarrow> filter (\<lambda>i. fst (scratchpad_const ! i) = TSI578_RIO_MC_IDX k) [0..<30] = [k]"
    "k < 8 \<Longrightarrow> filter (\<lambda>i. fst (scratchpad_const ! i) = TSI578_RIO_MC_MSKX k) [0..<30] = [8 + k]"
    using all by (simp_all only: set_upt atLeastLessThan_iff Ball_def) simp_all
  show "find (\<lambda>i. fst (scratchpad_const ! i) = 0x78) [0..<30] = Some 17" "filter (\<lambda>i. fst (scratchpad_const ! i) = 0x78) [0..<30] = [17]"
    by code_simp+
qed

lemma copied_masks: "k < 8 \<Longrightarrow> snd (scratchpad_const ! k) = 0xC000FFFF" "k < 8 \<Longrightarrow> snd (scratchpad_const ! (8 + k)) = 0xFFFF0000" "snd (scratchpad_const ! 17) = 0xFF"
proof -
  have "\<forall>k\<in>set [0..<8]. snd (scratchpad_const ! k) = 0xC000FFFF \<and> snd (scratchpad_const ! (8 + k)) = 0xFFFF0000" by code_simp
  then show "k < 8 \<Longrightarrow> snd (scratchpad_const ! k) = 0xC000FFFF" "k < 8 \<Longrightarrow> snd (scratchpad_const ! (8 + k)) = 0xFFFF0000"
    by (simp_all only: set_upt atLeastLessThan_iff Ball_def) simp_all
  show "snd (scratchpad_const ! 17) = 0xFF" by code_simp
qed

lemma mask_regs_other: "k < 8 \<Longrightarrow> TSI578_RIO_MC_IDX k \<notin> {0x80, 0x84, 0x88}" "k < 8 \<Longrightarrow> TSI578_RIO_MC_MSKX k \<notin> {0x80, 0x84, 0x88}"
proof -
  have "\<forall>k\<in>set [0..<8]. TSI578_RIO_MC_IDX k \<notin> {0x80, 0x84, 0x88} \<and> TSI578_RIO_MC_MSKX k \<notin> {0x80, 0x84, 0x88}" by code_simp
  then show "k < 8 \<Longrightarrow> TSI578_RIO_MC_IDX k \<notin> {0x80, 0x84, 0x88}" "k < 8 \<Longrightarrow> TSI578_RIO_MC_MSKX k \<notin> {0x80, 0x84, 0x88}"
    by (simp_all only: set_upt atLeastLessThan_iff Ball_def) simp_all
qed

text \<open>The registers of the tables are not copied.\<close>

lemma table_regs_direct:
  assumes "p < 16"
  shows "find (\<lambda>i. fst (scratchpad_const ! i) = TSI578_SPX_ROUTE_CFG_DESTID p) [0..<30] = None" "find (\<lambda>i. fst (scratchpad_const ! i) = TSI578_SPX_ROUTE_CFG_PORT p) [0..<30] = None"
    "find (\<lambda>i. fst (scratchpad_const ! i) = TSI578_SPX_ROUTE_BASE p) [0..<30] = None"
proof -
  have "\<forall>p\<in>set [0..<16]. \<forall>i\<in>set [0..<30]. fst (scratchpad_const ! i) \<noteq> TSI578_SPX_ROUTE_CFG_DESTID p \<and> fst (scratchpad_const ! i) \<noteq> TSI578_SPX_ROUTE_CFG_PORT p \<and>
      fst (scratchpad_const ! i) \<noteq> TSI578_SPX_ROUTE_BASE p" by code_simp
  then have "\<forall>i\<in>set [0..<30]. fst (scratchpad_const ! i) \<noteq> TSI578_SPX_ROUTE_CFG_DESTID p \<and> fst (scratchpad_const ! i) \<noteq> TSI578_SPX_ROUTE_CFG_PORT p \<and>
      fst (scratchpad_const ! i) \<noteq> TSI578_SPX_ROUTE_BASE p" using assms by (simp only: set_upt atLeastLessThan_iff Ball_def) simp
  then show "find (\<lambda>i. fst (scratchpad_const ! i) = TSI578_SPX_ROUTE_CFG_DESTID p) [0..<30] = None" "find (\<lambda>i. fst (scratchpad_const ! i) = TSI578_SPX_ROUTE_CFG_PORT p) [0..<30] = None"
    "find (\<lambda>i. fst (scratchpad_const ! i) = TSI578_SPX_ROUTE_BASE p) [0..<30] = None" by (simp_all only: find_None_iff) blast+
qed

context register_access
begin

lemma tsi_write_copied:
  assumes d: "tsi_device (dev_info s)" and i: "find (\<lambda>i. fst (scratchpad_const ! i) = a) [0..<30] = Some i" and a: "a \<notin> {0x80, 0x84, 0x88}"
    and w: "wr (dev_info s) a x (hw s) = (RIO_SUCCESS, h')"
  shows "DARRegWrite P a x s = (RIO_SUCCESS, s\<lparr>dev_info := scratch_upd i (\<lambda>_. x AND snd (scratchpad_const ! i)) (dev_info s), hw := h'\<rparr>)"
proof -
  have "poregs (scratch_upd i f (dev_info s)) = None" for f using d by (simp add: tsi_device_def scratch_upd_def)
  then have po: "poreg_store a x (scratch_upd i f (dev_info s)) = scratch_upd i f (dev_info s)" for f by (simp add: poreg_store_def DAR_get_poreg_idx_def)
  have t: "tsi57x_WriteReg wr (dev_info s) a x (hw s) = (RIO_SUCCESS, scratch_upd i (\<lambda>_. x AND snd (scratchpad_const ! i)) (dev_info s), h')"
    unfolding tsi57x_WriteReg_def w i Let_def prod.case option.case using a by simp
  show ?thesis using d host t po by (simp add: DARRegWrite_def tsi_device_def)
qed

lemma tsi_read_copied:
  assumes "tsi_device (dev_info s)" "filter (\<lambda>i. fst (scratchpad_const ! i) = a) [0..<30] = [i]" "a \<notin> {0x80, 0x84, 0x88}"
  shows "DARRegRead P a s = (RIO_SUCCESS, scratchpad (dev_info s) ! i, s)"
proof -
  have t: "tsi57x_ReadReg rd (dev_info s) a (hw s) = (RIO_SUCCESS, scratchpad (dev_info s) ! i, hw s)"
    unfolding tsi57x_ReadReg_def assms(2) Let_def using assms(3) by simp
  show ?thesis using assms(1) host t by (simp add: DARRegRead_def tsi_device_def DAR_get_poreg_idx_def)
qed

lemma tsi_write_direct:
  assumes "tsi_device (dev_info s)" "find (\<lambda>i. fst (scratchpad_const ! i) = a) [0..<30] = None" "wr (dev_info s) a x (hw s) = (RIO_SUCCESS, h')"
  shows "DARRegWrite P a x s = (RIO_SUCCESS, s\<lparr>hw := h'\<rparr>)"
proof -
  have t: "tsi57x_WriteReg wr (dev_info s) a x (hw s) = (RIO_SUCCESS, dev_info s, h')" unfolding tsi57x_WriteReg_def assms Let_def prod.case by simp
  show ?thesis using assms(1) host t by (simp add: DARRegWrite_def tsi_device_def DAR_get_poreg_idx_def poreg_store_def)
qed

lemma tsi_read_direct:
  assumes "tsi_device (dev_info s)" "find (\<lambda>i. fst (scratchpad_const ! i) = a) [0..<30] = None" "rd (dev_info s) a (hw s) = (RIO_SUCCESS, x, hw s)"
  shows "DARRegRead P a s = (RIO_SUCCESS, x, s)"
proof -
  have none: "filter (\<lambda>i. fst (scratchpad_const ! i) = a) [0..<30] = []" using assms(2) by (simp only: find_None_iff filter_empty_conv) blast
  have t: "tsi57x_ReadReg rd (dev_info s) a (hw s) = (RIO_SUCCESS, x, hw s)" unfolding tsi57x_ReadReg_def none Let_def using assms(3) by simp
  show ?thesis using assms(1) host t by (simp add: DARRegRead_def tsi_device_def DAR_get_poreg_idx_def)
qed

end

section \<open>Registers of a mask\<close>

text \<open>The fields of a mask are found again in the copies of its two registers.\<close>

lemma mask_reg_consts:
  "(0xC000FFFF :: u32) = mask 16 OR push_bit 30 (mask 2)" "(0xFFFF0000 :: u32) = push_bit 16 (mask 16)" "(0xFFFF :: u32) = mask 16" "(0xFF :: u32) = mask 8"
  "(0x40000000 :: u32) = push_bit 30 (mask 1)" "(0x80000000 :: u32) = push_bit 31 (mask 1)" "(push_bit 16 1 - 1 :: u32) = mask 16"
  by (simp_all add: mask_eq_exp_minus_1)

lemma index_reg_back:
  fixes m :: u32
  assumes "fits 16 m"
  defines "x a b \<equiv> (m OR (if a then 0x40000000 else 0) OR (if b then 0x80000000 else 0)) AND 0xC000FFFF :: u32"
  shows "x a b AND 0x40000000 \<noteq> 0 \<longleftrightarrow> a" "x a b AND 0x80000000 \<noteq> 0 \<longleftrightarrow> b" "x a b AND 0xFFFF = m" "fits 8 m \<Longrightarrow> x a b AND 0xFF = m"
proof -
  note lo = fits_bit [OF assms(1)]
  define A B :: u32 where AB: "A = (if a then 0x40000000 else 0)" "B = (if b then 0x80000000 else 0)"
  have "bit (0x40000000 :: u32) n \<longleftrightarrow> n = 30" "bit (0x80000000 :: u32) n \<longleftrightarrow> n = 31" for n
    unfolding mask_reg_consts(5,6) by (simp_all only: bit_push_bit_iff bit_mask_iff possible_bit_word) auto
  then have bAB: "bit A n \<longleftrightarrow> a \<and> n = 30" "bit B n \<longleftrightarrow> b \<and> n = 31" for n unfolding AB by (cases a; cases b; simp only: if_True if_False bit_0_eq; simp)+
  have bit: "bit (x a b) n \<longleftrightarrow> bit m n \<or> a \<and> n = 30 \<or> b \<and> n = 31" for n
    unfolding x_def AB [symmetric] mask_reg_consts(1) by (auto simp: bit_simps bAB dest: lo)
  have e: "(0x40000000 :: u32) = 2 ^ 30" "(0x80000000 :: u32) = 2 ^ 31" by simp_all
  show "x a b AND 0x40000000 \<noteq> 0 \<longleftrightarrow> a" "x a b AND 0x80000000 \<noteq> 0 \<longleftrightarrow> b"
    using lo [of 30] lo [of 31] unfolding e and_exp_eq_0_iff_not_bit by (auto simp: bit)
  show "x a b AND 0xFFFF = m" unfolding mask_reg_consts(3) by (rule bit_word_eqI) (auto simp: bit bit_simps dest: lo)
  show "x a b AND 0xFF = m" if "fits 8 m" unfolding mask_reg_consts(4) by (rule bit_word_eqI) (auto simp: bit bit_simps dest: fits_bit [OF that])
qed

lemma ports_reg_back:
  fixes m :: u32
  assumes "m AND NOT (push_bit 16 1 - 1) = 0"
  shows "push_bit 16 m AND 0xFFFF0000 AND 0xFFFF0000 AND NOT 0xFFFF0000 = 0" "drop_bit 16 (push_bit 16 m AND 0xFFFF0000 AND 0xFFFF0000 AND 0xFFFF0000) = m"
proof -
  have lo: "n < 16" if "bit m n" for n
  proof (rule ccontr)
    assume "\<not> n < 16"
    then have "bit (m AND NOT (mask 16)) n" using that bit_imp_le_length [OF that] by (simp add: bit_simps)
    then show False using assms unfolding mask_reg_consts by simp
  qed
  show "push_bit 16 m AND 0xFFFF0000 AND 0xFFFF0000 AND NOT 0xFFFF0000 = 0" by (simp add: and.assoc)
  show "drop_bit 16 (push_bit 16 m AND 0xFFFF0000 AND 0xFFFF0000 AND 0xFFFF0000) = m"
    unfolding mask_reg_consts(2) by (rule bit_word_eqI) (auto simp: bit_simps dest: lo)
qed

end
