(* ===== verification/Tsi_Hw.thy ===== *)
theory Tsi_Hw
  imports Tsi_Regs
begin

unbundle bit_operations_syntax

text \<open>
  What setting the routing tables of a Tsi57x switch and reading them back do. The tables of a port are reached through an index: the locale \<open>tsi_tables\<close> says which entry an
  index selects. The contents of the registers of the masks and of the default route follow from the model of the driver, which copies them.
\<close>

section \<open>What the switch does\<close>

text \<open>
  Each port has a domain table \<open>L1\<close> and a device table \<open>L2\<close>, a base and an index. The high byte of the index selects an entry of the domain table, unless it is the base: then the
  low byte selects an entry of the device table. An entry is a byte and a mark: with bit 30 of the index set, the entry is written with a wrong parity, and packets that hit it are dropped.
\<close>

type_synonym tsi_view = "nat \<Rightarrow> rt_table \<Rightarrow> nat \<Rightarrow> u32 \<times> bool"

definition tsi_index :: "nat \<Rightarrow> u32 \<Rightarrow> rt_table \<times> nat" where
  "tsi_index b x = (let hi = unat (drop_bit 8 x AND 0xFF) in if hi = b then (L2, unat (x AND 0xFF)) else (L1, hi))"

definition tsi_put :: "nat set \<Rightarrow> rt_table \<times> nat \<Rightarrow> u32 \<times> bool \<Rightarrow> tsi_view \<Rightarrow> tsi_view" where
  "tsi_put Q e y t = (\<lambda>p tab j. if p \<in> Q \<and> (tab, j) = e then y else t p tab j)"

locale tsi_tables = register_access P rd wr
  for P :: "'h host" and rd :: "DAR_DEV_INFO_t \<Rightarrow> u32 \<Rightarrow> 'h \<Rightarrow> u32 \<times> u32 \<times> 'h" and wr :: "DAR_DEV_INFO_t \<Rightarrow> u32 \<Rightarrow> u32 \<Rightarrow> 'h \<Rightarrow> u32 \<times> 'h" +
  fixes v :: "'h \<Rightarrow> tsi_view" and base :: "'h \<Rightarrow> nat \<Rightarrow> nat" and sel :: "'h \<Rightarrow> nat \<Rightarrow> u32"
  assumes write_index: "p < 16 \<Longrightarrow> wr d (TSI578_SPX_ROUTE_CFG_DESTID p) x h = (rc, h') \<Longrightarrow> rc = RIO_SUCCESS \<and> v h' = v h \<and> base h' = base h \<and> sel h' = (sel h)(p := x)"
    and write_entry: "p < 16 \<Longrightarrow> y \<le> 0xFF \<Longrightarrow> wr d (TSI578_SPX_ROUTE_CFG_PORT p) y h = (rc, h') \<Longrightarrow>
      rc = RIO_SUCCESS \<and> v h' = tsi_put {p} (tsi_index (base h p) (sel h p)) (y, bit (sel h p) 30) (v h) \<and> base h' = base h"
    and read_entry: "p < 16 \<Longrightarrow> rd d (TSI578_SPX_ROUTE_CFG_PORT p) h = (RIO_SUCCESS, case tsi_index (base h p) (sel h p) of (tab, j) \<Rightarrow> fst (v h p tab j), h)"
    and write_base: "p < 16 \<Longrightarrow> b < 256 \<Longrightarrow> wr d (TSI578_SPX_ROUTE_BASE p) (push_bit 24 (of_nat b)) h = (rc, h') \<Longrightarrow> rc = RIO_SUCCESS \<and> v h' = v h \<and> base h' = (base h)(p := b)"
    and read_base: "p < 16 \<Longrightarrow> rd d (TSI578_SPX_ROUTE_BASE p) h = (RIO_SUCCESS, push_bit 24 (of_nat (base h p)), h)"
    and write_other: "a \<in> insert 0x78 (TSI578_RIO_MC_IDX ` {..<8} \<union> TSI578_RIO_MC_MSKX ` {..<8}) \<Longrightarrow> wr d a x h = (rc, h') \<Longrightarrow> rc = RIO_SUCCESS \<and> v h' = v h \<and> base h' = base h"

text \<open>An entry of the domain table, and one of the device table, are selected by these indices.\<close>

lemma mask_flag_bits:
  fixes flag :: u32
  assumes "flag \<in> {0, 0x40000000}"
  shows "bit flag n \<longleftrightarrow> flag \<noteq> 0 \<and> n = 30"
proof -
  have "(0x40000000 :: u32) = 2 ^ 30" by simp
  then have p30: "bit (0x40000000 :: u32) n \<longleftrightarrow> n = 30" by (simp only: bit_exp_iff possible_bit_word) auto
  from assms consider "flag = 0" | "flag = 0x40000000" by auto
  then show ?thesis by cases (simp_all only: p30, simp_all)
qed

lemma byte_fits: "k < 256 \<Longrightarrow> fits 8 (of_nat k :: u32)"
  by (simp add: fits_def unsigned_of_nat take_bit_nat_eq_self)

lemma index_fields:
  fixes x y flag :: u32
  assumes "fits 8 x" "fits 8 y" "flag \<in> {0, 0x40000000}"
  shows "drop_bit 8 (push_bit 8 x OR y OR flag) AND 0xFF = x" "(push_bit 8 x OR y OR flag) AND 0xFF = y" "bit (push_bit 8 x OR y OR flag) 30 \<longleftrightarrow> flag \<noteq> 0"
    "push_bit 8 x + y = push_bit 8 x OR y"
proof -
  have m: "(0xFF :: u32) = mask 8" by (simp add: mask_eq_exp_minus_1)
  note lo = fits_bit [OF assms(1)] fits_bit [OF assms(2)] and f = mask_flag_bits [OF assms(3)]
  show "drop_bit 8 (push_bit 8 x OR y OR flag) AND 0xFF = x" "(push_bit 8 x OR y OR flag) AND 0xFF = y"
    unfolding m by (rule bit_word_eqI, auto simp: bit_simps f dest: lo)+
  show "bit (push_bit 8 x OR y OR flag) 30 \<longleftrightarrow> flag \<noteq> 0" using lo(1) [of 22] lo(2) [of 30] by (auto simp: bit_or_iff bit_push_bit_iff f)
  have "push_bit 8 x AND y = 0" by (rule bit_word_eqI) (auto simp: bit_simps dest: lo)
  then show "push_bit 8 x + y = push_bit 8 x OR y" by (rule disjunctive_add_eq_or)
qed

lemma tsi_index_dom:
  assumes "i < 256" "flag \<in> {0, 0x40000000}"
  shows "i \<noteq> b \<Longrightarrow> tsi_index b (push_bit 8 (of_nat i) OR flag) = (L1, i)" "bit (push_bit 8 (of_nat i) OR flag :: u32) 30 \<longleftrightarrow> flag \<noteq> 0"
proof -
  have "fits 8 (0 :: u32)" by (simp add: fits_def)
  note f = index_fields [OF byte_fits [OF assms(1)] this assms(2), unfolded or.left_neutral]
  show "tsi_index b (push_bit 8 (of_nat i) OR flag) = (L1, i)" if "i \<noteq> b"
    unfolding tsi_index_def Let_def f(1) using assms(1) that by (simp add: unsigned_of_nat take_bit_nat_eq_self)
  show "bit (push_bit 8 (of_nat i) OR flag :: u32) 30 \<longleftrightarrow> flag \<noteq> 0" by (rule f(3))
qed

lemma tsi_index_dev:
  assumes "i < 256" "b < 256" "flag \<in> {0, 0x40000000}"
  shows "tsi_index b ((push_bit 8 (of_nat b) + of_nat i) OR flag) = (L2, i)" "bit ((push_bit 8 (of_nat b) + of_nat i) OR flag :: u32) 30 \<longleftrightarrow> flag \<noteq> 0"
proof -
  note f = index_fields [OF byte_fits [OF assms(2)] byte_fits [OF assms(1)] assms(3)]
  have e: "(push_bit 8 (of_nat b) + of_nat i) OR flag = (push_bit 8 (of_nat b) OR of_nat i OR flag :: u32)" unfolding f(4) by (simp only: or.assoc)
  show "tsi_index b ((push_bit 8 (of_nat b) + of_nat i) OR flag) = (L2, i)"
    unfolding e tsi_index_def f(1,2) Let_def using assms by (simp add: unsigned_of_nat take_bit_nat_eq_self)
  show "bit ((push_bit 8 (of_nat b) + of_nat i) OR flag :: u32) 30 \<longleftrightarrow> flag \<noteq> 0" unfolding e by (rule f(3))
qed

section \<open>Setting the tables\<close>

text \<open>What a value is in a table, and the tables after the first \<open>k\<close> entries of one of them have been written, those that are in \<open>A\<close>.\<close>

definition tsi_value :: "u32 \<Rightarrow> u32 \<times> bool" where
  "tsi_value x = (if x = RIO_RTE_DFLT_PORT then (HW_DFLT_RT, False) else if x = RIO_RTE_DROP then (HW_DFLT_RT, True) else (x, False))"

definition tsi_filled :: "nat set \<Rightarrow> rt_table \<Rightarrow> nat set \<Rightarrow> (nat \<Rightarrow> u32 \<times> bool) \<Rightarrow> nat \<Rightarrow> tsi_view \<Rightarrow> tsi_view" where
  "tsi_filled Q tab A f k t = (\<lambda>p tab' j. if p \<in> Q \<and> tab' = tab \<and> j < k \<and> j \<in> A then f j else t p tab' j)"

lemma tsi_filled_simps:
  "tsi_filled Q tab A f 0 t = t" "k \<in> A \<Longrightarrow> tsi_put Q (tab, k) (f k) (tsi_filled Q tab A f k t) = tsi_filled Q tab A f (Suc k) t"
  "k \<notin> A \<Longrightarrow> tsi_filled Q tab A f (Suc k) t = tsi_filled Q tab A f k t"
  by (auto simp: tsi_filled_def tsi_put_def fun_eq_iff less_Suc_eq)

lemma tsi_port_value:
  assumes "x < (ucast (TSI57X_NUM_PORTS d) :: u32)"
  shows "unat x < 16" "x \<noteq> 0x200" "x \<noteq> 0x300" "x \<noteq> 0x301" "x \<noteq> 0xFF" "x AND 0xFF = x"
proof -
  have "unat (TSI57X_NUM_PORTS d) \<le> 16" using TSI57X_NUM_PORTS_le [of d] by (simp add: word_le_nat_alt)
  then show u: "unat x < 16" using assms by (simp add: word_less_nat_alt unsigned_ucast_eq take_bit_nat_eq_self)
  then show "x \<noteq> 0x200" "x \<noteq> 0x300" "x \<noteq> 0x301" "x \<noteq> 0xFF" "x AND 0xFF = x" by (auto simp: word_unat_eq_iff rtv_index)
qed

lemma tsi_code_value:
  assumes "tsi_entry_ok (TSI57X_NUM_PORTS d) is_dom x" "x \<noteq> 0x200"
  shows "\<exists>y flag. tsi_code d x = Some (y, flag) \<and> y \<le> 0xFF \<and> flag \<in> {0, 0x40000000} \<and> tsi_value x = (y, flag \<noteq> 0)"
proof -
  consider "x < ucast (TSI57X_NUM_PORTS d)" | "x = 0x301" | "x = 0x300" using assms by (auto simp: tsi_entry_ok_def)
  then show ?thesis
  proof cases
    case 1
    then have "\<not> ucast (TSI57X_NUM_PORTS d) \<le> x" by simp
    moreover have "x \<le> 0xFF" using tsi_port_value(1) [OF 1] by (simp add: word_le_nat_alt)
    ultimately show ?thesis using tsi_port_value(3,4) [OF 1] by (simp add: tsi_code_def tsi_value_def)
  qed (simp_all add: tsi_code_def tsi_value_def)
qed

definition tsi_match :: "tsi_view \<Rightarrow> nat \<Rightarrow> rio_rt_state_t \<Rightarrow> nat \<Rightarrow> bool" where
  "tsi_match t b rt p \<longleftrightarrow>
     (\<forall>i<RIO_RT_GRP_SZ. (i \<noteq> b \<longrightarrow> t p L1 i = tsi_value (rte_val (dom_table rt ! i))) \<and> t p L2 i = tsi_value (rte_val (dev_table rt ! i)))"

definition tsi_unmarked :: "rio_rt_state_t \<Rightarrow> rio_rt_state_t" where
  "tsi_unmarked rt = rt\<lparr>dev_table := map (uc_changed_update (\<lambda>_. False)) (dev_table rt), dom_table := map (uc_changed_update (\<lambda>_. False)) (dom_table rt),
     mc_masks := first_done (mc_changed_update (\<lambda>_. False)) TSI578_MAX_MC_MASKS (mc_masks rt)\<rparr>"

text \<open>The masks of a state are in the copies of their registers.\<close>

definition mask_copies :: "rio_rt_mc_info_t list \<Rightarrow> nat \<Rightarrow> DAR_DEV_INFO_t \<Rightarrow> bool" where
  "mask_copies ms k d \<longleftrightarrow> (\<forall>j<k. scratchpad d ! j = fst (tsi_mask_regs (ms ! j)) AND 0xC000FFFF \<and> scratchpad d ! (8 + j) = snd (tsi_mask_regs (ms ! j)) AND 0xFFFF0000)"

lemma scratch_keeps:
  "tsi_device (scratch_upd i f d) \<longleftrightarrow> tsi_device d" "TSI57X_NUM_PORTS (scratch_upd i f d) = TSI57X_NUM_PORTS d"
  by (simp_all add: tsi_device_def scratch_upd_def VALIDATE_DEV_INFO_def TSI57X_NUM_PORTS_def NUM_PORTS_def)

context tsi_tables
begin

lemma other_written:
  assumes d: "tsi_device (dev_info s)" and i: "find (\<lambda>i. fst (scratchpad_const ! i) = a) [0..<30] = Some i" and a: "a \<notin> {0x80, 0x84, 0x88}"
    "a \<in> insert 0x78 (TSI578_RIO_MC_IDX ` {..<8} \<union> TSI578_RIO_MC_MSKX ` {..<8})"
  shows "\<exists>h'. DARRegWrite P a x s = (RIO_SUCCESS, s\<lparr>dev_info := scratch_upd i (\<lambda>_. x AND snd (scratchpad_const ! i)) (dev_info s), hw := h'\<rparr>) \<and>
    v h' = v (hw s) \<and> base h' = base (hw s)"
proof -
  obtain rc h' where w: "wr (dev_info s) a x (hw s) = (rc, h')" by (cases rule: prod.exhaust)
  note k = write_other [OF a(2) w]
  show ?thesis using tsi_write_copied [OF d i a(1), of x h'] w k by (intro exI [of _ h']) simp
qed

lemma mask_written:
  assumes d: "tsi_device (dev_info s)" and k: "k < 8" and c: "mask_copies ms k (dev_info s)"
  shows "\<exists>s1 s2. DARRegWrite P (TSI578_RIO_MC_IDX k) (fst (tsi_mask_regs (ms ! k))) s = (RIO_SUCCESS, s1) \<and>
    DARRegWrite P (TSI578_RIO_MC_MSKX k) (snd (tsi_mask_regs (ms ! k))) s1 = (RIO_SUCCESS, s2) \<and>
    tsi_device (dev_info s2) \<and> same_size (dev_info s) (dev_info s2) \<and> mask_copies ms (Suc k) (dev_info s2) \<and> v (hw s2) = v (hw s) \<and> base (hw s2) = base (hw s)"
proof -
  let ?x = "fst (tsi_mask_regs (ms ! k))" and ?y = "snd (tsi_mask_regs (ms ! k))"
  obtain h1 where w1: "DARRegWrite P (TSI578_RIO_MC_IDX k) ?x s = (RIO_SUCCESS, s\<lparr>dev_info := scratch_upd k (\<lambda>_. ?x AND 0xC000FFFF) (dev_info s), hw := h1\<rparr>)"
      "v h1 = v (hw s)" "base h1 = base (hw s)"
    using other_written [OF d copied_index(1) [OF k] mask_regs_other(1) [OF k], of ?x] k copied_masks(1) [OF k] by auto
  let ?s1 = "s\<lparr>dev_info := scratch_upd k (\<lambda>_. ?x AND 0xC000FFFF) (dev_info s), hw := h1\<rparr>"
  have d1: "tsi_device (dev_info ?s1)" using d by (simp add: scratch_keeps)
  obtain h2 where w2: "DARRegWrite P (TSI578_RIO_MC_MSKX k) ?y ?s1 = (RIO_SUCCESS, ?s1\<lparr>dev_info := scratch_upd (8 + k) (\<lambda>_. ?y AND 0xFFFF0000) (dev_info ?s1), hw := h2\<rparr>)"
      "v h2 = v h1" "base h2 = base h1"
    using other_written [OF d1 copied_index(2) [OF k] mask_regs_other(2) [OF k], of ?y] k copied_masks(2) [OF k] by auto
  let ?s2 = "?s1\<lparr>dev_info := scratch_upd (8 + k) (\<lambda>_. ?y AND 0xFFFF0000) (dev_info ?s1), hw := h2\<rparr>"
  have len: "length (scratchpad (dev_info s)) = 30" using d by (simp add: tsi_device_def)
  have "mask_copies ms (Suc k) (dev_info ?s2)"
    using c k len by (auto simp: mask_copies_def scratch_upd_def nth_list_update less_Suc_eq)
  moreover have "tsi_device (dev_info ?s2)" "same_size (dev_info s) (dev_info ?s2)" using d by (simp_all add: scratch_keeps scratch_size same_size_simps)
  moreover have "v (hw ?s2) = v (hw s)" "base (hw ?s2) = base (hw s)" using w1(2,3) w2(2,3) by simp_all
  ultimately show ?thesis using w1(1) w2(1) by blast
qed

lemma masks_loop:
  assumes d: "tsi_device (dev_info s)" and c: "mask_copies ms k (dev_info s)" and k: "k \<le> 8" and ms: "length ms = 256" "\<forall>j<8. bad AND mc_mask (ms ! j) = 0"
  shows "\<exists>s'. tsi_program_masks P bad True [k..<8] rc (rt\<lparr>mc_masks := first_done (mc_changed_update (\<lambda>_. False)) k ms\<rparr>, s) =
      (RIO_SUCCESS, RIO_SUCCESS, rt\<lparr>mc_masks := first_done (mc_changed_update (\<lambda>_. False)) 8 ms\<rparr>, s') \<and>
    tsi_device (dev_info s') \<and> same_size (dev_info s) (dev_info s') \<and> mask_copies ms 8 (dev_info s') \<and> v (hw s') = v (hw s) \<and> base (hw s') = base (hw s)"
  using d c k
proof (induction "8 - k" arbitrary: k rc s)
  case 0
  then have "k = 8" by simp
  then show ?case using 0 by (intro exI [of _ s]) (simp add: same_size_simps)
next
  case (Suc l)
  then have k: "k < 8" "l = 8 - Suc k" by simp_all
  let ?clr = "mc_changed_update (\<lambda>_. False)"
  obtain s1 s2 where w: "DARRegWrite P (TSI578_RIO_MC_IDX k) (fst (tsi_mask_regs (ms ! k))) s = (RIO_SUCCESS, s1)"
      "DARRegWrite P (TSI578_RIO_MC_MSKX k) (snd (tsi_mask_regs (ms ! k))) s1 = (RIO_SUCCESS, s2)"
    and s2: "tsi_device (dev_info s2)" "same_size (dev_info s) (dev_info s2)" "mask_copies ms (Suc k) (dev_info s2)" "v (hw s2) = v (hw s)" "base (hw s2) = base (hw s)"
    using mask_written [OF Suc.prems(1) k(1) Suc.prems(2)] by blast
  obtain s' where s': "tsi_program_masks P bad True [Suc k..<8] RIO_SUCCESS (rt\<lparr>mc_masks := first_done ?clr (Suc k) ms\<rparr>, s2) =
      (RIO_SUCCESS, RIO_SUCCESS, rt\<lparr>mc_masks := first_done ?clr 8 ms\<rparr>, s')"
    "tsi_device (dev_info s')" "same_size (dev_info s2) (dev_info s')" "mask_copies ms 8 (dev_info s')" "v (hw s') = v (hw s2)" "base (hw s') = base (hw s2)"
    using Suc.hyps(1) [OF k(2) s2(1,3), of RIO_SUCCESS] k(1) by auto
  have m: "first_done ?clr k ms ! k = ms ! k" "bad AND mc_mask (ms ! k) = 0" using ms k(1) by simp_all
  have st: "(first_done ?clr k ms)[k := (ms ! k)\<lparr>mc_changed := False\<rparr>] = first_done ?clr (Suc k) ms" using first_done_step [of k ms ?clr] ms k(1) by simp
  have u: "[k..<8] = k # [Suc k..<8]" using k(1) by (simp only: upt_rec [of k] if_True)
  have run: "tsi_program_masks P bad True [k..<8] rc (rt\<lparr>mc_masks := first_done ?clr k ms\<rparr>, s) =
      tsi_program_masks P bad True [Suc k..<8] RIO_SUCCESS (rt\<lparr>mc_masks := first_done ?clr (Suc k) ms\<rparr>, s2)"
    unfolding u tsi_program_masks.simps Let_def prod.case rio_rt_state_t.simps m st using w by (simp add: case_prod_beta m st)
  show ?case unfolding run using s' s2 same_size_simps(4) [OF s2(2) s'(3)] by (intro exI [of _ s']) simp
qed

lemma entry_written:
  assumes d: "tsi_device (dev_info s)" and p: "p < 16" and y: "y \<le> 0xFF"
  shows "\<exists>h'. tsi_write_entry P c1 c2 x y p s = (RIO_SUCCESS, RIO_SUCCESS, s\<lparr>hw := h'\<rparr>) \<and>
    v h' = tsi_put {p} (tsi_index (base (hw s) p) x) (y, bit x 30) (v (hw s)) \<and> base h' = base (hw s)"
proof -
  obtain rc1 h1 where w1: "wr (dev_info s) (TSI578_SPX_ROUTE_CFG_DESTID p) x (hw s) = (rc1, h1)" by (cases rule: prod.exhaust)
  note i1 = write_index [OF p w1]
  have e1: "DARRegWrite P (TSI578_SPX_ROUTE_CFG_DESTID p) x s = (RIO_SUCCESS, s\<lparr>hw := h1\<rparr>)"
    using i1 by (intro tsi_write_direct [OF d table_regs_direct(1) [OF p]]) (simp add: w1)
  obtain rc2 h2 where w2: "wr (dev_info s) (TSI578_SPX_ROUTE_CFG_PORT p) y h1 = (rc2, h2)" by (cases rule: prod.exhaust)
  note i2 = write_entry [OF p y w2]
  have e2: "DARRegWrite P (TSI578_SPX_ROUTE_CFG_PORT p) y (s\<lparr>hw := h1\<rparr>) = (RIO_SUCCESS, s\<lparr>hw := h2\<rparr>)"
    using tsi_write_direct [of "s\<lparr>hw := h1\<rparr>", OF _ table_regs_direct(2) [OF p], of y h2] d w2 i2 by simp
  show ?thesis unfolding tsi_write_entry_def e1 Let_def prod.case using e2 i1 i2 by (intro exI [of _ h2]) simp
qed

lemma ports_written:
  assumes "tsi_device (dev_info s)" "\<forall>p\<in>set ports. p < 16 \<and> base (hw s) p = b" "y \<le> 0xFF"
  shows "\<exists>h'. for_each (tsi_write_entry P c1 c2 x y) ports s = (RIO_SUCCESS, RIO_SUCCESS, s\<lparr>hw := h'\<rparr>) \<and>
    v h' = tsi_put (set ports) (tsi_index b x) (y, bit x 30) (v (hw s)) \<and> base h' = base (hw s)"
  using assms
proof (induction ports arbitrary: s)
  case Nil
  show ?case by (rule exI [of _ "hw s"]) (simp add: tsi_put_def fun_eq_iff)
next
  case (Cons p ports)
  obtain h1 where h1: "tsi_write_entry P c1 c2 x y p s = (RIO_SUCCESS, RIO_SUCCESS, s\<lparr>hw := h1\<rparr>)"
      "v h1 = tsi_put {p} (tsi_index b x) (y, bit x 30) (v (hw s))" "base h1 = base (hw s)"
    using entry_written [OF Cons.prems(1) _ Cons.prems(3), of p c1 c2 x] Cons.prems(2) by auto
  obtain h2 where h2: "for_each (tsi_write_entry P c1 c2 x y) ports (s\<lparr>hw := h1\<rparr>) = (RIO_SUCCESS, RIO_SUCCESS, s\<lparr>hw := h2\<rparr>)"
      "v h2 = tsi_put (set ports) (tsi_index b x) (y, bit x 30) (v h1)" "base h2 = base h1"
    using Cons.IH [of "s\<lparr>hw := h1\<rparr>"] Cons.prems h1(3) by auto
  have "v h2 = tsi_put (set (p # ports)) (tsi_index b x) (y, bit x 30) (v (hw s))"
    unfolding h2(2) h1(2) by (auto simp: tsi_put_def fun_eq_iff)
  then show ?case using h1 h2 by (intro exI [of _ h2]) simp
qed

lemma bases_written:
  assumes "tsi_device (dev_info s)" "\<forall>p\<in>set ports. p < 16" "b < 256"
  shows "\<exists>h'. for_each (tsi_write_base P (push_bit 8 (of_nat b))) ports s = (RIO_SUCCESS, RIO_SUCCESS, s\<lparr>hw := h'\<rparr>) \<and>
    v h' = v (hw s) \<and> base h' = (\<lambda>p. if p \<in> set ports then b else base (hw s) p)"
  using assms
proof (induction ports arbitrary: s)
  case Nil
  show ?case by (rule exI [of _ "hw s"]) simp
next
  case (Cons p ports)
  have p: "p < 16" using Cons.prems(2) by simp
  obtain rc1 h1 where w: "wr (dev_info s) (TSI578_SPX_ROUTE_BASE p) (push_bit 24 (of_nat b)) (hw s) = (rc1, h1)" by (cases rule: prod.exhaust)
  note i = write_base [OF p Cons.prems(3) w]
  have e: "DARRegWrite P (TSI578_SPX_ROUTE_BASE p) (push_bit 24 (of_nat b)) s = (RIO_SUCCESS, s\<lparr>hw := h1\<rparr>)"
    using i by (intro tsi_write_direct [OF Cons.prems(1) table_regs_direct(3) [OF p]]) (simp add: w)
  have "\<exists>h2. for_each (tsi_write_base P (push_bit 8 (of_nat b))) ports (s\<lparr>hw := h1\<rparr>) = (RIO_SUCCESS, RIO_SUCCESS, s\<lparr>hw := h2\<rparr>) \<and>
      v h2 = v h1 \<and> base h2 = (\<lambda>p. if p \<in> set ports then b else base h1 p)"
    using Cons.IH [of "s\<lparr>hw := h1\<rparr>"] Cons.prems by (simp cong: if_cong)
  then obtain h2 where h2: "for_each (tsi_write_base P (push_bit 8 (of_nat b))) ports (s\<lparr>hw := h1\<rparr>) = (RIO_SUCCESS, RIO_SUCCESS, s\<lparr>hw := h2\<rparr>)"
      "v h2 = v h1" "base h2 = (\<lambda>p. if p \<in> set ports then b else base h1 p)" by blast
  have "tsi_write_base P (push_bit 8 (of_nat b)) p s = (RIO_SUCCESS, RIO_SUCCESS, s\<lparr>hw := h1\<rparr>)" by (simp add: tsi_write_base_def e)
  then show ?case using h2 i by (intro exI [of _ h2]) (auto simp: fun_eq_iff)
qed

text \<open>One entry of the state.\<close>

lemma dom_step:
  assumes d: "tsi_device (dev_info s)" and ports: "\<forall>p\<in>set ports. p < 16 \<and> base (hw s) p = b" and i: "i < 256"
    and u: "u = dom_table rt ! i" "tsi_entry_ok (TSI57X_NUM_PORTS (dev_info s)) True (rte_val u)" "rte_val u = 0x200 \<longleftrightarrow> i = b"
  shows "\<exists>h'. tsi_program_dom P ports True i (rt, s) = (RIO_SUCCESS, RIO_SUCCESS, rt\<lparr>dom_table := (dom_table rt)[i := u\<lparr>uc_changed := False\<rparr>]\<rparr>, s\<lparr>hw := h'\<rparr>) \<and>
    v h' = (if i = b then v (hw s) else tsi_put (set ports) (L1, i) (tsi_value (rte_val u)) (v (hw s))) \<and> base h' = base (hw s)"
proof (cases "i = b")
  case True
  then show ?thesis using u by (intro exI [of _ "hw s"]) (simp add: tsi_program_dom_def tsi_clear_changed_def store_entry_def table_of_def)
next
  case False
  obtain y flag where c: "tsi_code (dev_info s) (rte_val u) = Some (y, flag)" "y \<le> 0xFF" "flag \<in> {0, 0x40000000}" "tsi_value (rte_val u) = (y, flag \<noteq> 0)"
    using tsi_code_value [OF u(2)] u(3) False by blast
  note x = tsi_index_dom [OF i c(3)]
  obtain h' where "for_each (tsi_write_entry P 0x4010A004 0x4010A005 (push_bit 8 (of_nat i) OR flag) y) ports s = (RIO_SUCCESS, RIO_SUCCESS, s\<lparr>hw := h'\<rparr>)"
      "v h' = tsi_put (set ports) (L1, i) (y, flag \<noteq> 0) (v (hw s))" "base h' = base (hw s)"
    using ports_written [OF d ports c(2), of 1074831364 1074831365 "push_bit 8 (of_nat i) OR flag", unfolded x(1) [OF False] x(2)] by blast
  then show ?thesis using u False c
    by (intro exI [of _ h']) (simp add: tsi_program_dom_def tsi_clear_changed_def store_entry_def table_of_def)
qed

lemma dev_step:
  assumes d: "tsi_device (dev_info s)" and ports: "\<forall>p\<in>set ports. p < 16 \<and> base (hw s) p = b" and i: "i < 256" "b < 256"
    and u: "u = dev_table rt ! i" "tsi_entry_ok (TSI57X_NUM_PORTS (dev_info s)) False (rte_val u)"
  shows "\<exists>h'. tsi_program_dev P ports (push_bit 8 (of_nat b)) True i (rt, s) =
      (RIO_SUCCESS, RIO_SUCCESS, rt\<lparr>dev_table := (dev_table rt)[i := u\<lparr>uc_changed := False\<rparr>]\<rparr>, s\<lparr>hw := h'\<rparr>) \<and>
    v h' = tsi_put (set ports) (L2, i) (tsi_value (rte_val u)) (v (hw s)) \<and> base h' = base (hw s)"
proof -
  have ne: "rte_val u \<noteq> 0x200" using u(2) tsi_port_value(2) [of "rte_val u" "dev_info s"] by (auto simp: tsi_entry_ok_def)
  obtain y flag where c: "tsi_code (dev_info s) (rte_val u) = Some (y, flag)" "y \<le> 0xFF" "flag \<in> {0, 0x40000000}" "tsi_value (rte_val u) = (y, flag \<noteq> 0)"
    using tsi_code_value [OF u(2) ne] by blast
  note x = tsi_index_dev [OF i c(3)]
  obtain h' where "for_each (tsi_write_entry P 0x4010A008 0x4010A009 ((push_bit 8 (of_nat b) + of_nat i) OR flag) y) ports s = (RIO_SUCCESS, RIO_SUCCESS, s\<lparr>hw := h'\<rparr>)"
      "v h' = tsi_put (set ports) (L2, i) (y, flag \<noteq> 0) (v (hw s))" "base h' = base (hw s)"
    using ports_written [OF d ports c(2), of 1074831368 1074831369 "(push_bit 8 (of_nat b) + of_nat i) OR flag", unfolded x] by blast
  then show ?thesis using u ne c
    by (intro exI [of _ h']) (simp add: tsi_program_dev_def tsi_clear_changed_def store_entry_def table_of_def)
qed

text \<open>A loop over the entries of a table.\<close>

lemma filled_loop:
  assumes step: "\<And>k h. k < n \<Longrightarrow> base h = base (hw s) \<Longrightarrow> \<exists>h'. F k (st k, s\<lparr>hw := h\<rparr>) = (RIO_SUCCESS, RIO_SUCCESS, st (Suc k), s\<lparr>hw := h'\<rparr>) \<and>
      v h' = (if k \<in> A then tsi_put Q (tab, k) (f k) (v h) else v h) \<and> base h' = base h"
  shows "\<exists>h'. for_each F [0..<n] (st 0, s) = (RIO_SUCCESS, RIO_SUCCESS, st n, s\<lparr>hw := h'\<rparr>) \<and> v h' = tsi_filled Q tab A f n (v (hw s)) \<and> base h' = base (hw s)"
proof -
  define J where "J k x \<longleftrightarrow> (\<exists>h. x = (st k, s\<lparr>hw := h\<rparr>) \<and> v h = tsi_filled Q tab A f k (v (hw s)) \<and> base h = base (hw s))" for k x
  have next_round: "\<exists>x'. F k x = (RIO_SUCCESS, RIO_SUCCESS, x') \<and> J (Suc k) x'" if k: "k < n" and x: "J k x" for k x
  proof -
    from x obtain h where h: "x = (st k, s\<lparr>hw := h\<rparr>)" "v h = tsi_filled Q tab A f k (v (hw s))" "base h = base (hw s)" unfolding J_def by blast
    from step [OF k h(3)] obtain h' where h': "F k (st k, s\<lparr>hw := h\<rparr>) = (RIO_SUCCESS, RIO_SUCCESS, st (Suc k), s\<lparr>hw := h'\<rparr>)"
      "v h' = (if k \<in> A then tsi_put Q (tab, k) (f k) (v h) else v h)" "base h' = base h" by blast
    have "v h' = tsi_filled Q tab A f (Suc k) (v (hw s))" using h'(2) h(2) by (cases "k \<in> A") (simp_all add: tsi_filled_simps)
    then show ?thesis unfolding J_def h(1) using h'(1,3) h(3) by (intro exI [of _ "(st (Suc k), s\<lparr>hw := h'\<rparr>)"]) auto
  qed
  have start: "J 0 (st 0, s)" unfolding J_def by (intro exI [of _ "hw s"]) (simp add: tsi_filled_simps)
  from for_each_upt [of n J F 0, OF next_round start] show ?thesis unfolding J_def by auto
qed

lemma doms_programmed:
  assumes d: "tsi_device (dev_info s)" and ports: "\<forall>p\<in>set ports. p < 16 \<and> base (hw s) p = b" and t: "tsi_tables_ok (TSI57X_NUM_PORTS (dev_info s)) rt"
    and b: "\<And>i. i < 256 \<Longrightarrow> rte_val (dom_table rt ! i) = 0x200 \<longleftrightarrow> i = b"
  shows "\<exists>h'. for_each (tsi_program_dom P ports True) [0..<256] (rt, s) =
      (RIO_SUCCESS, RIO_SUCCESS, rt\<lparr>dom_table := map (uc_changed_update (\<lambda>_. False)) (dom_table rt)\<rparr>, s\<lparr>hw := h'\<rparr>) \<and>
    v h' = tsi_filled (set ports) L1 (- {b}) (\<lambda>i. tsi_value (rte_val (dom_table rt ! i))) 256 (v (hw s)) \<and> base h' = base (hw s)"
proof -
  let ?clr = "uc_changed_update (\<lambda>_. False)"
  let ?st = "\<lambda>k. rt\<lparr>dom_table := first_done ?clr k (dom_table rt)\<rparr>" and ?f = "\<lambda>i. tsi_value (rte_val (dom_table rt ! i))"
  note w = tsi_tables_okD [OF t]
  have step: "\<exists>h'. tsi_program_dom P ports True k (?st k, s\<lparr>hw := h\<rparr>) = (RIO_SUCCESS, RIO_SUCCESS, ?st (Suc k), s\<lparr>hw := h'\<rparr>) \<and>
      v h' = (if k \<in> - {b} then tsi_put (set ports) (L1, k) (?f k) (v h) else v h) \<and> base h' = base h" if k: "k < 256" and h: "base h = base (hw s)" for k h
    using dom_step [of "s\<lparr>hw := h\<rparr>" ports b k "dom_table rt ! k" "?st k"] d ports k h w(2) w(5) [OF k] b [OF k]
    by (cases "k = b") (simp_all add: first_done_step)
  show ?thesis using filled_loop [of 256 s "tsi_program_dom P ports True" ?st "- {b}" "set ports" L1 ?f, OF step] w(2) by simp
qed

lemma devs_programmed:
  assumes d: "tsi_device (dev_info s)" and ports: "\<forall>p\<in>set ports. p < 16 \<and> base (hw s) p = b" and t: "tsi_tables_ok (TSI57X_NUM_PORTS (dev_info s)) rt" and b: "b < 256"
  shows "\<exists>h'. for_each (tsi_program_dev P ports (push_bit 8 (of_nat b)) True) [0..<256] (rt, s) =
      (RIO_SUCCESS, RIO_SUCCESS, rt\<lparr>dev_table := map (uc_changed_update (\<lambda>_. False)) (dev_table rt)\<rparr>, s\<lparr>hw := h'\<rparr>) \<and>
    v h' = tsi_filled (set ports) L2 UNIV (\<lambda>i. tsi_value (rte_val (dev_table rt ! i))) 256 (v (hw s)) \<and> base h' = base (hw s)"
proof -
  let ?clr = "uc_changed_update (\<lambda>_. False)"
  let ?st = "\<lambda>k. rt\<lparr>dev_table := first_done ?clr k (dev_table rt)\<rparr>" and ?f = "\<lambda>i. tsi_value (rte_val (dev_table rt ! i))"
  note w = tsi_tables_okD [OF t]
  have step: "\<exists>h'. tsi_program_dev P ports (push_bit 8 (of_nat b)) True k (?st k, s\<lparr>hw := h\<rparr>) = (RIO_SUCCESS, RIO_SUCCESS, ?st (Suc k), s\<lparr>hw := h'\<rparr>) \<and>
      v h' = (if k \<in> UNIV then tsi_put (set ports) (L2, k) (?f k) (v h) else v h) \<and> base h' = base h" if k: "k < 256" and h: "base h = base (hw s)" for k h
    using dev_step [of "s\<lparr>hw := h\<rparr>" ports b k "dev_table rt ! k" "?st k"] d ports k h b w(1) w(4) [OF k] by (simp add: first_done_step)
  show ?thesis using filled_loop [of 256 s "tsi_program_dev P ports (push_bit 8 (of_nat b)) True" ?st UNIV "set ports" L2 ?f, OF step] w(1) by simp
qed

lemma entries_programmed:
  assumes d: "tsi_device (dev_info s)" and ports: "ports = tsi_ports (dev_info s) pnum" "\<forall>p\<in>set ports. p < 16"
    and t: "tsi_tables_ok (TSI57X_NUM_PORTS (dev_info s)) rt" and b: "tsi_groups rt = [b]"
  shows "\<exists>d' h'. program_rte_entries P pnum True (rt, s) = (RIO_SUCCESS, RIO_SUCCESS, rt\<lparr>dom_table := map (uc_changed_update (\<lambda>_. False)) (dom_table rt),
        dev_table := map (uc_changed_update (\<lambda>_. False)) (dev_table rt)\<rparr>, s\<lparr>dev_info := d', hw := h'\<rparr>) \<and>
    d' = scratch_upd 17 (\<lambda>_. (if default_route rt = RIO_RTE_DROP then HW_DFLT_RT else default_route rt) AND 0xFF) (dev_info s) \<and>
    (\<forall>p\<in>set ports. base h' p = b \<and> (\<forall>i<256. (i \<noteq> b \<longrightarrow> v h' p L1 i = tsi_value (rte_val (dom_table rt ! i))) \<and> v h' p L2 i = tsi_value (rte_val (dev_table rt ! i))))"
proof -
  let ?clr = "uc_changed_update (\<lambda>_. False)"
  let ?x = "if default_route rt = 0x300 then 0xFF AND 0xFF else default_route rt AND 0xFF :: u32"
  have mem: "i \<in> set (tsi_groups rt) \<longleftrightarrow> i = b" for i by (simp add: b)
  have grp: "rte_val (dom_table rt ! i) = 0x200 \<longleftrightarrow> i = b" if "i < 256" for i using that mem [of i] by (simp add: tsi_groups_def)
  have b256: "b < 256" using mem [of b] by (simp add: tsi_groups_def)
  have x: "?x AND 0xFF = (if default_route rt = 0x300 then 0xFF else default_route rt) AND 0xFF" by (simp add: and.assoc)
  let ?d1 = "scratch_upd 17 (\<lambda>_. (if default_route rt = 0x300 then 0xFF else default_route rt) AND 0xFF) (dev_info s)"
  obtain h0 where h0: "DARRegWrite P 0x78 ?x s = (RIO_SUCCESS, s\<lparr>dev_info := ?d1, hw := h0\<rparr>)" "v h0 = v (hw s)" "base h0 = base (hw s)"
    using other_written [OF d copied_index(3), of ?x] unfolding copied_masks(3) x by auto
  let ?s0 = "s\<lparr>dev_info := ?d1, hw := h0\<rparr>"
  have d0: "tsi_device (dev_info ?s0)" "TSI57X_NUM_PORTS (dev_info ?s0) = TSI57X_NUM_PORTS (dev_info s)" using d by (simp_all add: scratch_keeps)
  obtain h1 where h1: "for_each (tsi_write_base P (push_bit 8 (of_nat b))) ports ?s0 = (RIO_SUCCESS, RIO_SUCCESS, ?s0\<lparr>hw := h1\<rparr>)"
      "v h1 = v h0" "\<And>p. base h1 p = (if p \<in> set ports then b else base h0 p)"
    using bases_written [OF d0(1) ports(2) b256] by auto
  let ?s1 = "?s0\<lparr>hw := h1\<rparr>"
  have p1: "\<forall>p\<in>set ports. p < 16 \<and> base (hw ?s1) p = b" using ports(2) h1(3) by simp
  obtain h2 where h2: "for_each (tsi_program_dom P ports True) [0..<256] (rt, ?s1) = (RIO_SUCCESS, RIO_SUCCESS, rt\<lparr>dom_table := map ?clr (dom_table rt)\<rparr>, ?s1\<lparr>hw := h2\<rparr>)"
      "v h2 = tsi_filled (set ports) L1 (- {b}) (\<lambda>i. tsi_value (rte_val (dom_table rt ! i))) 256 (v h1)" "base h2 = base h1"
    using doms_programmed [of ?s1 ports b rt] d0 p1 t grp by auto
  let ?s2 = "?s1\<lparr>hw := h2\<rparr>" and ?rt2 = "rt\<lparr>dom_table := map ?clr (dom_table rt)\<rparr>"
  have t2: "tsi_tables_ok (TSI57X_NUM_PORTS (dev_info ?s2)) ?rt2"
  proof (rule tsi_tables_sub)
    show "tsi_tables_ok (TSI57X_NUM_PORTS (dev_info ?s2)) rt" using t d0(2) by simp
  qed (use tsi_tables_okD(1,2) [OF t] in simp_all)
  obtain h3 where h3: "for_each (tsi_program_dev P ports (push_bit 8 (of_nat b)) True) [0..<256] (?rt2, ?s2) =
      (RIO_SUCCESS, RIO_SUCCESS, ?rt2\<lparr>dev_table := map ?clr (dev_table rt)\<rparr>, ?s2\<lparr>hw := h3\<rparr>)"
      "v h3 = tsi_filled (set ports) L2 UNIV (\<lambda>i. tsi_value (rte_val (dev_table rt ! i))) 256 (v h2)" "base h3 = base h2"
    using devs_programmed [of ?s2 ports b ?rt2] d0 p1 t2 h2(3) b256 by auto
  have run: "program_rte_entries P pnum True (rt, s) = (RIO_SUCCESS, RIO_SUCCESS, ?rt2\<lparr>dev_table := map ?clr (dev_table rt)\<rparr>, ?s2\<lparr>hw := h3\<rparr>)"
    unfolding program_rte_entries_def Let_def prod.case ports(1) [symmetric] h0(1) b using h1(1) h2(1) h3(1) by (simp del: upt_rec_numeral)
  have "base h3 p = b" if "p \<in> set ports" for p using that h1(3) h2(3) h3(3) by simp
  then show ?thesis using run h3(2) h2(2) by (intro exI [of _ ?d1] exI [of _ h3]) (simp add: tsi_filled_def)
qed

lemma set_programs:
  assumes d: "tsi_device (dev_info s)" and n: "n = TSI57X_NUM_PORTS (dev_info s)" and port: "port = RIO_ALL_PORTS \<or> port < n"
    and wf: "tsi_rt_wf n rt" and b: "tsi_groups rt = [b]" and dflt: "default_route rt \<noteq> RIO_RTE_DFLT_PORT"
    and masks: "\<forall>j<8. NOT (push_bit (unat n) 1 - 1) AND mc_mask (mc_masks rt ! j) = 0"
  shows "\<exists>s'. tsi57x_rio_rt_set_all P port (Some rt) s = (RIO_SUCCESS, RIO_SUCCESS, Some (tsi_unmarked rt), s') \<and>
    tsi_device (dev_info s') \<and> TSI57X_NUM_PORTS (dev_info s') = n \<and> mask_copies (mc_masks rt) 8 (dev_info s') \<and>
    scratchpad (dev_info s') ! 17 = (if default_route rt = RIO_RTE_DROP then HW_DFLT_RT else default_route rt) AND 0xFF \<and>
    (\<forall>p\<in>set (tsi_ports (dev_info s) port). base (hw s') p = b \<and> tsi_match (v (hw s')) b rt p)"
proof -
  let ?ms = "mc_masks rt" and ?clr = "mc_changed_update (\<lambda>_. False)"
  have t: "tsi_tables_ok n rt" and m: "tsi_masks_ok ?ms" using wf by (simp_all add: tsi_rt_wf_def)
  have len: "length ?ms = 256" using m by (simp add: tsi_masks_ok_def)
  have "unat n \<le> 16" using TSI57X_NUM_PORTS_le [of "dev_info s"] n by (simp add: word_le_nat_alt)
  then have ports: "\<forall>p\<in>set (tsi_ports (dev_info s) port). p < 16" using port n by (auto simp: tsi_ports_def word_less_nat_alt)
  have unused: "\<not> list_ex (\<lambda>i. in_use (?ms ! i) \<or> mc_changed (?ms ! i) \<or> allocd (?ms ! i)) [8..<256]"
    using m unfolding tsi_masks_ok_def by (simp add: list_ex_iff)
  have c0: "mask_copies ?ms 0 (dev_info s)" by (simp add: mask_copies_def)
  obtain s1 where s1: "tsi_program_masks P (NOT (push_bit (unat n) 1 - 1)) True [0..<8] RIO_ERR_INVALID_PARAMETER (rt, s) =
      (RIO_SUCCESS, RIO_SUCCESS, rt\<lparr>mc_masks := first_done ?clr 8 ?ms\<rparr>, s1)"
      "tsi_device (dev_info s1)" "same_size (dev_info s) (dev_info s1)" "mask_copies ?ms 8 (dev_info s1)"
    using masks_loop [OF d c0 _ len masks, of RIO_ERR_INVALID_PARAMETER rt] by auto
  have n1: "TSI57X_NUM_PORTS (dev_info s1) = n" using same_size_simps(2) [OF s1(3)] n by simp
  have prog: "program_mc_masks P True (rt, s) = (RIO_SUCCESS, RIO_SUCCESS, rt\<lparr>mc_masks := first_done ?clr 8 ?ms\<rparr>, s1)"
    unfolding program_mc_masks_def Let_def fst_conv snd_conv if_not_P [OF unused] n [symmetric] by (rule s1(1))
  let ?rt1 = "rt\<lparr>mc_masks := first_done ?clr 8 ?ms\<rparr>"
  have t1: "tsi_tables_ok (TSI57X_NUM_PORTS (dev_info s1)) ?rt1" unfolding n1 by (rule tsi_tables_sub [OF t]) (use tsi_tables_okD [OF t] in simp_all)
  have b1: "tsi_groups ?rt1 = [b]" using b by (simp add: tsi_groups_def)
  have same: "tsi_ports (dev_info s) port = tsi_ports (dev_info s1) port" using n n1 by (simp add: tsi_ports_def)
  have un: "?rt1\<lparr>dom_table := map (uc_changed_update (\<lambda>_. False)) (dom_table ?rt1), dev_table := map (uc_changed_update (\<lambda>_. False)) (dev_table ?rt1)\<rparr> = tsi_unmarked rt"
    by (cases rt) (simp add: tsi_unmarked_def)
  obtain d2 h2 where e: "program_rte_entries P port True (?rt1, s1) = (RIO_SUCCESS, RIO_SUCCESS, tsi_unmarked rt, s1\<lparr>dev_info := d2, hw := h2\<rparr>)"
      "d2 = scratch_upd 17 (\<lambda>_. (if default_route rt = 0x300 then 0xFF else default_route rt) AND 0xFF) (dev_info s1)"
      "\<forall>p\<in>set (tsi_ports (dev_info s) port). base h2 p = b \<and> tsi_match (v h2) b rt p"
    using entries_programmed [OF s1(2) same ports t1 b1, unfolded un] by (auto simp: tsi_match_def cong: if_cong)
  have guard: "\<not> (port \<noteq> RIO_ALL_PORTS \<and> port \<ge> n)" "\<not> (ucast n \<le> default_route rt \<and> default_route rt \<noteq> 0x300)"
    using port dflt tsi_tables_okD(3) [OF t] by auto
  have run: "tsi57x_rio_rt_set_all P port (Some rt) s = (RIO_SUCCESS, RIO_SUCCESS, Some (tsi_unmarked rt), s1\<lparr>dev_info := d2, hw := h2\<rparr>)"
    unfolding tsi57x_rio_rt_set_all_def tsi_set_common_def option.case n [symmetric] if_not_P [OF guard(1)] if_not_P [OF guard(2)] prog
    using e(1) by simp
  have "length (scratchpad (dev_info s1)) = 30" using s1(2) by (simp add: tsi_device_def)
  then have "mask_copies ?ms 8 d2" "scratchpad d2 ! 17 = (if default_route rt = 0x300 then 0xFF else default_route rt) AND 0xFF"
    using s1(4) by (auto simp: e(2) mask_copies_def scratch_upd_def nth_list_update)
  then show ?thesis using run e(2,3) s1(2) n1 by (intro exI [of _ "s1\<lparr>dev_info := d2, hw := h2\<rparr>"]) (simp add: scratch_keeps)
qed

end

section \<open>Reading the tables\<close>

definition tsi_mask_read :: "rio_rt_mc_info_t \<Rightarrow> rio_rt_mc_info_t" where
  "tsi_mask_read m = m\<lparr>allocd := False, mc_changed := False\<rparr>"

text \<open>A dropped entry is read as the default route: the mark is not read.\<close>

definition tsi_read_back :: "u32 \<Rightarrow> u32" where
  "tsi_read_back x = (if x = RIO_RTE_DROP then RIO_RTE_DFLT_PORT else x)"

lemma tsi_rte_of_value:
  assumes "tsi_entry_ok (TSI57X_NUM_PORTS d) is_dom x" "x \<noteq> 0x200"
  shows "tsi_rte_of (fst (tsi_value x)) = tsi_read_back x"
proof -
  consider "x < ucast (TSI57X_NUM_PORTS d)" | "x = 0x301" | "x = 0x300" using assms by (auto simp: tsi_entry_ok_def)
  then show ?thesis
  proof cases
    case 1
    show ?thesis using tsi_port_value [OF 1] by (simp add: tsi_value_def tsi_rte_of_def tsi_read_back_def)
  qed (simp_all add: tsi_value_def tsi_rte_of_def tsi_read_back_def)
qed

lemma tsi_mask_back:
  fixes m :: rio_rt_mc_info_t
  assumes "tsi_mask_ok m" "mc_tt m \<in> {tt_dev8, tt_dev16}"
  defines "x \<equiv> fst (tsi_mask_regs m) AND 0xC000FFFF" and "y \<equiv> snd (tsi_mask_regs m) AND 0xFFFF0000"
  defines "tt \<equiv> if x AND 0x40000000 \<noteq> 0 then tt_dev16 else tt_dev8"
  shows "tt = mc_tt m" "x AND 0x80000000 \<noteq> 0 \<longleftrightarrow> in_use m" "x AND (if mc_tt m = tt_dev16 then 0xFFFF else 0xFF) = mc_destID m"
    "y AND NOT 0xFFFF0000 = 0" "drop_bit 16 (y AND 0xFFFF0000) = mc_mask m"
proof -
  have d: "fits 16 (mc_destID m)" "mc_tt m = tt_dev8 \<Longrightarrow> fits 8 (mc_destID m)" and p: "mc_mask m AND NOT (push_bit 16 1 - 1) = 0"
    using assms(1) by (simp_all add: tsi_mask_ok_def fits_def word_le_nat_alt)
  note b = index_reg_back [OF d(1), of "mc_tt m = tt_dev16" "in_use m"]
  have x: "x = (mc_destID m OR (if mc_tt m = tt_dev16 then 0x40000000 else 0) OR (if in_use m then 0x80000000 else 0)) AND 0xC000FFFF"
    by (simp add: x_def tsi_mask_regs_def)
  show "tt = mc_tt m" unfolding tt_def x b(1) using assms(2) by auto
  show "x AND 0x80000000 \<noteq> 0 \<longleftrightarrow> in_use m" unfolding x by (rule b(2))
  show "x AND (if mc_tt m = tt_dev16 then 0xFFFF else 0xFF) = mc_destID m"
  proof (cases "mc_tt m = tt_dev16")
    case True
    have "x AND 0xFFFF = mc_destID m" unfolding x by (rule b(3))
    then show ?thesis using True by simp
  next
    case False
    then have "fits 8 (mc_destID m)" using d(2) assms(2) by simp
    then have "x AND 0xFF = mc_destID m" unfolding x by (rule b(4))
    then show ?thesis using False by simp
  qed
  have y: "y = push_bit 16 (mc_mask m) AND 0xFFFF0000 AND 0xFFFF0000" by (simp add: y_def tsi_mask_regs_def and.assoc)
  show "y AND NOT 0xFFFF0000 = 0" "drop_bit 16 (y AND 0xFFFF0000) = mc_mask m"
    using ports_reg_back [OF p] unfolding y and.assoc by simp_all
qed

lemma base_byte: "b < 256 \<Longrightarrow> unat (drop_bit 24 (push_bit 24 (of_nat b :: u32) AND 0xFF000000)) = b"
proof -
  assume b: "b < 256"
  have m: "(0xFF000000 :: u32) = push_bit 24 (mask 8)" by (simp add: mask_eq_exp_minus_1)
  have "drop_bit 24 (push_bit 24 (of_nat b) AND 0xFF000000) = (of_nat b :: u32)"
    unfolding m by (rule bit_word_eqI) (auto simp: bit_drop_bit_eq bit_and_iff bit_push_bit_iff bit_mask_iff dest: fits_bit [OF byte_fits [OF b]])
  then show ?thesis using b by (simp add: unsigned_of_nat take_bit_nat_eq_self)
qed

context tsi_tables
begin

lemma mask_read_step:
  assumes d: "tsi_device (dev_info s)" and k: "k < 8" and c: "mask_copies ms 8 (dev_info s)" and ok: "tsi_mask_ok (ms ! k)" "mc_tt (ms ! k) \<in> {tt_dev8, tt_dev16}"
  shows "tsi_read_mask P k (rt, s) = (RIO_SUCCESS, RIO_SUCCESS, rt\<lparr>mc_masks := (mc_masks rt)[k := tsi_mask_read (ms ! k)]\<rparr>, s)"
proof -
  let ?x = "fst (tsi_mask_regs (ms ! k)) AND 0xC000FFFF" and ?y = "snd (tsi_mask_regs (ms ! k)) AND 0xFFFF0000"
  have "scratchpad (dev_info s) ! k = ?x" "scratchpad (dev_info s) ! (8 + k) = ?y" using c k by (simp_all add: mask_copies_def)
  then have r: "DARRegRead P (TSI578_RIO_MC_IDX k) s = (RIO_SUCCESS, ?x, s)" "DARRegRead P (TSI578_RIO_MC_MSKX k) s = (RIO_SUCCESS, ?y, s)"
    using tsi_read_copied [OF d copied_index(4) [OF k] mask_regs_other(1) [OF k]] tsi_read_copied [OF d copied_index(5) [OF k] mask_regs_other(2) [OF k]] by simp_all
  note b = tsi_mask_back [OF ok]
  have m: "(mc_masks rt ! k)\<lparr>allocd := False, mc_changed := False, mc_tt := mc_tt (ms ! k), in_use := in_use (ms ! k), mc_destID := mc_destID (ms ! k), mc_mask := mc_mask (ms ! k)\<rparr> =
      tsi_mask_read (ms ! k)" by (cases "ms ! k"; cases "mc_masks rt ! k") (simp add: tsi_mask_read_def)
  show ?thesis unfolding tsi_read_mask_def prod.case r Let_def b using m by simp
qed

lemma masks_read:
  assumes d: "tsi_device (dev_info s)" and c: "mask_copies ms 8 (dev_info s)" and ok: "\<forall>k<8. tsi_mask_ok (ms ! k) \<and> mc_tt (ms ! k) \<in> {tt_dev8, tt_dev16}"
    and len: "length (dev_table rt') = 256" "length (dom_table rt') = 256" "length (mc_masks rt') = 256"
  shows "\<exists>rt1. tsi57x_read_mc_masks P (rt', s) = (RIO_SUCCESS, RIO_SUCCESS, rt1, s) \<and> length (dev_table rt1) = 256 \<and> length (dom_table rt1) = 256 \<and>
    (\<forall>k<256. if k < 8 then mc_masks rt1 ! k = tsi_mask_read (ms ! k) else \<not> in_use (mc_masks rt1 ! k))"
proof -
  obtain rt0 where rt0: "for_each release_mask [8..<256] (rt', s) = (RIO_SUCCESS, RIO_SUCCESS, rt0, s)" "length (dev_table rt0) = 256" "length (dom_table rt0) = 256"
      "length (mc_masks rt0) = 256" "\<forall>m<256. 8 \<le> m \<longrightarrow> \<not> in_use (mc_masks rt0 ! m)"
    using release_loop [OF len, of 8 s] by auto
  define J where "J k x \<longleftrightarrow> (\<exists>rt1. x = (rt1, s) \<and> length (dev_table rt1) = 256 \<and> length (dom_table rt1) = 256 \<and> length (mc_masks rt1) = 256 \<and>
      (\<forall>j<256. if j < 8 then j < k \<longrightarrow> mc_masks rt1 ! j = tsi_mask_read (ms ! j) else \<not> in_use (mc_masks rt1 ! j)))" for k and x :: "rio_rt_state_t \<times> 'h dev"
  have next_round: "\<exists>x'. tsi_read_mask P k x = (RIO_SUCCESS, RIO_SUCCESS, x') \<and> J (Suc k) x'" if k: "k < 8" and x: "J k x" for k x
  proof -
    obtain rt1 where e: "x = (rt1, s)" and l: "length (dev_table rt1) = 256" "length (dom_table rt1) = 256" "length (mc_masks rt1) = 256"
      and j: "\<forall>j<256. if j < 8 then j < k \<longrightarrow> mc_masks rt1 ! j = tsi_mask_read (ms ! j) else \<not> in_use (mc_masks rt1 ! j)" using x unfolding J_def by blast
    let ?rt2 = "rt1\<lparr>mc_masks := (mc_masks rt1)[k := tsi_mask_read (ms ! k)]\<rparr>"
    have "tsi_read_mask P k x = (RIO_SUCCESS, RIO_SUCCESS, ?rt2, s)" unfolding e using ok k by (intro mask_read_step [OF d k c]) simp_all
    moreover have "J (Suc k) (?rt2, s)" unfolding J_def using l j k by (auto simp: nth_upd less_Suc_eq)
    ultimately show ?thesis by blast
  qed
  have start: "J 0 (rt0, s)" unfolding J_def using rt0 by auto
  from for_each_upt [of 8 J "tsi_read_mask P" 0, OF next_round start] obtain rt1 where
    "for_each (tsi_read_mask P) [0..<8] (rt0, s) = (RIO_SUCCESS, RIO_SUCCESS, rt1, s)" "J 8 (rt1, s)" unfolding J_def by auto
  then show ?thesis unfolding tsi57x_read_mc_masks_def rt0(1) Let_def prod.case J_def by auto
qed

lemma entry_read:
  assumes d: "tsi_device (dev_info s)" and p: "p < 16" and x: "tsi_index (base (hw s) p) (f i) = (tab, j)"
  shows "\<exists>h'. tsi_read_entry P p is_dom c1 c2 f i (rt, s) =
      (RIO_SUCCESS, RIO_SUCCESS, store_entry is_dom i \<lparr>rte_val = tsi_rte_of (fst (v (hw s) p tab j)), uc_changed = False\<rparr> rt, s\<lparr>hw := h'\<rparr>) \<and>
    v h' = v (hw s) \<and> base h' = base (hw s)"
proof -
  obtain rc h1 where w: "wr (dev_info s) (TSI578_SPX_ROUTE_CFG_DESTID p) (f i) (hw s) = (rc, h1)" by (cases rule: prod.exhaust)
  note k = write_index [OF p w]
  have e: "DARRegWrite P (TSI578_SPX_ROUTE_CFG_DESTID p) (f i) s = (RIO_SUCCESS, s\<lparr>hw := h1\<rparr>)"
    using k by (intro tsi_write_direct [OF d table_regs_direct(1) [OF p]]) (simp add: w)
  have r: "DARRegRead P (TSI578_SPX_ROUTE_CFG_PORT p) (s\<lparr>hw := h1\<rparr>) = (RIO_SUCCESS, fst (v (hw s) p tab j), s\<lparr>hw := h1\<rparr>)"
    using tsi_read_direct [of "s\<lparr>hw := h1\<rparr>", OF _ table_regs_direct(2) [OF p]] d read_entry [OF p, of "dev_info s" h1] k x by simp
  show ?thesis unfolding tsi_read_entry_def prod.case e r Let_def using k by (intro exI [of _ h1]) simp
qed

text \<open>A loop that reads one of the tables: entries for which \<open>A\<close> holds are known afterwards, and the other parts of the state stay as they are.\<close>

lemma table_read:
  assumes d: "tsi_device (dev_info s)" and p: "p < 16" and len: "length (table_of is_dom rt) = 256"
    and ent: "\<And>i. i < 256 \<Longrightarrow> \<exists>tab j. tsi_index (base (hw s) p) (f i) = (tab, j) \<and> (i \<in> A \<longrightarrow> tsi_rte_of (fst (v (hw s) p tab j)) = g i)"
  shows "\<exists>us h'. for_each (tsi_read_entry P p is_dom c1 c2 f) [0..<256] (rt, s) =
      (RIO_SUCCESS, RIO_SUCCESS, if is_dom then rt\<lparr>dom_table := us\<rparr> else rt\<lparr>dev_table := us\<rparr>, s\<lparr>hw := h'\<rparr>) \<and>
    length us = 256 \<and> (\<forall>i<256. \<not> uc_changed (us ! i) \<and> (i \<in> A \<longrightarrow> rte_val (us ! i) = g i)) \<and> v h' = v (hw s) \<and> base h' = base (hw s)"
proof -
  define J where "J k x \<longleftrightarrow> (\<exists>us h. x = (if is_dom then rt\<lparr>dom_table := us\<rparr> else rt\<lparr>dev_table := us\<rparr>, s\<lparr>hw := h\<rparr>) \<and> length us = 256 \<and>
      (\<forall>i<k. \<not> uc_changed (us ! i) \<and> (i \<in> A \<longrightarrow> rte_val (us ! i) = g i)) \<and> v h = v (hw s) \<and> base h = base (hw s))" for k x
  have next_round: "\<exists>x'. tsi_read_entry P p is_dom c1 c2 f k x = (RIO_SUCCESS, RIO_SUCCESS, x') \<and> J (Suc k) x'" if k: "k < 256" and x: "J k x" for k x
  proof -
    obtain us h where e: "x = (if is_dom then rt\<lparr>dom_table := us\<rparr> else rt\<lparr>dev_table := us\<rparr>, s\<lparr>hw := h\<rparr>)" and l: "length us = 256"
      and j: "\<forall>i<k. \<not> uc_changed (us ! i) \<and> (i \<in> A \<longrightarrow> rte_val (us ! i) = g i)" and h: "v h = v (hw s)" "base h = base (hw s)" using x unfolding J_def by blast
    obtain tab i where t: "tsi_index (base (hw s) p) (f k) = (tab, i)" "k \<in> A \<longrightarrow> tsi_rte_of (fst (v (hw s) p tab i)) = g k" using ent [OF k] by blast
    let ?u = "\<lparr>rte_val = tsi_rte_of (fst (v (hw s) p tab i)), uc_changed = False\<rparr>"
    obtain h' where h': "tsi_read_entry P p is_dom c1 c2 f k x =
        (RIO_SUCCESS, RIO_SUCCESS, if is_dom then rt\<lparr>dom_table := us[k := ?u]\<rparr> else rt\<lparr>dev_table := us[k := ?u]\<rparr>, s\<lparr>hw := h'\<rparr>)" "v h' = v h" "base h' = base h"
      using entry_read [of "s\<lparr>hw := h\<rparr>" p f k tab i is_dom c1 c2 "fst x"] d p t(1) h by (cases is_dom) (auto simp: e store_entry_def)
    have "J (Suc k) (if is_dom then rt\<lparr>dom_table := us[k := ?u]\<rparr> else rt\<lparr>dev_table := us[k := ?u]\<rparr>, s\<lparr>hw := h'\<rparr>)"
      unfolding J_def using l j h h'(2,3) t(2) k by (intro exI [of _ "us[k := ?u]"] exI [of _ h']) (auto simp: nth_upd less_Suc_eq)
    then show ?thesis using h'(1) by blast
  qed
  have start: "J 0 (rt, s)" unfolding J_def using len by (intro exI [of _ "table_of is_dom rt"] exI [of _ "hw s"]) (simp add: table_of_def)
  from for_each_upt [of 256 J "tsi_read_entry P p is_dom c1 c2 f" 0, OF next_round start le0] show ?thesis unfolding J_def by blast
qed

lemma entries_read:
  assumes d: "tsi_device (dev_info s)" and n: "n = TSI57X_NUM_PORTS (dev_info s)" and p: "p < 16" and t: "tsi_tables_ok n rt" and b: "tsi_groups rt = [b]"
    and dflt: "default_route rt \<noteq> RIO_RTE_DFLT_PORT" and base: "base (hw s) p = b" and match: "tsi_match (v (hw s)) b rt p"
    and copy: "scratchpad (dev_info s) ! 17 = (if default_route rt = RIO_RTE_DROP then HW_DFLT_RT else default_route rt) AND 0xFF"
    and len: "length (dev_table rt1) = 256" "length (dom_table rt1) = 256"
  shows "\<exists>rt2 h'. tsi57x_read_rte_entries P p (rt1, s) = (RIO_SUCCESS, RIO_SUCCESS, rt2, s\<lparr>hw := h'\<rparr>) \<and> default_route rt2 = default_route rt \<and> mc_masks rt2 = mc_masks rt1 \<and>
    (\<forall>i<256. dom_table rt2 ! i = \<lparr>rte_val = tsi_read_back (rte_val (dom_table rt ! i)), uc_changed = False\<rparr> \<and>
       dev_table rt2 ! i = \<lparr>rte_val = tsi_read_back (rte_val (dev_table rt ! i)), uc_changed = False\<rparr>)"
proof -
  note w = tsi_tables_okD [OF t]
  have mem: "i \<in> set (tsi_groups rt) \<longleftrightarrow> i = b" for i by (simp add: b)
  have grp: "rte_val (dom_table rt ! i) = 0x200 \<longleftrightarrow> i = b" if "i < 256" for i using that mem [of i] by (simp add: tsi_groups_def)
  have b256: "b < 256" using mem [of b] by (simp add: tsi_groups_def)
  have r1: "DARRegRead P 0x78 s = (RIO_SUCCESS, (if default_route rt = 0x300 then 0xFF else default_route rt) AND 0xFF, s)"
    using tsi_read_copied [OF d copied_index(6)] copy by simp
  have dr: "(if ((if default_route rt = 0x300 then 0xFF else default_route rt) AND 0xFF) AND 0xFF = 0xFF then 0x300
      else ((if default_route rt = 0x300 then 0xFF else default_route rt) AND 0xFF) AND 0xFF) = default_route rt"
  proof (cases "default_route rt = 0x300")
    case False
    then have "default_route rt < ucast n" using w(3) dflt by simp
    then show ?thesis using tsi_port_value [of "default_route rt" "dev_info s"] n False by (simp add: and.assoc)
  qed simp
  have r2: "DARRegRead P (TSI578_SPX_ROUTE_BASE p) s = (RIO_SUCCESS, push_bit 24 (of_nat b), s)"
    using tsi_read_direct [OF d table_regs_direct(3) [OF p]] read_base [OF p, of "dev_info s" "hw s"] base by simp
  let ?rt1 = "rt1\<lparr>default_route := default_route rt\<rparr>" and ?f = "\<lambda>i. push_bit 8 (of_nat i) :: u32" and ?g = "\<lambda>i. push_bit 8 (of_nat b) + of_nat i :: u32"
  have ent1: "\<exists>tab j. tsi_index (base (hw s) p) (?f i) = (tab, j) \<and> (i \<in> - {b} \<longrightarrow> tsi_rte_of (fst (v (hw s) p tab j)) = tsi_read_back (rte_val (dom_table rt ! i)))"
    if i: "i < 256" for i
  proof (cases "i = b")
    case False
    have "tsi_index b (?f i) = (L1, i)" using tsi_index_dom(1) [OF i, of 0 b] False by simp
    moreover have "v (hw s) p L1 i = tsi_value (rte_val (dom_table rt ! i))" using match i False by (simp add: tsi_match_def)
    ultimately show ?thesis using tsi_rte_of_value [of "dev_info s" True] w(5) [OF i] grp [OF i] False n base by simp
  qed (cases "tsi_index (base (hw s) p) (?f i)", simp)
  have ent2: "\<exists>tab j. tsi_index (base (hw s) p) (?g i) = (tab, j) \<and> (i \<in> UNIV \<longrightarrow> tsi_rte_of (fst (v (hw s) p tab j)) = tsi_read_back (rte_val (dev_table rt ! i)))"
    if i: "i < 256" for i
  proof -
    have "tsi_index b (?g i) = (L2, i)" using tsi_index_dev(1) [OF i b256, of 0] by simp
    moreover have "v (hw s) p L2 i = tsi_value (rte_val (dev_table rt ! i))" using match i by (simp add: tsi_match_def)
    moreover have "rte_val (dev_table rt ! i) \<noteq> 0x200" using w(4) [OF i] tsi_port_value(2) [of _ "dev_info s"] n by (auto simp: tsi_entry_ok_def)
    ultimately show ?thesis using tsi_rte_of_value [of "dev_info s" False] w(4) [OF i] n base by simp
  qed
  obtain us h1 where l1: "for_each (tsi_read_entry P p True 0x4010D007 0x4010D008 ?f) [0..<256] (?rt1, s) = (RIO_SUCCESS, RIO_SUCCESS, ?rt1\<lparr>dom_table := us\<rparr>, s\<lparr>hw := h1\<rparr>)"
      "length us = 256" "\<And>i. i < 256 \<Longrightarrow> \<not> uc_changed (us ! i) \<and> (i \<noteq> b \<longrightarrow> rte_val (us ! i) = tsi_read_back (rte_val (dom_table rt ! i)))" "v h1 = v (hw s)" "base h1 = base (hw s)"
    using table_read [OF d p _ ent1, of True ?rt1 1074843655 1074843656] len(2) by (auto simp: table_of_def)
  let ?rt3 = "store_entry True b ((us ! b)\<lparr>rte_val := 0x200\<rparr>) (?rt1\<lparr>dom_table := us\<rparr>)"
  have d1: "tsi_device (dev_info (s\<lparr>hw := h1\<rparr>))" "v (hw (s\<lparr>hw := h1\<rparr>)) = v (hw s)" "base (hw (s\<lparr>hw := h1\<rparr>)) = base (hw s)" using d l1(4,5) by simp_all
  obtain us2 h2 where l2: "for_each (tsi_read_entry P p False 0x4010D003 0x4010D004 ?g) [0..<256] (?rt3, s\<lparr>hw := h1\<rparr>) = (RIO_SUCCESS, RIO_SUCCESS, ?rt3\<lparr>dev_table := us2\<rparr>, s\<lparr>hw := h2\<rparr>)"
      "length us2 = 256" "\<And>i. i < 256 \<Longrightarrow> \<not> uc_changed (us2 ! i) \<and> rte_val (us2 ! i) = tsi_read_back (rte_val (dev_table rt ! i))"
    using table_read [OF d1(1) p _ ent2 [folded d1(2,3)], of False ?rt3 1074843651 1074843652] len(1) by (auto simp: table_of_def store_entry_def)
  have run: "tsi57x_read_rte_entries P p (rt1, s) = (RIO_SUCCESS, RIO_SUCCESS, ?rt3\<lparr>dev_table := us2\<rparr>, s\<lparr>hw := h2\<rparr>)"
    unfolding tsi57x_read_rte_entries_def prod.case r1 Let_def r2 dr base_byte [OF b256] using l1(1) l2(1) by simp
  have dom: "dom_table (?rt3\<lparr>dev_table := us2\<rparr>) ! i = \<lparr>rte_val = tsi_read_back (rte_val (dom_table rt ! i)), uc_changed = False\<rparr>" if i: "i < 256" for i
    using l1(2) l1(3) [OF i] grp [OF i] i by (cases "us ! i") (auto simp: store_entry_def nth_upd tsi_read_back_def)
  have dev: "dev_table (?rt3\<lparr>dev_table := us2\<rparr>) ! i = \<lparr>rte_val = tsi_read_back (rte_val (dev_table rt ! i)), uc_changed = False\<rparr>" if i: "i < 256" for i
    using l2(3) [OF i] by (cases "us2 ! i") simp
  show ?thesis using run dom dev by (intro exI [of _ "?rt3\<lparr>dev_table := us2\<rparr>"] exI [of _ h2]) (simp add: store_entry_def)
qed

lemma probe_all:
  assumes d: "tsi_device (dev_info s)" and n: "n = TSI57X_NUM_PORTS (dev_info s)" and q: "q = RIO_ALL_PORTS \<or> q < n"
    and p: "p = (if q = RIO_ALL_PORTS then 0 else unat q)" and wf: "tsi_rt_wf n rt" and b: "tsi_groups rt = [b]" and dflt: "default_route rt \<noteq> RIO_RTE_DFLT_PORT"
    and tt: "\<forall>k<8. mc_tt (mc_masks rt ! k) \<in> {tt_dev8, tt_dev16}" and hw: "base (hw s) p = b" "tsi_match (v (hw s)) b rt p" "mask_copies (mc_masks rt) 8 (dev_info s)"
    "scratchpad (dev_info s) ! 17 = (if default_route rt = RIO_RTE_DROP then HW_DFLT_RT else default_route rt) AND 0xFF"
    and len: "length (dev_table rt') = 256" "length (dom_table rt') = 256" "length (mc_masks rt') = 256"
  shows "\<exists>rt2 h'. tsi57x_rio_rt_probe_all P q (Some rt') s = (RIO_SUCCESS, RIO_SUCCESS, Some rt2, s\<lparr>hw := h'\<rparr>) \<and> default_route rt2 = default_route rt \<and>
    (\<forall>i<256. dom_table rt2 ! i = \<lparr>rte_val = tsi_read_back (rte_val (dom_table rt ! i)), uc_changed = False\<rparr> \<and>
       dev_table rt2 ! i = \<lparr>rte_val = tsi_read_back (rte_val (dev_table rt ! i)), uc_changed = False\<rparr>) \<and>
    (\<forall>k<256. if k < 8 then mc_masks rt2 ! k = tsi_mask_read (mc_masks rt ! k) else \<not> in_use (mc_masks rt2 ! k))"
proof -
  have t: "tsi_tables_ok n rt" and ok: "\<forall>k<8. tsi_mask_ok (mc_masks rt ! k) \<and> mc_tt (mc_masks rt ! k) \<in> {tt_dev8, tt_dev16}"
    using wf tt by (simp_all add: tsi_rt_wf_def tsi_masks_ok_def)
  have "unat n \<le> 16" using TSI57X_NUM_PORTS_le [of "dev_info s"] n by (simp add: word_le_nat_alt)
  then have p16: "p < 16" using q p by (auto simp: word_less_nat_alt)
  obtain rt1 where rt1: "tsi57x_read_mc_masks P (rt', s) = (RIO_SUCCESS, RIO_SUCCESS, rt1, s)" "length (dev_table rt1) = 256" "length (dom_table rt1) = 256"
      "\<forall>k<256. if k < 8 then mc_masks rt1 ! k = tsi_mask_read (mc_masks rt ! k) else \<not> in_use (mc_masks rt1 ! k)"
    using masks_read [OF d hw(3) ok len] by blast
  obtain rt2 h' where rt2: "tsi57x_read_rte_entries P p (rt1, s) = (RIO_SUCCESS, RIO_SUCCESS, rt2, s\<lparr>hw := h'\<rparr>)" "default_route rt2 = default_route rt" "mc_masks rt2 = mc_masks rt1"
      "\<forall>i<256. dom_table rt2 ! i = \<lparr>rte_val = tsi_read_back (rte_val (dom_table rt ! i)), uc_changed = False\<rparr> \<and>
         dev_table rt2 ! i = \<lparr>rte_val = tsi_read_back (rte_val (dev_table rt ! i)), uc_changed = False\<rparr>"
    using entries_read [OF d n p16 t b dflt hw(1,2,4) rt1(2,3)] by blast
  have guard: "\<not> (q \<noteq> RIO_ALL_PORTS \<and> q \<ge> TSI57X_NUM_PORTS (dev_info s))" using q n by auto
  have "tsi57x_rio_rt_probe_all P q (Some rt') s = (RIO_SUCCESS, RIO_SUCCESS, Some rt2, s\<lparr>hw := h'\<rparr>)"
    unfolding tsi57x_rio_rt_probe_all_def option.case if_not_P [OF guard] Let_def rt1(1) prod.case p [symmetric] using rt2(1) by simp
  then show ?thesis using rt2(2-4) rt1(4) by (intro exI [of _ rt2] exI [of _ h']) simp
qed

end

section \<open>A switch\<close>

text \<open>
  A switch that behaves as the locale says: its state holds the tables, the bases and the indices of 16 ports. The registers of port \<open>p\<close> start at \<open>0x11000 + 0x100 p\<close>; the
  other registers do not change the tables.
\<close>

type_synonym tsi_switch = "tsi_view \<times> (nat \<Rightarrow> nat) \<times> (nat \<Rightarrow> u32)"

definition tsi_switch_read :: "DAR_DEV_INFO_t \<Rightarrow> u32 \<Rightarrow> tsi_switch \<Rightarrow> u32 \<times> u32 \<times> tsi_switch" where
  "tsi_switch_read d a h =
     (let (t, bs, xs) = h; n = unat a; p = (n - 0x11000) div 0x100; r = (n - 0x11000) mod 0x100 in
      if n < 0x11000 \<or> 16 \<le> p then (RIO_SUCCESS, 0, h)
      else if r = 0x74 then (RIO_SUCCESS, case tsi_index (bs p) (xs p) of (tab, j) \<Rightarrow> fst (t p tab j), h)
      else if r = 0x78 then (RIO_SUCCESS, push_bit 24 (of_nat (bs p)), h)
      else (RIO_SUCCESS, 0, h))"

definition tsi_switch_write :: "DAR_DEV_INFO_t \<Rightarrow> u32 \<Rightarrow> u32 \<Rightarrow> tsi_switch \<Rightarrow> u32 \<times> tsi_switch" where
  "tsi_switch_write d a x h =
     (let (t, bs, xs) = h; n = unat a; p = (n - 0x11000) div 0x100; r = (n - 0x11000) mod 0x100 in
      (RIO_SUCCESS,
       if n < 0x11000 \<or> 16 \<le> p then h
       else if r = 0x70 then (t, bs, xs(p := x))
       else if r = 0x74 then (tsi_put {p} (tsi_index (bs p) (xs p)) (x, bit (xs p) 30) t, bs, xs)
       else if r = 0x78 then (t, bs(p := unat (drop_bit 24 (x AND 0xFF000000))), xs)
       else h))"

definition tsi_switch_host :: "tsi_switch host" where
  "tsi_switch_host = \<lparr>ReadReg = Some tsi_switch_read, WriteReg = Some tsi_switch_write\<rparr>"

lemma tsi_reg_nat:
  assumes "p < 16"
  shows "unat (TSI578_SPX_ROUTE_CFG_DESTID p) = 0x11000 + (0x100 * p + 0x70)" "unat (TSI578_SPX_ROUTE_CFG_PORT p) = 0x11000 + (0x100 * p + 0x74)"
    "unat (TSI578_SPX_ROUTE_BASE p) = 0x11000 + (0x100 * p + 0x78)"
proof -
  have u: "unat (of_nat n :: u32) = n" if "n < 0x10000000" for n using that by (simp add: unsigned_of_nat take_bit_nat_eq_self)
  have e: "TSI578_SPX_ROUTE_CFG_DESTID p = of_nat (0x11000 + (0x100 * p + 0x70))" "TSI578_SPX_ROUTE_CFG_PORT p = of_nat (0x11000 + (0x100 * p + 0x74))"
    "TSI578_SPX_ROUTE_BASE p = of_nat (0x11000 + (0x100 * p + 0x78))"
    by (simp_all add: TSI578_SPX_ROUTE_CFG_DESTID_def TSI578_SPX_ROUTE_CFG_PORT_def TSI578_SPX_ROUTE_BASE_def)
  show "unat (TSI578_SPX_ROUTE_CFG_DESTID p) = 0x11000 + (0x100 * p + 0x70)" "unat (TSI578_SPX_ROUTE_CFG_PORT p) = 0x11000 + (0x100 * p + 0x74)"
    "unat (TSI578_SPX_ROUTE_BASE p) = 0x11000 + (0x100 * p + 0x78)"
    unfolding e by (rule u, use assms in simp)+
qed

lemma other_reg_nat:
  assumes "a \<in> insert 0x78 (TSI578_RIO_MC_IDX ` {..<8} \<union> TSI578_RIO_MC_MSKX ` {..<8})"
  shows "unat a < 0x11000"
proof -
  have u: "unat (of_nat n :: u32) = n" if "n < 0x10000000" for n using that by (simp add: unsigned_of_nat take_bit_nat_eq_self)
  have "TSI578_RIO_MC_IDX k = of_nat (0x10300 + 4 * k)" "TSI578_RIO_MC_MSKX k = of_nat (0x10320 + 4 * k)" for k
    by (simp_all add: TSI578_RIO_MC_IDX_def TSI578_RIO_MC_MSKX_def)
  then have "unat (TSI578_RIO_MC_IDX k) < 0x11000" "unat (TSI578_RIO_MC_MSKX k) < 0x11000" if "k < 8" for k
    using that u [of "0x10300 + 4 * k"] u [of "0x10320 + 4 * k"] by simp_all
  then show ?thesis using assms by auto
qed

interpretation tsi_switch: tsi_tables tsi_switch_host tsi_switch_read tsi_switch_write fst "\<lambda>h. fst (snd h)" "\<lambda>h. snd (snd h)"
proof
  show "ReadReg tsi_switch_host = Some tsi_switch_read" "WriteReg tsi_switch_host = Some tsi_switch_write" by (simp_all add: tsi_switch_host_def)
next
  fix p :: nat and d x h rc and h' :: tsi_switch
  assume p: "p < 16"
  have at: "(0x100 * p + c) div 0x100 = p" "(0x100 * p + c) mod 0x100 = c" if "c < 0x100" for c using that by simp_all
  note reg = tsi_reg_nat [OF p]
  show "tsi_switch_write d (TSI578_SPX_ROUTE_CFG_DESTID p) x h = (rc, h') \<Longrightarrow>
      rc = RIO_SUCCESS \<and> fst h' = fst h \<and> fst (snd h') = fst (snd h) \<and> snd (snd h') = (snd (snd h))(p := x)"
    using p by (auto simp: tsi_switch_write_def reg at split: prod.splits)
  show "tsi_switch_write d (TSI578_SPX_ROUTE_CFG_PORT p) x h = (rc, h') \<Longrightarrow>
      rc = RIO_SUCCESS \<and> fst h' = tsi_put {p} (tsi_index (fst (snd h) p) (snd (snd h) p)) (x, bit (snd (snd h) p) 30) (fst h) \<and> fst (snd h') = fst (snd h)"
    using p by (auto simp: tsi_switch_write_def reg at split: prod.splits)
  show "tsi_switch_read d (TSI578_SPX_ROUTE_CFG_PORT p) h =
      (RIO_SUCCESS, case tsi_index (fst (snd h) p) (snd (snd h) p) of (tab, j) \<Rightarrow> fst (fst h p tab j), h)"
    using p by (simp add: tsi_switch_read_def reg at split: prod.splits)
  show "tsi_switch_read d (TSI578_SPX_ROUTE_BASE p) h = (RIO_SUCCESS, push_bit 24 (of_nat (fst (snd h) p)), h)"
    using p by (simp add: tsi_switch_read_def reg at split: prod.splits)
  fix b :: nat
  assume b: "b < 256"
  show "tsi_switch_write d (TSI578_SPX_ROUTE_BASE p) (push_bit 24 (of_nat b)) h = (rc, h') \<Longrightarrow>
      rc = RIO_SUCCESS \<and> fst h' = fst h \<and> fst (snd h') = (fst (snd h))(p := b)"
    using p base_byte [OF b] by (auto simp: tsi_switch_write_def reg at split: prod.splits)
next
  fix a d x h rc and h' :: tsi_switch
  assume "a \<in> insert 0x78 (TSI578_RIO_MC_IDX ` {..<8} \<union> TSI578_RIO_MC_MSKX ` {..<8})" "tsi_switch_write d a x h = (rc, h')"
  then show "rc = RIO_SUCCESS \<and> fst h' = fst h \<and> fst (snd h') = fst (snd h)" using other_reg_nat [of a] by (simp add: tsi_switch_write_def split: prod.splits)
qed

section \<open>Properties\<close>

text \<open>The state of the example has one domain that uses the device table, and its masks have ports of the device only.\<close>

definition tsi_dev1 :: "tsi_switch dev" where
  "tsi_dev1 = \<lparr>dev_info = tsi_dev, hw = (\<lambda>p tab j. (0, False), \<lambda>p. 0, \<lambda>p. 0)\<rparr>"

lemma tsi_example_tables:
  "i < 256 \<Longrightarrow> rte_val (dom_table tsi_rt2 ! i) = (if i = 3 then RIO_RTE_LVL_G0 else RIO_RTE_DROP)"
  "k < 8 \<Longrightarrow> mc_masks tsi_rt2 ! k = (if k = 1 then tsi_mark_mask (mc_info tsi_mc) mc_unused else mc_unused)"
proof -
  have l: "length (dom_table (tsi_rt_initial tsi_init)) = 256" by (simp add: tsi_rt_initial_def Let_def)
  have init: "rte_val (dom_table (tsi_rt_initial tsi_init) ! i) = (if i = 0 then 0x200 else 0x300)" if "i < 256"
    using that by (cases i) (simp_all add: tsi_rt_initial_def tsi_init_def Let_def)
  show "rte_val (dom_table tsi_rt2 ! i) = (if i = 3 then 0x200 else 0x300)" if i: "i < 256"
    using init [OF i] l i by (simp add: tsi_rt2_def tsi_rt1_def tsi_drop_others_nth nth_upd uc_drop_simps)
  show "mc_masks tsi_rt2 ! k = (if k = 1 then tsi_mark_mask (mc_info tsi_mc) mc_unused else mc_unused)" if "k < 8"
    using that by (simp add: tsi_rt2_def tsi_rt1_def tsi_rt_initial_def tsi_init_def Let_def nth_append nth_upd mc_unused_def)
qed

lemma tsi_example:
  "tsi_device (dev_info tsi_dev1)" "16 = TSI57X_NUM_PORTS (dev_info tsi_dev1)" "tsi_rt_wf 16 tsi_rt2" "tsi_groups tsi_rt2 = [3]" "default_route tsi_rt2 = 2"
  "\<forall>k<8. NOT (push_bit (unat (16 :: u8)) 1 - 1) AND mc_mask (mc_masks tsi_rt2 ! k) = 0 \<and> mc_tt (mc_masks tsi_rt2 ! k) \<in> {tt_dev8, tt_dev16}"
proof -
  show "tsi_device (dev_info tsi_dev1)" "16 = TSI57X_NUM_PORTS (dev_info tsi_dev1)"
    by (simp_all add: tsi_device_def tsi_dev1_def tsi_dev_facts) (simp add: tsi_dev_def dev_zero_def)
  show "tsi_rt_wf 16 tsi_rt2" using tsi_reachable_inv [OF tsi_example_reachable [of mem_host]] by (simp add: tsi_inv_def tsi_ok_def tsi_dev_facts)
  have "rte_val (dom_table tsi_rt2 ! i) = 0x200 \<longleftrightarrow> i = 3" if "i \<in> set [0..<256]" for i using that tsi_example_tables(1) [of i] by simp
  then have "tsi_groups tsi_rt2 = filter (\<lambda>i. i = 3) [0..<256]" unfolding tsi_groups_def by (rule filter_cong [OF refl])
  moreover have "filter (\<lambda>i. i = 3) [0..<256] = [3::nat]" by code_simp
  ultimately show "tsi_groups tsi_rt2 = [3]" by simp
  show "default_route tsi_rt2 = 2" by (simp add: tsi_rt2_def tsi_rt1_def tsi_rt_initial_def tsi_init_def Let_def)
  show "\<forall>k<8. NOT (push_bit (unat (16 :: u8)) 1 - 1) AND mc_mask (mc_masks tsi_rt2 ! k) = 0 \<and> mc_tt (mc_masks tsi_rt2 ! k) \<in> {tt_dev8, tt_dev16}"
    by (simp add: tsi_example_tables(2) mc_unused_def tsi_mark_mask_def tsi_mc_def)
qed

text \<open>
  What is programmed into a Tsi57x switch is read back. Take a well-formed state with one domain that uses the device table, a default route that is a port or a discard, and
  masks with small or large identifiers and ports of the device. On a switch whose table registers select entries as the locale \<open>tsi_tables\<close> says, setting the tables of a
  port or of all ports succeeds, and so does reading them from one of these ports into any other state: the default route, the entries and the first eight masks are the same,
  except that an entry that discards packets is read as the default route, since the mark that makes the hardware discard is not read; nothing is marked as changed, and
  the other masks are not in use.
\<close>

theorem tsi_probe_all_roundtrip:
  fixes s :: "'h dev"
  assumes "tsi_tables P rd wr v base sel" and "tsi_device (dev_info s)" and "n = TSI57X_NUM_PORTS (dev_info s)" and "port = RIO_ALL_PORTS \<or> port < n"
    and "tsi_rt_wf n rt" and "tsi_groups rt = [b]" and "default_route rt \<noteq> RIO_RTE_DFLT_PORT"
    and "\<forall>k<8. NOT (push_bit (unat n) 1 - 1) AND mc_mask (mc_masks rt ! k) = 0 \<and> mc_tt (mc_masks rt ! k) \<in> {tt_dev8, tt_dev16}"
    and "q < n" and "port = RIO_ALL_PORTS \<or> q = port"
    and "length (dev_table rt') = RIO_RT_GRP_SZ" "length (dom_table rt') = RIO_RT_GRP_SZ" "length (mc_masks rt') = RIO_MAX_MC_MASKS"
  shows "\<exists>s1 s2 rt2. tsi57x_rio_rt_set_all P port (Some rt) s = (RIO_SUCCESS, RIO_SUCCESS, Some (tsi_unmarked rt), s1) \<and>
     tsi57x_rio_rt_probe_all P q (Some rt') s1 = (RIO_SUCCESS, RIO_SUCCESS, Some rt2, s2) \<and> default_route rt2 = default_route rt \<and>
     (\<forall>i<RIO_RT_GRP_SZ. let x = rte_val (dom_table rt ! i); y = rte_val (dev_table rt ! i) in
        dom_table rt2 ! i = \<lparr>rte_val = (if x = RIO_RTE_DROP then RIO_RTE_DFLT_PORT else x), uc_changed = False\<rparr> \<and>
        dev_table rt2 ! i = \<lparr>rte_val = (if y = RIO_RTE_DROP then RIO_RTE_DFLT_PORT else y), uc_changed = False\<rparr>) \<and>
     (\<forall>k<TSI578_MAX_MC_MASKS. mc_masks rt2 ! k = (mc_masks rt ! k)\<lparr>allocd := False, mc_changed := False\<rparr>) \<and>
     (\<forall>k<RIO_MAX_MC_MASKS. TSI578_MAX_MC_MASKS \<le> k \<longrightarrow> \<not> in_use (mc_masks rt2 ! k))"
proof -
  have masks: "\<forall>k<8. NOT (push_bit (unat n) 1 - 1) AND mc_mask (mc_masks rt ! k) = 0" and tt: "\<forall>k<8. mc_tt (mc_masks rt ! k) \<in> {tt_dev8, tt_dev16}"
    using assms(8) by blast+
  obtain s1 where s1: "tsi57x_rio_rt_set_all P port (Some rt) s = (RIO_SUCCESS, RIO_SUCCESS, Some (tsi_unmarked rt), s1)"
      "tsi_device (dev_info s1)" "n = TSI57X_NUM_PORTS (dev_info s1)" "mask_copies (mc_masks rt) 8 (dev_info s1)"
      "scratchpad (dev_info s1) ! 17 = (if default_route rt = 0x300 then 0xFF else default_route rt) AND 0xFF"
      "\<forall>p\<in>set (tsi_ports (dev_info s) port). base (hw s1) p = b \<and> tsi_match (v (hw s1)) b rt p"
    using tsi_tables.set_programs [OF assms(1-7) masks] by auto
  have "n \<le> 16" using TSI57X_NUM_PORTS_le [of "dev_info s"] assms(3) by simp
  then have "q < 16" using assms(9) by (rule order.strict_trans2 [rotated])
  then have q: "q \<noteq> RIO_ALL_PORTS" by auto
  have "unat q \<in> set (tsi_ports (dev_info s) port)" using assms(3,9,10) by (auto simp: tsi_ports_def word_less_nat_alt)
  then have hw: "base (hw s1) (unat q) = b" "tsi_match (v (hw s1)) b rt (unat q)" using s1(6) by simp_all
  have p: "unat q = (if q = RIO_ALL_PORTS then 0 else unat q)" using q by simp
  obtain rt2 h' where r: "tsi57x_rio_rt_probe_all P q (Some rt') s1 = (RIO_SUCCESS, RIO_SUCCESS, Some rt2, s1\<lparr>hw := h'\<rparr>)" "default_route rt2 = default_route rt"
      "\<forall>i<256. dom_table rt2 ! i = \<lparr>rte_val = tsi_read_back (rte_val (dom_table rt ! i)), uc_changed = False\<rparr> \<and>
         dev_table rt2 ! i = \<lparr>rte_val = tsi_read_back (rte_val (dev_table rt ! i)), uc_changed = False\<rparr>"
      "\<forall>k<256. if k < 8 then mc_masks rt2 ! k = tsi_mask_read (mc_masks rt ! k) else \<not> in_use (mc_masks rt2 ! k)"
    using tsi_tables.probe_all [OF assms(1) s1(2,3) disjI2 [OF assms(9)] p assms(5-7) tt hw s1(4,5) assms(11-13)] by blast
  have "mc_masks rt2 ! k = tsi_mask_read (mc_masks rt ! k)" if "k < 8" for k using r(4) that by (elim allE [of _ k]) simp
  moreover have "\<not> in_use (mc_masks rt2 ! k)" if "k < 256" "8 \<le> k" for k using r(4) that by (elim allE [of _ k]) simp
  ultimately show ?thesis using s1(1) r(1-3)
    by (intro exI [of _ s1] exI [of _ "s1\<lparr>hw := h'\<rparr>"] exI [of _ rt2]) (simp add: tsi_read_back_def tsi_mask_read_def Let_def)
qed

theorem tsi_probe_all_roundtrip_witness:
  "\<exists>s1 s2 rt2. tsi57x_rio_rt_set_all tsi_switch_host RIO_ALL_PORTS (Some tsi_rt2) tsi_dev1 = (RIO_SUCCESS, RIO_SUCCESS, Some (tsi_unmarked tsi_rt2), s1) \<and>
     tsi57x_rio_rt_probe_all tsi_switch_host 7 (Some tsi_rt1) s1 = (RIO_SUCCESS, RIO_SUCCESS, Some rt2, s2) \<and>
     default_route rt2 = 2 \<and> rte_val (dom_table rt2 ! 3) = RIO_RTE_LVL_G0 \<and> rte_val (dom_table rt2 ! 4) = RIO_RTE_DFLT_PORT \<and> in_use (mc_masks rt2 ! 1) \<and>
     mc_destID (mc_masks rt2 ! 1) = 0x0305 \<and> mc_mask (mc_masks rt2 ! 1) = 0x0E"
proof -
  have len: "length (dev_table tsi_rt1) = 256" "length (dom_table tsi_rt1) = 256" "length (mc_masks tsi_rt1) = 256"
    by (simp_all add: tsi_rt1_def tsi_drop_others_def tsi_rt_initial_def Let_def)
  have dflt: "default_route tsi_rt2 \<noteq> RIO_RTE_DFLT_PORT" by (simp add: tsi_example(5))
  obtain s1 s2 rt2 where r: "tsi57x_rio_rt_set_all tsi_switch_host RIO_ALL_PORTS (Some tsi_rt2) tsi_dev1 = (RIO_SUCCESS, RIO_SUCCESS, Some (tsi_unmarked tsi_rt2), s1)"
      "tsi57x_rio_rt_probe_all tsi_switch_host 7 (Some tsi_rt1) s1 = (RIO_SUCCESS, RIO_SUCCESS, Some rt2, s2)" "default_route rt2 = default_route tsi_rt2"
      "\<forall>i<256. let x = rte_val (dom_table tsi_rt2 ! i); y = rte_val (dev_table tsi_rt2 ! i) in
         dom_table rt2 ! i = \<lparr>rte_val = (if x = 0x300 then 0x301 else x), uc_changed = False\<rparr> \<and> dev_table rt2 ! i = \<lparr>rte_val = (if y = 0x300 then 0x301 else y), uc_changed = False\<rparr>"
      "\<forall>k<8. mc_masks rt2 ! k = (mc_masks tsi_rt2 ! k)\<lparr>allocd := False, mc_changed := False\<rparr>"
    using tsi_probe_all_roundtrip [OF tsi_switch.tsi_tables_axioms tsi_example(1,2) disjI1 [OF refl] tsi_example(3,4) dflt tsi_example(6) _ disjI1 [OF refl] len, of 7] by auto
  have "rte_val (dom_table rt2 ! 3) = 0x200" "rte_val (dom_table rt2 ! 4) = 0x301"
    using r(4) [rule_format, of 3] r(4) [rule_format, of 4] tsi_example_tables(1) [of 3] tsi_example_tables(1) [of 4] by (simp_all add: Let_def)
  moreover have "mc_masks rt2 ! 1 = (tsi_mark_mask (mc_info tsi_mc) mc_unused)\<lparr>allocd := False, mc_changed := False\<rparr>"
    using r(5) [rule_format, of 1] tsi_example_tables(2) [of 1] by simp
  ultimately show ?thesis using r(1-3) tsi_example(5) by (intro exI [of _ s1] exI [of _ s2] exI [of _ rt2]) (simp add: tsi_mark_mask_def tsi_mc_def)
qed

end
