(* ===== verification/Dar_Dev.thy ===== *)
theory Dar_Dev
  imports Dar_Regs
begin

unbundle bit_operations_syntax

text \<open>
  Discovery and port control, the rest of \<^verbatim>\<open>RapidIO_Device_Access_Routines_API.c\<close> with the device specific parts in
  \<^verbatim>\<open>CPS_DeviceDriver.c\<close>, \<^verbatim>\<open>RXS_DeviceDriver.c\<close>, \<^verbatim>\<open>Tsi57x_DeviceDriver.c\<close> and \<^verbatim>\<open>Tsi721_DeviceDriver.c\<close>. Functions that call
  \<open>ReadReg\<close> directly take it as an argument \<open>rd\<close>. The walk along the extended features blocks of a device ends only if their chain does: it
  is a partial function, and not returning is \<open>None\<close>. A field that a failed register read was to fill is left as it is.
\<close>

section \<open>Registers of ports\<close>

definition RIO_SP3_VLD :: "u32 \<Rightarrow> bool" where
  "RIO_SP3_VLD t \<longleftrightarrow> t \<in> {0x11, 0x12, 0x13, 0x19}"

definition RIO_SP_STEP :: "u32 \<Rightarrow> u32" where
  "RIO_SP_STEP t = (if RIO_SP3_VLD t then 0x40 else 0x20)"

definition RIO_SP_VLD :: "u32 \<Rightarrow> bool" where
  "RIO_SP_VLD t \<longleftrightarrow> t \<in> {1, 2, 3, 9} \<or> RIO_SP3_VLD t"

definition RIO_SP_SAER :: "u32 \<Rightarrow> bool" where
  "RIO_SP_SAER t \<longleftrightarrow> t \<in> {2, 9} \<or> t \<in> {0x12, 0x19}"

definition RIO_SPX_LM_REQ :: "u32 \<Rightarrow> u32 \<Rightarrow> u32 \<Rightarrow> u32" where
  "RIO_SPX_LM_REQ b t p = (if RIO_SP_SAER t then b + 0x40 + RIO_SP_STEP t * p else 0)"

definition RIO_SPX_LM_RESP :: "u32 \<Rightarrow> u32 \<Rightarrow> u32 \<Rightarrow> u32" where
  "RIO_SPX_LM_RESP b t p = (if RIO_SP_SAER t then b + 0x44 + RIO_SP_STEP t * p else 0)"

definition RIO_SPX_ERR_STAT :: "u32 \<Rightarrow> u32 \<Rightarrow> u32 \<Rightarrow> u32" where
  "RIO_SPX_ERR_STAT b t p = (if RIO_SP_VLD t then b + 0x58 + RIO_SP_STEP t * p else 0)"

definition RIO_SPX_CTL :: "u32 \<Rightarrow> u32 \<Rightarrow> u32 \<Rightarrow> u32" where
  "RIO_SPX_CTL b t p = (if RIO_SP_VLD t then b + 0x5C + RIO_SP_STEP t * p else 0)"

abbreviation (input) RIO_SPX_CTL_LOCKOUT :: u32 where "RIO_SPX_CTL_LOCKOUT \<equiv> 0x00000002"
abbreviation (input) RIO_SPX_CTL_ENUM_B :: u32 where "RIO_SPX_CTL_ENUM_B \<equiv> 0x00020000"
abbreviation (input) RIO_SPX_CTL_INP_EN :: u32 where "RIO_SPX_CTL_INP_EN \<equiv> 0x00200000"
abbreviation (input) RIO_SPX_CTL_OTP_EN :: u32 where "RIO_SPX_CTL_OTP_EN \<equiv> 0x00400000"
abbreviation (input) RIO_SPX_CTL_PORT_DIS :: u32 where "RIO_SPX_CTL_PORT_DIS \<equiv> 0x00800000"
abbreviation (input) RIO_ERR_ACCESS :: u32 where "RIO_ERR_ACCESS \<equiv> 0x1004"
abbreviation (input) RIO_ERR_PORT_OK_NOT_DETECTED :: u32 where "RIO_ERR_PORT_OK_NOT_DETECTED \<equiv> 0x80000009"
abbreviation (input) RIO_ERR_NOT_EXPECTED_RETURN_VALUE :: u32 where "RIO_ERR_NOT_EXPECTED_RETURN_VALUE \<equiv> 0x8000000C"

definition port_ctl :: "DAR_DEV_INFO_t \<Rightarrow> u8 \<Rightarrow> u32" where
  "port_ctl d p = RIO_SPX_CTL (extFPtrForPort d) (extFPtrPortType d) (ucast p)"

section \<open>Discovery\<close>

definition record_block :: "u32 \<Rightarrow> u32 \<Rightarrow> DAR_DEV_INFO_t \<Rightarrow> DAR_DEV_INFO_t" where
  "record_block x addr d =
     (let t = x AND 0xFFFF in
      if t \<in> {1, 2, 9, 3, 0x11, 0x12, 0x13, 0x19} then d\<lparr>extFPtrPortType := t, extFPtrForPort := addr\<rparr>
      else if t = 0x07 then d\<lparr>extFPtrForErr := addr\<rparr>
      else if t = 0x17 then d\<lparr>extFPtrForHS := addr\<rparr>
      else if t = 0x0D then d\<lparr>extFPtrForLane := addr\<rparr>
      else if t = 0x0A then d\<lparr>extFPtrForVC := addr\<rparr>
      else if t = 0x0B then d\<lparr>extFPtrForVOQ := addr\<rparr>
      else if t = 0x0E then d\<lparr>extFPtrForRT := addr\<rparr>
      else if t = 0x0F then d\<lparr>extFPtrForTS := addr\<rparr>
      else if t = 0x10 then d\<lparr>extFPtrForMISC := addr\<rparr>
      else d)"

text \<open>A block header of all ones is an unknown block type, and the sign of a failed access.\<close>

partial_function (option) ext_features_walk ::
  "(DAR_DEV_INFO_t \<Rightarrow> u32 \<Rightarrow> 'h \<Rightarrow> u32 \<times> u32 \<times> 'h) \<Rightarrow> u32 \<Rightarrow> 'h dev \<Rightarrow> (u32 \<times> 'h dev) option" where
  "ext_features_walk rd addr s =
     (if addr = 0 then Some (RIO_SUCCESS, s)
      else
        (let (rc, x, h') = rd (dev_info s) addr (hw s) in
         if rc \<noteq> RIO_SUCCESS then Some (rc, s\<lparr>hw := h'\<rparr>)
         else if x = 0xFFFFFFFF then Some (RIO_ERR_ACCESS, s\<lparr>hw := h'\<rparr>)
         else ext_features_walk rd (drop_bit 16 x) (s\<lparr>dev_info := record_block x addr (dev_info s), hw := h'\<rparr>)))"

definition read_into ::
  "(DAR_DEV_INFO_t \<Rightarrow> u32 \<Rightarrow> 'h \<Rightarrow> u32 \<times> u32 \<times> 'h) \<Rightarrow> u32 \<Rightarrow> (u32 \<Rightarrow> DAR_DEV_INFO_t \<Rightarrow> DAR_DEV_INFO_t) \<Rightarrow> u32 \<times> 'h dev \<Rightarrow> u32 \<times> 'h dev" where
  "read_into rd oset f st =
     (let (rc0, s) = st in
      if rc0 \<noteq> RIO_SUCCESS then (rc0, s)
      else (let (rc, x, h') = rd (dev_info s) oset (hw s)
            in (rc, s\<lparr>dev_info := (if rc = RIO_SUCCESS then f x (dev_info s) else dev_info s), hw := h'\<rparr>)))"

definition read_into_if ::
  "(DAR_DEV_INFO_t \<Rightarrow> bool) \<Rightarrow> (DAR_DEV_INFO_t \<Rightarrow> u32 \<Rightarrow> 'h \<Rightarrow> u32 \<times> u32 \<times> 'h) \<Rightarrow> u32 \<Rightarrow>
     (u32 \<Rightarrow> DAR_DEV_INFO_t \<Rightarrow> DAR_DEV_INFO_t) \<Rightarrow> u32 \<times> 'h dev \<Rightarrow> u32 \<times> 'h dev" where
  "read_into_if c rd oset f st = (if c (dev_info (snd st)) then read_into rd oset f st else st)"

definition read_capabilities ::
  "(DAR_DEV_INFO_t \<Rightarrow> u32 \<Rightarrow> 'h \<Rightarrow> u32 \<times> u32 \<times> 'h) \<Rightarrow> 'h dev \<Rightarrow> u32 \<times> 'h dev" where
  "read_capabilities rd s =
     (let s1 = read_into rd 0x00 (\<lambda>x d. d\<lparr>devID := x, driver_family := rio_get_driver_family x\<rparr>) (RIO_SUCCESS, s);
          s2 = read_into rd 0x04 (\<lambda>x d. d\<lparr>devInfo := x\<rparr>) s1;
          s3 = read_into rd 0x0C (\<lambda>x d. d\<lparr>assyInfo := x\<rparr>) s2;
          s4 = read_into rd 0x10 (\<lambda>x d. d\<lparr>features := x\<rparr>) s3;
          s5 = read_into rd 0x14 (\<lambda>x d. d\<lparr>swPortInfo := (if x = 0 then 0x100 else x)\<rparr>) s4;
          s6 = read_into_if (\<lambda>d. features d AND RIO_PE_FEAT_SW \<noteq> 0) rd 0x34 (\<lambda>x d. d\<lparr>swRtInfo := x\<rparr>) s5;
          s7 = read_into rd 0x18 (\<lambda>x d. d\<lparr>srcOps := x\<rparr>) s6;
          s8 = read_into rd 0x1C (\<lambda>x d. d\<lparr>dstOps := x\<rparr>) s7
      in read_into_if (\<lambda>d. features d AND 0x400 \<noteq> 0) rd 0x38 (\<lambda>x d. d\<lparr>swMcastInfo := x\<rparr>) s8)"

definition DARDB_rioDeviceSupported ::
  "(DAR_DEV_INFO_t \<Rightarrow> u32 \<Rightarrow> 'h \<Rightarrow> u32 \<times> u32 \<times> 'h) \<Rightarrow> 'h dev \<Rightarrow> (u32 \<times> 'h dev) option" where
  "DARDB_rioDeviceSupported rd s =
     (let (rc, s1) = read_capabilities rd s in
      if rc \<noteq> RIO_SUCCESS \<or> features (dev_info s1) AND 8 = 0 then Some (rc, s1)
      else (let (rc, prev_addr) = DARrioGetExtFeaturesPtr s1
            in if rc \<noteq> RIO_SUCCESS then Some (rc, s1) else ext_features_walk rd prev_addr s1))"

definition CPS_init_dev_info :: "string \<Rightarrow> u32 \<Rightarrow> DAR_DEV_INFO_t \<Rightarrow> DAR_DEV_INFO_t" where
  "CPS_init_dev_info nm port_info d =
     d\<lparr>dev_name := nm, assyInfo := 0x100, devInfo := 0, srcOps := 4, dstOps := 0, features := 0x18000779, extFPtrPortType := 9,
       extFPtrForErr := 0x1000, extFPtrForLane := 0x2000, extFPtrForPort := 0x100, extFPtrForVC := 0, extFPtrForVOQ := 0,
       swRtInfo := 0x00FF, swPortInfo := port_info, swMcastInfo := 0x00FF0028\<rparr>"

definition CPS_rioDeviceSupported ::
  "(DAR_DEV_INFO_t \<Rightarrow> u32 \<Rightarrow> 'h \<Rightarrow> u32 \<times> u32 \<times> 'h) \<Rightarrow> 'h dev \<Rightarrow> (u32 \<times> 'h dev) option" where
  "CPS_rioDeviceSupported rd s =
     (let d = dev_info s; set_up = (\<lambda>nm port_info. Some (RIO_SUCCESS, s\<lparr>dev_info := CPS_init_dev_info nm port_info d\<rparr>)) in
      if devID d AND 0xFFFF \<noteq> 0x0038 then Some (DAR_DB_NO_DRIVER, s)
      else if DEV_CODE d = 0x0374 then set_up ''CPS1848'' 0x1200
      else if DEV_CODE d = 0x0375 then set_up ''CPS1432'' 0x1000
      else if DEV_CODE d = 0x0379 then set_up ''CPS1616'' 0x1000
      else if DEV_CODE d = 0x0377 then set_up ''VPS1616'' 0x1000
      else if DEV_CODE d = 0x0378 then set_up ''SPS1616'' 0x1000
      else if DEV_CODE d = 0 then DARDB_rioDeviceSupported rd s
      else Some (DAR_DB_NO_DRIVER, s))"

definition named :: "string \<Rightarrow> (u32 \<times> 'h dev) option \<Rightarrow> (u32 \<times> 'h dev) option" where
  "named nm = map_option (\<lambda>(rc, s). (rc, if rc = RIO_SUCCESS then s\<lparr>dev_info := (dev_info s)\<lparr>dev_name := nm\<rparr>\<rparr> else s))"

definition rxs_rioDeviceSupported ::
  "(DAR_DEV_INFO_t \<Rightarrow> u32 \<Rightarrow> 'h \<Rightarrow> u32 \<times> u32 \<times> 'h) \<Rightarrow> 'h dev \<Rightarrow> (u32 \<times> 'h dev) option" where
  "rxs_rioDeviceSupported rd s =
     (let d = dev_info s in
      if devID d AND 0xFFFF = 0x0038 \<and> DEV_CODE d = 0x80E6 then named ''RXS2448'' (DARDB_rioDeviceSupported rd s)
      else if devID d AND 0xFFFF = 0x0038 \<and> DEV_CODE d = 0x80E5 then named ''RXS1632'' (DARDB_rioDeviceSupported rd s)
      else Some (DAR_DB_NO_DRIVER, s))"

definition tsi721_rioDeviceSupported ::
  "(DAR_DEV_INFO_t \<Rightarrow> u32 \<Rightarrow> 'h \<Rightarrow> u32 \<times> u32 \<times> 'h) \<Rightarrow> 'h dev \<Rightarrow> (u32 \<times> 'h dev) option" where
  "tsi721_rioDeviceSupported rd s =
     (let d = dev_info s in
      if devID d AND 0xFFFF = 0x0038 \<and> DEV_CODE d = 0x80AB then named ''Tsi721'' (DARDB_rioDeviceSupported rd s)
      else Some (DAR_DB_NO_DRIVER, s))"

definition device_names :: "(string \<times> u32) list" where
  "device_names = [(''Tsi572'', 0x0572000D), (''Tsi574'', 0x0574000D), (''Tsi578'', 0x0578000D), (''Tsi576'', 0x0576000D), (''Tsi577'', 0x0577000D)]"

definition getTsiName :: "DAR_DEV_INFO_t \<Rightarrow> DAR_DEV_INFO_t" where
  "getTsiName d = (case find (\<lambda>(nm, i). i = devID d) device_names of None \<Rightarrow> d | Some (nm, i) \<Rightarrow> d\<lparr>dev_name := nm\<rparr>)"

definition tsi57x_rioDeviceSupported ::
  "(DAR_DEV_INFO_t \<Rightarrow> u32 \<Rightarrow> 'h \<Rightarrow> u32 \<times> u32 \<times> 'h) \<Rightarrow> 'h dev \<Rightarrow> (u32 \<times> 'h dev) option" where
  "tsi57x_rioDeviceSupported rd s =
     (if devID (dev_info s) AND 0xFFFF = 0x000D \<and> drop_bit 20 (devID (dev_info s)) = 0x057 then
        (case DARDB_rioDeviceSupported rd s of
           None \<Rightarrow> None
         | Some (rc, s1) \<Rightarrow>
             if rc \<noteq> RIO_SUCCESS then Some (rc, s1)
             else (let (rc, s2) = tsi57x_init_scratchpad rd s1
                   in Some (rc, if rc = RIO_SUCCESS then s2\<lparr>dev_info := getTsiName (dev_info s2)\<rparr> else s2)))
      else Some (DAR_DB_NO_DRIVER, s))"

definition DARrioDeviceSupported ::
  "(DAR_DEV_INFO_t \<Rightarrow> u32 \<Rightarrow> 'h \<Rightarrow> u32 \<times> u32 \<times> 'h) \<Rightarrow> 'h dev \<Rightarrow> (u32 \<times> 'h dev) option" where
  "DARrioDeviceSupported rd s =
     (if \<not> VALIDATE_DEV_INFO (dev_info s) then Some (DAR_DB_INVALID_HANDLE, s)
      else (case driver_family (dev_info s) of
              RIO_CPS_DEVICE \<Rightarrow> CPS_rioDeviceSupported rd s
            | RIO_RXS_DEVICE \<Rightarrow> rxs_rioDeviceSupported rd s
            | RIO_TSI721_DEVICE \<Rightarrow> tsi721_rioDeviceSupported rd s
            | RIO_TSI57X_DEVICE \<Rightarrow> tsi57x_rioDeviceSupported rd s
            | _ \<Rightarrow> DARDB_rioDeviceSupported rd s))"

text \<open>The control registers of the first \<open>n\<close> ports from port \<open>i\<close> on are recorded. The array has 24 entries.\<close>

primrec read_ctl1 :: "(DAR_DEV_INFO_t \<Rightarrow> u32 \<Rightarrow> 'h \<Rightarrow> u32 \<times> u32 \<times> 'h) \<Rightarrow> nat \<Rightarrow> nat \<Rightarrow> u32 \<times> 'h dev \<Rightarrow> u32 \<times> 'h dev" where
  "read_ctl1 rd i 0 st = st"
| "read_ctl1 rd i (Suc n) st =
     (let st' = read_into rd (port_ctl (dev_info (snd st)) (of_nat i)) (\<lambda>x d. d\<lparr>ctl1_reg := (ctl1_reg d)[i := x]\<rparr>) st
      in if fst st' \<noteq> RIO_SUCCESS then st' else read_ctl1 rd (Suc i) n st')"

definition DAR_Find_Driver_for_Device ::
  "(DAR_DEV_INFO_t \<Rightarrow> u32 \<Rightarrow> 'h \<Rightarrow> u32 \<times> u32 \<times> 'h) \<Rightarrow> bool \<Rightarrow> 'h dev \<Rightarrow> (u32 \<times> 'h dev) option" where
  "DAR_Find_Driver_for_Device rd devID_valid s0 =
     (let s1 = s0\<lparr>dev_info := (dev_info s0)\<lparr>dev_name := ''UNKNOWN''\<rparr>\<rparr>;
          (rc, s2) = (if devID_valid then (RIO_SUCCESS, s1)
                      else read_into rd 0x00 (\<lambda>x d. d\<lparr>devID := x, driver_family := rio_get_driver_family x\<rparr>) (RIO_SUCCESS, s1))
      in if rc \<noteq> RIO_SUCCESS then Some (rc, s2)
         else
           (let s3 = s2\<lparr>dev_info := (dev_info s2)\<lparr>dsf_h := push_bit 16 (devID (dev_info s2) AND 0xFFFF)\<rparr>\<rparr> in
            case DARrioDeviceSupported rd s3 of
              None \<Rightarrow> None
            | Some (rc, s4) \<Rightarrow>
                if rc = RIO_SUCCESS \<and> extFPtrForPort (dev_info s4) \<noteq> 0
                then Some (read_ctl1 rd 0 (unat (NUM_PORTS (dev_info s4))) (rc, s4)) else Some (rc, s4)))"

section \<open>Capability and control registers\<close>

definition DARrioGetFeatures :: "'h host \<Rightarrow> 'h dev \<Rightarrow> u32 \<times> u32 \<times> 'h dev" where
  "DARrioGetFeatures P s = (if \<not> VALIDATE_DEV_INFO (dev_info s) then (DAR_DB_INVALID_HANDLE, 0, s) else DARRegRead P 0x10 s)"

definition DARrioGetSourceOps :: "'h host \<Rightarrow> 'h dev \<Rightarrow> u32 \<times> u32 \<times> 'h dev" where
  "DARrioGetSourceOps P s = (if \<not> VALIDATE_DEV_INFO (dev_info s) then (DAR_DB_INVALID_HANDLE, 0, s) else DARRegRead P 0x18 s)"

definition DARrioGetDestOps :: "'h host \<Rightarrow> 'h dev \<Rightarrow> u32 \<times> u32 \<times> 'h dev" where
  "DARrioGetDestOps P s = (if \<not> VALIDATE_DEV_INFO (dev_info s) then (DAR_DB_INVALID_HANDLE, 0, s) else DARRegRead P 0x1C s)"

definition DARrioGetAddressMode :: "'h host \<Rightarrow> 'h dev \<Rightarrow> u32 \<times> u32 \<times> 'h dev" where
  "DARrioGetAddressMode P s =
     (if \<not> VALIDATE_DEV_INFO (dev_info s) then (DAR_DB_INVALID_HANDLE, 0, s)
      else if features (dev_info s) AND 7 \<noteq> 0 then DARRegRead P 0x4C s
      else (RIO_ERR_FEATURE_NOT_SUPPORTED, 0, s))"

abbreviation (input) has_base_id :: "DAR_DEV_INFO_t \<Rightarrow> bool" where
  "has_base_id d \<equiv> features d AND (0x20000000 OR 0x40000000 OR 0x80000000) \<noteq> 0"

definition DARrioGetBaseDeviceId :: "'h host \<Rightarrow> 'h dev \<Rightarrow> u32 \<times> u32 \<times> 'h dev" where
  "DARrioGetBaseDeviceId P s =
     (if \<not> VALIDATE_DEV_INFO (dev_info s) then (DAR_DB_INVALID_HANDLE, 0, s)
      else if has_base_id (dev_info s) then DARRegRead P 0x60 s
      else (RIO_ERR_FEATURE_NOT_SUPPORTED, 0, s))"

definition DARrioSetBaseDeviceId :: "'h host \<Rightarrow> u32 \<Rightarrow> 'h dev \<Rightarrow> u32 \<times> 'h dev" where
  "DARrioSetBaseDeviceId P newdeviceid s =
     (if \<not> VALIDATE_DEV_INFO (dev_info s) then (DAR_DB_INVALID_HANDLE, s)
      else if has_base_id (dev_info s) then DARRegWrite P 0x60 newdeviceid s
      else (RIO_ERR_FEATURE_NOT_SUPPORTED, s))"

definition DARrioGetAddrMode :: "'h host \<Rightarrow> 'h dev \<Rightarrow> u32 \<times> u32 \<times> 'h dev" where
  "DARrioGetAddrMode P s = (if \<not> VALIDATE_DEV_INFO (dev_info s) then (DAR_DB_INVALID_HANDLE, 0, s) else DARRegRead P 0x4C s)"

definition DARrioSetAddrMode :: "'h host \<Rightarrow> u32 \<Rightarrow> 'h dev \<Rightarrow> u32 \<times> 'h dev" where
  "DARrioSetAddrMode P addr_mode s =
     (if \<not> VALIDATE_DEV_INFO (dev_info s) then (DAR_DB_INVALID_HANDLE, s) else DARRegWrite P 0x4C addr_mode s)"

definition CPS_rioSetAssmblyInfo :: "'h host \<Rightarrow> u32 \<Rightarrow> u16 \<Rightarrow> 'h dev \<Rightarrow> u32 \<times> 'h dev" where
  "CPS_rioSetAssmblyInfo P asmblyVendID asmblyRev s =
     (let (rc, s1) = DARRegWrite P 0x00F2002C asmblyVendID s
      in if rc = RIO_SUCCESS then DARRegWrite P 0x00F20030 (ucast asmblyRev) s1 else (rc, s1))"

definition DARrioSetAssmblyInfo :: "'h host \<Rightarrow> u32 \<Rightarrow> u16 \<Rightarrow> 'h dev \<Rightarrow> u32 \<times> 'h dev" where
  "DARrioSetAssmblyInfo P asmblyVendID asmblyRev s =
     (if \<not> VALIDATE_DEV_INFO (dev_info s) then (DAR_DB_INVALID_HANDLE, s)
      else if driver_family (dev_info s) = RIO_CPS_DEVICE then CPS_rioSetAssmblyInfo P asmblyVendID asmblyRev s
      else (RIO_ERR_FEATURE_NOT_SUPPORTED, s))"

text \<open>The result holds the contents of the two out-parameters, the second one only on success.\<close>

definition DARrioGetAssmblyInfo :: "'h host \<Rightarrow> 'h dev \<Rightarrow> u32 \<times> u32 \<times> u16 option \<times> 'h dev" where
  "DARrioGetAssmblyInfo P s =
     (if \<not> VALIDATE_DEV_INFO (dev_info s) then (DAR_DB_INVALID_HANDLE, 0, None, s)
      else
        (let (rc, vend, s1) = DARRegRead P 0x08 s in
         if rc \<noteq> RIO_SUCCESS then (rc, vend, None, s1)
         else
           (let (rc, temp, s2) = DARRegRead P 0x0C s1
            in (rc, vend, if rc = RIO_SUCCESS then Some (ucast (drop_bit 16 (temp AND 0xFFFF0000))) else None, s2))))"

text \<open>The function that keeps the recorded control registers up to date, which nothing calls. A port number is a byte.\<close>

definition update_dev_info_regvals :: "u32 \<Rightarrow> u32 \<Rightarrow> DAR_DEV_INFO_t \<Rightarrow> u32 \<times> DAR_DEV_INFO_t" where
  "update_dev_info_regvals oset reg_val d =
     (let b = extFPtrForPort d; t = extFPtrPortType d; n = ucast (NUM_PORTS d) :: u32 in
      if b \<noteq> 0 \<and> RIO_SP_VLD t \<and> RIO_SPX_CTL b t 0 \<le> oset \<and> oset \<le> RIO_SPX_CTL b t (n - 1) \<and>
         (oset AND 0x1C = 0x1C \<and> \<not> RIO_SP3_VLD t \<or> oset AND 0x3C = 0x3C \<and> RIO_SP3_VLD t) then
        (let idx = ucast ((oset - RIO_SPX_CTL b t 0) div RIO_SP_STEP t) :: u8
         in if NUM_PORTS d \<le> idx then (RIO_ERR_SW_FAILURE, d)
            else (RIO_SUCCESS, d\<lparr>ctl1_reg := (ctl1_reg d)[unat idx := reg_val]\<rparr>))
      else (RIO_SUCCESS, d))"

section \<open>Ports\<close>

definition port_exists :: "u8 \<Rightarrow> DAR_DEV_INFO_t \<Rightarrow> bool" where
  "port_exists p d \<longleftrightarrow> p = 0 \<or> (ucast p :: u32) < drop_bit 8 (swPortInfo d AND 0xFF00)"

definition DARrioGetPortErrorStatus :: "'h host \<Rightarrow> u8 \<Rightarrow> 'h dev \<Rightarrow> u32 \<times> u32 \<times> 'h dev" where
  "DARrioGetPortErrorStatus P portnum s =
     (let d = dev_info s in
      if \<not> VALIDATE_DEV_INFO d then (DAR_DB_INVALID_HANDLE, 0, s)
      else if extFPtrForPort d = 0 then (RIO_ERR_FEATURE_NOT_SUPPORTED, 0, s)
      else if \<not> port_exists portnum d then (RIO_ERR_INVALID_PARAMETER, 0, s)
      else DARRegRead P (RIO_SPX_ERR_STAT (extFPtrForPort d) (extFPtrPortType d) (ucast portnum)) s)"

primrec poll_response :: "'h host \<Rightarrow> u32 \<Rightarrow> nat \<Rightarrow> 'h dev \<Rightarrow> u32 \<times> u32 \<times> 'h dev" where
  "poll_response P addr 0 s = (RIO_ERR_NOT_EXPECTED_RETURN_VALUE, 0, s)"
| "poll_response P addr (Suc n) s =
     (let (rc, link_stat, s1) = DARRegRead P addr s in
      if rc \<noteq> RIO_SUCCESS then (rc, link_stat, s1)
      else if link_stat AND 0x80000000 \<noteq> 0 then (rc, link_stat, s1)
      else if n = 0 then (RIO_ERR_NOT_EXPECTED_RETURN_VALUE, link_stat, s1)
      else poll_response P addr n s1)"

definition DARrioLinkReqNResp :: "'h host \<Rightarrow> u8 \<Rightarrow> 'h dev \<Rightarrow> u32 \<times> u32 \<times> 'h dev" where
  "DARrioLinkReqNResp P portnum s =
     (let d = dev_info s; b = extFPtrForPort d; t = extFPtrPortType d in
      if \<not> VALIDATE_DEV_INFO d then (DAR_DB_INVALID_HANDLE, 0, s)
      else if b = 0 then (RIO_ERR_FEATURE_NOT_SUPPORTED, 0, s)
      else if \<not> port_exists portnum d then (RIO_ERR_INVALID_PARAMETER, 0, s)
      else
        (let (rc, err_n_stat, s1) = DARRegRead P (RIO_SPX_ERR_STAT b t (ucast portnum)) s in
         if rc \<noteq> RIO_SUCCESS then (rc, 0, s1)
         else if err_n_stat AND 2 = 0 then (RIO_ERR_PORT_OK_NOT_DETECTED, 0, s1)
         else
           (let (rc, s2) = DARRegWrite P (RIO_SPX_LM_REQ b t (ucast portnum)) 4 s1 in
            if rc \<noteq> RIO_SUCCESS then (rc, 0, s2) else poll_response P (RIO_SPX_LM_RESP b t (ucast portnum)) 10 s2)))"

definition CPS_rioGetPortList :: "DAR_DEV_INFO_t \<Rightarrow> DAR_ptl \<Rightarrow> u32 \<times> DAR_ptl" where
  "CPS_rioGetPortList d ptl_in =
     (if DEV_CODE d = 0x0375 then
        (let n = num_ports ptl_in; none = \<lparr>num_ports = 0, pnums = []\<rparr> in
         if n > (if NUM_PORTS d > 18 then 18 else NUM_PORTS d) \<and> n \<noteq> RIO_ALL_PORTS then (RIO_ERR_INVALID_PARAMETER, none)
         else if n = 0 then (RIO_ERR_INVALID_PARAMETER, none)
         else if n = RIO_ALL_PORTS then (RIO_SUCCESS, \<lparr>num_ports = 14, pnums = map of_nat ([0..<8] @ [10..<16])\<rparr>)
         else
           (let ps = take (unat n) (pnums ptl_in); rc = ptl_check (NUM_PORTS d) 0 ps {8, 9}
            in (rc, if rc = RIO_SUCCESS then \<lparr>num_ports = n, pnums = ps\<rparr> else none)))
      else DARDB_rioGetPortList d ptl_in)"

definition DARrioGetPortList :: "DAR_DEV_INFO_t \<Rightarrow> DAR_ptl \<Rightarrow> u32 \<times> DAR_ptl" where
  "DARrioGetPortList d ptl_in =
     (if \<not> VALIDATE_DEV_INFO d then (DAR_DB_INVALID_HANDLE, \<lparr>num_ports = 0, pnums = []\<rparr>)
      else if driver_family d = RIO_CPS_DEVICE then CPS_rioGetPortList d ptl_in
      else DARDB_rioGetPortList d ptl_in)"

definition enable_bits :: "bool \<Rightarrow> bool \<Rightarrow> bool \<Rightarrow> u32 \<Rightarrow> u32" where
  "enable_bits port_ena port_lkout in_out_ena x =
     (let x1 = (if port_ena then x AND NOT RIO_SPX_CTL_PORT_DIS else x OR RIO_SPX_CTL_PORT_DIS);
          x2 = (if port_lkout then x1 OR RIO_SPX_CTL_LOCKOUT else x1 AND NOT RIO_SPX_CTL_LOCKOUT)
      in if in_out_ena then x2 OR (RIO_SPX_CTL_INP_EN OR RIO_SPX_CTL_OTP_EN) else x2 AND NOT (RIO_SPX_CTL_INP_EN OR RIO_SPX_CTL_OTP_EN))"

text \<open>The loop over the ports: a failed read ends it, while the result of a write is that of the call only for the last port.\<close>

primrec port_enable_from :: "'h host \<Rightarrow> (u32 \<Rightarrow> u32) \<Rightarrow> u8 list \<Rightarrow> u32 \<times> 'h dev \<Rightarrow> u32 \<times> 'h dev" where
  "port_enable_from P f [] st = st"
| "port_enable_from P f (p # ps) st =
     (let (rc, x, s1) = DARRegRead P (port_ctl (dev_info (snd st)) p) (snd st) in
      if rc \<noteq> RIO_SUCCESS then (rc, s1)
      else port_enable_from P f ps (DARRegWrite P (port_ctl (dev_info s1) p) (f x) s1))"

definition DARrioPortEnable :: "'h host \<Rightarrow> DAR_ptl \<Rightarrow> bool \<Rightarrow> bool \<Rightarrow> bool \<Rightarrow> 'h dev \<Rightarrow> u32 \<times> 'h dev" where
  "DARrioPortEnable P ptl port_ena port_lkout in_out_ena s =
     (if \<not> VALIDATE_DEV_INFO (dev_info s) then (DAR_DB_INVALID_HANDLE, s)
      else
        (let (rc, good_ptl) = DARrioGetPortList (dev_info s) ptl
         in if rc \<noteq> RIO_SUCCESS then (rc, s)
            else port_enable_from P (enable_bits port_ena port_lkout in_out_ena) (take (unat (num_ports good_ptl)) (pnums good_ptl)) (rc, s)))"

definition DARrioEmergencyLockout :: "'h host \<Rightarrow> u8 \<Rightarrow> 'h dev \<Rightarrow> u32 \<times> 'h dev" where
  "DARrioEmergencyLockout P port_num s =
     (let d = dev_info s in
      if \<not> VALIDATE_DEV_INFO d then (DAR_DB_INVALID_HANDLE, s)
      else if extFPtrForPort d \<noteq> 0 \<and> RIO_SP_VLD (extFPtrPortType d) \<and> port_num < NUM_PORTS d then
        DARRegWrite P (port_ctl d port_num) (ctl1_reg d ! unat port_num OR RIO_SPX_CTL_LOCKOUT) s
      else (RIO_ERR_INVALID_PARAMETER, s))"

section \<open>Enumeration boundaries\<close>

definition enum_bits :: "bool \<Rightarrow> u32 \<Rightarrow> u32" where
  "enum_bits enum_bnd x = (if enum_bnd then x OR RIO_SPX_CTL_ENUM_B else x AND NOT RIO_SPX_CTL_ENUM_B)"

text \<open>The loop of \<open>DARDB_rioSetEnumBound\<close>: every port is visited, and the result is that of the last one.\<close>

definition set_enum_port :: "'h host \<Rightarrow> bool \<Rightarrow> u8 \<Rightarrow> 'h dev \<Rightarrow> u32 \<times> 'h dev" where
  "set_enum_port P enum_bnd p s =
     (let (rc, currCSR, s1) = DARRegRead P (port_ctl (dev_info s) p) s; tempCSR = enum_bits enum_bnd currCSR in
      if rc \<noteq> RIO_SUCCESS \<or> tempCSR = currCSR then (rc, s1)
      else
        (let (rc, s2) = DARRegWrite P (port_ctl (dev_info s1) p) tempCSR s1 in
         if rc \<noteq> RIO_SUCCESS then (rc, s2)
         else
           (let (rc, tempCSR, s3) = DARRegRead P (port_ctl (dev_info s2) p) s2
            in (if tempCSR \<noteq> currCSR then RIO_ERR_FEATURE_NOT_SUPPORTED else rc, s3))))"

definition DARDB_rioSetEnumBound :: "'h host \<Rightarrow> DAR_ptl \<Rightarrow> bool \<Rightarrow> 'h dev \<Rightarrow> u32 \<times> 'h dev" where
  "DARDB_rioSetEnumBound P ptl enum_bnd s =
     (if extFPtrForPort (dev_info s) = 0 then (RIO_ERR_FEATURE_NOT_SUPPORTED, s)
      else
        (let (rc, good_ptl) = DARrioGetPortList (dev_info s) ptl
         in if rc \<noteq> RIO_SUCCESS then (rc, s)
            else fold (\<lambda>p st. set_enum_port P enum_bnd p (snd st)) (take (unat (num_ports good_ptl)) (pnums good_ptl)) (rc, s)))"

definition RXS_SPX_CTL :: "u32 \<Rightarrow> u32" where
  "RXS_SPX_CTL X = 0x015C + 0x40 * X"

text \<open>The value that is written is the one that was read, not the new one.\<close>

primrec rxs_set_enum_from :: "'h host \<Rightarrow> bool \<Rightarrow> u8 list \<Rightarrow> 'h dev \<Rightarrow> u32 \<times> 'h dev" where
  "rxs_set_enum_from P enum_bnd [] s = (RIO_SUCCESS, s)"
| "rxs_set_enum_from P enum_bnd (p # ps) s =
     (let (rc, spx_ctl, s1) = DARRegRead P (RXS_SPX_CTL (ucast p)) s in
      if rc \<noteq> RIO_SUCCESS then (rc, s1)
      else
        (let (rc, s2) = (if enum_bits enum_bnd spx_ctl \<noteq> spx_ctl then DARRegWrite P (RXS_SPX_CTL (ucast p)) spx_ctl s1 else (rc, s1))
         in if rc \<noteq> RIO_SUCCESS then (rc, s2) else rxs_set_enum_from P enum_bnd ps s2))"

definition rxs_rioSetEnumBound :: "'h host \<Rightarrow> DAR_ptl \<Rightarrow> bool \<Rightarrow> 'h dev \<Rightarrow> u32 \<times> 'h dev" where
  "rxs_rioSetEnumBound P ptl enum_bnd s =
     (let (rc, good_ptl) = DARrioGetPortList (dev_info s) ptl
      in if rc \<noteq> RIO_SUCCESS then (rc, s) else rxs_set_enum_from P enum_bnd (take (unat (num_ports good_ptl)) (pnums good_ptl)) s)"

definition DARrioSetEnumBound :: "'h host \<Rightarrow> DAR_ptl \<Rightarrow> bool \<Rightarrow> 'h dev \<Rightarrow> u32 \<times> 'h dev" where
  "DARrioSetEnumBound P ptl enum_bnd s =
     (if \<not> VALIDATE_DEV_INFO (dev_info s) then (DAR_DB_INVALID_HANDLE, s)
      else if driver_family (dev_info s) = RIO_RXS_DEVICE then rxs_rioSetEnumBound P ptl enum_bnd s
      else DARDB_rioSetEnumBound P ptl enum_bnd s)"

section \<open>The chain of extended features\<close>

text \<open>
  The blocks that the headers \<open>v\<close> link together from address \<open>a\<close> on, up to the end of the list or up to a header of all
  ones, with the result that either end gives.
\<close>

inductive efb_chain :: "(u32 \<Rightarrow> u32) \<Rightarrow> u32 \<Rightarrow> u32 list \<Rightarrow> u32 \<Rightarrow> bool" for v where
  finish: "efb_chain v 0 [] RIO_SUCCESS"
| bad: "a \<noteq> 0 \<Longrightarrow> v a = 0xFFFFFFFF \<Longrightarrow> efb_chain v a [] RIO_ERR_ACCESS"
| link: "a \<noteq> 0 \<Longrightarrow> v a \<noteq> 0xFFFFFFFF \<Longrightarrow> efb_chain v (drop_bit 16 (v a)) as rc \<Longrightarrow> efb_chain v a (a # as) rc"

inductive_simps efb_chain_Nil: "efb_chain v a [] rc"
inductive_simps efb_chain_Cons: "efb_chain v a (b # as) rc"

abbreviation (input) record_blocks :: "(u32 \<Rightarrow> u32) \<Rightarrow> u32 list \<Rightarrow> DAR_DEV_INFO_t \<Rightarrow> DAR_DEV_INFO_t" where
  "record_blocks v as \<equiv> fold (\<lambda>a. record_block (v a) a) as"

text \<open>
  What the walk along the blocks \<open>as\<close> leaves in a description: each pointer is the address of the last block whose type
  is among those of the pointer, and is as before when there is none; blocks of other types leave no trace.
\<close>

definition efb_last :: "(u32 \<Rightarrow> u32) \<Rightarrow> u32 list \<Rightarrow> u32 set \<Rightarrow> u32 option" where
  "efb_last r as T = find (\<lambda>a. r a AND 0xFFFF \<in> T) (rev as)"

definition efb_found :: "(u32 \<Rightarrow> u32) \<Rightarrow> u32 list \<Rightarrow> DAR_DEV_INFO_t \<Rightarrow> DAR_DEV_INFO_t" where
  "efb_found r as d =
     (let last_of = (\<lambda>T x. case efb_last r as T of None \<Rightarrow> x | Some a \<Rightarrow> a); ports = {0x1, 0x2, 0x3, 0x9, 0x11, 0x12, 0x13, 0x19} in
      d\<lparr>extFPtrForPort := last_of ports (extFPtrForPort d),
        extFPtrPortType := (case efb_last r as ports of None \<Rightarrow> extFPtrPortType d | Some a \<Rightarrow> r a AND 0xFFFF),
        extFPtrForErr := last_of {0x7} (extFPtrForErr d), extFPtrForHS := last_of {0x17} (extFPtrForHS d),
        extFPtrForLane := last_of {0xD} (extFPtrForLane d), extFPtrForVC := last_of {0xA} (extFPtrForVC d),
        extFPtrForVOQ := last_of {0xB} (extFPtrForVOQ d), extFPtrForRT := last_of {0xE} (extFPtrForRT d),
        extFPtrForTS := last_of {0xF} (extFPtrForTS d), extFPtrForMISC := last_of {0x10} (extFPtrForMISC d)\<rparr>)"

lemma efb_last_simps: "efb_last r [] T = None" "efb_last r (as @ [a]) T = (if r a AND 0xFFFF \<in> T then Some a else efb_last r as T)"
  by (simp_all add: efb_last_def)

lemma record_blocks_found: "record_blocks r as d = efb_found r as d"
proof (induction as rule: rev_induct)
  case Nil
  show ?case
    by (simp add: efb_found_def efb_last_simps)
next
  case (snoc a as)
  then show ?case
    by (simp add: record_block_def efb_found_def efb_last_simps Let_def)
qed

lemma efb_chain_unique: "efb_chain v a as rc \<Longrightarrow> efb_chain v a as' rc' \<Longrightarrow> as = as' \<and> rc = rc'"
proof (induction arbitrary: as' rc' rule: efb_chain.induct)
  case (link a as rc)
  from link.prems link.hyps(1,2) obtain bs where "as' = a # bs" "efb_chain v (drop_bit 16 (v a)) bs rc'"
    by (cases rule: efb_chain.cases) auto
  with link.IH show ?case
    by blast
qed (cases rule: efb_chain.cases; simp)+

lemma efb_chain_suffix: "efb_chain v a as rc \<Longrightarrow> b \<in> set as \<Longrightarrow> \<exists>bs. efb_chain v b (b # bs) rc \<and> length bs < length as"
proof (induction rule: efb_chain.induct)
  case (link a as rc)
  show ?case
  proof (cases "b = a")
    case True
    then show ?thesis
      using efb_chain.link [OF link.hyps] by (intro exI [of _ as]) simp
  next
    case False
    then show ?thesis
      using link.IH link.prems by (auto intro: less_SucI)
  qed
qed simp_all

text \<open>A list of blocks that ends has no block twice.\<close>

lemma efb_chain_distinct: "efb_chain v a as rc \<Longrightarrow> distinct as"
proof (induction rule: efb_chain.induct)
  case (link a as rc)
  have "a \<notin> set as"
  proof
    assume "a \<in> set as"
    with efb_chain_suffix [OF link.hyps(3)] obtain bs where "efb_chain v a (a # bs) rc" "length bs < length as"
      by blast
    with efb_chain_unique [OF efb_chain.link [OF link.hyps]] show False
      by blast
  qed
  with link.IH show ?case
    by simp
qed simp_all

text \<open>Registers that can be read without failure and without effect.\<close>

definition regs_read :: "('h \<Rightarrow> u32 \<Rightarrow> u32) \<Rightarrow> DAR_DEV_INFO_t \<Rightarrow> u32 \<Rightarrow> 'h \<Rightarrow> u32 \<times> u32 \<times> 'h" where
  "regs_read v d a h = (RIO_SUCCESS, v h a, h)"

lemma walk_step:
  assumes "a \<noteq> 0" and "v (hw s) a \<noteq> 0xFFFFFFFF"
  shows "ext_features_walk (regs_read v) a s =
    ext_features_walk (regs_read v) (drop_bit 16 (v (hw s) a)) (s\<lparr>dev_info := record_block (v (hw s) a) a (dev_info s)\<rparr>)"
  using assms by (subst ext_features_walk.simps) (simp add: regs_read_def)

lemma walk_chain:
  assumes "efb_chain (v (hw s)) a as rc"
  shows "ext_features_walk (regs_read v) a s = Some (rc, s\<lparr>dev_info := record_blocks (v (hw s)) as (dev_info s)\<rparr>)"
proof -
  have "efb_chain w a as rc \<Longrightarrow> w = v (hw s) \<Longrightarrow> ext_features_walk (regs_read v) a s = Some (rc, s\<lparr>dev_info := record_blocks w as (dev_info s)\<rparr>)" for w
  proof (induction arbitrary: s rule: efb_chain.induct)
    case (link a as rc)
    from link.IH [of "s\<lparr>dev_info := record_block (w a) a (dev_info s)\<rparr>"] link.hyps(1,2) link.prems show ?case
      by (simp add: walk_step)
  qed (subst ext_features_walk.simps; simp add: regs_read_def)+
  with assms show ?thesis
    by blast
qed

lemma walk_returns:
  assumes "ext_features_walk (regs_read v) a s = Some r"
  shows "\<exists>as. efb_chain (v (hw s)) a as (fst r)"
proof (rule ext_features_walk.raw_induct [of "\<lambda>rd a s r. rd = regs_read v \<longrightarrow> (\<exists>as. efb_chain (v (hw s)) a as (fst r))", THEN mp, OF _ assms refl], rule impI)
  fix walk rd a s and r :: "u32 \<times> 'a dev"
  assume IH: "\<And>rd a s r. walk rd a s = Some r \<Longrightarrow> rd = regs_read v \<longrightarrow> (\<exists>as. efb_chain (v (hw s)) a as (fst r))"
    and body: "(if a = 0 then Some (RIO_SUCCESS, s)
      else
        (let (rc, x, h') = rd (dev_info s) a (hw s) in
         if rc \<noteq> RIO_SUCCESS then Some (rc, s\<lparr>hw := h'\<rparr>)
         else if x = 0xFFFFFFFF then Some (RIO_ERR_ACCESS, s\<lparr>hw := h'\<rparr>)
         else walk rd (drop_bit 16 x) (s\<lparr>dev_info := record_block x a (dev_info s), hw := h'\<rparr>))) = Some r"
    and rd: "rd = regs_read v"
  consider "a = 0" | "a \<noteq> 0" "v (hw s) a = 0xFFFFFFFF" | "a \<noteq> 0" "v (hw s) a \<noteq> 0xFFFFFFFF"
    by blast
  then show "\<exists>as. efb_chain (v (hw s)) a as (fst r)"
  proof cases
    case 3
    then have "walk rd (drop_bit 16 (v (hw s) a)) (s\<lparr>dev_info := record_block (v (hw s) a) a (dev_info s), hw := hw s\<rparr>) = Some r"
      using body rd by (simp add: regs_read_def)
    from IH [OF this] rd 3 show ?thesis
      by (auto intro: efb_chain.link)
  qed (use body rd in \<open>auto simp: regs_read_def efb_chain_Nil intro!: exI [of _ "[]"]\<close>)
qed

lemma walk_iff:
  "ext_features_walk (regs_read v) a s = Some (rc, s') \<longleftrightarrow>
     (\<exists>as. efb_chain (v (hw s)) a as rc \<and> distinct as \<and> s' = s\<lparr>dev_info := record_blocks (v (hw s)) as (dev_info s)\<rparr>)"
proof
  assume w: "ext_features_walk (regs_read v) a s = Some (rc, s')"
  from walk_returns [OF w] obtain as where "efb_chain (v (hw s)) a as rc"
    by auto
  with w show "\<exists>as. efb_chain (v (hw s)) a as rc \<and> distinct as \<and> s' = s\<lparr>dev_info := record_blocks (v (hw s)) as (dev_info s)\<rparr>"
    by (auto simp: walk_chain dest: efb_chain_distinct)
qed (auto simp: walk_chain)

lemma walk_cases: "ext_features_walk (regs_read v) a s = None \<longleftrightarrow> (\<nexists>as rc. efb_chain (v (hw s)) a as rc)"
  using walk_returns [of v a s] walk_chain [of v s a] by (cases "ext_features_walk (regs_read v) a s") fastforce+

text \<open>A block that links to itself is never left.\<close>

lemma efb_loop:
  assumes "a \<noteq> 0" and "v a \<noteq> 0xFFFFFFFF" and "drop_bit 16 (v a) = a"
  shows "\<not> efb_chain v a as rc"
proof
  assume "efb_chain v a as rc"
  with efb_chain.link [of a v as rc] assms efb_chain_unique [of v a as rc "a # as" rc] show False
    by simp
qed


text \<open>The capability registers \<open>r\<close> as they are recorded. An endpoint without a port register counts as one port.\<close>

definition capabilities :: "(u32 \<Rightarrow> u32) \<Rightarrow> DAR_DEV_INFO_t \<Rightarrow> DAR_DEV_INFO_t" where
  "capabilities r d =
     d\<lparr>devID := r 0x00, driver_family := rio_get_driver_family (r 0x00), devInfo := r 0x04, assyInfo := r 0x0C, features := r 0x10,
       swPortInfo := (if r 0x14 = 0 then 0x100 else r 0x14), swRtInfo := (if r 0x10 AND RIO_PE_FEAT_SW \<noteq> 0 then r 0x34 else swRtInfo d),
       srcOps := r 0x18, dstOps := r 0x1C, swMcastInfo := (if r 0x10 AND 0x400 \<noteq> 0 then r 0x38 else swMcastInfo d)\<rparr>"

lemma read_capabilities_regs: "read_capabilities (regs_read v) s = (RIO_SUCCESS, s\<lparr>dev_info := capabilities (v (hw s)) (dev_info s)\<rparr>)"
  by (simp add: read_capabilities_def read_into_def read_into_if_def regs_read_def capabilities_def Let_def)

lemma rio_get_driver_family_init: "rio_get_driver_family i \<noteq> RIO_UNITIALIZED_DEVICE"
  by (simp add: rio_get_driver_family_def Let_def)

section \<open>Ports under stable registers\<close>

text \<open>What a register write leaves of the device description.\<close>

lemma poreg_store_fields [simp]:
  "extFPtrForPort (poreg_store oset x d) = extFPtrForPort d" "extFPtrPortType (poreg_store oset x d) = extFPtrPortType d"
  "swPortInfo (poreg_store oset x d) = swPortInfo d" "ctl1_reg (poreg_store oset x d) = ctl1_reg d"
  by (simp_all add: poreg_store_def split: option.split)

lemma port_ctl_poreg_store [simp]: "port_ctl (poreg_store oset x d) p = port_ctl d p"
  by (simp add: port_ctl_def)

lemma port_ctl_inj:
  assumes "RIO_SP_VLD (extFPtrPortType d)"
  shows "port_ctl d p = port_ctl d q \<longleftrightarrow> p = q"
proof
  assume eq: "port_ctl d p = port_ctl d q"
  have u: "unat (ucast p :: u32) = unat p" "unat p < 256" for p :: u8
    using unsigned_less [of p, where ?'a = nat] by (simp_all add: unsigned_ucast_eq take_bit_nat_eq_self)
  have "RIO_SP_STEP (extFPtrPortType d) * ucast p = RIO_SP_STEP (extFPtrPortType d) * ucast q"
    using eq assms by (simp add: port_ctl_def RIO_SPX_CTL_def)
  then have "unat (RIO_SP_STEP (extFPtrPortType d)) * unat p = unat (RIO_SP_STEP (extFPtrPortType d)) * unat q"
    using u(2) [of p] u(2) [of q] by (auto simp: RIO_SP_STEP_def word_unat_eq_iff unat_word_ariths u(1) split: if_splits)
  then show "p = q"
    by (auto simp: RIO_SP_STEP_def word_unat_eq_iff split: if_splits)
qed simp

lemma ptl_check_listed:
  assumes "ptl_check n 0 (take (unat (k :: u8)) ps) seen = RIO_SUCCESS"
  shows "distinct (take (unat k) ps)"
proof (rule conjunct1 [OF ptl_check_success [OF assms]])
  have "length (take (unat k) ps) \<le> unat k"
    by simp
  also have "unat k < 256"
    using unsigned_less [of k, where ?'a = nat] by simp
  finally show "length (take (unat k) ps) + 0 < 0x70000000"
    by simp
qed

lemma port_list_distinct:
  assumes "DARrioGetPortList d ptl = (RIO_SUCCESS, out)"
  shows "distinct (pnums out)"
proof (cases "driver_family d = RIO_CPS_DEVICE \<and> DEV_CODE d = 0x0375")
  case True
  then have "pnums out = map of_nat ([0..<8] @ [10..<16]) \<or> pnums out = [] \<or>
      ptl_check (NUM_PORTS d) 0 (take (unat (num_ports ptl)) (pnums ptl)) {8, 9} = RIO_SUCCESS \<and> pnums out = take (unat (num_ports ptl)) (pnums ptl)"
    using assms unfolding DARrioGetPortList_def CPS_rioGetPortList_def Let_def by (simp only: split: if_splits prod.splits) fastforce+
  moreover have "distinct (map of_nat ([0..<8] @ [10..<16]) :: u8 list)"
    by code_simp
  ultimately show ?thesis
    using ptl_check_listed by (elim disjE conjE) (simp_all only: distinct.simps)
next
  case False
  with assms have "DARDB_rioGetPortList d ptl = (RIO_SUCCESS, out)"
    by (auto simp: DARrioGetPortList_def CPS_rioGetPortList_def split: if_splits)
  then have "pnums out = map of_nat [0..<unat (NUM_PORTS d)] \<or> pnums out = [] \<or>
      ptl_check (NUM_PORTS d) 0 (take (unat (num_ports ptl)) (pnums ptl)) {} = RIO_SUCCESS \<and> pnums out = take (unat (num_ports ptl)) (pnums ptl)"
    unfolding DARDB_rioGetPortList_def Let_def by (simp only: split: if_splits prod.splits) fastforce+
  then show ?thesis
    using all_ports_list(2) [of "NUM_PORTS d"] ptl_check_listed by (elim disjE conjE) (simp_all only: distinct.simps)
qed

lemma enable_masks:
  "RIO_SPX_CTL_PORT_DIS = push_bit 23 1" "RIO_SPX_CTL_LOCKOUT = push_bit 1 1" "RIO_SPX_CTL_INP_EN = push_bit 21 1" "RIO_SPX_CTL_OTP_EN = push_bit 22 1"
  by (simp_all add: push_bit_eq_mult)

lemma bit_enable_bits:
  "bit (enable_bits port_ena port_lkout in_out_ena x) i =
     (if i = 23 then \<not> port_ena else if i = 1 then port_lkout else if i = 21 \<or> i = 22 then in_out_ena else bit x i)"
proof (cases "i < 32")
  case True
  then show ?thesis
    unfolding enable_bits_def Let_def enable_masks
    by (cases port_ena; cases port_lkout; cases in_out_ena; simp only: bit_simps if_True if_False) auto
qed (auto dest: bit_imp_le_length)

context stable_registers
begin

lemma read_stable_reg:
  assumes "plain_family (dev_info s)" and "cache_coherent v C s" and "c \<in> C"
  shows "DARRegRead P c s = (RIO_SUCCESS, v (hw s) c, s)"
  using read_transparent(1) [OF assms(1,2), of c] assms(3) by (simp add: uncached_read_def host read_stable)

lemma write_reg:
  assumes "plain_family (dev_info s)" and "DARRegWrite P oset x s = (rc, s')"
  shows "dev_info s' = (if rc = RIO_SUCCESS then poreg_store oset x (dev_info s) else dev_info s)"
    and "wr (dev_info s) oset x (hw s) = (rc, hw s')"
  using assms by (auto simp: DARRegWrite_def plain_family_def Let_def host split: prod.splits)

lemma port_enable_from_effect:
  assumes "\<And>d c x h. c \<in> C \<Longrightarrow> fst (wr d c x h) = RIO_SUCCESS"
    and "plain_family (dev_info s)" and "cache_coherent v C s" and "distinct (map (port_ctl (dev_info s)) ps)"
    and "port_ctl (dev_info s) ` set ps \<subseteq> C"
  shows "\<exists>s'. port_enable_from P f ps (RIO_SUCCESS, s) = (RIO_SUCCESS, s') \<and> plain_family (dev_info s') \<and> cache_coherent v C s' \<and>
    (\<forall>c\<in>C. v (hw s') c = (if c \<in> port_ctl (dev_info s) ` set ps then f (v (hw s) c) else v (hw s) c))"
  using assms(2-5)
proof (induction ps arbitrary: s)
  case (Cons p ps)
  define c where "c = port_ctl (dev_info s) p"
  have c: "c \<in> C" "c \<notin> port_ctl (dev_info s) ` set ps"
    using Cons.prems(3,4) by (auto simp: c_def)
  obtain rc s1 where w: "DARRegWrite P c (f (v (hw s) c)) s = (rc, s1)"
    by (cases "DARRegWrite P c (f (v (hw s) c)) s")
  note w1 = write_reg [OF Cons.prems(1) w] and keeps = write_keeps_coherent(1,2) [OF Cons.prems(1,2) w]
  have rc: "rc = RIO_SUCCESS"
    using assms(1) [OF c(1), of "dev_info s" "f (v (hw s) c)" "hw s"] w1(2) by simp
  have ports: "port_ctl (dev_info s1) = port_ctl (dev_info s)"
    using w1(1) by (simp add: rc fun_eq_iff)
  have val: "v (hw s1) c' = (if c' = c then f (v (hw s) c) else v (hw s) c')" if "c' \<in> C" for c'
    using write_stores [OF w1(2) that] by (auto simp: rc)
  from Cons.IH [OF keeps(2,1)] Cons.prems(3,4) obtain s' where s': "port_enable_from P f ps (RIO_SUCCESS, s1) = (RIO_SUCCESS, s')"
    "plain_family (dev_info s')" "cache_coherent v C s'"
    "\<forall>c\<in>C. v (hw s') c = (if c \<in> port_ctl (dev_info s) ` set ps then f (v (hw s1) c) else v (hw s1) c)"
    by (auto simp: ports)
  have "port_enable_from P f (p # ps) (RIO_SUCCESS, s) = (RIO_SUCCESS, s')"
    using read_stable_reg [OF Cons.prems(1,2) c(1)] w s'(1) by (simp add: c_def [symmetric] rc)
  moreover have "\<forall>c'\<in>C. v (hw s') c' = (if c' \<in> port_ctl (dev_info s) ` set (p # ps) then f (v (hw s) c') else v (hw s) c')"
    using s'(4) val c(2) by (auto simp: c_def [symmetric])
  ultimately show ?case
    using s'(2,3) by blast
qed simp

end

section \<open>Properties\<close>

text \<open>
  C24. Discovery of a device. On a device whose registers can be read, \<open>DARDB_rioDeviceSupported\<close> records the capability
  registers. Where the device has extended features and the description was opened for the vendor of the device (else
  it returns \<open>DAR_DB_INVALID_HANDLE\<close>), it follows the list of extended features and records for each of the nine
  kinds of block it knows the address of the last block of this kind in the list, and for the port block its type;
  blocks of other types are passed over, and a pointer without a block keeps its old value. It returns exactly when the
  list ends: with success at a null link, with an error at a header of all ones, having visited no block twice. A list
  that leads back to one of its blocks is followed for ever.
\<close>

theorem discovery_follows_chain:
  "let r = v (hw s); d = capabilities r (dev_info s); first = r 0x0C AND 0xFFFF in
     (if r 0x10 AND 8 = 0 then DARDB_rioDeviceSupported (regs_read v) s = Some (RIO_SUCCESS, s\<lparr>dev_info := d\<rparr>)
      else if drop_bit 16 (dsf_h (dev_info s)) AND 0xFFFF \<noteq> r 0 AND 0xFFFF
      then DARDB_rioDeviceSupported (regs_read v) s = Some (DAR_DB_INVALID_HANDLE, s\<lparr>dev_info := d\<rparr>)
      else
        (DARDB_rioDeviceSupported (regs_read v) s = Some (rc, s') \<longleftrightarrow>
           (\<exists>as. efb_chain r first as rc \<and> distinct as \<and> s' = s\<lparr>dev_info := efb_found r as d\<rparr>)) \<and>
        (DARDB_rioDeviceSupported (regs_read v) s = None \<longleftrightarrow> (\<nexists>as rc. efb_chain r first as rc)))"
proof -
  define s1 where "s1 = s\<lparr>dev_info := capabilities (v (hw s)) (dev_info s)\<rparr>"
  have "VALIDATE_DEV_INFO (dev_info s1) \<longleftrightarrow> drop_bit 16 (dsf_h (dev_info s)) AND 0xFFFF = v (hw s) 0 AND 0xFFFF"
    "hw s1 = hw s" "features (dev_info s1) = v (hw s) 0x10" "assyInfo (dev_info s1) = v (hw s) 0x0C"
    using rio_get_driver_family_init by (simp_all add: s1_def capabilities_def VALIDATE_DEV_INFO_def)
  then show ?thesis
    using walk_iff [of v "v (hw s) 0x0C AND 0xFFFF" s1 rc s'] walk_cases [of v "v (hw s) 0x0C AND 0xFFFF" s1]
    by (simp add: DARDB_rioDeviceSupported_def DARrioGetExtFeaturesPtr_def read_capabilities_regs s1_def [symmetric] Let_def
        record_blocks_found) (simp add: s1_def)
qed

definition efb_example :: "u32 \<Rightarrow> u32" where
  "efb_example = (\<lambda>_. 0)(0 := 0x80E60038, 0x0C := 0x100, 0x10 := 8, 0x100 := 0x10000009, 0x1000 := 0x20000007, 0x2000 := 0x0000000D)"

theorem discovery_follows_chain_witness:
  "\<exists>s'. DARDB_rioDeviceSupported (regs_read (\<lambda>h. h)) \<lparr>dev_info = dev_zero\<lparr>dsf_h := 0x00380000\<rparr>, hw = efb_example\<rparr> = Some (RIO_SUCCESS, s') \<and>
     extFPtrForPort (dev_info s') = 0x100 \<and> extFPtrPortType (dev_info s') = 9 \<and> extFPtrForErr (dev_info s') = 0x1000 \<and>
     extFPtrForLane (dev_info s') = 0x2000"
proof -
  define s :: "(u32 \<Rightarrow> u32) dev" where "s = \<lparr>dev_info = dev_zero\<lparr>dsf_h := 0x00380000\<rparr>, hw = efb_example\<rparr>"
  define d where "d = efb_found efb_example [0x100, 0x1000, 0x2000] (capabilities efb_example (dev_info s))"
  have "efb_chain efb_example 0x100 [0x100, 0x1000, 0x2000] RIO_SUCCESS"
    by (simp add: efb_chain_Cons efb_chain_Nil efb_example_def)
  moreover have "drop_bit 16 (dsf_h (dev_info s)) AND 0xFFFF = hw s 0 AND 0xFFFF" "hw s = efb_example"
    by (simp_all add: s_def efb_example_def)
  ultimately have "DARDB_rioDeviceSupported (regs_read (\<lambda>h. h)) s = Some (RIO_SUCCESS, s\<lparr>dev_info := d\<rparr>)"
    using discovery_follows_chain [of "\<lambda>h. h" s RIO_SUCCESS "s\<lparr>dev_info := d\<rparr>"] by (auto simp: Let_def d_def efb_example_def)
  moreover have "extFPtrForPort d = 0x100" "extFPtrPortType d = 9" "extFPtrForErr d = 0x1000" "extFPtrForLane d = 0x2000"
    by (simp_all add: d_def efb_found_def efb_last_def efb_example_def)
  ultimately show ?thesis
    by (intro exI [of _ "s\<lparr>dev_info := d\<rparr>"]) (simp add: s_def)
qed

text \<open>
  C25. Enabling ports, on a CPS, RXS or unknown device whose port block has a known type. Where the port control registers are
  stable and can be written, and the register cache is coherent, \<open>DARrioPortEnable\<close> succeeds for every valid port list, sets or clears the disable, lockout and enable bits in the control register of each listed port
  as asked, keeping its other bits, and leaves every other stable register alone; the register cache stays coherent.
\<close>

theorem port_enable_effect:
  assumes "stable_registers P rd wr v C" and "\<And>d c x h. c \<in> C \<Longrightarrow> fst (wr d c x h) = RIO_SUCCESS"
    and "plain_family (dev_info s)" and "cache_coherent v C s" and "RIO_SP_VLD (extFPtrPortType (dev_info s))"
    and "DARrioGetPortList (dev_info s) ptl = (RIO_SUCCESS, out)"
    and "port_ctl (dev_info s) ` set (take (unat (num_ports out)) (pnums out)) \<subseteq> C"
  shows "let (rc, s') = DARrioPortEnable P ptl port_ena port_lkout in_out_ena s; ports = set (take (unat (num_ports out)) (pnums out)) in
     rc = RIO_SUCCESS \<and> cache_coherent v C s' \<and>
     (\<forall>p\<in>ports. \<forall>i. let x = v (hw s) (port_ctl (dev_info s) p); y = v (hw s') (port_ctl (dev_info s) p) in
        bit y i = (if i = 23 then \<not> port_ena else if i = 1 then port_lkout else if i = 21 \<or> i = 22 then in_out_ena else bit x i)) \<and>
     (\<forall>c\<in>C. c \<notin> port_ctl (dev_info s) ` ports \<longrightarrow> v (hw s') c = v (hw s) c)"
proof -
  define ps where "ps = take (unat (num_ports out)) (pnums out)"
  define f where "f = enable_bits port_ena port_lkout in_out_ena"
  have "distinct (map (port_ctl (dev_info s)) ps)"
    using port_list_distinct [OF assms(6)] port_ctl_inj [OF assms(5)] by (auto simp: ps_def distinct_map inj_on_def)
  then obtain s' where s': "port_enable_from P f ps (RIO_SUCCESS, s) = (RIO_SUCCESS, s')" "cache_coherent v C s'"
    "\<And>c. c \<in> C \<Longrightarrow> v (hw s') c = (if c \<in> port_ctl (dev_info s) ` set ps then f (v (hw s) c) else v (hw s) c)"
    using stable_registers.port_enable_from_effect [OF assms(1-4), of ps f] assms(7) by (auto simp: ps_def)
  have "DARrioPortEnable P ptl port_ena port_lkout in_out_ena s = (RIO_SUCCESS, s')"
    using assms(3,6) s'(1) by (simp add: DARrioPortEnable_def plain_family_def ps_def f_def)
  moreover have "\<forall>p\<in>set ps. v (hw s') (port_ctl (dev_info s) p) = f (v (hw s) (port_ctl (dev_info s) p))"
    using s'(3) assms(7) by (auto simp: ps_def)
  ultimately show ?thesis
    using s'(2,3) by (auto simp: ps_def [symmetric] f_def Let_def bit_enable_bits)
qed

definition ports_example :: "(u32 \<Rightarrow> u32) dev" where
  "ports_example = \<lparr>dev_info = (switch_example [])\<lparr>extFPtrForPort := 0x100, extFPtrPortType := 9\<rparr>, hw = (\<lambda>_. 0x00800001)\<rparr>"

theorem port_enable_effect_witness:
  "let s' = snd (DARrioPortEnable mem_host \<lparr>num_ports = 2, pnums = [4, 0]\<rparr> True False True ports_example) in
   \<not> bit (hw s' 0x1DC) 23 \<and> bit (hw s' 0x1DC) 21 \<and> bit (hw s' 0x1DC) 0 \<and> hw s' 0x1FC = 0x00800001"
proof -
  have valid: "plain_family (dev_info ports_example)" "cache_coherent (\<lambda>h. h) UNIV ports_example" "RIO_SP_VLD (extFPtrPortType (dev_info ports_example))"
    by (simp_all add: ports_example_def switch_example_def plain_family_def VALIDATE_DEV_INFO_def RIO_SP_VLD_def
        cache_coherent_def DAR_get_poreg_idx_def)
  have lst: "DARrioGetPortList (dev_info ports_example) \<lparr>num_ports = 2, pnums = [4, 0]\<rparr> = (RIO_SUCCESS, \<lparr>num_ports = 2, pnums = [4, 0]\<rparr>)"
    by (simp add: DARrioGetPortList_def DARDB_rioGetPortList_def VALIDATE_DEV_INFO_def ports_example_def switch_example_def NUM_PORTS_def Let_def)
  have ctl: "port_ctl (dev_info ports_example) 4 = 0x1DC" "port_ctl (dev_info ports_example) 0 = 0x15C" "hw ports_example c = 0x00800001" for c
    by (simp_all add: port_ctl_def RIO_SPX_CTL_def RIO_SP_STEP_def RIO_SP_VLD_def RIO_SP3_VLD_def ports_example_def)
  have "bit (0x00800001 :: u32) 0"
    by simp
  with port_enable_effect [OF mem.stable_registers_axioms _ valid lst, of True False True] show ?thesis
    by (auto simp: Let_def ctl split: prod.splits)
qed

section \<open>Defects\<close>

text \<open>
  The registers of a Tsi57x switch are never accepted, because the initialisation of its register copies fails. For an RXS
  switch the enumeration boundary is never changed, because the value written back is the one that was read. For other
  devices the change is made and reported as an error. The emergency lockout writes the control register as it was when
  the device was found, not as it is: writes are not recorded.
\<close>

lemma tsi57x_never_supported:
  assumes "tsi57x_rioDeviceSupported rd s = Some (rc, s')"
  shows "rc \<noteq> RIO_SUCCESS"
proof -
  have fails: "fst (tsi57x_init_scratchpad rd s) \<noteq> RIO_SUCCESS" for s
    unfolding tsi57x_init_scratchpad_def by (rule init_scratchpad_marker) (simp add: scratchpad_const_def)
  have "rc = RIO_SUCCESS \<Longrightarrow> \<exists>s1. fst (tsi57x_init_scratchpad rd s1) = RIO_SUCCESS"
    using assms by (auto simp: tsi57x_rioDeviceSupported_def Let_def split: if_splits option.splits prod.splits) (metis fst_conv)
  with fails show ?thesis
    by blast
qed

lemma emergency_lockout_stale:
  assumes "plain_family (dev_info s)" and "DARRegWrite P oset x s = (rc, s')" and "port < NUM_PORTS (dev_info s)"
    and "extFPtrForPort (dev_info s) \<noteq> 0" and "RIO_SP_VLD (extFPtrPortType (dev_info s))"
  shows "DARrioEmergencyLockout P port s' =
    DARRegWrite P (port_ctl (dev_info s) port) (ctl1_reg (dev_info s) ! unat port OR RIO_SPX_CTL_LOCKOUT) s'"
proof -
  have "dev_info s' = dev_info s \<or> dev_info s' = poreg_store oset x (dev_info s)"
    using assms(1,2) by (auto simp: DARRegWrite_def plain_family_def Let_def split: option.splits prod.splits if_splits)
  moreover have "VALIDATE_DEV_INFO (poreg_store oset x (dev_info s))" "NUM_PORTS (poreg_store oset x (dev_info s)) = NUM_PORTS (dev_info s)"
    using assms(1) by (simp_all add: plain_family_def VALIDATE_DEV_INFO_def NUM_PORTS_def poreg_store_def split: option.split)
  ultimately show ?thesis
    using assms by (auto simp: DARrioEmergencyLockout_def plain_family_def port_ctl_def Let_def)
qed

context stable_registers
begin

lemma rxs_enum_bound_unchanged:
  assumes "plain_family (dev_info s)" and "cache_coherent v C s" and "\<And>X. RXS_SPX_CTL X \<in> C"
    and "rxs_set_enum_from P enum_bnd ps s = (rc, s')" and "c \<in> C"
  shows "v (hw s') c = v (hw s) c"
  using assms(1,2,4)
proof (induction ps arbitrary: s)
  case (Cons p ps)
  define r where "r = RXS_SPX_CTL (ucast p)"
  have rd: "DARRegRead P r s = (RIO_SUCCESS, v (hw s) r, s)"
    using read_stable_reg [OF Cons.prems(1,2) assms(3)] by (simp add: r_def)
  obtain rc1 s1 where w: "DARRegWrite P r (v (hw s) r) s = (rc1, s1)"
    by (cases "DARRegWrite P r (v (hw s) r) s")
  note keeps = write_keeps_coherent(1,2) [OF Cons.prems(1,2) w]
  have same: "v (hw s1) c = v (hw s) c"
    using write_stores [OF write_reg(2) [OF Cons.prems(1) w] assms(5)] by auto
  show ?case
    using Cons.prems(3) Cons.IH [OF Cons.prems(1,2)] Cons.IH [OF keeps(2,1)] same by (auto simp: r_def [symmetric] rd w split: if_splits)
qed simp

lemma enum_bound_reported:
  assumes "\<And>d c x h. c \<in> C \<Longrightarrow> fst (wr d c x h) = RIO_SUCCESS" and "plain_family (dev_info s)" and "cache_coherent v C s"
    and "port_ctl (dev_info s) p \<in> C" and "set_enum_port P enum_bnd p s = (rc, s')"
  shows "v (hw s') (port_ctl (dev_info s) p) = enum_bits enum_bnd (v (hw s) (port_ctl (dev_info s) p))"
    and "rc = (if v (hw s') (port_ctl (dev_info s) p) \<noteq> v (hw s) (port_ctl (dev_info s) p) then RIO_ERR_FEATURE_NOT_SUPPORTED else RIO_SUCCESS)"
proof -
  define c where "c = port_ctl (dev_info s) p"
  define x where "x = v (hw s) c"
  have c: "c \<in> C"
    using assms(4) by (simp add: c_def)
  have rd: "DARRegRead P c s = (RIO_SUCCESS, x, s)"
    using read_stable_reg [OF assms(2,3) c] by (simp add: x_def)
  obtain rc1 s1 where w: "DARRegWrite P c (enum_bits enum_bnd x) s = (rc1, s1)"
    by (cases "DARRegWrite P c (enum_bits enum_bnd x) s")
  note w1 = write_reg [OF assms(2) w] and keeps = write_keeps_coherent(1,2) [OF assms(2,3) w]
  have rc1: "rc1 = RIO_SUCCESS"
    using assms(1) [OF c] w1(2) by (metis fst_conv)
  have val: "v (hw s1) c = enum_bits enum_bnd x"
    using write_stores [OF w1(2) c] rc1 by simp
  have "port_ctl (dev_info s1) p = c"
    using w1(1) rc1 by (simp add: c_def)
  then have "(rc, s') = (if enum_bits enum_bnd x = x then (RIO_SUCCESS, s) else (RIO_ERR_FEATURE_NOT_SUPPORTED, s1))"
    using assms(5) read_stable_reg [OF keeps(2,1) c] rc1 val
    by (simp add: set_enum_port_def c_def [symmetric] rd w Let_def split: if_splits)
  then show "v (hw s') (port_ctl (dev_info s) p) = enum_bits enum_bnd (v (hw s) (port_ctl (dev_info s) p))"
    and "rc = (if v (hw s') (port_ctl (dev_info s) p) \<noteq> v (hw s) (port_ctl (dev_info s) p) then RIO_ERR_FEATURE_NOT_SUPPORTED else RIO_SUCCESS)"
    using val by (simp_all add: c_def [symmetric] x_def [symmetric] split: if_splits)
qed

end

end
