(* ===== verification/Pe_Handle.thy ===== *)
theory Pe_Handle
  imports Rio_Ct Dar_Dev Tok_Parse "HOL-Library.Monad_Syntax"
begin

unbundle bit_operations_syntax

text \<open>
  Handles of processing elements, \<^verbatim>\<open>fabric_management/libriocp_pe/src/handle.c\<close> and \<^verbatim>\<open>llist.c\<close>, with the parts of \<^verbatim>\<open>pe.c\<close> and \<^verbatim>\<open>riocp_pe.c\<close> that only use the handles.

  A handle is the address of a \<open>struct riocp_pe\<close>; the structures are kept in the map \<open>pes\<close>, in which a freed one is \<open>None\<close>. A pointer is an optional
  address. The information on a master port, the array of peers, the group of device identifiers and the private data of the driver belong to one
  processing element and are fields of it. A chain of list items is the list of their data, with that of the static head item, which is null, in front.
  Operations are in the option monad, \<open>None\<close> being undefined behaviour: a null or dangling pointer, an index outside of an array or a static object
  that is freed. The success of \<open>calloc\<close> and the addresses it returns are arguments. The functions of the master port library and those functions
  of the driver \<^verbatim>\<open>libpe_mpdrv\<close> that configure a device are fields of the record \<open>mgmt\<close>, an argument; \<open>'h\<close> is the state of the fabric.
\<close>

section \<open>Data\<close>

type_synonym handle = nat

record riocp_pe_capabilities =
  cap_dev_id :: u32
  cap_dev_info :: u32
  asbly_id :: u32
  asbly_info :: u32
  pe_feat :: u32
  sw_port :: u32
  src_op :: u32
  dst_op :: u32
  lut_size :: u32

record riocp_pe_peer =
  peer :: "handle option"
  remote_port :: u8

record riocp_pe_mport =
  mp_ref :: u32
  mp_id :: u8
  is_host :: bool
  any_id_target :: "handle option"
  handles :: "handle option list"
  acc_info :: "bool option"

record mpsw_drv_private_data =
  dev_h_valid :: bool
  dev_h :: DAR_DEV_INFO_t

text \<open>The pointer to the private data of the driver, which may be left dangling.\<close>

datatype drv_data = NoPrivate | Private mpsw_drv_private_data | FreedPrivate

record riocp_pe =
  version :: u32
  sysfs_name :: string
  hopcount :: u8
  did_reg_val :: u32
  comptag :: u32
  address :: "u8 list option"
  cap :: riocp_pe_capabilities
  efptr :: u16
  efptr_phys :: u32
  efptr_phys_type :: u32
  efptr_em :: u32
  did_grp :: "did_grp_t option"
  mport :: "handle option"
  minfo :: "riocp_pe_mport option"
  peers :: "riocp_pe_peer list option"
  private_data :: drv_data

record 'h riocp =
  pes :: "handle \<Rightarrow> riocp_pe option"
  mport_handles :: "handle option list"
  pe_did_sz :: did_sz_t
  tags :: ct_state
  fabric :: 'h

record 'h mgmt =
  riomp_mgmt_lcfg_read :: "u8 \<Rightarrow> u32 \<Rightarrow> 'h \<Rightarrow> int \<times> u32 \<times> 'h"
  riomp_mgmt_lcfg_write :: "u8 \<Rightarrow> u32 \<Rightarrow> u32 \<Rightarrow> 'h \<Rightarrow> int \<times> 'h"
  riomp_mgmt_rcfg_read :: "u8 \<Rightarrow> u32 \<Rightarrow> u8 \<Rightarrow> u32 \<Rightarrow> 'h \<Rightarrow> int \<times> u32 \<times> 'h"
  riomp_mgmt_rcfg_write :: "u8 \<Rightarrow> u32 \<Rightarrow> u8 \<Rightarrow> u32 \<Rightarrow> u32 \<Rightarrow> 'h \<Rightarrow> int \<times> 'h"
  riomp_mgmt_destid_set :: "u8 \<Rightarrow> u32 \<Rightarrow> 'h \<Rightarrow> int \<times> 'h"
  riomp_mgmt_mport_create_handle :: "u8 \<Rightarrow> 'h \<Rightarrow> int \<times> 'h"
  riomp_mgmt_query :: "u8 \<Rightarrow> 'h \<Rightarrow> int \<times> 'h"
  riomp_mgmt_mport_destroy_handle :: "u8 \<Rightarrow> 'h \<Rightarrow> int \<times> 'h"
  riomp_mgmt_device_add :: "u8 \<Rightarrow> u32 \<Rightarrow> u8 \<Rightarrow> u32 \<Rightarrow> string \<Rightarrow> 'h \<Rightarrow> int \<times> 'h"
  dev_file_exists :: "string \<Rightarrow> 'h \<Rightarrow> bool"
  generic_device_init :: "handle \<Rightarrow> riocp_pe \<Rightarrow> 'h \<Rightarrow> int \<times> 'h"
  mpsw_drv_set_route_entry :: "handle \<Rightarrow> u8 \<Rightarrow> did_t \<Rightarrow> u32 \<Rightarrow> 'h \<Rightarrow> int \<times> 'h"
  mpsw_drv_get_route_entry :: "handle \<Rightarrow> u8 \<Rightarrow> did_t \<Rightarrow> 'h \<Rightarrow> int \<times> u32 \<times> 'h"
  mpsw_drv_get_port_state :: "handle \<Rightarrow> u8 \<Rightarrow> 'h \<Rightarrow> int \<times> bool \<times> 'h"
  mpsw_drv_reset_port :: "handle \<Rightarrow> u8 \<Rightarrow> bool \<Rightarrow> 'h \<Rightarrow> int \<times> 'h"
  mpsw_enable_pe :: "handle \<Rightarrow> u8 \<Rightarrow> 'h \<Rightarrow> int \<times> 'h"

abbreviation (input) EIO :: int where "EIO \<equiv> 5"
abbreviation (input) EAGAIN :: int where "EAGAIN \<equiv> 11"
abbreviation (input) EACCES :: int where "EACCES \<equiv> 13"
abbreviation (input) EFAULT :: int where "EFAULT \<equiv> 14"
abbreviation (input) ENODEV :: int where "ENODEV \<equiv> 19"
abbreviation (input) ENOSYS :: int where "ENOSYS \<equiv> 38"
abbreviation (input) EBADF :: int where "EBADF \<equiv> 9"
abbreviation (input) ENOTSUP :: int where "ENOTSUP \<equiv> 95"
abbreviation (input) EADDRNOTAVAIL :: int where "EADDRNOTAVAIL \<equiv> 99"

definition RIOCP_PE_IS_SWITCH :: "riocp_pe_capabilities \<Rightarrow> bool" where
  "RIOCP_PE_IS_SWITCH c \<longleftrightarrow> pe_feat c AND 0x10000000 \<noteq> 0"

definition RIOCP_PE_PORT_COUNT :: "riocp_pe_capabilities \<Rightarrow> u32" where
  "RIOCP_PE_PORT_COUNT c = (if RIOCP_PE_IS_SWITCH c then drop_bit 8 (sw_port c) AND 0xFF else 1)"

definition RIOCP_PE_SW_PORT :: "riocp_pe_capabilities \<Rightarrow> u32" where
  "RIOCP_PE_SW_PORT c = sw_port c AND 0xFF"

definition RIOCP_PE_IS_MPORT :: "riocp_pe \<Rightarrow> bool" where
  "RIOCP_PE_IS_MPORT pe \<longleftrightarrow> minfo pe \<noteq> None"

text \<open>The structure behind a pointer, an update of it, and the information on the master port of a processing element.\<close>

definition at :: "handle option \<Rightarrow> 'h riocp \<Rightarrow> riocp_pe option" where
  "at h s = Option.bind h (pes s)"

definition upd_pe :: "handle \<Rightarrow> (riocp_pe \<Rightarrow> riocp_pe) \<Rightarrow> 'h riocp \<Rightarrow> 'h riocp option" where
  "upd_pe h f s = (case pes s h of None \<Rightarrow> None | Some pe \<Rightarrow> Some (s\<lparr>pes := (pes s)(h \<mapsto> f pe)\<rparr>))"

definition mport_info :: "riocp_pe \<Rightarrow> 'h riocp \<Rightarrow> riocp_pe_mport option" where
  "mport_info pe s = Option.bind (at (mport pe) s) minfo"

definition RIOCP_PE_IS_HOST :: "riocp_pe \<Rightarrow> 'h riocp \<Rightarrow> bool option" where
  "RIOCP_PE_IS_HOST pe s = map_option is_host (mport_info pe s)"

definition upd_minfo :: "handle \<Rightarrow> (riocp_pe_mport \<Rightarrow> riocp_pe_mport) \<Rightarrow> 'h riocp \<Rightarrow> 'h riocp option" where
  "upd_minfo m f s =
     (case at (Some m) s of
        None \<Rightarrow> None
      | Some mp \<Rightarrow> (case minfo mp of None \<Rightarrow> None | Some i \<Rightarrow> upd_pe m (\<lambda>mp. mp\<lparr>minfo := Some (f i)\<rparr>) s))"

section \<open>Lists of handles\<close>

definition riocp_pe_llist_add :: "bool \<Rightarrow> 'a option list \<Rightarrow> 'a \<Rightarrow> int \<times> 'a option list" where
  "riocp_pe_llist_add mem items x = (if mem then (0, items @ [Some x]) else (- ENOMEM, items))"

text \<open>The walk of \<open>riocp_pe_llist_del\<close> behind the head: at the end of the list it reads the link of a null pointer.\<close>

fun llist_unlink :: "'a \<Rightarrow> 'a list \<Rightarrow> 'a list option" where
  "llist_unlink x [] = None"
| "llist_unlink x (y # ys) = (if y = x then Some ys else map_option (Cons y) (llist_unlink x ys))"

definition riocp_pe_llist_del :: "'a option list \<Rightarrow> 'a option \<Rightarrow> (int \<times> 'a option list) option" where
  "riocp_pe_llist_del items x =
     (if x = None then Some (- EINVAL, items)
      else case items of
        [] \<Rightarrow> None
      | y # ys \<Rightarrow> if y = x then None else map_option (\<lambda>zs. (0, y # zs)) (llist_unlink x ys))"

definition riocp_pe_llist_find :: "'a option list \<Rightarrow> 'a option \<Rightarrow> 'a option" where
  "riocp_pe_llist_find items x = (if x \<in> set items then x else None)"

section \<open>Checks of handles\<close>

fun search_mports :: "'h riocp \<Rightarrow> handle option \<Rightarrow> handle option list \<Rightarrow> bool option" where
  "search_mports s h [] = Some False"
| "search_mports s h (None # items) = search_mports s h items"
| "search_mports s h (Some m # items) =
     (case pes s m of
        None \<Rightarrow> None
      | Some mp \<Rightarrow>
          (case minfo mp of
             None \<Rightarrow> search_mports s h items
           | Some i \<Rightarrow> if riocp_pe_llist_find (handles i) h \<noteq> None then Some True else search_mports s h items))"

definition riocp_pe_handle_check :: "handle option \<Rightarrow> 'h riocp \<Rightarrow> int option" where
  "riocp_pe_handle_check h s =
     (if h = None then Some (- EINVAL)
      else if riocp_pe_llist_find (mport_handles s) h \<noteq> None then Some 0
      else map_option (\<lambda>found. if found then 0 else - ENOENT) (search_mports s h (mport_handles s)))"

definition riocp_pe_handle_set_private :: "handle option \<Rightarrow> drv_data \<Rightarrow> 'h riocp \<Rightarrow> (int \<times> 'h riocp) option" where
  "riocp_pe_handle_set_private h d s = do {
     rc \<leftarrow> riocp_pe_handle_check h s;
     if rc \<noteq> 0 then Some (- EINVAL, s)
     else do { s1 \<leftarrow> upd_pe (the h) (\<lambda>pe. pe\<lparr>private_data := d\<rparr>) s; Some (0, s1) } }"

definition riocp_pe_handle_get_private :: "handle option \<Rightarrow> 'h riocp \<Rightarrow> (int \<times> drv_data) option" where
  "riocp_pe_handle_get_private h s = do {
     rc \<leftarrow> riocp_pe_handle_check h s;
     if rc \<noteq> 0 then Some (- EINVAL, NoPrivate)
     else do { pe \<leftarrow> at h s; Some (if private_data pe = NoPrivate then (- EFAULT, NoPrivate) else (0, private_data pe)) } }"

definition riocp_mport_set_private :: "handle option \<Rightarrow> bool option \<Rightarrow> 'h riocp \<Rightarrow> (int \<times> 'h riocp) option" where
  "riocp_mport_set_private h d s = do {
     rc \<leftarrow> riocp_pe_handle_check h s;
     if rc \<noteq> 0 then Some (- EINVAL, s)
     else do { s1 \<leftarrow> upd_minfo (the h) (\<lambda>i. i\<lparr>acc_info := d\<rparr>) s; Some (0, s1) } }"

section \<open>Life of a handle\<close>

text \<open>\<open>riocp_pe_handle_destroy\<close> for a processing element that is not a master port.\<close>

definition destroy_pe :: "handle \<Rightarrow> 'h riocp \<Rightarrow> 'h riocp option" where
  "destroy_pe h s = do {
     pe \<leftarrow> pes s h;
     m \<leftarrow> mport pe;
     i \<leftarrow> mport_info pe s;
     (rc, items) \<leftarrow> riocp_pe_llist_del (handles i) (Some h);
     s1 \<leftarrow> upd_minfo m (\<lambda>i. i\<lparr>handles := items\<rparr>) s;
     Some (s1\<lparr>pes := (pes s1)(h := None)\<rparr>) }"

text \<open>
  The loop of \<open>RIOCP_PE_LLIST_FOREACH_SAFE\<close> ends at the last item instead of behind it. A master port is never in the list of another.
\<close>

fun destroy_items :: "handle option list \<Rightarrow> 'h riocp \<Rightarrow> 'h riocp option" where
  "destroy_items [] s = Some s"
| "destroy_items (None # items) s = destroy_items items s"
| "destroy_items (Some p # items) s = Option.bind (destroy_pe p s) (destroy_items items)"

text \<open>The private data is freed, and the pointer to it kept.\<close>

definition mpsw_destroy_priv_data :: "'h mgmt \<Rightarrow> handle \<Rightarrow> 'h riocp \<Rightarrow> 'h riocp option" where
  "mpsw_destroy_priv_data G h s = do {
     pe \<leftarrow> pes s h;
     (case private_data pe of
        NoPrivate \<Rightarrow> Some s
      | FreedPrivate \<Rightarrow> None
      | Private d \<Rightarrow>
          upd_pe h (\<lambda>pe. pe\<lparr>private_data := FreedPrivate\<rparr>)
            (case minfo pe of
               Some i \<Rightarrow>
                 if acc_info i = Some True then s\<lparr>fabric := snd (riomp_mgmt_mport_destroy_handle G (mp_id i) (fabric s))\<rparr> else s
             | None \<Rightarrow> s)) }"

definition riocp_pe_handle_destroy :: "'h mgmt \<Rightarrow> handle \<Rightarrow> 'h riocp \<Rightarrow> 'h riocp option" where
  "riocp_pe_handle_destroy G h s = do {
     pe \<leftarrow> pes s h;
     (case minfo pe of
        None \<Rightarrow> destroy_pe h s
      | Some i \<Rightarrow> do {
          s1 \<leftarrow> destroy_items (butlast (handles i)) s;
          (rc, items) \<leftarrow> riocp_pe_llist_del (mport_handles s1) (Some h);
          s2 \<leftarrow> mpsw_destroy_priv_data G h (s1\<lparr>mport_handles := items\<rparr>);
          Some (s2\<lparr>pes := (pes s2)(h := None)\<rparr>) }) }"

definition riocp_pe_handle_mport_get :: "handle \<Rightarrow> 'h riocp \<Rightarrow> 'h riocp option" where
  "riocp_pe_handle_mport_get m s = upd_minfo m (\<lambda>i. i\<lparr>mp_ref := mp_ref i + 1\<rparr>) s"

text \<open>The result tells whether the pointer of the caller is set to null.\<close>

definition riocp_pe_handle_mport_put :: "'h mgmt \<Rightarrow> handle \<Rightarrow> 'h riocp \<Rightarrow> (bool \<times> 'h riocp) option" where
  "riocp_pe_handle_mport_put G m s = do {
     mp \<leftarrow> pes s m;
     i \<leftarrow> minfo mp;
     if mp_ref i = 0 then Some (False, s)
     else do {
       s1 \<leftarrow> upd_minfo m (\<lambda>i. i\<lparr>mp_ref := mp_ref i - 1\<rparr>) s;
       if mp_ref i - 1 = 0 then do { s2 \<leftarrow> riocp_pe_handle_destroy G m s1; Some (True, s2) } else Some (False, s1) } }"

fun exists_items :: "u32 \<Rightarrow> handle \<Rightarrow> 'h riocp \<Rightarrow> handle option list \<Rightarrow> handle option option" where
  "exists_items ct m s [] = Some None"
| "exists_items ct m s (None # items) = exists_items ct m s items"
| "exists_items ct m s (Some p # items) = do {
     pe \<leftarrow> pes s p;
     if comptag pe \<noteq> ct then exists_items ct m s items
     else do {
       i \<leftarrow> mport_info pe s;
       mp \<leftarrow> pes s m;
       j \<leftarrow> minfo mp;
       if is_host i = is_host j then Some (Some p) else exists_items ct m s items } }"

definition riocp_pe_handle_pe_exists :: "handle \<Rightarrow> u32 \<Rightarrow> 'h riocp \<Rightarrow> (int \<times> handle option) option" where
  "riocp_pe_handle_pe_exists m ct s =
     (if ct = COMPTAG_UNSET then Some (0, None)
      else do { p \<leftarrow> exists_items ct m s (tl (mport_handles s)); Some (if p = None then 0 else 1, p) })"

fun mport_items :: "u8 \<Rightarrow> bool \<Rightarrow> 'h riocp \<Rightarrow> handle option list \<Rightarrow> handle option option" where
  "mport_items n host s [] = Some None"
| "mport_items n host s (None # items) = mport_items n host s items"
| "mport_items n host s (Some p # items) = do {
     pe \<leftarrow> pes s p;
     i \<leftarrow> mport_info pe s;
     if host = is_host i \<and> n = mp_id i then Some (mport pe) else mport_items n host s items }"

definition riocp_pe_handle_mport_exists :: "u8 \<Rightarrow> bool \<Rightarrow> 'h riocp \<Rightarrow> (int \<times> handle option \<times> 'h riocp) option" where
  "riocp_pe_handle_mport_exists n host s = do {
     p \<leftarrow> mport_items n host s (mport_handles s);
     (case p of
        None \<Rightarrow> Some (- ENOENT, None, s)
      | Some m \<Rightarrow> do { s1 \<leftarrow> riocp_pe_handle_mport_get m s; Some (0, Some m, s1) }) }"

definition riocp_pe_destroy_handle :: "'h mgmt \<Rightarrow> handle option \<Rightarrow> 'h riocp \<Rightarrow> (int \<times> handle option \<times> 'h riocp) option" where
  "riocp_pe_destroy_handle G h s = do {
     rc \<leftarrow> riocp_pe_handle_check h s;
     if rc \<noteq> 0 then Some (- EINVAL, h, s)
     else do {
       pe \<leftarrow> at h s;
       if RIOCP_PE_IS_MPORT pe
       then do { (gone, s1) \<leftarrow> riocp_pe_handle_mport_put G (the h) s; Some (0, if gone then None else h, s1) }
       else Some (0, None, s) } }"

section \<open>Peers\<close>

definition set_peer :: "handle \<Rightarrow> u8 \<Rightarrow> riocp_pe_peer \<Rightarrow> 'h riocp \<Rightarrow> 'h riocp option" where
  "set_peer h port x s = do {
     pe \<leftarrow> pes s h;
     ps \<leftarrow> peers pe;
     if unat port < length ps then upd_pe h (\<lambda>pe. pe\<lparr>peers := Some (ps[unat port := x])\<rparr>) s else None }"

definition get_peer :: "riocp_pe \<Rightarrow> u8 \<Rightarrow> riocp_pe_peer option" where
  "get_peer pe port = do { ps \<leftarrow> peers pe; if unat port < length ps then Some (ps ! unat port) else None }"

definition riocp_pe_add_peer :: "handle option \<Rightarrow> handle option \<Rightarrow> u8 \<Rightarrow> u8 \<Rightarrow> 'h riocp \<Rightarrow> (int \<times> 'h riocp) option" where
  "riocp_pe_add_peer pe other pe_port peer_port s =
     (if pe = None \<or> other = None then Some (- EINVAL, s)
      else do {
        a \<leftarrow> at pe s;
        if ucast pe_port \<ge> RIOCP_PE_PORT_COUNT (cap a) then Some (- EINVAL, s)
        else do {
          b \<leftarrow> at other s;
          if ucast peer_port \<ge> RIOCP_PE_PORT_COUNT (cap b) then Some (- EINVAL, s)
          else do {
            s1 \<leftarrow> set_peer (the pe) pe_port \<lparr>peer = other, remote_port = peer_port\<rparr> s;
            s2 \<leftarrow> set_peer (the other) peer_port \<lparr>peer = pe, remote_port = pe_port\<rparr> s1;
            Some (0, s2) } } })"

definition riocp_pe_remove_peer :: "handle option \<Rightarrow> u8 \<Rightarrow> 'h riocp \<Rightarrow> (int \<times> 'h riocp) option" where
  "riocp_pe_remove_peer pe port s =
     (if pe = None then Some (- EINVAL, s)
      else do {
        a \<leftarrow> at pe s;
        if ucast port \<ge> RIOCP_PE_PORT_COUNT (cap a) then Some (- EINVAL, s)
        else do {
          x \<leftarrow> get_peer a port;
          s1 \<leftarrow> set_peer (the pe) port \<lparr>peer = None, remote_port = 0\<rparr> s;
          (case peer x of
             None \<Rightarrow> Some (0, s1)
           | Some b \<Rightarrow> do { s2 \<leftarrow> set_peer b (remote_port x) \<lparr>peer = None, remote_port = 0\<rparr> s1; Some (0, s2) }) } })"

definition riocp_pe_handle_peek :: "handle option \<Rightarrow> u8 \<Rightarrow> 'h riocp \<Rightarrow> (int \<times> handle option) option" where
  "riocp_pe_handle_peek h port s = do {
     rc \<leftarrow> riocp_pe_handle_check h s;
     if rc \<noteq> 0 then Some (- EINVAL, None)
     else do {
       pe \<leftarrow> at h s;
       if ucast port \<ge> RIOCP_PE_PORT_COUNT (cap pe) then Some (- EADDRNOTAVAIL, None)
       else do { x \<leftarrow> get_peer pe port; Some (0, peer x) } } }"

definition riocp_pe_peek :: "handle option \<Rightarrow> u8 \<Rightarrow> 'h riocp \<Rightarrow> handle option option" where
  "riocp_pe_peek h port s = do {
     rc \<leftarrow> riocp_pe_handle_check h s;
     if rc \<noteq> 0 then Some None
     else do {
       pe \<leftarrow> at h s;
       if ucast port \<ge> RIOCP_PE_PORT_COUNT (cap pe) then Some None
       else do { x \<leftarrow> get_peer pe port; Some (peer x) } } }"

definition riocp_pe_get_peer_list :: "bool \<Rightarrow> handle option \<Rightarrow> 'h riocp \<Rightarrow> (int \<times> handle option list) option" where
  "riocp_pe_get_peer_list mem h s = do {
     rc \<leftarrow> riocp_pe_handle_check h s;
     if rc \<noteq> 0 then Some (- EINVAL, [])
     else if \<not> mem then Some (- ENOMEM, [])
     else do {
       pe \<leftarrow> at h s;
       let n = unat (RIOCP_PE_PORT_COUNT (cap pe));
       if n = 0 then Some (0, [])
       else do { ps \<leftarrow> peers pe; if n \<le> length ps then Some (0, map peer (take n ps)) else None } } }"

section \<open>Lists of processing elements\<close>

definition listed :: "handle option list \<Rightarrow> handle list" where
  "listed items = map the (filter (\<lambda>x. x \<noteq> None) items)"

definition riocp_pe_handle_get_list :: "bool \<Rightarrow> handle option \<Rightarrow> 'h riocp \<Rightarrow> (int \<times> handle list) option" where
  "riocp_pe_handle_get_list mem m s = do {
     rc \<leftarrow> riocp_pe_handle_check m s;
     if rc \<noteq> 0 then Some (- EINVAL, [])
     else do {
       mp \<leftarrow> at m s;
       i \<leftarrow> minfo mp;
       if \<not> mem then Some (- ENOMEM, []) else Some (rc, the m # listed (handles i)) } }"

definition riocp_mport_get_pe_list :: "bool \<Rightarrow> handle option \<Rightarrow> 'h riocp \<Rightarrow> (int \<times> handle list) option" where
  "riocp_mport_get_pe_list mem m s = do {
     rc \<leftarrow> riocp_pe_handle_check m s;
     if rc \<noteq> 0 then Some (- EINVAL, [])
     else do {
       mp \<leftarrow> at m s;
       (case minfo mp of
          None \<Rightarrow> Some (- ENOSYS, [])
        | Some i \<Rightarrow> if \<not> mem then Some (- ENOMEM, []) else Some (rc, the m # listed (handles i))) } }"

fun find_tag :: "u32 \<Rightarrow> 'h riocp \<Rightarrow> handle list \<Rightarrow> handle option option" where
  "find_tag ct s [] = Some None"
| "find_tag ct s (h # hs) =
     (case pes s h of None \<Rightarrow> None | Some pe \<Rightarrow> if comptag pe = ct then Some (Some h) else find_tag ct s hs)"

text \<open>The result is 0 when the tag was found, 1 when it was not.\<close>

definition riocp_pe_find_comptag :: "bool \<Rightarrow> handle option \<Rightarrow> u32 \<Rightarrow> 'h riocp \<Rightarrow> (int \<times> handle option \<times> 'h riocp) option" where
  "riocp_pe_find_comptag mem m ct s =
     (if m = None then Some (- 1, None, s)
      else if ct = COMPTAG_UNSET then Some (1, None, s)
      else
        (let (used, st) = ct_not_inuse ct (tags s); s1 = s\<lparr>tags := st\<rparr> in
         if used = 0 then Some (1, None, s1)
         else do {
           mp \<leftarrow> at m s1;
           if comptag mp = ct then Some (0, m, s1)
           else do {
             (rc, hs) \<leftarrow> riocp_mport_get_pe_list mem m s1;
             if rc \<noteq> 0 then Some (- 1, None, s1)
             else do { p \<leftarrow> find_tag ct s1 hs; Some (if p = None then 1 else 0, p, s1) } } }))"

section \<open>Addresses\<close>

text \<open>The tokens that \<open>strtok_r\<close> finds between commas, none of them empty.\<close>

fun comma_tokens :: "string \<Rightarrow> string \<Rightarrow> string list" where
  "comma_tokens acc [] = (if acc = [] then [] else [rev acc])"
| "comma_tokens acc (c # cs) =
     (if c = CHR '','' then (if acc = [] then [] else [rev acc]) @ comma_tokens [] cs else comma_tokens (c # acc) cs)"

fun parse_hops :: "string list \<Rightarrow> u8 list option" where
  "parse_hops [] = Some []"
| "parse_hops (t # ts) =
     (case tok_parse_ushort (Some t) (Some 0) 0 0xFF 0 of
        (rc, err, v) \<Rightarrow> if rc \<noteq> 0 then None else map_option (Cons (ucast (the v AND 0xFF))) (parse_hops ts))"

definition riocp_pe_handle_addr_aton :: "string option \<Rightarrow> int \<times> u8 list" where
  "riocp_pe_handle_addr_aton addr =
     (case addr of
        None \<Rightarrow> (- EINVAL, [])
      | Some str \<Rightarrow>
          (let ts = comma_tokens [] str in
           if length ts > 255 then (- ENOMEM, [])
           else (case parse_hops ts of None \<Rightarrow> (- EINVAL, []) | Some as \<Rightarrow> (0, as))))"

text \<open>The buffer has room for 255 characters and the final null.\<close>

fun join_hops :: "u8 list \<Rightarrow> string" where
  "join_hops [] = []"
| "join_hops [a] = num_str 10 (unat a)"
| "join_hops (a # as) = num_str 10 (unat a) @ CHR '','' # join_hops as"

definition riocp_pe_handle_addr_ntoa :: "u8 list option \<Rightarrow> string" where
  "riocp_pe_handle_addr_ntoa addr = (case addr of None \<Rightarrow> [] | Some as \<Rightarrow> take 255 (join_hops as))"

section \<open>Identifier size, tags and identifiers\<close>

definition riocp_set_did_sz :: "did_sz_t \<Rightarrow> 'h riocp \<Rightarrow> int \<times> 'h riocp" where
  "riocp_set_did_sz sz s = (if sz \<noteq> dev08_sz \<and> sz \<noteq> dev16_sz then (- EINVAL, s) else (0, s\<lparr>pe_did_sz := sz\<rparr>))"

text \<open>When the group has no identifier left, the out-parameter is used as it is.\<close>

definition riocp_pe_alloc_ct_did :: "handle \<Rightarrow> u32 \<Rightarrow> did_t \<Rightarrow> did_sz_t \<Rightarrow> 'h riocp \<Rightarrow> (int \<times> u32 \<times> did_t \<times> 'h riocp) option" where
  "riocp_pe_alloc_ct_did h ct did sz s = do {
     pe \<leftarrow> pes s h;
     if sz = dev08_sz \<or> did_grp pe = None then
       (case ct_create_all (Some ct) (Some did) sz (tags s) of
          (rc, ct', did', st) \<Rightarrow> Some (rc, the ct', the did', s\<lparr>tags := st\<rparr>))
     else
       (case did_grp_resrv_did (did_grp pe) (Some did) of
          (rc1, grp, did1) \<Rightarrow> do {
            s1 \<leftarrow> upd_pe h (\<lambda>pe. pe\<lparr>did_grp := grp\<rparr>) s;
            (case ct_create_from_did (Some ct) (the did1) (tags s1) of
               (rc, ct', st) \<Rightarrow> Some (rc, the ct', the did1, s1\<lparr>tags := st\<rparr>)) }) }"

section \<open>Printing and parsing addresses\<close>

lemma digit_char_not_zero: "0 < d \<Longrightarrow> d < 10 \<Longrightarrow> digit_char d \<noteq> CHR ''0''"
proof
  assume d: "0 < d" "d < 10" and "digit_char d = CHR ''0''"
  then have "of_char (digit_char d) = (of_char CHR ''0'' :: nat)"
    by simp
  with d show False
    by (simp add: digit_char_def)
qed

lemma num_str_no_leading_zero: "0 < n \<Longrightarrow> \<exists>c cs. num_str 10 n = c # cs \<and> c \<noteq> CHR ''0''"
proof (induction "10 :: nat" n rule: num_str.induct)
  case (1 n)
  show ?case
  proof (cases "n < 10")
    case True
    then show ?thesis
      using "1.prems" digit_char_not_zero by (simp add: num_str.simps [of 10 n])
  next
    case False
    then have "0 < n div 10"
      by simp
    with 1 False show ?thesis
      by (auto simp: num_str.simps [of 10 n])
  qed
qed

lemma scan_decimal: "strto_scan 0 (num_str 10 n) = Some (False, n, [])"
proof (cases "n = 0")
  case True
  have "digit_char 0 = CHR ''0''"
    by code_simp
  then show ?thesis
    unfolding True num_str.simps [of 10 0] by simp code_simp
next
  case False
  then obtain c cs where c: "num_str 10 n = c # cs" "c \<noteq> CHR ''0''"
    using num_str_no_leading_zero by blast
  obtain d where d: "c = digit_char d" "d < 10"
    using num_str_Cons [of 10 n] c(1) by auto
  have "split_sign (dropWhile is_space (num_str 10 n)) = (False, num_str 10 n)"
    using c d digit_not_space [of d] digit_not_sign [of c] by (simp add: split_sign_def)
  moreover have "split_base 0 (num_str 10 n) = split_base 10 (num_str 10 n)"
    using c by (auto simp: split_base_def hex_prefix_def split: list.split)
  ultimately show ?thesis
    using scan_num_str [of 10 n] by (simp add: strto_scan_def)
qed

lemma parse_hop: "tok_parse_ushort (Some (num_str 10 (unat a))) (Some 0) 0 0xFF 0 = (0, 0, Some (ucast (a :: u8)))"
proof -
  have "unat a < 256"
    using unsigned_less [of a, where ?'a = nat] by simp
  then have "(of_nat (unat a) :: u64) \<le> 0xFF" "unat a \<le> 18446744073709551615"
    by (simp_all add: word_le_nat_alt unat_of_nat unsigned_ucast_eq take_bit_nat_eq_self)
  moreover have "(ucast (ucast a :: u64) :: u16) = ucast a"
    by (rule bit_word_eqI) (auto simp: bit_simps dest: bit_imp_le_length)
  ultimately show ?thesis
    by (simp add: tok_parse_ushort_def parse_into_def tok_ull_cases base_ok_def scan_decimal Let_def)
qed

lemma parse_hops_print: "parse_hops (map (\<lambda>a. num_str 10 (unat a)) as) = Some as"
proof (induction as)
  case (Cons a as)
  have m: "(0xFF :: u16) = mask 8"
    by (simp add: mask_eq_exp_minus_1)
  have "(ucast ((ucast a :: u16) AND 0xFF) :: u8) = a"
    unfolding m by (rule bit_word_eqI) (auto simp: bit_simps)
  then show ?case
    by (simp add: parse_hop Cons.IH)
qed simp

lemma comma_tokens_token:
  assumes "CHR '','' \<notin> set t" and "t \<noteq> [] \<or> acc \<noteq> []"
  shows "comma_tokens acc (t @ CHR '','' # rest) = (rev acc @ t) # comma_tokens [] rest" and "comma_tokens acc t = [rev acc @ t]"
  using assms by (induction t arbitrary: acc) auto

lemma num_str_no_comma: "CHR '','' \<notin> set (num_str 10 n)"
proof
  assume "CHR '','' \<in> set (num_str 10 n)"
  then have "is_digit 10 (CHR '','')"
    using num_str_digits [of 10 n] by simp
  then show False
    by (simp add: is_digit_def digit_of_def char_code_def)
qed

lemma num_str_not_empty: "num_str 10 n \<noteq> []"
  using num_str_Cons [of 10 n] by force

lemma tokens_join: "comma_tokens [] (join_hops as) = map (\<lambda>a. num_str 10 (unat a)) as"
  by (induction as rule: join_hops.induct) (simp_all add: comma_tokens_token num_str_no_comma num_str_not_empty)

lemma num_str_length: "n < 256 \<Longrightarrow> length (num_str 10 n) \<le> 3"
  by (simp add: num_str.simps [of 10 n] num_str.simps [of 10 "n div 10"] num_str.simps [of 10 "n div 10 div 10"])

lemma join_length: "as \<noteq> [] \<Longrightarrow> length (join_hops as) + 1 \<le> 4 * length as"
proof (induction as rule: join_hops.induct)
  case (2 a)
  then show ?case
    using num_str_length [of "unat a"] unsigned_less [of a, where ?'a = nat] by simp
next
  case (3 a b as)
  then show ?case
    using num_str_length [of "unat a"] unsigned_less [of a, where ?'a = nat] by simp
qed simp

section \<open>Links\<close>

text \<open>The network as it is known: the port at the other end of the link of a port.\<close>

definition links :: "'h riocp \<Rightarrow> handle \<times> u8 \<Rightarrow> (handle \<times> u8) option" where
  "links s hp = do { pe \<leftarrow> pes s (fst hp); x \<leftarrow> get_peer pe (snd hp); q \<leftarrow> peer x; Some (q, remote_port x) }"

definition links_sym :: "'h riocp \<Rightarrow> bool" where
  "links_sym s \<longleftrightarrow> (\<forall>a b. links s a = Some b \<longrightarrow> links s b = Some a)"

text \<open>An element whose array of peers has an entry for each of its ports.\<close>

definition has_ports :: "'h riocp \<Rightarrow> handle \<Rightarrow> u32 \<Rightarrow> bool" where
  "has_ports s h n \<longleftrightarrow> (\<exists>pe ps. pes s h = Some pe \<and> peers pe = Some ps \<and> length ps = unat n \<and> RIOCP_PE_PORT_COUNT (cap pe) = n)"

lemma port_index: "ucast (p :: u8) < (n :: u32) \<longleftrightarrow> unat p < unat n"
proof -
  have "unat (ucast p :: u32) = unat p"
    using unsigned_less [of p, where ?'a = nat] by (simp add: unsigned_ucast_eq take_bit_nat_eq_self)
  then show ?thesis
    by (simp add: word_less_nat_alt)
qed

lemma set_peer_links:
  assumes "has_ports s h n" and "ucast p < n"
  obtains s' where "set_peer h p x s = Some s'" and "\<And>a m. has_ports s' a m = has_ports s a m"
    and "links s' = (links s)((h, p) := map_option (\<lambda>q. (q, remote_port x)) (peer x))"
proof -
  obtain pe ps where pe: "pes s h = Some pe" "peers pe = Some ps" "length ps = unat n" "RIOCP_PE_PORT_COUNT (cap pe) = n"
    using assms(1) by (auto simp: has_ports_def)
  have p: "unat p < length ps"
    using assms(2) pe(3) by (simp add: port_index)
  define s' where "s' = s\<lparr>pes := (pes s)(h \<mapsto> pe\<lparr>peers := Some (ps[unat p := x])\<rparr>)\<rparr>"
  have "set_peer h p x s = Some s'"
    using pe p by (simp add: set_peer_def upd_pe_def s'_def)
  moreover have "has_ports s' a m = has_ports s a m" for a m
    using pe by (auto simp: has_ports_def s'_def)
  moreover have "links s' (a, q) = ((links s)((h, p) := map_option (\<lambda>q. (q, remote_port x)) (peer x))) (a, q)" for a q
    using pe p by (auto simp: links_def get_peer_def s'_def nth_list_update word_unat_eq_iff split: bind_splits option.splits)
  then have "links s' = (links s)((h, p) := map_option (\<lambda>q. (q, remote_port x)) (peer x))"
    by (intro ext) (metis surj_pair)
  ultimately show thesis
    using that by blast
qed

lemma has_ports_peer:
  assumes "has_ports s h n" and "ucast p < n"
  obtains pe x where "pes s h = Some pe" and "get_peer pe p = Some x" and "RIOCP_PE_PORT_COUNT (cap pe) = n"
    and "links s (h, p) = map_option (\<lambda>q. (q, remote_port x)) (peer x)"
proof -
  obtain pe ps where pe: "pes s h = Some pe" "peers pe = Some ps" "length ps = unat n" "RIOCP_PE_PORT_COUNT (cap pe) = n"
    using assms(1) unfolding has_ports_def by blast
  have get: "get_peer pe p = Some (ps ! unat p)"
    using assms(2) pe(2,3) by (simp add: get_peer_def port_index)
  have "links s (h, p) = map_option (\<lambda>q. (q, remote_port (ps ! unat p))) (peer (ps ! unat p))"
    by (cases "peer (ps ! unat p)") (simp_all add: links_def pe(1) get)
  with that pe(1,4) get show thesis
    by blast
qed

lemma add_peer_links:
  assumes "has_ports s a m" and "has_ports s b n" and "ucast p < m" and "ucast q < n"
  obtains s' where "riocp_pe_add_peer (Some a) (Some b) p q s = Some (0, s')" and "\<And>h k. has_ports s' h k = has_ports s h k"
    and "links s' = (links s)((a, p) \<mapsto> (b, q), (b, q) \<mapsto> (a, p))"
proof -
  obtain s1 where s1: "set_peer a p \<lparr>peer = Some b, remote_port = q\<rparr> s = Some s1" "\<And>h k. has_ports s1 h k = has_ports s h k"
    "links s1 = (links s)((a, p) \<mapsto> (b, q))"
    using set_peer_links [OF assms(1,3), of "\<lparr>peer = Some b, remote_port = q\<rparr>"] by auto
  obtain s2 where s2: "set_peer b q \<lparr>peer = Some a, remote_port = p\<rparr> s1 = Some s2" "\<And>h k. has_ports s2 h k = has_ports s1 h k"
    "links s2 = (links s1)((b, q) \<mapsto> (a, p))"
    using set_peer_links [of s1 b n q "\<lparr>peer = Some a, remote_port = p\<rparr>"] assms(2,4) s1(2) by auto
  obtain x y where "pes s a = Some x" "RIOCP_PE_PORT_COUNT (cap x) = m" "pes s b = Some y" "RIOCP_PE_PORT_COUNT (cap y) = n"
    using assms(1,2) unfolding has_ports_def by blast
  then have "riocp_pe_add_peer (Some a) (Some b) p q s = Some (0, s2)"
    using assms(3,4) s1(1) s2(1) by (simp add: riocp_pe_add_peer_def at_def not_le)
  with s1 s2 that show thesis
    by simp
qed

lemma remove_peer_links:
  assumes "has_ports s a m" and "ucast p < m" and "links s (a, p) = Some (b, q)" and "has_ports s b n" and "ucast q < n"
  obtains s' where "riocp_pe_remove_peer (Some a) p s = Some (0, s')" and "links s' = (links s)((a, p) := None, (b, q) := None)"
proof -
  obtain pe x where x: "pes s a = Some pe" "get_peer pe p = Some x" "RIOCP_PE_PORT_COUNT (cap pe) = m" "peer x = Some b" "remote_port x = q"
  proof (rule has_ports_peer [OF assms(1,2)])
    fix pe x
    assume x: "pes s a = Some pe" "get_peer pe p = Some x" "RIOCP_PE_PORT_COUNT (cap pe) = m"
      "links s (a, p) = map_option (\<lambda>q. (q, remote_port x)) (peer x)"
    then have "peer x = Some b" "remote_port x = q"
      using assms(3) by (cases "peer x"; simp)+
    with x(1-3) show thesis
      by (rule that)
  qed
  obtain s1 where s1: "set_peer a p \<lparr>peer = None, remote_port = 0\<rparr> s = Some s1" "\<And>h k. has_ports s1 h k = has_ports s h k"
    "links s1 = (links s)((a, p) := None)"
    using set_peer_links [OF assms(1,2), of "\<lparr>peer = None, remote_port = 0\<rparr>"] by auto
  obtain s2 where s2: "set_peer b q \<lparr>peer = None, remote_port = 0\<rparr> s1 = Some s2" "links s2 = (links s1)((b, q) := None)"
    by (rule set_peer_links [of s1 b n q "\<lparr>peer = None, remote_port = 0\<rparr>"]) (use assms(4,5) s1(2) in simp_all)
  have "riocp_pe_remove_peer (Some a) p s = Some (0, s2)"
    using assms(2) x s1(1) s2(1) by (simp add: riocp_pe_remove_peer_def at_def not_le)
  with s1 s2 that show thesis
    by simp
qed

lemma upd_sym:
  assumes "\<And>x y. f x = Some y \<Longrightarrow> f y = Some x" and "f a = None" and "f b = None"
  shows "(f(a \<mapsto> b, b \<mapsto> a)) x = Some y \<Longrightarrow> (f(a \<mapsto> b, b \<mapsto> a)) y = Some x"
  using assms(1) [of x y] assms(2,3) by (auto split: if_splits)

lemma links_sym_add:
  assumes "links_sym s" and "links s (a, p) = None" and "links s (b, q) = None" and "links s' = (links s)((a, p) \<mapsto> (b, q), (b, q) \<mapsto> (a, p))"
  shows "links_sym s'"
  using upd_sym [of "links s" "(a, p)" "(b, q)"] assms(1-3) unfolding links_sym_def assms(4) by blast

text \<open>A master port, a switch of four ports and an end point, not linked yet.\<close>

definition ex_cap :: "u32 \<Rightarrow> riocp_pe_capabilities" where
  "ex_cap n = \<lparr>cap_dev_id = 0, cap_dev_info = 0, asbly_id = 0, asbly_info = 0, pe_feat = (if n = 1 then 0 else 0x10000000), sw_port = push_bit 8 n,
     src_op = 0, dst_op = 0, lut_size = 0\<rparr>"

definition ex_pe :: "u32 \<Rightarrow> riocp_pe_mport option \<Rightarrow> riocp_pe" where
  "ex_pe n i = \<lparr>version = 0, sysfs_name = [], hopcount = 0, did_reg_val = 0, comptag = n, address = None, cap = ex_cap n, efptr = 0, efptr_phys = 0,
     efptr_phys_type = 0, efptr_em = 0, did_grp = None, mport = Some 0, minfo = i, peers = Some (replicate (unat n) \<lparr>peer = None, remote_port = 0\<rparr>),
     private_data = NoPrivate\<rparr>"

definition ex_minfo :: riocp_pe_mport where
  "ex_minfo = \<lparr>mp_ref = 1, mp_id = 0, is_host = True, any_id_target = None, handles = [None, Some 1, Some 2], acc_info = None\<rparr>"

definition ex_net :: "ct_state \<Rightarrow> unit riocp" where
  "ex_net t = \<lparr>pes = [0 \<mapsto> ex_pe 1 (Some ex_minfo), 1 \<mapsto> ex_pe 4 None, 2 \<mapsto> ex_pe 1 None], mport_handles = [None, Some 0], pe_did_sz = dev08_sz, tags = t,
     fabric = ()\<rparr>"

lemma ex_count: "RIOCP_PE_PORT_COUNT (ex_cap 1) = 1" "RIOCP_PE_PORT_COUNT (ex_cap 4) = 4"
  by (simp_all add: RIOCP_PE_PORT_COUNT_def RIOCP_PE_IS_SWITCH_def ex_cap_def)

lemma ex_ports: "has_ports (ex_net t) 0 1" "has_ports (ex_net t) 1 4" "has_ports (ex_net t) 2 1"
  by (simp_all add: has_ports_def ex_net_def ex_pe_def ex_count)

lemma ex_links: "links (ex_net t) = Map.empty"
proof
  fix hp
  show "links (ex_net t) hp = None"
    by (cases hp) (simp add: links_def ex_net_def ex_pe_def get_peer_def split: bind_split)
qed

section \<open>Properties\<close>

text \<open>
  C15. Addresses. The text that \<open>riocp_pe_handle_addr_ntoa\<close> prints for a path of at most 64 ports, the most its buffer is sure to have
  room for, is read back by \<open>riocp_pe_handle_addr_aton\<close> as the same path.
\<close>

theorem addr_roundtrip:
  assumes "length as \<le> 64"
  shows "riocp_pe_handle_addr_aton (Some (riocp_pe_handle_addr_ntoa (Some as))) = (0, as)"
proof -
  have "length (join_hops as) \<le> 255"
    using join_length [of as] assms by (cases as) auto
  then show ?thesis
    using assms by (simp add: riocp_pe_handle_addr_aton_def riocp_pe_handle_addr_ntoa_def tokens_join parse_hops_print Let_def)
qed

theorem addr_roundtrip_witness:
  "riocp_pe_handle_addr_aton (Some (riocp_pe_handle_addr_ntoa (Some [0, 4, 10, 255]))) = (0, [0, 4, 10, 255])"
  by (rule addr_roundtrip) simp

text \<open>
  C14. Peers. \<open>riocp_pe_add_peer\<close> links two unconnected ports, each the peer of the other, and changes no other link: links stay symmetric. \<open>riocp_pe_peek\<close>
  then finds the new peer of a valid handle, and \<open>riocp_pe_remove_peer\<close>, from either end, restores the network as it was. For a port that the element does
  not have nothing changes.
\<close>

theorem peer_links:
  assumes "has_ports s a m" and "has_ports s b n" and "ucast p < m" and "ucast q < n"
    and "links_sym s" and "links s (a, p) = None" and "links s (b, q) = None"
  shows "\<exists>s'. riocp_pe_add_peer (Some a) (Some b) p q s = Some (0, s') \<and>
     links s' = (links s)((a, p) \<mapsto> (b, q), (b, q) \<mapsto> (a, p)) \<and> links_sym s' \<and>
     (riocp_pe_handle_check (Some a) s' = Some 0 \<longrightarrow> riocp_pe_peek (Some a) p s' = Some (Some b)) \<and>
     (\<exists>s''. riocp_pe_remove_peer (Some a) p s' = Some (0, s'') \<and> links s'' = links s) \<and>
     (\<exists>s''. riocp_pe_remove_peer (Some b) q s' = Some (0, s'') \<and> links s'' = links s) \<and>
     (m \<le> ucast r \<longrightarrow> riocp_pe_add_peer (Some a) (Some b) r q s = Some (- EINVAL, s) \<and> riocp_pe_remove_peer (Some a) r s = Some (- EINVAL, s))"
proof -
  obtain s' where s': "riocp_pe_add_peer (Some a) (Some b) p q s = Some (0, s')" "\<And>h k. has_ports s' h k = has_ports s h k"
    "links s' = (links s)((a, p) \<mapsto> (b, q), (b, q) \<mapsto> (a, p))"
    using add_peer_links [OF assms(1-4)] by blast
  have ports: "has_ports s' a m" "has_ports s' b n"
    using assms(1,2) s'(2) by simp_all
  have ab: "links s' (a, p) = Some (b, q)" "links s' (b, q) = Some (a, p)"
    by (auto simp: s'(3))
  have keep: "(links s')((a, p) := None, (b, q) := None) = links s" "(links s')((b, q) := None, (a, p) := None) = links s"
    using assms(6,7) by (auto simp: s'(3) fun_eq_iff)
  have "riocp_pe_peek (Some a) p s' = Some (Some b)" if "riocp_pe_handle_check (Some a) s' = Some 0"
  proof (rule has_ports_peer [OF ports(1) assms(3)])
    fix pe x
    assume "pes s' a = Some pe" "get_peer pe p = Some x" "RIOCP_PE_PORT_COUNT (cap pe) = m"
      "links s' (a, p) = map_option (\<lambda>q. (q, remote_port x)) (peer x)"
    with that ab(1) assms(3) show ?thesis
      by (auto simp: riocp_pe_peek_def at_def not_le)
  qed
  moreover have "\<exists>s''. riocp_pe_remove_peer (Some a) p s' = Some (0, s'') \<and> links s'' = links s"
    using remove_peer_links [OF ports(1) assms(3) ab(1) ports(2) assms(4)] keep(1) by metis
  moreover have "\<exists>s''. riocp_pe_remove_peer (Some b) q s' = Some (0, s'') \<and> links s'' = links s"
    using remove_peer_links [OF ports(2) assms(4) ab(2) ports(1) assms(3)] keep(2) by metis
  moreover have "links_sym s'"
    using links_sym_add [OF assms(5-7) s'(3)] .
  moreover have "riocp_pe_add_peer (Some a) (Some b) r q s = Some (- EINVAL, s)" "riocp_pe_remove_peer (Some a) r s = Some (- EINVAL, s)"
    if "m \<le> ucast r"
    using assms(1) that by (auto simp: has_ports_def riocp_pe_add_peer_def riocp_pe_remove_peer_def at_def)
  ultimately show ?thesis
    using s'(1,3) by blast
qed

theorem peer_links_witness:
  "\<exists>s'. riocp_pe_add_peer (Some 0) (Some 1) 0 3 (ex_net ct_start) = Some (0, s') \<and> links s' = [(0, 0) \<mapsto> (1, 3), (1, 3) \<mapsto> (0, 0)] \<and>
     (\<exists>s''. riocp_pe_remove_peer (Some 1) 3 s' = Some (0, s'') \<and> links s'' = Map.empty)"
  using peer_links [OF ex_ports(1,2), of 0 3 ct_start 0] by (auto simp: ex_links links_sym_def)

end
