(* ===== verification/Pe_Drv.thy ===== *)
theory Pe_Drv
  imports Pe_Handle
begin

unbundle bit_operations_syntax

text \<open>
  Access to the registers of a processing element: \<^verbatim>\<open>libpe_mpdrv/src/sw_api_rw_drv.c\<close>, which reaches a register of a device through the master
  port, the functions of \<^verbatim>\<open>libpe_mpdrv/src/pe_mpdrv.c\<close> that use it, and their interface \<^verbatim>\<open>libriocp_pe/src/driver.c\<close>. The private data pointer of a
  device description is its processing element, and the access information of a master port is the pointer \<open>acc_info\<close>, whose target tells
  whether the port is open.
\<close>

section \<open>Register access of the device drivers\<close>

text \<open>\<open>get_acc_p\<close>: the number of the master port, \<open>Inl\<close> when its access information cannot be found.\<close>

definition get_acc_p :: "riocp_pe \<Rightarrow> u32 \<Rightarrow> 'h riocp \<Rightarrow> (unit + u8) option" where
  "get_acc_p pe oset s =
     (if oset \<ge> 0x01000000 then Some (Inl ())
      else case minfo pe of
        Some i \<Rightarrow> Some (Inr (mp_id i))
      | None \<Rightarrow>
          (case mport pe of
             None \<Rightarrow> Some (Inl ())
           | Some m \<Rightarrow> do {
               mp \<leftarrow> pes s m;
               (case minfo mp of
                  None \<Rightarrow> Some (Inl ())
                | Some i \<Rightarrow> if acc_info i = None then None else Some (Inr (mp_id i))) }))"

definition SRIO_API_ReadRegFunc :: "'h mgmt \<Rightarrow> riocp_pe \<Rightarrow> u8 \<Rightarrow> u32 \<Rightarrow> 'h \<Rightarrow> u32 \<times> u32 \<times> 'h" where
  "SRIO_API_ReadRegFunc G pe n oset h =
     (let (rc, x, h') =
        (if RIOCP_PE_IS_MPORT pe then riomp_mgmt_lcfg_read G n oset h else riomp_mgmt_rcfg_read G n (did_reg_val pe) (hopcount pe) oset h)
      in (if rc \<noteq> 0 then RIO_ERR_ACCESS else RIO_SUCCESS, x, h'))"

definition SRIO_API_WriteRegFunc :: "'h mgmt \<Rightarrow> riocp_pe \<Rightarrow> u8 \<Rightarrow> u32 \<Rightarrow> u32 \<Rightarrow> 'h \<Rightarrow> u32 \<times> 'h" where
  "SRIO_API_WriteRegFunc G pe n oset x h =
     (let (rc, h') =
        (if RIOCP_PE_IS_MPORT pe then riomp_mgmt_lcfg_write G n oset x h else riomp_mgmt_rcfg_write G n (did_reg_val pe) (hopcount pe) oset x h)
      in (if rc \<noteq> 0 then RIO_ERR_ACCESS else RIO_SUCCESS, h'))"

text \<open>The host functions that \<open>DAR_proc_ptr_init\<close> installs, for the processing element whose registers are accessed and its master port.\<close>

definition pe_host :: "'h mgmt \<Rightarrow> riocp_pe \<Rightarrow> u8 option \<Rightarrow> 'h host" where
  "pe_host G pe n =
     \<lparr>ReadReg = Some (\<lambda>d oset h.
        if oset \<ge> 0x01000000 \<or> n = None then (RIO_ERR_INVALID_PARAMETER, 0, h) else SRIO_API_ReadRegFunc G pe (the n) oset h),
      WriteReg = Some (\<lambda>d oset x h.
        if oset \<ge> 0x01000000 \<or> n = None then (RIO_ERR_INVALID_PARAMETER, h) else SRIO_API_WriteRegFunc G pe (the n) oset x h)\<rparr>"

text \<open>The master port that registers of a processing element are reached through. Every register the device drivers use has an offset below 16 MiB.\<close>

definition acc_port :: "riocp_pe \<Rightarrow> 'h riocp \<Rightarrow> u8 option option" where
  "acc_port pe s = map_option (case_sum Map.empty Some) (get_acc_p pe 0 s)"

section \<open>The master port driver\<close>

definition priv :: "drv_data \<Rightarrow> mpsw_drv_private_data option" where
  "priv p = (case p of Private d \<Rightarrow> Some d | _ \<Rightarrow> None)"

definition mpsw_drv_reg_rd :: "'h mgmt \<Rightarrow> handle \<Rightarrow> u32 \<Rightarrow> 'h riocp \<Rightarrow> (int \<times> u32 \<times> 'h riocp) option" where
  "mpsw_drv_reg_rd G h oset s = do {
     (rc, p) \<leftarrow> riocp_pe_handle_get_private (Some h) s;
     if rc \<noteq> 0 then Some (rc, 0, s)
     else do {
       d \<leftarrow> priv p;
       pe \<leftarrow> pes s h;
       n \<leftarrow> acc_port pe s;
       (case DARRegRead (pe_host G pe n) oset \<lparr>dev_info = dev_h d, hw = fabric s\<rparr> of
          (rc, x, t) \<Rightarrow> do {
            s1 \<leftarrow> upd_pe h (\<lambda>pe. pe\<lparr>private_data := Private (d\<lparr>dev_h := dev_info t\<rparr>)\<rparr>) s;
            Some (if rc \<noteq> 0 then EIO else 0, x, s1\<lparr>fabric := hw t\<rparr>) }) } }"

text \<open>The value of a device identifier register that is written to a master port is also set in its kernel driver.\<close>

definition GET_DEV8_FROM_HW :: "u32 \<Rightarrow> u32" where
  "GET_DEV8_FROM_HW x = drop_bit 16 (x AND 0x00FF0000)"

definition GET_DEV16_FROM_HW :: "u32 \<Rightarrow> u32" where
  "GET_DEV16_FROM_HW x = x AND 0xFFFF"

definition mpsw_drv_reg_wr :: "'h mgmt \<Rightarrow> handle \<Rightarrow> u32 \<Rightarrow> u32 \<Rightarrow> 'h riocp \<Rightarrow> (int \<times> 'h riocp) option" where
  "mpsw_drv_reg_wr G h oset x s = do {
     (rc, p) \<leftarrow> riocp_pe_handle_get_private (Some h) s;
     if rc \<noteq> 0 then Some (- rc, s)
     else do {
       d \<leftarrow> priv p;
       pe \<leftarrow> pes s h;
       (let (rc, t0) =
          (case minfo pe of
             Some i \<Rightarrow>
               if oset = 0x60
               then riomp_mgmt_destid_set G (mp_id i) (if pe_did_sz s = dev08_sz then GET_DEV8_FROM_HW x else GET_DEV16_FROM_HW x OR 0x10000) (fabric s)
               else (0, fabric s)
           | None \<Rightarrow> (0, fabric s));
            s0 = s\<lparr>fabric := t0\<rparr>
        in if rc \<noteq> 0 then Some (- rc, s0)
           else do {
             n \<leftarrow> acc_port pe s0;
             (case DARRegWrite (pe_host G pe n) oset x \<lparr>dev_info = dev_h d, hw = t0\<rparr> of
                (rc, t) \<Rightarrow> do {
                  s1 \<leftarrow> upd_pe h (\<lambda>pe. pe\<lparr>private_data := Private (d\<lparr>dev_h := dev_info t\<rparr>)\<rparr>) s0;
                  Some (- sint rc, s1\<lparr>fabric := hw t\<rparr>) }) }) } }"

text \<open>A raw access of a master port reaches its own registers, whatever the identifier and the hop count are.\<close>

definition mpsw_drv_raw_reg_rd :: "'h mgmt \<Rightarrow> riocp_pe \<Rightarrow> u32 \<Rightarrow> u8 \<Rightarrow> u32 \<Rightarrow> 'h riocp \<Rightarrow> (int \<times> u32 \<times> 'h riocp) option" where
  "mpsw_drv_raw_reg_rd G pe did_val hc oset s = do {
     i \<leftarrow> mport_info pe s;
     valid \<leftarrow> acc_info i;
     Some (if \<not> valid then (- EINVAL, 0, s)
       else (let (rc, x, t) = (if RIOCP_PE_IS_MPORT pe then riomp_mgmt_lcfg_read G (mp_id i) oset (fabric s)
                               else riomp_mgmt_rcfg_read G (mp_id i) did_val hc oset (fabric s))
             in (rc, x, s\<lparr>fabric := t\<rparr>))) }"

definition mpsw_drv_raw_reg_wr :: "'h mgmt \<Rightarrow> riocp_pe \<Rightarrow> u32 \<Rightarrow> u8 \<Rightarrow> u32 \<Rightarrow> u32 \<Rightarrow> 'h riocp \<Rightarrow> (int \<times> 'h riocp) option" where
  "mpsw_drv_raw_reg_wr G pe did_val hc oset x s = do {
     i \<leftarrow> mport_info pe s;
     if \<not> is_host i then Some (- ENOSYS, s)
     else do {
       valid \<leftarrow> acc_info i;
       Some (if \<not> valid then (- EINVAL, s)
         else (let (rc, t) = (if RIOCP_PE_IS_MPORT pe then riomp_mgmt_lcfg_write G (mp_id i) oset x (fabric s)
                              else riomp_mgmt_rcfg_write G (mp_id i) did_val hc oset x (fabric s))
               in (rc, s\<lparr>fabric := t\<rparr>))) } }"

text \<open>
  \<open>mem\<close> tells for each of the two allocations whether it succeeds. After an error the private data is destroyed, except that of a master port that
  cannot be opened.
\<close>

definition mpsw_alloc_priv_data :: "'h mgmt \<Rightarrow> bool \<times> bool \<Rightarrow> handle \<Rightarrow> handle option \<Rightarrow> 'h riocp \<Rightarrow> (int \<times> 'h riocp) option" where
  "mpsw_alloc_priv_data G mem h from s = do {
     pe \<leftarrow> pes s h;
     if \<not> fst mem then do { s1 \<leftarrow> mpsw_destroy_priv_data G h s; Some (- ENOMEM, s1) }
     else do {
       s1 \<leftarrow> upd_pe h (\<lambda>pe. pe\<lparr>private_data := Private \<lparr>dev_h_valid = False, dev_h = dev_zero\<rparr>\<rparr>) s;
       (case minfo pe of
          Some i \<Rightarrow>
            if \<not> snd mem then do { s2 \<leftarrow> mpsw_destroy_priv_data G h s1; Some (ENOMEM, s2) }
            else
              (let (rc, t) = riomp_mgmt_mport_create_handle G (mp_id i) (fabric s1) in
               if rc \<noteq> 0 then do { s2 \<leftarrow> upd_minfo h (\<lambda>i. i\<lparr>acc_info := None\<rparr>) (s1\<lparr>fabric := t\<rparr>); Some (rc, s2) }
               else
                 (let (rc, t) = riomp_mgmt_query G (mp_id i) t in do {
                    s2 \<leftarrow> upd_minfo h (\<lambda>i. i\<lparr>acc_info := Some True\<rparr>) (s1\<lparr>fabric := t\<rparr>);
                    if rc < 0 then do { s3 \<leftarrow> mpsw_destroy_priv_data G h s2; s4 \<leftarrow> upd_minfo h (\<lambda>i. i\<lparr>acc_info := None\<rparr>) s3; Some (rc, s4) }
                    else Some (0, s2) }))
        | None \<Rightarrow>
            (case from of
               None \<Rightarrow> do { s2 \<leftarrow> mpsw_destroy_priv_data G h s1; Some (1, s2) }
             | Some p \<Rightarrow> do { q \<leftarrow> pes s1 p; s2 \<leftarrow> upd_pe h (\<lambda>pe. pe\<lparr>mport := mport q\<rparr>) s1; Some (0, s2) })) } }"

text \<open>\<open>mpsw_mport_dev_add\<close>: the name, cut to the 47 characters of the field, and the device in the kernel, which an endpoint gets when the file system has none.\<close>

definition mpsw_mport_dev_add :: "'h mgmt \<Rightarrow> handle \<Rightarrow> string \<Rightarrow> 'h riocp \<Rightarrow> (int \<times> 'h riocp) option" where
  "mpsw_mport_dev_add G h nm s = do {
     s1 \<leftarrow> upd_pe h (\<lambda>pe. pe\<lparr>sysfs_name := take 47 nm\<rparr>) s;
     pe \<leftarrow> pes s1 h;
     if RIOCP_PE_IS_MPORT pe then Some (0, s1)
     else do {
       d \<leftarrow> priv (private_data pe);
       if features (dev_h d) AND RIO_PE_FEAT_SW \<noteq> 0 then Some (0, s1)
       else do {
         i \<leftarrow> mport_info pe s1;
         valid \<leftarrow> acc_info i;
         Some (if \<not> valid then (- EINVAL, s1)
           else (let (rc, t) = (if dev_file_exists G nm (fabric s1) then (0, fabric s1)
                               else riomp_mgmt_device_add G (mp_id i) (did_reg_val pe) (hopcount pe) (comptag pe) (sysfs_name pe) (fabric s1))
                 in (rc, s1\<lparr>fabric := t\<rparr>))) } } }"

definition mpsw_drv_init_pe :: "'h mgmt \<Rightarrow> bool \<times> bool \<Rightarrow> handle \<Rightarrow> handle option \<Rightarrow> string \<Rightarrow> 'h riocp \<Rightarrow> (int \<times> 'h riocp) option" where
  "mpsw_drv_init_pe G mem h from nm s = do {
     pe0 \<leftarrow> pes s h;
     if private_data pe0 \<noteq> NoPrivate then Some (1, s)
     else do {
       (rc, s1) \<leftarrow> mpsw_alloc_priv_data G mem h from s;
       if rc \<noteq> 0 then Some (rc, s1)
       else do {
         pe \<leftarrow> pes s1 h;
         (rc, x, s2) \<leftarrow> mpsw_drv_raw_reg_rd G pe (did_reg_val pe) (hopcount pe) 0 s1;
         if rc \<noteq> 0 then Some (rc, s2)
         else do {
           n \<leftarrow> acc_port pe s2;
           (rc, t) \<leftarrow> DAR_Find_Driver_for_Device (the (ReadReg (pe_host G pe n))) True
                       \<lparr>dev_info = dev_zero\<lparr>devID := x, driver_family := rio_get_driver_family x\<rparr>, hw = fabric s2\<rparr>;
           s3 \<leftarrow> upd_pe h (\<lambda>pe. pe\<lparr>private_data := Private \<lparr>dev_h_valid = (rc = RIO_SUCCESS), dev_h = dev_info t\<rparr>\<rparr>) (s2\<lparr>fabric := hw t\<rparr>);
           if rc \<noteq> RIO_SUCCESS then Some (ENOTSUP, s3)
           else do {
             pe3 \<leftarrow> pes s3 h;
             (let (rc, t) = generic_device_init G h pe3 (fabric s3); s4 = s3\<lparr>fabric := t\<rparr>
              in if rc \<noteq> 0 then Some (rc, s4) else mpsw_mport_dev_add G h nm s4) } } } } }"

section \<open>The driver interface\<close>

definition riocp_drv_reg_rd :: "'h mgmt \<Rightarrow> handle \<Rightarrow> u32 \<Rightarrow> 'h riocp \<Rightarrow> (int \<times> u32 \<times> 'h riocp) option" where
  "riocp_drv_reg_rd G h oset s = do {
     pe \<leftarrow> pes s h;
     host \<leftarrow> RIOCP_PE_IS_HOST pe s;
     if host \<or> RIOCP_PE_IS_MPORT pe then mpsw_drv_reg_rd G h oset s else Some (- ENOSYS, 0, s) }"

definition riocp_drv_reg_wr :: "'h mgmt \<Rightarrow> handle \<Rightarrow> u32 \<Rightarrow> u32 \<Rightarrow> 'h riocp \<Rightarrow> (int \<times> 'h riocp) option" where
  "riocp_drv_reg_wr G h oset x s = do {
     pe \<leftarrow> pes s h;
     host \<leftarrow> RIOCP_PE_IS_HOST pe s;
     if host \<or> RIOCP_PE_IS_MPORT pe then mpsw_drv_reg_wr G h oset x s else Some (- ENOSYS, s) }"

definition riocp_drv_raw_reg_rd :: "'h mgmt \<Rightarrow> riocp_pe \<Rightarrow> u32 \<Rightarrow> u8 \<Rightarrow> u32 \<Rightarrow> 'h riocp \<Rightarrow> (int \<times> u32 \<times> 'h riocp) option" where
  "riocp_drv_raw_reg_rd G pe did_val hc oset s = do {
     host \<leftarrow> RIOCP_PE_IS_HOST pe s;
     if host \<or> RIOCP_PE_IS_MPORT pe then mpsw_drv_raw_reg_rd G pe did_val hc oset s else Some (- ENOSYS, 0, s) }"

definition riocp_drv_raw_reg_wr :: "'h mgmt \<Rightarrow> riocp_pe \<Rightarrow> u32 \<Rightarrow> u8 \<Rightarrow> u32 \<Rightarrow> u32 \<Rightarrow> 'h riocp \<Rightarrow> (int \<times> 'h riocp) option" where
  "riocp_drv_raw_reg_wr G pe did_val hc oset x s = do {
     host \<leftarrow> RIOCP_PE_IS_HOST pe s;
     if host \<or> RIOCP_PE_IS_MPORT pe then mpsw_drv_raw_reg_wr G pe did_val hc oset x s else Some (- ENOSYS, s) }"

definition riocp_drv_set_route_entry :: "'h mgmt \<Rightarrow> handle \<Rightarrow> u8 \<Rightarrow> did_t \<Rightarrow> u32 \<Rightarrow> 'h riocp \<Rightarrow> int \<times> 'h riocp" where
  "riocp_drv_set_route_entry G h port did rt_val s =
     (let (rc, t) = mpsw_drv_set_route_entry G h port did rt_val (fabric s) in (rc, s\<lparr>fabric := t\<rparr>))"

definition riocp_drv_get_route_entry :: "'h mgmt \<Rightarrow> handle \<Rightarrow> u8 \<Rightarrow> did_t \<Rightarrow> 'h riocp \<Rightarrow> int \<times> u32 \<times> 'h riocp" where
  "riocp_drv_get_route_entry G h port did s =
     (let (rc, x, t) = mpsw_drv_get_route_entry G h port did (fabric s) in (rc, x, s\<lparr>fabric := t\<rparr>))"

definition riocp_drv_get_port_state :: "'h mgmt \<Rightarrow> handle \<Rightarrow> u8 \<Rightarrow> 'h riocp \<Rightarrow> int \<times> bool \<times> 'h riocp" where
  "riocp_drv_get_port_state G h port s =
     (let (rc, x, t) = mpsw_drv_get_port_state G h port (fabric s) in (rc, x, s\<lparr>fabric := t\<rparr>))"

definition riocp_drv_reset_port :: "'h mgmt \<Rightarrow> handle \<Rightarrow> u8 \<Rightarrow> bool \<Rightarrow> 'h riocp \<Rightarrow> int \<times> 'h riocp" where
  "riocp_drv_reset_port G h port lp s = (let (rc, t) = mpsw_drv_reset_port G h port lp (fabric s) in (rc, s\<lparr>fabric := t\<rparr>))"

definition riocp_enable_pe :: "'h mgmt \<Rightarrow> handle \<Rightarrow> u8 \<Rightarrow> 'h riocp \<Rightarrow> int \<times> 'h riocp" where
  "riocp_enable_pe G h port s = (let (rc, t) = mpsw_enable_pe G h port (fabric s) in (rc, s\<lparr>fabric := t\<rparr>))"

end
