(* ===== verification/Pe_Maint.thy ===== *)
theory Pe_Maint
  imports Pe_Drv
begin

unbundle bit_operations_syntax

text \<open>
  Maintenance of processing elements: the host lock (\<^verbatim>\<open>libriocp_pe/src/lock.c\<close>), maintenance reads and writes with the route to their target
  (\<^verbatim>\<open>maint.c\<close>), component tags (\<^verbatim>\<open>comptag.c\<close>), the capabilities and features of an element (\<^verbatim>\<open>pe.c\<close>) and enumeration boundaries (\<^verbatim>\<open>driver.c\<close>).
  A loop over the extended features that does not end is \<open>None\<close>, too.
\<close>

section \<open>Locks\<close>

definition ANY_DID :: "'h riocp \<Rightarrow> did_t" where
  "ANY_DID s = \<lparr>did_value = 0xFF, did_size = (if pe_did_sz s = dev08_sz then dev08_sz else dev16_sz)\<rparr>"

definition DID_ANY_DEV8_ID :: did_t where
  "DID_ANY_DEV8_ID = \<lparr>did_value = 0xFF, did_size = dev08_sz\<rparr>"

definition riocp_pe_lock_read :: "'h mgmt \<Rightarrow> handle \<Rightarrow> did_t \<Rightarrow> u8 \<Rightarrow> 'h riocp \<Rightarrow> (int \<times> u32 \<times> 'h riocp) option" where
  "riocp_pe_lock_read G h did hc s = do {
     pe \<leftarrow> pes s h;
     (rc, x, s1) \<leftarrow> riocp_drv_raw_reg_rd G pe (did_value did) hc RIO_HOST_LOCK s;
     Some (if rc \<noteq> 0 then (- EIO, 0, s1) else (0, x AND 0xFFFF, s1)) }"

definition riocp_pe_lock_write :: "'h mgmt \<Rightarrow> handle \<Rightarrow> did_t \<Rightarrow> u8 \<Rightarrow> u32 \<Rightarrow> 'h riocp \<Rightarrow> (int \<times> 'h riocp) option" where
  "riocp_pe_lock_write G h did hc lock s = do {
     pe \<leftarrow> pes s h;
     (rc, s1) \<leftarrow> riocp_drv_raw_reg_wr G pe (did_value did) hc RIO_HOST_LOCK lock s;
     Some (if rc \<noteq> 0 then - EIO else 0, s1) }"

definition riocp_pe_lock_set :: "'h mgmt \<Rightarrow> handle \<Rightarrow> did_t \<Rightarrow> u8 \<Rightarrow> 'h riocp \<Rightarrow> (int \<times> 'h riocp) option" where
  "riocp_pe_lock_set G m did hc s = do {
     (rc, lock, s1) \<leftarrow> riocp_pe_lock_read G m did hc s;
     if rc \<noteq> 0 then Some (- EIO, s1)
     else do {
       mp \<leftarrow> pes s1 m;
       if lock = did_reg_val mp then Some (0, s1)
       else do {
         (rc, s2) \<leftarrow> riocp_pe_lock_write G m did hc (did_reg_val mp) s1;
         if rc \<noteq> 0 then Some (- EIO, s2)
         else do {
           (rc, lock, s3) \<leftarrow> riocp_pe_lock_read G m did hc s2;
           Some (if rc \<noteq> 0 then - EIO else if lock = did_reg_val mp then 0 else - EAGAIN, s3) } } } }"

definition riocp_pe_lock_clear :: "'h mgmt \<Rightarrow> handle \<Rightarrow> did_t \<Rightarrow> u8 \<Rightarrow> 'h riocp \<Rightarrow> (int \<times> 'h riocp) option" where
  "riocp_pe_lock_clear G m did hc s = do {
     (rc, lock, s1) \<leftarrow> riocp_pe_lock_read G m did hc s;
     if rc \<noteq> 0 then Some (- EIO, s1)
     else if lock = 0xFFFF then Some (0, s1)
     else do {
       (rc, s2) \<leftarrow> riocp_pe_lock_write G m did hc lock s1;
       if rc \<noteq> 0 then Some (- EIO, s2)
       else do {
         (rc, lock, s3) \<leftarrow> riocp_pe_lock_read G m did hc s2;
         Some (if rc \<noteq> 0 then - EIO else 0, s3) } } }"

section \<open>The route to a target\<close>

text \<open>The peer of a port of a processing element, and the one that a master port is connected to.\<close>

definition peer_at :: "handle \<Rightarrow> u8 \<Rightarrow> 'h riocp \<Rightarrow> handle option option" where
  "peer_at h port s = do { pe \<leftarrow> pes s h; x \<leftarrow> get_peer pe port; Some (peer x) }"

text \<open>
  The loop of \<open>riocp_pe_maint_set_anyid_route\<close> from hop \<open>i\<close> on, with \<open>n\<close> hops to go: whether it reached the end, the return code, and the elements on
  the way. The result of \<open>riocp_drv_set_route_entry\<close> is that of the call only at the last hop.
\<close>

primrec any_route :: "'h mgmt \<Rightarrow> u8 list \<Rightarrow> nat \<Rightarrow> nat \<Rightarrow> handle option \<Rightarrow> handle list \<Rightarrow> int \<Rightarrow> 'h riocp \<Rightarrow> (bool \<times> int \<times> handle list \<times> 'h riocp) option" where
  "any_route G as 0 i ith vis ret s = Some (True, ret, vis, s)"
| "any_route G as (Suc n) i ith vis ret s = do {
     h \<leftarrow> ith;
     pe \<leftarrow> pes s h;
     m \<leftarrow> mport pe;
     (rc, s1) \<leftarrow> riocp_pe_lock_set G m (ANY_DID s) (of_nat i) s;
     if rc \<noteq> 0 then Some (False, - EIO, vis @ [h], s1)
     else if length as \<le> i then None
     else
       (let (rc, s2) = riocp_drv_set_route_entry G h 0xFF DID_ANY_DEV8_ID (ucast (as ! i)) s1 in
        if n = 0 then Some (True, rc, vis @ [h], s2)
        else do { next \<leftarrow> peer_at h (as ! i) s2; any_route G as n (Suc i) next (vis @ [h]) rc s2 }) }"

text \<open>The loops that clear the locks, from the last element of the path on: they end at the first failure.\<close>

fun clear_locks :: "'h mgmt \<Rightarrow> (handle \<times> nat) list \<Rightarrow> 'h riocp \<Rightarrow> (int \<times> 'h riocp) option" where
  "clear_locks G [] s = Some (0, s)"
| "clear_locks G ((h, i) # hs) s = do {
     (rc, s1) \<leftarrow> riocp_pe_lock_clear G h (ANY_DID s) (of_nat i) s;
     if rc \<noteq> 0 then Some (- EIO, s1) else clear_locks G hs s1 }"

definition riocp_pe_maint_set_anyid_route :: "'h mgmt \<Rightarrow> handle \<Rightarrow> 'h riocp \<Rightarrow> (int \<times> 'h riocp) option" where
  "riocp_pe_maint_set_anyid_route G h s = do {
     pe \<leftarrow> pes s h;
     m \<leftarrow> mport pe;
     first \<leftarrow> peer_at m 0 s;
     i \<leftarrow> mport_info pe s;
     if \<not> is_host i then Some (0, s)
     else if any_id_target i = Some h then Some (0, s)
     else do {
       (ok, ret, vis, s1) \<leftarrow> any_route G (case address pe of None \<Rightarrow> [] | Some as \<Rightarrow> as) (unat (hopcount pe)) 0 first [] 0 s;
       if ok then do { s2 \<leftarrow> upd_minfo m (\<lambda>i. i\<lparr>any_id_target := Some h\<rparr>) s1; Some (ret, s2) }
       else do {
         (rc, s2) \<leftarrow> clear_locks G (rev (zip vis [0..<length vis])) s1;
         s3 \<leftarrow> upd_minfo m (\<lambda>i. i\<lparr>any_id_target := None\<rparr>) s2;
         Some (ret, s3) } } }"

primrec did_route :: "'h mgmt \<Rightarrow> did_t \<Rightarrow> u8 list \<Rightarrow> nat \<Rightarrow> nat \<Rightarrow> handle option \<Rightarrow> 'h riocp \<Rightarrow> (int \<times> 'h riocp) option" where
  "did_route G did as 0 i ith s = Some (0, s)"
| "did_route G did as (Suc n) i ith s = do {
     h \<leftarrow> ith;
     if length as \<le> i then None
     else
       (let (rc, s1) = riocp_drv_set_route_entry G h 0xFF did (ucast (as ! i)) s in
        if rc \<noteq> 0 then Some (rc, s1)
        else if n = 0 then Some (0, s1)
        else do { next \<leftarrow> peer_at h (as ! i) s1; did_route G did as n (Suc i) next s1 }) }"

definition riocp_pe_maint_set_route :: "'h mgmt \<Rightarrow> handle \<Rightarrow> did_t \<Rightarrow> u8 \<Rightarrow> 'h riocp \<Rightarrow> (int \<times> 'h riocp) option" where
  "riocp_pe_maint_set_route G h did pnum s = do {
     pe \<leftarrow> pes s h;
     m \<leftarrow> mport pe;
     first \<leftarrow> peer_at m 0 s;
     host \<leftarrow> RIOCP_PE_IS_HOST pe s;
     if \<not> host \<or> RIOCP_PE_IS_MPORT pe then Some (0, s)
     else do {
       (rc, s1) \<leftarrow> did_route G did (case address pe of None \<Rightarrow> [] | Some as \<Rightarrow> as) (unat (hopcount pe)) 0 first s;
       if rc \<noteq> 0 then Some (rc, s1) else Some (riocp_drv_set_route_entry G h 0xFF did (ucast pnum) s1) } }"

text \<open>The elements on the way to an address, from the one behind the master port on.\<close>

primrec path_pes :: "u8 list \<Rightarrow> nat \<Rightarrow> nat \<Rightarrow> handle option \<Rightarrow> 'h riocp \<Rightarrow> handle list option" where
  "path_pes as 0 i ith s = Some []"
| "path_pes as (Suc n) i ith s =
     (if n = 0 then do { h \<leftarrow> ith; Some [h] }
      else do {
        h \<leftarrow> ith;
        if length as \<le> i then None
        else do { next \<leftarrow> peer_at h (as ! i) s; hs \<leftarrow> path_pes as n (Suc i) next s; Some (h # hs) } })"

definition riocp_pe_maint_unset_anyid_route :: "'h mgmt \<Rightarrow> handle \<Rightarrow> 'h riocp \<Rightarrow> (int \<times> 'h riocp) option" where
  "riocp_pe_maint_unset_anyid_route G h s = do {
     pe \<leftarrow> pes s h;
     m \<leftarrow> mport pe;
     first \<leftarrow> peer_at m 0 s;
     i \<leftarrow> mport_info pe s;
     if \<not> is_host i \<or> RIOCP_PE_IS_MPORT pe \<or> any_id_target i = None then Some (0, s)
     else do {
       vis \<leftarrow> path_pes (case address pe of None \<Rightarrow> [] | Some as \<Rightarrow> as) (unat (hopcount pe)) 0 first s;
       (rc, s1) \<leftarrow> clear_locks G (rev (zip vis [0..<length vis])) s;
       s2 \<leftarrow> upd_minfo m (\<lambda>i. i\<lparr>any_id_target := None\<rparr>) s1;
       Some (rc, s2) } }"

section \<open>Maintenance accesses\<close>

definition riocp_pe_maint_read :: "'h mgmt \<Rightarrow> handle option \<Rightarrow> u32 \<Rightarrow> 'h riocp \<Rightarrow> (int \<times> u32 \<times> 'h riocp) option" where
  "riocp_pe_maint_read G p oset s = do {
     rc \<leftarrow> riocp_pe_handle_check p s;
     if rc \<noteq> 0 then Some (rc, 0, s)
     else do {
       h \<leftarrow> p;
       pe \<leftarrow> pes s h;
       if RIOCP_PE_IS_MPORT pe then do {
         (rc, x, s1) \<leftarrow> riocp_drv_reg_rd G h oset s;
         Some (if rc \<noteq> 0 then - EIO else 0, x, s1) }
       else do {
         (rc, s1) \<leftarrow> riocp_pe_maint_set_anyid_route G h s;
         if rc \<noteq> 0 then Some (- EIO, 0, s1)
         else do {
           (rc, x, s2) \<leftarrow> riocp_drv_reg_rd G h oset s1;
           if rc \<noteq> 0 then Some (- EIO, x, s2)
           else do {
             (rc, s3) \<leftarrow> riocp_pe_maint_unset_anyid_route G h s2;
             Some (if rc \<noteq> 0 then - EIO else 0, x, s3) } } } } }"

definition riocp_pe_maint_write :: "'h mgmt \<Rightarrow> handle option \<Rightarrow> u32 \<Rightarrow> u32 \<Rightarrow> 'h riocp \<Rightarrow> (int \<times> 'h riocp) option" where
  "riocp_pe_maint_write G p oset x s = do {
     rc \<leftarrow> riocp_pe_handle_check p s;
     if rc \<noteq> 0 then Some (rc, s)
     else do {
       h \<leftarrow> p;
       pe \<leftarrow> pes s h;
       if RIOCP_PE_IS_MPORT pe then do {
         (rc, s1) \<leftarrow> riocp_drv_reg_wr G h oset x s;
         Some (if rc \<noteq> 0 then - EIO else 0, s1) }
       else do {
         (rc, s1) \<leftarrow> riocp_pe_maint_set_anyid_route G h s;
         if rc \<noteq> 0 then Some (- EIO, s1)
         else do {
           (rc, s2) \<leftarrow> riocp_drv_reg_wr G h oset x s1;
           if rc \<noteq> 0 then Some (- EIO, s2)
           else do {
             (rc, s3) \<leftarrow> riocp_pe_maint_unset_anyid_route G h s2;
             Some (if rc \<noteq> 0 then - EIO else 0, s3) } } } } }"

definition riocp_pe_comptag_read :: "'h mgmt \<Rightarrow> handle option \<Rightarrow> 'h riocp \<Rightarrow> (int \<times> u32 \<times> 'h riocp) option" where
  "riocp_pe_comptag_read G p s = do {
     (rc, x, s1) \<leftarrow> riocp_pe_maint_read G p 0x6C s;
     Some (if rc < 0 then rc else 0, x, s1) }"

definition riocp_pe_comptag_write :: "'h mgmt \<Rightarrow> handle option \<Rightarrow> u32 \<Rightarrow> 'h riocp \<Rightarrow> (int \<times> 'h riocp) option" where
  "riocp_pe_comptag_write G p ct s = do {
     (rc, s1) \<leftarrow> riocp_pe_maint_write G p 0x6C ct s;
     Some (if rc < 0 then rc else 0, s1) }"

section \<open>Capabilities and features\<close>

text \<open>A register that is read into a field: the field is set when the read succeeds.\<close>

definition read_field :: "'h mgmt \<Rightarrow> handle \<Rightarrow> u32 \<Rightarrow> (u32 \<Rightarrow> riocp_pe_capabilities \<Rightarrow> riocp_pe_capabilities) \<Rightarrow> int \<times> 'h riocp \<Rightarrow> (int \<times> 'h riocp) option" where
  "read_field G h oset f st =
     (if fst st \<noteq> 0 then Some st
      else do {
        (rc, x, s1) \<leftarrow> riocp_pe_maint_read G (Some h) oset (snd st);
        if rc \<noteq> 0 then Some (rc, s1)
        else do { s2 \<leftarrow> upd_pe h (\<lambda>pe. pe\<lparr>cap := f x (cap pe)\<rparr>) s1; Some (0, s2) } })"

definition riocp_pe_read_capabilities :: "'h mgmt \<Rightarrow> handle \<Rightarrow> 'h riocp \<Rightarrow> (int \<times> 'h riocp) option" where
  "riocp_pe_read_capabilities G h s = do {
     st \<leftarrow> read_field G h 0x00 (\<lambda>x c. c\<lparr>cap_dev_id := x\<rparr>) (0, s);
     st \<leftarrow> read_field G h 0x04 (\<lambda>x c. c\<lparr>cap_dev_info := x\<rparr>) st;
     st \<leftarrow> read_field G h 0x08 (\<lambda>x c. c\<lparr>asbly_id := x\<rparr>) st;
     st \<leftarrow> read_field G h 0x0C (\<lambda>x c. c\<lparr>asbly_info := x\<rparr>) st;
     st \<leftarrow> read_field G h 0x10 (\<lambda>x c. c\<lparr>pe_feat := x\<rparr>) st;
     st \<leftarrow> read_field G h 0x14 (\<lambda>x c. c\<lparr>sw_port := x\<rparr>) st;
     st \<leftarrow> read_field G h 0x18 (\<lambda>x c. c\<lparr>src_op := x\<rparr>) st;
     st \<leftarrow> read_field G h 0x1C (\<lambda>x c. c\<lparr>dst_op := x\<rparr>) st;
     read_field G h 0x34 (\<lambda>x c. c\<lparr>lut_size := x\<rparr>) st }"

definition riocp_pe_get_efb :: "'h mgmt \<Rightarrow> handle \<Rightarrow> u32 \<Rightarrow> 'h riocp \<Rightarrow> (int \<times> u32 \<times> 'h riocp) option" where
  "riocp_pe_get_efb G h from s = do {
     (rc, x, s1) \<leftarrow> riocp_pe_maint_read G (Some h) (if from = 0 then 0x0C else from) s;
     Some (rc, if from = 0 then x AND 0xFFFF else drop_bit 16 (x AND 0xFFFF0000), s1) }"

text \<open>
  The fields that a block of a type sets, \<open>None\<close> when the search goes on. It also ends at an error management block, without a port block. The last
  three types of port blocks are obsolete.
\<close>

definition efb_fields :: "u32 \<Rightarrow> u32 \<Rightarrow> (riocp_pe \<Rightarrow> riocp_pe) option" where
  "efb_fields t a =
     (let port = (\<lambda>u. Some (\<lambda>pe. pe\<lparr>efptr_phys := a, efptr_phys_type := u\<rparr>)) in
      if t \<in> {1, 2, 3, 9, 0x11, 0x12, 0x13, 0x19} then port t
      else if t = 4 then port 1
      else if t = 5 then port 2
      else if t = 6 then port 3
      else if t = 7 then Some (\<lambda>pe. pe\<lparr>efptr_em := a\<rparr>)
      else None)"

partial_function (option) efptr_search :: "'h mgmt \<Rightarrow> handle \<Rightarrow> u32 \<Rightarrow> 'h riocp \<Rightarrow> (int \<times> 'h riocp) option" where
  "efptr_search G h a s =
     (if a = 0 then do { s1 \<leftarrow> upd_pe h (\<lambda>pe. pe\<lparr>efptr_phys := 0\<rparr>) s; Some (0, s1) }
      else
        Option.bind (riocp_pe_maint_read G (Some h) a s) (\<lambda>(rc, x, s1).
          if rc \<noteq> 0 then Some (rc, s1)
          else case efb_fields (x AND 0xFFFF) a of
            Some f \<Rightarrow> do { s2 \<leftarrow> upd_pe h f s1; Some (0, s2) }
          | None \<Rightarrow>
              Option.bind (riocp_pe_get_efb G h a s1) (\<lambda>(rc, next, s2).
                if rc \<noteq> 0 then Some (rc, s2) else efptr_search G h next s2)))"

definition riocp_pe_get_efptr_phys :: "'h mgmt \<Rightarrow> handle \<Rightarrow> 'h riocp \<Rightarrow> (int \<times> 'h riocp) option" where
  "riocp_pe_get_efptr_phys G h s = do {
     s1 \<leftarrow> upd_pe h (\<lambda>pe. pe\<lparr>efptr := ucast (asbly_info (cap pe) AND 0xFFFF)\<rparr>) s;
     (rc, a, s2) \<leftarrow> riocp_pe_get_efb G h 0 s1;
     if rc \<noteq> 0 then Some (rc, s2) else efptr_search G h a s2 }"

definition riocp_pe_read_features :: "'h mgmt \<Rightarrow> handle \<Rightarrow> 'h riocp \<Rightarrow> (int \<times> 'h riocp) option" where
  "riocp_pe_read_features G h s = do {
     pe \<leftarrow> pes s h;
     if pe_feat (cap pe) AND 8 \<noteq> 0 then riocp_pe_get_efptr_phys G h s else Some (0, s) }"

definition riocp_pe_is_port_active :: "'h mgmt \<Rightarrow> handle \<Rightarrow> u32 \<Rightarrow> 'h riocp \<Rightarrow> (int \<times> 'h riocp) option" where
  "riocp_pe_is_port_active G h port s = do {
     pe \<leftarrow> pes s h;
     if efptr_phys pe \<noteq> 0 then do {
       (rc, x, s1) \<leftarrow> riocp_pe_maint_read G (Some h) (RIO_SPX_ERR_STAT (efptr_phys pe) (efptr_phys_type pe) port) s;
       Some (if rc \<noteq> 0 then rc else if x AND 2 \<noteq> 0 then 1 else 0, s1) }
     else Some (0, s) }"

definition riocp_pe_is_discovered :: "'h mgmt \<Rightarrow> handle \<Rightarrow> 'h riocp \<Rightarrow> (int \<times> 'h riocp) option" where
  "riocp_pe_is_discovered G h s = do {
     pe \<leftarrow> pes s h;
     (rc, x, s1) \<leftarrow> riocp_pe_maint_read G (Some h) (efptr_phys pe + 0x3C) s;
     Some (if rc \<noteq> 0 then rc else if x AND 0x20000000 \<noteq> 0 then 1 else 0, s1) }"

text \<open>The register is written even when it could not be read.\<close>

definition riocp_pe_set_discovered :: "'h mgmt \<Rightarrow> handle \<Rightarrow> 'h riocp \<Rightarrow> (int \<times> 'h riocp) option" where
  "riocp_pe_set_discovered G h s = do {
     pe \<leftarrow> pes s h;
     (rc1, x, s1) \<leftarrow> riocp_pe_maint_read G (Some h) (efptr_phys pe + 0x3C) s;
     (rc2, s2) \<leftarrow> riocp_pe_maint_write G (Some h) (efptr_phys pe + 0x3C) (x OR 0x20000000 OR 0x40000000) s1;
     Some (rc1 + rc2, s2) }"

section \<open>Enumeration boundaries\<close>

definition riocp_pe_port_clear_enumerated :: "'h mgmt \<Rightarrow> handle \<Rightarrow> u8 \<Rightarrow> 'h riocp \<Rightarrow> (int \<times> 'h riocp) option" where
  "riocp_pe_port_clear_enumerated G h port s = do {
     pe \<leftarrow> pes s h;
     let oset = RIO_SPX_CTL (efptr_phys pe) (efptr_phys_type pe) (ucast port);
     (rc, x, s1) \<leftarrow> riocp_pe_maint_read G (Some h) oset s;
     if rc \<noteq> 0 then Some (rc, s1) else riocp_pe_maint_write G (Some h) oset (x AND NOT RIO_SPX_CTL_ENUM_B) s1 }"

primrec clear_enumerated_from :: "'h mgmt \<Rightarrow> handle \<Rightarrow> nat \<Rightarrow> nat \<Rightarrow> 'h riocp \<Rightarrow> (int \<times> 'h riocp) option" where
  "clear_enumerated_from G h 0 i s = Some (0, s)"
| "clear_enumerated_from G h (Suc n) i s = do {
     (rc, s1) \<leftarrow> riocp_pe_port_clear_enumerated G h (of_nat i) s;
     if rc \<noteq> 0 then Some (rc, s1) else clear_enumerated_from G h n (Suc i) s1 }"

definition riocp_pe_clear_enumerated :: "'h mgmt \<Rightarrow> handle \<Rightarrow> 'h riocp \<Rightarrow> (int \<times> 'h riocp) option" where
  "riocp_pe_clear_enumerated G h s = do { pe \<leftarrow> pes s h; clear_enumerated_from G h (unat (RIOCP_PE_PORT_COUNT (cap pe))) 0 s }"

definition riocp_pe_switch_port_is_enumerated :: "'h mgmt \<Rightarrow> handle \<Rightarrow> u8 \<Rightarrow> 'h riocp \<Rightarrow> (int \<times> 'h riocp) option" where
  "riocp_pe_switch_port_is_enumerated G h port s = do {
     pe \<leftarrow> pes s h;
     (rc, x, s1) \<leftarrow> riocp_pe_maint_read G (Some h) (RIO_SPX_CTL (efptr_phys pe) (efptr_phys_type pe) (ucast port)) s;
     Some (if rc \<noteq> 0 then rc else if x AND RIO_SPX_CTL_ENUM_B \<noteq> 0 then 1 else 0, s1) }"

definition riocp_pe_switch_port_set_enumerated :: "'h mgmt \<Rightarrow> handle \<Rightarrow> u8 \<Rightarrow> 'h riocp \<Rightarrow> (int \<times> 'h riocp) option" where
  "riocp_pe_switch_port_set_enumerated G h port s = do {
     pe \<leftarrow> pes s h;
     let oset = RIO_SPX_CTL (efptr_phys pe) (efptr_phys_type pe) (ucast port);
     (rc, x, s1) \<leftarrow> riocp_pe_maint_read G (Some h) oset s;
     if rc \<noteq> 0 then Some (rc, s1) else riocp_pe_maint_write G (Some h) oset (x OR RIO_SPX_CTL_ENUM_B) s1 }"

end
