(* ===== verification/Pe_Ops.thy ===== *)
theory Pe_Ops
  imports Pe_Maint
begin

unbundle bit_operations_syntax

text \<open>
  Creation and exploration of processing elements: \<open>riocp_pe_handle_create_pe\<close> and \<open>riocp_pe_handle_create_mport\<close> of \<^verbatim>\<open>libriocp_pe/src/handle.c\<close>, the
  probe functions of \<^verbatim>\<open>pe.c\<close> and the functions of \<^verbatim>\<open>riocp_pe.c\<close> that access devices. The argument \<open>mem\<close> tells for each allocation of a call
  whether it succeeds: 0 the port structure, 1 the master port structure or the address, 2 the list item, 3 and 4 the private data, 5 the peers, 6 the
  temporary element or list of a probe. The address of a new element is the argument \<open>new\<close>.
\<close>

section \<open>Creation of handles\<close>

definition HC_INCR :: "u8 \<Rightarrow> u8" where
  "HC_INCR src = (if src + 1 = 0xFF then 0xFE else src + 1)"

definition pe_zero :: riocp_pe where
  "pe_zero = \<lparr>version = 0, sysfs_name = [], hopcount = 0, did_reg_val = 0, comptag = 0, address = None,
     cap = \<lparr>cap_dev_id = 0, cap_dev_info = 0, asbly_id = 0, asbly_info = 0, pe_feat = 0, sw_port = 0, src_op = 0, dst_op = 0, lut_size = 0\<rparr>,
     efptr = 0, efptr_phys = 0, efptr_phys_type = 0, efptr_em = 0, did_grp = None, mport = None, minfo = None, peers = None, private_data = NoPrivate\<rparr>"

definition no_peer :: riocp_pe_peer where
  "no_peer = \<lparr>peer = None, remote_port = 0\<rparr>"

text \<open>The error exit of \<open>riocp_pe_handle_create_pe\<close>.\<close>

definition create_fail :: "'h mgmt \<Rightarrow> handle \<Rightarrow> 'h riocp \<Rightarrow> (int \<times> handle option \<times> 'h riocp) option" where
  "create_fail G h s = do { s1 \<leftarrow> riocp_pe_handle_destroy G h s; Some (- EIO, None, s1) }"

definition new_address :: "u8 \<Rightarrow> u8 list option \<Rightarrow> u8 \<Rightarrow> u8 list option" where
  "new_address hc from port =
     (let n = unat hc - 1 in
      if n = 0 then Some [port]
      else do { as \<leftarrow> from; if n \<le> length as then Some (take n as @ [port]) else None })"

definition riocp_pe_handle_create_pe ::
  "'h mgmt \<Rightarrow> (nat \<Rightarrow> bool) \<Rightarrow> handle option \<Rightarrow> handle \<Rightarrow> u8 \<Rightarrow> did_t \<Rightarrow> u8 \<Rightarrow> u32 \<Rightarrow> string \<Rightarrow> 'h riocp \<Rightarrow> (int \<times> handle option \<times> 'h riocp) option" where
  "riocp_pe_handle_create_pe G mem new p hc did port comptag_in nm s =
     (case new of
        None \<Rightarrow> Some (- ENOMEM, None, s)
      | Some h \<Rightarrow>
          if \<not> mem 0 then Some (- ENOMEM, None, s)
          else do {
            pe \<leftarrow> pes s p;
            let pe0 = pe_zero\<lparr>version := 1, mport := mport pe, hopcount := hc, did_reg_val := did_get_value did, comptag := comptag_in\<rparr>;
            if hc > 0 \<and> \<not> mem 1 then create_fail G h (s\<lparr>pes := (pes s)(h \<mapsto> pe0)\<rparr>)
            else do {
              addr \<leftarrow> (if hc > 0 then map_option Some (new_address hc (address pe) port) else Some None);
              m \<leftarrow> mport pe;
              let s1 = s\<lparr>pes := (pes s)(h \<mapsto> pe0\<lparr>address := addr\<rparr>)\<rparr>;
              s2 \<leftarrow> upd_minfo m (\<lambda>i. i\<lparr>handles := snd (riocp_pe_llist_add (mem 2) (handles i) h)\<rparr>) s1;
              (rc, s3) \<leftarrow> mpsw_drv_init_pe G (mem 3, mem 4) h (Some p) nm s2;
              if rc \<noteq> 0 then create_fail G h s3
              else do {
                (rc, s4) \<leftarrow> riocp_pe_read_capabilities G h s3;
                if rc \<noteq> 0 then create_fail G h s4
                else do {
                  (rc, s5) \<leftarrow> riocp_pe_read_features G h s4;
                  if rc \<noteq> 0 then create_fail G h s5
                  else do {
                    (rc, ct, s6) \<leftarrow> riocp_pe_comptag_read G (Some h) s5;
                    if rc \<noteq> 0 then create_fail G h s6
                    else do {
                      s7 \<leftarrow> upd_pe h (\<lambda>pe. pe\<lparr>comptag := ct\<rparr>) s6;
                      if \<not> mem 5 then create_fail G h s7
                      else do {
                        s8 \<leftarrow> upd_pe h (\<lambda>pe. pe\<lparr>peers := Some (replicate (unat (RIOCP_PE_PORT_COUNT (cap pe))) no_peer)\<rparr>) s7;
                        pe8 \<leftarrow> pes s8 h;
                        (rc, s9) \<leftarrow> riocp_pe_add_peer (Some p) (Some h) port (ucast (RIOCP_PE_SW_PORT (cap pe8))) s8;
                        if rc \<noteq> 0 then create_fail G h s9
                        else if RIOCP_PE_IS_SWITCH (cap pe8) \<and> pe_did_sz s9 = dev16_sz then
                          (case did_alloc_dev16_grp (Some None) (ct_dids (tags s9)) of
                             (rc, grp, ds) \<Rightarrow> do {
                               s10 \<leftarrow> upd_pe h (\<lambda>pe. pe\<lparr>did_grp := the grp\<rparr>) (s9\<lparr>tags := (tags s9)\<lparr>ct_dids := ds\<rparr>\<rparr>);
                               if rc \<noteq> 0 then create_fail G h s10 else Some (0, Some h, s10) })
                        else Some (0, Some h, s9) } } } } } } })"

section \<open>Locks and identifiers\<close>

definition riocp_pe_verify :: "'h mgmt \<Rightarrow> handle option \<Rightarrow> 'h riocp \<Rightarrow> (int \<times> 'h riocp) option" where
  "riocp_pe_verify G p s = do {
     rc \<leftarrow> riocp_pe_handle_check p s;
     if rc \<noteq> 0 then Some (- EINVAL, s)
     else do {
       (rc, ct, s1) \<leftarrow> riocp_pe_comptag_read G p s;
       if rc \<noteq> 0 then Some (- EIO, s1)
       else do { pe \<leftarrow> at p s1; Some (if comptag pe \<noteq> ct then - EBADF else 0, s1) } } }"

definition riocp_pe_restore :: "'h mgmt \<Rightarrow> handle option \<Rightarrow> 'h riocp \<Rightarrow> (int \<times> 'h riocp) option" where
  "riocp_pe_restore G p s = do {
     rc \<leftarrow> riocp_pe_handle_check p s;
     if rc \<noteq> 0 then Some (- EINVAL, s)
     else do {
       pe \<leftarrow> at p s;
       (rc, s1) \<leftarrow> riocp_pe_comptag_write G p (comptag pe) s;
       Some (if rc \<noteq> 0 then - EIO else 0, s1) } }"

definition riocp_pe_get_capabilities :: "handle option \<Rightarrow> 'h riocp \<Rightarrow> (int \<times> riocp_pe_capabilities option) option" where
  "riocp_pe_get_capabilities p s = do {
     rc \<leftarrow> riocp_pe_handle_check p s;
     if rc \<noteq> 0 then Some (- EINVAL, None) else do { pe \<leftarrow> at p s; Some (0, Some (cap pe)) } }"

text \<open>The identifier of a processing element; the result of \<open>did_get\<close> is not checked.\<close>

definition own_did :: "riocp_pe \<Rightarrow> 'h riocp \<Rightarrow> did_t \<times> 'h riocp" where
  "own_did pe s = (case did_get (Some DID_INVALID_ID) (did_reg_val pe) (ct_dids (tags s)) of
     (rc, did, ds) \<Rightarrow> (the did, s\<lparr>tags := (tags s)\<lparr>ct_dids := ds\<rparr>\<rparr>))"

definition lock_verify :: "'h mgmt \<Rightarrow> handle \<Rightarrow> did_t \<Rightarrow> riocp_pe \<Rightarrow> u32 \<Rightarrow> 'h riocp \<Rightarrow> (int \<times> 'h riocp) option" where
  "lock_verify G h did pe own s = do {
     (rc, lock, s1) \<leftarrow> riocp_pe_lock_read G h did (hopcount pe) s;
     Some (if rc \<noteq> 0 then - EIO else if lock \<noteq> own then - EAGAIN else 0, s1) }"

definition riocp_pe_lock :: "'h mgmt \<Rightarrow> handle option \<Rightarrow> int \<Rightarrow> 'h riocp \<Rightarrow> (int \<times> 'h riocp) option" where
  "riocp_pe_lock G p flags s = do {
     rc \<leftarrow> riocp_pe_handle_check p s;
     if rc \<noteq> 0 then Some (- EINVAL, s)
     else do {
       h \<leftarrow> p;
       (rc, x, s1) \<leftarrow> riocp_pe_maint_read G p RIO_HOST_LOCK s;
       if rc \<noteq> 0 then Some (- EIO, s1)
       else do {
         pe \<leftarrow> pes s1 h;
         mp \<leftarrow> at (mport pe) s1;
         let lock = x AND 0xFFFF;
         let own = did_reg_val mp;
         if lock = own then Some (0, s1)
         else
           (let (did, s2) = own_did pe s1 in
            if flags = 0 then
              (if lock \<noteq> 0xFFFF then Some (- EAGAIN, s2)
               else do {
                 (rc, s3) \<leftarrow> riocp_pe_lock_write G h did (hopcount pe) own s2;
                 if rc \<noteq> 0 then Some (- EIO, s3) else lock_verify G h did pe own s3 })
            else if flags = 1 then do {
              (rc, s3) \<leftarrow> (if lock \<noteq> 0xFFFF then riocp_pe_lock_write G h did (hopcount pe) lock s2 else Some (0, s2));
              if rc \<noteq> 0 then Some (- EIO, s3)
              else do {
                (rc, s4) \<leftarrow> riocp_pe_lock_write G h did (hopcount pe) own s3;
                if rc \<noteq> 0 then Some (- EIO, s4) else lock_verify G h did pe own s4 } }
            else lock_verify G h did pe own s2) } } }"

definition riocp_pe_unlock :: "'h mgmt \<Rightarrow> handle option \<Rightarrow> 'h riocp \<Rightarrow> (int \<times> 'h riocp) option" where
  "riocp_pe_unlock G p s = do {
     rc \<leftarrow> riocp_pe_handle_check p s;
     if rc \<noteq> 0 then Some (- EINVAL, s)
     else do {
       h \<leftarrow> p;
       (rc, x, s1) \<leftarrow> riocp_pe_maint_read G p RIO_HOST_LOCK s;
       if rc \<noteq> 0 then Some (- EIO, s1)
       else do {
         pe \<leftarrow> pes s1 h;
         m \<leftarrow> mport pe;
         (let (did, s2) = own_did pe s1 in do {
            (rc, s3) \<leftarrow> riocp_pe_lock_clear G m did (hopcount pe) s2;
            Some (if rc \<noteq> 0 then - EIO else 0, s3) }) } } }"

definition riocp_pe_get_destid :: "'h mgmt \<Rightarrow> handle option \<Rightarrow> 'h riocp \<Rightarrow> (int \<times> did_t \<times> 'h riocp) option" where
  "riocp_pe_get_destid G p s = do {
     rc \<leftarrow> riocp_pe_handle_check p s;
     if rc \<noteq> 0 then Some (- EINVAL, DID_INVALID_ID, s)
     else do {
       pe \<leftarrow> at p s;
       if RIOCP_PE_IS_SWITCH (cap pe) then
         (case ct_get_destid (Some DID_INVALID_ID) (comptag pe) (tags s) of (rc, did, st) \<Rightarrow> Some (rc, the did, s\<lparr>tags := st\<rparr>))
       else do {
         (rc, x, s1) \<leftarrow> riocp_pe_maint_read G p 0x60 s;
         if rc \<noteq> 0 then Some (- EIO, DID_INVALID_ID, s1)
         else if pe_did_sz s1 \<noteq> dev08_sz \<and> pe_did_sz s1 \<noteq> dev16_sz then Some (- EINVAL, DID_INVALID_ID, s1)
         else
           (case did_get (Some DID_INVALID_ID) (if pe_did_sz s1 = dev08_sz then GET_DEV8_FROM_HW x else GET_DEV16_FROM_HW x) (ct_dids (tags s1)) of
              (rc, did, ds) \<Rightarrow> Some (if rc \<noteq> 0 then - EINVAL else 0, the did, s1\<lparr>tags := (tags s1)\<lparr>ct_dids := ds\<rparr>\<rparr>)) } } }"

definition riocp_pe_set_destid :: "'h mgmt \<Rightarrow> handle option \<Rightarrow> did_t \<Rightarrow> 'h riocp \<Rightarrow> (int \<times> 'h riocp) option" where
  "riocp_pe_set_destid G p did s = do {
     rc \<leftarrow> riocp_pe_handle_check p s;
     if rc \<noteq> 0 then Some (rc, s)
     else do {
       h \<leftarrow> p;
       pe \<leftarrow> pes s h;
       host \<leftarrow> RIOCP_PE_IS_HOST pe s;
       if \<not> host \<and> \<not> RIOCP_PE_IS_MPORT pe then Some (- EPERM, s)
       else if did_equal (ANY_DID s) did then Some (- EACCES, s)
       else if RIOCP_PE_IS_SWITCH (cap pe) then Some (- ENOSYS, s)
       else if did_get_size did \<noteq> dev08_sz \<and> did_get_size did \<noteq> dev16_sz then Some (- EINVAL, s)
       else
         (let v = did_get_value did; x = (if did_get_size did = dev08_sz then push_bit 16 v AND 0x00FF0000 else v AND 0xFFFF) in do {
            (rc, s1) \<leftarrow> riocp_pe_maint_write G p 0x60 x s;
            if rc \<noteq> 0 then Some (rc, s1)
            else do { s2 \<leftarrow> upd_pe h (\<lambda>pe. pe\<lparr>did_reg_val := v\<rparr>) s1; Some (0, s2) } }) } }"

definition riocp_pe_update_comptag :: "'h mgmt \<Rightarrow> handle option \<Rightarrow> bool \<Rightarrow> 'h riocp \<Rightarrow> (int \<times> 'h riocp) option" where
  "riocp_pe_update_comptag G p wr_did s = do {
     rc \<leftarrow> riocp_pe_handle_check p s;
     if rc \<noteq> 0 then Some (- EINVAL, s)
     else do {
       h \<leftarrow> p;
       pe \<leftarrow> pes s h;
       (rc, s1) \<leftarrow> riocp_pe_maint_write G p 0x6C (comptag pe) s;
       if rc \<noteq> 0 then Some (rc, s1)
       else do {
         (rc, ct, s2) \<leftarrow> riocp_pe_maint_read G p 0x6C s1;
         if rc \<noteq> 0 then Some (rc, s2)
         else if comptag pe \<noteq> ct then do { s3 \<leftarrow> upd_pe h (\<lambda>pe. pe\<lparr>comptag := ct\<rparr>) s2; Some (- EBADF, s3) }
         else
           (let v = comptag pe AND 0xFFFF in
            case did_get (Some DID_INVALID_ID) v (ct_dids (tags s2)) of
              (rc, did, ds) \<Rightarrow>
                (let s3 = s2\<lparr>tags := (tags s2)\<lparr>ct_dids := ds\<rparr>\<rparr> in
                 if rc \<noteq> 0 then Some (- EBADF, s3)
                 else do {
                   (rc, s4) \<leftarrow> (if wr_did then riocp_pe_set_destid G p (the did) s3 else Some (0, s3));
                   s5 \<leftarrow> upd_pe h (\<lambda>pe. pe\<lparr>did_reg_val := v\<rparr>) s4;
                   Some (rc, s5) })) } } }"

definition riocp_pe_get_comptag :: "'h mgmt \<Rightarrow> handle option \<Rightarrow> 'h riocp \<Rightarrow> (int \<times> u32 \<times> 'h riocp) option" where
  "riocp_pe_get_comptag G p s = do {
     rc \<leftarrow> riocp_pe_handle_check p s;
     if rc \<noteq> 0 then Some (- EINVAL, 0, s)
     else do {
       pe \<leftarrow> at p s;
       host \<leftarrow> RIOCP_PE_IS_HOST pe s;
       if host then do {
         (rc, ct, s1) \<leftarrow> riocp_pe_maint_read G p 0x6C s;
         Some (if rc \<noteq> 0 then rc else if comptag pe \<noteq> ct then - EBADF else 0, ct, s1) }
       else Some (0, comptag pe, s) } }"

definition riocp_pe_reset_port :: "'h mgmt \<Rightarrow> handle option \<Rightarrow> u8 \<Rightarrow> bool \<Rightarrow> 'h riocp \<Rightarrow> (int \<times> 'h riocp) option" where
  "riocp_pe_reset_port G p port reset_lp s = do {
     rc \<leftarrow> riocp_pe_handle_check p s;
     if rc \<noteq> 0 then Some (rc, s)
     else do {
       h \<leftarrow> p;
       pe \<leftarrow> pes s h;
       host \<leftarrow> RIOCP_PE_IS_HOST pe s;
       Some (if \<not> host \<and> \<not> RIOCP_PE_IS_MPORT pe then (- EPERM, s)
         else if ucast port \<ge> RIOCP_PE_PORT_COUNT (cap pe) then (- EINVAL, s)
         else riocp_drv_reset_port G h port reset_lp s) } }"

text \<open>After a failed read of the entry the switch stays locked.\<close>

definition riocp_sw_get_route_entry :: "'h mgmt \<Rightarrow> handle option \<Rightarrow> u8 \<Rightarrow> did_t \<Rightarrow> 'h riocp \<Rightarrow> (int \<times> u32 \<times> 'h riocp) option" where
  "riocp_sw_get_route_entry G p lut did s = do {
     rc \<leftarrow> riocp_pe_handle_check p s;
     if rc \<noteq> 0 then Some (- EINVAL, 0, s)
     else do {
       h \<leftarrow> p;
       pe \<leftarrow> pes s h;
       if \<not> RIOCP_PE_IS_SWITCH (cap pe) then Some (- ENOSYS, 0, s)
       else do {
         (rc, s1) \<leftarrow> riocp_pe_lock G p 0 s;
         if rc \<noteq> 0 then Some (- EAGAIN, 0, s1)
         else
           (let (rc, x, s2) = riocp_drv_get_route_entry G h lut did s1 in
            if rc \<noteq> 0 then Some (- EIO, x, s2)
            else do { (rc, s3) \<leftarrow> riocp_pe_unlock G p s2; Some (if rc \<noteq> 0 then - EIO else 0, x, s3) }) } } }"

definition riocp_sw_set_route_entry :: "'h mgmt \<Rightarrow> handle option \<Rightarrow> u8 \<Rightarrow> did_t \<Rightarrow> u32 \<Rightarrow> 'h riocp \<Rightarrow> (int \<times> 'h riocp) option" where
  "riocp_sw_set_route_entry G p lut did port s = do {
     rc \<leftarrow> riocp_pe_handle_check p s;
     if rc \<noteq> 0 then Some (- EINVAL, s)
     else do {
       h \<leftarrow> p;
       pe \<leftarrow> pes s h;
       host \<leftarrow> RIOCP_PE_IS_HOST pe s;
       Some (if \<not> host then (- EPERM, s)
         else if \<not> RIOCP_PE_IS_SWITCH (cap pe) then (- ENOSYS, s)
         else if did_equal (ANY_DID s) did then (- EACCES, s)
         else riocp_drv_set_route_entry G h lut did port s) } }"

section \<open>Master ports\<close>

definition riocp_pe_handle_create_mport ::
  "'h mgmt \<Rightarrow> (nat \<Rightarrow> bool) \<Rightarrow> handle option \<Rightarrow> u8 \<Rightarrow> bool \<Rightarrow> u32 \<Rightarrow> string \<Rightarrow> 'h riocp \<Rightarrow> (int \<times> handle option \<times> 'h riocp) option" where
  "riocp_pe_handle_create_mport G mem new n host ct nm s =
     (case new of
        None \<Rightarrow> Some (- ENOMEM, None, s)
      | Some h \<Rightarrow>
          if \<not> mem 0 \<or> \<not> mem 1 then Some (- ENOMEM, None, s)
          else
            (let pe = pe_zero\<lparr>version := 1, hopcount := 0xFF, mport := Some h, comptag := ct,
                   minfo := Some \<lparr>mp_ref = 1, mp_id = n, is_host = host, any_id_target = None, handles = [None], acc_info = None\<rparr>\<rparr>;
                 fail = (\<lambda>rc s. do { s' \<leftarrow> riocp_pe_handle_destroy G h s; Some (rc, None, s') });
                 (rc, items) = riocp_pe_llist_add (mem 2) (mport_handles s) h;
                 s1 = s\<lparr>pes := (pes s)(h \<mapsto> pe), mport_handles := items\<rparr> in
             if rc \<noteq> 0 then fail rc s1
             else do {
               (rc, s2) \<leftarrow> mpsw_drv_init_pe G (mem 3, mem 4) h None nm s1;
               if rc \<noteq> 0 then fail rc s2
               else do {
                 (rc, s3) \<leftarrow> riocp_pe_read_capabilities G h s2;
                 if rc \<noteq> 0 then fail rc s3
                 else do {
                   (rc, s4) \<leftarrow> riocp_pe_read_features G h s3;
                   if rc \<noteq> 0 then fail rc s4
                   else do {
                     (rc, ct', s5) \<leftarrow> riocp_pe_comptag_read G (Some h) s4;
                     if rc \<noteq> 0 then fail (- EIO) s5
                     else do {
                       s6 \<leftarrow> upd_pe h (\<lambda>pe. pe\<lparr>comptag := ct'\<rparr>) s5;
                       (rc, did, s7) \<leftarrow> riocp_pe_get_destid G (Some h) s6;
                       if rc \<noteq> 0 then fail (- EIO) s7
                       else do {
                         s8 \<leftarrow> upd_pe h (\<lambda>pe. pe\<lparr>did_reg_val := did_get_value did\<rparr>) s7;
                         if \<not> mem 5 then fail (- ENOMEM) s8
                         else do {
                           s9 \<leftarrow> upd_pe h (\<lambda>pe. pe\<lparr>peers := Some (replicate (unat (RIOCP_PE_PORT_COUNT (cap pe))) no_peer)\<rparr>) s8;
                           Some (0, Some h, s9) } } } } } } }))"

definition riocp_pe_create_mport_handle ::
  "'h mgmt \<Rightarrow> (nat \<Rightarrow> bool) \<Rightarrow> handle option \<Rightarrow> u8 \<Rightarrow> u32 \<Rightarrow> bool \<Rightarrow> u32 \<Rightarrow> string \<Rightarrow> 'h riocp \<Rightarrow> (int \<times> handle option \<times> 'h riocp) option" where
  "riocp_pe_create_mport_handle G mem new n lib_rev host ct nm s =
     (if lib_rev \<noteq> 0 then Some (- ENOTSUP, None, s)
      else do {
        (rc, p, s1) \<leftarrow> riocp_pe_handle_mport_exists n host s;
        if rc = 0 then Some (0, p, s1)
        else do {
          (rc, p, s2) \<leftarrow> riocp_pe_handle_create_mport G mem new n host ct nm s1;
          if rc \<noteq> 0 then Some (- ENOMEM, None, s2)
          else if \<not> host then Some (0, p, s2)
          else do {
            h \<leftarrow> p;
            (rc, s3) \<leftarrow> riocp_pe_lock_clear G h (ANY_DID s2) 0 s2;
            if rc \<noteq> 0 then Some (- EAGAIN, None, s3)
            else (let (rc, s4) = riocp_enable_pe G h 0xFF s3 in Some (if rc \<noteq> 0 then (- ENOTSUP, None, s4) else (0, p, s4))) } } })"

end
