(* ===== verification/Pe_Probe.thy ===== *)
theory Pe_Probe
  imports Pe_Ops
begin

unbundle bit_operations_syntax

text \<open>
  Exploration of the network: \<open>riocp_pe_probe\<close> and \<open>riocp_pe_discover\<close> of \<^verbatim>\<open>libriocp_pe/src/riocp_pe.c\<close> with the functions of \<^verbatim>\<open>pe.c\<close> they use.
\<close>

section \<open>Probe\<close>

definition riocp_pe_probe_prepare :: "'h mgmt \<Rightarrow> handle \<Rightarrow> u8 \<Rightarrow> 'h riocp \<Rightarrow> (int \<times> 'h riocp) option" where
  "riocp_pe_probe_prepare G h port s = do {
     pe \<leftarrow> pes s h;
     if \<not> RIOCP_PE_IS_SWITCH (cap pe) then Some (0, s)
     else do {
       (rc, s1) \<leftarrow> riocp_pe_maint_set_anyid_route G h s;
       if rc \<noteq> 0 then Some (- EIO, s1)
       else
         (let (rc, ok, s2) = riocp_drv_get_port_state G h port s1 in
          if rc \<noteq> 0 then Some (- EIO, s2)
          else if \<not> ok then Some (- ENODEV, s2)
          else (let (rc, s3) = riocp_drv_set_route_entry G h 0xFF DID_ANY_DEV8_ID (ucast port) s2 in Some (if rc \<noteq> 0 then - EIO else rc, s3))) } }"

definition riocp_pe_probe_verify_found :: "'h mgmt \<Rightarrow> handle \<Rightarrow> u8 \<Rightarrow> handle \<Rightarrow> 'h riocp \<Rightarrow> (int \<times> 'h riocp) option" where
  "riocp_pe_probe_verify_found G h port p s = do {
     pe \<leftarrow> pes s h;
     let hc = HC_INCR (hopcount pe);
     (rc, s1) \<leftarrow> riocp_drv_raw_reg_wr G pe 0xFF hc 0x6C 0 s;
     if rc \<noteq> 0 then Some (- EIO, s1)
     else do {
       (rc, comptag_alt, s2) \<leftarrow> riocp_drv_raw_reg_rd G pe 0xFF hc 0x6C s1;
       if rc \<noteq> 0 then Some (- EIO, s2)
       else do {
         (rc, comptag_peer, s3) \<leftarrow> riocp_pe_comptag_read G (Some p) s2;
         if rc \<noteq> 0 then Some (- EIO, s3)
         else if comptag_peer = comptag_alt then do {
           (rc, s4) \<leftarrow> riocp_pe_restore G (Some p) s3;
           if rc \<noteq> 0 then Some (- EIO, s4)
           else do {
             (rc, s5) \<leftarrow> riocp_pe_probe_prepare G h port s4;
             Some (if rc \<noteq> 0 then rc else 1, s5) } }
         else do {
           (rc, s4) \<leftarrow> riocp_pe_probe_prepare G h port s3;
           Some (if rc \<noteq> 0 then rc else 0, s4) } } } }"

definition riocp_pe_probe_initialize_peer :: "'h mgmt \<Rightarrow> handle \<Rightarrow> 'h riocp \<Rightarrow> (int \<times> 'h riocp) option" where
  "riocp_pe_probe_initialize_peer G h s = do {
     pe \<leftarrow> pes s h;
     if \<not> RIOCP_PE_IS_SWITCH (cap pe) then Some (0, s)
     else do {
       mp \<leftarrow> at (mport pe) s;
       (case did_get (Some DID_INVALID_ID) (did_reg_val mp) (ct_dids (tags s)) of
          (rc, did, ds) \<Rightarrow>
            (let s1 = s\<lparr>tags := (tags s)\<lparr>ct_dids := ds\<rparr>\<rparr> in
             Some (if rc \<noteq> 0 then (rc, s1) else riocp_drv_set_route_entry G h 0xFF (the did) (RIOCP_PE_SW_PORT (cap pe)) s1))) } }"

text \<open>The two error exits of \<open>riocp_pe_probe\<close>.\<close>

definition probe_err_out :: "'h mgmt \<Rightarrow> handle \<Rightarrow> 'h riocp \<Rightarrow> (int \<times> 'h riocp) option" where
  "probe_err_out G h s = do {
     pe \<leftarrow> pes s h;
     m \<leftarrow> mport pe;
     (let (did, s1) = own_did pe s in do {
        (rc, s2) \<leftarrow> riocp_pe_lock_clear G m did (hopcount pe) s1;
        Some (- EIO, s2) }) }"

definition probe_err :: "'h mgmt \<Rightarrow> handle \<Rightarrow> 'h riocp \<Rightarrow> (int \<times> 'h riocp) option" where
  "probe_err G h s = do { (rc, s1) \<leftarrow> riocp_pe_maint_unset_anyid_route G h s; probe_err_out G h s1 }"

text \<open>
  The component tag of the device behind the port, which is written when the caller dictates it. The accesses go through a copy of the processing
  element that is not a master port. The first result tells whether the accesses succeeded.
\<close>

definition probe_tag :: "'h mgmt \<Rightarrow> riocp_pe \<Rightarrow> u8 \<Rightarrow> u32 \<Rightarrow> bool \<Rightarrow> 'h riocp \<Rightarrow> (bool \<times> u32 \<times> 'h riocp) option" where
  "probe_tag G pe hc comptag_in force_ct s = do {
     let temp_p = pe\<lparr>hopcount := hc, did_reg_val := 0xFF, address := None, minfo := None, peers := None, private_data := NoPrivate\<rparr>;
     (rc1, x1, s1) \<leftarrow> riocp_drv_raw_reg_rd G temp_p 0xFF hc 0x6C s;
     (rc, x, s2) \<leftarrow> (if rc1 \<noteq> 0 then riocp_drv_raw_reg_rd G temp_p 0xFF hc 0x6C s1 else Some (0, x1, s1));
     if rc \<noteq> 0 then Some (False, x, s2)
     else if force_ct \<and> comptag_in \<noteq> x then do {
       (rc, s3) \<leftarrow> riocp_drv_raw_reg_wr G temp_p 0xFF hc 0x6C comptag_in s2;
       Some (rc = 0, comptag_in, s3) }
     else Some (True, x, s2) }"

definition probe_finish :: "'h mgmt \<Rightarrow> handle \<Rightarrow> handle \<Rightarrow> 'h riocp \<Rightarrow> (int \<times> handle option \<times> 'h riocp) option" where
  "probe_finish G h p s = do {
     (rc, s1) \<leftarrow> riocp_pe_maint_unset_anyid_route G p s;
     if rc \<noteq> 0 then do { (rc, s2) \<leftarrow> probe_err_out G h s1; Some (rc, Some p, s2) } else Some (0, Some p, s1) }"

text \<open>A device that is not known: a route to it is set up and a handle is created.\<close>

definition probe_new ::
  "'h mgmt \<Rightarrow> (nat \<Rightarrow> bool) \<Rightarrow> handle option \<Rightarrow> handle \<Rightarrow> u8 \<Rightarrow> u8 \<Rightarrow> u32 \<Rightarrow> string \<Rightarrow> 'h riocp \<Rightarrow> (int \<times> handle option \<times> 'h riocp) option" where
  "probe_new G mem new h hc port comptag_in nm s =
     (case ct_get_destid (Some DID_INVALID_ID) comptag_in (tags s) of
        (_, did, st) \<Rightarrow> do {
          (rc, s1) \<leftarrow> riocp_pe_maint_set_route G h (the did) port (s\<lparr>tags := st\<rparr>);
          if rc \<noteq> 0 then do { (rc, s2) \<leftarrow> probe_err G h s1; Some (rc, None, s2) }
          else do {
            pe \<leftarrow> pes s1 h;
            m \<leftarrow> mport pe;
            (rc, s2) \<leftarrow> riocp_pe_lock_clear G m (ANY_DID s1) hc s1;
            if rc \<noteq> 0 then do { (rc, s3) \<leftarrow> probe_err G h s2; Some (rc, None, s3) }
            else do {
              (rc, p, s3) \<leftarrow> riocp_pe_handle_create_pe G mem new h hc (the did) port comptag_in nm s2;
              if rc \<noteq> 0 then do { (rc, s4) \<leftarrow> probe_err_out G h s3; Some (rc, None, s4) }
              else do { q \<leftarrow> p; probe_finish G h q s3 } } } })"

text \<open>A device that is known already: only a switch gets another peer.\<close>

definition probe_known :: "'h mgmt \<Rightarrow> handle \<Rightarrow> u8 \<Rightarrow> u8 \<Rightarrow> handle \<Rightarrow> 'h riocp \<Rightarrow> (int \<times> handle option \<times> 'h riocp) option" where
  "probe_known G h hc port p s = do {
     pe \<leftarrow> pes s p;
     if \<not> RIOCP_PE_IS_SWITCH (cap pe) then probe_finish G h p s
     else do {
       (rc, x, s1) \<leftarrow> riocp_drv_raw_reg_rd G pe 0xFF hc 0x14 s;
       if rc \<noteq> 0 then do { (rc, s2) \<leftarrow> probe_err G h s1; Some (rc, None, s2) }
       else do {
         (rc, s2) \<leftarrow> riocp_pe_add_peer (Some h) (Some p) port (ucast (x AND 0xFF)) s1;
         if rc \<noteq> 0 then do { (rc, s3) \<leftarrow> probe_err G h s2; Some (rc, None, s3) } else probe_finish G h p s2 } } }"

definition connected :: "riocp_pe \<Rightarrow> u8 \<Rightarrow> bool option" where
  "connected pe port = (if peers pe = None then Some False else map_option (\<lambda>x. peer x \<noteq> None) (get_peer pe port))"

definition riocp_pe_probe ::
  "'h mgmt \<Rightarrow> (nat \<Rightarrow> bool) \<Rightarrow> handle option \<Rightarrow> handle option \<Rightarrow> u8 \<Rightarrow> u32 \<Rightarrow> string \<Rightarrow> bool \<Rightarrow> 'h riocp \<Rightarrow> (int \<times> handle option \<times> 'h riocp) option" where
  "riocp_pe_probe G mem new from port comptag_in nm force_ct s = do {
     rc \<leftarrow> riocp_pe_handle_check from s;
     if rc \<noteq> 0 then Some (- EINVAL, None, s)
     else do {
       h \<leftarrow> from;
       pe \<leftarrow> pes s h;
       host \<leftarrow> RIOCP_PE_IS_HOST pe s;
       if \<not> host then Some (- EPERM, None, s)
       else if ucast port \<ge> RIOCP_PE_PORT_COUNT (cap pe) then Some (- EINVAL, None, s)
       else do {
         let hc = HC_INCR (hopcount pe);
         known \<leftarrow> connected pe port;
         if known then Some (0, None, s)
         else do {
           (rc, s1) \<leftarrow> riocp_pe_probe_prepare G h port s;
           if rc \<noteq> 0 then Some (- EIO, None, s1)
           else if \<not> mem 6 then Some (- ENOMEM, None, s1)
           else do {
             pe1 \<leftarrow> pes s1 h;
             (ok, ct, s2) \<leftarrow> probe_tag G pe1 hc comptag_in force_ct s1;
             if \<not> ok then do { (rc, s3) \<leftarrow> probe_err_out G h s2; Some (rc, None, s3) }
             else do {
               (find_ret, p, s3) \<leftarrow> riocp_pe_find_comptag (mem 7) (mport pe1) ct s2;
               if find_ret < 0 then do { (rc, s4) \<leftarrow> probe_err G h s3; Some (rc, None, s4) }
               else if find_ret \<noteq> 0 then probe_new G mem new h hc port comptag_in nm s3
               else do {
                 q \<leftarrow> p;
                 qe \<leftarrow> pes s3 q;
                 (verif_ret, s4) \<leftarrow> (if RIOCP_PE_IS_MPORT qe then Some (0, s3) else riocp_pe_probe_verify_found G h port q s3);
                 if verif_ret < 0 then do { (rc, s5) \<leftarrow> probe_err G h s4; Some (rc, None, s5) }
                 else if verif_ret = 0 then probe_new G mem new h hc port comptag_in nm s4
                 else probe_known G h hc port q s4 } } } } } } }"

section \<open>Discovery\<close>

text \<open>
  The search in the routing table of a switch for an identifier that is routed to the port, among \<open>n\<close> identifiers from \<open>v\<close> on: the return code of a
  failed access, or the identifier found.
\<close>

primrec route_search :: "'h mgmt \<Rightarrow> handle \<Rightarrow> u8 \<Rightarrow> nat \<Rightarrow> u32 \<Rightarrow> 'h riocp \<Rightarrow> int \<times> did_t option \<times> 'h riocp" where
  "route_search G h port 0 v s = (0, None, s)"
| "route_search G h port (Suc n) v s =
     (case did_get (Some DID_INVALID_ID) v (ct_dids (tags s)) of
        (rc, did, ds) \<Rightarrow>
          (let s1 = s\<lparr>tags := (tags s)\<lparr>ct_dids := ds\<rparr>\<rparr> in
           if rc \<noteq> 0 then route_search G h port n (v + 1) s1
           else
             (let (rc, x, s2) = riocp_drv_get_route_entry G h 0xFF (the did) s1 in
              if rc \<noteq> 0 then (rc, None, s2)
              else if x \<noteq> 0xFF \<and> ucast port = x then (0, did, s2)
              else route_search G h port n (v + 1) s2)))"

text \<open>The last part, after the identifier of the peer is known. The tag that is passed on for a new handle is zero.\<close>

definition discover_peer ::
  "'h mgmt \<Rightarrow> (nat \<Rightarrow> bool) \<Rightarrow> handle option \<Rightarrow> handle \<Rightarrow> u8 \<Rightarrow> did_t \<Rightarrow> string \<Rightarrow> 'h riocp \<Rightarrow> (int \<times> handle option \<times> 'h riocp) option" where
  "discover_peer G mem new h port did nm s = do {
     pe \<leftarrow> pes s h;
     m \<leftarrow> mport pe;
     mp \<leftarrow> pes s m;
     let hc = HC_INCR (hopcount pe);
     (rc, ct, s1) \<leftarrow> riocp_drv_raw_reg_rd G mp (did_get_value did) hc 0x6C s;
     if rc \<noteq> 0 then Some (- EIO, None, s1)
     else if ct = COMPTAG_UNSET then Some (- ENODEV, None, s1)
     else do {
       (found, p) \<leftarrow> riocp_pe_handle_pe_exists m ct s1;
       if found = 0 then do {
         (rc, q, s2) \<leftarrow> riocp_pe_handle_create_pe G mem new h hc did port 0 nm s1;
         Some (if rc \<noteq> 0 then (- ENOMEM, None, s2) else (0, q, s2)) }
       else Some (0, p, s1) } }"

definition riocp_pe_discover ::
  "'h mgmt \<Rightarrow> (nat \<Rightarrow> bool) \<Rightarrow> handle option \<Rightarrow> handle option \<Rightarrow> u8 \<Rightarrow> string \<Rightarrow> 'h riocp \<Rightarrow> (int \<times> handle option \<times> 'h riocp) option" where
  "riocp_pe_discover G mem new from port nm s = do {
     rc \<leftarrow> riocp_pe_handle_check from s;
     if rc \<noteq> 0 then Some (- EINVAL, None, s)
     else do {
       h \<leftarrow> from;
       pe \<leftarrow> pes s h;
       if ucast port \<ge> RIOCP_PE_PORT_COUNT (cap pe) then Some (- EINVAL, None, s)
       else do {
         (active, s1) \<leftarrow> (if RIOCP_PE_IS_SWITCH (cap pe) then riocp_pe_is_port_active G h (ucast port) s else Some (1, s));
         if active < 0 then Some (- EIO, None, s1)
         else if active = 0 then Some (- ENODEV, None, s1)
         else if RIOCP_PE_IS_MPORT pe then discover_peer G mem new h port (ANY_DID s1) nm s1
         else do {
           pe1 \<leftarrow> pes s1 h;
           known \<leftarrow> connected pe1 port;
           if known then do { x \<leftarrow> get_peer pe1 port; Some (0, peer x, s1) }
           else if \<not> RIOCP_PE_IS_SWITCH (cap pe1) then discover_peer G mem new h port (ANY_DID s1) nm s1
           else do {
             (rc, s2) \<leftarrow> riocp_pe_lock G from 0 s1;
             if rc \<noteq> 0 then Some (- EAGAIN, None, s2)
             else
               (let (rc, did, s3) = route_search G h port 0xFE 0 s2 in
                if rc \<noteq> 0 then do { (rc, s4) \<leftarrow> riocp_pe_unlock G from s3; Some (- EIO, None, s4) }
                else case did of
                  None \<Rightarrow> Some (- ENODEV, None, s3)
                | Some d \<Rightarrow> do {
                    (rc, s4) \<leftarrow> riocp_pe_unlock G from s3;
                    if rc \<noteq> 0 then Some (- EIO, None, s4) else discover_peer G mem new h port d nm s4 }) } } } } }"

end
