(* ===== verification/Pe_Frame.thy ===== *)
theory Pe_Frame
  imports Pe_Handle
begin

text \<open>
  What the operations on processing elements keep. \<open>holds Q r\<close> states that the result of an operation, if it is defined, satisfies \<open>Q\<close>, and \<open>safe Q r\<close> that
  it is also defined. \<open>keeps\<close> relates two states of the library with the same handles, network and master ports.
\<close>

section \<open>Results\<close>

named_theorems pe_rules \<open>weakest preconditions\<close>

definition holds :: "('a \<Rightarrow> bool) \<Rightarrow> 'a option \<Rightarrow> bool" where
  "holds Q r \<longleftrightarrow> (\<forall>x. r = Some x \<longrightarrow> Q x)"

definition safe :: "('a \<Rightarrow> bool) \<Rightarrow> 'a option \<Rightarrow> bool" where
  "safe Q r \<longleftrightarrow> (\<exists>x. r = Some x \<and> Q x)"

lemma holds_simps [simp]: "holds Q None" "holds Q (Some x) \<longleftrightarrow> Q x"
  by (simp_all add: holds_def)

lemma holds_value: "(\<And>x. r = Some x \<Longrightarrow> Q x) \<Longrightarrow> holds Q r"
  by (simp add: holds_def)

lemma holds_bind [pe_rules]: "holds (\<lambda>x. holds Q (f x)) r \<Longrightarrow> holds Q (Option.bind r f)"
  by (cases r) (simp_all add: holds_def)

lemma holds_if [pe_rules]:
  "(b \<Longrightarrow> holds Q r) \<Longrightarrow> (\<not> b \<Longrightarrow> holds Q r') \<Longrightarrow> holds Q (if b then r else r')"
  "(b \<Longrightarrow> holds Q (Some x)) \<Longrightarrow> (\<not> b \<Longrightarrow> holds Q (Some y)) \<Longrightarrow> holds Q (Some (if b then x else y))"
  by simp_all

lemma holds_pair [pe_rules]:
  "holds Q (f a b) \<Longrightarrow> holds Q (case (a, b) of (x, y) \<Rightarrow> f x y)"
  by simp

lemma holds_prod [pe_rules]:
  "(\<And>a b. p = (a, b) \<Longrightarrow> holds Q (f a b)) \<Longrightarrow> holds Q (case p of (a, b) \<Rightarrow> f a b)"
  "(\<And>a b. p = (a, b) \<Longrightarrow> holds Q (Some (g a b))) \<Longrightarrow> holds Q (Some (case p of (a, b) \<Rightarrow> g a b))"
  by (cases p; simp)+

lemma holds_option [pe_rules]:
  "(x = None \<Longrightarrow> holds Q r) \<Longrightarrow> (\<And>y. x = Some y \<Longrightarrow> holds Q (f y)) \<Longrightarrow> holds Q (case x of None \<Rightarrow> r | Some y \<Rightarrow> f y)"
  by (cases x) simp_all

lemma holds_result [pe_rules]: "Q x \<Longrightarrow> holds Q (Some x)" "holds Q None"
  by simp_all

lemma holds_mono: "holds P r \<Longrightarrow> (\<And>x. P x \<Longrightarrow> Q x) \<Longrightarrow> holds Q r"
  by (simp add: holds_def)

lemma safe_simps [simp]: "\<not> safe Q None" "safe Q (Some x) \<longleftrightarrow> Q x"
  by (simp_all add: safe_def)

lemma safe_bind: "safe Q (Option.bind r f) \<longleftrightarrow> safe (\<lambda>x. safe Q (f x)) r"
  by (cases r) (simp_all add: safe_def)

lemma safe_mono: "safe P r \<Longrightarrow> (\<And>x. P x \<Longrightarrow> Q x) \<Longrightarrow> safe Q r"
  by (auto simp: safe_def)

lemma safe_holds: "safe P r \<Longrightarrow> holds Q r \<Longrightarrow> safe (\<lambda>x. P x \<and> Q x) r"
  by (auto simp: safe_def holds_def)

section \<open>Frames\<close>

text \<open>What belongs to the network of an element, and what an element has from its creation on.\<close>

definition has_private :: "riocp_pe \<Rightarrow> bool" where
  "has_private pe \<longleftrightarrow> (\<exists>d. private_data pe = Private d)"

definition ready :: "riocp_pe \<Rightarrow> bool" where
  "ready pe \<longleftrightarrow> has_private pe \<and> (\<forall>i. minfo pe = Some i \<longrightarrow> acc_info i = Some True)"

definition core :: "riocp_pe \<Rightarrow> handle option \<times> (u8 \<times> bool \<times> handle option list) option \<times> u8 \<times> u8 list option" where
  "core pe = (mport pe, map_option (\<lambda>i. (mp_id i, is_host i, handles i)) (minfo pe), hopcount pe, address pe)"

definition same_pe :: "riocp_pe \<Rightarrow> riocp_pe \<Rightarrow> bool" where
  "same_pe pe pe' \<longleftrightarrow> core pe' = core pe \<and> map_option mp_ref (minfo pe') = map_option mp_ref (minfo pe) \<and> cap pe' = cap pe \<and> peers pe' = peers pe \<and> (ready pe \<longrightarrow> ready pe')"

definition keeps :: "'h riocp \<Rightarrow> 'h riocp \<Rightarrow> bool" where
  "keeps s s' \<longleftrightarrow> mport_handles s' = mport_handles s \<and> pe_did_sz s' = pe_did_sz s \<and> (\<forall>a. rel_option same_pe (pes s a) (pes s' a))"

text \<open>The same, but for the capabilities, the peers and the private data of an element that is being created.\<close>

definition near :: "handle \<Rightarrow> 'h riocp \<Rightarrow> 'h riocp \<Rightarrow> bool" where
  "near h s s' \<longleftrightarrow> mport_handles s' = mport_handles s \<and> pe_did_sz s' = pe_did_sz s \<and> (\<forall>a. a \<noteq> h \<longrightarrow> rel_option same_pe (pes s a) (pes s' a)) \<and>
     map_option core (pes s' h) = map_option core (pes s h)"

lemma same_pe_refl [simp]: "same_pe pe pe"
  by (simp add: same_pe_def)

lemma same_pe_trans: "same_pe a b \<Longrightarrow> same_pe b c \<Longrightarrow> same_pe a c"
  by (simp add: same_pe_def)

lemma rel_same_refl [simp]: "rel_option same_pe x x"
  by (cases x) simp_all

lemma rel_same_trans: "rel_option same_pe x y \<Longrightarrow> rel_option same_pe y z \<Longrightarrow> rel_option same_pe x z"
  by (cases x; cases y; cases z) (auto intro: same_pe_trans)

lemma keeps_refl [simp]: "keeps s s"
  by (simp add: keeps_def)

lemma keeps_trans: "keeps s t \<Longrightarrow> keeps t u \<Longrightarrow> keeps s u"
  unfolding keeps_def using rel_same_trans by metis

lemma near_refl [simp]: "near h s s"
  by (simp add: near_def)

lemma near_trans: "near h s t \<Longrightarrow> near h t u \<Longrightarrow> near h s u"
  unfolding near_def using rel_same_trans by metis

lemma keeps_near: "keeps s t \<Longrightarrow> near h s t"
proof -
  assume k: "keeps s t"
  then have "rel_option same_pe (pes s h) (pes t h)"
    by (simp add: keeps_def)
  then have "map_option core (pes t h) = map_option core (pes s h)"
    by (cases "pes s h"; cases "pes t h") (auto simp: same_pe_def)
  with k show ?thesis
    by (simp add: keeps_def near_def)
qed

lemma keeps_fabric [simp]: "keeps s (t\<lparr>fabric := f\<rparr>) = keeps s t" "keeps s (t\<lparr>tags := g\<rparr>) = keeps s t"
  "keeps (s\<lparr>fabric := f\<rparr>) t = keeps s t" "keeps (s\<lparr>tags := g\<rparr>) t = keeps s t"
  by (simp_all add: keeps_def)

lemma keeps_upd:
  assumes "upd_pe h f s = Some s'" and "\<And>pe. pes s h = Some pe \<Longrightarrow> same_pe pe (f pe)"
  shows "keeps s s'"
  using assms by (auto simp: upd_pe_def keeps_def split: option.splits)

lemma near_upd:
  assumes "upd_pe h f s = Some s'" and "\<And>pe. pes s h = Some pe \<Longrightarrow> core (f pe) = core pe"
  shows "near h s s'"
  using assms by (auto simp: upd_pe_def near_def split: option.splits)

lemma keeps_upd_minfo:
  assumes "upd_minfo m f s = Some s'"
    and "\<And>i. mp_ref (f i) = mp_ref i \<and> mp_id (f i) = mp_id i \<and> is_host (f i) = is_host i \<and> handles (f i) = handles i \<and> acc_info (f i) = acc_info i"
  shows "keeps s s'"
proof -
  obtain mp i where mp: "pes s m = Some mp" "minfo mp = Some i" and s': "s' = s\<lparr>pes := (pes s)(m \<mapsto> mp\<lparr>minfo := Some (f i)\<rparr>)\<rparr>"
    using assms(1) by (auto simp: upd_minfo_def upd_pe_def at_def split: option.splits)
  have "same_pe mp (mp\<lparr>minfo := Some (f i)\<rparr>)"
    using assms(2) [of i] mp(2) by (simp add: same_pe_def core_def ready_def has_private_def)
  then show ?thesis
    using mp(1) by (simp add: s' keeps_def)
qed

end
