(* ===== verification/Pe_Keep.thy ===== *)
theory Pe_Keep
  imports Pe_Probe Pe_Frame
begin

unbundle bit_operations_syntax

text \<open>
  Rules for the operations that change neither the handles nor the network: they keep every predicate on the library that is stable under \<open>keeps\<close>.
\<close>

lemma holds_let [pe_rules]: "holds Q (f x) \<Longrightarrow> holds Q (let y = x in f y)" "holds Q (Some (g x)) \<Longrightarrow> holds Q (Some (let y = x in g y))"
  by simp_all

lemma same_pe_upd [pe_rules]: "same_pe pe (pe\<lparr>private_data := Private d\<rparr>)" "same_pe pe (pe\<lparr>comptag := ct\<rparr>)" "same_pe pe (pe\<lparr>did_reg_val := v\<rparr>)"
  "same_pe pe (pe\<lparr>efptr := e\<rparr>)" "same_pe pe (pe\<lparr>efptr_phys := x\<rparr>)" "same_pe pe (pe\<lparr>sysfs_name := nm\<rparr>)" "same_pe pe (pe\<lparr>did_grp := g\<rparr>)"
  by (simp_all add: same_pe_def core_def ready_def has_private_def)

lemma same_pe_efb: "efb_fields t a = Some f \<Longrightarrow> same_pe pe (f pe)"
  by (auto simp: efb_fields_def Let_def same_pe_def core_def ready_def has_private_def split: if_splits)

locale stable =
  fixes P :: "'h riocp \<Rightarrow> bool"
  assumes stable: "P s \<Longrightarrow> keeps s s' \<Longrightarrow> P s'"
begin

lemma state_rules: "P s \<Longrightarrow> P (s\<lparr>fabric := f\<rparr>)" "P s \<Longrightarrow> P (s\<lparr>tags := g\<rparr>)"
  by (erule stable, simp)+

lemma upd_rule:
  assumes "P s" and "\<And>pe. same_pe pe (f pe)" and "\<And>s'. P s' \<Longrightarrow> Q s'"
  shows "holds Q (upd_pe h f s)"
  by (rule holds_value, rule assms(3), rule stable [OF assms(1)], erule keeps_upd, rule assms(2))

lemma upd_minfo_rule:
  assumes "P s" and "\<And>s'. P s' \<Longrightarrow> Q s'"
  shows "holds Q (upd_minfo m (\<lambda>i. i\<lparr>any_id_target := t\<rparr>) s)"
  by (rule holds_value, rule assms(2), rule stable [OF assms(1)], erule keeps_upd_minfo) simp

lemmas basic_rules = state_rules upd_rule upd_minfo_rule

lemma access_rules:
  "P s \<Longrightarrow> (\<And>rc x s'. P s' \<Longrightarrow> R (rc, x, s')) \<Longrightarrow> holds R (mpsw_drv_reg_rd G h oset s)"
  "P s \<Longrightarrow> (\<And>rc s'. P s' \<Longrightarrow> Q (rc, s')) \<Longrightarrow> holds Q (mpsw_drv_reg_wr G h oset v s)"
  "P s \<Longrightarrow> (\<And>rc x s'. P s' \<Longrightarrow> R (rc, x, s')) \<Longrightarrow> holds R (mpsw_drv_raw_reg_rd G pe did_val hc oset s)"
  "P s \<Longrightarrow> (\<And>rc s'. P s' \<Longrightarrow> Q (rc, s')) \<Longrightarrow> holds Q (mpsw_drv_raw_reg_wr G pe did_val hc oset v s)"
  unfolding mpsw_drv_reg_rd_def mpsw_drv_reg_wr_def mpsw_drv_raw_reg_rd_def mpsw_drv_raw_reg_wr_def
  by - (rule pe_rules basic_rules | assumption | rule holds_value | simp add: state_rules)+

lemma driver_rules:
  "P s \<Longrightarrow> (\<And>rc x s'. P s' \<Longrightarrow> R (rc, x, s')) \<Longrightarrow> holds R (riocp_drv_reg_rd G h oset s)"
  "P s \<Longrightarrow> (\<And>rc s'. P s' \<Longrightarrow> Q (rc, s')) \<Longrightarrow> holds Q (riocp_drv_reg_wr G h oset v s)"
  "P s \<Longrightarrow> (\<And>rc x s'. P s' \<Longrightarrow> R (rc, x, s')) \<Longrightarrow> holds R (riocp_drv_raw_reg_rd G pe did_val hc oset s)"
  "P s \<Longrightarrow> (\<And>rc s'. P s' \<Longrightarrow> Q (rc, s')) \<Longrightarrow> holds Q (riocp_drv_raw_reg_wr G pe did_val hc oset v s)"
  unfolding riocp_drv_reg_rd_def riocp_drv_reg_wr_def riocp_drv_raw_reg_rd_def riocp_drv_raw_reg_wr_def
  by - (rule pe_rules access_rules | assumption | rule holds_value | simp add: state_rules)+

lemma route_rules:
  "P s \<Longrightarrow> (\<And>rc s'. P s' \<Longrightarrow> holds Q (f rc s')) \<Longrightarrow> holds Q (case riocp_drv_set_route_entry G h port did v s of (rc, s') \<Rightarrow> f rc s')"
  "P s \<Longrightarrow> (\<And>rc s'. P s' \<Longrightarrow> Q' (rc, s')) \<Longrightarrow> holds Q' (Some (riocp_drv_set_route_entry G h port did v s))"
  "P s \<Longrightarrow> (\<And>rc ok s'. P s' \<Longrightarrow> holds Q (g rc ok s')) \<Longrightarrow> holds Q (case riocp_drv_get_port_state G h port s of (rc, ok, s') \<Rightarrow> g rc ok s')"
  "P s \<Longrightarrow> (\<And>rc x s'. P s' \<Longrightarrow> holds Q (k rc x s')) \<Longrightarrow> holds Q (case riocp_drv_get_route_entry G h port did s of (rc, x, s') \<Rightarrow> k rc x s')"
  "P s \<Longrightarrow> (\<And>rc s'. P s' \<Longrightarrow> Q' (rc, s')) \<Longrightarrow> holds Q' (Some (riocp_drv_reset_port G h port lp s))"
  "P s \<Longrightarrow> (\<And>rc s'. P s' \<Longrightarrow> holds Q (f rc s')) \<Longrightarrow> holds Q (case riocp_enable_pe G h port s of (rc, s') \<Rightarrow> f rc s')"
  by (simp_all add: riocp_drv_set_route_entry_def riocp_drv_get_port_state_def riocp_drv_get_route_entry_def riocp_drv_reset_port_def
      riocp_enable_pe_def state_rules split: prod.split)

lemma lock_access_rules:
  "P s \<Longrightarrow> (\<And>rc x s'. P s' \<Longrightarrow> R (rc, x, s')) \<Longrightarrow> holds R (riocp_pe_lock_read G h did hc s)"
  "P s \<Longrightarrow> (\<And>rc s'. P s' \<Longrightarrow> Q (rc, s')) \<Longrightarrow> holds Q (riocp_pe_lock_write G h did hc v s)"
  unfolding riocp_pe_lock_read_def riocp_pe_lock_write_def
  by - (rule pe_rules driver_rules | assumption | rule holds_value | simp add: state_rules)+

lemma lock_rules:
  "P s \<Longrightarrow> (\<And>rc s'. P s' \<Longrightarrow> Q (rc, s')) \<Longrightarrow> holds Q (riocp_pe_lock_set G m did hc s)"
  "P s \<Longrightarrow> (\<And>rc s'. P s' \<Longrightarrow> Q (rc, s')) \<Longrightarrow> holds Q (riocp_pe_lock_clear G m did hc s)"
  unfolding riocp_pe_lock_set_def riocp_pe_lock_clear_def
  by - (rule pe_rules lock_access_rules | assumption | rule holds_value | simp add: state_rules)+

lemma any_route_rule: "P s \<Longrightarrow> (\<And>ok rc vis s'. P s' \<Longrightarrow> Q (ok, rc, vis, s')) \<Longrightarrow> holds Q (any_route G as n i ith vis ret s)"
proof (induction n arbitrary: i ith vis ret s)
  case (Suc n)
  note Q = Suc.prems(2)
  show ?case
    unfolding any_route.simps using Suc.prems(1)
    by - (rule pe_rules lock_rules route_rules Suc.IH Q | assumption | rule holds_value)+
qed simp

lemma clear_locks_rule: "P s \<Longrightarrow> (\<And>rc s'. P s' \<Longrightarrow> Q (rc, s')) \<Longrightarrow> holds Q (clear_locks G hs s)"
proof (induction hs arbitrary: s)
  case (Cons x hs)
  note Q = Cons.prems(2)
  obtain h i where x: "x = (h, i)"
    by fastforce
  show ?case
    unfolding clear_locks.simps x using Cons.prems(1)
    by - (rule pe_rules lock_rules Cons.IH Q | assumption)+
qed simp

lemma did_route_rule: "P s \<Longrightarrow> (\<And>rc s'. P s' \<Longrightarrow> Q (rc, s')) \<Longrightarrow> holds Q (did_route G did as n i ith s)"
proof (induction n arbitrary: i ith s)
  case (Suc n)
  note Q = Suc.prems(2)
  show ?case
    unfolding did_route.simps using Suc.prems(1) by - (rule pe_rules route_rules Suc.IH Q | assumption | rule holds_value)+
qed simp

lemma maint_route_rules:
  "P s \<Longrightarrow> (\<And>rc s'. P s' \<Longrightarrow> Q (rc, s')) \<Longrightarrow> holds Q (riocp_pe_maint_set_anyid_route G h s)"
  "P s \<Longrightarrow> (\<And>rc s'. P s' \<Longrightarrow> Q (rc, s')) \<Longrightarrow> holds Q (riocp_pe_maint_unset_anyid_route G h s)"
  "P s \<Longrightarrow> (\<And>rc s'. P s' \<Longrightarrow> Q (rc, s')) \<Longrightarrow> holds Q (riocp_pe_maint_set_route G h did pnum s)"
  unfolding riocp_pe_maint_set_anyid_route_def riocp_pe_maint_unset_anyid_route_def riocp_pe_maint_set_route_def
  by - (rule pe_rules basic_rules any_route_rule clear_locks_rule did_route_rule route_rules | assumption | rule holds_value | simp add: state_rules)+

lemma maint_rules:
  "P s \<Longrightarrow> (\<And>rc x s'. P s' \<Longrightarrow> R (rc, x, s')) \<Longrightarrow> holds R (riocp_pe_maint_read G p oset s)"
  "P s \<Longrightarrow> (\<And>rc s'. P s' \<Longrightarrow> Q (rc, s')) \<Longrightarrow> holds Q (riocp_pe_maint_write G p oset v s)"
  unfolding riocp_pe_maint_read_def riocp_pe_maint_write_def
  by - (rule pe_rules driver_rules maint_route_rules | assumption | rule holds_value | simp add: state_rules)+

lemma comptag_rules:
  "P s \<Longrightarrow> (\<And>rc x s'. P s' \<Longrightarrow> R (rc, x, s')) \<Longrightarrow> holds R (riocp_pe_comptag_read G p s)"
  "P s \<Longrightarrow> (\<And>rc s'. P s' \<Longrightarrow> Q (rc, s')) \<Longrightarrow> holds Q (riocp_pe_comptag_write G p ct s)"
  "P s \<Longrightarrow> (\<And>rc x s'. P s' \<Longrightarrow> R (rc, x, s')) \<Longrightarrow> holds R (riocp_pe_get_efb G h from s)"
  unfolding riocp_pe_comptag_read_def riocp_pe_comptag_write_def riocp_pe_get_efb_def
  by - (rule pe_rules maint_rules | assumption | rule holds_value | simp add: state_rules)+

lemma efptr_search_rule:
  assumes "P s" and Q: "\<And>rc s'. P s' \<Longrightarrow> Q (rc, s')"
  shows "holds Q (efptr_search G h a s)"
proof (rule holds_value)
  fix x
  assume x: "efptr_search G h a s = Some x"
  show "Q x"
  proof (rule efptr_search.raw_induct [of "\<lambda>G h a s r. P s \<longrightarrow> Q r", THEN mp, OF _ x assms(1)])
    fix srch :: "'h mgmt \<Rightarrow> handle \<Rightarrow> u32 \<Rightarrow> 'h riocp \<Rightarrow> (int \<times> 'h riocp) option" and G h a s x
    assume ih: "\<And>G h a s x. srch G h a s = Some x \<Longrightarrow> P s \<longrightarrow> Q x"
      and x: "(if a = 0 then do { s1 \<leftarrow> upd_pe h (\<lambda>pe. pe\<lparr>efptr_phys := 0\<rparr>) s; Some (0, s1) }
        else
          Option.bind (riocp_pe_maint_read G (Some h) a s) (\<lambda>(rc, x, s1).
            if rc \<noteq> 0 then Some (rc, s1)
            else case efb_fields (x AND 0xFFFF) a of
              Some f \<Rightarrow> do { s2 \<leftarrow> upd_pe h f s1; Some (0, s2) }
            | None \<Rightarrow>
                Option.bind (riocp_pe_get_efb G h a s1) (\<lambda>(rc, next, s2). if rc \<noteq> 0 then Some (rc, s2) else srch G h next s2))) = Some x"
    have srch: "holds Q (srch G h a s)" if "P s" for a s
      using ih that by (simp add: holds_def)
    show "P s \<longrightarrow> Q x"
    proof
      assume "P s"
      then have "holds Q (Some x)"
        unfolding x [symmetric] by - (rule pe_rules basic_rules maint_rules comptag_rules srch Q | assumption | erule same_pe_efb)+
      then show "Q x"
        by simp
    qed
  qed
qed

lemma feature_rules:
  "P s \<Longrightarrow> (\<And>rc s'. P s' \<Longrightarrow> Q (rc, s')) \<Longrightarrow> holds Q (riocp_pe_get_efptr_phys G h s)"
  "P s \<Longrightarrow> (\<And>rc s'. P s' \<Longrightarrow> Q (rc, s')) \<Longrightarrow> holds Q (riocp_pe_is_port_active G h port32 s)"
  "P s \<Longrightarrow> (\<And>rc s'. P s' \<Longrightarrow> Q (rc, s')) \<Longrightarrow> holds Q (riocp_pe_is_discovered G h s)"
  "P s \<Longrightarrow> (\<And>rc s'. P s' \<Longrightarrow> Q (rc, s')) \<Longrightarrow> holds Q (riocp_pe_set_discovered G h s)"
  "P s \<Longrightarrow> (\<And>rc s'. P s' \<Longrightarrow> Q (rc, s')) \<Longrightarrow> holds Q (riocp_pe_port_clear_enumerated G h port s)"
  "P s \<Longrightarrow> (\<And>rc s'. P s' \<Longrightarrow> Q (rc, s')) \<Longrightarrow> holds Q (riocp_pe_switch_port_is_enumerated G h port s)"
  "P s \<Longrightarrow> (\<And>rc s'. P s' \<Longrightarrow> Q (rc, s')) \<Longrightarrow> holds Q (riocp_pe_switch_port_set_enumerated G h port s)"
  unfolding riocp_pe_get_efptr_phys_def riocp_pe_is_port_active_def riocp_pe_is_discovered_def riocp_pe_set_discovered_def riocp_pe_port_clear_enumerated_def riocp_pe_switch_port_is_enumerated_def riocp_pe_switch_port_set_enumerated_def
  by - (rule pe_rules basic_rules maint_rules comptag_rules efptr_search_rule | assumption | rule holds_value | simp add: state_rules)+

lemma read_features_rule:
  "P s \<Longrightarrow> (\<And>rc s'. P s' \<Longrightarrow> Q (rc, s')) \<Longrightarrow> holds Q (riocp_pe_read_features G h s)"
  unfolding riocp_pe_read_features_def
  by - (rule pe_rules feature_rules | assumption | rule holds_value | simp add: state_rules)+

lemma clear_enumerated_from_rule: "P s \<Longrightarrow> (\<And>rc s'. P s' \<Longrightarrow> Q (rc, s')) \<Longrightarrow> holds Q (clear_enumerated_from G h n i s)"
proof (induction n arbitrary: i s)
  case (Suc n)
  note Q = Suc.prems(2)
  show ?case
    unfolding clear_enumerated_from.simps using Suc.prems(1) by - (rule pe_rules feature_rules Suc.IH Q | assumption)+
qed simp

lemma clear_enumerated_rule: "P s \<Longrightarrow> (\<And>rc s'. P s' \<Longrightarrow> Q (rc, s')) \<Longrightarrow> holds Q (riocp_pe_clear_enumerated G h s)"
  unfolding riocp_pe_clear_enumerated_def by (rule holds_bind, rule holds_value, rule clear_enumerated_from_rule)

lemma own_did_rule: "P s \<Longrightarrow> (\<And>did s'. P s' \<Longrightarrow> holds Q (f did s')) \<Longrightarrow> holds Q (case own_did pe s of (did, s') \<Rightarrow> f did s')"
  by (simp add: own_did_def state_rules split: prod.split)

lemma verify_rules:
  "P s \<Longrightarrow> (\<And>rc s'. P s' \<Longrightarrow> Q (rc, s')) \<Longrightarrow> holds Q (lock_verify G h did pe own s)"
  "P s \<Longrightarrow> (\<And>rc s'. P s' \<Longrightarrow> Q (rc, s')) \<Longrightarrow> holds Q (riocp_pe_verify G p s)"
  "P s \<Longrightarrow> (\<And>rc s'. P s' \<Longrightarrow> Q (rc, s')) \<Longrightarrow> holds Q (riocp_pe_restore G p s)"
  unfolding lock_verify_def riocp_pe_verify_def riocp_pe_restore_def
  by - (rule pe_rules lock_access_rules comptag_rules | assumption | rule holds_value | simp add: state_rules)+

lemma host_lock_rules:
  "P s \<Longrightarrow> (\<And>rc s'. P s' \<Longrightarrow> Q (rc, s')) \<Longrightarrow> holds Q (riocp_pe_lock G p flags s)"
  "P s \<Longrightarrow> (\<And>rc s'. P s' \<Longrightarrow> Q (rc, s')) \<Longrightarrow> holds Q (riocp_pe_unlock G p s)"
  unfolding riocp_pe_lock_def riocp_pe_unlock_def
  by - (rule pe_rules maint_rules own_did_rule lock_access_rules lock_rules verify_rules | assumption | rule holds_value | simp add: state_rules)+

lemma destid_rules:
  "P s \<Longrightarrow> (\<And>rc s'. P s' \<Longrightarrow> Q (rc, s')) \<Longrightarrow> holds Q (riocp_pe_set_destid G p did s)"
  "P s \<Longrightarrow> (\<And>rc x s'. P s' \<Longrightarrow> R (rc, x, s')) \<Longrightarrow> holds R (riocp_pe_get_destid G p s)"
  "P s \<Longrightarrow> (\<And>rc x s'. P s' \<Longrightarrow> T (rc, x, s')) \<Longrightarrow> holds T (riocp_pe_get_comptag G q s)"
  unfolding riocp_pe_set_destid_def riocp_pe_get_destid_def riocp_pe_get_comptag_def
  by - (rule pe_rules basic_rules maint_rules | assumption | rule holds_value | simp add: state_rules)+

lemma update_comptag_rule:
  "P s \<Longrightarrow> (\<And>rc s'. P s' \<Longrightarrow> Q (rc, s')) \<Longrightarrow> holds Q (riocp_pe_update_comptag G p wr_did s)"
  unfolding riocp_pe_update_comptag_def
  by - (rule pe_rules basic_rules maint_rules destid_rules | assumption | rule holds_value | simp add: state_rules)+

lemma entry_rules:
  "P s \<Longrightarrow> (\<And>rc s'. P s' \<Longrightarrow> Q (rc, s')) \<Longrightarrow> holds Q (riocp_sw_set_route_entry G p lut did port s)"
  "P s \<Longrightarrow> (\<And>rc s'. P s' \<Longrightarrow> Q (rc, s')) \<Longrightarrow> holds Q (riocp_pe_reset_port G p prt lp s)"
  "P s \<Longrightarrow> (\<And>rc x s'. P s' \<Longrightarrow> R (rc, x, s')) \<Longrightarrow> holds R (riocp_sw_get_route_entry G p lut did s)"
  unfolding riocp_sw_set_route_entry_def riocp_pe_reset_port_def riocp_sw_get_route_entry_def
  by - (rule pe_rules host_lock_rules route_rules | assumption | rule holds_value | simp add: state_rules)+

lemma prepare_rules:
  "P s \<Longrightarrow> (\<And>rc s'. P s' \<Longrightarrow> Q (rc, s')) \<Longrightarrow> holds Q (riocp_pe_probe_prepare G h port s)"
  unfolding riocp_pe_probe_prepare_def
  by - (rule pe_rules maint_route_rules route_rules | assumption | rule holds_value | simp add: state_rules)+

lemma found_rules:
  "P s \<Longrightarrow> (\<And>rc s'. P s' \<Longrightarrow> Q (rc, s')) \<Longrightarrow> holds Q (riocp_pe_probe_verify_found G h port q s)"
  "P s \<Longrightarrow> (\<And>rc s'. P s' \<Longrightarrow> Q (rc, s')) \<Longrightarrow> holds Q (riocp_pe_probe_initialize_peer G h s)"
  "P s \<Longrightarrow> (\<And>rc s'. P s' \<Longrightarrow> Q (rc, s')) \<Longrightarrow> holds Q (probe_err_out G h s)"
  unfolding riocp_pe_probe_verify_found_def riocp_pe_probe_initialize_peer_def probe_err_out_def
  by - (rule pe_rules driver_rules comptag_rules verify_rules prepare_rules state_rules route_rules own_did_rule lock_rules | assumption | rule holds_value | simp add: state_rules)+

lemma probe_err_rule:
  "P s \<Longrightarrow> (\<And>rc s'. P s' \<Longrightarrow> Q (rc, s')) \<Longrightarrow> holds Q (probe_err G h s)"
  unfolding probe_err_def
  by - (rule pe_rules maint_route_rules found_rules | assumption | rule holds_value | simp add: state_rules)+

lemma probe_tag_rules:
  "P s \<Longrightarrow> (\<And>rc x s'. P s' \<Longrightarrow> R (rc, x, s')) \<Longrightarrow> holds R (probe_tag G pe hc ct force s)"
  "P s \<Longrightarrow> (\<And>rc x s'. P s' \<Longrightarrow> T (rc, x, s')) \<Longrightarrow> holds T (riocp_pe_find_comptag mem m ct s)"
  unfolding probe_tag_def riocp_pe_find_comptag_def
  by - (rule pe_rules driver_rules state_rules | assumption | rule holds_value | simp add: state_rules)+

lemma probe_finish_rule:
  "P s \<Longrightarrow> (\<And>rc x s'. P s' \<Longrightarrow> R (rc, x, s')) \<Longrightarrow> holds R (probe_finish G h p s)"
  unfolding probe_finish_def
  by - (rule pe_rules maint_route_rules found_rules | assumption | rule holds_value | simp add: state_rules)+

lemma route_search_keeps: "P s \<Longrightarrow> P (snd (snd (route_search G h port n v s)))"
proof (induction n arbitrary: v s)
  case (Suc n)
  then show ?case
    by (auto simp: riocp_drv_get_route_entry_def Let_def state_rules split: prod.split)
qed simp

lemma route_search_rule:
  "P s \<Longrightarrow> (\<And>rc did s'. P s' \<Longrightarrow> holds Q (f rc did s')) \<Longrightarrow> holds Q (case route_search G h port n v s of (rc, did, s') \<Rightarrow> f rc did s')"
  using route_search_keeps [of s G h port n v] by (cases "route_search G h port n v s") simp

lemma handle_data_rules:
  "P s \<Longrightarrow> (\<And>rc s'. P s' \<Longrightarrow> Q (rc, s')) \<Longrightarrow> holds Q (riocp_pe_handle_set_private p (Private d) s)"
  "P s \<Longrightarrow> (\<And>rc ct' did' s'. P s' \<Longrightarrow> R (rc, ct', did', s')) \<Longrightarrow> holds R (riocp_pe_alloc_ct_did h ct did sz s)"
  "P s \<Longrightarrow> (\<And>rc s'. P s' \<Longrightarrow> Q (rc, s')) \<Longrightarrow> holds Q (Some (riocp_enable_pe G h port s))"
  unfolding riocp_pe_handle_set_private_def riocp_pe_alloc_ct_did_def riocp_enable_pe_def
  by - (rule pe_rules basic_rules | assumption | rule holds_value | simp add: state_rules)+

lemmas all_rules = handle_data_rules route_rules route_search_rule own_did_rule driver_rules lock_access_rules lock_rules maint_route_rules maint_rules comptag_rules
  feature_rules read_features_rule clear_enumerated_rule verify_rules host_lock_rules destid_rules update_comptag_rule entry_rules prepare_rules found_rules
  probe_err_rule probe_tag_rules probe_finish_rule

end

end
