(* ===== verification/Pe_Inv.thy ===== *)
theory Pe_Inv
  imports Pe_Keep
begin

unbundle bit_operations_syntax

text \<open>
  The invariant of the library. Every master port is listed once, it lists each of its processing elements once, and each of these belongs to it; an
  element has a peer entry for each port and its peers are elements of the same master port. Elements in \<open>X\<close> are being created: they are listed, but
  have no peers yet and are the peer of none.
\<close>

section \<open>Invariant\<close>

definition list_ok :: "'a option list \<Rightarrow> bool" where
  "list_ok items \<longleftrightarrow> (\<exists>xs. items = None # map Some xs \<and> distinct xs)"

definition mports :: "'h riocp \<Rightarrow> handle set" where
  "mports s = {m. Some m \<in> set (mport_handles s)}"

definition members :: "'h riocp \<Rightarrow> handle \<Rightarrow> handle set" where
  "members s m = {h. \<exists>mp i. pes s m = Some mp \<and> minfo mp = Some i \<and> Some h \<in> set (handles i)}"

definition valid :: "'h riocp \<Rightarrow> handle \<Rightarrow> bool" where
  "valid s h \<longleftrightarrow> (\<exists>m \<in> mports s. h \<in> insert m (members s m))"

definition mport_ok :: "'h riocp \<Rightarrow> handle \<Rightarrow> bool" where
  "mport_ok s m \<longleftrightarrow> (\<exists>mp i. pes s m = Some mp \<and> minfo mp = Some i \<and> mport mp = Some m \<and> list_ok (handles i))"

definition member_ok :: "'h riocp \<Rightarrow> handle \<Rightarrow> handle \<Rightarrow> bool" where
  "member_ok s m h \<longleftrightarrow> (\<exists>pe. pes s h = Some pe \<and> minfo pe = None \<and> mport pe = Some m)"

definition links_ok :: "handle set \<Rightarrow> handle set \<Rightarrow> riocp_pe \<Rightarrow> bool" where
  "links_ok X H pe \<longleftrightarrow> ready pe \<and>
     (\<exists>ps. peers pe = Some ps \<and> length ps = unat (RIOCP_PE_PORT_COUNT (cap pe)) \<and> (\<forall>x \<in> set ps. \<forall>q. peer x = Some q \<longrightarrow> q \<in> H - X))"

definition lib_inv :: "handle set \<Rightarrow> 'h riocp \<Rightarrow> bool" where
  "lib_inv X s \<longleftrightarrow> pe_did_sz s = dev08_sz \<and> list_ok (mport_handles s) \<and>
     (\<forall>m \<in> mports s. mport_ok s m \<and> (\<forall>h \<in> members s m. member_ok s m h) \<and>
        (\<forall>h \<in> insert m (members s m) - X. \<exists>pe. pes s h = Some pe \<and> links_ok X (insert m (members s m)) pe))"

section \<open>Lists\<close>

lemma llist_unlink_set: "x \<in> set xs \<Longrightarrow> llist_unlink (Some x) (map Some xs) = Some (map Some (remove1 x xs))"
  by (induction xs) auto

lemma llist_del_ok:
  assumes "list_ok items" and "Some h \<in> set items"
  obtains items' where "riocp_pe_llist_del items (Some h) = Some (0, items')" and "list_ok items'" and "set items' = set items - {Some h}"
proof -
  obtain xs where xs: "items = None # map Some xs" "distinct xs"
    using assms(1) by (auto simp: list_ok_def)
  have h: "h \<in> set xs"
    using assms(2) xs by auto
  have "riocp_pe_llist_del items (Some h) = Some (0, None # map Some (remove1 h xs))"
    by (simp add: riocp_pe_llist_del_def xs llist_unlink_set [OF h])
  moreover have "list_ok (None # map Some (remove1 h xs))"
    using xs(2) by (auto simp: list_ok_def)
  moreover have "set (None # map Some (remove1 h xs)) = set items - {Some h}"
    using xs by auto
  ultimately show thesis
    by (rule that)
qed

lemma llist_add_ok: "list_ok items \<Longrightarrow> Some h \<notin> set items \<Longrightarrow> list_ok (items @ [Some h])"
proof -
  assume "list_ok items" "Some h \<notin> set items"
  then obtain xs where "items = None # map Some xs" "distinct xs" "h \<notin> set xs"
    unfolding list_ok_def by (metis image_eqI list.set_intros(2) set_map)
  then show ?thesis
    unfolding list_ok_def by (intro exI [of _ "xs @ [h]"]) simp
qed

section \<open>Frames\<close>

lemma core_fields:
  assumes "core pe' = core pe"
  shows "mport pe' = mport pe" and "minfo pe' = None \<longleftrightarrow> minfo pe = None" and "hopcount pe' = hopcount pe" and "address pe' = address pe"
    and "minfo pe' = Some i' \<Longrightarrow> \<exists>i. minfo pe = Some i \<and> handles i = handles i' \<and> is_host i = is_host i' \<and> mp_id i = mp_id i'"
  using assms by (cases "minfo pe"; cases "minfo pe'"; simp add: core_def)+

lemma core_at:
  assumes "map_option core (pes s' a) = map_option core (pes s a)" and "pes s a = Some pe"
  obtains pe' where "pes s' a = Some pe'" and "core pe' = core pe"
  using assms by (cases "pes s' a") auto

lemma core_members:
  fixes s s' :: "'h riocp"
  assumes "\<And>a. map_option core (pes s' a) = map_option core (pes s a)"
  shows "members s' m = members s m"
proof -
  have sub: "members t m \<subseteq> members t' m" if eq: "\<And>a. map_option core (pes t a) = map_option core (pes t' a)" for t t' :: "'h riocp"
  proof
    fix h
    assume "h \<in> members t m"
    then obtain mp i where "pes t m = Some mp" "minfo mp = Some i" "Some h \<in> set (handles i)"
      by (auto simp: members_def)
    moreover from this obtain mp' where "pes t' m = Some mp'" "core mp' = core mp"
      using core_at [OF eq [symmetric]] by metis
    ultimately show "h \<in> members t' m"
      using core_fields(5) [of mp mp'] by (force simp: members_def)
  qed
  show ?thesis
    using sub [of s' s] sub [of s s'] assms by (metis subset_antisym)
qed

lemma inv_core:
  fixes s s' :: "'h riocp"
  assumes inv: "lib_inv X s" and core: "\<And>a. map_option core (pes s' a) = map_option core (pes s a)"
    and links: "\<And>m a pe. m \<in> mports s \<Longrightarrow> a \<in> insert m (members s m) - X \<Longrightarrow> pes s a = Some pe \<Longrightarrow> links_ok X (insert m (members s m)) pe \<Longrightarrow>
      \<exists>pe'. pes s' a = Some pe' \<and> links_ok X (insert m (members s m)) pe'"
    and lists: "mport_handles s' = mport_handles s" "pe_did_sz s' = pe_did_sz s"
  shows "lib_inv X s'"
proof -
  have mem: "members s' m = members s m" for m
    using core by (rule core_members)
  have mp: "mports s' = mports s"
    by (simp add: mports_def lists)
  have "mport_ok s' m" if ok: "mport_ok s m" for m
  proof -
    obtain mp i where mp: "pes s m = Some mp" "minfo mp = Some i" "mport mp = Some m" "list_ok (handles i)"
      using ok by (auto simp: mport_ok_def)
    obtain mp' where mp': "pes s' m = Some mp'" "core mp' = core mp"
      using core_at [OF core mp(1)] .
    then obtain i' where "minfo mp' = Some i'" "handles i' = handles i"
      using core_fields(5) [of mp mp' i] mp(2) by auto
    with mp mp' show ?thesis
      using core_fields(1) [OF mp'(2)] by (simp add: mport_ok_def)
  qed
  moreover have "member_ok s' m h" if ok: "member_ok s m h" for m h
  proof -
    obtain pe where pe: "pes s h = Some pe" "minfo pe = None" "mport pe = Some m"
      using ok by (auto simp: member_ok_def)
    obtain pe' where "pes s' h = Some pe'" "core pe' = core pe"
      using core_at [OF core pe(1)] .
    with pe show ?thesis
      using core_fields(1,2) [of pe' pe] by (simp add: member_ok_def)
  qed
  ultimately show ?thesis
    using inv links unfolding lib_inv_def mem mp lists by blast
qed

lemma inv_frame:
  fixes s s' :: "'h riocp"
  assumes inv: "lib_inv X s" and core: "\<And>a. map_option core (pes s' a) = map_option core (pes s a)"
    and same: "\<And>a. a \<notin> X \<Longrightarrow> rel_option same_pe (pes s a) (pes s' a)" and lists: "mport_handles s' = mport_handles s" "pe_did_sz s' = pe_did_sz s"
  shows "lib_inv X s'"
proof (rule inv_core [OF inv core _ lists])
  fix m a pe
  assume pe: "a \<in> insert m (members s m) - X" "pes s a = Some pe" "links_ok X (insert m (members s m)) pe"
  then obtain pe' where "pes s' a = Some pe'" "same_pe pe pe'"
    using same [of a] by (cases "pes s' a") auto
  with pe(3) show "\<exists>pe'. pes s' a = Some pe' \<and> links_ok X (insert m (members s m)) pe'"
    by (simp add: links_ok_def same_pe_def)
qed

lemma inv_near:
  assumes "lib_inv X s" and "near h s s'" and "h \<in> X"
  shows "lib_inv X s'"
  using assms(1)
proof (rule inv_frame)
  fix a
  show "map_option core (pes s' a) = map_option core (pes s a)"
  proof (cases "a = h")
    case False
    then have "rel_option same_pe (pes s a) (pes s' a)"
      using assms(2) by (simp add: near_def)
    then show ?thesis
      by (cases "pes s a"; cases "pes s' a") (auto simp: same_pe_def)
  qed (use assms(2) in \<open>simp add: near_def\<close>)
  show "a \<notin> X \<Longrightarrow> rel_option same_pe (pes s a) (pes s' a)"
    using assms(2,3) by (auto simp: near_def)
qed (use assms(2) in \<open>simp_all add: near_def\<close>)

lemma inv_keeps:
  assumes "lib_inv X s" and "keeps s s'"
  shows "lib_inv X s'"
  using assms(1)
proof (rule inv_frame)
  fix a
  show "map_option core (pes s' a) = map_option core (pes s a)"
    using keeps_near [OF assms(2), of a] by (simp add: near_def)
qed (use assms(2) in \<open>simp_all add: keeps_def\<close>)

interpretation inv: stable "lib_inv X" for X
  by unfold_locales (rule inv_keeps)

section \<open>Checks of handles\<close>

lemma find_set: "riocp_pe_llist_find items (Some h) \<noteq> None \<longleftrightarrow> Some h \<in> set items"
  by (simp add: riocp_pe_llist_find_def)

lemma search_mports_ok:
  assumes "\<And>m. Some m \<in> set items \<Longrightarrow> mport_ok s m"
  shows "search_mports s (Some h) items = Some (\<exists>m. Some m \<in> set items \<and> h \<in> members s m)"
  using assms
proof (induction items)
  case (Cons x items)
  show ?case
  proof (cases x)
    case (Some m)
    with Cons.prems obtain mp i where mp: "pes s m = Some mp" "minfo mp = Some i"
      by (fastforce simp: mport_ok_def)
    then have "h \<in> members s m \<longleftrightarrow> Some h \<in> set (handles i)"
      by (simp add: members_def)
    with Cons Some show ?thesis
      by (auto simp: mp riocp_pe_llist_find_def)
  qed (use Cons in simp)
qed simp

lemma handle_check_valid:
  assumes "lib_inv X s"
  shows "riocp_pe_handle_check (Some h) s = Some (if valid s h then 0 else - ENOENT)"
proof -
  have "search_mports s (Some h) (mport_handles s) = Some (\<exists>m. Some m \<in> set (mport_handles s) \<and> h \<in> members s m)"
    using assms by (intro search_mports_ok) (simp add: lib_inv_def mports_def)
  then show ?thesis
    by (auto simp: riocp_pe_handle_check_def riocp_pe_llist_find_def valid_def mports_def)
qed

section \<open>Elements\<close>

lemma inv_parts:
  assumes "lib_inv X s" and "m \<in> mports s"
  shows "mport_ok s m" and "h \<in> members s m \<Longrightarrow> member_ok s m h"
    and "h \<in> insert m (members s m) \<Longrightarrow> h \<notin> X \<Longrightarrow> \<exists>pe. pes s h = Some pe \<and> links_ok X (insert m (members s m)) pe"
  using assms unfolding lib_inv_def by blast+

lemma inv_mport:
  assumes "lib_inv X s" and "m \<in> mports s"
  obtains mp i where "pes s m = Some mp" and "minfo mp = Some i" and "mport mp = Some m" and "list_ok (handles i)"
    and "members s m = {h. Some h \<in> set (handles i)}"
proof -
  obtain mp i where mp: "pes s m = Some mp" "minfo mp = Some i" "mport mp = Some m" "list_ok (handles i)"
    using inv_parts(1) [OF assms] by (auto simp: mport_ok_def)
  moreover have "members s m = {h. Some h \<in> set (handles i)}"
    by (simp add: members_def mp)
  ultimately show thesis
    by (rule that)
qed

lemma inv_member:
  assumes "lib_inv X s" and "m \<in> mports s" and "h \<in> members s m"
  obtains pe where "pes s h = Some pe" and "minfo pe = None" and "mport pe = Some m"
  using inv_parts(2) [OF assms] by (auto simp: member_ok_def)

lemma inv_element:
  assumes "lib_inv X s" and "m \<in> mports s" and "h \<in> insert m (members s m)"
  obtains pe where "pes s h = Some pe" and "mport pe = Some m"
  using inv_mport [OF assms(1,2)] inv_member [OF assms(1,2)] assms(3) by (metis insertE)

lemma inv_not_mport: "lib_inv X s \<Longrightarrow> m \<in> mports s \<Longrightarrow> h \<in> members s m \<Longrightarrow> h \<notin> mports s"
  by (metis inv_member inv_mport option.distinct(1) option.inject)

lemma inv_owner: "lib_inv X s \<Longrightarrow> m \<in> mports s \<Longrightarrow> m' \<in> mports s \<Longrightarrow> h \<in> insert m (members s m) \<Longrightarrow> h \<in> insert m' (members s m') \<Longrightarrow> m = m'"
  by (metis inv_element option.inject)

lemma inv_links: "lib_inv X s \<Longrightarrow> m \<in> mports s \<Longrightarrow> h \<in> insert m (members s m) \<Longrightarrow> h \<notin> X \<Longrightarrow> pes s h = Some pe \<Longrightarrow> links_ok X (insert m (members s m)) pe"
  using inv_parts(3) by fastforce

lemma inv_intro:
  assumes "pe_did_sz s = dev08_sz" and "list_ok (mport_handles s)" and "\<And>m. m \<in> mports s \<Longrightarrow> mport_ok s m"
    and "\<And>m h. m \<in> mports s \<Longrightarrow> h \<in> members s m \<Longrightarrow> member_ok s m h"
    and "\<And>m h. m \<in> mports s \<Longrightarrow> h \<in> insert m (members s m) \<Longrightarrow> h \<notin> X \<Longrightarrow> \<exists>pe. pes s h = Some pe \<and> links_ok X (insert m (members s m)) pe"
  shows "lib_inv X s"
  using assms by (simp add: lib_inv_def)

lemma inv_finish:
  assumes inv: "lib_inv {h} s" and m: "m \<in> mports s" and h: "h \<in> insert m (members s m)" "pes s h = Some pe" and pe: "links_ok {} (insert m (members s m)) pe"
  shows "lib_inv {} s"
proof (rule inv_intro)
  fix n a
  assume n: "n \<in> mports s" "a \<in> insert n (members s n)"
  show "\<exists>pe. pes s a = Some pe \<and> links_ok {} (insert n (members s n)) pe"
  proof (cases "a = h")
    case True
    then have "n = m"
      using inv_owner [OF inv] n m h(1) by blast
    with True h(2) pe show ?thesis
      by blast
  next
    case False
    with inv_parts(3) [OF inv n] obtain pe where "pes s a = Some pe" "links_ok {h} (insert n (members s n)) pe"
      by blast
    then show ?thesis
      by (auto simp: links_ok_def)
  qed
qed (use inv in \<open>simp_all add: lib_inv_def\<close>)

section \<open>Links\<close>

lemma set_peer_inv:
  assumes inv: "lib_inv {} s" and m: "m \<in> mports s" and b: "b \<in> insert m (members s m)" and a: "a \<in> insert m (members s m)"
  shows "holds (\<lambda>s'. lib_inv {} s' \<and> mports s' = mports s \<and> members s' m = members s m) (set_peer a p \<lparr>peer = Some b, remote_port = q\<rparr> s)"
proof (rule holds_value)
  fix s'
  assume "set_peer a p \<lparr>peer = Some b, remote_port = q\<rparr> s = Some s'"
  then obtain pe ps where pe: "pes s a = Some pe" "peers pe = Some ps"
    and s': "s' = s\<lparr>pes := (pes s)(a \<mapsto> pe\<lparr>peers := Some (ps[unat p := \<lparr>peer = Some b, remote_port = q\<rparr>])\<rparr>)\<rparr>"
    by (auto simp: set_peer_def upd_pe_def split: bind_splits if_splits)
  have core: "map_option core (pes s' x) = map_option core (pes s x)" for x
    by (simp add: s' pe core_def)
  have "lib_inv {} s'"
  proof (rule inv_core [OF inv core])
    fix n x pe'
    assume n: "n \<in> mports s" "x \<in> insert n (members s n) - {}" "pes s x = Some pe'" "links_ok {} (insert n (members s n)) pe'"
    show "\<exists>pe'. pes s' x = Some pe' \<and> links_ok {} (insert n (members s n)) pe'"
    proof (cases "x = a")
      case True
      then have "n = m"
        using inv_owner [OF inv n(1) m] n(2) a by blast
      with True n pe b show ?thesis
        using set_update_subset_insert [of ps "unat p" "\<lparr>peer = Some b, remote_port = q\<rparr>"]
        by (fastforce simp: s' links_ok_def ready_def has_private_def)
    next
      case False
      with n show ?thesis
        by (simp add: s')
    qed
  qed (simp_all add: s')
  moreover have "mports s' = mports s"
    by (simp add: s' mports_def)
  moreover have "members s' m = members s m"
    using core by (rule core_members)
  ultimately show "lib_inv {} s' \<and> mports s' = mports s \<and> members s' m = members s m"
    by simp
qed

lemma add_peer_inv:
  assumes inv: "lib_inv {} s" and m: "m \<in> mports s" and a: "a \<in> insert m (members s m)" and b: "b \<in> insert m (members s m)"
  shows "holds (\<lambda>(rc, s'). lib_inv {} s' \<and> (rc \<noteq> 0 \<longrightarrow> s' = s)) (riocp_pe_add_peer (Some a) (Some b) p q s)"
proof -
  have "holds (\<lambda>s'. holds (lib_inv {}) (set_peer b q \<lparr>peer = Some a, remote_port = p\<rparr> s')) (set_peer a p \<lparr>peer = Some b, remote_port = q\<rparr> s)"
    by (rule holds_mono [OF set_peer_inv [OF inv m b a]], rule holds_mono, rule set_peer_inv [where m = m]) (use m a b in auto)
  then show ?thesis
    using inv by (auto simp: riocp_pe_add_peer_def holds_def split: bind_splits if_splits)
qed

end
