(* ===== verification/Pe_Create.thy ===== *)
theory Pe_Create
  imports Pe_Inv
begin

unbundle bit_operations_syntax

text \<open>
  Creation and destruction of processing elements and master ports keep the invariant of the library.
\<close>

section \<open>Creation and destruction\<close>

text \<open>A change of the list of one master port, and of one element that is not a peer and not in the list of another one.\<close>

lemma inv_relist:
  fixes s s' :: "'h riocp"
  assumes inv: "lib_inv X s" and m: "m \<in> mports s" "pes s m = Some mp" "minfo mp = Some i" and h: "h \<notin> mports s"
    and other: "\<And>n. n \<in> mports s \<Longrightarrow> n \<noteq> m \<Longrightarrow> h \<notin> members s n"
    and pes: "pes s' = (pes s)(m \<mapsto> mp\<lparr>minfo := Some (i\<lparr>handles := items\<rparr>)\<rparr>, h := x)" and lists: "mport_handles s' = mport_handles s" "pe_did_sz s' = pe_did_sz s"
    and items: "list_ok items" "{a. Some a \<in> set items} - {h} = members s m - {h}" "Some h \<in> set items \<Longrightarrow> member_ok s' m h"
    and X: "h \<in> X \<or> h \<notin> members s m" "h \<in> X' \<or> Some h \<notin> set items" "X - {h} = X' - {h}"
  shows "lib_inv X' s'"
proof (rule inv_intro)
  have hm: "h \<noteq> m"
    using h m(1) by blast
  have mem: "members s' m = {a. Some a \<in> set items}"
    using hm by (simp add: members_def pes)
  have mem_n: "members s' n = members s n" if "n \<in> mports s" "n \<noteq> m" for n
    using that h by (auto simp: members_def pes)
  have mp: "mports s' = mports s"
    by (simp add: mports_def lists)
  show "pe_did_sz s' = dev08_sz" "list_ok (mport_handles s')"
    using inv by (simp_all add: lib_inv_def lists)
  fix n
  assume "n \<in> mports s'"
  then have n: "n \<in> mports s" "n \<noteq> h"
    using h mp by auto
  show "mport_ok s' n"
  proof (cases "n = m")
    case True
    then show ?thesis
      using hm items(1) inv_mport [OF inv m(1)] m(2) by (auto simp: mport_ok_def pes)
  next
    case False
    then show ?thesis
      using inv_parts(1) [OF inv n(1)] n(2) by (simp add: mport_ok_def pes)
  qed
  fix a
  show "member_ok s' n a" if a: "a \<in> members s' n"
  proof (cases "a = h")
    case True
    then show ?thesis
      using a mem mem_n other n items(3) by (cases "n = m") auto
  next
    case False
    have am: "a \<in> members s n"
      using a False mem mem_n n items(2) by (cases "n = m") auto
    then have "a \<noteq> m"
      using inv_not_mport [OF inv n(1)] m(1) by blast
    with False show ?thesis
      using inv_parts(2) [OF inv n(1) am] by (simp add: member_ok_def pes)
  qed
  assume a: "a \<in> insert n (members s' n)" "a \<notin> X'"
  have ah: "a \<noteq> h"
    using a n X(2) mem mem_n other by (cases "n = m") auto
  have an: "a \<in> insert n (members s n)" "a \<notin> X"
    using a ah mem mem_n n items(2) X(3) by (cases "n = m"; auto)+
  obtain pe where pe: "pes s a = Some pe" "links_ok X (insert n (members s n)) pe"
    using inv_parts(3) [OF inv n(1) an] by blast
  have sub: "insert n (members s n) - X \<subseteq> insert n (members s' n) - X'"
  proof
    fix b
    assume b: "b \<in> insert n (members s n) - X"
    then have bh: "b \<noteq> h"
      using n X(1) other by (cases "n = m") auto
    then have "b \<in> insert n (members s' n)"
      using b n mem mem_n items(2) by (cases "n = m") auto
    with b bh X(3) show "b \<in> insert n (members s' n) - X'"
      by blast
  qed
  have "links_ok X' (insert n (members s' n)) pe"
    using pe(2) sub unfolding links_ok_def by blast
  then show "\<exists>pe. pes s' a = Some pe \<and> links_ok X' (insert n (members s' n)) pe"
    using pe(1) ah m(2,3) by (auto simp: pes links_ok_def ready_def has_private_def)
qed

lemma near_core:
  assumes "near h s s'"
  shows "map_option core (pes s' a) = map_option core (pes s a)"
proof (cases "a = h")
  case False
  then have "rel_option same_pe (pes s a) (pes s' a)"
    using assms by (simp add: near_def)
  then show ?thesis
    by (cases "pes s a"; cases "pes s' a") (auto simp: same_pe_def)
qed (use assms in \<open>simp add: near_def\<close>)

lemma near_lists: "near h s s' \<Longrightarrow> mports s' = mports s" "near h s s' \<Longrightarrow> members s' m = members s m"
  using core_members [OF near_core] by (simp_all add: mports_def near_def)

definition ready_at :: "'h riocp \<Rightarrow> handle \<Rightarrow> bool" where
  "ready_at s h \<longleftrightarrow> (\<exists>pe. pes s h = Some pe \<and> ready pe)"

text \<open>What holds of the library while the element \<open>h\<close> is being created; the argument tells whether its driver data is complete.\<close>

locale creation =
  fixes C :: "bool \<Rightarrow> 'h riocp \<Rightarrow> bool" and h :: handle
  assumes C_near: "C r s \<Longrightarrow> near h s s' \<Longrightarrow> (r' \<Longrightarrow> ready_at s' h) \<Longrightarrow> C r' s'"
    and C_ready: "C True s \<Longrightarrow> ready_at s h"
begin

lemma C_keeps: "C r s \<Longrightarrow> keeps s s' \<Longrightarrow> C r s'"
proof (rule C_near, assumption, erule keeps_near)
  assume "C r s" "keeps s s'" r
  then obtain pe where "pes s h = Some pe" "ready pe"
    using C_ready by (auto simp: ready_at_def)
  moreover have "rel_option same_pe (pes s h) (pes s' h)"
    using \<open>keeps s s'\<close> by (simp add: keeps_def)
  ultimately show "ready_at s' h"
    by (cases "pes s' h") (auto simp: same_pe_def ready_at_def)
qed

lemma C_upd:
  assumes "C r s" and "\<And>pe. core (f pe) = core pe \<and> (ready pe \<longrightarrow> ready (f pe))" and "\<And>s'. C r s' \<Longrightarrow> Q s'"
  shows "holds Q (upd_pe h f s)"
proof (rule holds_value, rule assms(3))
  fix s'
  assume s': "upd_pe h f s = Some s'"
  show "C r s'"
  proof (rule C_near [OF assms(1)])
    show "near h s s'"
      using s' by (rule near_upd) (use assms(2) in blast)
    show "ready_at s' h" if r
      using that assms(2) C_ready [of s] assms(1) s' by (auto simp: ready_at_def upd_pe_def split: option.splits)
  qed
qed

end

sublocale creation \<subseteq> stable "C r" for r
  by unfold_locales (rule C_keeps)

context creation
begin

lemma read_field_rule:
  assumes "C r s" and "\<And>rc s'. C r s' \<Longrightarrow> Q (rc, s')"
  shows "holds Q (read_field G h oset f (rc, s))"
proof -
  have cap: "core (pe\<lparr>cap := c\<rparr>) = core pe \<and> (ready pe \<longrightarrow> ready (pe\<lparr>cap := c\<rparr>))" for pe c
    by (simp add: core_def ready_def has_private_def)
  show ?thesis
    unfolding read_field_def fst_conv snd_conv by (rule pe_rules maint_rules C_upd assms cap | assumption)+
qed

lemma read_capabilities_rule:
  assumes "C r s" and "\<And>rc s'. C r s' \<Longrightarrow> Q (rc, s')"
  shows "holds Q (riocp_pe_read_capabilities G h s)"
  unfolding riocp_pe_read_capabilities_def by (rule pe_rules read_field_rule assms | assumption)+

lemma dev_add_rule:
  assumes "C r s" and "\<And>rc s'. C r s' \<Longrightarrow> Q (rc, s')"
  shows "holds Q (mpsw_mport_dev_add G h nm s)"
  unfolding mpsw_mport_dev_add_def by (rule pe_rules basic_rules assms | assumption | rule holds_value)+

text \<open>The initialization by the driver, when the allocation of the driver data completes it.\<close>

lemma init_pe_rule:
  assumes C: "C False s" and no: "\<And>pe. pes s h = Some pe \<Longrightarrow> private_data pe = NoPrivate"
    and alloc: "holds (\<lambda>(rc, s'). C (rc = 0) s') (mpsw_alloc_priv_data G mem h from s)"
    and Q: "\<And>rc s'. C (rc = 0) s' \<Longrightarrow> Q (rc, s')"
  shows "holds Q (mpsw_drv_init_pe G mem h from nm s)"
proof -
  have alloc_rule: "holds R (mpsw_alloc_priv_data G mem h from s)" if "\<And>rc s'. C (rc = 0) s' \<Longrightarrow> R (rc, s')" for R
    using alloc by (rule holds_mono) (use that in auto)
  have Q1: "Q (rc, s')" if "C (c = 0) s'" "\<not> c \<noteq> 0" for rc s' and c :: int
  proof (rule Q)
    have "C True s'" "ready_at s' h"
      using that C_ready by simp_all
    then show "C (rc = 0) s'"
      using C_near [OF _ near_refl] by blast
  qed
  show ?thesis
    unfolding mpsw_drv_init_pe_def
    by (rule holds_pair pe_rules alloc_rule access_rules basic_rules dev_add_rule
        | assumption | (rule Q, assumption) | (rule Q1, assumption, assumption)
        | (rule Q1, rule basic_rules, assumption, assumption) | (erule notE, erule no) | (drule no, erule notE, assumption) | rule holds_value)+
qed

end

text \<open>An element of master port \<open>m\<close> that is being created from the element \<open>p\<close>.\<close>

definition making :: "handle \<Rightarrow> handle \<Rightarrow> handle \<Rightarrow> bool \<Rightarrow> 'h riocp \<Rightarrow> bool" where
  "making m p h r s \<longleftrightarrow> lib_inv {h} s \<and> m \<in> mports s \<and> h \<in> members s m \<and> p \<in> insert m (members s m) \<and> p \<noteq> h \<and> (r \<longrightarrow> ready_at s h)"

interpretation mk: creation "making m p h" h for m p h
proof
  show "making m p h r' s'" if "making m p h r s" "near h s s'" "r' \<Longrightarrow> ready_at s' h" for r s s' r'
    using that inv_near [of "{h}" s h s'] near_lists [OF that(2)] by (simp add: making_def)
  show "making m p h True s \<Longrightarrow> ready_at s h" for s
    by (simp add: making_def)
qed

lemma alloc_priv_rule:
  assumes mk: "making m p h False s" and no: "\<And>pe. pes s h = Some pe \<Longrightarrow> private_data pe = NoPrivate"
  shows "holds (\<lambda>(rc, s'). making m p h (rc = 0) s') (mpsw_alloc_priv_data G mem h (Some p) s)"
proof -
  obtain pe where pe: "pes s h = Some pe" "minfo pe = None" "mport pe = Some m"
    using mk inv_member unfolding making_def by blast
  obtain q where q: "pes s p = Some q" "mport q = Some m"
    using mk inv_element unfolding making_def by metis
  have ph: "p \<noteq> h"
    using mk by (simp add: making_def)
  show ?thesis
  proof (cases "fst mem")
    case True
    define s1 where "s1 = s\<lparr>pes := (pes s)(h \<mapsto> pe\<lparr>private_data := Private \<lparr>dev_h_valid = False, dev_h = dev_zero\<rparr>\<rparr>)\<rparr>"
    have s1: "upd_pe h (\<lambda>pe. pe\<lparr>private_data := Private \<lparr>dev_h_valid = False, dev_h = dev_zero\<rparr>\<rparr>) s = Some s1"
      by (simp add: upd_pe_def pe s1_def)
    have mk1: "making m p h True s1"
    proof (rule mk.C_near [OF mk])
      show "near h s s1"
        using s1 by (rule near_upd) (simp add: core_def)
      show "ready_at s1 h"
        using pe(2) by (simp add: ready_at_def s1_def ready_def has_private_def)
    qed
    have eq: "pe\<lparr>private_data := d, mport := Some m\<rparr> = pe\<lparr>private_data := d\<rparr>" for d
      using pe(3) by simp
    have "mpsw_alloc_priv_data G mem h (Some p) s = Some (0, s1)"
      using True s1 pe q ph by (simp add: mpsw_alloc_priv_data_def upd_pe_def eq s1_def)
    with mk1 show ?thesis
      by simp
  next
    case False
    then show ?thesis
      using mk no [OF pe(1)] by (simp add: mpsw_alloc_priv_data_def mpsw_destroy_priv_data_def pe)
  qed
qed

lemmas making_init = mk.init_pe_rule [OF _ _ alloc_priv_rule]

lemma destroy_pe_inv:
  assumes "making m p h r s"
  obtains s' where "destroy_pe h s = Some s'" and "lib_inv {} s'"
proof -
  have inv: "lib_inv {h} s" and m: "m \<in> mports s" and h: "h \<in> members s m"
    using assms by (simp_all add: making_def)
  obtain mp i where mp: "pes s m = Some mp" "minfo mp = Some i" "list_ok (handles i)" "members s m = {h. Some h \<in> set (handles i)}"
    using inv_mport [OF inv m] by metis
  obtain pe where pe: "pes s h = Some pe" "mport pe = Some m" "minfo pe = None"
    using inv_member [OF inv m h] by metis
  obtain items where items: "riocp_pe_llist_del (handles i) (Some h) = Some (0, items)" "list_ok items" "set items = set (handles i) - {Some h}"
    using llist_del_ok [OF mp(3), of h] h mp(4) by auto
  define s' where "s' = s\<lparr>pes := (pes s)(m \<mapsto> mp\<lparr>minfo := Some (i\<lparr>handles := items\<rparr>)\<rparr>, h := None)\<rparr>"
  have "destroy_pe h s = Some s'"
    using pe mp items(1) by (simp add: destroy_pe_def mport_info_def at_def upd_minfo_def upd_pe_def s'_def)
  moreover have "lib_inv {} s'"
  proof (rule inv_relist [OF inv m mp(1,2)])
    show "h \<notin> mports s"
      using inv_not_mport [OF inv m h] .
    show "h \<notin> members s n" if "n \<in> mports s" "n \<noteq> m" for n
      using inv_owner [OF inv m that(1), of h] that(2) h by blast
    show "pes s' = (pes s)(m \<mapsto> mp\<lparr>minfo := Some (i\<lparr>handles := items\<rparr>)\<rparr>, h := None)"
      by (simp add: s'_def)
    show "{a. Some a \<in> set items} - {h} = members s m - {h}"
      using items(3) mp(4) by auto
  qed (use items in \<open>simp_all add: s'_def\<close>)
  ultimately show thesis
    by (rule that)
qed

lemma create_fail_rule:
  assumes "making m p h r s"
  shows "holds (\<lambda>(rc, q, s'). rc \<noteq> 0 \<and> lib_inv {} s') (create_fail G h s)"
proof -
  obtain pe where pe: "pes s h = Some pe" "minfo pe = None"
    using assms inv_member unfolding making_def by blast
  obtain s' where "destroy_pe h s = Some s'" "lib_inv {} s'"
    using destroy_pe_inv [OF assms] .
  with pe show ?thesis
    by (simp add: create_fail_def riocp_pe_handle_destroy_def)
qed

lemma making_start:
  assumes inv: "lib_inv {} s" and p: "pes s p = Some q" "mport q = Some m" "m \<in> mports s" "p \<in> insert m (members s m)" and new: "pes s h = None"
    and pe: "mport pe = Some m" "minfo pe = None" and "mem"
    and s': "upd_minfo m (\<lambda>i. i\<lparr>handles := snd (riocp_pe_llist_add mem (handles i) h)\<rparr>) (s\<lparr>pes := (pes s)(h \<mapsto> pe)\<rparr>) = Some s'"
  shows "making m p h False s'" and "pes s' h = Some pe"
proof -
  obtain mp i where mp: "pes s m = Some mp" "minfo mp = Some i" "list_ok (handles i)" "members s m = {h. Some h \<in> set (handles i)}"
    using inv_mport [OF inv p(3)] by metis
  have hm: "h \<noteq> m"
    using mp(1) new by auto
  have fresh: "h \<notin> insert n (members s n)" if "n \<in> mports s" for n
    using inv_element [OF inv that] new by (metis option.distinct(1))
  let ?items = "handles i @ [Some h]"
  have s'_eq: "pes s' = (pes s)(m \<mapsto> mp\<lparr>minfo := Some (i\<lparr>handles := ?items\<rparr>)\<rparr>, h := Some pe)" "mport_handles s' = mport_handles s" "pe_did_sz s' = pe_did_sz s"
  proof -
    have "s' = s\<lparr>pes := (pes s)(h \<mapsto> pe, m \<mapsto> mp\<lparr>minfo := Some (i\<lparr>handles := ?items\<rparr>)\<rparr>)\<rparr>"
      using s' mp(1,2) hm \<open>mem\<close> by (simp add: upd_minfo_def upd_pe_def at_def riocp_pe_llist_add_def)
    then show "pes s' = (pes s)(m \<mapsto> mp\<lparr>minfo := Some (i\<lparr>handles := ?items\<rparr>)\<rparr>, h := Some pe)" "mport_handles s' = mport_handles s" "pe_did_sz s' = pe_did_sz s"
      using fun_upd_twist [OF hm] by simp_all
  qed
  show at_h: "pes s' h = Some pe"
    by (simp add: s'_eq)
  have "lib_inv {h} s'"
  proof (rule inv_relist [OF inv p(3) mp(1,2)])
    show "h \<notin> mports s" "\<And>n. n \<in> mports s \<Longrightarrow> n \<noteq> m \<Longrightarrow> h \<notin> members s n" "h \<in> {} \<or> h \<notin> members s m"
      using fresh p(3) by auto
    show "list_ok ?items"
      using llist_add_ok [OF mp(3)] fresh [OF p(3)] mp(4) by simp
    show "{a. Some a \<in> set ?items} - {h} = members s m - {h}"
      using mp(4) by auto
    show "member_ok s' m h"
      using pe at_h by (simp add: member_ok_def)
  qed (simp_all add: s'_eq)
  moreover have "members s' m = insert h (members s m)"
    using hm by (auto simp: members_def s'_eq mp(1,2))
  moreover have "mports s' = mports s" "p \<noteq> h"
    using p(1) new by (auto simp: mports_def s'_eq)
  ultimately show "making m p h False s'"
    using p(3,4) by (simp add: making_def)
qed

text \<open>The last part of the creation of an element: its peers, and the link to the element it was found from.\<close>

lemma making_peers:
  assumes mk: "making m p h True s" and s': "upd_pe h (\<lambda>pe. pe\<lparr>peers := Some (replicate (unat (RIOCP_PE_PORT_COUNT (cap pe))) no_peer)\<rparr>) s = Some s'"
  shows "making m p h True s'" and "lib_inv {} s'"
proof -
  have "holds (making m p h True) (upd_pe h (\<lambda>pe. pe\<lparr>peers := Some (replicate (unat (RIOCP_PE_PORT_COUNT (cap pe))) no_peer)\<rparr>) s)"
    by (rule mk.C_upd [OF mk]) (simp_all add: core_def ready_def has_private_def)
  then show mk': "making m p h True s'"
    by (simp add: s')
  then obtain pe where pe: "pes s' h = Some pe" "ready pe"
    by (auto simp: making_def ready_at_def)
  then have "links_ok {} (insert m (members s' m)) pe"
    using s' by (auto simp: upd_pe_def links_ok_def no_peer_def split: option.splits)
  then show "lib_inv {} s'"
    using inv_finish mk' pe(1) unfolding making_def by blast
qed

lemma peers_rule:
  assumes "making m p h (c = 0) s" and "\<not> c \<noteq> (0 :: int)" and "\<And>s'. making m p h True s' \<Longrightarrow> lib_inv {} s' \<Longrightarrow> Q s'"
  shows "holds Q (upd_pe h (\<lambda>pe. pe\<lparr>peers := Some (replicate (unat (RIOCP_PE_PORT_COUNT (cap pe))) no_peer)\<rparr>) s)"
proof (rule holds_value)
  fix s'
  assume s': "upd_pe h (\<lambda>pe. pe\<lparr>peers := Some (replicate (unat (RIOCP_PE_PORT_COUNT (cap pe))) no_peer)\<rparr>) s = Some s'"
  have "making m p h True s"
    using assms(1,2) by simp
  then show "Q s'"
    using assms(3) making_peers s' by blast
qed

lemma link_rule:
  fixes s :: "'a riocp"
  assumes mk: "making m p h True s" and inv: "lib_inv {} s" and Q: "\<And>rc. rc \<noteq> 0 \<Longrightarrow> Q (rc, s)" "\<And>s'. lib_inv {} s' \<Longrightarrow> Q (0, s')"
  shows "holds Q (riocp_pe_add_peer (Some p) (Some h) port q s)"
proof -
  have "holds (\<lambda>(rc, s'). lib_inv {} s' \<and> (rc \<noteq> 0 \<longrightarrow> s' = s)) (riocp_pe_add_peer (Some p) (Some h) port q s)"
    using mk by (intro add_peer_inv [OF inv, where m = m]) (simp_all add: making_def)
  then show ?thesis
  proof (rule holds_mono)
    fix x :: "int \<times> 'a riocp"
    assume "case x of (rc, s') \<Rightarrow> lib_inv {} s' \<and> (rc \<noteq> 0 \<longrightarrow> s' = s)"
    then show "Q x"
      using Q by (cases x; cases "fst x = 0") auto
  qed
qed

lemma llist_unlink_missing: "x \<notin> set ys \<Longrightarrow> llist_unlink x ys = None"
  by (induction ys) auto

lemma llist_del_missing: "items \<noteq> [] \<Longrightarrow> Some h \<notin> set items \<Longrightarrow> riocp_pe_llist_del items (Some h) = None"
  by (cases items) (auto simp: riocp_pe_llist_del_def llist_unlink_missing)

text \<open>Without memory for the address, the element that is not in the list yet is destroyed, and the search for it runs over the end of the list.\<close>

lemma create_fail_unlisted:
  assumes inv: "lib_inv {} s" and m: "m \<in> mports s" and new: "pes s h = None" and pe: "mport pe = Some m" "minfo pe = None"
  shows "create_fail G h (s\<lparr>pes := (pes s)(h \<mapsto> pe)\<rparr>) = None"
proof -
  obtain mp i where mp: "pes s m = Some mp" "minfo mp = Some i" "list_ok (handles i)" "members s m = {h. Some h \<in> set (handles i)}"
    using inv_mport [OF inv m] by metis
  have "h \<notin> members s m"
    using inv_member [OF inv m] new by (metis option.distinct(1))
  then have "riocp_pe_llist_del (handles i) (Some h) = None"
    using mp(3,4) by (intro llist_del_missing) (auto simp: list_ok_def)
  moreover have "h \<noteq> m"
    using mp(1) new by auto
  ultimately show ?thesis
    by (simp add: create_fail_def riocp_pe_handle_destroy_def destroy_pe_def mport_info_def at_def pe mp)
qed

lemma inv_not_dev16: "lib_inv X s \<Longrightarrow> b \<and> pe_did_sz s = dev16_sz \<Longrightarrow> A"
  by (simp add: lib_inv_def)

lemma create_pe_rule:
  assumes inv: "lib_inv {} s" and p: "m \<in> mports s" "p \<in> insert m (members s m)" and new: "\<And>h. new = Some h \<Longrightarrow> pes s h = None" and mem: "mem 2"
    and Q: "\<And>rc q s'. lib_inv {} s' \<Longrightarrow> Q (rc, q, s')"
  shows "holds Q (riocp_pe_handle_create_pe G mem new p hc did port comptag_in nm s)"
proof (cases new)
  case None
  with inv Q show ?thesis
    by (simp add: riocp_pe_handle_create_pe_def)
next
  case (Some h)
  obtain q where q: "pes s p = Some q" "mport q = Some m"
    using inv_element [OF inv p] .
  let ?pe = "\<lambda>a. pe_zero\<lparr>version := 1, mport := Some m, hopcount := hc, did_reg_val := did_get_value did, comptag := comptag_in, address := a\<rparr>"
  have fail: "holds Q (create_fail G h t)" if "making m p h r t" for r t
    using create_fail_rule [OF that] by (rule holds_mono) (auto intro: Q)
  have unlisted: "holds Q (create_fail G h (s\<lparr>pes := (pes s)(h \<mapsto>
      pe_zero\<lparr>version := 1, mport := Some m, hopcount := hc, did_reg_val := did_get_value did, comptag := comptag_in\<rparr>)\<rparr>))"
    by (subst create_fail_unlisted [OF inv p(1) new [OF Some]]) (simp_all add: pe_zero_def)
  have start: "holds R (upd_minfo m (\<lambda>i. i\<lparr>handles := snd (riocp_pe_llist_add (mem 2) (handles i) h)\<rparr>) (s\<lparr>pes := (pes s)(h \<mapsto> ?pe a)\<rparr>))"
    if "\<And>s'. making m p h False s' \<Longrightarrow> pes s' h = Some (?pe a) \<Longrightarrow> R s'" for R a
    using making_start [OF inv q p new [OF Some], of "?pe a" "mem 2"] mem that by (intro holds_value) (simp add: pe_zero_def)
  have no: "private_data pe = NoPrivate" if "pes t h = Some (?pe a)" "pes t h = Some pe" for t a pe
    using that by (auto simp: pe_zero_def)
  show ?thesis
    unfolding riocp_pe_handle_create_pe_def Some option.case q bind.bind_lunit Let_def
    by ((erule (1) notE) | (erule notE, rule refl) | erule (1) inv_not_dev16 | rule holds_pair pe_rules unlisted start making_init
        mk.read_capabilities_rule mk.comptag_rules mk.read_features_rule peers_rule mk.upd_rule link_rule fail Q | assumption | rule inv
        | erule (1) no | rule holds_value)+
qed

section \<open>Destruction of a master port\<close>

definition without :: "handle set \<Rightarrow> 'h riocp \<Rightarrow> 'h riocp" where
  "without H s = s\<lparr>pes := (\<lambda>a. if a \<in> H then None else pes s a)\<rparr>"

definition relist :: "handle \<Rightarrow> handle list \<Rightarrow> 'h riocp \<Rightarrow> 'h riocp" where
  "relist m hs s = s\<lparr>pes := (\<lambda>a. if a = m then map_option (\<lambda>mp. mp\<lparr>minfo := map_option (\<lambda>i. i\<lparr>handles := None # map Some hs\<rparr>) (minfo mp)\<rparr>) (pes s m) else pes s a)\<rparr>"

lemma destroy_pe_eq:
  assumes m: "pes s m = Some mp" "minfo mp = Some i" "handles i = None # map Some hs" and h: "h \<in> set hs" "h \<noteq> m" "pes s h = Some pe" "mport pe = Some m"
  shows "destroy_pe h s = Some (without {h} (relist m (remove1 h hs) s))"
  using assms llist_unlink_set [OF h(1)]
  by (auto simp: destroy_pe_def mport_info_def at_def upd_minfo_def upd_pe_def riocp_pe_llist_del_def without_def relist_def fun_eq_iff)

lemma relist_relist: "k \<noteq> m \<Longrightarrow> without A (relist m xs (without {k} (relist m ys s))) = without (insert k A) (relist m xs s)"
proof -
  assume "k \<noteq> m"
  then have "pes (without A (relist m xs (without {k} (relist m ys s)))) a = pes (without (insert k A) (relist m xs s)) a" for a
    by (cases "pes s m"; cases "minfo (the (pes s m))") (simp_all add: without_def relist_def)
  then show ?thesis
    by (simp add: without_def relist_def fun_eq_iff)
qed

lemma destroy_items_eq:
  assumes "distinct ks" and "pes s m = Some mp" "minfo mp = Some i" "handles i = None # map Some hs" "distinct hs" "set ks \<subseteq> set hs" "m \<notin> set hs"
    and "\<And>h. h \<in> set ks \<Longrightarrow> \<exists>pe. pes s h = Some pe \<and> mport pe = Some m"
  shows "destroy_items (map Some ks) s = Some (without (set ks) (relist m (filter (\<lambda>h. h \<notin> set ks) hs) s))"
  using assms
proof (induction ks arbitrary: s mp i hs)
  case Nil
  then have "relist m hs s = s"
    by (simp add: relist_def fun_eq_iff)
  then show ?case
    by (simp add: without_def)
next
  case (Cons k ks)
  obtain pe where pe: "pes s k = Some pe" "mport pe = Some m"
    using Cons.prems(8) by auto
  have k: "k \<in> set hs" "k \<noteq> m" "m \<notin> set ks" "k \<notin> set ks"
    using Cons.prems by auto
  define t where "t = without {k} (relist m (remove1 k hs) s)"
  have t: "destroy_pe k s = Some t"
    unfolding t_def by (rule destroy_pe_eq) (use Cons.prems k pe in auto)
  have "destroy_items (map Some ks) t = Some (without (set ks) (relist m (filter (\<lambda>h. h \<notin> set ks) (remove1 k hs)) t))"
  proof (rule Cons.IH)
    show "pes t m = Some (mp\<lparr>minfo := Some (i\<lparr>handles := None # map Some (remove1 k hs)\<rparr>)\<rparr>)"
      using Cons.prems k by (simp add: t_def without_def relist_def)
    show "\<exists>pe. pes t h = Some pe \<and> mport pe = Some m" if "h \<in> set ks" for h
      using Cons.prems(8) [of h] that k by (auto simp: t_def without_def relist_def)
  qed (use Cons.prems k in auto)
  moreover have "filter (\<lambda>h. h \<notin> set ks) (remove1 k hs) = filter (\<lambda>h. h \<notin> set (k # ks)) hs"
    using Cons.prems(5) by (auto simp: distinct_remove1_removeAll removeAll_filter_not_eq intro: filter_cong)
  ultimately show ?case
    using relist_relist [OF k(2), of "set ks"] by (simp add: t t_def)
qed

text \<open>A master port with its elements: all but the last one are freed with it.\<close>

lemma mport_members:
  assumes "lib_inv X s" and "m \<in> mports s"
  obtains mp i hs where "pes s m = Some mp" and "minfo mp = Some i" and "handles i = None # map Some hs" and "distinct hs" and "members s m = set hs" and "m \<notin> set hs"
    and "\<And>h. h \<in> set hs \<Longrightarrow> \<exists>pe. pes s h = Some pe \<and> mport pe = Some m"
proof -
  obtain mp i where mp: "pes s m = Some mp" "minfo mp = Some i" "list_ok (handles i)" "members s m = {h. Some h \<in> set (handles i)}"
    using inv_mport [OF assms] by metis
  obtain hs where hs: "handles i = None # map Some hs" "distinct hs"
    using mp(3) by (auto simp: list_ok_def)
  have mem: "members s m = set hs"
    using mp(4) hs by auto
  have "m \<notin> set hs"
    using inv_not_mport [OF assms] assms(2) mem by blast
  moreover have "\<exists>pe. pes s h = Some pe \<and> mport pe = Some m" if "h \<in> set hs" for h
    using inv_member [OF assms, of h] that mem by blast
  ultimately show thesis
    using that mp hs mem by blast
qed

lemma destroy_mport_eq:
  assumes inv: "lib_inv {} s" and m: "m \<in> mports s" and mp: "pes s m = Some mp" "minfo mp = Some i" "handles i = None # map Some hs" "has_private mp"
  obtains s' f items where "riocp_pe_handle_destroy G m s = Some s'" and "s' = (without (insert m (set (butlast hs))) s)\<lparr>mport_handles := items, fabric := f\<rparr>"
    and "list_ok items" and "set items = set (mport_handles s) - {Some m}"
proof -
  have hs: "distinct hs" "m \<notin> set hs" "\<And>h. h \<in> set hs \<Longrightarrow> \<exists>pe. pes s h = Some pe \<and> mport pe = Some m"
  proof -
    obtain mp' i' hs' where mp': "pes s m = Some mp'" "minfo mp' = Some i'" "handles i' = None # map Some hs'" and hs': "distinct hs'" "m \<notin> set hs'"
      "\<And>h. h \<in> set hs' \<Longrightarrow> \<exists>pe. pes s h = Some pe \<and> mport pe = Some m"
      using mport_members [OF inv m] by metis
    have "hs' = hs"
      using mp(1-3) mp' by (auto simp: inj_map_eq_map [OF inj_Some])
    with hs' show "distinct hs" "m \<notin> set hs" "\<And>h. h \<in> set hs \<Longrightarrow> \<exists>pe. pes s h = Some pe \<and> mport pe = Some m"
      by simp_all
  qed
  obtain items where items: "riocp_pe_llist_del (mport_handles s) (Some m) = Some (0, items)" "list_ok items" "set items = set (mport_handles s) - {Some m}"
    by (rule llist_del_ok [of "mport_handles s" m]) (use inv m in \<open>simp_all add: lib_inv_def mports_def\<close>)
  define t where "t = without (set (butlast hs)) (relist m (filter (\<lambda>h. h \<notin> set (butlast hs)) hs) s)"
  have "destroy_items (map Some (butlast hs)) s = Some t"
    unfolding t_def by (rule destroy_items_eq) (use mp hs in \<open>auto simp: distinct_butlast dest: in_set_butlastD\<close>)
  then have t: "destroy_items (butlast (handles i)) s = Some t"
    by (cases "hs = []") (simp_all add: mp(3) map_butlast)
  have lists: "mport_handles t = mport_handles s"
    by (simp add: t_def without_def relist_def)
  have pes_t: "pes t m = Some (mp\<lparr>minfo := Some (i\<lparr>handles := None # map Some (filter (\<lambda>h. h \<notin> set (butlast hs)) hs)\<rparr>)\<rparr>)"
    using mp hs(2) by (auto simp: t_def without_def relist_def dest: in_set_butlastD)
  obtain d where d: "private_data mp = Private d"
    using mp(4) by (auto simp: has_private_def)
  define f where "f = (if acc_info i = Some True then snd (riomp_mgmt_mport_destroy_handle G (mp_id i) (fabric t)) else fabric t)"
  have "riocp_pe_handle_destroy G m s = Some (t\<lparr>mport_handles := items, fabric := f, pes := (pes t)(m := None)\<rparr>)"
    using mp(1,2) t items(1) lists pes_t d
    by (simp add: riocp_pe_handle_destroy_def mpsw_destroy_priv_data_def upd_pe_def f_def)
  moreover have "(pes t)(m := None) = pes (without (insert m (set (butlast hs))) s)"
    by (auto simp: t_def without_def relist_def)
  then have "t\<lparr>mport_handles := items, fabric := f, pes := (pes t)(m := None)\<rparr> = (without (insert m (set (butlast hs))) s)\<lparr>mport_handles := items, fabric := f\<rparr>"
    by (simp add: t_def without_def relist_def)
  ultimately show thesis
    using that items(2,3) by metis
qed

lemma inv_without:
  assumes inv: "lib_inv X s" and X: "X \<subseteq> {m}" and m: "m \<in> mports s" and H: "H \<subseteq> members s m"
    and items: "list_ok items" "set items = set (mport_handles s) - {Some m}"
  shows "lib_inv {} ((without (insert m H) s)\<lparr>mport_handles := items, fabric := f\<rparr>)" (is "lib_inv {} ?s'")
proof (rule inv_intro)
  have mp: "mports ?s' = mports s - {m}"
    using items(2) by (auto simp: mports_def)
  have keep: "a \<notin> insert m H" if n: "n \<in> mports s" "n \<noteq> m" "a \<in> insert n (members s n)" for n a
    using inv_owner [OF inv m n(1), of a] n(2,3) H by blast
  have mem: "members ?s' n = members s n" if "n \<in> mports s" "n \<noteq> m" for n
    using keep [OF that, of n] by (simp add: members_def without_def)
  show "pe_did_sz ?s' = dev08_sz" "list_ok (mport_handles ?s')"
    using inv items(1) by (simp_all add: lib_inv_def without_def)
  fix n
  assume "n \<in> mports ?s'"
  then have n: "n \<in> mports s" "n \<noteq> m"
    by (simp_all add: mp)
  show "mport_ok ?s' n"
    using inv_parts(1) [OF inv n(1)] keep [OF n, of n] by (simp add: mport_ok_def without_def)
  fix a
  show "member_ok ?s' n a" if "a \<in> members ?s' n"
    using inv_parts(2) [OF inv n(1), of a] keep [OF n, of a] that mem [OF n] by (simp add: member_ok_def without_def)
  assume "a \<in> insert n (members ?s' n)"
  then have a: "a \<in> insert n (members s n)"
    using mem [OF n] by simp
  then have "a \<notin> X"
    using keep [OF n a] X by blast
  then obtain pe where "pes s a = Some pe" "links_ok X (insert n (members s n)) pe"
    using inv_parts(3) [OF inv n(1) a] by blast
  then show "\<exists>pe. pes ?s' a = Some pe \<and> links_ok {} (insert n (members ?s' n)) pe"
    using keep [OF n a] mem [OF n] by (auto simp: without_def links_ok_def)
qed

lemma destroy_mport_inv:
  assumes "lib_inv {} s" and "m \<in> mports s"
  shows "safe (lib_inv {}) (riocp_pe_handle_destroy G m s)"
proof -
  obtain mp i hs where mp: "pes s m = Some mp" "minfo mp = Some i" "handles i = None # map Some hs" "members s m = set hs"
    using mport_members [OF assms] by metis
  have "has_private mp"
    using inv_links [OF assms _ _ mp(1)] by (simp add: links_ok_def ready_def)
  then obtain s' f items where "riocp_pe_handle_destroy G m s = Some s'" "s' = (without (insert m (set (butlast hs))) s)\<lparr>mport_handles := items, fabric := f\<rparr>"
    "list_ok items" "set items = set (mport_handles s) - {Some m}"
    using destroy_mport_eq [OF assms mp(1-3)] by metis
  moreover have "set (butlast hs) \<subseteq> members s m"
    using mp(4) in_set_butlastD by fastforce
  ultimately show ?thesis
    using inv_without [OF assms(1) _ assms(2)] by simp
qed

section \<open>Creation of a master port\<close>

definition making_mport :: "handle \<Rightarrow> bool \<Rightarrow> 'h riocp \<Rightarrow> bool" where
  "making_mport h r s \<longleftrightarrow> lib_inv {h} s \<and> h \<in> mports s \<and> members s h = {} \<and> (r \<longrightarrow> ready_at s h)"

interpretation mm: creation "making_mport h" h for h
proof
  show "making_mport h r' s'" if "making_mport h r s" "near h s s'" "r' \<Longrightarrow> ready_at s' h" for r s s' r'
    using that inv_near [of "{h}" s h s'] near_lists [OF that(2)] by (simp add: making_mport_def)
  show "making_mport h True s \<Longrightarrow> ready_at s h" for s
    by (simp add: making_mport_def)
qed

lemma near_upd_minfo:
  assumes "upd_minfo m f s = Some s'" and "\<And>i. mp_ref (f i) = mp_ref i \<and> mp_id (f i) = mp_id i \<and> is_host (f i) = is_host i \<and> handles (f i) = handles i"
  shows "near m s s'"
  using assms by (auto simp: upd_minfo_def upd_pe_def at_def near_def core_def split: option.splits)

lemma near_state [simp]: "near h s (t\<lparr>fabric := f\<rparr>) = near h s t" "near h s (t\<lparr>tags := g\<rparr>) = near h s t" "near h (s\<lparr>fabric := f\<rparr>) t = near h s t"
  by (simp_all add: near_def)

text \<open>Whatever fails in the allocation of the driver data of a master port, only fields of it change.\<close>

lemma destroy_priv_near: "holds (near h s) (mpsw_destroy_priv_data G h s)"
  by (rule holds_value) (auto simp: mpsw_destroy_priv_data_def core_def dest!: near_upd split: bind_splits drv_data.splits option.splits if_splits)

lemma destroy_priv_rule:
  assumes "making_mport h r s" and "\<And>s'. making_mport h False s' \<Longrightarrow> Q s'"
  shows "holds Q (mpsw_destroy_priv_data G h s)"
  using destroy_priv_near by (rule holds_mono) (use assms(2) mm.C_near [OF assms(1), where r' = False] in blast)

lemma upd_minfo_near_rule:
  assumes "making_mport h r s" and "\<And>i. mp_ref (f i) = mp_ref i \<and> mp_id (f i) = mp_id i \<and> is_host (f i) = is_host i \<and> handles (f i) = handles i"
    and "\<And>s'. upd_minfo h f s = Some s' \<Longrightarrow> making_mport h False s' \<Longrightarrow> Q s'"
  shows "holds Q (upd_minfo h f s)"
proof (rule holds_value)
  fix s'
  assume s': "upd_minfo h f s = Some s'"
  then have "near h s s'"
    by (rule near_upd_minfo) (rule assms(2))
  then show "Q s'"
    using assms(3) [OF s'] mm.C_near [OF assms(1), where r' = False] by blast
qed

lemma opened_ready: "upd_minfo h (\<lambda>i. i\<lparr>acc_info := Some True\<rparr>) s = Some s' \<Longrightarrow> pes s h = Some pe \<Longrightarrow> has_private pe \<Longrightarrow> ready_at s' h"
  by (auto simp: upd_minfo_def upd_pe_def at_def ready_at_def ready_def has_private_def split: option.splits)

lemma alloc_mport_rule:
  assumes mk: "making_mport h False s"
  shows "holds (\<lambda>(rc, s'). making_mport h (rc = 0) s') (mpsw_alloc_priv_data G mem h None s)"
proof -
  obtain pe i where pe: "pes s h = Some pe" "minfo pe = Some i"
    using inv_mport [of "{h}" s h] mk unfolding making_mport_def by metis
  define s1 where "s1 = s\<lparr>pes := (pes s)(h \<mapsto> pe\<lparr>private_data := Private \<lparr>dev_h_valid = False, dev_h = dev_zero\<rparr>\<rparr>)\<rparr>"
  have s1: "upd_pe h (\<lambda>pe. pe\<lparr>private_data := Private \<lparr>dev_h_valid = False, dev_h = dev_zero\<rparr>\<rparr>) s = Some s1"
    by (simp add: upd_pe_def pe s1_def)
  have "near h s s1"
    using s1 by (rule near_upd) (simp add: core_def)
  then have mk1: "making_mport h False (s1\<lparr>fabric := f\<rparr>)" for f
    using mm.C_near [OF mk, where r' = False] by simp
  have full: "making_mport h True t" if "making_mport h False t" "upd_minfo h (\<lambda>i. i\<lparr>acc_info := Some True\<rparr>) (s1\<lparr>fabric := f\<rparr>) = Some t" for f t
    using mm.C_near [OF that(1) near_refl] opened_ready [OF that(2)] by (simp add: s1_def has_private_def)
  have acc: "mp_ref (i\<lparr>acc_info := a\<rparr>) = mp_ref i \<and> mp_id (i\<lparr>acc_info := a\<rparr>) = mp_id i \<and> is_host (i\<lparr>acc_info := a\<rparr>) = is_host i \<and> handles (i\<lparr>acc_info := a\<rparr>) = handles i" for i a
    by simp
  have "holds Q (mpsw_alloc_priv_data G mem h None s)" if Q: "\<And>rc s'. making_mport h False s' \<Longrightarrow> rc \<noteq> 0 \<Longrightarrow> Q (rc, s')" "\<And>s'. making_mport h True s' \<Longrightarrow> Q (0, s')" for Q
    unfolding mpsw_alloc_priv_data_def pe bind.bind_lunit s1 option.case
    by (rule holds_pair pe_rules destroy_priv_rule upd_minfo_near_rule mk mk1 mk1 [of "fabric s1", simplified] acc | assumption
        | (rule Q(2), erule (1) full) | (rule Q(1), assumption, simp))+
  then show ?thesis
    by (rule meta_mp) simp_all
qed

lemma destroy_made_mport:
  assumes mk: "making_mport h r s"
  shows "holds (lib_inv {}) (riocp_pe_handle_destroy G h s)"
proof -
  have inv: "lib_inv {h} s" and h: "h \<in> mports s" "members s h = {}"
    using mk by (simp_all add: making_mport_def)
  obtain mp i hs where mp: "pes s h = Some mp" "minfo mp = Some i" "handles i = None # map Some hs" "members s h = set hs"
    using mport_members [OF inv h(1)] by metis
  then have hs: "handles i = [None]"
    using h(2) by simp
  obtain items where items: "riocp_pe_llist_del (mport_handles s) (Some h) = Some (0, items)" "list_ok items" "set items = set (mport_handles s) - {Some h}"
    by (rule llist_del_ok [of "mport_handles s" h]) (use inv h in \<open>simp_all add: lib_inv_def mports_def\<close>)
  have inv': "lib_inv {} ((without (insert h {}) s)\<lparr>mport_handles := items, fabric := f\<rparr>)" for f
    by (rule inv_without [OF inv]) (use h items in simp_all)
  have "holds (\<lambda>t. lib_inv {} (t\<lparr>pes := (pes t)(h := None)\<rparr>)) (mpsw_destroy_priv_data G h (s\<lparr>mport_handles := items\<rparr>))"
  proof (rule holds_mono [OF destroy_priv_near])
    fix t
    assume "near h (s\<lparr>mport_handles := items\<rparr>) t"
    then have "keeps ((without (insert h {}) s)\<lparr>mport_handles := items, fabric := fabric t\<rparr>) (t\<lparr>pes := (pes t)(h := None)\<rparr>)"
      by (simp add: near_def keeps_def without_def)
    then show "lib_inv {} (t\<lparr>pes := (pes t)(h := None)\<rparr>)"
      by (rule inv_keeps [OF inv'])
  qed
  then show ?thesis
    using mp(1,2) hs items(1) by (auto simp: riocp_pe_handle_destroy_def holds_def split: bind_splits)
qed

lemma making_mport_start:
  assumes inv: "lib_inv {} s" and new: "pes s h = None" and pe: "minfo pe = Some i" "mport pe = Some h" "handles i = [None]"
  shows "making_mport h False (s\<lparr>pes := (pes s)(h \<mapsto> pe), mport_handles := mport_handles s @ [Some h]\<rparr>)" (is "making_mport h False ?s'")
proof -
  have fresh: "h \<notin> insert n (members s n)" if "n \<in> mports s" for n
    using inv_element [OF inv that] new by (metis option.distinct(1))
  have mp: "mports ?s' = insert h (mports s)"
    by (auto simp: mports_def)
  have h: "h \<notin> mports s" "members ?s' h = {}"
    using fresh pe by (auto simp: members_def)
  have mem: "members ?s' n = members s n" if "n \<in> mports s" for n
    using fresh [OF that] by (simp add: members_def)
  have "lib_inv {h} ?s'"
  proof (rule inv_intro)
    show "pe_did_sz ?s' = dev08_sz"
      using inv by (simp add: lib_inv_def)
    show "list_ok (mport_handles ?s')"
      using inv h(1) llist_add_ok [of "mport_handles s" h] by (simp add: lib_inv_def mports_def)
    fix n
    assume "n \<in> mports ?s'"
    then consider "n = h" | "n \<in> mports s" "n \<noteq> h"
      using mp h(1) by blast
    then have *: "mport_ok ?s' n \<and> (\<forall>a \<in> members ?s' n. member_ok ?s' n a) \<and>
      (\<forall>a \<in> insert n (members ?s' n) - {h}. \<exists>pe. pes ?s' a = Some pe \<and> links_ok {h} (insert n (members ?s' n)) pe)"
    proof cases
      case 1
      then show ?thesis
        using h(2) pe by (simp add: mport_ok_def list_ok_def)
    next
      case 2
      have "links_ok {h} (insert n (members s n)) pe" if "links_ok {} (insert n (members s n)) pe" for pe
        using that fresh [OF 2(1)] unfolding links_ok_def by blast
      moreover have "pes ?s' a = pes s a" if "a \<in> insert n (members s n)" for a
        using fresh [OF 2(1)] that by auto
      moreover have "mport_ok ?s' n"
        using inv_parts(1) [OF inv 2(1)] 2(2) by (simp add: mport_ok_def)
      ultimately show ?thesis
        using inv_parts(2,3) [OF inv 2(1)] unfolding mem [OF 2(1)] member_ok_def by (metis DiffD1 empty_iff insertI2)
    qed
    then show "mport_ok ?s' n"
      by blast
    show "member_ok ?s' n a" if "a \<in> members ?s' n" for a
      using * that by blast
    show "\<exists>pe. pes ?s' a = Some pe \<and> links_ok {h} (insert n (members ?s' n)) pe" if "a \<in> insert n (members ?s' n)" "a \<notin> {h}" for a
      using * that by blast
  qed
  with mp h(2) show ?thesis
    by (simp add: making_mport_def)
qed

lemma mport_peers_rule:
  assumes mk: "making_mport h (c = 0) s" and c: "\<not> c \<noteq> (0 :: int)" and Q: "\<And>s'. lib_inv {} s' \<Longrightarrow> Q s'"
  shows "holds Q (upd_pe h (\<lambda>pe. pe\<lparr>peers := Some (replicate (unat (RIOCP_PE_PORT_COUNT (cap pe))) no_peer)\<rparr>) s)"
proof (rule holds_value, rule Q)
  fix s'
  assume s': "upd_pe h (\<lambda>pe. pe\<lparr>peers := Some (replicate (unat (RIOCP_PE_PORT_COUNT (cap pe))) no_peer)\<rparr>) s = Some s'"
  have "holds (making_mport h True) (upd_pe h (\<lambda>pe. pe\<lparr>peers := Some (replicate (unat (RIOCP_PE_PORT_COUNT (cap pe))) no_peer)\<rparr>) s)"
    by (rule mm.C_upd [where r = True]) (use mk c in \<open>simp_all add: core_def ready_def has_private_def\<close>)
  then have mk': "making_mport h True s'"
    by (simp add: s')
  then obtain pe where pe: "pes s' h = Some pe" "ready pe"
    by (auto simp: making_mport_def ready_at_def)
  then have "links_ok {} (insert h (members s' h)) pe"
    using s' by (auto simp: upd_pe_def links_ok_def no_peer_def split: option.splits)
  then show "lib_inv {} s'"
    using inv_finish [of h s' h pe] mk' pe(1) unfolding making_mport_def by blast
qed

lemma create_mport_rule:
  assumes inv: "lib_inv {} s" and new: "\<And>h. new = Some h \<Longrightarrow> pes s h = None" and mem: "mem 2" and Q: "\<And>rc q s'. lib_inv {} s' \<Longrightarrow> Q (rc, q, s')"
  shows "holds Q (riocp_pe_handle_create_mport G mem new n host ct nm s)"
proof (cases new)
  case None
  with inv Q show ?thesis
    by (simp add: riocp_pe_handle_create_mport_def)
next
  case (Some h)
  let ?pe = "pe_zero\<lparr>version := 1, hopcount := 0xFF, mport := Some h, comptag := ct,
    minfo := Some \<lparr>mp_ref = 1, mp_id = n, is_host = host, any_id_target = None, handles = [None], acc_info = None\<rparr>\<rparr>"
  let ?s = "s\<lparr>pes := (pes s)(h \<mapsto> ?pe), mport_handles := mport_handles s @ [Some h]\<rparr>"
  have start: "making_mport h False ?s"
    by (rule making_mport_start [OF inv new [OF Some]]) (simp, simp, simp)
  have no: "private_data pe = NoPrivate" if "pes ?s h = Some pe" for pe
    using that by (auto simp: pe_zero_def)
  have init: "holds R (mpsw_drv_init_pe G m h None nm ?s)" if "\<And>rc s'. making_mport h (rc = 0) s' \<Longrightarrow> R (rc, s')" for R m
    using mm.init_pe_rule [OF start no alloc_mport_rule [OF start]] that by blast
  have fail: "holds Q (riocp_pe_handle_destroy G h t \<bind> (\<lambda>s'. Some (rc, None, s')))" if "making_mport h r t" for r t rc
    using destroy_made_mport [OF that, of G] by (intro holds_bind) (erule holds_mono, simp add: Q)
  have add: "riocp_pe_llist_add (mem 2) (mport_handles s) h = (0, mport_handles s @ [Some h])"
    using mem by (simp add: riocp_pe_llist_add_def)
  show ?thesis
    unfolding riocp_pe_handle_create_mport_def Some option.case Let_def add prod.case
    by ((erule notE, rule refl) | rule holds_pair fail mport_peers_rule pe_rules init mm.read_capabilities_rule mm.comptag_rules mm.read_features_rule
        mm.destid_rules mm.upd_rule Q | assumption | rule inv)+
qed

section \<open>References to a master port\<close>

lemma ref_inv:
  assumes inv: "lib_inv X s" and s': "upd_minfo m (\<lambda>i. i\<lparr>mp_ref := f (mp_ref i)\<rparr>) s = Some s'"
  shows "lib_inv X s'"
proof -
  obtain mp i where mp: "pes s m = Some mp" "minfo mp = Some i" and eq: "s' = s\<lparr>pes := (pes s)(m \<mapsto> mp\<lparr>minfo := Some (i\<lparr>mp_ref := f (mp_ref i)\<rparr>)\<rparr>)\<rparr>"
    using s' by (auto simp: upd_minfo_def upd_pe_def at_def split: option.splits)
  show ?thesis
  proof (rule inv_core [OF inv])
    show "map_option core (pes s' a) = map_option core (pes s a)" for a
      using mp by (simp add: eq core_def)
    show "\<exists>pe'. pes s' a = Some pe' \<and> links_ok X (insert n (members s n)) pe'"
      if "pes s a = Some pe" "links_ok X (insert n (members s n)) pe" for n a pe
      using that mp by (auto simp: eq links_ok_def ready_def has_private_def)
  qed (simp_all add: eq)
qed

lemma mport_exists_rule:
  assumes "lib_inv X s" and Q: "\<And>q s'. lib_inv X s' \<Longrightarrow> Q (0, q, s')" "Q (- ENOENT, None, s)"
  shows "holds Q (riocp_pe_handle_mport_exists n host s)"
proof -
  have get: "holds R (riocp_pe_handle_mport_get m s)" if "\<And>s'. lib_inv X s' \<Longrightarrow> R s'" for R m
    unfolding riocp_pe_handle_mport_get_def by (rule holds_value, rule that, erule ref_inv [OF assms(1)])
  show ?thesis
    unfolding riocp_pe_handle_mport_exists_def by (rule pe_rules get Q assms(1) | assumption | rule holds_value)+
qed

lemma create_mport_handle_rule:
  assumes inv: "lib_inv {} s" and new: "\<And>h. new = Some h \<Longrightarrow> pes s h = None" and mem: "mem 2" and Q: "\<And>rc q s'. lib_inv {} s' \<Longrightarrow> Q (rc, q, s')"
  shows "holds Q (riocp_pe_create_mport_handle G mem new n lib_rev host ct nm s)"
  unfolding riocp_pe_create_mport_handle_def Let_def
  by ((erule notE, rule refl) | rule holds_pair inv.route_rules pe_rules mport_exists_rule create_mport_rule [where mem = mem, OF inv new mem]
      inv.lock_rules Q inv | assumption | rule holds_value)+

lemma mport_put_rule:
  assumes inv: "lib_inv {} s" and m: "m \<in> mports s" and Q: "\<And>gone s'. lib_inv {} s' \<Longrightarrow> Q (gone, s')"
  shows "holds Q (riocp_pe_handle_mport_put G m s)"
proof -
  have put: "holds R (upd_minfo m (\<lambda>i. i\<lparr>mp_ref := mp_ref i - 1\<rparr>) s)" if "\<And>s'. lib_inv {} s' \<Longrightarrow> m \<in> mports s' \<Longrightarrow> R s'" for R
  proof (rule holds_value, rule that)
    fix s'
    assume s': "upd_minfo m (\<lambda>i. i\<lparr>mp_ref := mp_ref i - 1\<rparr>) s = Some s'"
    show "lib_inv {} s'"
      using s' by (rule ref_inv [OF inv])
    show "m \<in> mports s'"
      using s' m by (auto simp: upd_minfo_def upd_pe_def mports_def split: option.splits)
  qed
  have destroy: "holds R (riocp_pe_handle_destroy G m t)" if "lib_inv {} t" "m \<in> mports t" "\<And>s'. lib_inv {} s' \<Longrightarrow> R s'" for R t
    using destroy_mport_inv [OF that(1,2), of G] that(3) by (auto simp: safe_def)
  show ?thesis
    unfolding riocp_pe_handle_mport_put_def by (rule pe_rules put destroy Q inv | assumption | rule holds_value)+
qed

lemma destroy_handle_rule:
  assumes inv: "lib_inv {} s" and Q: "\<And>rc q s'. lib_inv {} s' \<Longrightarrow> Q (rc, q, s')"
  shows "holds Q (riocp_pe_destroy_handle G h s)"
proof (cases h)
  case None
  then show ?thesis
    using inv Q by (simp add: riocp_pe_destroy_handle_def riocp_pe_handle_check_def)
next
  case (Some a)
  show ?thesis
  proof (cases "valid s a")
    case True
    then obtain m where m: "m \<in> mports s" "a \<in> insert m (members s m)"
      by (auto simp: valid_def)
    obtain pe where pe: "pes s a = Some pe"
      using inv_element [OF inv m] .
    have "a = m" if "RIOCP_PE_IS_MPORT pe"
    proof (rule ccontr)
      assume "a \<noteq> m"
      with m have "a \<in> members s m"
        by blast
      then obtain qe where "pes s a = Some qe" "minfo qe = None"
        using inv_member [OF inv m(1)] by metis
      with pe that show False
        by (simp add: RIOCP_PE_IS_MPORT_def)
    qed
    then have "holds Q (riocp_pe_handle_mport_put G a s \<bind> (\<lambda>(gone, s1). Some (0, if gone then None else Some a, s1)))" if "RIOCP_PE_IS_MPORT pe"
      using that m(1) by (intro holds_bind mport_put_rule [OF inv]) (simp_all add: Q)
    then show ?thesis
      using True inv by (simp add: riocp_pe_destroy_handle_def Some handle_check_valid at_def pe Q)
  next
    case False
    then show ?thesis
      using inv by (simp add: riocp_pe_destroy_handle_def Some handle_check_valid Q)
  qed
qed

end
