(* ===== verification/Pe_Steps.thy ===== *)
theory Pe_Steps
  imports Pe_Create
begin

unbundle bit_operations_syntax

text \<open>
  The library as a state machine: every public operation of \<^verbatim>\<open>riocp_pe.c\<close> keeps the invariant of the library.
\<close>

section \<open>Exploration\<close>

text \<open>The elements \<open>H\<close> of a master port, and an address that is free.\<close>

definition at_work :: "handle \<Rightarrow> handle set \<Rightarrow> handle option \<Rightarrow> 'h riocp \<Rightarrow> bool" where
  "at_work m H new s \<longleftrightarrow> lib_inv {} s \<and> m \<in> mports s \<and> H \<subseteq> insert m (members s m) \<and> (\<forall>a. new = Some a \<longrightarrow> pes s a = None)"

lemma at_work_keeps:
  assumes "at_work m H new s" and "keeps s s'"
  shows "at_work m H new s'"
proof -
  have "mports s' = mports s" "members s' m = members s m"
    using near_lists [OF keeps_near [OF assms(2), of m]] by simp_all
  moreover have "pes s a = None \<Longrightarrow> pes s' a = None" for a
    using assms(2) unfolding keeps_def by (metis option.rel_sel)
  ultimately show ?thesis
    using assms inv_keeps by (auto simp: at_work_def)
qed

interpretation wk: stable "at_work m H new" for m H new
  by unfold_locales (rule at_work_keeps)

lemma at_work_inv: "at_work m H new s \<Longrightarrow> lib_inv {} s"
  by (simp add: at_work_def)

lemma find_tag_set: "find_tag ct s hs = Some (Some q) \<Longrightarrow> q \<in> set hs"
  by (induction hs) (auto split: option.splits if_splits)

lemma find_tag_rule:
  assumes "at_work m (H \<union> set hs) new s" and "\<And>q. at_work m (H \<union> set_option q) new s \<Longrightarrow> Q q"
  shows "holds Q (find_tag ct s hs)"
proof (rule holds_value, rule assms(2))
  fix q
  assume "find_tag ct s hs = Some q"
  then have "set_option q \<subseteq> set hs"
    using find_tag_set by (cases q) auto
  then show "at_work m (H \<union> set_option q) new s"
    using assms(1) by (auto simp: at_work_def)
qed

lemma get_pe_list_rule:
  assumes wk: "at_work m H new s" and Q: "\<And>rc hs. at_work m (H \<union> set hs) new s \<Longrightarrow> Q (rc, hs)"
  shows "holds Q (riocp_mport_get_pe_list mem (Some m) s)"
proof -
  have m: "m \<in> mports s"
    using wk by (simp add: at_work_def)
  obtain mp i where mp: "pes s m = Some mp" "minfo mp = Some i" "members s m = {h. Some h \<in> set (handles i)}"
    using inv_mport [OF at_work_inv [OF wk] m] by metis
  have "at_work m (H \<union> set []) new s" "at_work m (H \<union> set (m # listed (handles i))) new s"
    using wk mp(3) by (auto simp: at_work_def listed_def)
  then show ?thesis
    unfolding riocp_mport_get_pe_list_def at_def bind.bind_lunit mp option.case option.sel
    by - (rule pe_rules Q | assumption | rule holds_value)+
qed

lemma find_comptag_rule:
  assumes wk: "at_work m H new s" and Q: "\<And>rc q s'. at_work m (H \<union> set_option q) new s' \<Longrightarrow> Q (rc, q, s')"
  shows "holds Q (riocp_pe_find_comptag mem (Some m) ct s)"
proof -
  have Q1: "Q (rc, None, s')" "Q (rc, Some m, s')" if "at_work m H new s'" for rc s'
    using that by (auto intro!: Q simp: at_work_def)
  show ?thesis
    unfolding riocp_pe_find_comptag_def
    by (assumption | rule pe_rules get_pe_list_rule find_tag_rule Q1 Q wk.state_rules wk | rule holds_value)+
qed

section \<open>Exploration\<close>

lemma probe_new_rule:
  assumes wk: "at_work m H new s" and h: "h \<in> H" and mem: "mem 2" and Q: "\<And>rc q s'. lib_inv {} s' \<Longrightarrow> Q (rc, q, s')"
  shows "holds Q (probe_new G mem new h hc port comptag_in nm s)"
proof -
  have create: "holds R (riocp_pe_handle_create_pe G mem new h hc' did port comptag_in nm t)"
    if "at_work m H new t" "\<And>rc q s'. lib_inv {} s' \<Longrightarrow> R (rc, q, s')" for R t hc' did
    using that h mem by (intro create_pe_rule [where m = m]) (auto simp: at_work_def)
  have Q1: "Q (rc, q, s')" if "at_work m H new s'" for rc q s'
    using Q at_work_inv [OF that] .
  show ?thesis
    unfolding probe_new_def
    by ((rule wk.all_rules, rule wk.state_rules [OF wk]) | (rule wk.all_rules create Q1, assumption) | (rule inv.all_rules Q, assumption)
        | rule holds_pair pe_rules | assumption | rule holds_value)+
qed

lemma probe_known_rule:
  assumes wk: "at_work m H new s" and H: "h \<in> H" "p \<in> H" and Q: "\<And>rc q s'. lib_inv {} s' \<Longrightarrow> Q (rc, q, s')"
  shows "holds Q (probe_known G h hc port p s)"
proof -
  have link: "holds R (riocp_pe_add_peer (Some h) (Some p) a b t)" if "at_work m H new t" "\<And>rc s'. lib_inv {} s' \<Longrightarrow> R (rc, s')" for R t a b
  proof -
    have "lib_inv {} t" "m \<in> mports t" "h \<in> insert m (members t m)" "p \<in> insert m (members t m)"
      using that(1) H by (auto simp: at_work_def)
    then show ?thesis
      using holds_mono [OF add_peer_inv [of t m h p a b]] that(2) by auto
  qed
  have Q1: "Q (rc, q, s')" if "at_work m H new s'" for rc q s'
    using Q at_work_inv [OF that] .
  show ?thesis
    unfolding probe_known_def
    by ((rule wk.all_rules, rule wk) | (rule wk.all_rules link Q1, assumption) | (rule inv.all_rules Q, assumption)
        | rule holds_pair pe_rules | assumption | rule holds_value)+
qed

lemma at_work_union: "at_work m (H \<union> set_option p) new s \<Longrightarrow> p = Some q \<Longrightarrow> at_work m (insert q H) new s"
  by (auto simp: at_work_def)

lemma at_work_mport:
  assumes "at_work m H new s" and "h \<in> H" and "pes s h = Some pe"
  shows "mport pe = Some m"
  using inv_element [of "{}" s m h] assms by (auto simp: at_work_def)

lemma check_at_work:
  assumes "lib_inv {} s" and "riocp_pe_handle_check (Some h) s = Some 0" and "\<And>a. new = Some a \<Longrightarrow> pes s a = None"
  obtains m where "at_work m {h} new s"
proof -
  have "valid s h"
    using assms(1,2) handle_check_valid [of "{}" s h] by (simp split: if_splits)
  then obtain m where m: "m \<in> mports s" "h \<in> insert m (members s m)"
    by (auto simp: valid_def)
  then have "at_work m {h} new s"
    using assms(1,3) by (simp add: at_work_def)
  then show thesis
    by (rule that)
qed

lemma probe_rule:
  assumes inv: "lib_inv {} s" and new: "\<And>a. new = Some a \<Longrightarrow> pes s a = None" and mem: "mem 2" and Q: "\<And>rc q s'. lib_inv {} s' \<Longrightarrow> Q (rc, q, s')"
  shows "holds Q (riocp_pe_probe G mem new src port comptag_in nm force_ct s)"
proof (cases "\<exists>h. src = Some h \<and> riocp_pe_handle_check (Some h) s = Some 0")
  case False
  then have "riocp_pe_handle_check src s \<noteq> Some 0"
    by (cases src) (auto simp: riocp_pe_handle_check_def)
  then show ?thesis
    unfolding riocp_pe_probe_def by (cases "riocp_pe_handle_check src s") (auto intro: Q inv)
next
  case True
  then obtain h where h: "src = Some h" "riocp_pe_handle_check (Some h) s = Some 0"
    by blast
  obtain m where wk: "at_work m {h} new s"
    using check_at_work [OF inv h(2) new] .
  have find: "holds R (riocp_pe_find_comptag b (mport pe) ct t)"
    if "at_work m {h} new t" "at_work m {h} new t'" "pes t' h = Some pe" "\<And>rc q s'. at_work m ({h} \<union> set_option q) new s' \<Longrightarrow> R (rc, q, s')" for R b pe ct t t'
    using find_comptag_rule [OF that(1)] at_work_mport [OF that(2) _ that(3)] that(4) by simp
  have new_pe: "holds Q (probe_new G mem new h hc port comptag_in nm t)" if "at_work m ({h} \<union> H) new t" for hc t H
    using probe_new_rule [OF that, of h] mem Q by blast
  have known: "holds Q (probe_known G h hc port q t)" if "at_work m ({h} \<union> set_option p) new t" "p = Some q" for hc p q t
    using probe_known_rule [OF that(1), of h q] that(2) Q by simp
  have Q1: "Q (rc, q, s')" if "at_work m H new s'" for rc q s' H
    using Q at_work_inv [OF that] .
  show ?thesis
    unfolding riocp_pe_probe_def h bind.bind_lunit Let_def
    by ((rule wk.all_rules Q1, rule wk) | (rule find, assumption, assumption, assumption) | (rule new_pe known wk.all_rules Q1, assumption)
        | rule holds_pair pe_rules | assumption | rule holds_value)+
qed

lemma discover_peer_rule:
  assumes wk: "at_work m {h} new s" and mem: "mem 2" and Q: "\<And>rc q s'. lib_inv {} s' \<Longrightarrow> Q (rc, q, s')"
  shows "holds Q (discover_peer G mem new h port did nm s)"
proof -
  have create: "holds R (riocp_pe_handle_create_pe G mem new h hc did port ct nm t)"
    if "at_work m {h} new t" "\<And>rc q s'. lib_inv {} s' \<Longrightarrow> R (rc, q, s')" for R t hc ct
    using that mem by (intro create_pe_rule [where m = m]) (auto simp: at_work_def)
  have Q1: "Q (rc, q, s')" if "at_work m {h} new s'" for rc q s'
    using Q at_work_inv [OF that] .
  show ?thesis
    unfolding discover_peer_def Let_def
    by ((rule wk.all_rules, rule wk) | (rule wk.all_rules create Q1, assumption) | (rule Q, assumption) | rule holds_pair pe_rules | assumption | rule holds_value)+
qed

lemma discover_rule:
  assumes inv: "lib_inv {} s" and new: "\<And>a. new = Some a \<Longrightarrow> pes s a = None" and mem: "mem 2" and Q: "\<And>rc q s'. lib_inv {} s' \<Longrightarrow> Q (rc, q, s')"
  shows "holds Q (riocp_pe_discover G mem new src port nm s)"
proof (cases "\<exists>h. src = Some h \<and> riocp_pe_handle_check (Some h) s = Some 0")
  case False
  then have "riocp_pe_handle_check src s \<noteq> Some 0"
    by (cases src) (auto simp: riocp_pe_handle_check_def)
  then show ?thesis
    unfolding riocp_pe_discover_def by (cases "riocp_pe_handle_check src s") (auto intro: Q inv)
next
  case True
  then obtain h where h: "src = Some h" "riocp_pe_handle_check (Some h) s = Some 0"
    by blast
  obtain m where wk: "at_work m {h} new s"
    using check_at_work [OF inv h(2) new] .
  have peer: "holds Q (discover_peer G mem new h port did nm t)" if "at_work m {h} new t" for did t
    using discover_peer_rule [OF that, where mem = mem] mem Q by blast
  have Q1: "Q (rc, q, s')" if "at_work m {h} new s'" for rc q s'
    using Q at_work_inv [OF that] .
  show ?thesis
    unfolding riocp_pe_discover_def h bind.bind_lunit Let_def
    by ((rule peer wk.all_rules Q1, rule wk) | (rule peer wk.all_rules Q1, assumption) | rule holds_pair pe_rules | rule wk | assumption | rule holds_value)+
qed

section \<open>The library as a state machine\<close>

text \<open>
  The calls of the functions of \<^verbatim>\<open>riocp_pe.h\<close> that change the state of the library, with any arguments. Both functions that create the handle of a
  master port are \<open>create_mport_handle\<close>; the functions left out (\<open>riocp_pe_get_ports\<close> and others) read the library and at most reach the fabric, whose
  changes are \<open>fabric_event\<close>. Three restrictions: the memory for the items of the lists of handles is available and the address of a new element is not in
  use; the private data that a client sets is a structure of the driver; and the size of device identifiers is not set to 16 bits.
\<close>

inductive riocp_step :: "'h mgmt \<Rightarrow> 'h riocp \<Rightarrow> 'h riocp \<Rightarrow> bool" for G where
  fabric_event: "riocp_step G s (s\<lparr>fabric := f\<rparr>)"
| create_mport_handle: "riocp_pe_create_mport_handle G mem new n lib_rev host ct nm s = Some (rc, p, s') \<Longrightarrow> mem 2 \<Longrightarrow> (\<And>a. new = Some a \<Longrightarrow> pes s a = None) \<Longrightarrow>
    riocp_step G s s'"
| destroy_handle: "riocp_pe_destroy_handle G h s = Some (rc, p, s') \<Longrightarrow> riocp_step G s s'"
| probe: "riocp_pe_probe G mem new src port ct nm force_ct s = Some (rc, p, s') \<Longrightarrow> mem 2 \<Longrightarrow> (\<And>a. new = Some a \<Longrightarrow> pes s a = None) \<Longrightarrow> riocp_step G s s'"
| discover: "riocp_pe_discover G mem new src port nm s = Some (rc, p, s') \<Longrightarrow> mem 2 \<Longrightarrow> (\<And>a. new = Some a \<Longrightarrow> pes s a = None) \<Longrightarrow> riocp_step G s s'"
| maint_read: "riocp_pe_maint_read G h oset s = Some (rc, v, s') \<Longrightarrow> riocp_step G s s'"
| maint_write: "riocp_pe_maint_write G h oset v s = Some (rc, s') \<Longrightarrow> riocp_step G s s'"
| verify: "riocp_pe_verify G h s = Some (rc, s') \<Longrightarrow> riocp_step G s s'"
| restore: "riocp_pe_restore G h s = Some (rc, s') \<Longrightarrow> riocp_step G s s'"
| lock: "riocp_pe_lock G h flags s = Some (rc, s') \<Longrightarrow> riocp_step G s s'"
| unlock: "riocp_pe_unlock G h s = Some (rc, s') \<Longrightarrow> riocp_step G s s'"
| get_destid: "riocp_pe_get_destid G h s = Some (rc, did, s') \<Longrightarrow> riocp_step G s s'"
| set_destid: "riocp_pe_set_destid G h did s = Some (rc, s') \<Longrightarrow> riocp_step G s s'"
| get_comptag: "riocp_pe_get_comptag G h s = Some (rc, ct, s') \<Longrightarrow> riocp_step G s s'"
| update_comptag: "riocp_pe_update_comptag G h wr_did s = Some (rc, s') \<Longrightarrow> riocp_step G s s'"
| find_comptag: "riocp_pe_find_comptag b h ct s = Some (rc, p, s') \<Longrightarrow> riocp_step G s s'"
| clear_enumerated: "riocp_pe_clear_enumerated G a s = Some (rc, s') \<Longrightarrow> riocp_step G s s'"
| reset_port: "riocp_pe_reset_port G h port lp s = Some (rc, s') \<Longrightarrow> riocp_step G s s'"
| get_route_entry: "riocp_sw_get_route_entry G h lut did s = Some (rc, v, s') \<Longrightarrow> riocp_step G s s'"
| set_route_entry: "riocp_sw_set_route_entry G h lut did v s = Some (rc, s') \<Longrightarrow> riocp_step G s s'"
| maint_set_route: "riocp_pe_maint_set_route G a did pnum s = Some (rc, s') \<Longrightarrow> riocp_step G s s'"
| enable_pe: "riocp_enable_pe G a port s = (rc, s') \<Longrightarrow> riocp_step G s s'"
| set_private: "riocp_pe_handle_set_private h (Private d) s = Some (rc, s') \<Longrightarrow> riocp_step G s s'"
| alloc_ct_did: "riocp_pe_alloc_ct_did a ct did sz s = Some (rc, ct', did', s') \<Longrightarrow> riocp_step G s s'"
| set_did_sz: "riocp_set_did_sz sz s = (rc, s') \<Longrightarrow> sz \<noteq> dev16_sz \<Longrightarrow> riocp_step G s s'"

text \<open>The library when it is loaded, with identifiers of eight bits.\<close>

definition riocp_start :: "ct_state \<Rightarrow> 'h \<Rightarrow> 'h riocp" where
  "riocp_start t f = \<lparr>pes = Map.empty, mport_handles = [None], pe_did_sz = dev08_sz, tags = t, fabric = f\<rparr>"

inductive riocp_reachable :: "'h mgmt \<Rightarrow> 'h riocp \<Rightarrow> bool" for G where
  start: "riocp_reachable G (riocp_start t f)"
| step: "riocp_reachable G s \<Longrightarrow> riocp_step G s s' \<Longrightarrow> riocp_reachable G s'"

lemma start_inv: "lib_inv {} (riocp_start t f)"
  by (simp add: lib_inv_def riocp_start_def mports_def list_ok_def)

lemma holds_result2: "r = Some (a, s') \<Longrightarrow> holds (\<lambda>(a, s'). I s') r \<Longrightarrow> I s'"
  and holds_result3: "t = Some (a, b, s') \<Longrightarrow> holds (\<lambda>(a, b, s'). I s') t \<Longrightarrow> I s'"
  and holds_result4: "u = Some (a, b, c, s') \<Longrightarrow> holds (\<lambda>(a, b, c, s'). I s') u \<Longrightarrow> I s'"
  by (simp_all add: holds_def)

lemma step_inv:
  assumes step: "riocp_step G s s'" and inv: "lib_inv {} s"
  shows "lib_inv {} s'"
  using step
proof cases
  case create_mport_handle
  then show ?thesis
    by (elim holds_result3) (rule create_mport_handle_rule [OF inv], simp_all)
next
  case destroy_handle
  then show ?thesis
    by (elim holds_result3) (rule destroy_handle_rule [OF inv], simp)
next
  case probe
  then show ?thesis
    by (elim holds_result3) (rule probe_rule [OF inv], simp_all)
next
  case discover
  then show ?thesis
    by (elim holds_result3) (rule discover_rule [OF inv], simp_all)
next
  case enable_pe
  then show ?thesis
    by (auto simp: riocp_enable_pe_def Let_def split: prod.splits intro: inv.state_rules inv)
next
  case set_did_sz
  moreover have "s\<lparr>pe_did_sz := dev08_sz\<rparr> = s"
    using inv by (cases s) (simp add: lib_inv_def)
  ultimately show ?thesis
    using inv by (auto simp: riocp_set_did_sz_def split: if_splits)
qed (use inv in \<open>simp add: inv.state_rules\<close>, ((erule holds_result2 holds_result3 holds_result4, rule inv.all_rules, rule inv, simp)+))

end
