(* ===== verification/Pe_Safe.thy ===== *)
theory Pe_Safe
  imports Pe_Steps
begin

unbundle bit_operations_syntax

text \<open>
  Maintenance accesses are defined for every pointer, when the invariant of the library holds and the route to every element leads over known elements.
\<close>

section \<open>Routes\<close>

text \<open>The way over \<open>n\<close> elements, the first of which is \<open>ith\<close>, along the ports of an address from index \<open>i\<close> on.\<close>

primrec route_ok :: "u8 list \<Rightarrow> nat \<Rightarrow> nat \<Rightarrow> handle option \<Rightarrow> 'h riocp \<Rightarrow> bool" where
  "route_ok as 0 i ith s = True"
| "route_ok as (Suc n) i ith s =
     (case ith of
        None \<Rightarrow> False
      | Some h \<Rightarrow> i < length as \<and> (n = 0 \<or> (case peer_at h (as ! i) s of None \<Rightarrow> False | Some next \<Rightarrow> route_ok as n (Suc i) next s)))"

definition routes_ok :: "'h riocp \<Rightarrow> bool" where
  "routes_ok s \<longleftrightarrow> (\<forall>m \<in> mports s. \<exists>first. peer_at m 0 s = Some first \<and>
     (\<forall>h \<in> members s m. \<forall>pe. pes s h = Some pe \<longrightarrow>
        route_ok (case address pe of None \<Rightarrow> [] | Some as \<Rightarrow> as) (unat (hopcount pe)) 0 first s))"

lemma keeps_peer_at: "keeps s s' \<Longrightarrow> peer_at h p s' = peer_at h p s"
proof -
  assume "keeps s s'"
  then have "rel_option same_pe (pes s h) (pes s' h)"
    by (simp add: keeps_def)
  then show ?thesis
    by (cases "pes s h"; cases "pes s' h") (simp_all add: peer_at_def same_pe_def get_peer_def)
qed

lemma keeps_route: "keeps s s' \<Longrightarrow> route_ok as n i ith s' = route_ok as n i ith s"
  by (induction n arbitrary: i ith) (simp_all add: keeps_peer_at split: option.split)

text \<open>A state that is reached from \<open>s0\<close> without changes to handles and network, with elements \<open>H\<close> of the master port \<open>m\<close>.\<close>

definition known :: "handle \<Rightarrow> handle set \<Rightarrow> 'h riocp \<Rightarrow> 'h riocp \<Rightarrow> bool" where
  "known m H s0 s \<longleftrightarrow> keeps s0 s \<and> lib_inv {} s0 \<and> m \<in> mports s0 \<and> H \<subseteq> insert m (members s0 m)"

lemma known_keeps: "known m H s0 s \<Longrightarrow> keeps s s' \<Longrightarrow> known m H s0 s'"
  using keeps_trans by (auto simp: known_def)

interpretation kn: stable "known m H s0" for m H s0
  by unfold_locales (rule known_keeps)

lemma known_now: "known m H s0 s \<Longrightarrow> lib_inv {} s" "known m H s0 s \<Longrightarrow> m \<in> mports s" "known m H s0 s \<Longrightarrow> H \<subseteq> insert m (members s m)"
  using near_lists [OF keeps_near, of s0 s] inv_keeps by (auto simp: known_def)

lemma known_element:
  assumes "known m H s0 s" and "h \<in> insert m H"
  obtains pe where "pes s h = Some pe" and "mport pe = Some m" and "links_ok {} (insert m (members s m)) pe"
proof -
  have inv: "lib_inv {} s" and m: "m \<in> mports s" and h: "h \<in> insert m (members s m)"
    using known_now [OF assms(1)] assms(2) by auto
  obtain pe where pe: "pes s h = Some pe" "mport pe = Some m"
    using inv_element [OF inv m h] .
  moreover have "links_ok {} (insert m (members s m)) pe"
    using inv_links [OF inv m h _ pe(1)] by simp
  ultimately show thesis
    by (rule that)
qed

lemma known_private:
  assumes "known m H s0 s" and "h \<in> insert m H"
  obtains pe d where "pes s h = Some pe" and "mport pe = Some m" and "private_data pe = Private d"
  by (rule known_element [OF assms]) (use that in \<open>auto simp: links_ok_def ready_def has_private_def\<close>)

lemma known_peer:
  assumes k: "known m H s0 s" and h: "h \<in> insert m H" and p: "peer_at h p s = Some (Some q)"
  shows "known m (insert q H) s0 s"
proof -
  obtain pe where pe: "pes s h = Some pe" "links_ok {} (insert m (members s m)) pe"
    using known_element [OF k h] by metis
  then obtain ps where ps: "peers pe = Some ps" "\<And>x q. x \<in> set ps \<Longrightarrow> peer x = Some q \<Longrightarrow> q \<in> insert m (members s m)"
    unfolding links_ok_def by blast
  have "unat p < length ps" "peer (ps ! unat p) = Some q"
    using p by (simp_all add: peer_at_def get_peer_def pe ps(1) split: if_splits)
  then have "q \<in> insert m (members s m)"
    using ps(2) nth_mem by blast
  then show ?thesis
    using k near_lists(2) [OF keeps_near, of s0 s] by (simp add: known_def)
qed

lemma known_mport:
  assumes "known m H s0 s"
  obtains mp i where "pes s m = Some mp" and "minfo mp = Some i" and "mport mp = Some m" and "acc_info i = Some True"
proof -
  obtain mp where mp: "pes s m = Some mp" "mport mp = Some m" "links_ok {} (insert m (members s m)) mp"
    using known_element [OF assms, of m] by blast
  have inv: "lib_inv {} s" "m \<in> mports s"
    using known_now [OF assms] by simp_all
  obtain mp' i where "pes s m = Some mp'" "minfo mp' = Some i"
    using inv_mport [OF inv] by metis
  with mp that show thesis
    by (simp add: links_ok_def ready_def)
qed

section \<open>Accesses\<close>

lemma safeI: "r \<noteq> None \<Longrightarrow> holds Q r \<Longrightarrow> safe Q r"
  by (auto simp: safe_def holds_def)

lemma acc_port_fabric [simp]: "acc_port pe (s\<lparr>fabric := f\<rparr>) = acc_port pe s"
  by (cases "minfo pe"; cases "mport pe") (simp_all add: acc_port_def get_acc_p_def)

lemma reg_defined:
  assumes "known m H s0 s" and "h \<in> H"
  shows "riocp_drv_reg_rd G h oset s \<noteq> None" and "riocp_drv_reg_wr G h oset v s \<noteq> None"
proof -
  obtain pe d where pe: "pes s h = Some pe" "mport pe = Some m" "private_data pe = Private d"
    using known_private [OF assms(1), of h] assms(2) by blast
  obtain mp i where mp: "pes s m = Some mp" "minfo mp = Some i" "acc_info i = Some True"
    using known_mport [OF assms(1)] by metis
  have "valid s h"
    using known_now [OF assms(1)] assms(2) by (auto simp: valid_def)
  then have check: "riocp_pe_handle_check (Some h) s = Some 0"
    using handle_check_valid [OF known_now(1) [OF assms(1)], of h] by simp
  obtain n where acc: "acc_port pe s = Some n"
    by (cases "minfo pe") (simp_all add: acc_port_def get_acc_p_def pe mp)
  have host: "RIOCP_PE_IS_HOST pe s = Some (is_host i)"
    by (simp add: RIOCP_PE_IS_HOST_def mport_info_def at_def pe mp)
  show "riocp_drv_reg_rd G h oset s \<noteq> None"
    by (simp add: acc riocp_drv_reg_rd_def mpsw_drv_reg_rd_def riocp_pe_handle_get_private_def pe host check at_def priv_def upd_pe_def split: prod.split)
  show "riocp_drv_reg_wr G h oset v s \<noteq> None"
    by (simp add: acc riocp_drv_reg_wr_def mpsw_drv_reg_wr_def riocp_pe_handle_get_private_def pe host check at_def priv_def upd_pe_def Let_def
        split: prod.split option.split)
qed

lemma known_info:
  assumes "known m H s0 s" and "h \<in> insert m H"
  obtains pe i where "pes s h = Some pe" and "mport pe = Some m" and "mport_info pe s = Some i" and "acc_info i = Some True"
proof -
  obtain pe where "pes s h = Some pe" "mport pe = Some m"
    using known_private [OF assms] by metis
  moreover obtain mp i where "pes s m = Some mp" "minfo mp = Some i" "acc_info i = Some True"
    using known_mport [OF assms(1)] by metis
  ultimately show thesis
    using that by (simp add: mport_info_def at_def)
qed

lemma lock_access_defined:
  assumes "known m H s0 s" and "h \<in> insert m H"
  shows "riocp_pe_lock_read G h did hc s \<noteq> None" and "riocp_pe_lock_write G h did hc v s \<noteq> None"
proof -
  obtain pe i where pe: "pes s h = Some pe" "mport_info pe s = Some i" "acc_info i = Some True"
    using known_info [OF assms] by metis
  then show "riocp_pe_lock_read G h did hc s \<noteq> None" "riocp_pe_lock_write G h did hc v s \<noteq> None"
    by (auto simp: riocp_pe_lock_read_def riocp_pe_lock_write_def riocp_drv_raw_reg_rd_def riocp_drv_raw_reg_wr_def mpsw_drv_raw_reg_rd_def
        mpsw_drv_raw_reg_wr_def RIOCP_PE_IS_HOST_def split: prod.split)
qed

text \<open>Rules for total correctness.\<close>

named_theorems safe_rules \<open>weakest preconditions for total correctness\<close>

lemma safe_bindI [safe_rules]: "safe (\<lambda>x. safe Q (f x)) r \<Longrightarrow> safe Q (Option.bind r f)"
  by (simp add: safe_bind)

lemma safe_if [safe_rules]:
  "(b \<Longrightarrow> safe Q r) \<Longrightarrow> (\<not> b \<Longrightarrow> safe Q r') \<Longrightarrow> safe Q (if b then r else r')"
  "(b \<Longrightarrow> safe Q (Some x)) \<Longrightarrow> (\<not> b \<Longrightarrow> safe Q (Some y)) \<Longrightarrow> safe Q (Some (if b then x else y))"
  by simp_all

lemma safe_pair [safe_rules]: "safe Q (f a b) \<Longrightarrow> safe Q (case (a, b) of (x, y) \<Rightarrow> f x y)"
  by simp

lemma safe_result [safe_rules]: "Q x \<Longrightarrow> safe Q (Some x)"
  by simp

lemma lock_access_safe [safe_rules]:
  "known m H s0 s \<Longrightarrow> h \<in> insert m H \<Longrightarrow> (\<And>rc x s'. known m H s0 s' \<Longrightarrow> R (rc, x, s')) \<Longrightarrow> safe R (riocp_pe_lock_read G h did hc s)"
  "known m H s0 s \<Longrightarrow> h \<in> insert m H \<Longrightarrow> (\<And>rc s'. known m H s0 s' \<Longrightarrow> Q (rc, s')) \<Longrightarrow> safe Q (riocp_pe_lock_write G h did hc v s)"
  by (rule safeI, erule (1) lock_access_defined, erule kn.lock_access_rules, assumption)+

lemma pes_safe [safe_rules]: "known m H s0 s \<Longrightarrow> h \<in> insert m H \<Longrightarrow> (\<And>pe. pes s h = Some pe \<Longrightarrow> mport pe = Some m \<Longrightarrow> Q pe) \<Longrightarrow> safe Q (pes s h)"
  by (erule (1) known_private) (simp add: safe_def)

lemma lock_safe:
  assumes k: "known m H s0 s" and h: "h \<in> insert m H" and Q: "\<And>rc s'. known m H s0 s' \<Longrightarrow> Q (rc, s')"
  shows "safe Q (riocp_pe_lock_set G h did hc s)" and "safe Q (riocp_pe_lock_clear G h did hc s)"
  unfolding riocp_pe_lock_set_def riocp_pe_lock_clear_def by (rule safe_rules Q k h | assumption)+

lemma safe_case [safe_rules]:
  "known m H s0 s \<Longrightarrow> (\<And>rc s'. known m H s0 s' \<Longrightarrow> safe Q (f rc s')) \<Longrightarrow> safe Q (case riocp_drv_set_route_entry G h port did v s of (rc, s') \<Rightarrow> f rc s')"
  by (simp add: riocp_drv_set_route_entry_def kn.state_rules split: prod.split)

lemma any_route_safe:
  assumes "known m H s0 s" and "set vis \<subseteq> H" and "n = 0 \<or> set_option ith \<subseteq> insert m H" and "route_ok as n i ith s0"
    and "\<And>ok rc vis' s'. known m (set vis') s0 s' \<Longrightarrow> Q (ok, rc, vis', s')"
  shows "safe Q (any_route G as n i ith vis ret s)"
  using assms
proof (induction n arbitrary: i ith vis ret s H)
  case 0
  have "known m (set vis) s0 s"
    using "0.prems"(1,2) by (auto simp: known_def)
  then show ?case
    using "0.prems"(5) by simp
next
  case (Suc n)
  obtain h where h: "ith = Some h" "i < length as" "h \<in> insert m H"
    and route: "n = 0 \<or> (\<exists>next. peer_at h (as ! i) s0 = Some next \<and> route_ok as n (Suc i) next s0)"
    using Suc.prems(3,4) by (auto split: option.splits)
  define H' where "H' = insert h H"
  have k: "known m H' s0 s"
    using Suc.prems(1) h(3) by (auto simp: known_def H'_def)
  have hH: "h \<in> insert m H'"
    by (simp add: H'_def)
  have vis: "set (vis @ [h]) \<subseteq> H'"
    using Suc.prems(2) by (auto simp: H'_def)
  have Q: "Q (ok, rc, vis @ [h], s')" if "known m H' s0 s'" for ok rc s'
    using that vis by (intro Suc.prems(5)) (auto simp: known_def)
  obtain pe where pe: "pes s h = Some pe" "mport pe = Some m"
    using known_private [OF k hH] by metis
  have more: "safe Q (Option.bind (peer_at h (as ! i) t) (\<lambda>next. any_route G as n (Suc i) next (vis @ [h]) rc t))"
    if t: "known m H' s0 t" and n: "n \<noteq> 0" for t rc
  proof -
    obtain nxt where nxt: "peer_at h (as ! i) s0 = Some nxt" "route_ok as n (Suc i) nxt s0"
      using route n by blast
    have at: "peer_at h (as ! i) t = Some nxt"
      using keeps_peer_at [of s0 t] t nxt(1) by (simp add: known_def)
    have "known m (H' \<union> set_option nxt) s0 t"
      using known_peer [OF t hH] at t by (cases nxt) auto
    then have "safe Q (any_route G as n (Suc i) nxt (vis @ [h]) rc t)"
      using vis nxt(2) Suc.prems(5) by (intro Suc.IH [where H = "H' \<union> set_option nxt"]) auto
    then show ?thesis
      by (simp add: at)
  qed
  have len: "length as \<le> i \<longleftrightarrow> False"
    using h(2) by simp
  show ?case
    unfolding any_route.simps h(1) bind.bind_lunit pe Let_def len if_False
    by (rule safe_rules lock_safe k Q more insertI1 | assumption)+
qed

lemma clear_locks_safe:
  assumes "known m H s0 s" and "fst ` set hs \<subseteq> insert m H" and "\<And>rc s'. known m H s0 s' \<Longrightarrow> Q (rc, s')"
  shows "safe Q (clear_locks G hs s)"
  using assms
proof (induction hs arbitrary: s)
  case (Cons x hs)
  obtain h i where x: "x = (h, i)"
    by fastforce
  have h: "h \<in> insert m H" "fst ` set hs \<subseteq> insert m H"
    using Cons.prems(2) x by auto
  show ?case
    unfolding clear_locks.simps x by (rule safe_rules lock_safe Cons.IH Cons.prems(1,3) h | assumption)+
qed simp

lemma path_pes_safe:
  assumes "known m H s0 s" and "n = 0 \<or> set_option ith \<subseteq> insert m H" and "route_ok as n i ith s0"
    and "\<And>hs. known m (H \<union> set hs) s0 s \<Longrightarrow> Q hs"
  shows "safe Q (path_pes as n i ith s)"
  using assms
proof (induction n arbitrary: i ith H Q)
  case 0
  then show ?case
    using "0.prems"(4) [of "[]"] by simp
next
  case (Suc n)
  obtain h where h: "ith = Some h" "i < length as" "h \<in> insert m H"
    and route: "n = 0 \<or> (\<exists>next. peer_at h (as ! i) s0 = Some next \<and> route_ok as n (Suc i) next s0)"
    using Suc.prems(2,3) by (auto split: option.splits)
  have k: "known m (insert h H) s0 s"
    using Suc.prems(1) h(3) by (auto simp: known_def)
  show ?case
  proof (cases "n = 0")
    case True
    then show ?thesis
      using Suc.prems(4) [of "[h]"] k by (simp add: h(1))
  next
    case False
    then obtain nxt where nxt: "peer_at h (as ! i) s0 = Some nxt" "route_ok as n (Suc i) nxt s0"
      using route by blast
    have at: "peer_at h (as ! i) s = Some nxt"
      using keeps_peer_at [of s0 s] k nxt(1) by (simp add: known_def)
    have "known m (insert h H \<union> set_option nxt) s0 s"
      using known_peer [OF k, of h] at k by (cases nxt) auto
    then have "safe (\<lambda>hs. Q (h # hs)) (path_pes as n (Suc i) nxt s)"
      using nxt(2) by (rule_tac Suc.IH) (auto intro!: Suc.prems(4) simp: known_def)
    then show ?thesis
      using False h(2) by (simp add: h(1) at safe_bind)
  qed
qed

lemma upd_any_safe:
  assumes "known m H s0 s" and "\<And>s'. known m H s0 s' \<Longrightarrow> Q s'"
  shows "safe Q (upd_minfo m (\<lambda>i. i\<lparr>any_id_target := t\<rparr>) s)"
proof (rule safeI)
  obtain mp i where "pes s m = Some mp" "minfo mp = Some i"
    using known_mport [OF assms(1)] by metis
  then show "upd_minfo m (\<lambda>i. i\<lparr>any_id_target := t\<rparr>) s \<noteq> None"
    by (simp add: upd_minfo_def upd_pe_def at_def)
qed (rule kn.upd_minfo_rule [OF assms])

lemma route_facts:
  assumes k: "known m H s0 s" and h: "h \<in> H" "h \<in> members s0 m" and routes: "routes_ok s0"
  obtains pe i first where "pes s h = Some pe" and "mport pe = Some m" and "minfo pe = None" and "mport_info pe s = Some i" and "peer_at m 0 s = Some first"
    and "known m (H \<union> set_option first) s0 s" and "route_ok (case address pe of None \<Rightarrow> [] | Some as \<Rightarrow> as) (unat (hopcount pe)) 0 first s0"
proof -
  have m: "m \<in> mports s0" and inv: "lib_inv {} s0" and keep: "keeps s0 s"
    using k by (simp_all add: known_def)
  obtain pe0 where pe0: "pes s0 h = Some pe0" "minfo pe0 = None" "mport pe0 = Some m"
    using inv_member [OF inv m h(2)] by metis
  obtain pe where pe: "pes s h = Some pe" "core pe = core pe0"
    using core_at [OF near_core [OF keeps_near [OF keep]] pe0(1)] by metis
  obtain first where first: "peer_at m 0 s0 = Some first" "route_ok (case address pe0 of None \<Rightarrow> [] | Some as \<Rightarrow> as) (unat (hopcount pe0)) 0 first s0"
    using routes m h(2) pe0(1) by (auto simp: routes_ok_def)
  have at: "peer_at m 0 s = Some first"
    using keeps_peer_at [OF keep] first(1) by simp
  have "known m (H \<union> set_option first) s0 s"
    using known_peer [OF k _ at [THEN trans]] k by (cases first) auto
  moreover obtain i where "mport_info pe s = Some i"
    using known_info [OF k, of h] h(1) pe(1) by auto
  ultimately show thesis
    using that pe at first(2) pe0(2,3) core_fields [OF pe(2)] by simp
qed

lemma set_route_safe:
  assumes k: "known m H s0 s" and h: "h \<in> H" "h \<in> members s0 m" and routes: "routes_ok s0" and Q: "\<And>rc s'. known m H s0 s' \<Longrightarrow> Q (rc, s')"
  shows "safe Q (riocp_pe_maint_set_anyid_route G h s)"
proof -
  obtain pe i first where pe: "pes s h = Some pe" "mport pe = Some m" "mport_info pe s = Some i" "peer_at m 0 s = Some first"
    and k1: "known m (H \<union> set_option first) s0 s" and route: "route_ok (case address pe of None \<Rightarrow> [] | Some as \<Rightarrow> as) (unat (hopcount pe)) 0 first s0"
    using route_facts [OF k h routes] by metis
  have any: "safe R (any_route G (case address pe of None \<Rightarrow> [] | Some as \<Rightarrow> as) (unat (hopcount pe)) 0 first [] 0 s)"
    if "\<And>ok rc vis s'. known m (set vis) s0 s' \<Longrightarrow> R (ok, rc, vis, s')" for R
    by (rule any_route_safe [OF k1]) (use route that in auto)
  have clear: "safe R (clear_locks G (rev (zip vis [0..<length vis])) t)" if "known m (set vis) s0 t" "\<And>rc s'. known m (set vis) s0 s' \<Longrightarrow> R (rc, s')" for R vis t
    by (rule clear_locks_safe [OF that(1)]) (use that(2) in \<open>auto dest: set_zip_leftD\<close>)
  have Q1: "Q (rc, s')" if "known m X s0 s'" for rc X s'
    using that k by (intro Q) (auto simp: known_def)
  show ?thesis
    unfolding riocp_pe_maint_set_anyid_route_def pe bind.bind_lunit
    by ((rule Q1, assumption) | (rule Q1, rule k) | rule safe_rules any clear upd_any_safe | assumption)+
qed

lemma unset_route_safe:
  assumes k: "known m H s0 s" and h: "h \<in> H" "h \<in> members s0 m" and routes: "routes_ok s0" and Q: "\<And>rc s'. known m H s0 s' \<Longrightarrow> Q (rc, s')"
  shows "safe Q (riocp_pe_maint_unset_anyid_route G h s)"
proof -
  obtain pe i first where pe: "pes s h = Some pe" "mport pe = Some m" "mport_info pe s = Some i" "peer_at m 0 s = Some first"
    and k1: "known m (H \<union> set_option first) s0 s" and route: "route_ok (case address pe of None \<Rightarrow> [] | Some as \<Rightarrow> as) (unat (hopcount pe)) 0 first s0"
    using route_facts [OF k h routes] by metis
  have path: "safe R (path_pes (case address pe of None \<Rightarrow> [] | Some as \<Rightarrow> as) (unat (hopcount pe)) 0 first s)"
    if "\<And>hs. known m (H \<union> set_option first \<union> set hs) s0 s \<Longrightarrow> R hs" for R
    by (rule path_pes_safe [OF k1]) (use route that in auto)
  have clear: "safe R (clear_locks G (rev (zip vis [0..<length vis])) t)" if "known m (X \<union> set vis) s0 t" "\<And>rc s'. known m (X \<union> set vis) s0 s' \<Longrightarrow> R (rc, s')" for R vis X t
    by (rule clear_locks_safe [OF that(1)]) (use that(2) in \<open>auto dest: set_zip_leftD\<close>)
  have Q1: "Q (rc, s')" if "known m X s0 s'" for rc X s'
    using that k by (intro Q) (auto simp: known_def)
  show ?thesis
    unfolding riocp_pe_maint_unset_anyid_route_def pe bind.bind_lunit
    by ((rule Q1, assumption) | (rule Q1, rule k) | rule safe_rules path clear upd_any_safe | assumption)+
qed

lemma reg_safe:
  "known m H s0 s \<Longrightarrow> h \<in> H \<Longrightarrow> (\<And>rc x s'. known m H s0 s' \<Longrightarrow> R (rc, x, s')) \<Longrightarrow> safe R (riocp_drv_reg_rd G h oset s)"
  "known m H s0 s \<Longrightarrow> h \<in> H \<Longrightarrow> (\<And>rc s'. known m H s0 s' \<Longrightarrow> Q (rc, s')) \<Longrightarrow> safe Q (riocp_drv_reg_wr G h oset v s)"
  by (rule safeI, erule (1) reg_defined, erule kn.driver_rules, assumption)+

lemma maint_safe:
  assumes inv: "lib_inv {} s0" "routes_ok s0"
  shows "safe (\<lambda>(rc, x, s'). keeps s0 s') (riocp_pe_maint_read G p oset s0)" and "safe (\<lambda>(rc, s'). keeps s0 s') (riocp_pe_maint_write G p oset v s0)"
proof -
  have "safe R (riocp_pe_maint_read G p oset s0) \<and> safe Q (riocp_pe_maint_write G p oset v s0)"
    if R: "\<And>rc x s'. keeps s0 s' \<Longrightarrow> R (rc, x, s')" and Q: "\<And>rc s'. keeps s0 s' \<Longrightarrow> Q (rc, s')" for R Q
  proof (cases "\<exists>h. p = Some h \<and> valid s0 h")
    case False
    then obtain e where "riocp_pe_handle_check p s0 = Some e" "e \<noteq> 0"
      using handle_check_valid [OF inv(1)] by (cases p) (auto simp: riocp_pe_handle_check_def)
    then show ?thesis
      using R Q by (simp add: riocp_pe_maint_read_def riocp_pe_maint_write_def)
  next
    case True
    then obtain h where p: "p = Some h" "valid s0 h"
      by blast
    then obtain m where h: "p = Some h" "riocp_pe_handle_check (Some h) s0 = Some 0" "m \<in> mports s0" "h \<in> insert m (members s0 m)"
      using handle_check_valid [OF inv(1), of h] unfolding valid_def by auto
    have k: "known m {h} s0 s0"
      using h inv(1) by (simp add: known_def)
    obtain pe where pe: "pes s0 h = Some pe"
      using known_private [OF k] by blast
    have hm: "h \<in> members s0 m" if "\<not> RIOCP_PE_IS_MPORT pe"
    proof (rule ccontr)
      assume "h \<notin> members s0 m"
      then have "h = m"
        using h(4) by blast
      moreover obtain mp i where "pes s0 m = Some mp" "minfo mp = Some i"
        using inv_mport [OF inv(1) h(3)] by metis
      ultimately show False
        using pe that by (simp add: RIOCP_PE_IS_MPORT_def)
    qed
    note rules = safe_rules reg_safe set_route_safe [OF _ _ _ inv(2)] unset_route_safe [OF _ _ _ inv(2)] insertI1 [of h "{}"]
    have R1: "R (rc, x, s')" if "known m {h} s0 s'" for rc x s'
      using that R by (simp add: known_def)
    have Q1: "Q (rc, s')" if "known m {h} s0 s'" for rc s'
      using that Q by (simp add: known_def)
    have "safe R (riocp_pe_maint_read G p oset s0)"
      unfolding riocp_pe_maint_read_def h(1,2) bind.bind_lunit pe by (rule rules R1 k | assumption | erule hm | (erule notE, rule refl))+
    moreover have "safe Q (riocp_pe_maint_write G p oset v s0)"
      unfolding riocp_pe_maint_write_def h(1,2) bind.bind_lunit pe by (rule rules Q1 k | assumption | erule hm | (erule notE, rule refl))+
    ultimately show ?thesis ..
  qed
  then show "safe (\<lambda>(rc, x, s'). keeps s0 s') (riocp_pe_maint_read G p oset s0)" "safe (\<lambda>(rc, s'). keeps s0 s') (riocp_pe_maint_write G p oset v s0)"
    by simp_all
qed

lemma keeps_links: "keeps s s' \<Longrightarrow> links s' = links s"
proof
  fix hp :: "handle \<times> u8"
  assume "keeps s s'"
  then have "rel_option same_pe (pes s (fst hp)) (pes s' (fst hp))"
    by (simp add: keeps_def)
  then show "links s' hp = links s hp"
    by (cases "pes s (fst hp)"; cases "pes s' (fst hp)") (simp_all add: links_def same_pe_def get_peer_def)
qed

lemma keeps_routes:
  assumes keep: "keeps s s'" and routes: "routes_ok s"
  shows "routes_ok s'"
  unfolding routes_ok_def
proof (intro ballI)
  have lists: "mports s' = mports s" "members s' m = members s m" for m
    using near_lists [OF keeps_near [OF keep]] by simp_all
  fix m
  assume "m \<in> mports s'"
  then have m: "m \<in> mports s"
    by (simp add: lists)
  obtain first where first: "peer_at m 0 s = Some first"
    and route: "\<And>h pe. h \<in> members s m \<Longrightarrow> pes s h = Some pe \<Longrightarrow> route_ok (case address pe of None \<Rightarrow> [] | Some as \<Rightarrow> as) (unat (hopcount pe)) 0 first s"
    using routes m unfolding routes_ok_def by blast
  have "route_ok (case address pe' of None \<Rightarrow> [] | Some as \<Rightarrow> as) (unat (hopcount pe')) 0 first s'" if h: "h \<in> members s' m" "pes s' h = Some pe'" for h pe'
  proof -
    obtain pe where pe: "pes s h = Some pe" "core pe = core pe'"
      using core_at [OF near_core [OF keeps_near [OF keep], symmetric] h(2)] by metis
    show ?thesis
      using route [OF _ pe(1)] h(1) core_fields(3,4) [OF pe(2)] keeps_route [OF keep] by (simp add: lists)
  qed
  then show "\<exists>first. peer_at m 0 s' = Some first \<and>
      (\<forall>h\<in>members s' m. \<forall>pe. pes s' h = Some pe \<longrightarrow> route_ok (case address pe of None \<Rightarrow> [] | Some as \<Rightarrow> as) (unat (hopcount pe)) 0 first s')"
    using first keeps_peer_at [OF keep] by auto
qed

section \<open>Example\<close>

text \<open>A master port, a switch behind it, and an end point at port 2 of the switch.\<close>

definition ex_element :: "u32 \<Rightarrow> u8 \<Rightarrow> u8 list option \<Rightarrow> riocp_pe_mport option \<Rightarrow> riocp_pe_peer list \<Rightarrow> riocp_pe" where
  "ex_element n hc as i ps = (ex_pe n i)\<lparr>hopcount := hc, address := as, peers := Some ps, private_data := Private \<lparr>dev_h_valid = True, dev_h = dev_zero\<rparr>\<rparr>"

definition ex_lib :: "unit riocp" where
  "ex_lib = \<lparr>pes = [0 \<mapsto> ex_element 1 0xFF None (Some (ex_minfo\<lparr>acc_info := Some True\<rparr>)) [\<lparr>peer = Some 1, remote_port = 0\<rparr>],
       1 \<mapsto> ex_element 4 0 None None [\<lparr>peer = Some 0, remote_port = 0\<rparr>, no_peer, \<lparr>peer = Some 2, remote_port = 0\<rparr>, no_peer],
       2 \<mapsto> ex_element 1 1 (Some [2]) None [\<lparr>peer = Some 1, remote_port = 2\<rparr>]],
     mport_handles = [None, Some 0], pe_did_sz = dev08_sz, tags = ct_start, fabric = ()\<rparr>"

lemma ex_fields: "mport (ex_element n hc as i ps) = Some 0" "minfo (ex_element n hc as i ps) = i" "cap (ex_element n hc as i ps) = ex_cap n"
  "peers (ex_element n hc as i ps) = Some ps" "hopcount (ex_element n hc as i ps) = hc" "address (ex_element n hc as i ps) = as"
  "ready (ex_element n hc as i ps) \<longleftrightarrow> (\<forall>j. i = Some j \<longrightarrow> acc_info j = Some True)"
  by (simp_all add: ex_element_def ex_pe_def ready_def has_private_def)

lemma ex_members: "mports ex_lib = {0}" "members ex_lib 0 = {1, 2}"
  by (auto simp: mports_def members_def ex_lib_def ex_fields ex_minfo_def)

lemma ex_inv: "lib_inv {} ex_lib"
proof (rule inv_intro)
  show "pe_did_sz ex_lib = dev08_sz"
    by (simp add: ex_lib_def)
  show "list_ok (mport_handles ex_lib)"
    unfolding list_ok_def ex_lib_def by (rule exI [of _ "[0]"]) simp
  fix m
  assume "m \<in> mports ex_lib"
  then have m: "m = 0"
    by (simp add: ex_members)
  have "list_ok [None, Some 1, Some (2 :: handle)]"
    unfolding list_ok_def by (rule exI [of _ "[1, 2]"]) simp
  then show "mport_ok ex_lib m"
    by (simp add: m mport_ok_def ex_lib_def ex_fields ex_minfo_def)
  fix h
  show "member_ok ex_lib m h" if "h \<in> members ex_lib m"
  proof -
    have "h = 1 \<or> h = 2"
      using that by (simp add: m ex_members)
    then show ?thesis
      by (elim disjE) (simp_all add: m member_ok_def ex_lib_def ex_fields)
  qed
  assume "h \<in> insert m (members ex_lib m)"
  then have "h = 0 \<or> h = 1 \<or> h = 2"
    by (auto simp: m ex_members)
  then show "\<exists>pe. pes ex_lib h = Some pe \<and> links_ok {} (insert m (members ex_lib m)) pe"
    unfolding m ex_members by (elim disjE) (simp_all add: ex_lib_def links_ok_def ex_fields ex_count no_peer_def)
qed

lemma ex_routes: "routes_ok ex_lib"
  by (simp add: routes_ok_def ex_members) (auto simp: ex_lib_def ex_fields peer_at_def get_peer_def)

text \<open>A fabric with a master port only, and a library in which an identifier was created.\<close>

definition ex_mgmt :: "unit mgmt" where
  "ex_mgmt = \<lparr>riomp_mgmt_lcfg_read = (\<lambda>n oset h. (0, if oset = 0 then 0x80AB0038 else if oset = 0x60 then 0x00010000 else 0, h)),
     riomp_mgmt_lcfg_write = (\<lambda>n oset x h. (0, h)), riomp_mgmt_rcfg_read = (\<lambda>n d hc oset h. (0, 0, h)), riomp_mgmt_rcfg_write = (\<lambda>n d hc oset x h. (0, h)),
     riomp_mgmt_destid_set = (\<lambda>n d h. (0, h)), riomp_mgmt_mport_create_handle = (\<lambda>n h. (0, h)), riomp_mgmt_query = (\<lambda>n h. (0, h)),
     riomp_mgmt_mport_destroy_handle = (\<lambda>n h. (0, h)), riomp_mgmt_device_add = (\<lambda>n d hc ct nm h. (0, h)), dev_file_exists = (\<lambda>nm h. False), generic_device_init = (\<lambda>a pe h. (0, h)),
     mpsw_drv_set_route_entry = (\<lambda>a p d r h. (0, h)), mpsw_drv_get_route_entry = (\<lambda>a p d h. (0, 0, h)), mpsw_drv_get_port_state = (\<lambda>a p h. (0, True, h)),
     mpsw_drv_reset_port = (\<lambda>a p l h. (0, h)), mpsw_enable_pe = (\<lambda>a p h. (0, h))\<rparr>"

definition ex_tags :: ct_state where
  "ex_tags = (case ct_create_all (Some 0) (Some DID_INVALID_ID) dev08_sz ct_start of (rc, ct, did, st) \<Rightarrow> st)"

lemma ex_create: "map_option (\<lambda>(rc, p, s). (rc, p, mport_handles s))
    (riocp_pe_create_mport_handle ex_mgmt (\<lambda>_. True) (Some 5) 0 0 True 1 ''mport0'' (riocp_start ex_tags ())) = Some (0, Some 5, [None, Some 5])"
  by code_simp

lemma ex_reachable: "\<exists>s. riocp_reachable ex_mgmt s \<and> mports s = {5}"
proof -
  obtain s where s: "riocp_pe_create_mport_handle ex_mgmt (\<lambda>_. True) (Some 5) 0 0 True 1 ''mport0'' (riocp_start ex_tags ()) = Some (0, Some 5, s)"
    "mport_handles s = [None, Some 5]"
    using ex_create by auto
  have "riocp_step ex_mgmt (riocp_start ex_tags ()) s"
    using s(1) by (rule riocp_step.create_mport_handle) (simp_all add: riocp_start_def)
  then have "riocp_reachable ex_mgmt s"
    by (rule riocp_reachable.step [OF riocp_reachable.start])
  then show ?thesis
    using s(2) by (auto simp: mports_def)
qed

lemma ref_cases: "(1 :: u32) < r \<Longrightarrow> r \<noteq> 0 \<and> r - 1 \<noteq> 0"
  by auto

lemma invalid_after:
  assumes inv: "lib_inv {} s" "lib_inv {} s'" and m: "m \<in> mports s" "mports s' = mports s - {m}" and h: "h \<in> members s m"
    and other: "\<And>n. n \<in> mports s \<Longrightarrow> n \<noteq> m \<Longrightarrow> pes s' n = pes s n"
  shows "\<not> valid s' h"
proof
  assume "valid s' h"
  then obtain n where n: "n \<in> mports s" "n \<noteq> m" "h \<in> insert n (members s' n)"
    using m(2) by (auto simp: valid_def)
  then have "h \<in> insert n (members s n)"
    using other by (auto simp: members_def)
  then show False
    using inv_owner [OF inv(1) m(1) n(1), of h] h n(2) by blast
qed

section \<open>Properties\<close>

text \<open>
  C12. Invariant of the library. In every state that calls of the functions of \<^verbatim>\<open>riocp_pe.h\<close> and events of the fabric can reach (\<open>riocp_step\<close>), with elements
  created and destroyed in any order, every master port and every element is listed once, an element belongs to the master port that lists it, has a
  peer entry for each of its ports and driver data, and its peers are elements of the same master port. \<open>riocp_pe_handle_check\<close> is then defined for
  every pointer that is not null and accepts exactly the listed handles. The steps assume that the memory for the items of the lists of handles is
  available, that a new element gets an address that is not in use, that private data set by a client is a structure of the driver, and that
  \<open>riocp_set_did_sz\<close> is not called for 16 bits: with identifiers of 16 bits a switch whose group cannot be allocated is freed while it stays the
  peer of the element it was probed from (\<^verbatim>\<open>handle.c:410\<close>), and the invariant does not hold.
\<close>

theorem riocp_library_invariant:
  assumes "riocp_reachable G s"
  shows "lib_inv {} s \<and> (\<forall>h. riocp_pe_handle_check (Some h) s = Some (if valid s h then 0 else - ENOENT)) \<and>
     (\<forall>m \<in> mports s. \<forall>h \<in> insert m (members s m). \<exists>pe ps. pes s h = Some pe \<and> mport pe = Some m \<and> peers pe = Some ps \<and>
        length ps = unat (RIOCP_PE_PORT_COUNT (cap pe)) \<and> (\<forall>x \<in> set ps. \<forall>q. peer x = Some q \<longrightarrow> q \<in> insert m (members s m)))"
proof -
  have inv: "lib_inv {} s"
    using assms by induction (simp_all add: start_inv step_inv)
  moreover have "\<exists>pe ps. pes s h = Some pe \<and> mport pe = Some m \<and> peers pe = Some ps \<and>
      length ps = unat (RIOCP_PE_PORT_COUNT (cap pe)) \<and> (\<forall>x \<in> set ps. \<forall>q. peer x = Some q \<longrightarrow> q \<in> insert m (members s m))"
    if m: "m \<in> mports s" and h: "h \<in> insert m (members s m)" for m h
  proof -
    obtain pe where "pes s h = Some pe" "mport pe = Some m"
      using inv_element [OF inv m h] .
    moreover from this have "links_ok {} (insert m (members s m)) pe"
      using inv_links [OF inv m h] by simp
    ultimately show ?thesis
      by (auto simp: links_ok_def)
  qed
  ultimately show ?thesis
    using handle_check_valid by blast
qed

theorem riocp_library_invariant_witness: "\<exists>s. riocp_reachable ex_mgmt s \<and> mports s = {5} \<and> riocp_pe_handle_check (Some 5) s = Some 0"
proof -
  obtain s where s: "riocp_reachable ex_mgmt s" "mports s = {5}"
    using ex_reachable by blast
  then have "riocp_pe_handle_check (Some 5) s = Some 0"
    using riocp_library_invariant [OF s(1)] by (simp add: valid_def)
  with s show ?thesis
    by blast
qed

text \<open>
  Maintenance accesses. When the invariant holds and the address of each element leads over known elements (\<open>routes_ok\<close>, which the operations do not
  ensure: removing a peer can break it), \<open>riocp_pe_maint_read\<close> and \<open>riocp_pe_maint_write\<close> are defined for every pointer, also one that is null or
  dangling, whatever the fabric answers. The links, the lists of handles and the routes are the same afterwards.
\<close>

lemma maint_access_safe:
  assumes "lib_inv {} s" and "routes_ok s"
  shows "(\<exists>rc x s'. riocp_pe_maint_read G p oset s = Some (rc, x, s') \<and> lib_inv {} s' \<and> routes_ok s' \<and> links s' = links s \<and> mport_handles s' = mport_handles s) \<and>
     (\<exists>rc s'. riocp_pe_maint_write G p oset v s = Some (rc, s') \<and> lib_inv {} s' \<and> routes_ok s' \<and> links s' = links s \<and> mport_handles s' = mport_handles s)"
proof -
  have "lib_inv {} s' \<and> routes_ok s' \<and> links s' = links s \<and> mport_handles s' = mport_handles s" if "keeps s s'" for s'
    using inv_keeps [OF assms(1) that] keeps_routes [OF that assms(2)] keeps_links [OF that] that by (simp add: keeps_def)
  moreover obtain rc x s1 where "riocp_pe_maint_read G p oset s = Some (rc, x, s1)" "keeps s s1"
    using maint_safe(1) [OF assms, of G p oset] by (auto simp: safe_def)
  moreover obtain rc' s2 where "riocp_pe_maint_write G p oset v s = Some (rc', s2)" "keeps s s2"
    using maint_safe(2) [OF assms, of G p oset v] by (auto simp: safe_def)
  ultimately show ?thesis
    by blast
qed

lemma maint_access_example:
  "\<forall>G. \<exists>rc x s'. riocp_pe_maint_read G (Some 2) 0x6C ex_lib = Some (rc, x, s') \<and> links s' = links ex_lib"
  using maint_access_safe [OF ex_inv ex_routes] by blast

text \<open>
  C13. References to a master port. \<open>riocp_pe_destroy_handle\<close> for a master port with more than one reference only drops one. For the last reference the
  master port is removed from the list and freed, the invariant is kept, and no element of it is accepted as a handle any more. All elements are freed
  but the last one of its list, which stays allocated: the loop over the list ends at its last item instead of behind it.
\<close>

theorem destroy_mport_effect:
  assumes inv: "lib_inv {} s" and m: "m \<in> mports s" and mp: "pes s m = Some mp" "minfo mp = Some i" "handles i = None # map Some hs"
  shows "(1 < mp_ref i \<longrightarrow> riocp_pe_destroy_handle G (Some m) s =
       Some (0, Some m, s\<lparr>pes := (pes s)(m \<mapsto> mp\<lparr>minfo := Some (i\<lparr>mp_ref := mp_ref i - 1\<rparr>)\<rparr>)\<rparr>)) \<and>
     (mp_ref i = 1 \<longrightarrow> (\<exists>s'. riocp_pe_destroy_handle G (Some m) s = Some (0, None, s') \<and> lib_inv {} s' \<and> mports s' = mports s - {m} \<and>
        (\<forall>a. pes s' a = (if a = m \<or> a \<in> set (butlast hs) then None else pes s a)) \<and>
        (\<forall>h \<in> set hs. riocp_pe_handle_check (Some h) s' = Some (- ENOENT))))"
proof (intro conjI impI)
  have "valid s m"
    using m by (auto simp: valid_def)
  then have check: "riocp_pe_handle_check (Some m) s = Some 0"
    using handle_check_valid [OF inv] by simp
  note destroy = riocp_pe_destroy_handle_def riocp_pe_handle_mport_put_def check at_def mp RIOCP_PE_IS_MPORT_def upd_minfo_def upd_pe_def
  show "riocp_pe_destroy_handle G (Some m) s = Some (0, Some m, s\<lparr>pes := (pes s)(m \<mapsto> mp\<lparr>minfo := Some (i\<lparr>mp_ref := mp_ref i - 1\<rparr>)\<rparr>)\<rparr>)"
    if "1 < mp_ref i"
    using ref_cases [OF that] by (simp add: destroy)
  assume ref: "mp_ref i = 1"
  define t where "t = s\<lparr>pes := (pes s)(m \<mapsto> mp\<lparr>minfo := Some (i\<lparr>mp_ref := 0\<rparr>)\<rparr>)\<rparr>"
  have t: "upd_minfo m (\<lambda>i. i\<lparr>mp_ref := mp_ref i - 1\<rparr>) s = Some t"
    by (simp add: t_def upd_minfo_def upd_pe_def at_def mp ref)
  have inv_t: "lib_inv {} t"
    using t by (rule ref_inv [OF inv])
  have m_t: "m \<in> mports t" "mports t = mports s"
    using m by (simp_all add: t_def mports_def)
  have own_data: "has_private (mp\<lparr>minfo := Some (i\<lparr>mp_ref := 0\<rparr>)\<rparr>)"
    using inv_links [OF inv m _ _ mp(1)] by (simp add: links_ok_def ready_def has_private_def)
  obtain s' f items where s': "riocp_pe_handle_destroy G m t = Some s'" "s' = (without (insert m (set (butlast hs))) t)\<lparr>mport_handles := items, fabric := f\<rparr>"
    "list_ok items" "set items = set (mport_handles t) - {Some m}"
    by (rule destroy_mport_eq [OF inv_t m_t(1), of "mp\<lparr>minfo := Some (i\<lparr>mp_ref := 0\<rparr>)\<rparr>" "i\<lparr>mp_ref := 0\<rparr>" hs G]) (use mp own_data in \<open>simp_all add: t_def\<close>)
  have mem: "members s m = set hs"
    using mp by (auto simp: members_def)
  have "members t m = set hs"
    using mp by (auto simp: members_def t_def)
  then have inv': "lib_inv {} s'"
    unfolding s'(2) by (intro inv_without [OF inv_t _ m_t(1)]) (use s'(3,4) in \<open>auto dest: in_set_butlastD\<close>)
  have lists: "mports s' = mports s - {m}"
    using s'(4) by (auto simp: s'(2) mports_def t_def)
  have pes': "pes s' a = (if a = m \<or> a \<in> set (butlast hs) then None else pes s a)" for a
    by (simp add: s'(2) without_def t_def)
  have "pes s' n = pes s n" if n: "n \<in> mports s" "n \<noteq> m" for n
    using n inv_not_mport [OF inv m, of n] mem pes' by (auto dest: in_set_butlastD)
  then have "riocp_pe_handle_check (Some h) s' = Some (- ENOENT)" if "h \<in> set hs" for h
    using handle_check_valid [OF inv', of h] invalid_after [OF inv inv' m lists, of h] that mem by simp
  moreover have "riocp_pe_destroy_handle G (Some m) s = Some (0, None, s')"
    using s'(1) ref by (simp add: riocp_pe_destroy_handle_def riocp_pe_handle_mport_put_def check at_def mp RIOCP_PE_IS_MPORT_def t)
  ultimately show "\<exists>s'. riocp_pe_destroy_handle G (Some m) s = Some (0, None, s') \<and> lib_inv {} s' \<and> mports s' = mports s - {m} \<and>
      (\<forall>a. pes s' a = (if a = m \<or> a \<in> set (butlast hs) then None else pes s a)) \<and> (\<forall>h \<in> set hs. riocp_pe_handle_check (Some h) s' = Some (- ENOENT))"
    using inv' lists pes' by blast
qed

theorem destroy_mport_effect_witness:
  "\<exists>s'. riocp_pe_destroy_handle ex_mgmt (Some 0) ex_lib = Some (0, None, s') \<and> mports s' = {} \<and> pes s' 1 = None \<and> pes s' 2 \<noteq> None \<and>
     riocp_pe_handle_check (Some 2) s' = Some (- ENOENT)"
proof -
  have "\<exists>s'. riocp_pe_destroy_handle ex_mgmt (Some 0) ex_lib = Some (0, None, s') \<and> lib_inv {} s' \<and> mports s' = mports ex_lib - {0} \<and>
      (\<forall>a. pes s' a = (if a = 0 \<or> a \<in> set (butlast [1, 2]) then None else pes ex_lib a)) \<and>
      (\<forall>h \<in> set [1, 2]. riocp_pe_handle_check (Some h) s' = Some (- ENOENT))"
    by (rule destroy_mport_effect [OF ex_inv, of 0
        "ex_element 1 0xFF None (Some (ex_minfo\<lparr>acc_info := Some True\<rparr>)) [\<lparr>peer = Some 1, remote_port = 0\<rparr>]" "ex_minfo\<lparr>acc_info := Some True\<rparr>" "[1, 2]" ex_mgmt, THEN conjunct2, THEN mp])
      (simp_all add: ex_members ex_fields ex_minfo_def, simp_all add: ex_lib_def ex_fields ex_minfo_def)
  then show ?thesis
    by (auto simp: ex_members) (auto simp: ex_lib_def)
qed

end
