(* ===== verification/Spec2Isabelle.thy ===== *)
theory Spec2Isabelle
  imports Rio_Ct Lib_Set Lib_List Time_Utils Tok_Parse Pkt_Types Cps_Hw Tsi_Hw Pe_Safe
begin

text \<open>
  A verification of the RapidIO software stack (\<^verbatim>\<open>rapidio_sw\<close>): the libraries under \<^verbatim>\<open>common\<close> and \<^verbatim>\<open>fabric_management\<close> that keep
  its state and make its decisions. A fabric is a network of processing elements and switches. Its management gives every
  device an identifier and a component tag, reaches the registers of the devices with maintenance packets, finds out
  what a device is, and programs the routing tables of the switches. Paths below are relative to \<^verbatim>\<open>src\<close>.

  \<^bold>\<open>Parts and theories.\<close>

  \<^item> \<open>Rio_Prelude\<close>: the types of the C integers, the error numbers and lemmas on words, lists and bits that several components share.

  \<^item> \<open>Rio_Did\<close> (\<^verbatim>\<open>fabric_management/libdid/src/did.c\<close>): the table \<open>did_ids\<close> of device identifiers, their creation, lookup and release, and the
    groups of 256 identifiers. \<open>Rio_Ct\<close> (\<^verbatim>\<open>fabric_management/libct/src/ct.c\<close>) keeps the use counts of component tag numbers over it: the state
    of the tags contains that of the identifiers, and each creation function calls \<open>did_create\<close> or \<open>did_create_from_data\<close> and rolls
    back as the code does. Shown: a created identifier or tag was free and is then taken, none is handed out twice, creation
    fails only when nothing is free, a failed creation changes nothing, retired numbers stay retired.

  \<^item> \<open>Lib_Set\<close>, \<open>Lib_List\<close>, \<open>Time_Utils\<close>, \<open>Tok_Parse\<close> (\<^verbatim>\<open>common/libset\<close>, \<^verbatim>\<open>common/liblist\<close>, \<^verbatim>\<open>common/libtime_utils\<close>, \<^verbatim>\<open>common/libcli\<close>): the containers, the
    time stamps and the number parsers that the programs use. The set refines a finite set with capacity. The list lives in an
    explicit heap of items, so that dangling pointers are visible, and refines a queue and an ordered list. Time arithmetic agrees with
    that of nanoseconds. The parsers invert printing and accept exactly the tokens that denote a number in range, where a token with a minus sign denotes its
    negation modulo 2^64, as \<open>strtoull\<close> has it.

  \<^item> \<open>Pkt_Size\<close>, \<open>Control_Symbols\<close>, \<open>Pkt_Crc\<close>, \<open>Pkt_Compose\<close>, \<open>Pkt_Parse\<close>, \<open>Pkt_Layers\<close>, \<open>Pkt_Roundtrip\<close>, \<open>Pkt_Types\<close>
    (\<^verbatim>\<open>fabric_management/librio/src/RapidIO_Utilities_API.c\<close>): the size fields of requests, control symbols with their 5 and 13 bit checksums, packet
    checksums, and the functions that compose packets from fields and parse them. Checksums detect corrupted symbols and are computed as the
    polynomial division; parsing what was composed returns the fields of each packet type, with the exceptions that the theorem \<open>pkt_roundtrip\<close> lists (raw packets and
    short data are not covered, the status of maintenance responses is lost).

  \<^item> \<open>Dar_Regs\<close>, \<open>Dar_Dev\<close> (\<^verbatim>\<open>fabric_management/librio/src/RapidIO_Device_Access_Routines_API.c\<close> and the files \<^verbatim>\<open>*_DeviceDriver.c\<close>, \<^verbatim>\<open>Tsi721_API.c\<close>,
    \<^verbatim>\<open>Tsi57x_API.c\<close>): access to the registers of a device through a cache and the emulation of two device families, the device lock, standard
    registers, discovery of a device and control of its ports. The cache is transparent for the families that are accessed without emulation (CPS, RXS and unknown
    devices) and not for the Tsi721, the lock excludes, discovery returns exactly when
    the list of extended features ends, and enabling ports changes the bits it names.

  \<^item> \<open>Rxs_Rt\<close>, \<open>Rxs_Hw\<close> (\<^verbatim>\<open>fabric_management/librio/src/RXS_RT.c\<close>, with the multicast masks of \<^verbatim>\<open>RapidIO_DeviceDriverStub.c\<close>): the routing tables of the
    RXS switches, first the tables kept in memory, then their transfer to and from the registers. Every table that the operations build is well
    formed, the route check refines the abstract set of ports that a packet is forwarded to, and setting the tables and reading them back preserves
    this set.

  \<^item> \<open>Rt_Check\<close> (\<^verbatim>\<open>fabric_management/librio/src/RapidIO_Routing_Table_API.c\<close>): the checks of routes that the drivers of the other two switch families share, and the
    step that looks at the output port. \<open>Cps_Rt\<close>, \<open>Cps_Inv\<close>, \<open>Cps_Hw\<close> (\<^verbatim>\<open>fabric_management/librio/src/CPS_RT.c\<close>): the routing tables of the CPS switches, the invariant of
    the tables that the driver builds, and their transfer to and from the registers, in which each entry is translated to a byte. \<open>Tsi_Rt\<close>, \<open>Tsi_Inv\<close>, \<open>Tsi_Regs\<close>, \<open>Tsi_Hw\<close>
    (\<^verbatim>\<open>fabric_management/librio/src/Tsi57x_RT.c\<close>): those of the Tsi57x switches, whose entries are reached through an index register and whose multicast registers the driver
    copies (\<open>Dar_Regs\<close>). For both families every table that the operations build is well formed, and what is set is read back: on CPS switches every lookup is the
    same; on Tsi57x switches an entry that discards packets is read as the default route.

  \<^item> \<open>Pe_Handle\<close>, \<open>Pe_Drv\<close>, \<open>Pe_Maint\<close>, \<open>Pe_Ops\<close>, \<open>Pe_Probe\<close> (\<^verbatim>\<open>fabric_management/libriocp_pe/src\<close> and the register access of
    \<^verbatim>\<open>fabric_management/libpe_mpdrv/src\<close>): the processing elements of a fabric. A handle is the address of a \<open>struct riocp_pe\<close>, the state \<open>riocp\<close> holds the
    structures, the list of master ports, the identifier size, the tables of \<open>Rio_Ct\<close> and the fabric. \<open>Pe_Handle\<close> has the handles, their lists and reference
    counts, peers and addresses; \<open>Pe_Drv\<close> reaches a register through \<open>DARRegRead\<close> of \<open>Dar_Regs\<close> and finds the driver of a device with \<open>Dar_Dev\<close>; \<open>Pe_Maint\<close>
    has the host lock and the maintenance accesses, which set up the route to their target first; \<open>Pe_Ops\<close> creates elements and master ports; \<open>Pe_Probe\<close>
    explores the network. \<open>Pe_Frame\<close> and \<open>Pe_Keep\<close> hold the calculus of the proofs: \<open>holds\<close> and \<open>safe\<close> for partial and total correctness, and the locale
    \<open>stable\<close> with a rule for each operation that keeps the handles. \<open>Pe_Inv\<close>, \<open>Pe_Create\<close> and \<open>Pe_Steps\<close> show the invariant of the library for each
    operation, with the locale \<open>creation\<close> for an element that is being set up, and \<open>Pe_Safe\<close> the properties: the invariant in every reachable state of the
    public interface, the effect of the last reference to a master port, and, where routes lead over known elements, maintenance accesses without undefined behaviour.

  \<^bold>\<open>How the code is modelled.\<close> A C struct is a record, an enum a datatype, an unsigned integer a word of its width, so that arithmetic wraps around
  as in C; signed integers that cannot overflow are integers. State that the code keeps in static variables, or behind a pointer, is an argument
  and a result. A function returns its return code with its results; error codes are those of the code. An access outside an
  array, through a null or dangling pointer, or a loop that does not end is the value \<open>None\<close> where the code can reach it. Loops are structural recursion
  or come with a termination proof, except the walks along the extended features of a device, which need not end and are partial functions, and
  the operations on a cyclic list. There is no fuel.

  \<^bold>\<open>Parameters.\<close> Code outside the repository is an argument: the functions \<open>ReadReg\<close> and \<open>WriteReg\<close> of the host that reach a device (record \<open>host\<close>), the
  clock and \<open>nanosleep\<close>, the master port library of the kernel driver (record \<open>mgmt\<close>), the success of \<open>malloc\<close> and \<open>realloc\<close> and the contents of their blocks, and the \<open>free\<close> functions of list items. What a theorem
  assumes of them is stated as a locale or a predicate: \<open>stable_registers\<close> (reading a cached register returns the value written last),
  \<open>lock_host\<close> (the lock register as the RapidIO specification defines it), \<open>rxs_tables\<close> (broadcast registers of a switch set the table of every port),
  \<open>register_access\<close> (registers reached without emulation are read and written as the host says) with its extensions \<open>cps_tables\<close> (the tables of a CPS switch, with
  registers for one port and for all) and \<open>tsi_tables\<close> (the index and data registers of a Tsi57x switch),
  \<open>regs_read\<close> (reads succeed and have no effect). Each is interpreted or instantiated: \<open>stable_registers\<close> by plain memory, \<open>rxs_tables\<close>, \<open>cps_tables\<close> and \<open>tsi_tables\<close> by a switch of the
  family (\<open>cps_switch\<close>, \<open>tsi_switch\<close>). The port configuration and status functions of the drivers that a probe of a route calls are arguments, too (record \<open>port_functions\<close>).
  The record \<open>mgmt\<close> also has the functions of \<^verbatim>\<open>pe_mpdrv.c\<close> that configure a device through its driver: the theorems hold whatever they
  and the fabric return. A state of the library is reached by calls in which the list item of a new element can be allocated, new elements get an address
  that is not in use, private data is a structure of the driver and the identifiers keep 8 bits; without the first the code fails in the way that \<open>create_fail_unlisted\<close>
  shows, and with 16 bits a freed switch can stay linked. The lemma on maintenance accesses assumes that the address of each element leads over known elements (\<open>routes_ok\<close>), since \<open>riocp_pe_remove_peer\<close> can cut the way.

  \<^bold>\<open>Not modelled.\<close> Port configuration, error management and statistics counters of the four device families are long register sequences whose
  meaning is in the register manuals, not in the code. The daemon, the command interpreter, the master port library and the utilities are
  threads, sockets, files and system calls around the libraries. The unit test framework is third-party code and the register headers are generated.
  Of \<^verbatim>\<open>RapidIO_Routing_Table_API.c\<close> the functions that select the driver of a device are left out; the device directory \<^verbatim>\<open>libdd\<close> is shared memory that other processes write. In \<^verbatim>\<open>libriocp_pe\<close> the directory of master ports, names
  of devices, drawing and \<open>riocp_pe_get_ports\<close> are left out.
  Tests against null arguments are left out where the model has no null pointer, and so is logging.
\<close>

end
